(* ===== verification/Prelude.thy ===== *)
theory Prelude
  imports Main "HOL-Library.Word" "HOL-Library.Monad_Syntax"
begin

unbundle bit_operations_syntax

text \<open>
  Prelude of the LoWS development: the machine types the C code computes with, the
  unaligned-access helpers of \<open>utils/common.h\<close>, C strings, and the generic lemmas the
  component theories share.

  \<^item> \<open>byte\<close>, \<open>u16\<close>, \<open>u32\<close> are the C types \<open>u8\<close>, \<open>u16\<close>, \<open>u32\<close>; a \<open>char *\<close> that points
    into a NUL-terminated string is the \<open>string\<close> of the characters before the
    terminator, and reading at the terminator gives \<open>nul\<close> (\<open>c_at\<close>).
  \<^item> A buffer is the \<open>byte list\<close> of its octets. An access the C code would make
    outside an object is a value of \<open>fault\<close>, never an unspecified list element.
  \<^item> \<open>elen\<close> facts (\<open>unat b < 256\<close>), the round trips of the little- and big-endian helpers
    and the exhaustive checks over characters and octets are collected in the
    named collections \<open>octet\<close> and \<open>endian\<close>.
\<close>

named_theorems octet "facts about octets and characters"
named_theorems endian "round trips of the unaligned access helpers"

type_synonym byte = "8 word"
type_synonym u16 = "16 word"
type_synonym u32 = "32 word"

text \<open>The ways in which the modelled C code leaves the objects it owns.\<close>

datatype fault =
    Write_past_end nat nat  \<comment> \<open>capacity of the object, length the write needs\<close>
  | Read_past_end nat nat   \<comment> \<open>length of the object, first octet past the read\<close>
  | Bad_index nat int       \<comment> \<open>length of the array, index\<close>
  | Null_deref              \<comment> \<open>access through a null pointer\<close>
  | Uninitialised           \<comment> \<open>a local variable is read before it is written\<close>
  | Int_overflow            \<comment> \<open>a signed result outside the range of \<open>int\<close>\<close>
  | Abort                   \<comment> \<open>the code calls \<open>abort()\<close>\<close>

definition fbind :: "'e + 'a \<Rightarrow> ('a \<Rightarrow> 'e + 'b) \<Rightarrow> 'e + 'b" where
  "fbind m f = (case m of Inl e \<Rightarrow> Inl e | Inr x \<Rightarrow> f x)"

lemma fbind_simps [simp]: "fbind (Inl e) f = Inl e" "fbind (Inr x) f = f x"
  by (simp_all add: fbind_def)

lemma fbind_Inr_iff: "fbind m f = Inr y \<longleftrightarrow> (\<exists>x. m = Inr x \<and> f x = Inr y)"
  by (cases m) auto

section \<open>Characters, octets and C strings\<close>

definition ord8 :: "char \<Rightarrow> byte" where
  "ord8 c = word_of_nat (of_char c)"

definition chr8 :: "byte \<Rightarrow> char" where
  "chr8 b = char_of (unat b)"

definition nul :: char where
  "nul = CHR 0x00"

definition c_at :: "string \<Rightarrow> nat \<Rightarrow> char" where
  "c_at s i = (if i < length s then s ! i else nul)"

definition c_string :: "string \<Rightarrow> bool" where
  "c_string s \<longleftrightarrow> nul \<notin> set s"

text \<open>\<open>strncmp (s, p, strlen p) == 0\<close> for a literal \<open>p\<close>.\<close>

definition starts_with :: "string \<Rightarrow> string \<Rightarrow> bool" where
  "starts_with p s \<longleftrightarrow> take (length p) s = p"

lemma of_char_lt [octet]: "(of_char c :: nat) < 256"
  by (metis char_of_char mod_less_divisor of_char_of zero_less_numeral)

lemma unat_byte_lt [octet]: "unat (b :: byte) < 256"
  using unsigned_less [of b, where 'a = nat] by simp

lemma unat_byte_le [octet]: "unat (b :: byte) \<le> 255"
  using unat_byte_lt [of b] by simp

lemma unat_ord8 [simp]: "unat (ord8 c) = of_char c"
  using of_char_lt [of c] by (simp add: ord8_def unat_of_nat)

lemma chr8_ord8 [simp]: "chr8 (ord8 c) = c"
  by (simp add: chr8_def)

lemma ord8_chr8 [simp]: "ord8 (chr8 b) = b"
proof -
  have "unat b mod 256 = unat b" using unat_byte_lt [of b] by simp
  then show ?thesis by (simp add: ord8_def chr8_def)
qed

lemma map_ord8_chr8 [simp]: "map ord8 (map chr8 bs) = bs"
  by (induction bs) auto

lemma map_chr8_ord8 [simp]: "map chr8 (map ord8 s) = s"
  by (induction s) auto

lemma c_at_0_Cons [simp]: "c_at (c # s) 0 = c"
  by (simp add: c_at_def)

lemma c_at_Suc_Cons [simp]: "c_at (c # s) (Suc i) = c_at s i"
  by (simp add: c_at_def)

lemma c_at_1_Cons [simp]: "c_at (c # s) 1 = c_at s 0"
  by (simp add: c_at_def)

lemma c_at_Nil [simp]: "c_at [] i = nul"
  by (simp add: c_at_def)

lemma c_at_append [simp]: "i < length s \<Longrightarrow> c_at (s @ t) i = c_at s i"
  by (simp add: c_at_def nth_append)

lemma starts_with_append [simp]: "starts_with p (p @ s)"
  by (simp add: starts_with_def)

lemma starts_with_split: "starts_with p s \<Longrightarrow> s = p @ drop (length p) s"
  by (metis append_take_drop_id starts_with_def)

text \<open>Statements about every character or every octet are decided by enumeration.\<close>

lemma all_char: "(\<forall>c::char. P c) \<longleftrightarrow> list_all P Enum.enum"
  by (simp add: list_all_iff enum_UNIV)

lemma all_byte: "(\<forall>b::byte. P b) \<longleftrightarrow> list_all (\<lambda>n. P (word_of_nat n)) [0..<256]"
proof
  assume a: "list_all (\<lambda>n. P (word_of_nat n)) [0..<256]"
  show "\<forall>b. P b"
  proof
    fix b :: byte
    from a have "\<forall>n < 256. P (word_of_nat n)" by (simp add: list_all_iff)
    then have "P (word_of_nat (unat b))" using unat_byte_lt [of b] by blast
    then show "P b" by simp
  qed
qed (simp add: list_all_iff)

text \<open>
  \<open>atoi\<close> of the C library: white space, a sign, decimal digits. A value outside the
  range of \<open>int\<close> is undefined in C and an unbounded integer here.
\<close>

definition is_digit :: "char \<Rightarrow> bool" where
  "is_digit c \<longleftrightarrow> (48 :: nat) \<le> of_char c \<and> of_char c \<le> (57 :: nat)"

definition is_space :: "char \<Rightarrow> bool" where
  "is_space c \<longleftrightarrow> c = CHR '' '' \<or> ((9 :: nat) \<le> of_char c \<and> of_char c \<le> (13 :: nat))"

definition digits_value :: "string \<Rightarrow> int" where
  "digits_value s = foldl (\<lambda>v c. 10 * v + (of_char c - 48)) 0 (takeWhile is_digit s)"

definition atoi :: "string \<Rightarrow> int" where
  "atoi s =
     (let t = dropWhile is_space s in
      if starts_with ''-'' t then - digits_value (drop 1 t)
      else if starts_with ''+'' t then digits_value (drop 1 t)
      else digits_value t)"

text \<open>Decimal output: \<open>%zu\<close> of \<open>printf\<close>.\<close>

fun fmt_zu :: "nat \<Rightarrow> string" where
  "fmt_zu n = (if n < 10 then [char_of (48 + n)] else fmt_zu (n div 10) @ [char_of (48 + n mod 10)])"

definition newline :: char where
  "newline = CHR 0x0A"

declare fmt_zu.simps [simp del]

lemma fmt_zu_low: "n < 10 \<Longrightarrow> fmt_zu n = [char_of (48 + n)]"
  by (simp add: fmt_zu.simps)

lemma fmt_zu_high: "\<not> n < 10 \<Longrightarrow> fmt_zu n = fmt_zu (n div 10) @ [char_of (48 + n mod 10)]"
  by (subst fmt_zu.simps) simp

lemma digit_char:
  assumes "k < (10 :: nat)"
  shows "is_digit (char_of (48 + k))" and "of_char (char_of (48 + k) :: char) = 48 + int k"
proof -
  have c: "(of_char (char_of (48 + k) :: char) :: nat) = 48 + k" using assms by simp
  then show "is_digit (char_of (48 + k))" using assms by (simp add: is_digit_def)
  have "(of_char (char_of (48 + k) :: char) :: int) = int (of_char (char_of (48 + k) :: char))"
    by (simp only: of_nat_of_char)
  then show "of_char (char_of (48 + k) :: char) = 48 + int k" using c by simp
qed

lemma fmt_zu_digits: "\<forall>c \<in> set (fmt_zu n). is_digit c"
proof (induction n rule: fmt_zu.induct)
  case (1 n)
  show ?case
  proof (cases "n < 10")
    case True
    then show ?thesis using digit_char(1) [OF True] by (simp add: fmt_zu_low)
  next
    case False
    have "n mod 10 < 10" by simp
    from 1 [OF False] digit_char(1) [OF this] show ?thesis by (simp add: fmt_zu_high [OF False])
  qed
qed

lemma fmt_zu_value: "foldl (\<lambda>v c. 10 * v + (of_char c - 48)) 0 (fmt_zu n) = int n"
proof (induction n rule: fmt_zu.induct)
  case (1 n)
  show ?case
  proof (cases "n < 10")
    case True
    then show ?thesis using digit_char(2) [OF True] by (simp add: fmt_zu_low)
  next
    case False
    have "n mod 10 < 10" by simp
    moreover have "10 * (n div 10) + n mod 10 = n" by simp
    then have "10 * int (n div 10) + int (n mod 10) = int n" by linarith
    ultimately show ?thesis using 1 [OF False] digit_char(2) [of "n mod 10"] by (simp add: fmt_zu_high [OF False])
  qed
qed

lemma length_fmt_zu: "length (fmt_zu n) \<le> k \<longleftrightarrow> 0 < k \<and> n < 10 ^ k"
proof (induction k arbitrary: n)
  case 0
  then show ?case by (cases "n < 10") (simp_all add: fmt_zu_low fmt_zu_high)
next
  case (Suc k)
  show ?case
  proof (cases "n < 10")
    case True
    have "(10 :: nat) \<le> 10 ^ Suc k" by simp
    with True have "n < 10 ^ Suc k" by (rule less_le_trans)
    then show ?thesis using True by (simp add: fmt_zu_low)
  next
    case False
    have "n div 10 < 10 ^ k \<longleftrightarrow> n < 10 ^ Suc k" by (simp add: div_less_iff_less_mult mult.commute)
    moreover have "k = 0 \<Longrightarrow> \<not> n < 10 ^ Suc k" using False by simp
    ultimately show ?thesis using Suc.IH [of "n div 10"] by (auto simp: fmt_zu_high [OF False])
  qed
qed

lemma atoi_digits:
  assumes "ds \<noteq> []" and "\<forall>c \<in> set ds. is_digit c" and "\<not> is_digit c"
  shows "atoi (ds @ c # rest) = foldl (\<lambda>v c. 10 * v + (of_char c - 48)) 0 ds"
proof -
  obtain d es where d: "ds = d # es" using assms(1) by (cases ds) auto
  have n: "\<not> is_space d" "d \<noteq> CHR ''-''" "d \<noteq> CHR ''+''" using assms(2) unfolding d by (auto simp: is_digit_def is_space_def)
  have "takeWhile is_digit (ds @ c # rest) = ds" using assms(2,3) by (simp add: takeWhile_append)
  then show ?thesis using n by (simp add: atoi_def digits_value_def starts_with_def d)
qed

text \<open>Division of C integers truncates towards zero.\<close>

definition c_div :: "int \<Rightarrow> int \<Rightarrow> int" where
  "c_div a b = (if (a < 0) = (b < 0) then \<bar>a\<bar> div \<bar>b\<bar> else - (\<bar>a\<bar> div \<bar>b\<bar>))"

section \<open>Unaligned little- and big-endian access (\<open>utils/common.h\<close>)\<close>

definition get_le16 :: "byte list \<Rightarrow> nat \<Rightarrow> u16" where
  "get_le16 a i = push_bit 8 (ucast (a ! (i + 1))) OR ucast (a ! i)"

definition put_le16 :: "u16 \<Rightarrow> byte list" where
  "put_le16 v = [ucast v, ucast (drop_bit 8 v)]"

definition get_be16 :: "byte list \<Rightarrow> nat \<Rightarrow> u16" where
  "get_be16 a i = push_bit 8 (ucast (a ! i)) OR ucast (a ! (i + 1))"

definition put_be16 :: "u16 \<Rightarrow> byte list" where
  "put_be16 v = [ucast (drop_bit 8 v), ucast v]"

definition get_be24 :: "byte list \<Rightarrow> nat \<Rightarrow> u32" where
  "get_be24 a i = push_bit 16 (ucast (a ! i)) OR push_bit 8 (ucast (a ! (i + 1)))
     OR ucast (a ! (i + 2))"

definition put_be24 :: "u32 \<Rightarrow> byte list" where
  "put_be24 v = [ucast (drop_bit 16 v), ucast (drop_bit 8 v), ucast v]"

definition get_be32 :: "byte list \<Rightarrow> nat \<Rightarrow> u32" where
  "get_be32 a i = push_bit 24 (ucast (a ! i)) OR push_bit 16 (ucast (a ! (i + 1)))
     OR push_bit 8 (ucast (a ! (i + 2))) OR ucast (a ! (i + 3))"

definition put_be32 :: "u32 \<Rightarrow> byte list" where
  "put_be32 v = [ucast (drop_bit 24 v), ucast (drop_bit 16 v), ucast (drop_bit 8 v), ucast v]"

definition get_le32 :: "byte list \<Rightarrow> nat \<Rightarrow> u32" where
  "get_le32 a i = push_bit 24 (ucast (a ! (i + 3))) OR push_bit 16 (ucast (a ! (i + 2)))
     OR push_bit 8 (ucast (a ! (i + 1))) OR ucast (a ! i)"

definition put_le32 :: "u32 \<Rightarrow> byte list" where
  "put_le32 v = [ucast v, ucast (drop_bit 8 v), ucast (drop_bit 16 v), ucast (drop_bit 24 v)]"

lemma join16: "push_bit 8 (ucast (ucast (drop_bit 8 v) :: byte)) OR ucast (ucast v :: byte) = (v :: u16)"
  by (rule bit_word_eqI) (auto simp: bit_simps)

lemma join32:
  "push_bit 24 (ucast (ucast (drop_bit 24 v) :: byte)) OR push_bit 16 (ucast (ucast (drop_bit 16 v) :: byte))
     OR push_bit 8 (ucast (ucast (drop_bit 8 v) :: byte)) OR ucast (ucast v :: byte) = (v :: u32)"
  (is "?l = v")
proof (rule bit_word_eqI)
  fix n :: nat
  assume "n < LENGTH(32)"
  then consider "n < 8" | "8 \<le> n \<and> n < 16" | "16 \<le> n \<and> n < 24" | "24 \<le> n \<and> n < 32"
    by fastforce
  then show "bit ?l n \<longleftrightarrow> bit v n"
    by cases (auto simp: bit_simps)
qed

lemma get_le16_put [endian, simp]: "get_le16 (xs @ put_le16 v @ ys) (length xs) = v"
  by (simp add: get_le16_def put_le16_def nth_append join16)

lemma get_be16_put [endian, simp]: "get_be16 (xs @ put_be16 v @ ys) (length xs) = v"
  by (simp add: get_be16_def put_be16_def nth_append join16)

lemma get_be32_put [endian, simp]: "get_be32 (xs @ put_be32 v @ ys) (length xs) = v"
  by (simp add: get_be32_def put_be32_def nth_append join32)

lemma get_le32_put [endian, simp]: "get_le32 (xs @ put_le32 v @ ys) (length xs) = v"
  by (simp add: get_le32_def put_le32_def nth_append join32)

lemma length_put [simp]:
  "length (put_le16 v) = 2" "length (put_be16 v) = 2" "length (put_be24 w) = 3"
  "length (put_be32 w) = 4" "length (put_le32 w) = 4"
  by (simp_all add: put_le16_def put_be16_def put_be24_def put_be32_def put_le32_def)

section \<open>Generic list facts\<close>

lemma take_drop_consecutive: "take m xs @ take n (drop m xs) = take (m + n) xs"
  by (simp add: take_add)

lemma length_concat_sum: "length (concat xss) = sum_list (map length xss)"
  by (induction xss) auto

lemma list_update_append_fst: "i < length xs \<Longrightarrow> (xs @ ys)[i := x] = xs[i := x] @ ys"
  by (simp add: list_update_append)

lemma foldl_append_concat: "foldl (\<lambda>acc x. acc @ f x) a xs = a @ concat (map f xs)"
  by (induction xs arbitrary: a) auto

end
