(* ===== verification/Interfaces.thy ===== *)
theory Interfaces
  imports Prelude
begin

text \<open>
  The contracts the components rely on, as locales. Each is interpreted on the model of
  the code that provides it, in the theory of that component:

  \<^item> \<open>codec\<close>: an encoder and a decoder that undoes it on the inputs the encoder is
    used for (hex text, printable SSID text, base64, MAC addresses);
  \<^item> \<open>append_buffer\<close>: a bounded buffer that is written at its end (\<open>struct wpabuf\<close>, the
    frame buffers of the beacon code); its client is the construction of a frame from
    a list of fragments;
  \<^item> \<open>tlv_walker\<close>: a loop over the elements (id, length, body) of a management frame;
    its client lemma says that on a well-formed sequence the loop visits every element
    once, in order;
  \<^item> \<open>bit_store\<close>: a set of small numbers kept as bits (\<open>struct bitfield\<close>).
\<close>

section \<open>Encoders and decoders\<close>

locale codec =
  fixes enc :: "'a \<Rightarrow> 'b"
    and dec :: "'b \<Rightarrow> 'c option"
    and val :: "'a \<Rightarrow> 'c"
    and ok :: "'a \<Rightarrow> bool"
  assumes dec_enc: "ok x \<Longrightarrow> dec (enc x) = Some (val x)"
begin

lemma dec_enc_defined: "ok x \<Longrightarrow> dec (enc x) \<noteq> None"
  by (simp add: dec_enc)

lemma enc_determines_val:
  assumes "ok x" and "ok y" and "enc x = enc y"
  shows "val x = val y"
  using dec_enc [OF assms(1)] dec_enc [OF assms(2)] assms(3) by simp

lemma enc_inj_on: "inj_on val A \<Longrightarrow> (\<And>x. x \<in> A \<Longrightarrow> ok x) \<Longrightarrow> inj_on enc A"
  by (meson enc_determines_val inj_on_def)

end

section \<open>Bounded buffers written at the end\<close>

text \<open>Appending a list of fragments stops at the first one that does not fit.\<close>

fun put_all :: "('w \<Rightarrow> byte list \<Rightarrow> 'e + 'w) \<Rightarrow> 'w \<Rightarrow> byte list list \<Rightarrow> 'e + 'w" where
  "put_all put b [] = Inr b"
| "put_all put b (xs # xss) =
     (case put b xs of Inl e \<Rightarrow> Inl e | Inr b' \<Rightarrow> put_all put b' xss)"

locale append_buffer =
  fixes put :: "'w \<Rightarrow> byte list \<Rightarrow> 'e + 'w"
    and content :: "'w \<Rightarrow> byte list"
    and room :: "'w \<Rightarrow> nat"
    and wf :: "'w \<Rightarrow> bool"
  assumes put_fits: "wf b \<Longrightarrow> length xs \<le> room b \<Longrightarrow>
      \<exists>b'. put b xs = Inr b' \<and> wf b' \<and> content b' = content b @ xs
        \<and> room b' = room b - length xs"
    and put_full: "wf b \<Longrightarrow> room b < length xs \<Longrightarrow> \<exists>e. put b xs = Inl e"
begin

lemma put_InrD:
  assumes "wf b" and "put b xs = Inr b'"
  shows "length xs \<le> room b \<and> wf b' \<and> content b' = content b @ xs
    \<and> room b' = room b - length xs"
  using put_fits [OF assms(1), of xs] put_full [OF assms(1), of xs] assms(2)
  by (metis Inl_Inr_False linorder_not_le sum.inject(2))

lemma put_all_fits:
  assumes "wf b" and "length (concat xss) \<le> room b"
  shows "\<exists>b'. put_all put b xss = Inr b' \<and> wf b' \<and> content b' = content b @ concat xss
    \<and> room b' = room b - length (concat xss)"
  using assms
proof (induction xss arbitrary: b)
  case Nil
  then show ?case by simp
next
  case (Cons xs xss)
  then obtain c where c: "put b xs = Inr c" "wf c" "content c = content b @ xs"
      "room c = room b - length xs"
    using put_fits [of b xs] by auto
  with Cons.prems Cons.IH [of c] show ?case by auto
qed

lemma put_all_full:
  assumes "wf b" and "room b < length (concat xss)"
  shows "\<exists>e. put_all put b xss = Inl e"
  using assms
proof (induction xss arbitrary: b)
  case Nil
  then show ?case by simp
next
  case (Cons xs xss)
  show ?case
  proof (cases "put b xs")
    case (Inl e)
    then show ?thesis by simp
  next
    case (Inr c)
    with put_InrD [OF Cons.prems(1) Inr] Cons.prems Cons.IH [of c] show ?thesis by auto
  qed
qed

lemma put_all_iff:
  "wf b \<Longrightarrow> (\<exists>b'. put_all put b xss = Inr b') \<longleftrightarrow> length (concat xss) \<le> room b"
  using put_all_fits [of b xss] put_all_full [of b xss] by (metis Inl_Inr_False not_le)

lemma put_all_InrD:
  assumes "wf b" and "put_all put b xss = Inr b'"
  shows "wf b' \<and> content b' = content b @ concat xss \<and> length (concat xss) \<le> room b"
proof -
  have "length (concat xss) \<le> room b"
    using put_all_iff [OF assms(1), of xss] assms(2) by blast
  with put_all_fits [OF assms(1) this] assms(2) show ?thesis by auto
qed

end

section \<open>Walks over information elements\<close>

type_synonym element = "byte \<times> byte list"

text \<open>An element on the air: the identifier, the length octet, the body.\<close>

definition wf_element :: "element \<Rightarrow> bool" where
  "wf_element e \<longleftrightarrow> length (snd e) < 256"

definition enc_element :: "element \<Rightarrow> byte list" where
  "enc_element e = fst e # word_of_nat (length (snd e)) # snd e"

definition enc_elements :: "element list \<Rightarrow> byte list" where
  "enc_elements es = concat (map enc_element es)"

lemma enc_elements_simps [simp]:
  "enc_elements [] = []" "enc_elements (e # es) = enc_element e @ enc_elements es"
  by (simp_all add: enc_elements_def)

lemma length_enc_element [simp]: "length (enc_element e) = 2 + length (snd e)"
  by (simp add: enc_element_def)

lemma enc_elements_append [simp]: "enc_elements (es @ fs) = enc_elements es @ enc_elements fs"
  by (simp add: enc_elements_def)

lemma unat_length_octet: "wf_element e \<Longrightarrow> unat (word_of_nat (length (snd e)) :: byte) = length (snd e)"
  by (simp add: wf_element_def unat_of_nat)

locale tlv_walker =
  fixes walk :: "'s \<Rightarrow> byte list \<Rightarrow> 'r"
    and visit :: "'s \<Rightarrow> element \<Rightarrow> 's"
  assumes walk_element: "wf_element e \<Longrightarrow> walk s (enc_element e @ rest) = walk (visit s e) rest"
begin

lemma walk_elements:
  "list_all wf_element es \<Longrightarrow> walk s (enc_elements es @ rest) = walk (foldl visit s es) rest"
  by (induction es arbitrary: s) (auto simp: walk_element)

lemma walk_all: "list_all wf_element es \<Longrightarrow> walk s (enc_elements es) = walk (foldl visit s es) []"
  using walk_elements [of es s "[]"] by simp

end

section \<open>Sets of small numbers kept as bits\<close>

locale bit_store =
  fixes add :: "'b \<Rightarrow> nat \<Rightarrow> 'b"
    and del :: "'b \<Rightarrow> nat \<Rightarrow> 'b"
    and mem :: "'b \<Rightarrow> nat \<Rightarrow> bool"
    and bound :: "'b \<Rightarrow> nat"
    and wf :: "'b \<Rightarrow> bool"
  assumes wf_add: "wf b \<Longrightarrow> wf (add b i)"
    and wf_del: "wf b \<Longrightarrow> wf (del b i)"
    and bound_add: "wf b \<Longrightarrow> bound (add b i) = bound b"
    and bound_del: "wf b \<Longrightarrow> bound (del b i) = bound b"
    and mem_add: "wf b \<Longrightarrow> i < bound b \<Longrightarrow> mem (add b i) j \<longleftrightarrow> j = i \<or> mem b j"
    and mem_del: "wf b \<Longrightarrow> i < bound b \<Longrightarrow> mem (del b i) j \<longleftrightarrow> j \<noteq> i \<and> mem b j"
    and add_outside: "wf b \<Longrightarrow> bound b \<le> i \<Longrightarrow> add b i = b"
    and del_outside: "wf b \<Longrightarrow> bound b \<le> i \<Longrightarrow> del b i = b"
    and mem_bound: "wf b \<Longrightarrow> mem b i \<Longrightarrow> i < bound b"
begin

lemma fold_add:
  "wf b \<Longrightarrow> wf (foldl add b is) \<and> bound (foldl add b is) = bound b
    \<and> (\<forall>j. mem (foldl add b is) j \<longleftrightarrow> mem b j \<or> (j \<in> set is \<and> j < bound b))"
proof (induction "is" arbitrary: b)
  case Nil
  then show ?case by simp
next
  case (Cons i "is")
  have "wf (add b i)" "bound (add b i) = bound b"
    using Cons.prems by (simp_all add: wf_add bound_add)
  moreover have "mem (add b i) j \<longleftrightarrow> mem b j \<or> (j = i \<and> j < bound b)" for j
    using Cons.prems by (cases "i < bound b") (auto simp: mem_add add_outside)
  ultimately show ?case using Cons.IH [of "add b i"] by auto
qed

lemma del_add: "wf b \<Longrightarrow> i < bound b \<Longrightarrow> \<not> mem b i \<Longrightarrow> mem (del (add b i) i) j \<longleftrightarrow> mem b j"
  by (auto simp: mem_del mem_add wf_add bound_add)

end

end
