(* ===== verification/Hex_Text.thy ===== *)
theory Hex_Text
  imports Interfaces
begin

text \<open>
  Text handling of \<open>utils/common.c\<close>: hexadecimal octets (the format in which LoWS
  messages reach the access point), MAC addresses, and the escaped form of SSIDs.

  A C function that returns an \<open>int\<close> status and fills a buffer is modelled by the pair
  of the status and the octets stored so far; a \<open>char *\<close> argument is the text before the
  terminator and advancing the pointer is \<open>drop\<close>. Results of the two allocating
  functions take one \<open>bool\<close> per \<open>os_malloc\<close> call, which says whether it succeeds.
\<close>

section \<open>Hexadecimal digits and octets\<close>

definition hex2num :: "char \<Rightarrow> int" where
  "hex2num c = (let n = of_char c :: int in
     if 48 \<le> n \<and> n \<le> 57 then n - 48
     else if 97 \<le> n \<and> n \<le> 102 then n - 97 + 10
     else if 65 \<le> n \<and> n \<le> 70 then n - 65 + 10
     else -1)"

definition hex2byte :: "string \<Rightarrow> int" where
  "hex2byte hex =
     (let a = hex2num (c_at hex 0) in
      if a < 0 then -1
      else let b = hex2num (c_at hex 1) in
           if b < 0 then -1 else push_bit 4 a OR b)"

fun hexstr2bin_loop :: "string \<Rightarrow> nat \<Rightarrow> byte list \<Rightarrow> int \<times> byte list" where
  "hexstr2bin_loop ipos 0 buf = (0, buf)"
| "hexstr2bin_loop ipos (Suc n) buf =
     (let a = hex2byte ipos in
      if a < 0 then (-1, buf)
      else hexstr2bin_loop (drop 2 ipos) n (buf @ [word_of_int a]))"

definition hexstr2bin :: "string \<Rightarrow> nat \<Rightarrow> int \<times> byte list" where
  "hexstr2bin hex len = hexstr2bin_loop hex len []"

section \<open>MAC addresses\<close>

fun hwaddr_aton_loop :: "nat \<Rightarrow> string \<Rightarrow> byte list \<Rightarrow> int \<times> byte list" where
  \<comment> \<open>the first argument is \<open>6 - i\<close>\<close>
  "hwaddr_aton_loop 0 txt addr = (0, addr)"
| "hwaddr_aton_loop (Suc n) txt addr =
     (let a = hex2num (c_at txt 0) in
      if a < 0 then (-1, addr)
      else let b = hex2num (c_at txt 1) in
      if b < 0 then (-1, addr)
      else let addr' = addr @ [word_of_int (push_bit 4 a OR b)] in
      if 0 < n then
        (if c_at txt 2 \<noteq> CHR '':'' then (-1, addr')
         else hwaddr_aton_loop n (drop 3 txt) addr')
      else hwaddr_aton_loop n (drop 2 txt) addr')"

definition hwaddr_aton :: "string \<Rightarrow> int \<times> byte list" where
  "hwaddr_aton txt = hwaddr_aton_loop 6 txt []"

fun hwaddr_compact_aton_loop :: "nat \<Rightarrow> string \<Rightarrow> byte list \<Rightarrow> int \<times> byte list" where
  "hwaddr_compact_aton_loop 0 txt addr = (0, addr)"
| "hwaddr_compact_aton_loop (Suc n) txt addr =
     (let a = hex2num (c_at txt 0) in
      if a < 0 then (-1, addr)
      else let b = hex2num (c_at txt 1) in
      if b < 0 then (-1, addr)
      else hwaddr_compact_aton_loop n (drop 2 txt) (addr @ [word_of_int (push_bit 4 a OR b)]))"

definition hwaddr_compact_aton :: "string \<Rightarrow> int \<times> byte list" where
  "hwaddr_compact_aton txt = hwaddr_compact_aton_loop 6 txt []"

definition is_mac_separator :: "char \<Rightarrow> bool" where
  "is_mac_separator c \<longleftrightarrow> c = CHR '':'' \<or> c = CHR ''.'' \<or> c = CHR ''-''"

fun hwaddr_aton2_loop :: "nat \<Rightarrow> string \<Rightarrow> byte list \<Rightarrow> (string \<times> byte list) option \<times> byte list" where
  "hwaddr_aton2_loop 0 pos addr = (Some (pos, addr), addr)"
| "hwaddr_aton2_loop (Suc n) pos addr =
     (let pos = dropWhile is_mac_separator pos;
          a = hex2num (c_at pos 0) in
      if a < 0 then (None, addr)
      else let b = hex2num (c_at pos 1) in
      if b < 0 then (None, addr)
      else hwaddr_aton2_loop n (drop 2 pos) (addr @ [word_of_int (push_bit 4 a OR b)]))"

definition hwaddr_aton2 :: "string \<Rightarrow> int \<times> byte list" where
  "hwaddr_aton2 txt =
     (case hwaddr_aton2_loop 6 txt [] of
        (None, addr) \<Rightarrow> (-1, addr)
      | (Some (pos, _), addr) \<Rightarrow> (int (length txt - length pos), addr))"

section \<open>Octets printed as hexadecimal text\<close>

definition hexdigit :: "bool \<Rightarrow> nat \<Rightarrow> char" where
  \<comment> \<open>one digit of \<open>%02X\<close> (upper case) or \<open>%02x\<close>\<close>
  "hexdigit uppercase d =
     (if d < 10 then char_of (48 + d)
      else char_of ((if uppercase then 55 else 87) + d))"

definition fmt_02x :: "bool \<Rightarrow> byte \<Rightarrow> string" where
  "fmt_02x uppercase b = [hexdigit uppercase (unat b div 16), hexdigit uppercase (unat b mod 16)]"

text \<open>
  \<open>room\<close> is \<open>end - pos\<close>. The result is the number of octets reported and the text left
  in the buffer, up to the terminator at \<open>end[-1]\<close> or after the last octet printed.
\<close>

fun snprintf_hex_loop :: "bool \<Rightarrow> nat \<Rightarrow> byte list \<Rightarrow> nat \<times> string" where
  "snprintf_hex_loop uppercase room [] = (0, [])"
| "snprintf_hex_loop uppercase room (d # ds) =
     (if room \<le> 2 then (0, take (room - 1) (fmt_02x uppercase d))
      else case snprintf_hex_loop uppercase (room - 2) ds of
             (r, t) \<Rightarrow> (2 + r, fmt_02x uppercase d @ t))"

definition wpa_snprintf_hex' :: "nat \<Rightarrow> byte list \<Rightarrow> bool \<Rightarrow> nat \<times> string" where
  "wpa_snprintf_hex' buf_size data uppercase =
     (if buf_size = 0 then (0, []) else snprintf_hex_loop uppercase buf_size data)"

definition wpa_snprintf_hex :: "nat \<Rightarrow> byte list \<Rightarrow> nat \<times> string" where
  "wpa_snprintf_hex buf_size data = wpa_snprintf_hex' buf_size data False"

definition wpa_snprintf_hex_uppercase :: "nat \<Rightarrow> byte list \<Rightarrow> nat \<times> string" where
  "wpa_snprintf_hex_uppercase buf_size data = wpa_snprintf_hex' buf_size data True"

section \<open>Escaped text\<close>

text \<open>The text \<open>printf_encode\<close> stores for one octet.\<close>

definition encode_octet :: "byte \<Rightarrow> string" where
  "encode_octet d =
     (if d = 34 then [CHR 0x5C, CHR 0x22]
      else if d = 92 then [CHR 0x5C, CHR 0x5C]
      else if d = 27 then [CHR 0x5C, CHR ''e'']
      else if d = 10 then [CHR 0x5C, CHR ''n'']
      else if d = 13 then [CHR 0x5C, CHR ''r'']
      else if d = 9 then [CHR 0x5C, CHR ''t'']
      else if 32 \<le> d \<and> d \<le> 127 then [chr8 d]
      else [CHR 0x5C, CHR ''x''] @ fmt_02x False d)"

text \<open>\<open>room\<close> is \<open>end - txt\<close>: the loop stops when \<open>txt + 4 >= end\<close>.\<close>

fun printf_encode_loop :: "nat \<Rightarrow> byte list \<Rightarrow> string" where
  "printf_encode_loop room [] = []"
| "printf_encode_loop room (d # data) =
     (if room \<le> 4 then []
      else encode_octet d @ printf_encode_loop (room - length (encode_octet d)) data)"

text \<open>The terminator is stored even into a buffer of no octets.\<close>

definition printf_encode :: "nat \<Rightarrow> byte list \<Rightarrow> fault + string" where
  "printf_encode maxlen data =
     (if maxlen = 0 then Inl (Write_past_end 0 1) else Inr (printf_encode_loop maxlen data))"

definition is_octal :: "char \<Rightarrow> bool" where
  "is_octal c \<longleftrightarrow> (48 :: nat) \<le> of_char c \<and> of_char c \<le> (55 :: nat)"

definition octal_val :: "char \<Rightarrow> int" where
  "octal_val c = of_char c - 48"

text \<open>Up to three octal digits; the value is stored in a \<open>u8\<close>.\<close>

definition decode_octal :: "string \<Rightarrow> byte list \<times> string" where
  "decode_octal pos =
     (let val = octal_val (c_at pos 0); pos = drop 1 pos;
          (val, pos) = (if is_octal (c_at pos 0) then (val * 8 + octal_val (c_at pos 0), drop 1 pos)
                        else (val, pos));
          (val, pos) = (if is_octal (c_at pos 0) then (val * 8 + octal_val (c_at pos 0), drop 1 pos)
                        else (val, pos))
      in ([word_of_int val], pos))"

definition decode_hex_escape :: "string \<Rightarrow> byte list \<times> string" where
  "decode_hex_escape pos =
     (let val = hex2byte pos in
      if val < 0 then
        (let val = hex2num (c_at pos 0) in
         if val < 0 then ([], pos) else ([word_of_int val], drop 1 pos))
      else ([word_of_int val], drop 2 pos))"

text \<open>The inner \<open>switch\<close>: \<open>pos\<close> is just after the backslash.\<close>

definition decode_escape :: "string \<Rightarrow> byte list \<times> string" where
  "decode_escape pos =
     (let c = c_at pos 0 in
      if c = CHR 0x5C then ([92], drop 1 pos)
      else if c = CHR 0x22 then ([34], drop 1 pos)
      else if c = CHR ''n'' then ([10], drop 1 pos)
      else if c = CHR ''r'' then ([13], drop 1 pos)
      else if c = CHR ''t'' then ([9], drop 1 pos)
      else if c = CHR ''e'' then ([27], drop 1 pos)
      else if c = CHR ''x'' then decode_hex_escape (drop 1 pos)
      else if is_octal c then decode_octal pos
      else ([], pos))"

lemma length_decode_hex_escape: "length (snd (decode_hex_escape pos)) \<le> length pos"
  by (simp add: decode_hex_escape_def Let_def)

lemma length_decode_escape: "length (snd (decode_escape pos)) \<le> length pos"
proof -
  have "length (snd (decode_hex_escape (drop 1 pos))) \<le> length pos"
    using length_decode_hex_escape [of "drop 1 pos"] by simp
  moreover have "length (snd (decode_octal pos)) \<le> length pos"
    by (simp add: decode_octal_def Let_def)
  ultimately show ?thesis by (simp add: decode_escape_def Let_def)
qed

function printf_decode_loop :: "nat \<Rightarrow> string \<Rightarrow> byte list \<Rightarrow> byte list" where
  "printf_decode_loop maxlen [] buf = buf"
| "printf_decode_loop maxlen (c # pos) buf =
     (if length buf + 1 \<ge> maxlen then buf
      else if c = CHR 0x5C then
        (case decode_escape pos of (out, rest) \<Rightarrow> printf_decode_loop maxlen rest (buf @ out))
      else printf_decode_loop maxlen pos (buf @ [ord8 c]))"
  by pat_completeness auto
termination
proof (relation "measure (\<lambda>(m, s, b). length s)")
  fix maxlen c pos buf out rest
  assume "(out, rest) = decode_escape pos"
  then show "((maxlen, rest, buf @ out), maxlen, c # pos, buf) \<in> measure (\<lambda>(m, s, b). length s)"
    using length_decode_escape [of pos] by (metis in_measure case_prod_conv le_imp_less_Suc length_Cons snd_conv)
qed auto

definition printf_decode :: "nat \<Rightarrow> string \<Rightarrow> byte list" where
  \<comment> \<open>the octets stored; the C function returns their number\<close>
  "printf_decode maxlen str = printf_decode_loop maxlen str []"

definition ssid_txt_size :: nat where
  "ssid_txt_size = 32 * 4 + 1"

definition wpa_ssid_txt :: "byte list option \<Rightarrow> fault + string" where
  "wpa_ssid_txt ssid = (case ssid of None \<Rightarrow> Inr [] | Some s \<Rightarrow> printf_encode ssid_txt_size s)"

definition is_hex :: "byte list \<Rightarrow> bool" where
  "is_hex data \<longleftrightarrow> list_ex (\<lambda>d. d < 32 \<or> 127 \<le> d) data"

section \<open>String values of the configuration file\<close>

definition dup_binstr :: "bool \<Rightarrow> byte list option \<Rightarrow> byte list option" where
  \<comment> \<open>the copy, without the terminator that follows it\<close>
  "dup_binstr malloc_ok src = (case src of None \<Rightarrow> None | Some d \<Rightarrow> if malloc_ok then Some d else None)"

text \<open>
  The value between the first character and the last quote, if that quote is the last
  character (\<open>os_strrchr (value, 34)\<close> and \<open>pos[1] == 0\<close>).
\<close>

definition quoted_body :: "string \<Rightarrow> string option" where
  "quoted_body value = (if value \<noteq> [] \<and> last value = CHR 0x22 then Some (butlast value) else None)"

definition wpa_config_parse_string :: "bool \<Rightarrow> bool \<Rightarrow> string \<Rightarrow> byte list option" where
  "wpa_config_parse_string ok1 ok2 value =
     (if c_at value 0 = CHR 0x22 then
        (case quoted_body (drop 1 value) of
           None \<Rightarrow> None
         | Some body \<Rightarrow> dup_binstr ok1 (Some (map ord8 body)))
      else if c_at value 0 = CHR ''P'' \<and> c_at value 1 = CHR 0x22 then
        (case quoted_body (drop 2 value) of
           None \<Rightarrow> None
         | Some body \<Rightarrow>
             (case dup_binstr ok1 (Some (map ord8 body)) of
                None \<Rightarrow> None
              | Some tstr \<Rightarrow>
                  if ok2 then Some (printf_decode (length body + 1) (map chr8 tstr)) else None))
      else
        (let hlen = length value in
         if odd hlen then None
         else if \<not> ok1 then None
         else case hexstr2bin value (hlen div 2) of
                (r, str) \<Rightarrow> if r \<noteq> 0 then None else Some str))"

section \<open>Digits and octets\<close>

lemma hex2num_range: "-1 \<le> hex2num c \<and> hex2num c < 16"
  by (simp add: hex2num_def Let_def)

lemma hex2num_neg: "hex2num c < 0 \<longleftrightarrow> hex2num c = -1"
  using hex2num_range [of c] by linarith

lemma hex2num_nul [simp]: "hex2num nul = -1"
  by (simp add: hex2num_def nul_def)

lemma of_char_hexdigit: "d < 16 \<Longrightarrow>
   (of_char (hexdigit u d) :: nat) = (if d < 10 then 48 + d else (if u then 55 else 87) + d)"
  by (simp add: hexdigit_def)

lemma hex2num_hexdigit [simp]: "d < 16 \<Longrightarrow> hex2num (hexdigit u d) = int d"
proof -
  assume d: "d < 16"
  have "(of_char (hexdigit u d) :: int) = int (of_char (hexdigit u d))"
    by (simp only: of_nat_of_char)
  also have "\<dots> = int (if d < 10 then 48 + d else (if u then 55 else 87) + d)"
    by (simp add: of_char_hexdigit [OF d])
  finally show ?thesis using d by (auto simp: hex2num_def Let_def)
qed

lemma hex2num_not_separator: "0 \<le> hex2num c \<Longrightarrow> \<not> is_mac_separator c"
  by (auto simp: is_mac_separator_def hex2num_def Let_def)

lemma join_nibbles: "0 \<le> a \<Longrightarrow> 0 \<le> b \<Longrightarrow> b < 16 \<Longrightarrow> push_bit 4 a OR b = 16 * a + (b :: int)"
proof -
  assume b: "0 \<le> b" "b < 16"
  then have t: "take_bit 4 b = b" by (simp add: take_bit_int_eq_self)
  have "\<not> bit (push_bit 4 a) n \<or> \<not> bit b n" for n
    using arg_cong [OF t, of "\<lambda>x. bit x n"] by (auto simp: bit_simps)
  then have "push_bit 4 a + b = push_bit 4 a OR b" by (rule disjunctive_add)
  then show ?thesis by (simp add: push_bit_eq_mult)
qed
lemma nibbles_octet: "16 * int (unat b div 16) + int (unat b mod 16) = int (unat (b :: byte))"
  by (metis add.commute div_mult_mod_eq mult.commute of_nat_add of_nat_mult of_nat_numeral)

lemma length_fmt_02x [simp]: "length (fmt_02x u b) = 2"
  by (simp add: fmt_02x_def)

lemma fmt_02x_nibbles [octet]:
  "hex2num (fmt_02x u b ! 0) = int (unat b div 16)" "hex2num (fmt_02x u b ! 1) = int (unat b mod 16)"
  using unat_byte_lt [of b] by (simp_all add: fmt_02x_def)

lemma hex2byte_fmt_02x [simp]: "hex2byte (fmt_02x u b @ s) = int (unat b)"
proof -
  have "hex2num (c_at (fmt_02x u b @ s) 0) = int (unat b div 16)"
      "hex2num (c_at (fmt_02x u b @ s) 1) = int (unat b mod 16)"
    using fmt_02x_nibbles [of u b] by (simp_all add: c_at_def nth_append)
  then show ?thesis by (simp add: hex2byte_def Let_def join_nibbles nibbles_octet)
qed

lemma word_of_int_unat [simp]: "word_of_int (int (unat b)) = (b :: byte)"
  by simp

lemma hexstr2bin_loop_acc:
  "hexstr2bin_loop s n buf = (case hexstr2bin_loop s n [] of (r, out) \<Rightarrow> (r, buf @ out))"
proof (induction n arbitrary: s buf)
  case 0
  then show ?case by simp
next
  case (Suc n)
  show ?case
    by (simp add: Let_def Suc.IH [of _ "buf @ _"] Suc.IH [of _ "[_]"] split: prod.split)
qed

lemma hexstr2bin_loop_enc:
  "hexstr2bin_loop (concat (map (fmt_02x u) bs) @ s) (length bs) buf = (0, buf @ bs)"
  by (induction bs arbitrary: buf) (auto simp: Let_def)

lemma hexstr2bin_enc: "hexstr2bin (concat (map (fmt_02x u) bs) @ s) (length bs) = (0, bs)"
  by (simp add: hexstr2bin_def hexstr2bin_loop_enc)

lemma hex2byte_neg: "hex2byte s < 0 \<longleftrightarrow> hex2num (c_at s 0) < 0 \<or> hex2num (c_at s 1) < 0"
  using hex2num_range [of "c_at s 0"] hex2num_range [of "c_at s 1"] 
  by (auto simp: hex2byte_def Let_def join_nibbles not_less)

lemma hex2byte_range: "hex2byte s < 256"
  using hex2num_range [of "c_at s 0"] hex2num_range [of "c_at s 1"]
  by (auto simp: hex2byte_def Let_def join_nibbles not_less)

lemma hex2byte_val: "0 \<le> hex2byte s \<Longrightarrow> hex2byte s = 16 * hex2num (c_at s 0) + hex2num (c_at s 1)"
  using hex2num_range [of "c_at s 0"] hex2num_range [of "c_at s 1"]
  by (auto simp: hex2byte_def Let_def join_nibbles not_less split: if_splits)

lemma hexstr2bin_loop_status:
  "fst (hexstr2bin_loop s n buf) = 0 \<longleftrightarrow> (\<forall>i < 2 * n. 0 \<le> hex2num (c_at s i))"
proof (induction n arbitrary: s buf)
  case 0
  then show ?case by simp
next
  case (Suc n)
  have split: "(\<forall>i < 2 * Suc n. P i) \<longleftrightarrow> P 0 \<and> P 1 \<and> (\<forall>i < 2 * n. P (i + 2))" for P
    by (auto simp: less_Suc_eq_0_disj All_less_Suc2)
  have "c_at (drop 2 s) i = c_at s (i + 2)" for i
    by (auto simp: c_at_def)
  with Suc.IH [of "drop 2 s"] hex2byte_neg [of s] show ?case
    unfolding split by (auto simp: Let_def not_less)
qed

lemma hexstr2bin_loop_status_cases: "fst (hexstr2bin_loop s n buf) = 0 \<or> fst (hexstr2bin_loop s n buf) = -1"
  by (induction n arbitrary: s buf) (auto simp: Let_def)

lemma hexstr2bin_loop_length:
  "fst (hexstr2bin_loop s n buf) = 0 \<Longrightarrow> length (snd (hexstr2bin_loop s n buf)) = length buf + n"
  by (induction n arbitrary: s buf) (auto simp: Let_def split: if_splits)

lemma hexstr2bin_loop_nth:
  "fst (hexstr2bin_loop s n buf) = 0 \<Longrightarrow> i < n \<Longrightarrow>
     int (unat (snd (hexstr2bin_loop s n buf) ! (length buf + i))) =
       16 * hex2num (c_at s (2 * i)) + hex2num (c_at s (2 * i + 1))"
proof (induction n arbitrary: s buf i)
  case 0
  then show ?case by simp
next
  case (Suc n)
  have at: "c_at (drop 2 s) j = c_at s (j + 2)" for j by (auto simp: c_at_def)
  from Suc.prems have nn: "0 \<le> hex2byte s" and ok: "fst (hexstr2bin_loop (drop 2 s) n (buf @ [word_of_int (hex2byte s)])) = 0"
    by (auto simp: Let_def split: if_splits)
  show ?case
  proof (cases i)
    case 0
    have pre: "snd (hexstr2bin_loop s n (buf @ [b])) ! length buf = b" for s b
      using hexstr2bin_loop_acc [of s n "buf @ [b]"] by (auto simp: nth_append split: prod.splits)
    have "int (unat (word_of_int (hex2byte s) :: byte)) = hex2byte s"
      using nn hex2byte_range [of s] by (simp add: unsigned_of_int take_bit_int_eq_self)
    moreover have "\<not> hex2byte s < 0" using nn by simp
    ultimately show ?thesis using hex2byte_val [OF nn]
      by (simp add: 0 Let_def pre)
  next
    case (Suc j)
    with Suc.prems Suc.IH [OF ok, of j] nn show ?thesis
      by (simp add: Let_def at)
  qed
qed

text \<open>
  The converter that carries a LoWS message into the access point
  (\<open>hexstr2bin\<close>) succeeds exactly when the first \<open>2 * n\<close> characters are there and are all
  hexadecimal digits, in either case; it then stores \<open>n\<close> octets, each the value of its own
  pair of digits.
\<close>

theorem hexstr2bin_correct:
  "(fst (hexstr2bin s n) = 0 \<longleftrightarrow> 2 * n \<le> length s \<and> (\<forall>c \<in> set (take (2 * n) s). 0 \<le> hex2num c))
   \<and> (fst (hexstr2bin s n) = 0 \<longrightarrow> length (snd (hexstr2bin s n)) = n \<and>
        (\<forall>i < n. int (unat (snd (hexstr2bin s n) ! i)) = 16 * hex2num (s ! (2 * i)) + hex2num (s ! (2 * i + 1))))"
proof (intro conjI impI allI)
  have "(\<forall>i < 2 * n. 0 \<le> hex2num (c_at s i)) \<longleftrightarrow> 2 * n \<le> length s \<and> (\<forall>c \<in> set (take (2 * n) s). 0 \<le> hex2num c)"
  proof (cases "2 * n \<le> length s")
    case True
    then show ?thesis using list_all_length [of "\<lambda>c. 0 \<le> hex2num c" "take (2 * n) s"]
      by (simp add: list_all_iff c_at_def)
  next
    case False
    then have "hex2num (c_at s (length s)) = -1" "length s < 2 * n" by (simp_all add: c_at_def)
    then show ?thesis by force
  qed
  then show st: "fst (hexstr2bin s n) = 0 \<longleftrightarrow> 2 * n \<le> length s \<and> (\<forall>c \<in> set (take (2 * n) s). 0 \<le> hex2num c)"
    by (simp add: hexstr2bin_def hexstr2bin_loop_status)
  assume ok: "fst (hexstr2bin s n) = 0"
  with st have len: "2 * n \<le> length s" by blast
  show "length (snd (hexstr2bin s n)) = n"
    using ok hexstr2bin_loop_length [of s n "[]"] by (simp add: hexstr2bin_def)
  fix i
  assume "i < n"
  with ok len hexstr2bin_loop_nth [of s n "[]" i] show
    "int (unat (snd (hexstr2bin s n) ! i)) = 16 * hex2num (s ! (2 * i)) + hex2num (s ! (2 * i + 1))"
    by (simp add: hexstr2bin_def c_at_def)
qed

lemma hexstr2bin_correct_witness:
  "fst (hexstr2bin ''1aFf'' 2) = 0 \<and> length (snd (hexstr2bin ''1aFf'' 2)) = 2
   \<and> int (unat (snd (hexstr2bin ''1aFf'' 2) ! 1)) = 16 * hex2num (''1aFf'' ! 2) + hex2num (''1aFf'' ! 3)"
proof -
  have st: "fst (hexstr2bin ''1aFf'' 2) = 0" by code_simp
  with hexstr2bin_correct [of "''1aFf''" 2] show ?thesis by auto
qed

lemma snprintf_hex_loop_fits:
  "2 * length bs < room \<Longrightarrow> snprintf_hex_loop u room bs = (2 * length bs, concat (map (fmt_02x u) bs))"
  by (induction bs arbitrary: room) (auto split: prod.split)

lemma snprintf_hex_loop_prefix:
  "0 < room \<Longrightarrow> snprintf_hex_loop u room bs = (r, t) \<Longrightarrow>
     t = take (room - 1) (concat (map (fmt_02x u) bs)) \<and> r = 2 * min (length bs) ((room - 1) div 2) \<and> r \<le> length t"
proof (induction bs arbitrary: room r t)
  case Nil
  then show ?case by simp
next
  case (Cons b bs)
  show ?case
  proof (cases "room \<le> 2")
    case True
    with Cons.prems have "(room - 1) div 2 = 0" by arith
    with True Cons.prems show ?thesis by auto
  next
    case False
    obtain r' t' where rt: "snprintf_hex_loop u (room - 2) bs = (r', t')" by fastforce
    with False Cons.IH [OF _ rt]
    have "t' = take (room - 2 - 1) (concat (map (fmt_02x u) bs))"
      "r' = 2 * min (length bs) ((room - 2 - 1) div 2)" "r' \<le> length t'" by auto
    moreover have "(room - 1) div 2 = Suc ((room - 2 - 1) div 2)" using False by arith
    ultimately show ?thesis using False Cons.prems rt by (auto simp: eval_nat_numeral)
  qed
qed

lemma hex2num_at: "0 \<le> hex2num (c_at s i) \<Longrightarrow> i < length s"
  by (rule ccontr) (simp add: c_at_def)

lemma drop_separators: "0 \<le> hex2num (c_at s 0) \<Longrightarrow> dropWhile is_mac_separator s = s"
  by (cases s) (auto dest: hex2num_not_separator)

lemma hwaddr_aton_loop_aton2:
  assumes "hwaddr_aton_loop (Suc n) s addr = (0, out)" and "p = s \<or> p = CHR '':'' # s"
  shows "\<exists>rest. hwaddr_aton2_loop (Suc n) p addr = (Some (rest, out), out)
     \<and> length s = length rest + 3 * n + 2 \<and> length out = length addr + Suc n"
  using assms
proof (induction n arbitrary: s p addr)
  case 0
  then have a: "0 \<le> hex2num (c_at s 0)" "0 \<le> hex2num (c_at s 1)"
    and out: "out = addr @ [word_of_int (push_bit 4 (hex2num (c_at s 0)) OR hex2num (c_at s 1))]"
    by (auto simp: Let_def split: if_splits)
  have "dropWhile is_mac_separator p = s"
    using 0(2) drop_separators [OF a(1)] by (auto simp: is_mac_separator_def)
  with a out hex2num_at [OF a(2)] show ?case by (auto simp: Let_def)
next
  case (Suc n)
  let ?o = "word_of_int (push_bit 4 (hex2num (c_at s 0)) OR hex2num (c_at s 1)) :: byte"
  from Suc.prems(1) have a: "0 \<le> hex2num (c_at s 0)" "0 \<le> hex2num (c_at s 1)"
    and colon: "c_at s 2 = CHR '':''"
    and loop: "hwaddr_aton_loop (Suc n) (drop 3 s) (addr @ [?o]) = (0, out)"
    by (auto simp: Let_def simp del: hwaddr_aton_loop.simps(2) split: if_splits)
       (auto simp: Let_def split: if_splits)
  have len: "3 \<le> length s"
    using colon by (simp add: c_at_def nul_def split: if_splits)
  have "drop 2 s = CHR '':'' # drop 3 s"
    using colon len Cons_nth_drop_Suc [of 2 s] by (simp add: c_at_def eval_nat_numeral)
  with Suc.IH [OF loop, of "drop 2 s"] obtain rest where
    r: "hwaddr_aton2_loop (Suc n) (drop 2 s) (addr @ [?o]) = (Some (rest, out), out)"
    "length (drop 3 s) = length rest + 3 * n + 2" "length out = length (addr @ [?o]) + Suc n" by blast
  have "dropWhile is_mac_separator p = s"
    using Suc.prems(2) drop_separators [OF a(1)] by (auto simp: is_mac_separator_def)
  then have "hwaddr_aton2_loop (Suc (Suc n)) p addr = (Some (rest, out), out)"
    using a r(1) by (subst hwaddr_aton2_loop.simps(2)) (simp add: Let_def del: hwaddr_aton2_loop.simps(2))
  with r len show ?case by auto
qed

lemma hwaddr_compact_loop_aton2:
  assumes "hwaddr_compact_aton_loop n s addr = (0, out)"
  shows "\<exists>rest. hwaddr_aton2_loop n s addr = (Some (rest, out), out)
     \<and> length s = length rest + 2 * n \<and> length out = length addr + n"
  using assms
proof (induction n arbitrary: s addr)
  case 0
  then show ?case by simp
next
  case (Suc n)
  let ?o = "word_of_int (push_bit 4 (hex2num (c_at s 0)) OR hex2num (c_at s 1)) :: byte"
  from Suc.prems have a: "0 \<le> hex2num (c_at s 0)" "0 \<le> hex2num (c_at s 1)"
    and loop: "hwaddr_compact_aton_loop n (drop 2 s) (addr @ [?o]) = (0, out)"
    by (auto simp: Let_def split: if_splits)
  from Suc.IH [OF loop] hex2num_at [OF a(2)] a drop_separators [OF a(1)]
  show ?case by (auto simp: Let_def)
qed

text \<open>
  A MAC address in the strict colon notation or in the compact notation is
  accepted by the lenient parser too, with the same six octets, and the number of
  characters it reports as consumed is 17 and 12.
\<close>

theorem mac_notations_agree:
  "(hwaddr_aton m = (0, a) \<longrightarrow> hwaddr_aton2 m = (17, a) \<and> length a = 6)
   \<and> (hwaddr_compact_aton m = (0, a) \<longrightarrow> hwaddr_aton2 m = (12, a) \<and> length a = 6)"
proof (intro conjI impI)
  assume "hwaddr_aton m = (0, a)"
  then have "hwaddr_aton_loop (Suc 5) m [] = (0, a)"
    by (simp add: hwaddr_aton_def eval_nat_numeral del: hwaddr_aton_loop.simps)
  from hwaddr_aton_loop_aton2 [OF this, of m] obtain rest where
    "hwaddr_aton2_loop (Suc 5) m [] = (Some (rest, a), a)" "length m = length rest + 17" "length a = 6"
    by auto
  then show "hwaddr_aton2 m = (17, a)" "length a = 6"
    by (simp_all add: hwaddr_aton2_def eval_nat_numeral del: hwaddr_aton2_loop.simps)
next
  assume "hwaddr_compact_aton m = (0, a)"
  then have "hwaddr_compact_aton_loop 6 m [] = (0, a)"
    by (simp add: hwaddr_compact_aton_def)
  from hwaddr_compact_loop_aton2 [OF this] obtain rest where
    "hwaddr_aton2_loop 6 m [] = (Some (rest, a), a)" "length m = length rest + 12" "length a = 6"
    by auto
  then show "hwaddr_aton2 m = (12, a)" "length a = 6"
    by (simp_all add: hwaddr_aton2_def)
qed

lemma mac_notations_agree_witness:
  "hwaddr_aton2 ''00:1a:2B:3c:4d:5e'' = (17, [0x00, 0x1A, 0x2B, 0x3C, 0x4D, 0x5E])
   \<and> hwaddr_aton2 ''001a2B3c4d5e'' = (12, [0x00, 0x1A, 0x2B, 0x3C, 0x4D, 0x5E])"
proof -
  have "hwaddr_aton ''00:1a:2B:3c:4d:5e'' = (0, [0x00, 0x1A, 0x2B, 0x3C, 0x4D, 0x5E])"
    "hwaddr_compact_aton ''001a2B3c4d5e'' = (0, [0x00, 0x1A, 0x2B, 0x3C, 0x4D, 0x5E])"
    by code_simp+
  with mac_notations_agree [of "''00:1a:2B:3c:4d:5e''"] mac_notations_agree [of "''001a2B3c4d5e''"]
  show ?thesis by blast
qed

section \<open>Escaped text\<close>

lemma length_encode_octet: "0 < length (encode_octet d)" "length (encode_octet d) \<le> 4"
  by (simp_all add: encode_octet_def)

lemma chr8_eq_iff: "chr8 d = chr8 e \<longleftrightarrow> d = e"
  by (metis ord8_chr8)

lemma chr8_92 [simp]: "chr8 92 = CHR 0x5C"
proof -
  have "ord8 (CHR 0x5C) = 92" by (simp add: ord8_def)
  then show ?thesis by (metis chr8_ord8)
qed

lemma decode_hex_escape_fmt [simp]: "decode_hex_escape (fmt_02x u d @ rest) = ([d], rest)"
  by (simp add: decode_hex_escape_def Let_def)

lemma decode_encode_octet:
  "(encode_octet d = [chr8 d] \<and> chr8 d \<noteq> CHR 0x5C) \<or>
   (\<exists>t. encode_octet d = CHR 0x5C # t \<and> (\<forall>rest. decode_escape (t @ rest) = ([d], rest)))"
proof (cases "d = 92")
  case True
  then show ?thesis by (simp add: encode_octet_def decode_escape_def)
next
  case False
  then have "chr8 d \<noteq> CHR 0x5C" using chr8_eq_iff [of d 92] by simp
  with False show ?thesis
    by (auto simp: encode_octet_def decode_escape_def)
qed

lemma printf_encode_loop_fits:
  "4 * length ds < room \<Longrightarrow> printf_encode_loop room ds = concat (map encode_octet ds)"
proof (induction ds arbitrary: room)
  case Nil
  then show ?case by simp
next
  case (Cons d ds)
  have "4 * length ds < room - length (encode_octet d)"
    using length_encode_octet(2) [of d] Cons.prems by (simp add: less_diff_conv)
  with Cons.IH Cons.prems show ?case by simp
qed

lemma printf_encode_loop_length: "0 < room \<Longrightarrow> length (printf_encode_loop room ds) < room"
proof (induction ds arbitrary: room)
  case Nil
  then show ?case by simp
next
  case (Cons d ds)
  show ?case
  proof (cases "room \<le> 4")
    case True
    with Cons.prems show ?thesis by simp
  next
    case False
    with length_encode_octet [of d] Cons.IH [of "room - length (encode_octet d)"]
    show ?thesis by simp
  qed
qed

lemma printf_decode_loop_encode:
  "length buf + length ds < maxlen \<Longrightarrow>
     printf_decode_loop maxlen (concat (map encode_octet ds)) buf = buf @ ds"
proof (induction ds arbitrary: buf)
  case Nil
  then show ?case by simp
next
  case (Cons d ds)
  let ?rest = "concat (map encode_octet ds)"
  have IH: "printf_decode_loop maxlen ?rest (buf @ [d]) = buf @ d # ds"
    using Cons.IH [of "buf @ [d]"] Cons.prems by simp
  have room: "length buf + 1 < maxlen" using Cons.prems by simp
  from decode_encode_octet [of d] show ?case
  proof (elim disjE exE conjE)
    assume "encode_octet d = [chr8 d]" "chr8 d \<noteq> CHR 0x5C"
    with room IH show ?thesis by simp
  next
    fix t
    assume t: "encode_octet d = CHR 0x5C # t" "\<forall>rest. decode_escape (t @ rest) = ([d], rest)"
    with room IH show ?thesis by simp
  qed
qed

text \<open>
  Escaped text is lossless. Octets encoded into a buffer of more than four
  characters per octet give a text that fits the buffer, and decoding it gives the octets
  back, whatever they are (quotes, backslashes, control and non-ASCII octets).
\<close>

theorem printf_roundtrip:
  "4 * length data < maxlen \<Longrightarrow> length data < maxlen2 \<Longrightarrow>
   \<exists>t. printf_encode maxlen data = Inr t \<and> length t < maxlen \<and> printf_decode maxlen2 t = data"
  using printf_encode_loop_fits [of data maxlen] printf_encode_loop_length [of maxlen data]
    printf_decode_loop_encode [of "[]" data maxlen2]
  by (auto simp: printf_encode_def printf_decode_def)

lemma printf_roundtrip_witness:
  "\<exists>t. printf_encode 20 [0x22, 0x00, 0xE4] = Inr t \<and> length t < 20 \<and> printf_decode 4 t = [0x22, 0x00, 0xE4]"
  by (rule printf_roundtrip) simp_all

interpretation printf: codec "printf_encode_loop ssid_txt_size" "\<lambda>t. Some (printf_decode 33 t)"
    "\<lambda>bs. bs" "\<lambda>bs. length bs \<le> 32"
  by unfold_locales
    (simp add: printf_decode_def printf_encode_loop_fits printf_decode_loop_encode ssid_txt_size_def)

text \<open>
  Two SSIDs of at most 32 octets that print alike are equal, so the printable
  form used in the logs and in the control interface identifies the network.
\<close>

theorem wpa_ssid_txt_injective:
  "length s \<le> 32 \<Longrightarrow> length s' \<le> 32 \<Longrightarrow> wpa_ssid_txt (Some s) = wpa_ssid_txt (Some s') \<Longrightarrow> s = s'"
  using printf.enc_determines_val [of s s']
  by (simp add: wpa_ssid_txt_def printf_encode_def ssid_txt_size_def)

lemma wpa_ssid_txt_injective_witness: "([0x4C, 0x6F] :: byte list) = [ord8 (CHR ''L''), ord8 (CHR ''o'')]"
  by (rule wpa_ssid_txt_injective) (simp_all add: ord8_def)

section \<open>Configuration strings\<close>

lemma quoted_body_snoc [simp]: "quoted_body (s @ [CHR 0x22]) = Some s"
  by (simp add: quoted_body_def)

text \<open>
  The three notations of a string value in the configuration file (quoted,
  \<open>P\<close>-quoted with escapes, and hexadecimal in either case) denote the same octets.
\<close>

theorem config_string_notations:
  "wpa_config_parse_string True True ([CHR 0x22] @ map chr8 bs @ [CHR 0x22]) = Some bs
   \<and> wpa_config_parse_string True True ([CHR ''P'', CHR 0x22] @ concat (map encode_octet bs) @ [CHR 0x22]) = Some bs
   \<and> wpa_config_parse_string True True (concat (map (fmt_02x u) bs)) = Some bs"
proof (intro conjI)
  show "wpa_config_parse_string True True ([CHR 0x22] @ map chr8 bs @ [CHR 0x22]) = Some bs"
    by (simp add: wpa_config_parse_string_def dup_binstr_def del: map_map)
  let ?e = "concat (map encode_octet bs)"
  have "length bs \<le> length ?e"
  proof (induction bs)
    case (Cons b bs)
    then show ?case using length_encode_octet [of b]
      unfolding list.map concat.simps length_append length_Cons by linarith
  qed simp
  then have "printf_decode (length ?e + 1) ?e = bs"
    using printf_decode_loop_encode [of "[]" bs "length ?e + 1"] by (simp add: printf_decode_def)
  then show "wpa_config_parse_string True True ([CHR ''P'', CHR 0x22] @ ?e @ [CHR 0x22]) = Some bs"
    by (simp add: wpa_config_parse_string_def dup_binstr_def del: map_map)
  let ?h = "concat (map (fmt_02x u) bs)"
  have len: "length ?h = 2 * length bs" by (induction bs) auto
  have c0: "hex2num (c_at ?h 0) = -1 \<and> ?h = [] \<or> 0 \<le> hex2num (c_at ?h 0)"
  proof (cases bs)
    case (Cons b bs')
    then show ?thesis using fmt_02x_nibbles(1) [of u b] by (simp add: c_at_def nth_append)
  qed simp
  then have "c_at ?h 0 \<noteq> CHR 0x22 \<and> c_at ?h 0 \<noteq> CHR ''P''"
  proof (elim disjE conjE)
    assume "?h = []"
    then show ?thesis unfolding \<open>?h = []\<close> by (simp add: nul_def)
  qed (auto simp: hex2num_def)
  then show "wpa_config_parse_string True True ?h = Some bs"
    using hexstr2bin_enc [of u bs "[]"] len by (simp add: wpa_config_parse_string_def)
qed

section \<open>Octets to hexadecimal and back\<close>

lemma length_hex_text [simp]: "length (concat (map (fmt_02x u) bs)) = 2 * length bs"
  by (induction bs) auto

lemma take_hex_text: "take (2 * k) (concat (map (fmt_02x u) bs)) = concat (map (fmt_02x u) (take k bs))"
proof (induction bs arbitrary: k)
  case (Cons b bs)
  then show ?case by (cases k) auto
qed simp

text \<open>
  The hexadecimal printer never leaves the buffer, and the count it reports
  covers whole octets that convert back to a prefix of the data. When the data does not
  fit, the text in the buffer has \<open>size - 1\<close> characters, which for an even size is one more
  than the count reported.
\<close>

theorem snprintf_hex_reported:
  assumes "0 < sz" and "wpa_snprintf_hex sz bs = (r, t)"
  shows "length t < sz \<and> r = 2 * min (length bs) ((sz - 1) div 2)
     \<and> length t = (if 2 * length bs < sz then r else sz - 1)
     \<and> hexstr2bin t (r div 2) = (0, take (r div 2) bs)"
proof -
  let ?h = "concat (map (fmt_02x False) bs)" and ?k = "r div 2"
  from assms snprintf_hex_loop_prefix [of sz False bs r t] have
    t: "t = take (sz - 1) ?h" and r: "r = 2 * min (length bs) ((sz - 1) div 2)" and le: "r \<le> length t"
    by (simp_all add: wpa_snprintf_hex_def wpa_snprintf_hex'_def)
  have k: "2 * ?k = r" "?k \<le> length bs" using r by simp_all
  have "r \<le> sz - 1" using r by arith
  then have "take r t = take (2 * ?k) ?h" using t k(1) by (simp add: min_def)
  then have "t = concat (map (fmt_02x False) (take ?k bs)) @ drop r t"
    by (metis append_take_drop_id take_hex_text)
  moreover have "length (take ?k bs) = ?k" using k(2) by simp
  ultimately have "hexstr2bin t ?k = (0, take ?k bs)"
    using hexstr2bin_enc [of False "take ?k bs" "drop r t"] by metis
  moreover have "length t = (if 2 * length bs < sz then r else sz - 1)"
  proof -
    have "length t = min (2 * length bs) (sz - 1)" unfolding t by simp
    moreover have "2 * length bs < sz \<longleftrightarrow> length bs \<le> (sz - 1) div 2" using assms(1) by arith
    moreover have "2 * length bs < sz \<longleftrightarrow> 2 * length bs \<le> sz - 1" using assms(1) by arith
    ultimately show ?thesis using r unfolding min_def by presburger
  qed
  ultimately show ?thesis using r t assms(1) by simp
qed

lemma snprintf_hex_reported_witness:
  "wpa_snprintf_hex 4 [0xAB, 0xCD] = (2, ''abc'') \<and> hexstr2bin ''abc'' 1 = (0, [0xAB])"
proof -
  have e: "wpa_snprintf_hex 4 [0xAB, 0xCD] = (2, ''abc'')" by code_simp
  then show ?thesis using snprintf_hex_reported [OF _ e] by simp
qed

interpretation hex: codec "\<lambda>bs. concat (map (fmt_02x u) bs)"
    "\<lambda>t. case hexstr2bin t (length t div 2) of (r, out) \<Rightarrow> if r = 0 then Some out else None"
    "\<lambda>bs. bs" "\<lambda>bs. True" for u
  using hexstr2bin_enc [of u _ "[]"] by unfold_locales simp

end
