(* ===== verification/Wpabuf.thy ===== *)
theory Wpabuf
  imports Interfaces
begin

text \<open>
  The dynamic buffer of \<open>utils/wpabuf.c\<close> and \<open>utils/wpabuf.h\<close>, which holds among others the
  vendor-specific element with the LoWS message.

  A \<open>wpabuf\<close> has the three fields of the C structure and its flag; \<open>wb_buf\<close> is the whole
  allocated block, of which the first \<open>wb_used\<close> octets are data. \<open>wpabuf_put\<close> gives the
  offset at which its caller may write, or \<open>Abort\<close> where the C code calls \<open>abort()\<close>. One
  \<open>bool\<close> per allocation says whether it succeeds, \<open>None\<close> is the null pointer. Sizes are
  natural numbers: \<open>size_t\<close> does not wrap for buffers that fit the address space.
\<close>

section \<open>State and operations\<close>

record wpabuf =
  wb_size :: nat
  wb_used :: nat
  wb_buf :: "byte list"
  wb_ext_data :: bool

definition mem_write :: "byte list \<Rightarrow> nat \<Rightarrow> byte list \<Rightarrow> byte list" where
  \<comment> \<open>\<open>os_memcpy (m + off, xs, length xs)\<close>\<close>
  "mem_write m off xs = take off m @ xs @ drop (off + length xs) m"

definition wpabuf_len :: "wpabuf \<Rightarrow> nat" where
  "wpabuf_len b = wb_used b"

definition wpabuf_tailroom :: "wpabuf \<Rightarrow> nat" where
  "wpabuf_tailroom b = wb_size b - wb_used b"

definition wpabuf_head :: "wpabuf \<Rightarrow> byte list" where
  \<comment> \<open>the octets behind \<open>wpabuf_head\<close> up to \<open>wpabuf_len\<close>\<close>
  "wpabuf_head b = take (wb_used b) (wb_buf b)"

definition wpabuf_alloc :: "bool \<Rightarrow> nat \<Rightarrow> wpabuf option" where
  "wpabuf_alloc ok len =
     (if ok then Some \<lparr>wb_size = len, wb_used = 0, wb_buf = replicate len 0, wb_ext_data = False\<rparr>
      else None)"

definition wpabuf_alloc_ext_data :: "bool \<Rightarrow> byte list \<Rightarrow> wpabuf option" where
  "wpabuf_alloc_ext_data ok data =
     (if ok then Some \<lparr>wb_size = length data, wb_used = length data, wb_buf = data, wb_ext_data = True\<rparr>
      else None)"

definition wpabuf_put :: "wpabuf \<Rightarrow> nat \<Rightarrow> fault + nat \<times> wpabuf" where
  "wpabuf_put b len =
     (let tmp = wb_used b; b' = b\<lparr>wb_used := wb_used b + len\<rparr> in
      if wb_used b' > wb_size b' then Inl Abort else Inr (tmp, b'))"

definition wpabuf_put_data :: "wpabuf \<Rightarrow> byte list option \<Rightarrow> nat \<Rightarrow> fault + wpabuf" where
  \<comment> \<open>\<open>None\<close> is a null \<open>data\<close> pointer; \<open>len\<close> octets of \<open>data\<close> are copied\<close>
  "wpabuf_put_data b data len =
     (case data of
        None \<Rightarrow> Inr b
      | Some d \<Rightarrow>
          (case wpabuf_put b len of
             Inl e \<Rightarrow> Inl e
           | Inr (pos, b') \<Rightarrow> Inr (b'\<lparr>wb_buf := mem_write (wb_buf b') pos (take len d)\<rparr>)))"

definition wpabuf_put_buf :: "wpabuf \<Rightarrow> wpabuf \<Rightarrow> fault + wpabuf" where
  "wpabuf_put_buf dst src = wpabuf_put_data dst (Some (wpabuf_head src)) (wpabuf_len src)"

definition wpabuf_put_octets :: "wpabuf \<Rightarrow> byte list \<Rightarrow> fault + wpabuf" where
  \<comment> \<open>\<open>pos = wpabuf_put (buf, n)\<close> followed by the store of the \<open>n\<close> octets\<close>
  "wpabuf_put_octets b xs = wpabuf_put_data b (Some xs) (length xs)"

definition wpabuf_put_u8 :: "wpabuf \<Rightarrow> byte \<Rightarrow> fault + wpabuf" where
  "wpabuf_put_u8 b d = wpabuf_put_octets b [d]"

definition wpabuf_put_le16 :: "wpabuf \<Rightarrow> u16 \<Rightarrow> fault + wpabuf" where
  "wpabuf_put_le16 b d = wpabuf_put_octets b (put_le16 d)"

definition wpabuf_put_le32 :: "wpabuf \<Rightarrow> u32 \<Rightarrow> fault + wpabuf" where
  "wpabuf_put_le32 b d = wpabuf_put_octets b (put_le32 d)"

definition wpabuf_put_be16 :: "wpabuf \<Rightarrow> u16 \<Rightarrow> fault + wpabuf" where
  "wpabuf_put_be16 b d = wpabuf_put_octets b (put_be16 d)"

definition wpabuf_put_be24 :: "wpabuf \<Rightarrow> u32 \<Rightarrow> fault + wpabuf" where
  "wpabuf_put_be24 b d = wpabuf_put_octets b (put_be24 d)"

definition wpabuf_put_be32 :: "wpabuf \<Rightarrow> u32 \<Rightarrow> fault + wpabuf" where
  "wpabuf_put_be32 b d = wpabuf_put_octets b (put_be32 d)"

definition wpabuf_put_str :: "wpabuf \<Rightarrow> string \<Rightarrow> fault + wpabuf" where
  "wpabuf_put_str b s = wpabuf_put_octets b (map ord8 s)"

definition wpabuf_set :: "wpabuf \<Rightarrow> byte list \<Rightarrow> wpabuf" where
  "wpabuf_set b data =
     b\<lparr>wb_buf := data, wb_ext_data := True, wb_size := length data, wb_used := length data\<rparr>"

definition wpabuf_alloc_copy :: "bool \<Rightarrow> byte list \<Rightarrow> fault + wpabuf option" where
  "wpabuf_alloc_copy ok data =
     (case wpabuf_alloc ok (length data) of
        None \<Rightarrow> Inr None
      | Some b \<Rightarrow>
          (case wpabuf_put_data b (Some data) (length data) of
             Inl e \<Rightarrow> Inl e
           | Inr b' \<Rightarrow> Inr (Some b')))"

definition wpabuf_dup :: "bool \<Rightarrow> wpabuf \<Rightarrow> fault + wpabuf option" where
  "wpabuf_dup ok src =
     (case wpabuf_alloc ok (wpabuf_len src) of
        None \<Rightarrow> Inr None
      | Some b \<Rightarrow>
          (case wpabuf_put_data b (Some (wpabuf_head src)) (wpabuf_len src) of
             Inl e \<Rightarrow> Inl e
           | Inr b' \<Rightarrow> Inr (Some b')))"

text \<open>The status and the buffer the caller's pointer refers to afterwards.\<close>

definition wpabuf_resize :: "bool \<Rightarrow> wpabuf option \<Rightarrow> nat \<Rightarrow> int \<times> wpabuf option" where
  "wpabuf_resize ok pbuf add_len =
     (case pbuf of
        None \<Rightarrow>
          (case wpabuf_alloc ok add_len of None \<Rightarrow> (-1, None) | Some b \<Rightarrow> (0, Some b))
      | Some b \<Rightarrow>
          if wb_used b + add_len > wb_size b then
            (if \<not> ok then (-1, Some b)
             else (0, Some (b\<lparr>wb_buf := take (wb_used b) (wb_buf b) @ replicate add_len 0,
                              wb_size := wb_used b + add_len\<rparr>)))
          else (0, Some b))"

definition wpabuf_concat :: "bool \<Rightarrow> wpabuf option \<Rightarrow> wpabuf option \<Rightarrow> fault + wpabuf option" where
  "wpabuf_concat ok a b =
     (case b of
        None \<Rightarrow> Inr a
      | Some b' \<Rightarrow>
          (case wpabuf_alloc ok ((case a of None \<Rightarrow> 0 | Some a' \<Rightarrow> wpabuf_len a') + wpabuf_len b') of
             None \<Rightarrow> Inr None
           | Some n \<Rightarrow>
               (case (case a of None \<Rightarrow> Inr n | Some a' \<Rightarrow> wpabuf_put_buf n a') of
                  Inl e \<Rightarrow> Inl e
                | Inr n' \<Rightarrow>
                    (case wpabuf_put_buf n' b' of Inl e \<Rightarrow> Inl e | Inr n'' \<Rightarrow> Inr (Some n'')))))"

definition wpabuf_zeropad :: "bool \<Rightarrow> wpabuf option \<Rightarrow> nat \<Rightarrow> fault + wpabuf option" where
  "wpabuf_zeropad ok pbuf len =
     (case pbuf of
        None \<Rightarrow> Inr None
      | Some b \<Rightarrow>
          let blen = wpabuf_len b in
          if blen \<ge> len then Inr (Some b)
          else
            (case wpabuf_alloc ok len of
               None \<Rightarrow> Inr None
             | Some ret \<Rightarrow>
                 (case wpabuf_put_octets ret (replicate (len - blen) 0) of
                    Inl e \<Rightarrow> Inl e
                  | Inr ret' \<Rightarrow>
                      (case wpabuf_put_buf ret' b of Inl e \<Rightarrow> Inl e | Inr r \<Rightarrow> Inr (Some r)))))"

definition wpabuf_printf :: "wpabuf \<Rightarrow> string \<Rightarrow> fault + wpabuf" where
  \<comment> \<open>\<open>s\<close> is the formatted text; \<open>vsnprintf\<close> also stores its terminator\<close>
  "wpabuf_printf b s =
     (if length s \<ge> wb_size b - wb_used b then Inl Abort
      else Inr (b\<lparr>wb_buf := mem_write (wb_buf b) (wb_used b) (map ord8 s @ [0]),
                  wb_used := wb_used b + length s\<rparr>))"

section \<open>The invariant, and the buffer as a sequence of octets\<close>

definition wf_wpabuf :: "wpabuf \<Rightarrow> bool" where
  "wf_wpabuf b \<longleftrightarrow> length (wb_buf b) = wb_size b \<and> wb_used b \<le> wb_size b"

lemma length_mem_write: "off + length xs \<le> length m \<Longrightarrow> length (mem_write m off xs) = length m"
  by (simp add: mem_write_def)

lemma take_mem_write: "off + length xs \<le> length m \<Longrightarrow>
    take (off + length xs) (mem_write m off xs) = take off m @ xs"
  by (simp add: mem_write_def)

lemma length_wpabuf_head [simp]: "wf_wpabuf b \<Longrightarrow> length (wpabuf_head b) = wpabuf_len b"
  by (simp add: wf_wpabuf_def wpabuf_head_def wpabuf_len_def)

lemma wpabuf_put_octets_fits:
  assumes "wf_wpabuf b" and "length xs \<le> wpabuf_tailroom b"
  shows "\<exists>b'. wpabuf_put_octets b xs = Inr b' \<and> wf_wpabuf b' \<and> wpabuf_head b' = wpabuf_head b @ xs
    \<and> wpabuf_tailroom b' = wpabuf_tailroom b - length xs"
  using assms take_mem_write [of "wb_used b" xs "wb_buf b"] length_mem_write [of "wb_used b" xs "wb_buf b"]
  by (auto simp: wpabuf_put_octets_def wpabuf_put_data_def wpabuf_put_def Let_def wf_wpabuf_def
      wpabuf_tailroom_def wpabuf_head_def)

lemma wpabuf_put_octets_full:
  "wf_wpabuf b \<Longrightarrow> wpabuf_tailroom b < length xs \<Longrightarrow> wpabuf_put_octets b xs = Inl Abort"
  by (auto simp: wpabuf_put_octets_def wpabuf_put_data_def wpabuf_put_def Let_def wf_wpabuf_def
      wpabuf_tailroom_def)

interpretation wpabuf: append_buffer wpabuf_put_octets wpabuf_head wpabuf_tailroom wf_wpabuf
  using wpabuf_put_octets_fits wpabuf_put_octets_full by unfold_locales blast+

lemma wpabuf_put_buf_octets: "wf_wpabuf s \<Longrightarrow> wpabuf_put_buf b s = wpabuf_put_octets b (wpabuf_head s)"
  by (simp add: wpabuf_put_buf_def wpabuf_put_octets_def)

lemma wpabuf_alloc_empty:
  "\<exists>b. wpabuf_alloc True n = Some b \<and> wf_wpabuf b \<and> wpabuf_head b = [] \<and> wpabuf_tailroom b = n"
  by (simp add: wpabuf_alloc_def wf_wpabuf_def wpabuf_head_def wpabuf_tailroom_def)


lemma put_all_octets_Inl: "put_all wpabuf_put_octets b xss = Inl e \<Longrightarrow> e = Abort"
proof (induction xss arbitrary: b)
  case (Cons xs xss)
  then show ?case
    by (auto simp: wpabuf_put_octets_def wpabuf_put_data_def wpabuf_put_def Let_def split: sum.splits if_splits)
qed simp

lemma wf_resize_block:
  "wf_wpabuf b \<Longrightarrow> wb_used b + n > wb_size b \<Longrightarrow>
     wf_wpabuf (b\<lparr>wb_buf := take (wb_used b) (wb_buf b) @ replicate n 0, wb_size := wb_used b + n\<rparr>)
     \<and> wpabuf_head (b\<lparr>wb_buf := take (wb_used b) (wb_buf b) @ replicate n 0, wb_size := wb_used b + n\<rparr>)
         = wpabuf_head b"
  by (simp add: wf_wpabuf_def wpabuf_head_def)

lemma wpabuf_concat_octets:
  assumes "\<forall>a' \<in> set_option a. wf_wpabuf a'" and "wf_wpabuf b"
  shows "\<exists>n. wpabuf_concat True a (Some b) = Inr (Some n) \<and> wf_wpabuf n
     \<and> wpabuf_head n = (case a of None \<Rightarrow> [] | Some a' \<Rightarrow> wpabuf_head a') @ wpabuf_head b
     \<and> wpabuf_tailroom n = 0"
proof -
  let ?pre = "case a of None \<Rightarrow> [] | Some a' \<Rightarrow> wpabuf_head a'"
  let ?len = "(case a of None \<Rightarrow> 0 | Some a' \<Rightarrow> wpabuf_len a') + wpabuf_len b"
  obtain n where n: "wpabuf_alloc True ?len = Some n" "wf_wpabuf n" "wpabuf_head n = []"
    "wpabuf_tailroom n = ?len" using wpabuf_alloc_empty by blast
  have len: "?len = length (?pre @ wpabuf_head b)" using assms by (cases a) simp_all
  obtain m where m: "(case a of None \<Rightarrow> Inr n | Some a' \<Rightarrow> wpabuf_put_buf n a') = Inr m" "wf_wpabuf m"
    "wpabuf_head m = ?pre" "wpabuf_tailroom m = wpabuf_len b"
  proof (cases a)
    case None
    with n show ?thesis using that by simp
  next
    case (Some a')
    with assms n len wpabuf_put_octets_fits [of n "wpabuf_head a'"] show ?thesis
      using that by (auto simp: wpabuf_put_buf_octets)
  qed
  with assms(2) wpabuf_put_octets_fits [of m "wpabuf_head b"] show ?thesis
    by (auto simp: wpabuf_concat_def n(1) wpabuf_put_buf_octets)
qed

text \<open>
  The writers do what the frame builders rely on. A sequence of writes into a fresh
  buffer of \<open>n\<close> octets goes through when the octets written fit, and the data of the
  buffer is then the concatenation of what was written; when they do not fit the program
  is stopped by \<open>abort()\<close>, so nothing is written outside the block.
\<close>

theorem wpabuf_writes:
  assumes "wpabuf_alloc True n = Some b"
  shows "(length (concat xss) \<le> n \<longrightarrow>
       (\<exists>b'. put_all wpabuf_put_octets b xss = Inr b' \<and> wf_wpabuf b' \<and> wpabuf_head b' = concat xss
          \<and> wpabuf_tailroom b' = n - length (concat xss)))
    \<and> (n < length (concat xss) \<longrightarrow> put_all wpabuf_put_octets b xss = Inl Abort)"
proof -
  from assms wpabuf_alloc_empty [of n] have b: "wf_wpabuf b" "wpabuf_head b = []" "wpabuf_tailroom b = n"
    by auto
  show ?thesis
    using wpabuf.put_all_fits [OF b(1), of xss] wpabuf.put_all_full [OF b(1), of xss]
      put_all_octets_Inl [of b xss] by (auto simp: b)
qed

lemma wpabuf_writes_witness:
  "(\<exists>b'. put_all wpabuf_put_octets \<lparr>wb_size = 4, wb_used = 0, wb_buf = [0, 0, 0, 0], wb_ext_data = False\<rparr>
        [put_le16 0x1234, [7]] = Inr b' \<and> wpabuf_head b' = [0x34, 0x12, 7])
   \<and> put_all wpabuf_put_octets \<lparr>wb_size = 4, wb_used = 0, wb_buf = [0, 0, 0, 0], wb_ext_data = False\<rparr>
        [put_le16 0x1234, [7, 8, 9]] = Inl Abort"
proof -
  have a: "wpabuf_alloc True 4 = Some \<lparr>wb_size = 4, wb_used = 0, wb_buf = [0, 0, 0, 0], wb_ext_data = False\<rparr>"
    by (simp add: wpabuf_alloc_def eval_nat_numeral)
  have p: "put_le16 0x1234 = [0x34, 0x12]" by (simp add: put_le16_def)
  show ?thesis
    using wpabuf_writes [OF a, of "[put_le16 0x1234, [7]]"] wpabuf_writes [OF a, of "[put_le16 0x1234, [7, 8, 9]]"]
    by (auto simp: p)
qed

lemma wpabuf_resize_room:
  assumes "\<forall>b \<in> set_option pbuf. wf_wpabuf b"
    and "wpabuf_resize ok pbuf add_len = (r, q)" and "length xs \<le> add_len"
  shows "(r = 0 \<longrightarrow> (\<exists>b b'. q = Some b \<and> wf_wpabuf b \<and> wpabuf_put_octets b xs = Inr b' \<and> wf_wpabuf b'
            \<and> wpabuf_head b' = (case pbuf of None \<Rightarrow> [] | Some a \<Rightarrow> wpabuf_head a) @ xs))
    \<and> (r \<noteq> 0 \<longrightarrow> r = -1 \<and> \<not> ok \<and> q = pbuf)"
proof -
  have ready: "\<exists>b'. wpabuf_put_octets b xs = Inr b' \<and> wf_wpabuf b' \<and> wpabuf_head b' = wpabuf_head b @ xs"
    if "wf_wpabuf b" "add_len \<le> wpabuf_tailroom b" for b
    using that assms(3) wpabuf_put_octets_fits [of b xs] by auto
  show ?thesis
  proof (cases pbuf)
    case None
    obtain m where m: "wpabuf_alloc True add_len = Some m" "wf_wpabuf m" "wpabuf_head m = []"
      "wpabuf_tailroom m = add_len" using wpabuf_alloc_empty by blast
    have "wpabuf_resize ok pbuf add_len = (if ok then (0, Some m) else (-1, None))"
      using None m(1) by (simp add: wpabuf_resize_def wpabuf_alloc_def [of False])
    with None m assms(2) ready [of m] show ?thesis by (cases ok) auto
  next
    case (Some b)
    show ?thesis
    proof (cases "wb_used b + add_len > wb_size b")
      case True
      let ?n = "b\<lparr>wb_buf := take (wb_used b) (wb_buf b) @ replicate add_len 0, wb_size := wb_used b + add_len\<rparr>"
      have "wf_wpabuf ?n" "wpabuf_head ?n = wpabuf_head b" "wpabuf_tailroom ?n = add_len"
        using wf_resize_block [OF _ True] assms(1) Some by (simp_all add: wpabuf_tailroom_def)
      with Some True assms(2) ready [of ?n] show ?thesis
        by (cases ok) (auto simp: wpabuf_resize_def)
    next
      case False
      with Some assms ready [of b] show ?thesis
        by (auto simp: wpabuf_resize_def wpabuf_tailroom_def)
    qed
  qed
qed

text \<open>
  Growing a buffer. After a successful \<open>wpabuf_resize\<close> the data is unchanged and
  \<open>add_len\<close> more octets can be written without reaching \<open>abort()\<close>; a failed one leaves the
  caller's buffer as it was.
\<close>

theorem wpabuf_resize_makes_room:
  assumes "\<forall>b \<in> set_option pbuf. wf_wpabuf b"
    and "wpabuf_resize ok pbuf add_len = (r, q)" and "length xs \<le> add_len"
  shows "(r = 0 \<longrightarrow> (\<exists>b b'. q = Some b \<and> wf_wpabuf b \<and> wpabuf_put_octets b xs = Inr b' \<and> wf_wpabuf b'
            \<and> wpabuf_head b' = (case pbuf of None \<Rightarrow> [] | Some a \<Rightarrow> wpabuf_head a) @ xs))
    \<and> (r \<noteq> 0 \<longrightarrow> r = -1 \<and> \<not> ok \<and> q = pbuf)"
  using assms by (rule wpabuf_resize_room)

lemma wpabuf_resize_makes_room_witness:
  "\<exists>b b'. wpabuf_resize True None 2 = (0, Some b) \<and> wpabuf_put_octets b [1, 2] = Inr b'
      \<and> wpabuf_head b' = [1, 2]"
proof -
  obtain q where q: "wpabuf_resize True None 2 = (0, q)" by (simp add: wpabuf_resize_def wpabuf_alloc_def)
  have "\<forall>b \<in> set_option None. wf_wpabuf b" by simp
  from wpabuf_resize_makes_room [OF this q, of "[1, 2]"] q show ?thesis by auto
qed

text \<open>
  The derived buffers. When the allocation succeeds, copying, duplicating,
  concatenating and left-padding never reach \<open>abort()\<close> and give exactly the octets of
  their inputs (for padding, preceded by the zeros that make up the length); when it
  fails they return no buffer.
\<close>

theorem wpabuf_derived_buffers:
  assumes "wf_wpabuf a" and "wf_wpabuf b"
  shows "\<exists>c d e p. wpabuf_alloc_copy True xs = Inr (Some c) \<and> wpabuf_head c = xs
     \<and> wpabuf_dup True a = Inr (Some d) \<and> wpabuf_head d = wpabuf_head a
     \<and> wpabuf_concat True (Some a) (Some b) = Inr (Some e) \<and> wpabuf_head e = wpabuf_head a @ wpabuf_head b
     \<and> wpabuf_zeropad True (Some a) n = Inr (Some p)
     \<and> wpabuf_head p = replicate (n - length (wpabuf_head a)) 0 @ wpabuf_head a
     \<and> wpabuf_alloc_copy False xs = Inr None \<and> wpabuf_dup False a = Inr None
     \<and> wpabuf_concat False (Some a) (Some b) = Inr None"
proof -
  have copy: "\<exists>c. wpabuf_alloc_copy True ys = Inr (Some c) \<and> wpabuf_head c = ys" for ys
  proof -
    obtain m where m: "wpabuf_alloc True (length ys) = Some m" "wf_wpabuf m" "wpabuf_head m = []"
      "wpabuf_tailroom m = length ys" using wpabuf_alloc_empty by blast
    with wpabuf_put_octets_fits [of m ys] show ?thesis
      by (auto simp: wpabuf_alloc_copy_def wpabuf_put_octets_def)
  qed
  have dup: "wpabuf_dup True a = wpabuf_alloc_copy True (wpabuf_head a)"
    unfolding wpabuf_dup_def wpabuf_alloc_copy_def length_wpabuf_head [OF assms(1)] by (rule refl)
  have pad: "\<exists>p. wpabuf_zeropad True (Some a) n = Inr (Some p)
     \<and> wpabuf_head p = replicate (n - length (wpabuf_head a)) 0 @ wpabuf_head a"
  proof (cases "wpabuf_len a \<ge> n")
    case True
    with assms show ?thesis by (simp add: wpabuf_zeropad_def)
  next
    case False
    obtain m where m: "wpabuf_alloc True n = Some m" "wf_wpabuf m" "wpabuf_head m = []"
      "wpabuf_tailroom m = n" using wpabuf_alloc_empty by blast
    from wpabuf_put_octets_fits [OF m(2), of "replicate (n - wpabuf_len a) 0"] m False obtain k where
      k: "wpabuf_put_octets m (replicate (n - wpabuf_len a) 0) = Inr k" "wf_wpabuf k"
      "wpabuf_head k = replicate (n - wpabuf_len a) 0" "wpabuf_tailroom k = wpabuf_len a" by auto
    with wpabuf_put_octets_fits [OF k(2), of "wpabuf_head a"] False assms m(1) show ?thesis
      by (auto simp: wpabuf_zeropad_def wpabuf_put_buf_octets)
  qed
  from copy [of xs] copy [of "wpabuf_head a"] dup pad wpabuf_concat_octets [of "Some a" b] assms show ?thesis
    by (auto simp: wpabuf_alloc_copy_def wpabuf_dup_def wpabuf_concat_def wpabuf_alloc_def)
qed

lemma wpabuf_derived_buffers_witness:
  "\<exists>e. wpabuf_concat True (Some \<lparr>wb_size = 3, wb_used = 1, wb_buf = [9, 0, 0], wb_ext_data = False\<rparr>)
        (Some \<lparr>wb_size = 2, wb_used = 2, wb_buf = [5, 6], wb_ext_data = True\<rparr>) = Inr (Some e)
     \<and> wpabuf_head e = [9, 5, 6]"
proof -
  have "wf_wpabuf \<lparr>wb_size = 3, wb_used = 1, wb_buf = [9, 0, 0], wb_ext_data = False\<rparr>"
    "wf_wpabuf \<lparr>wb_size = 2, wb_used = 2, wb_buf = [5, 6], wb_ext_data = True\<rparr>"
    by (simp_all add: wf_wpabuf_def)
  from wpabuf_derived_buffers [OF this, of "[]" 0] show ?thesis by (auto simp: wpabuf_head_def)
qed

end
