(* ===== verification/Bitfield.thy ===== *)
theory Bitfield
  imports Interfaces
begin

text \<open>
  The bit field of \<open>utils/bitfield.c\<close>: a set of numbers below \<open>max_bits\<close>, kept in the
  octets that follow the structure. The search for a free number is modelled with the
  octet that the loop of \<open>bitfield_get_first_zero\<close> can read after the last one as a
  \<open>fault\<close>. It provides the interface \<open>bit_store\<close>.
\<close>

section \<open>State and operations\<close>

record bitfield =
  bf_bits :: "byte list"
  bf_max_bits :: nat

definition bitfield_alloc :: "bool \<Rightarrow> nat \<Rightarrow> bitfield option" where
  "bitfield_alloc ok max_bits =
     (if ok then Some \<lparr>bf_bits = replicate ((max_bits + 7) div 8) 0, bf_max_bits = max_bits\<rparr> else None)"

definition bitfield_set :: "bitfield \<Rightarrow> nat \<Rightarrow> bitfield" where
  "bitfield_set bf i =
     (if i \<ge> bf_max_bits bf then bf
      else bf\<lparr>bf_bits := (bf_bits bf)[i div 8 := bf_bits bf ! (i div 8) OR push_bit (i mod 8) 1]\<rparr>)"

definition bitfield_clear :: "bitfield \<Rightarrow> nat \<Rightarrow> bitfield" where
  "bitfield_clear bf i =
     (if i \<ge> bf_max_bits bf then bf
      else bf\<lparr>bf_bits := (bf_bits bf)[i div 8 := bf_bits bf ! (i div 8) AND NOT (push_bit (i mod 8) 1)]\<rparr>)"

definition bitfield_is_set :: "bitfield \<Rightarrow> nat \<Rightarrow> bool" where
  "bitfield_is_set bf i =
     (if i \<ge> bf_max_bits bf then False
      else bf_bits bf ! (i div 8) AND push_bit (i mod 8) 1 \<noteq> 0)"

fun first_zero_loop :: "nat \<Rightarrow> nat \<Rightarrow> byte \<Rightarrow> int" where
  \<comment> \<open>the first argument is \<open>8 - i\<close>\<close>
  "first_zero_loop 0 i val = -1"
| "first_zero_loop (Suc n) i val =
     (if val AND 1 = 0 then int i else first_zero_loop n (i + 1) (drop_bit 1 val))"

definition first_zero :: "byte \<Rightarrow> int" where
  "first_zero val = first_zero_loop 8 0 val"

text \<open>
  \<open>n\<close> octets of the array are left from octet \<open>i\<close> on; the loop condition of the code
  admits one octet more, \<open>i = (max_bits + 7) / 8\<close>.
\<close>

fun find_octet :: "byte list \<Rightarrow> nat \<Rightarrow> fault + nat \<times> byte" where
  "find_octet [] i = Inl (Read_past_end i (i + 1))"
| "find_octet (b # bs) i = (if b \<noteq> 0xFF then Inr (i, b) else find_octet bs (i + 1))"

definition bitfield_get_first_zero :: "bitfield \<Rightarrow> fault + int" where
  "bitfield_get_first_zero bf =
     (case find_octet (bf_bits bf) 0 of
        Inl e \<Rightarrow> Inl e
      | Inr (i, b) \<Rightarrow>
          let r = int i * 8 + first_zero b in
          if r \<ge> int (bf_max_bits bf) then Inr (-1) else Inr r)"

section \<open>The invariant and the interface\<close>

definition wf_bitfield :: "bitfield \<Rightarrow> bool" where
  "wf_bitfield bf \<longleftrightarrow> length (bf_bits bf) = (bf_max_bits bf + 7) div 8
     \<and> (\<forall>i < 8 * length (bf_bits bf). bf_max_bits bf \<le> i \<longrightarrow> \<not> bit (bf_bits bf ! (i div 8)) (i mod 8))"

lemma is_set_bit: "bitfield_is_set bf i \<longleftrightarrow> i < bf_max_bits bf \<and> bit (bf_bits bf ! (i div 8)) (i mod 8)"
  by (simp add: bitfield_is_set_def bit_iff_and_push_bit_not_eq_0)

lemma octet_index: "wf_bitfield bf \<Longrightarrow> i < bf_max_bits bf \<Longrightarrow> i div 8 < length (bf_bits bf)"
  by (simp add: wf_bitfield_def)

lemma bit_update:
  assumes "i div 8 < length bs" and "j div 8 < length bs"
  shows "bit (bs[i div 8 := bs ! (i div 8) OR push_bit (i mod 8) 1] ! (j div 8)) (j mod 8)
           \<longleftrightarrow> j = i \<or> bit (bs ! (j div 8) :: byte) (j mod 8)" (is ?or)
    and "bit (bs[i div 8 := bs ! (i div 8) AND NOT (push_bit (i mod 8) 1)] ! (j div 8)) (j mod 8)
           \<longleftrightarrow> j \<noteq> i \<and> bit (bs ! (j div 8) :: byte) (j mod 8)" (is ?and)
proof -
  have eq: "j = i \<longleftrightarrow> j div 8 = i div 8 \<and> j mod 8 = i mod 8"
    by (metis div_mult_mod_eq)
  have m: "j mod 8 < 8" "i mod 8 < 8" by simp_all
  show ?or using assms m by (auto simp: eq nth_list_update bit_simps)
  show ?and using assms m by (auto simp: eq nth_list_update bit_simps)
qed

lemma wf_bitfield_set: "wf_bitfield bf \<Longrightarrow> wf_bitfield (bitfield_set bf i)"
  using octet_index [of bf i] bit_update(1) [of i "bf_bits bf"]
  by (auto simp: bitfield_set_def wf_bitfield_def)

lemma wf_bitfield_clear: "wf_bitfield bf \<Longrightarrow> wf_bitfield (bitfield_clear bf i)"
  using octet_index [of bf i] bit_update(2) [of i "bf_bits bf"]
  by (auto simp: bitfield_clear_def wf_bitfield_def)

interpretation bitfield: bit_store bitfield_set bitfield_clear bitfield_is_set bf_max_bits wf_bitfield
proof unfold_locales
  fix b i j
  assume b: "wf_bitfield b"
  show "wf_bitfield (bitfield_set b i)" "wf_bitfield (bitfield_clear b i)"
    by (fact wf_bitfield_set [OF b] wf_bitfield_clear [OF b])+
  show "bf_max_bits (bitfield_set b i) = bf_max_bits b" "bf_max_bits (bitfield_clear b i) = bf_max_bits b"
    by (simp_all add: bitfield_set_def bitfield_clear_def)
  show "bf_max_bits b \<le> i \<Longrightarrow> bitfield_set b i = b" "bf_max_bits b \<le> i \<Longrightarrow> bitfield_clear b i = b"
    by (simp_all add: bitfield_set_def bitfield_clear_def)
  show "bitfield_is_set b i \<Longrightarrow> i < bf_max_bits b" by (simp add: is_set_bit)
  assume i: "i < bf_max_bits b"
  show "bitfield_is_set (bitfield_set b i) j = (j = i \<or> bitfield_is_set b j)"
    using octet_index [OF b] i bit_update(1) [of i "bf_bits b" j]
    by (auto simp: is_set_bit bitfield_set_def)
  show "bitfield_is_set (bitfield_clear b i) j = (j \<noteq> i \<and> bitfield_is_set b j)"
    using octet_index [OF b] i bit_update(2) [of i "bf_bits b" j]
    by (auto simp: is_set_bit bitfield_clear_def)
qed

section \<open>The first free number\<close>

lemma first_zero_loop:
  "(\<exists>k < n. \<not> bit val k) \<Longrightarrow>
     \<exists>k < n. first_zero_loop n i val = int (i + k) \<and> \<not> bit val k \<and> (\<forall>j < k. bit val j)"
proof (induction n arbitrary: i val)
  case 0
  then show ?case by simp
next
  case (Suc n)
  have b0: "val AND 1 = 0 \<longleftrightarrow> \<not> bit val 0"
    using bit_iff_and_push_bit_not_eq_0 [of val 0] by auto
  show ?case
  proof (cases "bit val 0")
    case False
    with b0 show ?thesis by auto
  next
    case True
    have sh: "bit (drop_bit 1 val) k \<longleftrightarrow> bit val (Suc k)" for k by (simp add: bit_simps)
    from Suc.prems True have "\<exists>k < n. \<not> bit (drop_bit 1 val) k"
      unfolding sh by (metis Suc_less_eq not0_implies_Suc)
    from Suc.IH [OF this, of "i + 1"] obtain k where
      "k < n" "first_zero_loop n (i + 1) (drop_bit 1 val) = int (i + Suc k)"
      "\<not> bit val (Suc k)" "\<forall>j < k. bit val (Suc j)" unfolding sh by auto
    with True b0 show ?thesis
      by (intro exI [of _ "Suc k"]) (auto simp: less_Suc_eq_0_disj)
  qed
qed

lemma first_zero_least:
  assumes "b \<noteq> 0xFF"
  shows "\<exists>k < 8. first_zero b = int k \<and> \<not> bit b k \<and> (\<forall>j < k. bit b j)"
proof -
  have "\<exists>k < 8. \<not> bit b k"
  proof (rule ccontr)
    assume "\<not> ?thesis"
    then have "b = mask 8" by (intro bit_word_eqI) (simp add: bit_simps)
    with assms show False by (simp add: mask_eq_exp_minus_1)
  qed
  from first_zero_loop [OF this, of 0] show ?thesis by (simp add: first_zero_def)
qed

lemma find_octet_cases:
  "(find_octet bs i = Inl (Read_past_end (i + length bs) (i + length bs + 1)) \<and> (\<forall>b \<in> set bs. b = 0xFF))
   \<or> (\<exists>k < length bs. find_octet bs i = Inr (i + k, bs ! k) \<and> bs ! k \<noteq> 0xFF \<and> (\<forall>j < k. bs ! j = 0xFF))"
proof (induction bs arbitrary: i)
  case Nil
  then show ?case by simp
next
  case (Cons b bs)
  show ?case
  proof (cases "b = 0xFF")
    case True
    from Cons.IH [of "i + 1"] show ?thesis
    proof (elim disjE exE conjE)
      fix k
      assume "k < length bs" "find_octet bs (i + 1) = Inr (i + 1 + k, bs ! k)" "bs ! k \<noteq> 0xFF"
        "\<forall>j < k. bs ! j = 0xFF"
      with True show ?thesis
        by (intro disjI2 exI [of _ "Suc k"]) (auto simp: less_Suc_eq_0_disj)
    qed (use True in auto)
  qed auto
qed

lemma bit_255: "k < 8 \<Longrightarrow> bit (0xFF :: byte) k"
proof -
  assume k: "k < 8"
  have "(0xFF :: byte) = mask 8" by (simp add: mask_eq_exp_minus_1)
  then show ?thesis using k by (simp only: bit_mask_iff) (simp add: possible_bit_def)
qed

lemma octets_exact:
  "8 * ((m + 7) div 8) \<le> m \<Longrightarrow> m mod 8 = 0 \<and> (m + 7) div 8 = m div 8 \<and> m \<le> 8 * ((m + 7) div 8)"
  for m :: nat
proof -
  define q r where "q = (m + 7) div 8" and "r = (m + 7) mod 8"
  assume "8 * ((m + 7) div 8) \<le> m"
  then have "8 * q \<le> m" unfolding q_def .
  moreover have "8 * q + r = m + 7" unfolding q_def r_def by simp
  moreover have "r < 8" unfolding r_def by simp
  ultimately have m: "m = 8 * q" by linarith
  have "(m + 7) div 8 = q" unfolding q_def ..
  then show ?thesis unfolding m by simp
qed

lemma find_octet_Inl:
  assumes wf: "wf_bitfield bf" and e: "find_octet (bf_bits bf) 0 = Inl e"
  shows "bf_max_bits bf mod 8 = 0 \<and> e = Read_past_end (bf_max_bits bf div 8) (bf_max_bits bf div 8 + 1)
    \<and> (\<forall>i < bf_max_bits bf. bitfield_is_set bf i)"
proof -
  let ?n = "length (bf_bits bf)"
  from find_octet_cases [of "bf_bits bf" 0] e
  have e': "e = Read_past_end ?n (?n + 1)" and ff: "\<forall>b \<in> set (bf_bits bf). b = 0xFF" by auto
  have bits: "bit (bf_bits bf ! (i div 8)) (i mod 8)" if "i < 8 * ?n" for i
  proof -
    have "i div 8 < ?n" using that by (simp add: less_mult_imp_div_less mult.commute)
    then have "bf_bits bf ! (i div 8) = 0xFF" using ff nth_mem by blast
    then show ?thesis using bit_255 [of "i mod 8"] by simp
  qed
  have n: "?n = (bf_max_bits bf + 7) div 8" using wf by (simp add: wf_bitfield_def)
  have "8 * ?n \<le> bf_max_bits bf"
  proof (rule ccontr)
    assume "\<not> ?thesis"
    then have lt: "bf_max_bits bf < 8 * ?n" by simp
    with wf have "\<not> bit (bf_bits bf ! (bf_max_bits bf div 8)) (bf_max_bits bf mod 8)"
      unfolding wf_bitfield_def by blast
    with bits [OF lt] show False by blast
  qed
  with octets_exact [of "bf_max_bits bf"] have
    max: "bf_max_bits bf mod 8 = 0" "?n = bf_max_bits bf div 8" "bf_max_bits bf \<le> 8 * ?n"
    unfolding n by blast+
  have "bitfield_is_set bf i" if "i < bf_max_bits bf" for i
    unfolding is_set_bit using that bits [of i] max(3) by linarith
  with max(1) e' [unfolded max(2)] show ?thesis by blast
qed

lemma index_split: "i < 8 * k + m \<Longrightarrow> m < 8 \<Longrightarrow> \<not> i div 8 < k \<Longrightarrow> i div 8 = k \<and> i mod 8 < m"
  for i k m :: nat
proof -
  assume a: "i < 8 * k + m" "m < 8" "\<not> i div 8 < k"
  have "i div 8 \<le> (8 * k + 7) div 8" using a(1,2) by (intro div_le_mono) simp
  also have "\<dots> = k" by simp
  finally have d: "i div 8 = k" using a(3) by simp
  have "i = 8 * (i div 8) + i mod 8" by simp
  with a(1) show ?thesis unfolding d by linarith
qed

lemma find_octet_Inr:
  assumes wf: "wf_bitfield bf" and e: "find_octet (bf_bits bf) 0 = Inr (k, b)"
  shows "\<exists>r. int k * 8 + first_zero b = int r \<and> r < 8 * length (bf_bits bf)
    \<and> \<not> bit (bf_bits bf ! (r div 8)) (r mod 8) \<and> (\<forall>i < r. bit (bf_bits bf ! (i div 8)) (i mod 8))"
proof -
  from find_octet_cases [of "bf_bits bf" 0] e
  have k: "k < length (bf_bits bf)" "b = bf_bits bf ! k" "b \<noteq> 0xFF" "\<forall>j < k. bf_bits bf ! j = 0xFF" by auto
  from first_zero_least [OF k(3)] obtain m where
    m: "m < 8" "first_zero b = int m" "\<not> bit b m" "\<forall>j < m. bit b j" by blast
  have rd: "(8 * k + m) div 8 = k" "(8 * k + m) mod 8 = m" using m(1) by simp_all
  have below: "bit (bf_bits bf ! (i div 8)) (i mod 8)" if "i < 8 * k + m" for i
  proof (cases "i div 8 < k")
    case True
    with k(4) bit_255 [of "i mod 8"] show ?thesis by simp
  next
    case False
    with index_split [OF that m(1)] have d: "i div 8 = k" and "i mod 8 < m" by blast+
    with m(4) k(2) d show ?thesis by simp
  qed
  show ?thesis
    by (rule exI [of _ "8 * k + m"]) (use m k rd below in auto)
qed

text \<open>
  The search for a free number. On a field whose unused bits are clear (as the
  allocation leaves it and set and clear keep it), \<open>bitfield_get_first_zero\<close> returns the
  least number that is not in the set; when all are taken it returns -1 if \<open>max_bits\<close> is
  not a multiple of eight, and otherwise it reads the octet after the array.
\<close>

theorem bitfield_first_zero:
  assumes wf: "wf_bitfield bf"
  shows "bitfield_get_first_zero bf =
     (if \<exists>i < bf_max_bits bf. \<not> bitfield_is_set bf i
      then Inr (int (LEAST i. \<not> bitfield_is_set bf i))
      else if bf_max_bits bf mod 8 \<noteq> 0 then Inr (-1)
      else Inl (Read_past_end (bf_max_bits bf div 8) (bf_max_bits bf div 8 + 1)))"
proof (cases "find_octet (bf_bits bf) 0")
  case (Inl e)
  with find_octet_Inl [OF wf Inl] show ?thesis by (auto simp: bitfield_get_first_zero_def)
next
  case (Inr kb)
  obtain k b where kb: "kb = (k, b)" by fastforce
  let ?max = "bf_max_bits bf"
  from find_octet_Inr [OF wf Inr [unfolded kb]] obtain r where
    r: "int k * 8 + first_zero b = int r" "r < 8 * length (bf_bits bf)"
    "\<not> bit (bf_bits bf ! (r div 8)) (r mod 8)" "\<forall>i < r. bit (bf_bits bf ! (i div 8)) (i mod 8)" by blast
  have get: "bitfield_get_first_zero bf = (if ?max \<le> r then Inr (-1) else Inr (int r))"
    by (simp add: bitfield_get_first_zero_def Inr kb r(1) Let_def)
  show ?thesis
  proof (cases "?max \<le> r")
    case True
    have all: "\<not> (\<exists>i < ?max. \<not> bitfield_is_set bf i)" using r(4) True by (auto simp: is_set_bit)
    have "length (bf_bits bf) = (?max + 7) div 8" using wf by (simp add: wf_bitfield_def)
    then have "?max mod 8 \<noteq> 0" using True r(2) by (auto elim!: dvdE simp: mod_eq_0_iff_dvd)
    with get True all show ?thesis by auto
  next
    case False
    then have "(LEAST i. \<not> bitfield_is_set bf i) = r"
      using r(3,4) by (intro Least_equality) (auto simp: is_set_bit not_less [symmetric])
    moreover have "\<exists>i < ?max. \<not> bitfield_is_set bf i" using False r(3) by (auto simp: is_set_bit not_le)
    ultimately show ?thesis using get False by simp
  qed
qed

lemma bitfield_first_zero_witness:
  "bitfield_get_first_zero \<lparr>bf_bits = [0x0F], bf_max_bits = 6\<rparr> = Inr 4
   \<and> bitfield_get_first_zero \<lparr>bf_bits = [0xFF], bf_max_bits = 8\<rparr> = Inl (Read_past_end 1 2)"
proof -
  have "wf_bitfield \<lparr>bf_bits = [0xFF], bf_max_bits = 8\<rparr>"
    by (simp add: wf_bitfield_def)
  moreover have "bitfield_is_set \<lparr>bf_bits = [0xFF], bf_max_bits = 8\<rparr> i" if "i < 8" for i
    using that bit_255 [of i] by (simp add: is_set_bit)
  moreover have "bitfield_get_first_zero \<lparr>bf_bits = [0x0F], bf_max_bits = 6\<rparr> = Inr 4"
    by code_simp
  ultimately show ?thesis using bitfield_first_zero [of "\<lparr>bf_bits = [0xFF], bf_max_bits = 8\<rparr>"] by simp
qed

text \<open>
  A field filled by a sequence of calls. Starting from a fresh field, after any list
  of \<open>bitfield_set\<close> calls exactly the numbers of the list that are below \<open>max_bits\<close> are
  reported as set, whatever their order and repetitions, and the numbers outside are
  ignored.
\<close>

theorem bitfield_set_list:
  assumes "bitfield_alloc True max_bits = Some bf"
  shows "bitfield_is_set (foldl bitfield_set bf is) j \<longleftrightarrow> j \<in> set is \<and> j < max_bits"
proof -
  have z: "bf_bits bf ! k = 0" if "k < length (bf_bits bf)" for k
    using assms that by (auto simp: bitfield_alloc_def)
  have len: "length (bf_bits bf) = (bf_max_bits bf + 7) div 8"
    using assms by (auto simp: bitfield_alloc_def)
  have wf: "wf_bitfield bf"
    unfolding wf_bitfield_def
  proof (intro conjI allI impI)
    fix i assume "i < 8 * length (bf_bits bf)"
    then have "i div 8 < length (bf_bits bf)" by (simp add: less_mult_imp_div_less mult.commute)
    then show "\<not> bit (bf_bits bf ! (i div 8)) (i mod 8)" by (simp add: z)
  qed (fact len)
  have max: "bf_max_bits bf = max_bits" using assms by (auto simp: bitfield_alloc_def)
  have "\<not> bitfield_is_set bf j"
  proof
    assume a: "bitfield_is_set bf j"
    then have "j < bf_max_bits bf" unfolding is_set_bit by blast
    from z [OF octet_index [OF wf this]] a show False unfolding is_set_bit by simp
  qed
  with conjunct2 [OF conjunct2 [OF bitfield.fold_add [OF wf, of "is"]]] max show ?thesis by simp
qed

lemma bitfield_set_list_witness:
  "\<forall>j. bitfield_is_set (foldl bitfield_set \<lparr>bf_bits = [0, 0], bf_max_bits = 10\<rparr> [9, 3, 12]) j \<longleftrightarrow> j \<in> {3, 9}"
proof -
  have "bitfield_alloc True 10 = Some \<lparr>bf_bits = [0, 0], bf_max_bits = 10\<rparr>"
    by code_simp
  note set_list = bitfield_set_list [OF this, of "[9, 3, 12]"]
  show ?thesis unfolding set_list by auto
qed

end
