(* ===== verification/Base64.thy ===== *)
theory Base64
  imports Interfaces
begin

text \<open>
  Base64 of \<open>utils/base64.c\<close>: the encoder, which breaks its output into lines of 72
  characters, and the decoder, which skips every character outside the alphabet. Both
  allocate their result first; the allocation is a \<open>bool\<close> argument and the length that is
  allocated is \<open>base64_encode_olen\<close>, which a lemma compares with what is written.
\<close>

section \<open>The alphabet\<close>

definition base64_table :: string where
  "base64_table = ''ABCDEFGHIJKLMNOPQRSTUVWXYZabcdefghijklmnopqrstuvwxyz0123456789+/''"

definition b64_char :: "byte \<Rightarrow> char" where
  "b64_char i = base64_table ! unat i"

text \<open>The table \<open>dtable\<close> the decoder builds: 0x80 marks the characters that are skipped.\<close>

definition dtable :: "char \<Rightarrow> byte" where
  "dtable c =
     (if c = CHR ''='' then 0
      else let i = length (takeWhile (\<lambda>d. d \<noteq> c) base64_table) in
           if i < 64 then word_of_nat i else 0x80)"

section \<open>The encoder\<close>

text \<open>
  The four 6-bit groups of three octets; at the end of the data the missing octet is 0,
  which leaves the expression of the code with its first operand only.
\<close>

definition sextet0 :: "byte \<Rightarrow> byte" where
  "sextet0 a = drop_bit 2 a"

definition sextet1 :: "byte \<Rightarrow> byte \<Rightarrow> byte" where
  "sextet1 a b = push_bit 4 (a AND 0x03) OR drop_bit 4 b"

definition sextet2 :: "byte \<Rightarrow> byte \<Rightarrow> byte" where
  "sextet2 b c = push_bit 2 (b AND 0x0F) OR drop_bit 6 c"

definition sextet3 :: "byte \<Rightarrow> byte" where
  "sextet3 c = c AND 0x3F"

definition b64_end_line :: "nat \<Rightarrow> string" where
  "b64_end_line line_len = (if line_len > 0 then [CHR 0x0A] else [])"

fun b64_encode_loop :: "byte list \<Rightarrow> nat \<Rightarrow> string" where
  "b64_encode_loop (a # b # c # rest) line_len =
     [b64_char (sextet0 a), b64_char (sextet1 a b), b64_char (sextet2 b c), b64_char (sextet3 c)] @
     (if line_len + 4 \<ge> 72 then CHR 0x0A # b64_encode_loop rest 0
      else b64_encode_loop rest (line_len + 4))"
| "b64_encode_loop [a, b] line_len =
     [b64_char (sextet0 a), b64_char (sextet1 a b), b64_char (sextet2 b 0), CHR ''='']
     @ b64_end_line (line_len + 4)"
| "b64_encode_loop [a] line_len =
     [b64_char (sextet0 a), b64_char (sextet1 a 0), CHR ''='', CHR ''='']
     @ b64_end_line (line_len + 4)"
| "b64_encode_loop [] line_len = b64_end_line line_len"

definition base64_encode_olen :: "nat \<Rightarrow> nat" where
  "base64_encode_olen len = (let olen = len * 4 div 3 + 4; olen = olen + olen div 72 in olen + 1)"

definition base64_encode :: "bool \<Rightarrow> byte list \<Rightarrow> string option" where
  "base64_encode ok src =
     (let olen = base64_encode_olen (length src) in
      if olen < length src then None
      else if \<not> ok then None
      else Some (b64_encode_loop src 0))"

section \<open>The decoder\<close>

definition b64_block :: "byte list \<Rightarrow> byte list" where
  "b64_block block =
     [push_bit 2 (block ! 0) OR drop_bit 4 (block ! 1),
      push_bit 4 (block ! 1) OR drop_bit 2 (block ! 2),
      push_bit 6 (block ! 2) OR block ! 3]"

text \<open>\<open>block\<close> holds the \<open>count\<close> values of the group read so far.\<close>

fun b64_decode_loop :: "string \<Rightarrow> byte list \<Rightarrow> nat \<Rightarrow> byte list \<Rightarrow> byte list option" where
  "b64_decode_loop [] block pad out = Some out"
| "b64_decode_loop (c # src) block pad out =
     (let tmp = dtable c in
      if tmp = 0x80 then b64_decode_loop src block pad out
      else let pad' = (if c = CHR ''='' then pad + 1 else pad); block' = block @ [tmp] in
      if length block' = 4 then
        (let out' = out @ b64_block block' in
         if pad' > 0 then
           (if pad' = 1 then Some (butlast out')
            else if pad' = 2 then Some (butlast (butlast out'))
            else None)
         else b64_decode_loop src [] pad' out')
      else b64_decode_loop src block' pad' out)"

definition base64_decode :: "bool \<Rightarrow> string \<Rightarrow> byte list option" where
  "base64_decode ok src =
     (let count = length (filter (\<lambda>c. dtable c \<noteq> 0x80) src) in
      if count = 0 \<or> count mod 4 \<noteq> 0 then None
      else if \<not> ok then None
      else b64_decode_loop src [] 0 [])"

section \<open>Characters and values\<close>

lemma length_base64_table [simp]: "length base64_table = 64"
  by (simp add: base64_table_def)

lemma table_check:
  "list_all (\<lambda>i. dtable (base64_table ! i) = word_of_nat i \<and> base64_table ! i \<noteq> CHR ''='') [0..<64]"
  by code_simp

lemma dtable_b64_char [simp]: "unat i < 64 \<Longrightarrow> dtable (b64_char i) = i"
  and b64_char_not_pad [simp]: "unat i < 64 \<Longrightarrow> b64_char i \<noteq> CHR ''=''"
  using table_check by (auto simp: list_all_iff b64_char_def)

lemma dtable_pad [simp]: "dtable (CHR ''='') = 0"
  by (simp add: dtable_def)

lemma dtable_newline [simp]: "dtable (CHR 0x0A) = 0x80"
  by code_simp

lemma byte_bit_out: "8 \<le> n \<Longrightarrow> \<not> bit (w :: byte) n"
  using bit_imp_le_length [of w n] by auto

lemma byte_eqI:
  assumes "bit v 0 = bit w 0" "bit v 1 = bit w 1" "bit v 2 = bit w 2" "bit v 3 = bit w 3"
    "bit v 4 = bit w 4" "bit v 5 = bit w 5" "bit v 6 = bit w 6" "bit v 7 = bit w 7"
  shows "v = (w :: byte)"
proof (rule bit_word_eqI)
  fix n :: nat
  assume "n < LENGTH(8)"
  then have "n \<in> {0, 1, 2, 3, 4, 5, 6, 7}" by (simp, presburger)
  then show "bit v n = bit w n" using assms by (elim insertE) simp_all
qed

lemma six_bits: "\<not> bit w 6 \<Longrightarrow> \<not> bit w 7 \<Longrightarrow> unat (w :: byte) < 64"
proof -
  assume a: "\<not> bit w 6" "\<not> bit w 7"
  have "w = take_bit 6 w" by (rule byte_eqI) (use a in \<open>simp_all add: bit_simps\<close>)
  then have "unat w = unat w mod 64"
    using unsigned_take_bit_eq [of 6 w, where ?'a = nat] by (simp add: take_bit_eq_mod)
  then show ?thesis by (metis mod_less_divisor zero_less_numeral)
qed

lemma masks: "(0x03 :: byte) = mask 2" "(0x0F :: byte) = mask 4" "(0x3F :: byte) = mask 6"
  by (simp_all add: mask_eq_exp_minus_1)

lemmas sextet_defs = sextet0_def sextet1_def sextet2_def sextet3_def masks

lemma sextets [simp]:
  "unat (sextet0 a) < 64" "unat (sextet1 a b) < 64" "unat (sextet2 b c) < 64" "unat (sextet3 c) < 64"
  unfolding sextet_defs by (rule six_bits; simp add: bit_simps byte_bit_out del: push_bit_and)+

lemma block_octets [simp]:
  "push_bit 2 (sextet0 a) OR drop_bit 4 (sextet1 a b) = a"
  "push_bit 4 (sextet1 a b) OR drop_bit 2 (sextet2 b c) = b"
  "push_bit 6 (sextet2 b c) OR sextet3 c = c"
  unfolding sextet_defs by (rule byte_eqI; simp add: bit_simps byte_bit_out del: push_bit_and)+

lemma groups_step: "4 * ((5 + n) div 3) = 4 * (Suc (Suc n) div 3) + 4" for n :: nat
proof -
  have "5 + n = Suc (Suc n) + 3" by simp
  then show ?thesis by (metis add.commute distrib_left_numeral div_add_self1 mult.right_neutral zero_neq_numeral)
qed

lemma not_skipped: "unat w < 64 \<Longrightarrow> (w :: byte) \<noteq> 0x80"
  by auto

section \<open>Encoder against decoder\<close>

lemma decode_end_line [simp]: "b64_decode_loop (b64_end_line n) [] pad out = Some out"
  by (simp add: b64_end_line_def)

lemma decode_encode_loop: "b64_decode_loop (b64_encode_loop bs line_len) [] 0 out = Some (out @ bs)"
proof (induction bs line_len arbitrary: out rule: b64_encode_loop.induct)
  case (1 a b c rest line_len)
  then show ?case
    by (simp add: Let_def not_skipped b64_block_def)
next
  case (2 a b line_len)
  then show ?case by (simp add: Let_def not_skipped b64_block_def butlast_append)
next
  case (3 a line_len)
  then show ?case by (simp add: Let_def not_skipped b64_block_def butlast_append)
next
  case (4 line_len)
  then show ?case by simp
qed

lemma count_end_line [simp]: "filter (\<lambda>c. dtable c \<noteq> 0x80) (b64_end_line n) = []"
  by (simp add: b64_end_line_def)

lemma count_encoded:
  "length (filter (\<lambda>c. dtable c \<noteq> 0x80) (b64_encode_loop bs line_len)) = 4 * ((length bs + 2) div 3)"
proof (induction bs line_len rule: b64_encode_loop.induct)
  case (1 a b c rest line_len)
  then show ?case by (simp add: not_skipped groups_step)
qed (simp_all add: not_skipped)

lemma length_end_line: "length (b64_end_line n) \<le> 1"
  by (simp add: b64_end_line_def)

lemma length_encoded:
  "length (b64_encode_loop bs ll) \<le> 4 * ((length bs + 2) div 3) + (4 * ((length bs + 2) div 3) + ll) div 72 + 1"
proof (induction bs ll rule: b64_encode_loop.induct)
  case (1 a b c rest ll)
  define g where "g = 4 * ((length rest + 2) div 3)"
  have step: "4 * ((length (a # b # c # rest) + 2) div 3) = g + 4"
    using groups_step [of "length rest"] by (simp add: g_def)
  note IH = 1 [folded g_def]
  show ?case
  proof (cases "ll + 4 \<ge> 72")
    case True
    then have "(g + 72) div 72 \<le> (g + 4 + ll) div 72" by (intro div_le_mono) simp
    then have "g div 72 + 1 \<le> (g + 4 + ll) div 72" by simp
    then show ?thesis using True IH(1) unfolding step by simp
  next
    case False
    then show ?thesis using IH(2) unfolding step by (simp add: add.commute)
  qed
qed (use length_end_line in \<open>auto simp: b64_end_line_def\<close>)

text \<open>
  Base64 is lossless and stays inside its allocation. The text the encoder writes for
  \<open>n\<close> octets, line feeds and terminator included, never exceeds the length it allocated,
  and for every non-empty input the decoder gives the octets back; the empty input encodes
  to the empty text, which the decoder rejects.
\<close>

theorem base64_roundtrip:
  "\<exists>t. base64_encode True bs = Some t \<and> length t + 1 \<le> base64_encode_olen (length bs)
     \<and> base64_decode True t = (if bs = [] then None else Some bs)"
proof -
  let ?t = "b64_encode_loop bs 0" and ?n = "length bs"
  define g where "g = 4 * ((?n + 2) div 3)"
  define o' where "o' = ?n * 4 div 3 + 4"
  have le: "g + 1 \<le> o'" "?n \<le> g" unfolding g_def o'_def by presburger+
  then have "g div 72 \<le> o' div 72" by (intro div_le_mono) simp
  with le length_encoded [of bs 0] have len: "length ?t + 1 \<le> base64_encode_olen ?n"
    unfolding base64_encode_olen_def Let_def o'_def [symmetric] g_def [symmetric] by simp
  have "\<not> base64_encode_olen ?n < ?n"
    using le unfolding base64_encode_olen_def Let_def o'_def [symmetric] by simp
  then have enc: "base64_encode True bs = Some ?t" by (simp add: base64_encode_def)
  have "base64_decode True ?t = (if bs = [] then None else Some bs)"
    using count_encoded [of bs 0] decode_encode_loop [of bs 0 "[]"]
    by (cases bs) (auto simp: base64_decode_def)
  with enc len show ?thesis by blast
qed

lemma decode_loop_filter:
  "b64_decode_loop (filter (\<lambda>c. dtable c \<noteq> 0x80) src) block pad out = b64_decode_loop src block pad out"
proof (induction src arbitrary: block pad out)
  case (Cons c src)
  then show ?case by (simp add: Let_def)
qed simp

text \<open>
  The decoder reads a text through its alphabet only: removing line breaks and any
  other characters that are neither base64 digits nor padding never changes the result.
\<close>

theorem base64_decode_skips: "base64_decode ok (filter (\<lambda>c. dtable c \<noteq> 0x80) src) = base64_decode ok src"
  by (simp add: base64_decode_def decode_loop_filter)

interpretation base64: codec "\<lambda>bs. b64_encode_loop bs 0" "base64_decode True" "\<lambda>bs. bs" "\<lambda>bs. bs \<noteq> []"
  using count_encoded [of _ 0] decode_encode_loop [of _ 0 "[]"]
  by unfold_locales (auto simp: base64_decode_def neq_Nil_conv)

end
