(* ===== verification/Ieee80211.thy ===== *)
theory Ieee80211
  imports Interfaces
begin

text \<open>
  The constants of \<open>common/ieee802_11_defs.h\<close> the modelled code uses: element
  identifiers, OUIs with their types, frame control fields. They are abbreviations, so
  that a proof sees the numbers.
\<close>

section \<open>Element identifiers\<close>

abbreviation (input) "WLAN_EID_SSID \<equiv> (0 :: byte)"
abbreviation (input) "WLAN_EID_SUPP_RATES \<equiv> (1 :: byte)"
abbreviation (input) "WLAN_EID_DS_PARAMS \<equiv> (3 :: byte)"
abbreviation (input) "WLAN_EID_CF_PARAMS \<equiv> (4 :: byte)"
abbreviation (input) "WLAN_EID_TIM \<equiv> (5 :: byte)"
abbreviation (input) "WLAN_EID_COUNTRY \<equiv> (7 :: byte)"
abbreviation (input) "WLAN_EID_CHALLENGE \<equiv> (16 :: byte)"
abbreviation (input) "WLAN_EID_PWR_CONSTRAINT \<equiv> (32 :: byte)"
abbreviation (input) "WLAN_EID_PWR_CAPABILITY \<equiv> (33 :: byte)"
abbreviation (input) "WLAN_EID_SUPPORTED_CHANNELS \<equiv> (36 :: byte)"
abbreviation (input) "WLAN_EID_CHANNEL_SWITCH \<equiv> (37 :: byte)"
abbreviation (input) "WLAN_EID_ERP_INFO \<equiv> (42 :: byte)"
abbreviation (input) "WLAN_EID_HT_CAP \<equiv> (45 :: byte)"
abbreviation (input) "WLAN_EID_RSN \<equiv> (48 :: byte)"
abbreviation (input) "WLAN_EID_EXT_SUPP_RATES \<equiv> (50 :: byte)"
abbreviation (input) "WLAN_EID_MOBILITY_DOMAIN \<equiv> (54 :: byte)"
abbreviation (input) "WLAN_EID_FAST_BSS_TRANSITION \<equiv> (55 :: byte)"
abbreviation (input) "WLAN_EID_TIMEOUT_INTERVAL \<equiv> (56 :: byte)"
abbreviation (input) "WLAN_EID_HT_OPERATION \<equiv> (61 :: byte)"
abbreviation (input) "WLAN_EID_SSID_LIST \<equiv> (84 :: byte)"
abbreviation (input) "WLAN_EID_TIME_ADVERTISEMENT \<equiv> (69 :: byte)"
abbreviation (input) "WLAN_EID_BSS_MAX_IDLE_PERIOD \<equiv> (90 :: byte)"
abbreviation (input) "WLAN_EID_TIME_ZONE \<equiv> (98 :: byte)"
abbreviation (input) "WLAN_EID_LINK_ID \<equiv> (101 :: byte)"
abbreviation (input) "WLAN_EID_INTERWORKING \<equiv> (107 :: byte)"
abbreviation (input) "WLAN_EID_ADV_PROTO \<equiv> (108 :: byte)"
abbreviation (input) "WLAN_EID_QOS_MAP_SET \<equiv> (110 :: byte)"
abbreviation (input) "WLAN_EID_ROAMING_CONSORTIUM \<equiv> (111 :: byte)"
abbreviation (input) "WLAN_EID_EXT_CAPAB \<equiv> (127 :: byte)"
abbreviation (input) "WLAN_EID_VHT_CAP \<equiv> (191 :: byte)"
abbreviation (input) "WLAN_EID_VHT_OPERATION \<equiv> (192 :: byte)"
abbreviation (input) "WLAN_EID_VHT_OPERATING_MODE_NOTIFICATION \<equiv> (199 :: byte)"
abbreviation (input) "WLAN_EID_VENDOR_SPECIFIC \<equiv> (221 :: byte)"

section \<open>Vendor identifiers\<close>

abbreviation (input) "OUI_MICROSOFT \<equiv> (0x0050F2 :: u32)"
abbreviation (input) "OUI_WFA \<equiv> (0x506F9A :: u32)"
abbreviation (input) "OUI_BROADCOM \<equiv> (0x00904C :: u32)"
abbreviation (input) "WMM_OUI_TYPE \<equiv> (2 :: byte)"
abbreviation (input) "WMM_OUI_SUBTYPE_INFORMATION_ELEMENT \<equiv> (0 :: byte)"
abbreviation (input) "WMM_OUI_SUBTYPE_PARAMETER_ELEMENT \<equiv> (1 :: byte)"
abbreviation (input) "WMM_OUI_SUBTYPE_TSPEC_ELEMENT \<equiv> (2 :: byte)"
abbreviation (input) "P2P_OUI_TYPE \<equiv> (9 :: byte)"
abbreviation (input) "WFD_OUI_TYPE \<equiv> (10 :: byte)"
abbreviation (input) "HS20_INDICATION_OUI_TYPE \<equiv> (16 :: byte)"
abbreviation (input) "HS20_OSEN_OUI_TYPE \<equiv> (18 :: byte)"
abbreviation (input) "VENDOR_HT_CAPAB_OUI_TYPE \<equiv> (0x33 :: byte)"

section \<open>Frame control\<close>

abbreviation (input) "WLAN_FC_TODS \<equiv> (0x0100 :: u16)"
abbreviation (input) "WLAN_FC_FROMDS \<equiv> (0x0200 :: u16)"
abbreviation (input) "WLAN_FC_TYPE_MGMT \<equiv> (0 :: u16)"
abbreviation (input) "WLAN_FC_TYPE_CTRL \<equiv> (1 :: u16)"
abbreviation (input) "WLAN_FC_TYPE_DATA \<equiv> (2 :: u16)"
abbreviation (input) "WLAN_FC_STYPE_PSPOLL \<equiv> (10 :: u16)"
abbreviation (input) "WLAN_FC_STYPE_PROBE_RESP \<equiv> (5 :: u16)"
abbreviation (input) "WLAN_FC_STYPE_BEACON \<equiv> (8 :: u16)"

definition WLAN_FC_GET_TYPE :: "u16 \<Rightarrow> u16" where
  "WLAN_FC_GET_TYPE fc = drop_bit 2 (fc AND 0x000C)"

definition WLAN_FC_GET_STYPE :: "u16 \<Rightarrow> u16" where
  "WLAN_FC_GET_STYPE fc = drop_bit 4 (fc AND 0x00F0)"

definition IEEE80211_FC :: "u16 \<Rightarrow> u16 \<Rightarrow> u16" where
  \<comment> \<open>before the conversion to little-endian order\<close>
  "IEEE80211_FC type stype = push_bit 2 type OR push_bit 4 stype"

end
