(* ===== verification/Elements.thy ===== *)
theory Elements
  imports Ieee80211 Wpabuf
begin

text \<open>
  Parsing of the information elements of management frames,
  \<open>common/ieee802_11_common.c\<close>.

  A pointer into the frame together with its length octet is the list of the octets it
  designates, \<open>None\<close> the null pointer; the caller's structure \<open>elems\<close> is passed and
  returned, also when the parser gives up. The three loops over elements (the parser, the
  counter and the collection of vendor elements) are instances of \<open>tlv_walker\<close>.
\<close>

section \<open>Parsed elements\<close>

record ieee802_11_elems =
  el_ssid :: "byte list option"
  el_supp_rates :: "byte list option"
  el_ds_params :: "byte list option"
  el_challenge :: "byte list option"
  el_erp_info :: "byte list option"
  el_ext_supp_rates :: "byte list option"
  el_wpa_ie :: "byte list option"
  el_rsn_ie :: "byte list option"
  el_wmm :: "byte list option"
  el_wmm_tspec :: "byte list option"
  el_wps_ie :: "byte list option"
  el_supp_channels :: "byte list option"
  el_mdie :: "byte list option"
  el_ftie :: "byte list option"
  el_timeout_int :: "byte list option"
  el_ht_capabilities :: "byte list option"
  el_ht_operation :: "byte list option"
  el_vht_capabilities :: "byte list option"
  el_vht_operation :: "byte list option"
  el_vht_opmode_notif :: "byte list option"
  el_vendor_ht_cap :: "byte list option"
  el_p2p :: "byte list option"
  el_wfd :: "byte list option"
  el_link_id :: "byte list option"
  el_interworking :: "byte list option"
  el_qos_map_set :: "byte list option"
  el_hs20 :: "byte list option"
  el_ext_capab :: "byte list option"
  el_bss_max_idle_period :: "byte list option"
  el_ssid_list :: "byte list option"
  el_osen :: "byte list option"

datatype ParseRes = ParseOK | ParseUnknown | ParseFailed

definition no_elems :: ieee802_11_elems where
  \<comment> \<open>\<open>os_memset (elems, 0, sizeof (*elems))\<close>\<close>
  "no_elems =
     \<lparr>el_ssid = None, el_supp_rates = None, el_ds_params = None, el_challenge = None,
      el_erp_info = None, el_ext_supp_rates = None, el_wpa_ie = None, el_rsn_ie = None,
      el_wmm = None, el_wmm_tspec = None, el_wps_ie = None, el_supp_channels = None,
      el_mdie = None, el_ftie = None, el_timeout_int = None, el_ht_capabilities = None,
      el_ht_operation = None, el_vht_capabilities = None, el_vht_operation = None,
      el_vht_opmode_notif = None, el_vendor_ht_cap = None, el_p2p = None, el_wfd = None,
      el_link_id = None, el_interworking = None, el_qos_map_set = None, el_hs20 = None,
      el_ext_capab = None, el_bss_max_idle_period = None, el_ssid_list = None, el_osen = None\<rparr>"

section \<open>The parser\<close>

definition ieee802_11_parse_vendor_specific ::
    "byte list \<Rightarrow> ieee802_11_elems \<Rightarrow> int \<times> ieee802_11_elems" where
  "ieee802_11_parse_vendor_specific pos elems =
     (let elen = length pos in
      if elen < 4 then (-1, elems)
      else let oui = get_be24 pos 0; ty = pos ! 3 in
      if oui = OUI_MICROSOFT then
        (if ty = 1 then (0, elems\<lparr>el_wpa_ie := Some pos\<rparr>)
         else if ty = WMM_OUI_TYPE then
           (if elen < 5 then (-1, elems)
            else let sub = pos ! 4 in
            if sub = WMM_OUI_SUBTYPE_INFORMATION_ELEMENT \<or> sub = WMM_OUI_SUBTYPE_PARAMETER_ELEMENT
            then (0, elems\<lparr>el_wmm := Some pos\<rparr>)
            else if sub = WMM_OUI_SUBTYPE_TSPEC_ELEMENT then (0, elems\<lparr>el_wmm_tspec := Some pos\<rparr>)
            else (-1, elems))
         else if ty = 4 then (0, elems\<lparr>el_wps_ie := Some pos\<rparr>)
         else (-1, elems))
      else if oui = OUI_WFA then
        (if ty = P2P_OUI_TYPE then (0, elems\<lparr>el_p2p := Some pos\<rparr>)
         else if ty = WFD_OUI_TYPE then (0, elems\<lparr>el_wfd := Some pos\<rparr>)
         else if ty = HS20_INDICATION_OUI_TYPE then (0, elems\<lparr>el_hs20 := Some pos\<rparr>)
         else if ty = HS20_OSEN_OUI_TYPE then (0, elems\<lparr>el_osen := Some pos\<rparr>)
         else (-1, elems))
      else if oui = OUI_BROADCOM then
        (if ty = VENDOR_HT_CAPAB_OUI_TYPE then (0, elems\<lparr>el_vendor_ht_cap := Some pos\<rparr>)
         else (-1, elems))
      else (-1, elems))"

text \<open>The \<open>switch (id)\<close> of the loop: the elements recorded, and the increment of \<open>unknown\<close>.\<close>

definition parse_element :: "byte \<Rightarrow> byte list \<Rightarrow> ieee802_11_elems \<Rightarrow> nat \<times> ieee802_11_elems" where
  "parse_element eid pos elems =
     (let elen = length pos in
      if eid = WLAN_EID_SSID then (0, elems\<lparr>el_ssid := Some pos\<rparr>)
      else if eid = WLAN_EID_SUPP_RATES then (0, elems\<lparr>el_supp_rates := Some pos\<rparr>)
      else if eid = WLAN_EID_DS_PARAMS then (0, elems\<lparr>el_ds_params := Some pos\<rparr>)
      else if eid = WLAN_EID_CF_PARAMS \<or> eid = WLAN_EID_TIM then (0, elems)
      else if eid = WLAN_EID_CHALLENGE then (0, elems\<lparr>el_challenge := Some pos\<rparr>)
      else if eid = WLAN_EID_ERP_INFO then (0, elems\<lparr>el_erp_info := Some pos\<rparr>)
      else if eid = WLAN_EID_EXT_SUPP_RATES then (0, elems\<lparr>el_ext_supp_rates := Some pos\<rparr>)
      else if eid = WLAN_EID_VENDOR_SPECIFIC then
        (case ieee802_11_parse_vendor_specific pos elems of
           (r, elems') \<Rightarrow> (if r \<noteq> 0 then 1 else 0, elems'))
      else if eid = WLAN_EID_RSN then (0, elems\<lparr>el_rsn_ie := Some pos\<rparr>)
      else if eid = WLAN_EID_PWR_CAPABILITY then (0, elems)
      else if eid = WLAN_EID_SUPPORTED_CHANNELS then (0, elems\<lparr>el_supp_channels := Some pos\<rparr>)
      else if eid = WLAN_EID_MOBILITY_DOMAIN then (0, elems\<lparr>el_mdie := Some pos\<rparr>)
      else if eid = WLAN_EID_FAST_BSS_TRANSITION then (0, elems\<lparr>el_ftie := Some pos\<rparr>)
      else if eid = WLAN_EID_TIMEOUT_INTERVAL then (0, elems\<lparr>el_timeout_int := Some pos\<rparr>)
      else if eid = WLAN_EID_HT_CAP then (0, elems\<lparr>el_ht_capabilities := Some pos\<rparr>)
      else if eid = WLAN_EID_HT_OPERATION then (0, elems\<lparr>el_ht_operation := Some pos\<rparr>)
      else if eid = WLAN_EID_VHT_CAP then (0, elems\<lparr>el_vht_capabilities := Some pos\<rparr>)
      else if eid = WLAN_EID_VHT_OPERATION then (0, elems\<lparr>el_vht_operation := Some pos\<rparr>)
      else if eid = WLAN_EID_VHT_OPERATING_MODE_NOTIFICATION then
        (0, if elen \<noteq> 1 then elems else elems\<lparr>el_vht_opmode_notif := Some pos\<rparr>)
      else if eid = WLAN_EID_LINK_ID then
        (0, if elen < 18 then elems else elems\<lparr>el_link_id := Some pos\<rparr>)
      else if eid = WLAN_EID_INTERWORKING then (0, elems\<lparr>el_interworking := Some pos\<rparr>)
      else if eid = WLAN_EID_QOS_MAP_SET then
        (0, if elen < 16 then elems else elems\<lparr>el_qos_map_set := Some pos\<rparr>)
      else if eid = WLAN_EID_EXT_CAPAB then (0, elems\<lparr>el_ext_capab := Some pos\<rparr>)
      else if eid = WLAN_EID_BSS_MAX_IDLE_PERIOD then
        (0, if elen < 3 then elems else elems\<lparr>el_bss_max_idle_period := Some pos\<rparr>)
      else if eid = WLAN_EID_SSID_LIST then (0, elems\<lparr>el_ssid_list := Some pos\<rparr>)
      else (1, elems))"

fun parse_elems_loop :: "nat \<times> ieee802_11_elems \<Rightarrow> byte list \<Rightarrow> ParseRes \<times> ieee802_11_elems" where
  "parse_elems_loop (unknown, elems) (eid # elen # rest) =
     (if unat elen > length rest then (ParseFailed, elems)
      else case parse_element eid (take (unat elen) rest) elems of
             (u, elems') \<Rightarrow> parse_elems_loop (unknown + u, elems') (drop (unat elen) rest))"
| "parse_elems_loop (unknown, elems) [x] = (ParseFailed, elems)"
| "parse_elems_loop (unknown, elems) [] = (if unknown > 0 then ParseUnknown else ParseOK, elems)"

definition ieee802_11_parse_elems :: "byte list \<Rightarrow> ParseRes \<times> ieee802_11_elems" where
  "ieee802_11_parse_elems start = parse_elems_loop (0, no_elems) start"

section \<open>Counting elements and collecting vendor elements\<close>

fun ie_count_loop :: "nat \<Rightarrow> byte list \<Rightarrow> nat" where
  "ie_count_loop count (eid # elen # rest) =
     (if unat elen > length rest then count
      else ie_count_loop (count + 1) (drop (unat elen) rest))"
| "ie_count_loop count _ = count"

definition ieee802_11_ie_count :: "byte list option \<Rightarrow> nat" where
  "ieee802_11_ie_count ies = (case ies of None \<Rightarrow> 0 | Some b \<Rightarrow> ie_count_loop 0 b)"

definition is_vendor_ie :: "u32 \<Rightarrow> byte \<Rightarrow> byte list \<Rightarrow> bool" where
  \<comment> \<open>the body starts with the OUI and type\<close>
  "is_vendor_ie oui_type eid body \<longleftrightarrow>
     eid = WLAN_EID_VENDOR_SPECIFIC \<and> 4 \<le> length body \<and> get_be32 body 0 = oui_type"

text \<open>The first loop: \<open>pos\<close> at the first matching element, if one is reached.\<close>

fun find_vendor_ie :: "u32 \<Rightarrow> byte list \<Rightarrow> byte list option" where
  "find_vendor_ie oui_type (eid # elen # rest) =
     (if unat elen > length rest then None
      else if is_vendor_ie oui_type eid (take (unat elen) rest) then Some (eid # elen # rest)
      else find_vendor_ie oui_type (drop (unat elen) rest))"
| "find_vendor_ie oui_type _ = None"

text \<open>The second loop copies the bodies after the OUI and type.\<close>

fun collect_vendor_ies :: "u32 \<Rightarrow> fault + wpabuf \<Rightarrow> byte list \<Rightarrow> fault + wpabuf" where
  "collect_vendor_ies oui_type (Inl e) _ = Inl e"
| "collect_vendor_ies oui_type (Inr buf) (eid # elen # rest) =
     (if unat elen > length rest then Inr buf
      else let body = take (unat elen) rest in
           collect_vendor_ies oui_type
             (if is_vendor_ie oui_type eid body
              then wpabuf_put_data buf (Some (drop 4 body)) (unat elen - 4) else Inr buf)
             (drop (unat elen) rest))"
| "collect_vendor_ies oui_type (Inr buf) _ = Inr buf"

definition ieee802_11_vendor_ie_concat :: "bool \<Rightarrow> byte list \<Rightarrow> u32 \<Rightarrow> fault + wpabuf option" where
  "ieee802_11_vendor_ie_concat ok ies oui_type =
     (case find_vendor_ie oui_type ies of
        None \<Rightarrow> Inr None
      | Some pos \<Rightarrow>
          (case wpabuf_alloc ok (length ies) of
             None \<Rightarrow> Inr None
           | Some buf \<Rightarrow>
               (case collect_vendor_ies oui_type (Inr buf) pos of
                  Inl e \<Rightarrow> Inl e
                | Inr b \<Rightarrow> Inr (Some b))))"

section \<open>Frame headers, channels, rates\<close>

text \<open>
  The offset of the BSSID in the header (\<open>addr1\<close>, \<open>addr2\<close>, \<open>addr3\<close> are at 4, 10 and 16);
  the result is a pointer, which the function does not read through.
\<close>

definition get_hdr_bssid :: "byte list \<Rightarrow> nat option" where
  "get_hdr_bssid hdr =
     (let len = length hdr in
      if len < 16 then None
      else let fc = get_le16 hdr 0; type = WLAN_FC_GET_TYPE fc; stype = WLAN_FC_GET_STYPE fc in
      if type = WLAN_FC_TYPE_DATA then
        (if len < 24 then None
         else let ds = fc AND (WLAN_FC_FROMDS OR WLAN_FC_TODS) in
         if ds = WLAN_FC_FROMDS OR WLAN_FC_TODS \<or> ds = WLAN_FC_TODS then Some 4
         else if ds = WLAN_FC_FROMDS then Some 10
         else None)
      else if type = WLAN_FC_TYPE_CTRL then
        (if stype \<noteq> WLAN_FC_STYPE_PSPOLL then None else Some 4)
      else if type = WLAN_FC_TYPE_MGMT then Some 16
      else None)"

datatype hostapd_hw_mode =
    HOSTAPD_MODE_IEEE80211B | HOSTAPD_MODE_IEEE80211G | HOSTAPD_MODE_IEEE80211A
  | HOSTAPD_MODE_IEEE80211AD | NUM_HOSTAPD_MODES

text \<open>The channel is stored in a \<open>u8\<close>; \<open>None\<close>: the caller's variable is not written.\<close>

definition ieee80211_freq_to_chan :: "int \<Rightarrow> hostapd_hw_mode \<times> byte option" where
  "ieee80211_freq_to_chan freq =
     (if freq \<ge> 2412 \<and> freq \<le> 2472 then
        (HOSTAPD_MODE_IEEE80211G, Some (word_of_int ((freq - 2407) div 5)))
      else if freq = 2484 then (HOSTAPD_MODE_IEEE80211B, Some 14)
      else if freq \<ge> 4900 \<and> freq < 5000 then
        (HOSTAPD_MODE_IEEE80211A, Some (word_of_int ((freq - 4000) div 5)))
      else if freq \<ge> 5000 \<and> freq < 5900 then
        (HOSTAPD_MODE_IEEE80211A, Some (word_of_int ((freq - 5000) div 5)))
      else if freq \<ge> 56160 + 2160 * 1 \<and> freq \<le> 56160 + 2160 * 4 then
        (HOSTAPD_MODE_IEEE80211AD, Some (word_of_int ((freq - 56160) div 2160)))
      else (NUM_HOSTAPD_MODES, None))"

definition is_11b :: "byte \<Rightarrow> bool" where
  "is_11b rate \<longleftrightarrow> rate = 0x02 \<or> rate = 0x04 \<or> rate = 0x0B \<or> rate = 0x16"

definition count_11b :: "byte list option \<Rightarrow> nat \<times> nat" where
  \<comment> \<open>one of the two loops: \<open>num_11b\<close> and \<open>num_others\<close>\<close>
  "count_11b rates =
     (case rates of
        None \<Rightarrow> (0, 0)
      | Some rs \<Rightarrow> (length (filter is_11b rs), length (filter (\<lambda>r. \<not> is_11b r) rs)))"

definition supp_rates_11b_only :: "ieee802_11_elems \<Rightarrow> bool" where
  "supp_rates_11b_only elems =
     (if el_supp_rates elems = None \<and> el_ext_supp_rates elems = None then False
      else case (count_11b (el_supp_rates elems), count_11b (el_ext_supp_rates elems)) of
             ((n1, o1), (n2, o2)) \<Rightarrow> n1 + n2 > 0 \<and> o1 + o2 = 0)"

section \<open>WMM parameters in the configuration\<close>

record hostapd_wmm_ac_params =
  ac_cwmin :: int
  ac_cwmax :: int
  ac_aifs :: int
  ac_txop_limit :: int
  ac_acm :: int

text \<open>The field the rest of the name selects, with the range check of its branch.\<close>

definition wmm_ac_set :: "string \<Rightarrow> int \<Rightarrow> hostapd_wmm_ac_params \<Rightarrow> hostapd_wmm_ac_params option" where
  "wmm_ac_set pos v ac =
     (if pos = ''aifs'' then (if v < 1 \<or> v > 255 then None else Some (ac\<lparr>ac_aifs := v\<rparr>))
      else if pos = ''cwmin'' then (if v < 0 \<or> v > 12 then None else Some (ac\<lparr>ac_cwmin := v\<rparr>))
      else if pos = ''cwmax'' then (if v < 0 \<or> v > 12 then None else Some (ac\<lparr>ac_cwmax := v\<rparr>))
      else if pos = ''txop_limit'' then (if v < 0 \<or> v > 0xFFFF then None else Some (ac\<lparr>ac_txop_limit := v\<rparr>))
      else if pos = ''acm'' then (if v < 0 \<or> v > 1 then None else Some (ac\<lparr>ac_acm := v\<rparr>))
      else None)"

definition wmm_ac_index :: "string \<Rightarrow> nat option" where
  "wmm_ac_index pos =
     (if starts_with ''be_'' pos then Some 0
      else if starts_with ''bk_'' pos then Some 1
      else if starts_with ''vi_'' pos then Some 2
      else if starts_with ''vo_'' pos then Some 3
      else None)"

definition hostapd_config_wmm_ac ::
    "hostapd_wmm_ac_params list \<Rightarrow> string \<Rightarrow> string \<Rightarrow> int \<times> hostapd_wmm_ac_params list" where
  "hostapd_config_wmm_ac wmm_ac_params name val =
     (let pos = drop 7 name in
      case wmm_ac_index pos of
        None \<Rightarrow> (-1, wmm_ac_params)
      | Some num \<Rightarrow>
          (case wmm_ac_set (drop 3 pos) (atoi val) (wmm_ac_params ! num) of
             None \<Rightarrow> (-1, wmm_ac_params)
           | Some ac \<Rightarrow> (0, wmm_ac_params[num := ac])))"

section \<open>The element loops as walkers\<close>

lemma parse_elems_loop_element:
  assumes "wf_element e"
  shows "parse_elems_loop s (enc_element e @ rest) =
    parse_elems_loop (case parse_element (fst e) (snd e) (snd s) of (u, el) \<Rightarrow> (fst s + u, el)) rest"
  using unat_length_octet [OF assms] by (cases s) (auto simp: enc_element_def split: prod.split)

interpretation parse: tlv_walker parse_elems_loop
    "\<lambda>s e. case parse_element (fst e) (snd e) (snd s) of (u, el) \<Rightarrow> (fst s + u, el)"
  by unfold_locales (rule parse_elems_loop_element)

interpretation count: tlv_walker ie_count_loop "\<lambda>n e. n + 1"
proof
  fix e and s :: nat and rest
  assume "wf_element e"
  from unat_length_octet [OF this] show "ie_count_loop s (enc_element e @ rest) = ie_count_loop (s + 1) rest"
    by (simp add: enc_element_def)
qed

definition collect_visit :: "u32 \<Rightarrow> fault + wpabuf \<Rightarrow> element \<Rightarrow> fault + wpabuf" where
  "collect_visit oui_type s e =
     (case s of
        Inl f \<Rightarrow> Inl f
      | Inr buf \<Rightarrow> if is_vendor_ie oui_type (fst e) (snd e)
                   then wpabuf_put_data buf (Some (drop 4 (snd e))) (length (snd e) - 4) else Inr buf)"

interpretation collect: tlv_walker "collect_vendor_ies oui_type" "collect_visit oui_type" for oui_type
proof
  fix e and s :: "fault + wpabuf" and rest
  assume "wf_element e"
  from unat_length_octet [OF this] show
    "collect_vendor_ies oui_type s (enc_element e @ rest) = collect_vendor_ies oui_type (collect_visit oui_type s e) rest"
    by (cases s) (simp_all add: enc_element_def collect_visit_def Let_def)
qed

section \<open>The result of the parser\<close>

instantiation ParseRes :: linorder
begin

definition parse_rank :: "ParseRes \<Rightarrow> nat" where
  "parse_rank r = (case r of ParseOK \<Rightarrow> 0 | ParseUnknown \<Rightarrow> 1 | ParseFailed \<Rightarrow> 2)"

definition "r \<le> q \<longleftrightarrow> parse_rank r \<le> parse_rank q"

definition "r < q \<longleftrightarrow> parse_rank r < parse_rank q"

instance
  by intro_classes (auto simp: less_eq_ParseRes_def less_ParseRes_def parse_rank_def split: ParseRes.splits)

end

section \<open>Decomposition of a frame body\<close>

definition incomplete :: "byte list \<Rightarrow> bool" where
  "incomplete tail = (case tail of eid # elen # rest \<Rightarrow> length rest < unat elen | _ \<Rightarrow> True)"

lemma element_split:
  assumes "unat elen \<le> length rest"
  shows "eid # elen # rest = enc_element (eid, take (unat elen) rest) @ drop (unat elen) rest
    \<and> wf_element (eid, take (unat elen) rest)"
  using assms unat_byte_lt [of elen] by (simp add: enc_element_def wf_element_def)

lemma frame_elements: "\<exists>es tail. list_all wf_element es \<and> bs = enc_elements es @ tail \<and> incomplete tail"
proof (induction "length bs" arbitrary: bs rule: less_induct)
  case less
  show ?case
  proof (cases "incomplete bs")
    case True
    then show ?thesis by (intro exI [of _ "[]"] exI [of _ bs]) simp
  next
    case False
    then obtain eid elen rest where bs: "bs = eid # elen # rest" "unat elen \<le> length rest"
      by (auto simp: incomplete_def not_less split: list.splits)
    let ?e = "(eid, take (unat elen) rest)"
    have "length (drop (unat elen) rest) < length bs" using bs by simp
    from less [OF this] obtain es tail where
      es: "list_all wf_element es" "drop (unat elen) rest = enc_elements es @ tail" "incomplete tail" by blast
    from element_split [OF bs(2), of eid] es bs show ?thesis
      by (intro exI [of _ "?e # es"] exI [of _ tail]) simp
  qed
qed

lemma incomplete_cases:
  assumes "incomplete tail"
  obtains "tail = []" | x where "tail = [x]"
  | eid elen rest where "tail = eid # elen # rest" "length rest < unat elen"
  using assms by (auto simp: incomplete_def split: list.splits)

lemma incomplete_count: "incomplete tail \<Longrightarrow> ie_count_loop n tail = n"
  by (erule incomplete_cases) auto

lemma incomplete_collect: "incomplete tail \<Longrightarrow> collect_vendor_ies oui st tail = st"
  by (cases st; erule incomplete_cases) auto

lemma incomplete_find: "incomplete tail \<Longrightarrow> find_vendor_ie oui tail = None"
  by (erule incomplete_cases) auto

lemma incomplete_parse: "incomplete tail \<Longrightarrow> tail \<noteq> [] \<Longrightarrow> parse_elems_loop s tail = (ParseFailed, snd s)"
  by (cases s; erule incomplete_cases) auto

text \<open>The elements recorded under their own identifier, without a condition on the length.\<close>

definition plain_fields :: "(byte \<times> (ieee802_11_elems \<Rightarrow> byte list option)) list" where
  "plain_fields =
     [(WLAN_EID_SSID, el_ssid), (WLAN_EID_SUPP_RATES, el_supp_rates), (WLAN_EID_DS_PARAMS, el_ds_params),
      (WLAN_EID_CHALLENGE, el_challenge), (WLAN_EID_ERP_INFO, el_erp_info),
      (WLAN_EID_EXT_SUPP_RATES, el_ext_supp_rates), (WLAN_EID_RSN, el_rsn_ie),
      (WLAN_EID_SUPPORTED_CHANNELS, el_supp_channels), (WLAN_EID_MOBILITY_DOMAIN, el_mdie),
      (WLAN_EID_FAST_BSS_TRANSITION, el_ftie), (WLAN_EID_TIMEOUT_INTERVAL, el_timeout_int),
      (WLAN_EID_HT_CAP, el_ht_capabilities), (WLAN_EID_HT_OPERATION, el_ht_operation),
      (WLAN_EID_VHT_CAP, el_vht_capabilities), (WLAN_EID_VHT_OPERATION, el_vht_operation),
      (WLAN_EID_INTERWORKING, el_interworking), (WLAN_EID_EXT_CAPAB, el_ext_capab),
      (WLAN_EID_SSID_LIST, el_ssid_list)]"

definition last_body :: "byte \<Rightarrow> element list \<Rightarrow> byte list option" where
  "last_body eid es =
     (let fs = filter (\<lambda>e. fst e = eid) es in if fs = [] then None else Some (snd (last fs)))"

lemma vendor_keeps [simp]:
  "el_ssid (snd (ieee802_11_parse_vendor_specific pos el)) = el_ssid el"
  "el_supp_rates (snd (ieee802_11_parse_vendor_specific pos el)) = el_supp_rates el"
  "el_ds_params (snd (ieee802_11_parse_vendor_specific pos el)) = el_ds_params el"
  "el_challenge (snd (ieee802_11_parse_vendor_specific pos el)) = el_challenge el"
  "el_erp_info (snd (ieee802_11_parse_vendor_specific pos el)) = el_erp_info el"
  "el_ext_supp_rates (snd (ieee802_11_parse_vendor_specific pos el)) = el_ext_supp_rates el"
  "el_rsn_ie (snd (ieee802_11_parse_vendor_specific pos el)) = el_rsn_ie el"
  "el_supp_channels (snd (ieee802_11_parse_vendor_specific pos el)) = el_supp_channels el"
  "el_mdie (snd (ieee802_11_parse_vendor_specific pos el)) = el_mdie el"
  "el_ftie (snd (ieee802_11_parse_vendor_specific pos el)) = el_ftie el"
  "el_timeout_int (snd (ieee802_11_parse_vendor_specific pos el)) = el_timeout_int el"
  "el_ht_capabilities (snd (ieee802_11_parse_vendor_specific pos el)) = el_ht_capabilities el"
  "el_ht_operation (snd (ieee802_11_parse_vendor_specific pos el)) = el_ht_operation el"
  "el_vht_capabilities (snd (ieee802_11_parse_vendor_specific pos el)) = el_vht_capabilities el"
  "el_vht_operation (snd (ieee802_11_parse_vendor_specific pos el)) = el_vht_operation el"
  "el_interworking (snd (ieee802_11_parse_vendor_specific pos el)) = el_interworking el"
  "el_ext_capab (snd (ieee802_11_parse_vendor_specific pos el)) = el_ext_capab el"
  "el_ssid_list (snd (ieee802_11_parse_vendor_specific pos el)) = el_ssid_list el"
  by (simp_all add: ieee802_11_parse_vendor_specific_def Let_def)

lemma parse_element_field:
  "el_ssid (snd (parse_element i pos el)) = (if i = 0 then Some pos else el_ssid el)"
  "el_supp_rates (snd (parse_element i pos el)) = (if i = 1 then Some pos else el_supp_rates el)"
  "el_ds_params (snd (parse_element i pos el)) = (if i = 3 then Some pos else el_ds_params el)"
  "el_challenge (snd (parse_element i pos el)) = (if i = 16 then Some pos else el_challenge el)"
  "el_erp_info (snd (parse_element i pos el)) = (if i = 42 then Some pos else el_erp_info el)"
  "el_ext_supp_rates (snd (parse_element i pos el)) = (if i = 50 then Some pos else el_ext_supp_rates el)"
  "el_rsn_ie (snd (parse_element i pos el)) = (if i = 48 then Some pos else el_rsn_ie el)"
  "el_supp_channels (snd (parse_element i pos el)) = (if i = 36 then Some pos else el_supp_channels el)"
  "el_mdie (snd (parse_element i pos el)) = (if i = 54 then Some pos else el_mdie el)"
  "el_ftie (snd (parse_element i pos el)) = (if i = 55 then Some pos else el_ftie el)"
  "el_timeout_int (snd (parse_element i pos el)) = (if i = 56 then Some pos else el_timeout_int el)"
  "el_ht_capabilities (snd (parse_element i pos el)) = (if i = 45 then Some pos else el_ht_capabilities el)"
  "el_ht_operation (snd (parse_element i pos el)) = (if i = 61 then Some pos else el_ht_operation el)"
  "el_vht_capabilities (snd (parse_element i pos el)) = (if i = 191 then Some pos else el_vht_capabilities el)"
  "el_vht_operation (snd (parse_element i pos el)) = (if i = 192 then Some pos else el_vht_operation el)"
  "el_interworking (snd (parse_element i pos el)) = (if i = 107 then Some pos else el_interworking el)"
  "el_ext_capab (snd (parse_element i pos el)) = (if i = 127 then Some pos else el_ext_capab el)"
  "el_ssid_list (snd (parse_element i pos el)) = (if i = 84 then Some pos else el_ssid_list el)"
  by (simp_all add: parse_element_def Let_def case_prod_beta)

lemma parse_element_plain:
  "(eid, get) \<in> set plain_fields \<Longrightarrow>
     get (snd (parse_element i pos el)) = (if i = eid then Some pos else get el)"
  by (auto simp: plain_fields_def parse_element_field)

section \<open>What the parser returns\<close>

definition parse_step :: "nat \<times> ieee802_11_elems \<Rightarrow> element \<Rightarrow> nat \<times> ieee802_11_elems" where
  "parse_step s e = (case parse_element (fst e) (snd e) (snd s) of (u, el) \<Rightarrow> (fst s + u, el))"

lemma parse_step_fold: "(\<lambda>s e. case parse_element (fst e) (snd e) (snd s) of (u, el) \<Rightarrow> (fst s + u, el)) = parse_step"
  by (simp add: parse_step_def fun_eq_iff)

lemmas parse_walk = parse.walk_elements [unfolded parse_step_fold]

lemma parse_elems_end: "parse_elems_loop s [] = (if fst s > 0 then ParseUnknown else ParseOK, snd s)"
  by (cases s) simp

lemma parse_walk_all:
  "list_all wf_element es \<Longrightarrow> parse_elems_loop s (enc_elements es) =
     (if fst (foldl parse_step s es) > 0 then ParseUnknown else ParseOK, snd (foldl parse_step s es))"
  using parse_walk [of es s "[]"] by (simp add: parse_elems_end)

lemma parse_walk_tail:
  "list_all wf_element es \<Longrightarrow> incomplete tail \<Longrightarrow> tail \<noteq> [] \<Longrightarrow>
     parse_elems_loop s (enc_elements es @ tail) = (ParseFailed, snd (foldl parse_step s es))"
  by (simp add: parse_walk incomplete_parse)

text \<open>Whether an element counts as unknown does not depend on what was recorded before.\<close>

definition unknown_element :: "element \<Rightarrow> bool" where
  "unknown_element e \<longleftrightarrow> fst (parse_element (fst e) (snd e) no_elems) > 0"

lemma vendor_status: "fst (ieee802_11_parse_vendor_specific pos el) = fst (ieee802_11_parse_vendor_specific pos el')"
  by (simp add: ieee802_11_parse_vendor_specific_def Let_def)

lemma parse_element_status: "fst (parse_element i pos el) = (if unknown_element (i, pos) then 1 else 0)"
  using vendor_status [of pos el no_elems]
  by (simp add: unknown_element_def parse_element_def Let_def case_prod_beta)

lemma foldl_parse_status: "fst (foldl parse_step s es) = fst s + length (filter unknown_element es)"
  by (induction es arbitrary: s) (auto simp: parse_step_def parse_element_status case_prod_beta)

lemma foldl_parse_plain:
  "(eid, get) \<in> set plain_fields \<Longrightarrow>
     get (snd (foldl parse_step s es)) = (case last_body eid es of None \<Rightarrow> get (snd s) | Some b \<Rightarrow> Some b)"
proof (induction es rule: rev_induct)
  case Nil
  then show ?case by (simp add: last_body_def)
next
  case (snoc e es)
  then show ?case
    by (simp add: parse_step_def case_prod_beta parse_element_plain last_body_def Let_def)
qed

lemma plain_empty: "(eid, get) \<in> set plain_fields \<Longrightarrow> get no_elems = None"
  by (auto simp: plain_fields_def no_elems_def)

lemma parse_fails:
  "fst (ieee802_11_parse_elems bs) = ParseFailed \<longleftrightarrow> \<not> (\<exists>es. list_all wf_element es \<and> bs = enc_elements es)"
proof -
  obtain es tail where es: "list_all wf_element es" "bs = enc_elements es @ tail" "incomplete tail"
    using frame_elements by blast
  show ?thesis
  proof (cases "tail = []")
    case True
    with es parse_walk_all [OF es(1), of "(0, no_elems)"] show ?thesis
      by (auto simp: ieee802_11_parse_elems_def)
  next
    case False
    have failed: "fst (ieee802_11_parse_elems bs) = ParseFailed"
      using parse_walk_tail [OF es(1,3) False] es(2) by (simp add: ieee802_11_parse_elems_def)
    have "fst (ieee802_11_parse_elems (enc_elements fs)) \<noteq> ParseFailed" if "list_all wf_element fs" for fs
      using parse_walk_all [OF that, of "(0, no_elems)"] by (simp add: ieee802_11_parse_elems_def)
    with failed show ?thesis by metis
  qed
qed

text \<open>
  C23: the parser rejects a frame body exactly when it is not a sequence of complete
  elements; a body that is one is never rejected, whatever its elements are.
\<close>

theorem parse_failed_iff:
  "fst (ieee802_11_parse_elems bs) = ParseFailed \<longleftrightarrow> \<not> (\<exists>es. list_all wf_element es \<and> bs = enc_elements es)"
  by (rule parse_fails)

text \<open>
  C25: what the parser records. On a sequence of complete elements it returns
  \<open>ParseUnknown\<close> exactly when one of them is not known to it, and each of the fields that
  are recorded without a length condition designates the body of the last element with its
  identifier, or is null when there is none.
\<close>

theorem parse_records_last:
  assumes "list_all wf_element es" and "(eid, get) \<in> set plain_fields"
  shows "fst (ieee802_11_parse_elems (enc_elements es)) = (if list_ex unknown_element es then ParseUnknown else ParseOK)
    \<and> get (snd (ieee802_11_parse_elems (enc_elements es))) = last_body eid es"
  using parse_walk_all [OF assms(1), of "(0, no_elems)"] foldl_parse_status [of "(0, no_elems)" es]
    foldl_parse_plain [OF assms(2), of "(0, no_elems)" es] plain_empty [OF assms(2)]
  by (auto simp: ieee802_11_parse_elems_def list_ex_iff filter_empty_conv split: option.split)

lemma parse_records_last_witness:
  "el_ssid (snd (ieee802_11_parse_elems (enc_elements [(0, [76, 111]), (221, [1, 2, 3, 4]), (0, [87])]))) = Some [87]"
proof -
  have "list_all wf_element [(0, [76, 111]), (221, [1, 2, 3, 4]), (0, [87 :: byte])]" by (simp add: wf_element_def)
  moreover have "(WLAN_EID_SSID, el_ssid) \<in> set plain_fields" by (simp add: plain_fields_def)
  ultimately show ?thesis
    using parse_records_last [of "[(0, [76, 111]), (221, [1, 2, 3, 4]), (0, [87])]" WLAN_EID_SSID el_ssid]
    by (simp add: last_body_def)
qed

text \<open>A vendor element none of whose OUIs the parser knows, such as the LoWS element.\<close>

definition foreign_vendor :: "element \<Rightarrow> bool" where
  "foreign_vendor e \<longleftrightarrow> fst e = WLAN_EID_VENDOR_SPECIFIC \<and> 4 \<le> length (snd e)
     \<and> get_be24 (snd e) 0 \<notin> {OUI_MICROSOFT, OUI_WFA, OUI_BROADCOM}"

lemma parse_foreign: "foreign_vendor e \<Longrightarrow> parse_element (fst e) (snd e) el = (1, el)"
  by (simp add: foreign_vendor_def parse_element_def ieee802_11_parse_vendor_specific_def Let_def)

lemma parse_without_vendor:
  assumes "list_all wf_element (es @ v # fs)" and "foreign_vendor v"
  shows "ieee802_11_parse_elems (enc_elements (es @ v # fs)) =
    (ParseUnknown, snd (ieee802_11_parse_elems (enc_elements (es @ fs))))"
proof -
  have wf: "list_all wf_element (es @ fs)" using assms(1) by simp
  have count: "snd (foldl parse_step (n, el) gs) = snd (foldl parse_step (0, el) gs)" for n el gs
  proof (induction gs arbitrary: n el)
    case (Cons g gs)
    obtain u el' where p: "parse_element (fst g) (snd g) el = (u, el')" by fastforce
    show ?case using Cons.IH [of "n + u" el'] Cons.IH [of u el'] by (simp add: parse_step_def p)
  qed simp
  let ?s = "foldl parse_step (0, no_elems) es"
  have "parse_step ?s v = (fst ?s + 1, snd ?s)"
    using parse_foreign [OF assms(2)] by (simp add: parse_step_def)
  then have "snd (foldl parse_step (0, no_elems) (es @ v # fs)) = snd (foldl parse_step (0, no_elems) (es @ fs))"
    using count [of "fst ?s + 1" "snd ?s" fs] count [of "fst ?s" "snd ?s" fs] by simp
  moreover have "unknown_element v"
    using parse_foreign [OF assms(2)] by (simp add: unknown_element_def)
  ultimately show ?thesis
    using parse_walk_all [OF assms(1), of "(0, no_elems)"] parse_walk_all [OF wf, of "(0, no_elems)"]
      foldl_parse_status [of "(0, no_elems)" "es @ v # fs"]
    by (simp add: ieee802_11_parse_elems_def)
qed

text \<open>
  C27: a vendor-specific element with a foreign OUI, as the LoWS message is carried in,
  is invisible to a receiver that does not look for it: wherever it stands in the frame,
  the parser records the same elements as without it and only reports \<open>ParseUnknown\<close>.
\<close>

theorem foreign_vendor_ignored:
  assumes "list_all wf_element (es @ v # fs)" and "foreign_vendor v"
  shows "ieee802_11_parse_elems (enc_elements (es @ v # fs)) =
    (ParseUnknown, snd (ieee802_11_parse_elems (enc_elements (es @ fs))))"
  using assms by (rule parse_without_vendor)

lemma foreign_vendor_ignored_witness:
  "ieee802_11_parse_elems (enc_elements [(0, [76]), (221, [1, 2, 3, 4, 5]), (3, [6])]) =
    (ParseUnknown, snd (ieee802_11_parse_elems (enc_elements [(0, [76]), (3, [6])])))"
proof -
  have "list_all wf_element ([(0, [76])] @ (221, [1, 2, 3, 4, 5]) # [(3, [6 :: byte])])"
    by (simp add: wf_element_def)
  moreover have "foreign_vendor (221, [1, 2, 3, 4, 5])"
    by (simp add: foreign_vendor_def get_be24_def)
  ultimately show ?thesis using foreign_vendor_ignored [of "[(0, [76])]" "(221, [1, 2, 3, 4, 5])" "[(3, [6])]"] by simp
qed

text \<open>
  Parsing is compositional. When a complete sequence of elements is followed by any
  further octets, the result is the worse of the two results, in the order
  \<open>ParseOK < ParseUnknown < ParseFailed\<close>.
\<close>

theorem parse_append:
  assumes "list_all wf_element es"
  shows "fst (ieee802_11_parse_elems (enc_elements es @ bs)) =
    max (fst (ieee802_11_parse_elems (enc_elements es))) (fst (ieee802_11_parse_elems bs))"
proof -
  obtain fs tail where fs: "list_all wf_element fs" "bs = enc_elements fs @ tail" "incomplete tail"
    using frame_elements by blast
  have wf: "list_all wf_element (es @ fs)" using assms fs(1) by simp
  have order: "max ParseOK r = r" "max r ParseOK = r" "max ParseFailed r = ParseFailed" "max r ParseFailed = ParseFailed"
    "max ParseUnknown ParseUnknown = ParseUnknown" for r
    by (cases r; simp add: max_def less_eq_ParseRes_def parse_rank_def)+
  show ?thesis
  proof (cases "tail = []")
    case True
    with assms fs wf show ?thesis
      using parse_walk_all [OF wf, of "(0, no_elems)"]
      by (simp add: ieee802_11_parse_elems_def parse_walk_all foldl_parse_status order del: foldl_append)
  next
    case False
    with assms fs wf show ?thesis
      using parse_walk_tail [OF wf fs(3) False, of "(0, no_elems)"] parse_walk_tail [OF fs(1,3) False, of "(0, no_elems)"]
      by (simp add: ieee802_11_parse_elems_def order)
  qed
qed

lemma parse_append_witness:
  "fst (ieee802_11_parse_elems (enc_elements [(0, [76])] @ [3])) =
    max (fst (ieee802_11_parse_elems (enc_elements [(0, [76])]))) (fst (ieee802_11_parse_elems [3]))"
  by (rule parse_append) (simp add: wf_element_def)

text \<open>
  The element counter counts exactly the complete elements in front of a truncated or
  missing tail, and never looks past the end of the buffer.
\<close>

theorem ie_count_elements:
  assumes "list_all wf_element es" and "incomplete tail"
  shows "ieee802_11_ie_count (Some (enc_elements es @ tail)) = length es"
proof -
  have "foldl (\<lambda>n e. n + 1) k es = k + length es" for k by (induction es arbitrary: k) auto
  with count.walk_elements [OF assms(1), of 0 tail] incomplete_count [OF assms(2)] show ?thesis
    by (simp add: ieee802_11_ie_count_def)
qed

lemma ie_count_elements_witness: "ieee802_11_ie_count (Some (enc_elements [(0, [76]), (3, [6])] @ [5, 4, 1])) = 2"
  using ie_count_elements [of "[(0, [76]), (3, [6])]" "[5, 4, 1]"] by (simp add: wf_element_def incomplete_def)

section \<open>Vendor elements\<close>

definition vendor_bodies :: "u32 \<Rightarrow> element list \<Rightarrow> byte list list" where
  "vendor_bodies oui es = map (\<lambda>e. drop 4 (snd e)) (filter (\<lambda>e. is_vendor_ie oui (fst e) (snd e)) es)"

lemma find_vendor_elements:
  assumes "list_all wf_element es" and "incomplete tail"
  shows "(case find_vendor_ie oui (enc_elements es @ tail) of
      None \<Rightarrow> vendor_bodies oui es = []
    | Some pos \<Rightarrow> \<exists>fs. pos = enc_elements fs @ tail \<and> list_all wf_element fs \<and> vendor_bodies oui fs = vendor_bodies oui es
        \<and> vendor_bodies oui es \<noteq> [])"
  using assms(1)
proof (induction es)
  case Nil
  then show ?case using incomplete_find [OF assms(2)] by (simp add: vendor_bodies_def)
next
  case (Cons e es)
  have e: "wf_element e" using Cons.prems by simp
  show ?case
  proof (cases "is_vendor_ie oui (fst e) (snd e)")
    case True
    have "find_vendor_ie oui (enc_elements (e # es) @ tail) = Some (enc_elements (e # es) @ tail)"
      using True unat_length_octet [OF e] by (simp add: enc_element_def)
    moreover have "vendor_bodies oui (e # es) \<noteq> []" using True by (simp add: vendor_bodies_def)
    ultimately show ?thesis using Cons.prems by (auto intro!: exI [of _ "e # es"])
  next
    case False
    have "find_vendor_ie oui (enc_elements (e # es) @ tail) = find_vendor_ie oui (enc_elements es @ tail)"
      using False unat_length_octet [OF e] by (simp add: enc_element_def)
    moreover have "vendor_bodies oui (e # es) = vendor_bodies oui es" using False by (simp add: vendor_bodies_def)
    ultimately show ?thesis using Cons.IH Cons.prems by (simp only: enc_elements_simps append_assoc list.pred_inject)
  qed
qed

lemma collect_puts:
  "foldl (collect_visit oui) (Inr b) es = put_all wpabuf_put_octets b (vendor_bodies oui es)"
proof (induction es arbitrary: b)
  case Nil
  then show ?case by (simp add: vendor_bodies_def)
next
  case (Cons e es)
  have err: "foldl (collect_visit oui) (Inl f) es = Inl f" for f
    by (induction es) (auto simp: collect_visit_def)
  have "collect_visit oui (Inr b) e =
      (if is_vendor_ie oui (fst e) (snd e) then wpabuf_put_octets b (drop 4 (snd e)) else Inr b)"
    by (simp add: collect_visit_def wpabuf_put_octets_def)
  then show ?case
    using Cons.IH err by (cases "wpabuf_put_octets b (drop 4 (snd e))") (simp_all add: vendor_bodies_def)
qed

lemma vendor_bodies_room: "length (concat (vendor_bodies oui es)) \<le> length (enc_elements es)"
  by (induction es) (auto simp: vendor_bodies_def)

text \<open>
  Concatenating vendor elements (the reassembly of a message that was split over
  several of them) returns, in order, exactly the bodies of the elements with the given
  OUI and type, without that prefix, and ignores an incomplete tail; it returns no buffer
  when there is no such element, and the buffer of the size of the input never overflows.
\<close>

theorem vendor_ie_concat_correct:
  assumes "list_all wf_element es" and "incomplete tail"
  shows "\<exists>r. ieee802_11_vendor_ie_concat True (enc_elements es @ tail) oui = Inr r
    \<and> (r = None \<longleftrightarrow> vendor_bodies oui es = [])
    \<and> (\<forall>b. r = Some b \<longrightarrow> wpabuf_head b = concat (vendor_bodies oui es))"
proof (cases "find_vendor_ie oui (enc_elements es @ tail)")
  case None
  with find_vendor_elements [OF assms, of oui] show ?thesis
    by (simp add: ieee802_11_vendor_ie_concat_def)
next
  case (Some pos)
  with find_vendor_elements [OF assms, of oui] obtain fs where
    fs: "pos = enc_elements fs @ tail" "list_all wf_element fs" "vendor_bodies oui fs = vendor_bodies oui es"
      "vendor_bodies oui es \<noteq> []" by auto
  obtain b where b: "wpabuf_alloc True (length (enc_elements es @ tail)) = Some b" "wf_wpabuf b"
    "wpabuf_head b = []" "wpabuf_tailroom b = length (enc_elements es @ tail)"
    using wpabuf_alloc_empty by blast
  have run: "collect_vendor_ies oui (Inr b) pos = put_all wpabuf_put_octets b (vendor_bodies oui es)"
    unfolding fs(1) collect.walk_elements [OF fs(2)] incomplete_collect [OF assms(2)] collect_puts fs(3) ..
  have "length (concat (vendor_bodies oui es)) \<le> wpabuf_tailroom b"
    using vendor_bodies_room [of oui es] b(4) by simp
  from wpabuf.put_all_fits [OF b(2) this] obtain b' where
    "put_all wpabuf_put_octets b (vendor_bodies oui es) = Inr b'" "wpabuf_head b' = concat (vendor_bodies oui es)"
    using b(3) by auto
  with Some b(1) run fs(4) show ?thesis by (simp add: ieee802_11_vendor_ie_concat_def)
qed

lemma vendor_ie_concat_correct_witness:
  "\<exists>b. ieee802_11_vendor_ie_concat True
     (enc_elements [(221, [0, 0, 0, 1, 104]), (3, [6]), (221, [0, 0, 0, 1, 105])]) 1 = Inr (Some b) \<and> wpabuf_head b = [104, 105]"
proof -
  let ?es = "[(221, [0, 0, 0, 1, 104]), (3, [6]), (221, [0, 0, 0, 1, 105])]"
  have bodies: "vendor_bodies 1 ?es = [[104], [105]]"
    by (simp add: vendor_bodies_def is_vendor_ie_def get_be32_def)
  have "list_all wf_element ?es" "incomplete []" by (simp_all add: wf_element_def incomplete_def)
  from vendor_ie_concat_correct [OF this, of 1] show ?thesis by (auto simp: bodies)
qed

section \<open>Frame header\<close>

text \<open>
  The BSSID pointer that \<open>get_hdr_bssid\<close> returns lies within the frame for every data
  frame and every control frame of at least 16 octets. For a management frame it is always
  the third address, at 16, so that its six octets are in the frame only when the frame has
  22; the length check is for 16.
\<close>

theorem hdr_bssid_in_frame:
  assumes "get_hdr_bssid hdr = Some off"
  shows "off + 6 \<le> length hdr \<or> (WLAN_FC_GET_TYPE (get_le16 hdr 0) = WLAN_FC_TYPE_MGMT \<and> off = 16 \<and> length hdr < 22)"
  using assms by (auto simp: get_hdr_bssid_def Let_def split: if_splits)

lemma hdr_bssid_in_frame_witness:
  "get_hdr_bssid ([0x08, 0x01] @ replicate 22 0) = Some 4 \<and> 4 + 6 \<le> length ([0x08, 0x01] @ replicate 22 (0 :: byte))"
proof -
  have fc: "get_le16 (0x08 # 0x01 # replicate 22 0) 0 = 0x0108" by (simp add: get_le16_def)
  have e: "get_hdr_bssid ([0x08, 0x01] @ replicate 22 0) = Some 4"
    by (simp add: get_hdr_bssid_def Let_def fc WLAN_FC_GET_TYPE_def WLAN_FC_GET_STYPE_def)
  from hdr_bssid_in_frame [OF e] show ?thesis using e by simp
qed

section \<open>WMM configuration\<close>

definition wmm_ac_valid :: "hostapd_wmm_ac_params \<Rightarrow> bool" where
  \<comment> \<open>the ranges \<open>hostapd_config_wmm_ac\<close> lets through\<close>
  "wmm_ac_valid ac \<longleftrightarrow> 1 \<le> ac_aifs ac \<and> ac_aifs ac \<le> 255 \<and> 0 \<le> ac_cwmin ac \<and> ac_cwmin ac \<le> 12
     \<and> 0 \<le> ac_cwmax ac \<and> ac_cwmax ac \<le> 12 \<and> 0 \<le> ac_txop_limit ac \<and> ac_txop_limit ac \<le> 0xFFFF
     \<and> ac_acm ac \<in> {0, 1}"

text \<open>
  The WMM part of the configuration file keeps the parameters in their ranges. Whatever
  the name and the value of an option are, a table of valid parameters stays valid, at most
  one access category changes, and an option that is rejected changes nothing.
\<close>

theorem config_wmm_ac_valid:
  assumes "list_all wmm_ac_valid params" and "length params = 4" and "hostapd_config_wmm_ac params name val = (r, params')"
  shows "list_all wmm_ac_valid params' \<and> length params' = 4 \<and> r \<in> {0, -1} \<and> (r = -1 \<longrightarrow> params' = params)
    \<and> (\<exists>k. \<forall>i. i \<noteq> k \<longrightarrow> i < 4 \<longrightarrow> params' ! i = params ! i)"
proof (cases "wmm_ac_index (drop 7 name)")
  case None
  with assms show ?thesis by (auto simp: hostapd_config_wmm_ac_def Let_def)
next
  case (Some num)
  have num: "num < 4" using Some by (auto simp: wmm_ac_index_def split: if_splits)
  then have old: "wmm_ac_valid (params ! num)" using assms(1,2) by (simp add: list_all_length)
  show ?thesis
  proof (cases "wmm_ac_set (drop 3 (drop 7 name)) (atoi val) (params ! num)")
    case None
    with assms Some show ?thesis by (auto simp: hostapd_config_wmm_ac_def Let_def)
  next
    case set: (Some ac)
    have "wmm_ac_valid ac"
      using set old by (auto simp: wmm_ac_set_def wmm_ac_valid_def split: if_splits)
    moreover have "params' = params[num := ac]" "r = 0"
      using assms(3) Some set by (auto simp: hostapd_config_wmm_ac_def Let_def)
    moreover have "list_all wmm_ac_valid (params[num := ac])"
      using \<open>wmm_ac_valid ac\<close> assms(1) set_update_subset_insert [of params num ac] by (auto simp: list_all_iff)
    ultimately show ?thesis
      using assms(2) by (auto intro!: exI [of _ num])
  qed
qed

lemma config_wmm_ac_valid_witness:
  "\<exists>params'. hostapd_config_wmm_ac (replicate 4 \<lparr>ac_cwmin = 4, ac_cwmax = 10, ac_aifs = 3, ac_txop_limit = 0, ac_acm = 0\<rparr>)
      ''wmm_ac_vi_aifs'' ''256'' = (-1, params') \<and> list_all wmm_ac_valid params'"
proof -
  let ?p = "replicate 4 \<lparr>ac_cwmin = 4, ac_cwmax = 10, ac_aifs = 3, ac_txop_limit = 0, ac_acm = 0\<rparr>"
  have atoi: "atoi ''256'' = 256" by (simp add: atoi_def is_space_def starts_with_def digits_value_def is_digit_def Let_def)
  have run: "hostapd_config_wmm_ac ?p ''wmm_ac_vi_aifs'' ''256'' = (-1, ?p)"
    by (simp add: hostapd_config_wmm_ac_def wmm_ac_index_def wmm_ac_set_def starts_with_def atoi Let_def)
  have "list_all wmm_ac_valid ?p" by (simp add: wmm_ac_valid_def list_all_iff)
  from config_wmm_ac_valid [OF this _ run] run show ?thesis by auto
qed

end
