(* ===== verification/Ap_State.thy ===== *)
theory Ap_State
  imports Elements
begin

text \<open>
  The access point's state: the structures of \<open>ap/hostapd.h\<close>, \<open>ap/ap_config.h\<close> and
  \<open>drivers/driver.h\<close> with the fields that the modelled code reads or writes. Field names
  carry a prefix per structure. Flags that C keeps in an \<open>int\<close> used as a truth value are
  \<open>bool\<close>; other \<open>int\<close> fields are \<open>int\<close>, octets are \<open>byte\<close>, flag words \<open>u32\<close>.

  In C a \<open>hostapd_data\<close> points to its \<open>hostapd_iface\<close>, which is shared by the BSSs of one
  radio; the model passes the interface beside the BSS instead, so that an operation that
  changes both returns both.
\<close>

section \<open>Hardware\<close>

abbreviation (input) "HOSTAPD_CHAN_DISABLED \<equiv> (0x00000001 :: u32)"
abbreviation (input) "HOSTAPD_CHAN_RADAR \<equiv> (0x00000008 :: u32)"
abbreviation (input) "HOSTAPD_CHAN_DFS_USABLE \<equiv> (0x00000100 :: u32)"
abbreviation (input) "HOSTAPD_CHAN_DFS_UNAVAILABLE \<equiv> (0x00000200 :: u32)"
abbreviation (input) "HOSTAPD_CHAN_DFS_AVAILABLE \<equiv> (0x00000300 :: u32)"
abbreviation (input) "HOSTAPD_CHAN_DFS_MASK \<equiv> (0x00000300 :: u32)"
abbreviation (input) "HOSTAPD_RATE_BASIC \<equiv> (0x00000001 :: u32)"

record hostapd_channel_data =
  chd_chan :: int
  chd_freq :: int
  chd_flag :: u32
  chd_max_tx_power :: byte
  chd_dfs_cac_ms :: nat

record hostapd_hw_modes =
  hm_mode :: hostapd_hw_mode
  hm_channels :: "hostapd_channel_data list"
  hm_vht_capab :: u32

record hostapd_rate_data =
  rd_rate :: int   \<comment> \<open>in 100 kbps\<close>
  rd_flags :: u32

record hostapd_freq_params =
  fp_mode :: hostapd_hw_mode
  fp_freq :: int
  fp_channel :: int
  fp_ht_enabled :: bool
  fp_sec_channel_offset :: int
  fp_vht_enabled :: bool
  fp_center_freq1 :: int
  fp_center_freq2 :: int
  fp_bandwidth :: int

section \<open>Configuration\<close>

datatype preamble = LONG_PREAMBLE | SHORT_PREAMBLE

datatype secpolicy =
    SECURITY_PLAINTEXT | SECURITY_STATIC_WEP | SECURITY_IEEE_802_1X
  | SECURITY_WPA_PSK | SECURITY_WPA | SECURITY_OSEN

datatype vht_chanwidth =
    VHT_CHANWIDTH_USE_HT | VHT_CHANWIDTH_80MHZ | VHT_CHANWIDTH_160MHZ | VHT_CHANWIDTH_80P80MHZ

record hostapd_config =
  ic_beacon_int :: u16
  ic_send_probe_response :: bool
  ic_channel :: byte
  ic_chanlist :: "int list option"   \<comment> \<open>up to the terminating -1\<close>
  ic_hw_mode :: hostapd_hw_mode
  ic_preamble :: preamble
  ic_country :: "byte list"
  ic_ieee80211d :: bool
  ic_ieee80211h :: bool
  ic_local_pwr_constraint :: int
  ic_spectrum_mgmt_required :: bool
  ic_wmm_ac_params :: "hostapd_wmm_ac_params list"
  ic_ieee80211n :: bool
  ic_secondary_channel :: int
  ic_require_ht :: bool
  ic_obss_interval :: int
  ic_ieee80211ac :: bool
  ic_require_vht :: bool
  ic_vht_oper_chwidth :: vht_chanwidth
  ic_vht_oper_centr_freq_seg0_idx :: byte
  ic_vht_oper_centr_freq_seg1_idx :: byte

record hostapd_ssid =
  ss_ssid :: "byte list"
  ss_utf8_ssid :: bool
  ss_security_policy :: secpolicy
  ss_wep_keys_set :: bool
  ss_wep_default_len :: nat

record hostapd_bss_config =
  bc_ssid :: hostapd_ssid
  bc_ignore_broadcast_ssid :: int
  bc_vendor_elements :: "wpabuf option"
  bc_wps_state :: int
  bc_p2p :: u32
  bc_ieee802_1x :: bool
  bc_default_wep_key_len :: int
  bc_individual_wep_key_len :: int
  bc_wpa :: int
  bc_wpa_key_mgmt :: u32
  bc_wpa_pairwise :: u32
  bc_rsn_pairwise :: u32
  bc_wpa_group :: u32
  bc_auth_algs :: u32
  bc_dtim_period :: int
  bc_isolate :: bool
  bc_disable_11n :: bool
  bc_ap_max_inactivity :: int
  bc_wmm_enabled :: bool
  bc_wmm_uapsd :: bool
  bc_tdls :: u32
  bc_wnm_sleep_mode :: bool
  bc_bss_transition :: bool
  bc_time_advertisement :: int
  bc_time_zone :: string
  bc_qos_map_set :: "byte list"
  bc_interworking :: bool
  bc_access_network_type :: byte
  bc_hessid :: "byte list"
  bc_internet :: bool
  bc_asra :: bool
  bc_esr :: bool
  bc_uesa :: bool
  bc_venue_info_set :: bool
  bc_venue_group :: byte
  bc_venue_type :: byte
  bc_roaming_consortium :: "byte list list"
  bc_hs20 :: bool

section \<open>Interfaces, BSSs, stations\<close>

record hostapd_iface =
  if_drv_flags :: u32
  if_probe_resp_offloads :: u32
  if_extended_capa :: "byte list"
  if_extended_capa_mask :: "byte list"
  if_current_mode :: "hostapd_hw_modes option"
  if_current_rates :: "hostapd_rate_data list option"
  if_basic_rates :: "int list option"
  if_freq :: int
  if_num_sta_non_erp :: int
  if_num_sta_no_short_slot_time :: int
  if_num_sta_no_short_preamble :: int
  if_olbc :: bool
  if_ht_op_mode :: u16
  if_cs_freq_params :: hostapd_freq_params
  if_cs_count :: byte
  if_cs_block_tx :: int
  if_cs_c_off_beacon :: nat
  if_cs_c_off_proberesp :: nat
  if_csa_in_progress :: bool
  if_cac_started :: bool
  if_dfs_cac_ms :: nat
  if_conf :: hostapd_config

record sta_info =
  sta_addr :: "byte list"
  sta_flags :: u32
  sta_ssid :: hostapd_ssid
  sta_ssid_probe :: "hostapd_ssid option"

record hostapd_data =
  hd_conf :: hostapd_bss_config
  hd_own_addr :: "byte list"
  hd_started :: bool
  hd_sta_list :: "sta_info list"
  hd_wpa_ie :: "byte list option"   \<comment> \<open>\<open>wpa_auth_get_wpa_ie (hapd->wpa_auth)\<close>\<close>
  hd_parameter_set_count :: int
  hd_time_update_counter :: byte
  hd_time_adv :: "wpabuf option"
  hd_beacon_set_done :: bool
  hd_wps_beacon_ie :: "wpabuf option"
  hd_wps_probe_resp_ie :: "wpabuf option"
  hd_vendorspec_beacon_ie :: "wpabuf option"
  hd_current_beacon_size :: nat

definition mode_is :: "hostapd_iface \<Rightarrow> hostapd_hw_mode \<Rightarrow> bool" where
  \<comment> \<open>\<open>iface->current_mode && iface->current_mode->mode == m\<close>\<close>
  "mode_is iface m = (case if_current_mode iface of None \<Rightarrow> False | Some hw \<Rightarrow> hm_mode hw = m)"

definition flag_set :: "u32 \<Rightarrow> u32 \<Rightarrow> bool" where
  "flag_set w f \<longleftrightarrow> w AND f \<noteq> 0"

lemma mode_is_simps [simp]:
  "if_current_mode iface = None \<Longrightarrow> \<not> mode_is iface m"
  "if_current_mode iface = Some hw \<Longrightarrow> mode_is iface m \<longleftrightarrow> hm_mode hw = m"
  by (simp_all add: mode_is_def)

text \<open>\<open>ap_get_sta\<close>: the station with the address, found in the hash table of the BSS.\<close>

definition ap_get_sta :: "hostapd_data \<Rightarrow> byte list \<Rightarrow> sta_info option" where
  "ap_get_sta hapd sta = find (\<lambda>s. sta_addr s = sta) (hd_sta_list hapd)"

section \<open>Examples\<close>

text \<open>Concrete configurations and states, at which the witnesses of the later theories apply their theorems.\<close>

definition ex_conf :: hostapd_config where
  "ex_conf = \<lparr>ic_beacon_int = 100, ic_send_probe_response = True, ic_channel = 36, ic_chanlist = None,
     ic_hw_mode = HOSTAPD_MODE_IEEE80211A, ic_preamble = LONG_PREAMBLE, ic_country = [85, 83, 32],
     ic_ieee80211d = True, ic_ieee80211h = True, ic_local_pwr_constraint = -1,
     ic_spectrum_mgmt_required = False,
     ic_wmm_ac_params = replicate 4 \<lparr>ac_cwmin = 4, ac_cwmax = 10, ac_aifs = 3, ac_txop_limit = 0, ac_acm = 0\<rparr>,
     ic_ieee80211n = False, ic_secondary_channel = 0, ic_require_ht = False, ic_obss_interval = 0,
     ic_ieee80211ac = False, ic_require_vht = False, ic_vht_oper_chwidth = VHT_CHANWIDTH_USE_HT,
     ic_vht_oper_centr_freq_seg0_idx = 0, ic_vht_oper_centr_freq_seg1_idx = 0\<rparr>"

definition ex_chan :: "int \<Rightarrow> u32 \<Rightarrow> hostapd_channel_data" where
  "ex_chan n flag = \<lparr>chd_chan = n, chd_freq = 5000 + 5 * n, chd_flag = flag, chd_max_tx_power = 20, chd_dfs_cac_ms = 60000\<rparr>"

definition ex_mode :: "hostapd_channel_data list \<Rightarrow> hostapd_hw_modes" where
  "ex_mode cs = \<lparr>hm_mode = HOSTAPD_MODE_IEEE80211A, hm_channels = cs, hm_vht_capab = 0\<rparr>"

definition ex_iface :: "hostapd_hw_modes option \<Rightarrow> hostapd_iface" where
  "ex_iface m = \<lparr>if_drv_flags = 0, if_probe_resp_offloads = 0, if_extended_capa = [], if_extended_capa_mask = [],
     if_current_mode = m, if_current_rates = Some [\<lparr>rd_rate = 60, rd_flags = 1\<rparr>], if_basic_rates = None,
     if_freq = 5180, if_num_sta_non_erp = 0, if_num_sta_no_short_slot_time = 0,
     if_num_sta_no_short_preamble = 0, if_olbc = False, if_ht_op_mode = 0,
     if_cs_freq_params = \<lparr>fp_mode = HOSTAPD_MODE_IEEE80211A, fp_freq = 0, fp_channel = 0, fp_ht_enabled = False,
       fp_sec_channel_offset = 0, fp_vht_enabled = False, fp_center_freq1 = 0, fp_center_freq2 = 0, fp_bandwidth = 0\<rparr>,
     if_cs_count = 0, if_cs_block_tx = 0, if_cs_c_off_beacon = 0, if_cs_c_off_proberesp = 0,
     if_csa_in_progress = False, if_cac_started = False, if_dfs_cac_ms = 0, if_conf = ex_conf\<rparr>"

definition ex_bss :: hostapd_bss_config where
  "ex_bss = \<lparr>bc_ssid = \<lparr>ss_ssid = [108, 111, 119, 115], ss_utf8_ssid = False, ss_security_policy = SECURITY_PLAINTEXT,
       ss_wep_keys_set = False, ss_wep_default_len = 0\<rparr>,
     bc_ignore_broadcast_ssid = 0, bc_vendor_elements = None, bc_wps_state = 0, bc_p2p = 0, bc_ieee802_1x = False,
     bc_default_wep_key_len = 0, bc_individual_wep_key_len = 0, bc_wpa = 0, bc_wpa_key_mgmt = 0,
     bc_wpa_pairwise = 0, bc_rsn_pairwise = 0, bc_wpa_group = 0, bc_auth_algs = 1, bc_dtim_period = 2,
     bc_isolate = False, bc_disable_11n = False, bc_ap_max_inactivity = 300, bc_wmm_enabled = False,
     bc_wmm_uapsd = False, bc_tdls = 0, bc_wnm_sleep_mode = False, bc_bss_transition = True,
     bc_time_advertisement = 0, bc_time_zone = [], bc_qos_map_set = [], bc_interworking = False,
     bc_access_network_type = 0, bc_hessid = replicate 6 0, bc_internet = False, bc_asra = False, bc_esr = False,
     bc_uesa = False, bc_venue_info_set = False, bc_venue_group = 0, bc_venue_type = 0,
     bc_roaming_consortium = [], bc_hs20 = False\<rparr>"

definition ex_hapd :: hostapd_data where
  "ex_hapd = \<lparr>hd_conf = ex_bss, hd_own_addr = [2, 0, 0, 0, 0, 1], hd_started = True, hd_sta_list = [],
     hd_wpa_ie = None, hd_parameter_set_count = 0, hd_time_update_counter = 0, hd_time_adv = None,
     hd_beacon_set_done = True, hd_wps_beacon_ie = None, hd_wps_probe_resp_ie = None,
     hd_vendorspec_beacon_ie = None, hd_current_beacon_size = 0\<rparr>"

end
