(* ===== verification/Dfs.thy ===== *)
theory Dfs
  imports Ap_State
begin

text \<open>
  Dynamic frequency selection, \<open>ap/dfs.c\<close>: the channel the access point is on or moves to
  when radar is detected, on which the beacons with the LoWS messages are sent.

  The channels of the current mode are a list; the code indexes it with \<open>int\<close> values that
  it computes, so an access is \<open>chan_at\<close>, with \<open>Bad_index\<close> outside the array. The random
  number that selects the channel is an argument. Calls that leave the file (enabling and
  disabling the interface, the driver's CAC and channel switch) are returned as actions in
  the order of the calls, and the results of those that have one are arguments.
\<close>

section \<open>Channels and widths\<close>

definition chan_at :: "hostapd_hw_modes \<Rightarrow> int \<Rightarrow> fault + hostapd_channel_data" where
  "chan_at mode k =
     (if 0 \<le> k \<and> k < int (length (hm_channels mode)) then Inr (hm_channels mode ! nat k)
      else Inl (Bad_index (length (hm_channels mode)) k))"

definition current_mode :: "hostapd_iface \<Rightarrow> fault + hostapd_hw_modes" where
  "current_mode iface = (case if_current_mode iface of None \<Rightarrow> Inl Null_deref | Some m \<Rightarrow> Inr m)"

definition dfs_get_used_n_chans :: "hostapd_iface \<Rightarrow> nat" where
  "dfs_get_used_n_chans iface =
     (let c = if_conf iface;
          n_chans = (if ic_ieee80211n c \<and> ic_secondary_channel c \<noteq> 0 then 2 else 1) in
      if ic_ieee80211ac c then
        (case ic_vht_oper_chwidth c of
           VHT_CHANWIDTH_USE_HT \<Rightarrow> n_chans
         | VHT_CHANWIDTH_80MHZ \<Rightarrow> 4
         | VHT_CHANWIDTH_160MHZ \<Rightarrow> 8
         | _ \<Rightarrow> n_chans)
      else n_chans)"

definition dfs_channel_available :: "hostapd_channel_data \<Rightarrow> bool \<Rightarrow> bool" where
  "dfs_channel_available chan skip_radar =
     (let flag = chd_flag chan in
      if skip_radar \<and> flag_set flag HOSTAPD_CHAN_RADAR
         \<and> flag AND HOSTAPD_CHAN_DFS_MASK \<noteq> HOSTAPD_CHAN_DFS_AVAILABLE then False
      else if flag_set flag HOSTAPD_CHAN_DISABLED then False
      else if flag_set flag HOSTAPD_CHAN_RADAR
         \<and> flag AND HOSTAPD_CHAN_DFS_MASK = HOSTAPD_CHAN_DFS_UNAVAILABLE then False
      else True)"

definition dfs_is_chan_allowed :: "hostapd_channel_data \<Rightarrow> nat \<Rightarrow> bool" where
  "dfs_is_chan_allowed chan n_chans =
     (let allowed =
        (if n_chans = 2 then [36, 44, 52, 60, 100, 108, 116, 124, 132, 149, 157, 184, 192]
         else if n_chans = 4 then [36, 52, 100, 116, 132, 149]
         else if n_chans = 8 then [36, 100]
         else [])
      in chd_chan chan \<in> set allowed)"

definition dfs_chan_range_available :: "hostapd_hw_modes \<Rightarrow> nat \<Rightarrow> nat \<Rightarrow> bool \<Rightarrow> bool" where
  "dfs_chan_range_available mode first_chan_idx num_chans skip_radar =
     (if first_chan_idx + num_chans \<ge> length (hm_channels mode) then False
      else let first_chan = hm_channels mode ! first_chan_idx in
           list_all (\<lambda>i. let chan = hm_channels mode ! (first_chan_idx + i) in
              chd_freq first_chan + int i * 20 = chd_freq chan
              \<and> dfs_channel_available chan skip_radar) [0..<num_chans])"

definition is_in_chanlist :: "hostapd_iface \<Rightarrow> hostapd_channel_data \<Rightarrow> bool" where
  "is_in_chanlist iface chan =
     (case ic_chanlist (if_conf iface) of None \<Rightarrow> True | Some l \<Rightarrow> chd_chan chan \<in> set l)"

section \<open>Choosing a channel\<close>

text \<open>The channels the loop of \<open>dfs_find_channel\<close> does not skip.\<close>

definition dfs_candidate :: "hostapd_iface \<Rightarrow> hostapd_hw_modes \<Rightarrow> nat \<Rightarrow> bool \<Rightarrow> nat \<Rightarrow> bool" where
  "dfs_candidate iface mode n_chans skip_radar i =
     (let chan = hm_channels mode ! i; c = if_conf iface in
      \<not> (ic_ieee80211n c \<and> ic_secondary_channel c \<noteq> 0 \<and> \<not> dfs_is_chan_allowed chan n_chans)
      \<and> dfs_chan_range_available mode i n_chans skip_radar
      \<and> is_in_chanlist iface chan)"

text \<open>
  The loop over the remaining indices; \<open>want\<close> is \<open>None\<close> when \<open>ret_chan\<close> is null. The
  result is the returned number and the channel stored through \<open>ret_chan\<close>, if any.
\<close>

fun dfs_find_loop :: "(nat \<Rightarrow> bool) \<Rightarrow> hostapd_hw_modes \<Rightarrow> nat option \<Rightarrow> nat list \<Rightarrow> nat
    \<Rightarrow> nat \<times> hostapd_channel_data option" where
  "dfs_find_loop cand mode want [] channel_idx = (channel_idx, None)"
| "dfs_find_loop cand mode want (i # is) channel_idx =
     (if \<not> cand i then dfs_find_loop cand mode want is channel_idx
      else if want = Some channel_idx then (channel_idx, Some (hm_channels mode ! i))
      else dfs_find_loop cand mode want is (channel_idx + 1))"

definition dfs_find_channel :: "hostapd_iface \<Rightarrow> hostapd_hw_modes \<Rightarrow> nat option \<Rightarrow> bool
    \<Rightarrow> nat \<times> hostapd_channel_data option" where
  "dfs_find_channel iface mode want skip_radar =
     dfs_find_loop (dfs_candidate iface mode (dfs_get_used_n_chans iface) skip_radar) mode want
       [0..<length (hm_channels mode)] 0"

text \<open>The octets stored through the two centre-frequency pointers.\<close>

definition dfs_adjust_vht_center_freq :: "hostapd_iface \<Rightarrow> hostapd_channel_data \<Rightarrow> int \<Rightarrow> byte \<times> byte
    \<Rightarrow> byte \<times> byte" where
  "dfs_adjust_vht_center_freq iface chan secondary_channel seg =
     (if \<not> ic_ieee80211ac (if_conf iface) then seg
      else (word_of_int
        (case ic_vht_oper_chwidth (if_conf iface) of
           VHT_CHANWIDTH_USE_HT \<Rightarrow>
             (if secondary_channel = 1 then chd_chan chan + 2
              else if secondary_channel = -1 then chd_chan chan - 2
              else chd_chan chan)
         | VHT_CHANWIDTH_80MHZ \<Rightarrow> chd_chan chan + 6
         | VHT_CHANWIDTH_160MHZ \<Rightarrow> chd_chan chan + 14
         | _ \<Rightarrow> 0), 0))"

text \<open>The channel with the secondary channel and the two centre frequencies, if any.\<close>

definition dfs_get_valid_channel :: "hostapd_iface \<Rightarrow> u32 \<Rightarrow> bool
    \<Rightarrow> (hostapd_channel_data \<times> int \<times> byte \<times> byte) option" where
  "dfs_get_valid_channel iface rand skip_radar =
     (case if_current_mode iface of
        None \<Rightarrow> None
      | Some mode \<Rightarrow>
          if hm_mode mode \<noteq> HOSTAPD_MODE_IEEE80211A then None
          else let num_available_chandefs = fst (dfs_find_channel iface mode None skip_radar) in
          if num_available_chandefs = 0 then None
          else let chan_idx = unat rand mod num_available_chandefs in
          (case snd (dfs_find_channel iface mode (Some chan_idx) skip_radar) of
             None \<Rightarrow> None
           | Some chan \<Rightarrow>
               let secondary_channel = (if ic_secondary_channel (if_conf iface) \<noteq> 0 then 1 else 0);
                   seg = dfs_adjust_vht_center_freq iface chan secondary_channel (0, 0)
               in Some (chan, secondary_channel, seg)))"

definition index_of_chan :: "hostapd_channel_data list \<Rightarrow> int \<Rightarrow> int" where
  \<comment> \<open>the loop that sets \<open>res\<close> to the first matching index\<close>
  "index_of_chan chans channel_no =
     (let i = length (takeWhile (\<lambda>c. chd_chan c \<noteq> channel_no) chans) in
      if i < length chans then int i else -1)"

definition dfs_get_start_chan_idx :: "hostapd_iface \<Rightarrow> fault + int" where
  "dfs_get_start_chan_idx iface =
     (let c = if_conf iface;
          channel_no = int (unat (ic_channel c));
          channel_no = (if ic_ieee80211n c \<and> ic_secondary_channel c = -1 then channel_no - 4 else channel_no);
          channel_no = (if ic_ieee80211ac c then
             (case ic_vht_oper_chwidth c of
                VHT_CHANWIDTH_USE_HT \<Rightarrow> channel_no
              | VHT_CHANWIDTH_80MHZ \<Rightarrow> int (unat (ic_vht_oper_centr_freq_seg0_idx c)) - 6
              | VHT_CHANWIDTH_160MHZ \<Rightarrow> int (unat (ic_vht_oper_centr_freq_seg0_idx c)) - 14
              | _ \<Rightarrow> -1)
             else channel_no) in
      fbind (current_mode iface) (\<lambda>mode. Inr (index_of_chan (hm_channels mode) channel_no)))"

section \<open>The channels in use\<close>

fun check_radar_loop :: "hostapd_hw_modes \<Rightarrow> int \<Rightarrow> nat \<Rightarrow> nat \<Rightarrow> fault + nat" where
  "check_radar_loop mode k 0 res = Inr res"
| "check_radar_loop mode k (Suc n) res =
     fbind (chan_at mode k) (\<lambda>channel.
       check_radar_loop mode (k + 1) n
         (if flag_set (chd_flag channel) HOSTAPD_CHAN_RADAR then res + 1 else res))"

definition dfs_check_chans_radar :: "hostapd_iface \<Rightarrow> int \<Rightarrow> nat \<Rightarrow> fault + nat" where
  "dfs_check_chans_radar iface start_chan_idx n_chans =
     fbind (current_mode iface) (\<lambda>mode. check_radar_loop mode start_chan_idx n_chans 0)"

fun check_available_loop :: "hostapd_hw_modes \<Rightarrow> int \<Rightarrow> nat \<Rightarrow> fault + bool" where
  "check_available_loop mode k 0 = Inr True"
| "check_available_loop mode k (Suc n) =
     fbind (chan_at mode k) (\<lambda>channel.
       if flag_set (chd_flag channel) HOSTAPD_CHAN_DISABLED then Inr False
       else if \<not> flag_set (chd_flag channel) HOSTAPD_CHAN_RADAR then check_available_loop mode (k + 1) n
       else if chd_flag channel AND HOSTAPD_CHAN_DFS_MASK \<noteq> HOSTAPD_CHAN_DFS_AVAILABLE then Inr False
       else check_available_loop mode (k + 1) n)"

definition dfs_check_chans_available :: "hostapd_iface \<Rightarrow> int \<Rightarrow> nat \<Rightarrow> fault + bool" where
  "dfs_check_chans_available iface start_chan_idx n_chans =
     fbind (current_mode iface) (\<lambda>mode. check_available_loop mode start_chan_idx n_chans)"

fun check_unavailable_loop :: "hostapd_hw_modes \<Rightarrow> int \<Rightarrow> nat \<Rightarrow> nat \<Rightarrow> fault + nat" where
  "check_unavailable_loop mode k 0 res = Inr res"
| "check_unavailable_loop mode k (Suc n) res =
     fbind (chan_at mode k) (\<lambda>channel.
       let res = (if flag_set (chd_flag channel) HOSTAPD_CHAN_DISABLED then res + 1 else res);
           res = (if chd_flag channel AND HOSTAPD_CHAN_DFS_MASK = HOSTAPD_CHAN_DFS_UNAVAILABLE
                  then res + 1 else res)
       in check_unavailable_loop mode (k + 1) n res)"

definition dfs_check_chans_unavailable :: "hostapd_iface \<Rightarrow> int \<Rightarrow> nat \<Rightarrow> fault + nat" where
  "dfs_check_chans_unavailable iface start_chan_idx n_chans =
     fbind (current_mode iface) (\<lambda>mode. check_unavailable_loop mode start_chan_idx n_chans 0)"

fun cac_time_loop :: "hostapd_hw_modes \<Rightarrow> int \<Rightarrow> nat \<Rightarrow> nat \<Rightarrow> fault + nat" where
  "cac_time_loop mode k 0 cac_time_ms = Inr cac_time_ms"
| "cac_time_loop mode k (Suc n) cac_time_ms =
     fbind (chan_at mode k) (\<lambda>channel.
       cac_time_loop mode (k + 1) n
         (if \<not> flag_set (chd_flag channel) HOSTAPD_CHAN_RADAR then cac_time_ms
          else if chd_dfs_cac_ms channel > cac_time_ms then chd_dfs_cac_ms channel
          else cac_time_ms))"

definition dfs_get_cac_time :: "hostapd_iface \<Rightarrow> int \<Rightarrow> nat \<Rightarrow> fault + nat" where
  "dfs_get_cac_time iface start_chan_idx n_chans =
     fbind (current_mode iface) (\<lambda>mode. cac_time_loop mode start_chan_idx n_chans 0)"

definition hostapd_is_dfs_required :: "hostapd_iface \<Rightarrow> fault + int" where
  "hostapd_is_dfs_required iface =
     (if \<not> ic_ieee80211h (if_conf iface) \<or> if_current_mode iface = None
         \<or> \<not> mode_is iface HOSTAPD_MODE_IEEE80211A then Inr 0
      else fbind (dfs_get_start_chan_idx iface) (\<lambda>start_chan_idx.
        if start_chan_idx = -1 then Inr (-1)
        else fbind (dfs_check_chans_radar iface start_chan_idx (dfs_get_used_n_chans iface))
               (\<lambda>n. Inr (int n))))"

section \<open>Frequency parameters (\<open>ap/ap_drv_ops.c\<close>)\<close>

abbreviation (input) "VHT_CAP_SUPP_CHAN_WIDTH_160MHZ \<equiv> (0x4 :: u32)"
abbreviation (input) "VHT_CAP_SUPP_CHAN_WIDTH_160_80PLUS80MHZ \<equiv> (0x8 :: u32)"

text \<open>The common part of the 80 and 80+80 MHz branches; \<open>None\<close> is the return value -1.\<close>

definition set_freq_params_80 :: "hostapd_freq_params \<Rightarrow> vht_chanwidth \<Rightarrow> int \<Rightarrow> int \<Rightarrow> int
    \<Rightarrow> hostapd_freq_params option" where
  "set_freq_params_80 data vht_oper_chwidth sec_channel_offset center_segment0 center_segment1 =
     (let data = data\<lparr>fp_bandwidth := 80\<rparr>; freq = fp_freq data in
      if vht_oper_chwidth = VHT_CHANWIDTH_80MHZ \<and> center_segment1 \<noteq> 0 then None
      else if vht_oper_chwidth = VHT_CHANWIDTH_80P80MHZ \<and> center_segment1 = 0 then None
      else if sec_channel_offset = 0 then None
      else let tmp = c_div (30 + freq - 5000 - center_segment0 * 5) 20; tmp = c_div tmp 2 in
      if fp_center_freq1 data \<noteq> 5000 + center_segment0 * 5 - 20 + 40 * tmp then None
      else Some (data\<lparr>fp_center_freq1 := 5000 + center_segment0 * 5\<rparr>))"

definition hostapd_set_freq_params :: "hostapd_hw_mode \<Rightarrow> int \<Rightarrow> int \<Rightarrow> bool \<Rightarrow> bool \<Rightarrow> int
    \<Rightarrow> vht_chanwidth \<Rightarrow> int \<Rightarrow> int \<Rightarrow> u32 \<Rightarrow> hostapd_freq_params option" where
  "hostapd_set_freq_params mode freq channel ht_enabled vht_enabled sec_channel_offset
       vht_oper_chwidth center_segment0 center_segment1 vht_caps =
     (let data = \<lparr>fp_mode = mode, fp_freq = freq, fp_channel = channel, fp_ht_enabled = ht_enabled,
                  fp_sec_channel_offset = sec_channel_offset, fp_vht_enabled = vht_enabled,
                  fp_center_freq1 = freq + sec_channel_offset * 10, fp_center_freq2 = 0,
                  fp_bandwidth = (if sec_channel_offset \<noteq> 0 then 40 else 20)\<rparr> in
      if \<not> vht_enabled then Some data
      else (case vht_oper_chwidth of
          VHT_CHANWIDTH_USE_HT \<Rightarrow>
            if center_segment1 \<noteq> 0 then None
            else if center_segment0 \<noteq> 0
               \<and> 5000 + center_segment0 * 5 \<noteq> fp_center_freq1 data
               \<and> 2407 + center_segment0 * 5 \<noteq> fp_center_freq1 data then None
            else Some data
        | VHT_CHANWIDTH_80P80MHZ \<Rightarrow>
            if \<not> flag_set vht_caps VHT_CAP_SUPP_CHAN_WIDTH_160_80PLUS80MHZ then None
            else if center_segment1 = center_segment0 + 4 \<or> center_segment1 = center_segment0 - 4 then None
            else set_freq_params_80 (data\<lparr>fp_center_freq2 := 5000 + center_segment1 * 5\<rparr>)
                   vht_oper_chwidth sec_channel_offset center_segment0 center_segment1
        | VHT_CHANWIDTH_80MHZ \<Rightarrow>
            set_freq_params_80 data vht_oper_chwidth sec_channel_offset center_segment0 center_segment1
        | VHT_CHANWIDTH_160MHZ \<Rightarrow>
            let data = data\<lparr>fp_bandwidth := 160\<rparr> in
            if \<not> flag_set vht_caps (VHT_CAP_SUPP_CHAN_WIDTH_160MHZ OR VHT_CAP_SUPP_CHAN_WIDTH_160_80PLUS80MHZ)
            then None
            else if center_segment1 \<noteq> 0 then None
            else if sec_channel_offset = 0 then None
            else let tmp = c_div (70 + freq - 5000 - center_segment0 * 5) 20; tmp = c_div tmp 2 in
            if fp_center_freq1 data \<noteq> 5000 + center_segment0 * 5 - 60 + 40 * tmp then None
            else Some (data\<lparr>fp_center_freq1 := 5000 + center_segment0 * 5\<rparr>)))"

section \<open>DFS state of the channels\<close>

datatype chan_width =
    CHAN_WIDTH_20_NOHT | CHAN_WIDTH_20 | CHAN_WIDTH_40 | CHAN_WIDTH_80 | CHAN_WIDTH_80P80
  | CHAN_WIDTH_160 | CHAN_WIDTH_UNKNOWN

text \<open>The first radar channel on the frequency gets the new state.\<close>

fun set_state_chans :: "hostapd_channel_data list \<Rightarrow> int \<Rightarrow> u32 \<Rightarrow> nat \<times> hostapd_channel_data list" where
  "set_state_chans [] freq state = (0, [])"
| "set_state_chans (chan # chans) freq state =
     (if chd_freq chan = freq \<and> flag_set (chd_flag chan) HOSTAPD_CHAN_RADAR
      then (1, chan\<lparr>chd_flag := chd_flag chan AND NOT HOSTAPD_CHAN_DFS_MASK OR state\<rparr> # chans)
      else case set_state_chans chans freq state of (r, cs) \<Rightarrow> (r, chan # cs))"

definition set_dfs_state_freq :: "hostapd_iface \<Rightarrow> int \<Rightarrow> u32 \<Rightarrow> nat \<times> hostapd_iface" where
  "set_dfs_state_freq iface freq state =
     (case if_current_mode iface of
        None \<Rightarrow> (0, iface)
      | Some mode \<Rightarrow>
          (case set_state_chans (hm_channels mode) freq state of
             (r, cs) \<Rightarrow> (r, iface\<lparr>if_current_mode := Some (mode\<lparr>hm_channels := cs\<rparr>)\<rparr>)))"

fun set_dfs_state_loop :: "nat \<Rightarrow> hostapd_iface \<Rightarrow> int \<Rightarrow> u32 \<Rightarrow> nat \<Rightarrow> nat \<times> hostapd_iface" where
  "set_dfs_state_loop 0 iface frequency state ret = (ret, iface)"
| "set_dfs_state_loop (Suc n) iface frequency state ret =
     (case set_dfs_state_freq iface frequency state of
        (r, iface') \<Rightarrow> set_dfs_state_loop n iface' (frequency + 20) state (ret + r))"

definition radar_span :: "chan_width \<Rightarrow> int \<Rightarrow> int \<Rightarrow> nat \<times> int" where
  \<comment> \<open>the \<open>switch (chan_width)\<close>: number of channels and frequency of the first\<close>
  "radar_span width freq cf1 =
     (case width of
        CHAN_WIDTH_20_NOHT \<Rightarrow> (1, if freq = 0 then cf1 else freq)
      | CHAN_WIDTH_20 \<Rightarrow> (1, if freq = 0 then cf1 else freq)
      | CHAN_WIDTH_40 \<Rightarrow> (2, cf1 - 10)
      | CHAN_WIDTH_80 \<Rightarrow> (4, cf1 - 30)
      | CHAN_WIDTH_160 \<Rightarrow> (8, cf1 - 70)
      | _ \<Rightarrow> (1, freq))"

definition set_dfs_state :: "hostapd_iface \<Rightarrow> int \<Rightarrow> chan_width \<Rightarrow> int \<Rightarrow> u32 \<Rightarrow> nat \<times> hostapd_iface" where
  "set_dfs_state iface freq width cf1 state =
     (case if_current_mode iface of
        None \<Rightarrow> (0, iface)
      | Some mode \<Rightarrow>
          if hm_mode mode \<noteq> HOSTAPD_MODE_IEEE80211A then (0, iface)
          else case radar_span width freq cf1 of
                 (n_chans, frequency) \<Rightarrow> set_dfs_state_loop n_chans iface frequency state 0)"

text \<open>
  The double loop over our channels and those of the radar event. \<open>radar_chan\<close> is \<open>None\<close>
  when \<open>ieee80211_freq_to_chan\<close> did not store a channel.
\<close>

fun overlap_loop :: "hostapd_hw_modes \<Rightarrow> byte option \<Rightarrow> nat \<Rightarrow> int \<Rightarrow> nat \<Rightarrow> nat \<Rightarrow> fault + nat" where
  "overlap_loop mode radar_chan radar_n k 0 res = Inr res"
| "overlap_loop mode radar_chan radar_n k (Suc n) res =
     fbind (chan_at mode k) (\<lambda>chan.
       if \<not> flag_set (chd_flag chan) HOSTAPD_CHAN_RADAR then overlap_loop mode radar_chan radar_n (k + 1) n res
       else (case radar_chan of
           None \<Rightarrow> Inl Uninitialised
         | Some rc \<Rightarrow>
             overlap_loop mode radar_chan radar_n (k + 1) n
               (res + length (filter (\<lambda>j. chd_chan chan = int (unat rc) + int j * 4) [0..<radar_n]))))"

definition dfs_are_channels_overlapped :: "hostapd_iface \<Rightarrow> int \<Rightarrow> chan_width \<Rightarrow> int \<Rightarrow> fault + nat" where
  "dfs_are_channels_overlapped iface freq width cf1 =
     fbind (dfs_get_start_chan_idx iface) (\<lambda>start_chan_idx.
     let n_chans = dfs_get_used_n_chans iface in
     fbind (dfs_check_chans_radar iface start_chan_idx n_chans) (\<lambda>radar.
     if radar = 0 then Inr 0
     else (case radar_span width freq cf1 of
        (radar_n_chans, frequency) \<Rightarrow>
          fbind (current_mode iface) (\<lambda>mode.
            overlap_loop mode (snd (ieee80211_freq_to_chan frequency)) radar_n_chans start_chan_idx n_chans 0))))"

section \<open>Reactions\<close>

record csa_settings =
  csa_cs_count :: byte
  csa_block_tx :: int
  csa_freq_params :: hostapd_freq_params

text \<open>Calls to other parts of the program, in order.\<close>

datatype dfs_action =
    Setup_interface_complete int
  | Set_state_DFS
  | Start_dfs_cac int byte int byte byte   \<comment> \<open>frequency, channel, secondary channel, centre frequencies\<close>
  | Disable_iface
  | Enable_iface
  | Switch_channel csa_settings

definition apply_channel :: "hostapd_iface \<Rightarrow> hostapd_channel_data \<times> int \<times> byte \<times> byte \<Rightarrow> hostapd_iface" where
  \<comment> \<open>the five assignments after a channel was chosen; \<open>conf->channel\<close> is a \<open>u8\<close>\<close>
  "apply_channel iface c =
     (case c of (channel, sec, cf1, cf2) \<Rightarrow>
        iface\<lparr>if_freq := chd_freq channel,
              if_conf := (if_conf iface)\<lparr>ic_channel := word_of_int (chd_chan channel),
                ic_secondary_channel := sec, ic_vht_oper_centr_freq_seg0_idx := cf1,
                ic_vht_oper_centr_freq_seg1_idx := cf2\<rparr>\<rparr>)"

text \<open>
  One round of the \<open>do ... while\<close> loop of \<open>hostapd_handle_dfs\<close>. \<open>Some r\<close>: the loop is left,
  with return value \<open>r\<close> or, for 2, to start the CAC; \<open>None\<close>: the next round follows.
\<close>

definition handle_dfs_round :: "u32 \<Rightarrow> hostapd_iface \<Rightarrow> fault + int option \<times> hostapd_iface" where
  "handle_dfs_round rand iface =
     fbind (dfs_get_start_chan_idx iface) (\<lambda>start_chan_idx.
     if start_chan_idx = -1 then Inr (Some (-1), iface)
     else let n_chans = dfs_get_used_n_chans iface in
     fbind (dfs_get_cac_time iface start_chan_idx n_chans) (\<lambda>cac_time.
     let iface = iface\<lparr>if_dfs_cac_ms := cac_time\<rparr> in
     fbind (dfs_check_chans_radar iface start_chan_idx n_chans) (\<lambda>radar.
     if radar = 0 then Inr (Some 1, iface)
     else fbind (dfs_check_chans_available iface start_chan_idx n_chans) (\<lambda>avail.
     if avail then Inr (Some 1, iface)
     else fbind (dfs_check_chans_unavailable iface start_chan_idx n_chans) (\<lambda>unavail.
     if unavail = 0 then Inr (Some 2, iface)
     else (case dfs_get_valid_channel iface rand False of
        None \<Rightarrow> Inr (Some (-1), iface)
      | Some c \<Rightarrow> Inr (None, apply_channel iface c)))))))"

text \<open>One random number per round; \<open>None\<close> when they are used up before the loop is left.\<close>

fun handle_dfs_loop :: "u32 list \<Rightarrow> hostapd_iface \<Rightarrow> (fault + int \<times> hostapd_iface) option" where
  "handle_dfs_loop [] iface = None"
| "handle_dfs_loop (rand # rands) iface =
     (case handle_dfs_round rand iface of
        Inl e \<Rightarrow> Some (Inl e)
      | Inr (Some r, iface') \<Rightarrow> Some (Inr (r, iface'))
      | Inr (None, iface') \<Rightarrow> handle_dfs_loop rands iface')"

text \<open>\<open>cac_result\<close> is what \<open>hostapd_start_dfs_cac\<close> returns.\<close>

definition hostapd_handle_dfs :: "u32 list \<Rightarrow> int \<Rightarrow> hostapd_iface
    \<Rightarrow> (fault + int \<times> hostapd_iface \<times> dfs_action list) option" where
  "hostapd_handle_dfs rands cac_result iface =
     (case handle_dfs_loop rands (iface\<lparr>if_cac_started := False\<rparr>) of
        None \<Rightarrow> None
      | Some (Inl e) \<Rightarrow> Some (Inl e)
      | Some (Inr (r, iface')) \<Rightarrow>
          if r \<noteq> 2 then Some (Inr (r, iface', []))
          else let c = if_conf iface' in
            Some (Inr (if cac_result \<noteq> 0 then -1 else 0, iface',
              [Set_state_DFS, Start_dfs_cac (if_freq iface') (ic_channel c) (ic_secondary_channel c)
                 (ic_vht_oper_centr_freq_seg0_idx c) (ic_vht_oper_centr_freq_seg1_idx c)])))"

definition hostapd_dfs_complete_cac :: "hostapd_iface \<Rightarrow> bool \<Rightarrow> int \<Rightarrow> chan_width \<Rightarrow> int
    \<Rightarrow> int \<times> hostapd_iface \<times> dfs_action list" where
  "hostapd_dfs_complete_cac iface success freq width cf1 =
     (if success then
        (0, (snd (set_dfs_state iface freq width cf1 HOSTAPD_CHAN_DFS_AVAILABLE))\<lparr>if_cac_started := False\<rparr>,
         [Setup_interface_complete 0])
      else (0, iface, []))"

definition hostapd_dfs_start_channel_switch_cac :: "hostapd_iface \<Rightarrow> u32
    \<Rightarrow> int \<times> hostapd_iface \<times> dfs_action list" where
  "hostapd_dfs_start_channel_switch_cac iface rand =
     (let iface = iface\<lparr>if_cac_started := False\<rparr> in
      case dfs_get_valid_channel iface rand False of
        None \<Rightarrow> (1, iface, [Setup_interface_complete 1])
      | Some c \<Rightarrow> (0, apply_channel iface c, [Setup_interface_complete 0]))"

text \<open>\<open>rand1\<close>, \<open>rand2\<close>: the random numbers of the two searches; \<open>switch_err\<close>: what
  \<open>hostapd_switch_channel\<close> returns.\<close>

definition hostapd_dfs_start_channel_switch :: "hostapd_iface \<Rightarrow> u32 \<Rightarrow> u32 \<Rightarrow> int
    \<Rightarrow> int \<times> hostapd_iface \<times> dfs_action list" where
  "hostapd_dfs_start_channel_switch iface rand1 rand2 switch_err =
     (if if_csa_in_progress iface then (0, iface, [])
      else if if_cac_started iface then hostapd_dfs_start_channel_switch_cac iface rand1
      else (case dfs_get_valid_channel iface rand1 True of
         None \<Rightarrow>
           (case dfs_get_valid_channel iface rand2 False of
              None \<Rightarrow> (1, iface, [Disable_iface])
            | Some c \<Rightarrow> (0, apply_channel iface c, [Disable_iface, Enable_iface]))
       | Some (channel, secondary_channel, seg0, seg1) \<Rightarrow>
           (case hostapd_set_freq_params (ic_hw_mode (if_conf iface)) (chd_freq channel) (chd_chan channel)
               (ic_ieee80211n (if_conf iface)) (ic_ieee80211ac (if_conf iface)) secondary_channel
               (ic_vht_oper_chwidth (if_conf iface)) (int (unat seg0)) (int (unat seg1))
               (case if_current_mode iface of None \<Rightarrow> 0 | Some m \<Rightarrow> hm_vht_capab m) of
              None \<Rightarrow> (-1, iface, [Disable_iface])
            | Some fp \<Rightarrow>
                let csa = \<lparr>csa_cs_count = 5, csa_block_tx = 1, csa_freq_params = fp\<rparr> in
                if switch_err \<noteq> 0
                then (0, apply_channel iface (channel, secondary_channel, seg0, seg1),
                      [Switch_channel csa, Disable_iface, Enable_iface])
                else (0, iface, [Switch_channel csa]))))"

definition hostapd_dfs_radar_detected :: "hostapd_iface \<Rightarrow> int \<Rightarrow> chan_width \<Rightarrow> int \<Rightarrow> u32 \<Rightarrow> u32 \<Rightarrow> int
    \<Rightarrow> fault + int \<times> hostapd_iface \<times> dfs_action list" where
  "hostapd_dfs_radar_detected iface freq width cf1 rand1 rand2 switch_err =
     (if \<not> ic_ieee80211h (if_conf iface) then Inr (0, iface, [])
      else let iface = snd (set_dfs_state iface freq width cf1 HOSTAPD_CHAN_DFS_UNAVAILABLE) in
      fbind (dfs_are_channels_overlapped iface freq width cf1) (\<lambda>res.
        if res = 0 then Inr (0, iface, [])
        else Inr (hostapd_dfs_start_channel_switch iface rand1 rand2 switch_err)))"

definition hostapd_dfs_nop_finished :: "hostapd_iface \<Rightarrow> int \<Rightarrow> chan_width \<Rightarrow> int \<Rightarrow> int \<times> hostapd_iface" where
  "hostapd_dfs_nop_finished iface freq width cf1 =
     (0, snd (set_dfs_state iface freq width cf1 HOSTAPD_CHAN_DFS_USABLE))"

section \<open>The search for a channel\<close>

lemma find_loop_count:
  "fst (dfs_find_loop cand mode None is n) = n + length (filter cand is)"
  by (induction "is" arbitrary: n) auto

lemma find_loop_select:
  "n \<le> k \<Longrightarrow> k < n + length (filter cand is) \<Longrightarrow>
     \<exists>i \<in> set is. cand i \<and> snd (dfs_find_loop cand mode (Some k) is n) = Some (hm_channels mode ! i)"
proof (induction "is" arbitrary: n)
  case (Cons i "is")
  then show ?case by (cases "cand i"; cases "k = n") auto
qed simp

lemma find_channel_select:
  assumes "k < fst (dfs_find_channel iface mode None skip_radar)"
  shows "\<exists>i < length (hm_channels mode). dfs_candidate iface mode (dfs_get_used_n_chans iface) skip_radar i
    \<and> snd (dfs_find_channel iface mode (Some k) skip_radar) = Some (hm_channels mode ! i)"
proof -
  let ?cand = "dfs_candidate iface mode (dfs_get_used_n_chans iface) skip_radar"
  and ?is = "[0..<length (hm_channels mode)]"
  have "k < 0 + length (filter ?cand ?is)"
    using assms by (simp add: dfs_find_channel_def find_loop_count)
  from find_loop_select [OF _ this, of mode] show ?thesis by (auto simp: dfs_find_channel_def)
qed

lemma valid_channel_cases:
  assumes "dfs_get_valid_channel iface rand skip_radar = Some (chan, sec, seg)"
  obtains mode i where "if_current_mode iface = Some mode" "hm_mode mode = HOSTAPD_MODE_IEEE80211A"
    "i < length (hm_channels mode)" "chan = hm_channels mode ! i"
    "dfs_candidate iface mode (dfs_get_used_n_chans iface) skip_radar i"
    "sec = (if ic_secondary_channel (if_conf iface) \<noteq> 0 then 1 else 0)"
    "seg = dfs_adjust_vht_center_freq iface chan sec (0, 0)"
proof -
  from assms obtain mode where mode: "if_current_mode iface = Some mode" "hm_mode mode = HOSTAPD_MODE_IEEE80211A"
    and n: "fst (dfs_find_channel iface mode None skip_radar) \<noteq> 0"
    by (auto simp: dfs_get_valid_channel_def Let_def split: option.splits if_splits)
  let ?n = "fst (dfs_find_channel iface mode None skip_radar)"
  have "unat rand mod ?n < ?n" using n by simp
  from find_channel_select [OF this] obtain i where
    i: "i < length (hm_channels mode)" "dfs_candidate iface mode (dfs_get_used_n_chans iface) skip_radar i"
    "snd (dfs_find_channel iface mode (Some (unat rand mod ?n)) skip_radar) = Some (hm_channels mode ! i)" by blast
  show thesis
    by (rule that [OF mode i(1) _ i(2)])
      (use assms mode n i(3) in \<open>auto simp: dfs_get_valid_channel_def Let_def\<close>)
qed

lemma range_availableD:
  "dfs_chan_range_available mode i n skip_radar \<Longrightarrow>
     i + n < length (hm_channels mode)
     \<and> (\<forall>j < n. dfs_channel_available (hm_channels mode ! (i + j)) skip_radar
          \<and> chd_freq (hm_channels mode ! (i + j)) = chd_freq (hm_channels mode ! i) + int j * 20)"
  by (auto simp: dfs_chan_range_available_def Let_def list_all_iff split: if_splits)

definition fit_for_use :: "hostapd_iface \<Rightarrow> hostapd_hw_modes \<Rightarrow> bool \<Rightarrow> nat \<Rightarrow> bool" where
  \<comment> \<open>the channels of the configured width from index \<open>i\<close> on, with the tests written out\<close>
  "fit_for_use iface mode skip_radar i \<longleftrightarrow>
     (let n = dfs_get_used_n_chans iface; chan = hm_channels mode ! i in
      i + n < length (hm_channels mode) \<and> is_in_chanlist iface chan
      \<and> (ic_ieee80211n (if_conf iface) \<and> ic_secondary_channel (if_conf iface) \<noteq> 0 \<longrightarrow> dfs_is_chan_allowed chan n)
      \<and> (\<forall>j < n. let c = hm_channels mode ! (i + j) in
           chd_freq c = chd_freq chan + int j * 20
           \<and> \<not> flag_set (chd_flag c) HOSTAPD_CHAN_DISABLED
           \<and> (flag_set (chd_flag c) HOSTAPD_CHAN_RADAR \<longrightarrow>
                (if skip_radar then chd_flag c AND HOSTAPD_CHAN_DFS_MASK = HOSTAPD_CHAN_DFS_AVAILABLE
                 else chd_flag c AND HOSTAPD_CHAN_DFS_MASK \<noteq> HOSTAPD_CHAN_DFS_UNAVAILABLE))))"

lemma candidate_fit: "dfs_candidate iface mode (dfs_get_used_n_chans iface) skip_radar i = fit_for_use iface mode skip_radar i"
proof -
  have "dfs_channel_available c skip_radar \<longleftrightarrow> \<not> flag_set (chd_flag c) HOSTAPD_CHAN_DISABLED
      \<and> (flag_set (chd_flag c) HOSTAPD_CHAN_RADAR \<longrightarrow>
           (if skip_radar then chd_flag c AND HOSTAPD_CHAN_DFS_MASK = HOSTAPD_CHAN_DFS_AVAILABLE
            else chd_flag c AND HOSTAPD_CHAN_DFS_MASK \<noteq> HOSTAPD_CHAN_DFS_UNAVAILABLE))" for c
    by (auto simp: dfs_channel_available_def Let_def)
  then show ?thesis
    by (auto simp: dfs_candidate_def fit_for_use_def dfs_chan_range_available_def Let_def list_all_iff not_le)
qed

text \<open>
  C33: a channel that is chosen is fit for use. The channel returned, and every channel of
  the configured width that starts with it, is in the mode, 20 MHz above the one before,
  not disabled and not blocked by radar; if no channel availability check can be done
  first (\<open>skip_radar\<close>), each of them is free of radar detection or already checked; the first one is in the
  configured channel list and, with a secondary channel, one at which a block of that width may start. No channel
  is returned exactly when no channel passes these tests.
\<close>

theorem dfs_valid_channel_usable:
  assumes "if_current_mode iface = Some mode" and "hm_mode mode = HOSTAPD_MODE_IEEE80211A"
  shows "case dfs_get_valid_channel iface rand skip_radar of
      None \<Rightarrow> \<forall>i < length (hm_channels mode). \<not> fit_for_use iface mode skip_radar i
    | Some (chan, sec, seg) \<Rightarrow> sec = (if ic_secondary_channel (if_conf iface) \<noteq> 0 then 1 else 0)
        \<and> (\<exists>i < length (hm_channels mode). hm_channels mode ! i = chan \<and> fit_for_use iface mode skip_radar i)"
proof -
  let ?n = "dfs_get_used_n_chans iface"
  let ?count = "fst (dfs_find_channel iface mode None skip_radar)"
  have none: "?count = 0 \<longleftrightarrow> (\<forall>i < length (hm_channels mode). \<not> fit_for_use iface mode skip_radar i)"
    unfolding candidate_fit [symmetric] by (auto simp: dfs_find_channel_def find_loop_count filter_empty_conv)
  have some: "dfs_get_valid_channel iface rand skip_radar \<noteq> None" if "?count \<noteq> 0"
  proof -
    have "unat rand mod ?count < ?count" using that by simp
    from find_channel_select [OF this] assms that show ?thesis
      by (auto simp: dfs_get_valid_channel_def Let_def)
  qed
  show ?thesis
  proof (cases "dfs_get_valid_channel iface rand skip_radar")
    case None
    then show ?thesis using none some by auto
  next
    case (Some r)
    obtain chan sec seg where r: "r = (chan, sec, seg)" by (cases r)
    from Some r obtain i where "i < length (hm_channels mode)" "chan = hm_channels mode ! i"
      "dfs_candidate iface mode ?n skip_radar i" "sec = (if ic_secondary_channel (if_conf iface) \<noteq> 0 then 1 else 0)"
      by (auto elim!: valid_channel_cases simp: assms(1))
    then show ?thesis unfolding Some r candidate_fit by auto
  qed
qed

lemma index_of_chan_nth:
  assumes "i < length cs" and "distinct (map chd_chan cs)"
  shows "index_of_chan cs (chd_chan (cs ! i)) = int i"
proof -
  have "takeWhile (\<lambda>c. chd_chan c \<noteq> chd_chan (cs ! i)) cs = take i cs"
  proof (rule takeWhile_eq_take_P_nth)
    fix k assume "k < i" "k < length cs"
    then show "chd_chan (cs ! k) \<noteq> chd_chan (cs ! i)"
      using assms nth_eq_iff_index_eq [OF assms(2), of k i] by simp
  qed simp
  with assms(1) show ?thesis by (simp add: index_of_chan_def Let_def)
qed

section \<open>The loop of the DFS handler ends\<close>

definition wf_dfs_mode :: "hostapd_hw_modes \<Rightarrow> bool" where
  "wf_dfs_mode mode \<longleftrightarrow> distinct (map chd_chan (hm_channels mode))
     \<and> list_all (\<lambda>c. 0 \<le> chd_chan c \<and> chd_chan c \<le> 196
         \<and> (chd_flag c AND HOSTAPD_CHAN_DFS_MASK = HOSTAPD_CHAN_DFS_UNAVAILABLE \<longrightarrow>
              flag_set (chd_flag c) HOSTAPD_CHAN_RADAR)) (hm_channels mode)"

lemma unavailable_loop_zero:
  assumes "i + n \<le> length (hm_channels mode)"
    and "\<forall>j < n. dfs_channel_available (hm_channels mode ! (i + j)) False
      \<and> (chd_flag (hm_channels mode ! (i + j)) AND HOSTAPD_CHAN_DFS_MASK = HOSTAPD_CHAN_DFS_UNAVAILABLE \<longrightarrow>
           flag_set (chd_flag (hm_channels mode ! (i + j))) HOSTAPD_CHAN_RADAR)"
  shows "check_unavailable_loop mode (int i) n 0 = Inr 0"
  using assms
proof (induction n arbitrary: i)
  case (Suc n)
  have at: "chan_at mode (int i) = Inr (hm_channels mode ! i)" using Suc.prems(1) by (simp add: chan_at_def)
  have here: "dfs_channel_available (hm_channels mode ! i) False"
     "chd_flag (hm_channels mode ! i) AND HOSTAPD_CHAN_DFS_MASK = HOSTAPD_CHAN_DFS_UNAVAILABLE \<longrightarrow>
           flag_set (chd_flag (hm_channels mode ! i)) HOSTAPD_CHAN_RADAR"
    using Suc.prems(2) [rule_format, of 0] by simp_all
  have "check_unavailable_loop mode (int (Suc i)) n 0 = Inr 0"
  proof (rule Suc.IH)
    show "\<forall>j < n. dfs_channel_available (hm_channels mode ! (Suc i + j)) False
      \<and> (chd_flag (hm_channels mode ! (Suc i + j)) AND HOSTAPD_CHAN_DFS_MASK = HOSTAPD_CHAN_DFS_UNAVAILABLE \<longrightarrow>
           flag_set (chd_flag (hm_channels mode ! (Suc i + j))) HOSTAPD_CHAN_RADAR)"
      using Suc.prems(2) by (metis Suc_less_eq add_Suc_shift)
  qed (use Suc.prems(1) in simp)
  moreover have "\<not> flag_set (chd_flag (hm_channels mode ! i)) HOSTAPD_CHAN_DISABLED"
    "chd_flag (hm_channels mode ! i) AND HOSTAPD_CHAN_DFS_MASK \<noteq> HOSTAPD_CHAN_DFS_UNAVAILABLE"
    using here by (auto simp: dfs_channel_available_def Let_def split: if_splits)
  ultimately show ?case by (simp add: at Let_def add.commute)
qed simp

lemma apply_channel_fields:
  "if_current_mode (apply_channel iface c) = if_current_mode iface"
  "ic_ieee80211n (if_conf (apply_channel iface c)) = ic_ieee80211n (if_conf iface)"
  "ic_ieee80211ac (if_conf (apply_channel iface c)) = ic_ieee80211ac (if_conf iface)"
  "ic_vht_oper_chwidth (if_conf (apply_channel iface c)) = ic_vht_oper_chwidth (if_conf iface)"
  "ic_channel (if_conf (apply_channel iface (chan, sec, cf1, cf2))) = word_of_int (chd_chan chan)"
  "ic_secondary_channel (if_conf (apply_channel iface (chan, sec, cf1, cf2))) = sec"
  "ic_vht_oper_centr_freq_seg0_idx (if_conf (apply_channel iface (chan, sec, cf1, cf2))) = cf1"
  by (simp_all add: apply_channel_def case_prod_beta)

lemma octet_of_int: "0 \<le> k \<Longrightarrow> k < 256 \<Longrightarrow> uint (word_of_int k :: byte) = k"
  by (simp add: unsigned_of_int take_bit_int_eq_self)

text \<open>After a choice the handler finds the chosen channel again, or has no start channel.\<close>

lemma start_idx_after_choice:
  assumes "if_current_mode iface = Some mode" and "wf_dfs_mode mode" and "i < length (hm_channels mode)"
    and "chan = hm_channels mode ! i"
    and "sec = (if ic_secondary_channel (if_conf iface) \<noteq> 0 then 1 else 0)"
    and "seg = dfs_adjust_vht_center_freq iface chan sec (0, 0)"
  shows "dfs_get_start_chan_idx (apply_channel iface (chan, sec, seg)) = Inr (int i)
    \<or> dfs_get_start_chan_idx (apply_channel iface (chan, sec, seg)) = Inr (-1)"
proof -
  have range: "0 \<le> chd_chan chan" "chd_chan chan \<le> 196" and "distinct (map chd_chan (hm_channels mode))"
    using assms(2,3,4) by (simp_all add: wf_dfs_mode_def list_all_length)
  from index_of_chan_nth [OF assms(3) this(3)] have idx: "index_of_chan (hm_channels mode) (chd_chan chan) = int i"
    by (simp add: assms(4))
  have none: "index_of_chan (hm_channels mode) (-1) = -1"
  proof -
    have "\<forall>c \<in> set (hm_channels mode). chd_chan c \<noteq> -1"
      using assms(2) by (fastforce simp: wf_dfs_mode_def list_all_iff)
    then have "takeWhile (\<lambda>c. chd_chan c \<noteq> -1) (hm_channels mode) = hm_channels mode"
      by (simp add: takeWhile_eq_all_conv)
    then have "length (takeWhile (\<lambda>c. chd_chan c \<noteq> -1) (hm_channels mode)) = length (hm_channels mode)"
      by (rule arg_cong)
    then show ?thesis by (simp only: index_of_chan_def Let_def) simp
  qed
  have u: "uint (word_of_int (chd_chan chan) :: byte) = chd_chan chan"
    "uint (word_of_int (chd_chan chan) + 6 :: byte) = chd_chan chan + 6"
    "uint (word_of_int (chd_chan chan) + 14 :: byte) = chd_chan chan + 14"
    using octet_of_int [of "chd_chan chan"] octet_of_int [of "chd_chan chan + 6"]
      octet_of_int [of "chd_chan chan + 14"] range by simp_all
  obtain cf1 cf2 where seg: "seg = (cf1, cf2)" by fastforce
  show ?thesis
    using assms(5,6) range idx none
    by (auto simp: seg dfs_get_start_chan_idx_def Let_def apply_channel_fields current_mode_def assms(1)
        u dfs_adjust_vht_center_freq_def split: vht_chanwidth.splits if_splits)
qed

lemma handle_dfs_round_next:
  assumes "handle_dfs_round rand iface = Inr (None, iface')"
  shows "\<exists>t c. dfs_get_valid_channel (iface\<lparr>if_dfs_cac_ms := t\<rparr>) rand False = Some c
     \<and> iface' = apply_channel (iface\<lparr>if_dfs_cac_ms := t\<rparr>) c"
  using assms by (auto simp: handle_dfs_round_def fbind_Inr_iff Let_def split: if_splits option.splits) blast

lemma handle_dfs_loop_no_radar_left:
  assumes "if_current_mode iface = Some mode" and "wf_dfs_mode mode"
    and "dfs_get_valid_channel iface rand False = Some (chan, sec, seg)"
  shows "handle_dfs_round rand' (apply_channel iface (chan, sec, seg)) \<noteq> Inr (None, iface')"
proof -
  from assms(3) obtain i where i: "i < length (hm_channels mode)" "chan = hm_channels mode ! i"
      "dfs_candidate iface mode (dfs_get_used_n_chans iface) False i"
      "sec = (if ic_secondary_channel (if_conf iface) \<noteq> 0 then 1 else 0)"
      "seg = dfs_adjust_vht_center_freq iface chan sec (0, 0)"
    by (rule valid_channel_cases) (use assms(1) in simp)
  let ?i2 = "apply_channel iface (chan, sec, seg)" and ?n = "dfs_get_used_n_chans iface"
  have range: "dfs_chan_range_available mode i ?n False"
    using i(3) by (simp add: dfs_candidate_def Let_def)
  note r = range_availableD [OF range]
  have n: "dfs_get_used_n_chans (?i2\<lparr>if_dfs_cac_ms := t\<rparr>) = ?n" for t
    using i(4) by (cases seg) (simp add: dfs_get_used_n_chans_def Let_def apply_channel_fields)
  have n': "dfs_get_used_n_chans ?i2 = ?n"
    using i(4) by (cases seg) (simp add: dfs_get_used_n_chans_def Let_def apply_channel_fields)
  have "check_unavailable_loop mode (int i) ?n 0 = Inr 0"
    using r assms(2) by (intro unavailable_loop_zero) (auto simp: wf_dfs_mode_def list_all_length)
  then have un: "dfs_check_chans_unavailable (?i2\<lparr>if_dfs_cac_ms := t\<rparr>) (int i) ?n = Inr 0" for t
    by (simp add: dfs_check_chans_unavailable_def current_mode_def apply_channel_fields assms(1))
  from start_idx_after_choice [OF assms(1,2) i(1,2,4,5)] show ?thesis
    by (auto simp: handle_dfs_round_def Let_def n' un fbind_Inr_iff split: if_splits)
qed

text \<open>
  C37: the DFS handler returns. When the channels of the mode have distinct numbers up to
  196 and a channel blocked by radar is a radar channel, the loop that looks for a channel
  on which the availability check can be started is left after at most two rounds,
  whatever the random numbers, the configured width and the states of the channels are.
\<close>

theorem handle_dfs_terminates:
  assumes "if_current_mode iface = Some mode" and "wf_dfs_mode mode"
  shows "hostapd_handle_dfs (rand1 # rand2 # rands) cac_result iface \<noteq> None"
proof -
  let ?i = "iface\<lparr>if_cac_started := False\<rparr>"
  have second: "handle_dfs_round rand2 iface' \<noteq> Inr (None, i2)"
    if "handle_dfs_round rand1 ?i = Inr (None, iface')" for iface' i2
  proof -
    from handle_dfs_round_next [OF that] obtain t c where
      c: "dfs_get_valid_channel (?i\<lparr>if_dfs_cac_ms := t\<rparr>) rand1 False = Some c"
      "iface' = apply_channel (?i\<lparr>if_dfs_cac_ms := t\<rparr>) c" by blast
    obtain chan sec seg where c3: "c = (chan, sec, seg)" by (cases c) auto
    have "if_current_mode (?i\<lparr>if_dfs_cac_ms := t\<rparr>) = Some mode" using assms(1) by simp
    from handle_dfs_loop_no_radar_left [OF this assms(2) c(1) [unfolded c3]] show ?thesis
      unfolding c(2) c3 .
  qed
  have "handle_dfs_loop (rand1 # rand2 # rands) ?i \<noteq> None"
    using second by (auto split: sum.split option.split)
  then show ?thesis by (auto simp: hostapd_handle_dfs_def Let_def split: sum.split)
qed

text \<open>
  A mode with a single channel gives no channel at all, even when the channel is
  available: the range test rejects a range that ends at the last channel of the mode.
\<close>

theorem dfs_single_channel_rejected:
  assumes "if_current_mode iface = Some mode" and "length (hm_channels mode) = 1"
  shows "dfs_get_valid_channel iface rand skip_radar = None"
proof -
  have "1 \<le> dfs_get_used_n_chans iface"
    by (simp add: dfs_get_used_n_chans_def Let_def split: vht_chanwidth.split)
  then have "\<not> dfs_candidate iface mode (dfs_get_used_n_chans iface) skip_radar i" for i
    using range_availableD [of mode i "dfs_get_used_n_chans iface" skip_radar] assms(2)
    by (auto simp: dfs_candidate_def Let_def)
  then have "fst (dfs_find_channel iface mode None skip_radar) = 0"
    by (simp add: dfs_find_channel_def find_loop_count)
  then show ?thesis using assms(1) by (simp add: dfs_get_valid_channel_def)
qed

section \<open>Radar events\<close>

lemma set_state_chans_keeps:
  "map chd_chan (snd (set_state_chans cs freq state)) = map chd_chan cs
   \<and> map chd_freq (snd (set_state_chans cs freq state)) = map chd_freq cs"
  by (induction cs) (auto split: prod.split)

lemma length_set_state_chans: "length (snd (set_state_chans cs freq state)) = length cs"
  using set_state_chans_keeps [of cs freq state] by (metis length_map)

definition same_channels :: "hostapd_iface \<Rightarrow> hostapd_iface \<Rightarrow> bool" where
  "same_channels a b \<longleftrightarrow> if_conf a = if_conf b \<and>
     (case (if_current_mode a, if_current_mode b) of
        (None, None) \<Rightarrow> True
      | (Some m, Some k) \<Rightarrow> hm_mode m = hm_mode k \<and> map chd_chan (hm_channels m) = map chd_chan (hm_channels k)
      | _ \<Rightarrow> False)"

lemma same_channels_trans: "same_channels a b \<Longrightarrow> same_channels b c \<Longrightarrow> same_channels a c"
  by (auto simp: same_channels_def split: option.splits)

lemma set_dfs_state_freq_same: "same_channels iface (snd (set_dfs_state_freq iface freq state))"
  using set_state_chans_keeps
  by (auto simp: same_channels_def set_dfs_state_freq_def split: option.split prod.split)
    (metis snd_conv)

lemma set_dfs_state_loop_same: "same_channels iface (snd (set_dfs_state_loop n iface freq state r))"
proof (induction n arbitrary: iface freq r)
  case 0
  then show ?case by (auto simp: same_channels_def split: option.split)
next
  case (Suc n)
  show ?case
    using same_channels_trans [OF set_dfs_state_freq_same [of iface freq state] Suc.IH]
    by (auto split: prod.split)
qed

lemma set_dfs_state_same: "same_channels iface (snd (set_dfs_state iface freq width cf1 state))"
proof (cases "if_current_mode iface")
  case None
  then show ?thesis by (simp add: set_dfs_state_def same_channels_def)
next
  case (Some mode)
  then show ?thesis
    using set_dfs_state_loop_same [of iface]
    by (auto simp: set_dfs_state_def same_channels_def [of iface iface] split: prod.split)
qed

lemma index_of_chan_cong: "map chd_chan cs = map chd_chan ds \<Longrightarrow> index_of_chan cs k = index_of_chan ds k"
proof -
  assume e: "map chd_chan cs = map chd_chan ds"
  have "length (takeWhile (\<lambda>c. chd_chan c \<noteq> k) xs) = length (takeWhile (\<lambda>c. c \<noteq> k) (map chd_chan xs))" for xs
    by (simp add: takeWhile_map comp_def)
  from this [of cs] this [of ds] e map_eq_imp_length_eq [OF e] show ?thesis
    by (simp only: index_of_chan_def)
qed

lemma start_idx_same:
  assumes "same_channels a b"
  shows "dfs_get_start_chan_idx a = dfs_get_start_chan_idx b"
proof (cases "if_current_mode a")
  case None
  with assms show ?thesis
    by (auto simp: same_channels_def dfs_get_start_chan_idx_def current_mode_def Let_def split: option.splits)
next
  case (Some m)
  with assms obtain k where k: "if_current_mode b = Some k" "map chd_chan (hm_channels m) = map chd_chan (hm_channels k)"
    "if_conf a = if_conf b" by (auto simp: same_channels_def split: option.splits)
  show ?thesis
    unfolding dfs_get_start_chan_idx_def current_mode_def Some k(1,3) Let_def option.case fbind_simps
      index_of_chan_cong [OF k(2)] ..
qed

text \<open>
  A radar event while the configured channel is not a channel of the current mode (the
  start index is then -1) makes the overlap test read the element before the channel
  array: unlike the other users of the index, it does not test for -1.
\<close>

theorem radar_event_reads_before_array:
  assumes "ic_ieee80211h (if_conf iface)" and "dfs_get_start_chan_idx iface = Inr (-1)"
  shows "\<exists>n. hostapd_dfs_radar_detected iface freq width cf1 rand1 rand2 switch_err = Inl (Bad_index n (-1))"
proof -
  let ?i = "snd (set_dfs_state iface freq width cf1 HOSTAPD_CHAN_DFS_UNAVAILABLE)"
  have idx: "dfs_get_start_chan_idx ?i = Inr (-1)"
    using start_idx_same [OF set_dfs_state_same] assms(2) by metis
  then obtain mode where mode: "if_current_mode ?i = Some mode"
    by (auto simp: dfs_get_start_chan_idx_def current_mode_def Let_def split: option.splits)
  obtain k where k: "dfs_get_used_n_chans ?i = Suc k"
    by (cases "dfs_get_used_n_chans ?i") (auto simp: dfs_get_used_n_chans_def Let_def split: vht_chanwidth.splits if_splits)
  have "dfs_check_chans_radar ?i (-1) (Suc k) = Inl (Bad_index (length (hm_channels mode)) (-1))"
    by (simp add: dfs_check_chans_radar_def current_mode_def mode chan_at_def)
  then show ?thesis
    using assms(1) by (simp add: hostapd_dfs_radar_detected_def dfs_are_channels_overlapped_def idx k Let_def)
qed

definition ex_ht40 :: "hostapd_channel_data list \<Rightarrow> hostapd_iface" where
  \<comment> \<open>40 MHz, the secondary channel above\<close>
  "ex_ht40 cs = (ex_iface (Some (ex_mode cs)))\<lparr>if_conf := ex_conf\<lparr>ic_ieee80211n := True, ic_secondary_channel := 1\<rparr>\<rparr>"

lemma dfs_valid_channel_usable_witness:
  "\<exists>seg. dfs_get_valid_channel (ex_ht40 [ex_chan 40 0, ex_chan 44 0, ex_chan 48 0, ex_chan 52 0x108]) 0 False
     = Some (ex_chan 44 0, 1, seg)"
proof -
  let ?cs = "[ex_chan 40 0, ex_chan 44 0, ex_chan 48 0, ex_chan 52 0x108]"
  let ?m = "ex_mode ?cs" and ?i = "ex_ht40 ?cs"
  have m: "if_current_mode ?i = Some ?m" "hm_mode ?m = HOSTAPD_MODE_IEEE80211A"
    by (simp_all add: ex_ht40_def ex_iface_def ex_mode_def)
  have two: "dfs_get_used_n_chans ?i = 2" by (simp add: dfs_get_used_n_chans_def ex_ht40_def ex_conf_def)
  have all2: "(\<forall>j < (2 :: nat). P j) \<longleftrightarrow> P 0 \<and> P 1" for P by (auto simp: less_2_cases_iff)
  note defs = ex_ht40_def ex_conf_def ex_mode_def ex_chan_def is_in_chanlist_def
    dfs_is_chan_allowed_def flag_set_def
  have fits: "\<not> fit_for_use ?i ?m False 0" "fit_for_use ?i ?m False 1" "\<not> fit_for_use ?i ?m False 2" "\<not> fit_for_use ?i ?m False 3"
    unfolding fit_for_use_def two Let_def all2 unfolding defs by simp_all
  have fit: "fit_for_use ?i ?m False i \<longleftrightarrow> i = 1" if "i < 4" for i
  proof -
    have "i = 0 \<or> i = 1 \<or> i = 2 \<or> i = 3" using that by linarith
    then show ?thesis using fits by (elim disjE) simp_all
  qed
  have cs: "hm_channels ?m = ?cs" by (simp add: ex_mode_def)
  have len: "length (hm_channels ?m) = 4" by (simp add: cs)
  have sec: "ic_secondary_channel (if_conf ?i) = 1" by (simp add: ex_ht40_def)
  note v = dfs_valid_channel_usable [OF m, where rand = 0 and skip_radar = False, unfolded len sec]
  show ?thesis
  proof (cases "dfs_get_valid_channel ?i 0 False")
    case None
    then have "\<forall>i < 4. \<not> fit_for_use ?i ?m False i" using v by simp
    then have "\<not> fit_for_use ?i ?m False 1" by (elim allE [of _ 1]) simp
    with fits(2) show ?thesis by simp
  next
    case (Some r)
    then show ?thesis using v fit by (auto simp: cs)
  qed
qed

lemma handle_dfs_terminates_witness:
  "hostapd_handle_dfs [0, 1] 0 (ex_iface (Some (ex_mode [ex_chan 36 0x208, ex_chan 40 0x108, ex_chan 44 0]))) \<noteq> None"
proof -
  have "wf_dfs_mode (ex_mode [ex_chan 36 0x208, ex_chan 40 0x108, ex_chan 44 0])"
    by (simp add: wf_dfs_mode_def ex_mode_def ex_chan_def flag_set_def)
  then show ?thesis
    using handle_dfs_terminates [of "ex_iface (Some (ex_mode [ex_chan 36 0x208, ex_chan 40 0x108, ex_chan 44 0]))"]
    by (simp add: ex_iface_def)
qed

lemma dfs_single_channel_rejected_witness:
  "dfs_get_valid_channel (ex_iface (Some (ex_mode [ex_chan 36 0]))) 0 False = None"
  by (rule dfs_single_channel_rejected [of _ "ex_mode [ex_chan 36 0]"]) (simp_all add: ex_iface_def ex_mode_def)

lemma radar_event_reads_before_array_witness:
  "\<exists>n. hostapd_dfs_radar_detected (ex_iface (Some (ex_mode [ex_chan 52 8]))) 5260 CHAN_WIDTH_20 5260 0 0 0
      = Inl (Bad_index n (-1))"
proof (rule radar_event_reads_before_array)
  show "ic_ieee80211h (if_conf (ex_iface (Some (ex_mode [ex_chan 52 8]))))"
    by (simp add: ex_iface_def ex_conf_def)
  show "dfs_get_start_chan_idx (ex_iface (Some (ex_mode [ex_chan 52 8]))) = Inr (-1)"
    by (simp add: dfs_get_start_chan_idx_def current_mode_def ex_iface_def ex_conf_def ex_mode_def ex_chan_def
        index_of_chan_def Let_def)
qed

end
