(* ===== verification/Ap_Elements.thy ===== *)
theory Ap_Elements
  imports Dfs
begin

text \<open>
  The elements the access point puts into beacons and probe responses: the
  \<open>hostapd_eid_...\<close> functions of \<open>ap/beacon.c\<close>, \<open>ap/ieee802_11_shared.c\<close> and
  \<open>ap/ieee802_11.c\<close>.

  A function that writes at \<open>eid\<close> and returns the position after what it wrote is modelled
  by the octets it writes; an argument \<open>len\<close> is the room the caller says there is. The
  lemmas show that each of them writes nothing or one well-formed element, which is what
  makes the frame parseable at the receiver.
\<close>

section \<open>Build configuration\<close>

text \<open>The conditional-compilation switches that change these functions.\<close>

record build_config =
  cfg_interworking :: bool
  cfg_wnm :: bool
  cfg_hs20 :: bool
  cfg_wps :: bool

definition shipped_build :: build_config where
  \<comment> \<open>\<open>hostapd/.config\<close> of the repository\<close>
  "shipped_build = \<lparr>cfg_interworking = False, cfg_wnm = False, cfg_hs20 = False, cfg_wps = False\<rparr>"

section \<open>ERP, channel and power elements (\<open>ap/beacon.c\<close>)\<close>

abbreviation (input) "ERP_INFO_NON_ERP_PRESENT \<equiv> (0x01 :: byte)"
abbreviation (input) "ERP_INFO_USE_PROTECTION \<equiv> (0x02 :: byte)"
abbreviation (input) "ERP_INFO_BARKER_PREAMBLE_MODE \<equiv> (0x04 :: byte)"

definition ieee802_11_erp_info :: "hostapd_iface \<Rightarrow> byte" where
  "ieee802_11_erp_info iface =
     (if \<not> mode_is iface HOSTAPD_MODE_IEEE80211G then 0
      else let erp = (if if_olbc iface then ERP_INFO_USE_PROTECTION else 0);
               erp = (if if_num_sta_non_erp iface > 0
                      then erp OR (ERP_INFO_NON_ERP_PRESENT OR ERP_INFO_USE_PROTECTION) else erp)
           in if if_num_sta_no_short_preamble iface > 0 \<or> ic_preamble (if_conf iface) = LONG_PREAMBLE
              then erp OR ERP_INFO_BARKER_PREAMBLE_MODE else erp)"

definition hostapd_eid_ds_params :: "hostapd_iface \<Rightarrow> byte list" where
  "hostapd_eid_ds_params iface = [WLAN_EID_DS_PARAMS, 1, ic_channel (if_conf iface)]"

definition hostapd_eid_erp_info :: "hostapd_iface \<Rightarrow> byte list" where
  "hostapd_eid_erp_info iface =
     (if \<not> mode_is iface HOSTAPD_MODE_IEEE80211G then []
      else [WLAN_EID_ERP_INFO, 1, ieee802_11_erp_info iface])"

text \<open>A failed DFS check counts as not required.\<close>

definition dfs_or_zero :: "hostapd_iface \<Rightarrow> fault + int" where
  "dfs_or_zero iface = fbind (hostapd_is_dfs_required iface) (\<lambda>dfs. Inr (if dfs < 0 then 0 else dfs))"

definition hostapd_eid_pwr_constraint :: "hostapd_iface \<Rightarrow> fault + byte list" where
  "hostapd_eid_pwr_constraint iface =
     (let c = if_conf iface in
      if \<not> mode_is iface HOSTAPD_MODE_IEEE80211A then Inr []
      else if \<not> ic_ieee80211h c \<and> ic_local_pwr_constraint c = -1 then Inr []
      else fbind (dfs_or_zero iface) (\<lambda>dfs.
        if dfs = 0 \<and> ic_local_pwr_constraint c = -1 then Inr []
        else let local_pwr_constraint = (if ic_local_pwr_constraint c = -1 then 3 else 0 :: byte) in
          Inr [WLAN_EID_PWR_CONSTRAINT, 1,
               if local_pwr_constraint \<noteq> 0 then local_pwr_constraint
               else word_of_int (ic_local_pwr_constraint c)]))"

definition hostapd_eid_country_add :: "int \<Rightarrow> int \<Rightarrow> hostapd_channel_data \<Rightarrow> hostapd_channel_data \<Rightarrow> byte list" where
  \<comment> \<open>\<open>room\<close> is \<open>end - pos\<close>\<close>
  "hostapd_eid_country_add room chan_spacing start prev =
     (if room < 3 then []
      else [word_of_int (chd_chan start),
            word_of_int (c_div (chd_chan prev - chd_chan start) chan_spacing + 1),
            chd_max_tx_power start])"

text \<open>
  The loop over the channels: \<open>grp\<close> is \<open>start\<close> with \<open>prev\<close>, \<open>out\<close> what was written after
  the country string. After the loop the last group is written.
\<close>

fun country_loop :: "int \<Rightarrow> int \<Rightarrow> hostapd_channel_data list
    \<Rightarrow> (hostapd_channel_data \<times> hostapd_channel_data) option \<Rightarrow> byte list \<Rightarrow> byte list" where
  "country_loop max_len spacing [] grp out =
     (case grp of
        None \<Rightarrow> out
      | Some (start, prev) \<Rightarrow>
          out @ hostapd_eid_country_add (max_len - 5 - int (length out)) spacing start prev)"
| "country_loop max_len spacing (chan # chans) grp out =
     (if flag_set (chd_flag chan) HOSTAPD_CHAN_DISABLED then country_loop max_len spacing chans grp out
      else (case grp of
         None \<Rightarrow> country_loop max_len spacing chans (Some (chan, chan)) out
       | Some (start, prev) \<Rightarrow>
           if chd_chan prev + spacing = chd_chan chan \<and> chd_max_tx_power start = chd_max_tx_power chan
           then country_loop max_len spacing chans (Some (start, chan)) out
           else country_loop max_len spacing chans (Some (chan, chan))
                  (out @ hostapd_eid_country_add (max_len - 5 - int (length out)) spacing start prev)))"

definition hostapd_eid_country :: "hostapd_iface \<Rightarrow> int \<Rightarrow> byte list" where
  "hostapd_eid_country iface max_len =
     (case if_current_mode iface of
        None \<Rightarrow> []
      | Some mode \<Rightarrow>
          if \<not> ic_ieee80211d (if_conf iface) \<or> max_len < 6 then []
          else let spacing = (if hm_mode mode = HOSTAPD_MODE_IEEE80211A then 4 else 1);
                   body = take 3 (ic_country (if_conf iface))
                          @ country_loop max_len spacing (hm_channels mode) None []
               in if odd (2 + length body)
                  then (if max_len - int (2 + length body) < 1 then []
                        else [WLAN_EID_COUNTRY, word_of_nat (length body + 1)] @ body @ [0])
                  else [WLAN_EID_COUNTRY, word_of_nat (length body)] @ body)"

definition hostapd_eid_wpa :: "hostapd_data \<Rightarrow> int \<Rightarrow> byte list" where
  \<comment> \<open>\<open>len\<close> is converted to \<open>size_t\<close>: a negative room is no limit\<close>
  "hostapd_eid_wpa hapd len =
     (case hd_wpa_ie hapd of
        None \<Rightarrow> []
      | Some ie \<Rightarrow> if 0 \<le> len \<and> int (length ie) > len then [] else ie)"

definition hostapd_eid_csa :: "hostapd_iface \<Rightarrow> byte list" where
  "hostapd_eid_csa iface =
     (if fp_freq (if_cs_freq_params iface) = 0 then []
      else (case ieee80211_freq_to_chan (fp_freq (if_cs_freq_params iface)) of
         (mode, chan) \<Rightarrow>
           if mode = NUM_HOSTAPD_MODES then []
           else [WLAN_EID_CHANNEL_SWITCH, 3, word_of_int (if_cs_block_tx iface), case_option 0 (\<lambda>c. c) chan,
                 if_cs_count iface]))"

definition hostapd_eid_secondary_channel :: "hostapd_iface \<Rightarrow> byte list" where
  "hostapd_eid_secondary_channel iface =
     (let off = fp_sec_channel_offset (if_cs_freq_params iface) in
      if off = 0 then []
      else if off = -1 then [62, 1, 0x03]
      else if off = 1 then [62, 1, 0x01]
      else [])"

text \<open>The octets and the value stored in the counter offset; \<open>off\<close> is \<open>pos - start\<close>.\<close>

definition hostapd_add_csa_elems :: "hostapd_iface \<Rightarrow> nat \<Rightarrow> byte list \<times> nat" where
  "hostapd_add_csa_elems iface off =
     (let csa = hostapd_eid_csa iface in
      if csa = [] then ([], 0)
      else (csa @ hostapd_eid_secondary_channel iface, off + length csa - 1))"

section \<open>Extended capabilities and interworking (\<open>ap/ieee802_11_shared.c\<close>)\<close>

abbreviation (input) "TDLS_PROHIBIT \<equiv> (0x1 :: u32)"
abbreviation (input) "TDLS_PROHIBIT_CHAN_SWITCH \<equiv> (0x2 :: u32)"

definition bit_if :: "bool \<Rightarrow> byte \<Rightarrow> byte" where
  \<comment> \<open>\<open>if (c) *pos |= v\<close> on a zero octet\<close>
  "bit_if c v = (if c then v else 0)"

definition hostapd_ext_capab_byte :: "build_config \<Rightarrow> hostapd_iface \<Rightarrow> hostapd_data \<Rightarrow> nat \<Rightarrow> byte" where
  "hostapd_ext_capab_byte b iface hapd idx =
     (let c = hd_conf hapd in
      if idx = 0 then bit_if (ic_obss_interval (if_conf iface) \<noteq> 0) 0x01
      else if idx = 2 then bit_if (bc_wnm_sleep_mode c) 0x02 OR bit_if (bc_bss_transition c) 0x08
      else if idx = 3 then
        bit_if (cfg_wnm b) 0x02 OR bit_if (bc_time_advertisement c = 2) 0x08 OR bit_if (bc_interworking c) 0x80
      else if idx = 4 then
        bit_if (bc_qos_map_set c \<noteq> []) 0x01 OR bit_if (flag_set (bc_tdls c) TDLS_PROHIBIT) 0x40
        OR bit_if (flag_set (bc_tdls c) TDLS_PROHIBIT_CHAN_SWITCH) 0x80
      else if idx = 5 then bit_if (cfg_hs20 b \<and> bc_hs20 c) 0x40
      else if idx = 6 then bit_if (ss_utf8_ssid (bc_ssid c)) 0x01
      else 0)"

text \<open>The length before the trailing zero octets are cut off; \<open>len\<close> is a \<open>u8\<close>.\<close>

definition ext_capab_len :: "build_config \<Rightarrow> hostapd_iface \<Rightarrow> hostapd_data \<Rightarrow> nat" where
  "ext_capab_len b iface hapd =
     (let c = hd_conf hapd;
          len = (if flag_set (bc_tdls c) (TDLS_PROHIBIT OR TDLS_PROHIBIT_CHAN_SWITCH) then 5 else 0);
          len = (if len < 4 \<and> bc_interworking c then 4 else len);
          len = (if len < 3 \<and> bc_wnm_sleep_mode c then 3 else len);
          len = (if len < 1 \<and> ic_obss_interval (if_conf iface) \<noteq> 0 then 1 else len);
          len = (if len < 7 \<and> ss_utf8_ssid (bc_ssid c) then 7 else len);
          len = (if cfg_wnm b \<and> len < 4 then 4 else len);
          len = (if cfg_hs20 b \<and> bc_hs20 c \<and> len < 6 then 6 else len)
      in if len < length (if_extended_capa iface) then length (if_extended_capa iface) mod 256 else len)"

definition ext_capab_octet :: "build_config \<Rightarrow> hostapd_iface \<Rightarrow> hostapd_data \<Rightarrow> nat \<Rightarrow> byte" where
  "ext_capab_octet b iface hapd i =
     (let v = hostapd_ext_capab_byte b iface hapd i in
      if i < length (if_extended_capa iface)
      then (v AND NOT (if_extended_capa_mask iface ! i)) OR if_extended_capa iface ! i
      else v)"

definition hostapd_eid_ext_capab :: "build_config \<Rightarrow> hostapd_iface \<Rightarrow> hostapd_data \<Rightarrow> byte list" where
  "hostapd_eid_ext_capab b iface hapd =
     (let len = ext_capab_len b iface hapd in
      if len = 0 then []
      else let body = rev (dropWhile (\<lambda>x. x = 0) (rev (map (ext_capab_octet b iface hapd) [0..<len]))) in
           if body = [] then [] else [WLAN_EID_EXT_CAPAB, word_of_nat (length body)] @ body)"

definition hostapd_eid_qos_map_set :: "hostapd_data \<Rightarrow> byte list" where
  "hostapd_eid_qos_map_set hapd =
     (let m = bc_qos_map_set (hd_conf hapd) in
      if m = [] then [] else [WLAN_EID_QOS_MAP_SET, word_of_nat (length m)] @ m)"

definition hostapd_eid_interworking :: "build_config \<Rightarrow> hostapd_data \<Rightarrow> byte list" where
  "hostapd_eid_interworking b hapd =
     (let c = hd_conf hapd in
      if \<not> cfg_interworking b then []
      else if \<not> bc_interworking c then []
      else let body =
         [bc_access_network_type c OR bit_if (bc_internet c) 0x10 OR bit_if (bc_asra c) 0x20
            OR bit_if (bc_esr c) 0x40 OR bit_if (bc_uesa c) 0x80]
         @ (if bc_venue_info_set c then [bc_venue_group c, bc_venue_type c] else [])
         @ (if bc_hessid c \<noteq> replicate 6 0 then take 6 (bc_hessid c) else [])
      in [WLAN_EID_INTERWORKING, word_of_nat (length body)] @ body)"

definition hostapd_eid_adv_proto :: "build_config \<Rightarrow> hostapd_data \<Rightarrow> byte list" where
  "hostapd_eid_adv_proto b hapd =
     (if \<not> cfg_interworking b then []
      else if \<not> bc_interworking (hd_conf hapd) then []
      else [WLAN_EID_ADV_PROTO, 2, 0x7F, 0])"

definition hostapd_eid_roaming_consortium :: "build_config \<Rightarrow> hostapd_data \<Rightarrow> byte list" where
  "hostapd_eid_roaming_consortium b hapd =
     (let rc = bc_roaming_consortium (hd_conf hapd); n = length rc in
      if \<not> cfg_interworking b then []
      else if \<not> bc_interworking (hd_conf hapd) \<or> n = 0 then []
      else let body =
         [if n > 3 + 255 then 255 else if n > 3 then word_of_nat (n - 3) else 0,
          word_of_nat (length (rc ! 0)) OR (if n > 1 then push_bit 4 (word_of_nat (length (rc ! 1))) else 0)]
         @ concat (take (if n > 3 then 3 else n) rc)
      in [WLAN_EID_ROAMING_CONSORTIUM, word_of_nat (length body)] @ body)"

definition hostapd_eid_time_zone :: "hostapd_data \<Rightarrow> byte list" where
  "hostapd_eid_time_zone hapd =
     (let tz = bc_time_zone (hd_conf hapd) in
      if bc_time_advertisement (hd_conf hapd) \<noteq> 2 then []
      else [WLAN_EID_TIME_ZONE, word_of_nat (length tz)] @ map ord8 tz)"

section \<open>Time advertisement\<close>

record os_tm =
  tm_sec :: int
  tm_min :: int
  tm_hour :: int
  tm_day :: int
  tm_month :: int
  tm_year :: int

definition time_adv_element :: "os_tm \<Rightarrow> byte \<Rightarrow> byte list" where
  "time_adv_element tm counter =
     [WLAN_EID_TIME_ADVERTISEMENT, 17, 2] @ put_le16 (word_of_int (tm_year tm))
     @ map word_of_int [tm_month tm, tm_day tm, tm_hour tm, tm_min tm, tm_sec tm]
     @ put_le16 0 @ [0] @ [0, 0, 0, 0, 0] @ [counter]"

text \<open>\<open>clock\<close> is \<open>None\<close> when the time cannot be read; \<open>ok\<close> is the result of the allocation.\<close>

definition hostapd_update_time_adv :: "os_tm option \<Rightarrow> bool \<Rightarrow> hostapd_data \<Rightarrow> fault + int \<times> hostapd_data" where
  "hostapd_update_time_adv clock ok hapd =
     (if bc_time_advertisement (hd_conf hapd) \<noteq> 2 then Inr (0, hapd)
      else (case clock of
         None \<Rightarrow> Inr (-1, hapd)
       | Some tm \<Rightarrow>
           let elem = time_adv_element tm (hd_time_update_counter hapd) in
           (case hd_time_adv hapd of
              None \<Rightarrow>
                (case wpabuf_alloc ok 19 of
                   None \<Rightarrow> Inr (-1, hapd)
                 | Some buf \<Rightarrow>
                     fbind (wpabuf_put_octets buf elem) (\<lambda>buf'.
                       Inr (0, hapd\<lparr>hd_time_adv := Some buf',
                                    hd_time_update_counter := hd_time_update_counter hapd + 1\<rparr>)))
            | Some buf \<Rightarrow>
                Inr (0, hapd\<lparr>hd_time_adv := Some (buf\<lparr>wb_buf := mem_write (wb_buf buf) 0 elem\<rparr>),
                             hd_time_update_counter := hd_time_update_counter hapd + 1\<rparr>))))"

definition hostapd_eid_time_adv :: "os_tm option \<Rightarrow> bool \<Rightarrow> hostapd_data \<Rightarrow> fault + byte list \<times> hostapd_data" where
  "hostapd_eid_time_adv clock ok hapd =
     (if bc_time_advertisement (hd_conf hapd) \<noteq> 2 then Inr ([], hapd)
      else fbind (if hd_time_adv hapd = None then hostapd_update_time_adv clock ok hapd else Inr (0, hapd))
        (\<lambda>(r, hapd'). if r < 0 then Inr ([], hapd')
           else (case hd_time_adv hapd' of
              None \<Rightarrow> Inr ([], hapd')
            | Some buf \<Rightarrow> Inr (wpabuf_head buf, hapd'))))"

section \<open>Rates and capabilities (\<open>ap/ieee802_11.c\<close>)\<close>

definition rate_octet :: "hostapd_rate_data \<Rightarrow> byte" where
  "rate_octet r = word_of_int (c_div (rd_rate r) 5) OR (if flag_set (rd_flags r) HOSTAPD_RATE_BASIC then 0x80 else 0)"

definition ht_required :: "hostapd_iface \<Rightarrow> bool" where
  "ht_required iface \<longleftrightarrow> ic_ieee80211n (if_conf iface) \<and> ic_require_ht (if_conf iface)"

definition vht_required :: "hostapd_iface \<Rightarrow> bool" where
  "vht_required iface \<longleftrightarrow> ic_ieee80211ac (if_conf iface) \<and> ic_require_vht (if_conf iface)"

definition num_rate_entries :: "hostapd_iface \<Rightarrow> hostapd_rate_data list \<Rightarrow> nat" where
  "num_rate_entries iface rates =
     length rates + (if ht_required iface then 1 else 0) + (if vht_required iface then 1 else 0)"

definition hostapd_eid_supp_rates :: "hostapd_iface \<Rightarrow> byte list" where
  "hostapd_eid_supp_rates iface =
     (case if_current_rates iface of
        None \<Rightarrow> []
      | Some rates \<Rightarrow>
          let num = min 8 (num_rate_entries iface rates);
              listed = take num rates; count = length listed;
              ht = ht_required iface \<and> count < 8;
              count = (if ht then count + 1 else count);
              vht = vht_required iface \<and> count < 8
          in [WLAN_EID_SUPP_RATES, word_of_nat num] @ map rate_octet listed
             @ (if ht then [0x80 OR 127] else []) @ (if vht then [0x80 OR 126] else []))"

definition hostapd_eid_ext_supp_rates :: "hostapd_iface \<Rightarrow> byte list" where
  "hostapd_eid_ext_supp_rates iface =
     (case if_current_rates iface of
        None \<Rightarrow> []
      | Some rates \<Rightarrow>
          let num = num_rate_entries iface rates in
          if num \<le> 8 then []
          else let num = num - 8;
                   seen = take (num + 8) rates; count = length seen;
                   count1 = (if ht_required iface then count + 1 else count);
                   count2 = (if vht_required iface then count1 + 1 else count1)
          in [WLAN_EID_EXT_SUPP_RATES, word_of_nat num] @ map rate_octet (drop 8 seen)
             @ (if ht_required iface \<and> count1 > 8 then [0x80 OR 127] else [])
             @ (if vht_required iface \<and> count2 > 8 then [0x80 OR 126] else []))"

text \<open>\<open>privacy\<close> as it is when the station is not consulted.\<close>

definition bss_privacy :: "hostapd_data \<Rightarrow> bool" where
  "bss_privacy hapd =
     (let c = hd_conf hapd in
      ss_wep_keys_set (bc_ssid c)
      \<or> (bc_ieee802_1x c \<and> (bc_default_wep_key_len c \<noteq> 0 \<or> bc_individual_wep_key_len c \<noteq> 0))
      \<or> bc_wpa c \<noteq> 0)"

definition sta_privacy :: "sta_info \<Rightarrow> bool \<Rightarrow> bool" where
  "sta_privacy sta probe =
     (let ssid = (if probe then (case sta_ssid_probe sta of Some s \<Rightarrow> s | None \<Rightarrow> sta_ssid sta) else sta_ssid sta);
          policy = ss_security_policy ssid;
          privacy = (policy \<noteq> SECURITY_PLAINTEXT)
      in if policy = SECURITY_IEEE_802_1X \<and> ss_wep_default_len ssid = 0 then False else privacy)"

definition hostapd_own_capab_info :: "hostapd_iface \<Rightarrow> hostapd_data \<Rightarrow> sta_info option \<Rightarrow> bool \<Rightarrow> fault + u16" where
  "hostapd_own_capab_info iface hapd sta probe =
     fbind (dfs_or_zero iface) (\<lambda>dfs.
     let capab = 0x0001 :: u16;
         capab = (if if_num_sta_no_short_preamble iface = 0 \<and> ic_preamble (if_conf iface) = SHORT_PREAMBLE
                  then capab OR 0x0020 else capab);
         privacy = (case sta of None \<Rightarrow> bss_privacy hapd | Some s \<Rightarrow> sta_privacy s probe);
         capab = (if privacy then capab OR 0x0010 else capab);
         capab = (if mode_is iface HOSTAPD_MODE_IEEE80211G \<and> if_num_sta_no_short_slot_time iface = 0
                  then capab OR 0x0400 else capab);
         capab = (if mode_is iface HOSTAPD_MODE_IEEE80211A \<and> (ic_spectrum_mgmt_required (if_conf iface) \<or> dfs \<noteq> 0)
                  then capab OR 0x0100 else capab)
     in Inr capab)"

section \<open>What is written is a sequence of elements\<close>

definition element_seq :: "byte list \<Rightarrow> bool" where
  "element_seq bs \<longleftrightarrow> (\<exists>es. list_all wf_element es \<and> bs = enc_elements es)"

named_theorems element_seq "functions that write sequences of elements"

lemma element_seq_Nil [element_seq, simp]: "element_seq []"
  by (auto simp: element_seq_def intro: exI [of _ "[]"])

lemma element_seq_append [element_seq]: "element_seq xs \<Longrightarrow> element_seq ys \<Longrightarrow> element_seq (xs @ ys)"
  unfolding element_seq_def by (metis enc_elements_append list_all_append)

lemma element_seq_one [element_seq]: "unat l = length body \<Longrightarrow> element_seq (eid # l # body)"
proof -
  assume l: "unat l = length body"
  then have "wf_element (eid, body)" using unat_byte_lt [of l] by (simp add: wf_element_def)
  moreover have "eid # l # body = enc_elements [(eid, body)]"
    by (simp add: enc_element_def l [symmetric])
  ultimately show ?thesis unfolding element_seq_def by (intro exI [of _ "[(eid, body)]"]) simp
qed

lemma element_seq_body: "length body < 256 \<Longrightarrow> element_seq (eid # word_of_nat (length body) # body)"
  by (rule element_seq_one) (simp add: unat_of_nat)

lemma ds_params_seq [element_seq]: "element_seq (hostapd_eid_ds_params iface)"
  by (simp add: hostapd_eid_ds_params_def element_seq_one)

lemma erp_info_seq [element_seq]: "element_seq (hostapd_eid_erp_info iface)"
  by (simp add: hostapd_eid_erp_info_def element_seq_one)

lemma pwr_constraint_seq [element_seq]: "hostapd_eid_pwr_constraint iface = Inr bs \<Longrightarrow> element_seq bs"
  by (auto simp: hostapd_eid_pwr_constraint_def Let_def fbind_Inr_iff element_seq_one split: if_splits)

lemma csa_seq [element_seq]: "element_seq (fst (hostapd_add_csa_elems iface off))"
proof -
  have "element_seq (hostapd_eid_csa iface)" "element_seq (hostapd_eid_secondary_channel iface)"
    by (simp_all add: hostapd_eid_csa_def hostapd_eid_secondary_channel_def Let_def element_seq_one split: prod.split)
  then show ?thesis by (simp add: hostapd_add_csa_elems_def Let_def element_seq_append)
qed

lemma ext_capab_seq [element_seq]: "element_seq (hostapd_eid_ext_capab b iface hapd)"
proof -
  let ?body = "rev (dropWhile (\<lambda>x. x = 0) (rev (map (ext_capab_octet b iface hapd) [0..<ext_capab_len b iface hapd])))"
  have "ext_capab_len b iface hapd < 256"
    by (simp add: ext_capab_len_def Let_def)
  then have "length ?body < 256"
    by (metis le_less_trans length_dropWhile_le length_map length_rev length_upt minus_nat.diff_0)
  then have "element_seq (WLAN_EID_EXT_CAPAB # word_of_nat (length ?body) # ?body)" by (rule element_seq_body)
  then show ?thesis by (simp add: hostapd_eid_ext_capab_def Let_def)
qed

lemma adv_proto_seq [element_seq]: "element_seq (hostapd_eid_adv_proto b hapd)"
  by (simp add: hostapd_eid_adv_proto_def element_seq_one)

lemma interworking_seq [element_seq]: "element_seq (hostapd_eid_interworking b hapd)"
  unfolding hostapd_eid_interworking_def Let_def append.simps
  by (intro if_split [where P = element_seq, THEN iffD2] conjI impI element_seq_Nil element_seq_body) (auto simp: min_def)

lemma time_zone_seq [element_seq]:
  "length (bc_time_zone (hd_conf hapd)) < 256 \<Longrightarrow> element_seq (hostapd_eid_time_zone hapd)"
  by (auto simp: hostapd_eid_time_zone_def Let_def unat_of_nat intro!: element_seq_one)

lemma qos_map_seq [element_seq]:
  "length (bc_qos_map_set (hd_conf hapd)) < 256 \<Longrightarrow> element_seq (hostapd_eid_qos_map_set hapd)"
  by (auto simp: hostapd_eid_qos_map_set_def Let_def unat_of_nat intro!: element_seq_one)

lemma sum_list_take_bound: "list_all (\<lambda>x. length x \<le> k) xs \<Longrightarrow> length (concat (take n xs)) \<le> n * k"
proof (induction xs arbitrary: n)
  case (Cons x xs)
  then show ?case by (cases n) (auto simp: add_mono)
qed simp

lemma roaming_consortium_seq [element_seq]:
  assumes "list_all (\<lambda>oi. length oi \<le> 15) (bc_roaming_consortium (hd_conf hapd))"
  shows "element_seq (hostapd_eid_roaming_consortium b hapd)"
proof -
  let ?rc = "bc_roaming_consortium (hd_conf hapd)"
  have "length (concat (take (if length ?rc > 3 then 3 else length ?rc) ?rc)) \<le> 3 * 15"
    using sum_list_take_bound [OF assms, of "if length ?rc > 3 then 3 else length ?rc"]
    by (auto split: if_splits)
  then show ?thesis
    unfolding hostapd_eid_roaming_consortium_def Let_def append.simps
    by (intro if_split [where P = element_seq, THEN iffD2] conjI impI element_seq_Nil element_seq_body) simp_all
qed

lemma country_loop_length:
  "length (country_loop max_len spacing chans grp out)
     \<le> length out + 3 * (length chans + (case grp of None \<Rightarrow> 0 | Some _ \<Rightarrow> 1))"
proof (induction max_len spacing chans grp out rule: country_loop.induct)
  case (1 max_len spacing grp out)
  then show ?case by (auto simp: hostapd_eid_country_add_def split: option.split)
next
  case (2 max_len spacing chan chans grp out)
  have add: "length (hostapd_eid_country_add r s a p) \<le> 3" for r s a p by (simp add: hostapd_eid_country_add_def)
  show ?case
  proof (cases "flag_set (chd_flag chan) HOSTAPD_CHAN_DISABLED")
    case True
    then show ?thesis using 2(1) by simp
  next
    case False
    show ?thesis
    proof (cases grp)
      case None
      then show ?thesis using False 2(2) by simp
    next
      case (Some sp)
      obtain s p where sp: "sp = (s, p)" by fastforce
      show ?thesis
        using False Some sp 2(3) [OF False Some [unfolded sp] refl] 2(4) [OF False Some [unfolded sp] refl]
          add [of "max_len - 5 - int (length out)" spacing s p] by auto
    qed
  qed
qed

text \<open>The room check of the country element keeps it inside the room it was given.\<close>

lemma country_loop_room:
  "int (length out) \<le> max_len - 5 \<Longrightarrow>
     int (length (country_loop max_len spacing chans grp out)) \<le> max_len - 5"
proof (induction max_len spacing chans grp out rule: country_loop.induct)
  case (1 max_len spacing grp out)
  then show ?case by (auto simp: hostapd_eid_country_add_def split: option.split)
next
  case (2 max_len spacing chan chans grp out)
  then show ?case by (auto simp: hostapd_eid_country_add_def split: option.split)
qed

lemma country_seq [element_seq]:
  assumes "\<forall>mode. if_current_mode iface = Some mode \<longrightarrow> length (hm_channels mode) \<le> 83"
  shows "element_seq (hostapd_eid_country iface max_len)"
proof (cases "if_current_mode iface")
  case None
  then show ?thesis by (simp add: hostapd_eid_country_def)
next
  case (Some mode)
  define body where "body = take 3 (ic_country (if_conf iface))
     @ country_loop max_len (if hm_mode mode = HOSTAPD_MODE_IEEE80211A then 4 else 1) (hm_channels mode) None []"
  have "length body \<le> 252"
    using country_loop_length [of max_len "if hm_mode mode = HOSTAPD_MODE_IEEE80211A then 4 else 1" "hm_channels mode" None "[]"]
      assms Some by (simp add: body_def)
  then have "element_seq (WLAN_EID_COUNTRY # word_of_nat (length body) # body)"
    "element_seq (WLAN_EID_COUNTRY # word_of_nat (length (body @ [0])) # body @ [0])"
    by (intro element_seq_body; simp)+
  then show ?thesis
    unfolding hostapd_eid_country_def Some option.case Let_def body_def [symmetric] by simp
qed

lemma supp_rates_seq [element_seq]: "element_seq (hostapd_eid_supp_rates iface)"
proof (cases "if_current_rates iface")
  case None
  then show ?thesis by (simp add: hostapd_eid_supp_rates_def)
next
  case (Some rates)
  let ?num = "min 8 (num_rate_entries iface rates)" and ?h = "ht_required iface" and ?v = "vht_required iface"
  let ?c = "length (take ?num rates)"
  define body where "body = map rate_octet (take ?num rates)
    @ (if ?h \<and> ?c < 8 then [0x80 OR 127] else [])
    @ (if ?v \<and> (if ?h \<and> ?c < 8 then ?c + 1 else ?c) < 8 then [0x80 OR 126 :: byte] else [])"
  have len: "length body = ?num"
    by (auto simp: body_def num_rate_entries_def min_def split: if_splits)
  have e: "hostapd_eid_supp_rates iface = WLAN_EID_SUPP_RATES # word_of_nat ?num # body"
    unfolding hostapd_eid_supp_rates_def Some option.case Let_def body_def append.simps by (rule refl)
  have "length body < 256" by (simp add: len)
  from element_seq_body [OF this] show ?thesis unfolding e len .
qed

lemma ext_supp_rates_seq [element_seq]:
  assumes "\<forall>rates. if_current_rates iface = Some rates \<longrightarrow> length rates \<le> 255"
  shows "element_seq (hostapd_eid_ext_supp_rates iface)"
proof (cases "if_current_rates iface")
  case None
  then show ?thesis by (simp add: hostapd_eid_ext_supp_rates_def)
next
  case (Some rates)
  let ?num = "num_rate_entries iface rates" and ?h = "ht_required iface" and ?v = "vht_required iface"
  define body where "body = map rate_octet (drop 8 rates)
    @ (if ?h \<and> length rates + 1 > 8 then [0x80 OR 127] else [])
    @ (if ?v \<and> (if ?h then length rates + 1 else length rates) + 1 > 8 then [0x80 OR 126 :: byte] else [])"
  show ?thesis
  proof (cases "?num \<le> 8")
    case True
    with Some show ?thesis by (simp add: hostapd_eid_ext_supp_rates_def Let_def)
  next
    case False
    then have len: "length body = ?num - 8"
      by (auto simp: body_def num_rate_entries_def split: if_splits)
    have "take (?num - 8 + 8) rates = rates" using False by (simp add: num_rate_entries_def)
    with False Some have e: "hostapd_eid_ext_supp_rates iface = WLAN_EID_EXT_SUPP_RATES # word_of_nat (length body) # body"
      unfolding hostapd_eid_ext_supp_rates_def len by (auto simp: body_def Let_def)
    have "length body < 256" using assms Some by (auto simp: len num_rate_entries_def)
    then show ?thesis unfolding e by (rule element_seq_body)
  qed
qed

section \<open>Time advertisement\<close>

lemma length_time_adv_element [simp]: "length (time_adv_element tm c) = 19"
  by (simp add: time_adv_element_def)

lemma time_adv_element_seq: "element_seq (time_adv_element tm c)"
proof -
  let ?body = "[2] @ put_le16 (word_of_int (tm_year tm))
     @ map word_of_int [tm_month tm, tm_day tm, tm_hour tm, tm_min tm, tm_sec tm]
     @ put_le16 0 @ [0] @ [0, 0, 0, 0, 0] @ [c]"
  have e: "time_adv_element tm c = WLAN_EID_TIME_ADVERTISEMENT # 17 # ?body" by (simp add: time_adv_element_def)
  show ?thesis unfolding e by (rule element_seq_one) simp
qed

definition time_adv_ok :: "hostapd_data \<Rightarrow> bool" where
  "time_adv_ok hapd = (case hd_time_adv hapd of
     None \<Rightarrow> True | Some b \<Rightarrow> wf_wpabuf b \<and> wb_used b = 19 \<and> element_seq (wpabuf_head b))"

lemma update_time_adv_ok:
  assumes "time_adv_ok hapd"
  shows "\<exists>r hapd'. hostapd_update_time_adv clock ok hapd = Inr (r, hapd') \<and> time_adv_ok hapd'
    \<and> hapd' = hapd\<lparr>hd_time_adv := hd_time_adv hapd', hd_time_update_counter := hd_time_update_counter hapd'\<rparr>"
proof (cases "bc_time_advertisement (hd_conf hapd) = 2 \<and> clock \<noteq> None")
  case False
  with assms show ?thesis by (auto simp: hostapd_update_time_adv_def)
next
  case True
  then obtain tm where tm: "clock = Some tm" by blast
  let ?elem = "time_adv_element tm (hd_time_update_counter hapd)"
  show ?thesis
  proof (cases "hd_time_adv hapd")
    case None
    show ?thesis
    proof (cases ok)
      case False
      with True None tm assms show ?thesis by (simp add: hostapd_update_time_adv_def wpabuf_alloc_def Let_def)
    next
      case ok: True
      obtain m where m: "wpabuf_alloc True 19 = Some m" "wf_wpabuf m" "wpabuf_head m = []" "wpabuf_tailroom m = 19"
        using wpabuf_alloc_empty by blast
      from wpabuf_put_octets_fits [OF m(2), of ?elem] m obtain b where
        b: "wpabuf_put_octets m ?elem = Inr b" "wf_wpabuf b" "wpabuf_head b = ?elem" by auto
      then have "wb_used b = 19" using length_wpabuf_head [OF b(2)] by (simp add: wpabuf_len_def)
      with True None tm ok m b show ?thesis
        by (auto simp: hostapd_update_time_adv_def Let_def time_adv_ok_def time_adv_element_seq)
    qed
  next
    case (Some b)
    with assms have b: "wf_wpabuf b" "wb_used b = 19" by (simp_all add: time_adv_ok_def)
    then have len: "0 + length ?elem \<le> length (wb_buf b)" by (simp add: wf_wpabuf_def)
    have "wpabuf_head (b\<lparr>wb_buf := mem_write (wb_buf b) 0 ?elem\<rparr>) = ?elem"
      using take_mem_write [OF len] b by (simp add: wpabuf_head_def)
    moreover have "wf_wpabuf (b\<lparr>wb_buf := mem_write (wb_buf b) 0 ?elem\<rparr>)"
      using length_mem_write [OF len] b by (simp add: wf_wpabuf_def)
    ultimately show ?thesis using True tm Some b
      by (simp add: hostapd_update_time_adv_def Let_def time_adv_ok_def time_adv_element_seq)
  qed
qed

lemma time_adv_seq:
  assumes "time_adv_ok hapd"
  shows "\<exists>bs hapd'. hostapd_eid_time_adv clock ok hapd = Inr (bs, hapd') \<and> element_seq bs \<and> length bs \<le> 19
    \<and> time_adv_ok hapd'
    \<and> hapd' = hapd\<lparr>hd_time_adv := hd_time_adv hapd', hd_time_update_counter := hd_time_update_counter hapd'\<rparr>"
proof (cases "bc_time_advertisement (hd_conf hapd) = 2")
  case False
  with assms show ?thesis by (simp add: hostapd_eid_time_adv_def)
next
  case True
  obtain r h where h: "(if hd_time_adv hapd = None then hostapd_update_time_adv clock ok hapd else Inr (0, hapd)) = Inr (r, h)"
    "time_adv_ok h" "h = hapd\<lparr>hd_time_adv := hd_time_adv h, hd_time_update_counter := hd_time_update_counter h\<rparr>"
    using update_time_adv_ok [OF assms, of clock ok] assms by (cases "hd_time_adv hapd = None") auto
  have "hostapd_eid_time_adv clock ok hapd =
      (if r < 0 then Inr ([], h) else case hd_time_adv h of None \<Rightarrow> Inr ([], h) | Some buf \<Rightarrow> Inr (wpabuf_head buf, h))"
    using True by (simp add: hostapd_eid_time_adv_def h(1))
  with h(2,3) show ?thesis
    by (auto simp: time_adv_ok_def wpabuf_len_def split: option.split)
qed

section \<open>Rates\<close>

definition all_rate_octets :: "hostapd_iface \<Rightarrow> hostapd_rate_data list \<Rightarrow> byte list" where
  "all_rate_octets iface rates = map rate_octet rates
     @ (if ht_required iface then [0x80 OR 127] else []) @ (if vht_required iface then [0x80 OR 126] else [])"

text \<open>
  The rates are advertised completely. The two rate elements together carry every rate
  of the current mode in order, followed by the membership selectors that the
  configuration requires: the first eight entries in the first element, the others, if
  any, in the extended element.
\<close>

theorem rates_advertised:
  assumes "if_current_rates iface = Some rates" and "length rates \<le> 255"
  shows "hostapd_eid_supp_rates iface @ hostapd_eid_ext_supp_rates iface =
    enc_elements ((WLAN_EID_SUPP_RATES, take 8 (all_rate_octets iface rates)) #
      (if length (all_rate_octets iface rates) \<le> 8 then []
       else [(WLAN_EID_EXT_SUPP_RATES, drop 8 (all_rate_octets iface rates))]))"
proof -
  let ?all = "all_rate_octets iface rates"
  have n: "num_rate_entries iface rates = length ?all"
    by (simp add: num_rate_entries_def all_rate_octets_def)
  have "hostapd_eid_supp_rates iface = WLAN_EID_SUPP_RATES # word_of_nat (min 8 (length ?all)) # take 8 ?all"
    using assms(1)
    by (auto simp: hostapd_eid_supp_rates_def Let_def n [symmetric] num_rate_entries_def all_rate_octets_def
        take_map min_def not_less split: if_splits)
  moreover have "hostapd_eid_ext_supp_rates iface =
      (if length ?all \<le> 8 then [] else WLAN_EID_EXT_SUPP_RATES # word_of_nat (length ?all - 8) # drop 8 ?all)"
    using assms(1)
    by (auto simp: hostapd_eid_ext_supp_rates_def Let_def n [symmetric] num_rate_entries_def all_rate_octets_def
        drop_map not_le)
  ultimately show ?thesis by (simp add: enc_element_def min.commute)
qed

section \<open>Country element\<close>

fun expand_triplets :: "int \<Rightarrow> byte list \<Rightarrow> (int \<times> byte) list" where
  "expand_triplets spacing (first # num # pw # rest) =
     map (\<lambda>k. (uint first + int k * spacing, pw)) [0..<unat num] @ expand_triplets spacing rest"
| "expand_triplets spacing _ = []"

definition enabled_channels :: "hostapd_channel_data list \<Rightarrow> hostapd_channel_data list" where
  "enabled_channels = filter (\<lambda>c. \<not> flag_set (chd_flag c) HOSTAPD_CHAN_DISABLED)"

lemma uint_octet: "0 \<le> k \<Longrightarrow> k < 256 \<Longrightarrow> uint (word_of_int k :: byte) = k"
  by (rule octet_of_int)

lemma expand_one:
  assumes "1 \<le> chd_chan s" "chd_chan p < 256" "chd_chan p = chd_chan s + int k * spacing" "0 < spacing" "3 \<le> room"
  shows "expand_triplets spacing (hostapd_eid_country_add room spacing s p @ rest) =
    map (\<lambda>k. (chd_chan s + int k * spacing, chd_max_tx_power s)) [0..<Suc k] @ expand_triplets spacing rest"
proof -
  have "int k \<le> int k * spacing" using assms(4) mult_left_mono [of 1 spacing "int k"] by simp
  then have k: "int k + 1 < 256" "chd_chan s < 256" using assms by auto
  have "c_div (chd_chan p - chd_chan s) spacing = int k"
    using assms(3,4) by (auto simp: c_div_def mult_less_0_iff)
  moreover have "unat (word_of_int (int k + 1) :: byte) = Suc k"
    using uint_octet [of "int k + 1"] k(1) by (simp add: unat_eq_nat_uint)
  moreover have "uint (word_of_int (chd_chan s) :: byte) = chd_chan s"
    using uint_octet k(2) assms(1) by simp
  ultimately show ?thesis using assms(5)
    unfolding hostapd_eid_country_add_def by (simp del: upt_Suc)
qed

lemma length_country_add: "length (hostapd_eid_country_add room spacing s p) \<le> 3"
  by (simp add: hostapd_eid_country_add_def)

lemma country_loop_expand:
  assumes "0 < spacing" and "\<forall>c \<in> set chans. 1 \<le> chd_chan c \<and> chd_chan c < 256"
    and "int (length out) + 3 * int (length chans + (case grp of None \<Rightarrow> 0 | Some _ \<Rightarrow> 1)) \<le> max_len - 5"
    and "\<forall>s p. grp = Some (s, p) \<longrightarrow> 1 \<le> chd_chan s \<and> chd_chan p < 256 \<and> (\<exists>k. chd_chan p = chd_chan s + int k * spacing)"
  shows "\<exists>rest. country_loop max_len spacing chans grp out = out @ rest
    \<and> expand_triplets spacing rest =
        (case grp of None \<Rightarrow> [] | Some (s, p) \<Rightarrow>
           map (\<lambda>k. (chd_chan s + int k * spacing, chd_max_tx_power s))
             [0..<Suc (nat ((chd_chan p - chd_chan s) div spacing))])
        @ map (\<lambda>c. (chd_chan c, chd_max_tx_power c)) (enabled_channels chans)"
  using assms(2-)
proof (induction chans arbitrary: grp out)
  case Nil
  show ?case
  proof (cases grp)
    case None
    then show ?thesis by (simp add: enabled_channels_def)
  next
    case (Some sp)
    obtain s p where sp: "sp = (s, p)" by fastforce
    obtain k where k: "1 \<le> chd_chan s" "chd_chan p < 256" "chd_chan p = chd_chan s + int k * spacing"
      using Nil(3) Some sp by blast
    have room: "3 \<le> max_len - 5 - int (length out)" using Nil(2) Some by simp
    have d: "nat ((chd_chan p - chd_chan s) div spacing) = k" using k(3) assms(1) by simp
    from expand_one [OF k assms(1) room, of "[]"] show ?thesis
      by (simp add: Some sp d enabled_channels_def del: upt_Suc)
  qed
next
  case (Cons c chans)
  have c: "1 \<le> chd_chan c" "chd_chan c < 256" and cs: "\<forall>c \<in> set chans. 1 \<le> chd_chan c \<and> chd_chan c < 256"
    using Cons.prems(1) by simp_all
  show ?case
  proof (cases "flag_set (chd_flag c) HOSTAPD_CHAN_DISABLED")
    case True
    from Cons.IH [OF cs _ Cons.prems(3), of out] Cons.prems(2) True show ?thesis
      by (simp add: enabled_channels_def)
  next
    case False
    show ?thesis
    proof (cases grp)
      case None
      have "\<forall>s p. Some (c, c) = Some (s, p) \<longrightarrow> 1 \<le> chd_chan s \<and> chd_chan p < 256 \<and> (\<exists>k. chd_chan p = chd_chan s + int k * spacing)"
        using c by (auto intro: exI [of _ 0])
      from Cons.IH [OF cs _ this, of out] Cons.prems(2) False None show ?thesis
        by (simp add: enabled_channels_def)
    next
      case (Some sp)
      obtain s p where sp: "sp = (s, p)" by fastforce
      obtain k where k: "1 \<le> chd_chan s" "chd_chan p < 256" "chd_chan p = chd_chan s + int k * spacing"
        using Cons.prems(3) Some sp by blast
      have d: "nat ((chd_chan p - chd_chan s) div spacing) = k" using k(3) assms(1) by simp
      show ?thesis
      proof (cases "chd_chan p + spacing = chd_chan c \<and> chd_max_tx_power s = chd_max_tx_power c")
        case True
        then have c_k: "chd_chan c = chd_chan s + int (Suc k) * spacing"
          using k(3) by (simp add: algebra_simps)
        then have d': "nat ((chd_chan c - chd_chan s) div spacing) = Suc k" using assms(1) by simp
        have "\<forall>s' p'. Some (s, c) = Some (s', p') \<longrightarrow> 1 \<le> chd_chan s' \<and> chd_chan p' < 256 \<and> (\<exists>k. chd_chan p' = chd_chan s' + int k * spacing)"
          using c k(1) c_k by (auto simp del: of_nat_Suc)
        from Cons.IH [OF cs _ this, of out] Cons.prems(2) Some have
          "\<exists>rest. country_loop max_len spacing chans (Some (s, c)) out = out @ rest
            \<and> expand_triplets spacing rest = map (\<lambda>k. (chd_chan s + int k * spacing, chd_max_tx_power s)) [0..<Suc (Suc k)]
              @ map (\<lambda>c. (chd_chan c, chd_max_tx_power c)) (enabled_channels chans)"
          by (simp add: d' del: upt_Suc)
        moreover have "(case grp of None \<Rightarrow> [] | Some (s, p) \<Rightarrow>
            map (\<lambda>k. (chd_chan s + int k * spacing, chd_max_tx_power s)) [0..<Suc (nat ((chd_chan p - chd_chan s) div spacing))])
          = map (\<lambda>k. (chd_chan s + int k * spacing, chd_max_tx_power s)) [0..<Suc k]"
          by (simp only: Some sp option.case prod.case d)
        moreover have "map (\<lambda>c. (chd_chan c, chd_max_tx_power c)) (enabled_channels (c # chans))
          = (chd_chan s + int (Suc k) * spacing, chd_max_tx_power s) # map (\<lambda>c. (chd_chan c, chd_max_tx_power c)) (enabled_channels chans)"
          using False True c_k by (simp add: enabled_channels_def)
        moreover have "country_loop max_len spacing (c # chans) grp out = country_loop max_len spacing chans (Some (s, c)) out"
          using False True by (simp add: Some sp)
        ultimately show ?thesis by (simp del: of_nat_Suc)
      next
        case split: False
        let ?add = "hostapd_eid_country_add (max_len - 5 - int (length out)) spacing s p"
        have room: "3 \<le> max_len - 5 - int (length out)" using Cons.prems(2) Some by simp
        have "\<forall>s p. Some (c, c) = Some (s, p) \<longrightarrow> 1 \<le> chd_chan s \<and> chd_chan p < 256 \<and> (\<exists>k. chd_chan p = chd_chan s + int k * spacing)"
          using c by (auto intro: exI [of _ 0])
        from Cons.IH [OF cs _ this, of "out @ ?add"] Cons.prems(2) Some
          length_country_add [of "max_len - 5 - int (length out)" spacing s p]
        obtain rest where rest: "country_loop max_len spacing chans (Some (c, c)) (out @ ?add) = (out @ ?add) @ rest"
          "expand_triplets spacing rest = (chd_chan c, chd_max_tx_power c) #
              map (\<lambda>c. (chd_chan c, chd_max_tx_power c)) (enabled_channels chans)" by auto
        from expand_one [OF k assms(1) room, of rest] rest split False Some sp show ?thesis
          by (auto simp: d enabled_channels_def simp del: upt_Suc)
      qed
    qed
  qed
qed

text \<open>
  The country element lists the regulatory domain exactly. Given room, expanding its
  triplets (first channel, number of channels, power) gives the enabled channels of the
  mode, in order, each with its own power limit; no disabled channel is announced.
\<close>

theorem country_lists_enabled_channels:
  assumes "if_current_mode iface = Some mode" and "ic_ieee80211d (if_conf iface)" and "length (ic_country (if_conf iface)) = 3"
    and "\<forall>c \<in> set (hm_channels mode). 1 \<le> chd_chan c \<and> chd_chan c < 256"
    and "6 + 3 * int (length (hm_channels mode)) \<le> max_len"
  shows "\<exists>l triplets pad. hostapd_eid_country iface max_len =
      WLAN_EID_COUNTRY # l # ic_country (if_conf iface) @ triplets @ pad
    \<and> pad \<in> {[], [0]} \<and> even (length (hostapd_eid_country iface max_len))
    \<and> expand_triplets (if hm_mode mode = HOSTAPD_MODE_IEEE80211A then 4 else 1) triplets =
        map (\<lambda>c. (chd_chan c, chd_max_tx_power c)) (enabled_channels (hm_channels mode))"
proof -
  let ?sp = "if hm_mode mode = HOSTAPD_MODE_IEEE80211A then 4 else 1 :: int"
  let ?body = "country_loop max_len ?sp (hm_channels mode) None []"
  have "0 < ?sp" by simp
  from country_loop_expand [OF this assms(4), of "[]" None max_len] assms(5) have
    e: "expand_triplets ?sp ?body = map (\<lambda>c. (chd_chan c, chd_max_tx_power c)) (enabled_channels (hm_channels mode))"
    by auto
  have room: "int (length ?body) \<le> max_len - 6"
    using country_loop_length [of max_len ?sp "hm_channels mode" None "[]"] assms(5) by simp
  have "hostapd_eid_country iface max_len =
     (if odd (2 + (3 + length ?body)) then WLAN_EID_COUNTRY # word_of_nat (3 + length ?body + 1) # ic_country (if_conf iface) @ ?body @ [0]
      else WLAN_EID_COUNTRY # word_of_nat (3 + length ?body) # ic_country (if_conf iface) @ ?body @ [])"
    using assms(1,2,3,5) room by (simp add: hostapd_eid_country_def Let_def)
  note c = this
  have pad: "\<exists>l triplets pad. hostapd_eid_country iface max_len =
      WLAN_EID_COUNTRY # l # ic_country (if_conf iface) @ triplets @ pad
    \<and> pad \<in> {[], [0]} \<and> even (length (hostapd_eid_country iface max_len))
    \<and> expand_triplets ?sp triplets = map (\<lambda>c. (chd_chan c, chd_max_tx_power c)) (enabled_channels (hm_channels mode))"
    if "hostapd_eid_country iface max_len = WLAN_EID_COUNTRY # l # ic_country (if_conf iface) @ ?body @ pad"
      "pad \<in> {[], [0]}" "even (length (hostapd_eid_country iface max_len))" for l pad
    using that e by blast
  show ?thesis
  proof (cases "odd (2 + (3 + length ?body))")
    case True
    show ?thesis by (rule pad [of "word_of_nat (3 + length ?body + 1)" "[0]"]) (use c True assms(3) in auto)
  next
    case False
    show ?thesis by (rule pad [of "word_of_nat (3 + length ?body)" "[]"]) (use c False assms(3) in auto)
  qed
qed

section \<open>Extended capabilities\<close>

text \<open>
  A capability that is configured but not among those that set the length of the
  extended capabilities element is not advertised. With BSS transition, time advertisement
  or a QoS map alone, and no capabilities from the driver, no element is sent at all.
\<close>

theorem ext_capab_not_advertised:
  assumes "if_extended_capa iface = []" and "ic_obss_interval (if_conf iface) = 0"
    and "bc_tdls (hd_conf hapd) = 0" and "\<not> bc_interworking (hd_conf hapd)"
    and "\<not> bc_wnm_sleep_mode (hd_conf hapd)" and "\<not> ss_utf8_ssid (bc_ssid (hd_conf hapd))"
  shows "hostapd_eid_ext_capab shipped_build iface hapd = []
    \<and> (bc_bss_transition (hd_conf hapd) \<longrightarrow> hostapd_ext_capab_byte shipped_build iface hapd 2 = 0x08)
    \<and> (bc_time_advertisement (hd_conf hapd) = 2 \<longrightarrow> hostapd_ext_capab_byte shipped_build iface hapd 3 = 0x08)
    \<and> (bc_qos_map_set (hd_conf hapd) \<noteq> [] \<longrightarrow> hostapd_ext_capab_byte shipped_build iface hapd 4 = 0x01)"
  using assms
  by (simp add: hostapd_eid_ext_capab_def ext_capab_len_def hostapd_ext_capab_byte_def shipped_build_def
      flag_set_def Let_def bit_if_def)

lemma rates_advertised_witness:
  "hostapd_eid_supp_rates (ex_iface None) @ hostapd_eid_ext_supp_rates (ex_iface None) = [1, 1, 140]"
  using rates_advertised [of "ex_iface None" "[\<lparr>rd_rate = 60, rd_flags = 1\<rparr>]"]
  by (simp add: ex_iface_def ex_conf_def all_rate_octets_def rate_octet_def ht_required_def vht_required_def
      enc_element_def flag_set_def c_div_def Let_def)

lemma country_lists_enabled_channels_witness:
  "\<exists>l triplets pad. hostapd_eid_country (ex_iface (Some (ex_mode [ex_chan 36 0, ex_chan 40 0, ex_chan 48 1]))) 60
      = WLAN_EID_COUNTRY # l # [85, 83, 32] @ triplets @ pad
    \<and> expand_triplets 4 triplets = [(36, 20), (40, 20)]"
proof -
  let ?m = "ex_mode [ex_chan 36 0, ex_chan 40 0, ex_chan 48 1]"
  have e: "map (\<lambda>c. (chd_chan c, chd_max_tx_power c)) (enabled_channels (hm_channels ?m)) = [(36, 20), (40, 20)]"
    by (simp add: ex_mode_def ex_chan_def enabled_channels_def flag_set_def)
  have "\<exists>l triplets pad. hostapd_eid_country (ex_iface (Some ?m)) 60 =
      WLAN_EID_COUNTRY # l # ic_country (if_conf (ex_iface (Some ?m))) @ triplets @ pad
    \<and> pad \<in> {[], [0]} \<and> even (length (hostapd_eid_country (ex_iface (Some ?m)) 60))
    \<and> expand_triplets (if hm_mode ?m = HOSTAPD_MODE_IEEE80211A then 4 else 1) triplets =
        map (\<lambda>c. (chd_chan c, chd_max_tx_power c)) (enabled_channels (hm_channels ?m))"
    by (rule country_lists_enabled_channels) (simp_all add: ex_iface_def ex_conf_def ex_mode_def ex_chan_def)
  moreover have "ic_country (if_conf (ex_iface (Some ?m))) = [85, 83, 32]" "hm_mode ?m = HOSTAPD_MODE_IEEE80211A"
    by (simp_all add: ex_iface_def ex_conf_def ex_mode_def)
  ultimately show ?thesis unfolding e by (auto simp only: simp_thms if_True) 
qed

lemma ext_capab_not_advertised_witness:
  "hostapd_eid_ext_capab shipped_build (ex_iface None) ex_hapd = []
    \<and> hostapd_ext_capab_byte shipped_build (ex_iface None) ex_hapd 2 = 0x08"
  using ext_capab_not_advertised [of "ex_iface None" ex_hapd]
  by (simp add: ex_iface_def ex_conf_def ex_hapd_def ex_bss_def)

end
