(* ===== verification/Wmm.thy ===== *)
theory Wmm
  imports Ap_Elements
begin

text \<open>
  WMM of the access point, \<open>ap/wmm.c\<close>: the parameter element it broadcasts, the check of a
  station's information element, and the answer to a traffic specification (TSPEC) that a
  station asks to be admitted.

  A frame is the list of its octets; \<open>mgmt->sa\<close> is at offset 10, the body of an action
  frame at 24. A \<open>wmm_tspec_element\<close> is the list of its 63 octets. \<open>int\<close> products are
  computed exactly and a product outside the range of \<open>int\<close>, which C leaves undefined, is
  the fault \<open>Int_overflow\<close>. A frame handed to the driver is a result of the function.
\<close>

abbreviation (input) "WLAN_ACTION_WMM \<equiv> (17 :: byte)"
abbreviation (input) "WMM_VERSION \<equiv> (1 :: byte)"
abbreviation (input) "WMM_ACTION_CODE_ADDTS_REQ \<equiv> (0 :: byte)"
abbreviation (input) "WMM_ACTION_CODE_ADDTS_RESP \<equiv> (1 :: byte)"
abbreviation (input) "WMM_ADDTS_STATUS_ADMISSION_ACCEPTED \<equiv> (0 :: byte)"
abbreviation (input) "WMM_ADDTS_STATUS_INVALID_PARAMETERS \<equiv> (1 :: byte)"
abbreviation (input) "WMM_ADDTS_STATUS_REFUSED \<equiv> (3 :: byte)"
abbreviation (input) "WPA_DRIVER_FLAGS_AP_UAPSD \<equiv> (0x00400000 :: u32)"
abbreviation (input) "WLAN_STA_ASSOC \<equiv> (0x0002 :: u32)"
abbreviation (input) "WLAN_STA_WMM \<equiv> (0x0200 :: u32)"
abbreviation (input) "IEEE80211_HDRLEN \<equiv> (24 :: nat)"
abbreviation (input) "WLAN_FC_STYPE_ACTION \<equiv> (13 :: u16)"

section \<open>The parameter element\<close>

definition wmm_aci_aifsn :: "int \<Rightarrow> int \<Rightarrow> nat \<Rightarrow> byte" where
  "wmm_aci_aifsn aifsn acm aci =
     (let ret = word_of_int aifsn AND 0x0f;
          ret = (if acm \<noteq> 0 then ret OR 0x10 else ret)
      in ret OR (push_bit 5 (word_of_nat aci) AND 0x60))"

definition wmm_ecw :: "int \<Rightarrow> int \<Rightarrow> byte" where
  "wmm_ecw ecwmin ecwmax = (word_of_int ecwmin AND 0x0f) OR (push_bit 4 (word_of_int ecwmax) AND 0xf0)"

definition wmm_ac_record :: "hostapd_iface \<Rightarrow> nat \<Rightarrow> byte list" where
  \<comment> \<open>\<open>ac[e]\<close>, one round of the loop\<close>
  "wmm_ac_record iface e =
     (let acp = ic_wmm_ac_params (if_conf iface) ! e in
      wmm_aci_aifsn (ac_aifs acp) (ac_acm acp) e # wmm_ecw (ac_cwmin acp) (ac_cwmax acp)
        # put_le16 (word_of_int (ac_txop_limit acp)))"

definition wmm_qos_info :: "hostapd_iface \<Rightarrow> hostapd_data \<Rightarrow> byte" where
  "wmm_qos_info iface hapd =
     (let qos = word_of_int (hd_parameter_set_count hapd) AND 0xf in
      if bc_wmm_uapsd (hd_conf hapd) \<and> flag_set (if_drv_flags iface) WPA_DRIVER_FLAGS_AP_UAPSD
      then qos OR 0x80 else qos)"

definition hostapd_eid_wmm :: "hostapd_iface \<Rightarrow> hostapd_data \<Rightarrow> byte list" where
  "hostapd_eid_wmm iface hapd =
     (if \<not> bc_wmm_enabled (hd_conf hapd) then []
      else [WLAN_EID_VENDOR_SPECIFIC, 24, 0x00, 0x50, 0xf2, WMM_OUI_TYPE,
            WMM_OUI_SUBTYPE_PARAMETER_ELEMENT, WMM_VERSION, wmm_qos_info iface hapd, 0]
           @ concat (map (wmm_ac_record iface) [0..<4]))"

section \<open>A station's information element\<close>

definition hostapd_eid_wmm_valid :: "byte list \<Rightarrow> bool" where
  "hostapd_eid_wmm_valid eid =
     (if length eid < 7 then False
      else if eid ! 4 \<noteq> WMM_OUI_SUBTYPE_INFORMATION_ELEMENT \<or> eid ! 5 \<noteq> WMM_VERSION then False
      else True)"

section \<open>Traffic specifications\<close>

definition ts_nominal_msdu_size :: "byte list \<Rightarrow> u16" where
  "ts_nominal_msdu_size tspec = get_le16 tspec 11"

definition ts_mean_data_rate :: "byte list \<Rightarrow> u32" where
  "ts_mean_data_rate tspec = get_le32 tspec 39"

definition ts_minimum_phy_rate :: "byte list \<Rightarrow> u32" where
  "ts_minimum_phy_rate tspec = get_le32 tspec 55"

definition ts_surplus :: "byte list \<Rightarrow> u16" where
  "ts_surplus tspec = get_le16 tspec 59"

definition set_medium_time :: "byte list \<Rightarrow> u16 \<Rightarrow> byte list" where
  "set_medium_time tspec v = take 61 tspec @ put_le16 v @ drop 63 tspec"

definition c_int_mult :: "int \<Rightarrow> int \<Rightarrow> fault + int" where
  "c_int_mult a b = (if - (2 ^ 31) \<le> a * b \<and> a * b < 2 ^ 31 then Inr (a * b) else Inl Int_overflow)"

text \<open>
  The unsigned divisions are those of \<open>u32\<close>, which wraps. The result is the status and the
  element, in which the medium time is filled in when the request is accepted.
\<close>

definition wmm_process_tspec :: "byte list \<Rightarrow> fault + byte \<times> byte list" where
  "wmm_process_tspec tspec =
     (let val = ts_nominal_msdu_size tspec in
      if val = 0 then Inr (WMM_ADDTS_STATUS_INVALID_PARAMETERS, tspec)
      else let pps = sint ((ts_mean_data_rate tspec div 8 + ucast val - 1) div ucast val) in
      if ts_minimum_phy_rate tspec < 1000000 then Inr (WMM_ADDTS_STATUS_INVALID_PARAMETERS, tspec)
      else let duration = sint ((ucast (val AND 0x7fff) * 8) div (ts_minimum_phy_rate tspec div 1000000) + 50);
               surplus = ts_surplus tspec in
      if surplus \<le> 0x2000 then Inr (WMM_ADDTS_STATUS_INVALID_PARAMETERS, tspec)
      else fbind (c_int_mult (uint surplus) pps) (\<lambda>p.
           fbind (c_int_mult p duration) (\<lambda>p.
             let medium_time = c_div p 0x2000 in
             if medium_time > 750000 then Inr (WMM_ADDTS_STATUS_REFUSED, tspec)
             else Inr (WMM_ADDTS_STATUS_ADMISSION_ACCEPTED,
                       set_medium_time tspec (word_of_int (c_div medium_time 32))))))"

section \<open>Action frames\<close>

definition wmm_send_action :: "hostapd_data \<Rightarrow> byte list \<Rightarrow> byte list \<Rightarrow> byte \<Rightarrow> byte \<Rightarrow> byte \<Rightarrow> byte list" where
  \<comment> \<open>the frame given to \<open>hostapd_drv_send_mlme\<close>\<close>
  "wmm_send_action hapd addr tspec action_code dialogue_token status_code =
     put_le16 (IEEE80211_FC WLAN_FC_TYPE_MGMT WLAN_FC_STYPE_ACTION) @ [0, 0]
     @ addr @ hd_own_addr hapd @ hd_own_addr hapd @ [0, 0]
     @ [WLAN_ACTION_WMM, action_code, dialogue_token, status_code] @ tspec"

text \<open>\<open>tspec\<close> is the part of the frame from the element on, as far as the element goes.\<close>

definition wmm_addts_req :: "hostapd_data \<Rightarrow> byte list \<Rightarrow> byte list \<Rightarrow> fault + byte list option" where
  "wmm_addts_req hapd mgmt tspec =
     (if 63 > length tspec then Inr None
      else fbind (wmm_process_tspec tspec) (\<lambda>(res, tspec).
        Inr (Some (wmm_send_action hapd (take 6 (drop 10 mgmt)) tspec WMM_ACTION_CODE_ADDTS_RESP (mgmt ! 26) res))))"

text \<open>
  \<open>left\<close> is an \<open>int\<close>; the parser takes a \<open>size_t\<close>, so a negative value becomes a length of
  nearly the whole address space and the parser reads on from the end of the frame.
\<close>

definition hostapd_wmm_action :: "hostapd_data \<Rightarrow> byte list \<Rightarrow> fault + byte list option" where
  "hostapd_wmm_action hapd mgmt =
     (let len = length mgmt; left = int len - int IEEE80211_HDRLEN - 4 in
      if len < 16 then Inl (Read_past_end len 16)
      else case ap_get_sta hapd (take 6 (drop 10 mgmt)) of
        None \<Rightarrow> Inr None
      | Some sta \<Rightarrow>
          if sta_flags sta AND (WLAN_STA_ASSOC OR WLAN_STA_WMM) \<noteq> WLAN_STA_ASSOC OR WLAN_STA_WMM then Inr None
          else if left < 0 then Inl (Read_past_end len (IEEE80211_HDRLEN + 4 + 1))
          else case ieee802_11_parse_elems (drop (IEEE80211_HDRLEN + 4) mgmt) of
            (ParseFailed, _) \<Rightarrow> Inr None
          | (_, elems) \<Rightarrow>
              (case el_wmm_tspec elems of
                 None \<Rightarrow> Inr None
               | Some body \<Rightarrow>
                   if length body \<noteq> 63 - 2 then Inr None
                   else if mgmt ! 25 = WMM_ACTION_CODE_ADDTS_REQ
                   then wmm_addts_req hapd mgmt ([WLAN_EID_VENDOR_SPECIFIC, word_of_nat (length body)] @ body)
                   else Inr None))"

section \<open>The parameter element\<close>

definition wmm_record_of :: "byte list \<Rightarrow> nat \<Rightarrow> int \<times> int \<times> int \<times> int \<times> int \<times> int" where
  \<comment> \<open>a receiver's reading of the record of access category \<open>e\<close>: ACI, ACM, AIFSN, ECWmin, ECWmax, TXOP limit\<close>
  "wmm_record_of body e =
     (let b = drop (8 + 4 * e) body in
      (uint (drop_bit 5 (b ! 0) AND 3), (if bit (b ! 0) 4 then 1 else 0), uint (b ! 0 AND 0x0f),
       uint (b ! 1 AND 0x0f), uint (drop_bit 4 (b ! 1)), uint (get_le16 b 2)))"

lemma low_nibble: "uint (word_of_int k AND 0x0f :: byte) = k mod 16"
proof -
  have "(word_of_int k AND 0x0f :: byte) = word_of_int k mod 16"
    using take_bit_eq_mask [of 4 "word_of_int k :: byte"]
    by (simp add: take_bit_eq_mod mask_eq_exp_minus_1)
  then show ?thesis by (simp add: uint_mod uint_word_of_int mod_mod_cancel)
qed

lemma aci_aifsn_fields:
  assumes "e < 4" and "acm \<in> {0, 1}"
  shows "uint (drop_bit 5 (wmm_aci_aifsn k acm e) AND 3) = int e"
    and "(if bit (wmm_aci_aifsn k acm e) 4 then 1 else 0) = acm"
    and "uint (wmm_aci_aifsn k acm e AND 0x0f) = k mod 16"
proof -
  have e: "e \<in> {0, 1, 2, 3}" using assms(1) by auto
  have f: "drop_bit 5 (wmm_aci_aifsn k acm e) AND 3 = word_of_nat e \<and> (bit (wmm_aci_aifsn k acm e) 4 \<longleftrightarrow> acm = 1)
    \<and> wmm_aci_aifsn k acm e AND 0x0f = word_of_int k AND 0x0f"
    using e assms(2)
    by (auto simp: wmm_aci_aifsn_def Let_def drop_bit_and drop_bit_or word_ao_dist bit_or_iff bit_and_iff and.assoc)
  have "uint (word_of_nat e :: byte) = int e" using e by auto
  with f show "uint (drop_bit 5 (wmm_aci_aifsn k acm e) AND 3) = int e" by simp
  from f show "(if bit (wmm_aci_aifsn k acm e) 4 then 1 else 0) = acm" using assms(2) by auto
  from f show "uint (wmm_aci_aifsn k acm e AND 0x0f) = k mod 16" by (simp add: low_nibble)
qed

lemma ecw_fields:
  assumes "0 \<le> m" "m < 16" "0 \<le> n" "n < 16"
  shows "uint (wmm_ecw m n AND 0x0f) = m" and "uint (drop_bit 4 (wmm_ecw m n)) = n"
proof -
  have "\<forall>m \<in> set [0..15]. \<forall>n \<in> set [0..15]. uint (wmm_ecw m n AND 0x0f) = m \<and> uint (drop_bit 4 (wmm_ecw m n)) = n"
    by (simp add: wmm_ecw_def upto_rec1)
  with assms show "uint (wmm_ecw m n AND 0x0f) = m" "uint (drop_bit 4 (wmm_ecw m n)) = n" by simp_all
qed

lemma length_wmm_ac_record [simp]: "length (wmm_ac_record iface e) = 4"
  by (simp add: wmm_ac_record_def Let_def)

lemma length_wmm_records [simp]: "length (concat (map (wmm_ac_record iface) es)) = 4 * length es"
  by (induction es) auto

lemma drop_wmm_records:
  "e < 4 \<Longrightarrow> drop (4 * e) (concat (map (wmm_ac_record iface) [0..<4])) =
     wmm_ac_record iface e @ concat (map (wmm_ac_record iface) [Suc e..<4])"
proof -
  assume e: "e < 4"
  then have "[0..<4] = [0..<e] @ e # [Suc e..<4]"
    using upt_add_eq_append [of 0 e "4 - e"] upt_conv_Cons [of e 4] by simp
  then show ?thesis by simp
qed

lemma wmm_seq [element_seq]: "element_seq (hostapd_eid_wmm iface hapd)"
proof (cases "bc_wmm_enabled (hd_conf hapd)")
  case True
  let ?body = "[0x00, 0x50, 0xf2, WMM_OUI_TYPE, WMM_OUI_SUBTYPE_PARAMETER_ELEMENT, WMM_VERSION,
    wmm_qos_info iface hapd, 0] @ concat (map (wmm_ac_record iface) [0..<4])"
  have "unat (24 :: byte) = length ?body" by (simp del: upt_rec_numeral)
  from element_seq_one [OF this] True show ?thesis by (simp add: hostapd_eid_wmm_def del: upt_rec_numeral)
qed (simp add: hostapd_eid_wmm_def)

text \<open>
  The WMM element says what is configured. The parser of the receiving side accepts the
  broadcast element and records it as WMM element; reading the record of each access
  category back gives the configured admission control flag, contention windows and TXOP
  limit. Of the arbitration interval only the low four bits are sent, although the
  configuration accepts values up to 255.
\<close>

theorem wmm_element_readable:
  assumes "bc_wmm_enabled (hd_conf hapd)" and "e < 4" and "wmm_ac_valid (ic_wmm_ac_params (if_conf iface) ! e)"
  shows "\<exists>body. ieee802_11_parse_elems (hostapd_eid_wmm iface hapd) = (ParseOK, no_elems\<lparr>el_wmm := Some body\<rparr>)
    \<and> wmm_record_of body e =
       (let ac = ic_wmm_ac_params (if_conf iface) ! e in
        (int e, ac_acm ac, ac_aifs ac mod 16, ac_cwmin ac, ac_cwmax ac, ac_txop_limit ac))"
proof -
  let ?ac = "ic_wmm_ac_params (if_conf iface) ! e"
  let ?recs = "concat (map (wmm_ac_record iface) [0..<4])"
  let ?body = "[0x00, 0x50, 0xf2, WMM_OUI_TYPE, WMM_OUI_SUBTYPE_PARAMETER_ELEMENT, WMM_VERSION,
    wmm_qos_info iface hapd, 0] @ ?recs"
  have len: "length ?recs = 16" by (simp del: upt_rec_numeral)
  have el: "hostapd_eid_wmm iface hapd = WLAN_EID_VENDOR_SPECIFIC # 24 # ?body"
    using assms(1) by (simp add: hostapd_eid_wmm_def del: upt_rec_numeral)
  have "parse_element WLAN_EID_VENDOR_SPECIFIC ?body no_elems = (0, no_elems\<lparr>el_wmm := Some ?body\<rparr>)"
    by (simp add: parse_element_def ieee802_11_parse_vendor_specific_def Let_def get_be24_def len del: upt_rec_numeral)
  then have p: "ieee802_11_parse_elems (hostapd_eid_wmm iface hapd) = (ParseOK, no_elems\<lparr>el_wmm := Some ?body\<rparr>)"
    unfolding el ieee802_11_parse_elems_def using len by (simp del: upt_rec_numeral)
  have d: "drop (8 + 4 * e) ?body = wmm_ac_record iface e @ concat (map (wmm_ac_record iface) [Suc e..<4])"
  proof -
    have "drop (8 + 4 * e) ?body = drop (4 * e) (drop 8 ?body)" by (simp only: drop_drop add.commute)
    also have "drop 8 ?body = ?recs" by (simp del: upt_rec_numeral)
    finally show ?thesis using drop_wmm_records [OF assms(2), of iface] by simp
  qed
  have b: "wmm_ac_record iface e = [wmm_aci_aifsn (ac_aifs ?ac) (ac_acm ?ac) e, wmm_ecw (ac_cwmin ?ac) (ac_cwmax ?ac)]
      @ put_le16 (word_of_int (ac_txop_limit ?ac))"
    by (simp add: wmm_ac_record_def Let_def)
  have t: "uint (word_of_int (ac_txop_limit ?ac) :: u16) = ac_txop_limit ?ac"
    using assms(3) by (simp add: wmm_ac_valid_def uint_word_of_int)
  have v: "ac_acm ?ac \<in> {0, 1}" "0 \<le> ac_cwmin ?ac" "ac_cwmin ?ac < 16" "0 \<le> ac_cwmax ?ac" "ac_cwmax ?ac < 16"
    using assms(3) by (auto simp: wmm_ac_valid_def)
  have le: "get_le16 (x # y # put_le16 w @ ys) 2 = w" for x y w ys
    using get_le16_put [of "[x, y]" w ys] by (simp add: numeral_2_eq_2)
  have "wmm_record_of ?body e = (int e, ac_acm ?ac, ac_aifs ?ac mod 16, ac_cwmin ?ac, ac_cwmax ?ac, ac_txop_limit ?ac)"
    unfolding wmm_record_of_def d b
    using aci_aifsn_fields [OF assms(2) v(1), of "ac_aifs ?ac"] ecw_fields [OF v(2-5)] t
    by (simp add: Let_def le)
  with p show ?thesis unfolding Let_def by blast
qed

section \<open>Traffic specifications\<close>

text \<open>The demand of a request, in units of 1/8192 microsecond per second, without wrap-around.\<close>

definition tspec_demand :: "byte list \<Rightarrow> int" where
  "tspec_demand tspec =
     (let msdu = uint (ts_nominal_msdu_size tspec);
          pps = (uint (ts_mean_data_rate tspec) div 8 + msdu - 1) div msdu;
          duration = (msdu mod 2 ^ 15) * 8 div (uint (ts_minimum_phy_rate tspec) div 1000000) + 50
      in uint (ts_surplus tspec) * pps * duration)"

lemma sint_small: "uint w < 2 ^ 31 \<Longrightarrow> sint (w :: u32) = uint w"
  using order_trans [of "- 2147483648" 0 "uint w"] by (simp add: sint_uint signed_take_bit_int_eq_self_iff)

lemma int_div_le: "0 \<le> a \<Longrightarrow> 0 \<le> b \<Longrightarrow> a div b \<le> (a :: int)"
  using zdiv_mono2 [of a 1 b] by (cases "b = 0") auto

lemma tspec_pps:
  assumes "(val :: u16) \<noteq> 0"
  shows "sint ((rate div 8 + ucast val - 1) div ucast val :: u32) = (uint (rate :: u32) div 8 + uint val - 1) div uint val"
    and "0 \<le> (uint rate div 8 + uint val - 1) div uint val"
proof -
  have v: "1 \<le> uint val" "uint val < 65536"
  proof -
    have "uint val \<noteq> 0" "0 \<le> uint val" "uint val < 2 ^ LENGTH(16)"
      using assms unsigned_less [of val, where 'a = int] by (simp_all add: unsigned_eq_0_iff del: len_num0)
    then show "1 \<le> uint val" "uint val < 65536" by (linarith, simp)
  qed
  have r: "0 \<le> uint rate" "uint rate < 4294967296" using unsigned_less [of rate, where 'a = int] by simp_all
  then have r8: "0 \<le> uint rate div 8" "uint rate div 8 < 536870912" by (simp_all add: div_int_pos_iff)
  have u: "uint (ucast val :: u32) = uint val" using v by (simp add: unsigned_ucast_eq take_bit_int_eq_self_iff)
  have "uint (rate div 8 + ucast val - 1) = uint rate div 8 + uint val - 1"
    using v r8 by (simp add: uint_word_ariths uint_div u mod_pos_pos_trivial mod_diff_left_eq)
  then have q: "uint ((rate div 8 + ucast val - 1) div ucast val) = (uint rate div 8 + uint val - 1) div uint val"
    by (simp only: uint_div u)
  show nonneg: "0 \<le> (uint rate div 8 + uint val - 1) div uint val"
  proof -
    have "0 \<le> uint rate div 8 + uint val - 1" "0 < uint val" using v r8 by linarith+
    then show ?thesis by (simp only: pos_imp_zdiv_nonneg_iff)
  qed
  have "(uint rate div 8 + uint val - 1) div uint val \<le> uint rate div 8 + uint val - 1"
    using v r8 by (intro int_div_le) simp_all
  then have "uint ((rate div 8 + ucast val - 1) div ucast val) < 2147483648"
    unfolding q using v r8 by linarith
  then show "sint ((rate div 8 + ucast val - 1) div ucast val :: u32) = (uint rate div 8 + uint val - 1) div uint val"
    by (subst sint_small) (simp_all add: q)
qed

lemma tspec_duration:
  "sint ((ucast ((val :: u16) AND 0x7fff) * 8) div (rate div 1000000) + 50 :: u32) =
     (uint val mod 2 ^ 15) * 8 div (uint (rate :: u32) div 1000000) + 50"
proof -
  have m: "uint (val AND 0x7fff) = uint val mod 32768"
  proof -
    have "val AND 0x7fff = val mod 32768"
      using take_bit_eq_mask [of 15 val] by (simp add: take_bit_eq_mod mask_eq_exp_minus_1)
    then show ?thesis by (simp add: uint_mod)
  qed
  have u: "uint (ucast (val AND 0x7fff) :: u32) = uint val mod 32768"
    by (simp add: unsigned_ucast_eq m take_bit_int_eq_self_iff order_less_trans [OF pos_mod_bound])
  have b: "0 \<le> uint val mod 32768" "uint val mod 32768 < 32768" by simp_all
  have "uint (ucast (val AND 0x7fff) * 8 :: u32) = uint val mod 32768 * 8"
    using b by (simp add: uint_word_ariths u)
  then have d: "uint ((ucast (val AND 0x7fff) * 8 :: u32) div (rate div 1000000)) = uint val mod 32768 * 8 div (uint rate div 1000000)"
    by (simp add: uint_div)
  have le: "uint val mod 32768 * 8 div (uint rate div 1000000) \<le> uint val mod 32768 * 8"
    by (intro int_div_le) (simp_all add: div_int_pos_iff)
  have ge: "0 \<le> uint val mod 32768 * 8 div (uint rate div 1000000)"
    by (simp add: div_int_pos_iff)
  have "uint ((ucast (val AND 0x7fff) * 8 :: u32) div (rate div 1000000) + 50) = uint val mod 32768 * 8 div (uint rate div 1000000) + 50"
    using le ge b by (simp add: uint_word_ariths d)
  then show ?thesis using le b by (subst sint_small) simp_all
qed


lemma process_tspec:
  "wmm_process_tspec tspec =
    (if ts_nominal_msdu_size tspec = 0 \<or> uint (ts_minimum_phy_rate tspec) < 1000000 \<or> uint (ts_surplus tspec) \<le> 8192
     then Inr (WMM_ADDTS_STATUS_INVALID_PARAMETERS, tspec)
     else if tspec_demand tspec \<ge> 2 ^ 31 then Inl Int_overflow
     else Inr (WMM_ADDTS_STATUS_ADMISSION_ACCEPTED,
               set_medium_time tspec (word_of_int (tspec_demand tspec div 8192 div 32))))"
proof (cases "ts_nominal_msdu_size tspec = 0 \<or> uint (ts_minimum_phy_rate tspec) < 1000000 \<or> uint (ts_surplus tspec) \<le> 8192")
  case True
  then show ?thesis by (auto simp: wmm_process_tspec_def Let_def word_less_def word_le_def)
next
  case False
  let ?msdu = "ts_nominal_msdu_size tspec" and ?phy = "ts_minimum_phy_rate tspec"
  let ?s = "uint (ts_surplus tspec)"
  let ?p = "(uint (ts_mean_data_rate tspec) div 8 + uint ?msdu - 1) div uint ?msdu"
  let ?d = "(uint ?msdu mod 2 ^ 15) * 8 div (uint ?phy div 1000000) + 50"
  have nz: "?msdu \<noteq> 0" and phy: "\<not> ?phy < 1000000" and s: "\<not> ts_surplus tspec \<le> 0x2000"
    using False by (auto simp: word_less_def word_le_def)
  have p0: "0 \<le> ?p" using tspec_pps(2) [OF nz] .
  have d1: "1 \<le> ?d" by (simp add: div_int_pos_iff)
  have s0: "0 \<le> ?s" by simp
  have sp0: "0 \<le> ?s * ?p" using p0 s0 by simp
  have spd: "?s * ?p \<le> ?s * ?p * ?d" using mult_left_mono [OF d1 sp0] by simp
  have demand: "tspec_demand tspec = ?s * ?p * ?d" by (simp add: tspec_demand_def Let_def)
  have run: "wmm_process_tspec tspec =
     fbind (c_int_mult ?s ?p) (\<lambda>p. fbind (c_int_mult p ?d) (\<lambda>p.
       let medium_time = c_div p 0x2000 in
       if medium_time > 750000 then Inr (WMM_ADDTS_STATUS_REFUSED, tspec)
       else Inr (WMM_ADDTS_STATUS_ADMISSION_ACCEPTED, set_medium_time tspec (word_of_int (c_div medium_time 32)))))"
    unfolding wmm_process_tspec_def Let_def tspec_pps(1) [OF nz] tspec_duration
    by (simp only: nz phy s if_False)
  show ?thesis
  proof (cases "?s * ?p * ?d < 2 ^ 31")
    case True
    have m1: "c_int_mult ?s ?p = Inr (?s * ?p)" using True spd sp0 by (simp add: c_int_mult_def)
    have m2: "c_int_mult (?s * ?p) ?d = Inr (?s * ?p * ?d)" using True spd sp0 by (simp add: c_int_mult_def)
    have dem0: "0 \<le> tspec_demand tspec" using spd sp0 demand by linarith
    have c: "c_div (tspec_demand tspec) 0x2000 = tspec_demand tspec div 8192"
      "c_div (tspec_demand tspec div 8192) 32 = tspec_demand tspec div 8192 div 32"
      using dem0 by (simp_all add: c_div_def pos_imp_zdiv_neg_iff)
    have "tspec_demand tspec < 2147483648" using True by (simp only: demand) simp
    then have small: "tspec_demand tspec div 8192 \<le> 262143" by linarith
    show ?thesis unfolding run m1 m2 fbind_simps Let_def demand [symmetric] c
      using False small True demand by simp
  next
    case big: False
    show ?thesis
    proof (cases "?s * ?p < 2 ^ 31")
      case True
      have m1: "c_int_mult ?s ?p = Inr (?s * ?p)" using True sp0 by (simp add: c_int_mult_def)
      have m2: "c_int_mult (?s * ?p) ?d = Inl Int_overflow" using big by (simp add: c_int_mult_def)
      show ?thesis unfolding run m1 m2 fbind_simps using False big demand by simp
    next
      case False2: False
      have m1: "c_int_mult ?s ?p = Inl Int_overflow" using False2 by (simp add: c_int_mult_def)
      show ?thesis unfolding run m1 fbind_simps using False big demand by simp
    qed
  qed
qed

text \<open>
  The decision on a TSPEC, on every branch. Malformed requests are answered with
  "invalid parameters"; a request whose demand fits an \<open>int\<close> is accepted with the medium
  time rounded down to units of 32 microseconds; for every larger one the computation
  overflows. The check that is to refuse requests for more than 75 percent of the medium
  can therefore never succeed: the product that is compared is below \<open>2 ^ 31 / 8192\<close>, about
  26 percent of a second.
\<close>

theorem tspec_decision:
  "wmm_process_tspec tspec =
    (if ts_nominal_msdu_size tspec = 0 \<or> uint (ts_minimum_phy_rate tspec) < 1000000 \<or> uint (ts_surplus tspec) \<le> 8192
     then Inr (WMM_ADDTS_STATUS_INVALID_PARAMETERS, tspec)
     else if tspec_demand tspec \<ge> 2 ^ 31 then Inl Int_overflow
     else Inr (WMM_ADDTS_STATUS_ADMISSION_ACCEPTED,
               set_medium_time tspec (word_of_int (tspec_demand tspec div 8192 div 32))))"
  by (rule process_tspec)


lemma tspec_status:
  assumes "wmm_process_tspec tspec = Inr (st, t)"
  shows "st \<in> {WMM_ADDTS_STATUS_ADMISSION_ACCEPTED, WMM_ADDTS_STATUS_INVALID_PARAMETERS}
    \<and> take 61 t = take 61 tspec \<and> drop 63 t = drop 63 tspec \<or> length tspec < 63"
    and "63 \<le> length tspec \<Longrightarrow> length t = length tspec"
  using assms by (auto simp: process_tspec set_medium_time_def min_def split: if_splits)

section \<open>Action frames\<close>

definition wmm_associated :: "hostapd_data \<Rightarrow> byte list \<Rightarrow> bool" where
  "wmm_associated hapd addr \<longleftrightarrow>
     (\<exists>sta. ap_get_sta hapd addr = Some sta
        \<and> sta_flags sta AND (WLAN_STA_ASSOC OR WLAN_STA_WMM) = WLAN_STA_ASSOC OR WLAN_STA_WMM)"

text \<open>
  Whom the access point answers, and with what. It sends a frame only for a request
  from an associated WMM station; the frame is a response of 91 octets addressed to the
  sender, carries the request's dialogue token and the status "accepted" or "invalid
  parameters", and returns the station's TSPEC unchanged except for its last two octets,
  the medium time.
\<close>

theorem wmm_action_reply:
  assumes "hostapd_wmm_action hapd mgmt = Inr (Some reply)" and "length (hd_own_addr hapd) = 6"
  shows "wmm_associated hapd (take 6 (drop 10 mgmt)) \<and> length reply = 91
    \<and> take 6 (drop 4 reply) = take 6 (drop 10 mgmt)
    \<and> reply ! 26 = mgmt ! 26 \<and> reply ! 27 \<in> {WMM_ADDTS_STATUS_ADMISSION_ACCEPTED, WMM_ADDTS_STATUS_INVALID_PARAMETERS}
    \<and> (\<exists>body. el_wmm_tspec (snd (ieee802_11_parse_elems (drop 28 mgmt))) = Some body
         \<and> take 61 (drop 28 reply) = take 61 ([WLAN_EID_VENDOR_SPECIFIC, 61] @ body))"
proof -
  obtain sta body where len: "28 \<le> length mgmt"
    and sta: "ap_get_sta hapd (take 6 (drop 10 mgmt)) = Some sta"
      "sta_flags sta AND (WLAN_STA_ASSOC OR WLAN_STA_WMM) = WLAN_STA_ASSOC OR WLAN_STA_WMM"
    and body: "el_wmm_tspec (snd (ieee802_11_parse_elems (drop 28 mgmt))) = Some body" "length body = 61"
    and req: "wmm_addts_req hapd mgmt ([WLAN_EID_VENDOR_SPECIFIC, word_of_nat (length body)] @ body) = Inr (Some reply)"
    using assms(1) unfolding hostapd_wmm_action_def Let_def
    by (auto split: if_splits option.splits prod.splits ParseRes.splits)
  let ?tspec = "[WLAN_EID_VENDOR_SPECIFIC, word_of_nat (length body)] @ body"
  have tl: "length ?tspec = 63" using body(2) by simp
  obtain st t where p: "wmm_process_tspec ?tspec = Inr (st, t)"
    and r: "reply = wmm_send_action hapd (take 6 (drop 10 mgmt)) t WMM_ACTION_CODE_ADDTS_RESP (mgmt ! 26) st"
    using req tl by (auto simp: wmm_addts_req_def fbind_Inr_iff)
  have t: "length t = 63" "take 61 t = take 61 ?tspec"
    "st \<in> {WMM_ADDTS_STATUS_ADMISSION_ACCEPTED, WMM_ADDTS_STATUS_INVALID_PARAMETERS}"
    using tspec_status [OF p] tl by simp_all
  have sa: "length (take 6 (drop 10 mgmt)) = 6" using len by simp
  let ?head = "put_le16 (IEEE80211_FC WLAN_FC_TYPE_MGMT WLAN_FC_STYPE_ACTION) @ [0, 0]
     @ take 6 (drop 10 mgmt) @ hd_own_addr hapd @ hd_own_addr hapd @ [0, 0]"
  have head: "length ?head = 24" using sa assms(2) by simp
  have reply: "reply = ?head @ [WLAN_ACTION_WMM, WMM_ACTION_CODE_ADDTS_RESP, mgmt ! 26, st] @ t"
    by (simp add: r wmm_send_action_def)
  have nth: "(?head @ xs) ! (24 + k) = xs ! k" for xs k using head by (metis nth_append_length_plus)
  have at: "reply ! 26 = mgmt ! 26" "reply ! 27 = st"
    unfolding reply using nth [of _ 2] nth [of _ 3] by simp_all
  have dr: "drop (24 + k) (?head @ xs) = drop k xs" for xs k using head
    by (metis add_diff_cancel_left' append_Nil drop_all drop_append le_add1)
  have "drop 28 reply = t" unfolding reply using dr [of 4] by simp
  moreover have "take 6 (drop 4 reply) = take 6 (drop 10 mgmt)"
    unfolding reply using sa by (simp add: put_le16_def)
  moreover have "length reply = 91" unfolding reply using head t(1) by simp
  ultimately show ?thesis
    using sta body at t by (auto simp: wmm_associated_def)
qed

text \<open>
  A short action frame makes the access point read past its end. An associated WMM
  station that sends an action frame of category WMM with less than the four octets of the
  fixed part makes \<open>left\<close> negative; it is passed on as an unsigned length.
\<close>

theorem wmm_short_frame_overread:
  assumes "wmm_associated hapd (take 6 (drop 10 mgmt))" and "IEEE80211_HDRLEN + 1 \<le> length mgmt" and "length mgmt < 28"
  shows "hostapd_wmm_action hapd mgmt = Inl (Read_past_end (length mgmt) 29)"
  using assms by (auto simp: hostapd_wmm_action_def wmm_associated_def)

definition ex_wmm_hapd :: hostapd_data where
  "ex_wmm_hapd = ex_hapd\<lparr>hd_sta_list := [\<lparr>sta_addr = [2, 0, 0, 0, 0, 9], sta_flags = 0x0203,
     sta_ssid = bc_ssid ex_bss, sta_ssid_probe = None\<rparr>]\<rparr>"

definition ex_tspec :: "byte list" where
  \<comment> \<open>100 kbit/s in packets of 100 octets at 6 Mbit/s, surplus 1.5\<close>
  "ex_tspec = [0x00, 0x50, 0xf2, 2, 2, 1, 0, 0, 0, 100, 0] @ replicate 26 0 @ [0xa0, 0x86, 1, 0]
     @ replicate 12 0 @ [0x80, 0x8d, 0x5b, 0, 0, 0x30, 0, 0]"

definition ex_addts :: "byte list" where
  "ex_addts = [0xd0, 0, 0, 0] @ [2, 0, 0, 0, 0, 1] @ [2, 0, 0, 0, 0, 9] @ [2, 0, 0, 0, 0, 1] @ [0, 0]
     @ [17, 0, 5, 0] @ [221, 61] @ ex_tspec"

lemma wmm_element_readable_witness:
  "\<exists>body. ieee802_11_parse_elems (hostapd_eid_wmm (ex_iface None) (ex_hapd\<lparr>hd_conf := ex_bss\<lparr>bc_wmm_enabled := True\<rparr>\<rparr>))
      = (ParseOK, no_elems\<lparr>el_wmm := Some body\<rparr>)
    \<and> wmm_record_of body 2 = (2, 0, 3, 4, 10, 0)"
proof -
  let ?ac = "\<lparr>ac_cwmin = 4, ac_cwmax = 10, ac_aifs = 3, ac_txop_limit = 0, ac_acm = 0\<rparr>"
  have ac: "ic_wmm_ac_params (if_conf (ex_iface None)) ! 2 = ?ac"
    by (simp add: ex_iface_def ex_conf_def numeral_2_eq_2)
  have "\<exists>body. ieee802_11_parse_elems (hostapd_eid_wmm (ex_iface None) (ex_hapd\<lparr>hd_conf := ex_bss\<lparr>bc_wmm_enabled := True\<rparr>\<rparr>))
      = (ParseOK, no_elems\<lparr>el_wmm := Some body\<rparr>)
    \<and> wmm_record_of body 2 = (let ac = ic_wmm_ac_params (if_conf (ex_iface None)) ! 2 in
        (int 2, ac_acm ac, ac_aifs ac mod 16, ac_cwmin ac, ac_cwmax ac, ac_txop_limit ac))"
    by (rule wmm_element_readable) (simp_all add: ac wmm_ac_valid_def)
  then show ?thesis by (simp add: ac Let_def)
qed

lemma wmm_action_reply_witness:
  "\<exists>reply. hostapd_wmm_action ex_wmm_hapd ex_addts = Inr (Some reply) \<and> length reply = 91 \<and> reply ! 26 = 5"
proof -
  have len: "length ex_tspec = 61" by (simp add: ex_tspec_def)
  then have m: "drop 28 ex_addts = 221 # 61 # ex_tspec" "length ex_addts = 91" "ex_addts ! 25 = 0" "ex_addts ! 26 = 5"
    "take 6 (drop 10 ex_addts) = [2, 0, 0, 0, 0, 9]"
    by (simp_all add: ex_addts_def)
  have p: "parse_element WLAN_EID_VENDOR_SPECIFIC ex_tspec no_elems = (0, no_elems\<lparr>el_wmm_tspec := Some ex_tspec\<rparr>)"
  proof -
    have "get_be24 ex_tspec 0 = 0x50f2" "ex_tspec ! 3 = 2" "ex_tspec ! 4 = 2"
      by (simp_all add: ex_tspec_def get_be24_def)
    then show ?thesis by (simp add: parse_element_def ieee802_11_parse_vendor_specific_def Let_def len)
  qed
  then have e: "ieee802_11_parse_elems (221 # 61 # ex_tspec) = (ParseOK, no_elems\<lparr>el_wmm_tspec := Some ex_tspec\<rparr>)"
    by (simp add: ieee802_11_parse_elems_def len)
  have f: "ts_nominal_msdu_size (221 # 61 # ex_tspec) = 100" "ts_mean_data_rate (221 # 61 # ex_tspec) = 100000"
    "ts_minimum_phy_rate (221 # 61 # ex_tspec) = 6000000" "ts_surplus (221 # 61 # ex_tspec) = 0x3000"
    by (simp_all add: ts_nominal_msdu_size_def ts_mean_data_rate_def ts_minimum_phy_rate_def ts_surplus_def ex_tspec_def
        get_le16_def get_le32_def nth_append)
  obtain t where t: "wmm_process_tspec (221 # 61 # ex_tspec) = Inr (0, t)"
    by (simp add: wmm_process_tspec_def f c_int_mult_def Let_def c_div_def)
  have "\<exists>reply. hostapd_wmm_action ex_wmm_hapd ex_addts = Inr (Some reply)"
    by (simp add: hostapd_wmm_action_def m e len t wmm_addts_req_def ap_get_sta_def ex_wmm_hapd_def)
  then obtain reply where r: "hostapd_wmm_action ex_wmm_hapd ex_addts = Inr (Some reply)" by blast
  have "length (hd_own_addr ex_wmm_hapd) = 6" by (simp add: ex_wmm_hapd_def ex_hapd_def)
  from wmm_action_reply [OF r this] r m(4) show ?thesis by auto
qed

lemma wmm_short_frame_overread_witness:
  "hostapd_wmm_action ex_wmm_hapd
      ([0xd0, 0, 0, 0] @ [2, 0, 0, 0, 0, 1] @ [2, 0, 0, 0, 0, 9] @ [2, 0, 0, 0, 0, 1] @ [0, 0] @ [17, 0])
      = Inl (Read_past_end 26 29)"
  using wmm_short_frame_overread [of ex_wmm_hapd "[0xd0, 0, 0, 0] @ [2, 0, 0, 0, 0, 1] @ [2, 0, 0, 0, 0, 9] @ [2, 0, 0, 0, 0, 1] @ [0, 0] @ [17, 0]"]
  by (simp add: wmm_associated_def ap_get_sta_def ex_wmm_hapd_def)

end
