(* ===== verification/Beacon.thy ===== *)
theory Beacon
  imports Wmm
begin

text \<open>
  Beacons and probe responses of the access point, \<open>ap/beacon.c\<close>, with the extra elements
  of \<open>ap/ap_drv_ops.c\<close> that go to the driver beside them. This is where the LoWS message,
  kept in \<open>vendorspec_beacon_ie\<close>, goes on the air.

  A buffer that the C code fills at a moving pointer is a \<open>frame_buf\<close>: its capacity and
  the octets in front of the pointer; writing past the capacity is the fault
  \<open>Write_past_end\<close>. The result of an allocation, the clock and the result of the driver are
  arguments. The conditional parts for HT/VHT, P2P, Hotspot 2.0 and the testing options are
  not compiled in the shipped configuration and are left out.
\<close>

section \<open>Frame buffers\<close>

record frame_buf =
  fb_cap :: nat
  fb_data :: "byte list"

definition frame_put :: "frame_buf \<Rightarrow> byte list \<Rightarrow> fault + frame_buf" where
  "frame_put b xs =
     (let n = length (fb_data b) + length xs in
      if n > fb_cap b then Inl (Write_past_end (fb_cap b) n)
      else Inr (b\<lparr>fb_data := fb_data b @ xs\<rparr>))"

definition frame_room :: "frame_buf \<Rightarrow> nat" where
  "frame_room b = fb_cap b - length (fb_data b)"

definition wf_frame :: "frame_buf \<Rightarrow> bool" where
  "wf_frame b \<longleftrightarrow> length (fb_data b) \<le> fb_cap b"

definition empty_frame :: "nat \<Rightarrow> frame_buf" where
  "empty_frame n = \<lparr>fb_cap = n, fb_data = []\<rparr>"

interpretation frame: append_buffer frame_put fb_data frame_room wf_frame
  by unfold_locales (auto simp: frame_put_def frame_room_def wf_frame_def Let_def)

section \<open>Environment\<close>

record ap_env =
  ev_now :: "os_tm option"                 \<comment> \<open>what the clock says\<close>
  ev_alloc_head :: bool                    \<comment> \<open>results of the allocations\<close>
  ev_alloc_tail :: bool
  ev_alloc_resp :: bool
  ev_alloc_time :: bool
  ev_alloc_extra :: "nat \<Rightarrow> bool"
  ev_wps_assoc_resp_ie :: "wpabuf option"  \<comment> \<open>\<open>wps_build_assoc_resp_ie ()\<close>\<close>
  ev_set_ap :: int                         \<comment> \<open>result of \<open>hostapd_drv_set_ap\<close>\<close>

definition opt_octets :: "wpabuf option \<Rightarrow> byte list" where
  \<comment> \<open>what is copied from a buffer that may be null\<close>
  "opt_octets b = (case b of None \<Rightarrow> [] | Some b \<Rightarrow> wpabuf_head b)"

definition opt_len :: "wpabuf option \<Rightarrow> nat" where
  "opt_len b = (case b of None \<Rightarrow> 0 | Some b \<Rightarrow> wpabuf_len b)"

definition wps_octets :: "build_config \<Rightarrow> hostapd_data \<Rightarrow> wpabuf option \<Rightarrow> byte list" where
  "wps_octets b hapd ie = (if cfg_wps b \<and> bc_wps_state (hd_conf hapd) \<noteq> 0 then opt_octets ie else [])"

section \<open>Probe responses\<close>

abbreviation (input) "MAX_PROBERESP_LEN \<equiv> (2320 :: nat)"

definition mgmt_header :: "u16 \<Rightarrow> byte list \<Rightarrow> byte list \<Rightarrow> u16 \<Rightarrow> u16 \<Rightarrow> byte list" where
  \<comment> \<open>frame control, duration, three addresses, sequence control, time stamp, interval, capabilities\<close>
  "mgmt_header fc da addr beacon_int capab =
     put_le16 fc @ [0, 0] @ da @ addr @ addr @ [0, 0] @ replicate 8 0 @ put_le16 beacon_int @ put_le16 capab"

definition ssid_element :: "hostapd_data \<Rightarrow> byte list" where
  "ssid_element hapd =
     (let s = ss_ssid (bc_ssid (hd_conf hapd)) in [WLAN_EID_SSID, word_of_nat (length s)] @ s)"

text \<open>
  The fragments in the order they are written after the header; the elements that are
  given the remaining room compute it from the position.
\<close>

definition probe_resp_fragments ::
    "build_config \<Rightarrow> ap_env \<Rightarrow> hostapd_iface \<Rightarrow> hostapd_data \<Rightarrow> fault + byte list list \<times> nat \<times> hostapd_data" where
  "probe_resp_fragments b ev iface hapd =
     (let room = \<lambda>frags. int MAX_PROBERESP_LEN - 36 - int (length (concat frags));
          f1 = [ssid_element hapd, hostapd_eid_supp_rates iface, hostapd_eid_ds_params iface];
          f2 = f1 @ [hostapd_eid_country iface (room f1)] in
      fbind (hostapd_eid_pwr_constraint iface) (\<lambda>pwr.
      let f3 = f2 @ [pwr, hostapd_eid_erp_info iface, hostapd_eid_ext_supp_rates iface];
          f4 = f3 @ [hostapd_eid_wpa hapd (room f3), hostapd_eid_ext_capab b iface hapd] in
      fbind (hostapd_eid_time_adv (ev_now ev) (ev_alloc_time ev) hapd) (\<lambda>(tadv, hapd).
      let f5 = f4 @ [tadv, hostapd_eid_time_zone hapd, hostapd_eid_interworking b hapd,
                     hostapd_eid_adv_proto b hapd, hostapd_eid_roaming_consortium b hapd];
          csa = hostapd_add_csa_elems iface (36 + length (concat f5)) in
      Inr (f5 @ [fst csa, hostapd_eid_wmm iface hapd, wps_octets b hapd (hd_wps_probe_resp_ie hapd),
                 opt_octets (hd_vendorspec_beacon_ie hapd), opt_octets (bc_vendor_elements (hd_conf hapd))],
           snd csa, hapd))))"

definition hostapd_gen_probe_resp ::
    "build_config \<Rightarrow> ap_env \<Rightarrow> hostapd_iface \<Rightarrow> hostapd_data \<Rightarrow> sta_info option \<Rightarrow> byte list option
       \<Rightarrow> fault + byte list option \<times> hostapd_iface \<times> hostapd_data" where
  "hostapd_gen_probe_resp b ev iface hapd sta req_sa =
     (let buflen = MAX_PROBERESP_LEN
            + (if cfg_wps b then opt_len (hd_wps_probe_resp_ie hapd) else 0)
            + opt_len (bc_vendor_elements (hd_conf hapd)) in
      if \<not> ev_alloc_resp ev then Inr (None, iface, hapd)
      else fbind (hostapd_own_capab_info iface hapd sta True) (\<lambda>capab.
           let hdr = mgmt_header (IEEE80211_FC WLAN_FC_TYPE_MGMT WLAN_FC_STYPE_PROBE_RESP)
                       (case req_sa of None \<Rightarrow> replicate 6 0 | Some sa \<Rightarrow> sa) (hd_own_addr hapd)
                       (ic_beacon_int (if_conf iface)) capab in
           fbind (probe_resp_fragments b ev iface hapd) (\<lambda>(frags, csa_off, hapd).
           fbind (put_all frame_put (empty_frame buflen) (hdr # frags)) (\<lambda>fb.
           Inr (Some (fb_data fb), iface\<lparr>if_cs_c_off_proberesp := csa_off\<rparr>, hapd)))))"

section \<open>Probe requests\<close>

datatype ssid_match_result = NO_SSID_MATCH | EXACT_SSID_MATCH | WILDCARD_SSID_MATCH

text \<open>
  The loop over the SSID list tests for one octet and reads two; \<open>behind\<close> is what follows
  the list in the frame.
\<close>

fun ssid_match_loop :: "byte list \<Rightarrow> byte list \<Rightarrow> bool \<Rightarrow> byte list \<Rightarrow> fault + ssid_match_result" where
  "ssid_match_loop own behind wildcard (eid # l # rest) =
     (if unat l > length rest then Inr (if wildcard then WILDCARD_SSID_MATCH else NO_SSID_MATCH)
      else if unat l = length own \<and> take (unat l) rest = own then Inr EXACT_SSID_MATCH
      else ssid_match_loop own behind (wildcard \<or> l = 0) (drop (unat l) rest))"
| "ssid_match_loop own behind wildcard [x] =
     (if behind = [] then Inl (Read_past_end 1 2)
      else Inr (if wildcard then WILDCARD_SSID_MATCH else NO_SSID_MATCH))"
| "ssid_match_loop own behind wildcard [] = Inr (if wildcard then WILDCARD_SSID_MATCH else NO_SSID_MATCH)"

definition ssid_match :: "hostapd_data \<Rightarrow> byte list \<Rightarrow> byte list option \<Rightarrow> byte list \<Rightarrow> fault + ssid_match_result" where
  "ssid_match hapd ssid ssid_list behind =
     (let own = ss_ssid (bc_ssid (hd_conf hapd)); wildcard = (ssid = []) in
      if length ssid = length own \<and> ssid = own then Inr EXACT_SSID_MATCH
      else case ssid_list of
        None \<Rightarrow> Inr (if wildcard then WILDCARD_SSID_MATCH else NO_SSID_MATCH)
      | Some l \<Rightarrow> ssid_match_loop own behind wildcard l)"

text \<open>The octets of the frame behind the element that the parser recorded last for an identifier.\<close>

fun behind_element :: "byte \<Rightarrow> byte list \<Rightarrow> byte list \<Rightarrow> byte list" where
  "behind_element eid acc (e # l # rest) =
     (if unat l > length rest then acc
      else behind_element eid (if e = eid then drop (unat l) rest else acc) (drop (unat l) rest))"
| "behind_element eid acc _ = acc"

fun set_ssid_probe :: "byte list \<Rightarrow> hostapd_ssid \<Rightarrow> sta_info list \<Rightarrow> sta_info list" where
  "set_ssid_probe addr ssid [] = []"
| "set_ssid_probe addr ssid (s # ss) =
     (if sta_addr s = addr then s\<lparr>sta_ssid_probe := Some ssid\<rparr> # ss else s # set_ssid_probe addr ssid ss)"

definition interworking_mismatch :: "hostapd_data \<Rightarrow> byte list option \<Rightarrow> bool" where
  "interworking_mismatch hapd iw =
     (let c = hd_conf hapd in
      case iw of
        None \<Rightarrow> False
      | Some iw \<Rightarrow>
          bc_interworking c \<and>
          ((length iw \<ge> 1 \<and> iw ! 0 AND 0x0f \<noteq> 15 \<and> iw ! 0 AND 0x0f \<noteq> bc_access_network_type c)
           \<or> ((length iw = 7 \<or> length iw = 9) \<and>
              (let hessid = take 6 (drop (if length iw = 7 then 1 else 3) iw)
               in hessid \<noteq> replicate 6 0xff \<and> hessid \<noteq> bc_hessid c))))"

text \<open>
  \<open>cbs\<close> are the results of the registered callbacks, which are called in order until one
  is positive. The result is the frame handed to the driver with its \<open>noack\<close> flag, if any.
\<close>

definition handle_probe_req ::
    "build_config \<Rightarrow> ap_env \<Rightarrow> hostapd_iface \<Rightarrow> hostapd_data \<Rightarrow> int list \<Rightarrow> byte list
       \<Rightarrow> fault + (byte list \<times> bool) option \<times> hostapd_iface \<times> hostapd_data" where
  "handle_probe_req b ev iface hapd cbs mgmt =
     (let ie = drop IEEE80211_HDRLEN mgmt; da = take 6 (drop 4 mgmt); sa = take 6 (drop 10 mgmt) in
      if length mgmt < IEEE80211_HDRLEN then Inr (None, iface, hapd)
      else if list_ex (\<lambda>r. r > 0) cbs then Inr (None, iface, hapd)
      else if \<not> ic_send_probe_response (if_conf iface) then Inr (None, iface, hapd)
      else case ieee802_11_parse_elems ie of (res, elems) \<Rightarrow>
      if res = ParseFailed then Inr (None, iface, hapd)
      else case el_ssid elems of None \<Rightarrow> Inr (None, iface, hapd) | Some ssid \<Rightarrow>
      if el_supp_rates elems = None then Inr (None, iface, hapd)
      else if bc_ignore_broadcast_ssid (hd_conf hapd) \<noteq> 0 \<and> ssid = []
           \<and> (el_ssid_list elems = None \<or> el_ssid_list elems = Some []) then Inr (None, iface, hapd)
      else fbind (ssid_match hapd ssid (el_ssid_list elems) (behind_element WLAN_EID_SSID_LIST [] ie)) (\<lambda>res.
      if res = NO_SSID_MATCH then Inr (None, iface, hapd)
      else let hapd = hapd\<lparr>hd_sta_list := set_ssid_probe sa (bc_ssid (hd_conf hapd)) (hd_sta_list hapd)\<rparr> in
      if cfg_interworking b \<and> interworking_mismatch hapd (el_interworking elems) then Inr (None, iface, hapd)
      else fbind (hostapd_gen_probe_resp b ev iface hapd (ap_get_sta hapd sa) (Some sa)) (\<lambda>(resp, iface, hapd).
      case resp of
        None \<Rightarrow> Inr (None, iface, hapd)
      | Some resp \<Rightarrow>
          Inr (Some (resp, res = WILDCARD_SSID_MATCH \<and> da = replicate 6 0xff), iface, hapd))))"

abbreviation (input) "WPA_DRIVER_FLAGS_PROBE_RESP_OFFLOAD \<equiv> (0x00200000 :: u32)"

definition hostapd_probe_resp_offloads ::
    "build_config \<Rightarrow> ap_env \<Rightarrow> hostapd_iface \<Rightarrow> hostapd_data \<Rightarrow> fault + byte list option \<times> hostapd_iface \<times> hostapd_data" where
  "hostapd_probe_resp_offloads b ev iface hapd =
     (if \<not> flag_set (if_drv_flags iface) WPA_DRIVER_FLAGS_PROBE_RESP_OFFLOAD then Inr (None, iface, hapd)
      else hostapd_gen_probe_resp b ev iface hapd None None)"

section \<open>The beacon\<close>

datatype hide_ssid = NO_SSID_HIDING | HIDDEN_SSID_ZERO_LEN | HIDDEN_SSID_ZERO_CONTENTS

record wpa_driver_ap_params =
  ap_head :: "byte list"
  ap_tail :: "byte list"
  ap_dtim_period :: int
  ap_beacon_int :: u16
  ap_basic_rates :: "int list option"
  ap_proberesp :: "byte list option"
  ap_ssid :: "byte list"
  ap_hide_ssid :: hide_ssid
  ap_pairwise_ciphers :: u32
  ap_group_cipher :: u32
  ap_key_mgmt_suites :: u32
  ap_auth_algs :: u32
  ap_wpa_version :: int
  ap_privacy :: bool
  ap_beacon_ies :: "wpabuf option"
  ap_proberesp_ies :: "wpabuf option"
  ap_assocresp_ies :: "wpabuf option"
  ap_isolate :: bool
  ap_cts_protect :: bool
  ap_preamble :: bool
  ap_short_slot_time :: int
  ap_ht_opmode :: int
  ap_interworking :: bool
  ap_hessid :: "byte list option"
  ap_access_network_type :: byte
  ap_ap_max_inactivity :: int
  ap_freq :: "hostapd_freq_params option"

abbreviation (input) "BEACON_HEAD_BUF_SIZE \<equiv> (256 :: nat)"
abbreviation (input) "BEACON_TAIL_BUF_SIZE \<equiv> (2064 :: nat)"

definition beacon_ssid :: "hostapd_data \<Rightarrow> byte list" where
  "beacon_ssid hapd =
     (let s = ss_ssid (bc_ssid (hd_conf hapd)); hide = bc_ignore_broadcast_ssid (hd_conf hapd) in
      if hide = 2 then [WLAN_EID_SSID, word_of_nat (length s)] @ replicate (length s) 0
      else if hide \<noteq> 0 then [WLAN_EID_SSID, 0]
      else ssid_element hapd)"

definition beacon_head_fragments :: "hostapd_iface \<Rightarrow> hostapd_data \<Rightarrow> u16 \<Rightarrow> byte list list" where
  "beacon_head_fragments iface hapd capab =
     [mgmt_header (IEEE80211_FC WLAN_FC_TYPE_MGMT WLAN_FC_STYPE_BEACON) (replicate 6 0xff) (hd_own_addr hapd)
        (ic_beacon_int (if_conf iface)) capab,
      beacon_ssid hapd, hostapd_eid_supp_rates iface, hostapd_eid_ds_params iface]"

definition beacon_tail_fragments ::
    "build_config \<Rightarrow> ap_env \<Rightarrow> hostapd_iface \<Rightarrow> hostapd_data \<Rightarrow> fault + byte list list \<times> nat \<times> hostapd_data" where
  "beacon_tail_fragments b ev iface hapd =
     (let room = \<lambda>frags. int BEACON_TAIL_BUF_SIZE - int (length (concat frags)) in
      fbind (hostapd_eid_pwr_constraint iface) (\<lambda>pwr.
      let f1 = [hostapd_eid_country iface (room []), pwr, hostapd_eid_erp_info iface, hostapd_eid_ext_supp_rates iface];
          f2 = f1 @ [hostapd_eid_wpa hapd (room f1), hostapd_eid_ext_capab b iface hapd] in
      fbind (hostapd_eid_time_adv (ev_now ev) (ev_alloc_time ev) hapd) (\<lambda>(tadv, hapd).
      let f3 = f2 @ [tadv, hostapd_eid_interworking b hapd, hostapd_eid_adv_proto b hapd,
                     hostapd_eid_roaming_consortium b hapd];
          csa = hostapd_add_csa_elems iface (length (concat f3)) in
      Inr (f3 @ [fst csa, hostapd_eid_wmm iface hapd, wps_octets b hapd (hd_wps_beacon_ie hapd),
                 opt_octets (hd_vendorspec_beacon_ie hapd), opt_octets (bc_vendor_elements (hd_conf hapd))],
           snd csa, hapd))))"

definition beacon_tail_size :: "build_config \<Rightarrow> hostapd_data \<Rightarrow> nat" where
  \<comment> \<open>the size of the allocation\<close>
  "beacon_tail_size b hapd = BEACON_TAIL_BUF_SIZE
     + (if cfg_wps b \<and> bc_wps_state (hd_conf hapd) \<noteq> 0 then opt_len (hd_wps_beacon_ie hapd) else 0)
     + opt_len (bc_vendor_elements (hd_conf hapd))"

definition ap_params_of :: "hostapd_iface \<Rightarrow> hostapd_data \<Rightarrow> byte list \<Rightarrow> byte list \<Rightarrow> byte list option \<Rightarrow> wpa_driver_ap_params" where
  "ap_params_of iface hapd head tail resp =
     (let c = hd_conf hapd; ic = if_conf iface in
      \<lparr>ap_head = head, ap_tail = tail, ap_dtim_period = bc_dtim_period c, ap_beacon_int = ic_beacon_int ic,
       ap_basic_rates = if_basic_rates iface, ap_proberesp = resp, ap_ssid = ss_ssid (bc_ssid c),
       ap_hide_ssid = (if bc_ignore_broadcast_ssid c = 1 then HIDDEN_SSID_ZERO_LEN
                       else if bc_ignore_broadcast_ssid c = 2 then HIDDEN_SSID_ZERO_CONTENTS
                       else NO_SSID_HIDING),
       ap_pairwise_ciphers = bc_wpa_pairwise c OR bc_rsn_pairwise c, ap_group_cipher = bc_wpa_group c,
       ap_key_mgmt_suites = bc_wpa_key_mgmt c, ap_auth_algs = bc_auth_algs c, ap_wpa_version = bc_wpa c,
       ap_privacy = bss_privacy hapd,
       ap_beacon_ies = None, ap_proberesp_ies = None, ap_assocresp_ies = None,
       ap_isolate = bc_isolate c,
       ap_cts_protect = (ieee802_11_erp_info iface AND ERP_INFO_USE_PROTECTION \<noteq> 0),
       ap_preamble = (if_num_sta_no_short_preamble iface = 0 \<and> ic_preamble ic = SHORT_PREAMBLE),
       ap_short_slot_time = (if mode_is iface HOSTAPD_MODE_IEEE80211G
                             then (if if_num_sta_no_short_slot_time iface > 0 then 0 else 1) else -1),
       ap_ht_opmode = (if \<not> ic_ieee80211n ic \<or> bc_disable_11n c then -1 else uint (if_ht_op_mode iface)),
       ap_interworking = bc_interworking c,
       ap_hessid = (if bc_interworking c \<and> bc_hessid c \<noteq> replicate 6 0 then Some (bc_hessid c) else None),
       ap_access_network_type = bc_access_network_type c,
       ap_ap_max_inactivity = bc_ap_max_inactivity c, ap_freq = None\<rparr>)"

text \<open>\<open>None\<close> in the result: -1, nothing was built.\<close>

definition ieee802_11_build_ap_params ::
    "build_config \<Rightarrow> ap_env \<Rightarrow> hostapd_iface \<Rightarrow> hostapd_data
       \<Rightarrow> fault + wpa_driver_ap_params option \<times> hostapd_iface \<times> hostapd_data" where
  "ieee802_11_build_ap_params b ev iface hapd =
     (if \<not> ev_alloc_head ev \<or> \<not> ev_alloc_tail ev then Inr (None, iface, hapd)
      else fbind (hostapd_own_capab_info iface hapd None False) (\<lambda>capab.
           fbind (put_all frame_put (empty_frame BEACON_HEAD_BUF_SIZE) (beacon_head_fragments iface hapd capab)) (\<lambda>head.
           let tail_size = beacon_tail_size b hapd in
           fbind (beacon_tail_fragments b ev iface hapd) (\<lambda>(frags, csa_off, hapd).
           fbind (put_all frame_put (empty_frame tail_size) frags) (\<lambda>tail.
           let frame_body_head_len = length (fb_data head) - 36;
               frame_body_tail_len = length (fb_data tail);
               hapd = hapd\<lparr>hd_current_beacon_size := frame_body_tail_len + frame_body_head_len + 6 + 8 + 2 + 2\<rparr>;
               iface = iface\<lparr>if_cs_c_off_beacon := csa_off\<rparr> in
           fbind (hostapd_probe_resp_offloads b ev iface hapd) (\<lambda>(resp, iface, hapd).
           Inr (Some (ap_params_of iface hapd (fb_data head) (fb_data tail) resp), iface, hapd)))))))"

definition ieee802_11_free_ap_params :: "wpa_driver_ap_params \<Rightarrow> wpa_driver_ap_params" where
  "ieee802_11_free_ap_params params = params\<lparr>ap_tail := [], ap_head := [], ap_proberesp := None\<rparr>"

section \<open>Extra elements for the driver (\<open>ap/ap_drv_ops.c\<close>)\<close>

datatype extra_buf = Extra_beacon | Extra_proberesp | Extra_assocresp

record extra_ies =
  xi_beacon :: "wpabuf option"
  xi_proberesp :: "wpabuf option"
  xi_assocresp :: "wpabuf option"

definition extra_get :: "extra_buf \<Rightarrow> extra_ies \<Rightarrow> wpabuf option" where
  "extra_get w x = (case w of Extra_beacon \<Rightarrow> xi_beacon x | Extra_proberesp \<Rightarrow> xi_proberesp x | Extra_assocresp \<Rightarrow> xi_assocresp x)"

definition extra_set :: "extra_buf \<Rightarrow> wpabuf option \<Rightarrow> extra_ies \<Rightarrow> extra_ies" where
  "extra_set w v x = (case w of Extra_beacon \<Rightarrow> x\<lparr>xi_beacon := v\<rparr> | Extra_proberesp \<Rightarrow> x\<lparr>xi_proberesp := v\<rparr>
     | Extra_assocresp \<Rightarrow> x\<lparr>xi_assocresp := v\<rparr>)"

text \<open>
  One step: write elements to the local \<open>buf[200]\<close> or take them from a buffer, enlarge a
  buffer and append. A step that cannot enlarge its buffer makes the function fail, except
  for the WPS response and the vendor elements, which are skipped.
\<close>

type_synonym extra_step = "extra_buf \<times> (fault + byte list) \<times> bool"

fun extra_loop :: "(nat \<Rightarrow> bool) \<Rightarrow> nat \<Rightarrow> extra_ies \<Rightarrow> extra_step list \<Rightarrow> fault + extra_ies option" where
  "extra_loop ok n x [] = Inr (Some x)"
| "extra_loop ok n x ((w, src, mandatory) # steps) =
     fbind src (\<lambda>xs.
     case wpabuf_resize (ok n) (extra_get w x) (length xs) of
        (r, q) \<Rightarrow>
          if r \<noteq> 0 then (if mandatory then Inr None else extra_loop ok (n + 1) x steps)
          else (case q of
             None \<Rightarrow> Inl Null_deref
           | Some buf \<Rightarrow> fbind (wpabuf_put_octets buf xs) (\<lambda>buf.
                extra_loop ok (n + 1) (extra_set w (Some buf) x) steps)))"

definition step_buf :: "extra_buf \<Rightarrow> byte list list \<Rightarrow> extra_step list" where
  \<comment> \<open>the elements written to the local buffer, appended when there are any\<close>
  "step_buf w xss =
     (if concat xss = [] then []
      else [(w, fbind (put_all frame_put (empty_frame 200) xss) (\<lambda>b. Inr (fb_data b)), True)])"

definition step_opt :: "extra_buf \<Rightarrow> wpabuf option \<Rightarrow> bool \<Rightarrow> extra_step list" where
  "step_opt w ie mandatory = (case ie of None \<Rightarrow> [] | Some ie \<Rightarrow> [(w, Inr (wpabuf_head ie), mandatory)])"

definition hostapd_build_ap_extra_ies ::
    "build_config \<Rightarrow> ap_env \<Rightarrow> hostapd_iface \<Rightarrow> hostapd_data \<Rightarrow> fault + extra_ies option \<times> hostapd_data" where
  "hostapd_build_ap_extra_ies b ev iface hapd =
     fbind (hostapd_eid_time_adv (ev_now ev) (ev_alloc_time ev) hapd) (\<lambda>(tadv, hapd).
     let capab = hostapd_eid_ext_capab b iface hapd;
         iw = [capab, hostapd_eid_interworking b hapd, hostapd_eid_adv_proto b hapd,
               hostapd_eid_roaming_consortium b hapd] in
     fbind (extra_loop (ev_alloc_extra ev) 0 \<lparr>xi_beacon = None, xi_proberesp = None, xi_assocresp = None\<rparr>
        (step_buf Extra_beacon [tadv]
         @ step_buf Extra_proberesp [tadv, hostapd_eid_time_zone hapd]
         @ step_buf Extra_assocresp [capab]
         @ step_buf Extra_beacon iw @ step_buf Extra_proberesp iw
         @ step_opt Extra_beacon (hd_wps_beacon_ie hapd) True
         @ step_opt Extra_proberesp (hd_wps_probe_resp_ie hapd) True
         @ (if cfg_wps b \<and> bc_wps_state (hd_conf hapd) \<noteq> 0
            then step_opt Extra_assocresp (ev_wps_assoc_resp_ie ev) False else [])
         @ step_opt Extra_beacon (bc_vendor_elements (hd_conf hapd)) False
         @ step_opt Extra_proberesp (bc_vendor_elements (hd_conf hapd)) False))
       (\<lambda>x. Inr (x, hapd)))"

section \<open>Setting the beacon\<close>

text \<open>
  The result is the status, what is handed to the driver, and the changed state; nothing is
  handed over when a step before it fails.
\<close>

definition ieee802_11_set_beacon ::
    "build_config \<Rightarrow> ap_env \<Rightarrow> hostapd_iface \<Rightarrow> hostapd_data
       \<Rightarrow> fault + int \<times> wpa_driver_ap_params option \<times> hostapd_iface \<times> hostapd_data" where
  "ieee802_11_set_beacon b ev iface hapd =
     (if if_csa_in_progress iface then Inr (-1, None, iface, hapd)
      else let hapd = hapd\<lparr>hd_beacon_set_done := True\<rparr> in
      fbind (ieee802_11_build_ap_params b ev iface hapd) (\<lambda>(params, iface, hapd).
      case params of None \<Rightarrow> Inr (-1, None, iface, hapd) | Some params \<Rightarrow>
      fbind (hostapd_build_ap_extra_ies b ev iface hapd) (\<lambda>(extra, hapd).
      case extra of None \<Rightarrow> Inr (-1, None, iface, hapd) | Some x \<Rightarrow>
      let c = if_conf iface;
          freq = (case if_current_mode iface of
                    None \<Rightarrow> None
                  | Some mode \<Rightarrow>
                      hostapd_set_freq_params (ic_hw_mode c) (if_freq iface) (int (unat (ic_channel c)))
                        (ic_ieee80211n c) (ic_ieee80211ac c) (ic_secondary_channel c) (ic_vht_oper_chwidth c)
                        (int (unat (ic_vht_oper_centr_freq_seg0_idx c)))
                        (int (unat (ic_vht_oper_centr_freq_seg1_idx c))) (hm_vht_capab mode));
          params = params\<lparr>ap_beacon_ies := xi_beacon x, ap_proberesp_ies := xi_proberesp x,
                          ap_assocresp_ies := xi_assocresp x, ap_freq := freq\<rparr>
      in Inr (if ev_set_ap ev \<noteq> 0 then -1 else 0, Some params, iface, hapd))))"

text \<open>
  All BSSs of an interface; \<open>update\<close> leaves those out whose beacon was never set. An error
  of one BSS does not stop the loop.
\<close>

fun set_beacons_loop :: "build_config \<Rightarrow> ap_env \<Rightarrow> (hostapd_data \<Rightarrow> bool) \<Rightarrow> int \<Rightarrow> hostapd_iface
    \<Rightarrow> hostapd_data list \<Rightarrow> fault + int \<times> wpa_driver_ap_params list \<times> hostapd_iface \<times> hostapd_data list" where
  "set_beacons_loop b ev cond ret iface [] = Inr (ret, [], iface, [])"
| "set_beacons_loop b ev cond ret iface (h # hs) =
     (if \<not> cond h
      then fbind (set_beacons_loop b ev cond ret iface hs) (\<lambda>(r, ps, iface, hs). Inr (r, ps, iface, h # hs))
      else fbind (ieee802_11_set_beacon b ev iface h) (\<lambda>(r, p, iface, h).
           fbind (set_beacons_loop b ev cond (if r < 0 then -1 else ret) iface hs) (\<lambda>(r, ps, iface, hs).
           Inr (r, (case p of None \<Rightarrow> ps | Some p \<Rightarrow> p # ps), iface, h # hs))))"

definition ieee802_11_set_beacons ::
    "build_config \<Rightarrow> ap_env \<Rightarrow> hostapd_iface \<Rightarrow> hostapd_data list
       \<Rightarrow> fault + int \<times> wpa_driver_ap_params list \<times> hostapd_iface \<times> hostapd_data list" where
  "ieee802_11_set_beacons b ev iface bss = set_beacons_loop b ev hd_started 0 iface bss"

definition ieee802_11_update_beacons ::
    "build_config \<Rightarrow> ap_env \<Rightarrow> hostapd_iface \<Rightarrow> hostapd_data list
       \<Rightarrow> fault + int \<times> wpa_driver_ap_params list \<times> hostapd_iface \<times> hostapd_data list" where
  "ieee802_11_update_beacons b ev iface bss =
     set_beacons_loop b ev (\<lambda>h. hd_beacon_set_done h \<and> hd_started h) 0 iface bss"

section \<open>What a successful run returns\<close>

lemmas beacon_bind = fbind_Inr_iff Let_def

lemma time_adv_keeps:
  assumes "hostapd_eid_time_adv clock ok hapd = Inr (bs, hapd')"
  shows "hapd' = hapd\<lparr>hd_time_adv := hd_time_adv hapd', hd_time_update_counter := hd_time_update_counter hapd'\<rparr>"
proof -
  have u: "h = hapd\<lparr>hd_time_adv := hd_time_adv h, hd_time_update_counter := hd_time_update_counter h\<rparr>"
    if "hostapd_update_time_adv clock ok hapd = Inr (r, h)" for r h
    using that unfolding hostapd_update_time_adv_def Let_def
    by (auto simp: fbind_Inr_iff split: if_splits option.splits)
  show ?thesis
    using assms u unfolding hostapd_eid_time_adv_def
    by (auto simp: fbind_Inr_iff split: if_splits option.splits)
qed

lemma time_adv_fields:
  assumes "hostapd_eid_time_adv clock ok hapd = Inr (bs, hapd')"
  shows "hd_current_beacon_size hapd' = hd_current_beacon_size hapd" "hd_conf hapd' = hd_conf hapd"
    "hd_vendorspec_beacon_ie hapd' = hd_vendorspec_beacon_ie hapd" "hd_beacon_set_done hapd' = hd_beacon_set_done hapd"
    "hd_wps_beacon_ie hapd' = hd_wps_beacon_ie hapd" "hd_started hapd' = hd_started hapd"
  by (subst time_adv_keeps [OF assms]; simp)+

lemma gen_probe_resp_keeps:
  assumes "hostapd_gen_probe_resp b ev iface hapd sta sa = Inr (r, iface', hapd')"
  shows "hd_current_beacon_size hapd' = hd_current_beacon_size hapd" "hd_conf hapd' = hd_conf hapd"
    "hd_vendorspec_beacon_ie hapd' = hd_vendorspec_beacon_ie hapd" "hd_beacon_set_done hapd' = hd_beacon_set_done hapd"
  using assms time_adv_fields
  by (auto simp: hostapd_gen_probe_resp_def probe_resp_fragments_def beacon_bind split: if_splits)

lemma frame_built:
  assumes "put_all frame_put (empty_frame n) xss = Inr fb"
  shows "fb_data fb = concat xss \<and> length (concat xss) \<le> n"
proof -
  have "wf_frame (empty_frame n)" by (simp add: wf_frame_def empty_frame_def)
  from frame.put_all_InrD [OF this assms] show ?thesis by (simp add: empty_frame_def frame_room_def)
qed

lemma frame_overflows:
  assumes "n < length (concat xss)"
  shows "\<exists>k. put_all frame_put (empty_frame n) xss = Inl (Write_past_end n k) \<and> n < k"
proof -
  have "\<exists>k. put_all frame_put b xss = Inl (Write_past_end (fb_cap b) k) \<and> fb_cap b < k"
    if "wf_frame b" "frame_room b < length (concat xss)" for b
    using that
  proof (induction xss arbitrary: b)
    case (Cons xs xss)
    show ?case
    proof (cases "length (fb_data b) + length xs > fb_cap b")
      case True
      then show ?thesis by (simp add: frame_put_def)
    next
      case False
      let ?c = "b\<lparr>fb_data := fb_data b @ xs\<rparr>"
      have "wf_frame ?c" "frame_room ?c < length (concat xss)"
        using False Cons.prems by (auto simp: wf_frame_def frame_room_def)
      from Cons.IH [OF this] False show ?thesis by (simp add: frame_put_def Let_def)
    qed
  qed simp
  from this [of "empty_frame n"] assms show ?thesis
    by (simp add: wf_frame_def empty_frame_def frame_room_def)
qed

lemma build_result:
  assumes "ieee802_11_build_ap_params b ev iface hapd = Inr (Some p, iface', hapd')"
  shows "\<exists>capab frags csa h. hostapd_own_capab_info iface hapd None False = Inr capab
    \<and> beacon_tail_fragments b ev iface hapd = Inr (frags, csa, h)
    \<and> ap_head p = concat (beacon_head_fragments iface hapd capab)
    \<and> length (concat (beacon_head_fragments iface hapd capab)) \<le> BEACON_HEAD_BUF_SIZE
    \<and> ap_tail p = concat frags \<and> length (concat frags) \<le> beacon_tail_size b hapd
    \<and> hd_current_beacon_size hapd' =
        length (concat frags) + (length (concat (beacon_head_fragments iface hapd capab)) - 36) + 18"
proof -
  obtain capab head frags csa h tail resp where
    c: "hostapd_own_capab_info iface hapd None False = Inr capab"
    and hd: "put_all frame_put (empty_frame BEACON_HEAD_BUF_SIZE) (beacon_head_fragments iface hapd capab) = Inr head"
    and fr: "beacon_tail_fragments b ev iface hapd = Inr (frags, csa, h)"
    and tl: "put_all frame_put (empty_frame (beacon_tail_size b hapd)) frags = Inr tail"
    and rs: "hostapd_probe_resp_offloads b ev (iface\<lparr>if_cs_c_off_beacon := csa\<rparr>)
      (h\<lparr>hd_current_beacon_size := length (fb_data tail) + (length (fb_data head) - 36) + 6 + 8 + 2 + 2\<rparr>)
        = Inr (resp, iface', hapd')"
    and p: "p = ap_params_of iface' hapd' (fb_data head) (fb_data tail) resp"
    using assms unfolding ieee802_11_build_ap_params_def
    by (auto simp: beacon_bind split: if_splits)
  have "hd_current_beacon_size hapd' = length (fb_data tail) + (length (fb_data head) - 36) + 18"
    using rs gen_probe_resp_keeps(1)
    by (auto simp: hostapd_probe_resp_offloads_def split: if_splits)
  with c fr p frame_built [OF hd] frame_built [OF tl] show ?thesis
    by (auto simp: ap_params_of_def Let_def)
qed

section \<open>The configuration in its limits\<close>

definition opt_elements :: "wpabuf option \<Rightarrow> bool" where
  "opt_elements b \<longleftrightarrow> (\<forall>m \<in> set_option b. wf_wpabuf m \<and> element_seq (wpabuf_head m))"

definition bss_ok :: "hostapd_iface \<Rightarrow> hostapd_data \<Rightarrow> bool" where
  "bss_ok iface hapd \<longleftrightarrow>
     length (hd_own_addr hapd) = 6 \<and> length (ss_ssid (bc_ssid (hd_conf hapd))) \<le> 32
     \<and> length (bc_time_zone (hd_conf hapd)) \<le> 255
     \<and> list_all (\<lambda>oi. length oi \<le> 15) (bc_roaming_consortium (hd_conf hapd))
     \<and> (\<forall>mode. if_current_mode iface = Some mode \<longrightarrow> length (hm_channels mode) \<le> 83)
     \<and> (\<forall>rates. if_current_rates iface = Some rates \<longrightarrow> length rates \<le> 255)
     \<and> (\<forall>ie. hd_wpa_ie hapd = Some ie \<longrightarrow> element_seq ie)
     \<and> opt_elements (hd_wps_beacon_ie hapd) \<and> opt_elements (hd_wps_probe_resp_ie hapd)
     \<and> opt_elements (bc_vendor_elements (hd_conf hapd)) \<and> time_adv_ok hapd"

lemma opt_elements_seq [element_seq]: "opt_elements b \<Longrightarrow> element_seq (opt_octets b)"
  by (cases b) (simp_all add: opt_elements_def opt_octets_def)

lemma wps_octets_seq [element_seq]: "opt_elements ie \<Longrightarrow> element_seq (wps_octets b hapd ie)"
  by (simp add: wps_octets_def opt_elements_seq)

lemma wpa_seq [element_seq]:
  "\<forall>ie. hd_wpa_ie hapd = Some ie \<longrightarrow> element_seq ie \<Longrightarrow> element_seq (hostapd_eid_wpa hapd n)"
  by (simp add: hostapd_eid_wpa_def split: option.split)

lemma element_seq_concat: "\<forall>xs \<in> set xss. element_seq xs \<Longrightarrow> element_seq (concat xss)"
  by (induction xss) (auto intro: element_seq_append)

lemma ssid_element_seq [element_seq]:
  "length (ss_ssid (bc_ssid (hd_conf hapd))) \<le> 32 \<Longrightarrow> element_seq (ssid_element hapd)"
  by (simp add: ssid_element_def Let_def element_seq_body)

lemma beacon_ssid_seq [element_seq]:
  assumes "length (ss_ssid (bc_ssid (hd_conf hapd))) \<le> 32"
  shows "element_seq (beacon_ssid hapd)"
proof -
  have "element_seq (WLAN_EID_SSID # word_of_nat (length (replicate (length (ss_ssid (bc_ssid (hd_conf hapd)))) (0 :: byte)))
     # replicate (length (ss_ssid (bc_ssid (hd_conf hapd)))) 0)"
    by (rule element_seq_body) (use assms in simp)
  with ssid_element_seq [OF assms] show ?thesis
    by (simp add: beacon_ssid_def Let_def element_seq_one)
qed

lemma length_supp_rates: "length (hostapd_eid_supp_rates iface) \<le> 10"
  by (auto simp: hostapd_eid_supp_rates_def Let_def num_rate_entries_def min_def split: option.split)

lemma length_mgmt_header [simp]:
  "length (mgmt_header fc da addr bi capab) = 24 + length da + 2 * length addr - 6"
  by (simp add: mgmt_header_def)

lemma tail_fragments_all:
  assumes "beacon_tail_fragments b ev iface hapd = Inr (frags, csa, h)" and "bss_ok iface hapd"
    and "opt_elements (hd_vendorspec_beacon_ie hapd)"
  shows "\<forall>xs \<in> set frags. element_seq xs"
proof -
  obtain pwr tadv where pwr: "hostapd_eid_pwr_constraint iface = Inr pwr"
    and tadv: "hostapd_eid_time_adv (ev_now ev) (ev_alloc_time ev) hapd = Inr (tadv, h)"
    using assms(1) by (auto simp: beacon_tail_fragments_def beacon_bind)
  have ta: "element_seq tadv" using time_adv_seq [of hapd "ev_now ev" "ev_alloc_time ev"] tadv assms(2)
    by (auto simp: bss_ok_def)
  note same = time_adv_fields [OF tadv]
  obtain n k where frags: "frags = [hostapd_eid_country iface 2064, pwr, hostapd_eid_erp_info iface,
      hostapd_eid_ext_supp_rates iface, hostapd_eid_wpa hapd n, hostapd_eid_ext_capab b iface hapd, tadv,
      hostapd_eid_interworking b h, hostapd_eid_adv_proto b h, hostapd_eid_roaming_consortium b h,
      fst (hostapd_add_csa_elems iface k), hostapd_eid_wmm iface h, wps_octets b h (hd_wps_beacon_ie h),
      opt_octets (hd_vendorspec_beacon_ie h), opt_octets (bc_vendor_elements (hd_conf h))]"
    using assms(1) by (auto simp: beacon_tail_fragments_def pwr tadv Let_def)
  note ok = assms(2) [unfolded bss_ok_def]
  have rc: "list_all (\<lambda>oi. length oi \<le> 15) (bc_roaming_consortium (hd_conf h))" using ok same(2) by simp
  have opts: "opt_elements (hd_wps_beacon_ie h)" "opt_elements (hd_vendorspec_beacon_ie h)"
    "opt_elements (bc_vendor_elements (hd_conf h))" using ok same assms(3) by simp_all
  have iface: "\<forall>mode. if_current_mode iface = Some mode \<longrightarrow> length (hm_channels mode) \<le> 83"
    "\<forall>rates. if_current_rates iface = Some rates \<longrightarrow> length rates \<le> 255"
    "\<forall>ie. hd_wpa_ie hapd = Some ie \<longrightarrow> element_seq ie" using ok by simp_all
  show ?thesis
    unfolding frags using pwr_constraint_seq [OF pwr] ta
    by (simp add: country_seq [OF iface(1)] ext_supp_rates_seq [OF iface(2)] wpa_seq [OF iface(3)]
        roaming_consortium_seq [OF rc] opts erp_info_seq ext_capab_seq interworking_seq adv_proto_seq csa_seq wmm_seq
        wps_octets_seq opt_elements_seq)
qed

lemmas tail_fragments_seq = tail_fragments_all [THEN element_seq_concat]


lemma head_fragments:
  assumes "bss_ok iface hapd"
  shows "element_seq (drop 36 (concat (beacon_head_fragments iface hapd capab)))"
    and "36 \<le> length (concat (beacon_head_fragments iface hapd capab))"
    and "length (concat (beacon_head_fragments iface hapd capab)) \<le> 83"
proof -
  let ?hdr = "mgmt_header (IEEE80211_FC WLAN_FC_TYPE_MGMT WLAN_FC_STYPE_BEACON) (replicate 6 0xff) (hd_own_addr hapd)
        (ic_beacon_int (if_conf iface)) capab"
  have h: "length ?hdr = 36" using assms by (simp add: bss_ok_def)
  have f: "concat (beacon_head_fragments iface hapd capab) =
      ?hdr @ beacon_ssid hapd @ hostapd_eid_supp_rates iface @ hostapd_eid_ds_params iface"
    by (simp add: beacon_head_fragments_def)
  have s: "length (ss_ssid (bc_ssid (hd_conf hapd))) \<le> 32" using assms by (simp add: bss_ok_def)
  have "length (beacon_ssid hapd) \<le> 34" using s by (simp add: beacon_ssid_def ssid_element_def Let_def)
  moreover have "length (hostapd_eid_ds_params iface) = 3" by (simp add: hostapd_eid_ds_params_def)
  ultimately show "36 \<le> length (concat (beacon_head_fragments iface hapd capab))"
    "length (concat (beacon_head_fragments iface hapd capab)) \<le> 83"
    unfolding f using h length_supp_rates [of iface] by auto
  have "drop 36 (concat (beacon_head_fragments iface hapd capab)) =
      beacon_ssid hapd @ hostapd_eid_supp_rates iface @ hostapd_eid_ds_params iface"
    unfolding f using h by simp
  then show "element_seq (drop 36 (concat (beacon_head_fragments iface hapd capab)))"
    by (simp add: element_seq s)
qed

definition beacon_body :: "wpa_driver_ap_params \<Rightarrow> byte list" where
  \<comment> \<open>the tagged parameters; the driver inserts the TIM element between the two parts\<close>
  "beacon_body p = drop 36 (ap_head p) @ ap_tail p"

section \<open>The LoWS message in the beacon\<close>

lemma tail_without_message:
  assumes "beacon_tail_fragments b ev iface hapd = Inr (frags, csa, h)"
  shows "\<exists>xs h'. frags = xs @ [opt_octets (hd_vendorspec_beacon_ie hapd), opt_octets (bc_vendor_elements (hd_conf hapd))]
    \<and> beacon_tail_fragments b ev iface (hapd\<lparr>hd_vendorspec_beacon_ie := None\<rparr>) =
        Inr (xs @ [[], opt_octets (bc_vendor_elements (hd_conf hapd))], csa, h')"
proof -
  obtain pwr tadv where pwr: "hostapd_eid_pwr_constraint iface = Inr pwr"
    and tadv: "hostapd_eid_time_adv (ev_now ev) (ev_alloc_time ev) hapd = Inr (tadv, h)"
    using assms(1) by (auto simp: beacon_tail_fragments_def beacon_bind)
  let ?g = "hapd\<lparr>hd_vendorspec_beacon_ie := None\<rparr>"
  have u: "hostapd_update_time_adv c ok ?g = (case hostapd_update_time_adv c ok hapd of
      Inl e \<Rightarrow> Inl e | Inr (r, x) \<Rightarrow> Inr (r, x\<lparr>hd_vendorspec_beacon_ie := None\<rparr>))" for c ok
    by (auto simp: hostapd_update_time_adv_def Let_def fbind_def split: option.split sum.split)
  have tadv': "hostapd_eid_time_adv (ev_now ev) (ev_alloc_time ev) ?g = Inr (tadv, h\<lparr>hd_vendorspec_beacon_ie := None\<rparr>)"
    using tadv unfolding hostapd_eid_time_adv_def
    by (auto simp: u fbind_def split: option.splits sum.splits if_splits)
  note same = time_adv_fields [OF tadv]
  let ?k = "h\<lparr>hd_vendorspec_beacon_ie := None\<rparr>"
  have wpa: "hostapd_eid_wpa ?g n = hostapd_eid_wpa hapd n" for n
    by (simp add: hostapd_eid_wpa_def)
  have cap: "hostapd_eid_ext_capab b iface ?g = hostapd_eid_ext_capab b iface hapd"
  proof -
    have "ext_capab_octet b iface ?g i = ext_capab_octet b iface hapd i" for i
      by (simp add: ext_capab_octet_def hostapd_ext_capab_byte_def)
    then have "ext_capab_octet b iface ?g = ext_capab_octet b iface hapd" ..
    moreover have "ext_capab_len b iface ?g = ext_capab_len b iface hapd" by (simp add: ext_capab_len_def)
    ultimately show ?thesis by (simp only: hostapd_eid_ext_capab_def)
  qed
  have k: "hd_conf ?k = hd_conf h" "hd_parameter_set_count ?k = hd_parameter_set_count h" by simp_all
  have iw: "hostapd_eid_interworking b ?k = hostapd_eid_interworking b h"
    "hostapd_eid_adv_proto b ?k = hostapd_eid_adv_proto b h"
    "hostapd_eid_roaming_consortium b ?k = hostapd_eid_roaming_consortium b h"
    by (simp_all only: hostapd_eid_interworking_def hostapd_eid_adv_proto_def hostapd_eid_roaming_consortium_def k)
  have wmm: "hostapd_eid_wmm iface ?k = hostapd_eid_wmm iface h" "wps_octets b ?k = wps_octets b h"
    by (simp_all only: hostapd_eid_wmm_def wmm_qos_info_def wps_octets_def k fun_eq_iff simp_thms)
  have none: "opt_octets None = []" by (simp add: opt_octets_def)
  obtain xs k where xs: "frags = xs @ [opt_octets (hd_vendorspec_beacon_ie h), opt_octets (bc_vendor_elements (hd_conf h))]"
    and without: "beacon_tail_fragments b ev iface ?g = Inr (xs @ [[], opt_octets (bc_vendor_elements (hd_conf h))], csa, ?k)"
    using assms by (simp add: beacon_tail_fragments_def pwr tadv tadv' wpa cap iw wmm none Let_def)
  show ?thesis
    by (intro exI [of _ xs] exI [of _ ?k] conjI) (simp_all add: xs without same)
qed

lemma element_seq_after:
  assumes "element_seq xs"
  shows "element_seq (xs @ ys) \<longleftrightarrow> element_seq ys"
proof -
  have tail: "element_seq zs" if "element_seq (enc_element e @ zs)" "wf_element e" for e zs
  proof -
    from that(1) obtain es where es: "list_all wf_element es" "enc_element e @ zs = enc_elements es"
      by (auto simp: element_seq_def)
    from es(2) obtain f fs where f: "es = f # fs" by (cases es; cases e) (auto simp: enc_element_def)
    have len: "(word_of_nat m :: byte) = word_of_nat n \<Longrightarrow> m < 256 \<Longrightarrow> n < 256 \<Longrightarrow> m = n" for m n
      by (drule arg_cong [where f = unat]) (simp add: unat_of_nat)
    have "zs = enc_elements fs"
      using es that(2) unfolding f by (cases e; cases f) (auto simp: enc_element_def wf_element_def dest!: len)
    with es(1) f show ?thesis by (auto simp: element_seq_def)
  qed
  have "element_seq ys" if "element_seq (enc_elements es @ ys)" "list_all wf_element es" for es
    using that by (induction es) (auto intro: tail)
  with assms show ?thesis by (metis element_seq_append element_seq_def)
qed

lemma set_beacon_built:
  assumes "ieee802_11_set_beacon b ev iface hapd = Inr (r, Some p, iface', hapd')"
  shows "\<exists>q i h. ieee802_11_build_ap_params b ev iface (hapd\<lparr>hd_beacon_set_done := True\<rparr>) = Inr (Some q, i, h)
    \<and> ap_head p = ap_head q \<and> ap_tail p = ap_tail q \<and> hd_current_beacon_size hapd' = hd_current_beacon_size h"
proof -
  obtain q i h x where q: "ieee802_11_build_ap_params b ev iface (hapd\<lparr>hd_beacon_set_done := True\<rparr>) = Inr (Some q, i, h)"
    and x: "hostapd_build_ap_extra_ies b ev i h = Inr (Some x, hapd')"
    and p: "ap_head p = ap_head q" "ap_tail p = ap_tail q"
    using assms unfolding ieee802_11_set_beacon_def
    by (auto simp: beacon_bind split: if_splits option.splits)
  have "hd_current_beacon_size hapd' = hd_current_beacon_size h"
    using x time_adv_fields(1,3) unfolding hostapd_build_ap_extra_ies_def by (auto simp: beacon_bind)
  with q p show ?thesis by blast
qed

text \<open>
  C3: which beacons are well formed. Whatever \<open>ieee802_11_set_beacon\<close> hands to the driver, with a
  configuration in its limits and any LoWS message, starts with a header of 36 octets. What follows is
  a sequence of complete elements exactly when the message, followed by the \<open>vendor_elements\<close> of the
  configuration, is one, and exactly then no receiver's parser rejects it: a message that is not made of
  elements, which \<open>ADD_IE\<close> accepts, spoils every beacon. \<open>current_beacon_size\<close> is the length of the frame
  body including the six octets of the TIM element the driver inserts.
\<close>

theorem beacon_well_formed:
  assumes "bss_ok iface hapd"
    and "ieee802_11_set_beacon b ev iface hapd = Inr (r, Some p, iface', hapd')"
  shows "36 \<le> length (ap_head p)
    \<and> (element_seq (beacon_body p)
        \<longleftrightarrow> element_seq (opt_octets (hd_vendorspec_beacon_ie hapd) @ opt_octets (bc_vendor_elements (hd_conf hapd))))
    \<and> (fst (ieee802_11_parse_elems (beacon_body p)) \<noteq> ParseFailed \<longleftrightarrow> element_seq (beacon_body p))
    \<and> hd_current_beacon_size hapd' = length (drop 24 (ap_head p)) + 6 + length (ap_tail p)"
proof -
  let ?h = "hapd\<lparr>hd_beacon_set_done := True\<rparr>" and ?post = "[opt_octets (hd_vendorspec_beacon_ie hapd), opt_octets (bc_vendor_elements (hd_conf hapd))]"
  obtain q i h where q: "ieee802_11_build_ap_params b ev iface ?h = Inr (Some q, i, h)"
    and p: "ap_head p = ap_head q" "ap_tail p = ap_tail q" "hd_current_beacon_size hapd' = hd_current_beacon_size h"
    using set_beacon_built [OF assms(2)] by blast
  have ok: "bss_ok iface ?h" "bss_ok iface (?h\<lparr>hd_vendorspec_beacon_ie := None\<rparr>)"
    using assms(1) by (simp_all add: bss_ok_def time_adv_ok_def)
  obtain capab frags csa k where r: "beacon_tail_fragments b ev iface ?h = Inr (frags, csa, k)"
    "ap_head q = concat (beacon_head_fragments iface ?h capab)" "ap_tail q = concat frags"
    "hd_current_beacon_size h = length (concat frags) + (length (concat (beacon_head_fragments iface ?h capab)) - 36) + 18"
    using build_result [OF q] by blast
  obtain xs k' where xs: "frags = xs @ ?post"
    "beacon_tail_fragments b ev iface (?h\<lparr>hd_vendorspec_beacon_ie := None\<rparr>) = Inr (xs @ [[], ?post ! 1], csa, k')"
    using tail_without_message [OF r(1)] by auto
  have "element_seq (concat xs)"
    using tail_fragments_all [OF xs(2) ok(2)] by (intro element_seq_concat) (simp add: opt_elements_def)
  with head_fragments(1) [OF ok(1)] have pre: "element_seq (drop 36 (ap_head q) @ concat xs)"
    unfolding r(2) by (rule element_seq_append)
  have "beacon_body p = (drop 36 (ap_head q) @ concat xs) @ concat ?post" by (simp add: beacon_body_def p r(3) xs(1))
  with element_seq_after [OF pre] parse_fails [of "beacon_body p"] head_fragments(2) [OF ok(1), of capab]
  show ?thesis by (auto simp: element_seq_def p r)
qed

lemma beacon_bodies:
  assumes "bss_ok iface hapd" and "opt_elements (hd_vendorspec_beacon_ie hapd)"
    and "ieee802_11_build_ap_params b ev iface hapd = Inr (Some p, iface1, hapd1)"
  shows "\<exists>es fs. list_all wf_element es \<and> list_all wf_element fs
    \<and> beacon_body p = enc_elements es @ opt_octets (hd_vendorspec_beacon_ie hapd) @ enc_elements fs
    \<and> hd_current_beacon_size hapd1 = length (beacon_body p) + 18
    \<and> (\<forall>q i h. ieee802_11_build_ap_params b ev iface (hapd\<lparr>hd_vendorspec_beacon_ie := None\<rparr>) = Inr (Some q, i, h) \<longrightarrow>
        beacon_body q = enc_elements es @ enc_elements fs \<and> hd_current_beacon_size h = length (beacon_body q) + 18)"
proof -
  let ?g = "hapd\<lparr>hd_vendorspec_beacon_ie := None\<rparr>" and ?post = "opt_octets (bc_vendor_elements (hd_conf hapd))"
  obtain capab frags csa h where r: "hostapd_own_capab_info iface hapd None False = Inr capab"
    "beacon_tail_fragments b ev iface hapd = Inr (frags, csa, h)"
    "ap_head p = concat (beacon_head_fragments iface hapd capab)" "ap_tail p = concat frags"
    "hd_current_beacon_size hapd1 =
        length (concat frags) + (length (concat (beacon_head_fragments iface hapd capab)) - 36) + 18"
    using build_result [OF assms(3)] by blast
  obtain xs h' where xs: "frags = xs @ [opt_octets (hd_vendorspec_beacon_ie hapd), ?post]"
    "beacon_tail_fragments b ev iface ?g = Inr (xs @ [[], ?post], csa, h')"
    using tail_without_message [OF r(2)] by blast
  from tail_fragments_all [OF r(2) assms(1,2)] have pre: "element_seq (concat xs)" and post: "element_seq ?post"
    unfolding xs by (auto intro: element_seq_concat)
  have "element_seq (drop 36 (ap_head p) @ concat xs)"
    using head_fragments(1) [OF assms(1), of capab] pre unfolding r(3) by (rule element_seq_append)
  then obtain es where es: "list_all wf_element es" "drop 36 (ap_head p) @ concat xs = enc_elements es"
    by (auto simp: element_seq_def)
  obtain fs where fs: "list_all wf_element fs" "?post = enc_elements fs" using post by (auto simp: element_seq_def)
  have len: "length (enc_elements es) = length (ap_head p) - 36 + length (concat xs)" by (simp flip: es(2))
  have body: "beacon_body p = enc_elements es @ opt_octets (hd_vendorspec_beacon_ie hapd) @ enc_elements fs"
    using es(2) fs(2) by (simp add: beacon_body_def r(4) xs(1) append_assoc [symmetric] del: append_assoc)
  have other: "beacon_body q = enc_elements es @ enc_elements fs \<and> hd_current_beacon_size h2 = length (beacon_body q) + 18"
    if built: "ieee802_11_build_ap_params b ev iface ?g = Inr (Some q, i2, h2)" for q i2 h2
  proof -
    obtain capab2 frags2 csa2 k where q: "hostapd_own_capab_info iface ?g None False = Inr capab2"
      "beacon_tail_fragments b ev iface ?g = Inr (frags2, csa2, k)"
      "ap_head q = concat (beacon_head_fragments iface ?g capab2)" "ap_tail q = concat frags2"
      "hd_current_beacon_size h2 =
        length (concat frags2) + (length (concat (beacon_head_fragments iface ?g capab2)) - 36) + 18"
      using build_result [OF built] by blast
    have "hostapd_own_capab_info iface ?g None False = hostapd_own_capab_info iface hapd None False"
      by (simp add: hostapd_own_capab_info_def bss_privacy_def)
    moreover have "beacon_head_fragments iface ?g capab = beacon_head_fragments iface hapd capab"
      by (simp add: beacon_head_fragments_def beacon_ssid_def ssid_element_def Let_def)
    ultimately have head: "ap_head q = ap_head p" "concat (beacon_head_fragments iface ?g capab2) = ap_head p"
      using r(1,3) q(1,3) by simp_all
    have "ap_tail q = concat xs @ enc_elements fs" using q(2,4) xs(2) fs(2) by auto
    then show ?thesis using es(2) q(4,5) head len by (simp add: beacon_body_def append_assoc [symmetric] del: append_assoc)
  qed
  have "hd_current_beacon_size hapd1 = length (beacon_body p) + 18"
    using r by (simp add: beacon_body_def)
  with es(1) fs(1) body other show ?thesis by blast
qed

text \<open>
  C1: the LoWS message is carried, and disturbs nobody. Let the message be one vendor element
  with a foreign OUI. Then it stands as a complete element in the broadcast frame body, and
  what any other station reads from the beacon is what it would read without the message:
  the same elements are recorded, and the only difference is the report of an unknown
  element.
\<close>

theorem lows_message_transparent:
  assumes "bss_ok iface hapd" and "hd_vendorspec_beacon_ie hapd = Some m" and "wf_wpabuf m"
    and "wpabuf_head m = enc_element v" and "wf_element v" and "foreign_vendor v"
    and "ieee802_11_build_ap_params b ev iface hapd = Inr (Some p, iface1, hapd1)"
    and "ieee802_11_build_ap_params b ev iface (hapd\<lparr>hd_vendorspec_beacon_ie := None\<rparr>) = Inr (Some q, iface2, hapd2)"
  shows "(\<exists>es fs. beacon_body p = enc_elements (es @ v # fs) \<and> beacon_body q = enc_elements (es @ fs))
    \<and> ieee802_11_parse_elems (beacon_body p) = (ParseUnknown, snd (ieee802_11_parse_elems (beacon_body q)))
    \<and> hd_current_beacon_size hapd1 = hd_current_beacon_size hapd2 + length (enc_element v)"
proof -
  have msg: "opt_elements (hd_vendorspec_beacon_ie hapd)" "opt_octets (hd_vendorspec_beacon_ie hapd) = enc_element v"
    using assms(2-5) by (auto simp: opt_elements_def opt_octets_def element_seq_def intro!: exI [of _ "[v]"])
  from beacon_bodies [OF assms(1) msg(1) assms(7)] assms(8) msg(2) obtain es fs where
    wf: "list_all wf_element es" "list_all wf_element fs"
    and p: "beacon_body p = enc_elements (es @ v # fs)" and q: "beacon_body q = enc_elements (es @ fs)"
    and size: "hd_current_beacon_size hapd1 = length (beacon_body p) + 18"
      "hd_current_beacon_size hapd2 = length (beacon_body q) + 18" by auto
  have "list_all wf_element (es @ v # fs)" using wf assms(5) by simp
  from parse_without_vendor [OF this assms(6)] size show ?thesis unfolding p q by auto
qed

section \<open>The room in the beacon\<close>

lemma beacon_room:
  assumes "bss_ok iface hapd" and "ev_alloc_head ev" and "ev_alloc_tail ev"
    and "\<not> flag_set (if_drv_flags iface) WPA_DRIVER_FLAGS_PROBE_RESP_OFFLOAD"
    and "hostapd_own_capab_info iface hapd None False = Inr capab"
    and "beacon_tail_fragments b ev iface hapd = Inr (frags, csa, h)"
  shows "(length (concat frags) \<le> beacon_tail_size b hapd \<longrightarrow>
       (\<exists>p iface' hapd'. ieee802_11_build_ap_params b ev iface hapd = Inr (Some p, iface', hapd')))
    \<and> (beacon_tail_size b hapd < length (concat frags) \<longrightarrow>
       (\<exists>n. ieee802_11_build_ap_params b ev iface hapd = Inl (Write_past_end (beacon_tail_size b hapd) n)))
    \<and> length (opt_octets (hd_vendorspec_beacon_ie hapd)) + length (opt_octets (bc_vendor_elements (hd_conf hapd)))
        \<le> length (concat frags)"
proof -
  have wf: "wf_frame (empty_frame n)" for n by (simp add: wf_frame_def empty_frame_def)
  have room: "frame_room (empty_frame n) = n" for n by (simp add: frame_room_def empty_frame_def)
  have "length (concat (beacon_head_fragments iface hapd capab)) \<le> frame_room (empty_frame BEACON_HEAD_BUF_SIZE)"
    using head_fragments(3) [OF assms(1), of capab] by (simp add: room)
  from frame.put_all_fits [OF wf this] obtain head where
    head: "put_all frame_put (empty_frame BEACON_HEAD_BUF_SIZE) (beacon_head_fragments iface hapd capab) = Inr head" by blast
  let ?size = "beacon_tail_size b hapd"
  have run: "ieee802_11_build_ap_params b ev iface hapd =
      fbind (put_all frame_put (empty_frame ?size) frags) (\<lambda>tail.
        Inr (Some (ap_params_of (iface\<lparr>if_cs_c_off_beacon := csa\<rparr>)
            (h\<lparr>hd_current_beacon_size := length (fb_data tail) + (length (fb_data head) - 36) + 6 + 8 + 2 + 2\<rparr>)
            (fb_data head) (fb_data tail) None),
          iface\<lparr>if_cs_c_off_beacon := csa\<rparr>,
          h\<lparr>hd_current_beacon_size := length (fb_data tail) + (length (fb_data head) - 36) + 6 + 8 + 2 + 2\<rparr>))"
    using assms(2-6) head
    by (simp add: ieee802_11_build_ap_params_def hostapd_probe_resp_offloads_def Let_def)
  obtain xs where xs: "frags = xs @ [opt_octets (hd_vendorspec_beacon_ie hapd), opt_octets (bc_vendor_elements (hd_conf hapd))]"
    using tail_without_message [OF assms(6)] by blast
  show ?thesis
  proof (intro conjI impI)
    assume "length (concat frags) \<le> ?size"
    then have "length (concat frags) \<le> frame_room (empty_frame ?size)" by (simp add: room)
    from frame.put_all_fits [OF wf this] show "\<exists>p iface' hapd'. ieee802_11_build_ap_params b ev iface hapd = Inr (Some p, iface', hapd')"
      unfolding run by auto
  next
    assume "?size < length (concat frags)"
    from frame_overflows [OF this] show "\<exists>n. ieee802_11_build_ap_params b ev iface hapd = Inl (Write_past_end ?size n)"
      unfolding run by auto
  next
    show "length (opt_octets (hd_vendorspec_beacon_ie hapd)) + length (opt_octets (bc_vendor_elements (hd_conf hapd)))
        \<le> length (concat frags)" by (simp add: xs)
  qed
qed

text \<open>
  C2: a beacon is built exactly when its elements fit into the buffer, and otherwise the
  code writes past the buffer: there is no check. The size of the buffer accounts for the
  configured vendor elements and the WPS element but not for the LoWS message, so that a
  message that fills what the other elements leave of the 2064 octets overflows the heap.
\<close>

theorem beacon_fits_iff:
  assumes "bss_ok iface hapd" and "ev_alloc_head ev" and "ev_alloc_tail ev"
    and "\<not> flag_set (if_drv_flags iface) WPA_DRIVER_FLAGS_PROBE_RESP_OFFLOAD"
    and "hostapd_own_capab_info iface hapd None False = Inr capab"
    and "beacon_tail_fragments b ev iface hapd = Inr (frags, csa, h)"
  shows "(length (concat frags) \<le> beacon_tail_size b hapd \<longrightarrow>
       (\<exists>p iface' hapd'. ieee802_11_build_ap_params b ev iface hapd = Inr (Some p, iface', hapd')))
    \<and> (beacon_tail_size b hapd < length (concat frags) \<longrightarrow>
       (\<exists>n. ieee802_11_build_ap_params b ev iface hapd = Inl (Write_past_end (beacon_tail_size b hapd) n)))
    \<and> length (opt_octets (hd_vendorspec_beacon_ie hapd)) + length (opt_octets (bc_vendor_elements (hd_conf hapd)))
        \<le> length (concat frags)"
  using assms by (rule beacon_room)

section \<open>Probe requests\<close>

lemma ssid_match_loop_elements:
  assumes "list_all wf_element es" and "incomplete tail" and "length tail = 1 \<longrightarrow> behind \<noteq> []"
  shows "ssid_match_loop own behind wildcard (enc_elements es @ tail) =
    Inr (if own \<in> snd ` set es then EXACT_SSID_MATCH
         else if wildcard \<or> [] \<in> snd ` set es then WILDCARD_SSID_MATCH else NO_SSID_MATCH)"
  using assms(1)
proof (induction es arbitrary: wildcard)
  case Nil
  from assms(2) show ?case
  proof (rule incomplete_cases)
    fix eid elen rest assume "tail = eid # elen # rest" "length rest < unat elen"
    then show ?thesis by simp
  qed (use assms(3) in simp_all)
next
  case (Cons e es)
  have e: "wf_element e" using Cons.prems by simp
  note l = unat_length_octet [OF e]
  have z: "(word_of_nat (length (snd e)) = (0 :: byte)) \<longleftrightarrow> snd e = []"
  proof
    assume "word_of_nat (length (snd e)) = (0 :: byte)"
    then have "unat (word_of_nat (length (snd e)) :: byte) = 0" by (simp only: unsigned_0)
    with l show "snd e = []" by simp
  qed simp
  have step: "ssid_match_loop own behind wildcard (enc_elements (e # es) @ tail) =
      (if snd e = own then Inr EXACT_SSID_MATCH
       else ssid_match_loop own behind (wildcard \<or> snd e = []) (enc_elements es @ tail))"
    using l z by (cases "snd e = own") (simp_all add: enc_element_def)
  have "list_all wf_element es" using Cons.prems by simp
  from Cons.IH [OF this, of "wildcard \<or> snd e = []"] show ?case
    unfolding step by (cases "snd e = own") auto
qed

text \<open>
  C14: the SSID check of a probe request. A request matches exactly when it asks for the
  network by its SSID or lists it, matches as wildcard when it does not but has an empty
  SSID or lists one, and does not match otherwise; a request without a list is decided by its SSID
  alone. (A list that ends in a single stray octet at the end of the frame is read one octet too far.)
\<close>

theorem ssid_match_correct:
  assumes "list_all wf_element es" and "incomplete tail" and "length tail = 1 \<longrightarrow> behind \<noteq> []"
  shows "ssid_match hapd ssid None behind =
      Inr (if ss_ssid (bc_ssid (hd_conf hapd)) = ssid then EXACT_SSID_MATCH
           else if ssid = [] then WILDCARD_SSID_MATCH else NO_SSID_MATCH)
    \<and> ssid_match hapd ssid (Some (enc_elements es @ tail)) behind =
      (let own = ss_ssid (bc_ssid (hd_conf hapd)) in
       Inr (if own = ssid \<or> own \<in> snd ` set es then EXACT_SSID_MATCH
            else if ssid = [] \<or> [] \<in> snd ` set es then WILDCARD_SSID_MATCH else NO_SSID_MATCH))
    \<and> ssid_match hapd ssid (Some (enc_elements es @ [x])) [] =
      (let own = ss_ssid (bc_ssid (hd_conf hapd)) in
       if own = ssid \<or> own \<in> snd ` set es then Inr EXACT_SSID_MATCH else Inl (Read_past_end 1 2))"
proof -
  let ?own = "ss_ssid (bc_ssid (hd_conf hapd))"
  have stray: "ssid_match_loop ?own [] w (enc_elements es @ [x]) =
      (if ?own \<in> snd ` set es then Inr EXACT_SSID_MATCH else Inl (Read_past_end 1 2))" for w
    using assms(1)
  proof (induction es arbitrary: w)
    case (Cons e es)
    have e: "wf_element e" using Cons.prems by simp
    have "ssid_match_loop ?own [] w (enc_elements (e # es) @ [x]) =
      (if snd e = ?own then Inr EXACT_SSID_MATCH
       else ssid_match_loop ?own [] (w \<or> word_of_nat (length (snd e)) = (0 :: byte)) (enc_elements es @ [x]))"
      using unat_length_octet [OF e] by (auto simp: enc_element_def)
    then show ?case using Cons by auto
  qed simp
  show ?thesis
    using ssid_match_loop_elements [OF assms, of ?own "ssid = []"] stray
    by (auto simp: ssid_match_def Let_def)
qed

text \<open>
  The names a request asks for: its SSID and the bodies of the complete elements of its SSID list.
\<close>

fun ssid_names :: "byte list \<Rightarrow> byte list list" where
  "ssid_names (eid # l # rest) = (if unat l > length rest then [] else take (unat l) rest # ssid_names (drop (unat l) rest))"
| "ssid_names _ = []"

definition asked_names :: "ieee802_11_elems \<Rightarrow> byte list list" where
  "asked_names elems = (case el_ssid elems of None \<Rightarrow> [] | Some ssid \<Rightarrow> [ssid])
     @ (case el_ssid_list elems of None \<Rightarrow> [] | Some l \<Rightarrow> ssid_names l)"

lemma ssid_loop_names:
  "ssid_match_loop own behind wildcard l = Inr m \<Longrightarrow>
    m = (if own \<in> set (ssid_names l) then EXACT_SSID_MATCH
         else if wildcard \<or> [] \<in> set (ssid_names l) then WILDCARD_SSID_MATCH else NO_SSID_MATCH)"
proof (induction own behind wildcard l rule: ssid_match_loop.induct)
  case (1 own behind wildcard eid l rest)
  show ?case
  proof (cases "unat l > length rest \<or> take (unat l) rest = own")
    case True then show ?thesis using 1(2) by (auto split: if_splits)
  next
    case False
    have "l = 0 \<longleftrightarrow> take (unat l) rest = []" using False by (auto simp: unat_eq_0)
    moreover have own: "\<not> (unat l = length own \<and> take (unat l) rest = own)" using False by simp
    moreover have "ssid_match_loop own behind (wildcard \<or> l = 0) (drop (unat l) rest) = Inr m"
      using 1(2) own False by simp
    ultimately show ?thesis using 1(1) [OF _ own] False by auto
  qed
qed (auto split: if_splits)

lemma ssid_match_names:
  assumes "el_ssid elems = Some ssid" "ssid_match hapd ssid (el_ssid_list elems) behind = Inr m"
  shows "m = (if ss_ssid (bc_ssid (hd_conf hapd)) \<in> set (asked_names elems) then EXACT_SSID_MATCH
    else if [] \<in> set (asked_names elems) then WILDCARD_SSID_MATCH else NO_SSID_MATCH)"
  using assms by (auto simp: ssid_match_def asked_names_def Let_def dest!: ssid_loop_names split: if_splits option.splits)

lemma probe_resp_result:
  assumes "hostapd_gen_probe_resp b ev iface hapd sta (Some sa) = Inr (out, iface', hapd')" and "length sa = 6"
  shows "(out \<noteq> None \<longleftrightarrow> ev_alloc_resp ev)
    \<and> (case out of None \<Rightarrow> True | Some resp \<Rightarrow>
        take 6 (drop 4 resp) = sa \<and> (\<exists>pre post. resp = pre @ opt_octets (hd_vendorspec_beacon_ie hapd) @ post))"
proof (cases "ev_alloc_resp ev")
  case True
  obtain capab frags csa h fb where fr: "probe_resp_fragments b ev iface hapd = Inr (frags, csa, h)"
    and put: "put_all frame_put (empty_frame (MAX_PROBERESP_LEN
            + (if cfg_wps b then opt_len (hd_wps_probe_resp_ie hapd) else 0)
            + opt_len (bc_vendor_elements (hd_conf hapd))))
       (mgmt_header (IEEE80211_FC WLAN_FC_TYPE_MGMT WLAN_FC_STYPE_PROBE_RESP) sa (hd_own_addr hapd)
          (ic_beacon_int (if_conf iface)) capab # frags) = Inr fb" and resp: "out = Some (fb_data fb)"
    using assms(1) True unfolding hostapd_gen_probe_resp_def Let_def
    by (auto simp: fbind_Inr_iff split: if_splits)
  let ?hdr = "mgmt_header (IEEE80211_FC WLAN_FC_TYPE_MGMT WLAN_FC_STYPE_PROBE_RESP) sa (hd_own_addr hapd)
          (ic_beacon_int (if_conf iface)) capab"
  have r: "fb_data fb = ?hdr @ concat frags" using frame_built [OF put] by simp
  have da: "take 6 (drop 4 (fb_data fb)) = sa"
    unfolding r using assms(2) by (simp add: mgmt_header_def put_le16_def)
  obtain xs tadv where "frags = xs @ [opt_octets (hd_vendorspec_beacon_ie h), opt_octets (bc_vendor_elements (hd_conf h))]"
    and t: "hostapd_eid_time_adv (ev_now ev) (ev_alloc_time ev) hapd = Inr (tadv, h)"
    using fr by (auto simp: probe_resp_fragments_def Let_def fbind_Inr_iff)
  then have "fb_data fb = (?hdr @ concat xs) @ opt_octets (hd_vendorspec_beacon_ie hapd) @ opt_octets (bc_vendor_elements (hd_conf h))"
    using r time_adv_fields(3) [OF t] by simp
  then have "\<exists>pre post. fb_data fb = pre @ opt_octets (hd_vendorspec_beacon_ie hapd) @ post" by blast
  then show ?thesis using True resp da by simp
qed (use assms(1) in \<open>auto simp: hostapd_gen_probe_resp_def\<close>)

text \<open>
  C13: who is answered, and with what. When no buffer is overrun, a probe response is sent exactly when the
  request is complete, no callback takes it, responses are enabled, it is well formed, names an
  SSID and supported rates, asks for the network by name or for any network, is not a broadcast
  request to a hidden network, its interworking element does not ask for another network, and there is
  memory. The response is addressed to the sender, carries the LoWS message, and is sent without
  acknowledgement exactly for a wildcard request to the broadcast address.
\<close>

theorem probe_request_answered:
  assumes "handle_probe_req b ev iface hapd cbs mgmt = Inr (out, iface', hapd')"
  shows "let (res, elems) = ieee802_11_parse_elems (drop 24 mgmt); own = ss_ssid (bc_ssid (hd_conf hapd)) in
    (out \<noteq> None \<longleftrightarrow> 24 \<le> length mgmt \<and> \<not> list_ex (\<lambda>r. r > 0) cbs \<and> ic_send_probe_response (if_conf iface)
        \<and> res \<noteq> ParseFailed \<and> el_ssid elems \<noteq> None \<and> el_supp_rates elems \<noteq> None
        \<and> (own \<in> set (asked_names elems) \<or> [] \<in> set (asked_names elems))
        \<and> \<not> (bc_ignore_broadcast_ssid (hd_conf hapd) \<noteq> 0 \<and> el_ssid elems = Some [] \<and> el_ssid_list elems \<in> {None, Some []})
        \<and> \<not> (cfg_interworking b \<and> interworking_mismatch hapd (el_interworking elems)) \<and> ev_alloc_resp ev)
    \<and> (case out of None \<Rightarrow> True | Some (resp, noack) \<Rightarrow>
        noack = (own \<notin> set (asked_names elems) \<and> take 6 (drop 4 mgmt) = replicate 6 0xff)
        \<and> take 6 (drop 4 resp) = take 6 (drop 10 mgmt)
        \<and> (\<exists>pre post. resp = pre @ opt_octets (hd_vendorspec_beacon_ie hapd) @ post))"
proof -
  let ?ie = "drop 24 mgmt" and ?sa = "take 6 (drop 10 mgmt)"
  define hapd2 where "hapd2 = hapd\<lparr>hd_sta_list := set_ssid_probe ?sa (bc_ssid (hd_conf hapd)) (hd_sta_list hapd)\<rparr>"
  have same: "hd_vendorspec_beacon_ie hapd2 = hd_vendorspec_beacon_ie hapd"
    "interworking_mismatch hapd2 x = interworking_mismatch hapd x" for x by (simp_all add: hapd2_def interworking_mismatch_def)
  obtain res elems where pe: "ieee802_11_parse_elems ?ie = (res, elems)" by fastforce
  show ?thesis
  proof (cases "24 \<le> length mgmt \<and> \<not> list_ex (\<lambda>r. r > 0) cbs \<and> ic_send_probe_response (if_conf iface) \<and> res \<noteq> ParseFailed
      \<and> el_ssid elems \<noteq> None \<and> el_supp_rates elems \<noteq> None
      \<and> \<not> (bc_ignore_broadcast_ssid (hd_conf hapd) \<noteq> 0 \<and> el_ssid elems = Some [] \<and> el_ssid_list elems \<in> {None, Some []})")
    case False
    then have "out = None" using assms pe unfolding handle_probe_req_def Let_def by (auto split: if_splits option.splits)
    with False show ?thesis unfolding pe by auto
  next
    case True
    then obtain ssid where ssid: "el_ssid elems = Some ssid" by blast
    with True assms pe obtain m where m: "ssid_match hapd ssid (el_ssid_list elems) (behind_element WLAN_EID_SSID_LIST [] ?ie) = Inr m"
      and rest: "(if m = NO_SSID_MATCH \<or> cfg_interworking b \<and> interworking_mismatch hapd (el_interworking elems) then out = None
        else \<exists>x i h. hostapd_gen_probe_resp b ev iface hapd2 (ap_get_sta hapd2 ?sa) (Some ?sa) = Inr (x, i, h)
          \<and> out = map_option (\<lambda>resp. (resp, m = WILDCARD_SSID_MATCH \<and> take 6 (drop 4 mgmt) = replicate 6 0xff)) x)"
      unfolding handle_probe_req_def Let_def hapd2_def [symmetric]
      by (auto simp: fbind_Inr_iff same split: if_splits option.splits)
    note names = ssid_match_names [OF ssid m]
    have "24 \<le> length mgmt" using True by blast
    then have len: "length ?sa = 6" by simp
    show ?thesis
    proof (cases "m = NO_SSID_MATCH \<or> cfg_interworking b \<and> interworking_mismatch hapd (el_interworking elems)")
      case no: True
      then have "out = None" using rest by simp
      with no names show ?thesis unfolding pe by (auto simp: Let_def split: if_splits)
    next
      case False
      with rest obtain x i h where gen: "hostapd_gen_probe_resp b ev iface hapd2 (ap_get_sta hapd2 ?sa) (Some ?sa) = Inr (x, i, h)"
        and out: "out = map_option (\<lambda>resp. (resp, m = WILDCARD_SSID_MATCH \<and> take 6 (drop 4 mgmt) = replicate 6 0xff)) x" by auto
      note result = probe_resp_result [OF gen len, unfolded same]
      have asked: "ss_ssid (bc_ssid (hd_conf hapd)) \<in> set (asked_names elems) \<or> [] \<in> set (asked_names elems)"
        "m = WILDCARD_SSID_MATCH \<longleftrightarrow> ss_ssid (bc_ssid (hd_conf hapd)) \<notin> set (asked_names elems)"
        using False names by (auto split: if_splits)
      show ?thesis unfolding pe Let_def prod.case
      proof (intro conjI)
        show "(out \<noteq> None) = (24 \<le> length mgmt \<and> \<not> list_ex (\<lambda>r. r > 0) cbs \<and> ic_send_probe_response (if_conf iface)
            \<and> res \<noteq> ParseFailed \<and> el_ssid elems \<noteq> None \<and> el_supp_rates elems \<noteq> None
            \<and> (ss_ssid (bc_ssid (hd_conf hapd)) \<in> set (asked_names elems) \<or> [] \<in> set (asked_names elems))
            \<and> \<not> (bc_ignore_broadcast_ssid (hd_conf hapd) \<noteq> 0 \<and> el_ssid elems = Some [] \<and> el_ssid_list elems \<in> {None, Some []})
            \<and> \<not> (cfg_interworking b \<and> interworking_mismatch hapd (el_interworking elems)) \<and> ev_alloc_resp ev)"
          using True False asked(1) result out by simp
      qed (use result asked(2) out in \<open>cases x; simp\<close>)
    qed
  qed
qed

section \<open>Extra elements\<close>

text \<open>
  A time zone that the configuration accepts overflows the stack. The configuration
  takes a time zone of up to 255 characters; when the time is advertised, one of more than
  198 does not fit into the local buffer of 200 octets in which
  \<open>hostapd_build_ap_extra_ies\<close> assembles the elements for the driver.
\<close>

theorem time_zone_overflows_stack:
  assumes "bc_time_advertisement (hd_conf hapd) = 2" and "198 < length (bc_time_zone (hd_conf hapd))"
    and "time_adv_ok hapd" and "\<forall>n. ev_alloc_extra ev n"
  shows "\<exists>n. hostapd_build_ap_extra_ies b ev iface hapd = Inl (Write_past_end 200 n)"
proof -
  obtain tadv h where t: "hostapd_eid_time_adv (ev_now ev) (ev_alloc_time ev) hapd = Inr (tadv, h)" "length tadv \<le> 19"
    using time_adv_seq [OF assms(3)] by blast
  have zone: "hostapd_eid_time_zone h = [WLAN_EID_TIME_ZONE, word_of_nat (length (bc_time_zone (hd_conf hapd)))]
      @ map ord8 (bc_time_zone (hd_conf hapd))"
    using assms(1) time_adv_fields(2) [OF t(1)] by (simp add: hostapd_eid_time_zone_def Let_def)
  then have "200 < length (concat [tadv, hostapd_eid_time_zone h])" using assms(2) by simp
  from frame_overflows [OF this] obtain n where
    ov: "put_all frame_put (empty_frame 200) [tadv, hostapd_eid_time_zone h] = Inl (Write_past_end 200 n)" by blast
  let ?x = "\<lparr>xi_beacon = None, xi_proberesp = None, xi_assocresp = None\<rparr>"
  have second: "extra_loop ok k x (step_buf Extra_proberesp [tadv, hostapd_eid_time_zone h] @ steps)
      = Inl (Write_past_end 200 n)" for ok k x steps
    using ov zone by (simp add: step_buf_def)
  have first: "extra_loop (ev_alloc_extra ev) 0 ?x (step_buf Extra_beacon [tadv] @ steps) = Inl (Write_past_end 200 n)"
    if s: "\<And>k x. extra_loop (ev_alloc_extra ev) k x steps = Inl (Write_past_end 200 n)" for steps
  proof (cases "tadv = []")
    case True
    then show ?thesis using s by (simp add: step_buf_def)
  next
    case False
    have "wf_frame (empty_frame 200)" by (simp add: wf_frame_def empty_frame_def)
    moreover have "length (concat [tadv]) \<le> frame_room (empty_frame 200)" using t(2) by (simp add: frame_room_def empty_frame_def)
    ultimately obtain fb where fb: "put_all frame_put (empty_frame 200) [tadv] = Inr fb" "fb_data fb = tadv"
      using frame.put_all_fits [of "empty_frame 200" "[tadv]"] by (auto simp: empty_frame_def)
    obtain m where m: "wpabuf_alloc True (length tadv) = Some m" "wf_wpabuf m" "wpabuf_tailroom m = length tadv"
      using wpabuf_alloc_empty by blast
    obtain m' where m': "wpabuf_put_octets m tadv = Inr m'" using wpabuf_put_octets_fits [OF m(2), of tadv] m(3) by auto
    have "wpabuf_resize True None (length tadv) = (0, Some m)" by (simp add: wpabuf_resize_def m(1))
    then show ?thesis using False fb m' s assms(4) by (simp add: step_buf_def extra_get_def)
  qed
  show ?thesis
    unfolding hostapd_build_ap_extra_ies_def t(1) fbind_simps prod.case Let_def
    by (subst first) (auto simp: second)
qed

section \<open>All BSSs\<close>

lemma set_beacons_loop_result:
  assumes "set_beacons_loop b ev cond ret iface bss = Inr (r, ps, iface', bss')" and "ret \<in> {0, -1}"
  shows "r \<in> {0, -1} \<and> length bss' = length bss \<and> (r = 0 \<longrightarrow> ret = 0 \<and> length ps = length (filter cond bss))
    \<and> length ps \<le> length (filter cond bss) \<and> (\<forall>i < length bss. \<not> cond (bss ! i) \<longrightarrow> bss' ! i = bss ! i)"
  using assms
proof (induction bss arbitrary: ret iface r ps iface' bss')
  case Nil
  then show ?case by simp
next
  case (Cons h hs)
  show ?case
  proof (cases "cond h")
    case False
    with Cons.prems obtain qs gs where "set_beacons_loop b ev cond ret iface hs = Inr (r, ps, iface', gs)" "bss' = h # gs"
      by (auto simp: fbind_Inr_iff)
    with Cons.IH [OF this(1) Cons.prems(2)] False show ?thesis by (auto simp: nth_Cons split: nat.split)
  next
    case True
    with Cons.prems obtain r1 p i1 h1 qs gs where
      s: "ieee802_11_set_beacon b ev iface h = Inr (r1, p, i1, h1)"
        "set_beacons_loop b ev cond (if r1 < 0 then -1 else ret) i1 hs = Inr (r, qs, iface', gs)"
        "ps = (case p of None \<Rightarrow> qs | Some p \<Rightarrow> p # qs)" "bss' = h1 # gs"
      by (auto simp: fbind_Inr_iff)
    have p: "p = None \<Longrightarrow> r1 < 0"
      using s(1) by (auto simp: ieee802_11_set_beacon_def Let_def fbind_Inr_iff split: if_splits option.splits)
    have "(if r1 < 0 then -1 else ret) \<in> {0, -1}" using Cons.prems(2) by simp
    from Cons.IH [OF s(2) this] p s(3,4) True show ?thesis
      by (auto simp: nth_Cons split: nat.split option.splits if_splits)
  qed
qed

text \<open>
  Updating all beacons of an interface. Success is reported only if every started BSS
  was handed to the driver with a complete set of parameters; a failing BSS makes the
  result -1, and BSSs that are not started are left as they are.
\<close>

theorem set_beacons_all_started:
  assumes "ieee802_11_set_beacons b ev iface bss = Inr (r, ps, iface', bss')"
  shows "r \<in> {0, -1} \<and> length bss' = length bss \<and> (r = 0 \<longrightarrow> length ps = length (filter hd_started bss))
    \<and> (\<forall>i < length bss. \<not> hd_started (bss ! i) \<longrightarrow> bss' ! i = bss ! i)"
  using set_beacons_loop_result [of b ev hd_started 0 iface bss r ps iface' bss'] assms
  by (simp add: ieee802_11_set_beacons_def)

section \<open>Examples\<close>

definition ex_ev :: ap_env where
  "ex_ev = \<lparr>ev_now = None, ev_alloc_head = True, ev_alloc_tail = True, ev_alloc_resp = True, ev_alloc_time = True,
     ev_alloc_extra = (\<lambda>n. True), ev_wps_assoc_resp_ie = None, ev_set_ap = 0\<rparr>"

definition ex_message :: wpabuf where
  "ex_message = \<lparr>wb_size = 7, wb_used = 7, wb_buf = [221, 5, 1, 2, 3, 4, 5], wb_ext_data = False\<rparr>"

definition ex_lows :: "wpabuf option \<Rightarrow> hostapd_data" where
  "ex_lows m = ex_hapd\<lparr>hd_vendorspec_beacon_ie := m\<rparr>"

lemma ex_capab: "hostapd_own_capab_info (ex_iface None) (ex_lows m) sta probe = Inr (
    let privacy = (case sta of None \<Rightarrow> bss_privacy (ex_lows m) | Some s \<Rightarrow> sta_privacy s probe) in
    if privacy then 0x0011 else 0x0001)"
  by (simp add: hostapd_own_capab_info_def dfs_or_zero_def hostapd_is_dfs_required_def ex_iface_def ex_conf_def
      flag_set_def Let_def)

lemma ex_tail_fragments: "beacon_tail_fragments shipped_build ex_ev (ex_iface None) (ex_lows m) =
    Inr (replicate 13 [] @ [opt_octets m, []], 0, ex_lows m)"
  by (simp add: beacon_tail_fragments_def hostapd_eid_pwr_constraint_def hostapd_eid_country_def hostapd_eid_erp_info_def
      hostapd_eid_ext_supp_rates_def hostapd_eid_wpa_def hostapd_eid_ext_capab_def ext_capab_len_def hostapd_eid_time_adv_def
      hostapd_eid_interworking_def hostapd_eid_adv_proto_def hostapd_eid_roaming_consortium_def hostapd_add_csa_elems_def
      hostapd_eid_csa_def hostapd_eid_wmm_def wps_octets_def shipped_build_def ex_iface_def ex_conf_def ex_lows_def
      ex_hapd_def ex_bss_def ex_ev_def num_rate_entries_def ht_required_def vht_required_def opt_octets_def flag_set_def
      dfs_or_zero_def hostapd_is_dfs_required_def
      Let_def numeral_eq_Suc)

lemma ex_bss_ok: "bss_ok (ex_iface None) (ex_lows m)"
  by (simp add: bss_ok_def ex_lows_def ex_hapd_def ex_bss_def ex_iface_def opt_elements_def time_adv_ok_def)

lemma ex_build:
  assumes "length (opt_octets m) \<le> BEACON_TAIL_BUF_SIZE"
  shows "\<exists>p n. ieee802_11_build_ap_params shipped_build ex_ev (ex_iface None) (ex_lows m)
    = Inr (Some p, (ex_iface None)\<lparr>if_cs_c_off_beacon := 0\<rparr>, (ex_lows m)\<lparr>hd_current_beacon_size := n\<rparr>)"
proof -
  have wf: "wf_frame (empty_frame n)" for n by (simp add: wf_frame_def empty_frame_def)
  have room: "frame_room (empty_frame n) = n" for n by (simp add: frame_room_def empty_frame_def)
  let ?hd = "beacon_head_fragments (ex_iface None) (ex_lows m)"
  obtain capab where capab: "hostapd_own_capab_info (ex_iface None) (ex_lows m) None False = Inr capab"
    using ex_capab by blast
  have "length (concat (?hd capab)) \<le> frame_room (empty_frame BEACON_HEAD_BUF_SIZE)"
    using head_fragments(3) [OF ex_bss_ok, of m capab] by (simp add: room)
  from frame.put_all_fits [OF wf this] obtain head where
    head: "put_all frame_put (empty_frame BEACON_HEAD_BUF_SIZE) (?hd capab) = Inr head" by blast
  have "length (concat (replicate 13 [] @ [opt_octets m, []])) \<le> frame_room (empty_frame (beacon_tail_size shipped_build (ex_lows m)))"
    using assms by (simp add: room beacon_tail_size_def)
  from frame.put_all_fits [OF wf this] obtain tail where
    "put_all frame_put (empty_frame (beacon_tail_size shipped_build (ex_lows m))) (replicate 13 [] @ [opt_octets m, []]) = Inr tail" by blast
  moreover have "ev_alloc_head ex_ev" "ev_alloc_tail ex_ev" "if_drv_flags (ex_iface None) = 0"
    by (simp_all add: ex_ev_def ex_iface_def)
  ultimately show ?thesis
    using head capab
    by (auto simp: ieee802_11_build_ap_params_def ex_tail_fragments hostapd_probe_resp_offloads_def flag_set_def Let_def)
qed


lemma ex_message_ok: "opt_elements (Some ex_message)" "wf_wpabuf ex_message"
  "wpabuf_head ex_message = enc_element (221, [1, 2, 3, 4, 5])"
proof -
  show wf: "wf_wpabuf ex_message" and h: "wpabuf_head ex_message = enc_element (221, [1, 2, 3, 4, 5])"
    by (simp_all add: ex_message_def wf_wpabuf_def wpabuf_head_def enc_element_def)
  have "element_seq (221 # 5 # [1, 2, 3, 4, 5])" by (rule element_seq_one) simp
  then show "opt_elements (Some ex_message)" using wf h by (simp add: opt_elements_def enc_element_def)
qed

lemma ex_set_beacon:
  assumes "length (opt_octets m) \<le> BEACON_TAIL_BUF_SIZE"
  shows "\<exists>r p i h. ieee802_11_set_beacon shipped_build ex_ev (ex_iface None) (ex_lows m) = Inr (r, Some p, i, h)"
proof -
  obtain p n where b: "ieee802_11_build_ap_params shipped_build ex_ev (ex_iface None) (ex_lows m)
    = Inr (Some p, (ex_iface None)\<lparr>if_cs_c_off_beacon := 0\<rparr>, (ex_lows m)\<lparr>hd_current_beacon_size := n\<rparr>)"
    using ex_build [OF assms] by blast
  have "\<exists>x. hostapd_build_ap_extra_ies shipped_build ex_ev ((ex_iface None)\<lparr>if_cs_c_off_beacon := 0\<rparr>)
      ((ex_lows m)\<lparr>hd_current_beacon_size := n\<rparr>) = Inr (Some x, (ex_lows m)\<lparr>hd_current_beacon_size := n\<rparr>)"
    by (simp add: hostapd_build_ap_extra_ies_def step_buf_def step_opt_def hostapd_eid_ext_capab_def ext_capab_len_def
        hostapd_eid_time_adv_def hostapd_eid_time_zone_def hostapd_eid_interworking_def hostapd_eid_adv_proto_def
        hostapd_eid_roaming_consortium_def shipped_build_def ex_iface_def ex_conf_def ex_lows_def ex_hapd_def ex_bss_def
        flag_set_def)
  moreover have "(ex_lows m)\<lparr>hd_beacon_set_done := True\<rparr> = ex_lows m" "\<not> if_csa_in_progress (ex_iface None)"
    by (simp_all add: ex_lows_def ex_hapd_def ex_iface_def)
  ultimately show ?thesis using b by (auto simp: ieee802_11_set_beacon_def Let_def)
qed

lemma beacon_well_formed_witness:
  "\<exists>r p i h r' p' i' h'.
     ieee802_11_set_beacon shipped_build ex_ev (ex_iface None) (ex_lows (Some ex_message)) = Inr (r, Some p, i, h)
     \<and> element_seq (beacon_body p)
     \<and> ieee802_11_set_beacon shipped_build ex_ev (ex_iface None)
         (ex_lows (Some \<lparr>wb_size = 1, wb_used = 1, wb_buf = [221], wb_ext_data = False\<rparr>)) = Inr (r', Some p', i', h')
     \<and> \<not> element_seq (beacon_body p') \<and> fst (ieee802_11_parse_elems (beacon_body p')) = ParseFailed"
proof -
  let ?bad = "Some \<lparr>wb_size = 1, wb_used = 1, wb_buf = [221], wb_ext_data = False\<rparr>"
  have oct: "opt_octets ?bad = [221]" by (simp add: opt_octets_def wpabuf_head_def)
  have "length (opt_octets (Some ex_message)) \<le> BEACON_TAIL_BUF_SIZE" "length (opt_octets ?bad) \<le> BEACON_TAIL_BUF_SIZE"
    unfolding oct by (simp_all add: opt_octets_def ex_message_ok)
  from ex_set_beacon [OF this(1)] ex_set_beacon [OF this(2)] obtain r p i h r' p' i' h' where
    s: "ieee802_11_set_beacon shipped_build ex_ev (ex_iface None) (ex_lows (Some ex_message)) = Inr (r, Some p, i, h)"
      "ieee802_11_set_beacon shipped_build ex_ev (ex_iface None) (ex_lows ?bad) = Inr (r', Some p', i', h')" by blast
  have fields: "hd_vendorspec_beacon_ie (ex_lows m) = m" "bc_vendor_elements (hd_conf (ex_lows m)) = None" for m
    by (simp_all add: ex_lows_def ex_hapd_def ex_bss_def)
  have bad: "\<not> element_seq [221]"
  proof
    assume "element_seq [221]"
    then obtain es where "[221] = enc_elements es" by (auto simp: element_seq_def)
    then show False by (cases es; cases "hd es") (auto simp: enc_element_def)
  qed
  have good: "element_seq (opt_octets (Some ex_message))" using ex_message_ok(1) by (rule opt_elements_seq)
  show ?thesis
    using beacon_well_formed [OF ex_bss_ok s(1)] beacon_well_formed [OF ex_bss_ok s(2)] s good bad
    unfolding fields oct by (simp add: opt_octets_def [of None]) blast
qed

lemma lows_message_transparent_witness:
  "\<exists>p q i j h k. ieee802_11_build_ap_params shipped_build ex_ev (ex_iface None) (ex_lows (Some ex_message)) = Inr (Some p, i, h)
    \<and> ieee802_11_build_ap_params shipped_build ex_ev (ex_iface None) (ex_lows None) = Inr (Some q, j, k)
    \<and> ieee802_11_parse_elems (beacon_body p) = (ParseUnknown, snd (ieee802_11_parse_elems (beacon_body q)))
    \<and> hd_current_beacon_size h = hd_current_beacon_size k + 7"
proof -
  have "length (opt_octets (Some ex_message)) \<le> BEACON_TAIL_BUF_SIZE" "length (opt_octets None) \<le> BEACON_TAIL_BUF_SIZE"
    by (simp_all add: opt_octets_def ex_message_ok)
  from ex_build [OF this(1)] ex_build [OF this(2)] obtain p i h q j k where
    p: "ieee802_11_build_ap_params shipped_build ex_ev (ex_iface None) (ex_lows (Some ex_message)) = Inr (Some p, i, h)"
    and q: "ieee802_11_build_ap_params shipped_build ex_ev (ex_iface None) (ex_lows None) = Inr (Some q, j, k)" by blast
  have v: "hd_vendorspec_beacon_ie (ex_lows (Some ex_message)) = Some ex_message"
    and n: "(ex_lows (Some ex_message))\<lparr>hd_vendorspec_beacon_ie := None\<rparr> = ex_lows None" by (simp_all add: ex_lows_def)
  have e: "wf_element (221, [1, 2, 3, 4, 5])" "foreign_vendor (221, [1, 2, 3, 4, 5])"
    by (simp_all add: wf_element_def foreign_vendor_def get_be24_def)
  from lows_message_transparent [OF ex_bss_ok v ex_message_ok(2,3) e p q [folded n]] p q show ?thesis by auto
qed

lemma beacon_fits_iff_witness:
  "\<exists>n. ieee802_11_build_ap_params shipped_build ex_ev (ex_iface None)
      (ex_lows (Some \<lparr>wb_size = 2065, wb_used = 2065, wb_buf = replicate 2065 0, wb_ext_data = False\<rparr>))
    = Inl (Write_past_end 2064 n)"
proof -
  let ?m = "Some \<lparr>wb_size = 2065, wb_used = 2065, wb_buf = replicate 2065 0, wb_ext_data = False\<rparr>"
  obtain capab where c: "hostapd_own_capab_info (ex_iface None) (ex_lows ?m) None False = Inr capab" using ex_capab by blast
  have len: "length (opt_octets ?m) = 2065" by (simp add: opt_octets_def wpabuf_head_def)
  have size: "beacon_tail_size shipped_build (ex_lows ?m) = 2064"
    by (simp add: beacon_tail_size_def ex_lows_def ex_hapd_def ex_bss_def opt_len_def)
  have e: "ev_alloc_head ex_ev" "ev_alloc_tail ex_ev" "\<not> flag_set (if_drv_flags (ex_iface None)) WPA_DRIVER_FLAGS_PROBE_RESP_OFFLOAD"
    by (simp_all add: ex_ev_def ex_iface_def flag_set_def)
  from beacon_fits_iff [OF ex_bss_ok e c ex_tail_fragments] show ?thesis by (simp add: size len)
qed

lemma ssid_match_correct_witness:
  "ssid_match ex_hapd [] None [] = Inr WILDCARD_SSID_MATCH \<and> ssid_match ex_hapd [120] None [] = Inr NO_SSID_MATCH
    \<and> ssid_match ex_hapd [120] (Some (enc_elements [(0, [121]), (0, [108, 111, 119, 115])] @ [])) [] = Inr EXACT_SSID_MATCH"
  using ssid_match_correct [of "[(0, [121]), (0, [108, 111, 119, 115])]" "[]" "[]" ex_hapd "[120]"]
    ssid_match_correct [of "[]" "[]" "[]" ex_hapd "[]"]
  by (simp add: wf_element_def incomplete_def ex_hapd_def ex_bss_def)

lemma ex_probe_fragments: "probe_resp_fragments shipped_build ex_ev (ex_iface None) (ex_lows m) =
    Inr ([ssid_element (ex_lows m), hostapd_eid_supp_rates (ex_iface None), hostapd_eid_ds_params (ex_iface None)]
      @ replicate 14 [] @ [opt_octets m, []], 0, ex_lows m)"
  by (simp add: probe_resp_fragments_def hostapd_eid_pwr_constraint_def hostapd_eid_country_def hostapd_eid_erp_info_def
      hostapd_eid_ext_supp_rates_def hostapd_eid_wpa_def hostapd_eid_ext_capab_def ext_capab_len_def hostapd_eid_time_adv_def
      hostapd_eid_time_zone_def
      hostapd_eid_interworking_def hostapd_eid_adv_proto_def hostapd_eid_roaming_consortium_def hostapd_add_csa_elems_def
      hostapd_eid_csa_def hostapd_eid_wmm_def wps_octets_def shipped_build_def ex_iface_def ex_conf_def ex_lows_def
      ex_hapd_def ex_bss_def ex_ev_def num_rate_entries_def ht_required_def vht_required_def opt_octets_def flag_set_def
      dfs_or_zero_def hostapd_is_dfs_required_def
      Let_def numeral_eq_Suc)

definition ex_probe_req :: "byte list" where
  "ex_probe_req = [0x40, 0, 0, 0] @ replicate 6 0xff @ [2, 0, 0, 0, 0, 9] @ replicate 6 0xff @ [0, 0]
     @ enc_elements [(0, []), (1, [2, 4])]"

lemma probe_request_answered_witness:
  "\<exists>resp iface' hapd'. handle_probe_req shipped_build ex_ev (ex_iface None) (ex_lows (Some ex_message)) [] ex_probe_req
      = Inr (Some (resp, True), iface', hapd') \<and> take 6 (drop 4 resp) = [2, 0, 0, 0, 0, 9]
    \<and> (\<exists>pre post. resp = pre @ wpabuf_head ex_message @ post)"
proof -
  let ?h = "ex_lows (Some ex_message)"
  define ies :: "byte list" where "ies = enc_elements [(0, []), (1, [2, 4])]"
  have m: "drop 24 ex_probe_req = ies" "length ex_probe_req = 30"
    "take 6 (drop 4 ex_probe_req) = replicate 6 0xff" "take 6 (drop 10 ex_probe_req) = [2, 0, 0, 0, 0, 9]"
    by (simp_all add: ex_probe_req_def ies_def)
  have "list_all wf_element [(0, []), (1, [2, 4])]" by (simp add: wf_element_def)
  from parse_walk_all [OF this, of "(0, no_elems)"] have
    pe: "ieee802_11_parse_elems ies = (ParseOK, no_elems\<lparr>el_ssid := Some [], el_supp_rates := Some [2, 4]\<rparr>)"
    by (simp add: ieee802_11_parse_elems_def parse_step_def parse_element_def ies_def)
  have sl: "el_ssid_list no_elems = None" by (simp add: no_elems_def)
  have h: "ic_send_probe_response (if_conf (ex_iface None))" "bc_ignore_broadcast_ssid (hd_conf ?h) = 0"
    "ss_ssid (bc_ssid (hd_conf ?h)) = [108, 111, 119, 115]" "hd_sta_list ?h = []" "?h\<lparr>hd_sta_list := []\<rparr> = ?h"
    "ap_get_sta ?h [2, 0, 0, 0, 0, 9] = None" "cfg_interworking shipped_build = False"
    by (simp_all add: ex_iface_def ex_conf_def ex_lows_def ex_hapd_def ex_bss_def ap_get_sta_def shipped_build_def)
  have sm: "ssid_match ?h [] None bs = Inr WILDCARD_SSID_MATCH" for bs
    by (simp add: ssid_match_def h)
  have wf: "wf_frame (empty_frame n)" for n by (simp add: wf_frame_def empty_frame_def)
  obtain capab where capab: "hostapd_own_capab_info (ex_iface None) ?h None True = Inr capab" using ex_capab by blast
  let ?hdr = "mgmt_header (IEEE80211_FC WLAN_FC_TYPE_MGMT WLAN_FC_STYPE_PROBE_RESP) [2, 0, 0, 0, 0, 9] (hd_own_addr ?h)
      (ic_beacon_int (if_conf (ex_iface None))) capab"
  let ?frags = "[ssid_element ?h, hostapd_eid_supp_rates (ex_iface None), hostapd_eid_ds_params (ex_iface None)]
      @ replicate 14 [] @ [opt_octets (Some ex_message), []]"
  have "length (concat (?hdr # ?frags)) \<le> frame_room (empty_frame (MAX_PROBERESP_LEN + k))" for k
    using length_supp_rates [of "ex_iface None"]
    by (simp add: frame_room_def empty_frame_def ssid_element_def h opt_octets_def ex_message_ok hostapd_eid_ds_params_def Let_def)
      (simp add: ex_lows_def ex_hapd_def)
  from frame.put_all_fits [OF wf this] have put: "\<exists>fb. put_all frame_put (empty_frame (MAX_PROBERESP_LEN + k)) (?hdr # ?frags) = Inr fb" for k
    by blast
  have sz: "ev_alloc_resp ex_ev" "cfg_wps shipped_build = False" "opt_len (bc_vendor_elements (hd_conf ?h)) = 0"
    by (simp_all add: ex_ev_def shipped_build_def ex_lows_def ex_hapd_def ex_bss_def opt_len_def)
  obtain fb where "put_all frame_put (empty_frame MAX_PROBERESP_LEN) (?hdr # ?frags) = Inr fb" using put [of 0] by auto
  then have "\<exists>r i g. hostapd_gen_probe_resp shipped_build ex_ev (ex_iface None) ?h None (Some [2, 0, 0, 0, 0, 9]) = Inr (Some r, i, g)"
    by (simp add: hostapd_gen_probe_resp_def capab ex_probe_fragments Let_def sz del: put_all.simps)
  then obtain resp i g where r: "handle_probe_req shipped_build ex_ev (ex_iface None) ?h [] ex_probe_req = Inr (Some (resp, True), i, g)"
    by (auto simp: handle_probe_req_def m pe sl h sm Let_def)
  from probe_request_answered [OF r] r show ?thesis
    by (auto simp: m ex_lows_def opt_octets_def Let_def)
qed

lemma time_zone_overflows_stack_witness:
  "\<exists>n. hostapd_build_ap_extra_ies shipped_build ex_ev (ex_iface None)
      (ex_hapd\<lparr>hd_conf := ex_bss\<lparr>bc_time_advertisement := 2, bc_time_zone := replicate 200 CHR ''x''\<rparr>\<rparr>) = Inl (Write_past_end 200 n)"
  by (rule time_zone_overflows_stack) (simp_all add: ex_hapd_def time_adv_ok_def ex_ev_def)

lemma set_beacons_all_started_witness:
  "ieee802_11_set_beacons shipped_build ex_ev (ex_iface None) [ex_hapd\<lparr>hd_started := False\<rparr>]
      = Inr (0, [], ex_iface None, [ex_hapd\<lparr>hd_started := False\<rparr>])
    \<and> length (filter hd_started [ex_hapd\<lparr>hd_started := False\<rparr>]) = 0"
proof -
  have r: "ieee802_11_set_beacons shipped_build ex_ev (ex_iface None) [ex_hapd\<lparr>hd_started := False\<rparr>]
      = Inr (0, [], ex_iface None, [ex_hapd\<lparr>hd_started := False\<rparr>])"
    by (simp add: ieee802_11_set_beacons_def)
  from set_beacons_all_started [OF r] r show ?thesis by simp
qed

end
