(* ===== verification/Ctrl_Iface.thy ===== *)
theory Ctrl_Iface
  imports Beacon Hex_Text
begin

text \<open>
  The control interface of the access point, \<open>hostapd/ctrl_iface.c\<close>, with the two commands
  that make it a LoWS sender: \<open>ADD_IE\<close>, which puts a message into the beacon, and
  \<open>GET_BEACON_SIZE\<close>. The command-line client's side of both (\<open>hostapd/hostapd_cli.c\<close>) is at
  the end.

  A command is the string received, at most 4095 characters; a monitor's socket address is
  the list of its octets. Commands that other modules carry out are a parameter of the
  dispatcher.
\<close>

section \<open>Monitors\<close>

record wpa_ctrl_dst =
  dst_addr :: "byte list"
  dst_debug_level :: int
  dst_errors :: nat

record ctrl_state =
  cs_iface :: hostapd_iface
  cs_hapd :: hostapd_data
  cs_ctrl_dst :: "wpa_ctrl_dst list"
  cs_ctrl_sock :: int

abbreviation (input) "MSG_INFO \<equiv> (3 :: int)"

definition hostapd_ctrl_iface_attach :: "bool \<Rightarrow> wpa_ctrl_dst list \<Rightarrow> byte list \<Rightarrow> int \<times> wpa_ctrl_dst list" where
  "hostapd_ctrl_iface_attach ok dsts from_addr =
     (if \<not> ok then (-1, dsts)
      else (0, \<lparr>dst_addr = from_addr, dst_debug_level = MSG_INFO, dst_errors = 0\<rparr> # dsts))"

fun hostapd_ctrl_iface_detach :: "wpa_ctrl_dst list \<Rightarrow> byte list \<Rightarrow> int \<times> wpa_ctrl_dst list" where
  "hostapd_ctrl_iface_detach [] from_addr = (-1, [])"
| "hostapd_ctrl_iface_detach (dst # dsts) from_addr =
     (if dst_addr dst = from_addr then (0, dsts)
      else case hostapd_ctrl_iface_detach dsts from_addr of (r, dsts') \<Rightarrow> (r, dst # dsts'))"

fun hostapd_ctrl_iface_level :: "wpa_ctrl_dst list \<Rightarrow> byte list \<Rightarrow> string \<Rightarrow> int \<times> wpa_ctrl_dst list" where
  "hostapd_ctrl_iface_level [] from_addr level = (-1, [])"
| "hostapd_ctrl_iface_level (dst # dsts) from_addr level =
     (if dst_addr dst = from_addr then (0, dst\<lparr>dst_debug_level := atoi level\<rparr> # dsts)
      else case hostapd_ctrl_iface_level dsts from_addr level of (r, dsts') \<Rightarrow> (r, dst # dsts'))"

datatype send_result = Sent | Send_failed | Send_noent

text \<open>
  \<open>res\<close> tells what \<open>sendmsg\<close> does for the monitor with a given index. A monitor is removed
  by its address, so that it is the first one with this address that goes; it is never
  behind the current one. The result is the new list and the addresses a message was sent
  to.
\<close>

fun send_loop :: "int \<Rightarrow> (nat \<Rightarrow> send_result) \<Rightarrow> nat \<Rightarrow> wpa_ctrl_dst list \<Rightarrow> wpa_ctrl_dst list
    \<Rightarrow> wpa_ctrl_dst list \<times> byte list list" where
  "send_loop level res idx visited [] = (visited, [])"
| "send_loop level res idx visited (dst # dsts) =
     (if level < dst_debug_level dst then send_loop level res (idx + 1) (visited @ [dst]) dsts
      else if res idx = Sent
      then (case send_loop level res (idx + 1) (visited @ [dst\<lparr>dst_errors := 0\<rparr>]) dsts of
              (l, sent) \<Rightarrow> (l, dst_addr dst # sent))
      else let dst' = dst\<lparr>dst_errors := dst_errors dst + 1\<rparr>; visited' = visited @ [dst'] in
           send_loop level res (idx + 1)
             (if dst_errors dst' > 10 \<or> res idx = Send_noent
              then snd (hostapd_ctrl_iface_detach visited' (dst_addr dst)) else visited') dsts)"

definition hostapd_ctrl_iface_send :: "int \<Rightarrow> (nat \<Rightarrow> send_result) \<Rightarrow> ctrl_state \<Rightarrow> ctrl_state \<times> byte list list" where
  "hostapd_ctrl_iface_send level res st =
     (if cs_ctrl_sock st < 0 \<or> cs_ctrl_dst st = [] then (st, [])
      else case send_loop level res 0 [] (cs_ctrl_dst st) of (l, sent) \<Rightarrow> (st\<lparr>cs_ctrl_dst := l\<rparr>, sent))"

section \<open>Setting the message\<close>

text \<open>
  The result of \<open>ieee802_11_set_beacon\<close> is not looked at. The third component is what was
  handed to the driver.
\<close>

definition hostapd_ctrl_iface_add_ie ::
    "build_config \<Rightarrow> ap_env \<Rightarrow> bool \<Rightarrow> hostapd_iface \<Rightarrow> hostapd_data \<Rightarrow> string
       \<Rightarrow> fault + int \<times> wpa_driver_ap_params option \<times> hostapd_iface \<times> hostapd_data" where
  "hostapd_ctrl_iface_add_ie b ev ok iface hapd ie_hex_data =
     (let len = length ie_hex_data div 2 in
      if len = 0 then Inr (-1, None, iface, hapd\<lparr>hd_vendorspec_beacon_ie := None\<rparr>)
      else case wpabuf_alloc ok len of
        None \<Rightarrow> Inr (-1, None, iface, hapd)
      | Some elems \<Rightarrow>
          fbind (wpabuf_put elems len) (\<lambda>(off, elems).
          case hexstr2bin ie_hex_data len of (r, octets) \<Rightarrow>
          if r \<noteq> 0 then Inr (-1, None, iface, hapd)
          else let elems = elems\<lparr>wb_buf := mem_write (wb_buf elems) off octets\<rparr>;
                   hapd = hapd\<lparr>hd_vendorspec_beacon_ie := Some elems\<rparr> in
          fbind (ieee802_11_set_beacon b ev iface hapd) (\<lambda>(_, params, iface, hapd).
          Inr (0, params, iface, hapd))))"

section \<open>The size of the beacon\<close>

definition ctrl_get_beacon_size :: "hostapd_data \<Rightarrow> fault + string" where
  \<comment> \<open>\<open>sprintf\<close> stores a terminator behind the text; five octets are sent\<close>
  "ctrl_get_beacon_size hapd =
     (let t = fmt_zu (hd_current_beacon_size hapd) @ [newline] in
      if length t + 1 > 5 then Inl (Write_past_end 5 (length t + 1))
      else Inr (t @ replicate (5 - length t) nul))"

section \<open>Stations and vendor commands\<close>

text \<open>\<open>sta_add\<close> is \<open>ap_sta_add\<close> followed by \<open>hostapd_new_assoc_sta\<close>, which are not modelled.\<close>

definition hostapd_ctrl_iface_new_sta ::
    "(hostapd_data \<Rightarrow> byte list \<Rightarrow> hostapd_data option) \<Rightarrow> hostapd_data \<Rightarrow> string \<Rightarrow> int \<times> hostapd_data" where
  "hostapd_ctrl_iface_new_sta sta_add hapd txtaddr =
     (case hwaddr_aton txtaddr of (r, addr) \<Rightarrow>
      if r \<noteq> 0 then (-1, hapd)
      else if ap_get_sta hapd addr \<noteq> None then (0, hapd)
      else (case sta_add hapd addr of None \<Rightarrow> (-1, hapd) | Some hapd' \<Rightarrow> (0, hapd')))"

definition is_blank :: "char \<Rightarrow> bool" where
  "is_blank c \<longleftrightarrow> c = CHR '' '' \<or> c = CHR 0x09"

definition digit_in :: "nat \<Rightarrow> char \<Rightarrow> bool" where
  "digit_in base c \<longleftrightarrow> 0 \<le> hex2num c \<and> hex2num c < int base"

text \<open>
  \<open>strtoul\<close> of the C library with 32-bit \<open>unsigned long\<close>, for base 10 and 16: white space, a
  sign, \<open>0x\<close> for base 16, digits; too large a value is \<open>ULONG_MAX\<close>. The second result is
  \<open>endptr\<close>; without digits it is the start.
\<close>

definition strtoul :: "nat \<Rightarrow> string \<Rightarrow> u32 \<times> string" where
  "strtoul base s =
     (let t = dropWhile is_space s;
          neg = starts_with ''-'' t;
          t = (if neg \<or> starts_with ''+'' t then drop 1 t else t);
          t = (if base = 16 \<and> (starts_with ''0x'' t \<or> starts_with ''0X'' t) \<and> digit_in 16 (c_at t 2) then drop 2 t else t);
          ds = takeWhile (digit_in base) t;
          v = foldl (\<lambda>v c. int base * v + hex2num c) 0 ds
      in if ds = [] then (0, s)
         else (if v \<ge> 2 ^ 32 then - 1 else if neg then - word_of_int v else word_of_int v, drop (length ds) t))"

text \<open>
  \<open>vendor_cmd\<close> is the driver's handler: vendor, subcommand, data and the reply buffer give
  the status and the filled buffer.
\<close>

definition hostapd_ctrl_iface_vendor ::
    "(u32 \<Rightarrow> u32 \<Rightarrow> byte list option \<Rightarrow> wpabuf \<Rightarrow> int \<times> wpabuf) \<Rightarrow> bool \<Rightarrow> bool \<Rightarrow> string \<Rightarrow> nat \<Rightarrow> int \<times> string" where
  "hostapd_ctrl_iface_vendor vendor_cmd ok1 ok2 cmd buflen =
     (case strtoul 16 cmd of (vendor_id, pos) \<Rightarrow>
      if \<not> is_blank (c_at pos 0) then (-22, [])
      else case strtoul 10 pos of (subcmd, pos) \<Rightarrow>
      if pos \<noteq> [] \<and> \<not> is_blank (c_at pos 0) then (-22, [])
      else let pos = drop 1 pos; data_len = length pos div 2 in
      if pos \<noteq> [] \<and> \<not> ok1 then (-105, [])
      else case (if pos = [] then (0, []) else hexstr2bin pos data_len) of (r, data) \<Rightarrow>
      if r \<noteq> 0 then (-22, [])
      else case wpabuf_alloc ok2 ((buflen - 1) div 2) of
        None \<Rightarrow> (-105, [])
      | Some reply \<Rightarrow>
          (case vendor_cmd vendor_id subcmd (if pos = [] then None else Some data) reply of (ret, reply) \<Rightarrow>
           if ret = 0 then (case wpa_snprintf_hex buflen (wpabuf_head reply) of (n, t) \<Rightarrow> (int n, t))
           else (ret, [])))"

section \<open>The dispatcher\<close>

text \<open>
  The commands of the shipped configuration that other modules carry out, in the order of
  the chain of comparisons: whether the whole command has to match, and the text.
\<close>

definition other_commands :: "(bool \<times> string) list" where
  "other_commands =
     [(False, ''RELOG''), (True, ''STATUS''), (True, ''STATUS-DRIVER''), (True, ''MIB''), (False, ''MIB ''),
      (True, ''STA-FIRST''), (False, ''STA ''), (False, ''STA-NEXT ''),
      (False, ''DEAUTHENTICATE ''), (False, ''DISASSOCIATE ''), (False, ''SA_QUERY ''),
      (True, ''GET_CONFIG''), (False, ''SET ''), (False, ''GET ''), (False, ''ENABLE''),
      (False, ''RELOAD''), (False, ''DISABLE''), (False, ''CHAN_SWITCH '')]"

definition is_other_command :: "string \<Rightarrow> bool" where
  "is_other_command buf \<longleftrightarrow> list_ex (\<lambda>(exact, name). if exact then buf = name else starts_with name buf) other_commands"

record ctrl_env =
  ce_build :: build_config
  ce_ap :: ap_env
  ce_alloc_reply :: bool
  ce_alloc :: bool
  ce_sta_add :: "hostapd_data \<Rightarrow> byte list \<Rightarrow> hostapd_data option"
  ce_vendor_cmd :: "u32 \<Rightarrow> u32 \<Rightarrow> byte list option \<Rightarrow> wpabuf \<Rightarrow> int \<times> wpabuf"
  ce_other :: "string \<Rightarrow> ctrl_state \<Rightarrow> int \<times> string \<times> ctrl_state"

definition ctrl_ok :: string where
  "ctrl_ok = ''OK'' @ [newline]"

definition ctrl_fail :: string where
  "ctrl_fail = ''FAIL'' @ [newline]"

text \<open>
  A branch yields \<open>reply_len\<close> (negative for failure, otherwise the first octets of the
  reply are sent), the reply text, what was handed to the driver, and the state.
\<close>

definition ctrl_status :: "int \<Rightarrow> string" where
  "ctrl_status r = (if r \<noteq> 0 then ctrl_fail else ctrl_ok)"

definition hostapd_ctrl_iface_receive ::
    "ctrl_env \<Rightarrow> ctrl_state \<Rightarrow> byte list \<Rightarrow> string \<Rightarrow> fault + string \<times> wpa_driver_ap_params option \<times> ctrl_state" where
  "hostapd_ctrl_iface_receive ce st from_addr buf =
     (if \<not> ce_alloc_reply ce then Inr (ctrl_fail, None, st)
      else if buf = ''PING'' then Inr (''PONG'' @ [newline], None, st)
      else if starts_with ''ADD_IE '' buf then
        fbind (hostapd_ctrl_iface_add_ie (ce_build ce) (ce_ap ce) (ce_alloc ce) (cs_iface st) (cs_hapd st) (drop 7 buf))
          (\<lambda>(r, params, iface, hapd).
           Inr (if r = 0 then ''Alles gut!'' @ [newline] else ''Fehler vorgefallen'' @ [newline],
                params, st\<lparr>cs_iface := iface, cs_hapd := hapd\<rparr>))
      else if buf = ''GET_BEACON_SIZE'' then fbind (ctrl_get_beacon_size (cs_hapd st)) (\<lambda>t. Inr (t, None, st))
      else if buf = ''ATTACH'' then
        (case hostapd_ctrl_iface_attach (ce_alloc ce) (cs_ctrl_dst st) from_addr of
           (r, l) \<Rightarrow> Inr (ctrl_status r, None, st\<lparr>cs_ctrl_dst := l\<rparr>))
      else if buf = ''DETACH'' then
        (case hostapd_ctrl_iface_detach (cs_ctrl_dst st) from_addr of
           (r, l) \<Rightarrow> Inr (ctrl_status r, None, st\<lparr>cs_ctrl_dst := l\<rparr>))
      else if starts_with ''LEVEL '' buf then
        (case hostapd_ctrl_iface_level (cs_ctrl_dst st) from_addr (drop 6 buf) of
           (r, l) \<Rightarrow> Inr (ctrl_status r, None, st\<lparr>cs_ctrl_dst := l\<rparr>))
      else if starts_with ''NEW_STA '' buf then
        (case hostapd_ctrl_iface_new_sta (ce_sta_add ce) (cs_hapd st) (drop 8 buf) of
           (r, hapd) \<Rightarrow> Inr (ctrl_status r, None, st\<lparr>cs_hapd := hapd\<rparr>))
      else if starts_with ''VENDOR '' buf then
        (case hostapd_ctrl_iface_vendor (ce_vendor_cmd ce) (ce_alloc ce) (ce_alloc ce) (drop 7 buf) 4096 of
           (r, t) \<Rightarrow> Inr (if r < 0 then ctrl_fail else take (nat r) t, None, st))
      else if is_other_command buf then
        (case ce_other ce buf st of (r, t, st) \<Rightarrow> Inr (if r < 0 then ctrl_fail else take (nat r) t, None, st))
      else Inr (''UNKNOWN COMMAND'' @ [newline], None, st))"

section \<open>The client (\<open>hostapd/hostapd_cli.c\<close>)\<close>

text \<open>The command sent, if any; \<open>snprintf\<close> keeps what fits into 2000 octets with its terminator.\<close>

definition hostapd_cli_cmd_add_ie :: "string list \<Rightarrow> int \<times> string option" where
  "hostapd_cli_cmd_add_ie argv =
     (if length argv \<noteq> 1 then (-1, None)
      else (0, Some (take 1999 (''ADD_IE '' @ argv ! 0))))"

definition hostapd_cli_cmd_get_beacon_size :: "int \<times> string option" where
  "hostapd_cli_cmd_get_beacon_size = (0, Some ''GET_BEACON_SIZE'')"

section \<open>Setting a message\<close>

definition hex_of :: "bool \<Rightarrow> byte list \<Rightarrow> string" where
  \<comment> \<open>the hexadecimal text of a message, as the client sends it\<close>
  "hex_of u bs = concat (map (fmt_02x u) bs)"

lemma length_hex_of [simp]: "length (hex_of u bs) = 2 * length bs"
  by (induction bs) (auto simp: hex_of_def)

lemma hexstr2bin_loop_prefix:
  "2 * n \<le> length s \<Longrightarrow> hexstr2bin_loop (s @ t) n acc = hexstr2bin_loop s n acc"
proof (induction n arbitrary: s acc)
  case (Suc n)
  have l: "2 \<le> length s" using Suc.prems by simp
  have l': "0 < length s" "1 < length s" using l by (auto intro: less_le_trans)
  have k: "2 * n \<le> length (drop 2 s)" using Suc.prems by simp
  have "c_at (s @ t) i = c_at s i" if "i < length s" for i using that by (simp add: c_at_def nth_append)
  with l' have "hex2byte (s @ t) = hex2byte s" unfolding hex2byte_def by presburger
  moreover have "drop 2 (s @ t) = drop 2 s @ t" using l by simp
  ultimately show ?case using Suc.IH [OF k] by (simp add: Let_def)
qed simp

lemma add_ie_hex:
  assumes "bs \<noteq> []"
  shows "\<exists>m. wf_wpabuf m \<and> wpabuf_head m = bs \<and> hostapd_ctrl_iface_add_ie b ev True iface hapd (hex_of u bs) =
    fbind (ieee802_11_set_beacon b ev iface (hapd\<lparr>hd_vendorspec_beacon_ie := Some m\<rparr>)) (\<lambda>(_, params, iface, hapd).
      Inr (0, params, iface, hapd))"
proof -
  let ?m = "\<lparr>wb_size = length bs, wb_used = length bs, wb_buf = bs, wb_ext_data = False\<rparr>"
  have "hexstr2bin (hex_of u bs) (length bs) = (0, bs)" using hexstr2bin_enc [of u bs "[]"] by (simp add: hex_of_def)
  moreover have "wf_wpabuf ?m" "wpabuf_head ?m = bs" by (simp_all add: wf_wpabuf_def wpabuf_head_def)
  ultimately show ?thesis using assms
    by (intro exI [of _ ?m]) (simp add: hostapd_ctrl_iface_add_ie_def wpabuf_alloc_def wpabuf_put_def mem_write_def Let_def)
qed

lemma add_ie_result:
  "fbind m (\<lambda>(_, p, i, h). Inr (0, p, i, h)) = Inr (r, q, j, k) \<Longrightarrow> r = (0 :: int) \<and> (\<exists>s. m = Inr (s, q, j, k))"
  by (cases m) auto

lemma tail_keeps_message:
  assumes "beacon_tail_fragments b ev iface hapd = Inr (frags, csa, h)"
  shows "hd_vendorspec_beacon_ie h = hd_vendorspec_beacon_ie hapd"
proof -
  obtain tadv where "hostapd_eid_time_adv (ev_now ev) (ev_alloc_time ev) hapd = Inr (tadv, h)"
    using assms by (auto simp: beacon_tail_fragments_def beacon_bind)
  then show ?thesis by (rule time_adv_fields)
qed

lemma offloads_keep_message:
  assumes "hostapd_probe_resp_offloads b ev iface hapd = Inr (r, iface', hapd')"
  shows "hd_vendorspec_beacon_ie hapd' = hd_vendorspec_beacon_ie hapd"
  using assms gen_probe_resp_keeps(3) by (auto simp: hostapd_probe_resp_offloads_def split: if_splits)

lemma build_keeps_message:
  assumes "ieee802_11_build_ap_params b ev iface hapd = Inr (Some p, iface', hapd')"
  shows "hd_vendorspec_beacon_ie hapd' = hd_vendorspec_beacon_ie hapd"
proof -
  obtain frags csa h n i resp where
    fr: "beacon_tail_fragments b ev iface hapd = Inr (frags, csa, h)"
    and rs: "hostapd_probe_resp_offloads b ev i (h\<lparr>hd_current_beacon_size := n\<rparr>) = Inr (resp, iface', hapd')"
    using assms unfolding ieee802_11_build_ap_params_def
    by (auto simp: beacon_bind split: if_splits)
  from tail_keeps_message [OF fr] offloads_keep_message [OF rs] show ?thesis by simp
qed

lemma set_beacon_params:
  assumes "ieee802_11_set_beacon b ev iface hapd = Inr (r, Some p, iface', hapd')"
  shows "\<exists>q i h. ieee802_11_build_ap_params b ev iface (hapd\<lparr>hd_beacon_set_done := True\<rparr>) = Inr (Some q, i, h)
    \<and> beacon_body p = beacon_body q \<and> hd_current_beacon_size hapd' = hd_current_beacon_size h
    \<and> hd_vendorspec_beacon_ie hapd' = hd_vendorspec_beacon_ie hapd"
proof -
  obtain q i h x where q: "ieee802_11_build_ap_params b ev iface (hapd\<lparr>hd_beacon_set_done := True\<rparr>) = Inr (Some q, i, h)"
    and x: "hostapd_build_ap_extra_ies b ev i h = Inr (Some x, hapd')"
    and p: "ap_head p = ap_head q" "ap_tail p = ap_tail q"
    using assms unfolding ieee802_11_set_beacon_def
    by (auto simp: beacon_bind split: if_splits option.splits)
  have "hd_current_beacon_size hapd' = hd_current_beacon_size h" "hd_vendorspec_beacon_ie hapd' = hd_vendorspec_beacon_ie h"
    using x time_adv_fields(1,3) unfolding hostapd_build_ap_extra_ies_def by (auto simp: beacon_bind)
  with q p build_keeps_message [OF q] show ?thesis by (simp add: beacon_body_def)
qed

lemma add_ie_on_air:
  assumes "bss_ok iface hapd" and "wf_element v"
    and "hostapd_ctrl_iface_add_ie b ev True iface hapd (hex_of u (enc_element v)) = Inr (r, Some p, iface', hapd')"
  shows "r = 0 \<and> opt_octets (hd_vendorspec_beacon_ie hapd') = enc_element v
    \<and> (\<exists>es fs. list_all wf_element (es @ v # fs) \<and> beacon_body p = enc_elements (es @ v # fs))
    \<and> hd_current_beacon_size hapd' = length (beacon_body p) + 18"
proof -
  have "enc_element v \<noteq> []" by (simp add: enc_element_def)
  from add_ie_hex [OF this, of b ev iface hapd u] obtain m where
    m: "wf_wpabuf m" "wpabuf_head m = enc_element v"
    and run: "hostapd_ctrl_iface_add_ie b ev True iface hapd (hex_of u (enc_element v)) =
      fbind (ieee802_11_set_beacon b ev iface (hapd\<lparr>hd_vendorspec_beacon_ie := Some m\<rparr>)) (\<lambda>(_, params, iface, hapd).
      Inr (0, params, iface, hapd))" by blast
  have "r = 0 \<and> (\<exists>s. ieee802_11_set_beacon b ev iface (hapd\<lparr>hd_vendorspec_beacon_ie := Some m\<rparr>)
      = Inr (s, Some p, iface', hapd'))"
    using assms(3) unfolding run by (rule add_ie_result)
  then obtain s where r: "r = 0"
    and s: "ieee802_11_set_beacon b ev iface (hapd\<lparr>hd_vendorspec_beacon_ie := Some m\<rparr>) = Inr (s, Some p, iface', hapd')"
    by blast
  let ?h = "hapd\<lparr>hd_vendorspec_beacon_ie := Some m, hd_beacon_set_done := True\<rparr>"
  obtain q i h where q: "ieee802_11_build_ap_params b ev iface ?h = Inr (Some q, i, h)" "beacon_body p = beacon_body q"
    "hd_current_beacon_size hapd' = hd_current_beacon_size h" "hd_vendorspec_beacon_ie hapd' = Some m"
    using set_beacon_params [OF s] by auto
  have ok: "bss_ok iface ?h" using assms(1) by (simp add: bss_ok_def time_adv_ok_def)
  have msg: "opt_elements (hd_vendorspec_beacon_ie ?h)" "opt_octets (hd_vendorspec_beacon_ie ?h) = enc_element v"
    using m assms(2) by (auto simp: opt_elements_def opt_octets_def element_seq_def intro!: exI [of _ "[v]"])
  from beacon_bodies [OF ok msg(1) q(1)] obtain es fs where
    "list_all wf_element es" "list_all wf_element fs" "beacon_body q = enc_elements (es @ v # fs)"
    "hd_current_beacon_size h = length (beacon_body q) + 18"
    unfolding msg(2) by auto
  with q(2,3,4) r m assms(2) show ?thesis by (auto simp: opt_octets_def)
qed

text \<open>
  What \<open>ADD_IE\<close> replies says little. With empty data the message is forgotten but the
  reply is the error, and the beacon on the air is not changed. A digit too many is dropped.
  During a channel switch the message is stored and the reply is the success, although no
  beacon is set, because the result of \<open>ieee802_11_set_beacon\<close> is not looked at.
\<close>

theorem add_ie_reply:
  assumes "even (length hex)" and "if_csa_in_progress iface" and "bs \<noteq> []"
  shows "hostapd_ctrl_iface_add_ie b ev ok iface hapd [] = Inr (-1, None, iface, hapd\<lparr>hd_vendorspec_beacon_ie := None\<rparr>)
    \<and> hostapd_ctrl_iface_add_ie b ev ok iface hapd (hex @ [c]) = hostapd_ctrl_iface_add_ie b ev ok iface hapd hex
    \<and> (\<exists>m. wpabuf_head m = bs \<and> hostapd_ctrl_iface_add_ie b ev True iface hapd (hex_of u bs)
          = Inr (0, None, iface, hapd\<lparr>hd_vendorspec_beacon_ie := Some m\<rparr>))"
proof (intro conjI)
  have len: "length (hex @ [c]) div 2 = length hex div 2" using assms(1) by simp
  have pre: "hexstr2bin_loop (hex @ [c]) (length hex div 2) [] = hexstr2bin_loop hex (length hex div 2) []"
    by (rule hexstr2bin_loop_prefix) simp
  show "hostapd_ctrl_iface_add_ie b ev ok iface hapd (hex @ [c]) = hostapd_ctrl_iface_add_ie b ev ok iface hapd hex"
    unfolding hostapd_ctrl_iface_add_ie_def hexstr2bin_def Let_def len pre by (rule refl)
  show "\<exists>m. wpabuf_head m = bs \<and> hostapd_ctrl_iface_add_ie b ev True iface hapd (hex_of u bs)
          = Inr (0, None, iface, hapd\<lparr>hd_vendorspec_beacon_ie := Some m\<rparr>)"
    using add_ie_hex [OF assms(3), of b ev iface hapd u] assms(2) by (auto simp: ieee802_11_set_beacon_def)
qed (simp add: hostapd_ctrl_iface_add_ie_def)

section \<open>The size of a message\<close>

lemma length_wmm: "bc_wmm_enabled (hd_conf hapd) \<Longrightarrow> length (hostapd_eid_wmm iface hapd) = 26"
  by (simp add: hostapd_eid_wmm_def del: upt_rec_numeral)

lemma fragments_defined:
  assumes "dfs_or_zero iface = Inr d" and "time_adv_ok hapd"
  shows "\<exists>capab. hostapd_own_capab_info iface hapd None False = Inr capab"
    and "\<exists>frags csa h. beacon_tail_fragments b ev iface hapd = Inr (frags, csa, h)
      \<and> length (opt_octets (hd_vendorspec_beacon_ie hapd)) + length (opt_octets (bc_vendor_elements (hd_conf hapd)))
          + length (hostapd_eid_wmm iface h) \<le> length (concat frags) \<and> hd_conf h = hd_conf hapd"
proof -
  show "\<exists>capab. hostapd_own_capab_info iface hapd None False = Inr capab"
    using assms(1) by (simp add: hostapd_own_capab_info_def)
  obtain tadv h where t: "hostapd_eid_time_adv (ev_now ev) (ev_alloc_time ev) hapd = Inr (tadv, h)"
    using time_adv_seq [OF assms(2)] by blast
  have "\<exists>pwr. hostapd_eid_pwr_constraint iface = Inr pwr"
    using assms(1) by (auto simp: hostapd_eid_pwr_constraint_def Let_def split: if_splits)
  then obtain pwr where "hostapd_eid_pwr_constraint iface = Inr pwr" by blast
  with t time_adv_fields(2,3) [OF t] show "\<exists>frags csa h. beacon_tail_fragments b ev iface hapd = Inr (frags, csa, h)
      \<and> length (opt_octets (hd_vendorspec_beacon_ie hapd)) + length (opt_octets (bc_vendor_elements (hd_conf hapd)))
          + length (hostapd_eid_wmm iface h) \<le> length (concat frags) \<and> hd_conf h = hd_conf hapd"
    by (simp add: beacon_tail_fragments_def Let_def)
qed

text \<open>
  C5: a message that the control interface accepts overflows the beacon buffer. The command
  buffer holds a message of 2044 octets; with WMM enabled the elements behind it need more
  than the 2064 octets of the beacon tail, and the access point writes past the heap block.
  There is no size check between the command and the copy.
\<close>

theorem add_ie_overflow:
  assumes "bss_ok (cs_iface st) (cs_hapd st)" and "dfs_or_zero (cs_iface st) = Inr d"
    and "bc_wmm_enabled (hd_conf (cs_hapd st))" and "\<not> if_csa_in_progress (cs_iface st)"
    and "ce_build ce = shipped_build" and "ce_alloc_reply ce" and "ce_alloc ce"
    and "ev_alloc_head (ce_ap ce)" and "ev_alloc_tail (ce_ap ce)" and "length bs = 2044"
  shows "length (''ADD_IE '' @ hex_of u bs) \<le> 4095
    \<and> (\<exists>k n. hostapd_ctrl_iface_receive ce st from_addr (''ADD_IE '' @ hex_of u bs) = Inl (Write_past_end k n))"
proof -
  let ?iface = "cs_iface st" and ?ev = "ce_ap ce"
  have "bs \<noteq> []" using assms(10) by auto
  from add_ie_hex [OF this, of shipped_build ?ev ?iface "cs_hapd st" u] obtain m where m: "wpabuf_head m = bs"
    and run: "hostapd_ctrl_iface_add_ie shipped_build ?ev True ?iface (cs_hapd st) (hex_of u bs) =
      fbind (ieee802_11_set_beacon shipped_build ?ev ?iface (cs_hapd st\<lparr>hd_vendorspec_beacon_ie := Some m\<rparr>))
        (\<lambda>(_, params, iface, hapd). Inr (0, params, iface, hapd))" by blast
  let ?h = "cs_hapd st\<lparr>hd_vendorspec_beacon_ie := Some m, hd_beacon_set_done := True\<rparr>"
  have ok: "bss_ok ?iface ?h" and ta: "time_adv_ok ?h" using assms(1) by (simp_all add: bss_ok_def time_adv_ok_def)
  obtain capab frags csa h where c: "hostapd_own_capab_info ?iface ?h None False = Inr capab"
    and f: "beacon_tail_fragments shipped_build ?ev ?iface ?h = Inr (frags, csa, h)"
      "length (opt_octets (hd_vendorspec_beacon_ie ?h)) + length (opt_octets (bc_vendor_elements (hd_conf ?h)))
          + length (hostapd_eid_wmm ?iface h) \<le> length (concat frags)" "hd_conf h = hd_conf ?h"
    using fragments_defined [OF assms(2) ta] by metis
  have "length (hostapd_eid_wmm ?iface h) = 26" using assms(3) f(3) by (intro length_wmm) simp
  then have "2044 + opt_len (bc_vendor_elements (hd_conf (cs_hapd st))) + 26 \<le> length (concat frags)"
    using f(2) m assms(10) ok by (cases "bc_vendor_elements (hd_conf (cs_hapd st))")
      (auto simp: opt_octets_def opt_len_def bss_ok_def opt_elements_def)
  then have "beacon_tail_size shipped_build ?h < length (concat frags)"
    by (simp add: beacon_tail_size_def shipped_build_def)
  from frame_overflows [OF this] obtain n where
    tail: "put_all frame_put (empty_frame (beacon_tail_size shipped_build ?h)) frags
      = Inl (Write_past_end (beacon_tail_size shipped_build ?h) n)" by blast
  have wf: "wf_frame (empty_frame n)" for n by (simp add: wf_frame_def empty_frame_def)
  have "length (concat (beacon_head_fragments ?iface ?h capab)) \<le> frame_room (empty_frame BEACON_HEAD_BUF_SIZE)"
    using head_fragments(3) [OF ok, of capab] by (simp add: frame_room_def empty_frame_def)
  from frame.put_all_fits [OF wf this] obtain head where
    "put_all frame_put (empty_frame BEACON_HEAD_BUF_SIZE) (beacon_head_fragments ?iface ?h capab) = Inr head" by blast
  then have "ieee802_11_build_ap_params shipped_build ?ev ?iface ?h = Inl (Write_past_end (beacon_tail_size shipped_build ?h) n)"
    using assms(8,9) c f(1) tail by (simp add: ieee802_11_build_ap_params_def Let_def)
  then have "hostapd_ctrl_iface_add_ie shipped_build ?ev True ?iface (cs_hapd st) (hex_of u bs)
      = Inl (Write_past_end (beacon_tail_size shipped_build ?h) n)"
    unfolding run using assms(4) by (simp add: ieee802_11_set_beacon_def)
  then show ?thesis using assms(5-7,10) by (auto simp: hostapd_ctrl_iface_receive_def starts_with_def)
qed

section \<open>Delivery\<close>

lemma extra_loop_succeeds:
  assumes "\<forall>n. ok n" and "\<forall>(w, src, m) \<in> set steps. \<exists>xs. src = Inr xs"
    and "\<forall>w. \<forall>a \<in> set_option (extra_get w x). wf_wpabuf a"
  shows "\<exists>y. extra_loop ok n x steps = Inr (Some y)"
  using assms(2,3)
proof (induction steps arbitrary: n x)
  case (Cons s steps)
  obtain w xs m where s: "s = (w, Inr xs, m)" using Cons.prems(1) by (cases s) auto
  obtain r q where q: "wpabuf_resize (ok n) (extra_get w x) (length xs) = (r, q)" by (cases "wpabuf_resize (ok n) (extra_get w x) (length xs)")
  have "\<forall>a \<in> set_option (extra_get w x). wf_wpabuf a" using Cons.prems(2) by blast
  from wpabuf_resize_room [OF this q order_refl] assms(1) obtain a a' where
    a: "r = 0" "q = Some a" "wpabuf_put_octets a xs = Inr a'" "wf_wpabuf a'" by blast
  have "\<forall>v. \<forall>c \<in> set_option (extra_get v (extra_set w (Some a') x)). wf_wpabuf c"
    using Cons.prems(2) a(4) by (auto simp: extra_get_def extra_set_def split: extra_buf.splits)
  from Cons.IH [OF _ this] Cons.prems(1) show ?case by (simp add: s q a)
qed simp

lemma step_buf_fits:
  assumes "length (concat xss) \<le> 200"
  shows "\<forall>(v, src, m) \<in> set (step_buf w xss). \<exists>xs. src = Inr xs"
proof -
  have "wf_frame (empty_frame 200)" by (simp add: wf_frame_def empty_frame_def)
  moreover have "length (concat xss) \<le> frame_room (empty_frame 200)" using assms by (simp add: frame_room_def empty_frame_def)
  ultimately obtain fb where "put_all frame_put (empty_frame 200) xss = Inr fb" using frame.put_all_fits by blast
  then show ?thesis by (simp add: step_buf_def)
qed

lemma step_opt_fits: "\<forall>(v, src, m) \<in> set (step_opt w ie n). \<exists>xs. src = Inr xs"
  by (cases ie) (simp_all add: step_opt_def)

lemma extra_ies_built:
  assumes "bc_time_advertisement (hd_conf hapd) \<noteq> 2" and "\<forall>n. ev_alloc_extra ev n"
    and "length (hostapd_eid_ext_capab shipped_build iface hapd) \<le> 200"
  shows "\<exists>x. hostapd_build_ap_extra_ies shipped_build ev iface hapd = Inr (Some x, hapd)"
proof -
  have t: "hostapd_eid_time_adv (ev_now ev) (ev_alloc_time ev) hapd = Inr ([], hapd)" "hostapd_eid_time_zone hapd = []"
    using assms(1) by (simp_all add: hostapd_eid_time_adv_def hostapd_eid_time_zone_def)
  have iw: "hostapd_eid_interworking shipped_build hapd = []" "hostapd_eid_adv_proto shipped_build hapd = []"
    "hostapd_eid_roaming_consortium shipped_build hapd = []"
    by (simp_all add: shipped_build_def hostapd_eid_interworking_def hostapd_eid_adv_proto_def hostapd_eid_roaming_consortium_def)
  define c where "c = hostapd_eid_ext_capab shipped_build iface hapd"
  have l: "length (concat [c]) \<le> 200" "length (concat [c, [], [], []]) \<le> 200" "length (concat [[] :: byte list]) \<le> 200"
    "length (concat [[] :: byte list, []]) \<le> 200"
    using assms(3) by (simp_all add: c_def)
  note fits = l [THEN step_buf_fits]
  have cfg: "cfg_wps shipped_build = False" by (simp add: shipped_build_def)
  have *: "\<forall>w. \<forall>a \<in> set_option (extra_get w \<lparr>xi_beacon = None, xi_proberesp = None, xi_assocresp = None\<rparr>). wf_wpabuf a"
    by (simp add: extra_get_def split: extra_buf.split)
  define steps where "steps = step_buf Extra_beacon [[]] @ step_buf Extra_proberesp [[], []] @ step_buf Extra_assocresp [c]
         @ step_buf Extra_beacon [c, [], [], []] @ step_buf Extra_proberesp [c, [], [], []]
         @ step_opt Extra_beacon (hd_wps_beacon_ie hapd) True
         @ step_opt Extra_proberesp (hd_wps_probe_resp_ie hapd) True
         @ [] @ step_opt Extra_beacon (bc_vendor_elements (hd_conf hapd)) False
         @ step_opt Extra_proberesp (bc_vendor_elements (hd_conf hapd)) False"
  have "\<forall>(v, src, m) \<in> set steps. \<exists>xs. src = Inr xs"
    unfolding steps_def set_append ball_Un by (intro conjI fits step_opt_fits) simp
  from extra_loop_succeeds [OF assms(2) this *] obtain y where
    "extra_loop (ev_alloc_extra ev) 0 \<lparr>xi_beacon = None, xi_proberesp = None, xi_assocresp = None\<rparr> steps = Inr (Some y)" by blast
  then show ?thesis
    by (simp add: hostapd_build_ap_extra_ies_def t iw cfg Let_def flip: c_def) (simp add: steps_def)
qed

lemma build_state:
  assumes "ieee802_11_build_ap_params b ev iface hapd = Inr (Some p, iface', hapd')"
    and "\<not> flag_set (if_drv_flags iface) WPA_DRIVER_FLAGS_PROBE_RESP_OFFLOAD"
  shows "(\<exists>n. iface' = iface\<lparr>if_cs_c_off_beacon := n\<rparr>) \<and> hd_conf hapd' = hd_conf hapd"
proof -
  obtain frags csa h n resp where
    fr: "beacon_tail_fragments b ev iface hapd = Inr (frags, csa, h)"
    and rs: "hostapd_probe_resp_offloads b ev (iface\<lparr>if_cs_c_off_beacon := csa\<rparr>) (h\<lparr>hd_current_beacon_size := n\<rparr>)
      = Inr (resp, iface', hapd')"
    using assms(1) unfolding ieee802_11_build_ap_params_def
    by (auto simp: beacon_bind split: if_splits)
  have "hd_conf h = hd_conf hapd"
  proof -
    obtain tadv where "hostapd_eid_time_adv (ev_now ev) (ev_alloc_time ev) hapd = Inr (tadv, h)"
      using fr by (auto simp: beacon_tail_fragments_def beacon_bind)
    then show ?thesis by (rule time_adv_fields)
  qed
  then show ?thesis using rs assms(2) by (auto simp: hostapd_probe_resp_offloads_def)
qed

lemma ext_capab_same:
  assumes "hd_conf k = hd_conf hapd"
  shows "hostapd_eid_ext_capab b (iface\<lparr>if_cs_c_off_beacon := n\<rparr>) k = hostapd_eid_ext_capab b iface hapd"
proof -
  let ?i = "iface\<lparr>if_cs_c_off_beacon := n\<rparr>"
  have f: "if_conf ?i = if_conf iface" "if_extended_capa ?i = if_extended_capa iface"
    "if_extended_capa_mask ?i = if_extended_capa_mask iface" by simp_all
  have "ext_capab_len b ?i k = ext_capab_len b iface hapd" unfolding ext_capab_len_def assms f by (rule refl)
  moreover have "hostapd_ext_capab_byte b ?i k = hostapd_ext_capab_byte b iface hapd"
    unfolding fun_eq_iff hostapd_ext_capab_byte_def assms f by simp
  then have "ext_capab_octet b ?i k = ext_capab_octet b iface hapd"
    unfolding fun_eq_iff ext_capab_octet_def f by simp
  ultimately show ?thesis unfolding hostapd_eid_ext_capab_def by (simp only:)
qed

lemma set_done_same: "hd_beacon_set_done hapd \<Longrightarrow> hapd\<lparr>hd_beacon_set_done := True\<rparr> = hapd"
  by (cases hapd) simp

text \<open>
  C4: a message that fits is delivered. On a running BSS, outside a channel switch and with
  memory at hand, \<open>ADD_IE\<close> with the hexadecimal text of one element whose length is within
  what the other elements leave of the beacon buffer replies success and hands a beacon to
  the driver; that beacon is a sequence of complete elements of which the message is one, and
  it is the beacon whose size \<open>GET_BEACON_SIZE\<close> reports from then on.
\<close>

theorem add_ie_delivered:
  assumes "bss_ok iface hapd" and "hd_beacon_set_done hapd" and "wf_element v" and "\<not> if_csa_in_progress iface"
    and "ev_alloc_head ev" and "ev_alloc_tail ev" and "\<forall>n. ev_alloc_extra ev n"
    and "\<not> flag_set (if_drv_flags iface) WPA_DRIVER_FLAGS_PROBE_RESP_OFFLOAD"
    and "bc_time_advertisement (hd_conf hapd) \<noteq> 2"
    and "length (hostapd_eid_ext_capab shipped_build iface hapd) \<le> 200" and "dfs_or_zero iface = Inr d"
    and "beacon_tail_fragments shipped_build ev iface (hapd\<lparr>hd_vendorspec_beacon_ie := None\<rparr>) = Inr (frags, csa, h)"
    and "length (concat frags) + length (enc_element v) \<le> beacon_tail_size shipped_build hapd"
  shows "\<exists>p iface' hapd'. hostapd_ctrl_iface_add_ie shipped_build ev True iface hapd (hex_of u (enc_element v))
      = Inr (0, Some p, iface', hapd')
    \<and> opt_octets (hd_vendorspec_beacon_ie hapd') = enc_element v
    \<and> (\<exists>es fs. list_all wf_element (es @ v # fs) \<and> beacon_body p = enc_elements (es @ v # fs))
    \<and> hd_current_beacon_size hapd' = length (beacon_body p) + 18"
proof -
  let ?b = shipped_build
  have "enc_element v \<noteq> []" by (simp add: enc_element_def)
  from add_ie_hex [OF this, of ?b ev iface hapd u] obtain m where m: "wpabuf_head m = enc_element v"
    and run: "hostapd_ctrl_iface_add_ie ?b ev True iface hapd (hex_of u (enc_element v)) =
      fbind (ieee802_11_set_beacon ?b ev iface (hapd\<lparr>hd_vendorspec_beacon_ie := Some m\<rparr>)) (\<lambda>(_, params, iface, hapd).
      Inr (0, params, iface, hapd))" by blast
  let ?h = "hapd\<lparr>hd_vendorspec_beacon_ie := Some m\<rparr>"
  have ok: "bss_ok iface ?h" "time_adv_ok ?h" using assms(1) by (simp_all add: bss_ok_def time_adv_ok_def)
  obtain capab where c: "hostapd_own_capab_info iface ?h None False = Inr capab"
    using fragments_defined(1) [OF assms(11) ok(2)] by blast
  obtain fr csa' h' where f: "beacon_tail_fragments ?b ev iface ?h = Inr (fr, csa', h')"
    using fragments_defined(2) [OF assms(11) ok(2), of ?b ev] by blast
  have none: "?h\<lparr>hd_vendorspec_beacon_ie := None\<rparr> = hapd\<lparr>hd_vendorspec_beacon_ie := None\<rparr>" by simp
  have "length (concat fr) = length (concat frags) + length (enc_element v)"
    using tail_without_message [OF f] unfolding none assms(12) by (auto simp: m opt_octets_def)
  moreover have "beacon_tail_size ?b ?h = beacon_tail_size ?b hapd" by (simp add: beacon_tail_size_def)
  ultimately obtain q i k where q: "ieee802_11_build_ap_params ?b ev iface ?h = Inr (Some q, i, k)"
    using beacon_room [OF ok(1) assms(5,6,8) c f] assms(13) by auto
  obtain n where i: "i = iface\<lparr>if_cs_c_off_beacon := n\<rparr>" and conf: "hd_conf k = hd_conf hapd"
    using build_state [OF q assms(8)] by auto
  have "hostapd_eid_ext_capab ?b i k = hostapd_eid_ext_capab ?b iface hapd" unfolding i by (rule ext_capab_same [OF conf])
  then obtain x where x: "hostapd_build_ap_extra_ies ?b ev i k = Inr (Some x, k)"
    using extra_ies_built [of k ev i] assms(7,9,10) conf by auto
  have same: "?h\<lparr>hd_beacon_set_done := True\<rparr> = ?h" using assms(2) by (intro set_done_same) simp
  obtain r p where sb: "ieee802_11_set_beacon ?b ev iface ?h = Inr (r, Some p, i, k)"
    unfolding ieee802_11_set_beacon_def same Let_def using assms(4) by (simp add: q x)
  have res: "hostapd_ctrl_iface_add_ie ?b ev True iface hapd (hex_of u (enc_element v)) = Inr (0, Some p, i, k)"
    by (simp add: run sb)
  from add_ie_on_air [OF assms(1,3) res] res show ?thesis by auto
qed


lemma add_ie_delivered_witness:
  "\<exists>p i h. hostapd_ctrl_iface_add_ie shipped_build ex_ev True (ex_iface None) ex_hapd ''DD050102030405'' = Inr (0, Some p, i, h)
    \<and> (\<exists>es fs. beacon_body p = enc_elements (es @ (221, [1, 2, 3, 4, 5]) # fs))"
proof -
  have hex: "hex_of True (enc_element (221, [1, 2, 3, 4, 5])) = ''DD050102030405''"
    by (simp add: hex_of_def enc_element_def fmt_02x_def hexdigit_def char_of_def bit_0)
  have low: "ex_lows None = ex_hapd" "ex_hapd\<lparr>hd_vendorspec_beacon_ie := None\<rparr> = ex_hapd" by (simp_all add: ex_lows_def ex_hapd_def)
  note frags = ex_tail_fragments [of None, unfolded low]
  have e: "ev_alloc_head ex_ev" "ev_alloc_tail ex_ev" "\<forall>n. ev_alloc_extra ex_ev n" "\<not> if_csa_in_progress (ex_iface None)"
    "\<not> flag_set (if_drv_flags (ex_iface None)) WPA_DRIVER_FLAGS_PROBE_RESP_OFFLOAD" "hd_beacon_set_done ex_hapd"
    "bc_time_advertisement (hd_conf ex_hapd) \<noteq> 2" "wf_element (221, [1, 2, 3, 4, 5])"
    by (simp_all add: ex_ev_def ex_iface_def ex_hapd_def ex_bss_def flag_set_def wf_element_def)
  have cap: "length (hostapd_eid_ext_capab shipped_build (ex_iface None) ex_hapd) \<le> 200"
    by (simp add: hostapd_eid_ext_capab_def ext_capab_len_def shipped_build_def ex_iface_def ex_conf_def ex_hapd_def ex_bss_def flag_set_def)
  have dfs: "\<exists>d. dfs_or_zero (ex_iface None) = Inr d"
    by (simp add: dfs_or_zero_def hostapd_is_dfs_required_def ex_iface_def ex_conf_def)
  then obtain d where d: "dfs_or_zero (ex_iface None) = Inr d" by blast
  have sz: "length (concat (replicate 13 [] @ [opt_octets None, []])) + length (enc_element (221, [1, 2, 3, 4, 5]))
      \<le> beacon_tail_size shipped_build ex_hapd"
    by (simp add: opt_octets_def beacon_tail_size_def enc_element_def)
  have "beacon_tail_fragments shipped_build ex_ev (ex_iface None) (ex_hapd\<lparr>hd_vendorspec_beacon_ie := None\<rparr>)
      = Inr (replicate 13 [] @ [opt_octets None, []], 0, ex_hapd)" unfolding low by (rule frags)
  from add_ie_delivered [where u = True, OF ex_bss_ok [of None, unfolded low] e(6,8,4,1,2,3,5,7) cap d this sz, unfolded hex]
  show ?thesis by blast
qed


section \<open>The reported size\<close>

text \<open>
  C10: what \<open>GET_BEACON_SIZE\<close> replies. A size below 1000 is replied as five octets, from which
  the client's \<open>atoi\<close> reads the size. From 1000 on the text and its terminator do not fit
  into the local array and are written past its end; a beacon body may well be that large,
  since the buffers were enlarged to 2320 octets for this purpose.
\<close>

theorem beacon_size_reply:
  "case ctrl_get_beacon_size hapd of
     Inl e \<Rightarrow> 1000 \<le> hd_current_beacon_size hapd \<and> (\<exists>n > 5. e = Write_past_end 5 n)
   | Inr t \<Rightarrow> hd_current_beacon_size hapd < 1000 \<and> length t = 5 \<and> atoi t = int (hd_current_beacon_size hapd)"
proof -
  let ?n = "hd_current_beacon_size hapd"
  have "fmt_zu ?n \<noteq> []" by (cases "?n < 10") (simp_all add: fmt_zu_low fmt_zu_high)
  moreover have "\<not> is_digit newline" by (simp add: is_digit_def newline_def)
  ultimately have "atoi (fmt_zu ?n @ newline # rest) = int ?n" for rest
    using atoi_digits [OF _ fmt_zu_digits] fmt_zu_value by simp
  moreover have "length (fmt_zu ?n) \<le> 3 \<longleftrightarrow> ?n < 1000" using length_fmt_zu [of ?n 3] by simp
  ultimately show ?thesis by (auto simp: ctrl_get_beacon_size_def Let_def)
qed

section \<open>Monitors\<close>

definition monitor_after :: "int \<Rightarrow> send_result \<Rightarrow> wpa_ctrl_dst \<Rightarrow> wpa_ctrl_dst option" where
  \<comment> \<open>what a message does to one monitor\<close>
  "monitor_after level r d =
     (if level < dst_debug_level d then Some d
      else if r = Sent then Some (d\<lparr>dst_errors := 0\<rparr>)
      else if dst_errors d \<ge> 10 \<or> r = Send_noent then None
      else Some (d\<lparr>dst_errors := dst_errors d + 1\<rparr>))"

fun monitors_after :: "int \<Rightarrow> (nat \<Rightarrow> send_result) \<Rightarrow> nat \<Rightarrow> wpa_ctrl_dst list \<Rightarrow> wpa_ctrl_dst list" where
  "monitors_after level res idx [] = []"
| "monitors_after level res idx (d # ds) =
     case_option [] (\<lambda>d. [d]) (monitor_after level (res idx) d) @ monitors_after level res (idx + 1) ds"

fun receivers :: "int \<Rightarrow> (nat \<Rightarrow> send_result) \<Rightarrow> nat \<Rightarrow> wpa_ctrl_dst list \<Rightarrow> byte list list" where
  "receivers level res idx [] = []"
| "receivers level res idx (d # ds) =
     (if dst_debug_level d \<le> level \<and> res idx = Sent then [dst_addr d] else []) @ receivers level res (idx + 1) ds"

lemma detach_last:
  "dst_addr d \<notin> dst_addr ` set ds \<Longrightarrow> hostapd_ctrl_iface_detach (ds @ [d]) (dst_addr d) = (0, ds)"
  by (induction ds) auto

lemma send_loop_result:
  assumes "distinct (map dst_addr (visited @ ds))"
  shows "send_loop level res idx visited ds = (visited @ monitors_after level res idx ds, receivers level res idx ds)"
  using assms
proof (induction ds arbitrary: idx visited)
  case (Cons d ds)
  note IH = Cons.IH
  have dist: "distinct (map dst_addr ((visited @ [d\<lparr>dst_errors := n\<rparr>]) @ ds))" "distinct (map dst_addr ((visited @ [d]) @ ds))"
    "distinct (map dst_addr (visited @ ds))" for n
    using Cons.prems by auto
  have "dst_addr (d\<lparr>dst_errors := n\<rparr>) \<notin> dst_addr ` set visited" for n using Cons.prems by auto
  from detach_last [OF this] have det: "snd (hostapd_ctrl_iface_detach (visited @ [d\<lparr>dst_errors := n\<rparr>]) (dst_addr d)) = visited" for n
    by simp
  show ?case
    using IH [OF dist(1)] IH [OF dist(2)] IH [OF dist(3)]
    by (cases "res idx") (auto simp: monitor_after_def det Let_def)
qed simp

lemma monitors_after_addrs: "set (map dst_addr (monitors_after level res idx ds)) \<subseteq> set (map dst_addr ds)"
  by (induction ds arbitrary: idx) (auto simp: monitor_after_def split: if_splits)

lemma monitors_after_distinct:
  "distinct (map dst_addr ds) \<Longrightarrow> distinct (map dst_addr (monitors_after level res idx ds))"
proof (induction ds arbitrary: idx)
  case (Cons d ds)
  have "\<forall>x \<in> set_option (monitor_after level (res idx) d). dst_addr x = dst_addr d" by (auto simp: monitor_after_def)
  moreover have "dst_addr d \<notin> set (map dst_addr (monitors_after level res (idx + 1) ds))"
    using Cons.prems monitors_after_addrs [of level res "idx + 1" ds] by auto
  ultimately show ?case using Cons by (cases "monitor_after level (res idx) d") auto
qed simp

lemma monitors_after_errors:
  "list_all (\<lambda>d. dst_errors d \<le> 10) ds \<Longrightarrow> list_all (\<lambda>d. dst_errors d \<le> 10) (monitors_after level res idx ds)"
  by (induction ds arbitrary: idx) (auto simp: monitor_after_def split: if_splits)

text \<open>
  Monitors of different clients with at most ten errors in a row: what the operations keep,
  as long as no client attaches twice.
\<close>

definition monitors_ok :: "wpa_ctrl_dst list \<Rightarrow> bool" where
  "monitors_ok ds \<longleftrightarrow> distinct (map dst_addr ds) \<and> list_all (\<lambda>d. dst_errors d \<le> 10) ds"

lemma detach_result:
  "hostapd_ctrl_iface_detach ds a =
     (if a \<in> dst_addr ` set ds then 0 else -1,
      takeWhile (\<lambda>d. dst_addr d \<noteq> a) ds @ drop 1 (dropWhile (\<lambda>d. dst_addr d \<noteq> a) ds))"
  by (induction ds) auto

lemma detach_distinct:
  "distinct (map dst_addr ds) \<Longrightarrow> snd (hostapd_ctrl_iface_detach ds a) = filter (\<lambda>d. dst_addr d \<noteq> a) ds"
proof (induction ds)
  case (Cons d ds)
  have "filter (\<lambda>x. dst_addr x \<noteq> dst_addr d) ds = ds" using Cons.prems by (auto simp: filter_id_conv image_iff)
  then show ?case using Cons by (auto split: prod.splits)
qed simp

lemma level_addrs:
  "map dst_addr (snd (hostapd_ctrl_iface_level ds a l)) = map dst_addr ds
   \<and> map dst_errors (snd (hostapd_ctrl_iface_level ds a l)) = map dst_errors ds"
  by (induction ds) (auto split: prod.splits)


text \<open>
  C12: the monitors of the control interface. As long as every client attaches at most once,
  attaching, detaching, changing the level and sending keep the list in order: the addresses
  stay distinct and no monitor has more than ten errors in a row. Detaching removes exactly
  the client and reports whether it was attached; a message reaches exactly the monitors
  whose level it meets, in order. The code does not test whether a client is attached
  already: attaching twice is what breaks the order.
\<close>

theorem monitors_invariant:
  assumes "monitors_ok ds" and "hostapd_ctrl_iface_send level res (st\<lparr>cs_ctrl_dst := ds\<rparr>) = (st', sent)"
  shows "(monitors_ok (snd (hostapd_ctrl_iface_attach True ds a)) \<longleftrightarrow> a \<notin> dst_addr ` set ds)
    \<and> (monitors_ok (snd (hostapd_ctrl_iface_detach ds a))
      \<and> (fst (hostapd_ctrl_iface_detach ds a) = 0 \<longleftrightarrow> a \<in> dst_addr ` set ds)
      \<and> snd (hostapd_ctrl_iface_detach ds a) = filter (\<lambda>d. dst_addr d \<noteq> a) ds)
    \<and> monitors_ok (snd (hostapd_ctrl_iface_level ds a lvl))
    \<and> (monitors_ok (cs_ctrl_dst st') \<and> (0 \<le> cs_ctrl_sock st \<longrightarrow> sent = receivers level res 0 ds))"
proof -
  have a: "monitors_ok (snd (hostapd_ctrl_iface_attach True ds a)) \<longleftrightarrow> a \<notin> dst_addr ` set ds"
    using assms(1) by (auto simp: monitors_ok_def hostapd_ctrl_iface_attach_def)
  have d: "snd (hostapd_ctrl_iface_detach ds a) = filter (\<lambda>d. dst_addr d \<noteq> a) ds"
    using assms(1) by (intro detach_distinct) (simp add: monitors_ok_def)
  have b: "monitors_ok (snd (hostapd_ctrl_iface_detach ds a))
      \<and> (fst (hostapd_ctrl_iface_detach ds a) = 0 \<longleftrightarrow> a \<in> dst_addr ` set ds)
      \<and> snd (hostapd_ctrl_iface_detach ds a) = filter (\<lambda>d. dst_addr d \<noteq> a) ds"
    using assms(1) unfolding d
    by (auto simp: monitors_ok_def detach_result list_all_iff distinct_map_filter)
  have e: "list_all (\<lambda>d. dst_errors d \<le> 10) xs \<longleftrightarrow> list_all (\<lambda>n. n \<le> 10) (map dst_errors xs)" for xs
    by (simp add: list_all_iff)
  have c: "monitors_ok (snd (hostapd_ctrl_iface_level ds a lvl))"
    using assms(1) unfolding monitors_ok_def e by (simp only: level_addrs)
  have d: "monitors_ok (cs_ctrl_dst st') \<and> (0 \<le> cs_ctrl_sock st \<longrightarrow> sent = receivers level res 0 ds)"
    using assms send_loop_result [of "[]" ds level res 0] monitors_after_distinct [of ds level res 0] monitors_after_errors [of ds level res 0]
    by (auto simp: hostapd_ctrl_iface_send_def monitors_ok_def split: if_splits)
  show ?thesis by (intro conjI a b c d)
qed

lemma monitors_invariant_witness:
  "let ds = [\<lparr>dst_addr = [1], dst_debug_level = 3, dst_errors = 10\<rparr>, \<lparr>dst_addr = [2], dst_debug_level = 4, dst_errors = 0\<rparr>];
       st = \<lparr>cs_iface = ex_iface None, cs_hapd = ex_hapd, cs_ctrl_dst = ds, cs_ctrl_sock = 5\<rparr> in
   case hostapd_ctrl_iface_send 3 (\<lambda>i. Send_failed) st of (st', sent) \<Rightarrow>
     monitors_ok (cs_ctrl_dst st') \<and> sent = [] \<and> length (cs_ctrl_dst st') = 1"
proof -
  let ?ds = "[\<lparr>dst_addr = [1], dst_debug_level = 3, dst_errors = 10\<rparr>, \<lparr>dst_addr = [2], dst_debug_level = 4, dst_errors = 0\<rparr>]"
  let ?st = "\<lparr>cs_iface = ex_iface None, cs_hapd = ex_hapd, cs_ctrl_dst = ?ds, cs_ctrl_sock = 5\<rparr>"
  have ok: "monitors_ok ?ds" by (simp add: monitors_ok_def)
  have run: "hostapd_ctrl_iface_send 3 (\<lambda>i. Send_failed) (?st\<lparr>cs_ctrl_dst := ?ds\<rparr>)
      = (?st\<lparr>cs_ctrl_dst := [\<lparr>dst_addr = [2], dst_debug_level = 4, dst_errors = 0\<rparr>]\<rparr>, [])"
    by (simp add: hostapd_ctrl_iface_send_def Let_def)
  from monitors_invariant [OF ok run, of "[1]" "[]"] run show ?thesis by simp
qed

text \<open>Several messages in a row; whether \<open>sendmsg\<close> fails depends on the destination.\<close>

fun send_messages :: "ctrl_state \<Rightarrow> (int \<times> (byte list \<Rightarrow> send_result)) list \<Rightarrow> ctrl_state" where
  "send_messages st [] = st"
| "send_messages st ((level, r) # ms) =
     send_messages (fst (hostapd_ctrl_iface_send level (\<lambda>i. r (dst_addr (cs_ctrl_dst st ! i))) st)) ms"

lemma monitor_after_same:
  "monitor_after level r d = Some y \<Longrightarrow> dst_addr y = dst_addr d \<and> dst_debug_level y = dst_debug_level d"
  by (auto simp: monitor_after_def split: if_splits)

lemma monitors_after_members:
  assumes "\<forall>i < length ds. res (idx + i) = r (dst_addr (ds ! i))"
  shows "set (monitors_after level res idx ds) = {y. \<exists>d \<in> set ds. monitor_after level (r (dst_addr d)) d = Some y}"
  using assms
proof (induction ds arbitrary: idx)
  case (Cons d ds)
  have "\<forall>i < length ds. res (idx + 1 + i) = r (dst_addr (ds ! i))"
    using Cons.prems by (metis Suc_less_eq add.assoc length_Cons nth_Cons_Suc plus_1_eq_Suc)
  from Cons.IH [OF this] have ih: "set (monitors_after level res (idx + 1) ds)
      = {y. \<exists>d \<in> set ds. monitor_after level (r (dst_addr d)) d = Some y}" .
  have "res idx = r (dst_addr d)" using Cons.prems by force
  then show ?case using ih by (cases "monitor_after level (r (dst_addr d)) d") auto
qed simp

lemma send_members:
  assumes "distinct (map dst_addr (cs_ctrl_dst st))" and "0 \<le> cs_ctrl_sock st"
    and "st' = fst (hostapd_ctrl_iface_send level (\<lambda>i. r (dst_addr (cs_ctrl_dst st ! i))) st)"
  shows "distinct (map dst_addr (cs_ctrl_dst st')) \<and> cs_ctrl_sock st' = cs_ctrl_sock st
    \<and> set (cs_ctrl_dst st') = {y. \<exists>d \<in> set (cs_ctrl_dst st). monitor_after level (r (dst_addr d)) d = Some y}"
proof -
  let ?res = "\<lambda>i. r (dst_addr (cs_ctrl_dst st ! i))"
  have "cs_ctrl_dst st' = monitors_after level ?res 0 (cs_ctrl_dst st)" "cs_ctrl_sock st' = cs_ctrl_sock st"
    using assms send_loop_result [of "[]" "cs_ctrl_dst st" level ?res 0] by (auto simp: hostapd_ctrl_iface_send_def)
  then show ?thesis
    using monitors_after_distinct [OF assms(1)] monitors_after_members [of "cs_ctrl_dst st" ?res 0 r level] by simp
qed

lemma absent_stays_absent:
  assumes "distinct (map dst_addr (cs_ctrl_dst st))" and "0 \<le> cs_ctrl_sock st" and "a \<notin> dst_addr ` set (cs_ctrl_dst st)"
  shows "a \<notin> dst_addr ` set (cs_ctrl_dst (send_messages st ms))"
  using assms
proof (induction ms arbitrary: st)
  case (Cons m ms)
  obtain level r where m: "m = (level, r)" by (cases m)
  let ?st = "fst (hostapd_ctrl_iface_send level (\<lambda>i. r (dst_addr (cs_ctrl_dst st ! i))) st)"
  note mem = send_members [OF Cons.prems(1,2) refl, of level r]
  then have "set (cs_ctrl_dst ?st) = {y. \<exists>d \<in> set (cs_ctrl_dst st). monitor_after level (r (dst_addr d)) d = Some y}" by blast
  then have "a \<notin> dst_addr ` set (cs_ctrl_dst ?st)" using Cons.prems(3) monitor_after_same by fastforce
  with Cons.IH [of ?st] mem Cons.prems(2) show ?case by (simp add: m)
qed simp

lemma failing_monitor_removed:
  assumes "distinct (map dst_addr (cs_ctrl_dst st))" and "0 \<le> cs_ctrl_sock st" and "d \<in> set (cs_ctrl_dst st)"
    and "\<forall>(level, r) \<in> set ms. r (dst_addr d) \<noteq> Sent"
    and "11 \<le> dst_errors d + length (filter (\<lambda>(level, r). dst_debug_level d \<le> level) ms)"
    and "\<exists>m \<in> set ms. dst_debug_level d \<le> fst m"
  shows "dst_addr d \<notin> dst_addr ` set (cs_ctrl_dst (send_messages st ms))"
  using assms
proof (induction ms arbitrary: st d)
  case (Cons m ms)
  obtain level r where m: "m = (level, r)" by (cases m)
  let ?st = "fst (hostapd_ctrl_iface_send level (\<lambda>i. r (dst_addr (cs_ctrl_dst st ! i))) st)"
  note mem = send_members [OF Cons.prems(1,2) refl, of level r]
  have dist: "distinct (map dst_addr (cs_ctrl_dst ?st))" "0 \<le> cs_ctrl_sock ?st" using mem Cons.prems(2) by simp_all
  have run: "send_messages st (m # ms) = send_messages ?st ms" by (simp add: m)
  show ?case
  proof (cases "monitor_after level (r (dst_addr d)) d")
    case None
    have "dst_addr d \<notin> dst_addr ` set (cs_ctrl_dst ?st)"
    proof
      assume "dst_addr d \<in> dst_addr ` set (cs_ctrl_dst ?st)"
      then obtain y e where y: "dst_addr y = dst_addr d" "e \<in> set (cs_ctrl_dst st)" "monitor_after level (r (dst_addr e)) e = Some y"
        using mem by (smt (verit) imageE mem_Collect_eq)
      then have "dst_addr e = dst_addr d" using monitor_after_same [OF y(3)] by simp
      with Cons.prems(1,3) y(2) have "e = d" by (auto simp: distinct_map inj_on_def)
      with y None show False by simp
    qed
    from absent_stays_absent [OF dist this] show ?thesis by (simp only: run not_False_eq_True)
  next
    case (Some y)
    then have y: "y \<in> set (cs_ctrl_dst ?st)" "dst_addr y = dst_addr d" "dst_debug_level y = dst_debug_level d"
      using mem Cons.prems(3) monitor_after_same [OF Some] by blast+
    have fails: "\<forall>(level, r) \<in> set ms. r (dst_addr y) \<noteq> Sent" "r (dst_addr d) \<noteq> Sent"
      using Cons.prems(4) y(2) m by auto
    have count: "11 \<le> dst_errors y + length (filter (\<lambda>(level, r). dst_debug_level y \<le> level) ms)
      \<and> (\<exists>m \<in> set ms. dst_debug_level y \<le> fst m)"
    proof (cases "level < dst_debug_level d")
      case True
      then show ?thesis using Cons.prems(5,6) Some m by (auto simp: monitor_after_def)
    next
      case False
      then have e: "dst_errors y = dst_errors d + 1" "dst_errors d < 10"
        using Some fails(2) by (auto simp: monitor_after_def split: if_splits)
      then have c: "11 \<le> dst_errors y + length (filter (\<lambda>(level, r). dst_debug_level y \<le> level) ms)"
        using Cons.prems(5) False m y(3) by simp
      then have "filter (\<lambda>(level, r). dst_debug_level y \<le> level) ms \<noteq> []" using e by auto
      then show ?thesis using c by (force simp: filter_empty_conv)
    qed
    from Cons.IH [OF dist y(1) fails(1)] count show ?thesis unfolding run y(2) by simp
  qed
qed simp

text \<open>
  A client that is gone does not stay. A monitor that receives messages of its level but
  whose socket fails every time is no longer in the list after eleven of them, whatever
  happens to the others and whatever levels the messages in between have.
\<close>


theorem dead_monitor_dropped:
  assumes "distinct (map dst_addr (cs_ctrl_dst st))" and "0 \<le> cs_ctrl_sock st" and "d \<in> set (cs_ctrl_dst st)"
    and "\<forall>(level, r) \<in> set ms. r (dst_addr d) \<noteq> Sent"
    and "11 \<le> length (filter (\<lambda>(level, r). dst_debug_level d \<le> level) ms)"
  shows "dst_addr d \<notin> dst_addr ` set (cs_ctrl_dst (send_messages st ms))"
proof -
  have "filter (\<lambda>(level, r). dst_debug_level d \<le> level) ms \<noteq> []" using assms(5) by auto
  then have "\<exists>m \<in> set ms. dst_debug_level d \<le> fst m" by (force simp: filter_empty_conv)
  with assms show ?thesis by (intro failing_monitor_removed) auto
qed

lemma dead_monitor_dropped_witness:
  "let st = \<lparr>cs_iface = ex_iface None, cs_hapd = ex_hapd,
         cs_ctrl_dst = [\<lparr>dst_addr = [1], dst_debug_level = 3, dst_errors = 0\<rparr>], cs_ctrl_sock = 5\<rparr>
   in [1] \<notin> dst_addr ` set (cs_ctrl_dst (send_messages st (replicate 11 (4, \<lambda>a. Send_failed))))"
proof -
  let ?d = "\<lparr>dst_addr = [1], dst_debug_level = 3, dst_errors = 0\<rparr>"
  have "[1] \<notin> dst_addr ` set (cs_ctrl_dst (send_messages
      \<lparr>cs_iface = ex_iface None, cs_hapd = ex_hapd, cs_ctrl_dst = [?d], cs_ctrl_sock = 5\<rparr> (replicate 11 (4, \<lambda>a. Send_failed))))"
    using dead_monitor_dropped [of "\<lparr>cs_iface = ex_iface None, cs_hapd = ex_hapd, cs_ctrl_dst = [?d], cs_ctrl_sock = 5\<rparr>" ?d
        "replicate 11 (4, \<lambda>a. Send_failed)"]
    by (simp add: filter_replicate del: replicate.simps send_messages.simps)
  then show ?thesis unfolding Let_def .
qed

section \<open>The client\<close>

lemma take_hex_of: "take (2 * n) (hex_of u bs) = hex_of u (take n bs)"
proof (induction bs arbitrary: n)
  case (Cons b bs)
  have "length (fmt_02x u b) = 2" by (simp add: fmt_02x_def)
  with Cons show ?case by (cases n) (auto simp: hex_of_def take_Cons' numeral_2_eq_2 fmt_02x_def)
qed (simp add: hex_of_def)

lemma take_prefix_hex: "take 1999 (''ADD_IE '' @ xs) = ''ADD_IE '' @ take 1992 xs"
  by (simp add: take_Cons')

text \<open>
  The command-line client cuts a long message. It sends the first 996 octets of the
  message and no more, without an error, so that the access point answers and broadcasts as
  if the message had been those octets; a shorter message arrives as it is.
\<close>

theorem cli_truncates_message:
  "fst (hostapd_cli_cmd_add_ie [hex_of u bs]) = 0
   \<and> hostapd_ctrl_iface_receive ce st a (the (snd (hostapd_cli_cmd_add_ie [hex_of u bs])))
     = hostapd_ctrl_iface_receive ce st a (''ADD_IE '' @ hex_of u (take 996 bs))"
  using take_hex_of [of 996 u bs] by (simp add: hostapd_cli_cmd_add_ie_def take_prefix_hex [simplified])

lemma add_ie_reply_witness:
  "hostapd_ctrl_iface_add_ie shipped_build ex_ev True (ex_iface None\<lparr>if_csa_in_progress := True\<rparr>) ex_hapd ''DD0''
     = hostapd_ctrl_iface_add_ie shipped_build ex_ev True (ex_iface None\<lparr>if_csa_in_progress := True\<rparr>) ex_hapd ''DD''"
  using add_ie_reply [of "''DD''" "ex_iface None\<lparr>if_csa_in_progress := True\<rparr>" "[0]" shipped_build ex_ev True ex_hapd "CHR ''0''"]
  by simp

definition ex_ctrl :: ctrl_env where
  "ex_ctrl = \<lparr>ce_build = shipped_build, ce_ap = ex_ev, ce_alloc_reply = True, ce_alloc = True,
     ce_sta_add = (\<lambda>h a. None), ce_vendor_cmd = (\<lambda>v s d b. (-1, b)), ce_other = (\<lambda>c st. (-1, [], st))\<rparr>"

lemma add_ie_overflow_witness:
  "\<exists>k n. hostapd_ctrl_iface_receive ex_ctrl
      \<lparr>cs_iface = ex_iface None, cs_hapd = ex_hapd\<lparr>hd_conf := ex_bss\<lparr>bc_wmm_enabled := True\<rparr>\<rparr>, cs_ctrl_dst = [], cs_ctrl_sock = 5\<rparr>
      [] (''ADD_IE '' @ hex_of False (replicate 2044 7)) = Inl (Write_past_end k n)"
proof -
  let ?st = "\<lparr>cs_iface = ex_iface None, cs_hapd = ex_hapd\<lparr>hd_conf := ex_bss\<lparr>bc_wmm_enabled := True\<rparr>\<rparr>, cs_ctrl_dst = [], cs_ctrl_sock = 5\<rparr>"
  have "bss_ok (cs_iface ?st) (cs_hapd ?st)"
    by (simp add: bss_ok_def ex_hapd_def ex_bss_def ex_iface_def opt_elements_def time_adv_ok_def)
  moreover have "\<exists>d. dfs_or_zero (cs_iface ?st) = Inr d"
    by (simp add: dfs_or_zero_def hostapd_is_dfs_required_def ex_iface_def ex_conf_def)
  moreover have "bc_wmm_enabled (hd_conf (cs_hapd ?st))" "\<not> if_csa_in_progress (cs_iface ?st)" "ce_build ex_ctrl = shipped_build"
    "ce_alloc_reply ex_ctrl" "ce_alloc ex_ctrl" "ev_alloc_head (ce_ap ex_ctrl)" "ev_alloc_tail (ce_ap ex_ctrl)"
    "length (replicate 2044 (7 :: byte)) = 2044"
    by (simp_all add: ex_iface_def ex_ctrl_def ex_ev_def)
  ultimately show ?thesis using add_ie_overflow by blast
qed

end
