(* ===== verification/Nlscan.thy ===== *)
theory Nlscan
  imports Hex_Text Elements
begin

text \<open>
  The scanner of the LoWS receiver application, \<open>jni/nlscan.c\<close>: it asks the kernel for the
  scan results and prints them as text, from which the application takes the elements that
  carry LoWS messages.

  The netlink library is not part of the repository. What it delivers is data here: the
  attributes of a scan result, already looked up by their number, and the events for which it
  calls the registered handlers. An attribute with data is the list of octets from its start to
  the end of the received message, with the length of the attribute; the octets behind the
  attribute exist in memory, behind the message they do not. The output is the text written to
  the standard output; the copy in the Android log is left out.
\<close>

section \<open>Text output\<close>

definition tab :: char where
  "tab = CHR 0x09"

definition fmt_d :: "int \<Rightarrow> string" where
  \<comment> \<open>\<open>%d\<close>\<close>
  "fmt_d n = (if n < 0 then CHR ''-'' # fmt_zu (nat (- n)) else fmt_zu (nat n))"

definition fmt_d2 :: "int \<Rightarrow> string" where
  \<comment> \<open>\<open>%.2d\<close>: at least two digits\<close>
  "fmt_d2 n =
     (let ds = fmt_zu (nat \<bar>n\<bar>); ds = (if length ds < 2 then CHR ''0'' # ds else ds)
      in if n < 0 then CHR ''-'' # ds else ds)"

definition isprint :: "byte \<Rightarrow> bool" where
  "isprint c \<longleftrightarrow> 0x20 \<le> c \<and> c \<le> 0x7e"

definition ssid_char :: "nat \<Rightarrow> nat \<Rightarrow> byte \<Rightarrow> string" where
  "ssid_char len i c =
     (if isprint c \<and> c \<noteq> 0x20 \<and> c \<noteq> 0x5c then [chr8 c]
      else if c = 0x20 \<and> (i \<noteq> 0 \<and> i \<noteq> len - 1) then '' ''
      else CHR 0x5C # ''x'' @ fmt_02x False c)"

definition print_ssid_escaped :: "byte list \<Rightarrow> string" where
  \<comment> \<open>\<open>data\<close> up to \<open>len\<close>\<close>
  "print_ssid_escaped data = concat (map (\<lambda>i. ssid_char (length data) i (data ! i)) [0..<length data])"

definition print_ssid :: "byte list \<Rightarrow> string" where
  "print_ssid data = tab # ''SSID: '' @ print_ssid_escaped data @ [newline]"

definition mac_addr_n2a :: "byte list \<Rightarrow> string" where
  "mac_addr_n2a arg = concat (map (\<lambda>i. (if i = 0 then [] else '':'') @ fmt_02x False (arg ! i)) [0..<6])"

section \<open>Printing elements\<close>

definition ie_line :: "byte list \<Rightarrow> string" where
  \<comment> \<open>the line for the element that \<open>ie\<close> starts with\<close>
  "ie_line ie =
     tab # ''IE ('' @ fmt_d (uint (ie ! 0)) @ '', len='' @ fmt_d (uint (ie ! 1)) @ '') IE data (hex):''
     @ concat (map (\<lambda>b. CHR '' '' # fmt_02x False b) (take (unat (ie ! 1) + 2) ie)) @ [newline]"

definition ie_text :: "byte list \<Rightarrow> string" where
  \<comment> \<open>what one round of the loop prints\<close>
  "ie_text ie =
     (if ie ! 0 = 0 then print_ssid (take (unat (ie ! 1)) (drop 2 ie)) else []) @ ie_line ie"

text \<open>
  The loop: \<open>ie\<close> are the octets from the pointer to the end of the message, \<open>ielen\<close> the
  counter, which the condition compares with the body length only, so that it may become
  negative.
\<close>

function print_ies_loop :: "string \<Rightarrow> byte list \<Rightarrow> int \<Rightarrow> fault + string" where
  "print_ies_loop out ie ielen =
     (if ielen < 2 then Inr out
      else if length ie < 2 then Inl (Read_past_end (length ie) 2)
      else let n = unat (ie ! 1) + 2 in
      if ielen < int (unat (ie ! 1)) then Inr out
      else if length ie < n then Inl (Read_past_end (length ie) n)
      else print_ies_loop (out @ ie_text ie) (drop n ie) (ielen - int n))"
  by pat_completeness auto
termination
  by (relation "measure (\<lambda>(out, ie, ielen). nat ielen)") (auto intro: order.strict_trans2 [OF _ uint_ge_0])

declare print_ies_loop.simps [simp del]

definition print_ies :: "byte list \<Rightarrow> int \<Rightarrow> fault + string" where
  "print_ies ie ielen = print_ies_loop [] ie ielen"

section \<open>Scan results\<close>

text \<open>The attributes of a scan result; those with data have their octets and their length.\<close>

record bss_attrs =
  ba_bssid :: "byte list option"
  ba_frequency :: "u32 option"
  ba_beacon_interval :: "u16 option"
  ba_signal_mbm :: "u32 option"
  ba_seen_ms_ago :: "u32 option"
  ba_ies :: "(byte list \<times> nat) option"
  ba_beacon_ies :: "(byte list \<times> nat) option"

definition c_int :: "u32 \<Rightarrow> int" where
  \<comment> \<open>the conversion of a \<open>u32\<close> to \<open>int\<close>\<close>
  "c_int v = sint (ucast v :: 32 word)"

definition c_rem :: "int \<Rightarrow> int \<Rightarrow> int" where
  "c_rem a b = a - b * c_div a b"

definition line :: "string \<Rightarrow> string \<Rightarrow> string" where
  "line name value = tab # name @ value @ [newline]"

text \<open>
  A scan result: \<open>None\<close> when the message has no BSS attribute or the nested attributes cannot
  be parsed. The beacon interval is read again for the log, outside the test for its presence.
  \<open>show\<close> is 1 or 2: how many of the two sets of elements are printed.
\<close>

definition print_bss_handler :: "bool \<Rightarrow> bss_attrs option \<Rightarrow> fault + string" where
  "print_bss_handler show_both_ie_sets attrs =
     (let head = replicate 46 (CHR ''*'') @ [newline] in
      case attrs of None \<Rightarrow> Inr head | Some bss \<Rightarrow>
      case ba_bssid bss of None \<Rightarrow> Inr head | Some bssid \<Rightarrow>
      if length bssid < 6 then Inl (Read_past_end (length bssid) 6) else
      let out = head @ ''BSS '' @ mac_addr_n2a bssid @ [newline]
                @ (case ba_frequency bss of None \<Rightarrow> [] | Some f \<Rightarrow> line ''freq: '' (fmt_d (c_int f))) in
      case ba_beacon_interval bss of None \<Rightarrow> Inl Null_deref | Some bi \<Rightarrow>
      let out = out @ line ''beacon interval: '' (fmt_d (uint bi))
                @ (case ba_signal_mbm bss of None \<Rightarrow> []
                   | Some s \<Rightarrow> line ''signal (dBm): '' (fmt_d (c_div (c_int s) 100) @ ''.'' @ fmt_d2 (c_rem (c_int s) 100)))
                @ (case ba_seen_ms_ago bss of None \<Rightarrow> [] | Some a \<Rightarrow> line ''last seen (ms ago): '' (fmt_d (c_int a)));
          show = (if show_both_ie_sets then 2 else 1 :: nat) in
      fbind (case ba_ies bss of
               None \<Rightarrow> Inr (out, show)
             | Some (ie, ielen) \<Rightarrow>
                 fbind (print_ies ie (int ielen)) (\<lambda>t.
                 Inr (out @ (if ba_beacon_ies bss = None then []
                             else line ''Information elements from Probe Response frame:'' []) @ t, show - 1)))
        (\<lambda>(out, show).
      case ba_beacon_ies bss of
        None \<Rightarrow> Inr out
      | Some (ie, ielen) \<Rightarrow>
          if show = 0 then Inr out
          else fbind (print_ies ie (int ielen)) (\<lambda>t.
               Inr (out @ line ''Information elements from Beacon frame:'' [] @ t))))"

section \<open>The handlers and the receive loop\<close>

datatype nl_action = NL_OK | NL_SKIP | NL_STOP

definition error_handler :: "int \<Rightarrow> int \<times> nl_action" where
  "error_handler error = (error, NL_STOP)"

definition finish_handler :: "int \<times> nl_action" where
  "finish_handler = (0, NL_SKIP)"

definition ack_handler :: "int \<times> nl_action" where
  "ack_handler = (0, NL_STOP)"

definition no_seq_check :: nl_action where
  "no_seq_check = NL_OK"

definition wait_event :: "byte list \<Rightarrow> byte \<Rightarrow> byte \<Rightarrow> byte \<times> nl_action" where
  \<comment> \<open>the commands waited for, the command recorded so far, the command of the message\<close>
  "wait_event cmds cmd0 cmd = (foldl (\<lambda>c w. if cmd = w then cmd else c) cmd0 cmds, NL_SKIP)"

datatype nl_event = Ev_valid "bss_attrs option" | Ev_error int | Ev_finish | Ev_ack

text \<open>
  One call of \<open>nl_recvmsgs\<close> delivers a list of events; a handler that returns \<open>NL_STOP\<close>
  ends the call. The state is \<open>err\<close> and the output.
\<close>

fun recv_events :: "int \<times> string \<Rightarrow> nl_event list \<Rightarrow> fault + int \<times> string" where
  "recv_events (err, out) [] = Inr (err, out)"
| "recv_events (err, out) (ev # evs) =
     (case ev of
        Ev_valid attrs \<Rightarrow>
          fbind (print_bss_handler False attrs) (\<lambda>t. recv_events (err, out @ t) evs)
      | Ev_error e \<Rightarrow> Inr (fst (error_handler e), out)
      | Ev_finish \<Rightarrow> recv_events (fst finish_handler, out) evs
      | Ev_ack \<Rightarrow> Inr (fst ack_handler, out))"

text \<open>\<open>None\<close>: the deliveries are used up and the loop is still waiting.\<close>

fun recv_loop :: "int \<times> string \<Rightarrow> nl_event list list \<Rightarrow> (fault + int \<times> string) option" where
  "recv_loop (err, out) batches =
     (if err \<le> 0 then Some (Inr (err, out))
      else case batches of
        [] \<Rightarrow> None
      | evs # batches \<Rightarrow>
          (case recv_events (err, out) evs of
             Inl e \<Rightarrow> Some (Inl e)
           | Inr st \<Rightarrow> recv_loop st batches))"

text \<open>
  The exit status and the output of the program. \<open>put_ok\<close>: the interface index could be
  put into the message. The result of \<open>nl80211_init\<close> is only logged.
\<close>

definition nl80211_init :: "bool \<Rightarrow> bool \<Rightarrow> int \<Rightarrow> int" where
  \<comment> \<open>socket, connection and the identifier of the family, which is negative when not found\<close>
  "nl80211_init sock_ok connect_ok nl80211_id =
     (if \<not> sock_ok then -12 else if \<not> connect_ok then -67 else if nl80211_id < 0 then -2 else 0)"

definition nlscan_main :: "bool \<Rightarrow> nl_event list list \<Rightarrow> (fault + int \<times> string) option" where
  "nlscan_main put_ok batches =
     (if \<not> put_ok then Some (Inr (-105, ''#''))
      else case recv_loop (1, ''#'') batches of
        None \<Rightarrow> None
      | Some (Inl e) \<Rightarrow> Some (Inl e)
      | Some (Inr (err, out)) \<Rightarrow> Some (Inr (0, out)))"

section \<open>Reading a line back\<close>

definition line_data :: "string \<Rightarrow> string" where
  \<comment> \<open>how a reader takes the hexadecimal digits from a line\<close>
  "line_data l = filter (\<lambda>c. c \<noteq> CHR '' '') (takeWhile (\<lambda>c. c \<noteq> newline) (drop 1 (dropWhile (\<lambda>c. c \<noteq> CHR '':'') l)))"

lemma fmt_zu_no_colon: "\<forall>c \<in> set (fmt_zu n). c \<noteq> CHR '':''"
  using fmt_zu_digits [of n] by (auto simp: is_digit_def)

lemma hexdigit_plain: "hexdigit False k \<noteq> CHR '' '' \<and> hexdigit False k \<noteq> newline" if "k < 16"
proof -
  have "of_char (hexdigit False k) \<ge> (48 :: nat)" using that by (simp add: hexdigit_def)
  then show ?thesis by (auto simp: newline_def)
qed

lemma fmt_02x_plain: "\<forall>c \<in> set (fmt_02x False b). c \<noteq> CHR '' '' \<and> c \<noteq> newline"
  using unat_byte_lt [of b] by (auto simp: fmt_02x_def hexdigit_plain)

lemma hex_blanks:
  "filter (\<lambda>c. c \<noteq> CHR '' '') (takeWhile (\<lambda>c. c \<noteq> newline)
      (concat (map (\<lambda>b. CHR '' '' # fmt_02x False b) bs) @ newline # rest)) = concat (map (fmt_02x False) bs)"
proof (induction bs)
  case (Cons b bs)
  have "filter (\<lambda>c. c \<noteq> CHR '' '') (fmt_02x False b) = fmt_02x False b" using fmt_02x_plain [of b] by (simp add: filter_id_conv)
  moreover have "takeWhile (\<lambda>c. c \<noteq> newline) (fmt_02x False b @ xs) = fmt_02x False b @ takeWhile (\<lambda>c. c \<noteq> newline) xs" for xs
    using fmt_02x_plain [of b] by (simp add: takeWhile_append)
  ultimately show ?case using Cons by (simp add: newline_def)
qed simp

lemma line_data_ie:
  "line_data (ie_line ie @ rest) = concat (map (fmt_02x False) (take (unat (ie ! 1) + 2) ie))"
proof -
  have d: "\<forall>c \<in> set (fmt_d (uint b)). c \<noteq> CHR '':''" for b :: byte
    using fmt_zu_no_colon by (simp add: fmt_d_def)
  have skip: "dropWhile (\<lambda>c. c \<noteq> CHR '':'') (fmt_d (uint b) @ xs) = dropWhile (\<lambda>c. c \<noteq> CHR '':'') xs" for b :: byte and xs
    using d [of b] by (simp add: dropWhile_append)
  show ?thesis unfolding line_data_def ie_line_def by (simp add: tab_def skip hex_blanks)
qed

text \<open>
  C21: the line the scanner prints for an element says what the element is. Taking the text
  after the colon without the blanks and converting it with the access point's own
  \<open>hexstr2bin\<close> gives the element back, whatever its identifier and body are and whatever
  follows it in the frame.
\<close>

theorem scan_line_roundtrip:
  assumes "wf_element e"
  shows "hexstr2bin (line_data (ie_line (enc_element e @ behind) @ out)) (2 + length (snd e)) = (0, enc_element e)"
proof -
  have n: "unat ((enc_element e @ behind) ! 1) = length (snd e)" using unat_length_octet [OF assms] by (simp add: enc_element_def)
  have "line_data (ie_line (enc_element e @ behind) @ out) = concat (map (fmt_02x False) (enc_element e))"
    unfolding line_data_ie n by (simp add: enc_element_def)
  then show ?thesis using hexstr2bin_enc [of False "enc_element e" "[]"] by simp
qed

lemma scan_line_roundtrip_witness:
  "hexstr2bin (line_data (ie_line (enc_element (221, [1, 2, 3]) @ []) @ [])) 5 = (0, [221, 3, 1, 2, 3])"
  using scan_line_roundtrip [of "(221, [1, 2, 3])" "[]" "[]"] by (simp add: wf_element_def enc_element_def)

section \<open>The elements printed\<close>

lemma print_ies_step:
  assumes "unat (ie ! 1) = k" and "\<not> ielen < 2" and "\<not> length ie < 2" and "\<not> ielen < int k"
  shows "print_ies_loop out ie ielen = (if length ie < k + 2 then Inl (Read_past_end (length ie) (k + 2))
    else print_ies_loop (out @ ie_text ie) (drop (k + 2) ie) (ielen - int (k + 2)))"
  by (subst print_ies_loop.simps) (simp only: assms if_False Let_def)

lemma print_ies_stop:
  assumes "ielen < 2 \<or> (2 \<le> length ie \<and> ielen < int (unat (ie ! 1)))"
  shows "print_ies_loop out ie ielen = Inr out"
proof (cases "ielen < 2")
  case False
  then have a: "\<not> length ie < 2" "ielen < int (unat (ie ! 1))" using assms by auto
  show ?thesis by (subst print_ies_loop.simps) (simp only: a False if_False if_True Let_def)
qed (subst print_ies_loop.simps, simp)

lemma octet_1: "wf_element e \<Longrightarrow> unat ((enc_element e @ rest) ! 1) = length (snd e)"
  using unat_length_octet [of e] by (simp add: enc_element_def)

lemma ie_text_element:
  assumes "wf_element e"
  shows "ie_text (enc_element e @ rest) = ie_text (enc_element e)"
proof -
  have o: "(enc_element e @ rest) ! 0 = enc_element e ! 0" "(enc_element e @ rest) ! 1 = enc_element e ! 1"
    "unat (enc_element e ! 1) = length (snd e)"
    using octet_1 [OF assms, of "[]"] by (simp_all add: enc_element_def)
  have t: "take (length (snd e) + 2) (enc_element e @ rest) = take (length (snd e) + 2) (enc_element e)"
    "take (length (snd e)) (drop 2 (enc_element e @ rest)) = take (length (snd e)) (drop 2 (enc_element e))"
    by (simp_all add: enc_element_def)
  show ?thesis unfolding ie_text_def ie_line_def o t ..
qed

lemma print_ies_element:
  assumes "wf_element e" and "0 \<le> n"
  shows "print_ies_loop out (enc_element e @ rest) (int (length (enc_element e)) + n)
    = print_ies_loop (out @ ie_text (enc_element e)) rest n"
proof -
  have a: "\<not> int (length (enc_element e)) + n < 2" "\<not> length (enc_element e @ rest) < 2"
    "\<not> int (length (enc_element e)) + n < int (length (snd e))" using assms(2) by simp_all
  have b: "drop (length (snd e) + 2) (enc_element e @ rest) = rest" "\<not> length (enc_element e @ rest) < length (snd e) + 2"
    by simp_all
  have c: "int (length (enc_element e)) + n - int (length (snd e) + 2) = n" by simp
  show ?thesis unfolding print_ies_step [OF octet_1 [OF assms(1)] a] b(1) c ie_text_element [OF assms(1)]
    using b(2) by (simp only: if_False)
qed

interpretation scan: tlv_walker "\<lambda>out bs. print_ies_loop out (bs @ behind) (int (length bs))"
    "\<lambda>out e. out @ ie_text (enc_element e)" for behind
proof unfold_locales
  fix e :: element and out rest
  assume "wf_element e"
  from print_ies_element [OF this, of "int (length rest)" out "rest @ behind"]
  show "print_ies_loop out ((enc_element e @ rest) @ behind) (int (length (enc_element e @ rest)))
      = print_ies_loop (out @ ie_text (enc_element e)) (rest @ behind) (int (length rest))"
    by (simp only: append_assoc length_append of_nat_add of_nat_0_le_iff)
qed

lemma foldl_append: "foldl (\<lambda>out e. out @ f e) out es = out @ concat (map f es)"
  by (induction es arbitrary: out) auto

text \<open>
  What the scanner prints for a frame body. Every complete element gives its lines, in
  order. The rest that is not a complete element is left out if its body lacks more than two
  octets; if it lacks one or two, the loop still takes it for complete: it prints octets of
  memory behind the attribute as part of the element, or reads past the end of the message.
\<close>

theorem print_ies_correct:
  assumes "list_all wf_element es" and "incomplete tail"
  shows "print_ies (enc_elements es @ tail @ behind) (int (length (enc_elements es @ tail))) =
    (let printed = concat (map (\<lambda>e. ie_text (enc_element e)) es); n = unat (tail ! 1) + 2 in
     if length tail < 2 \<or> length tail + 2 < n then Inr printed
     else if length (tail @ behind) < n then Inl (Read_past_end (length (tail @ behind)) n)
     else Inr (printed @ ie_text (tail @ behind)))"
proof -
  let ?printed = "concat (map (\<lambda>e. ie_text (enc_element e)) es)" and ?k = "unat (tail ! 1)"
  have walk: "print_ies (enc_elements es @ tail @ behind) (int (length (enc_elements es @ tail)))
      = print_ies_loop ?printed (tail @ behind) (int (length tail))"
    using scan.walk_elements [OF assms(1), of "[]" tail behind] by (simp add: print_ies_def foldl_append)
  show ?thesis
  proof (cases "length tail < 2")
    case True
    then show ?thesis unfolding walk by (simp add: print_ies_stop)
  next
    case False
    then have k: "unat ((tail @ behind) ! 1) = ?k" by (simp add: nth_append)
    have inc: "length tail < ?k + 2"
      using assms(2) False by (cases tail; cases "tl tail") (auto simp: incomplete_def)
    show ?thesis
    proof (cases "length tail < ?k")
      case True
      then have x: "int (length tail) < int (unat ((tail @ behind) ! 1))" unfolding k by (simp only: of_nat_less_iff)
      have y: "2 \<le> length (tail @ behind)" using False by simp
      have "print_ies_loop ?printed (tail @ behind) (int (length tail)) = Inr ?printed"
        by (rule print_ies_stop [OF disjI2 [OF conjI [OF y x]]])
      then show ?thesis unfolding walk using True False by (simp add: Let_def)
    next
      case False': False
      have a: "\<not> int (length tail) < 2" "\<not> length (tail @ behind) < 2" using False by simp_all
      have a': "\<not> int (length tail) < int ?k" unfolding of_nat_less_iff by (rule False')
      have "print_ies_loop out ie (int (length tail) - int (?k + 2)) = Inr out" for out ie
        by (rule print_ies_stop [OF disjI1]) (use inc in linarith)
      then show ?thesis unfolding walk print_ies_step [OF k a a'] using False False' by (simp add: Let_def)
    qed
  qed
qed


lemma print_ies_correct_witness:
  "print_ies ([221, 1, 7] @ [0, 3, 65] @ [66, 67]) 6
     = Inr (ie_text (enc_element (221, [7])) @ ie_text [0, 3, 65, 66, 67])
   \<and> print_ies ([221, 1, 7] @ [0, 3, 65] @ []) 6 = Inl (Read_past_end 3 5)"
proof -
  have e: "list_all wf_element [(221, [7])]" "incomplete [0, 3, 65]" "enc_elements [(221, [7])] = [221, 1, 7]"
    by (simp_all add: wf_element_def incomplete_def enc_element_def)
  show ?thesis
    using print_ies_correct [OF e(1,2), of "[66, 67]"] print_ies_correct [OF e(1,2), of "[]"] unfolding e(3) by simp
qed

section \<open>The whole run\<close>

declare recv_loop.simps [simp del]

lemma recv_loop_rounds [simp]:
  "err \<le> 0 \<Longrightarrow> recv_loop (err, out) batches = Some (Inr (err, out))"
  "0 < err \<Longrightarrow> recv_loop (err, out) [] = None"
  "0 < err \<Longrightarrow> recv_loop (err, out) (evs # batches) = (case recv_events (err, out) evs of
     Inl e \<Rightarrow> Some (Inl e) | Inr st \<Rightarrow> recv_loop st batches)"
  by (simp_all add: recv_loop.simps)

lemma recv_valid:
  assumes "list_all2 (\<lambda>a t. print_bss_handler False a = Inr t) as ts"
  shows "recv_events (err, out) (map Ev_valid as @ evs) = recv_events (err, out @ concat ts) evs"
  using assms by (induction arbitrary: out rule: list_all2_induct) auto

lemma recv_loop_valid:
  assumes "list_all2 (list_all2 (\<lambda>a t. print_bss_handler False a = Inr t)) ass tss" and "0 < err"
  shows "recv_loop (err, out) (map (map Ev_valid) ass @ batches) = recv_loop (err, out @ concat (concat tss)) batches"
  using assms(1)
proof (induction arbitrary: out rule: list_all2_induct)
  case (Cons as ass ts tss)
  from recv_valid [OF Cons(1), of err out "[]"] Cons(3) assms(2) show ?case by simp
qed simp

text \<open>
  The scanner ends, and prints every network. As long as the kernel delivers results only,
  it goes on waiting; when the end of the dump arrives it leaves the loop, whatever is
  delivered later, and its output is the text of all results in the order of their arrival. An
  error code or an acknowledgement ends it in the same way.
\<close>

theorem nlscan_finishes:
  assumes "list_all2 (list_all2 (\<lambda>a t. print_bss_handler False a = Inr t)) ass tss"
    and "list_all2 (\<lambda>a t. print_bss_handler False a = Inr t) as ts"
    and "ev = Ev_finish \<or> ev = Ev_ack \<or> (\<exists>e \<le> 0. ev = Ev_error e)"
  shows "nlscan_main True (map (map Ev_valid) ass) = None
    \<and> nlscan_main True (map (map Ev_valid) ass @ (map Ev_valid as @ [ev]) # later)
        = Some (Inr (0, ''#'' @ concat (concat tss) @ concat ts))"
proof -
  have wait: "recv_loop (1, ''#'') (map (map Ev_valid) ass @ b) = recv_loop (1, ''#'' @ concat (concat tss)) b" for b
    by (rule recv_loop_valid [OF assms(1)]) simp
  have "\<exists>e \<le> 0. recv_events (1, out) (map Ev_valid as @ [ev]) = Inr (e, out @ concat ts)" for out
    using assms(3) unfolding recv_valid [OF assms(2)]
    by (auto simp: error_handler_def finish_handler_def ack_handler_def)
  then obtain e where "e \<le> 0" "recv_events (1, ''#'' @ concat (concat tss)) (map Ev_valid as @ [ev])
      = Inr (e, (''#'' @ concat (concat tss)) @ concat ts)" by blast
  then show ?thesis using wait [of "[]"] by (simp add: nlscan_main_def wait)
qed

lemma nlscan_finishes_witness:
  "nlscan_main True [[Ev_valid None], [Ev_finish]] = Some (Inr (0, ''#'' @ replicate 46 (CHR ''*'') @ [newline]))"
proof -
  have h: "print_bss_handler False None = Inr (replicate 46 (CHR ''*'') @ [newline])" by (simp add: print_bss_handler_def)
  show ?thesis
    using nlscan_finishes [of "[[None]]" "[[replicate 46 (CHR ''*'') @ [newline]]]" "[]" "[]" Ev_finish "[]"] h
    by (simp del: replicate.simps)
qed

lemma no_beacon_interval:
  "ba_bssid bss = Some a \<Longrightarrow> 6 \<le> length a \<Longrightarrow> ba_beacon_interval bss = None
    \<Longrightarrow> print_bss_handler b (Some bss) = Inl Null_deref"
  by (simp add: print_bss_handler_def)

end
