(* ===== verification/Radiotap.thy ===== *)
theory Radiotap
  imports Prelude
begin

text \<open>
  The radiotap header parser, \<open>utils/radiotap.c\<close>: an iterator over the arguments in the
  variable-length header in front of frames on a monitor interface.

  Pointers into the header are offsets from its start; \<open>rt_hdr\<close> is the packet, from the
  header on. A read past the packet is the fault \<open>Read_past_end\<close>. \<open>_next_ns_data\<close> is not set by
  the initialisation: \<open>None\<close> is its value before the first vendor namespace, and reading it
  then is the fault \<open>Uninitialised\<close>. Overrides are not compiled.
\<close>

section \<open>Data\<close>

record radiotap_namespace =
  ns_align_size :: "(nat \<times> nat) list"   \<comment> \<open>alignment and size by argument index; \<open>n_bits\<close> is its length\<close>
  ns_oui :: u32
  ns_subns :: byte

datatype rt_namespace = Ns_none | Ns_radiotap | Ns_vendor radiotap_namespace

record radiotap_iterator =
  rt_hdr :: "byte list"
  rt_vns :: "radiotap_namespace list"     \<comment> \<open>empty when there are none\<close>
  rt_ns :: rt_namespace
  rt_arg :: nat
  rt_next_ns_data :: "nat option"
  rt_next_bitmap :: nat
  rt_this_arg :: nat
  rt_this_arg_index :: nat
  rt_this_arg_size :: nat
  rt_is_radiotap_ns :: bool
  rt_max_length :: nat
  rt_arg_index :: nat
  rt_bitmap_shifter :: u32
  rt_reset_on_ext :: bool

abbreviation (input) "IEEE80211_RADIOTAP_RADIOTAP_NAMESPACE \<equiv> (29 :: nat)"
abbreviation (input) "IEEE80211_RADIOTAP_VENDOR_NAMESPACE \<equiv> (30 :: nat)"
abbreviation (input) "IEEE80211_RADIOTAP_EXT \<equiv> (31 :: nat)"
abbreviation (input) "ENOENT \<equiv> (2 :: int)"
abbreviation (input) "EINVAL \<equiv> (22 :: int)"

definition rtap_namespace_sizes :: "(nat \<times> nat) list" where
  \<comment> \<open>TSFT to AMPDU status; there is no entry for 18\<close>
  "rtap_namespace_sizes =
     [(8, 8), (1, 1), (1, 1), (2, 4), (2, 2), (1, 1), (1, 1), (2, 2), (2, 2), (2, 2), (1, 1),
      (1, 1), (1, 1), (1, 1), (2, 2), (2, 2), (1, 1), (1, 1), (0, 0), (1, 3), (4, 8)]"

definition ns_sizes :: "rt_namespace \<Rightarrow> (nat \<times> nat) list" where
  "ns_sizes ns = (case ns of Ns_none \<Rightarrow> [] | Ns_radiotap \<Rightarrow> rtap_namespace_sizes | Ns_vendor v \<Rightarrow> ns_align_size v)"

definition rd_le16 :: "byte list \<Rightarrow> nat \<Rightarrow> fault + u16" where
  "rd_le16 p k = (if length p < k + 2 then Inl (Read_past_end (length p) (k + 2)) else Inr (get_le16 p k))"

definition rd_le32 :: "byte list \<Rightarrow> nat \<Rightarrow> fault + u32" where
  "rd_le32 p k = (if length p < k + 4 then Inl (Read_past_end (length p) (k + 4)) else Inr (get_le32 p k))"

section \<open>Initialisation\<close>

text \<open>
  The \<open>while\<close> loop over the extended bitmaps: the offset behind the last one, or \<open>None\<close> for
  -EINVAL.
\<close>

function skip_bitmaps :: "byte list \<Rightarrow> nat \<Rightarrow> nat \<Rightarrow> fault + nat option" where
  "skip_bitmaps p lim arg =
     (if length p < arg + 4 then Inl (Read_past_end (length p) (arg + 4))
      else if \<not> bit (get_le32 p arg) 31 then Inr (Some (arg + 4))
      else if arg + 4 + 4 > lim then Inr None
      else skip_bitmaps p lim (arg + 4))"
  by pat_completeness auto
termination
  by (relation "measure (\<lambda>(p, lim, arg). lim - arg)") auto

declare skip_bitmaps.simps [simp del]

definition ieee80211_radiotap_iterator_init ::
    "byte list \<Rightarrow> int \<Rightarrow> radiotap_namespace list \<Rightarrow> fault + radiotap_iterator option" where
  \<comment> \<open>\<open>None\<close>: -EINVAL\<close>
  "ieee80211_radiotap_iterator_init p max_length vns =
     (if max_length < 8 then Inr None
      else if length p < 8 then Inl (Read_past_end (length p) 8)
      else if p ! 0 \<noteq> 0 then Inr None
      else if max_length < uint (get_le16 p 2) then Inr None
      else let lim = unat (get_le16 p 2); shifter = get_le32 p 4 in
      fbind (if \<not> bit shifter 31 then Inr (Some 8)
             else if 8 + 4 > lim then Inr None
             else skip_bitmaps p lim 8) (\<lambda>r.
      case r of None \<Rightarrow> Inr None
      | Some arg \<Rightarrow> Inr (Some
          \<lparr>rt_hdr = p, rt_vns = vns, rt_ns = Ns_radiotap, rt_arg = arg, rt_next_ns_data = None, rt_next_bitmap = 8,
           rt_this_arg = arg, rt_this_arg_index = 0, rt_this_arg_size = 0, rt_is_radiotap_ns = True,
           rt_max_length = lim, rt_arg_index = 0, rt_bitmap_shifter = shifter, rt_reset_on_ext = False\<rparr>)))"

section \<open>The next argument\<close>

definition find_ns :: "radiotap_namespace list \<Rightarrow> u32 \<Rightarrow> byte \<Rightarrow> rt_namespace" where
  "find_ns vns oui subns =
     (case find (\<lambda>v. ns_oui v = oui \<and> ns_subns v = subns) vns of None \<Rightarrow> Ns_none | Some v \<Rightarrow> Ns_vendor v)"

definition next_entry :: "radiotap_iterator \<Rightarrow> radiotap_iterator" where
  "next_entry it = it\<lparr>rt_bitmap_shifter := drop_bit 1 (rt_bitmap_shifter it), rt_arg_index := rt_arg_index it + 1\<rparr>"

text \<open>
  The alignment and the size of the present argument: \<open>None\<close> for -ENOENT, alignment 0 for
  an argument that the namespace does not know.
\<close>

definition arg_align_size :: "radiotap_iterator \<Rightarrow> (nat \<times> nat) option" where
  "arg_align_size it =
     (let i = rt_arg_index it; sizes = ns_sizes (rt_ns it) in
      if i mod 32 = IEEE80211_RADIOTAP_RADIOTAP_NAMESPACE \<or> i mod 32 = IEEE80211_RADIOTAP_EXT then Some (1, 0)
      else if i mod 32 = IEEE80211_RADIOTAP_VENDOR_NAMESPACE then Some (2, 6)
      else if rt_ns it = Ns_none \<or> i \<ge> length sizes then (if rt_ns it = Ns_radiotap then None else Some (0, 0))
      else Some (sizes ! i))"

definition arg_start :: "nat \<Rightarrow> nat \<Rightarrow> nat" where
  \<comment> \<open>the offset after the padding\<close>
  "arg_start arg align = (let pad = arg AND (align - 1) in if pad \<noteq> 0 then arg + align - pad else arg)"

text \<open>The part for a vendor namespace: the iterator and the size of the argument; \<open>None\<close> for -EINVAL.\<close>

definition vendor_ns :: "radiotap_iterator \<Rightarrow> nat \<Rightarrow> nat \<Rightarrow> fault + (radiotap_iterator \<times> nat) option" where
  "vendor_ns it arg sz =
     (if arg + sz > rt_max_length it then Inr None
      else if length (rt_hdr it) < arg + 4 then Inl (Read_past_end (length (rt_hdr it)) (arg + 4))
      else let ns = find_ns (rt_vns it) (get_be24 (rt_hdr it) arg) (rt_hdr it ! (arg + 3)) in
      fbind (rd_le16 (rt_hdr it) (arg + 4)) (\<lambda>vnslen.
      Inr (Some (it\<lparr>rt_ns := ns, rt_next_ns_data := Some (arg + sz + unat vnslen)\<rparr>,
                 if ns = Ns_none then sz + unat vnslen else sz))))"

text \<open>After an argument was accounted for: what its index means.\<close>

definition radiotap_special :: "radiotap_iterator \<Rightarrow> fault + int option \<times> radiotap_iterator" where
  "radiotap_special it =
     (let k = rt_arg_index it mod 32 in
      if k = IEEE80211_RADIOTAP_VENDOR_NAMESPACE then
        Inr (if rt_ns it = Ns_none then Some 0 else None,
             next_entry (it\<lparr>rt_reset_on_ext := True, rt_is_radiotap_ns := False,
                            rt_this_arg_index := IEEE80211_RADIOTAP_VENDOR_NAMESPACE\<rparr>))
      else if k = IEEE80211_RADIOTAP_RADIOTAP_NAMESPACE then
        Inr (None, next_entry (it\<lparr>rt_reset_on_ext := True, rt_ns := Ns_radiotap, rt_is_radiotap_ns := True\<rparr>))
      else if k = IEEE80211_RADIOTAP_EXT then
        fbind (rd_le32 (rt_hdr it) (rt_next_bitmap it)) (\<lambda>w.
        Inr (None, it\<lparr>rt_bitmap_shifter := w, rt_next_bitmap := rt_next_bitmap it + 4,
                      rt_arg_index := (if rt_reset_on_ext it then 0 else rt_arg_index it + 1),
                      rt_reset_on_ext := False\<rparr>))
      else Inr (Some 0, next_entry it))"

definition account_arg :: "nat \<Rightarrow> nat \<Rightarrow> radiotap_iterator \<Rightarrow> fault + int option \<times> radiotap_iterator" where
  \<comment> \<open>what is returned to the user, the step over the argument and its length check\<close>
  "account_arg arg sz it =
     (let it = it\<lparr>rt_this_arg_index := rt_arg_index it, rt_this_arg := arg, rt_this_arg_size := sz,
                 rt_arg := arg + sz\<rparr> in
      if arg + sz > rt_max_length it then Inr (Some (- EINVAL), it)
      else radiotap_special it)"

text \<open>One round of the \<open>while (1)\<close> loop: \<open>Some r\<close> leaves it with the return value \<open>r\<close>.\<close>

definition radiotap_round :: "radiotap_iterator \<Rightarrow> fault + int option \<times> radiotap_iterator" where
  "radiotap_round it =
     (if \<not> bit (rt_bitmap_shifter it) 0
      then Inr (if rt_arg_index it mod 32 = IEEE80211_RADIOTAP_EXT then (Some (- ENOENT), it) else (None, next_entry it))
      else case arg_align_size it of
        None \<Rightarrow> Inr (Some (- ENOENT), it)
      | Some (align, sz) \<Rightarrow>
          if align = 0 then
            (case rt_next_ns_data it of
               None \<Rightarrow> Inl Uninitialised
             | Some a \<Rightarrow> Inr (None, next_entry (it\<lparr>rt_arg := a, rt_ns := Ns_none\<rparr>)))
          else let arg = arg_start (rt_arg it) align; it = it\<lparr>rt_arg := arg\<rparr> in
          fbind (if rt_arg_index it mod 32 = IEEE80211_RADIOTAP_VENDOR_NAMESPACE
                 then vendor_ns it arg sz else Inr (Some (it, sz))) (\<lambda>r.
          case r of
            None \<Rightarrow> Inr (Some (- EINVAL), it)
          | Some (it, sz) \<Rightarrow> account_arg arg sz it))"

text \<open>
  The rounds end: a round that does not leave the loop takes the index a step towards 31,
  or, at 31, reads the next bitmap, which is within the packet.
\<close>

definition round_measure :: "radiotap_iterator \<Rightarrow> nat" where
  "round_measure it = 32 * (length (rt_hdr it) - rt_next_bitmap it) + (31 - rt_arg_index it mod 32)"

lemma next_entry_measure:
  assumes "rt_arg_index it mod 32 \<noteq> 31"
  shows "round_measure (next_entry it) < round_measure it"
proof -
  define k where "k = rt_arg_index it mod 32"
  have "Suc (rt_arg_index it) mod 32 = Suc k" using assms by (simp add: mod_Suc k_def)
  moreover have "k < 32" by (simp add: k_def)
  moreover have "rt_arg_index (next_entry it) = Suc (rt_arg_index it)" "rt_hdr (next_entry it) = rt_hdr it"
    "rt_next_bitmap (next_entry it) = rt_next_bitmap it" by (simp_all add: next_entry_def)
  ultimately show ?thesis using assms unfolding round_measure_def by (simp flip: k_def)
qed

lemma vendor_ns_keeps:
  assumes "vendor_ns it arg sz = Inr (Some (it', sz'))"
  shows "rt_hdr it' = rt_hdr it \<and> rt_next_bitmap it' = rt_next_bitmap it \<and> rt_arg_index it' = rt_arg_index it
    \<and> rt_bitmap_shifter it' = rt_bitmap_shifter it \<and> rt_max_length it' = rt_max_length it"
  using assms by (auto simp: vendor_ns_def Let_def fbind_Inr_iff split: if_splits)

lemma special_measure:
  assumes "radiotap_special it = Inr (r, it')"
  shows "round_measure it' < round_measure it"
proof (cases "rt_arg_index it mod 32 = 31")
  case True
  then have r: "rt_next_bitmap it + 4 \<le> length (rt_hdr it)"
    and i: "it' = it\<lparr>rt_bitmap_shifter := get_le32 (rt_hdr it) (rt_next_bitmap it), rt_next_bitmap := rt_next_bitmap it + 4,
        rt_arg_index := (if rt_reset_on_ext it then 0 else rt_arg_index it + 1), rt_reset_on_ext := False\<rparr>"
    using assms by (auto simp: radiotap_special_def rd_le32_def Let_def fbind_Inr_iff split: if_splits)
  then show ?thesis by (simp add: round_measure_def)
next
  case False
  have n: "round_measure (next_entry (it\<lparr>rt_reset_on_ext := a, rt_ns := b, rt_is_radiotap_ns := c, rt_this_arg_index := d\<rparr>))
      < round_measure it" for a b c d
    using next_entry_measure [of "it\<lparr>rt_reset_on_ext := a, rt_ns := b, rt_is_radiotap_ns := c, rt_this_arg_index := d\<rparr>"] False
    by (simp add: round_measure_def)
  show ?thesis
    using assms False n [where a = "rt_reset_on_ext it" and b = "rt_ns it" and c = "rt_is_radiotap_ns it" and d = "rt_this_arg_index it"]
      n [where a = True and b = "rt_ns it" and c = False and d = 30]
      n [where a = True and b = Ns_radiotap and c = True and d = "rt_this_arg_index it"]
    by (auto simp: radiotap_special_def Let_def split: if_splits)
qed

lemma round_present:
  assumes "bit (rt_bitmap_shifter it) 0" and "radiotap_round it = Inr (r, it')"
  shows "r \<in> {Some (- ENOENT), Some (- EINVAL)}
    \<or> (r = None \<and> rt_arg_index it mod 32 < 29 \<and> (\<exists>a. it' = next_entry (it\<lparr>rt_arg := a, rt_ns := Ns_none\<rparr>)))
    \<or> (\<exists>it2. rt_hdr it2 = rt_hdr it \<and> rt_next_bitmap it2 = rt_next_bitmap it \<and> rt_arg_index it2 = rt_arg_index it
        \<and> rt_bitmap_shifter it2 = rt_bitmap_shifter it \<and> rt_max_length it2 = rt_max_length it
        \<and> rt_this_arg it2 + rt_this_arg_size it2 = rt_arg it2 \<and> rt_arg it2 \<le> rt_max_length it2
        \<and> radiotap_special it2 = Inr (r, it'))"
proof (cases "arg_align_size it")
  case None
  then show ?thesis using assms by (auto simp: radiotap_round_def)
next
  case (Some p)
  obtain align sz where p: "p = (align, sz)" by (cases p)
  show ?thesis
  proof (cases "align = 0")
    case True
    have "rt_arg_index it mod 32 \<noteq> 29" "rt_arg_index it mod 32 \<noteq> 30" "rt_arg_index it mod 32 \<noteq> 31"
      using Some p True by (auto simp: arg_align_size_def)
    moreover have "rt_arg_index it mod 32 < 32" by simp
    ultimately have "rt_arg_index it mod 32 < 29" by linarith
    then show ?thesis using assms Some p True by (auto simp: radiotap_round_def split: option.splits)
  next
    case False
    define arg where "arg = arg_start (rt_arg it) align"
    let ?r = "if rt_arg_index it mod 32 = 30 then vendor_ns (it\<lparr>rt_arg := arg\<rparr>) arg sz else Inr (Some (it\<lparr>rt_arg := arg\<rparr>, sz))"
    have run: "radiotap_round it = fbind ?r (\<lambda>r. case r of None \<Rightarrow> Inr (Some (- EINVAL), it\<lparr>rt_arg := arg\<rparr>)
          | Some (it, sz) \<Rightarrow> account_arg arg sz it)"
      using assms(1) Some p False by (simp add: radiotap_round_def Let_def flip: arg_def)
    show ?thesis
    proof (cases ?r)
      case (Inl e)
      then show ?thesis using assms(2) unfolding run by simp
    next
      case (Inr q)
      show ?thesis
      proof (cases q)
        case None
        then show ?thesis using assms(2) Inr unfolding run by simp
      next
        case (Some q')
        obtain i z where q: "q = Some (i, z)" using Some by (cases q') auto
        have same: "rt_hdr i = rt_hdr it \<and> rt_next_bitmap i = rt_next_bitmap it \<and> rt_arg_index i = rt_arg_index it
            \<and> rt_bitmap_shifter i = rt_bitmap_shifter it \<and> rt_max_length i = rt_max_length it"
          using Inr q vendor_ns_keeps [of "it\<lparr>rt_arg := arg\<rparr>" arg sz i z] by (auto split: if_splits)
        let ?i = "i\<lparr>rt_this_arg_index := rt_arg_index i, rt_this_arg := arg, rt_this_arg_size := z, rt_arg := arg + z\<rparr>"
        have res: "Inr (r, it') = (if arg + z > rt_max_length ?i then Inr (Some (- EINVAL), ?i) else radiotap_special ?i)"
          using assms(2) unfolding run Inr q by (simp add: account_arg_def Let_def)
        show ?thesis
        proof (cases "arg + z > rt_max_length ?i")
          case True
          then show ?thesis using res by simp
        next
          case False
          then have "radiotap_special ?i = Inr (r, it')" using res by simp
          then show ?thesis using False same by (intro disjI2 exI [of _ ?i]) simp
        qed
      qed
    qed
  qed
qed

lemma round_decreases:
  assumes "radiotap_round it = Inr (r, it')" and "r \<in> {None, Some 0}"
  shows "round_measure it' < round_measure it"
proof (cases "bit (rt_bitmap_shifter it) 0")
  case False
  then have "rt_arg_index it mod 32 \<noteq> 31" "it' = next_entry it" using assms by (auto simp: radiotap_round_def split: if_splits)
  with next_entry_measure show ?thesis by simp
next
  case True
  from round_present [OF this assms(1)] assms(2) consider
    (skip) a where "rt_arg_index it mod 32 < 29" "it' = next_entry (it\<lparr>rt_arg := a, rt_ns := Ns_none\<rparr>)"
  | (arg) it2 where "rt_hdr it2 = rt_hdr it" "rt_next_bitmap it2 = rt_next_bitmap it" "rt_arg_index it2 = rt_arg_index it"
      "radiotap_special it2 = Inr (r, it')" by auto
  then show ?thesis
  proof cases
    case skip
    then show ?thesis using next_entry_measure [of "it\<lparr>rt_arg := a, rt_ns := Ns_none\<rparr>"] by (simp add: round_measure_def)
  next
    case arg
    then show ?thesis using special_measure [OF arg(4)] by (simp add: round_measure_def)
  qed
qed

function ieee80211_radiotap_iterator_next :: "radiotap_iterator \<Rightarrow> fault + int \<times> radiotap_iterator" where
  "ieee80211_radiotap_iterator_next it =
     (case radiotap_round it of
        Inl e \<Rightarrow> Inl e
      | Inr (Some r, it') \<Rightarrow> Inr (r, it')
      | Inr (None, it') \<Rightarrow> ieee80211_radiotap_iterator_next it')"
  by pat_completeness auto
termination
  by (relation "measure round_measure") (auto intro: round_decreases)

declare ieee80211_radiotap_iterator_next.simps [simp del]

section \<open>Reachable iterators\<close>

inductive radiotap_reach :: "byte list \<Rightarrow> int \<Rightarrow> radiotap_namespace list \<Rightarrow> radiotap_iterator \<Rightarrow> bool"
  for p n vns where
  reach_init: "ieee80211_radiotap_iterator_init p n vns = Inr (Some it) \<Longrightarrow> radiotap_reach p n vns it"
| reach_next: "radiotap_reach p n vns it \<Longrightarrow> ieee80211_radiotap_iterator_next it = Inr (0, it')
    \<Longrightarrow> radiotap_reach p n vns it'"

text \<open>The bitmaps from an offset on that are announced by the one before are within the header.\<close>

inductive bitmaps_ok :: "byte list \<Rightarrow> nat \<Rightarrow> nat \<Rightarrow> bool" for p lim where
  last_bitmap: "pos + 4 \<le> lim \<Longrightarrow> \<not> bit (get_le32 p pos) 31 \<Longrightarrow> bitmaps_ok p lim pos"
| more_bitmaps: "pos + 4 \<le> lim \<Longrightarrow> bitmaps_ok p lim (pos + 4) \<Longrightarrow> bitmaps_ok p lim pos"

inductive_cases bitmaps_okE: "bitmaps_ok p lim pos"

lemma skip_bitmaps_ok:
  assumes "arg + 4 \<le> lim" and "lim \<le> length p"
  shows "\<exists>r. skip_bitmaps p lim arg = Inr r \<and> (r \<noteq> None \<longrightarrow> bitmaps_ok p lim arg)"
  using assms
proof (induction p lim arg rule: skip_bitmaps.induct)
  case (1 p lim arg)
  show ?case
  proof (cases "bit (get_le32 p arg) 31 \<and> arg + 4 + 4 \<le> lim")
    case True
    with 1 obtain r where "skip_bitmaps p lim (arg + 4) = Inr r" "r \<noteq> None \<longrightarrow> bitmaps_ok p lim (arg + 4)" by auto
    then show ?thesis using True 1(2,3) by (subst skip_bitmaps.simps) (auto intro: more_bitmaps)
  next
    case False
    then show ?thesis using 1(2,3) by (subst skip_bitmaps.simps) (auto intro: last_bitmap)
  qed
qed

definition rt_inv :: "byte list \<Rightarrow> int \<Rightarrow> radiotap_iterator \<Rightarrow> bool" where
  "rt_inv p n it \<longleftrightarrow> rt_hdr it = p \<and> int (rt_max_length it) \<le> n \<and> n \<le> int (length p)
     \<and> (bit (rt_bitmap_shifter it) (31 - rt_arg_index it mod 32) \<longrightarrow> bitmaps_ok p (rt_max_length it) (rt_next_bitmap it))"

lemma init_inv:
  assumes "n \<le> int (length p)"
  shows "\<exists>r. ieee80211_radiotap_iterator_init p n vns = Inr r \<and> (\<forall>it \<in> set_option r. rt_inv p n it)"
proof (cases "n < 8 \<or> p ! 0 \<noteq> 0 \<or> n < uint (get_le16 p 2)")
  case True
  then show ?thesis using assms by (auto simp: ieee80211_radiotap_iterator_init_def)
next
  case False
  define lim where "lim = unat (get_le16 p 2)"
  have lim: "int lim \<le> n" using False by (simp add: lim_def)
  let ?e = "if \<not> bit (get_le32 p 4) 31 then Inr (Some 8) else if 8 + 4 > lim then Inr None else skip_bitmaps p lim 8"
  obtain r where r: "?e = Inr r" "r \<noteq> None \<longrightarrow> (bit (get_le32 p 4) 31 \<longrightarrow> bitmaps_ok p lim 8)"
    using skip_bitmaps_ok [of 8 lim p] lim assms by (cases "bit (get_le32 p 4) 31"; cases "8 + 4 > lim") auto
  show ?thesis
  proof (cases r)
    case None
    then show ?thesis using False assms r(1) by (auto simp: ieee80211_radiotap_iterator_init_def Let_def simp flip: lim_def)
  next
    case (Some a)
    let ?it = "\<lparr>rt_hdr = p, rt_vns = vns, rt_ns = Ns_radiotap, rt_arg = a, rt_next_ns_data = None, rt_next_bitmap = 8,
           rt_this_arg = a, rt_this_arg_index = 0, rt_this_arg_size = 0, rt_is_radiotap_ns = True,
           rt_max_length = lim, rt_arg_index = 0, rt_bitmap_shifter = get_le32 p 4, rt_reset_on_ext = False\<rparr>"
    have "ieee80211_radiotap_iterator_init p n vns = Inr (Some ?it)"
      using False assms r(1) Some unfolding ieee80211_radiotap_iterator_init_def Let_def lim_def [symmetric] by simp
    moreover have "rt_inv p n ?it" using lim assms r(2) Some by (simp add: rt_inv_def)
    ultimately show ?thesis by simp
  qed
qed

lemma next_entry_inv:
  assumes "rt_inv p n it" and "rt_arg_index it mod 32 \<noteq> 31"
  shows "rt_inv p n (next_entry it)"
proof -
  define k where "k = rt_arg_index it mod 32"
  have k: "k < 31" using assms(2) by (simp add: k_def)
  have "(rt_arg_index it + 1) mod 32 = k + 1" using assms(2) by (simp add: mod_Suc k_def)
  moreover have "bit (drop_bit 1 s) (31 - (k + 1)) = bit s (31 - k)" for s :: u32
  proof -
    have "1 + (31 - (k + 1)) = 31 - k" using k by simp
    then show ?thesis by (simp only: bit_drop_bit_eq o_def add.commute)
  qed
  ultimately show ?thesis using assms(1) unfolding rt_inv_def next_entry_def by (simp flip: k_def)
qed


lemma rt_inv_same:
  assumes "rt_inv p n it" and "rt_hdr it' = rt_hdr it" and "rt_next_bitmap it' = rt_next_bitmap it"
    and "rt_arg_index it' = rt_arg_index it" and "rt_bitmap_shifter it' = rt_bitmap_shifter it"
    and "rt_max_length it' = rt_max_length it"
  shows "rt_inv p n it'"
  using assms by (simp add: rt_inv_def)

definition this_arg_inside :: "radiotap_iterator \<Rightarrow> bool" where
  "this_arg_inside it \<longleftrightarrow> rt_this_arg it + rt_this_arg_size it \<le> rt_max_length it"

lemma special_inv:
  assumes "rt_inv p n it" and "this_arg_inside it" and "bit (rt_bitmap_shifter it) 0"
  shows "\<exists>r it'. radiotap_special it = Inr (r, it') \<and> rt_inv p n it' \<and> this_arg_inside it' \<and> r \<in> {None, Some 0}"
proof (cases "rt_arg_index it mod 32 = 31")
  case True
  let ?w = "get_le32 p (rt_next_bitmap it)"
  have hdr: "rt_hdr it = p" and lim: "int (rt_max_length it) \<le> n" "n \<le> int (length p)"
    and ok: "bitmaps_ok p (rt_max_length it) (rt_next_bitmap it)" using assms(1,3) True by (simp_all add: rt_inv_def)
  from ok have le: "rt_next_bitmap it + 4 \<le> rt_max_length it" by (auto elim: bitmaps_okE)
  have more: "bit ?w 31 \<longrightarrow> bitmaps_ok p (rt_max_length it) (rt_next_bitmap it + 4)"
    using ok by (auto elim: bitmaps_okE)
  let ?it = "it\<lparr>rt_bitmap_shifter := ?w, rt_next_bitmap := rt_next_bitmap it + 4,
      rt_arg_index := (if rt_reset_on_ext it then 0 else rt_arg_index it + 1), rt_reset_on_ext := False\<rparr>"
  have "rt_next_bitmap it + 4 \<le> length p" using le lim by linarith
  then have "radiotap_special it = Inr (None, ?it)" using True by (simp add: radiotap_special_def rd_le32_def hdr Let_def)
  moreover have "rt_arg_index ?it mod 32 = 0" using True by (simp add: mod_Suc)
  then have "rt_inv p n ?it" using hdr lim more by (simp add: rt_inv_def)
  ultimately show ?thesis using assms(2) by (auto simp: this_arg_inside_def)
next
  case False
  have n: "rt_inv p n (next_entry (it\<lparr>rt_reset_on_ext := a, rt_ns := b, rt_is_radiotap_ns := c, rt_this_arg_index := d\<rparr>))" for a b c d
    by (rule next_entry_inv) (use assms(1) False in \<open>simp_all add: rt_inv_def\<close>)
  show ?thesis
    using assms(2) False n [where a = True and b = "rt_ns it" and c = False and d = 30]
      n [where a = True and b = Ns_radiotap and c = True and d = "rt_this_arg_index it"]
      n [where a = "rt_reset_on_ext it" and b = "rt_ns it" and c = "rt_is_radiotap_ns it" and d = "rt_this_arg_index it"]
    by (auto simp: radiotap_special_def this_arg_inside_def next_entry_def Let_def)
qed

lemma vendor_ns_safe:
  assumes "rt_inv p n it" and "sz = 6"
  shows "vendor_ns it arg sz \<noteq> Inl e"
proof -
  have "arg + 6 \<le> rt_max_length it \<Longrightarrow> arg + 6 \<le> length (rt_hdr it)" using assms(1) by (auto simp: rt_inv_def)
  then show ?thesis using assms(2) by (auto simp: vendor_ns_def rd_le16_def Let_def)
qed

lemma round_fault:
  assumes "rt_inv p n it" and "radiotap_round it = Inl e"
  shows "e = Uninitialised"
proof (rule ccontr)
  assume ne: "e \<noteq> Uninitialised"
  then have b: "bit (rt_bitmap_shifter it) 0" using assms(2) by (auto simp: radiotap_round_def split: if_splits)
  obtain align sz where as: "arg_align_size it = Some (align, sz)" using assms(2) b
    by (cases "arg_align_size it") (auto simp: radiotap_round_def)
  have al: "align \<noteq> 0"
  proof
    assume "align = 0"
    then show False using assms(2) b as ne by (auto simp: radiotap_round_def split: option.splits)
  qed
  have vsz: "rt_arg_index it mod 32 = 30 \<Longrightarrow> sz = 6" using as by (simp add: arg_align_size_def)
  define arg where "arg = arg_start (rt_arg it) align"
  let ?i = "it\<lparr>rt_arg := arg\<rparr>"
  have inv: "rt_inv p n ?i" using assms(1) by (simp add: rt_inv_def)
  have acc: "account_arg arg z i \<noteq> Inl e" if same: "rt_inv p n i" "rt_bitmap_shifter i = rt_bitmap_shifter it" for i z
  proof (cases "arg + z > rt_max_length i")
    case False
    let ?j = "i\<lparr>rt_this_arg_index := rt_arg_index i, rt_this_arg := arg, rt_this_arg_size := z, rt_arg := arg + z\<rparr>"
    have "rt_inv p n ?j" "this_arg_inside ?j" "bit (rt_bitmap_shifter ?j) 0"
      using same False b by (simp_all add: rt_inv_def this_arg_inside_def)
    from special_inv [OF this] show ?thesis using False by (auto simp: account_arg_def Let_def)
  qed (simp add: account_arg_def)
  show False
  proof (cases "rt_arg_index it mod 32 = 30")
    case True
    have "vendor_ns ?i arg sz \<noteq> Inl e" by (rule vendor_ns_safe [OF inv vsz [OF True]])
    moreover have "account_arg arg z i \<noteq> Inl e" if "vendor_ns ?i arg sz = Inr (Some (i, z))" for i z
      using vendor_ns_keeps [OF that] inv by (intro acc rt_inv_same [OF inv]) simp_all
    ultimately show ?thesis
      using assms(2) b as al True unfolding radiotap_round_def Let_def
      by (cases "vendor_ns ?i arg sz") (auto simp flip: arg_def split: option.splits)
  next
    case False
    show ?thesis using assms(2) b as al False acc [OF inv] unfolding radiotap_round_def Let_def by (simp flip: arg_def)
  qed
qed


lemma round_inv:
  assumes "rt_inv p n it" and "radiotap_round it = Inr (r, it')"
  shows "r \<in> {Some (- ENOENT), Some (- EINVAL)} \<or> (r = None \<and> rt_inv p n it')
    \<or> (r = Some 0 \<and> rt_inv p n it' \<and> this_arg_inside it')"
proof (cases "bit (rt_bitmap_shifter it) 0")
  case False
  then show ?thesis using assms(2) next_entry_inv [OF assms(1)] by (auto simp: radiotap_round_def split: if_splits)
next
  case True
  from round_present [OF True assms(2)] consider
    (ret) "r \<in> {Some (- ENOENT), Some (- EINVAL)}"
  | (skip) a where "r = None" "rt_arg_index it mod 32 < 29" "it' = next_entry (it\<lparr>rt_arg := a, rt_ns := Ns_none\<rparr>)"
  | (arg) it2 where "rt_hdr it2 = rt_hdr it" "rt_next_bitmap it2 = rt_next_bitmap it" "rt_arg_index it2 = rt_arg_index it"
      "rt_bitmap_shifter it2 = rt_bitmap_shifter it" "rt_max_length it2 = rt_max_length it"
      "rt_this_arg it2 + rt_this_arg_size it2 = rt_arg it2" "rt_arg it2 \<le> rt_max_length it2"
      "radiotap_special it2 = Inr (r, it')" by blast
  then show ?thesis
  proof cases
    case ret
    then show ?thesis by blast
  next
    case skip
    have "rt_inv p n (it\<lparr>rt_arg := a, rt_ns := Ns_none\<rparr>)" using assms(1) by (simp add: rt_inv_def)
    then show ?thesis using next_entry_inv [of p n "it\<lparr>rt_arg := a, rt_ns := Ns_none\<rparr>"] skip by simp
  next
    case arg
    have "rt_inv p n it2" "this_arg_inside it2" "bit (rt_bitmap_shifter it2) 0"
      using rt_inv_same [OF assms(1) arg(1-5)] arg True by (simp_all add: this_arg_inside_def)
    from special_inv [OF this] arg(8) show ?thesis by auto
  qed
qed

lemma next_inv:
  assumes "rt_inv p n it"
  shows "case ieee80211_radiotap_iterator_next it of
     Inl e \<Rightarrow> e = Uninitialised
   | Inr (r, it') \<Rightarrow> r \<in> {- ENOENT, - EINVAL} \<or> (r = 0 \<and> rt_inv p n it' \<and> this_arg_inside it')"
  using assms
proof (induction it rule: ieee80211_radiotap_iterator_next.induct)
  case (1 it)
  show ?case
  proof (cases "radiotap_round it")
    case (Inl e)
    then show ?thesis using round_fault [OF 1(2) Inl] by (subst ieee80211_radiotap_iterator_next.simps) simp
  next
    case (Inr q)
    obtain r it' where q: "q = (r, it')" by (cases q)
    note step = round_inv [OF 1(2) Inr [unfolded q]]
    show ?thesis
    proof (cases r)
      case None
      then have "rt_inv p n it'" using step by simp
      from 1(1) [OF Inr q [symmetric] None this] None Inr q show ?thesis by (subst ieee80211_radiotap_iterator_next.simps) simp
    next
      case (Some x)
      then show ?thesis using step Inr q by (subst ieee80211_radiotap_iterator_next.simps) auto
    qed
  qed
qed

lemma reach_inv:
  assumes "radiotap_reach p n vns it" and "n \<le> int (length p)"
  shows "rt_inv p n it"
  using assms(1)
proof induction
  case (reach_init it)
  then show ?case using init_inv [OF assms(2), of vns] by auto
next
  case (reach_next it it')
  from next_inv [OF reach_next(3)] reach_next(2) show ?case by simp
qed

text \<open>
  C28: the iterator stays inside the header. Whatever the octets of a packet are and however many
  arguments were returned before, the next call returns -ENOENT, -EINVAL or an argument that
  lies within the length the header states, which is within the packet; no octet behind the
  packet is read. The one thing that can go wrong is that the pointer behind a vendor namespace
  is used before one was seen.
\<close>

theorem radiotap_args_inside:
  assumes "radiotap_reach p n vns it" and "n \<le> int (length p)"
  shows "case ieee80211_radiotap_iterator_next it of
     Inl e \<Rightarrow> e = Uninitialised
   | Inr (r, it') \<Rightarrow> r \<in> {- ENOENT, - EINVAL}
       \<or> (r = 0 \<and> rt_hdr it' = p \<and> rt_this_arg it' + rt_this_arg_size it' \<le> rt_max_length it'
          \<and> int (rt_max_length it') \<le> n)"
  using next_inv [OF reach_inv [OF assms]]
  by (auto simp: rt_inv_def this_arg_inside_def split: sum.splits)

section \<open>The whole walk\<close>

lemma next_decreases:
  "ieee80211_radiotap_iterator_next it = Inr (0, it') \<Longrightarrow> round_measure it' < round_measure it"
proof (induction it rule: ieee80211_radiotap_iterator_next.induct)
  case (1 it)
  from 1(2) obtain r it1 where r: "radiotap_round it = Inr (r, it1)"
    by (subst (asm) ieee80211_radiotap_iterator_next.simps) (auto split: sum.splits)
  show ?case
  proof (cases r)
    case None
    then have "ieee80211_radiotap_iterator_next it1 = Inr (0, it')"
      using 1(2) r by (subst (asm) ieee80211_radiotap_iterator_next.simps) simp
    from 1(1) [OF r refl None this] round_decreases [OF r] None show ?thesis by simp
  next
    case (Some x)
    then have "x = 0 \<and> it1 = it'" using 1(2) r by (subst (asm) ieee80211_radiotap_iterator_next.simps) simp
    then show ?thesis using round_decreases [OF r] Some by simp
  qed
qed

text \<open>
  The loop that the users of the iterator have: the arguments in order, as index and offset,
  and the return value that ended it.
\<close>

function radiotap_args :: "radiotap_iterator \<Rightarrow> fault + (nat \<times> nat) list \<times> int" where
  "radiotap_args it =
     (case ieee80211_radiotap_iterator_next it of
        Inl e \<Rightarrow> Inl e
      | Inr (r, it') \<Rightarrow>
          if r \<noteq> 0 then Inr ([], r)
          else fbind (radiotap_args it') (\<lambda>(l, r). Inr ((rt_this_arg_index it', rt_this_arg it') # l, r)))"
  by pat_completeness auto
termination
  by (relation "measure round_measure") (auto simp: next_decreases)

declare radiotap_args.simps [simp del]

definition radiotap_walk :: "byte list \<Rightarrow> fault + ((nat \<times> nat) list \<times> int \<times> nat) option" where
  \<comment> \<open>arguments, last return value and header length; \<open>None\<close> if the initialisation fails\<close>
  "radiotap_walk p =
     fbind (ieee80211_radiotap_iterator_init p (int (length p)) []) (\<lambda>r.
     case r of None \<Rightarrow> Inr None
     | Some it \<Rightarrow> fbind (radiotap_args it) (\<lambda>(l, ret). Inr (Some (l, ret, rt_max_length it))))"

lemma args_inside:
  assumes "rt_inv p n it"
  shows "case radiotap_args it of
     Inl e \<Rightarrow> e = Uninitialised
   | Inr (l, r) \<Rightarrow> r \<in> {- ENOENT, - EINVAL}"
  using assms
proof (induction it rule: radiotap_args.induct)
  case (1 it)
  show ?case
  proof (cases "ieee80211_radiotap_iterator_next it")
    case (Inl e)
    then show ?thesis using next_inv [OF 1(2)] by (subst radiotap_args.simps) simp
  next
    case (Inr q)
    obtain r it' where q: "q = (r, it')" by (cases q)
    show ?thesis
    proof (cases "r = 0")
      case True
      then have "rt_inv p n it'" using next_inv [OF 1(2)] Inr q by simp
      from 1(1) [OF Inr q [symmetric] _ this] True Inr q show ?thesis
        by (subst radiotap_args.simps) (auto simp: fbind_def split: sum.splits)
    next
      case False
      then show ?thesis using next_inv [OF 1(2)] Inr q by (subst radiotap_args.simps) auto
    qed
  qed
qed

section \<open>The layout of a header\<close>

text \<open>
  What the format says: the arguments of the set bits follow one another in the order of the
  bits, each at the next offset that is a multiple of its alignment.
\<close>

fun layout :: "nat list \<Rightarrow> nat \<Rightarrow> nat \<Rightarrow> (nat \<times> nat) list \<times> int" where
  "layout [] off lim = ([], - ENOENT)"
| "layout (i # is) off lim =
     (let (align, sz) = rtap_namespace_sizes ! i;
          start = align * ((off + align - 1) div align) in
      if start + sz > lim then ([], - EINVAL)
      else let (l, r) = layout is (start + sz) lim in ((i, start) # l, r))"

definition present :: "u32 \<Rightarrow> nat list" where
  "present w = filter (bit w) [0..<21]"

definition plain_header :: "byte list \<Rightarrow> bool" where
  \<comment> \<open>a header of version 0 with one bitmap of known arguments that fits the packet\<close>
  "plain_header p \<longleftrightarrow> 8 \<le> length p \<and> p ! 0 = 0 \<and> unat (get_le16 p 2) \<le> length p
     \<and> (\<forall>i. bit (get_le32 p 4) i \<longrightarrow> i < 21 \<and> i \<noteq> 18)"

lemma arg_start_align:
  assumes "align \<in> {1, 2, 4, 8}"
  shows "arg_start off align = align * ((off + align - 1) div align)"
proof -
  have "\<exists>k. align = 2 ^ k" using assms by (auto intro: exI [of _ 0] exI [of _ 1] exI [of _ 2] exI [of _ 3])
  then obtain k where k: "align = 2 ^ k" by blast
  have "off AND mask k = off mod 2 ^ k" by (simp add: take_bit_eq_mask [symmetric] take_bit_eq_mod)
  moreover have "mask k = 2 ^ k - (1 :: nat)" by (rule mask_eq_exp_minus_1)
  ultimately have "off AND (align - 1) = off mod align" by (simp only: k)
  then have "arg_start off align = (if off mod align \<noteq> 0 then off + align - off mod align else off)"
    by (simp only: arg_start_def Let_def)
  moreover have "\<dots> = align * ((off + align - 1) div align)"
  proof -
    define q r where "q = off div align" and "r = off mod align"
    have off: "off = r + q * align" and r: "r < align" using assms by (auto simp: q_def r_def)
    show ?thesis
    proof (cases "r = 0")
      case True
      have "off + align - 1 = (align - 1) + q * align" using True off r by simp
      then have "(off + align - 1) div align = q + (align - 1) div align" using r by (simp only: div_mult_self1)
      also have "(align - 1) div align = 0" using r by simp
      finally have d: "(off + align - 1) div align = q" by simp
      show ?thesis using True off unfolding d r_def [symmetric] by simp
    next
      case False
      have "off + align - 1 = (r - 1) + (q + 1) * align" using False off by simp
      then have "(off + align - 1) div align = q + 1 + (r - 1) div align"
        using r by (simp only: div_mult_self1)
      also have "(r - 1) div align = 0" using r by simp
      finally have d: "(off + align - 1) div align = q + 1" by simp
      have "off + align - r = align * (q + 1)" using off by (simp add: algebra_simps)
      then show ?thesis using False unfolding d r_def [symmetric] by simp
    qed
  qed
  ultimately show ?thesis by simp
qed

definition plain_iter :: "u32 \<Rightarrow> nat \<Rightarrow> nat \<Rightarrow> nat \<Rightarrow> radiotap_iterator \<Rightarrow> bool" where
  "plain_iter w lim k off it \<longleftrightarrow> rt_ns it = Ns_radiotap \<and> rt_arg_index it = k \<and> rt_bitmap_shifter it = drop_bit k w
     \<and> rt_arg it = off \<and> rt_max_length it = lim"

lemma plain_next_entry: "plain_iter w lim k off it \<Longrightarrow> plain_iter w lim (k + 1) off (next_entry it)"
  by (simp add: plain_iter_def next_entry_def drop_bit_drop_bit add.commute)

lemma args_absent:
  assumes "\<not> bit (rt_bitmap_shifter it) 0" and "rt_arg_index it mod 32 \<noteq> 31"
  shows "radiotap_args it = radiotap_args (next_entry it)"
proof -
  have "ieee80211_radiotap_iterator_next it = ieee80211_radiotap_iterator_next (next_entry it)"
    by (subst ieee80211_radiotap_iterator_next.simps) (simp add: radiotap_round_def assms)
  then show ?thesis by (subst (1 2) radiotap_args.simps) simp
qed

lemma sizes_align:
  assumes "k < 21" and "k \<noteq> 18"
  shows "fst (rtap_namespace_sizes ! k) \<in> {1, 2, 4, 8}"
proof -
  have "\<forall>k \<in> set [0..<21]. k \<noteq> 18 \<longrightarrow> fst (rtap_namespace_sizes ! k) \<in> {1, 2, 4, 8}"
    by (simp add: rtap_namespace_sizes_def upt_conv_Cons)
  with assms show ?thesis by auto
qed

lemma args_layout:
  assumes "plain_iter w lim k off it" and "k \<le> 31" and "\<forall>i. bit w i \<longrightarrow> i < 21 \<and> i \<noteq> 18"
  shows "radiotap_args it = Inr (layout (filter (bit w) [k..<21]) off lim)"
  using assms(1,2)
proof (induction "31 - k" arbitrary: k off it)
  case 0
  then have k: "k = 31" by simp
  have "\<not> bit w 31" using assms(3) by auto
  then have "ieee80211_radiotap_iterator_next it = Inr (- ENOENT, it)"
    using 0(2) unfolding k plain_iter_def
    by (subst ieee80211_radiotap_iterator_next.simps) (simp add: radiotap_round_def bit_drop_bit_eq)
  then show ?case by (subst radiotap_args.simps) (simp add: k)
next
  case (Suc n)
  then have k: "k < 31" "n = 31 - (k + 1)" "k mod 32 = k" by simp_all
  have b0: "bit (rt_bitmap_shifter it) 0 \<longleftrightarrow> bit w k" using Suc.prems(1) by (simp add: plain_iter_def bit_drop_bit_eq)
  note IH = Suc.hyps(1) [OF k(2)]
  show ?case
  proof (cases "bit w k")
    case False
    have "rt_arg_index it mod 32 \<noteq> 31" using Suc.prems(1) k by (simp add: plain_iter_def)
    then have "radiotap_args it = radiotap_args (next_entry it)" using args_absent b0 False by blast
    also have "\<dots> = Inr (layout (filter (bit w) [k + 1..<21]) off lim)"
      using IH [OF plain_next_entry [OF Suc.prems(1)]] k(1) by simp
    also have "filter (bit w) [k + 1..<21] = filter (bit w) [k..<21]" using False by (cases "k < 21") (simp_all add: upt_conv_Cons)
    finally show ?thesis .
  next
    case True
    then have k21: "k < 21" "k \<noteq> 18" using assms(3) by auto
    obtain align sz where sz: "rtap_namespace_sizes ! k = (align, sz)" by (cases "rtap_namespace_sizes ! k")
    have al: "align \<in> {1, 2, 4, 8}" using sizes_align [OF k21] sz by simp
    have len: "length rtap_namespace_sizes = 21" by (simp add: rtap_namespace_sizes_def)
    define start where "start = arg_start off align"
    have st: "start = align * ((off + align - 1) div align)" unfolding start_def by (rule arg_start_align [OF al])
    note it = Suc.prems(1) [unfolded plain_iter_def]
    have as: "arg_align_size it = Some (align, sz)" using it k k21 sz len by (simp add: arg_align_size_def ns_sizes_def)
    let ?i = "it\<lparr>rt_arg := start\<rparr>"
    let ?j = "?i\<lparr>rt_this_arg_index := k, rt_this_arg := start, rt_this_arg_size := sz, rt_arg := start + sz\<rparr>"
    have "radiotap_round it = account_arg start sz ?i"
      using b0 True as al it k k21 unfolding radiotap_round_def start_def Let_def by auto
    also have "\<dots> = (if start + sz > lim then Inr (Some (- EINVAL), ?j) else Inr (Some 0, next_entry ?j))"
      using it k k21 by (simp add: account_arg_def radiotap_special_def Let_def)
    finally have nx: "ieee80211_radiotap_iterator_next it = (if start + sz > lim then Inr (- EINVAL, ?j) else Inr (0, next_entry ?j))"
      by (subst ieee80211_radiotap_iterator_next.simps) simp
    have f: "filter (bit w) [k..<21] = k # filter (bit w) [k + 1..<21]" using True k21 by (simp add: upt_conv_Cons)
    have lay: "layout (k # ks) off lim = (if start + sz > lim then ([], - EINVAL)
        else case layout ks (start + sz) lim of (l, r) \<Rightarrow> ((k, start) # l, r))" for ks
      by (simp only: layout.simps sz prod.case Let_def st)
    show ?thesis
    proof (cases "start + sz > lim")
      case True
      then show ?thesis using nx by (subst radiotap_args.simps) (simp add: f lay del: layout.simps)
    next
      case False
      have "plain_iter w lim k (start + sz) ?j" using it by (simp add: plain_iter_def)
      from IH [OF plain_next_entry [OF this]] k(1)
      have rest: "radiotap_args (next_entry ?j) = Inr (layout (filter (bit w) [k + 1..<21]) (start + sz) lim)" by simp
      have "rt_this_arg_index (next_entry ?j) = k" "rt_this_arg (next_entry ?j) = start" by (simp_all add: next_entry_def)
      then show ?thesis using False nx rest
        by (subst radiotap_args.simps) (simp add: f lay del: layout.simps split: prod.split)
    qed
  qed
qed

lemma plain_walk:
  assumes "plain_header p"
  shows "\<exists>it. ieee80211_radiotap_iterator_init p (int (length p)) [] = Inr (Some it) \<and> rt_max_length it = unat (get_le16 p 2)
    \<and> radiotap_args it = Inr (layout (present (get_le32 p 4)) 8 (unat (get_le16 p 2)))"
proof -
  note h = assms [unfolded plain_header_def]
  have no31: "\<not> bit (get_le32 p 4) 31" using h by auto
  have "uint (get_le16 p 2) = int (unat (get_le16 p 2))" by simp
  then have len: "\<not> int (length p) < uint (get_le16 p 2)" using h by linarith
  let ?it = "\<lparr>rt_hdr = p, rt_vns = [], rt_ns = Ns_radiotap, rt_arg = 8, rt_next_ns_data = None, rt_next_bitmap = 8,
           rt_this_arg = 8, rt_this_arg_index = 0, rt_this_arg_size = 0, rt_is_radiotap_ns = True,
           rt_max_length = unat (get_le16 p 2), rt_arg_index = 0, rt_bitmap_shifter = get_le32 p 4, rt_reset_on_ext = False\<rparr>"
  have init: "ieee80211_radiotap_iterator_init p (int (length p)) [] = Inr (Some ?it)"
  proof -
    have a: "\<not> int (length p) < 8" "\<not> length p < 8" "p ! 0 = 0" using h by simp_all
    show ?thesis unfolding ieee80211_radiotap_iterator_init_def Let_def a(3)
      by (simp only: a(1,2) len no31 if_False if_True not_False_eq_True simp_thms fbind_simps option.case)
  qed
  have "plain_iter (get_le32 p 4) (unat (get_le16 p 2)) 0 8 ?it" by (simp add: plain_iter_def)
  from args_layout [OF this] h have "radiotap_args ?it = Inr (layout (present (get_le32 p 4)) 8 (unat (get_le16 p 2)))"
    by (simp add: present_def)
  with init show ?thesis by (intro exI [of _ ?it]) simp
qed

text \<open>
  C15: the iterator implements the format. For a header with one bitmap of known arguments the
  walk returns exactly the arguments whose bits are set, in the order of the bits, each at its
  aligned offset, and ends with -ENOENT behind the last one or with -EINVAL at the first that
  does not fit the length of the header.
\<close>

theorem radiotap_walk_layout:
  assumes "plain_header p"
  shows "radiotap_walk p = (case layout (present (get_le32 p 4)) 8 (unat (get_le16 p 2)) of
     (l, r) \<Rightarrow> Inr (Some (l, r, unat (get_le16 p 2))))"
  using plain_walk [OF assms] unfolding radiotap_walk_def by (auto split: prod.split)

definition ex_header :: "byte list" where
  \<comment> \<open>the arguments rate, transmit flags and tries\<close>
  "ex_header = [0, 0, 13, 0, 0x04, 0x80, 0x02, 0, 12, 0, 0x08, 0, 4]"

lemma ex_header_words: "get_le32 (ex_header @ q) 4 = 0x00028004" "get_le16 (ex_header @ q) 2 = 13"
  by (simp_all add: get_le32_def get_le16_def ex_header_def)

lemma ex_header_bits: "bit (0x00028004 :: u32) i \<longleftrightarrow> i \<in> {2, 15, 17}"
proof -
  have "(0x00028004 :: u32) = push_bit 2 1 OR push_bit 15 1 OR push_bit 17 1" by simp
  then show ?thesis by (simp only: bit_or_iff bit_push_bit_iff) (auto simp: bit_1_iff)
qed

lemma ex_header_layout:
  "plain_header (ex_header @ q)" "present 0x00028004 = [2, 15, 17]"
  "layout [2, 15, 17] 8 13 = ([(2, 8), (15, 10), (17, 12)], - ENOENT)"
proof -
  have "\<forall>i. bit (get_le32 (ex_header @ q) 4) i \<longrightarrow> i < 21 \<and> i \<noteq> 18" unfolding ex_header_words ex_header_bits by auto
  then show "plain_header (ex_header @ q)" unfolding plain_header_def ex_header_words(2) by (simp add: ex_header_def)
qed (unfold present_def ex_header_bits, simp_all add: upt_conv_Cons rtap_namespace_sizes_def)

lemma radiotap_walk_layout_witness:
  "radiotap_walk (ex_header @ [0x80, 0]) = Inr (Some ([(2, 8), (15, 10), (17, 12)], - ENOENT, 13))"
  using radiotap_walk_layout [OF ex_header_layout(1)] unfolding ex_header_words by (simp add: ex_header_layout(2,3) del: layout.simps)

lemma radiotap_args_inside_witness:
  "\<exists>it. radiotap_reach [0, 0, 9, 0, 4, 0, 0, 0, 12] 9 [] it
    \<and> ieee80211_radiotap_iterator_next it \<noteq> Inl Abort"
proof -
  let ?p = "[0, 0, 9, 0, 4, 0, 0, 0, 12] :: byte list"
  have w: "get_le32 ?p 4 = 4" "get_le16 ?p 2 = 9" by (simp_all add: get_le32_def get_le16_def)
  have "\<not> bit (4 :: u32) 31" by simp
  then obtain it where "ieee80211_radiotap_iterator_init ?p 9 [] = Inr (Some it)"
    by (simp add: ieee80211_radiotap_iterator_init_def w Let_def)
  then have r: "radiotap_reach ?p 9 [] it" by (rule reach_init)
  have n: "(9 :: int) \<le> int (length ?p)" by simp
  from radiotap_args_inside [OF r n] r show ?thesis by (intro exI [of _ it]) auto
qed

lemma init_fields:
  assumes "ieee80211_radiotap_iterator_init p n vns = Inr (Some it)"
  shows "rt_ns it = Ns_radiotap \<and> rt_arg_index it = 0 \<and> rt_bitmap_shifter it = get_le32 p 4 \<and> rt_next_ns_data it = None"
proof -
  have lift: "\<exists>arg. r = Inr (Some arg) \<and> it = g arg"
    if "fbind r (\<lambda>r. case r of None \<Rightarrow> Inr None | Some arg \<Rightarrow> Inr (Some (g arg))) = Inr (Some it)"
    for r :: "fault + nat option" and g
    using that by (cases r) (auto split: option.splits)
  have c: "\<not> n < 8" "\<not> length p < 8" "\<not> p ! 0 \<noteq> 0" "\<not> n < uint (get_le16 p 2)"
    using assms unfolding ieee80211_radiotap_iterator_init_def by (auto simp only: if_True split: if_split_asm)
  from assms show ?thesis unfolding ieee80211_radiotap_iterator_init_def Let_def
    by (simp only: c if_False) (drule lift, elim exE conjE, simp)
qed

text \<open>
  Bit 18 leads the iterator astray. It is below the number of known arguments but has no
  entry in the table, so that the code skips to the data behind the vendor namespace, although
  none was seen: a packet on the air whose header has this bit makes it use a pointer that was
  never set.
\<close>

theorem radiotap_unset_pointer:
  assumes "ieee80211_radiotap_iterator_init p n vns = Inr (Some it)"
    and "bit (get_le32 p 4) 18" and "\<forall>i < 18. \<not> bit (get_le32 p 4) i"
  shows "ieee80211_radiotap_iterator_next it = Inl Uninitialised"
proof -
  let ?w = "get_le32 p 4"
  define at where "at k it \<longleftrightarrow> rt_ns it = Ns_radiotap \<and> rt_arg_index it = k \<and> rt_bitmap_shifter it = drop_bit k ?w
      \<and> rt_next_ns_data it = None" for k and it :: radiotap_iterator
  have step: "ieee80211_radiotap_iterator_next i = ieee80211_radiotap_iterator_next (next_entry i) \<and> at (k + 1) (next_entry i)"
    if "at k i" "k < 18" for k i
  proof -
    have "\<not> bit (rt_bitmap_shifter i) 0" "rt_arg_index i mod 32 \<noteq> 31"
      using that assms(3) by (simp_all add: at_def bit_drop_bit_eq)
    then have "ieee80211_radiotap_iterator_next i = ieee80211_radiotap_iterator_next (next_entry i)"
      by (subst ieee80211_radiotap_iterator_next.simps) (simp add: radiotap_round_def)
    then show ?thesis using that(1) by (simp add: at_def next_entry_def drop_bit_drop_bit add.commute)
  qed
  have walk: "ieee80211_radiotap_iterator_next i = Inl Uninitialised" if "at (18 - n) i" "n \<le> 18" for n i
    using that
  proof (induction n arbitrary: i)
    case 0
    have "length rtap_namespace_sizes = 21" "rtap_namespace_sizes ! 18 = (0, 0)" by (simp_all add: rtap_namespace_sizes_def)
    with 0 have "radiotap_round i = Inl Uninitialised"
      using assms(2) by (simp add: at_def radiotap_round_def arg_align_size_def ns_sizes_def bit_drop_bit_eq)
    then show ?case by (subst ieee80211_radiotap_iterator_next.simps) simp
  next
    case (Suc n)
    have "18 - Suc n < 18" and "18 - Suc n + 1 = 18 - n" using Suc.prems(2) by simp_all
    with step [OF Suc.prems(1)] have s: "ieee80211_radiotap_iterator_next i = ieee80211_radiotap_iterator_next (next_entry i)"
      and a: "at (18 - n) (next_entry i)" by simp_all
    have "ieee80211_radiotap_iterator_next (next_entry i) = Inl Uninitialised" using Suc.prems(2) by (intro Suc.IH [OF a]) simp
    with s show ?case by (simp only:)
  qed
  have "at 0 it" using init_fields [OF assms(1)] by (simp add: at_def)
  then show ?thesis using walk [of 18 it] by simp
qed

lemma radiotap_unset_pointer_witness:
  "\<exists>it. ieee80211_radiotap_iterator_init [0, 0, 9, 0, 0, 0, 4, 0, 0] 9 [] = Inr (Some it)
    \<and> ieee80211_radiotap_iterator_next it = Inl Uninitialised"
proof -
  let ?p = "[0, 0, 9, 0, 0, 0, 4, 0, 0] :: byte list"
  have w: "get_le32 ?p 4 = push_bit 18 1" "get_le16 ?p 2 = 9" by (simp_all add: get_le32_def get_le16_def)
  have "bit (push_bit 18 1 :: u32) i \<longleftrightarrow> i = 18" for i
    unfolding bit_push_bit_iff by (cases "i = 18") (auto simp: bit_1_iff)
  then have b: "bit (get_le32 ?p 4) i \<longleftrightarrow> i = 18" for i by (simp only: w(1))
  have "\<not> bit (get_le32 ?p 4) 31" unfolding b by simp
  then obtain it where it: "ieee80211_radiotap_iterator_init ?p 9 [] = Inr (Some it)"
    by (simp add: ieee80211_radiotap_iterator_init_def w(2) Let_def del: w(1))
  have "bit (get_le32 ?p 4) 18" "\<forall>i < 18. \<not> bit (get_le32 ?p 4) i" unfolding b by simp_all
  from radiotap_unset_pointer [OF it this] it show ?thesis by blast
qed

section \<open>The sizes of the arguments\<close>

text \<open>
  Without namespaces of vendors an argument the iterator returns is one of the table, with its
  size, or the raw data of a vendor.
\<close>

definition no_vendors :: "radiotap_iterator \<Rightarrow> bool" where
  "no_vendors it \<longleftrightarrow> rt_vns it = [] \<and> rt_ns it \<in> {Ns_none, Ns_radiotap}"

definition known_size :: "radiotap_iterator \<Rightarrow> bool" where
  "known_size it \<longleftrightarrow> rt_this_arg_index it = 30
     \<or> (rt_this_arg_index it < 21 \<and> rt_this_arg_size it = snd (rtap_namespace_sizes ! rt_this_arg_index it))"

lemma no_vendors_next [simp]: "no_vendors (next_entry it) = no_vendors it" "known_size (next_entry it) = known_size it"
  by (simp_all add: no_vendors_def known_size_def next_entry_def)

lemma account_size:
  assumes "no_vendors it" and "account_arg arg sz it = Inr (r, it')"
    and "rt_arg_index it mod 32 \<in> {29, 30, 31} \<or> (rt_arg_index it < 21 \<and> sz = snd (rtap_namespace_sizes ! rt_arg_index it))"
  shows "no_vendors it' \<and> (r = Some 0 \<longrightarrow> known_size it')"
  using assms
  by (auto simp: account_arg_def radiotap_special_def Let_def fbind_Inr_iff no_vendors_def known_size_def next_entry_def
      split: if_split_asm)

lemma vendor_ns_none:
  assumes "no_vendors it" and "vendor_ns it arg sz = Inr (Some (it', sz'))"
  shows "no_vendors it' \<and> rt_arg_index it' = rt_arg_index it"
  using assms by (auto simp: vendor_ns_def Let_def fbind_Inr_iff no_vendors_def find_ns_def split: if_split_asm)

lemma round_size:
  assumes "no_vendors it" and "radiotap_round it = Inr (r, it')"
  shows "no_vendors it' \<and> (r = Some 0 \<longrightarrow> known_size it')"
proof (cases "bit (rt_bitmap_shifter it) 0")
  case False
  then show ?thesis using assms by (auto simp: radiotap_round_def split: if_split_asm)
next
  case b: True
  show ?thesis
  proof (cases "arg_align_size it")
    case None
    then show ?thesis using assms b by (auto simp: radiotap_round_def)
  next
    case (Some q)
    obtain align sz where q: "q = (align, sz)" by (cases q)
    show ?thesis
    proof (cases "align = 0")
      case True
      then show ?thesis using assms b Some q
        by (auto simp: radiotap_round_def no_vendors_def next_entry_def split: option.split_asm)
    next
      case False
      define arg where "arg = arg_start (rt_arg it) align"
      have len: "length rtap_namespace_sizes = 21" by (simp add: rtap_namespace_sizes_def)
      have sz: "rt_arg_index it mod 32 \<in> {29, 30, 31} \<or> (rt_arg_index it < 21 \<and> sz = snd (rtap_namespace_sizes ! rt_arg_index it))"
        using Some q False assms(1) len
        by (auto simp: arg_align_size_def Let_def no_vendors_def ns_sizes_def split: if_split_asm)
      have nv: "no_vendors (it\<lparr>rt_arg := arg\<rparr>)" using assms(1) by (simp add: no_vendors_def)
      let ?v = "if rt_arg_index it mod 32 = 30 then vendor_ns (it\<lparr>rt_arg := arg\<rparr>) arg sz else Inr (Some (it\<lparr>rt_arg := arg\<rparr>, sz))"
      have run: "fbind ?v (\<lambda>r. case r of None \<Rightarrow> Inr (Some (- EINVAL), it\<lparr>rt_arg := arg\<rparr>)
          | Some (it, sz) \<Rightarrow> account_arg arg sz it) = Inr (r, it')"
        using assms(2) b Some q False by (simp add: radiotap_round_def Let_def flip: arg_def)
      then obtain v where v: "?v = Inr v" by (auto simp: fbind_Inr_iff)
      show ?thesis
      proof (cases v)
        case None
        then show ?thesis using run nv unfolding v by auto
      next
        case (Some w)
        obtain i z where w: "w = (i, z)" by (cases w)
        have i: "no_vendors i" "rt_arg_index i = rt_arg_index it" "rt_arg_index it mod 32 \<noteq> 30 \<longrightarrow> z = sz"
          using v Some w nv vendor_ns_none [OF nv] by (auto split: if_split_asm)
        have "account_arg arg z i = Inr (r, it')" using run unfolding v Some w by simp
        from account_size [OF i(1) this] show ?thesis using sz i(2,3) by auto
      qed
    qed
  qed
qed

lemma next_size:
  "no_vendors it \<Longrightarrow> ieee80211_radiotap_iterator_next it = Inr (0, it') \<Longrightarrow> no_vendors it' \<and> known_size it'"
proof (induction it rule: ieee80211_radiotap_iterator_next.induct)
  case (1 it)
  from 1(3) obtain r it1 where r: "radiotap_round it = Inr (r, it1)"
    by (subst (asm) ieee80211_radiotap_iterator_next.simps) (auto split: sum.splits)
  note s = round_size [OF 1(2) r]
  show ?case
  proof (cases r)
    case None
    then have "ieee80211_radiotap_iterator_next it1 = Inr (0, it')"
      using 1(3) r by (subst (asm) ieee80211_radiotap_iterator_next.simps) simp
    from 1(1) [OF r refl None _ this] s show ?thesis by simp
  next
    case (Some x)
    then have "x = 0 \<and> it1 = it'" using 1(3) r by (subst (asm) ieee80211_radiotap_iterator_next.simps) simp
    then show ?thesis using s Some by simp
  qed
qed

section \<open>The walk as a list\<close>

text \<open>The arguments before the walk ends, with its end, which may be a fault.\<close>

function radiotap_trace :: "radiotap_iterator \<Rightarrow> (nat \<times> nat) list \<times> (fault + int)" where
  "radiotap_trace it =
     (case ieee80211_radiotap_iterator_next it of
        Inl e \<Rightarrow> ([], Inl e)
      | Inr (r, it') \<Rightarrow>
          if r \<noteq> 0 then ([], Inr r)
          else (case radiotap_trace it' of (l, e) \<Rightarrow> ((rt_this_arg_index it', rt_this_arg it') # l, e)))"
  by pat_completeness auto
termination
  by (relation "measure round_measure") (auto simp: next_decreases)

declare radiotap_trace.simps [simp del]

lemma trace_args: "radiotap_args it = Inr (l, r) \<Longrightarrow> radiotap_trace it = (l, Inr r)"
proof (induction it arbitrary: l rule: radiotap_args.induct)
  case (1 it)
  show ?case
  proof (cases "ieee80211_radiotap_iterator_next it")
    case (Inl e)
    then show ?thesis using 1(2) by (subst (asm) radiotap_args.simps) simp
  next
    case (Inr q)
    obtain c it' where q: "q = (c, it')" by (cases q)
    show ?thesis
    proof (cases "c = 0")
      case True
      then have "fbind (radiotap_args it') (\<lambda>(l, r). Inr ((rt_this_arg_index it', rt_this_arg it') # l, r)) = Inr (l, r)"
        using 1(2) Inr q by (subst (asm) radiotap_args.simps) simp
      then obtain l' where l': "radiotap_args it' = Inr (l', r)" "l = (rt_this_arg_index it', rt_this_arg it') # l'"
        by (auto simp: fbind_Inr_iff)
      show ?thesis using 1(1) [OF Inr q [symmetric] _ l'(1)] True Inr q l'(2) by (subst radiotap_trace.simps) simp
    next
      case False
      then show ?thesis using 1(2) Inr q by (subst (asm) radiotap_args.simps, subst radiotap_trace.simps) simp
    qed
  qed
qed

definition arg_inside :: "nat \<Rightarrow> nat \<times> nat \<Rightarrow> bool" where
  \<comment> \<open>the octets of an argument of the table lie before an offset\<close>
  "arg_inside n = (\<lambda>(i, off). i = 30 \<or> (i < 21 \<and> off + snd (rtap_namespace_sizes ! i) \<le> n))"

lemma special_max_length: "radiotap_special it = Inr (r, it') \<Longrightarrow> rt_max_length it' = rt_max_length it"
  by (auto simp: radiotap_special_def Let_def fbind_Inr_iff next_entry_def split: if_split_asm)

lemma account_max_length: "account_arg arg sz it = Inr (r, it') \<Longrightarrow> rt_max_length it' = rt_max_length it"
  by (auto simp: account_arg_def Let_def dest: special_max_length split: if_split_asm)

lemma round_max_length:
  assumes "radiotap_round it = Inr (r, it')"
  shows "rt_max_length it' = rt_max_length it"
proof -
  have v: "rt_max_length i = rt_max_length it" if "vendor_ns (it\<lparr>rt_arg := a\<rparr>) b sz = Inr (Some (i, z))" for a b sz i z
    using vendor_ns_keeps [OF that] by simp
  from assms show ?thesis unfolding radiotap_round_def
    by (auto simp: Let_def fbind_Inr_iff next_entry_def dest!: account_max_length v split: if_split_asm option.split_asm prod.split_asm)
qed

lemma next_max_length:
  "ieee80211_radiotap_iterator_next it = Inr (c, it') \<Longrightarrow> rt_max_length it' = rt_max_length it"
proof (induction it rule: ieee80211_radiotap_iterator_next.induct)
  case (1 it)
  from 1(2) obtain r it1 where r: "radiotap_round it = Inr (r, it1)"
    by (subst (asm) ieee80211_radiotap_iterator_next.simps) (auto split: sum.splits)
  show ?case
  proof (cases r)
    case None
    then have "ieee80211_radiotap_iterator_next it1 = Inr (c, it')"
      using 1(2) r by (subst (asm) ieee80211_radiotap_iterator_next.simps) simp
    from 1(1) [OF r refl None this] round_max_length [OF r] show ?thesis by simp
  next
    case (Some x)
    then have "it1 = it'" using 1(2) r by (subst (asm) ieee80211_radiotap_iterator_next.simps) simp
    then show ?thesis using round_max_length [OF r] by simp
  qed
qed

lemma trace_inside:
  assumes "rt_inv p n it" and "no_vendors it"
  shows "(\<forall>a \<in> set (fst (radiotap_trace it)). arg_inside (rt_max_length it) a)
    \<and> snd (radiotap_trace it) \<in> {Inl Uninitialised, Inr (- ENOENT), Inr (- EINVAL)}"
  using assms
proof (induction it rule: radiotap_trace.induct)
  case (1 it)
  show ?case
  proof (cases "ieee80211_radiotap_iterator_next it")
    case (Inl e)
    then show ?thesis using next_inv [OF 1(2)] by (subst (1 2) radiotap_trace.simps) simp
  next
    case (Inr q)
    obtain c it' where q: "q = (c, it')" by (cases q)
    show ?thesis
    proof (cases "c = 0")
      case True
      have inv: "rt_inv p n it'" "this_arg_inside it'" using next_inv [OF 1(2)] Inr q True by simp_all
      have sz: "no_vendors it'" "known_size it'" using next_size [OF 1(3)] Inr q True by simp_all
      have m: "rt_max_length it' = rt_max_length it" using next_max_length Inr q True by simp
      from 1(1) [OF Inr q [symmetric] _ inv(1) sz(1)] True
      have "(\<forall>a \<in> set (fst (radiotap_trace it')). arg_inside (rt_max_length it) a)
        \<and> snd (radiotap_trace it') \<in> {Inl Uninitialised, Inr (- ENOENT), Inr (- EINVAL)}" by (simp add: m)
      moreover have "arg_inside (rt_max_length it) (rt_this_arg_index it', rt_this_arg it')"
        using inv(2) sz(2) by (auto simp: arg_inside_def this_arg_inside_def known_size_def m)
      ultimately show ?thesis using Inr q True by (subst (1 2) radiotap_trace.simps) (simp add: case_prod_unfold)
    next
      case False
      then show ?thesis using next_inv [OF 1(2)] Inr q by (subst (1 2) radiotap_trace.simps) auto
    qed
  qed
qed

end
