(* ===== verification/Tx_Rate.thy ===== *)
theory Tx_Rate
  imports Prelude
begin

text \<open>
  Rate control of mac80211 (\<open>rate.c\<close> of the patched module, with the structures of
  \<open>include/net/mac80211.h\<close>): the masks a user puts on the rates, the choice of the lowest
  rate, the table of a station, the fix-up of a list of rates and \<open>rate_control_get_rate\<close> with
  the bypass the project adds for injected frames.

  A structure that cfg80211 defines (\<open>struct ieee80211_rate\<close>, \<open>struct ieee80211_supported_band\<close>)
  is a record of the members that are read. A flag is a bit of its word; the constants are the
  bit numbers. The rate control algorithm behind \<open>ref->ops\<close> and what \<open>ieee80211_chandef_rate_flags\<close>
  gives are arguments. A shift by 32 or more and an index outside an array are values of
  \<open>fault\<close>.
\<close>

section \<open>Structures\<close>

record tx_rate =            \<comment> \<open>\<open>s8 idx; u16 count:5, flags:11\<close>\<close>
  tr_idx :: "8 word"
  tr_count :: "5 word"
  tr_flags :: "11 word"

record tx_info =
  ti_flags :: u32
  ti_band :: nat
  ti_hw_queue :: nat
  ti_rates :: "tx_rate list"             \<comment> \<open>\<open>IEEE80211_TX_MAX_RATES\<close> of them\<close>
  ti_rts_cts_rate_idx :: "8 word"
  ti_use_rts :: bool
  ti_use_cts_prot :: bool
  ti_short_preamble :: bool
  ti_skip_table :: bool
  ti_vif :: "nat option"                 \<comment> \<open>the interface, by number\<close>
  ti_hw_key :: "nat option"
  ti_ctl_flags :: u32

record ieee80211_rate =
  br_flags :: u32
  br_bitrate :: nat

record supported_band =
  sb_band :: nat
  sb_rates :: "ieee80211_rate list"

record sta_rate =                        \<comment> \<open>an entry of \<open>struct ieee80211_sta_rates\<close>\<close>
  se_idx :: "8 word"
  se_count :: byte
  se_count_cts :: byte
  se_count_rts :: byte
  se_flags :: u16

record rc_sta =                          \<comment> \<open>\<open>struct ieee80211_sta\<close>\<close>
  rs_supp_rates :: "nat \<Rightarrow> u32"
  rs_rx_mask :: "byte list"
  rs_rates :: "sta_rate list option"

datatype nl80211_chan_width = W_20_NOHT | W_20 | W_40 | W_80 | W_80P80 | W_160 | W_5 | W_10

record rc_vif =                          \<comment> \<open>what \<open>rate.c\<close> reads of the interface\<close>
  rv_basic_rates :: u32
  rv_mcast_rate :: "nat \<Rightarrow> int"
  rv_mesh :: bool
  rv_rateidx_mask :: "nat \<Rightarrow> u32"
  rv_has_mcs_mask :: "nat \<Rightarrow> bool"
  rv_mcs_mask :: "nat \<Rightarrow> byte list"
  rv_chan_width :: nl80211_chan_width
  rv_rate_flags :: u32                   \<comment> \<open>of the channel definition of the BSS\<close>

record rc_hw =
  hw_flags :: u32
  hw_rate_flags :: u32                   \<comment> \<open>of the channel definition in \<open>hw->conf\<close>\<close>
  hw_max_rate_tries :: byte

abbreviation (input) "IEEE80211_TX_MAX_RATES \<equiv> (4 :: nat)"
abbreviation (input) "IEEE80211_HT_MCS_MASK_LEN \<equiv> (10 :: nat)"

abbreviation (input) "TX_CTL_ASSIGN_SEQ \<equiv> (1 :: nat)"
abbreviation (input) "TX_CTL_NO_ACK \<equiv> (2 :: nat)"
abbreviation (input) "TX_CTL_CLEAR_PS_FILT \<equiv> (3 :: nat)"
abbreviation (input) "TX_CTL_FIRST_FRAGMENT \<equiv> (4 :: nat)"
abbreviation (input) "TX_CTL_SEND_AFTER_DTIM \<equiv> (5 :: nat)"
abbreviation (input) "TX_CTL_AMPDU \<equiv> (6 :: nat)"
abbreviation (input) "TX_CTL_INJECTED \<equiv> (7 :: nat)"
abbreviation (input) "TX_CTL_RATE_CTRL_PROBE \<equiv> (12 :: nat)"
abbreviation (input) "TX_INTFL_NEED_TXPROCESSING \<equiv> (14 :: nat)"
abbreviation (input) "TX_INTFL_DONT_ENCRYPT \<equiv> (16 :: nat)"
abbreviation (input) "TX_CTL_NO_PS_BUFFER \<equiv> (17 :: nat)"
abbreviation (input) "TX_CTL_MORE_FRAMES \<equiv> (18 :: nat)"
abbreviation (input) "TX_INTFL_RETRANSMISSION \<equiv> (19 :: nat)"
abbreviation (input) "TX_INTFL_NL80211_FRAME_TX \<equiv> (21 :: nat)"
abbreviation (input) "TX_CTL_LDPC \<equiv> (22 :: nat)"
abbreviation (input) "TX_CTL_RC_BYPASS \<equiv> (22 :: nat)"
abbreviation (input) "TX_CTL_TX_OFFCHAN \<equiv> (25 :: nat)"
abbreviation (input) "TX_CTL_NO_CCK_RATE \<equiv> (27 :: nat)"
abbreviation (input) "TX_CTL_USE_MINRATE \<equiv> (29 :: nat)"
abbreviation (input) "TX_CTL_DONTFRAG \<equiv> (30 :: nat)"

abbreviation (input) "TX_RC_USE_RTS_CTS \<equiv> (0 :: nat)"
abbreviation (input) "TX_RC_USE_CTS_PROTECT \<equiv> (1 :: nat)"
abbreviation (input) "TX_RC_USE_SHORT_PREAMBLE \<equiv> (2 :: nat)"
abbreviation (input) "TX_RC_MCS \<equiv> (3 :: nat)"
abbreviation (input) "TX_RC_40_MHZ_WIDTH \<equiv> (5 :: nat)"
abbreviation (input) "TX_RC_VHT_MCS \<equiv> (8 :: nat)"

abbreviation (input) "RATE_SHORT_PREAMBLE \<equiv> (0 :: nat)"   \<comment> \<open>\<open>IEEE80211_RATE_SHORT_PREAMBLE\<close> = 1 << 0\<close>
abbreviation (input) "RATE_ERP_G \<equiv> (4 :: nat)"            \<comment> \<open>\<open>IEEE80211_RATE_ERP_G\<close> = 1 << 4\<close>

abbreviation (input) "HW_HAS_RATE_CONTROL \<equiv> (0 :: nat)"
abbreviation (input) "HW_SUPPORTS_RC_TABLE \<equiv> (24 :: nat)"

text \<open>The \<open>s8\<close> index as a number, and a number stored into it.\<close>

abbreviation s8 :: "int \<Rightarrow> 8 word" where
  "s8 i \<equiv> word_of_int i"

definition bad_rate :: "tx_rate \<Rightarrow> bool" where
  "bad_rate r \<longleftrightarrow> sint (tr_idx r) < 0"

section \<open>Masks\<close>

text \<open>The two loops over a mask of legacy rates, downwards and upwards.\<close>

function legacy_down :: "u32 \<Rightarrow> int \<Rightarrow> fault + int option" where
  "legacy_down msk j =
     (if j < 0 then Inr None
      else if j \<ge> 32 then Inl Int_overflow
      else if bit msk (nat j) then Inr (Some j)
      else legacy_down msk (j - 1))"
  by pat_completeness auto
termination
  by (relation "measure (\<lambda>(msk, j). nat (j + 1))") auto

function legacy_up :: "u32 \<Rightarrow> int \<Rightarrow> int \<Rightarrow> fault + int option" where
  "legacy_up msk n j =
     (if j \<ge> n then Inr None
      else if j < 0 \<or> j \<ge> 32 then Inl Int_overflow
      else if bit msk (nat j) then Inr (Some j)
      else legacy_up msk n (j + 1))"
  by pat_completeness auto
termination
  by (relation "measure (\<lambda>(msk, n, j). nat (n - j))") auto

declare legacy_down.simps [simp del] legacy_up.simps [simp del]

definition rate_idx_match_legacy_mask :: "tx_rate \<Rightarrow> nat \<Rightarrow> u32 \<Rightarrow> fault + tx_rate option" where
  \<comment> \<open>\<open>None\<close>: false, with the rate unchanged\<close>
  "rate_idx_match_legacy_mask r n_bitrates msk =
     fbind (legacy_down msk (sint (tr_idx r))) (\<lambda>d.
     case d of
       Some j \<Rightarrow> Inr (Some (r\<lparr>tr_idx := s8 j\<rparr>))
     | None \<Rightarrow>
         fbind (legacy_up msk (int n_bitrates) (sint (tr_idx r) + 1)) (\<lambda>u.
         Inr (map_option (\<lambda>j. r\<lparr>tr_idx := s8 j\<rparr>) u)))"

text \<open>The nested loops over the octets of an MCS mask.\<close>

fun byte_down :: "byte \<Rightarrow> nat \<Rightarrow> nat option" where
  "byte_down m 0 = (if bit m 0 then Some 0 else None)"
| "byte_down m (Suc j) = (if bit m (Suc j) then Some (Suc j) else byte_down m j)"

fun mcs_down :: "byte list \<Rightarrow> nat \<Rightarrow> nat \<Rightarrow> nat option" where
  "mcs_down msk 0 rbit = byte_down (msk ! 0) rbit"
| "mcs_down msk (Suc i) rbit =
     (case byte_down (msk ! Suc i) rbit of
        Some j \<Rightarrow> Some (Suc i * 8 + j)
      | None \<Rightarrow> mcs_down msk i 7)"

definition byte_up :: "byte \<Rightarrow> nat \<Rightarrow> nat option" where
  "byte_up m rbit = find (bit m) [rbit..<8]"

function mcs_up :: "byte list \<Rightarrow> nat \<Rightarrow> nat \<Rightarrow> nat option" where
  "mcs_up msk i rbit =
     (if i \<ge> IEEE80211_HT_MCS_MASK_LEN then None
      else case byte_up (msk ! i) rbit of
        Some j \<Rightarrow> Some (i * 8 + j)
      | None \<Rightarrow> mcs_up msk (i + 1) 0)"
  by pat_completeness auto
termination
  by (relation "measure (\<lambda>(msk, i, rbit). 10 - i)") auto

declare mcs_up.simps [simp del]

definition rate_idx_match_mcs_mask :: "tx_rate \<Rightarrow> byte list \<Rightarrow> tx_rate option" where
  \<comment> \<open>for an index that is not negative, as all callers ensure\<close>
  "rate_idx_match_mcs_mask r mcs_mask =
     (let idx = nat (sint (tr_idx r)); ridx = idx div 8; rbit = idx mod 8 in
      if ridx \<ge> IEEE80211_HT_MCS_MASK_LEN then None
      else case mcs_down mcs_mask ridx rbit of
        Some j \<Rightarrow> Some (r\<lparr>tr_idx := s8 (int j)\<rparr>)
      | None \<Rightarrow> map_option (\<lambda>j. r\<lparr>tr_idx := s8 (int j)\<rparr>) (mcs_up mcs_mask ((idx + 1) div 8) ((idx + 1) mod 8)))"

abbreviation (input) "TX_RC_PROTECTION \<equiv> (7 :: 11 word)"  \<comment> \<open>RTS/CTS, CTS-to-self and short preamble\<close>

definition alt_rate :: "tx_rate \<Rightarrow> tx_rate" where
  \<comment> \<open>index 0 with the count and the protection flags of the rate\<close>
  "alt_rate r = \<lparr>tr_idx = 0, tr_count = tr_count r, tr_flags = tr_flags r AND TX_RC_PROTECTION\<rparr>"

definition rate_idx_match_mask ::
    "tx_rate \<Rightarrow> nat \<Rightarrow> nl80211_chan_width \<Rightarrow> u32 \<Rightarrow> byte list \<Rightarrow> fault + tx_rate" where
  "rate_idx_match_mask r n_bitrates width msk mcs_mask =
     (if bit (tr_flags r) TX_RC_MCS then
        (case rate_idx_match_mcs_mask r mcs_mask of
           Some r' \<Rightarrow> Inr r'
         | None \<Rightarrow>
             fbind (rate_idx_match_legacy_mask (alt_rate r) n_bitrates msk) (\<lambda>a.
             Inr (case a of Some r' \<Rightarrow> r' | None \<Rightarrow> r)))
      else
        fbind (rate_idx_match_legacy_mask r n_bitrates msk) (\<lambda>a.
        case a of
          Some r' \<Rightarrow> Inr r'
        | None \<Rightarrow>
            if width \<in> {W_20_NOHT, W_5, W_10} then Inr r
            else let alt = alt_rate r;
                     alt = alt\<lparr>tr_flags := set_bit TX_RC_MCS (tr_flags alt)\<rparr>;
                     alt = (if width = W_40 then alt\<lparr>tr_flags := set_bit TX_RC_40_MHZ_WIDTH (tr_flags alt)\<rparr> else alt) in
                 Inr (case rate_idx_match_mcs_mask alt mcs_mask of Some r' \<Rightarrow> r' | None \<Rightarrow> r)))"

section \<open>The nearest allowed rate\<close>

text \<open>
  What both searches promise: the largest allowed index that is not above the given one, and
  otherwise the smallest one above it.
\<close>

definition nearest :: "(nat \<Rightarrow> bool) \<Rightarrow> nat \<Rightarrow> nat \<Rightarrow> nat option" where
  "nearest ok n i =
     (case find ok (rev [0..<Suc i]) of
        Some j \<Rightarrow> Some j
      | None \<Rightarrow> find ok [Suc i..<n])"

lemma find_append: "find P (xs @ ys) = (case find P xs of Some x \<Rightarrow> Some x | None \<Rightarrow> find P ys)"
  by (induction xs) auto

lemma find_map: "find P (map f xs) = map_option f (find (P \<circ> f) xs)"
  by (induction xs) auto

lemma find_down_Suc: "find ok (rev [0..<Suc i]) = (if ok i then Some i else find ok (rev [0..<i]))"
  by simp

lemma find_down_iff:
  "find ok (rev [0..<i]) = Some j \<longleftrightarrow> j < i \<and> ok j \<and> (\<forall>k. j < k \<and> k < i \<longrightarrow> \<not> ok k)"
proof (induction i)
  case (Suc i)
  then show ?case unfolding find_down_Suc by (auto simp: less_Suc_eq)
qed simp

lemma find_down_None: "find ok (rev [0..<i]) = None \<longleftrightarrow> (\<forall>k < i. \<not> ok k)"
  by (auto simp: find_None_iff)

lemma find_up_step: "i < n \<Longrightarrow> find ok [i..<n] = (if ok i then Some i else find ok [Suc i..<n])"
  by (simp add: upt_conv_Cons)

lemma find_up_iff:
  "find ok [i..<n] = Some j \<longleftrightarrow> i \<le> j \<and> j < n \<and> ok j \<and> (\<forall>k. i \<le> k \<and> k < j \<longrightarrow> \<not> ok k)"
proof (induction "n - i" arbitrary: i)
  case (Suc m)
  then have "i < n" and IH: "find ok [Suc i..<n] = Some j
      \<longleftrightarrow> Suc i \<le> j \<and> j < n \<and> ok j \<and> (\<forall>k. Suc i \<le> k \<and> k < j \<longrightarrow> \<not> ok k)" by auto
  show ?case unfolding find_up_step [OF \<open>i < n\<close>] using IH \<open>i < n\<close>
    by (auto simp: Suc_le_eq) (metis le_neq_implies_less)+
qed auto

lemma find_up_None: "find ok [i..<n] = None \<longleftrightarrow> (\<forall>k. i \<le> k \<and> k < n \<longrightarrow> \<not> ok k)"
  by (auto simp: find_None_iff)

lemma nearest_Some_iff:
  "nearest ok n i = Some j \<longleftrightarrow>
     (j \<le> i \<and> ok j \<and> (\<forall>k. j < k \<and> k \<le> i \<longrightarrow> \<not> ok k))
   \<or> ((\<forall>k \<le> i. \<not> ok k) \<and> i < j \<and> j < n \<and> ok j \<and> (\<forall>k. i < k \<and> k < j \<longrightarrow> \<not> ok k))"
proof (cases "find ok (rev [0..<Suc i])")
  case None
  then have "nearest ok n i = find ok [Suc i..<n]" by (simp only: nearest_def option.case)
  moreover have "\<forall>k \<le> i. \<not> ok k" using None unfolding find_down_None by (simp add: less_Suc_eq_le)
  ultimately show ?thesis by (simp only: find_up_iff) (auto simp: Suc_le_eq)
next
  case (Some d)
  then have "nearest ok n i = Some d" by (simp only: nearest_def option.case)
  moreover have "d \<le> i \<and> ok d \<and> (\<forall>k. d < k \<and> k \<le> i \<longrightarrow> \<not> ok k)"
    using Some unfolding find_down_iff by (simp add: less_Suc_eq_le)
  ultimately show ?thesis by (auto, meson linorder_less_linear)
qed

lemma nearest_None_iff:
  assumes "i < n"
  shows "nearest ok n i = None \<longleftrightarrow> (\<forall>k < n. \<not> ok k)"
proof (cases "find ok (rev [0..<Suc i])")
  case None
  then have "nearest ok n i = find ok [Suc i..<n]" by (simp only: nearest_def option.case)
  moreover have "\<forall>k \<le> i. \<not> ok k" using None unfolding find_down_None by (simp add: less_Suc_eq_le)
  ultimately show ?thesis by (simp only: find_up_None) (meson Suc_le_eq not_le)
next
  case (Some d)
  then have "nearest ok n i = Some d" by (simp only: nearest_def option.case)
  moreover have "d \<le> i \<and> ok d" using Some unfolding find_down_iff by (simp add: less_Suc_eq_le)
  ultimately show ?thesis using assms by (metis le_less_trans option.distinct(1))
qed

lemma upt_split: "a \<le> b \<Longrightarrow> b \<le> c \<Longrightarrow> [a..<c] = [a..<b] @ [b..<c]"
  using upt_add_eq_append [of a b "c - b"] by simp

lemma upt_shift: "[k + a..<k + b] = map (\<lambda>j. k + j) [a..<b]"
  by (induction b) (auto simp: not_less_eq_eq)

lemma legacy_down_find:
  "i < 32 \<Longrightarrow> legacy_down msk (int i) = Inr (map_option int (find (bit msk) (rev [0..<Suc i])))"
proof (induction i)
  case 0
  then show ?case by (subst legacy_down.simps, subst legacy_down.simps) simp
next
  case (Suc i)
  have e: "int (Suc i) - 1 = int i" by simp
  show ?case using Suc by (subst legacy_down.simps) (simp add: e del: upt_Suc of_nat_Suc add: find_down_Suc)
qed

lemma legacy_up_find:
  "n \<le> 32 \<Longrightarrow> legacy_up msk (int n) (int i) = Inr (map_option int (find (bit msk) [i..<n]))"
proof (induction "n - i" arbitrary: i)
  case 0
  then show ?case by (subst legacy_up.simps) simp
next
  case (Suc m)
  have e: "int i + 1 = int (Suc i)" by simp
  have "i < n" using Suc.hyps(2) by simp
  then show ?case using Suc.hyps(1) [of "Suc i"] Suc.hyps(2) Suc.prems
    by (subst legacy_up.simps) (simp add: e find_up_step del: upt_Suc of_nat_Suc)
qed

lemma byte_down_find: "byte_down m j = find (bit m) (rev [0..<Suc j])"
  by (induction j) simp_all

definition mcs_bit :: "byte list \<Rightarrow> nat \<Rightarrow> bool" where
  "mcs_bit m k \<longleftrightarrow> bit (m ! (k div 8)) (k mod 8)"

lemma mcs_bits: "r < 8 \<Longrightarrow> mcs_bit m (i * 8 + r) = bit (m ! i) r"
  by (simp add: mcs_bit_def)

lemma find_block:
  assumes "b \<le> 8"
  shows "find (mcs_bit m) [i * 8 + a..<i * 8 + b] = map_option (\<lambda>j. i * 8 + j) (find (bit (m ! i)) [a..<b])"
    and "find (mcs_bit m) (rev [i * 8 + a..<i * 8 + b]) = map_option (\<lambda>j. i * 8 + j) (find (bit (m ! i)) (rev [a..<b]))"
proof -
  have u: "[i * 8 + a..<i * 8 + b] = map (\<lambda>j. i * 8 + j) [a..<b]"
    by (rule upt_shift)
  have c: "find (mcs_bit m \<circ> (\<lambda>j. i * 8 + j)) xs = find (bit (m ! i)) xs" if "set xs \<subseteq> {0..<8}" for xs
    using that by (induction xs) (auto simp: mcs_bits)
  have s: "set [a..<b] \<subseteq> {0..<8}" using assms by auto
  show "find (mcs_bit m) [i * 8 + a..<i * 8 + b] = map_option (\<lambda>j. i * 8 + j) (find (bit (m ! i)) [a..<b])"
    unfolding u find_map by (simp add: c [OF s])
  show "find (mcs_bit m) (rev [i * 8 + a..<i * 8 + b]) = map_option (\<lambda>j. i * 8 + j) (find (bit (m ! i)) (rev [a..<b]))"
    unfolding u rev_map find_map using c [of "rev [a..<b]"] s by simp
qed

lemma mcs_down_find: "r < 8 \<Longrightarrow> mcs_down m i r = find (mcs_bit m) (rev [0..<Suc (i * 8 + r)])"
proof (induction i arbitrary: r)
  case 0
  have "find (mcs_bit m) (rev [0 * 8 + 0..<0 * 8 + Suc r]) = map_option (\<lambda>j. 0 * 8 + j) (find (bit (m ! 0)) (rev [0..<Suc r]))"
    by (rule find_block) (use 0 in simp)
  then show ?case by (simp add: byte_down_find option.map_ident del: upt_Suc)
next
  case (Suc i)
  have "rev [0..<Suc (Suc i * 8 + r)] = rev ([0..<Suc i * 8 + 0] @ [Suc i * 8 + 0..<Suc i * 8 + Suc r])"
    by (subst upt_split [of 0 "Suc i * 8 + 0" "Suc (Suc i * 8 + r)"]) simp_all
  also have "\<dots> = rev [Suc i * 8 + 0..<Suc i * 8 + Suc r] @ rev [0..<Suc (i * 8 + 7)]"
    by (simp add: add.commute)
  finally have l: "rev [0..<Suc (Suc i * 8 + r)] = \<dots>" .
  have "find (mcs_bit m) (rev [Suc i * 8 + 0..<Suc i * 8 + Suc r])
      = map_option (\<lambda>j. Suc i * 8 + j) (byte_down (m ! Suc i) r)"
    unfolding byte_down_find by (rule find_block) (use Suc.prems in simp)
  then show ?case unfolding l find_append
    using Suc.IH [of 7] by (cases "byte_down (m ! Suc i) r") (simp_all del: upt_Suc)
qed

lemma mcs_up_find: "r \<le> 8 \<Longrightarrow> mcs_up m i r = find (mcs_bit m) [i * 8 + r..<80]"
proof (induction "10 - i" arbitrary: i r)
  case 0
  then show ?case by (subst mcs_up.simps) simp
next
  case (Suc d)
  then have i: "i < 10" by simp
  have "[i * 8 + r..<80] = [i * 8 + r..<i * 8 + 8] @ [Suc i * 8 + 0..<80]"
    using upt_split [of "i * 8 + r" "i * 8 + 8" 80] i Suc.prems by (simp add: add.commute)
  moreover have "find (mcs_bit m) [i * 8 + r..<i * 8 + 8] = map_option (\<lambda>j. i * 8 + j) (byte_up (m ! i) r)"
    unfolding byte_up_def by (rule find_block) simp
  moreover have "mcs_up m (i + 1) 0 = find (mcs_bit m) [Suc i * 8 + 0..<80]"
    using Suc.hyps(1) [of "Suc i" 0] Suc.hyps(2) by simp
  ultimately show ?case using i
    by (subst mcs_up.simps) (cases "byte_up (m ! i) r"; simp add: find_append)
qed

section \<open>What the searches find\<close>

lemma sint_s8: "0 \<le> i \<Longrightarrow> i < 128 \<Longrightarrow> sint (s8 i) = i"
  by (simp add: sint_sbintrunc' signed_take_bit_int_eq_self)

lemma legacy_match:
  assumes "i < 32" and "n \<le> 32" and "sint (tr_idx r) = int i"
  shows "rate_idx_match_legacy_mask r n msk
    = Inr (map_option (\<lambda>j. r\<lparr>tr_idx := s8 (int j)\<rparr>) (nearest (bit msk) n i))"
proof -
  have e: "int i + 1 = int (Suc i)" by simp
  show ?thesis unfolding rate_idx_match_legacy_mask_def assms(3) e
    by (cases "find (bit msk) (rev [0..<Suc i])")
      (simp_all add: legacy_down_find legacy_up_find assms nearest_def option.map_comp o_def del: upt_Suc of_nat_Suc)
qed

lemma mcs_match:
  assumes "i < 80" and "sint (tr_idx r) = int i"
  shows "rate_idx_match_mcs_mask r m = map_option (\<lambda>j. r\<lparr>tr_idx := s8 (int j)\<rparr>) (nearest (mcs_bit m) 80 i)"
proof -
  have "i div 8 < 10" using assms(1) by (simp add: less_mult_imp_div_less)
  moreover have "mcs_down m (i div 8) (i mod 8) = find (mcs_bit m) (rev [0..<Suc i])"
    by (subst mcs_down_find) simp_all
  moreover have "mcs_up m ((i + 1) div 8) ((i + 1) mod 8) = find (mcs_bit m) [Suc i..<80]"
    by (subst mcs_up_find) (simp_all add: less_imp_le)
  ultimately show ?thesis
    by (cases "find (mcs_bit m) (rev [0..<Suc i])")
      (simp_all add: rate_idx_match_mcs_mask_def Let_def assms(2) nearest_def del: upt_Suc)
qed

lemma mcs_match_large:
  assumes "80 \<le> sint (tr_idx r)"
  shows "rate_idx_match_mcs_mask r m = None"
proof -
  have "10 \<le> nat (sint (tr_idx r)) div 8" using assms by (simp add: less_eq_div_iff_mult_less_eq)
  then show ?thesis by (simp only: rate_idx_match_mcs_mask_def Let_def if_True)
qed

text \<open>
  C34: the nearest allowed rate. For an index within the band, both searches, the one over the
  mask of legacy rates and the nested loops over the octets of the MCS mask, return the largest
  allowed index that is not above it, else the smallest allowed one above it, and report
  failure exactly when the mask allows none.
\<close>

theorem rate_masks_nearest:
  assumes "i < n" and "n \<le> 32" and "sint (tr_idx r) = int i"
    and "k < 80" and "sint (tr_idx q) = int k"
  shows "rate_idx_match_legacy_mask r n msk
        = Inr (map_option (\<lambda>j. r\<lparr>tr_idx := s8 (int j)\<rparr>) (nearest (bit msk) n i))
    \<and> (nearest (bit msk) n i = None \<longleftrightarrow> (\<forall>j < n. \<not> bit msk j))
    \<and> rate_idx_match_mcs_mask q m = map_option (\<lambda>j. q\<lparr>tr_idx := s8 (int j)\<rparr>) (nearest (mcs_bit m) 80 k)
    \<and> (nearest (mcs_bit m) 80 k = None \<longleftrightarrow> (\<forall>j < 80. \<not> mcs_bit m j))"
  using assms by (intro conjI legacy_match mcs_match nearest_None_iff) simp_all

lemma rate_masks_nearest_witness:
  "rate_idx_match_legacy_mask \<lparr>tr_idx = 5, tr_count = 1, tr_flags = 0\<rparr> 12 9
     = Inr (Some \<lparr>tr_idx = 3, tr_count = 1, tr_flags = 0\<rparr>)
   \<and> rate_idx_match_mcs_mask \<lparr>tr_idx = 5, tr_count = 1, tr_flags = 8\<rparr> (0 # 4 # replicate 8 0)
     = Some \<lparr>tr_idx = 10, tr_count = 1, tr_flags = 8\<rparr>"
proof -
  have b: "bit (9 :: u32) j \<longleftrightarrow> j = 0 \<or> j = 3" for j
  proof -
    have "(9 :: u32) = push_bit 0 1 OR push_bit 3 1" by simp
    then show ?thesis by (simp only: bit_or_iff bit_push_bit_iff) (auto simp: bit_1_iff)
  qed
  have "nearest (bit (9 :: u32)) 12 5 = Some 3" unfolding nearest_Some_iff b by auto
  moreover have "nearest (mcs_bit (0 # 4 # replicate 8 0)) 80 5 = Some 10"
  proof -
    have lo: "\<not> mcs_bit (0 # 4 # replicate 8 0) k" if "k < 8" for k using that by (simp add: mcs_bit_def)
    have "bit (4 :: byte) 2" "\<not> bit (4 :: byte) 0" "\<not> bit (4 :: byte) (Suc 0)" by simp_all
    then have hi: "mcs_bit (0 # 4 # replicate 8 0) 10" "\<not> mcs_bit (0 # 4 # replicate 8 0) 8"
      "\<not> mcs_bit (0 # 4 # replicate 8 0) 9" by (simp_all add: mcs_bit_def)
    have "\<not> mcs_bit (0 # 4 # replicate 8 0) k" if "k < 10" for k
      using that lo [of k] hi(2,3) by (cases "k < 8") (auto simp: not_less numeral_eq_Suc le_Suc_eq less_Suc_eq)
    then show ?thesis unfolding nearest_Some_iff using hi(1) by simp
  qed
  moreover have "sint (5 :: 8 word) = int 5" by simp
  ultimately show ?thesis
    using rate_masks_nearest [of 5 12 "\<lparr>tr_idx = 5, tr_count = 1, tr_flags = 0\<rparr>" 5 "\<lparr>tr_idx = 5, tr_count = 1, tr_flags = 8\<rparr>"
        9 "0 # 4 # replicate 8 0"] by simp
qed

section \<open>The lowest rate\<close>

definition rate_supported :: "rc_sta option \<Rightarrow> nat \<Rightarrow> nat \<Rightarrow> bool" where
  "rate_supported sta band i = (case sta of None \<Rightarrow> True | Some s \<Rightarrow> bit (rs_supp_rates s band) i)"

definition rate_usable_index_exists :: "supported_band \<Rightarrow> rc_sta \<Rightarrow> bool" where
  "rate_usable_index_exists sb sta = (\<exists>i \<in> set [0..<length (sb_rates sb)]. rate_supported (Some sta) (sb_band sb) i)"

definition low_rate_flags :: "rc_hw \<Rightarrow> supported_band \<Rightarrow> tx_info \<Rightarrow> u32" where
  "low_rate_flags hw sb info =
     (if sb_band sb = 0 \<and> bit (ti_flags info) TX_CTL_NO_CCK_RATE then set_bit RATE_ERP_G (hw_rate_flags hw)
      else hw_rate_flags hw)"

definition low_rate_ok :: "rc_hw \<Rightarrow> supported_band \<Rightarrow> rc_sta option \<Rightarrow> tx_info \<Rightarrow> u32 \<Rightarrow> nat \<Rightarrow> bool" where
  "low_rate_ok hw sb sta info rate_mask i \<longleftrightarrow>
     bit rate_mask i
   \<and> low_rate_flags hw sb info AND br_flags (sb_rates sb ! i) = low_rate_flags hw sb info
   \<and> rate_supported sta (sb_band sb) i"

definition rate_control_send_low' :: "rc_hw \<Rightarrow> supported_band \<Rightarrow> rc_sta option \<Rightarrow> tx_info \<Rightarrow> u32 \<Rightarrow> tx_info" where
  \<comment> \<open>\<open>__rate_control_send_low\<close>\<close>
  "rate_control_send_low' hw sb sta info rate_mask =
     (let i = (case find (low_rate_ok hw sb sta info rate_mask) [0..<length (sb_rates sb)] of
                 Some i \<Rightarrow> i | None \<Rightarrow> 0);
          r = (ti_rates info ! 0)
                \<lparr>tr_idx := s8 (int i),
                 tr_count := (if bit (ti_flags info) TX_CTL_NO_ACK then 1 else ucast (hw_max_rate_tries hw))\<rparr>
      in info\<lparr>ti_rates := (ti_rates info)[0 := r], ti_skip_table := True\<rparr>)"

text \<open>The search for a basic rate goes up to \<open>n_bitrates\<close> itself.\<close>

definition rc_send_low_basicrate :: "8 word \<Rightarrow> u32 \<Rightarrow> supported_band \<Rightarrow> fault + 8 word" where
  "rc_send_low_basicrate idx basic_rates sb =
     (if basic_rates = 0 then Inr idx
      else if sint idx < 0 then Inr idx
      else if sint idx \<ge> 32 then Inl Int_overflow
      else if bit basic_rates (nat (sint idx)) then Inr idx
      else fbind (legacy_up basic_rates (int (length (sb_rates sb)) + 1) (sint idx + 1)) (\<lambda>r.
           Inr (case r of Some i \<Rightarrow> s8 i | None \<Rightarrow> idx)))"

definition rc_no_data_or_no_ack_use_min :: "tx_info \<Rightarrow> bool \<Rightarrow> bool" where
  \<comment> \<open>the second argument tells whether the frame is a data frame\<close>
  "rc_no_data_or_no_ack_use_min info is_data \<longleftrightarrow>
     bit (ti_flags info) TX_CTL_NO_ACK \<or> bit (ti_flags info) TX_CTL_USE_MINRATE \<or> \<not> is_data"

definition rate_control_send_low ::
    "rc_hw \<Rightarrow> rc_vif \<Rightarrow> supported_band \<Rightarrow> rc_sta option \<Rightarrow> bool \<Rightarrow> bool \<Rightarrow> u32 \<Rightarrow> bool \<Rightarrow> tx_info
      \<Rightarrow> fault + bool \<times> tx_info" where
  \<comment> \<open>\<open>priv_sta\<close> is given as whether it is set; \<open>bss\<close> is \<open>txrc->bss\<close>\<close>
  "rate_control_send_low hw vif sb pubsta priv_sta bss rate_mask is_data info =
     (if pubsta = None \<or> \<not> priv_sta \<or> rc_no_data_or_no_ack_use_min info is_data then
        let info = rate_control_send_low' hw sb pubsta info rate_mask;
            mcast_rate = rv_mcast_rate vif (sb_band sb);
            set_idx = (\<lambda>i. info\<lparr>ti_rates := (ti_rates info)[0 := (ti_rates info ! 0)\<lparr>tr_idx := i\<rparr>]\<rparr>)
        in if pubsta = None \<and> bss \<and> mcast_rate > 0 then Inr (True, set_idx (s8 (mcast_rate - 1)))
           else if (pubsta = None \<and> bss) \<or> (pubsta \<noteq> None \<and> rv_mesh vif) then
             fbind (rc_send_low_basicrate (tr_idx (ti_rates info ! 0)) (rv_basic_rates vif) sb) (\<lambda>i.
             Inr (True, set_idx i))
           else Inr (True, info)
      else Inr (False, info))"

section \<open>The list of rates\<close>

text \<open>The loop that fills a list from the entries of the frame, then from the table of the station.\<close>

definition table_entry :: "tx_info \<Rightarrow> sta_rate \<Rightarrow> tx_rate" where
  "table_entry info e =
     \<lparr>tr_idx = se_idx e,
      tr_count = ucast (if ti_use_rts info then se_count_rts e
                        else if ti_use_cts_prot info then se_count_cts e else se_count e),
      tr_flags = ucast (se_flags e)\<rparr>"

definition fill_entry :: "tx_info \<Rightarrow> sta_rate list option \<Rightarrow> tx_rate \<Rightarrow> nat \<Rightarrow> tx_rate" where
  "fill_entry info ratetbl old i =
     (if i < length (ti_rates info) \<and> \<not> bad_rate (ti_rates info ! i) \<and> tr_count (ti_rates info ! i) \<noteq> 0
      then ti_rates info ! i
      else case ratetbl of
        Some tbl \<Rightarrow> table_entry info (tbl ! i)
      | None \<Rightarrow> old\<lparr>tr_idx := - 1, tr_count := 0\<rparr>)"

fun fill_loop :: "tx_info \<Rightarrow> sta_rate list option \<Rightarrow> nat list \<Rightarrow> tx_rate list \<Rightarrow> tx_rate list" where
  "fill_loop info ratetbl [] rates = rates"
| "fill_loop info ratetbl (i # is) rates =
     (let r = fill_entry info ratetbl (rates ! i) i; rates = rates[i := r] in
      if bad_rate r \<or> tr_count r = 0 then rates else fill_loop info ratetbl is rates)"

definition rate_control_fill_sta_table :: "rc_sta option \<Rightarrow> tx_info \<Rightarrow> tx_rate list \<Rightarrow> nat \<Rightarrow> tx_rate list" where
  "rate_control_fill_sta_table sta info rates max_rates =
     (let ratetbl = (case sta of None \<Rightarrow> None | Some s \<Rightarrow> if ti_skip_table info then None else rs_rates s) in
      fill_loop info ratetbl [0..<min max_rates 4] rates)"

definition user_mask :: "rc_vif \<Rightarrow> supported_band \<Rightarrow> nat \<Rightarrow> u32" where
  \<comment> \<open>the mask of the user without the rates the channel does not allow\<close>
  "user_mask vif sb band =
     foldl (\<lambda>m i. if rv_rate_flags vif AND br_flags (sb_rates sb ! i) \<noteq> rv_rate_flags vif then unset_bit i m else m)
       (rv_rateidx_mask vif band) [0..<length (sb_rates sb)]"

fun apply_loop :: "(tx_rate \<Rightarrow> fault + tx_rate) \<Rightarrow> tx_rate list \<Rightarrow> fault + tx_rate list" where
  "apply_loop f [] = Inr []"
| "apply_loop f (r # rs) =
     (if bad_rate r then Inr (r # rs)
      else fbind (f r) (\<lambda>r'. fbind (apply_loop f rs) (\<lambda>rs'. Inr (r' # rs'))))"

definition rate_control_apply_mask ::
    "rc_vif \<Rightarrow> rc_sta option \<Rightarrow> supported_band \<Rightarrow> tx_info \<Rightarrow> tx_rate list \<Rightarrow> fault + tx_rate list" where
  "rate_control_apply_mask vif sta sb info rates =
     (let band = ti_band info; n = length (sb_rates sb);
          msk = user_mask vif sb band;
          has_mcs_mask = rv_has_mcs_mask vif band in
      if msk = push_bit n 1 - 1 \<and> \<not> has_mcs_mask then Inr rates
      else let mcs_mask = (if has_mcs_mask then rv_mcs_mask vif band else replicate IEEE80211_HT_MCS_MASK_LEN 0xff);
               msk = (case sta of None \<Rightarrow> msk | Some s \<Rightarrow> msk AND rs_supp_rates s band);
               mcs_mask = (case sta of None \<Rightarrow> mcs_mask | Some s \<Rightarrow> map2 (AND) mcs_mask (rs_rx_mask s)) in
           apply_loop (\<lambda>r. rate_idx_match_mask r n (rv_chan_width vif) msk mcs_mask) rates)"

section \<open>The fix-up of a list of rates\<close>

definition ffs :: "u32 \<Rightarrow> nat" where
  \<comment> \<open>one plus the number of the lowest bit that is set, 0 for 0\<close>
  "ffs w = (case find (bit w) [0..<32] of None \<Rightarrow> 0 | Some i \<Rightarrow> i + 1)"

definition rate_at :: "supported_band \<Rightarrow> int \<Rightarrow> fault + ieee80211_rate" where
  "rate_at sb i =
     (if 0 \<le> i \<and> i < int (length (sb_rates sb)) then Inr (sb_rates sb ! nat i)
      else Inl (Bad_index (length (sb_rates sb)) i))"

fun base_rate_loop :: "supported_band \<Rightarrow> u32 \<Rightarrow> int \<Rightarrow> nat list \<Rightarrow> int \<Rightarrow> fault + int" where
  "base_rate_loop sb basic_rates data [] baserate = Inr baserate"
| "base_rate_loop sb basic_rates data (i # is) baserate =
     (if \<not> bit basic_rates i then base_rate_loop sb basic_rates data is baserate
      else fbind (rate_at sb data) (\<lambda>rate.
           if br_bitrate (sb_rates sb ! i) > br_bitrate rate then base_rate_loop sb basic_rates data is baserate
           else fbind (rate_at sb baserate) (\<lambda>b.
                base_rate_loop sb basic_rates data is
                  (if br_bitrate b < br_bitrate (sb_rates sb ! i) then int i else baserate))))"

definition rts_cts_rate :: "supported_band \<Rightarrow> u32 \<Rightarrow> tx_rate \<Rightarrow> fault + int" where
  "rts_cts_rate sb basic_rates r =
     base_rate_loop sb basic_rates (sint (tr_idx r)) [0..<length (sb_rates sb)]
       (if basic_rates \<noteq> 0 then int (ffs (basic_rates - 1)) else 0)"

text \<open>One round of the loop: whether an invalid rate was seen, \<open>use_cts_prot\<close> and the rate.\<close>

definition flag_or :: "nat \<Rightarrow> bool \<Rightarrow> tx_rate \<Rightarrow> tx_rate" where
  "flag_or k c r = (if c then r\<lparr>tr_flags := set_bit k (tr_flags r)\<rparr> else r)"

definition fixup_rate ::
    "supported_band \<Rightarrow> tx_info \<Rightarrow> bool \<Rightarrow> bool \<Rightarrow> tx_rate \<Rightarrow> bool \<times> bool \<times> tx_rate" where
  "fixup_rate sb info inval use_cts_prot r =
     (if inval then (True, use_cts_prot, r\<lparr>tr_idx := - 1\<rparr>)
      else if bad_rate r then (True, use_cts_prot, r)
      else if bit (tr_flags r) TX_RC_MCS then
        (False, use_cts_prot,
         flag_or TX_RC_USE_CTS_PROTECT (\<not> bit (tr_flags r) TX_RC_USE_RTS_CTS \<and> use_cts_prot) r)
      else if bit (tr_flags r) TX_RC_VHT_MCS then (False, use_cts_prot, r)
      else
        let r = flag_or TX_RC_USE_RTS_CTS (ti_use_rts info) r;
            use_cts_prot = (if ti_use_rts info then False else use_cts_prot) in
        if sint (tr_idx r) \<ge> int (length (sb_rates sb)) then (False, use_cts_prot, r\<lparr>tr_idx := - 1\<rparr>)
        else
          let rate = sb_rates sb ! nat (sint (tr_idx r));
              r = flag_or TX_RC_USE_SHORT_PREAMBLE
                    (ti_short_preamble info \<and> bit (br_flags rate) RATE_SHORT_PREAMBLE) r;
              r = flag_or TX_RC_USE_CTS_PROTECT
                    (\<not> bit (tr_flags r) TX_RC_USE_RTS_CTS \<and> use_cts_prot \<and> bit (br_flags rate) RATE_ERP_G) r in
          (False, use_cts_prot, r))"

fun fixup_loop :: "supported_band \<Rightarrow> tx_info \<Rightarrow> bool \<Rightarrow> bool \<Rightarrow> tx_rate list \<Rightarrow> bool \<times> tx_rate list" where
  "fixup_loop sb info inval use_cts_prot [] = (use_cts_prot, [])"
| "fixup_loop sb info inval use_cts_prot (r # rs) =
     (let (inval', use_cts_prot', r') = fixup_rate sb info inval use_cts_prot r;
          (u, rs') = fixup_loop sb info inval' use_cts_prot' rs in (u, r' # rs'))"

definition rate_fixup_ratelist ::
    "rc_vif \<Rightarrow> supported_band \<Rightarrow> tx_info \<Rightarrow> tx_rate list \<Rightarrow> fault + tx_info \<times> tx_rate list" where
  "rate_fixup_ratelist vif sb info rates =
     fbind (if rates = [] then Inl (Bad_index 0 0)
            else if bit (tr_flags (rates ! 0)) TX_RC_MCS then Inr info
            else fbind (rts_cts_rate sb (rv_basic_rates vif) (rates ! 0)) (\<lambda>b.
                 Inr (info\<lparr>ti_rts_cts_rate_idx := s8 b\<rparr>))) (\<lambda>info.
     let (u, rates) = fixup_loop sb info False (ti_use_cts_prot info) rates in
     Inr (info\<lparr>ti_use_cts_prot := u\<rparr>, rates))"

section \<open>The rates of a frame\<close>

text \<open>
  \<open>dest\<close> may be the list in the frame itself: the lowest rate, which is stored into the
  frame, is then also the first of the list.
\<close>

definition ieee80211_get_tx_rates ::
    "bool \<Rightarrow> rc_hw \<Rightarrow> rc_vif option \<Rightarrow> rc_sta option \<Rightarrow> (nat \<Rightarrow> supported_band) \<Rightarrow> bool \<Rightarrow> tx_info \<Rightarrow> tx_rate list
      \<Rightarrow> fault + tx_info \<times> tx_rate list" where
  "ieee80211_get_tx_rates alias hw vif sta bands is_data info dest =
     (let dest = rate_control_fill_sta_table sta info dest (length dest);
          store = (\<lambda>info dest. if alias then info\<lparr>ti_rates := dest\<rparr> else info);
          info = store info dest in
      case vif of None \<Rightarrow> Inr (info, dest)
      | Some v \<Rightarrow>
          let sb = bands (ti_band info) in
          fbind (if is_data then rate_control_apply_mask v sta sb info dest else Inr dest) (\<lambda>dest.
          let info = store info dest in
          if dest = [] then Inl (Bad_index 0 0)
          else let info = (if bad_rate (dest ! 0)
                 then rate_control_send_low' hw sb sta info (rv_rateidx_mask v (ti_band info)) else info);
               dest = (if alias then ti_rates info else dest) in
          if sta = None then Inr (info, dest)
          else fbind (rate_fixup_ratelist v sb info dest) (\<lambda>(info, dest).
               Inr (store info dest, dest))))"

definition clear_rates :: "tx_info \<Rightarrow> tx_info" where
  "clear_rates info = info\<lparr>ti_rates := replicate IEEE80211_TX_MAX_RATES \<lparr>tr_idx = - 1, tr_count = 0, tr_flags = 0\<rparr>\<rparr>"

definition rate_control_get_rate ::
    "(tx_info \<Rightarrow> tx_info) \<Rightarrow> rc_hw \<Rightarrow> rc_vif \<Rightarrow> rc_sta option \<Rightarrow> (nat \<Rightarrow> supported_band) \<Rightarrow> bool \<Rightarrow> tx_info
      \<Rightarrow> fault + tx_info" where
  \<comment> \<open>the first argument is \<open>ref->ops->get_rate\<close>; \<open>sta\<close> is the station if it is under rate control\<close>
  "rate_control_get_rate get_rate hw vif sta bands is_data info =
     (if bit (ti_flags info) TX_CTL_RC_BYPASS then Inr info
      else let info = clear_rates info in
      if bit (hw_flags hw) HW_HAS_RATE_CONTROL then Inr info
      else let info = get_rate info in
      if bit (hw_flags hw) HW_SUPPORTS_RC_TABLE then Inr info
      else fbind (ieee80211_get_tx_rates True hw (Some vif) sta bands is_data info (ti_rates info)) (\<lambda>(info, dest).
           Inr info))"

section \<open>Properties of the list of rates\<close>

definition legacy_rate :: "tx_rate \<Rightarrow> bool" where
  "legacy_rate r \<longleftrightarrow> \<not> bit (tr_flags r) TX_RC_MCS \<and> \<not> bit (tr_flags r) TX_RC_VHT_MCS"

lemma bad_minus_one [simp]: "bad_rate (r\<lparr>tr_idx := - 1\<rparr>)" "bad_rate \<lparr>tr_idx = - 1, tr_count = c, tr_flags = f\<rparr>"
  by (simp_all add: bad_rate_def)

lemma flag_or_idx [simp]: "tr_idx (flag_or k c r) = tr_idx r" "bad_rate (flag_or k c r) = bad_rate r"
  by (simp_all add: flag_or_def bad_rate_def)

lemma fixup_rate_facts:
  assumes "fixup_rate sb info inval u r = (inval', u', r')"
  shows "(inval \<or> bad_rate r \<longrightarrow> inval')
    \<and> (\<not> bad_rate r' \<longrightarrow> \<not> inval \<and> \<not> bad_rate r \<and> tr_idx r' = tr_idx r
        \<and> (legacy_rate r \<longrightarrow> sint (tr_idx r) < int (length (sb_rates sb))))"
  using assms unfolding fixup_rate_def Let_def
  by (auto simp: legacy_rate_def split: if_split_asm)

lemma fixup_loop_facts:
  assumes "fixup_loop sb info inval u rs = (u', rs')"
  shows "length rs' = length rs
    \<and> (\<forall>i < length rs. \<not> bad_rate (rs' ! i) \<longrightarrow>
         \<not> inval \<and> (\<forall>j \<le> i. \<not> bad_rate (rs ! j)) \<and> tr_idx (rs' ! i) = tr_idx (rs ! i)
       \<and> (legacy_rate (rs ! i) \<longrightarrow> sint (tr_idx (rs ! i)) < int (length (sb_rates sb))))"
  using assms
proof (induction rs arbitrary: inval u u' rs')
  case (Cons r rs)
  obtain inval1 u1 r' where one: "fixup_rate sb info inval u r = (inval1, u1, r')" by (metis prod_cases3)
  obtain u2 rs2 where rest: "fixup_loop sb info inval1 u1 rs = (u2, rs2)" by fastforce
  have rs': "rs' = r' # rs2" using Cons.prems one rest by auto
  note f = fixup_rate_facts [OF one] and IH = Cons.IH [OF rest]
  show ?case
  proof (intro conjI allI impI)
    show "length rs' = length (r # rs)" using rs' IH by simp
    fix i assume i: "i < length (r # rs)" and v: "\<not> bad_rate (rs' ! i)"
    have "\<not> inval \<and> (\<forall>j \<le> i. \<not> bad_rate ((r # rs) ! j)) \<and> tr_idx (rs' ! i) = tr_idx ((r # rs) ! i)
       \<and> (legacy_rate ((r # rs) ! i) \<longrightarrow> sint (tr_idx ((r # rs) ! i)) < int (length (sb_rates sb)))"
    proof (cases i)
      case 0
      then show ?thesis using f v rs' by simp
    next
      case (Suc k)
      then have "\<not> inval1" "\<forall>j \<le> k. \<not> bad_rate (rs ! j)" "tr_idx (rs2 ! k) = tr_idx (rs ! k)"
        "legacy_rate (rs ! k) \<longrightarrow> sint (tr_idx (rs ! k)) < int (length (sb_rates sb))"
        using IH i v rs' by auto
      then show ?thesis using f Suc rs' by (auto simp: nth_Cons split: nat.split)
    qed
    then show "\<not> inval" "tr_idx (rs' ! i) = tr_idx ((r # rs) ! i)"
      "legacy_rate ((r # rs) ! i) \<Longrightarrow> sint (tr_idx ((r # rs) ! i)) < int (length (sb_rates sb))"
      "\<And>j. j \<le> i \<Longrightarrow> \<not> bad_rate ((r # rs) ! j)" by simp_all
  qed
qed simp

text \<open>
  A driver is never given an index outside the band. Of the rates the fix-up leaves valid,
  each has the index it had, comes after valid rates only, and, unless it is an MCS, is an
  index of the band.
\<close>

theorem fixed_rates_valid:
  assumes "rate_fixup_ratelist vif sb info rates = Inr (info', rates')"
  shows "length rates' = length rates
    \<and> (\<forall>i < length rates. \<not> bad_rate (rates' ! i) \<longrightarrow>
         (\<forall>j \<le> i. \<not> bad_rate (rates ! j)) \<and> tr_idx (rates' ! i) = tr_idx (rates ! i)
       \<and> (legacy_rate (rates ! i) \<longrightarrow> sint (tr_idx (rates ! i)) < int (length (sb_rates sb))))"
proof -
  obtain i where i: "(let (u, rates) = fixup_loop sb i False (ti_use_cts_prot i) rates in
      Inr (i\<lparr>ti_use_cts_prot := u\<rparr>, rates)) = (Inr (info', rates') :: fault + _)"
    using assms unfolding rate_fixup_ratelist_def fbind_Inr_iff by blast
  obtain u r where "fixup_loop sb i False (ti_use_cts_prot i) rates = (u, r)" by fastforce
  with i have l: "fixup_loop sb i False (ti_use_cts_prot i) rates = (u, rates')" by simp
  show ?thesis using fixup_loop_facts [OF l] by simp
qed

definition ex_band :: supported_band where
  "ex_band = \<lparr>sb_band = 0, sb_rates = map (\<lambda>(f, b). \<lparr>br_flags = f, br_bitrate = b\<rparr>)
     [(0, 10), (1, 20), (1, 55), (1, 110), (16, 60), (16, 90), (16, 120), (16, 180), (16, 240), (16, 360), (16, 480), (16, 540)]\<rparr>"

definition ex_info :: tx_info where
  "ex_info = \<lparr>ti_flags = 0, ti_band = 0, ti_hw_queue = 0,
     ti_rates = replicate 4 \<lparr>tr_idx = - 1, tr_count = 0, tr_flags = 0\<rparr>, ti_rts_cts_rate_idx = 0,
     ti_use_rts = False, ti_use_cts_prot = False, ti_short_preamble = False, ti_skip_table = False,
     ti_vif = None, ti_hw_key = None, ti_ctl_flags = 0\<rparr>"

definition ex_vif :: rc_vif where
  "ex_vif = \<lparr>rv_basic_rates = 0, rv_mcast_rate = (\<lambda>_. 0), rv_mesh = False, rv_rateidx_mask = (\<lambda>_. 0xfff),
     rv_has_mcs_mask = (\<lambda>_. False), rv_mcs_mask = (\<lambda>_. []), rv_chan_width = W_20_NOHT, rv_rate_flags = 0\<rparr>"

lemma base_rate_loop_none: "base_rate_loop sb 0 d is b = Inr b"
  by (induction "is") simp_all

lemma fixed_rates_valid_witness:
  "\<exists>info' rates'. rate_fixup_ratelist ex_vif ex_band ex_info
      [\<lparr>tr_idx = 3, tr_count = 1, tr_flags = 0\<rparr>, \<lparr>tr_idx = - 1, tr_count = 1, tr_flags = 0\<rparr>,
       \<lparr>tr_idx = 2, tr_count = 1, tr_flags = 0\<rparr>] = Inr (info', rates')
    \<and> length rates' = 3 \<and> bad_rate (rates' ! 2)"
proof -
  let ?r = "[\<lparr>tr_idx = 3, tr_count = 1, tr_flags = 0\<rparr>, \<lparr>tr_idx = - 1, tr_count = 1, tr_flags = 0\<rparr>,
       \<lparr>tr_idx = 2, tr_count = 1, tr_flags = 0\<rparr>]"
  have "\<exists>x. rate_fixup_ratelist ex_vif ex_band ex_info ?r = Inr x"
    by (simp add: rate_fixup_ratelist_def ex_vif_def rts_cts_rate_def base_rate_loop_none split: prod.split)
  then obtain info' rates' where x: "rate_fixup_ratelist ex_vif ex_band ex_info ?r = Inr (info', rates')" by auto
  have b: "bad_rate (?r ! 1)" by simp
  note v = fixed_rates_valid [OF x]
  have l: "length rates' = 3" using conjunct1 [OF v] by simp
  have "bad_rate (rates' ! 2)"
  proof (rule ccontr)
    assume "\<not> bad_rate (rates' ! 2)"
    moreover have "2 < length ?r" by simp
    ultimately have "\<forall>j \<le> 2. \<not> bad_rate (?r ! j)" using conjunct2 [OF v] by blast
    moreover have "(1 :: nat) \<le> 2" by simp
    ultimately show False using b by blast
  qed
  with x l show ?thesis by blast
qed

text \<open>
  The rate for RTS frames need not be a basic rate. The search starts from
  \<open>ffs(basic_rates - 1)\<close>, where \<open>ffs(basic_rates) - 1\<close> is meant: when the only basic rate is
  number \<open>k > 1\<close> and faster than the data rate, rate 1 is chosen, which is not basic.
\<close>

lemma bit_exp: "k < 32 \<Longrightarrow> bit (2 ^ k :: u32) i \<longleftrightarrow> i = k"
  by (auto simp: bit_exp_iff)

lemma ffs_exp_minus:
  assumes "1 < k" and "k < 32"
  shows "ffs (2 ^ k - 1) = 1"
proof -
  have "2 ^ k - (1 :: u32) = mask k" by (simp only: mask_eq_decr_exp)
  then have "bit (2 ^ k - (1 :: u32)) 0" using assms by (simp add: bit_mask_iff)
  then show ?thesis by (simp add: ffs_def upt_conv_Cons)
qed

lemma base_rate_loop_single:
  assumes "0 \<le> d" and "d < int (length (sb_rates sb))" and "k < 32"
    and "br_bitrate (sb_rates sb ! k) > br_bitrate (sb_rates sb ! nat d)"
  shows "base_rate_loop sb (2 ^ k) d is b = Inr b"
  using assms(1,2,4) by (induction "is") (simp_all add: rate_at_def bit_exp [OF assms(3)])

theorem rts_rate_not_basic:
  assumes "1 < k" and "k < 32" and "k < length (sb_rates sb)"
    and "0 \<le> sint (tr_idx r)" and "sint (tr_idx r) < int (length (sb_rates sb))"
    and "br_bitrate (sb_rates sb ! k) > br_bitrate (sb_rates sb ! nat (sint (tr_idx r)))"
  shows "rts_cts_rate sb (2 ^ k) r = Inr 1 \<and> \<not> bit (2 ^ k :: u32) 1"
proof -
  have "bit (2 ^ k :: u32) k" using assms(2) by (simp add: bit_exp)
  then have "(2 ^ k :: u32) \<noteq> 0" by (metis bit_0_eq bot_apply bot_bool_def)
  then show ?thesis using assms
    by (simp add: rts_cts_rate_def ffs_exp_minus base_rate_loop_single bit_exp)
qed

lemma rts_rate_not_basic_witness:
  "rts_cts_rate ex_band 16 \<lparr>tr_idx = 2, tr_count = 1, tr_flags = 0\<rparr> = Inr 1"
proof -
  have "br_bitrate (sb_rates ex_band ! 4) > br_bitrate (sb_rates ex_band ! 2)" and "length (sb_rates ex_band) = 12"
    by (simp_all add: ex_band_def)
  then show ?thesis using rts_rate_not_basic [of 4 ex_band "\<lparr>tr_idx = 2, tr_count = 1, tr_flags = 0\<rparr>"] by simp
qed

section \<open>The mask of the user\<close>

lemma apply_loop_total:
  assumes "\<forall>r \<in> set rs. \<not> bad_rate r \<longrightarrow> (\<exists>r'. f r = Inr r' \<and> P r r')"
  shows "\<exists>ps. apply_loop f rs = Inr (ps @ dropWhile (\<lambda>r. \<not> bad_rate r) rs)
    \<and> list_all2 P (takeWhile (\<lambda>r. \<not> bad_rate r) rs) ps"
  using assms
proof (induction rs)
  case (Cons r rs)
  show ?case
  proof (cases "bad_rate r")
    case False
    then obtain r' where "f r = Inr r'" "P r r'" using Cons.prems by auto
    moreover obtain ps where "apply_loop f rs = Inr (ps @ dropWhile (\<lambda>r. \<not> bad_rate r) rs)"
      "list_all2 P (takeWhile (\<lambda>r. \<not> bad_rate r) rs) ps" using Cons.IH Cons.prems by auto
    ultimately show ?thesis using False by auto
  qed simp
qed simp

lemma match_mask_legacy:
  assumes "\<not> bad_rate r" and "\<not> bit (tr_flags r) TX_RC_MCS" and "sint (tr_idx r) < int n" and "n \<le> 32"
    and "j < n" and "bit msk j"
  shows "\<exists>k. rate_idx_match_mask r n width msk m = Inr (r\<lparr>tr_idx := s8 (int k)\<rparr>) \<and> k < n \<and> bit msk k
    \<and> (bit msk (nat (sint (tr_idx r))) \<longrightarrow> int k = sint (tr_idx r))"
proof -
  obtain i where i: "sint (tr_idx r) = int i" "i < n" using assms(1,3) by (metis bad_rate_def linorder_not_less nonneg_int_cases of_nat_less_iff)
  have "nearest (bit msk) n i \<noteq> None" using nearest_None_iff [OF i(2)] assms(5,6) by auto
  then obtain k where k: "nearest (bit msk) n i = Some k" by auto
  then have "k < n \<and> bit msk k \<and> (bit msk i \<longrightarrow> k = i)"
    using i(2) unfolding nearest_Some_iff by (metis le_less_trans le_neq_implies_less order_refl)
  moreover have "rate_idx_match_legacy_mask r n msk = Inr (Some (r\<lparr>tr_idx := s8 (int k)\<rparr>))"
    using legacy_match [of i n r msk] i assms(4) k by simp
  ultimately show ?thesis using assms(2) i(1) by (auto simp: rate_idx_match_mask_def)
qed

definition mask_allows :: "u32 \<Rightarrow> tx_rate \<Rightarrow> bool" where
  "mask_allows msk r \<longleftrightarrow> \<not> bad_rate r \<and> bit msk (nat (sint (tr_idx r)))"

definition moved_into :: "u32 \<Rightarrow> u32 \<Rightarrow> tx_rate \<Rightarrow> tx_rate \<Rightarrow> bool" where
  \<comment> \<open>the index, and only that, becomes one of the mask; a rate that the second mask allows stays\<close>
  "moved_into msk msk' r r' \<longleftrightarrow> mask_allows msk r' \<and> r' = r\<lparr>tr_idx := tr_idx r'\<rparr> \<and> (mask_allows msk' r \<longrightarrow> r' = r)"

text \<open>
  C38: the mask of the user is respected. If the mask, less the rates the station does not
  support, leaves any rate of the band, then every legacy rate of a list, up to its end or the
  first invalid one, is moved into the mask: its index becomes the index of a rate of the mask and nothing
  else of it changes, and it stays as it is when the mask and the station allow it. The first invalid rate
  and what follows it are not touched.
\<close>

theorem user_mask_respected:
  assumes "length (sb_rates sb) \<le> 31"
    and "\<forall>r \<in> set rates. \<not> bad_rate r \<longrightarrow> \<not> bit (tr_flags r) TX_RC_MCS \<and> sint (tr_idx r) < int (length (sb_rates sb))"
    and "j < length (sb_rates sb)" and "bit (user_mask vif sb (ti_band info)) j"
    and "\<forall>s. sta = Some s \<longrightarrow> bit (rs_supp_rates s (ti_band info)) j"
  shows "\<exists>ps. rate_control_apply_mask vif sta sb info rates = Inr (ps @ dropWhile (\<lambda>r. \<not> bad_rate r) rates)
    \<and> list_all2 (moved_into (user_mask vif sb (ti_band info))
          (user_mask vif sb (ti_band info) AND (case sta of None \<Rightarrow> - 1 | Some s \<Rightarrow> rs_supp_rates s (ti_band info))))
        (takeWhile (\<lambda>r. \<not> bad_rate r) rates) ps"
proof -
  let ?n = "length (sb_rates sb)" and ?u = "user_mask vif sb (ti_band info)"
  define m where "m = (case sta of None \<Rightarrow> ?u | Some s \<Rightarrow> ?u AND rs_supp_rates s (ti_band info))"
  have m': "?u AND (case sta of None \<Rightarrow> - 1 | Some s \<Rightarrow> rs_supp_rates s (ti_band info)) = m"
    by (simp add: m_def split: option.split)
  have m: "bit m j" "\<And>k. bit m k \<Longrightarrow> bit ?u k"
    using assms(4,5) by (auto simp: m_def bit_and_iff split: option.splits)
  show ?thesis
  proof (cases "?u = push_bit ?n 1 - 1 \<and> \<not> rv_has_mcs_mask vif (ti_band info)")
    case True
    then have u: "?u = mask ?n" by (simp add: mask_eq_decr_exp push_bit_eq_mult)
    have "mask_allows ?u r" if r: "r \<in> set rates" "\<not> bad_rate r" for r
    proof -
      have "nat (sint (tr_idx r)) < ?n" using assms(2) r by (simp add: bad_rate_def nat_less_iff)
      then show ?thesis using r(2) assms(1) unfolding mask_allows_def u by (simp add: bit_mask_iff)
    qed
    moreover have "rate_control_apply_mask vif sta sb info rates = Inr rates"
      using True by (simp add: rate_control_apply_mask_def Let_def)
    ultimately show ?thesis unfolding m'
      by (intro exI [of _ "takeWhile (\<lambda>r. \<not> bad_rate r) rates"])
        (auto simp: moved_into_def intro!: list.rel_refl_strong dest: set_takeWhileD)
  next
    case False
    obtain mcs where app: "rate_control_apply_mask vif sta sb info rates
        = apply_loop (\<lambda>r. rate_idx_match_mask r ?n (rv_chan_width vif) m mcs) rates"
      using False unfolding rate_control_apply_mask_def Let_def m_def by (simp only: if_False)
    have "\<exists>r'. rate_idx_match_mask r ?n (rv_chan_width vif) m mcs = Inr r' \<and> moved_into ?u m r r'"
      if r: "r \<in> set rates" "\<not> bad_rate r" for r
    proof -
      obtain k where k: "rate_idx_match_mask r ?n (rv_chan_width vif) m mcs = Inr (r\<lparr>tr_idx := s8 (int k)\<rparr>)" "k < ?n" "bit m k"
          "bit m (nat (sint (tr_idx r))) \<longrightarrow> int k = sint (tr_idx r)"
        using match_mask_legacy [of r ?n j m "rv_chan_width vif" mcs] assms(1,2,3) r m(1) by auto
      have "sint (s8 (int k)) = int k" using k(2) assms(1) by (intro sint_s8) simp_all
      then have "mask_allows ?u (r\<lparr>tr_idx := s8 (int k)\<rparr>)" using m(2) [OF k(3)] by (simp add: mask_allows_def bad_rate_def)
      moreover have "r\<lparr>tr_idx := s8 (int k)\<rparr> = r" if "mask_allows m r"
      proof -
        have "s8 (int k) = tr_idx r" using k(4) that \<open>sint (s8 (int k)) = int k\<close> by (simp add: mask_allows_def word_eq_iff_signed)
        then show ?thesis by simp
      qed
      ultimately have "moved_into ?u m r (r\<lparr>tr_idx := s8 (int k)\<rparr>)" by (simp add: moved_into_def)
      with k(1) show ?thesis by blast
    qed
    then show ?thesis unfolding app m' by (intro apply_loop_total) blast
  qed
qed

lemma foldl_id: "foldl (\<lambda>m i. m) a xs = a"
  by (induction xs) simp_all

lemma user_mask_respected_witness:
  "\<exists>r. rate_control_apply_mask (ex_vif\<lparr>rv_rateidx_mask := (\<lambda>_. 8)\<rparr>) None ex_band ex_info
         [\<lparr>tr_idx = 11, tr_count = 1, tr_flags = 0\<rparr>, \<lparr>tr_idx = - 1, tr_count = 0, tr_flags = 0\<rparr>]
       = Inr [r, \<lparr>tr_idx = - 1, tr_count = 0, tr_flags = 0\<rparr>]
     \<and> moved_into 8 8 \<lparr>tr_idx = 11, tr_count = 1, tr_flags = 0\<rparr> r"
proof -
  let ?v = "ex_vif\<lparr>rv_rateidx_mask := (\<lambda>_. 8)\<rparr>"
  have l: "length (sb_rates ex_band) = 12" by (simp add: ex_band_def)
  have u: "user_mask ?v ex_band (ti_band ex_info) = 8"
    by (simp add: user_mask_def ex_vif_def ex_info_def foldl_id)
  have "bit (8 :: u32) 3" by simp
  then show ?thesis
    using user_mask_respected [of ex_band "[\<lparr>tr_idx = 11, tr_count = 1, tr_flags = 0\<rparr>, \<lparr>tr_idx = - 1, tr_count = 0, tr_flags = 0\<rparr>]"
      3 ?v ex_info None]
    unfolding u l by (auto simp: bad_rate_def list_all2_Cons1)
qed

lemma get_rate_bypass:
  "bit (ti_flags info) TX_CTL_RC_BYPASS \<Longrightarrow> rate_control_get_rate g hw vif sta bands d info = Inr info"
  by (simp add: rate_control_get_rate_def)

end
