(* ===== verification/Tx_Path.thy ===== *)
theory Tx_Path
  imports Tx_Rate
begin

text \<open>
  The transmit path of mac80211 (\<open>tx.c\<close> of the patched module): the handlers a frame runs
  through, fragmentation, the queues of the driver and the power-save buffers. A frame is the
  record \<open>skb\<close>, its octets and its control block; a handler takes and returns the state of
  the device (\<open>mac\<close>) and of the frame (\<open>tx_data\<close>).

  Interfaces, stations and keys are kept in lists of the device and are referred to by number.
  What mac80211 calls outside the files of the repository is the record \<open>kernel\<close>: the predicates on
  the frame control field, the length of a header, the duration of a frame, the encryption, the
  limits of the buffers. An access behind the end of a frame is a value of \<open>fault\<close>.
\<close>

section \<open>Frames, keys, stations and interfaces\<close>

record skb =
  sk_data :: "byte list"
  sk_info :: tx_info
  sk_protocol :: u16
  sk_queue :: nat                        \<comment> \<open>queue mapping: the access category\<close>

datatype cipher = WEP40 | WEP104 | TKIP | CCMP | AES_CMAC | Other_cipher u32

record key =
  key_cipher :: cipher
  key_sw_mgmt_tx :: bool
  key_tainted :: bool
  key_uploaded :: bool
  key_tx_rx_count :: u32

record tid_ampdu =
  ta_operational :: bool
  ta_want_start :: bool
  ta_pending :: "skb list"

record wsta =
  ws_addr :: "byte list"
  ws_sdata :: nat
  ws_assoc :: bool
  ws_ps_sta :: bool
  ws_ps_driver :: bool
  ws_ps_deliver :: bool
  ws_mfp :: bool
  ws_short_preamble :: bool
  ws_rate_control :: bool
  ws_clear_ps_filt :: bool
  ws_uploaded :: bool
  ws_ptk :: "nat option"
  ws_rc :: rc_sta
  ws_tid_seq :: "u16 list"
  ws_tid_tx :: "tid_ampdu option list"
  ws_ps_tx_buf :: "skb list list"        \<comment> \<open>per access category, 0 is voice, 3 background\<close>
  ws_tx_fragments :: nat
  ws_tx_bytes :: "nat list"
  ws_tx_packets :: "nat list"
  ws_last_tx_rate :: tx_rate

datatype nl80211_iftype = IF_UNSPECIFIED | IF_ADHOC | IF_STATION | IF_AP | IF_AP_VLAN | IF_WDS | IF_MONITOR
  | IF_MESH_POINT | IF_P2P_CLIENT | IF_P2P_GO | IF_P2P_DEVICE

record chandef =
  cd_band :: nat
  cd_rate_flags :: u32
  cd_shift :: nat

record sub_if =                          \<comment> \<open>\<open>struct ieee80211_sub_if_data\<close>\<close>
  si_type :: nl80211_iftype
  si_running :: bool
  si_addr :: "byte list"
  si_bss :: "nat option"                 \<comment> \<open>the interface of the BSS, for an AP and its VLANs\<close>
  si_num_sta_ps :: nat
  si_bc_buf :: "skb list"
  si_num_mcast_sta :: nat
  si_vlan_sta :: "nat option"
  si_use_4addr :: bool
  si_offchannel :: bool
  si_control_port_protocol :: u16
  si_control_port_no_encrypt :: bool
  si_drop_unencrypted :: bool
  si_default_mgmt_key :: "nat option"
  si_default_multicast_key :: "nat option"
  si_default_unicast_key :: "nat option"
  si_sequence_number :: u16
  si_rc :: rc_vif
  si_use_cts_prot :: bool
  si_use_short_preamble :: bool
  si_operating_gmode :: bool
  si_cab_queue :: nat
  si_hw_queue :: "nat list"
  si_chanctx :: "chandef option"
  si_monitor_active :: bool
  si_uapsd_enabled :: bool               \<comment> \<open>\<open>IEEE80211_STA_UAPSD_ENABLED\<close> of a station interface\<close>
  si_uapsd_voice :: bool                 \<comment> \<open>U-APSD for the access category voice\<close>
  si_nullfunc_acked :: bool              \<comment> \<open>\<open>IEEE80211_STA_NULLFUNC_ACKED\<close>\<close>
  si_associated :: bool                  \<comment> \<open>a station interface that is associated\<close>

record mac =                             \<comment> \<open>\<open>struct ieee80211_local\<close>\<close>
  ma_hw :: rc_hw
  ma_bands :: "nat \<Rightarrow> supported_band"
  ma_conf_band :: nat                    \<comment> \<open>band of \<open>hw.conf.chandef.chan\<close>\<close>
  ma_frag_threshold :: nat
  ma_rts_threshold :: nat
  ma_set_frag_threshold :: bool          \<comment> \<open>the driver fragments\<close>
  ma_sw_scanning :: bool
  ma_scanning :: bool                    \<comment> \<open>any kind of scan\<close>
  ma_ps_sdata :: bool                    \<comment> \<open>\<open>ps_sdata\<close> is not null\<close>
  ma_quiescing :: bool
  ma_conf_ps :: bool                     \<comment> \<open>\<open>IEEE80211_CONF_PS\<close>: the device sleeps\<close>
  ma_dynamic_ps_timeout :: int           \<comment> \<open>in milliseconds\<close>
  ma_dynamic_ps_timer :: "u32 option"    \<comment> \<open>when the timer expires\<close>
  ma_ps_disable_queued :: bool           \<comment> \<open>\<open>dynamic_ps_disable_work\<close> is queued\<close>
  ma_jiffies :: u32
  ma_total_ps_buffered :: nat
  ma_ifs :: "sub_if list"
  ma_stas :: "wsta list"
  ma_keys :: "key list"
  ma_monitor_sdata :: "nat option"
  ma_use_chanctx :: bool
  ma_oper_chandef :: chandef
  ma_stop_reasons :: "u32 list"
  ma_pending :: "skb list list"
  ma_driver :: "(nat option \<times> nat option \<times> skb) list"   \<comment> \<open>calls of \<open>drv_tx\<close>: interface, station, frame\<close>

datatype tx_result = TX_CONTINUE | TX_DROP | TX_QUEUED

record tx_data =                         \<comment> \<open>\<open>struct ieee80211_tx_data\<close> without the frame itself\<close>
  tx_sdata :: nat
  tx_sta :: "nat option"
  tx_key :: "nat option"
  tx_rate :: tx_rate
  tx_unicast :: bool
  tx_ps_buffered :: bool

record kernel =
  k_hdrlen :: "u16 \<Rightarrow> nat"
  k_is_mgmt :: "u16 \<Rightarrow> bool"
  k_is_ctl :: "u16 \<Rightarrow> bool"
  k_is_data :: "u16 \<Rightarrow> bool"
  k_is_data_qos :: "u16 \<Rightarrow> bool"
  k_is_data_present :: "u16 \<Rightarrow> bool"
  k_is_qos_nullfunc :: "u16 \<Rightarrow> bool"
  k_is_nullfunc :: "u16 \<Rightarrow> bool"
  k_is_probe_req :: "u16 \<Rightarrow> bool"
  k_is_bufferable_mmpdu :: "u16 \<Rightarrow> bool"
  k_is_deauth :: "u16 \<Rightarrow> bool"
  k_is_action :: "u16 \<Rightarrow> bool"
  k_is_pspoll :: "u16 \<Rightarrow> bool"
  k_has_order :: "u16 \<Rightarrow> bool"
  k_is_robust_mgmt :: "byte list \<Rightarrow> bool"
  k_is_multicast :: "byte list \<Rightarrow> bool"
  k_qos_ctl_at :: "u16 \<Rightarrow> nat"          \<comment> \<open>offset of the QoS control field\<close>
  k_frame_duration :: "nat \<Rightarrow> nat \<Rightarrow> nat \<Rightarrow> bool \<Rightarrow> bool \<Rightarrow> nat \<Rightarrow> nat"
  k_sta_max_tx_buffer :: nat
  k_ap_max_bc_buffer :: nat
  k_total_max_tx_buffer :: nat
  k_get_rate :: "tx_info \<Rightarrow> tx_info"    \<comment> \<open>of the rate control algorithm\<close>
  k_reported_rate :: "tx_info \<Rightarrow> tx_rate" \<comment> \<open>what it reports; a negative index for nothing\<close>
  k_alloc :: "nat \<Rightarrow> bool"                \<comment> \<open>whether the \<open>n\<close>-th fragment can be allocated\<close>
  k_store_jiffies :: "u32 \<Rightarrow> tx_rate list \<Rightarrow> tx_rate list"
    \<comment> \<open>\<open>control.jiffies\<close> shares its memory with \<open>control.rates\<close>: the rates after it was stored\<close>
  k_michael_mic_add :: "key option \<Rightarrow> skb \<Rightarrow> tx_result \<times> skb"
  k_sta_info_get :: "mac \<Rightarrow> nat \<Rightarrow> byte list \<Rightarrow> nat option"
  k_sta_info_get_bss :: "mac \<Rightarrow> nat \<Rightarrow> byte list \<Rightarrow> nat option"
  k_stop_queues :: "u32 list \<Rightarrow> u32 list"
    \<comment> \<open>\<open>ieee80211_stop_queues_by_reason\<close> for power save, on the reasons of all queues\<close>
  k_msecs_to_jiffies :: "int \<Rightarrow> u32"
  k_reason_offchannel :: nat             \<comment> \<open>\<open>IEEE80211_QUEUE_STOP_REASON_OFFCHANNEL\<close>\<close>
  k_resize_ok :: bool                    \<comment> \<open>whether \<open>pskb_expand_head\<close> gets its memory\<close>
  k_mesh_nexthop_resolve :: "mac \<Rightarrow> nat \<Rightarrow> skb \<Rightarrow> skb option"   \<comment> \<open>\<open>None\<close>: queued\<close>
  k_mps_set_frame_flags :: "mac \<Rightarrow> nat \<Rightarrow> skb \<Rightarrow> skb"
  k_set_qos_hdr :: "mac \<Rightarrow> nat \<Rightarrow> skb \<Rightarrow> skb"
  k_encrypt :: "key \<Rightarrow> skb list \<Rightarrow> tx_result \<times> skb list"

definition frame_control :: "skb \<Rightarrow> u16" where
  "frame_control s = get_le16 (sk_data s) 0"

definition addr1 :: "skb \<Rightarrow> byte list" where
  "addr1 s = take 6 (drop 4 (sk_data s))"

definition flag :: "skb \<Rightarrow> nat \<Rightarrow> bool" where
  "flag s k = bit (ti_flags (sk_info s)) k"

definition upd_info :: "(tx_info \<Rightarrow> tx_info) \<Rightarrow> skb \<Rightarrow> skb" where
  "upd_info f s = s\<lparr>sk_info := f (sk_info s)\<rparr>"

definition set_flag :: "nat \<Rightarrow> skb \<Rightarrow> skb" where
  "set_flag k = upd_info (\<lambda>i. i\<lparr>ti_flags := set_bit k (ti_flags i)\<rparr>)"

definition clear_flag :: "nat \<Rightarrow> skb \<Rightarrow> skb" where
  "clear_flag k = upd_info (\<lambda>i. i\<lparr>ti_flags := unset_bit k (ti_flags i)\<rparr>)"

definition sdata_of :: "mac \<Rightarrow> tx_data \<Rightarrow> sub_if" where
  "sdata_of ma tx = ma_ifs ma ! tx_sdata tx"

definition sta_of :: "mac \<Rightarrow> tx_data \<Rightarrow> wsta option" where
  "sta_of ma tx = map_option (\<lambda>n. ma_stas ma ! n) (tx_sta tx)"

definition upd_sta :: "nat \<Rightarrow> (wsta \<Rightarrow> wsta) \<Rightarrow> mac \<Rightarrow> mac" where
  "upd_sta n f ma = ma\<lparr>ma_stas := (ma_stas ma)[n := f (ma_stas ma ! n)]\<rparr>"

definition upd_if :: "nat \<Rightarrow> (sub_if \<Rightarrow> sub_if) \<Rightarrow> mac \<Rightarrow> mac" where
  "upd_if n f ma = ma\<lparr>ma_ifs := (ma_ifs ma)[n := f (ma_ifs ma ! n)]\<rparr>"

definition temporary_flags :: "nat list" where
  \<comment> \<open>\<open>IEEE80211_TX_TEMPORARY_FLAGS\<close>\<close>
  "temporary_flags = [2, 3, 4, 5, 6, 8, 9, 10, 12, 17, 18, 22, 23, 24, 28]"

definition clear_temporary :: "skb \<Rightarrow> skb" where
  "clear_temporary s = foldl (\<lambda>s k. clear_flag k s) s temporary_flags"

section \<open>Association and power save\<close>

abbreviation (input) "HW_HOST_BROADCAST_PS_BUFFERING \<equiv> (2 :: nat)"
abbreviation (input) "HW_AMPDU_AGGREGATION \<equiv> (9 :: nat)"
abbreviation (input) "HW_SUPPORTS_PS \<equiv> (10 :: nat)"
abbreviation (input) "HW_SUPPORTS_DYNAMIC_PS \<equiv> (12 :: nat)"
abbreviation (input) "HW_QUEUE_CONTROL \<equiv> (20 :: nat)"
abbreviation (input) "HW_TX_AMPDU_SETUP_IN_HW \<equiv> (23 :: nat)"

definition hw :: "mac \<Rightarrow> nat \<Rightarrow> bool" where
  "hw ma f = bit (hw_flags (ma_hw ma)) f"

text \<open>
  Dynamic power save of a station interface: when the device sleeps, a frame stops the queues and has the
  device woken up, and every frame of an associated interface starts the timer again.
\<close>

definition dynamic_ps_applies :: "mac \<Rightarrow> nat \<Rightarrow> nat \<Rightarrow> bool" where
  \<comment> \<open>for a frame of an interface in an access category\<close>
  "dynamic_ps_applies ma n ac \<longleftrightarrow>
     hw ma HW_SUPPORTS_PS \<and> \<not> hw ma HW_SUPPORTS_DYNAMIC_PS \<and> 0 < ma_dynamic_ps_timeout ma \<and> \<not> ma_scanning ma
     \<and> ma_ps_sdata ma \<and> \<not> ma_quiescing ma \<and> si_type (ma_ifs ma ! n) = IF_STATION
     \<and> \<not> (si_uapsd_enabled (ma_ifs ma ! n) \<and> si_uapsd_voice (ma_ifs ma ! n) \<and> ac = 0)"

definition ieee80211_tx_h_dynamic_ps :: "kernel \<Rightarrow> mac \<Rightarrow> tx_data \<Rightarrow> skb \<Rightarrow> mac" where
  \<comment> \<open>the result is always \<open>TX_CONTINUE\<close>\<close>
  "ieee80211_tx_h_dynamic_ps k ma tx s =
     (let n = tx_sdata tx in
      if \<not> dynamic_ps_applies ma n (sk_queue s) then ma
      else let ma = (if ma_conf_ps ma
                     then (upd_if n (\<lambda>sd. sd\<lparr>si_nullfunc_acked := False\<rparr>) ma)
                            \<lparr>ma_stop_reasons := k_stop_queues k (ma_stop_reasons ma), ma_ps_disable_queued := True\<rparr>
                     else ma) in
      if \<not> si_associated (ma_ifs ma ! n) then ma
      else ma\<lparr>ma_dynamic_ps_timer := Some (ma_jiffies ma + k_msecs_to_jiffies k (ma_dynamic_ps_timeout ma))\<rparr>)"

definition ieee80211_tx_h_check_assoc :: "kernel \<Rightarrow> mac \<Rightarrow> tx_data \<Rightarrow> skb \<Rightarrow> tx_result" where
  "ieee80211_tx_h_check_assoc k ma tx s =
     (let sd = sdata_of ma tx; fc = frame_control s in
      if flag s TX_CTL_INJECTED then TX_CONTINUE
      else if ma_sw_scanning ma \<and> si_offchannel sd \<and> \<not> k_is_probe_req k fc \<and> \<not> k_is_nullfunc k fc then TX_DROP
      else if si_type sd = IF_WDS then TX_CONTINUE
      else if si_type sd = IF_MESH_POINT then TX_CONTINUE
      else if tx_ps_buffered tx then TX_CONTINUE
      else if tx_unicast tx then
        (if \<not> (case sta_of ma tx of None \<Rightarrow> False | Some sta \<Rightarrow> ws_assoc sta) \<and> k_is_data k fc
         then TX_DROP else TX_CONTINUE)
      else if si_type sd = IF_AP \<and> k_is_data k fc \<and> si_num_mcast_sta sd = 0 then TX_DROP
      else TX_CONTINUE)"

text \<open>
  \<open>purge_old_ps_buffers\<close>: one frame of every broadcast buffer, and of every station the first
  frame of the lowest access category that has one. The length of the queues behind that
  category is not added to the total.
\<close>

definition purge_bc :: "sub_if \<Rightarrow> nat \<times> sub_if" where
  "purge_bc sd =
     (if si_type sd \<in> {IF_AP, IF_MESH_POINT}
      then (length (tl (si_bc_buf sd)), sd\<lparr>si_bc_buf := tl (si_bc_buf sd)\<rparr>)
      else (0, sd))"

fun purge_acs :: "nat list \<Rightarrow> skb list list \<Rightarrow> nat \<times> skb list list" where
  "purge_acs [] bufs = (0, bufs)"
| "purge_acs (ac # acs) bufs =
     (let b = bufs ! ac; bufs = bufs[ac := tl b] in
      if b \<noteq> [] then (length (tl b), bufs)
      else let (n, bufs) = purge_acs acs bufs in (length (tl b) + n, bufs))"

definition purge_sta :: "wsta \<Rightarrow> nat \<times> wsta" where
  "purge_sta sta =
     (let (n, bufs) = purge_acs [3, 2, 1, 0] (ws_ps_tx_buf sta) in (n, sta\<lparr>ws_ps_tx_buf := bufs\<rparr>))"

definition purge_old_ps_buffers :: "mac \<Rightarrow> mac" where
  "purge_old_ps_buffers ma =
     (let ifs = map purge_bc (ma_ifs ma); stas = map purge_sta (ma_stas ma) in
      ma\<lparr>ma_ifs := map snd ifs, ma_stas := map snd stas,
         ma_total_ps_buffered := sum_list (map fst ifs) + sum_list (map fst stas)\<rparr>)"

definition purge_if_full :: "kernel \<Rightarrow> mac \<Rightarrow> mac" where
  "purge_if_full k ma =
     (if ma_total_ps_buffered ma \<ge> k_total_max_tx_buffer k then purge_old_ps_buffers ma else ma)"

text \<open>The interface that keeps the broadcast buffer, \<open>None\<close> if there is none.\<close>

definition ps_of :: "mac \<Rightarrow> tx_data \<Rightarrow> nat option" where
  "ps_of ma tx =
     (let sd = sdata_of ma tx in
      if si_type sd \<in> {IF_AP, IF_AP_VLAN} then si_bss sd
      else if si_type sd = IF_MESH_POINT then Some (tx_sdata tx) else None)"

definition queue_bc :: "kernel \<Rightarrow> nat \<Rightarrow> skb \<Rightarrow> mac \<Rightarrow> mac" where
  \<comment> \<open>at the end of the broadcast buffer of an interface, at whose limit the oldest frame goes\<close>
  "queue_bc k p s ma =
     (let ma = purge_if_full k ma; full = length (si_bc_buf (ma_ifs ma ! p)) \<ge> k_ap_max_bc_buffer k;
          ma = (if full then upd_if p (\<lambda>sd. sd\<lparr>si_bc_buf := tl (si_bc_buf sd)\<rparr>) ma
                else ma\<lparr>ma_total_ps_buffered := ma_total_ps_buffered ma + 1\<rparr>) in
      upd_if p (\<lambda>sd. sd\<lparr>si_bc_buf := si_bc_buf sd @ [s]\<rparr>) ma)"

definition ieee80211_tx_h_multicast_ps_buf ::
    "kernel \<Rightarrow> mac \<Rightarrow> tx_data \<Rightarrow> skb \<Rightarrow> tx_result \<times> mac \<times> skb" where
  "ieee80211_tx_h_multicast_ps_buf k ma tx s =
     (case ps_of ma tx of
        None \<Rightarrow> (TX_CONTINUE, ma, s)
      | Some p \<Rightarrow>
          if k_has_order k (frame_control s) then (TX_CONTINUE, ma, s)
          else
            let s = (if hw ma HW_QUEUE_CONTROL
                     then upd_info (\<lambda>i. i\<lparr>ti_hw_queue := si_cab_queue (sdata_of ma tx)\<rparr>) s else s) in
            if si_num_sta_ps (ma_ifs ma ! p) = 0 then (TX_CONTINUE, ma, s)
            else let s = set_flag TX_CTL_SEND_AFTER_DTIM s in
              if \<not> hw ma HW_HOST_BROADCAST_PS_BUFFERING then (TX_CONTINUE, ma, s)
              else (TX_QUEUED, queue_bc k p s ma, s))"

definition in_ps :: "wsta \<Rightarrow> bool" where
  "in_ps sta \<longleftrightarrow> ws_ps_sta sta \<or> ws_ps_driver sta \<or> ws_ps_deliver sta"

definition ps_frame :: "kernel \<Rightarrow> mac \<Rightarrow> nat \<Rightarrow> skb \<Rightarrow> skb" where
  \<comment> \<open>the frame as it is put into the buffer of a station\<close>
  "ps_frame k ma sdata s =
     clear_temporary (set_flag TX_INTFL_NEED_TXPROCESSING
       (upd_info (\<lambda>i. i\<lparr>ti_rates := k_store_jiffies k (ma_jiffies ma) (ti_rates i), ti_vif := Some sdata\<rparr>) s))"

definition queue_ps :: "kernel \<Rightarrow> nat \<Rightarrow> nat \<Rightarrow> skb \<Rightarrow> mac \<Rightarrow> mac" where
  "queue_ps k n ac s ma =
     (let full = length (ws_ps_tx_buf (ma_stas ma ! n) ! ac) \<ge> k_sta_max_tx_buffer k;
          drop_old = (\<lambda>b. if full then tl b else b);
          ma = (if full then ma else ma\<lparr>ma_total_ps_buffered := ma_total_ps_buffered ma + 1\<rparr>) in
      upd_sta n (\<lambda>sta. sta\<lparr>ws_ps_tx_buf := (ws_ps_tx_buf sta)[ac := drop_old (ws_ps_tx_buf sta ! ac) @ [s]]\<rparr>) ma)"

definition ieee80211_tx_h_unicast_ps_buf ::
    "kernel \<Rightarrow> mac \<Rightarrow> tx_data \<Rightarrow> skb \<Rightarrow> tx_result \<times> mac \<times> skb" where
  \<comment> \<open>no other context runs in between, so that the station still sleeps at the second test\<close>
  "ieee80211_tx_h_unicast_ps_buf k ma tx s =
     (case tx_sta tx of
        None \<Rightarrow> (TX_CONTINUE, ma, s)
      | Some n \<Rightarrow>
          if in_ps (ma_stas ma ! n) \<and> \<not> flag s TX_CTL_NO_PS_BUFFER then
            let s' = ps_frame k ma (tx_sdata tx) s in
            (TX_QUEUED, queue_ps k n (sk_queue s) s' (purge_if_full k ma), s')
          else (TX_CONTINUE, ma, s))"

definition ieee80211_tx_h_ps_buf :: "kernel \<Rightarrow> mac \<Rightarrow> tx_data \<Rightarrow> skb \<Rightarrow> tx_result \<times> mac \<times> skb" where
  "ieee80211_tx_h_ps_buf k ma tx s =
     (if tx_ps_buffered tx then (TX_CONTINUE, ma, s)
      else if k_is_mgmt k (frame_control s) \<and> \<not> k_is_bufferable_mmpdu k (frame_control s) then
        (TX_CONTINUE, ma, if tx_unicast tx then set_flag TX_CTL_NO_PS_BUFFER s else s)
      else if tx_unicast tx then ieee80211_tx_h_unicast_ps_buf k ma tx s
      else ieee80211_tx_h_multicast_ps_buf k ma tx s)"

section \<open>Port control, key and rate\<close>

definition ieee80211_tx_h_check_control_port_protocol :: "mac \<Rightarrow> tx_data \<Rightarrow> skb \<Rightarrow> skb" where
  "ieee80211_tx_h_check_control_port_protocol ma tx s =
     (let sd = sdata_of ma tx in
      if si_control_port_protocol sd = sk_protocol s then
        upd_info (\<lambda>i. i\<lparr>ti_ctl_flags := set_bit 0 (ti_ctl_flags i)\<rparr>)
          (if si_control_port_no_encrypt sd then set_flag TX_INTFL_DONT_ENCRYPT s else s)
      else s)"

definition ieee80211_use_mfp :: "kernel \<Rightarrow> u16 \<Rightarrow> wsta option \<Rightarrow> skb \<Rightarrow> bool" where
  "ieee80211_use_mfp k fc sta s \<longleftrightarrow>
     k_is_mgmt k fc \<and> (case sta of None \<Rightarrow> False | Some st \<Rightarrow> ws_mfp st) \<and> k_is_robust_mgmt k (sk_data s)"

text \<open>The key of a frame: \<open>None\<close> drops it.\<close>

definition choose_key :: "kernel \<Rightarrow> mac \<Rightarrow> tx_data \<Rightarrow> skb \<Rightarrow> nat option option" where
  "choose_key k ma tx s =
     (let sd = sdata_of ma tx; sta = sta_of ma tx; fc = frame_control s;
          mcast = k_is_multicast k (addr1 s); robust = k_is_robust_mgmt k (sk_data s);
          ptk = (case sta of None \<Rightarrow> None | Some st \<Rightarrow> ws_ptk st) in
      if flag s TX_INTFL_DONT_ENCRYPT then Some None
      else if ptk \<noteq> None then Some ptk
      else if k_is_mgmt k fc \<and> mcast \<and> robust \<and> si_default_mgmt_key sd \<noteq> None then Some (si_default_mgmt_key sd)
      else if mcast \<and> si_default_multicast_key sd \<noteq> None then Some (si_default_multicast_key sd)
      else if \<not> mcast \<and> si_default_unicast_key sd \<noteq> None then Some (si_default_unicast_key sd)
      else if flag s TX_CTL_INJECTED then Some None
      else if \<not> si_drop_unencrypted sd then Some None
      else if sk_protocol s = si_control_port_protocol sd then Some None
      else if robust \<and> \<not> (k_is_action k fc \<and> (case sta of None \<Rightarrow> False | Some st \<Rightarrow> ws_mfp st)) then Some None
      else if k_is_mgmt k fc \<and> \<not> robust then Some None
      else None)"

definition key_applies :: "kernel \<Rightarrow> wsta option \<Rightarrow> skb \<Rightarrow> cipher \<Rightarrow> bool" where
  "key_applies k sta s c =
     (let fc = frame_control s in
      case c of
        WEP40 \<Rightarrow> k_is_data_present k fc
      | WEP104 \<Rightarrow> k_is_data_present k fc
      | TKIP \<Rightarrow> k_is_data_present k fc
      | CCMP \<Rightarrow> k_is_data_present k fc \<or> ieee80211_use_mfp k fc sta s
      | AES_CMAC \<Rightarrow> k_is_mgmt k fc
      | Other_cipher _ \<Rightarrow> True)"

definition ieee80211_tx_h_select_key :: "kernel \<Rightarrow> mac \<Rightarrow> tx_data \<Rightarrow> skb \<Rightarrow> tx_result \<times> mac \<times> tx_data \<times> skb" where
  "ieee80211_tx_h_select_key k ma tx s =
     (case choose_key k ma tx s of
        None \<Rightarrow> (TX_DROP, ma, tx, s)
      | Some None \<Rightarrow> (TX_CONTINUE, ma, tx\<lparr>tx_key := None\<rparr>, s)
      | Some (Some n) \<Rightarrow>
          let key = ma_keys ma ! n; c = key_cipher key; fc = frame_control s;
              ma = ma\<lparr>ma_keys := (ma_keys ma)[n := key\<lparr>key_tx_rx_count := key_tx_rx_count key + 1\<rparr>]\<rparr>;
              tx = tx\<lparr>tx_key := (if key_applies k (sta_of ma tx) s c then Some n else None)\<rparr>;
              skip_hw = (c = CCMP \<and> tx_key tx \<noteq> None \<and> key_sw_mgmt_tx key \<and> k_is_mgmt k fc) in
          if tx_key tx \<noteq> None \<and> key_tainted key \<and> \<not> k_is_deauth k fc then (TX_DROP, ma, tx, s)
          else (TX_CONTINUE, ma, tx,
                if \<not> skip_hw \<and> tx_key tx \<noteq> None \<and> key_uploaded key
                then upd_info (\<lambda>i. i\<lparr>ti_hw_key := Some n\<rparr>) s else s))"

abbreviation (input) "FCS_LEN \<equiv> (4 :: nat)"

definition rc_prepare :: "kernel \<Rightarrow> mac \<Rightarrow> tx_data \<Rightarrow> skb \<Rightarrow> skb" where
  \<comment> \<open>the protection the rate control is asked for\<close>
  "rc_prepare k ma tx s =
     (let sd = sdata_of ma tx;
          len = min (length (sk_data s) + FCS_LEN) (ma_frag_threshold ma) in
      upd_info (\<lambda>i. i\<lparr>ti_use_rts := len > ma_rts_threshold ma, ti_use_cts_prot := si_use_cts_prot sd,
        ti_short_preamble := si_use_short_preamble sd
          \<and> (k_is_data k (frame_control s) \<or> (case sta_of ma tx of None \<Rightarrow> False | Some st \<Rightarrow> ws_short_preamble st))\<rparr>) s)"

definition set_count :: "5 word \<Rightarrow> tx_info \<Rightarrow> tx_info" where
  "set_count c i = i\<lparr>ti_rates := (ti_rates i)[0 := (ti_rates i ! 0)\<lparr>tr_count := c\<rparr>]\<rparr>"

definition last_rate :: "kernel \<Rightarrow> tx_info \<Rightarrow> tx_data \<Rightarrow> bool \<Rightarrow> mac \<Rightarrow> mac" where
  \<comment> \<open>the rate that is remembered for the station\<close>
  "last_rate k info tx is_data ma =
     (case tx_sta tx of
        None \<Rightarrow> ma
      | Some n \<Rightarrow>
          if bad_rate (k_reported_rate k info) then
            (if is_data then upd_sta n (\<lambda>st. st\<lparr>ws_last_tx_rate := tx_rate tx\<rparr>) ma else ma)
          else upd_sta n (\<lambda>st. st\<lparr>ws_last_tx_rate := k_reported_rate k info\<rparr>) ma)"

definition rc_count :: "tx_info \<Rightarrow> tx_info" where
  \<comment> \<open>at least one try, and only one without acknowledgement\<close>
  "rc_count info =
     (let info = (if tr_count (ti_rates info ! 0) = 0 then set_count 1 info else info) in
      if tr_count (ti_rates info ! 0) > 1 \<and> bit (ti_flags info) TX_CTL_NO_ACK then set_count 1 info else info)"

definition rc_finish ::
    "kernel \<Rightarrow> mac \<Rightarrow> tx_data \<Rightarrow> bool \<Rightarrow> tx_info \<Rightarrow> tx_info \<Rightarrow> tx_result \<times> mac \<times> tx_data \<times> tx_info" where
  \<comment> \<open>what follows \<open>rate_control_get_rate\<close>; \<open>before\<close> is the control block it was called with\<close>
  "rc_finish k ma tx is_data before info =
     (let ratetbl = (case sta_of ma tx of None \<Rightarrow> None
                     | Some st \<Rightarrow> if ti_skip_table info then None else rs_rates (ws_rc st));
          r0 = ti_rates info ! 0;
          rate = (if bad_rate r0 then
                    (case ratetbl of
                       None \<Rightarrow> None
                     | Some tbl \<Rightarrow> if sint (se_idx (tbl ! 0)) < 0 then None
                         else Some \<lparr>tr_idx = se_idx (tbl ! 0), tr_count = ucast (se_count (tbl ! 0)),
                                    tr_flags = ucast (se_flags (tbl ! 0))\<rparr>)
                  else Some r0) in
      case rate of
        None \<Rightarrow> (TX_DROP, ma, tx, info)
      | Some r \<Rightarrow>
          let tx = tx\<lparr>tx_rate := r\<rparr>; ma = last_rate k before tx is_data ma in
          (TX_CONTINUE, ma, tx, if ratetbl \<noteq> None then info else rc_count info))"

definition ieee80211_tx_h_rate_ctrl ::
    "kernel \<Rightarrow> mac \<Rightarrow> tx_data \<Rightarrow> skb \<Rightarrow> fault + tx_result \<times> mac \<times> tx_data \<times> skb" where
  "ieee80211_tx_h_rate_ctrl k ma tx s =
     (let s = rc_prepare k ma tx s; sta = sta_of ma tx; sd = sdata_of ma tx;
          is_data = k_is_data k (frame_control s);
          assoc = (case sta of None \<Rightarrow> False | Some st \<Rightarrow> ws_assoc st) in
      if ma_sw_scanning ma \<and> assoc
         \<and> \<not> rate_usable_index_exists (ma_bands ma (ti_band (sk_info s))) (ws_rc (the sta)) then
        Inr (TX_DROP, ma, tx, s)
      else
        fbind (rate_control_get_rate (k_get_rate k) (ma_hw ma) (si_rc sd)
                 (case sta of None \<Rightarrow> None | Some st \<Rightarrow> if ws_rate_control st then Some (ws_rc st) else None)
                 (ma_bands ma) is_data (sk_info s)) (\<lambda>info.
        let (res, ma, tx, info) = rc_finish k ma tx is_data (sk_info s) info in
        Inr (res, ma, tx, s\<lparr>sk_info := info\<rparr>)))"

section \<open>Sequence numbers and fragments\<close>

definition store_le16 :: "nat \<Rightarrow> u16 \<Rightarrow> skb \<Rightarrow> skb" where
  "store_le16 i v s = s\<lparr>sk_data := (sk_data s)[i := ucast v, i + 1 := ucast (drop_bit 8 v)]\<rparr>"

definition ieee80211_tx_h_sequence :: "kernel \<Rightarrow> mac \<Rightarrow> tx_data \<Rightarrow> skb \<Rightarrow> fault + mac \<times> skb" where
  \<comment> \<open>always TX_CONTINUE\<close>
  "ieee80211_tx_h_sequence k ma tx s =
     (let fc = frame_control s; sd = sdata_of ma tx; len = length (sk_data s);
          vif_type = (case ti_vif (sk_info s) of None \<Rightarrow> None | Some v \<Rightarrow> Some (si_type (ma_ifs ma ! v))) in
      if vif_type = None then Inl Null_deref
      else if vif_type = Some IF_MONITOR then Inr (ma, s)
      else if k_is_ctl k fc then Inr (ma, s)
      else if k_hdrlen k fc < 24 then Inr (ma, s)
      else if k_is_qos_nullfunc k fc then Inr (ma, s)
      else if \<not> k_is_data_qos k fc \<or> k_is_multicast k (addr1 s) then
        (if len < 24 then Inl (Write_past_end len 24)
         else Inr (upd_if (tx_sdata tx) (\<lambda>sd. sd\<lparr>si_sequence_number := si_sequence_number sd + 0x10\<rparr>) ma,
                   store_le16 22 (si_sequence_number sd) (set_flag TX_CTL_ASSIGN_SEQ s)))
      else case tx_sta tx of
        None \<Rightarrow> Inr (ma, s)
      | Some n \<Rightarrow>
          if len < k_qos_ctl_at k fc + 1 then Inl (Read_past_end len (k_qos_ctl_at k fc + 1))
          else if len < 24 then Inl (Write_past_end len 24)
          else let tid = unat (sk_data s ! k_qos_ctl_at k fc AND 0x0F);
                   seq = ws_tid_seq (ma_stas ma ! n) ! tid in
          Inr (upd_sta n (\<lambda>st. st\<lparr>ws_tid_seq := (ws_tid_seq st)[tid := (seq + 0x10) AND 0xFFF0]\<rparr>) ma,
               store_le16 22 seq s))"

text \<open>
  The loop that cuts the fragments behind the first: \<open>pos\<close> and \<open>rem\<close> as in the code, the number
  of the fragment, and the fragments. Without room for data in a fragment the loop would not end.
\<close>

function fragment_loop :: "kernel \<Rightarrow> skb \<Rightarrow> nat \<Rightarrow> nat \<Rightarrow> nat \<Rightarrow> nat \<Rightarrow> nat \<Rightarrow> skb list option" where
  "fragment_loop k s hdrlen per_fragm pos rem n =
     (if rem = 0 \<or> per_fragm = 0 then Some []
      else if \<not> k_alloc k n then None
      else let fraglen = min per_fragm rem; rem = rem - fraglen;
               info = (sk_info s)\<lparr>ti_flags := unset_bit TX_CTL_CLEAR_PS_FILT
                         (unset_bit TX_CTL_FIRST_FRAGMENT (ti_flags (sk_info s)))\<rparr>;
               info = (if rem \<noteq> 0 then info\<lparr>ti_flags := set_bit TX_CTL_MORE_FRAMES (ti_flags info)\<rparr> else info);
               tmp = \<lparr>sk_data = take hdrlen (sk_data s) @ take fraglen (drop pos (sk_data s)), sk_info = info,
                      sk_protocol = 0, sk_queue = sk_queue s\<rparr> in
           map_option ((#) tmp) (fragment_loop k s hdrlen per_fragm (pos + fraglen) rem (n + 1)))"
  by pat_completeness auto
termination
  by (relation "measure (\<lambda>(k, s, hdrlen, per_fragm, pos, rem, n). rem)") auto

declare fragment_loop.simps [simp del]

datatype fragmented = Frag_error | Frag_list "skb list"

definition ieee80211_fragment :: "kernel \<Rightarrow> skb \<Rightarrow> nat \<Rightarrow> nat \<Rightarrow> fault + fragmented" where
  \<comment> \<open>a threshold that leaves no room for data makes the loop endless\<close>
  "ieee80211_fragment k s hdrlen frag_threshold =
     (let per_fragm = int frag_threshold - int hdrlen - 4;
          rem = int (length (sk_data s)) - int hdrlen - per_fragm in
      if rem < 0 then Inr Frag_error
      else if rem = 0 then Inr (Frag_list [s])
      else if per_fragm \<le> 0 then Inl Abort
      else let pos = hdrlen + nat per_fragm in
        Inr (case fragment_loop k s hdrlen (nat per_fragm) pos (nat rem) 0 of
               None \<Rightarrow> Frag_error
             | Some fs \<Rightarrow> Frag_list (s\<lparr>sk_data := take pos (sk_data s)\<rparr> # fs)))"

abbreviation (input) "FCTL_MOREFRAGS \<equiv> (0x0400 :: u16)"
abbreviation (input) "SCTL_FRAG \<equiv> (0x000F :: u16)"

definition mark_fragment :: "bool \<Rightarrow> nat \<Rightarrow> skb \<Rightarrow> skb" where
  "mark_fragment is_last fragnum s =
     (let fc = frame_control s; seq = get_le16 (sk_data s) 22;
          s = (if \<not> is_last then
                 upd_info (\<lambda>i. i\<lparr>ti_rates := map2 (\<lambda>j r. if j \<in> {1, 2, 3} then r\<lparr>tr_idx := - 1\<rparr> else r)
                                               [0..<length (ti_rates i)] (ti_rates i)\<rparr>)
                   (clear_flag TX_CTL_RATE_CTRL_PROBE (store_le16 0 (fc OR FCTL_MOREFRAGS) s))
               else store_le16 0 (fc AND NOT FCTL_MOREFRAGS) s) in
      store_le16 22 (seq OR (of_nat fragnum AND SCTL_FRAG)) s)"

fun mark_fragments :: "nat \<Rightarrow> skb list \<Rightarrow> skb list" where
  "mark_fragments n [] = []"
| "mark_fragments n (s # ss) = mark_fragment (ss = []) n s # mark_fragments (n + 1) ss"

definition ieee80211_tx_h_fragment :: "kernel \<Rightarrow> mac \<Rightarrow> skb \<Rightarrow> fault + tx_result \<times> skb list" where
  "ieee80211_tx_h_fragment k ma s =
     (let threshold = ma_frag_threshold ma; hdrlen = k_hdrlen k (frame_control s) in
      if flag s TX_CTL_DONTFRAG then Inr (TX_CONTINUE, [s])
      else if ma_set_frag_threshold ma then Inr (TX_CONTINUE, [s])
      else if flag s TX_CTL_AMPDU then Inr (TX_DROP, [s])
      else if length (sk_data s) + FCS_LEN \<le> threshold then Inr (TX_DROP, [s])
      else fbind (ieee80211_fragment k s hdrlen threshold) (\<lambda>r.
        case r of
          Frag_error \<Rightarrow> Inr (TX_DROP, [s])
        | Frag_list fs \<Rightarrow>
            (case find (\<lambda>f. length (sk_data f) < 24) fs of
               Some f \<Rightarrow> Inl (Write_past_end (length (sk_data f)) 24)
             | None \<Rightarrow> Inr (TX_CONTINUE, mark_fragments 0 fs))))"

section \<open>Statistics, encryption and duration\<close>

definition count_fragment :: "wsta \<Rightarrow> skb \<Rightarrow> wsta" where
  "count_fragment st s =
     st\<lparr>ws_tx_fragments := ws_tx_fragments st + 1,
        ws_tx_bytes := (ws_tx_bytes st)[sk_queue s := ws_tx_bytes st ! sk_queue s + length (sk_data s)]\<rparr>"

definition count_packet :: "skb list \<Rightarrow> wsta \<Rightarrow> wsta" where
  "count_packet ss st =
     (if ss = [] then st
      else let ac = sk_queue (last ss) in st\<lparr>ws_tx_packets := (ws_tx_packets st)[ac := ws_tx_packets st ! ac + 1]\<rparr>)"

definition ieee80211_tx_h_stats :: "mac \<Rightarrow> tx_data \<Rightarrow> skb list \<Rightarrow> mac" where
  "ieee80211_tx_h_stats ma tx ss =
     (case tx_sta tx of
        None \<Rightarrow> ma
      | Some n \<Rightarrow> upd_sta n (\<lambda>st. count_packet ss (foldl count_fragment st ss)) ma)"

definition ieee80211_tx_h_encrypt :: "kernel \<Rightarrow> mac \<Rightarrow> tx_data \<Rightarrow> skb list \<Rightarrow> tx_result \<times> skb list" where
  "ieee80211_tx_h_encrypt k ma tx ss =
     (case tx_key tx of
        None \<Rightarrow> (TX_CONTINUE, ss)
      | Some n \<Rightarrow> k_encrypt k (ma_keys ma ! n) ss)"

text \<open>The loop over the rates: the last basic rate and the last mandatory rate not above the rate of the frame.\<close>

definition div_round_up :: "nat \<Rightarrow> nat \<Rightarrow> nat" where
  "div_round_up a b = (a + b - 1) div b"

definition mandatory :: "sub_if \<Rightarrow> nat \<Rightarrow> ieee80211_rate \<Rightarrow> bool" where
  \<comment> \<open>\<open>IEEE80211_RATE_MANDATORY_A\<close>, \<open>_B\<close> and \<open>_G\<close> are bits 1 to 3\<close>
  "mandatory sd band r \<longleftrightarrow>
     (if band = 0 then bit (br_flags r) (if si_operating_gmode sd then 3 else 2)
      else band = 1 \<and> bit (br_flags r) 1)"

fun duration_loop ::
    "sub_if \<Rightarrow> nat \<Rightarrow> u32 \<Rightarrow> nat \<Rightarrow> nat \<Rightarrow> (nat \<times> ieee80211_rate) list \<Rightarrow> nat option \<Rightarrow> nat \<Rightarrow> nat option \<times> nat" where
  "duration_loop sd band rate_flags shift data [] rate mrate = (rate, mrate)"
| "duration_loop sd band rate_flags shift data ((i, r) # rs) rate mrate =
     (if br_bitrate r > data then (rate, mrate)
      else if rate_flags AND br_flags r \<noteq> rate_flags then duration_loop sd band rate_flags shift data rs rate mrate
      else duration_loop sd band rate_flags shift data rs
             (if bit (rv_basic_rates (si_rc sd)) i then Some (div_round_up (br_bitrate r) (2 ^ shift)) else rate)
             (if mandatory sd band r then br_bitrate r else mrate))"

definition ieee80211_duration :: "kernel \<Rightarrow> mac \<Rightarrow> tx_data \<Rightarrow> skb \<Rightarrow> bool \<Rightarrow> nat \<Rightarrow> fault + u16" where
  "ieee80211_duration k ma tx s group_addr next_len =
     (let sd = sdata_of ma tx; sb = ma_bands ma (ti_band (sk_info s)); fc = frame_control s;
          (shift, rate_flags) = (case si_chanctx sd of None \<Rightarrow> (0, 0) | Some c \<Rightarrow> (cd_shift c, cd_rate_flags c)) in
      if bit (tr_flags (tx_rate tx)) TX_RC_MCS then Inr 0
      else if bad_rate (tx_rate tx) then Inr 0
      else
        fbind (rate_at sb (sint (tr_idx (tx_rate tx)))) (\<lambda>txrate.
        if k_is_ctl k fc \<or> group_addr then Inr 0
        else
        let erp = bit (br_flags txrate) RATE_ERP_G;
            (rate, mrate) = duration_loop sd (sb_band sb) rate_flags shift (br_bitrate txrate)
              (enumerate 0 (sb_rates sb)) None (br_bitrate (sb_rates sb ! 0));
            r = (case rate of Some r \<Rightarrow> r | None \<Rightarrow> div_round_up mrate (2 ^ shift));
            at = k_qos_ctl_at k fc in
        if k_is_data_qos k fc \<and> length (sk_data s) < at + 1 then Inl (Read_past_end (length (sk_data s)) (at + 1))
        else
          let dur = (if k_is_data_qos k fc \<and> sk_data s ! at AND 0x20 \<noteq> 0 then 0
                     else k_frame_duration k (sb_band sb) 10 r erp (si_use_short_preamble sd) shift);
              dur = (if next_len \<noteq> 0
                     then dur * 2 + k_frame_duration k (sb_band sb) next_len (br_bitrate txrate) erp (si_use_short_preamble sd) shift
                     else dur) in
          Inr (of_nat dur)))"

fun ieee80211_tx_h_calculate_duration :: "kernel \<Rightarrow> mac \<Rightarrow> tx_data \<Rightarrow> skb list \<Rightarrow> fault + skb list" where
  "ieee80211_tx_h_calculate_duration k ma tx [] = Inr []"
| "ieee80211_tx_h_calculate_duration k ma tx (s # ss) =
     (if k_is_pspoll k (frame_control s) then Inr (s # ss)
      else fbind (ieee80211_duration k ma tx s (k_is_multicast k (addr1 s))
                    (case ss of [] \<Rightarrow> 0 | s' # _ \<Rightarrow> length (sk_data s'))) (\<lambda>d.
           fbind (ieee80211_tx_h_calculate_duration k ma tx ss) (\<lambda>ss.
           Inr (store_le16 2 d s # ss))))"

section \<open>The handlers in order\<close>

text \<open>
  \<open>invoke_tx_handlers\<close>: \<open>Some\<close> fragments to send for the return value 0, \<open>None\<close> when the frame
  was dropped or queued. \<open>ieee80211_tx_h_dynamic_ps\<close>, which comes first, may stop the queues and start a
  timer, and always continues.
\<close>

definition handlers_after_rate ::
    "kernel \<Rightarrow> mac \<Rightarrow> tx_data \<Rightarrow> skb \<Rightarrow> fault + mac \<times> tx_data \<times> skb list option" where
  "handlers_after_rate k ma tx s =
     (if flag s TX_INTFL_RETRANSMISSION then Inr (ma, tx, Some [s])
      else let (res, s) = k_michael_mic_add k (map_option (\<lambda>n. ma_keys ma ! n) (tx_key tx)) s in
      if res \<noteq> TX_CONTINUE then Inr (ma, tx, None)
      else fbind (ieee80211_tx_h_sequence k ma tx s) (\<lambda>(ma, s).
           fbind (ieee80211_tx_h_fragment k ma s) (\<lambda>(res, ss).
           if res \<noteq> TX_CONTINUE then Inr (ma, tx, None)
           else let ma = ieee80211_tx_h_stats ma tx ss;
                    (res, ss) = ieee80211_tx_h_encrypt k ma tx ss in
           if res \<noteq> TX_CONTINUE then Inr (ma, tx, None)
           else if hw ma HW_HAS_RATE_CONTROL then Inr (ma, tx, Some ss)
           else fbind (ieee80211_tx_h_calculate_duration k ma tx ss) (\<lambda>ss. Inr (ma, tx, Some ss)))))"

definition invoke_tx_handlers ::
    "kernel \<Rightarrow> mac \<Rightarrow> tx_data \<Rightarrow> skb \<Rightarrow> fault + mac \<times> tx_data \<times> skb list option" where
  "invoke_tx_handlers k ma tx s =
     (let ma = ieee80211_tx_h_dynamic_ps k ma tx s in
      if ieee80211_tx_h_check_assoc k ma tx s \<noteq> TX_CONTINUE then Inr (ma, tx, None)
      else let (res, ma, s) = ieee80211_tx_h_ps_buf k ma tx s in
      if res \<noteq> TX_CONTINUE then Inr (ma, tx, None)
      else let s = ieee80211_tx_h_check_control_port_protocol ma tx s;
               (res, ma, tx, s) = ieee80211_tx_h_select_key k ma tx s in
      if res \<noteq> TX_CONTINUE then Inr (ma, tx, None)
      else fbind (if \<not> hw ma HW_HAS_RATE_CONTROL \<and> \<not> flag s TX_CTL_RC_BYPASS
                  then ieee80211_tx_h_rate_ctrl k ma tx s else Inr (TX_CONTINUE, ma, tx, s)) (\<lambda>(res, ma, tx, s).
      if res \<noteq> TX_CONTINUE then Inr (ma, tx, None)
      else handlers_after_rate k ma tx s))"

section \<open>Preparation and the queues of the driver\<close>

definition ieee80211_tx_prep_agg :: "mac \<Rightarrow> nat \<Rightarrow> nat \<Rightarrow> nat \<Rightarrow> tid_ampdu \<Rightarrow> nat \<Rightarrow> skb \<Rightarrow> bool \<times> mac \<times> skb" where
  \<comment> \<open>the second look at the session, under the lock, finds what the first one found\<close>
  "ieee80211_tx_prep_agg ma sta_max sdata n t tid s =
     (if ta_operational t then (False, ma, set_flag TX_CTL_AMPDU s)
      else if ta_want_start t then (False, ma, s)
      else let s' = clear_temporary (set_flag TX_INTFL_NEED_TXPROCESSING (upd_info (\<lambda>i. i\<lparr>ti_vif := Some sdata\<rparr>) s));
               p = ta_pending t @ [s'];
               p = (if length p > sta_max then tl p else p) in
           (True, upd_sta n (\<lambda>st. st\<lparr>ws_tid_tx := (ws_tid_tx st)[tid := Some (t\<lparr>ta_pending := p\<rparr>)]\<rparr>) ma, s'))"

definition tx_sta_of :: "kernel \<Rightarrow> mac \<Rightarrow> nat \<Rightarrow> skb \<Rightarrow> nat option option" where
  \<comment> \<open>the station of a frame; the outer \<open>None\<close> drops the frame\<close>
  "tx_sta_of k ma sdata s =
     (let sd = ma_ifs ma ! sdata in
      if si_type sd = IF_AP_VLAN then
        (if si_vlan_sta sd = None \<and> si_use_4addr sd then None
         else Some (case si_vlan_sta sd of Some n \<Rightarrow> Some n | None \<Rightarrow> k_sta_info_get k ma sdata (addr1 s)))
      else
        let first = (if flag s TX_CTL_INJECTED \<or> flag s TX_INTFL_NL80211_FRAME_TX
                        \<or> si_control_port_protocol sd = sk_protocol s
                     then k_sta_info_get_bss k ma sdata (addr1 s) else None) in
        Some (case first of Some n \<Rightarrow> Some n | None \<Rightarrow> k_sta_info_get k ma sdata (addr1 s)))"

definition prep_ampdu :: "kernel \<Rightarrow> mac \<Rightarrow> nat \<Rightarrow> nat option \<Rightarrow> skb \<Rightarrow> fault + bool \<times> mac \<times> skb" where
  \<comment> \<open>whether the frame was queued for an aggregation session\<close>
  "prep_ampdu k ma sdata sta s =
     (let fc = frame_control s; at = k_qos_ctl_at k fc in
      case sta of None \<Rightarrow> Inr (False, ma, s)
      | Some n \<Rightarrow>
          if k_is_data_qos k fc \<and> \<not> k_is_qos_nullfunc k fc
             \<and> hw ma HW_AMPDU_AGGREGATION \<and> \<not> hw ma HW_TX_AMPDU_SETUP_IN_HW then
            (if length (sk_data s) < at + 1 then Inl (Read_past_end (length (sk_data s)) (at + 1))
             else let tid = unat (sk_data s ! at AND 0x0F) in
               case ws_tid_tx (ma_stas ma ! n) ! tid of
                 None \<Rightarrow> Inr (False, ma, s)
               | Some t \<Rightarrow> Inr (ieee80211_tx_prep_agg ma (k_sta_max_tx_buffer k) sdata n t tid s))
          else Inr (False, ma, s))"

definition prep_ack_frag :: "kernel \<Rightarrow> mac \<Rightarrow> skb \<Rightarrow> skb" where
  "prep_ack_frag k ma s =
     (let mcast = k_is_multicast k (addr1 s);
          s = (if mcast then set_flag TX_CTL_NO_ACK s else s) in
      if \<not> flag s TX_CTL_DONTFRAG
         \<and> (mcast \<or> length (sk_data s) + FCS_LEN \<le> ma_frag_threshold ma \<or> flag s TX_CTL_AMPDU)
      then set_flag TX_CTL_DONTFRAG s else s)"

definition take_ps_filter :: "mac \<Rightarrow> nat option \<Rightarrow> bool \<times> mac" where
  \<comment> \<open>whether the filter of the receiver is to be cleared; the flag of the station is reset\<close>
  "take_ps_filter ma sta =
     (case sta of
        None \<Rightarrow> (True, ma)
      | Some n \<Rightarrow>
          if ws_clear_ps_filt (ma_stas ma ! n) then (True, upd_sta n (\<lambda>st. st\<lparr>ws_clear_ps_filt := False\<rparr>) ma)
          else (False, ma))"

definition prep_flags :: "kernel \<Rightarrow> mac \<Rightarrow> nat option \<Rightarrow> skb \<Rightarrow> mac \<times> skb" where
  "prep_flags k ma sta s =
     (let s = prep_ack_frag k ma s; (c, ma) = take_ps_filter ma sta in
      (ma, set_flag TX_CTL_FIRST_FRAGMENT (if c then set_flag TX_CTL_CLEAR_PS_FILT s else s)))"

definition ieee80211_tx_prepare ::
    "kernel \<Rightarrow> mac \<Rightarrow> nat \<Rightarrow> skb \<Rightarrow> fault + tx_result \<times> mac \<times> tx_data \<times> skb" where
  "ieee80211_tx_prepare k ma sdata s =
     (let s = clear_flag TX_INTFL_NEED_TXPROCESSING s;
          tx = \<lparr>tx_sdata = sdata, tx_sta = None, tx_key = None,
                tx_rate = \<lparr>tr_idx = 0, tr_count = 0, tr_flags = 0\<rparr>, tx_unicast = False, tx_ps_buffered = False\<rparr> in
      case tx_sta_of k ma sdata s of
        None \<Rightarrow> Inr (TX_DROP, ma, tx, s)
      | Some sta \<Rightarrow>
          let tx = tx\<lparr>tx_sta := sta\<rparr> in
          fbind (prep_ampdu k ma sdata sta s) (\<lambda>(queued, ma, s).
          if queued then Inr (TX_QUEUED, ma, tx, s)
          else let (ma, s') = prep_flags k ma sta s in
            Inr (TX_CONTINUE, ma, tx\<lparr>tx_unicast := \<not> k_is_multicast k (addr1 s)\<rparr>, s')))"

abbreviation (input) "TX_INTFL_OFFCHAN_TX_OK \<equiv> (13 :: nat)"

definition drv_tx :: "nat option \<Rightarrow> nat option \<Rightarrow> skb \<Rightarrow> mac \<Rightarrow> mac" where
  "drv_tx vif sta s ma =
     ma\<lparr>ma_driver := ma_driver ma @ [(vif, sta, upd_info (\<lambda>i. i\<lparr>ti_vif := vif\<rparr>) s)]\<rparr>"

fun ieee80211_tx_frags :: "kernel \<Rightarrow> nat option \<Rightarrow> nat option \<Rightarrow> bool \<Rightarrow> skb list \<Rightarrow> mac \<Rightarrow> bool \<times> mac" where
  "ieee80211_tx_frags k vif sta txpending [] ma = (True, ma)"
| "ieee80211_tx_frags k vif sta txpending (s # ss) ma =
     (let q = ti_hw_queue (sk_info s); reasons = ma_stop_reasons ma ! q; pending = ma_pending ma ! q;
          stopped = (reasons \<noteq> 0 \<or> (\<not> txpending \<and> pending \<noteq> [])) in
      if stopped \<and> \<not> flag s TX_INTFL_OFFCHAN_TX_OK then
        (False, ma\<lparr>ma_pending := (ma_pending ma)[q := if txpending then (s # ss) @ pending else pending @ (s # ss)]\<rparr>)
      else if stopped \<and> unset_bit (k_reason_offchannel k) reasons \<noteq> 0 then (True, ma)
      else ieee80211_tx_frags k vif sta txpending ss (drv_tx vif sta s ma))"

definition tx_frags_all :: "kernel \<Rightarrow> mac \<Rightarrow> tx_data \<Rightarrow> skb list \<Rightarrow> bool \<Rightarrow> bool \<times> mac" where
  \<comment> \<open>\<open>__ieee80211_tx\<close>: the interface that the driver is told\<close>
  "tx_frags_all k ma tx ss txpending =
     (case ss of
        [] \<Rightarrow> (True, ma)
      | s # rest \<Rightarrow>
          let sta = (case tx_sta tx of None \<Rightarrow> None | Some n \<Rightarrow> if ws_uploaded (ma_stas ma ! n) then Some n else None);
              n = (case ti_vif (sk_info s) of None \<Rightarrow> tx_sdata tx | Some v \<Rightarrow> v); sd = ma_ifs ma ! n in
          if si_type sd = IF_MONITOR \<and> \<not> si_monitor_active sd then
            (case ma_monitor_sdata ma of
               Some m \<Rightarrow>
                 ieee80211_tx_frags k (Some m) sta txpending
                   (upd_info (\<lambda>i. i\<lparr>ti_hw_queue := si_hw_queue (ma_ifs ma ! m) ! sk_queue s\<rparr>) s # rest) ma
             | None \<Rightarrow>
                 if hw ma HW_QUEUE_CONTROL then (True, ma)
                 else ieee80211_tx_frags k None sta txpending ss ma)
          else if si_type sd = IF_AP_VLAN then ieee80211_tx_frags k (si_bss sd) sta txpending ss ma
          else ieee80211_tx_frags k (Some n) sta txpending ss ma)"

definition ieee80211_tx :: "kernel \<Rightarrow> mac \<Rightarrow> nat \<Rightarrow> skb \<Rightarrow> bool \<Rightarrow> nat \<Rightarrow> fault + bool \<times> mac" where
  "ieee80211_tx k ma sdata s txpending band =
     (if length (sk_data s) < 10 then Inr (True, ma)
      else fbind (ieee80211_tx_prepare k ma sdata s) (\<lambda>(res, ma, tx, s).
      if res \<noteq> TX_CONTINUE then Inr (True, ma)
      else
        let s = upd_info (\<lambda>i. i\<lparr>ti_band := band\<rparr>) s;
            s = (if \<not> flag s TX_CTL_TX_OFFCHAN \<or> \<not> hw ma HW_QUEUE_CONTROL
                 then upd_info (\<lambda>i. i\<lparr>ti_hw_queue := si_hw_queue (ma_ifs ma ! sdata) ! sk_queue s\<rparr>) s else s) in
        fbind (invoke_tx_handlers k ma tx s) (\<lambda>(ma, tx, out).
        case out of
          None \<Rightarrow> Inr (True, ma)
        | Some ss \<Rightarrow> Inr (tx_frags_all k ma tx ss txpending))))"

definition ieee80211_xmit :: "kernel \<Rightarrow> mac \<Rightarrow> nat \<Rightarrow> skb \<Rightarrow> nat \<Rightarrow> fault + mac" where
  "ieee80211_xmit k ma sdata s band =
     (if \<not> k_resize_ok k then Inr ma
      else
        let sd = ma_ifs ma ! sdata;
            s = upd_info (\<lambda>i. i\<lparr>ti_vif := Some sdata\<rparr>) s;
            m = (if si_type sd = IF_MESH_POINT then
                   (if k_is_data k (frame_control s) \<and> \<not> k_is_multicast k (addr1 s)
                    then k_mesh_nexthop_resolve k ma sdata s else Some (k_mps_set_frame_flags k ma sdata s))
                 else Some s) in
        case m of
          None \<Rightarrow> Inr ma
        | Some s \<Rightarrow> fbind (ieee80211_tx k ma sdata (k_set_qos_hdr k ma sdata s) False band) (\<lambda>(r, ma). Inr ma))"

section \<open>Fragments\<close>

lemma get_le16_store [simp]:
  assumes "i + 1 < length (sk_data s)"
  shows "get_le16 (sk_data (store_le16 i v s)) i = v"
  using assms by (simp add: store_le16_def get_le16_def join16)

lemma get_le16_store_other:
  assumes "j \<noteq> i" and "j + 1 \<noteq> i" and "j \<noteq> i + 1"
  shows "get_le16 (sk_data (store_le16 i v s)) j = get_le16 (sk_data s) j"
  using assms by (simp add: store_le16_def get_le16_def nth_list_update)

lemma length_store_le16 [simp]: "length (sk_data (store_le16 i v s)) = length (sk_data s)"
  by (simp add: store_le16_def)

lemma drop_store_le16 [simp]: "i + 1 < h \<Longrightarrow> drop h (sk_data (store_le16 i v s)) = drop h (sk_data s)"
  by (simp add: store_le16_def drop_update_cancel)

lemma sk_data_flags [simp]:
  "sk_data (upd_info f s) = sk_data s" "sk_data (set_flag k s) = sk_data s" "sk_data (clear_flag k s) = sk_data s"
  "sk_data (clear_temporary s) = sk_data s"
  by (simp_all add: upd_info_def set_flag_def clear_flag_def clear_temporary_def temporary_flags_def)

lemma mark_fragment_data:
  assumes "24 \<le> length (sk_data s)" and "24 \<le> h"
  shows "length (sk_data (mark_fragment l n s)) = length (sk_data s)
    \<and> drop h (sk_data (mark_fragment l n s)) = drop h (sk_data s)
    \<and> frame_control (mark_fragment l n s)
        = (if l then frame_control s AND NOT FCTL_MOREFRAGS else frame_control s OR FCTL_MOREFRAGS)
    \<and> get_le16 (sk_data (mark_fragment l n s)) 22 = get_le16 (sk_data s) 22 OR (of_nat n AND SCTL_FRAG)"
proof -
  have a: "(0 :: nat) + 1 < length (sk_data s)" "(22 :: nat) + 1 < length (sk_data s)" using assms by simp_all
  show ?thesis using assms a
    by (simp add: mark_fragment_def frame_control_def Let_def get_le16_store_other)
qed

lemma mark_fragments_nth:
  "i < length ss \<Longrightarrow> mark_fragments n ss ! i = mark_fragment (i + 1 = length ss) (n + i) (ss ! i)"
  by (induction ss arbitrary: n i) (auto simp: nth_Cons split: nat.split)

lemma length_mark_fragments [simp]: "length (mark_fragments n ss) = length ss"
  by (induction ss arbitrary: n) simp_all

lemma mark_fragments_payload:
  assumes "\<forall>s \<in> set ss. 24 \<le> length (sk_data s)" and "24 \<le> h"
  shows "map (\<lambda>f. drop h (sk_data f)) (mark_fragments n ss) = map (\<lambda>f. drop h (sk_data f)) ss"
  using assms by (induction ss arbitrary: n) (simp_all add: mark_fragment_data)

lemma fragment_loop_correct:
  assumes "0 < per_fragm" and "pos + rem = length (sk_data s)" and "hdrlen \<le> pos" and "\<forall>n. k_alloc k n"
  shows "\<exists>fs. fragment_loop k s hdrlen per_fragm pos rem n = Some fs
    \<and> concat (map (\<lambda>f. drop hdrlen (sk_data f)) fs) = drop pos (sk_data s)
    \<and> (\<forall>f \<in> set fs. take hdrlen (sk_data f) = take hdrlen (sk_data s)
         \<and> hdrlen < length (sk_data f) \<and> length (sk_data f) \<le> hdrlen + per_fragm)"
  using assms
proof (induction rem arbitrary: pos n rule: less_induct)
  case (less rem)
  show ?case
  proof (cases "rem = 0")
    case True
    then show ?thesis using less.prems by (subst fragment_loop.simps) simp
  next
    case False
    let ?l = "min per_fragm rem"
    have l: "0 < ?l" "?l \<le> rem" using False less.prems(1) by simp_all
    have "rem - ?l < rem" "pos + ?l + (rem - ?l) = length (sk_data s)" "hdrlen \<le> pos + ?l"
      using l less.prems by simp_all
    from less.IH [OF this(1) less.prems(1) this(2,3) less.prems(4), of "n + 1"]
    obtain fs where fs: "fragment_loop k s hdrlen per_fragm (pos + ?l) (rem - ?l) (n + 1) = Some fs"
      "concat (map (\<lambda>f. drop hdrlen (sk_data f)) fs) = drop (pos + ?l) (sk_data s)"
      "\<forall>f \<in> set fs. take hdrlen (sk_data f) = take hdrlen (sk_data s)
         \<and> hdrlen < length (sk_data f) \<and> length (sk_data f) \<le> hdrlen + per_fragm" by blast
    let ?d = "take hdrlen (sk_data s) @ take ?l (drop pos (sk_data s))"
    have "\<exists>tmp. fragment_loop k s hdrlen per_fragm pos rem n = Some (tmp # fs) \<and> sk_data tmp = ?d"
      using fs(1) False less.prems(1,4) by (subst fragment_loop.simps) (simp add: Let_def)
    then obtain tmp where tmp: "fragment_loop k s hdrlen per_fragm pos rem n = Some (tmp # fs)" "sk_data tmp = ?d" by blast
    have h: "hdrlen \<le> length (sk_data s)" "?l \<le> length (drop pos (sk_data s))" using less.prems l by simp_all
    have "drop hdrlen ?d = take ?l (drop pos (sk_data s))" "take hdrlen ?d = take hdrlen (sk_data s)"
      "length ?d = hdrlen + ?l" using h by simp_all
    moreover have "take ?l (drop pos (sk_data s)) @ drop (pos + ?l) (sk_data s) = drop pos (sk_data s)"
      by (metis append_take_drop_id drop_drop add.commute)
    ultimately show ?thesis using tmp fs(2,3) l by (intro exI [of _ "tmp # fs"]) simp
  qed
qed

text \<open>
  C24: fragments reassemble. If the threshold leaves room for data and memory is found, a long
  frame is cut into fragments none of which exceeds the threshold; the data behind their
  headers is, in order, the data of the frame; all but the last announce more fragments, and
  each carries the sequence number of the frame with its own fragment number.
\<close>

theorem fragments_reassemble:
  assumes "\<not> flag s TX_CTL_DONTFRAG" and "\<not> flag s TX_CTL_AMPDU" and "\<not> ma_set_frag_threshold ma"
    and "h = k_hdrlen k (frame_control s)" and "24 \<le> h" and "h + 4 < ma_frag_threshold ma"
    and "ma_frag_threshold ma < length (sk_data s) + 4" and "\<forall>n. k_alloc k n"
  shows "\<exists>fs. ieee80211_tx_h_fragment k ma s = Inr (TX_CONTINUE, fs)
    \<and> concat (map (\<lambda>f. drop h (sk_data f)) fs) = drop h (sk_data s)
    \<and> (\<forall>i < length fs. length (sk_data (fs ! i)) + 4 \<le> ma_frag_threshold ma
         \<and> frame_control (fs ! i) = (if i + 1 = length fs then frame_control s AND NOT FCTL_MOREFRAGS
                                     else frame_control s OR FCTL_MOREFRAGS)
         \<and> get_le16 (sk_data (fs ! i)) 22 = get_le16 (sk_data s) 22 OR (of_nat i AND SCTL_FRAG))"
proof -
  let ?t = "ma_frag_threshold ma" and ?d = "sk_data s"
  define p where "p = ?t - h - 4"
  define rem where "rem = length ?d - h - p"
  have p: "int ?t - int h - 4 = int p" "0 < p" using assms(6) by (simp_all add: p_def)
  let ?pos = "h + p"
  have rem: "int (length ?d) - int h - int p = int rem" "0 < rem" "?pos + rem = length ?d"
    using assms(6,7) by (simp_all add: p_def rem_def)
  obtain fs where fs: "fragment_loop k s h p ?pos rem 0 = Some fs"
    "concat (map (\<lambda>f. drop h (sk_data f)) fs) = drop ?pos ?d"
    "\<forall>f \<in> set fs. take h (sk_data f) = take h ?d \<and> h < length (sk_data f) \<and> length (sk_data f) \<le> h + p"
    using fragment_loop_correct [OF p(2) rem(3) _ assms(8), of h 0] by auto
  let ?first = "s\<lparr>sk_data := take ?pos ?d\<rparr>"
  let ?fs = "?first # fs"
  have frag: "ieee80211_fragment k s h ?t = Inr (Frag_list ?fs)"
    unfolding ieee80211_fragment_def Let_def p(1) rem(1) using rem(2) p(2) fs(1) by (simp add: nat_add_distrib)
  have all: "\<forall>f \<in> set ?fs. take h (sk_data f) = take h ?d \<and> h < length (sk_data f) \<and> length (sk_data f) \<le> h + p"
    using fs(3) rem p(2) by (auto simp: min_def)
  then have long: "\<forall>f \<in> set ?fs. 24 \<le> length (sk_data f)" using assms(5) by (meson le_trans less_imp_le_nat)
  have "find (\<lambda>f. length (sk_data f) < 24) ?fs = None" using long by (auto simp: find_None_iff not_less)
  then have run: "ieee80211_tx_h_fragment k ma s = Inr (TX_CONTINUE, mark_fragments 0 ?fs)"
    using assms(1-3,7) frag unfolding ieee80211_tx_h_fragment_def Let_def assms(4) [symmetric] by (simp del: find.simps)
  have data: "concat (map (\<lambda>f. drop h (sk_data f)) (mark_fragments 0 ?fs)) = drop h ?d"
    unfolding mark_fragments_payload [OF long assms(5)] using fs(2) by (simp add: drop_take) (metis add.commute append_take_drop_id drop_drop)
  have same: "get_le16 (sk_data f) 0 = get_le16 ?d 0 \<and> get_le16 (sk_data f) 22 = get_le16 ?d 22" if "f \<in> set ?fs" for f
  proof -
    have "sk_data f ! j = ?d ! j" if j: "j < 24" for j
    proof -
      have "j < h" using j assms(5) by simp
      then show ?thesis using all \<open>f \<in> set ?fs\<close> by (metis nth_take)
    qed
    then show ?thesis by (simp add: get_le16_def)
  qed
  have "length (sk_data (mark_fragments 0 ?fs ! i)) + 4 \<le> ?t
         \<and> frame_control (mark_fragments 0 ?fs ! i) = (if i + 1 = length ?fs then frame_control s AND NOT FCTL_MOREFRAGS
                                     else frame_control s OR FCTL_MOREFRAGS)
         \<and> get_le16 (sk_data (mark_fragments 0 ?fs ! i)) 22 = get_le16 ?d 22 OR (of_nat i AND SCTL_FRAG)"
    if i: "i < length ?fs" for i
  proof -
    have m: "?fs ! i \<in> set ?fs" using i by (rule nth_mem)
    define f where "f = ?fs ! i"
    note m = m [folded f_def]
    have fc: "frame_control f = frame_control s" and sq: "get_le16 (sk_data f) 22 = get_le16 ?d 22"
      using same [OF m] by (simp_all add: frame_control_def)
    have "length (sk_data f) + 4 \<le> ?t" using bspec [OF all m] p(1) by linarith
    with mark_fragment_data [OF bspec [OF long m] assms(5), of "i + 1 = length ?fs" "0 + i"]
    show ?thesis unfolding mark_fragments_nth [OF i] f_def [symmetric] fc sq by simp
  qed
  with run data show ?thesis by (intro exI [of _ "mark_fragments 0 ?fs"]) simp
qed

section \<open>An example device\<close>

definition ex_set_qos_hdr :: "mac \<Rightarrow> nat \<Rightarrow> skb \<Rightarrow> skb" where
  \<comment> \<open>the QoS control field of a QoS data frame: the EOSP bit is kept, the priority is that of the access category\<close>
  "ex_set_qos_hdr ma n s =
     (if frame_control s AND 0x8C = 0x88
      then s\<lparr>sk_data := (sk_data s)[24 := (sk_data s ! 24 AND 0x10) OR word_of_nat (sk_queue s), 25 := 0]\<rparr> else s)"

definition ex_kernel :: kernel where
  "ex_kernel = \<lparr>k_hdrlen = (\<lambda>fc. if fc AND 0x0C = 4 then 16 else 24),
     k_is_mgmt = (\<lambda>fc. fc AND 0x0C = 0), k_is_ctl = (\<lambda>fc. fc AND 0x0C = 4), k_is_data = (\<lambda>fc. fc AND 0x0C = 8),
     k_is_data_qos = (\<lambda>fc. fc AND 0x8C = 0x88), k_is_data_present = (\<lambda>fc. fc AND 0x4C = 8),
     k_is_qos_nullfunc = (\<lambda>fc. fc AND 0xFC = 0xC8), k_is_nullfunc = (\<lambda>fc. fc AND 0xFC = 0x48),
     k_is_probe_req = (\<lambda>fc. fc AND 0xFC = 0x40),
     k_is_bufferable_mmpdu = (\<lambda>fc. fc AND 0xFC \<in> {0xD0, 0xA0, 0xC0}),
     k_is_deauth = (\<lambda>fc. fc AND 0xFC = 0xC0), k_is_action = (\<lambda>fc. fc AND 0xFC = 0xD0),
     k_is_pspoll = (\<lambda>fc. fc AND 0xFC = 0xA4), k_has_order = (\<lambda>fc. bit fc 15),
     k_is_robust_mgmt = (\<lambda>_. False), k_is_multicast = (\<lambda>a. a \<noteq> [] \<and> bit (a ! 0) 0), k_qos_ctl_at = (\<lambda>_. 24),
     k_frame_duration = (\<lambda>band len rate erp short shift. 100),
     k_sta_max_tx_buffer = 64, k_ap_max_bc_buffer = 128, k_total_max_tx_buffer = 512,
     k_get_rate = (\<lambda>i. i), k_reported_rate = (\<lambda>_. \<lparr>tr_idx = - 1, tr_count = 0, tr_flags = 0\<rparr>),
     k_alloc = (\<lambda>_. True), k_store_jiffies = (\<lambda>j rs. rs[0 := \<lparr>tr_idx = ucast j, tr_count = 0, tr_flags = 0\<rparr>]),
     k_michael_mic_add = (\<lambda>_ s. (TX_CONTINUE, s)), k_sta_info_get = (\<lambda>_ _ _. None), k_sta_info_get_bss = (\<lambda>_ _ _. None),
     k_stop_queues = map (set_bit 0), k_msecs_to_jiffies = (\<lambda>ms. word_of_int ((ms + 9) div 10)), k_reason_offchannel = 8, k_resize_ok = True, k_mesh_nexthop_resolve = (\<lambda>_ _ s. Some s),
     k_mps_set_frame_flags = (\<lambda>_ _ s. s), k_set_qos_hdr = ex_set_qos_hdr, k_encrypt = (\<lambda>_ ss. (TX_CONTINUE, ss))\<rparr>"

definition ex_if :: "nl80211_iftype \<Rightarrow> byte list \<Rightarrow> sub_if" where
  "ex_if t a = \<lparr>si_type = t, si_running = True, si_addr = a, si_bss = None, si_num_sta_ps = 0, si_bc_buf = [],
     si_num_mcast_sta = 0, si_vlan_sta = None, si_use_4addr = False, si_offchannel = False,
     si_control_port_protocol = 0x888E, si_control_port_no_encrypt = False, si_drop_unencrypted = False,
     si_default_mgmt_key = None, si_default_multicast_key = None, si_default_unicast_key = None,
     si_sequence_number = 0, si_rc = ex_vif, si_use_cts_prot = False, si_use_short_preamble = False,
     si_operating_gmode = True, si_cab_queue = 0, si_hw_queue = [0, 1, 2, 3], si_chanctx = None, si_monitor_active = False,
     si_uapsd_enabled = False, si_uapsd_voice = False, si_nullfunc_acked = False, si_associated = False\<rparr>"

definition ex_mac :: mac where
  "ex_mac = \<lparr>ma_hw = \<lparr>hw_flags = 0, hw_rate_flags = 0, hw_max_rate_tries = 4\<rparr>, ma_bands = (\<lambda>_. ex_band), ma_conf_band = 0,
     ma_frag_threshold = 256, ma_rts_threshold = 2347, ma_set_frag_threshold = False, ma_sw_scanning = False,
     ma_scanning = False, ma_ps_sdata = False, ma_quiescing = False, ma_conf_ps = False, ma_dynamic_ps_timeout = 0,
     ma_dynamic_ps_timer = None, ma_ps_disable_queued = False,
     ma_jiffies = 7, ma_total_ps_buffered = 0, ma_ifs = [ex_if IF_MONITOR [2, 0, 0, 0, 0, 1], ex_if IF_STATION [2, 0, 0, 0, 0, 2]],
     ma_stas = [], ma_keys = [], ma_monitor_sdata = None, ma_use_chanctx = False,
     ma_oper_chandef = \<lparr>cd_band = 0, cd_rate_flags = 0, cd_shift = 0\<rparr>,
     ma_stop_reasons = [0, 0, 0, 0], ma_pending = [[], [], [], []], ma_driver = []\<rparr>"

definition ex_sta :: wsta where
  "ex_sta = \<lparr>ws_addr = [2, 0, 0, 0, 0, 9], ws_sdata = 1, ws_assoc = True, ws_ps_sta = True, ws_ps_driver = False,
     ws_ps_deliver = False, ws_mfp = False, ws_short_preamble = False, ws_rate_control = False, ws_clear_ps_filt = False,
     ws_uploaded = True, ws_ptk = None, ws_rc = \<lparr>rs_supp_rates = (\<lambda>_. 0xfff), rs_rx_mask = replicate 10 0, rs_rates = None\<rparr>,
     ws_tid_seq = replicate 16 0, ws_tid_tx = replicate 16 None, ws_ps_tx_buf = replicate 4 [], ws_tx_fragments = 0,
     ws_tx_bytes = replicate 4 0, ws_tx_packets = replicate 4 0,
     ws_last_tx_rate = \<lparr>tr_idx = 0, tr_count = 0, tr_flags = 0\<rparr>\<rparr>"

definition ex_frame :: "nat \<Rightarrow> skb" where
  \<comment> \<open>a data frame with \<open>n\<close> octets behind its header\<close>
  "ex_frame n = \<lparr>sk_data = [8, 0, 0, 0] @ [2, 0, 0, 0, 0, 9] @ [2, 0, 0, 0, 0, 2] @ [2, 0, 0, 0, 0, 3] @ [0, 0] @ replicate n 0x55,
     sk_info = ex_info, sk_protocol = 0, sk_queue = 2\<rparr>"

lemma ex_frame_fc [simp]: "frame_control (ex_frame n) = 8" "length (sk_data (ex_frame n)) = 24 + n"
  by (simp_all add: ex_frame_def frame_control_def get_le16_def)

lemma fragments_reassemble_witness:
  "\<exists>fs. ieee80211_tx_h_fragment ex_kernel ex_mac (ex_frame 400) = Inr (TX_CONTINUE, fs)
    \<and> concat (map (\<lambda>f. drop 24 (sk_data f)) fs) = replicate 400 0x55"
proof -
  have "drop 24 (sk_data (ex_frame 400)) = replicate 400 0x55" by (simp add: ex_frame_def)
  then show ?thesis
    using fragments_reassemble [of "ex_frame 400" ex_mac 24 ex_kernel]
    by (auto simp: ex_kernel_def ex_mac_def flag_def ex_frame_def [of 400, THEN arg_cong [of _ _ sk_info]] ex_info_def)
qed

section \<open>The buffers stay bounded\<close>

definition sta_ok :: "kernel \<Rightarrow> wsta \<Rightarrow> bool" where
  "sta_ok k st \<longleftrightarrow> (\<forall>b \<in> set (ws_ps_tx_buf st). length b \<le> k_sta_max_tx_buffer k)
     \<and> (\<forall>t. Some t \<in> set (ws_tid_tx st) \<longrightarrow> length (ta_pending t) \<le> k_sta_max_tx_buffer k)"

definition if_ok :: "kernel \<Rightarrow> sub_if \<Rightarrow> bool" where
  "if_ok k sd \<longleftrightarrow> length (si_bc_buf sd) \<le> k_ap_max_bc_buffer k"

definition bounded :: "kernel \<Rightarrow> mac \<Rightarrow> bool" where
  "bounded k ma \<longleftrightarrow> (\<forall>st \<in> set (ma_stas ma). sta_ok k st) \<and> (\<forall>sd \<in> set (ma_ifs ma). if_ok k sd)"

lemma list_update_all:
  assumes "\<forall>x \<in> set xs. P x" and "i < length xs \<Longrightarrow> P (xs ! i) \<Longrightarrow> P y"
  shows "\<forall>x \<in> set (xs[i := y]). P x"
proof (cases "i < length xs")
  case True
  then show ?thesis using assms by (auto dest!: set_update_subset_insert [THEN subsetD])
next
  case False
  then have "xs[i := y] = xs" by (intro list_update_beyond) simp
  then show ?thesis using assms(1) by simp
qed

lemma bounded_upd_sta:
  assumes "bounded k ma" and "n < length (ma_stas ma) \<Longrightarrow> sta_ok k (ma_stas ma ! n) \<Longrightarrow> sta_ok k (f (ma_stas ma ! n))"
  shows "bounded k (upd_sta n f ma)"
proof -
  have "\<forall>st \<in> set ((ma_stas ma)[n := f (ma_stas ma ! n)]). sta_ok k st"
  proof (rule list_update_all)
    show "\<forall>x \<in> set (ma_stas ma). sta_ok k x" using assms(1) by (simp add: bounded_def)
  qed (rule assms(2))
  then show ?thesis using assms(1) by (simp add: bounded_def upd_sta_def)
qed

lemma bounded_upd_if:
  assumes "bounded k ma" and "n < length (ma_ifs ma) \<Longrightarrow> if_ok k (ma_ifs ma ! n) \<Longrightarrow> if_ok k (f (ma_ifs ma ! n))"
  shows "bounded k (upd_if n f ma)"
proof -
  have "\<forall>sd \<in> set ((ma_ifs ma)[n := f (ma_ifs ma ! n)]). if_ok k sd"
  proof (rule list_update_all)
    show "\<forall>x \<in> set (ma_ifs ma). if_ok k x" using assms(1) by (simp add: bounded_def)
  qed (rule assms(2))
  then show ?thesis using assms(1) by (simp add: bounded_def upd_if_def)
qed

lemma bounded_same [simp]:
  "bounded k (ma\<lparr>ma_total_ps_buffered := a\<rparr>) = bounded k ma" "bounded k (ma\<lparr>ma_keys := b\<rparr>) = bounded k ma"
  "bounded k (ma\<lparr>ma_pending := c\<rparr>) = bounded k ma" "bounded k (ma\<lparr>ma_driver := d\<rparr>) = bounded k ma"
  by (simp_all add: bounded_def)

lemma purge_acs_le:
  "(\<forall>b \<in> set bufs. length b \<le> m) \<Longrightarrow> (\<forall>b \<in> set (snd (purge_acs acs bufs)). length b \<le> m)"
proof (induction acs arbitrary: bufs)
  case (Cons ac acs)
  have "\<forall>b \<in> set (bufs[ac := tl (bufs ! ac)]). length b \<le> m"
    by (rule list_update_all [OF Cons.prems]) (simp add: le_diff_conv)
  then show ?case using Cons.IH by (simp add: Let_def split: prod.split)
qed simp

lemma bounded_purge: "bounded k ma \<Longrightarrow> bounded k (purge_if_full k ma)"
proof -
  assume b: "bounded k ma"
  have "sta_ok k (snd (purge_sta st))" if "sta_ok k st" for st
    using that purge_acs_le [of "ws_ps_tx_buf st" "k_sta_max_tx_buffer k" "[3, 2, 1, 0]"]
    by (simp add: sta_ok_def purge_sta_def split: prod.split del: purge_acs.simps)
  moreover have "if_ok k (snd (purge_bc sd))" if "if_ok k sd" for sd
    using that by (auto simp: if_ok_def purge_bc_def)
  ultimately show ?thesis using b by (simp add: bounded_def purge_if_full_def purge_old_ps_buffers_def Let_def)
qed


lemma bounded_queue_ps:
  assumes "bounded k ma" and "0 < k_sta_max_tx_buffer k"
  shows "bounded k (queue_ps k n ac s ma)"
proof -
  let ?b = "ws_ps_tx_buf (ma_stas ma ! n) ! ac"
  let ?full = "length ?b \<ge> k_sta_max_tx_buffer k"
  have ok: "sta_ok k (st\<lparr>ws_ps_tx_buf := (ws_ps_tx_buf st)[ac := (if ?full then tl (ws_ps_tx_buf st ! ac) else ws_ps_tx_buf st ! ac) @ [s]]\<rparr>)"
    if "sta_ok k st" "ws_ps_tx_buf st ! ac = ?b" for st
  proof -
    have "\<forall>b \<in> set ((ws_ps_tx_buf st)[ac := (if ?full then tl ?b else ?b) @ [s]]). length b \<le> k_sta_max_tx_buffer k"
      by (rule list_update_all) (use that assms(2) in \<open>auto simp: sta_ok_def\<close>)
    then show ?thesis using that by (simp add: sta_ok_def)
  qed
  show ?thesis unfolding queue_ps_def Let_def
    by (cases ?full) (auto intro!: bounded_upd_sta simp: assms(1) dest: ok)
qed

lemma bounded_queue_bc:
  assumes "bounded k ma" and "0 < k_ap_max_bc_buffer k"
  shows "bounded k (queue_bc k p s ma)"
proof -
  define ma1 where "ma1 = purge_if_full k ma"
  have b1: "bounded k ma1" using assms(1) by (simp add: ma1_def bounded_purge)
  show ?thesis
  proof (cases "length (si_bc_buf (ma_ifs ma1 ! p)) \<ge> k_ap_max_bc_buffer k")
    case True
    let ?ma2 = "upd_if p (\<lambda>sd. sd\<lparr>si_bc_buf := tl (si_bc_buf sd)\<rparr>) ma1"
    have b2: "bounded k ?ma2" using b1 by (rule bounded_upd_if) (auto simp: if_ok_def)
    have "bounded k (upd_if p (\<lambda>sd. sd\<lparr>si_bc_buf := si_bc_buf sd @ [s]\<rparr>) ?ma2)"
    proof (rule bounded_upd_if [OF b2])
      assume "p < length (ma_ifs ?ma2)"
      then have p: "p < length (ma_ifs ma1)" by (simp add: upd_if_def)
      then have "if_ok k (ma_ifs ma1 ! p)" using b1 by (simp add: bounded_def)
      with p True show "if_ok k ((ma_ifs ?ma2 ! p)\<lparr>si_bc_buf := si_bc_buf (ma_ifs ?ma2 ! p) @ [s]\<rparr>)"
        using assms(2) by (simp add: upd_if_def if_ok_def)
    qed
    then show ?thesis using True by (simp add: queue_bc_def Let_def flip: ma1_def)
  next
    case False
    have "bounded k (upd_if p (\<lambda>sd. sd\<lparr>si_bc_buf := si_bc_buf sd @ [s]\<rparr>) (ma1\<lparr>ma_total_ps_buffered := ma_total_ps_buffered ma1 + 1\<rparr>))"
      by (rule bounded_upd_if) (use b1 False in \<open>auto simp: if_ok_def\<close>)
    then show ?thesis using False by (simp add: queue_bc_def Let_def flip: ma1_def)
  qed
qed

lemma bounded_ps_buf:
  assumes "bounded k ma" and "0 < k_sta_max_tx_buffer k" and "0 < k_ap_max_bc_buffer k"
    and "ieee80211_tx_h_ps_buf k ma tx s = (res, ma', s')"
  shows "bounded k ma'"
  using assms(4) bounded_queue_ps [OF bounded_purge [OF assms(1)] assms(2)] bounded_queue_bc [OF assms(1,3)] assms(1)
  by (auto simp: ieee80211_tx_h_ps_buf_def ieee80211_tx_h_unicast_ps_buf_def ieee80211_tx_h_multicast_ps_buf_def Let_def
      split: if_split_asm option.split_asm)

lemma sta_ok_same [simp]:
  "sta_ok k (st\<lparr>ws_last_tx_rate := a\<rparr>) = sta_ok k st" "sta_ok k (st\<lparr>ws_tid_seq := b\<rparr>) = sta_ok k st"
  "sta_ok k (st\<lparr>ws_tx_fragments := c, ws_tx_bytes := d\<rparr>) = sta_ok k st" "sta_ok k (st\<lparr>ws_tx_packets := e\<rparr>) = sta_ok k st"
  "sta_ok k (st\<lparr>ws_clear_ps_filt := f\<rparr>) = sta_ok k st"
  by (simp_all add: sta_ok_def)

lemma bounded_select_key:
  "bounded k ma \<Longrightarrow> ieee80211_tx_h_select_key k ma tx s = (res, ma', tx', s') \<Longrightarrow> bounded k ma'"
  by (auto simp: ieee80211_tx_h_select_key_def Let_def split: option.split_asm if_split_asm)

lemma bounded_last_rate: "bounded k ma \<Longrightarrow> bounded k (last_rate k info tx d ma)"
  by (auto simp: last_rate_def intro!: bounded_upd_sta split: option.split)

lemma bounded_rc_finish:
  "bounded k ma \<Longrightarrow> rc_finish k ma tx d b i = (res, ma', tx', i') \<Longrightarrow> bounded k ma'"
  by (auto simp: rc_finish_def Let_def bounded_last_rate split: option.split_asm if_split_asm)

definition result_ok :: "('a \<Rightarrow> bool) \<Rightarrow> fault + 'a \<Rightarrow> bool" where
  "result_ok P m = (case m of Inl e \<Rightarrow> True | Inr x \<Rightarrow> P x)"

lemma result_ok_simps [simp]: "result_ok P (Inl e)" "result_ok P (Inr x) = P x"
  by (simp_all add: result_ok_def)

lemma result_ok_fbind: "result_ok Q m \<Longrightarrow> (\<And>x. Q x \<Longrightarrow> result_ok P (f x)) \<Longrightarrow> result_ok P (fbind m f)"
  by (cases m) simp_all

lemma result_ok_bind: "(\<And>x. result_ok P (f x)) \<Longrightarrow> result_ok P (fbind m f)"
  by (cases m) simp_all

lemma bounded_rate_ctrl:
  assumes "bounded k ma"
  shows "result_ok (\<lambda>(res, ma', tx', s'). bounded k ma') (ieee80211_tx_h_rate_ctrl k ma tx s)"
  unfolding ieee80211_tx_h_rate_ctrl_def Let_def
  by (auto simp: assms intro!: result_ok_bind split: prod.split dest: bounded_rc_finish [OF assms])

lemma bounded_sequence:
  assumes "bounded k ma"
  shows "result_ok (\<lambda>(ma', s'). bounded k ma') (ieee80211_tx_h_sequence k ma tx s)"
proof -
  have a: "bounded k (upd_if n (\<lambda>sd. sd\<lparr>si_sequence_number := q sd\<rparr>) ma)" for n q
    using assms by (rule bounded_upd_if) (simp add: if_ok_def)
  have b: "bounded k (upd_sta n (\<lambda>st. st\<lparr>ws_tid_seq := q st\<rparr>) ma)" for n q
    using assms by (rule bounded_upd_sta) simp
  show ?thesis unfolding ieee80211_tx_h_sequence_def Let_def by (simp add: assms a b split: option.split)
qed

lemma bounded_stats: "bounded k ma \<Longrightarrow> bounded k (ieee80211_tx_h_stats ma tx ss)"
proof -
  have one: "sta_ok k (count_fragment st s) = sta_ok k st" for st s by (simp add: count_fragment_def)
  have "sta_ok k (foldl count_fragment st ss) = sta_ok k st" for st
    by (induction ss arbitrary: st) (simp_all add: one)
  then have "sta_ok k (count_packet ss (foldl count_fragment st ss)) = sta_ok k st" for st
    by (simp add: count_packet_def Let_def)
  moreover assume "bounded k ma"
  ultimately show ?thesis by (auto simp: ieee80211_tx_h_stats_def intro!: bounded_upd_sta split: option.split)
qed

lemma bounded_after_rate:
  assumes "bounded k ma"
  shows "result_ok (\<lambda>(ma', tx', out). bounded k ma') (handlers_after_rate k ma tx s)"
proof -
  define tail where "tail ma s = fbind (ieee80211_tx_h_fragment k ma s) (\<lambda>(res, ss).
           if res \<noteq> TX_CONTINUE then Inr (ma, tx, None)
           else let ma = ieee80211_tx_h_stats ma tx ss;
                    (res, ss) = ieee80211_tx_h_encrypt k ma tx ss in
           if res \<noteq> TX_CONTINUE then Inr (ma, tx, None)
           else if hw ma HW_HAS_RATE_CONTROL then Inr (ma, tx, Some ss)
           else fbind (ieee80211_tx_h_calculate_duration k ma tx ss) (\<lambda>ss. Inr (ma, tx, Some ss)))" for ma s
  have tail: "result_ok (\<lambda>(ma', tx', out). bounded k ma') (tail ma' s')" if "bounded k ma'" for ma' s'
    unfolding tail_def Let_def using that
    by (auto simp: bounded_stats intro!: result_ok_bind split: prod.split)
  have "result_ok (\<lambda>(ma', tx', out). bounded k ma') (fbind (ieee80211_tx_h_sequence k ma tx s') (\<lambda>(ma, s). tail ma s))" for s'
    by (rule result_ok_fbind [OF bounded_sequence [OF assms]]) (auto simp: tail)
  then show ?thesis unfolding handlers_after_rate_def tail_def [symmetric] using assms by (simp split: prod.split)
qed

lemma bounded_dynamic_ps: "bounded k ma \<Longrightarrow> bounded k (ieee80211_tx_h_dynamic_ps k ma tx s)"
  using bounded_upd_if [of k ma "tx_sdata tx" "\<lambda>sd. sd\<lparr>si_nullfunc_acked := False\<rparr>"]
  by (simp add: ieee80211_tx_h_dynamic_ps_def Let_def bounded_def if_ok_def)

lemma bounded_handlers:
  assumes "bounded k ma" and "0 < k_sta_max_tx_buffer k" and "0 < k_ap_max_bc_buffer k"
  shows "result_ok (\<lambda>(ma', tx', out). bounded k ma') (invoke_tx_handlers k ma tx s)"
proof -
  define ma0 where "ma0 = ieee80211_tx_h_dynamic_ps k ma tx s"
  have b0: "bounded k ma0" unfolding ma0_def by (rule bounded_dynamic_ps [OF assms(1)])
  obtain r1 ma1 s1 where h1: "ieee80211_tx_h_ps_buf k ma0 tx s = (r1, ma1, s1)" by (metis prod_cases3)
  have b1: "bounded k ma1" by (rule bounded_ps_buf [OF b0 assms(2,3) h1])
  obtain r2 ma2 tx2 s2 where h2: "ieee80211_tx_h_select_key k ma1 tx (ieee80211_tx_h_check_control_port_protocol ma1 tx s1)
      = (r2, ma2, tx2, s2)" by (metis prod_cases4)
  have b2: "bounded k ma2" by (rule bounded_select_key [OF b1 h2])
  let ?rate = "if \<not> hw ma2 HW_HAS_RATE_CONTROL \<and> \<not> flag s2 TX_CTL_RC_BYPASS
                  then ieee80211_tx_h_rate_ctrl k ma2 tx2 s2 else Inr (TX_CONTINUE, ma2, tx2, s2)"
  have "result_ok (\<lambda>(res, ma', tx', s'). bounded k ma') ?rate"
    using b2 bounded_rate_ctrl [OF b2] by simp
  then have "result_ok (\<lambda>(ma', tx', out). bounded k ma') (fbind ?rate (\<lambda>(res, ma, tx, s).
      if res \<noteq> TX_CONTINUE then Inr (ma, tx, None) else handlers_after_rate k ma tx s))"
    by (rule result_ok_fbind) (auto simp: bounded_after_rate)
  then show ?thesis unfolding invoke_tx_handlers_def Let_def ma0_def [symmetric] h1 prod.case h2 using b0 b1 b2 by simp
qed

lemma bounded_prepare:
  assumes "bounded k ma"
  shows "result_ok (\<lambda>(res, ma', tx', s'). bounded k ma') (ieee80211_tx_prepare k ma sdata s)"
proof -
  have agg: "bounded k (fst (snd (ieee80211_tx_prep_agg ma (k_sta_max_tx_buffer k) sdata n t tid s)))"
    if t: "Some t = ws_tid_tx (ma_stas ma ! n) ! tid" for n t tid s
  proof -
    let ?p = "\<lambda>s'. if length (ta_pending t @ [s']) > k_sta_max_tx_buffer k then tl (ta_pending t @ [s']) else ta_pending t @ [s']"
    have p: "length (?p s') \<le> k_sta_max_tx_buffer k" if "length (ta_pending t) \<le> k_sta_max_tx_buffer k" for s'
      using that by simp
    have "sta_ok k ((ma_stas ma ! n)\<lparr>ws_tid_tx := (ws_tid_tx (ma_stas ma ! n))[tid := Some (t\<lparr>ta_pending := ?p s'\<rparr>)]\<rparr>)"
      if ok: "sta_ok k (ma_stas ma ! n)" for s'
    proof (cases "tid < length (ws_tid_tx (ma_stas ma ! n))")
      case True
      then have "length (ta_pending t) \<le> k_sta_max_tx_buffer k" using ok t by (metis nth_mem sta_ok_def)
      from p [OF this, of s'] ok show ?thesis
        unfolding sta_ok_def by (auto dest!: set_update_subset_insert [THEN subsetD])
    next
      case False
      then have "(ws_tid_tx (ma_stas ma ! n))[tid := x] = ws_tid_tx (ma_stas ma ! n)" for x by (intro list_update_beyond) simp
      then show ?thesis using ok by (simp add: sta_ok_def)
    qed
    then have "bounded k (upd_sta n (\<lambda>st. st\<lparr>ws_tid_tx := (ws_tid_tx st)[tid := Some (t\<lparr>ta_pending := ?p s'\<rparr>)]\<rparr>) ma)" for s'
      by (rule bounded_upd_sta [OF assms])
    then show ?thesis using assms unfolding ieee80211_tx_prep_agg_def Let_def by simp
  qed
  have ampdu: "result_ok (\<lambda>(q, ma', s'). bounded k ma') (prep_ampdu k ma sdata sta s)" for sta s
    using assms agg [OF sym] unfolding prep_ampdu_def Let_def
    by (auto simp: case_prod_unfold split: option.split)
  have "bounded k (snd (take_ps_filter ma' sta))" if "bounded k ma'" for ma' sta
    using that by (auto simp: take_ps_filter_def intro!: bounded_upd_sta split: option.split)
  then have "bounded k (fst (prep_flags k ma' sta s))" if "bounded k ma'" for ma' sta s
    using that by (simp add: prep_flags_def Let_def case_prod_unfold)
  then have flags: "prep_flags k ma' sta s = (ma2, s2) \<Longrightarrow> bounded k ma2" if "bounded k ma'" for ma' sta s ma2 s2
    using that by (metis fst_conv)
  have step: "result_ok (\<lambda>(res, ma', tx', s'). bounded k ma') (fbind (prep_ampdu k ma sdata sta s) (\<lambda>(queued, ma, s).
      if queued then Inr (TX_QUEUED, ma, tx, s)
      else let (ma, s') = prep_flags k ma sta s in Inr (TX_CONTINUE, ma, g s, s')))" for sta s tx g
    by (rule result_ok_fbind [OF ampdu]) (auto dest: flags split: prod.split)
  show ?thesis
  proof (cases "tx_sta_of k ma sdata (clear_flag TX_INTFL_NEED_TXPROCESSING s)")
    case None
    then show ?thesis using assms unfolding ieee80211_tx_prepare_def Let_def by simp
  next
    case (Some sta)
    show ?thesis unfolding ieee80211_tx_prepare_def Let_def Some option.case by (rule step [unfolded Let_def])
  qed
qed

lemma bounded_frags: "bounded k ma \<Longrightarrow> bounded k (snd (ieee80211_tx_frags k vif sta p ss ma))"
  by (induction ss arbitrary: ma) (simp_all add: Let_def drv_tx_def)

lemma bounded_tx:
  assumes "bounded k ma" and "0 < k_sta_max_tx_buffer k" and "0 < k_ap_max_bc_buffer k"
  shows "result_ok (\<lambda>(r, ma'). bounded k ma') (ieee80211_tx k ma sdata s txp band)"
proof -
  have all: "bounded k (snd (tx_frags_all k ma' tx ss p))" if "bounded k ma'" for ma' tx ss p
    using that by (simp add: tx_frags_all_def Let_def bounded_frags del: ieee80211_tx_frags.simps split: list.split option.split)
  have out: "result_ok (\<lambda>(r, ma'). bounded k ma') (fbind (invoke_tx_handlers k ma' tx s) (\<lambda>(ma, tx, out).
      case out of None \<Rightarrow> Inr (True, ma) | Some ss \<Rightarrow> Inr (tx_frags_all k ma tx ss txp)))" if "bounded k ma'" for ma' tx s
    by (rule result_ok_fbind [OF bounded_handlers [OF that assms(2,3)]])
      (auto simp: case_prod_unfold all split: option.split)
  show ?thesis unfolding ieee80211_tx_def Let_def
    using assms(1) by (auto intro!: result_ok_fbind [OF bounded_prepare [OF assms(1)]] out)
qed

text \<open>
  C26: the buffers stay bounded. However a frame travels, no power-save buffer of a station, no
  broadcast buffer and no queue of an aggregation session grows over its limit.
\<close>

theorem buffers_bounded:
  assumes "bounded k ma" and "0 < k_sta_max_tx_buffer k" and "0 < k_ap_max_bc_buffer k"
    and "ieee80211_xmit k ma sdata s band = Inr ma'"
  shows "bounded k ma'"
proof -
  have "result_ok (bounded k) (ieee80211_xmit k ma sdata s band)"
    unfolding ieee80211_xmit_def Let_def
    by (auto simp: assms(1) intro!: result_ok_fbind [OF bounded_tx [OF assms(1-3)]] split: option.split)
  then show ?thesis using assms(4) by simp
qed

section \<open>Making room\<close>

definition all_buffered :: "mac \<Rightarrow> nat" where
  "all_buffered ma = sum_list (map (\<lambda>sd. length (si_bc_buf sd)) (ma_ifs ma))
     + sum_list (map (\<lambda>st. sum_list (map length (ws_ps_tx_buf st))) (ma_stas ma))"

definition uncounted :: "wsta \<Rightarrow> nat" where
  \<comment> \<open>the frames above the lowest category that has one\<close>
  "uncounted st =
     (let b = map length (ws_ps_tx_buf st) in
      if b ! 3 \<noteq> 0 then b ! 0 + b ! 1 + b ! 2 else if b ! 2 \<noteq> 0 then b ! 0 + b ! 1
      else if b ! 1 \<noteq> 0 then b ! 0 else 0)"

lemma purge_sta_counts:
  assumes "length (ws_ps_tx_buf st) = 4"
  shows "sum_list (map length (ws_ps_tx_buf (snd (purge_sta st)))) = fst (purge_sta st) + uncounted st"
proof -
  obtain a b c d where "ws_ps_tx_buf st = [a, b, c, d]"
    using assms by (auto simp: length_Suc_conv numeral_eq_Suc)
  then show ?thesis by (auto simp: purge_sta_def uncounted_def Let_def numeral_eq_Suc)
qed

text \<open>
  The counter of buffered frames is wrong after a purge. It misses every frame of a station
  in the categories above the one the purge took a frame from.
\<close>

theorem purge_undercounts:
  assumes "\<forall>st \<in> set (ma_stas ma). length (ws_ps_tx_buf st) = 4"
    and "\<forall>sd \<in> set (ma_ifs ma). si_bc_buf sd = [] \<or> si_type sd \<in> {IF_AP, IF_MESH_POINT}"
  shows "all_buffered (purge_old_ps_buffers ma)
    = ma_total_ps_buffered (purge_old_ps_buffers ma) + sum_list (map uncounted (ma_stas ma))"
proof -
  have s: "sum_list (map (\<lambda>st. sum_list (map length (ws_ps_tx_buf (snd (purge_sta st))))) sts)
      = sum_list (map (\<lambda>st. fst (purge_sta st)) sts) + sum_list (map uncounted sts)"
    if "\<forall>st \<in> set sts. length (ws_ps_tx_buf st) = 4" for sts
    using that by (induction sts) (simp_all add: purge_sta_counts)
  have i: "sum_list (map (\<lambda>sd. length (si_bc_buf (snd (purge_bc sd)))) sds) = sum_list (map (\<lambda>sd. fst (purge_bc sd)) sds)"
    if "\<forall>sd \<in> set sds. si_bc_buf sd = [] \<or> si_type sd \<in> {IF_AP, IF_MESH_POINT}" for sds
    using that by (induction sds) (auto simp: purge_bc_def)
  show ?thesis unfolding all_buffered_def purge_old_ps_buffers_def Let_def
    by (simp add: s [OF assms(1)] i [OF assms(2)] o_def)
qed

lemma purge_undercounts_witness:
  "let ma = ex_mac\<lparr>ma_stas := [ex_sta\<lparr>ws_ps_tx_buf := [[ex_frame 1, ex_frame 2], [], [], [ex_frame 3]]\<rparr>]\<rparr> in
   all_buffered (purge_old_ps_buffers ma) = 2 \<and> ma_total_ps_buffered (purge_old_ps_buffers ma) = 0"
proof -
  let ?ma = "ex_mac\<lparr>ma_stas := [ex_sta\<lparr>ws_ps_tx_buf := [[ex_frame 1, ex_frame 2], [], [], [ex_frame 3]]\<rparr>]\<rparr>"
  have "all_buffered (purge_old_ps_buffers ?ma)
    = ma_total_ps_buffered (purge_old_ps_buffers ?ma) + sum_list (map uncounted (ma_stas ?ma))"
    by (rule purge_undercounts) (simp_all add: ex_mac_def ex_if_def)
  moreover have "sum_list (map uncounted (ma_stas ?ma)) = 2" by (simp add: uncounted_def)
  moreover have "ma_total_ps_buffered (purge_old_ps_buffers ?ma) = 0"
    by (simp add: purge_old_ps_buffers_def purge_sta_def purge_bc_def ex_mac_def ex_if_def numeral_eq_Suc)
  ultimately show ?thesis by (simp add: Let_def)
qed

section \<open>A frame for a station that sleeps\<close>

lemma flag_upd [simp]:
  "flag (upd_info (\<lambda>i. i\<lparr>ti_band := b\<rparr>) s) k = flag s k"
  "flag (upd_info (\<lambda>i. i\<lparr>ti_hw_queue := q\<rparr>) s) k = flag s k"
  "flag (upd_info (\<lambda>i. i\<lparr>ti_vif := v\<rparr>) s) k = flag s k"
  "flag (upd_info (\<lambda>i. i\<lparr>ti_ctl_flags := c\<rparr>) s) k = flag s k"
  "flag (upd_info (\<lambda>i. i\<lparr>ti_hw_key := h\<rparr>) s) k = flag s k"
  "k < 32 \<Longrightarrow> flag (set_flag j s) k = (j = k \<or> flag s k)"
  "flag (clear_flag j s) k = (j \<noteq> k \<and> flag s k)"
  by (auto simp: flag_def upd_info_def set_flag_def clear_flag_def bit_set_bit_iff bit_unset_bit_iff)

lemma sk_queue_flags [simp]:
  "sk_queue (upd_info f s) = sk_queue s" "sk_queue (set_flag k s) = sk_queue s" "sk_queue (clear_flag k s) = sk_queue s"
  by (simp_all add: upd_info_def set_flag_def clear_flag_def)

lemma sk_protocol_flags [simp]:
  "sk_protocol (upd_info f s) = sk_protocol s" "sk_protocol (set_flag k s) = sk_protocol s"
  "sk_protocol (clear_flag k s) = sk_protocol s"
  by (simp_all add: upd_info_def set_flag_def clear_flag_def)

lemma header_flags [simp]:
  "frame_control (upd_info f s) = frame_control s" "addr1 (upd_info f s) = addr1 s"
  "frame_control (set_flag k s) = frame_control s" "addr1 (set_flag k s) = addr1 s"
  "frame_control (clear_flag k s) = frame_control s" "addr1 (clear_flag k s) = addr1 s"
  by (simp_all add: frame_control_def addr1_def)

lemma rates_flags [simp]:
  "ti_rates (sk_info (set_flag k s)) = ti_rates (sk_info s)" "ti_rates (sk_info (clear_flag k s)) = ti_rates (sk_info s)"
  "ti_rates (sk_info (upd_info f s)) = ti_rates (f (sk_info s))"
  by (simp_all add: upd_info_def set_flag_def clear_flag_def)

lemma vif_flags [simp]:
  "ti_vif (sk_info (set_flag k s)) = ti_vif (sk_info s)" "ti_vif (sk_info (clear_flag k s)) = ti_vif (sk_info s)"
  "ti_vif (sk_info (upd_info f s)) = ti_vif (f (sk_info s))"
  by (simp_all add: upd_info_def set_flag_def clear_flag_def)

lemma clear_temporary_flag: "flag (clear_temporary s) k = (k \<notin> set temporary_flags \<and> flag s k)"
proof -
  have "flag (foldl (\<lambda>s k. clear_flag k s) s ks) k = (k \<notin> set ks \<and> flag s k)" for ks
    by (induction ks arbitrary: s) auto
  then show ?thesis by (simp add: clear_temporary_def)
qed

lemma clear_temporary_rates: "ti_rates (sk_info (clear_temporary s)) = ti_rates (sk_info s)"
proof -
  have "ti_rates (sk_info (foldl (\<lambda>s k. clear_flag k s) s ks)) = ti_rates (sk_info s)" for ks
    by (induction ks arbitrary: s) auto
  then show ?thesis by (simp add: clear_temporary_def)
qed

lemma prep_flags_keeps:
  assumes "prep_flags k ma sta s = (ma', s')"
  shows "sk_data s' = sk_data s \<and> sk_queue s' = sk_queue s \<and> sk_protocol s' = sk_protocol s
    \<and> ti_rates (sk_info s') = ti_rates (sk_info s) \<and> ti_vif (sk_info s') = ti_vif (sk_info s)
    \<and> (\<forall>j < 32. j \<notin> {2, 3, 4, 30} \<longrightarrow> flag s' j = flag s j)
    \<and> (flag s 30 \<longrightarrow> flag s' 30)"
proof -
  have a: "sk_data (prep_ack_frag k ma s) = sk_data s \<and> sk_queue (prep_ack_frag k ma s) = sk_queue s
    \<and> sk_protocol (prep_ack_frag k ma s) = sk_protocol s
    \<and> ti_rates (sk_info (prep_ack_frag k ma s)) = ti_rates (sk_info s)
    \<and> ti_vif (sk_info (prep_ack_frag k ma s)) = ti_vif (sk_info s)
    \<and> (\<forall>j < 32. j \<notin> {2, 30} \<longrightarrow> flag (prep_ack_frag k ma s) j = flag s j)
    \<and> (flag s 30 \<longrightarrow> flag (prep_ack_frag k ma s) 30)"
    by (simp add: prep_ack_frag_def Let_def)
  obtain c where "s' = set_flag 4 (if c then set_flag 3 (prep_ack_frag k ma s) else prep_ack_frag k ma s)"
    using assms by (auto simp: prep_flags_def Let_def split: prod.split_asm)
  then show ?thesis using a by simp
qed

definition no_session :: "kernel \<Rightarrow> mac \<Rightarrow> nat option \<Rightarrow> skb \<Rightarrow> bool" where
  \<comment> \<open>no aggregation session takes the frame\<close>
  "no_session k ma sta s \<longleftrightarrow> sta = None \<or> \<not> k_is_data_qos k (frame_control s) \<or> \<not> hw ma HW_AMPDU_AGGREGATION"

lemma no_session_prep: "no_session k ma sta s \<Longrightarrow> prep_ampdu k ma sdata sta s = Inr (False, ma, s)"
  by (auto simp: no_session_def prep_ampdu_def Let_def split: option.split)

lemma tx_sta_of_clear [simp]:
  "tx_sta_of k ma sdata (clear_flag TX_INTFL_NEED_TXPROCESSING s) = tx_sta_of k ma sdata s"
  unfolding tx_sta_of_def Let_def header_flags by simp

lemma prepare_continues:
  assumes "tx_sta_of k ma sdata s = Some sta" and "no_session k ma sta s" 
    and "prep_flags k ma sta (clear_flag TX_INTFL_NEED_TXPROCESSING s) = (ma', s')"
  shows "ieee80211_tx_prepare k ma sdata s = Inr (TX_CONTINUE, ma',
    \<lparr>tx_sdata = sdata, tx_sta = sta, tx_key = None, tx_rate = \<lparr>tr_idx = 0, tr_count = 0, tr_flags = 0\<rparr>,
     tx_unicast = \<not> k_is_multicast k (addr1 s), tx_ps_buffered = False\<rparr>, s')"
proof -
  have n: "no_session k ma sta (clear_flag TX_INTFL_NEED_TXPROCESSING s)" using assms(2) by (simp add: no_session_def)
  show ?thesis unfolding ieee80211_tx_prepare_def Let_def tx_sta_of_clear assms(1) option.case
    by (simp only: no_session_prep [OF n] fbind_simps prod.case if_False assms(3) header_flags) simp
qed

text \<open>
  What becomes of a frame before its first handler: the octets, the rates and most flags stay.
\<close>

definition keeps :: "skb \<Rightarrow> skb \<Rightarrow> bool" where
  "keeps s s' \<longleftrightarrow> sk_data s' = sk_data s \<and> sk_queue s' = sk_queue s \<and> sk_protocol s' = sk_protocol s
    \<and> ti_rates (sk_info s') = ti_rates (sk_info s) \<and> ti_vif (sk_info s') = ti_vif (sk_info s)
    \<and> (\<forall>j \<in> {7, 16, 17, 19, 22}. flag s' j = flag s j) \<and> (flag s 30 \<longrightarrow> flag s' 30)"

lemma keeps_header: "keeps s s' \<Longrightarrow> frame_control s' = frame_control s \<and> addr1 s' = addr1 s"
  by (simp add: keeps_def frame_control_def addr1_def)

lemma tx_invokes:
  assumes "10 \<le> length (sk_data s)" and "tx_sta_of k ma sdata s = Some sta" and "no_session k ma sta s"
  shows "\<exists>s'. keeps s s' \<and> ti_band (sk_info s') = band
    \<and> (\<not> flag s TX_CTL_TX_OFFCHAN \<longrightarrow> ti_hw_queue (sk_info s') = si_hw_queue (ma_ifs ma ! sdata) ! sk_queue s)
    \<and> ieee80211_tx k ma sdata s txp band
    = fbind (invoke_tx_handlers k (snd (take_ps_filter ma sta))
         \<lparr>tx_sdata = sdata, tx_sta = sta, tx_key = None, tx_rate = \<lparr>tr_idx = 0, tr_count = 0, tr_flags = 0\<rparr>,
          tx_unicast = \<not> k_is_multicast k (addr1 s), tx_ps_buffered = False\<rparr> s')
        (\<lambda>(ma, tx, out). case out of None \<Rightarrow> Inr (True, ma) | Some ss \<Rightarrow> Inr (tx_frags_all k ma tx ss txp))"
proof -
  obtain ma' s1 where p: "prep_flags k ma sta (clear_flag TX_INTFL_NEED_TXPROCESSING s) = (ma', s1)" by fastforce
  have ma': "ma' = snd (take_ps_filter ma sta)" using p by (auto simp: prep_flags_def Let_def split: prod.split_asm)
  let ?b = "upd_info (\<lambda>i. i\<lparr>ti_band := band\<rparr>) s1"
  define s2 where "s2 = (if \<not> flag ?b TX_CTL_TX_OFFCHAN \<or> \<not> hw ma' HW_QUEUE_CONTROL
                 then upd_info (\<lambda>i. i\<lparr>ti_hw_queue := si_hw_queue (ma_ifs ma' ! sdata) ! sk_queue ?b\<rparr>) ?b else ?b)"
  have "keeps s s2" using prep_flags_keeps [OF p] by (simp add: keeps_def s2_def)
  moreover have "ti_band (sk_info s2) = band" by (simp add: s2_def upd_info_def)
  moreover have "\<not> flag s TX_CTL_TX_OFFCHAN \<longrightarrow> ti_hw_queue (sk_info s2) = si_hw_queue (ma_ifs ma ! sdata) ! sk_queue s"
  proof -
    have "ma_ifs ma' = ma_ifs ma" by (simp add: ma' take_ps_filter_def upd_sta_def split: option.split)
    moreover have "flag s1 25 = flag s 25" "sk_queue s1 = sk_queue s" using prep_flags_keeps [OF p] by simp_all
    ultimately show ?thesis by (simp add: s2_def upd_info_def [of "\<lambda>i. i\<lparr>ti_hw_queue := q\<rparr>" for q])
  qed
  moreover have "\<not> length (sk_data s) < 10" using assms(1) by simp
  ultimately show ?thesis unfolding ieee80211_tx_def prepare_continues [OF assms(2,3) p]
    by (intro exI [of _ s2]) (simp add: Let_def s2_def ma')
qed

definition bufferable :: "kernel \<Rightarrow> skb \<Rightarrow> bool" where
  "bufferable k s \<longleftrightarrow> \<not> k_is_mgmt k (frame_control s) \<or> k_is_bufferable_mmpdu k (frame_control s)"

lemma dynamic_ps_fields [simp]:
  "ma_stas (ieee80211_tx_h_dynamic_ps k ma tx s) = ma_stas ma"
  "ma_driver (ieee80211_tx_h_dynamic_ps k ma tx s) = ma_driver ma"
  "ma_jiffies (ieee80211_tx_h_dynamic_ps k ma tx s) = ma_jiffies ma"
  by (simp_all add: ieee80211_tx_h_dynamic_ps_def upd_if_def Let_def)

text \<open>An injected frame for a station that sleeps is queued for it.\<close>

lemma injected_buffered:
  assumes "10 \<le> length (sk_data s)" and "tx_sta_of k ma sdata s = Some (Some n)" and "no_session k ma (Some n) s"
    and "flag s TX_CTL_INJECTED" and "\<not> flag s TX_CTL_NO_PS_BUFFER" and "bufferable k s"
    and "\<not> k_is_multicast k (addr1 s)" and "in_ps (ma_stas ma ! n)" and "n < length (ma_stas ma)"
  shows "\<exists>s' ma'. ieee80211_tx k ma sdata s txp band = Inr (True, queue_ps k n (sk_queue s) s' (purge_if_full k ma'))
    \<and> ma_stas ma' = ma_stas (snd (take_ps_filter ma (Some n))) \<and> ma_driver ma' = ma_driver ma \<and> sk_data s' = sk_data s
    \<and> ti_rates (sk_info s') = k_store_jiffies k (ma_jiffies ma) (ti_rates (sk_info s)) \<and> \<not> flag s' TX_CTL_RC_BYPASS"
proof -
  define ma1 where "ma1 = snd (take_ps_filter ma (Some n))"
  have ma1: "ma_stas ma1 ! n = (ma_stas ma ! n)\<lparr>ws_clear_ps_filt := False\<rparr> \<or> ma_stas ma1 ! n = ma_stas ma ! n"
      "ma_jiffies ma1 = ma_jiffies ma" "ma_driver ma1 = ma_driver ma"
    using assms(9) by (simp_all add: ma1_def take_ps_filter_def upd_sta_def)
  define tx where "tx = \<lparr>tx_sdata = sdata, tx_sta = Some n, tx_key = None, tx_rate = \<lparr>tr_idx = 0, tr_count = 0, tr_flags = 0\<rparr>,
          tx_unicast = \<not> k_is_multicast k (addr1 s), tx_ps_buffered = False\<rparr>"
  obtain s1 where s1: "keeps s s1" and run: "ieee80211_tx k ma sdata s txp band = fbind (invoke_tx_handlers k ma1 tx s1)
        (\<lambda>(ma, tx, out). case out of None \<Rightarrow> Inr (True, ma) | Some ss \<Rightarrow> Inr (tx_frags_all k ma tx ss txp))"
    using tx_invokes [OF assms(1-3)] unfolding ma1_def tx_def by blast
  define ma' where "ma' = ieee80211_tx_h_dynamic_ps k ma1 tx s1"
  have ps: "in_ps (ma_stas ma' ! n)" and j: "ma_jiffies ma' = ma_jiffies ma"
    using assms(8) ma1 by (auto simp: ma'_def in_ps_def)
  have f: "flag s1 7" "\<not> flag s1 17" using s1 assms(4,5) by (simp_all add: keeps_def)
  have "ieee80211_tx_h_ps_buf k ma' tx s1
      = (TX_QUEUED, queue_ps k n (sk_queue s1) (ps_frame k ma' sdata s1) (purge_if_full k ma'), ps_frame k ma' sdata s1)"
    using assms(6,7) f(2) ps keeps_header [OF s1]
    by (simp add: ieee80211_tx_h_ps_buf_def ieee80211_tx_h_unicast_ps_buf_def tx_def bufferable_def Let_def)
  moreover have "ieee80211_tx_h_check_assoc k ma' tx s1 = TX_CONTINUE" using f(1) by (simp add: ieee80211_tx_h_check_assoc_def)
  ultimately have inv: "invoke_tx_handlers k ma1 tx s1
      = Inr (queue_ps k n (sk_queue s1) (ps_frame k ma' sdata s1) (purge_if_full k ma'), tx, None)"
    by (simp add: invoke_tx_handlers_def flip: ma'_def)
  have "\<not> flag (ps_frame k ma' sdata s1) 22"
    by (simp add: ps_frame_def clear_temporary_flag temporary_flags_def)
  moreover have "ti_rates (sk_info (ps_frame k ma' sdata s1)) = k_store_jiffies k (ma_jiffies ma) (ti_rates (sk_info s))"
    using s1 by (simp add: ps_frame_def clear_temporary_rates keeps_def j)
  moreover have "sk_data (ps_frame k ma' sdata s1) = sk_data s" "sk_queue s1 = sk_queue s"
    using s1 by (simp_all add: ps_frame_def keeps_def)
  ultimately show ?thesis unfolding run inv
    by (intro exI [of _ "ps_frame k ma' sdata s1"] exI [of _ ma']) (simp add: ma'_def ma1 flip: ma1_def)
qed

section \<open>A frame whose rates are fixed\<close>

definition awake :: "kernel \<Rightarrow> mac \<Rightarrow> tx_data \<Rightarrow> skb \<Rightarrow> bool" where
  \<comment> \<open>nobody the frame is for sleeps\<close>
  "awake k ma tx s \<longleftrightarrow>
     (if tx_unicast tx then (\<forall>n. tx_sta tx = Some n \<longrightarrow> \<not> in_ps (ma_stas ma ! n))
      else (\<forall>p. ps_of ma tx = Some p \<longrightarrow> si_num_sta_ps (ma_ifs ma ! p) = 0 \<and> \<not> hw ma HW_QUEUE_CONTROL))"

definition same_frame :: "skb \<Rightarrow> skb \<Rightarrow> bool" where
  \<comment> \<open>the same octets, but for the duration and the sequence number\<close>
  "same_frame s s' \<longleftrightarrow> length (sk_data s') = length (sk_data s)
     \<and> (\<forall>i. i \<notin> {2, 3, 22, 23} \<longrightarrow> sk_data s' ! i = sk_data s ! i)"

definition fixed :: "skb \<Rightarrow> skb \<Rightarrow> bool" where
  \<comment> \<open>octets, rates, queue and the flags that matter are the same\<close>
  "fixed s s' \<longleftrightarrow> same_frame s s' \<and> ti_rates (sk_info s') = ti_rates (sk_info s) \<and> sk_queue s' = sk_queue s
     \<and> ti_band (sk_info s') = ti_band (sk_info s) \<and> ti_vif (sk_info s') = ti_vif (sk_info s)
     \<and> ti_hw_queue (sk_info s') = ti_hw_queue (sk_info s) \<and> (\<forall>j \<in> {7, 16, 19, 22, 30}. flag s' j = flag s j)"

lemma same_frame_refl [simp]: "same_frame s s" by (simp add: same_frame_def)
lemma same_frame_trans: "same_frame a b \<Longrightarrow> same_frame b c \<Longrightarrow> same_frame a c" by (simp add: same_frame_def)
lemma fixed_refl [simp]: "fixed s s" by (simp add: fixed_def)
lemma fixed_trans: "fixed a b \<Longrightarrow> fixed b c \<Longrightarrow> fixed a c" by (auto simp: fixed_def intro: same_frame_trans)

lemma same_frame_header:
  assumes "same_frame s s'" and "10 \<le> length (sk_data s)"
  shows "frame_control s' = frame_control s \<and> addr1 s' = addr1 s"
proof -
  have "take 6 (drop 4 (sk_data s')) = take 6 (drop 4 (sk_data s))"
    using assms by (intro nth_equalityI) (auto simp: same_frame_def)
  then show ?thesis using assms by (simp add: frame_control_def addr1_def get_le16_def same_frame_def)
qed

lemma fixed_info:
  assumes "\<And>i. ti_rates (f i) = ti_rates i \<and> ti_band (f i) = ti_band i \<and> ti_vif (f i) = ti_vif i \<and> ti_flags (f i) = ti_flags i
    \<and> ti_hw_queue (f i) = ti_hw_queue i"
  shows "fixed s (upd_info f s)"
  using assms by (simp add: fixed_def same_frame_def flag_def upd_info_def)

lemma fixed_flag: "j \<notin> {7, 16, 19, 22, 30} \<Longrightarrow> fixed s (set_flag j s)"
proof -
  assume "j \<notin> {7, 16, 19, 22, 30}"
  moreover have "ti_band (sk_info (set_flag j s)) = ti_band (sk_info s)" "ti_hw_queue (sk_info (set_flag j s)) = ti_hw_queue (sk_info s)"
    by (simp_all add: set_flag_def upd_info_def)
  ultimately show ?thesis by (auto simp: fixed_def same_frame_def)
qed

lemma store_le16_keeps [simp]:
  "sk_info (store_le16 i v s) = sk_info s" "sk_queue (store_le16 i v s) = sk_queue s"
  "flag (store_le16 i v s) k = flag s k"
  by (simp_all add: store_le16_def flag_def)

lemma fixed_store: "i \<in> {2, 22} \<Longrightarrow> fixed s (store_le16 i v s)"
  by (auto simp: fixed_def same_frame_def store_le16_def flag_def)

lemma fixed_ps_buf:
  assumes "awake k ma tx s"
  shows "\<exists>s'. ieee80211_tx_h_ps_buf k ma tx s = (TX_CONTINUE, ma, s') \<and> fixed s s'"
proof -
  show ?thesis using assms fixed_flag [of TX_CTL_NO_PS_BUFFER s]
    by (auto simp: ieee80211_tx_h_ps_buf_def ieee80211_tx_h_unicast_ps_buf_def ieee80211_tx_h_multicast_ps_buf_def
        awake_def Let_def split: option.split)
qed

lemma fixed_control_port:
  assumes "flag s TX_INTFL_DONT_ENCRYPT"
  shows "fixed s (ieee80211_tx_h_check_control_port_protocol ma tx s)"
proof -
  have c: "fixed a (upd_info (\<lambda>i. i\<lparr>ti_ctl_flags := f i\<rparr>) a)" for a f by (rule fixed_info) simp
  have e: "fixed s (set_flag 16 s)"
  proof -
    have "ti_band (sk_info (set_flag 16 s)) = ti_band (sk_info s)" "ti_hw_queue (sk_info (set_flag 16 s)) = ti_hw_queue (sk_info s)"
      by (simp_all add: set_flag_def upd_info_def)
    then show ?thesis using assms by (auto simp: fixed_def same_frame_def)
  qed
  show ?thesis unfolding ieee80211_tx_h_check_control_port_protocol_def Let_def
    using c fixed_trans [OF e c] by simp
qed

lemma select_no_key: "flag s TX_INTFL_DONT_ENCRYPT \<Longrightarrow> ieee80211_tx_h_select_key k ma tx s = (TX_CONTINUE, ma, tx\<lparr>tx_key := None\<rparr>, s)"
  by (simp add: ieee80211_tx_h_select_key_def choose_key_def Let_def)

definition long_enough :: "kernel \<Rightarrow> skb \<Rightarrow> bool" where
  \<comment> \<open>the header of the frame and its QoS field are in the frame\<close>
  "long_enough k s \<longleftrightarrow> 10 \<le> length (sk_data s) \<and> k_hdrlen k (frame_control s) \<le> length (sk_data s)
     \<and> (k_is_data_qos k (frame_control s) \<longrightarrow> k_qos_ctl_at k (frame_control s) < length (sk_data s))"

lemma long_enough_same: "same_frame s s' \<Longrightarrow> long_enough k s \<Longrightarrow> long_enough k s'"
  using same_frame_header [of s s'] by (auto simp: long_enough_def) (simp_all add: same_frame_def)

definition mac_frame :: "mac \<Rightarrow> mac \<Rightarrow> bool" where
  \<comment> \<open>what a frame that is sent leaves as it is\<close>
  "mac_frame ma ma' \<longleftrightarrow> ma_driver ma' = ma_driver ma \<and> ma_pending ma' = ma_pending ma
     \<and> ma_stop_reasons ma' = ma_stop_reasons ma \<and> ma_monitor_sdata ma' = ma_monitor_sdata ma \<and> ma_hw ma' = ma_hw ma
     \<and> ma_bands ma' = ma_bands ma \<and> length (ma_ifs ma') = length (ma_ifs ma)
     \<and> (\<forall>n. si_type (ma_ifs ma' ! n) = si_type (ma_ifs ma ! n) \<and> si_bss (ma_ifs ma' ! n) = si_bss (ma_ifs ma ! n)
          \<and> si_monitor_active (ma_ifs ma' ! n) = si_monitor_active (ma_ifs ma ! n)
          \<and> si_hw_queue (ma_ifs ma' ! n) = si_hw_queue (ma_ifs ma ! n))
     \<and> (\<forall>n. ws_uploaded (ma_stas ma' ! n) = ws_uploaded (ma_stas ma ! n))"

lemma mac_frame_refl [simp]: "mac_frame ma ma" by (simp add: mac_frame_def)
lemma mac_frame_trans: "mac_frame a b \<Longrightarrow> mac_frame b c \<Longrightarrow> mac_frame a c" by (simp add: mac_frame_def)

lemma mac_frame_upd_sta:
  assumes "\<And>st. ws_uploaded (f st) = ws_uploaded st"
  shows "mac_frame ma (upd_sta n f ma)"
  using assms by (simp add: mac_frame_def upd_sta_def nth_list_update) (metis list_update_beyond not_le nth_list_update)

lemma mac_frame_sequence: "mac_frame ma (upd_if n (\<lambda>sd. sd\<lparr>si_sequence_number := q sd\<rparr>) ma)"
proof (cases "n < length (ma_ifs ma)")
  case True
  then show ?thesis by (auto simp: mac_frame_def upd_if_def nth_list_update)
next
  case False
  then have "upd_if n (\<lambda>sd. sd\<lparr>si_sequence_number := q sd\<rparr>) ma = ma" by (simp add: upd_if_def list_update_beyond)
  then show ?thesis by simp
qed

lemma sequence_fixed:
  assumes "long_enough k s" and "ti_vif (sk_info s) \<noteq> None"
  shows "\<exists>ma' s'. ieee80211_tx_h_sequence k ma tx s = Inr (ma', s') \<and> fixed s s' \<and> mac_frame ma ma'"
proof -
  obtain v where v: "ti_vif (sk_info s) = Some v" using assms(2) by auto
  let ?len = "length (sk_data s)" and ?fc = "frame_control s"
  consider (kept) "ieee80211_tx_h_sequence k ma tx s = Inr (ma, s)"
    | (global) "ieee80211_tx_h_sequence k ma tx s
        = Inr (upd_if (tx_sdata tx) (\<lambda>sd. sd\<lparr>si_sequence_number := si_sequence_number sd + 0x10\<rparr>) ma,
               store_le16 22 (si_sequence_number (sdata_of ma tx)) (set_flag TX_CTL_ASSIGN_SEQ s))"
    | (tid) n tid seq where "ieee80211_tx_h_sequence k ma tx s
        = Inr (upd_sta n (\<lambda>st. st\<lparr>ws_tid_seq := (ws_tid_seq st)[tid := (seq + 0x10) AND 0xFFF0]\<rparr>) ma, store_le16 22 seq s)"
    using assms(1) v unfolding ieee80211_tx_h_sequence_def Let_def long_enough_def
    by (cases "k_is_data_qos k ?fc"; cases "tx_sta tx") (force split: if_split_asm)+
  then show ?thesis
  proof cases
    case kept
    then show ?thesis by simp
  next
    case global
    show ?thesis unfolding global
      by (intro exI conjI) (rule refl, rule fixed_trans [OF fixed_flag fixed_store], simp, simp, rule mac_frame_sequence)
  next
    case tid
    have "mac_frame ma (upd_sta n (\<lambda>st. st\<lparr>ws_tid_seq := q st\<rparr>) ma)" for q by (rule mac_frame_upd_sta) simp
    then show ?thesis unfolding tid by (intro exI conjI) (rule refl, rule fixed_store, simp, assumption)
  qed
qed

lemma mac_frame_stats: "mac_frame ma (ieee80211_tx_h_stats ma tx ss)"
proof -
  have one: "ws_uploaded (count_fragment st s) = ws_uploaded st" for st s by (simp add: count_fragment_def)
  have "ws_uploaded (foldl count_fragment st ss) = ws_uploaded st" for st
    by (induction ss arbitrary: st) (simp_all add: one)
  then have "ws_uploaded (count_packet ss (foldl count_fragment st ss)) = ws_uploaded st" for st
    by (simp add: count_packet_def Let_def)
  then show ?thesis by (auto simp: ieee80211_tx_h_stats_def intro!: mac_frame_upd_sta split: option.split)
qed

lemma duration_fixed:
  assumes "long_enough k s" and "tx_rate tx = \<lparr>tr_idx = 0, tr_count = 0, tr_flags = 0\<rparr>"
    and "sb_rates (ma_bands ma (ti_band (sk_info s))) \<noteq> []"
  shows "\<exists>s'. ieee80211_tx_h_calculate_duration k ma tx [s] = Inr [s'] \<and> fixed s s'"
proof -
  have r: "\<exists>x. rate_at (ma_bands ma (ti_band (sk_info s))) (sint (0 :: 8 word)) = Inr x"
    using assms(3) by (simp add: rate_at_def)
  have "\<exists>d. ieee80211_duration k ma tx s g n = Inr d" for g n
    using r assms(1,2) unfolding ieee80211_duration_def Let_def long_enough_def
    by (auto simp: bad_rate_def not_less split: prod.split)
  then show ?thesis using fixed_store [of 2 s] by auto (metis fbind_simps(2))
qed

text \<open>
  The handlers of a frame that is not encrypted, not fragmented and bypasses the rate control:
  it comes out as one frame with its rates.
\<close>

definition asleep :: "mac \<Rightarrow> nat \<Rightarrow> nat \<Rightarrow> bool" where
  \<comment> \<open>a frame of the interface and access category would find the device in dynamic power save\<close>
  "asleep ma n ac \<longleftrightarrow> dynamic_ps_applies ma n ac \<and> ma_conf_ps ma"

lemma dynamic_ps_quiet:
  "\<not> asleep ma (tx_sdata tx) (sk_queue s) \<Longrightarrow> \<exists>e. ieee80211_tx_h_dynamic_ps k ma tx s = ma\<lparr>ma_dynamic_ps_timer := e\<rparr>"
  using exI [of "\<lambda>e. ma = ma\<lparr>ma_dynamic_ps_timer := e\<rparr>" "ma_dynamic_ps_timer ma"]
  by (auto simp: ieee80211_tx_h_dynamic_ps_def asleep_def Let_def)

lemma bypass_handlers:
  assumes "flag s TX_CTL_INJECTED" and "flag s TX_INTFL_DONT_ENCRYPT" and "flag s TX_CTL_RC_BYPASS"
    and "flag s TX_CTL_DONTFRAG" and "\<not> flag s TX_INTFL_RETRANSMISSION"
    and "long_enough k s" and "ti_vif (sk_info s) \<noteq> None" and "awake k ma0 tx s"
    and "tx_rate tx = \<lparr>tr_idx = 0, tr_count = 0, tr_flags = 0\<rparr>"
    and "sb_rates (ma_bands ma0 (ti_band (sk_info s))) \<noteq> []"
    and mic: "\<And>s. k_michael_mic_add k None s = (TX_CONTINUE, s)" and "\<not> asleep ma0 (tx_sdata tx) (sk_queue s)"
  shows "\<exists>ma' s'. invoke_tx_handlers k ma0 tx s = Inr (ma', tx\<lparr>tx_key := None\<rparr>, Some [s']) \<and> fixed s s' \<and> mac_frame ma0 ma'"
proof -
  obtain e where e: "ieee80211_tx_h_dynamic_ps k ma0 tx s = ma0\<lparr>ma_dynamic_ps_timer := e\<rparr>" using dynamic_ps_quiet [OF assms(12)] by blast
  define ma where "ma = ma0\<lparr>ma_dynamic_ps_timer := e\<rparr>"
  have m0: "mac_frame ma0 ma" and b0: "ma_bands ma = ma_bands ma0" by (simp_all add: mac_frame_def ma_def)
  have "ps_of ma tx = ps_of ma0 tx" "hw ma j = hw ma0 j" for j by (simp_all add: ma_def ps_of_def sdata_of_def hw_def)
  then have aw: "awake k ma tx s" using assms(8) by (simp add: awake_def) (simp add: ma_def)
  obtain s1 where ps: "ieee80211_tx_h_ps_buf k ma tx s = (TX_CONTINUE, ma, s1)" and f1: "fixed s s1"
    using fixed_ps_buf [OF aw] by blast
  define s2 where "s2 = ieee80211_tx_h_check_control_port_protocol ma tx s1"
  have "flag s1 16" using f1 assms(2) by (simp add: fixed_def)
  from fixed_trans [OF f1 fixed_control_port [OF this]] have f2: "fixed s s2" by (simp add: s2_def)
  have fl: "flag s2 16" "flag s2 22" "flag s2 30" "\<not> flag s2 19" using f2 assms(2-5) by (simp_all add: fixed_def)
  let ?tx = "tx\<lparr>tx_key := None\<rparr>"
  have le: "long_enough k s2" and v: "ti_vif (sk_info s2) \<noteq> None" using f2 assms(6,7) long_enough_same by (auto simp: fixed_def)
  obtain ma3 s3 where seq: "ieee80211_tx_h_sequence k ma ?tx s2 = Inr (ma3, s3)" and f23: "fixed s2 s3" and m3: "mac_frame ma ma3"
    using sequence_fixed [OF le v] by blast
  have f3: "fixed s s3" by (rule fixed_trans [OF f2 f23])
  have frag: "ieee80211_tx_h_fragment k ma3 s3 = Inr (TX_CONTINUE, [s3])"
    using fl(3) f23 by (simp add: ieee80211_tx_h_fragment_def Let_def fixed_def)
  define ma4 where "ma4 = ieee80211_tx_h_stats ma3 ?tx [s3]"
  have m4: "mac_frame ma ma4" using mac_frame_trans [OF m3 mac_frame_stats] by (simp add: ma4_def)
  have enc: "ieee80211_tx_h_encrypt k ma4 ?tx [s3] = (TX_CONTINUE, [s3])" by (simp add: ieee80211_tx_h_encrypt_def)
  have r: "tx_rate ?tx = \<lparr>tr_idx = 0, tr_count = 0, tr_flags = 0\<rparr>" using assms(9) by simp
  have le3: "long_enough k s3" using f23 le long_enough_same by (auto simp: fixed_def)
  have b: "sb_rates (ma_bands ma4 (ti_band (sk_info s3))) \<noteq> []" using m4 f3 assms(10) b0 by (simp add: mac_frame_def fixed_def)
  obtain s4 where dur: "ieee80211_tx_h_calculate_duration k ma4 ?tx [s3] = Inr [s4]" and f34: "fixed s3 s4"
    using duration_fixed [OF le3 r b] by blast
  have "handlers_after_rate k ma ?tx s2 = Inr (ma4, ?tx, Some [if hw ma4 HW_HAS_RATE_CONTROL then s3 else s4])"
    using fl(4) enc dur
    by (simp add: handlers_after_rate_def mic seq frag Let_def ma4_def del: ieee80211_tx_h_calculate_duration.simps)
  moreover have "ieee80211_tx_h_check_assoc k ma tx s = TX_CONTINUE" using assms(1) by (simp add: ieee80211_tx_h_check_assoc_def)
  ultimately have "invoke_tx_handlers k ma0 tx s = Inr (ma4, ?tx, Some [if hw ma4 HW_HAS_RATE_CONTROL then s3 else s4])"
    using ps fl(1,2) select_no_key [OF fl(1)] by (simp add: invoke_tx_handlers_def e Let_def flip: s2_def ma_def)
  moreover have "fixed s (if hw ma4 HW_HAS_RATE_CONTROL then s3 else s4)" using f3 fixed_trans [OF f3 f34] by simp
  ultimately show ?thesis using mac_frame_trans [OF m0 m4] by blast
qed

text \<open>The queue that the frame is put on, and whether it is open.\<close>

definition told_vif :: "mac \<Rightarrow> nat \<Rightarrow> nat option" where
  "told_vif ma n =
     (let sd = ma_ifs ma ! n in
      if si_type sd = IF_MONITOR \<and> \<not> si_monitor_active sd then ma_monitor_sdata ma
      else if si_type sd = IF_AP_VLAN then si_bss sd else Some n)"

definition queue_open :: "mac \<Rightarrow> nat \<Rightarrow> bool" where
  "queue_open ma q \<longleftrightarrow> ma_stop_reasons ma ! q = 0 \<and> ma_pending ma ! q = []"

definition sends :: "mac \<Rightarrow> nat \<Rightarrow> nat \<Rightarrow> bool" where
  \<comment> \<open>the driver takes a frame of an access category from an interface at once\<close>
  "sends ma n ac \<longleftrightarrow>
     (let sd = ma_ifs ma ! n in
      if si_type sd = IF_MONITOR \<and> \<not> si_monitor_active sd then
        (case ma_monitor_sdata ma of
           Some m \<Rightarrow> queue_open ma (si_hw_queue (ma_ifs ma ! m) ! ac)
         | None \<Rightarrow> \<not> hw ma HW_QUEUE_CONTROL \<and> queue_open ma (si_hw_queue sd ! ac))
      else queue_open ma (si_hw_queue sd ! ac))"

lemma frags_all_sends:
  assumes "sends ma n (sk_queue s)" and "ti_vif (sk_info s) = Some n"
    and "ti_hw_queue (sk_info s) = si_hw_queue (ma_ifs ma ! n) ! sk_queue s"
  shows "\<exists>sta s'. tx_frags_all k ma tx [s] False = (True, ma\<lparr>ma_driver := ma_driver ma @ [(told_vif ma n, sta, s')]\<rparr>)
    \<and> sk_data s' = sk_data s \<and> ti_rates (sk_info s') = ti_rates (sk_info s) \<and> flag s' TX_CTL_LDPC = flag s TX_CTL_LDPC"
proof -
  have one: "\<exists>s'. ieee80211_tx_frags k vif sta False [a] ma = (True, ma\<lparr>ma_driver := ma_driver ma @ [(vif, sta, s')]\<rparr>)
      \<and> sk_data s' = sk_data a \<and> ti_rates (sk_info s') = ti_rates (sk_info a) \<and> flag s' TX_CTL_LDPC = flag a TX_CTL_LDPC"
    if "queue_open ma (ti_hw_queue (sk_info a))" for vif sta a
    using that by (intro exI [of _ "upd_info (\<lambda>i. i\<lparr>ti_vif := vif\<rparr>) a"]) (simp add: queue_open_def drv_tx_def Let_def)
  define sta where "sta = (case tx_sta tx of None \<Rightarrow> None | Some n \<Rightarrow> if ws_uploaded (ma_stas ma ! n) then Some n else None)"
  have "\<exists>a. tx_frags_all k ma tx [s] False = ieee80211_tx_frags k (told_vif ma n) sta False [a] ma
      \<and> queue_open ma (ti_hw_queue (sk_info a)) \<and> sk_data a = sk_data s \<and> ti_rates (sk_info a) = ti_rates (sk_info s)
      \<and> flag a TX_CTL_LDPC = flag s TX_CTL_LDPC"
  proof (cases "si_type (ma_ifs ma ! n) = IF_MONITOR \<and> \<not> si_monitor_active (ma_ifs ma ! n)")
    case True
    show ?thesis
    proof (cases "ma_monitor_sdata ma")
      case None
      then have "queue_open ma (ti_hw_queue (sk_info s))" "\<not> hw ma HW_QUEUE_CONTROL"
        using True assms(1,3) by (simp_all add: sends_def)
      moreover from this(2) have "tx_frags_all k ma tx [s] False = ieee80211_tx_frags k (told_vif ma n) sta False [s] ma"
        using True None assms(2) by (simp add: tx_frags_all_def told_vif_def Let_def sta_def del: ieee80211_tx_frags.simps)
      ultimately show ?thesis by blast
    next
      case (Some m)
      let ?s = "upd_info (\<lambda>i. i\<lparr>ti_hw_queue := si_hw_queue (ma_ifs ma ! m) ! sk_queue s\<rparr>) s"
      have "queue_open ma (ti_hw_queue (sk_info ?s))" using True Some assms(1) by (simp add: sends_def upd_info_def)
      moreover have "tx_frags_all k ma tx [s] False = ieee80211_tx_frags k (told_vif ma n) sta False [?s] ma"
        using True Some assms(2) by (simp add: tx_frags_all_def told_vif_def Let_def sta_def del: ieee80211_tx_frags.simps)
      ultimately show ?thesis by (intro exI [of _ ?s]) simp
    qed
  next
    case False
    then have "queue_open ma (ti_hw_queue (sk_info s))" using assms(1,3) by (auto simp: sends_def Let_def split: if_split_asm)
    moreover have "tx_frags_all k ma tx [s] False = ieee80211_tx_frags k (told_vif ma n) sta False [s] ma"
      unfolding tx_frags_all_def told_vif_def Let_def list.case assms(2) option.case sta_def if_not_P [OF False] by simp
    ultimately show ?thesis by blast
  qed
  with one show ?thesis by metis
qed

lemma sends_frame:
  assumes "mac_frame ma ma'"
  shows "sends ma' n q = sends ma n q \<and> told_vif ma' n = told_vif ma n"
proof -
  have e: "queue_open ma' i = queue_open ma i" "hw ma' j = hw ma j" "si_type (ma_ifs ma' ! i) = si_type (ma_ifs ma ! i)"
    "si_bss (ma_ifs ma' ! i) = si_bss (ma_ifs ma ! i)" "si_monitor_active (ma_ifs ma' ! i) = si_monitor_active (ma_ifs ma ! i)"
    "si_hw_queue (ma_ifs ma' ! i) = si_hw_queue (ma_ifs ma ! i)" "ma_monitor_sdata ma' = ma_monitor_sdata ma" for i j
    using assms by (simp_all add: mac_frame_def queue_open_def hw_def)
  show ?thesis unfolding sends_def told_vif_def Let_def e by simp
qed

definition sleepy_kernel :: kernel where
  \<comment> \<open>every frame is for the first station\<close>
  "sleepy_kernel = ex_kernel\<lparr>k_sta_info_get_bss := (\<lambda>_ _ _. Some 0)\<rparr>"

definition sleepy_mac :: mac where
  "sleepy_mac = ex_mac\<lparr>ma_stas := [ex_sta]\<rparr>"

lemma sleepy_sta:
  assumes "flag s TX_CTL_INJECTED"
  shows "tx_sta_of sleepy_kernel sleepy_mac 1 s = Some (Some 0)"
proof -
  have "k_sta_info_get_bss sleepy_kernel = (\<lambda>_ _ _. Some 0)" "si_type (ma_ifs sleepy_mac ! 1) = IF_STATION"
    by (simp_all add: sleepy_kernel_def sleepy_mac_def ex_mac_def ex_if_def)
  then show ?thesis unfolding tx_sta_of_def Let_def by (simp add: assms)
qed

lemma sleepy_facts:
  "no_session sleepy_kernel sleepy_mac (Some 0) s" "in_ps (ma_stas sleepy_mac ! 0)"
  "frame_control s = 8 \<Longrightarrow> bufferable sleepy_kernel s" "addr1 s = [2, 0, 0, 0, 0, 9] \<Longrightarrow> \<not> k_is_multicast sleepy_kernel (addr1 s)"
  by (simp_all add: no_session_def hw_def sleepy_mac_def ex_mac_def in_ps_def ex_sta_def bufferable_def sleepy_kernel_def ex_kernel_def)

lemma buffers_bounded_witness:
  "\<exists>ma'. ieee80211_xmit sleepy_kernel sleepy_mac 1 (set_flag TX_CTL_INJECTED (ex_frame 30)) 0 = Inr ma' \<and> bounded sleepy_kernel ma'"
proof -
  let ?s = "upd_info (\<lambda>i. i\<lparr>ti_vif := Some 1\<rparr>) (set_flag TX_CTL_INJECTED (ex_frame 30))"
  have f: "flag ?s 7" "\<not> flag ?s 17" by simp_all (simp add: flag_def ex_frame_def ex_info_def)
  have a: "addr1 ?s = [2, 0, 0, 0, 0, 9]" "frame_control ?s = 8" by simp_all (simp add: addr1_def ex_frame_def)
  have "10 \<le> length (sk_data ?s)" "0 < length (ma_stas sleepy_mac)" by (simp_all add: sleepy_mac_def)
  then obtain ma1 where t: "ieee80211_tx sleepy_kernel sleepy_mac 1 ?s False 0 = Inr (True, ma1)"
    using injected_buffered [of ?s sleepy_kernel sleepy_mac 1 0 False 0] sleepy_sta [OF f(1)] sleepy_facts(1,2) f
      sleepy_facts(3) [OF a(2)] sleepy_facts(4) [OF a(1)] by blast
  have "k_resize_ok sleepy_kernel" "si_type (ma_ifs sleepy_mac ! 1) \<noteq> IF_MESH_POINT" "k_set_qos_hdr sleepy_kernel sleepy_mac 1 ?s = ?s"
    using a by (simp_all add: sleepy_kernel_def ex_kernel_def sleepy_mac_def ex_mac_def ex_if_def ex_set_qos_hdr_def)
  with t have x: "ieee80211_xmit sleepy_kernel sleepy_mac 1 (set_flag TX_CTL_INJECTED (ex_frame 30)) 0 = Inr ma1"
    by (simp add: ieee80211_xmit_def Let_def)
  have "bounded sleepy_kernel sleepy_mac"
    by (auto simp: bounded_def sta_ok_def if_ok_def sleepy_mac_def ex_mac_def ex_if_def ex_sta_def)
  from buffers_bounded [OF this _ _ x] x show ?thesis by (simp add: sleepy_kernel_def ex_kernel_def)
qed

end
