(* ===== verification/Inject.thy ===== *)
theory Inject
  imports Radiotap Tx_Path
begin

text \<open>
  Injection of frames with a radiotap header (\<open>ieee80211_parse_tx_radiotap\<close> and
  \<open>ieee80211_monitor_start_xmit\<close> of \<open>tx.c\<close>). The project patches the first so that a packet may
  choose the rate of its frame and the number of tries.

  The iterator of the kernel is not among the files of the repository. It is an argument of the model, with
  what the code relies on as the locale \<open>radiotap_source\<close>; hostapd's copy of the iterator, the
  theory \<open>Radiotap\<close>, is shown to keep these laws and is the one the examples are run with.
\<close>

section \<open>The source of the arguments\<close>

record rt_walk =
  rw_args :: "(nat \<times> nat) list"         \<comment> \<open>index and offset of the arguments, in the order they are returned\<close>
  rw_end :: "fault + int"                \<comment> \<open>what ends the walk\<close>
  rw_len :: nat                          \<comment> \<open>\<open>iterator._max_length\<close>\<close>

locale radiotap_source =
  fixes walk :: "byte list \<Rightarrow> fault + rt_walk option"
  assumes no_fault: "walk p \<noteq> Inl e"
    and inside: "walk p = Inr (Some w) \<Longrightarrow> (\<forall>a \<in> set (rw_args w). arg_inside (rw_len w) a) \<and> rw_len w \<le> length p"
    and ends: "walk p = Inr (Some w) \<Longrightarrow> rw_end w \<in> {Inl Uninitialised, Inr (- ENOENT), Inr (- EINVAL)}"

definition hostapd_walk :: "byte list \<Rightarrow> fault + rt_walk option" where
  "hostapd_walk p =
     fbind (ieee80211_radiotap_iterator_init p (int (length p)) []) (\<lambda>r.
     Inr (map_option (\<lambda>it. case radiotap_trace it of (l, e) \<Rightarrow>
            \<lparr>rw_args = l, rw_end = e, rw_len = rt_max_length it\<rparr>) r))"

lemma init_no_vendors:
  assumes "ieee80211_radiotap_iterator_init p n [] = Inr (Some it)"
  shows "no_vendors it"
proof -
  have lift: "\<exists>arg. r = Inr (Some arg) \<and> it = g arg"
    if "fbind r (\<lambda>r. case r of None \<Rightarrow> Inr None | Some arg \<Rightarrow> Inr (Some (g arg))) = Inr (Some it)"
    for r :: "fault + nat option" and g
    using that by (cases r) (auto split: option.splits)
  have c: "\<not> n < 8" "\<not> length p < 8" "\<not> p ! 0 \<noteq> 0" "\<not> n < uint (get_le16 p 2)"
    using assms unfolding ieee80211_radiotap_iterator_init_def by (auto simp only: if_True split: if_split_asm)
  from assms show ?thesis unfolding ieee80211_radiotap_iterator_init_def Let_def
    by (simp only: c if_False) (drule lift, elim exE conjE, simp add: no_vendors_def)
qed

interpretation hostapd_rt: radiotap_source hostapd_walk
proof
  fix p e
  from init_inv [of "int (length p)" p "[]"] show "hostapd_walk p \<noteq> Inl e"
    by (auto simp: hostapd_walk_def)
next
  fix p w
  assume "hostapd_walk p = Inr (Some w)"
  then obtain it where it: "ieee80211_radiotap_iterator_init p (int (length p)) [] = Inr (Some it)"
    and w: "w = \<lparr>rw_args = fst (radiotap_trace it), rw_end = snd (radiotap_trace it), rw_len = rt_max_length it\<rparr>"
    by (auto simp: hostapd_walk_def fbind_Inr_iff case_prod_unfold)
  have inv: "rt_inv p (int (length p)) it" using init_inv [of "int (length p)" p "[]"] it by auto
  note t = trace_inside [OF inv init_no_vendors [OF it]]
  show "(\<forall>a \<in> set (rw_args w). arg_inside (rw_len w) a) \<and> rw_len w \<le> length p"
    using t inv by (simp add: w rt_inv_def)
  show "rw_end w \<in> {Inl Uninitialised, Inr (- ENOENT), Inr (- EINVAL)}" using t by (simp add: w)
qed

section \<open>Parsing the header\<close>

abbreviation (input) "RADIOTAP_FLAGS \<equiv> (1 :: nat)"
abbreviation (input) "RADIOTAP_RATE \<equiv> (2 :: nat)"
abbreviation (input) "RADIOTAP_TX_FLAGS \<equiv> (15 :: nat)"
abbreviation (input) "RADIOTAP_DATA_RETRIES \<equiv> (17 :: nat)"

text \<open>Bits of the octet of flags and of the transmit flags.\<close>

abbreviation (input) "RADIOTAP_F_WEP \<equiv> (2 :: nat)"
abbreviation (input) "RADIOTAP_F_FRAG \<equiv> (3 :: nat)"
abbreviation (input) "RADIOTAP_F_FCS \<equiv> (4 :: nat)"
abbreviation (input) "RADIOTAP_F_TX_NOACK \<equiv> (3 :: nat)"

definition rd8 :: "skb \<Rightarrow> nat \<Rightarrow> fault + byte" where
  "rd8 s i = (if i < length (sk_data s) then Inr (sk_data s ! i)
              else Inl (Read_past_end (length (sk_data s)) (i + 1)))"

definition rd16 :: "skb \<Rightarrow> nat \<Rightarrow> fault + u16" where
  "rd16 s i = (if i + 1 < length (sk_data s) then Inr (get_le16 (sk_data s) i)
               else Inl (Read_past_end (length (sk_data s)) (i + 2)))"

definition use_flags :: "nat \<Rightarrow> byte \<Rightarrow> skb \<Rightarrow> skb option" where
  \<comment> \<open>the flags argument; \<open>None\<close>: there is no room for the frame check sequence it announces\<close>
  "use_flags len fl s =
     (if bit fl RADIOTAP_F_FCS \<and> length (sk_data s) < len + FCS_LEN then None
      else let s = (if bit fl RADIOTAP_F_FCS then s\<lparr>sk_data := take (length (sk_data s) - FCS_LEN) (sk_data s)\<rparr> else s);
               s = (if bit fl RADIOTAP_F_WEP then clear_flag TX_INTFL_DONT_ENCRYPT s else s);
               s = (if bit fl RADIOTAP_F_FRAG then clear_flag TX_CTL_DONTFRAG s else s) in
           Some s)"

definition rate_index :: "supported_band \<Rightarrow> byte \<Rightarrow> nat option" where
  "rate_index sb r = find (\<lambda>i. br_bitrate (sb_rates sb ! i) = unat r * 5) [0..<length (sb_rates sb)]"

definition bypass_info :: "nat \<Rightarrow> tx_info \<Rightarrow> tx_info" where
  \<comment> \<open>the first rate with one try, the others invalid\<close>
  "bypass_info i info =
     info\<lparr>ti_flags := set_bit TX_CTL_RC_BYPASS (ti_flags info),
          ti_rates := map2 (\<lambda>j r. if j = 0 then r\<lparr>tr_idx := s8 (int i), tr_count := 1\<rparr> else r\<lparr>tr_idx := - 1\<rparr>)
                        [0..<length (ti_rates info)] (ti_rates info)\<rparr>"

definition parse_arg :: "supported_band \<Rightarrow> nat \<Rightarrow> nat \<times> nat \<Rightarrow> skb \<Rightarrow> fault + skb option" where
  "parse_arg sb len = (\<lambda>(i, off) s.
     if i = RADIOTAP_FLAGS then fbind (rd8 s off) (\<lambda>fl. Inr (use_flags len fl s))
     else if i = RADIOTAP_TX_FLAGS then
       fbind (rd16 s off) (\<lambda>fl. Inr (Some (if bit fl RADIOTAP_F_TX_NOACK then set_flag TX_CTL_NO_ACK s else s)))
     else if i = RADIOTAP_RATE then
       fbind (rd8 s off) (\<lambda>r. Inr (map_option (\<lambda>j. upd_info (bypass_info j) s) (rate_index sb r)))
     else if i = RADIOTAP_DATA_RETRIES then
       (if flag s TX_CTL_RC_BYPASS then fbind (rd8 s off) (\<lambda>c. Inr (Some (upd_info (set_count (ucast c)) s)))
        else Inr (Some s))
     else Inr (Some s))"

fun parse_args :: "supported_band \<Rightarrow> nat \<Rightarrow> (nat \<times> nat) list \<Rightarrow> skb \<Rightarrow> fault + skb option" where
  "parse_args sb len [] s = Inr (Some s)"
| "parse_args sb len (a # as) s =
     fbind (parse_arg sb len a s) (\<lambda>r. case r of None \<Rightarrow> Inr None | Some s \<Rightarrow> parse_args sb len as s)"

definition ieee80211_parse_tx_radiotap ::
    "(byte list \<Rightarrow> fault + rt_walk option) \<Rightarrow> supported_band \<Rightarrow> skb \<Rightarrow> fault + skb option" where
  \<comment> \<open>\<open>None\<close>: false, the packet is not sent\<close>
  "ieee80211_parse_tx_radiotap walk sb s =
     fbind (walk (sk_data s)) (\<lambda>w.
     let s = set_flag TX_CTL_DONTFRAG (set_flag TX_INTFL_DONT_ENCRYPT s) in
     case w of None \<Rightarrow> Inr None
     | Some w \<Rightarrow>
         fbind (parse_args sb (rw_len w) (rw_args w) s) (\<lambda>r.
         case r of None \<Rightarrow> Inr None
         | Some s \<Rightarrow>
             fbind (rw_end w) (\<lambda>ret.
             Inr (if ret \<noteq> - ENOENT then None else Some (s\<lparr>sk_data := drop (rw_len w) (sk_data s)\<rparr>)))))"

section \<open>Sending an injected frame\<close>

record inject_env =
  ie_kernel :: kernel
  ie_walk :: "byte list \<Rightarrow> fault + rt_walk option"
  ie_can_beacon :: "chandef \<Rightarrow> nl80211_iftype \<Rightarrow> bool"   \<comment> \<open>\<open>cfg80211_reg_can_beacon\<close>\<close>
  ie_rfc1042 :: "byte list"                              \<comment> \<open>\<open>rfc1042_header\<close>\<close>

definition clear_info :: tx_info where
  "clear_info = \<lparr>ti_flags = 0, ti_band = 0, ti_hw_queue = 0,
     ti_rates = replicate IEEE80211_TX_MAX_RATES \<lparr>tr_idx = 0, tr_count = 0, tr_flags = 0\<rparr>,
     ti_rts_cts_rate_idx = 0, ti_use_rts = False, ti_use_cts_prot = False, ti_short_preamble = False,
     ti_skip_table = False, ti_vif = None, ti_hw_key = None, ti_ctl_flags = 0\<rparr>"

text \<open>The interface whose address the frame carries as its source, else the monitor interface itself.\<close>

definition candidates :: "mac \<Rightarrow> nat list" where
  "candidates ma = filter (\<lambda>n. si_running (ma_ifs ma ! n) \<and> si_type (ma_ifs ma ! n) \<notin> {IF_MONITOR, IF_AP_VLAN, IF_WDS})
     [0..<length (ma_ifs ma)]"

definition inject_sdata :: "mac \<Rightarrow> nat \<Rightarrow> skb \<Rightarrow> fault + nat" where
  "inject_sdata ma dev s =
     (if candidates ma \<noteq> [] \<and> length (sk_data s) < 16 then Inl (Read_past_end (length (sk_data s)) 16)
      else Inr (case find (\<lambda>n. si_addr (ma_ifs ma ! n) = take 6 (drop 10 (sk_data s))) (candidates ma) of
                  None \<Rightarrow> dev | Some n \<Rightarrow> n))"

definition inject_chandef :: "mac \<Rightarrow> nat \<Rightarrow> chandef option" where
  "inject_chandef ma n =
     (case si_chanctx (ma_ifs ma ! n) of
        Some c \<Rightarrow> Some c
      | None \<Rightarrow>
          (case (case ma_monitor_sdata ma of None \<Rightarrow> None | Some m \<Rightarrow> si_chanctx (ma_ifs ma ! m)) of
             Some c \<Rightarrow> Some c
           | None \<Rightarrow> if \<not> ma_use_chanctx ma then Some (ma_oper_chandef ma) else None))"

definition header_ok :: "inject_env \<Rightarrow> byte list \<Rightarrow> bool" where
  \<comment> \<open>the checks before the header is parsed\<close>
  "header_ok env p \<longleftrightarrow> 8 \<le> length p \<and> p ! 0 = 0
     \<and> (let len = unat (get_le16 p 2) in len + 2 \<le> length p
          \<and> len + k_hdrlen (ie_kernel env) (get_le16 p len) \<le> length p)"

definition inject_protocol :: "inject_env \<Rightarrow> skb \<Rightarrow> skb" where
  "inject_protocol env s =
     (let p = sk_data s; len = unat (get_le16 p 2); fc = get_le16 p len; at = len + k_hdrlen (ie_kernel env) fc in
      if k_is_data (ie_kernel env) fc \<and> at + 6 + 2 \<le> length p \<and> take 6 (drop at p) = ie_rfc1042 env
      then s\<lparr>sk_protocol := get_be16 p (at + 6)\<rparr> else s)"

definition ieee80211_monitor_start_xmit :: "inject_env \<Rightarrow> mac \<Rightarrow> nat \<Rightarrow> skb \<Rightarrow> fault + mac" where
  \<comment> \<open>\<open>dev\<close> is the monitor interface; the packet is dealt with in any case (NETDEV_TX_OK)\<close>
  "ieee80211_monitor_start_xmit env ma dev s =
     (if \<not> header_ok env (sk_data s) then Inr ma
      else
        let s = (inject_protocol env s)\<lparr>sk_info := clear_info\<lparr>ti_flags := 0x81\<rparr>\<rparr> in
        fbind (ieee80211_parse_tx_radiotap (ie_walk env) (ma_bands ma (ma_conf_band ma)) s) (\<lambda>r.
        case r of None \<Rightarrow> Inr ma
        | Some s \<Rightarrow>
            fbind (inject_sdata ma dev s) (\<lambda>n.
            case inject_chandef ma n of None \<Rightarrow> Inr ma
            | Some c \<Rightarrow>
                if \<not> ie_can_beacon env c (si_type (ma_ifs ma ! n)) then Inr ma
                else ieee80211_xmit (ie_kernel env) ma n s (cd_band c))))"

section \<open>Parsing stays inside the packet\<close>

lemma arg_sizes:
  "arg_inside n (1, off) \<Longrightarrow> off < n" "arg_inside n (2, off) \<Longrightarrow> off < n" "arg_inside n (17, off) \<Longrightarrow> off < n"
  "arg_inside n (15, off) \<Longrightarrow> off + 1 < n"
  by (simp_all add: arg_inside_def rtap_namespace_sizes_def)

text \<open>
  What the arguments of a header ask for: how many octets of check sequences its flags announce at the end of the
  packet, and whether the band has every rate it names.
\<close>

definition announces_fcs :: "byte list \<Rightarrow> nat \<times> nat \<Rightarrow> bool" where
  "announces_fcs p a \<longleftrightarrow> fst a = RADIOTAP_FLAGS \<and> bit (p ! snd a) RADIOTAP_F_FCS"

definition fcs_octets :: "byte list \<Rightarrow> (nat \<times> nat) list \<Rightarrow> nat" where
  "fcs_octets p as = FCS_LEN * length (filter (announces_fcs p) as)"

definition rates_known :: "supported_band \<Rightarrow> byte list \<Rightarrow> (nat \<times> nat) list \<Rightarrow> bool" where
  "rates_known sb p as \<longleftrightarrow> list_all (\<lambda>a. fst a = RADIOTAP_RATE \<longrightarrow> rate_index sb (p ! snd a) \<noteq> None) as"

lemma parse_arg_result:
  assumes "arg_inside len a" and "len \<le> length (sk_data s)"
  shows "\<exists>r. parse_arg sb len a s = Inr r
    \<and> (r \<noteq> None \<longleftrightarrow> (announces_fcs (sk_data s) a \<longrightarrow> len + FCS_LEN \<le> length (sk_data s)) \<and> rates_known sb (sk_data s) [a])
    \<and> (\<forall>s' \<in> set_option r. sk_data s' = take (length (sk_data s) - fcs_octets (sk_data s) [a]) (sk_data s))"
proof -
  obtain i off where a: "a = (i, off)" by (cases a)
  have r8: "rd8 s off = Inr (sk_data s ! off)" if "off < len" using that assms(2) by (simp add: rd8_def)
  have r16: "rd16 s off = Inr (get_le16 (sk_data s) off)" if "off + 1 < len" using that assms(2) by (simp add: rd16_def)
  have data: "sk_data (upd_info f s) = sk_data s" "sk_data (set_flag j s) = sk_data s" "sk_data (clear_flag j s) = sk_data s" for f j s
    by (simp_all add: upd_info_def set_flag_def clear_flag_def)
  show ?thesis
    using assms arg_sizes [of len off] unfolding a
    by (auto simp: parse_arg_def use_flags_def announces_fcs_def fcs_octets_def rates_known_def Let_def r8 r16 data)
qed

lemma parse_args_result:
  assumes "\<forall>a \<in> set as. arg_inside len a" and "len \<le> length (sk_data s)"
  shows "\<exists>r. parse_args sb len as s = Inr r
    \<and> (r \<noteq> None \<longleftrightarrow> len + fcs_octets (sk_data s) as \<le> length (sk_data s) \<and> rates_known sb (sk_data s) as)
    \<and> (\<forall>s' \<in> set_option r. sk_data s' = take (length (sk_data s) - fcs_octets (sk_data s) as) (sk_data s))"
  using assms
proof (induction as arbitrary: s)
  case Nil
  then show ?case by (simp add: fcs_octets_def rates_known_def)
next
  case (Cons a as)
  let ?p = "sk_data s"
  have split: "fcs_octets ?p (a # as) = fcs_octets ?p [a] + fcs_octets ?p as"
    "rates_known sb ?p (a # as) \<longleftrightarrow> rates_known sb ?p [a] \<and> rates_known sb ?p as"
    by (simp_all add: fcs_octets_def rates_known_def)
  have one: "announces_fcs ?p a \<Longrightarrow> fcs_octets ?p [a] = FCS_LEN" "\<not> announces_fcs ?p a \<Longrightarrow> fcs_octets ?p [a] = 0"
    by (simp_all add: fcs_octets_def)
  obtain r where r: "parse_arg sb len a s = Inr r"
    "r \<noteq> None \<longleftrightarrow> (announces_fcs ?p a \<longrightarrow> len + FCS_LEN \<le> length ?p) \<and> rates_known sb ?p [a]"
    "\<forall>s' \<in> set_option r. sk_data s' = take (length ?p - fcs_octets ?p [a]) ?p"
    using parse_arg_result [of len a s sb] Cons.prems by auto
  show ?case
  proof (cases r)
    case None
    then have "\<not> (len + fcs_octets ?p (a # as) \<le> length ?p \<and> rates_known sb ?p (a # as))"
      using r(2) one split by (cases "announces_fcs ?p a") auto
    then show ?thesis using r None by auto
  next
    case (Some s1)
    let ?q = "sk_data s1"
    have q: "?q = take (length ?p - fcs_octets ?p [a]) ?p" using r(3) Some by simp
    have room: "len + fcs_octets ?p [a] \<le> length ?p" using r(2) Some one Cons.prems(2) by (cases "announces_fcs ?p a") auto
    have len: "len \<le> length ?q" using room unfolding q by simp
    have off: "?q ! snd b = ?p ! snd b" if "b \<in> set as" "fst b \<in> {RADIOTAP_FLAGS, RADIOTAP_RATE}" for b
    proof -
      have "arg_inside len b" using that(1) Cons.prems(1) by simp
      then have "snd b < len" using that(2) arg_sizes(1,2) [of len "snd b"] by (cases b) auto
      then show ?thesis using room unfolding q by simp
    qed
    have "filter (announces_fcs ?q) as = filter (announces_fcs ?p) as"
      by (rule filter_cong) (use off in \<open>auto simp: announces_fcs_def\<close>)
    then have same: "fcs_octets ?q as = fcs_octets ?p as" by (simp add: fcs_octets_def)
    have known: "rates_known sb ?q as = rates_known sb ?p as"
      unfolding rates_known_def list_all_iff using off by auto
    have ql: "length ?q = length ?p - fcs_octets ?p [a]" unfolding q by simp
    obtain r' where r': "parse_args sb len as s1 = Inr r'"
      "r' \<noteq> None \<longleftrightarrow> len + fcs_octets ?p as \<le> length ?q \<and> rates_known sb ?p as"
      "\<forall>s' \<in> set_option r'. sk_data s' = take (length ?q - fcs_octets ?p as) ?q"
      using Cons.IH [of s1] Cons.prems len unfolding same known by auto
    have a: "rates_known sb ?p [a]" using r(2) Some by simp
    have run: "parse_args sb len (a # as) s = Inr r'" using r(1) Some r'(1) by simp
    have iff: "r' \<noteq> None \<longleftrightarrow> len + fcs_octets ?p (a # as) \<le> length ?p \<and> rates_known sb ?p (a # as)"
      unfolding r'(2) split ql using room a by (simp only: simp_thms) arith
    have cut: "take (length ?q - fcs_octets ?p as) ?q = take (length ?p - fcs_octets ?p (a # as)) ?p"
      unfolding ql split(1) unfolding q by simp
    show ?thesis using run iff r'(3) unfolding cut by blast
  qed
qed

context radiotap_source
begin

lemma parse_outcome:
  "case walk (sk_data s) of
     Inl e \<Rightarrow> False
   | Inr None \<Rightarrow> ieee80211_parse_tx_radiotap walk sb s = Inr None
   | Inr (Some w) \<Rightarrow>
       (let n = fcs_octets (sk_data s) (rw_args w) in
        if rw_len w + n \<le> length (sk_data s) \<and> rates_known sb (sk_data s) (rw_args w)
        then (case rw_end w of
                Inl e \<Rightarrow> e = Uninitialised \<and> ieee80211_parse_tx_radiotap walk sb s = Inl e
              | Inr ret \<Rightarrow>
                  if ret = - ENOENT
                  then (\<exists>s'. ieee80211_parse_tx_radiotap walk sb s = Inr (Some s')
                          \<and> sk_data s' = drop (rw_len w) (take (length (sk_data s) - n) (sk_data s)))
                  else ieee80211_parse_tx_radiotap walk sb s = Inr None)
        else ieee80211_parse_tx_radiotap walk sb s = Inr None)"
proof -
  obtain r where r: "walk (sk_data s) = Inr r" using no_fault [of "sk_data s"] by (cases "walk (sk_data s)") auto
  show ?thesis
  proof (cases r)
    case None
    then show ?thesis using r by (simp add: ieee80211_parse_tx_radiotap_def)
  next
    case (Some w)
    have len: "rw_len w \<le> length (sk_data s)" and args: "\<forall>a \<in> set (rw_args w). arg_inside (rw_len w) a"
      using inside [of "sk_data s" w] r Some by simp_all
    let ?s = "set_flag TX_CTL_DONTFRAG (set_flag TX_INTFL_DONT_ENCRYPT s)"
    let ?ok = "rw_len w + fcs_octets (sk_data s) (rw_args w) \<le> length (sk_data s) \<and> rates_known sb (sk_data s) (rw_args w)"
    obtain q where q: "parse_args sb (rw_len w) (rw_args w) ?s = Inr q" "q \<noteq> None \<longleftrightarrow> ?ok"
      "\<forall>s' \<in> set_option q. sk_data s' = take (length (sk_data s) - fcs_octets (sk_data s) (rw_args w)) (sk_data s)"
      using parse_args_result [of "rw_args w" "rw_len w" ?s sb] args len by auto
    show ?thesis
    proof (cases ?ok)
      case True
      then obtain s1 where "q = Some s1" using q(2) by auto
      then have run: "ieee80211_parse_tx_radiotap walk sb s = fbind (rw_end w) (\<lambda>ret.
          Inr (if ret \<noteq> - ENOENT then None else Some (s1\<lparr>sk_data := drop (rw_len w) (sk_data s1)\<rparr>)))"
        using r Some q(1) by (simp add: ieee80211_parse_tx_radiotap_def Let_def)
      have "sk_data s1 = take (length (sk_data s) - fcs_octets (sk_data s) (rw_args w)) (sk_data s)"
        using q(3) \<open>q = Some s1\<close> by simp
      moreover have "rw_end w \<in> {Inl Uninitialised, Inr (- ENOENT), Inr (- EINVAL)}" using ends [of "sk_data s" w] r Some by simp
      ultimately show ?thesis unfolding r Some run using True by (auto simp: Let_def)
    next
      case False
      then have "q = None" using q(2) by blast
      then have "ieee80211_parse_tx_radiotap walk sb s = Inr None"
        using r Some q(1) by (simp add: ieee80211_parse_tx_radiotap_def Let_def)
      then show ?thesis unfolding r Some sum.case option.case Let_def if_not_P [OF False] .
    qed
  qed
qed

end

text \<open>
  C18: what is left of an injected packet. Whatever a user hands to the monitor interface, no octet behind
  the packet is read while its radiotap header is parsed. The packet is accepted exactly when the iterator
  reaches the end of the header, the band has the rates the header names, and the packet has room for the check
  sequences its flags announce, four octets for each flags argument with \<open>F_FCS\<close> and none otherwise;
  then exactly the header and these octets are cut off. The only undefined step is the one of the iterator.
\<close>

theorem inject_parse_safe:
  "case hostapd_walk (sk_data s) of
     Inl e \<Rightarrow> False
   | Inr None \<Rightarrow> ieee80211_parse_tx_radiotap hostapd_walk sb s = Inr None
   | Inr (Some w) \<Rightarrow>
       (let n = fcs_octets (sk_data s) (rw_args w) in
        if rw_len w + n \<le> length (sk_data s) \<and> rates_known sb (sk_data s) (rw_args w)
        then (case rw_end w of
                Inl e \<Rightarrow> e = Uninitialised \<and> ieee80211_parse_tx_radiotap hostapd_walk sb s = Inl e
              | Inr ret \<Rightarrow>
                  if ret = - ENOENT
                  then (\<exists>s'. ieee80211_parse_tx_radiotap hostapd_walk sb s = Inr (Some s')
                          \<and> sk_data s' = drop (rw_len w) (take (length (sk_data s) - n) (sk_data s)))
                  else ieee80211_parse_tx_radiotap hostapd_walk sb s = Inr None)
        else ieee80211_parse_tx_radiotap hostapd_walk sb s = Inr None)"
  by (rule hostapd_rt.parse_outcome)

section \<open>The rate a packet asks for\<close>

fun retries :: "byte list \<Rightarrow> (nat \<times> nat) list \<Rightarrow> 5 word \<Rightarrow> 5 word" where
  \<comment> \<open>the tries that the last of the arguments for it states; five bits of them\<close>
  "retries p [] c = c"
| "retries p ((i, off) # as) c = retries p as (if i = RADIOTAP_DATA_RETRIES then ucast (p ! off) else c)"

definition parsed :: "skb \<Rightarrow> skb \<Rightarrow> bool" where
  "parsed s s' \<longleftrightarrow> sk_data s' = sk_data s \<and> sk_queue s' = sk_queue s \<and> sk_protocol s' = sk_protocol s
     \<and> ti_vif (sk_info s') = ti_vif (sk_info s) \<and> (\<forall>j < 32. j \<notin> {2, 22} \<longrightarrow> flag s' j = flag s j)"

lemma parsed_refl [simp]: "parsed s s" by (simp add: parsed_def)
lemma parsed_trans: "parsed a b \<Longrightarrow> parsed b c \<Longrightarrow> parsed a c" by (simp add: parsed_def)

definition no_control :: "nat \<Rightarrow> nat \<times> nat \<Rightarrow> bool" where
  \<comment> \<open>an argument inside the header that is neither the flags nor a rate\<close>
  "no_control len a \<longleftrightarrow> arg_inside len a \<and> fst a \<notin> {RADIOTAP_FLAGS, RADIOTAP_RATE}"

lemma parse_other:
  assumes "no_control len a" and "len \<le> length (sk_data s)"
  shows "\<exists>s'. parse_arg sb len a s = Inr (Some s') \<and> parsed s s' \<and> flag s' TX_CTL_RC_BYPASS = flag s TX_CTL_RC_BYPASS
    \<and> ti_rates (sk_info s') = (if flag s TX_CTL_RC_BYPASS
         then (ti_rates (sk_info s))[0 := (ti_rates (sk_info s) ! 0)\<lparr>tr_count := retries (sk_data s) [a] (tr_count (ti_rates (sk_info s) ! 0))\<rparr>]
         else ti_rates (sk_info s))"
proof -
  obtain i off where a: "a = (i, off)" by (cases a)
  have in8: "i = 17 \<Longrightarrow> rd8 s off = Inr (sk_data s ! off)" and in16: "i = 15 \<Longrightarrow> rd16 s off = Inr (get_le16 (sk_data s) off)"
    using assms arg_sizes(3,4) [of len off] by (auto simp: no_control_def a rd8_def rd16_def)
  consider "i = 15" | "i = 17" "flag s 22" | "i = 17" "\<not> flag s 22" | "i \<notin> {1, 2, 15, 17}"
    using assms(1) by (auto simp: no_control_def a)
  then show ?thesis
  proof cases
    case 2
    let ?s = "upd_info (set_count (ucast (sk_data s ! off))) s"
    have "parse_arg sb len a s = Inr (Some ?s)" using 2 in8 by (simp add: parse_arg_def a)
    moreover have "parsed s ?s" "flag ?s 22" using 2 by (simp_all add: parsed_def flag_def upd_info_def set_count_def)
    moreover have "ti_rates (sk_info ?s) = (ti_rates (sk_info s))[0 := (ti_rates (sk_info s) ! 0)\<lparr>tr_count := ucast (sk_data s ! off)\<rparr>]"
      by (simp add: upd_info_def set_count_def)
    ultimately show ?thesis using 2 by (intro exI [of _ ?s]) (simp add: a)
  qed (use in8 in16 in \<open>auto simp: parse_arg_def a parsed_def\<close>)
qed

lemma parse_others:
  assumes "\<forall>a \<in> set as. no_control len a" and "len \<le> length (sk_data s)" and "ti_rates (sk_info s) \<noteq> []"
  shows "\<exists>s'. parse_args sb len as s = Inr (Some s') \<and> parsed s s' \<and> flag s' TX_CTL_RC_BYPASS = flag s TX_CTL_RC_BYPASS
    \<and> ti_rates (sk_info s') = (if flag s TX_CTL_RC_BYPASS
         then (ti_rates (sk_info s))[0 := (ti_rates (sk_info s) ! 0)\<lparr>tr_count := retries (sk_data s) as (tr_count (ti_rates (sk_info s) ! 0))\<rparr>]
         else ti_rates (sk_info s))"
  using assms
proof (induction as arbitrary: s)
  case Nil
  then show ?case by simp
next
  case (Cons a as)
  let ?r = "ti_rates (sk_info s)"
  obtain i off where a: "a = (i, off)" by (cases a)
  obtain s1 where s1: "parse_arg sb len a s = Inr (Some s1)" "parsed s s1" "flag s1 22 = flag s 22"
    "ti_rates (sk_info s1) = (if flag s 22 then ?r[0 := (?r ! 0)\<lparr>tr_count := retries (sk_data s) [a] (tr_count (?r ! 0))\<rparr>] else ?r)"
    using parse_other [of len a s sb] Cons.prems by auto
  have d: "sk_data s1 = sk_data s" using s1(2) by (simp add: parsed_def)
  have ne: "ti_rates (sk_info s1) \<noteq> []" using s1(4) Cons.prems(3) by simp
  obtain s2 where s2: "parse_args sb len as s1 = Inr (Some s2)" "parsed s1 s2" "flag s2 22 = flag s1 22"
    "ti_rates (sk_info s2) = (if flag s1 22
         then (ti_rates (sk_info s1))[0 := (ti_rates (sk_info s1) ! 0)\<lparr>tr_count := retries (sk_data s1) as (tr_count (ti_rates (sk_info s1) ! 0))\<rparr>]
         else ti_rates (sk_info s1))"
    using Cons.IH [of s1] Cons.prems d ne by auto
  have "ti_rates (sk_info s2) = (if flag s 22
         then ?r[0 := (?r ! 0)\<lparr>tr_count := retries (sk_data s) (a # as) (tr_count (?r ! 0))\<rparr>] else ?r)"
    using s1(3,4) s2(4) Cons.prems(3) by (simp add: d a)
  then show ?case using s1 s2 parsed_trans [OF s1(2) s2(2)] by simp
qed

definition asks_rate :: "supported_band \<Rightarrow> byte list \<Rightarrow> rt_walk \<Rightarrow> nat \<Rightarrow> 5 word \<Rightarrow> bool" where
  \<comment> \<open>the header asks for a rate of the band, with a number of tries, and has no flags\<close>
  "asks_rate sb p w i c \<longleftrightarrow> (\<exists>pre off post. rw_args w = pre @ (RADIOTAP_RATE, off) # post
     \<and> (\<forall>a \<in> set (pre @ post). no_control (rw_len w) a) \<and> arg_inside (rw_len w) (RADIOTAP_RATE, off)
     \<and> rate_index sb (p ! off) = Some i \<and> c = retries p post 1)
   \<and> rw_end w = Inr (- ENOENT) \<and> rw_len w \<le> length p"

definition inject_rates :: "nat \<Rightarrow> 5 word \<Rightarrow> tx_rate list" where
  "inject_rates i c = \<lparr>tr_idx = s8 (int i), tr_count = c, tr_flags = 0\<rparr> # replicate 3 \<lparr>tr_idx = - 1, tr_count = 0, tr_flags = 0\<rparr>"

lemma bypass_flag:
  "flag (upd_info (bypass_info i) s) k = (k = 22 \<or> flag s k)" if "k < 32"
  using that by (auto simp: flag_def upd_info_def bypass_info_def bit_set_bit_iff)

lemma parse_rate:
  assumes "walk (sk_data s) = Inr (Some w)" and "asks_rate sb (sk_data s) w i c" and "\<not> flag s TX_CTL_RC_BYPASS"
    and "ti_rates (sk_info s) = replicate 4 \<lparr>tr_idx = 0, tr_count = 0, tr_flags = 0\<rparr>"
  shows "\<exists>s'. ieee80211_parse_tx_radiotap walk sb s = Inr (Some s') \<and> sk_data s' = drop (rw_len w) (sk_data s)
    \<and> sk_queue s' = sk_queue s \<and> sk_protocol s' = sk_protocol s \<and> ti_rates (sk_info s') = inject_rates i c
    \<and> (\<forall>j < 32. j \<noteq> 2 \<longrightarrow> flag s' j = (j \<in> {16, 22, 30} \<or> flag s j))"
proof -
  obtain pre off post where args: "rw_args w = pre @ (2, off) # post" and pre: "\<forall>a \<in> set pre. no_control (rw_len w) a"
    and post: "\<forall>a \<in> set post. no_control (rw_len w) a" and off: "arg_inside (rw_len w) (2, off)"
    and idx: "rate_index sb (sk_data s ! off) = Some i" and c: "c = retries (sk_data s) post 1"
    and e: "rw_end w = Inr (- ENOENT)" and len: "rw_len w \<le> length (sk_data s)"
    using assms(2) by (auto simp: asks_rate_def)
  let ?s = "set_flag 30 (set_flag 16 s)"
  have r: "ti_rates (sk_info ?s) = replicate 4 \<lparr>tr_idx = 0, tr_count = 0, tr_flags = 0\<rparr>" using assms(4) by simp
  obtain s1 where s1: "parse_args sb (rw_len w) pre ?s = Inr (Some s1)" "parsed ?s s1" "\<not> flag s1 22"
    "ti_rates (sk_info s1) = replicate 4 \<lparr>tr_idx = 0, tr_count = 0, tr_flags = 0\<rparr>"
    using parse_others [OF pre, of ?s sb] len assms(3) r by auto
  have d1: "sk_data s1 = sk_data s" using s1(2) by (simp add: parsed_def)
  let ?s2 = "upd_info (bypass_info i) s1"
  have rate: "parse_arg sb (rw_len w) (2, off) s1 = Inr (Some ?s2)"
    using arg_sizes(2) [OF off] len idx by (simp add: parse_arg_def rd8_def d1)
  have p2: "parsed s1 ?s2"
    using bypass_flag [of _ i s1] by (simp add: parsed_def) (simp add: upd_info_def bypass_info_def)
  have f2: "flag ?s2 22" by (simp add: bypass_flag)
  have r2: "ti_rates (sk_info ?s2) = inject_rates i 1"
    by (simp add: upd_info_def bypass_info_def s1(4) inject_rates_def numeral_eq_Suc)
  have d2: "sk_data ?s2 = sk_data s" using d1 by simp
  obtain s3 where s3: "parse_args sb (rw_len w) post ?s2 = Inr (Some s3)" "parsed ?s2 s3" "flag s3 22"
    "ti_rates (sk_info s3) = (inject_rates i 1)[0 := (inject_rates i 1 ! 0)\<lparr>tr_count := retries (sk_data s) post (tr_count (inject_rates i 1 ! 0))\<rparr>]"
    using parse_others [OF post, of ?s2 sb] len d2 f2 unfolding r2 by (auto simp: inject_rates_def)
  have app: "parse_args sb n (xs @ ys) a = fbind (parse_args sb n xs a) (\<lambda>r. case r of None \<Rightarrow> Inr None | Some b \<Rightarrow> parse_args sb n ys b)"
    for n xs ys a
  proof (induction xs arbitrary: a)
    case (Cons x xs)
    show ?case
    proof (cases "parse_arg sb n x a")
      case (Inr r)
      then show ?thesis using Cons by (cases r) simp_all
    qed simp
  qed simp
  have all: "parse_args sb (rw_len w) (rw_args w) ?s = Inr (Some s3)"
    unfolding args app by (simp add: s1(1) rate s3(1))
  have "parsed ?s s3" using parsed_trans [OF parsed_trans [OF s1(2) p2] s3(2)] .
  moreover have "ti_rates (sk_info s3) = inject_rates i c" using s3(4) by (simp add: inject_rates_def c)
  moreover have "ieee80211_parse_tx_radiotap walk sb s = Inr (Some (s3\<lparr>sk_data := drop (rw_len w) (sk_data s3)\<rparr>))"
    unfolding ieee80211_parse_tx_radiotap_def Let_def assms(1) by (simp add: all e)
  moreover have "flag (s3\<lparr>sk_data := x\<rparr>) j = flag s3 j" for x j by (simp add: flag_def)
  ultimately show ?thesis using s3(3) by (intro exI [of _ "s3\<lparr>sk_data := drop (rw_len w) (sk_data s3)\<rparr>"])
    (auto simp: parsed_def)
qed

section \<open>An injected frame on its way to the driver\<close>

definition receiver_awake :: "kernel \<Rightarrow> mac \<Rightarrow> nat \<Rightarrow> nat option \<Rightarrow> skb \<Rightarrow> bool" where
  \<comment> \<open>nobody the frame is for sleeps\<close>
  "receiver_awake k ma n sta s \<longleftrightarrow>
     awake k ma \<lparr>tx_sdata = n, tx_sta = sta, tx_key = None, tx_rate = \<lparr>tr_idx = 0, tr_count = 0, tr_flags = 0\<rparr>,
                 tx_unicast = \<not> k_is_multicast k (addr1 s), tx_ps_buffered = False\<rparr> s"

definition ready :: "kernel \<Rightarrow> mac \<Rightarrow> nat \<Rightarrow> skb \<Rightarrow> bool" where
  \<comment> \<open>a complete frame of an interface without a mesh, for a receiver that is awake and has no aggregation session, while
    the device itself is not in dynamic power save\<close>
  "ready k ma n s \<longleftrightarrow> k_resize_ok k \<and> si_type (ma_ifs ma ! n) \<noteq> IF_MESH_POINT \<and> long_enough k s
     \<and> \<not> asleep ma n (sk_queue s)
     \<and> (case tx_sta_of k ma n s of None \<Rightarrow> False | Some sta \<Rightarrow> no_session k ma sta s \<and> receiver_awake k ma n sta s)"

lemma ready_same:
  assumes "frame_control s' = frame_control s" "addr1 s' = addr1 s" "length (sk_data s') = length (sk_data s)" "sk_queue s' = sk_queue s"
    and "flag s TX_CTL_INJECTED" and "flag s' TX_CTL_INJECTED"
  shows "ready k ma n s' = ready k ma n s" "tx_sta_of k ma n s' = tx_sta_of k ma n s"
proof -
  show t: "tx_sta_of k ma n s' = tx_sta_of k ma n s" unfolding tx_sta_of_def Let_def assms(2) by (simp add: assms(5,6))
  have "long_enough k s' = long_enough k s" by (simp add: long_enough_def assms(1-3))
  then show "ready k ma n s' = ready k ma n s"
    unfolding ready_def t by (simp add: no_session_def receiver_awake_def awake_def assms split: option.split)
qed

lemma same_header:
  assumes "sk_data s' = sk_data s"
  shows "frame_control s' = frame_control s" "addr1 s' = addr1 s"
  using assms by (simp_all add: frame_control_def addr1_def)

text \<open>
  What is relied on of \<open>ieee80211_set_qos_hdr\<close>, which is not among the files of the repository: it fills in the QoS
  control field of a QoS data frame, and may mark a frame as one that is not acknowledged; it touches nothing else.
\<close>

definition fills_qos_only :: "kernel \<Rightarrow> bool" where
  "fills_qos_only k \<longleftrightarrow> (\<forall>ma n s.
     let s' = k_set_qos_hdr k ma n s; fc = frame_control s; at = k_qos_ctl_at k fc in
     sk_queue s' = sk_queue s \<and> sk_protocol s' = sk_protocol s \<and> length (sk_data s') = length (sk_data s)
     \<and> (k_is_data_qos k fc \<longrightarrow> 24 \<le> at)
     \<and> (\<forall>i. sk_data s' ! i \<noteq> sk_data s ! i \<longrightarrow> k_is_data_qos k fc \<and> i \<in> {at, at + 1})
     \<and> (\<exists>fl. sk_info s' = (sk_info s)\<lparr>ti_flags := fl\<rparr> \<and> (\<forall>j. j \<noteq> TX_CTL_NO_ACK \<longrightarrow> bit fl j = bit (ti_flags (sk_info s)) j)))"

definition same_octets :: "kernel \<Rightarrow> skb \<Rightarrow> skb \<Rightarrow> bool" where
  \<comment> \<open>the same octets, but for duration, sequence number and QoS control\<close>
  "same_octets k s s' \<longleftrightarrow> length (sk_data s') = length (sk_data s)
     \<and> (\<forall>i. i \<notin> {2, 3, 22, 23} \<and> \<not> (k_is_data_qos k (frame_control s)
            \<and> i \<in> {k_qos_ctl_at k (frame_control s), k_qos_ctl_at k (frame_control s) + 1}) \<longrightarrow> sk_data s' ! i = sk_data s ! i)"

lemma filled:
  assumes "fills_qos_only k" and "10 \<le> length (sk_data s)" and "s' = k_set_qos_hdr k ma n s"
  shows "frame_control s' = frame_control s" "addr1 s' = addr1 s" "length (sk_data s') = length (sk_data s)"
    "sk_queue s' = sk_queue s" "sk_protocol s' = sk_protocol s" "j \<noteq> TX_CTL_NO_ACK \<Longrightarrow> flag s' j = flag s j"
    "ti_rates (sk_info s') = ti_rates (sk_info s)" "ti_vif (sk_info s') = ti_vif (sk_info s)"
    "same_frame s' t \<Longrightarrow> same_octets k s t"
proof -
  let ?fc = "frame_control s"
  have len: "length (sk_data s') = length (sk_data s)" and at: "k_is_data_qos k ?fc \<longrightarrow> 24 \<le> k_qos_ctl_at k ?fc"
    and same: "\<And>i. sk_data s' ! i \<noteq> sk_data s ! i \<Longrightarrow> k_is_data_qos k ?fc \<and> i \<in> {k_qos_ctl_at k ?fc, k_qos_ctl_at k ?fc + 1}"
    and info: "\<exists>fl. sk_info s' = (sk_info s)\<lparr>ti_flags := fl\<rparr> \<and> (\<forall>j. j \<noteq> TX_CTL_NO_ACK \<longrightarrow> bit fl j = bit (ti_flags (sk_info s)) j)"
    and rest: "sk_queue s' = sk_queue s" "sk_protocol s' = sk_protocol s"
    using assms(1) unfolding fills_qos_only_def Let_def assms(3) by blast+
  have early: "sk_data s' ! i = sk_data s ! i" if "i < 24" for i
  proof (rule ccontr)
    assume "\<not> ?thesis"
    from same [OF this] at that show False by auto
  qed
  show "frame_control s' = ?fc" by (simp add: frame_control_def get_le16_def early)
  show "addr1 s' = addr1 s" unfolding addr1_def by (rule nth_equalityI) (use len assms(2) early in auto)
  show "length (sk_data s') = length (sk_data s)" by (rule len)
  show "sk_queue s' = sk_queue s" "sk_protocol s' = sk_protocol s" by (rule rest)+
  show "j \<noteq> TX_CTL_NO_ACK \<Longrightarrow> flag s' j = flag s j" "ti_rates (sk_info s') = ti_rates (sk_info s)" "ti_vif (sk_info s') = ti_vif (sk_info s)"
    using info by (auto simp: flag_def)
  show "same_octets k s t" if "same_frame s' t"
    using that same len unfolding same_frame_def same_octets_def by metis
qed

lemma ex_fills_qos: "fills_qos_only ex_kernel" "fills_qos_only (ex_kernel\<lparr>k_sta_info_get_bss := g\<rparr>)"
proof -
  have q: "ex_set_qos_hdr ma n s = (if frame_control s AND 0x8C = 0x88
      then s\<lparr>sk_data := (sk_data s)[24 := (sk_data s ! 24 AND 0x10) OR word_of_nat (sk_queue s), 25 := 0]\<rparr> else s)" for ma n s
    by (rule ex_set_qos_hdr_def)
  have i: "\<exists>fl. sk_info s = (sk_info s)\<lparr>ti_flags := fl\<rparr> \<and> (\<forall>j. j \<noteq> 2 \<longrightarrow> bit fl j = bit (ti_flags (sk_info s)) j)" for s
    by (intro exI [of _ "ti_flags (sk_info s)"]) simp
  have k: "k_set_qos_hdr ex_kernel = ex_set_qos_hdr" "k_qos_ctl_at ex_kernel = (\<lambda>_. 24)" "k_is_data_qos ex_kernel = (\<lambda>fc. fc AND 0x8C = 0x88)"
    by (simp_all add: ex_kernel_def)
  have "fills_qos_only k" if "k_set_qos_hdr k = ex_set_qos_hdr" "k_qos_ctl_at k = (\<lambda>_. 24)" "k_is_data_qos k = (\<lambda>fc. fc AND 0x8C = 0x88)" for k
    unfolding fills_qos_only_def that Let_def q by (auto simp: i dest: nth_list_update_neq split: if_splits) (metis nth_list_update_neq)+
  then show "fills_qos_only ex_kernel" "fills_qos_only (ex_kernel\<lparr>k_sta_info_get_bss := g\<rparr>)" by (simp_all add: k)
qed

lemma awake_any: "awake k ma tx s \<Longrightarrow> awake k ma tx s'" by (simp add: awake_def)

lemma filter_frame: "mac_frame ma (snd (take_ps_filter ma sta))"
  by (auto simp: take_ps_filter_def intro!: mac_frame_upd_sta split: option.split)

lemma nth_update_same: "P (f (xs ! i)) = P (xs ! i) \<Longrightarrow> P (xs[i := f (xs ! i)] ! m) = P (xs ! m)"
  by (cases "i < length xs"; cases "i = m") (simp_all add: list_update_beyond)

lemma filter_awake:
  assumes "awake k ma tx s"
  shows "awake k (snd (take_ps_filter ma sta)) tx s"
proof -
  have i: "ma_ifs (snd (take_ps_filter ma sta)) = ma_ifs ma" "hw (snd (take_ps_filter ma sta)) j = hw ma j" for j
    by (simp_all add: take_ps_filter_def upd_sta_def hw_def split: option.split)
  have u: "in_ps ((ma_stas ma)[n := (ma_stas ma ! n)\<lparr>ws_clear_ps_filt := False\<rparr>] ! m) = in_ps (ma_stas ma ! m)" for n m
    by (rule nth_update_same [where P = in_ps]) (simp add: in_ps_def)
  have p: "in_ps (ma_stas (snd (take_ps_filter ma sta)) ! m) = in_ps (ma_stas ma ! m)" for m
    by (simp add: take_ps_filter_def upd_sta_def u split: option.split)
  show ?thesis using assms by (simp add: awake_def p i ps_of_def sdata_of_def)
qed

text \<open>A frame that bypasses the rate control reaches the driver with its rates.\<close>

lemma fixed_rate_sent:
  assumes "ready k ma n s" and "sends ma n (sk_queue s)"
    and "flag s TX_CTL_INJECTED" "flag s TX_INTFL_DONT_ENCRYPT" "flag s TX_CTL_RC_BYPASS" "flag s TX_CTL_DONTFRAG"
    and "\<not> flag s TX_INTFL_RETRANSMISSION" "\<not> flag s TX_CTL_TX_OFFCHAN"
    and "sb_rates (ma_bands ma band) \<noteq> []"
    and mic: "\<And>s. k_michael_mic_add k None s = (TX_CONTINUE, s)" and qos: "fills_qos_only k"
  shows "\<exists>sta s' ma'. ieee80211_xmit k ma n s band = Inr ma' \<and> ma_driver ma' = ma_driver ma @ [(told_vif ma n, sta, s')]
    \<and> same_octets k s s' \<and> ti_rates (sk_info s') = ti_rates (sk_info s) \<and> flag s' TX_CTL_LDPC"
proof -
  define s0 where "s0 = upd_info (\<lambda>i. i\<lparr>ti_vif := Some n\<rparr>) s"
  let ?s = "k_set_qos_hdr k ma n s0"
  have d0: "sk_data s0 = sk_data s" "sk_queue s0 = sk_queue s" "ti_rates (sk_info s0) = ti_rates (sk_info s)" "ti_vif (sk_info s0) = Some n"
    "flag s0 j = flag s j" for j by (simp_all add: s0_def upd_info_def flag_def)
  have "10 \<le> length (sk_data s0)" using assms(1) by (simp add: ready_def long_enough_def d0)
  note fill = filled [OF qos this refl] and h0 = same_header [OF d0(1)]
  have fs: "flag ?s 7" "flag ?s 16" "flag ?s 22" "flag ?s 30" "\<not> flag ?s 19" "\<not> flag ?s 25"
    using assms(3-8) fill(6) by (simp_all add: d0)
  have "ready k ma n ?s = ready k ma n s"
    by (rule ready_same(1)) (simp_all add: fill(1-4) h0 d0 fs(1) assms(3))
  with assms(1) have ready: "ready k ma n ?s" by simp
  then obtain sta where sta: "tx_sta_of k ma n ?s = Some sta" "no_session k ma sta ?s" "receiver_awake k ma n sta ?s"
    and le: "long_enough k ?s" and res: "k_resize_ok k" and mesh: "si_type (ma_ifs ma ! n) \<noteq> IF_MESH_POINT"
    and awk: "\<not> asleep ma n (sk_queue ?s)"
    by (auto simp: ready_def split: option.splits)
  let ?tx = "\<lparr>tx_sdata = n, tx_sta = sta, tx_key = None, tx_rate = \<lparr>tr_idx = 0, tr_count = 0, tr_flags = 0\<rparr>,
          tx_unicast = \<not> k_is_multicast k (addr1 ?s), tx_ps_buffered = False\<rparr>"
  let ?ma = "snd (take_ps_filter ma sta)"
  have len: "10 \<le> length (sk_data ?s)" using le by (simp add: long_enough_def)
  obtain s1 where s1: "keeps ?s s1" and band: "ti_band (sk_info s1) = band"
    and hwq: "\<not> flag ?s 25 \<longrightarrow> ti_hw_queue (sk_info s1) = si_hw_queue (ma_ifs ma ! n) ! sk_queue ?s"
    and run: "ieee80211_tx k ma n ?s False band = fbind (invoke_tx_handlers k ?ma ?tx s1)
        (\<lambda>(ma, tx, out). case out of None \<Rightarrow> Inr (True, ma) | Some ss \<Rightarrow> Inr (tx_frags_all k ma tx ss False))"
    using tx_invokes [OF len sta(1,2), of band False] by blast
  have d1: "sk_data s1 = sk_data ?s" using s1 by (simp add: keeps_def)
  have fl: "flag s1 7" "flag s1 16" "flag s1 22" "flag s1 30" "\<not> flag s1 19" "\<not> flag ?s 25"
    using s1 fs by (simp_all add: keeps_def)
  have le1: "long_enough k s1" using le same_header [OF d1] by (simp add: long_enough_def d1)
  have v1: "ti_vif (sk_info s1) = Some n" and q1: "sk_queue s1 = sk_queue s" and r1: "ti_rates (sk_info s1) = ti_rates (sk_info s)"
    using s1 by (simp_all add: keeps_def fill d0)
  have aw: "awake k ?ma ?tx s1"
    using filter_awake [of k ma ?tx s1 sta] sta(3) [unfolded receiver_awake_def] awake_any by blast
  have b1: "sb_rates (ma_bands ?ma (ti_band (sk_info s1))) \<noteq> []"
    using filter_frame [of ma sta] assms(9) band by (simp add: mac_frame_def)
  have "asleep ?ma n (sk_queue s1) = asleep ma n (sk_queue ?s)"
    using s1 by (simp add: keeps_def asleep_def dynamic_ps_applies_def hw_def take_ps_filter_def upd_sta_def split: option.split)
  then have na: "\<not> asleep ?ma (tx_sdata ?tx) (sk_queue s1)" using awk by simp
  obtain ma2 s2 where inv: "invoke_tx_handlers k ?ma ?tx s1 = Inr (ma2, ?tx\<lparr>tx_key := None\<rparr>, Some [s2])"
    and f2: "fixed s1 s2" and m2: "mac_frame ?ma ma2"
    using bypass_handlers [OF fl(1-3) fl(4) fl(5) le1 _ aw _ b1 mic na] v1 by auto
  have m: "mac_frame ma ma2" by (rule mac_frame_trans [OF filter_frame m2])
  have "sends ma2 n (sk_queue s2)" using f2 q1 sends_frame [OF m] assms(2) by (simp add: fixed_def)
  moreover have "ti_vif (sk_info s2) = Some n" using f2 v1 by (simp add: fixed_def)
  moreover have "ti_hw_queue (sk_info s2) = si_hw_queue (ma_ifs ma2 ! n) ! sk_queue s2"
    using f2 hwq fl(6) q1 m by (simp add: fixed_def mac_frame_def fill(4) d0(2))
  ultimately obtain d s3 where out: "tx_frags_all k ma2 (?tx\<lparr>tx_key := None\<rparr>) [s2] False
      = (True, ma2\<lparr>ma_driver := ma_driver ma2 @ [(told_vif ma2 n, d, s3)]\<rparr>)"
    and s3: "sk_data s3 = sk_data s2" "ti_rates (sk_info s3) = ti_rates (sk_info s2)" "flag s3 22 = flag s2 22"
    using frags_all_sends by blast
  have x: "ieee80211_xmit k ma n s band = Inr (ma2\<lparr>ma_driver := ma_driver ma2 @ [(told_vif ma2 n, d, s3)]\<rparr>)"
  proof -
    have "ieee80211_tx k ma n ?s False band = Inr (True, ma2\<lparr>ma_driver := ma_driver ma2 @ [(told_vif ma2 n, d, s3)]\<rparr>)"
      unfolding run inv by (simp only: fbind_simps prod.case option.case out)
    then show ?thesis using res mesh by (simp add: ieee80211_xmit_def Let_def flip: s0_def)
  qed
  have "same_frame ?s s3"
    using f2 s3(1) d1 by (simp add: fixed_def same_frame_def)
  from fill(9) [OF this] have "same_octets k s s3" by (simp add: same_octets_def d0 h0)
  moreover have "ti_rates (sk_info s3) = ti_rates (sk_info s)" "flag s3 22" using s3 f2 fl r1 by (simp_all add: fixed_def)
  moreover have "ma_driver ma2 = ma_driver ma" "told_vif ma2 n = told_vif ma n"
    using m sends_frame [OF m] by (simp_all add: mac_frame_def)
  ultimately show ?thesis unfolding x by (intro exI conjI) (rule refl, simp_all)
qed

definition injected_skb :: "skb \<Rightarrow> byte list \<Rightarrow> skb" where
  \<comment> \<open>the frame behind a radiotap header, as the monitor interface passes it on\<close>
  "injected_skb s p = s\<lparr>sk_data := p, sk_info := clear_info\<lparr>ti_flags := 0x81\<rparr>\<rparr>"

definition injectable :: "inject_env \<Rightarrow> mac \<Rightarrow> nat \<Rightarrow> skb \<Rightarrow> nat \<Rightarrow> chandef \<Rightarrow> bool" where
  \<comment> \<open>the frame may be sent from the interface \<open>n\<close> on the channel \<open>c\<close>\<close>
  "injectable env ma dev s n c \<longleftrightarrow> inject_sdata ma dev s = Inr n \<and> inject_chandef ma n = Some c
     \<and> ie_can_beacon env c (si_type (ma_ifs ma ! n))"

lemma injectable_same: "sk_data s' = sk_data s \<Longrightarrow> injectable env ma dev s' = injectable env ma dev s"
  by (intro ext) (simp add: injectable_def inject_sdata_def)

lemma inject_protocol_keeps: "sk_data (inject_protocol env s) = sk_data s" "sk_queue (inject_protocol env s) = sk_queue s"
  by (simp_all add: inject_protocol_def Let_def)

lemma injected_flags: "flag (injected_skb s p) j \<longleftrightarrow> j \<in> {0, 7}"
proof -
  have e: "(0x81 :: u32) = set_bit 7 (set_bit 0 0)" by (simp add: set_bit_eq_or)
  have "bit (set_bit 7 (set_bit 0 0) :: u32) j \<longleftrightarrow> j \<in> {0, 7}" by (auto simp only: bit_set_bit_iff bit_0_eq) auto
  then show ?thesis unfolding e [symmetric] by (simp add: flag_def injected_skb_def clear_info_def)
qed

text \<open>
  What the monitor interface does with a packet whose header asks for a rate: the frame goes on
  with that rate and marked to bypass the rate control.
\<close>

lemma monitor_passes:
  assumes "header_ok env (sk_data s)" and "ie_walk env (sk_data s) = Inr (Some w)"
    and "asks_rate (ma_bands ma (ma_conf_band ma)) (sk_data s) w i c"
    and "injectable env ma dev (injected_skb s (drop (rw_len w) (sk_data s))) n ch"
  shows "\<exists>s'. ieee80211_monitor_start_xmit env ma dev s = ieee80211_xmit (ie_kernel env) ma n s' (cd_band ch)
    \<and> sk_data s' = drop (rw_len w) (sk_data s) \<and> sk_queue s' = sk_queue s \<and> ti_rates (sk_info s') = inject_rates i c
    \<and> (\<forall>j < 32. j \<noteq> 2 \<longrightarrow> flag s' j = (j \<in> {0, 7, 16, 22, 30}))"
proof -
  let ?s = "(inject_protocol env s)\<lparr>sk_info := clear_info\<lparr>ti_flags := 0x81\<rparr>\<rparr>"
  have d: "sk_data ?s = sk_data s" "sk_queue ?s = sk_queue s" by (simp_all add: inject_protocol_keeps)
  have f: "flag ?s j = (j \<in> {0, 7})" for j
    using injected_flags [of s "sk_data s" j] by (simp add: flag_def injected_skb_def)
  have r: "ti_rates (sk_info ?s) = replicate 4 \<lparr>tr_idx = 0, tr_count = 0, tr_flags = 0\<rparr>" by (simp add: clear_info_def)
  have w: "ie_walk env (sk_data ?s) = Inr (Some w)" and a: "asks_rate (ma_bands ma (ma_conf_band ma)) (sk_data ?s) w i c"
    using assms(2,3) d by simp_all
  obtain s' where s': "ieee80211_parse_tx_radiotap (ie_walk env) (ma_bands ma (ma_conf_band ma)) ?s = Inr (Some s')"
    "sk_data s' = drop (rw_len w) (sk_data ?s)" "sk_queue s' = sk_queue ?s" "ti_rates (sk_info s') = inject_rates i c"
    "\<forall>j < 32. j \<noteq> 2 \<longrightarrow> flag s' j = (j \<in> {16, 22, 30} \<or> flag ?s j)"
    using parse_rate [of "ie_walk env" ?s, OF w a _ r] f [of 22] by auto
  have "injectable env ma dev s' n ch"
    using assms(4) injectable_same [of s' "injected_skb s (drop (rw_len w) (sk_data s))"] s'(2) d(1)
    by (simp add: injected_skb_def)
  then have "ieee80211_monitor_start_xmit env ma dev s = ieee80211_xmit (ie_kernel env) ma n s' (cd_band ch)"
    using assms(1) s'(1) by (simp add: ieee80211_monitor_start_xmit_def injectable_def)
  with s' d f show ?thesis by (intro exI [of _ s']) auto
qed

text \<open>
  C6: an injected frame is sent at the rate it asks for. If the header of a packet names a rate
  of the band, the frame behind the header is handed to the driver at once, as its last frame:
  the same octets but for duration, sequence number and QoS control, the rate asked for as the first and only
  rate with the tries asked for. The flag that says so is also the one that asks for LDPC coding,
  and the driver sees it set.
\<close>

theorem injected_rate_used:
  assumes "header_ok env (sk_data s)" and "ie_walk env (sk_data s) = Inr (Some w)"
    and "asks_rate (ma_bands ma (ma_conf_band ma)) (sk_data s) w i c"
    and "f = injected_skb s (drop (rw_len w) (sk_data s))"
    and "injectable env ma dev f n ch" and "ready (ie_kernel env) ma n f" and "sends ma n (sk_queue s)"
    and "sb_rates (ma_bands ma (cd_band ch)) \<noteq> []"
    and "\<And>s. k_michael_mic_add (ie_kernel env) None s = (TX_CONTINUE, s)"
    and "fills_qos_only (ie_kernel env)"
  shows "\<exists>sta s' ma'. ieee80211_monitor_start_xmit env ma dev s = Inr ma'
    \<and> ma_driver ma' = ma_driver ma @ [(told_vif ma n, sta, s')] \<and> same_octets (ie_kernel env) f s'
    \<and> ti_rates (sk_info s') = inject_rates i c \<and> flag s' TX_CTL_LDPC"
proof -
  have f: "flag f TX_CTL_INJECTED" "sk_data f = drop (rw_len w) (sk_data s)" by (simp_all add: assms(4) injected_flags) (simp add: injected_skb_def)
  obtain s1 where s1: "ieee80211_monitor_start_xmit env ma dev s = ieee80211_xmit (ie_kernel env) ma n s1 (cd_band ch)"
    "sk_data s1 = sk_data f" "sk_queue s1 = sk_queue s" "ti_rates (sk_info s1) = inject_rates i c"
    and fl: "\<forall>j < 32. j \<noteq> 2 \<longrightarrow> flag s1 j = (j \<in> {0, 7, 16, 22, 30})"
    using monitor_passes [OF assms(1-3)] assms(4,5) f(2) by metis
  have fq: "sk_queue f = sk_queue s" by (simp add: assms(4) injected_skb_def)
  have "ready (ie_kernel env) ma n s1 = ready (ie_kernel env) ma n f"
    by (rule ready_same(1)) (use same_header [OF s1(2)] fl s1(2,3) fq f(1) in simp_all)
  then have "ready (ie_kernel env) ma n s1" using assms(6) by simp
  moreover have "sends ma n (sk_queue s1)" using s1(3) assms(7) by simp
  ultimately obtain sta s' ma' where "ieee80211_xmit (ie_kernel env) ma n s1 (cd_band ch) = Inr ma'"
    "ma_driver ma' = ma_driver ma @ [(told_vif ma n, sta, s')]" "same_octets (ie_kernel env) s1 s'"
    "ti_rates (sk_info s') = ti_rates (sk_info s1)" "flag s' TX_CTL_LDPC"
    using fixed_rate_sent [where s = s1 and n = n, OF _ _ _ _ _ _ _ _ assms(8-10)] fl by auto
  moreover have "same_octets (ie_kernel env) s1 s' \<Longrightarrow> same_octets (ie_kernel env) f s'"
    using s1(2) by (simp add: same_octets_def frame_control_def)
  ultimately show ?thesis using s1 by auto
qed

text \<open>For a plain header the walk is the layout that the format describes.\<close>

lemma hostapd_walk_plain:
  assumes "plain_header p"
  shows "hostapd_walk p = (case layout (present (get_le32 p 4)) 8 (unat (get_le16 p 2)) of
     (l, r) \<Rightarrow> Inr (Some \<lparr>rw_args = l, rw_end = Inr r, rw_len = unat (get_le16 p 2)\<rparr>))"
proof -
  obtain it where it: "ieee80211_radiotap_iterator_init p (int (length p)) [] = Inr (Some it)" "rt_max_length it = unat (get_le16 p 2)"
    "radiotap_args it = Inr (layout (present (get_le32 p 4)) 8 (unat (get_le16 p 2)))"
    using plain_walk [OF assms] by blast
  obtain l r where lr: "layout (present (get_le32 p 4)) 8 (unat (get_le16 p 2)) = (l, r)" by fastforce
  then have "radiotap_trace it = (l, Inr r)" using it(3) by (simp add: trace_args)
  then show ?thesis by (simp add: hostapd_walk_def it lr)
qed

definition ex_env :: inject_env where
  "ex_env = \<lparr>ie_kernel = ex_kernel, ie_walk = hostapd_walk, ie_can_beacon = (\<lambda>_ _. True),
     ie_rfc1042 = [0xaa, 0xaa, 3, 0, 0, 0]\<rparr>"

definition ex_packet :: skb where
  \<comment> \<open>a data frame behind a header that asks for 6 Mbit/s with four tries\<close>
  "ex_packet = (ex_frame 30)\<lparr>sk_data := ex_header @ sk_data (ex_frame 30)\<rparr>"

definition ex_walk :: rt_walk where
  "ex_walk = \<lparr>rw_args = [(2, 8), (15, 10), (17, 12)], rw_end = Inr (- ENOENT), rw_len = 13\<rparr>"

lemma ex_packet_walk: "ie_walk ex_env (sk_data ex_packet) = Inr (Some ex_walk)"
  using hostapd_walk_plain [OF ex_header_layout(1)] unfolding ex_packet_def ex_env_def ex_walk_def ex_header_words
  by (simp add: ex_header_words ex_header_layout(2,3) del: layout.simps)

lemma ex_packet_asks: "asks_rate ex_band (sk_data ex_packet) ex_walk 4 4"
proof -
  have a: "sk_data ex_packet ! 8 = 12" "sk_data ex_packet ! 12 = 4" "length (sk_data ex_packet) = 67"
    by (simp_all add: ex_packet_def ex_header_def ex_frame_def)
  have i: "rate_index ex_band 12 = Some 4"
    by (simp add: rate_index_def ex_band_def upt_conv_Cons)
  have n: "arg_inside 13 (2, 8)" "no_control 13 (15, 10)" "no_control 13 (17, 12)"
    by (simp_all add: no_control_def arg_inside_def rtap_namespace_sizes_def)
  show ?thesis unfolding asks_rate_def
    by (intro conjI exI [of _ "[]"] exI [of _ 8] exI [of _ "[(15, 10), (17, 12)]"])
      (simp_all add: ex_walk_def a i n)
qed

lemma ex_packet_header: "header_ok ex_env (sk_data ex_packet)"
  using ex_header_words(2) [of "sk_data (ex_frame 30)"]
  by (simp add: header_ok_def ex_packet_def ex_env_def ex_kernel_def ex_header_def ex_frame_def Let_def)

lemma ex_packet_frame: "injected_skb ex_packet (drop 13 (sk_data ex_packet)) = injected_skb (ex_frame 30) (sk_data (ex_frame 30))"
  by (simp add: injected_skb_def ex_packet_def ex_header_def)

lemma ex_frame_addr [simp]: "addr1 (injected_skb (ex_frame n) (sk_data (ex_frame n))) = [2, 0, 0, 0, 0, 9]"
    "frame_control (injected_skb (ex_frame n) (sk_data (ex_frame n))) = 8"
    "take 6 (drop 10 (sk_data (ex_frame n))) = [2, 0, 0, 0, 0, 2]"
  by (simp_all add: injected_skb_def addr1_def frame_control_def get_le16_def ex_frame_def)

lemma ex_injectable:
  assumes "ma_ifs ma = ma_ifs ex_mac" "ma_monitor_sdata ma = None" "\<not> ma_use_chanctx ma"
  shows "injectable ex_env ma 0 (injected_skb (ex_frame 30) (sk_data (ex_frame 30))) 1 (ma_oper_chandef ma)"
proof -
  have l: "sk_data (injected_skb s p) = p" for s p by (simp add: injected_skb_def)
  show ?thesis using assms
    by (simp add: injectable_def inject_sdata_def candidates_def l inject_chandef_def ex_env_def)
      (simp add: ex_mac_def ex_if_def upt_conv_Cons)
qed

lemma injected_rate_used_witness:
  "\<exists>sta s' ma'. ieee80211_monitor_start_xmit ex_env ex_mac 0 ex_packet = Inr ma'
    \<and> ma_driver ma' = [(Some 1, sta, s')] \<and> same_octets ex_kernel (injected_skb (ex_frame 30) (sk_data (ex_frame 30))) s'
    \<and> ti_rates (sk_info s') = inject_rates 4 4 \<and> flag s' TX_CTL_LDPC"
proof -
  let ?f = "injected_skb (ex_frame 30) (sk_data (ex_frame 30))"
  have m: "ma_bands ex_mac (ma_conf_band ex_mac) = ex_band" "ma_ifs ex_mac = ma_ifs ex_mac" "ma_monitor_sdata ex_mac = None"
    "\<not> ma_use_chanctx ex_mac" "ma_bands ex_mac b = ex_band" "ma_driver ex_mac = []" for b
    by (simp_all add: ex_mac_def)
  have a: "asks_rate (ma_bands ex_mac (ma_conf_band ex_mac)) (sk_data ex_packet) ex_walk 4 4" unfolding m(1) by (rule ex_packet_asks)
  have f: "?f = injected_skb ex_packet (drop (rw_len ex_walk) (sk_data ex_packet))" by (simp add: ex_walk_def ex_packet_frame)
  have t: "tx_sta_of ex_kernel ex_mac 1 ?f = Some None"
  proof -
    have "k_sta_info_get ex_kernel = (\<lambda>_ _ _. None)" "k_sta_info_get_bss ex_kernel = (\<lambda>_ _ _. None)"
      "si_type (ma_ifs ex_mac ! 1) = IF_STATION" by (simp_all add: ex_kernel_def ex_mac_def ex_if_def)
    then show ?thesis unfolding tx_sta_of_def Let_def by simp
  qed
  have r: "ready (ie_kernel ex_env) ex_mac 1 ?f"
    unfolding ex_env_def inject_env.select_convs ready_def t option.case
    by (simp add: no_session_def receiver_awake_def awake_def long_enough_def asleep_def)
      (simp add: ex_kernel_def ex_mac_def ex_if_def injected_skb_def ex_frame_def)
  have s: "sends ex_mac 1 (sk_queue ex_packet)" "told_vif ex_mac 1 = Some 1"
    by (simp_all add: sends_def queue_open_def told_vif_def ex_mac_def ex_if_def ex_packet_def ex_frame_def)
  have b: "sb_rates (ma_bands ex_mac (cd_band (ma_oper_chandef ex_mac))) \<noteq> []" by (simp add: ex_mac_def ex_band_def)
  have e: "k_michael_mic_add (ie_kernel ex_env) None s = (TX_CONTINUE, s)" "fills_qos_only (ie_kernel ex_env)" "ie_kernel ex_env = ex_kernel" for s
    using ex_fills_qos(1) by (simp_all add: ex_env_def ex_kernel_def)
  show ?thesis
    using injected_rate_used [OF ex_packet_header ex_packet_walk a f ex_injectable [OF m(2-4)] r s(1) b e(1,2)] by (simp only: s(2) m(6) append_Nil e(3))
qed

section \<open>A rate that is lost\<close>

lemma purge_lengths:
  "length (ma_stas (purge_if_full k ma)) = length (ma_stas ma)" "ma_driver (purge_if_full k ma) = ma_driver ma"
  "length (ws_ps_tx_buf (ma_stas (purge_if_full k ma) ! n)) = length (ws_ps_tx_buf (ma_stas ma ! n))" if "n < length (ma_stas ma)"
proof -
  have "length (snd (purge_acs as b)) = length b" for as b
  proof (induction as arbitrary: b)
    case (Cons a as)
    then show ?case by (simp add: Let_def case_prod_unfold)
  qed simp
  then have "length (ws_ps_tx_buf (snd (purge_sta st))) = length (ws_ps_tx_buf st)" for st
    by (simp add: purge_sta_def case_prod_unfold Let_def del: purge_acs.simps)
  then show "length (ws_ps_tx_buf (ma_stas (purge_if_full k ma) ! n)) = length (ws_ps_tx_buf (ma_stas ma ! n))"
    using that by (simp add: purge_if_full_def purge_old_ps_buffers_def Let_def)
qed (simp_all add: purge_if_full_def purge_old_ps_buffers_def Let_def)

lemma queue_ps_last:
  assumes "n < length (ma_stas ma)" and "ac < length (ws_ps_tx_buf (ma_stas ma ! n))"
  shows "\<exists>b. ws_ps_tx_buf (ma_stas (queue_ps k n ac s ma) ! n) ! ac = b @ [s]"
    and "ma_driver (queue_ps k n ac s ma) = ma_driver ma"
  using assms by (simp_all add: queue_ps_def Let_def upd_sta_def)



end
