(* ===== verification/Eloop.thy ===== *)
theory Eloop
  imports Prelude
begin

text \<open>
  The event loop (\<open>utils/eloop.c\<close>): timeouts in the order of their time, the tables of sockets, the
  pending signals, and one round of \<open>eloop_run\<close>, for the variant with \<open>select\<close>. Times are
  \<open>os_time_t\<close>, a signed \<open>long\<close> of 32 bits on the routers the project builds for. What a handler
  does to the loop is a list of operations on it.
\<close>

unbundle bit_operations_syntax

section \<open>Times\<close>

type_synonym os_time = "32 word"         \<comment> \<open>read as a signed number\<close>

record os_reltime =
  rel_sec :: os_time
  rel_usec :: os_time

definition os_reltime_before :: "os_reltime \<Rightarrow> os_reltime \<Rightarrow> bool" where
  "os_reltime_before a b \<longleftrightarrow> sint (rel_sec a) < sint (rel_sec b)
     \<or> (rel_sec a = rel_sec b \<and> sint (rel_usec a) < sint (rel_usec b))"

definition os_reltime_sub :: "os_reltime \<Rightarrow> os_reltime \<Rightarrow> os_reltime" where
  "os_reltime_sub a b =
     (let s = rel_sec a - rel_sec b; u = rel_usec a - rel_usec b in
      if sint u < 0 then \<lparr>rel_sec = s - 1, rel_usec = u + 1000000\<rparr> else \<lparr>rel_sec = s, rel_usec = u\<rparr>)"

lemma sint_minus_million:
  fixes u :: "32 word"
  assumes "1000000 \<le> sint u"
  shows "sint (u - 1000000) = sint u - 1000000"
proof -
  have "sint u < 2 ^ 31" using sint_less [of u] by simp
  then have "signed_take_bit 31 (sint u - 1000000) = sint u - 1000000"
    using assms by (intro signed_take_bit_int_eq_self) simp_all
  then show ?thesis by (simp add: sint_word_ariths)
qed

function carry_usec :: "os_time \<Rightarrow> os_time \<Rightarrow> os_reltime" where
  "carry_usec s u = (if sint u \<ge> 1000000 then carry_usec (s + 1) (u - 1000000) else \<lparr>rel_sec = s, rel_usec = u\<rparr>)"
  by pat_completeness auto
termination
  by (relation "measure (\<lambda>(s, u). nat (sint u))") (auto simp: sint_minus_million)

declare carry_usec.simps [simp del]

section \<open>Timeouts\<close>

record 'h eloop_timeout =
  to_time :: os_reltime
  to_eloop :: nat                        \<comment> \<open>\<open>eloop_data\<close> and \<open>user_data\<close>, as addresses\<close>
  to_user :: nat
  to_handler :: 'h

fun insert_timeout :: "'h eloop_timeout \<Rightarrow> 'h eloop_timeout list \<Rightarrow> 'h eloop_timeout list" where
  "insert_timeout t [] = [t]"
| "insert_timeout t (x # xs) =
     (if os_reltime_before (to_time t) (to_time x) then t # x # xs else x # insert_timeout t xs)"

definition timeout_after :: "os_reltime \<Rightarrow> u32 \<Rightarrow> u32 \<Rightarrow> os_reltime option" where
  \<comment> \<open>\<open>None\<close>: too long a timeout to ever happen\<close>
  "timeout_after now secs usecs =
     (let s = rel_sec now + secs in
      if sint s < sint (rel_sec now) then None else Some (carry_usec s (rel_usec now + usecs)))"

definition eloop_register_timeout ::
    "bool \<Rightarrow> os_reltime option \<Rightarrow> u32 \<Rightarrow> u32 \<Rightarrow> 'h \<Rightarrow> nat \<Rightarrow> nat \<Rightarrow> 'h eloop_timeout list \<Rightarrow> int \<times> 'h eloop_timeout list" where
  \<comment> \<open>the first two arguments: whether memory is found, and what \<open>os_get_reltime\<close> gives\<close>
  "eloop_register_timeout mem now secs usecs h e u q =
     (if \<not> mem then (- 1, q)
      else case now of None \<Rightarrow> (- 1, q)
      | Some now \<Rightarrow>
          (case timeout_after now secs usecs of
             None \<Rightarrow> (0, q)
           | Some t \<Rightarrow> (0, insert_timeout \<lparr>to_time = t, to_eloop = e, to_user = u, to_handler = h\<rparr> q)))"

definition timeout_matches :: "'h \<Rightarrow> nat option \<Rightarrow> nat option \<Rightarrow> 'h eloop_timeout \<Rightarrow> bool" where
  \<comment> \<open>\<open>None\<close> is \<open>ELOOP_ALL_CTX\<close>\<close>
  "timeout_matches h e u t \<longleftrightarrow> to_handler t = h \<and> e \<in> {None, Some (to_eloop t)} \<and> u \<in> {None, Some (to_user t)}"

fun eloop_cancel_timeout :: "'h \<Rightarrow> nat option \<Rightarrow> nat option \<Rightarrow> 'h eloop_timeout list \<Rightarrow> nat \<times> 'h eloop_timeout list" where
  "eloop_cancel_timeout h e u [] = (0, [])"
| "eloop_cancel_timeout h e u (t # q) =
     (let (n, q') = eloop_cancel_timeout h e u q in
      if timeout_matches h e u t then (n + 1, q') else (n, t # q'))"

fun eloop_cancel_timeout_one ::
    "os_reltime \<Rightarrow> 'h \<Rightarrow> nat \<Rightarrow> nat \<Rightarrow> 'h eloop_timeout list \<Rightarrow> nat \<times> os_reltime \<times> 'h eloop_timeout list" where
  "eloop_cancel_timeout_one now h e u [] = (0, \<lparr>rel_sec = 0, rel_usec = 0\<rparr>, [])"
| "eloop_cancel_timeout_one now h e u (t # q) =
     (if timeout_matches h (Some e) (Some u) t then
        (1, if os_reltime_before now (to_time t) then os_reltime_sub (to_time t) now
            else \<lparr>rel_sec = 0, rel_usec = 0\<rparr>, q)
      else let (n, r, q') = eloop_cancel_timeout_one now h e u q in (n, r, t # q'))"

definition eloop_is_timeout_registered :: "'h \<Rightarrow> nat \<Rightarrow> nat \<Rightarrow> 'h eloop_timeout list \<Rightarrow> bool" where
  "eloop_is_timeout_registered h e u q \<longleftrightarrow> find (timeout_matches h (Some e) (Some u)) q \<noteq> None"

text \<open>
  The time of the first timeout is moved, if it is after (or before) the time asked for. The new
  timeout is registered with a reading of the clock of its own.
\<close>

definition eloop_move_timeout ::
    "(os_reltime \<Rightarrow> os_reltime \<Rightarrow> bool) \<Rightarrow> os_reltime \<Rightarrow> bool \<Rightarrow> os_reltime option \<Rightarrow> u32 \<Rightarrow> u32 \<Rightarrow> 'h \<Rightarrow> nat \<Rightarrow> nat
      \<Rightarrow> 'h eloop_timeout list \<Rightarrow> int \<times> 'h eloop_timeout list" where
  "eloop_move_timeout due now mem now2 secs usecs h e u q =
     (case find (timeout_matches h (Some e) (Some u)) q of
        None \<Rightarrow> (- 1, q)
      | Some t \<Rightarrow>
          if due \<lparr>rel_sec = secs, rel_usec = usecs\<rparr> (os_reltime_sub (to_time t) now)
          then (1, snd (eloop_register_timeout mem now2 secs usecs h e u
                          (snd (eloop_cancel_timeout h (Some e) (Some u) q))))
          else (0, q))"

definition eloop_deplete_timeout ::
    "os_reltime \<Rightarrow> bool \<Rightarrow> os_reltime option \<Rightarrow> u32 \<Rightarrow> u32 \<Rightarrow> 'h \<Rightarrow> nat \<Rightarrow> nat
      \<Rightarrow> 'h eloop_timeout list \<Rightarrow> int \<times> 'h eloop_timeout list" where
  "eloop_deplete_timeout = eloop_move_timeout (\<lambda>requested remaining. os_reltime_before requested remaining)"

definition eloop_replenish_timeout ::
    "os_reltime \<Rightarrow> bool \<Rightarrow> os_reltime option \<Rightarrow> u32 \<Rightarrow> u32 \<Rightarrow> 'h \<Rightarrow> nat \<Rightarrow> nat
      \<Rightarrow> 'h eloop_timeout list \<Rightarrow> int \<times> 'h eloop_timeout list" where
  "eloop_replenish_timeout = eloop_move_timeout (\<lambda>requested remaining. os_reltime_before remaining requested)"

definition eloop_due :: "os_reltime \<Rightarrow> 'h eloop_timeout list \<Rightarrow> ('h eloop_timeout \<times> 'h eloop_timeout list) option" where
  \<comment> \<open>the timeout that has occurred, taken from the list\<close>
  "eloop_due now q =
     (case q of [] \<Rightarrow> None | t # q' \<Rightarrow> if os_reltime_before now (to_time t) then None else Some (t, q'))"

section \<open>Sockets and signals\<close>

datatype eloop_event_type = EVENT_TYPE_READ | EVENT_TYPE_WRITE | EVENT_TYPE_EXCEPTION

record 'h eloop_sock =
  es_sock :: int
  es_eloop :: nat
  es_user :: nat
  es_handler :: 'h

record 'h eloop_sock_table =
  et_table :: "'h eloop_sock list"
  et_changed :: bool

record 'h eloop_signal =
  eg_sig :: int
  eg_user :: nat
  eg_handler :: 'h
  eg_signaled :: nat

record 'h eloop_data =
  el_max_sock :: int
  el_count :: nat
  el_readers :: "'h eloop_sock_table"
  el_writers :: "'h eloop_sock_table"
  el_exceptions :: "'h eloop_sock_table"
  el_timeout :: "'h eloop_timeout list"
  el_signals :: "'h eloop_signal list"
  el_signaled :: nat
  el_pending_terminate :: bool
  el_terminate :: bool

fun eloop_get_sock_table :: "eloop_event_type \<Rightarrow> 'h eloop_data \<Rightarrow> 'h eloop_sock_table" where
  "eloop_get_sock_table EVENT_TYPE_READ = el_readers"
| "eloop_get_sock_table EVENT_TYPE_WRITE = el_writers"
| "eloop_get_sock_table EVENT_TYPE_EXCEPTION = el_exceptions"

fun upd_sock_table ::
    "eloop_event_type \<Rightarrow> ('h eloop_sock_table \<Rightarrow> 'h eloop_sock_table) \<Rightarrow> 'h eloop_data \<Rightarrow> 'h eloop_data" where
  "upd_sock_table EVENT_TYPE_READ f el = el\<lparr>el_readers := f (el_readers el)\<rparr>"
| "upd_sock_table EVENT_TYPE_WRITE f el = el\<lparr>el_writers := f (el_writers el)\<rparr>"
| "upd_sock_table EVENT_TYPE_EXCEPTION f el = el\<lparr>el_exceptions := f (el_exceptions el)\<rparr>"

definition eloop_init :: "'h eloop_data" where
  "eloop_init =
     (let t = \<lparr>et_table = [], et_changed = False\<rparr> in
      \<lparr>el_max_sock = 0, el_count = 0, el_readers = t, el_writers = t, el_exceptions = t, el_timeout = [],
       el_signals = [], el_signaled = 0, el_pending_terminate = False, el_terminate = False\<rparr>)"

definition eloop_sock_table_add_sock ::
    "bool \<Rightarrow> eloop_event_type \<Rightarrow> int \<Rightarrow> 'h \<Rightarrow> nat \<Rightarrow> nat \<Rightarrow> 'h eloop_data \<Rightarrow> int \<times> 'h eloop_data" where
  "eloop_sock_table_add_sock mem ty sock h e u el =
     (if \<not> mem then (- 1, el)
      else (0, (upd_sock_table ty (\<lambda>t. \<lparr>et_table = et_table t @ [\<lparr>es_sock = sock, es_eloop = e, es_user = u, es_handler = h\<rparr>],
                                       et_changed = True\<rparr>) el)
                 \<lparr>el_max_sock := if sock > el_max_sock el then sock else el_max_sock el, el_count := el_count el + 1\<rparr>))"

fun remove_sock :: "int \<Rightarrow> 'h eloop_sock list \<Rightarrow> 'h eloop_sock list option" where
  \<comment> \<open>the first entry of the socket is taken out; \<open>None\<close>: there is none\<close>
  "remove_sock sock [] = None"
| "remove_sock sock (x # xs) = (if es_sock x = sock then Some xs else map_option ((#) x) (remove_sock sock xs))"

definition eloop_sock_table_remove_sock :: "eloop_event_type \<Rightarrow> int \<Rightarrow> 'h eloop_data \<Rightarrow> 'h eloop_data" where
  "eloop_sock_table_remove_sock ty sock el =
     (case remove_sock sock (et_table (eloop_get_sock_table ty el)) of
        None \<Rightarrow> el
      | Some xs \<Rightarrow> (upd_sock_table ty (\<lambda>t. \<lparr>et_table = xs, et_changed = True\<rparr>) el)\<lparr>el_count := el_count el - 1\<rparr>)"

definition eloop_register_sock ::
    "bool \<Rightarrow> int \<Rightarrow> eloop_event_type \<Rightarrow> 'h \<Rightarrow> nat \<Rightarrow> nat \<Rightarrow> 'h eloop_data \<Rightarrow> fault + int \<times> 'h eloop_data" where
  "eloop_register_sock mem sock ty h e u el =
     (if sock < 0 then Inl Abort else Inr (eloop_sock_table_add_sock mem ty sock h e u el))"

definition eloop_unregister_sock :: "int \<Rightarrow> eloop_event_type \<Rightarrow> 'h eloop_data \<Rightarrow> 'h eloop_data" where
  "eloop_unregister_sock sock ty el = eloop_sock_table_remove_sock ty sock el"

abbreviation (input) "SIGINT \<equiv> (2 :: int)"
abbreviation (input) "SIGTERM \<equiv> (15 :: int)"

fun count_signal :: "int \<Rightarrow> 'h eloop_signal list \<Rightarrow> 'h eloop_signal list" where
  "count_signal sig [] = []"
| "count_signal sig (g # gs) =
     (if eg_sig g = sig then g\<lparr>eg_signaled := eg_signaled g + 1\<rparr> # gs else g # count_signal sig gs)"

definition eloop_handle_signal :: "int \<Rightarrow> 'h eloop_data \<Rightarrow> 'h eloop_data" where
  "eloop_handle_signal sig el =
     el\<lparr>el_pending_terminate := el_pending_terminate el \<or> sig \<in> {SIGINT, SIGTERM},
        el_signaled := el_signaled el + 1, el_signals := count_signal sig (el_signals el)\<rparr>"

definition eloop_register_signal :: "bool \<Rightarrow> int \<Rightarrow> 'h \<Rightarrow> nat \<Rightarrow> 'h eloop_data \<Rightarrow> int \<times> 'h eloop_data" where
  "eloop_register_signal mem sig h u el =
     (if \<not> mem then (- 1, el)
      else (0, el\<lparr>el_signals := el_signals el @ [\<lparr>eg_sig = sig, eg_user = u, eg_handler = h, eg_signaled = 0\<rparr>]\<rparr>))"

definition eloop_register_signal_terminate :: "bool \<times> bool \<Rightarrow> 'h \<Rightarrow> nat \<Rightarrow> 'h eloop_data \<Rightarrow> int \<times> 'h eloop_data" where
  "eloop_register_signal_terminate mem h u el =
     (let (ret, el) = eloop_register_signal (fst mem) SIGINT h u el in
      if ret = 0 then eloop_register_signal (snd mem) SIGTERM h u el else (ret, el))"

section \<open>A round of the loop\<close>

text \<open>A call the loop makes, and the operations a handler may do on the loop meanwhile.\<close>

datatype 'h eloop_call =
    Call_timeout 'h nat nat
  | Call_signal 'h int nat
  | Call_sock 'h eloop_event_type int nat nat

datatype 'h eloop_op =
    Op_register_timeout bool "os_reltime option" u32 u32 'h nat nat
  | Op_cancel_timeout 'h "nat option" "nat option"
  | Op_register_sock bool int eloop_event_type 'h nat nat
  | Op_unregister_sock int eloop_event_type
  | Op_terminate

fun eloop_do :: "'h eloop_op \<Rightarrow> 'h eloop_data \<Rightarrow> 'h eloop_data" where
  "eloop_do (Op_register_timeout mem now s us h e u) el =
     el\<lparr>el_timeout := snd (eloop_register_timeout mem now s us h e u (el_timeout el))\<rparr>"
| "eloop_do (Op_cancel_timeout h e u) el = el\<lparr>el_timeout := snd (eloop_cancel_timeout h e u (el_timeout el))\<rparr>"
| "eloop_do (Op_register_sock mem sock ty h e u) el = snd (eloop_sock_table_add_sock mem ty sock h e u el)"
| "eloop_do (Op_unregister_sock sock ty) el = eloop_unregister_sock sock ty el"
| "eloop_do Op_terminate el = el\<lparr>el_terminate := True\<rparr>"

text \<open>
  What the loop has done: the state, and the calls so far, each with the state it was made in.
\<close>

type_synonym 'h eloop_run = "'h eloop_data \<times> ('h eloop_call \<times> 'h eloop_data) list"

definition call_handler :: "('h eloop_call \<Rightarrow> 'h eloop_op list) \<Rightarrow> 'h eloop_call \<Rightarrow> 'h eloop_run \<Rightarrow> 'h eloop_run" where
  "call_handler beh c = (\<lambda>(el, l). (foldl (\<lambda>el a. eloop_do a el) el (beh c), l @ [(c, el)]))"

fun run_signals :: "('h eloop_call \<Rightarrow> 'h eloop_op list) \<Rightarrow> nat list \<Rightarrow> 'h eloop_run \<Rightarrow> 'h eloop_run" where
  "run_signals beh [] r = r"
| "run_signals beh (i # is) (el, l) =
     (let g = el_signals el ! i in
      run_signals beh is
        (if eg_signaled g = 0 then (el, l)
         else call_handler beh (Call_signal (eg_handler g) (eg_sig g) (eg_user g))
                (el\<lparr>el_signals := (el_signals el)[i := g\<lparr>eg_signaled := 0\<rparr>]\<rparr>, l)))"

definition eloop_process_pending_signals ::
    "('h eloop_call \<Rightarrow> 'h eloop_op list) \<Rightarrow> 'h eloop_run \<Rightarrow> 'h eloop_run" where
  "eloop_process_pending_signals beh = (\<lambda>(el, l).
     if el_signaled el = 0 then (el, l)
     else run_signals beh [0..<length (el_signals el)] (el\<lparr>el_signaled := 0, el_pending_terminate := False\<rparr>, l))"

definition eloop_process_timeout ::
    "('h eloop_call \<Rightarrow> 'h eloop_op list) \<Rightarrow> os_reltime \<Rightarrow> 'h eloop_run \<Rightarrow> 'h eloop_run" where
  "eloop_process_timeout beh now = (\<lambda>(el, l).
     case eloop_due now (el_timeout el) of
       None \<Rightarrow> (el, l)
     | Some (t, q) \<Rightarrow> call_handler beh (Call_timeout (to_handler t) (to_eloop t) (to_user t)) (el\<lparr>el_timeout := q\<rparr>, l))"

fun dispatch_loop ::
    "('h eloop_call \<Rightarrow> 'h eloop_op list) \<Rightarrow> eloop_event_type \<Rightarrow> (int \<Rightarrow> bool) \<Rightarrow> nat \<Rightarrow> nat \<Rightarrow> 'h eloop_run \<Rightarrow> 'h eloop_run" where
  \<comment> \<open>\<open>n\<close> entries from the index \<open>i\<close> on; without a change of the table their number stays the same\<close>
  "dispatch_loop beh ty fds i 0 r = r"
| "dispatch_loop beh ty fds i (Suc n) (el, l) =
     (let x = et_table (eloop_get_sock_table ty el) ! i in
      if fds (es_sock x) then
        (let (el, l) = call_handler beh (Call_sock (es_handler x) ty (es_sock x) (es_eloop x) (es_user x)) (el, l) in
         if et_changed (eloop_get_sock_table ty el) then (el, l) else dispatch_loop beh ty fds (i + 1) n (el, l))
      else dispatch_loop beh ty fds (i + 1) n (el, l))"

definition eloop_sock_table_dispatch ::
    "('h eloop_call \<Rightarrow> 'h eloop_op list) \<Rightarrow> eloop_event_type \<Rightarrow> (int \<Rightarrow> bool) \<Rightarrow> 'h eloop_run \<Rightarrow> 'h eloop_run" where
  "eloop_sock_table_dispatch beh ty fds = (\<lambda>(el, l).
     let el = upd_sock_table ty (\<lambda>t. t\<lparr>et_changed := False\<rparr>) el in
     dispatch_loop beh ty fds 0 (length (et_table (eloop_get_sock_table ty el))) (el, l))"

text \<open>
  One round: the signals that arrived, the time when \<open>select\<close> returned, and its result.
  \<open>Select_error\<close> is an error other than \<open>EINTR\<close>, \<open>Select_none\<close> a result of zero or an interruption.
\<close>

datatype select_result =
    Select_error
  | Select_none
  | Select_ready "eloop_event_type \<Rightarrow> int \<Rightarrow> bool"

record eloop_env =
  ev_signals :: "int list"
  ev_now :: os_reltime
  ev_select :: select_result

definition eloop_running :: "'h eloop_data \<Rightarrow> bool" where
  "eloop_running el \<longleftrightarrow> \<not> el_terminate el \<and> (el_timeout el \<noteq> [] \<or> et_table (el_readers el) \<noteq> []
     \<or> et_table (el_writers el) \<noteq> [] \<or> et_table (el_exceptions el) \<noteq> [])"

definition eloop_wait :: "os_reltime \<Rightarrow> 'h eloop_data \<Rightarrow> os_reltime option" where
  \<comment> \<open>how long \<open>select\<close> waits at most\<close>
  "eloop_wait now el =
     (case el_timeout el of
        [] \<Rightarrow> None
      | t # _ \<Rightarrow> Some (if os_reltime_before now (to_time t) then os_reltime_sub (to_time t) now
                      else \<lparr>rel_sec = 0, rel_usec = 0\<rparr>))"

definition eloop_round :: "('h eloop_call \<Rightarrow> 'h eloop_op list) \<Rightarrow> eloop_env \<Rightarrow> 'h eloop_run \<Rightarrow> bool \<times> 'h eloop_run" where
  \<comment> \<open>whether the loop goes on, and what it did\<close>
  "eloop_round beh ev = (\<lambda>(el, l).
     let el = foldl (\<lambda>el g. eloop_handle_signal g el) el (ev_signals ev) in
     if ev_select ev = Select_error then (False, (el, l))
     else
       let r = eloop_process_timeout beh (ev_now ev) (eloop_process_pending_signals beh (el, l)) in
       (True,
        case ev_select ev of
          Select_ready fds \<Rightarrow>
            eloop_sock_table_dispatch beh EVENT_TYPE_EXCEPTION (fds EVENT_TYPE_EXCEPTION)
              (eloop_sock_table_dispatch beh EVENT_TYPE_WRITE (fds EVENT_TYPE_WRITE)
                (eloop_sock_table_dispatch beh EVENT_TYPE_READ (fds EVENT_TYPE_READ) r))
        | _ \<Rightarrow> r))"

fun eloop_rounds :: "('h eloop_call \<Rightarrow> 'h eloop_op list) \<Rightarrow> eloop_env list \<Rightarrow> 'h eloop_run \<Rightarrow> 'h eloop_run" where
  \<comment> \<open>\<open>eloop_run\<close> as far as the events are given\<close>
  "eloop_rounds beh [] r = r"
| "eloop_rounds beh (ev # evs) (el, l) =
     (if \<not> eloop_running el then (el\<lparr>el_terminate := False\<rparr>, l)
      else let (go, r) = eloop_round beh ev (el, l) in if go then eloop_rounds beh evs r else r)"

section \<open>The order of the timeouts\<close>

definition not_after :: "os_reltime \<Rightarrow> os_reltime \<Rightarrow> bool" where
  "not_after a b \<longleftrightarrow> \<not> os_reltime_before b a"

lemma reltime_order:
  "os_reltime_before a b \<Longrightarrow> not_after a b" "not_after a a"
  "not_after a b \<Longrightarrow> not_after b c \<Longrightarrow> not_after a c"
proof -
  have eq: "x = y \<longleftrightarrow> sint x = sint y" for x y :: os_time by (rule word_eq_iff_signed)
  show "os_reltime_before a b \<Longrightarrow> not_after a b" "not_after a a" "not_after a b \<Longrightarrow> not_after b c \<Longrightarrow> not_after a c"
    by (auto simp: not_after_def os_reltime_before_def eq)
qed

definition sorted_timeouts :: "'h eloop_timeout list \<Rightarrow> bool" where
  "sorted_timeouts = sorted_wrt (\<lambda>a b. not_after (to_time a) (to_time b))"

lemma set_insert_timeout: "set (insert_timeout t q) = insert t (set q)"
  by (induction q) auto

lemma sorted_insert_timeout: "sorted_timeouts q \<Longrightarrow> sorted_timeouts (insert_timeout t q)"
proof (induction q)
  case (Cons x q)
  then show ?case
    by (auto simp: sorted_timeouts_def set_insert_timeout dest: reltime_order(1) intro: reltime_order(3))
      (simp add: not_after_def)
qed (simp add: sorted_timeouts_def)

lemma cancel_filter: "eloop_cancel_timeout h e u q
    = (length (filter (timeout_matches h e u) q), filter (\<lambda>t. \<not> timeout_matches h e u t) q)"
  by (induction q) (simp_all add: Let_def)

lemma sorted_register: "sorted_timeouts q \<Longrightarrow> sorted_timeouts (snd (eloop_register_timeout mem now s us h e u q))"
  by (simp add: eloop_register_timeout_def sorted_insert_timeout split: option.split)

lemma sorted_cancel: "sorted_timeouts q \<Longrightarrow> sorted_timeouts (snd (eloop_cancel_timeout h e u q))"
  by (simp add: cancel_filter sorted_timeouts_def sorted_wrt_filter)

lemma due_first:
  assumes "sorted_timeouts q" and "eloop_due now q = Some (t, q')"
  shows "sorted_timeouts q' \<and> not_after (to_time t) now \<and> (\<forall>t' \<in> set q'. not_after (to_time t) (to_time t'))"
  using assms by (auto simp: eloop_due_def sorted_timeouts_def not_after_def split: list.split_asm if_split_asm)

text \<open>What the operations and the calls do to the loop.\<close>

lemma timeout_upd_sock [simp]: "el_timeout (upd_sock_table ty f el) = el_timeout el"
  by (cases ty) simp_all

lemma sorted_do: "sorted_timeouts (el_timeout el) \<Longrightarrow> sorted_timeouts (el_timeout (eloop_do a el))"
  by (cases a) (simp_all add: sorted_register sorted_cancel eloop_sock_table_add_sock_def eloop_unregister_sock_def
      eloop_sock_table_remove_sock_def split: option.split)

text \<open>
  A property of the states that every operation keeps, and that a property of the calls follows
  from, is kept by a whole run. \<open>logged\<close> says it of a state and the calls so far.
\<close>

definition logged :: "('h eloop_data \<Rightarrow> bool) \<Rightarrow> ('h eloop_call \<Rightarrow> 'h eloop_data \<Rightarrow> bool) \<Rightarrow> 'h eloop_run \<Rightarrow> bool" where
  "logged I Q r \<longleftrightarrow> I (fst r) \<and> (\<forall>(c, s) \<in> set (snd r). Q c s)"

lemma get_upd_table:
  "eloop_get_sock_table ty (upd_sock_table ty' f el)
    = (if ty = ty' then f (eloop_get_sock_table ty el) else eloop_get_sock_table ty el)"
  by (cases ty; cases ty') simp_all

lemma get_other:
  "eloop_get_sock_table ty (el\<lparr>el_timeout := q\<rparr>) = eloop_get_sock_table ty el"
  "eloop_get_sock_table ty (el\<lparr>el_terminate := b\<rparr>) = eloop_get_sock_table ty el"
  "eloop_get_sock_table ty (el\<lparr>el_count := n\<rparr>) = eloop_get_sock_table ty el"
  "eloop_get_sock_table ty (el\<lparr>el_max_sock := m, el_count := n\<rparr>) = eloop_get_sock_table ty el"
  "eloop_get_sock_table ty (el\<lparr>el_max_sock := m\<rparr>) = eloop_get_sock_table ty el"
  by (cases ty; simp)+

locale loop_invariant =
  fixes I :: "'h eloop_data \<Rightarrow> bool"
    and Q :: "'h eloop_call \<Rightarrow> 'h eloop_data \<Rightarrow> bool"
  assumes do: "I el \<Longrightarrow> I (eloop_do a el)"
    and signal: "I el \<Longrightarrow> I (eloop_handle_signal g el)"
    and taken: "I el \<Longrightarrow> I (el\<lparr>el_signals := gs, el_signaled := n, el_pending_terminate := p\<rparr>)"
    and due: "I el \<Longrightarrow> eloop_due now (el_timeout el) = Some (t, q) \<Longrightarrow> I (el\<lparr>el_timeout := q\<rparr>)"
    and unchanged: "I el \<Longrightarrow> I (upd_sock_table ty (\<lambda>t. t\<lparr>et_changed := False\<rparr>) el)"
    and stop: "I el \<Longrightarrow> I (el\<lparr>el_terminate := False\<rparr>)"
    and other_call: "I el \<Longrightarrow> (\<forall>h ty s e u. c \<noteq> Call_sock h ty s e u) \<Longrightarrow> Q c el"
    and sock_call: "I el \<Longrightarrow> \<lparr>es_sock = s, es_eloop = e, es_user = u, es_handler = h\<rparr> \<in> set (et_table (eloop_get_sock_table ty el))
      \<Longrightarrow> Q (Call_sock h ty s e u) el"
begin

lemma call: "logged I Q (el, l) \<Longrightarrow> Q c el \<Longrightarrow> logged I Q (call_handler beh c (el, l))"
proof -
  have "I (foldl (\<lambda>el a. eloop_do a el) el as)" if "I el" for as
    using that by (induction as arbitrary: el) (simp_all add: do)
  then show "logged I Q (el, l) \<Longrightarrow> Q c el \<Longrightarrow> ?thesis" by (auto simp: logged_def call_handler_def)
qed

lemma signals: "logged I Q r \<Longrightarrow> logged I Q (run_signals beh is r)"
proof (induction "is" arbitrary: r)
  case (Cons i "is")
  obtain el l where r: "r = (el, l)" by fastforce
  let ?g = "el_signals el ! i"
  let ?el = "el\<lparr>el_signals := (el_signals el)[i := ?g\<lparr>eg_signaled := 0\<rparr>]\<rparr>"
  have "I ?el" using taken [of el "el_pending_terminate el" "el_signaled el" "(el_signals el)[i := ?g\<lparr>eg_signaled := 0\<rparr>]"] Cons.prems
    by (simp add: logged_def r)
  then have "logged I Q (?el, l)" using Cons.prems by (simp add: logged_def r)
  from call [OF this other_call [OF \<open>I ?el\<close>]] Cons show ?case by (simp add: r Let_def)
qed simp

lemma pending_signals:
  assumes "logged I Q r"
  shows "logged I Q (eloop_process_pending_signals beh r)"
proof -
  obtain el l where r: "r = (el, l)" by fastforce
  have "I (el\<lparr>el_signaled := 0, el_pending_terminate := False\<rparr>)"
    using taken [of el False 0 "el_signals el"] assms by (simp add: logged_def r)
  then have "logged I Q (el\<lparr>el_signaled := 0, el_pending_terminate := False\<rparr>, l)" using assms by (simp add: logged_def r)
  from signals [OF this] assms show ?thesis by (simp add: eloop_process_pending_signals_def r)
qed

lemma timeout:
  assumes "logged I Q r"
  shows "logged I Q (eloop_process_timeout beh now r)"
proof -
  obtain el l where r: "r = (el, l)" by fastforce
  show ?thesis
  proof (cases "eloop_due now (el_timeout el)")
    case None
    then show ?thesis using assms by (simp add: eloop_process_timeout_def r)
  next
    case (Some p)
    obtain t q where p: "p = (t, q)" by fastforce
    have i: "I (el\<lparr>el_timeout := q\<rparr>)" using due [of el now t q] assms Some by (simp add: logged_def r p)
    then have "logged I Q (el\<lparr>el_timeout := q\<rparr>, l)" using assms by (simp add: logged_def r)
    from call [OF this other_call [OF i]] show ?thesis by (simp add: eloop_process_timeout_def r Some p)
  qed
qed

lemma table_kept:
  "et_changed (eloop_get_sock_table ty (foldl (\<lambda>el a. eloop_do a el) el as))
    \<or> et_table (eloop_get_sock_table ty (foldl (\<lambda>el a. eloop_do a el) el as)) = et_table (eloop_get_sock_table ty el)"
proof (induction as rule: rev_induct)
  case (snoc a as)
  let ?el = "foldl (\<lambda>el a. eloop_do a el) el as"
  have "et_changed (eloop_get_sock_table ty (eloop_do a ?el))
    \<or> eloop_get_sock_table ty (eloop_do a ?el) = eloop_get_sock_table ty ?el"
    by (cases a) (auto simp: get_other eloop_sock_table_add_sock_def eloop_unregister_sock_def eloop_sock_table_remove_sock_def get_upd_table split: option.split)
  then show ?case using snoc by auto
qed simp

lemma dispatch_loop:
  "logged I Q (el, l) \<Longrightarrow> i + n = length (et_table (eloop_get_sock_table ty el)) \<Longrightarrow> logged I Q (dispatch_loop beh ty fds i n (el, l))"
proof (induction n arbitrary: i el l)
  case (Suc n)
  let ?x = "et_table (eloop_get_sock_table ty el) ! i"
  let ?c = "Call_sock (es_handler ?x) ty (es_sock ?x) (es_eloop ?x) (es_user ?x)"
  have "?x \<in> set (et_table (eloop_get_sock_table ty el))" using Suc.prems(2) by (intro nth_mem) simp
  moreover have "\<lparr>es_sock = es_sock ?x, es_eloop = es_eloop ?x, es_user = es_user ?x, es_handler = es_handler ?x\<rparr> = ?x" by simp
  ultimately have q: "Q ?c el" using Suc.prems(1) by (intro sock_call) (simp_all only: logged_def fst_conv)
  obtain el' l' where c: "call_handler beh ?c (el, l) = (el', l')" by fastforce
  have log: "logged I Q (el', l')" using call [OF Suc.prems(1) q, of beh] c by simp
  have "et_changed (eloop_get_sock_table ty el') \<or> et_table (eloop_get_sock_table ty el') = et_table (eloop_get_sock_table ty el)"
    using table_kept [of ty el "beh ?c"] c by (auto simp: call_handler_def)
  then show ?case using Suc.IH [OF log, of "i + 1"] Suc.IH [OF Suc.prems(1), of "i + 1"] Suc.prems(2) log c by (auto simp: Let_def)
qed simp

lemma dispatch: 
  assumes "logged I Q r"
  shows "logged I Q (eloop_sock_table_dispatch beh ty fds r)"
proof -
  obtain el l where r: "r = (el, l)" by fastforce
  let ?el = "upd_sock_table ty (\<lambda>t. t\<lparr>et_changed := False\<rparr>) el"
  have "logged I Q (?el, l)" using assms unchanged [of el ty] by (simp add: logged_def r)
  from dispatch_loop [OF this] show ?thesis by (simp add: eloop_sock_table_dispatch_def r Let_def)
qed

lemma round:
  assumes "logged I Q r"
  shows "logged I Q (snd (eloop_round beh ev r))"
proof -
  obtain el l where r: "r = (el, l)" by fastforce
  let ?el = "foldl (\<lambda>el g. eloop_handle_signal g el) el (ev_signals ev)"
  have "I el \<Longrightarrow> I (foldl (\<lambda>el g. eloop_handle_signal g el) el gs)" for gs
    by (induction gs arbitrary: el) (simp_all add: signal)
  then have l: "logged I Q (?el, l)" using assms by (simp add: logged_def r)
  let ?r = "eloop_process_timeout beh (ev_now ev) (eloop_process_pending_signals beh (?el, l))"
  have "logged I Q ?r" by (rule timeout [OF pending_signals [OF l]])
  with l show ?thesis by (simp add: eloop_round_def r Let_def dispatch split: select_result.split)
qed

lemma rounds: "logged I Q r \<Longrightarrow> logged I Q (eloop_rounds beh evs r)"
proof (induction evs arbitrary: r)
  case (Cons ev evs)
  obtain el l where r: "r = (el, l)" by fastforce
  obtain go r' where e: "eloop_round beh ev r = (go, r')" by (cases "eloop_round beh ev r")
  have "logged I Q r'" using round [OF Cons.prems, of beh ev] e by simp
  then show ?case using Cons stop [of el] e by (auto simp: r logged_def)
qed simp

end

text \<open>Two invariants of the loop: the order of its timeouts, and that the sockets it calls are registered.\<close>

definition call_registered :: "'h eloop_call \<Rightarrow> 'h eloop_data \<Rightarrow> bool" where
  "call_registered c el \<longleftrightarrow>
     (\<forall>h ty s e u. c = Call_sock h ty s e u
        \<longrightarrow> \<lparr>es_sock = s, es_eloop = e, es_user = u, es_handler = h\<rparr> \<in> set (et_table (eloop_get_sock_table ty el)))"

interpretation in_order: loop_invariant "\<lambda>el :: 'h eloop_data. sorted_timeouts (el_timeout el)" call_registered
proof
  fix el :: "'h eloop_data" and a now t q
  show "sorted_timeouts (el_timeout el) \<Longrightarrow> sorted_timeouts (el_timeout (eloop_do a el))" by (rule sorted_do)
  show "sorted_timeouts (el_timeout el) \<Longrightarrow> eloop_due now (el_timeout el) = Some (t, q)
    \<Longrightarrow> sorted_timeouts (el_timeout (el\<lparr>el_timeout := q\<rparr>))" using due_first by auto
qed (simp_all add: eloop_handle_signal_def call_registered_def)

text \<open>
  The loop calls what is registered, in the order of time. However its handlers register and
  cancel timeouts and sockets meanwhile, the timeouts stay in the order of their times, so that
  the one taken is due and none is earlier; and a socket's handler is only called while it is
  registered with the data it is called with.
\<close>

theorem loop_in_order:
  assumes "sorted_timeouts (el_timeout el)" and "eloop_rounds beh evs (el, []) = (el', l)"
  shows "(\<forall>(c, s) \<in> set l. call_registered c s)
    \<and> (\<forall>now t q. eloop_due now (el_timeout el') = Some (t, q)
         \<longrightarrow> not_after (to_time t) now \<and> (\<forall>t' \<in> set q. not_after (to_time t) (to_time t')))"
proof -
  have "logged (\<lambda>el. sorted_timeouts (el_timeout el)) call_registered (eloop_rounds beh evs (el, []))"
    by (rule in_order.rounds) (simp add: logged_def assms(1))
  then show ?thesis unfolding assms(2) using due_first by (fastforce simp: logged_def)
qed

section \<open>The queue as a timer\<close>

text \<open>
  What the stations rely on: a registered timeout is the only new one, and none of those
  cancelled is left.
\<close>

locale timer_queue =
  fixes reg :: "'h \<Rightarrow> nat \<Rightarrow> nat \<Rightarrow> 'q \<Rightarrow> 'q"
    and cancel :: "'h \<Rightarrow> nat \<Rightarrow> nat \<Rightarrow> 'q \<Rightarrow> 'q"
    and pending :: "'q \<Rightarrow> ('h \<times> nat \<times> nat) set"
  assumes pending_reg: "pending (reg h e u q) \<subseteq> insert (h, e, u) (pending q)"
    and pending_cancel: "pending (cancel h e u q) = pending q - {(h, e, u)}"
begin

lemma cancel_all: "pending (foldl (\<lambda>q h. cancel h e u q) q hs) = pending q - {(h, e', u'). h \<in> set hs \<and> e' = e \<and> u' = u}"
  by (induction hs arbitrary: q) (auto simp: pending_cancel)

lemma pending_moved: "pending (reg h e u (cancel h e u q)) \<subseteq> insert (h, e, u) (pending q)"
  using pending_reg [of h e u "cancel h e u q"] by (auto simp: pending_cancel)

end

definition eloop_pending :: "'h eloop_timeout list \<Rightarrow> ('h \<times> nat \<times> nat) set" where
  "eloop_pending q = (\<lambda>t. (to_handler t, to_eloop t, to_user t)) ` set q"

interpretation eloop_timer: timer_queue
  "\<lambda>h e u q. snd (eloop_register_timeout mem now secs usecs h e u q)"
  "\<lambda>h e u q. snd (eloop_cancel_timeout h (Some e) (Some u) q)" eloop_pending
proof
  show "eloop_pending (snd (eloop_register_timeout mem now secs usecs h e u q)) \<subseteq> insert (h, e, u) (eloop_pending q)" for h :: 'h and e u q
    by (auto simp: eloop_pending_def eloop_register_timeout_def set_insert_timeout split: option.split if_split_asm)
  show "eloop_pending (snd (eloop_cancel_timeout h (Some e) (Some u) q)) = eloop_pending q - {(h, e, u)}" for h :: 'h and e u q
    by (auto simp: eloop_pending_def cancel_filter timeout_matches_def)
qed

definition micros :: "os_reltime \<Rightarrow> int" where
  "micros t = sint (rel_sec t) * 1000000 + sint (rel_usec t)"

lemma sint_plus:
  fixes a b :: "32 word"
  assumes "- (2 ^ 31) \<le> sint a + sint b" and "sint a + sint b < 2 ^ 31"
  shows "sint (a + b) = sint a + sint b"
  using assms by (simp add: sint_word_ariths signed_take_bit_int_eq_self)

lemma carry_value:
  assumes "0 \<le> sint u" and "0 \<le> sint s" and "sint s + sint u div 1000000 < 2 ^ 31"
  shows "micros (carry_usec s u) = sint s * 1000000 + sint u
    \<and> 0 \<le> sint (rel_usec (carry_usec s u)) \<and> sint (rel_usec (carry_usec s u)) < 1000000"
  using assms
proof (induction s u rule: carry_usec.induct)
  case (1 s u)
  show ?case
  proof (cases "sint u \<ge> 1000000")
    case True
    have u: "sint (u - 1000000) = sint u - 1000000" by (rule sint_minus_million [OF True])
    have d: "sint u div 1000000 = (sint u - 1000000) div 1000000 + 1" by simp
    have "0 \<le> (sint u - 1000000) div 1000000" using True by (simp add: pos_imp_zdiv_nonneg_iff)
    then have s: "sint (s + 1) = sint s + 1"
      using 1(4) 1(3) d sint_plus [of s 1] by simp
    have "micros (carry_usec (s + 1) (u - 1000000)) = sint (s + 1) * 1000000 + sint (u - 1000000)
      \<and> 0 \<le> sint (rel_usec (carry_usec (s + 1) (u - 1000000))) \<and> sint (rel_usec (carry_usec (s + 1) (u - 1000000))) < 1000000"
      by (rule 1(1) [OF True]) (use True u s d 1(3,4) in simp_all)
    then show ?thesis using True u s by (subst (1 2 3) carry_usec.simps) simp
  next
    case False
    then show ?thesis using 1(2) by (subst (1 2 3) carry_usec.simps) (simp add: micros_def)
  qed
qed

lemma insert_split:
  assumes "sorted_timeouts q"
  shows "\<exists>a b. q = a @ b \<and> insert_timeout t q = a @ t # b \<and> (\<forall>x \<in> set a. not_after (to_time x) (to_time t))
    \<and> (\<forall>x \<in> set b. os_reltime_before (to_time t) (to_time x))"
  using assms
proof (induction q)
  case Nil
  then show ?case by simp
next
  case (Cons x q)
  have later: "os_reltime_before a c" if "os_reltime_before a b" "not_after b c" for a b c
    using that reltime_order(3) [of b c a] by (auto simp: not_after_def)
  show ?case
  proof (cases "os_reltime_before (to_time t) (to_time x)")
    case True
    then have "\<forall>y \<in> set (x # q). os_reltime_before (to_time t) (to_time y)"
      using Cons.prems later by (auto simp: sorted_timeouts_def)
    then show ?thesis using True by (intro exI [of _ "[]"] exI [of _ "x # q"]) simp
  next
    case False
    obtain a b where "q = a @ b" "insert_timeout t q = a @ t # b" "\<forall>x \<in> set a. not_after (to_time x) (to_time t)"
      "\<forall>x \<in> set b. os_reltime_before (to_time t) (to_time x)"
      using Cons by (auto simp: sorted_timeouts_def)
    then show ?thesis using False by (intro exI [of _ "x # a"] exI [of _ b]) (simp add: not_after_def)
  qed
qed

text \<open>
  A timeout is queued for its time. Unless the seconds leave the range of the clock, a
  timeout is registered for the time now plus the time asked for, to the microsecond, behind
  all timeouts that are not later and before all that are later; the others stay as they are.
\<close>

theorem timeout_registered:
  assumes "sorted_timeouts q" and "0 \<le> sint (rel_sec now)" and "0 \<le> sint (rel_usec now)" and "sint (rel_usec now) < 1000000"
    and "int (unat secs) + sint (rel_sec now) < 2 ^ 31 - 2148" and "int (unat usecs) < 2 ^ 31 - 1000000"
  shows "\<exists>a b t. q = a @ b \<and> eloop_register_timeout True (Some now) secs usecs h e u q
      = (0, a @ \<lparr>to_time = t, to_eloop = e, to_user = u, to_handler = h\<rparr> # b)
    \<and> micros t = micros now + int (unat secs) * 1000000 + int (unat usecs)
    \<and> (\<forall>x \<in> set a. not_after (to_time x) t) \<and> (\<forall>x \<in> set b. os_reltime_before t (to_time x))"
proof -
  have small: "sint w = int (unat w)" if "int (unat w) < 2 ^ 31" for w :: u32
  proof -
    have "signed_take_bit 31 (uint w) = uint w"
    proof (rule signed_take_bit_int_eq_self)
      show "- (2 ^ 31) \<le> uint w" by (rule order_trans [OF _ uint_ge_0]) simp
    qed (use that in simp)
    then show ?thesis by (simp add: sint_uint)
  qed
  let ?s = "rel_sec now + secs" and ?u = "rel_usec now + usecs"
  have s: "sint ?s = sint (rel_sec now) + int (unat secs)"
    using assms(2,5) small [of secs] sint_plus [of "rel_sec now" secs] uint_ge_0 [of secs] by (simp del: uint_ge_0)
  have u: "sint ?u = sint (rel_usec now) + int (unat usecs)"
    using assms(3,4,6) small [of usecs] sint_plus [of "rel_usec now" usecs] uint_ge_0 [of usecs] by (simp del: uint_ge_0)
  have "sint ?u div 1000000 < 2148" using u assms(4,6) by simp
  then have "micros (carry_usec ?s ?u) = sint ?s * 1000000 + sint ?u"
    using carry_value [of ?u ?s] s u assms(2,3,5) by simp
  then have m: "micros (carry_usec ?s ?u) = micros now + int (unat secs) * 1000000 + int (unat usecs)"
    using s u by (simp add: micros_def)
  have "timeout_after now secs usecs = Some (carry_usec ?s ?u)" using s by (simp add: timeout_after_def Let_def)
  then show ?thesis using insert_split [OF assms(1), of "\<lparr>to_time = carry_usec ?s ?u, to_eloop = e, to_user = u, to_handler = h\<rparr>"] m
    by (auto simp: eloop_register_timeout_def)
qed

text \<open>An example: a reader that unregisters the next socket, and two timeouts.\<close>

definition ex_at :: "nat \<Rightarrow> os_reltime" where
  "ex_at n = \<lparr>rel_sec = of_nat n, rel_usec = 500000\<rparr>"

lemma timeout_registered_witness:
  "\<exists>a b t. [\<lparr>to_time = ex_at 12, to_eloop = 1, to_user = 2, to_handler = ''a''\<rparr>] = a @ b
    \<and> eloop_register_timeout True (Some (ex_at 10)) 1 700000 ''b'' 1 3 [\<lparr>to_time = ex_at 12, to_eloop = 1, to_user = 2, to_handler = ''a''\<rparr>]
      = (0, a @ \<lparr>to_time = t, to_eloop = 1, to_user = 3, to_handler = ''b''\<rparr> # b) \<and> micros t = 12200000"
proof -
  have "sorted_timeouts [\<lparr>to_time = ex_at 12, to_eloop = 1, to_user = 2, to_handler = ''a''\<rparr>]" by (simp add: sorted_timeouts_def)
  from timeout_registered [OF this, of "ex_at 10" 1 700000 "''b''" 1 3] show ?thesis
    by (auto simp: ex_at_def micros_def)
qed

definition ex_loop :: "string eloop_data" where
  \<comment> \<open>two readers and a timeout\<close>
  "ex_loop = snd (eloop_sock_table_add_sock True EVENT_TYPE_READ 5 ''second'' 1 2
     (snd (eloop_sock_table_add_sock True EVENT_TYPE_READ 4 ''first'' 1 2
       (eloop_init\<lparr>el_timeout := [\<lparr>to_time = ex_at 12, to_eloop = 1, to_user = 2, to_handler = ''timer''\<rparr>]\<rparr>))))"

fun ex_behaviour :: "string eloop_call \<Rightarrow> string eloop_op list" where
  "ex_behaviour (Call_sock h ty s e u) = (if h = ''first'' then [Op_unregister_sock 5 EVENT_TYPE_READ] else [])"
| "ex_behaviour _ = []"

definition ex_events :: eloop_env where
  "ex_events = \<lparr>ev_signals = [], ev_now = ex_at 13, ev_select = Select_ready (\<lambda>ty s. ty = EVENT_TYPE_READ)\<rparr>"

lemma loop_in_order_witness:
  "\<exists>el' l. eloop_rounds ex_behaviour [ex_events] (ex_loop, []) = (el', l)
    \<and> map fst l = [Call_timeout ''timer'' 1 2, Call_sock ''first'' EVENT_TYPE_READ 4 1 2] \<and> (\<forall>(c, s) \<in> set l. call_registered c s)"
proof -
  obtain el' l where run: "eloop_rounds ex_behaviour [ex_events] (ex_loop, []) = (el', l)" by fastforce
  have "map fst (snd (eloop_rounds ex_behaviour [ex_events] (ex_loop, [])))
      = [Call_timeout ''timer'' 1 2, Call_sock ''first'' EVENT_TYPE_READ 4 1 2]"
    by (simp add: ex_loop_def eloop_init_def eloop_sock_table_add_sock_def ex_events_def eloop_running_def eloop_round_def
        eloop_process_timeout_def eloop_process_pending_signals_def eloop_due_def os_reltime_before_def ex_at_def
        call_handler_def eloop_sock_table_dispatch_def eloop_unregister_sock_def eloop_sock_table_remove_sock_def Let_def)
  moreover have "sorted_timeouts (el_timeout ex_loop)"
    by (simp add: ex_loop_def eloop_init_def eloop_sock_table_add_sock_def sorted_timeouts_def)
  ultimately have "map fst l = [Call_timeout ''timer'' 1 2, Call_sock ''first'' EVENT_TYPE_READ 4 1 2]"
    and "\<forall>(c, s) \<in> set l. call_registered c s"
    using loop_in_order [OF _ run] unfolding run by simp_all
  with run show ?thesis by (intro exI conjI)
qed

end
