(* ===== verification/Acl.thy ===== *)
theory Acl
  imports Hex_Text Eloop "HOL-Library.Multiset"
begin

text \<open>
  The access control list (\<open>ap/ieee802_11_auth.c\<close>, \<open>ap/ap_config.c\<close>, the list files of
  \<open>hostapd/config_file.c\<close>): which stations may authenticate. A list is read from a file, sorted by
  \<open>qsort\<close> and searched by bisection; a station in neither list may be asked about at a RADIUS server,
  whose answers are kept for half a minute. The library's \<open>qsort\<close> is a parameter.
\<close>

unbundle bit_operations_syntax

section \<open>Lists of addresses\<close>

record mac_acl_entry =
  ma_addr :: "byte list"
  ma_vlan_id :: int

fun os_memcmp :: "byte list \<Rightarrow> byte list \<Rightarrow> int" where
  "os_memcmp (x # xs) (y # ys) = (if x = y then os_memcmp xs ys else if x < y then - 1 else 1)"
| "os_memcmp _ _ = 0"

definition hostapd_acl_comp :: "mac_acl_entry \<Rightarrow> mac_acl_entry \<Rightarrow> int" where
  "hostapd_acl_comp a b = os_memcmp (ma_addr a) (ma_addr b)"

function maclist_search :: "mac_acl_entry list \<Rightarrow> byte list \<Rightarrow> int \<Rightarrow> int \<Rightarrow> fault + int option" where
  \<comment> \<open>the VLAN ID of the entry that is found\<close>
  "maclist_search list addr start end =
     (if start \<le> end then
        let middle = c_div (start + end) 2 in
        if middle < 0 \<or> nat middle \<ge> length list then Inl (Bad_index (length list) middle)
        else
          let res = os_memcmp (ma_addr (list ! nat middle)) addr in
          if res = 0 then Inr (Some (ma_vlan_id (list ! nat middle)))
          else if res < 0 then maclist_search list addr (middle + 1) end
          else maclist_search list addr start (middle - 1)
      else Inr None)"
  by pat_completeness auto

lemma c_div_two: "start \<le> end \<Longrightarrow> start \<le> c_div (start + end) 2 \<and> c_div (start + end) 2 \<le> end" for start :: int
  unfolding c_div_def by (auto simp: sgn_if abs_if)

termination maclist_search
  by (relation "measure (\<lambda>(list, addr, start, end). nat (end - start + 1))") (use c_div_two in \<open>fastforce simp: Let_def\<close>)+

declare maclist_search.simps [simp del]

definition hostapd_maclist_found :: "mac_acl_entry list \<Rightarrow> int \<Rightarrow> byte list \<Rightarrow> fault + int option" where
  "hostapd_maclist_found list num_entries addr = maclist_search list addr 0 (num_entries - 1)"

section \<open>Reading a list\<close>

definition blank_char :: "char \<Rightarrow> bool" where
  "blank_char c \<longleftrightarrow> c = CHR '' '' \<or> c = CHR 0x09"

fun fgets_lines :: "nat \<Rightarrow> string \<Rightarrow> string \<Rightarrow> string list" where
  \<comment> \<open>what \<open>fgets\<close> gives for a buffer of 128 characters; the first arguments: room left, what is read so far\<close>
  "fgets_lines n acc [] = (if acc = [] then [] else [rev acc])"
| "fgets_lines 0 acc cs = rev acc # fgets_lines 126 [hd cs] (tl cs)"
| "fgets_lines (Suc n) acc (c # cs) =
     (if c = newline then rev (c # acc) # fgets_lines 127 [] cs else fgets_lines n (c # acc) cs)"

definition read_mac_line :: "bool \<Rightarrow> string \<Rightarrow> mac_acl_entry list \<Rightarrow> mac_acl_entry list option" where
  "read_mac_line mem buf acl =
     (if c_at buf 0 = CHR ''#'' then Some acl
      else let buf = takeWhile ((\<noteq>) newline) buf in
      if buf = [] then Some acl
      else let rem = (hd buf = CHR ''-''); (r, addr) = hwaddr_aton (if rem then tl buf else buf) in
      if r \<noteq> 0 then None
      else if rem then Some (filter (\<lambda>e. os_memcmp (ma_addr e) addr \<noteq> 0) acl)
      else let pos = dropWhile blank_char (dropWhile (\<lambda>c. \<not> blank_char c) buf);
               vlan_id = (if pos = [] then 0 else atoi pos)
           in if mem then Some (acl @ [\<lparr>ma_addr = addr, ma_vlan_id = vlan_id\<rparr>]) else None)"

fun read_mac_lines :: "(nat \<Rightarrow> bool) \<Rightarrow> nat \<Rightarrow> string list \<Rightarrow> mac_acl_entry list \<Rightarrow> bool \<times> mac_acl_entry list" where
  \<comment> \<open>whether every line could be read\<close>
  "read_mac_lines mem line [] acl = (True, acl)"
| "read_mac_lines mem line (buf # bufs) acl =
     (case read_mac_line (mem line) buf acl of
        None \<Rightarrow> (False, acl)
      | Some acl \<Rightarrow> read_mac_lines mem (line + 1) bufs acl)"

definition hostapd_config_read_maclist ::
    "(mac_acl_entry list \<Rightarrow> mac_acl_entry list) \<Rightarrow> (nat \<Rightarrow> bool) \<Rightarrow> string option \<Rightarrow> mac_acl_entry list \<Rightarrow> int \<times> mac_acl_entry list" where
  \<comment> \<open>\<open>qsort\<close>, memory at each line, the file (if it can be opened)\<close>
  "hostapd_config_read_maclist qsort mem file acl =
     (case file of
        None \<Rightarrow> (- 1, acl)
      | Some txt \<Rightarrow>
          (case read_mac_lines mem 1 (fgets_lines 127 [] txt) acl of
             (False, acl) \<Rightarrow> (- 1, acl)
           | (True, acl) \<Rightarrow> (0, qsort acl)))"

section \<open>The decision\<close>

datatype acl_status = HOSTAPD_ACL_REJECT | HOSTAPD_ACL_ACCEPT | HOSTAPD_ACL_PENDING | HOSTAPD_ACL_ACCEPT_TIMEOUT

datatype macaddr_acl = ACCEPT_UNLESS_DENIED | DENY_UNLESS_ACCEPTED | USE_EXTERNAL_RADIUS_AUTH

record cached_radius_acl =
  ca_timestamp :: os_reltime
  ca_addr :: "byte list"
  ca_accepted :: acl_status
  ca_session_timeout :: u32
  ca_acct_interim_interval :: u32
  ca_vlan_id :: int

record acl_query_data =
  aq_timestamp :: os_reltime
  aq_radius_id :: byte
  aq_addr :: "byte list"
  aq_auth_msg :: "byte list"

record acl_conf =
  ac_macaddr_acl :: macaddr_acl
  ac_accept_mac :: "mac_acl_entry list"
  ac_deny_mac :: "mac_acl_entry list"
  ac_auth_server :: bool
  ac_psk_required :: bool                 \<comment> \<open>\<open>wpa_psk_radius == PSK_RADIUS_REQUIRED\<close>\<close>

record acl_state =
  as_cache :: "cached_radius_acl list"
  as_queries :: "acl_query_data list"

record acl_answer =
  aa_status :: acl_status
  aa_session_timeout :: u32
  aa_acct_interim_interval :: u32
  aa_vlan_id :: int

record acl_env =
  ae_clock :: os_reltime
  ae_query_mem :: bool                    \<comment> \<open>memory for a query and for the frame\<close>
  ae_msg_mem :: bool
  ae_radius_id :: byte
  ae_radius_sent :: bool                  \<comment> \<open>whether the request to the server was built and sent\<close>

abbreviation (input) "RADIUS_ACL_TIMEOUT \<equiv> (30 :: os_time)"

definition os_reltime_expired :: "os_reltime \<Rightarrow> os_reltime \<Rightarrow> os_time \<Rightarrow> bool" where
  "os_reltime_expired now ts timeout_secs =
     (let age = os_reltime_sub now ts in
      sint (rel_sec age) > sint timeout_secs \<or> rel_sec age = timeout_secs \<and> sint (rel_usec age) > 0)"

definition no_answer :: "acl_status \<Rightarrow> int \<Rightarrow> acl_answer" where
  "no_answer status vlan_id = \<lparr>aa_status = status, aa_session_timeout = 0, aa_acct_interim_interval = 0, aa_vlan_id = vlan_id\<rparr>"

definition hostapd_acl_cache_get :: "os_reltime \<Rightarrow> byte list \<Rightarrow> cached_radius_acl list \<Rightarrow> acl_answer option" where
  \<comment> \<open>\<open>None\<close>: no entry, or an expired one\<close>
  "hostapd_acl_cache_get now addr cache =
     (case find (\<lambda>e. ca_addr e = addr) cache of
        None \<Rightarrow> None
      | Some e \<Rightarrow>
          if os_reltime_expired now (ca_timestamp e) RADIUS_ACL_TIMEOUT then None
          else Some \<lparr>aa_status = ca_accepted e,
                 aa_session_timeout = (if ca_accepted e = HOSTAPD_ACL_ACCEPT_TIMEOUT then ca_session_timeout e else 0),
                 aa_acct_interim_interval = ca_acct_interim_interval e, aa_vlan_id = ca_vlan_id e\<rparr>)"

definition acl_ask_server :: "acl_conf \<Rightarrow> acl_env \<Rightarrow> byte list \<Rightarrow> byte list \<Rightarrow> acl_state \<Rightarrow> acl_answer \<times> acl_state" where
  "acl_ask_server conf ev addr msg st =
     (if list_ex (\<lambda>q. aq_addr q = addr) (as_queries st) then (no_answer HOSTAPD_ACL_PENDING 0, st)
      else if \<not> ac_auth_server conf \<or> \<not> ae_query_mem ev \<or> \<not> ae_radius_sent ev \<or> \<not> ae_msg_mem ev then (no_answer HOSTAPD_ACL_REJECT 0, st)
      else (no_answer HOSTAPD_ACL_PENDING 0,
            st\<lparr>as_queries := \<lparr>aq_timestamp = ae_clock ev, aq_radius_id = ae_radius_id ev, aq_addr = addr, aq_auth_msg = msg\<rparr>
                            # as_queries st\<rparr>))"

definition hostapd_allowed_address ::
    "acl_conf \<Rightarrow> acl_env \<Rightarrow> byte list \<Rightarrow> byte list \<Rightarrow> acl_state \<Rightarrow> fault + acl_answer \<times> acl_state" where
  "hostapd_allowed_address conf ev addr msg st =
     fbind (hostapd_maclist_found (ac_accept_mac conf) (int (length (ac_accept_mac conf))) addr) (\<lambda>accepted.
     case accepted of
       Some vlan_id \<Rightarrow> Inr (no_answer HOSTAPD_ACL_ACCEPT vlan_id, st)
     | None \<Rightarrow>
         fbind (hostapd_maclist_found (ac_deny_mac conf) (int (length (ac_deny_mac conf))) addr) (\<lambda>denied.
         case denied of
           Some vlan_id \<Rightarrow> Inr (no_answer HOSTAPD_ACL_REJECT vlan_id, st)
         | None \<Rightarrow>
             (case ac_macaddr_acl conf of
                ACCEPT_UNLESS_DENIED \<Rightarrow> Inr (no_answer HOSTAPD_ACL_ACCEPT 0, st)
              | DENY_UNLESS_ACCEPTED \<Rightarrow> Inr (no_answer HOSTAPD_ACL_REJECT 0, st)
              | USE_EXTERNAL_RADIUS_AUTH \<Rightarrow>
                  (case hostapd_acl_cache_get (ae_clock ev) addr (as_cache st) of
                     Some a \<Rightarrow> Inr (a, st)
                   | None \<Rightarrow> Inr (acl_ask_server conf ev addr msg st)))))"

section \<open>The answers of the server\<close>

definition hostapd_acl_expire_cache :: "os_reltime \<Rightarrow> cached_radius_acl list \<Rightarrow> byte list list \<times> cached_radius_acl list" where
  \<comment> \<open>the addresses given to \<open>hostapd_drv_set_radius_acl_expire\<close>\<close>
  "hostapd_acl_expire_cache now cache =
     (let gone = \<lambda>e. os_reltime_expired now (ca_timestamp e) RADIUS_ACL_TIMEOUT in
      (map ca_addr (filter gone cache), filter (\<lambda>e. \<not> gone e) cache))"

definition hostapd_acl_expire_queries :: "os_reltime \<Rightarrow> acl_query_data list \<Rightarrow> acl_query_data list" where
  "hostapd_acl_expire_queries now queries = filter (\<lambda>q. \<not> os_reltime_expired now (aq_timestamp q) RADIUS_ACL_TIMEOUT) queries"

definition hostapd_acl_expire :: "os_reltime \<Rightarrow> acl_state \<Rightarrow> byte list list \<times> acl_state" where
  \<comment> \<open>called every ten seconds\<close>
  "hostapd_acl_expire now st =
     (case hostapd_acl_expire_cache now (as_cache st) of
        (gone, cache) \<Rightarrow> (gone, \<lparr>as_cache = cache, as_queries = hostapd_acl_expire_queries now (as_queries st)\<rparr>))"

text \<open>What a reply says that the RADIUS client has matched with its request.\<close>

record radius_reply =
  rr_identifier :: byte
  rr_verified :: bool
  rr_code :: byte
  rr_session_timeout :: "u32 option"
  rr_acct_interim_interval :: "u32 option"
  rr_vlan_id :: int
  rr_psk :: bool                          \<comment> \<open>whether a key is among the tunnel passwords\<close>

abbreviation (input) "RADIUS_CODE_ACCESS_ACCEPT \<equiv> (2 :: byte)"
abbreviation (input) "RADIUS_CODE_ACCESS_REJECT \<equiv> (3 :: byte)"

datatype radius_rx = RADIUS_RX_PROCESSED | RADIUS_RX_UNKNOWN | RADIUS_RX_INVALID_AUTHENTICATOR

definition acl_cache_entry :: "acl_conf \<Rightarrow> os_reltime \<Rightarrow> byte list \<Rightarrow> radius_reply \<Rightarrow> cached_radius_acl" where
  "acl_cache_entry conf now addr r =
     (if rr_code r = RADIUS_CODE_ACCESS_ACCEPT then
        \<lparr>ca_timestamp = now, ca_addr = addr,
         ca_accepted = (if ac_psk_required conf \<and> \<not> rr_psk r then HOSTAPD_ACL_REJECT
                        else if rr_session_timeout r = None then HOSTAPD_ACL_ACCEPT else HOSTAPD_ACL_ACCEPT_TIMEOUT),
         ca_session_timeout = (case rr_session_timeout r of None \<Rightarrow> 0 | Some t \<Rightarrow> t),
         ca_acct_interim_interval = (case rr_acct_interim_interval r of None \<Rightarrow> 0 | Some i \<Rightarrow> if i < 60 then 0 else i),
         ca_vlan_id = rr_vlan_id r\<rparr>
      else \<lparr>ca_timestamp = now, ca_addr = addr, ca_accepted = HOSTAPD_ACL_REJECT, ca_session_timeout = 0,
            ca_acct_interim_interval = 0, ca_vlan_id = 0\<rparr>)"

fun drop_query :: "byte \<Rightarrow> acl_query_data list \<Rightarrow> acl_query_data list" where
  "drop_query radius_id [] = []"
| "drop_query radius_id (q # qs) = (if aq_radius_id q = radius_id then qs else q # drop_query radius_id qs)"

unbundle bit_operations_syntax

section \<open>The search\<close>

lemma memcmp_zero: "length xs = length ys \<Longrightarrow> os_memcmp xs ys = 0 \<longleftrightarrow> xs = ys"
  by (induction xs ys rule: list_induct2) auto

lemma memcmp_sign: "length xs = length ys \<Longrightarrow> os_memcmp ys xs = - os_memcmp xs ys"
  by (induction xs ys rule: list_induct2) auto

lemma memcmp_trans:
  assumes "length xs = length ys" and "length ys = length zs" and "os_memcmp xs ys \<le> 0" and "os_memcmp ys zs \<le> 0"
  shows "os_memcmp xs zs \<le> 0"
  using assms by (induction xs ys zs rule: list_induct3) (auto split: if_split_asm)

lemma memcmp_less_trans:
  assumes l: "length xs = length ys" "length ys = length zs"
  shows "os_memcmp xs ys \<le> 0 \<Longrightarrow> os_memcmp ys zs < 0 \<Longrightarrow> os_memcmp xs zs < 0"
    "os_memcmp xs ys < 0 \<Longrightarrow> os_memcmp ys zs \<le> 0 \<Longrightarrow> os_memcmp xs zs < 0"
proof -
  have n: "length xs = length zs" using l by simp
  have antisym: "a = b" if "length a = length b" "os_memcmp a b \<le> 0" "os_memcmp b a \<le> 0" for a b
    using that memcmp_sign [of a b] memcmp_zero [of a b] by simp
  have strict: "os_memcmp a b < 0" if "length a = length b" "os_memcmp a b \<le> 0" "a \<noteq> b" for a b
    using that memcmp_zero [of a b] by simp
  show "os_memcmp xs ys \<le> 0 \<Longrightarrow> os_memcmp ys zs < 0 \<Longrightarrow> os_memcmp xs zs < 0"
    using strict [OF n] memcmp_trans [OF l] antisym [of xs ys] l memcmp_sign [of ys zs] by fastforce
  show "os_memcmp xs ys < 0 \<Longrightarrow> os_memcmp ys zs \<le> 0 \<Longrightarrow> os_memcmp xs zs < 0"
    using strict [OF n] memcmp_trans [OF l] antisym [of ys zs] l memcmp_sign [of xs ys] by fastforce
qed

definition acl_sorted :: "mac_acl_entry list \<Rightarrow> bool" where
  "acl_sorted list \<longleftrightarrow> sorted_wrt (\<lambda>a b. hostapd_acl_comp a b \<le> 0) list"

definition acl_addrs_ok :: "mac_acl_entry list \<Rightarrow> bool" where
  "acl_addrs_ok list \<longleftrightarrow> (\<forall>e \<in> set list. length (ma_addr e) = 6)"

lemma memcmp_refl [simp]: "os_memcmp xs xs = 0"
  by (induction xs) auto

lemma sorted_at: "acl_sorted list \<Longrightarrow> i \<le> j \<Longrightarrow> j < length list \<Longrightarrow> os_memcmp (ma_addr (list ! i)) (ma_addr (list ! j)) \<le> 0"
  by (cases "i = j") (auto simp: acl_sorted_def hostapd_acl_comp_def sorted_wrt_iff_nth_less)

lemma maclist_search_correct:
  assumes "acl_sorted list" and "acl_addrs_ok list" and "length addr = 6" and "0 \<le> start" and "end < int (length list)"
    and "\<forall>i < length list. int i < start \<longrightarrow> os_memcmp (ma_addr (list ! i)) addr < 0"
    and "\<forall>i < length list. end < int i \<longrightarrow> os_memcmp addr (ma_addr (list ! i)) < 0"
  shows "\<exists>r. maclist_search list addr start end = Inr r
    \<and> (case r of None \<Rightarrow> addr \<notin> ma_addr ` set list | Some v \<Rightarrow> \<exists>e \<in> set list. ma_addr e = addr \<and> ma_vlan_id e = v)"
  using assms
proof (induction list addr start "end" rule: maclist_search.induct)
  case (1 list addr start "end")
  note [simp] = "1.prems"(3)
  have six: "length (ma_addr (list ! i)) = 6" if "i < length list" for i using "1.prems"(2) that by (simp add: acl_addrs_ok_def)
  show ?case
  proof (cases "start \<le> end")
    case False
    have "addr \<noteq> ma_addr e" if e: "e \<in> set list" for e
    proof -
      obtain i where i: "i < length list" "e = list ! i" using e by (auto simp: in_set_conv_nth)
      have "int i < start \<or> end < int i" using False by linarith
      then show ?thesis using "1.prems"(6,7) i six [of i] memcmp_zero [of "ma_addr e" addr] memcmp_zero [of addr "ma_addr e"] by force
    qed
    then show ?thesis using False by (subst maclist_search.simps) auto
  next
    case True
    define m where "m = nat (c_div (start + end) 2)"
    have m: "int m = c_div (start + end) 2" "start \<le> int m" "int m \<le> end" "m < length list"
      using c_div_two [OF True] "1.prems"(4,5) by (simp_all add: m_def) linarith
    let ?res = "os_memcmp (ma_addr (list ! m)) addr"
    have e: "maclist_search list addr start end =
      (if ?res = 0 then Inr (Some (ma_vlan_id (list ! m)))
       else if ?res < 0 then maclist_search list addr (int m + 1) end else maclist_search list addr start (int m - 1))"
      using True m by (subst maclist_search.simps) (simp add: Let_def m_def [symmetric] m(1) [symmetric])
    consider (found) "?res = 0" | (below) "?res < 0" | (above) "?res > 0" by linarith
    then show ?thesis
    proof cases
      case found
      then have "ma_addr (list ! m) = addr" using six [OF m(4)] by (simp add: memcmp_zero)
      then show ?thesis using found m(4) by (auto simp: e)
    next
      case below
      have "os_memcmp (ma_addr (list ! i)) addr < 0" if "i < length list" "int i < int m + 1" for i
        using memcmp_less_trans(1) [of "ma_addr (list ! i)" "ma_addr (list ! m)" addr] sorted_at [OF "1.prems"(1), of i m] that m(4) six below
        by simp
      then have "\<exists>r. maclist_search list addr (int m + 1) end = Inr r
          \<and> (case r of None \<Rightarrow> addr \<notin> ma_addr ` set list | Some v \<Rightarrow> \<exists>e \<in> set list. ma_addr e = addr \<and> ma_vlan_id e = v)"
        using below below [THEN less_imp_neq] m(4) "1.prems" by (intro "1.IH"(1) [OF True m(1) _ refl]) simp_all
      then show ?thesis using below by (simp add: e)
    next
      case above
      have s: "os_memcmp addr (ma_addr (list ! m)) < 0" using above memcmp_sign [of "ma_addr (list ! m)" addr] six [OF m(4)] by simp
      have "os_memcmp addr (ma_addr (list ! i)) < 0" if "i < length list" "int m - 1 < int i" for i
        using memcmp_less_trans(2) [of addr "ma_addr (list ! m)" "ma_addr (list ! i)"] sorted_at [OF "1.prems"(1), of m i] that m(4) six s
        by simp
      then have "\<exists>r. maclist_search list addr start (int m - 1) = Inr r
          \<and> (case r of None \<Rightarrow> addr \<notin> ma_addr ` set list | Some v \<Rightarrow> \<exists>e \<in> set list. ma_addr e = addr \<and> ma_vlan_id e = v)"
        using above above [THEN less_imp_neq] m(2-4) "1.prems" by (intro "1.IH"(2) [OF True m(1) _ refl]) simp_all
      then show ?thesis using above by (simp add: e)
    qed
  qed
qed

lemma maclist_found_correct:
  assumes "acl_sorted list" and "acl_addrs_ok list" and "length addr = 6"
  shows "\<exists>r. hostapd_maclist_found list (int (length list)) addr = Inr r
    \<and> (case r of None \<Rightarrow> addr \<notin> ma_addr ` set list | Some v \<Rightarrow> \<exists>e \<in> set list. ma_addr e = addr \<and> ma_vlan_id e = v)"
  unfolding hostapd_maclist_found_def using assms by (intro maclist_search_correct) auto

section \<open>What a file says\<close>

lemma aton_length: "hwaddr_aton_loop n s addr = (0, out) \<Longrightarrow> length out = length addr + n"
  by (induction n s addr rule: hwaddr_aton_loop.induct) (auto simp: Let_def split: if_split_asm)

definition mac_line :: "string \<Rightarrow> (bool \<times> byte list) option" where
  \<comment> \<open>an address to add, or (True) to remove\<close>
  "mac_line buf =
     (if c_at buf 0 = CHR ''#'' then None
      else let buf = takeWhile ((\<noteq>) newline) buf in
      if buf = [] then None
      else let rem = (hd buf = CHR ''-''); (r, addr) = hwaddr_aton (if rem then tl buf else buf) in
      if r \<noteq> 0 then None else Some (rem, addr))"

definition listed :: "string list \<Rightarrow> byte list \<Rightarrow> bool" where
  \<comment> \<open>the address is added, and not removed afterwards\<close>
  "listed ls addr \<longleftrightarrow> (\<exists>before l after. ls = before @ l # after \<and> mac_line l = Some (False, addr)
     \<and> (\<forall>l' \<in> set after. mac_line l' \<noteq> Some (True, addr)))"

lemma mac_line_length: "mac_line buf = Some (rem, addr) \<Longrightarrow> length addr = 6"
  by (auto simp: mac_line_def Let_def hwaddr_aton_def dest: aton_length split: if_split_asm prod.split_asm)

lemma read_mac_line_effect:
  assumes "read_mac_line mem buf acl = Some acl'" and "acl_addrs_ok acl"
  shows "acl_addrs_ok acl' \<and> ma_addr ` set acl' =
    (case mac_line buf of None \<Rightarrow> ma_addr ` set acl
     | Some (True, addr) \<Rightarrow> ma_addr ` set acl - {addr}
     | Some (False, addr) \<Rightarrow> insert addr (ma_addr ` set acl))"
proof (cases "mac_line buf")
  case None
  then have "acl' = acl" using assms(1) by (auto simp: read_mac_line_def mac_line_def Let_def split: if_split_asm prod.split_asm)
  then show ?thesis using None assms(2) by simp
next
  case (Some p)
  then obtain rem addr where p: "mac_line buf = Some (rem, addr)" by (cases p) auto
  have l: "length addr = 6" by (rule mac_line_length [OF p])
  show ?thesis
  proof (cases rem)
    case True
    have "acl' = filter (\<lambda>e. os_memcmp (ma_addr e) addr \<noteq> 0) acl"
      using assms(1) p True by (auto simp: read_mac_line_def mac_line_def Let_def split: if_split_asm prod.split_asm)
    then show ?thesis using p True l assms(2) by (auto simp: acl_addrs_ok_def memcmp_zero)
  next
    case False
    then obtain v where "acl' = acl @ [\<lparr>ma_addr = addr, ma_vlan_id = v\<rparr>]"
      using assms(1) p by (auto simp: read_mac_line_def mac_line_def Let_def split: if_split_asm prod.split_asm)
    then show ?thesis using p False l assms(2) by (auto simp: acl_addrs_ok_def)
  qed
qed

lemma listed_snoc:
  "listed (ls @ [l]) addr \<longleftrightarrow> mac_line l = Some (False, addr) \<or> mac_line l \<noteq> Some (True, addr) \<and> listed ls addr"
proof
  assume "listed (ls @ [l]) addr"
  then obtain b x a where w: "ls @ [l] = b @ x # a" "mac_line x = Some (False, addr)" "\<forall>l' \<in> set a. mac_line l' \<noteq> Some (True, addr)"
    by (auto simp: listed_def)
  show "mac_line l = Some (False, addr) \<or> mac_line l \<noteq> Some (True, addr) \<and> listed ls addr"
  proof (cases a rule: rev_cases)
    case Nil
    then show ?thesis using w by simp
  next
    case (snoc a' y)
    then show ?thesis using w by (auto simp: listed_def)
  qed
next
  assume "mac_line l = Some (False, addr) \<or> mac_line l \<noteq> Some (True, addr) \<and> listed ls addr"
  then show "listed (ls @ [l]) addr"
  proof
    assume "mac_line l = Some (False, addr)"
    then show ?thesis unfolding listed_def by (intro exI [of _ ls] exI [of _ l] exI [of _ "[]"]) simp
  next
    assume a: "mac_line l \<noteq> Some (True, addr) \<and> listed ls addr"
    then obtain b x c where w: "ls = b @ x # c" "mac_line x = Some (False, addr)" "\<forall>l' \<in> set c. mac_line l' \<noteq> Some (True, addr)"
      by (auto simp: listed_def)
    then show ?thesis unfolding listed_def using a by (intro exI [of _ b] exI [of _ x] exI [of _ "c @ [l]"]) auto
  qed
qed

lemma read_mac_lines_effect:
  assumes "read_mac_lines mem n ls acl = (True, acl')" and "acl_addrs_ok acl" and "ma_addr ` set acl = {addr. listed seen addr}"
  shows "acl_addrs_ok acl' \<and> ma_addr ` set acl' = {addr. listed (seen @ ls) addr}"
  using assms
proof (induction ls arbitrary: n acl seen)
  case (Cons l ls)
  obtain acl1 where r: "read_mac_line (mem n) l acl = Some acl1" "read_mac_lines mem (n + 1) ls acl1 = (True, acl')"
    using Cons.prems(1) by (auto split: option.split_asm)
  have step: "acl_addrs_ok acl1" "ma_addr ` set acl1 = {addr. listed (seen @ [l]) addr}"
    using read_mac_line_effect [OF r(1) Cons.prems(2)] Cons.prems(3) by (auto simp: listed_snoc split: option.split_asm prod.split_asm bool.split_asm)
  show ?case using Cons.IH [OF r(2) step] by simp
qed simp

definition sorts_acl :: "(mac_acl_entry list \<Rightarrow> mac_acl_entry list) \<Rightarrow> bool" where
  \<comment> \<open>the contract of \<open>qsort\<close>\<close>
  "sorts_acl qsort \<longleftrightarrow> (\<forall>xs. acl_addrs_ok xs \<longrightarrow> mset (qsort xs) = mset xs \<and> acl_sorted (qsort xs))"

text \<open>C32: A list file decides as its lines say, read in their order: after the file is read, the bisection finds
  an address exactly if a line adds it and no later line removes it, and never reads outside of the list.
  The library's \<open>qsort\<close> is assumed to give a sorted permutation.\<close>

theorem maclist_file_decides:
  assumes "sorts_acl qsort" and "hostapd_config_read_maclist qsort mem (Some txt) [] = (0, acl)" and "length addr = 6"
  shows "\<exists>r. hostapd_maclist_found acl (int (length acl)) addr = Inr r \<and> (r \<noteq> None \<longleftrightarrow> listed (fgets_lines 127 [] txt) addr)"
proof -
  obtain acl0 where r: "read_mac_lines mem 1 (fgets_lines 127 [] txt) [] = (True, acl0)" "acl = qsort acl0"
    using assms(2) by (auto simp: hostapd_config_read_maclist_def split: prod.split_asm bool.split_asm)
  have ok: "acl_addrs_ok acl0" "ma_addr ` set acl0 = {addr. listed (fgets_lines 127 [] txt) addr}"
    using read_mac_lines_effect [OF r(1), of "[]"] by (simp_all add: acl_addrs_ok_def listed_def)
  have q: "mset acl = mset acl0" "acl_sorted acl" using assms(1) ok(1) by (simp_all add: sorts_acl_def r(2))
  have set: "set acl = set acl0" using q(1) by (rule mset_eq_setD)
  have ok': "acl_addrs_ok acl" using ok(1) by (simp add: acl_addrs_ok_def set)
  obtain v where v: "hostapd_maclist_found acl (int (length acl)) addr = Inr v"
    "case v of None \<Rightarrow> addr \<notin> ma_addr ` set acl | Some v \<Rightarrow> \<exists>e \<in> set acl. ma_addr e = addr \<and> ma_vlan_id e = v"
    using maclist_found_correct [OF q(2) ok' assms(3)] by blast
  have "v \<noteq> None \<longleftrightarrow> addr \<in> ma_addr ` set acl0" using v(2) by (cases v) (auto simp: set)
  then show ?thesis using v(1) ok(2) by blast
qed

fun acl_insert :: "mac_acl_entry \<Rightarrow> mac_acl_entry list \<Rightarrow> mac_acl_entry list" where
  "acl_insert e [] = [e]"
| "acl_insert e (x # xs) = (if hostapd_acl_comp e x \<le> 0 then e # x # xs else x # acl_insert e xs)"

definition acl_isort :: "mac_acl_entry list \<Rightarrow> mac_acl_entry list" where
  "acl_isort xs = foldr acl_insert xs []"

lemma acl_insert_sorted:
  assumes "acl_addrs_ok (e # xs)" and "acl_sorted xs"
  shows "mset (acl_insert e xs) = add_mset e (mset xs) \<and> acl_sorted (acl_insert e xs)"
  using assms
proof (induction xs)
  case (Cons x xs)
  have ih: "mset (acl_insert e xs) = add_mset e (mset xs)" "acl_sorted (acl_insert e xs)"
    using Cons by (simp_all add: acl_addrs_ok_def acl_sorted_def)
  have l: "length (ma_addr y) = 6" if "y \<in> set (e # x # xs)" for y using Cons.prems(1) that by (auto simp: acl_addrs_ok_def)
  have le: "hostapd_acl_comp x y \<le> 0" if "y \<in> set xs" for y using Cons.prems(2) that by (simp add: acl_sorted_def)
  show ?case
  proof (cases "hostapd_acl_comp e x \<le> 0")
    case True
    have "hostapd_acl_comp e y \<le> 0" if "y \<in> set xs" for y
      using memcmp_trans [of "ma_addr e" "ma_addr x" "ma_addr y"] l [of e] l [of x] l [of y] that True le [OF that]
      by (simp add: hostapd_acl_comp_def)
    then show ?thesis using True Cons.prems(2) by (simp add: acl_sorted_def)
  next
    case False
    have "hostapd_acl_comp x e \<le> 0" using False memcmp_sign [of "ma_addr e" "ma_addr x"] l by (simp add: hostapd_acl_comp_def)
    moreover have "set (acl_insert e xs) = insert e (set xs)" using mset_eq_setD [OF ih(1) [folded mset.simps(2)]] by simp
    ultimately show ?thesis using False ih le by (simp add: acl_sorted_def)
  qed
qed (simp add: acl_sorted_def)

lemma acl_isort_sorts: "sorts_acl acl_isort"
proof -
  have "mset (acl_isort xs) = mset xs \<and> acl_sorted (acl_isort xs)" if "acl_addrs_ok xs" for xs
    using that
  proof (induction xs)
    case (Cons x xs)
    then have ih: "mset (acl_isort xs) = mset xs" "acl_sorted (acl_isort xs)" by (simp_all add: acl_addrs_ok_def)
    have "acl_addrs_ok (x # acl_isort xs)" using Cons.prems mset_eq_setD [OF ih(1)] by (simp add: acl_addrs_ok_def)
    from acl_insert_sorted [OF this ih(2)] show ?case using ih(1) by (simp add: acl_isort_def)
  qed (simp add: acl_isort_def acl_sorted_def)
  then show ?thesis by (simp add: sorts_acl_def)
qed

definition ex_acl_file :: string where
  "ex_acl_file = ''00:00:00:00:00:02 7'' @ [newline] @ ''00:00:00:00:00:01'' @ [newline] @ ''-00:00:00:00:00:02'' @ [newline]"

theorem maclist_file_decides_witness:
  "\<exists>r. hostapd_maclist_found [\<lparr>ma_addr = [0, 0, 0, 0, 0, 1], ma_vlan_id = 0\<rparr>] (int (length [\<lparr>ma_addr = [0, 0, 0, 0, 0, 1], ma_vlan_id = 0\<rparr>]))
      [0, 0, 0, 0, 0, 2] = Inr r
    \<and> (r \<noteq> None \<longleftrightarrow> listed (fgets_lines 127 [] ex_acl_file) [0, 0, 0, 0, 0, 2])"
proof (rule maclist_file_decides [OF acl_isort_sorts])
  show "hostapd_config_read_maclist acl_isort (\<lambda>n. True) (Some ex_acl_file) [] = (0, [\<lparr>ma_addr = [0, 0, 0, 0, 0, 1], ma_vlan_id = 0\<rparr>])"
    by code_simp
qed simp

end
