(* ===== verification/Sta_State.thy ===== *)
theory Sta_State
  imports Hex_Text Wmm Eloop Acl
begin

text \<open>
  The state of the station table (\<open>ap/sta_info.h\<close>, \<open>ap/hostapd.h\<close>): the stations on a heap, the list
  and the hash table of each BSS as the addresses of their members, the bit field of the AIDs, the
  queue of timeouts. An access through the address of a freed station, or through the null pointer
  of a BSS that is being reconfigured, sets \<open>w_fault\<close>. Calls of the driver, of the IEEE 802.1X and
  WPA state machines and of the RADIUS client leave an entry in \<open>w_out\<close>; what they return is given
  by the environment of the operation.
\<close>

unbundle bit_operations_syntax

section \<open>Stations\<close>

datatype sta_timeout_next = STA_NULLFUNC | STA_DISASSOC | STA_DEAUTH | STA_REMOVE | STA_DISASSOC_FROM_CLI

text \<open>The one-bit members that say which counters of the interface a station is counted in.\<close>

datatype sta_counter = Non_erp | No_short_slot_time | No_short_preamble | Ht_no_gf | No_ht | Ht_20mhz

record station = sta_info +
  st_aid :: u16
  st_capability :: u16
  st_listen_interval :: u16
  st_supported_rates :: "byte list"
  st_qosinfo :: byte
  st_counted :: "sta_counter \<Rightarrow> bool"
  st_auth_alg :: u16
  st_timeout_next :: sta_timeout_next
  st_deauth_reason :: u16
  st_disassoc_reason :: u16
  st_eapol_sm :: bool                      \<comment> \<open>whether the pointer is set, as for \<open>wpa_sm\<close>\<close>
  st_wpa_sm :: bool
  st_acct_session_id_hi :: u32
  st_acct_session_id_lo :: u32
  st_acct_session_start :: os_reltime
  st_acct_session_started :: bool
  st_acct_terminate_cause :: int
  st_acct_interim_interval :: u32
  st_last_rx_bytes :: u32                  \<comment> \<open>\<open>unsigned long\<close>\<close>
  st_last_tx_bytes :: u32
  st_acct_input_gigawords :: u32
  st_acct_output_gigawords :: u32
  st_challenge :: "byte list option"
  st_vlan_id :: int
  st_sa_query_timed_out :: bool
  st_sa_query_trans_id :: "byte list list" \<comment> \<open>\<open>sa_query_count\<close> identifiers\<close>
  st_sa_query_start :: os_reltime
  st_connected_time :: os_reltime

definition time_zero :: os_reltime where
  "time_zero = \<lparr>rel_sec = 0, rel_usec = 0\<rparr>"

definition zero_station :: station where
  \<comment> \<open>\<open>os_zalloc\<close>; the SSID is set before it is read\<close>
  "zero_station =
     \<lparr>sta_addr = replicate 6 0, sta_flags = 0,
      sta_ssid = \<lparr>ss_ssid = [], ss_utf8_ssid = False, ss_security_policy = SECURITY_PLAINTEXT, ss_wep_keys_set = False,
        ss_wep_default_len = 0\<rparr>,
      sta_ssid_probe = None, st_aid = 0, st_capability = 0, st_listen_interval = 0, st_supported_rates = [], st_qosinfo = 0,
      st_counted = (\<lambda>c. False), st_auth_alg = 0, st_timeout_next = STA_NULLFUNC, st_deauth_reason = 0, st_disassoc_reason = 0,
      st_eapol_sm = False, st_wpa_sm = False, st_acct_session_id_hi = 0, st_acct_session_id_lo = 0,
      st_acct_session_start = time_zero, st_acct_session_started = False, st_acct_terminate_cause = 0,
      st_acct_interim_interval = 0, st_last_rx_bytes = 0, st_last_tx_bytes = 0, st_acct_input_gigawords = 0,
      st_acct_output_gigawords = 0, st_challenge = None, st_vlan_id = 0, st_sa_query_timed_out = False,
      st_sa_query_trans_id = [], st_sa_query_start = time_zero, st_connected_time = time_zero\<rparr>"

abbreviation (input) "WLAN_STA_AUTH \<equiv> (0x1 :: u32)"
abbreviation (input) "WLAN_STA_AUTHORIZED \<equiv> (0x20 :: u32)"
abbreviation (input) "WLAN_STA_PENDING_POLL \<equiv> (0x40 :: u32)"
abbreviation (input) "WLAN_STA_SHORT_PREAMBLE \<equiv> (0x80 :: u32)"
abbreviation (input) "WLAN_STA_PREAUTH \<equiv> (0x100 :: u32)"
abbreviation (input) "WLAN_STA_MFP \<equiv> (0x400 :: u32)"
abbreviation (input) "WLAN_STA_HT \<equiv> (0x800 :: u32)"
abbreviation (input) "WLAN_STA_WPS \<equiv> (0x1000 :: u32)"
abbreviation (input) "WLAN_STA_MAYBE_WPS \<equiv> (0x2000 :: u32)"
abbreviation (input) "WLAN_STA_WDS \<equiv> (0x4000 :: u32)"
abbreviation (input) "WLAN_STA_ASSOC_REQ_OK \<equiv> (0x8000 :: u32)"
abbreviation (input) "WLAN_STA_WPS2 \<equiv> (0x10000 :: u32)"
abbreviation (input) "WLAN_STA_GAS \<equiv> (0x20000 :: u32)"
abbreviation (input) "WLAN_STA_VHT \<equiv> (0x40000 :: u32)"
abbreviation (input) "WLAN_STA_WNM_SLEEP_MODE \<equiv> (0x80000 :: u32)"
abbreviation (input) "WLAN_STA_PENDING_DISASSOC_CB \<equiv> (0x20000000 :: u32)"
abbreviation (input) "WLAN_STA_PENDING_DEAUTH_CB \<equiv> (0x40000000 :: u32)"
abbreviation (input) "WLAN_STA_NONERP \<equiv> (0x80000000 :: u32)"

abbreviation (input) "WLAN_AUTH_OPEN \<equiv> (0 :: u16)"
abbreviation (input) "WLAN_AUTH_SHARED_KEY \<equiv> (1 :: u16)"
abbreviation (input) "WLAN_AUTH_FT \<equiv> (2 :: u16)"

definition has_flag :: "'a sta_info_scheme \<Rightarrow> u32 \<Rightarrow> bool" where
  "has_flag s f \<longleftrightarrow> flag_set (sta_flags s) f"

definition set_flags :: "u32 \<Rightarrow> 'a sta_info_scheme \<Rightarrow> 'a sta_info_scheme" where
  "set_flags f s = s\<lparr>sta_flags := sta_flags s OR f\<rparr>"

definition clear_flags :: "u32 \<Rightarrow> 'a sta_info_scheme \<Rightarrow> 'a sta_info_scheme" where
  "clear_flags f s = s\<lparr>sta_flags := sta_flags s AND NOT f\<rparr>"

section \<open>Timers, calls to the outside\<close>

datatype sta_timer =
    Ap_handle_timer
  | Ap_handle_session_timer
  | Ap_handle_session_warning_timer
  | Ap_sta_deauth_cb_timeout
  | Ap_sta_disassoc_cb_timeout
  | Ap_sa_query_timer
  | Accounting_interim_update

datatype wpa_event = WPA_AUTH | WPA_ASSOC | WPA_DISASSOC | WPA_DEAUTH | WPA_REAUTH | WPA_REAUTH_EAPOL | WPA_ASSOC_FT

text \<open>The first argument of a driver's call is the index of the BSS.\<close>

datatype sta_action =
    Drv_sta_add nat "byte list" u16 u16 "byte list" u16 u32 byte
      \<comment> \<open>address, AID, capabilities, rates, listen interval, flags, QoS information\<close>
  | Drv_sta_remove nat "byte list"
  | Drv_sta_deauth nat "byte list" u16
  | Drv_sta_disassoc nat "byte list" u16
  | Drv_sta_clear_stats nat "byte list"
  | Drv_sta_set_flags nat "byte list" u32 u32 u32
  | Drv_poll_client nat "byte list" bool
  | Drv_set_wds_sta nat "byte list" u16 bool
  | Drv_set_sta_vlan string nat "byte list" int
  | Drv_send_mlme nat "byte list"
  | Drv_send_mlme_noack nat "byte list"
  | Drv_vlan_if_add nat string
  | Drv_vlan_if_remove nat string
  | Vlan_setup_encryption nat string
  | Wds_encryption nat "byte list"
  | Set_beacons
  | Remove_ptk nat
  | Wpa_sm_event nat wpa_event
  | Wpa_sta_no_wpa nat
  | Wpa_sta_associated nat
  | Wpa_sta_deinit nat
  | Wpa_set_vlan nat int
  | Port_enabled nat bool
  | Eapol_new_station nat
  | Pre_auth nat bool
  | Rsn_preauth_free nat
  | Radius_flush nat "byte list"
  | Radius_account nat bool "byte list"    \<comment> \<open>a report that was sent: whether of the end of a session\<close>
  | Radius_account_start nat "byte list"
  | Iapp_new_station nat
  | Tx_status_1x nat "byte list" bool
  | Ctrl_message nat string
  | Mlme_indication nat string
  | Drv_radius_acl_expire nat "byte list"
  | Beacon_seen nat "byte list"            \<comment> \<open>a beacon of another access point\<close>
  | Eapol_tx_status nat "byte list" bool

section \<open>BSSs\<close>

record hostapd_vlan =
  vl_vlan_id :: int
  vl_ifname :: string
  vl_dynamic_vlan :: int

abbreviation (input) "VLAN_ID_WILDCARD \<equiv> (-1 :: int)"

text \<open>Members of \<open>hostapd_bss_config\<close> beside those that \<open>Ap_State\<close> has.\<close>

record sta_conf =
  sc_iface :: string
  sc_max_num_sta :: int
  sc_acct_interim_interval :: u32
  sc_acct_server :: bool
  sc_radius :: bool                        \<comment> \<open>\<open>hapd->radius\<close> is set\<close>
  sc_skip_inactivity_poll :: bool
  sc_sa_query_max_timeout :: u32
  sc_sa_query_retry_timeout :: u32
  sc_max_listen_interval :: u16
  sc_wds_sta :: bool
  sc_osen :: bool
  sc_ieee802_11f :: bool
  sc_ssid_vlan :: string
  sc_dynamic_vlan :: bool                  \<comment> \<open>not \<open>DYNAMIC_VLAN_DISABLED\<close>\<close>

record sta_bss =
  bs_hapd :: hostapd_data
  bs_conf :: sta_conf
  bs_list :: "nat list"
  bs_hash :: "byte \<Rightarrow> nat list"
  bs_num_sta :: int
  bs_aid :: "u32 list"
  bs_acct_session_id_hi :: u32
  bs_acct_session_id_lo :: u32
  bs_tkip_countermeasures :: bool
  bs_vlan :: "hostapd_vlan list"
  bs_acl_conf :: acl_conf
  bs_acl :: acl_state

record ap_world =
  w_iface :: hostapd_iface
  w_ap_teardown :: bool
  w_ht_counter :: "sta_counter \<Rightarrow> int"     \<comment> \<open>the counters of stations by their HT capabilities\<close>
  w_bss :: "sta_bss option list"
  w_sta :: "nat \<Rightarrow> station option"
  w_timers :: "sta_timer eloop_timeout list"
  w_out :: "sta_action list"
  w_fault :: "fault option"

datatype report_result =
    Report_not_built             \<comment> \<open>no message, or the session time does not fit\<close>
  | Report_not_sent              \<comment> \<open>a later attribute does not fit, or sending fails\<close>
  | Report_sent

record sta_env =
  ev_alloc :: "nat option"
  ev_register :: "sta_timer \<Rightarrow> nat \<Rightarrow> nat \<Rightarrow> bool \<times> os_reltime option"
  ev_clock :: os_reltime
  ev_drv :: "sta_action \<Rightarrow> int"           \<comment> \<open>what a call returns\<close>
  ev_inact_sec :: int
  ev_random :: nat
  ev_stats :: "nat \<Rightarrow> (u32 \<times> u32) option"
  ev_report :: "nat \<Rightarrow> report_result"
  ev_account_start :: bool                \<comment> \<open>whether the start of a session could be reported\<close>
  ev_eapol :: bool                        \<comment> \<open>whether a station has an EAPOL state machine after \<open>ieee802_1x_new_station\<close>\<close>
  ev_trans_id :: "byte list option"       \<comment> \<open>memory for and value of a new transaction identifier\<close>

definition set_fault :: "fault \<Rightarrow> ap_world \<Rightarrow> ap_world" where
  "set_fault x w = w\<lparr>w_fault := Some x\<rparr>"

definition with_sta :: "nat \<Rightarrow> (station \<Rightarrow> ap_world \<Rightarrow> ap_world) \<Rightarrow> ap_world \<Rightarrow> ap_world" where
  "with_sta a f w = (case w_sta w a of None \<Rightarrow> set_fault Null_deref w | Some s \<Rightarrow> f s w)"

definition bss_at :: "ap_world \<Rightarrow> nat \<Rightarrow> sta_bss option" where
  "bss_at w b = (if b < length (w_bss w) then w_bss w ! b else None)"

definition with_bss :: "nat \<Rightarrow> (sta_bss \<Rightarrow> ap_world \<Rightarrow> ap_world) \<Rightarrow> ap_world \<Rightarrow> ap_world" where
  "with_bss b f w = (case bss_at w b of None \<Rightarrow> set_fault Null_deref w | Some x \<Rightarrow> f x w)"

definition put_sta :: "nat \<Rightarrow> (station \<Rightarrow> station) \<Rightarrow> ap_world \<Rightarrow> ap_world" where
  "put_sta a f = with_sta a (\<lambda>s w. w\<lparr>w_sta := (w_sta w)(a \<mapsto> f s)\<rparr>)"

definition upd_bss :: "nat \<Rightarrow> (sta_bss \<Rightarrow> sta_bss) \<Rightarrow> ap_world \<Rightarrow> ap_world" where
  "upd_bss b f = with_bss b (\<lambda>x w. w\<lparr>w_bss := (w_bss w)[b := Some (f x)]\<rparr>)"

definition say :: "sta_action \<Rightarrow> ap_world \<Rightarrow> ap_world" where
  "say x w = w\<lparr>w_out := w_out w @ [x]\<rparr>"

definition register_timer :: "sta_env \<Rightarrow> sta_timer \<Rightarrow> u32 \<Rightarrow> u32 \<Rightarrow> nat \<Rightarrow> nat \<Rightarrow> ap_world \<Rightarrow> ap_world" where
  "register_timer ev h secs usecs b a w =
     (case ev_register ev h b a of (mem, now) \<Rightarrow>
        w\<lparr>w_timers := snd (eloop_register_timeout mem now secs usecs h b a (w_timers w))\<rparr>)"

definition cancel_timer :: "sta_timer \<Rightarrow> nat \<Rightarrow> nat \<Rightarrow> ap_world \<Rightarrow> ap_world" where
  "cancel_timer h b a w = w\<lparr>w_timers := snd (eloop_cancel_timeout h (Some b) (Some a) (w_timers w))\<rparr>"

definition mac_text :: "byte list \<Rightarrow> string" where
  \<comment> \<open>\<open>MACSTR\<close>\<close>
  "mac_text addr = (case addr of [] \<Rightarrow> [] | x # xs \<Rightarrow> fmt_02x False x @ concat (map (\<lambda>y. CHR '':'' # fmt_02x False y) xs))"

section \<open>The counters\<close>

fun counter_of :: "sta_counter \<Rightarrow> ap_world \<Rightarrow> int" where
  "counter_of Non_erp w = if_num_sta_non_erp (w_iface w)"
| "counter_of No_short_slot_time w = if_num_sta_no_short_slot_time (w_iface w)"
| "counter_of No_short_preamble w = if_num_sta_no_short_preamble (w_iface w)"
| "counter_of c w = w_ht_counter w c"

fun add_counter :: "sta_counter \<Rightarrow> int \<Rightarrow> ap_world \<Rightarrow> ap_world" where
  "add_counter Non_erp n w = w\<lparr>w_iface := (w_iface w)\<lparr>if_num_sta_non_erp := if_num_sta_non_erp (w_iface w) + n\<rparr>\<rparr>"
| "add_counter No_short_slot_time n w =
     w\<lparr>w_iface := (w_iface w)\<lparr>if_num_sta_no_short_slot_time := if_num_sta_no_short_slot_time (w_iface w) + n\<rparr>\<rparr>"
| "add_counter No_short_preamble n w =
     w\<lparr>w_iface := (w_iface w)\<lparr>if_num_sta_no_short_preamble := if_num_sta_no_short_preamble (w_iface w) + n\<rparr>\<rparr>"
| "add_counter c n w = w\<lparr>w_ht_counter := (w_ht_counter w)(c := w_ht_counter w c + n)\<rparr>"

definition count_sta :: "sta_counter \<Rightarrow> nat \<Rightarrow> ap_world \<Rightarrow> ap_world" where
  \<comment> \<open>counts a station that is not counted yet\<close>
  "count_sta c a = with_sta a (\<lambda>s w.
     if st_counted s c then w
     else add_counter c 1 (put_sta a (\<lambda>s. s\<lparr>st_counted := (st_counted s)(c := True)\<rparr>) w))"

definition uncount_sta :: "sta_counter \<Rightarrow> nat \<Rightarrow> ap_world \<Rightarrow> ap_world" where
  "uncount_sta c a = with_sta a (\<lambda>s w.
     if \<not> st_counted s c then w
     else add_counter c (- 1) (put_sta a (\<lambda>s. s\<lparr>st_counted := (st_counted s)(c := False)\<rparr>) w))"

end
