(* ===== verification/Sta_Info.thy ===== *)
theory Sta_Info
  imports Sta_State
begin

text \<open>
  The operations of the station table (\<open>ap/sta_info.c\<close>, \<open>ap/accounting.c\<close>, \<open>ap/ap_mlme.c\<close>, the
  lookups of \<open>ap/utils.c\<close> and the VLANs of \<open>ap/vlan_init.c\<close>). An operation takes the environment,
  the index of the BSS and the address of the station, and gives the new state.
\<close>

unbundle bit_operations_syntax

section \<open>Lists and hash table\<close>

definition STA_HASH :: "byte list \<Rightarrow> byte" where
  "STA_HASH addr = addr ! 5"

fun find_sta :: "(nat \<Rightarrow> station option) \<Rightarrow> byte list \<Rightarrow> nat list \<Rightarrow> fault + nat option" where
  "find_sta heap addr [] = Inr None"
| "find_sta heap addr (a # as) =
     (case heap a of
        None \<Rightarrow> Inl Null_deref
      | Some s \<Rightarrow> if sta_addr s = addr then Inr (Some a) else find_sta heap addr as)"

definition table_get_sta :: "sta_bss \<Rightarrow> (nat \<Rightarrow> station option) \<Rightarrow> byte list \<Rightarrow> fault + nat option" where
  "table_get_sta bss heap addr = find_sta heap addr (bs_hash bss (STA_HASH addr))"

definition with_found :: "nat \<Rightarrow> byte list \<Rightarrow> (nat option \<Rightarrow> ap_world \<Rightarrow> ap_world) \<Rightarrow> ap_world \<Rightarrow> ap_world" where
  "with_found b addr f = with_bss b (\<lambda>bss w.
     case table_get_sta bss (w_sta w) addr of Inl x \<Rightarrow> set_fault x w | Inr r \<Rightarrow> f r w)"

definition stations_as :: "(nat \<Rightarrow> station option) \<Rightarrow> sta_bss \<Rightarrow> hostapd_data" where
  \<comment> \<open>the BSS with the list of its stations, as the code for elements reads it\<close>
  "stations_as heap bss = (bs_hapd bss)\<lparr>hd_sta_list := map (\<lambda>a. sta_info.truncate (the (heap a))) (bs_list bss)\<rparr>"

fun list_del :: "(nat \<Rightarrow> station option) \<Rightarrow> nat \<Rightarrow> nat list \<Rightarrow> fault + nat list" where
  "list_del heap a [] = Inr []"
| "list_del heap a (x # xs) =
     (if x = a then Inr xs
      else if heap x = None then Inl Null_deref
      else fbind (list_del heap a xs) (\<lambda>xs. Inr (x # xs)))"

definition ap_sta_list_del :: "nat \<Rightarrow> nat \<Rightarrow> ap_world \<Rightarrow> ap_world" where
  "ap_sta_list_del b a = with_bss b (\<lambda>bss w.
     case list_del (w_sta w) a (bs_list bss) of
       Inl x \<Rightarrow> set_fault x w
     | Inr xs \<Rightarrow> upd_bss b (\<lambda>bss. bss\<lparr>bs_list := xs\<rparr>) w)"

definition ap_sta_hash_add :: "nat \<Rightarrow> nat \<Rightarrow> ap_world \<Rightarrow> ap_world" where
  "ap_sta_hash_add b a = with_sta a (\<lambda>s.
     upd_bss b (\<lambda>bss. bss\<lparr>bs_hash := (bs_hash bss)(STA_HASH (sta_addr s) := a # bs_hash bss (STA_HASH (sta_addr s)))\<rparr>))"

fun hash_del :: "(nat \<Rightarrow> station option) \<Rightarrow> byte list \<Rightarrow> nat list \<Rightarrow> fault + nat list" where
  \<comment> \<open>takes out the first station with the address\<close>
  "hash_del heap addr [] = Inr []"
| "hash_del heap addr (x # xs) =
     (case heap x of
        None \<Rightarrow> Inl Null_deref
      | Some s \<Rightarrow> if sta_addr s = addr then Inr xs else fbind (hash_del heap addr xs) (\<lambda>xs. Inr (x # xs)))"

definition ap_sta_hash_del :: "nat \<Rightarrow> nat \<Rightarrow> ap_world \<Rightarrow> ap_world" where
  "ap_sta_hash_del b a = with_sta a (\<lambda>s. with_bss b (\<lambda>bss w.
     let h = STA_HASH (sta_addr s) in
     case hash_del (w_sta w) (sta_addr s) (bs_hash bss h) of
       Inl x \<Rightarrow> set_fault x w
     | Inr xs \<Rightarrow> upd_bss b (\<lambda>bss. bss\<lparr>bs_hash := (bs_hash bss)(h := xs)\<rparr>) w))"

section \<open>Indications, authorization\<close>

definition mlme_deletekeys_request :: "nat \<Rightarrow> ap_world \<Rightarrow> ap_world" where
  "mlme_deletekeys_request a = with_sta a (\<lambda>s. if st_wpa_sm s then say (Remove_ptk a) else id)"

definition mlme_authenticate_indication :: "nat \<Rightarrow> ap_world \<Rightarrow> ap_world" where
  "mlme_authenticate_indication a = with_sta a (\<lambda>s w.
     let w = say (Mlme_indication a ''AUTHENTICATE'') w in
     if st_auth_alg s \<noteq> WLAN_AUTH_FT \<and> \<not> has_flag s WLAN_STA_MFP then mlme_deletekeys_request a w else w)"

definition mlme_deauthenticate_indication :: "nat \<Rightarrow> u16 \<Rightarrow> ap_world \<Rightarrow> ap_world" where
  "mlme_deauthenticate_indication a reason w =
     (let w = say (Mlme_indication a ''DEAUTHENTICATE'') w in
      if \<not> w_ap_teardown w then mlme_deletekeys_request a w else w)"

definition mlme_associate_indication :: "nat \<Rightarrow> ap_world \<Rightarrow> ap_world" where
  "mlme_associate_indication a = with_sta a (\<lambda>s w.
     let w = say (Mlme_indication a ''ASSOCIATE'') w in
     if st_auth_alg s \<noteq> WLAN_AUTH_FT then mlme_deletekeys_request a w else w)"

definition mlme_reassociate_indication :: "nat \<Rightarrow> ap_world \<Rightarrow> ap_world" where
  "mlme_reassociate_indication a = with_sta a (\<lambda>s w.
     let w = say (Mlme_indication a ''REASSOCIATE'') w in
     if st_auth_alg s \<noteq> WLAN_AUTH_FT then mlme_deletekeys_request a w else w)"

definition mlme_disassociate_indication :: "nat \<Rightarrow> u16 \<Rightarrow> ap_world \<Rightarrow> ap_world" where
  "mlme_disassociate_indication a reason w =
     mlme_deletekeys_request a (say (Mlme_indication a ''DISASSOCIATE'') w)"

definition ap_sta_set_authorized :: "bool \<Rightarrow> nat \<Rightarrow> nat \<Rightarrow> ap_world \<Rightarrow> ap_world" where
  "ap_sta_set_authorized authorized b a = with_sta a (\<lambda>s w.
     if authorized = has_flag s WLAN_STA_AUTHORIZED then w
     else if authorized then
       put_sta a (set_flags WLAN_STA_AUTHORIZED) (say (Ctrl_message b (''AP-STA-CONNECTED '' @ mac_text (sta_addr s))) w)
     else
       put_sta a (clear_flags WLAN_STA_AUTHORIZED) (say (Ctrl_message b (''AP-STA-DISCONNECTED '' @ mac_text (sta_addr s))) w))"

text \<open>The parts of the IEEE 802.1X and WPA state machines that the table sees.\<close>

definition ieee802_1x_notify_port_enabled :: "bool \<Rightarrow> nat \<Rightarrow> ap_world \<Rightarrow> ap_world" where
  "ieee802_1x_notify_port_enabled enabled a = with_sta a (\<lambda>s. if st_eapol_sm s then say (Port_enabled a enabled) else id)"

definition ieee802_1x_notify_pre_auth :: "bool \<Rightarrow> nat \<Rightarrow> ap_world \<Rightarrow> ap_world" where
  "ieee802_1x_notify_pre_auth pre_auth a = with_sta a (\<lambda>s. if st_eapol_sm s then say (Pre_auth a pre_auth) else id)"

definition ieee802_1x_free_station :: "nat \<Rightarrow> ap_world \<Rightarrow> ap_world" where
  "ieee802_1x_free_station a = put_sta a (\<lambda>s. s\<lparr>st_eapol_sm := False\<rparr>)"

definition wpa_auth_sm_event :: "nat \<Rightarrow> wpa_event \<Rightarrow> ap_world \<Rightarrow> ap_world" where
  "wpa_auth_sm_event a event = with_sta a (\<lambda>s. if st_wpa_sm s then say (Wpa_sm_event a event) else id)"

section \<open>Accounting\<close>

abbreviation (input) "ACCT_DEFAULT_UPDATE_INTERVAL \<equiv> (300 :: u32)"
abbreviation (input) "RADIUS_ACCT_TERMINATE_CAUSE_USER_REQUEST \<equiv> (1 :: int)"
abbreviation (input) "RADIUS_ACCT_TERMINATE_CAUSE_IDLE_TIMEOUT \<equiv> (4 :: int)"
abbreviation (input) "RADIUS_ACCT_TERMINATE_CAUSE_SESSION_TIMEOUT \<equiv> (5 :: int)"

definition count_octets :: "u32 \<times> u32 \<Rightarrow> station \<Rightarrow> station" where
  \<comment> \<open>the octets received and sent, as the driver counts them\<close>
  "count_octets = (\<lambda>(rx, tx) s.
     s\<lparr>st_acct_input_gigawords := st_acct_input_gigawords s + (if st_last_rx_bytes s > rx then 1 else 0),
       st_acct_output_gigawords := st_acct_output_gigawords s + (if st_last_tx_bytes s > tx then 1 else 0),
       st_last_rx_bytes := rx, st_last_tx_bytes := tx\<rparr>)"

definition accounting_sta_update_stats :: "sta_env \<Rightarrow> nat \<Rightarrow> ap_world \<Rightarrow> ap_world" where
  "accounting_sta_update_stats ev a w = (case ev_stats ev a of None \<Rightarrow> w | Some d \<Rightarrow> put_sta a (count_octets d) w)"

definition accounting_sta_report :: "sta_env \<Rightarrow> bool \<Rightarrow> nat \<Rightarrow> nat \<Rightarrow> ap_world \<Rightarrow> ap_world" where
  "accounting_sta_report ev stop b a = with_bss b (\<lambda>bss. with_sta a (\<lambda>s w.
     if \<not> sc_acct_server (bs_conf bss) then w
     else case ev_report ev a of
       Report_not_built \<Rightarrow> w
     | Report_not_sent \<Rightarrow> accounting_sta_update_stats ev a w
     | Report_sent \<Rightarrow> say (Radius_account b stop (sta_addr s)) (accounting_sta_update_stats ev a w)))"

definition accounting_sta_interim :: "sta_env \<Rightarrow> nat \<Rightarrow> nat \<Rightarrow> ap_world \<Rightarrow> ap_world" where
  "accounting_sta_interim ev b a = with_sta a (\<lambda>s w.
     if st_acct_session_started s then accounting_sta_report ev False b a w else w)"

definition accounting_interim_update :: "sta_env \<Rightarrow> nat \<Rightarrow> nat \<Rightarrow> ap_world \<Rightarrow> ap_world" where
  "accounting_interim_update ev b a = with_sta a (\<lambda>s w.
     if st_acct_interim_interval s \<noteq> 0
     then register_timer ev Accounting_interim_update (st_acct_interim_interval s) 0 b a (accounting_sta_interim ev b a w)
     else register_timer ev Accounting_interim_update ACCT_DEFAULT_UPDATE_INTERVAL 0 b a (accounting_sta_update_stats ev a w))"

definition accounting_sta_start :: "sta_env \<Rightarrow> nat \<Rightarrow> nat \<Rightarrow> ap_world \<Rightarrow> ap_world" where
  "accounting_sta_start ev b a = with_bss b (\<lambda>bss. with_sta a (\<lambda>s w.
     if st_acct_session_started s then w
     else
       let w = say (Drv_sta_clear_stats b (sta_addr s)) (put_sta a (\<lambda>s. s\<lparr>st_acct_session_start := ev_clock ev,
                 st_last_rx_bytes := 0, st_last_tx_bytes := 0, st_acct_input_gigawords := 0, st_acct_output_gigawords := 0\<rparr>) w)
       in if \<not> sc_acct_server (bs_conf bss) then w
          else
            let interval = if st_acct_interim_interval s \<noteq> 0 then st_acct_interim_interval s else ACCT_DEFAULT_UPDATE_INTERVAL;
                w = register_timer ev Accounting_interim_update interval 0 b a w;
                w = (if ev_account_start ev then say (Radius_account_start b (sta_addr s)) w else w)
            in put_sta a (\<lambda>s. s\<lparr>st_acct_session_started := True\<rparr>) w))"

definition accounting_sta_stop :: "sta_env \<Rightarrow> nat \<Rightarrow> nat \<Rightarrow> ap_world \<Rightarrow> ap_world" where
  "accounting_sta_stop ev b a = with_sta a (\<lambda>s w.
     if st_acct_session_started s
     then put_sta a (\<lambda>s. s\<lparr>st_acct_session_started := False\<rparr>)
            (cancel_timer Accounting_interim_update b a (accounting_sta_report ev True b a w))
     else w)"

definition accounting_sta_get_id :: "nat \<Rightarrow> nat \<Rightarrow> ap_world \<Rightarrow> ap_world" where
  "accounting_sta_get_id b a = with_bss b (\<lambda>bss w.
     let lo = bs_acct_session_id_lo bss;
         hi = bs_acct_session_id_hi bss + (if lo + 1 = 0 then 1 else 0)
     in put_sta a (\<lambda>s. s\<lparr>st_acct_session_id_lo := lo, st_acct_session_id_hi := hi\<rparr>)
          (upd_bss b (\<lambda>bss. bss\<lparr>bs_acct_session_id_lo := lo + 1, bs_acct_session_id_hi := hi\<rparr>) w))"

section \<open>Removing a station\<close>

definition clear_aid :: "nat \<Rightarrow> u32 list \<Rightarrow> u32 list" where
  "clear_aid n ws = ws[n div 32 := ws ! (n div 32) AND NOT (push_bit (n mod 32) 1)]"

definition ap_sta_release_aid :: "nat \<Rightarrow> nat \<Rightarrow> ap_world \<Rightarrow> ap_world" where
  "ap_sta_release_aid b a = with_sta a (\<lambda>s. with_bss b (\<lambda>bss w.
     if st_aid s = 0 then w
     else let n = unat (st_aid s) - 1 in
       if n div 32 < length (bs_aid bss) then upd_bss b (\<lambda>bss. bss\<lparr>bs_aid := clear_aid n (bs_aid bss)\<rparr>) w
       else set_fault (Bad_index (length (bs_aid bss)) (int (n div 32))) w))"

definition uncount_11g :: "sta_counter \<Rightarrow> nat \<Rightarrow> bool \<times> ap_world \<Rightarrow> bool \<times> ap_world" where
  \<comment> \<open>the Boolean says whether the beacons have to be set\<close>
  "uncount_11g c a = (\<lambda>(set_beacon, w).
     case w_sta w a of
       None \<Rightarrow> (set_beacon, set_fault Null_deref w)
     | Some s \<Rightarrow>
         if \<not> st_counted s c then (set_beacon, w)
         else let w = uncount_sta c a w in
           case if_current_mode (w_iface w) of
             None \<Rightarrow> (set_beacon, set_fault Null_deref w)
           | Some hw \<Rightarrow> (set_beacon \<or> (hm_mode hw = HOSTAPD_MODE_IEEE80211G \<and> counter_of c w = 0), w))"

definition uncount_non_erp :: "nat \<Rightarrow> ap_world \<Rightarrow> bool \<times> ap_world" where
  "uncount_non_erp a w =
     (case w_sta w a of
        None \<Rightarrow> (False, set_fault Null_deref w)
      | Some s \<Rightarrow>
          if \<not> st_counted s Non_erp then (False, w)
          else let w = uncount_sta Non_erp a w in (counter_of Non_erp w = 0, w))"

definition ap_free_counters :: "nat \<Rightarrow> ap_world \<Rightarrow> ap_world" where
  "ap_free_counters a w =
     (let (set_beacon, w) = uncount_11g No_short_preamble a (uncount_11g No_short_slot_time a (uncount_non_erp a w));
          w = uncount_sta Ht_20mhz a (uncount_sta No_ht a (uncount_sta Ht_no_gf a w))
      in if set_beacon then say Set_beacons w else w)"

definition cancel_sta_timers :: "nat \<Rightarrow> nat \<Rightarrow> ap_world \<Rightarrow> ap_world" where
  "cancel_sta_timers b a w =
     cancel_timer Ap_sta_disassoc_cb_timeout b a (cancel_timer Ap_sta_deauth_cb_timeout b a
       (cancel_timer Ap_handle_session_warning_timer b a (cancel_timer Ap_handle_session_timer b a
         (cancel_timer Ap_handle_timer b a w))))"

definition ap_free_sta :: "sta_env \<Rightarrow> nat \<Rightarrow> nat \<Rightarrow> ap_world \<Rightarrow> ap_world" where
  "ap_free_sta ev b a w =
     (let w = ap_sta_set_authorized False b a (accounting_sta_stop ev b a w);
          w = with_sta a (\<lambda>s w. if has_flag s WLAN_STA_WDS then say (Drv_set_wds_sta b (sta_addr s) (st_aid s) False) w else w) w;
          w = with_sta a (\<lambda>s w. if \<not> w_ap_teardown w \<and> \<not> has_flag s WLAN_STA_PREAUTH
                                then say (Drv_sta_remove b (sta_addr s)) w else w) w;
          w = ap_sta_list_del b a (ap_sta_hash_del b a w);
          w = ap_sta_release_aid b a w;
          w = upd_bss b (\<lambda>bss. bss\<lparr>bs_num_sta := bs_num_sta bss - 1\<rparr>) w;
          w = cancel_sta_timers b a (ap_free_counters a w);
          w = say (Rsn_preauth_free a) (with_sta a (\<lambda>s. if st_wpa_sm s then say (Wpa_sta_deinit a) else id)
                (ieee802_1x_free_station a w));
          w = with_sta a (\<lambda>s. with_bss b (\<lambda>bss. if sc_radius (bs_conf bss) then say (Radius_flush b (sta_addr s)) else id)) w;
          w = cancel_timer Ap_sa_query_timer b a w
      in w\<lparr>w_sta := (w_sta w)(a := None)\<rparr>)"

text \<open>\<open>hostapd_free_stas\<close> follows the list from a station to the one behind it before it frees the first.\<close>

abbreviation (input) "WLAN_REASON_UNSPECIFIED \<equiv> (1 :: u16)"
abbreviation (input) "WLAN_REASON_PREV_AUTH_NOT_VALID \<equiv> (2 :: u16)"
abbreviation (input) "WLAN_REASON_DISASSOC_DUE_TO_INACTIVITY \<equiv> (4 :: u16)"
abbreviation (input) "WLAN_REASON_DISASSOC_AP_BUSY \<equiv> (5 :: u16)"
abbreviation (input) "WLAN_REASON_CLASS2_FRAME_FROM_NONAUTH_STA \<equiv> (6 :: u16)"
abbreviation (input) "WLAN_REASON_CLASS3_FRAME_FROM_NONASSOC_STA \<equiv> (7 :: u16)"
abbreviation (input) "WLAN_REASON_MICHAEL_MIC_FAILURE \<equiv> (14 :: u16)"

fun free_stas_loop :: "sta_env \<Rightarrow> nat \<Rightarrow> nat list \<Rightarrow> ap_world \<Rightarrow> ap_world" where
  "free_stas_loop ev b [] w = w"
| "free_stas_loop ev b (a # as) w =
     free_stas_loop ev b as
       (ap_free_sta ev b a
         (with_sta a (\<lambda>s. if has_flag s WLAN_STA_AUTH then mlme_deauthenticate_indication a WLAN_REASON_UNSPECIFIED else id) w))"

definition hostapd_free_stas :: "sta_env \<Rightarrow> nat \<Rightarrow> ap_world \<Rightarrow> ap_world" where
  "hostapd_free_stas ev b = with_bss b (\<lambda>bss. free_stas_loop ev b (bs_list bss))"

section \<open>Taking a station off\<close>

abbreviation (input) "AP_DISASSOC_DELAY \<equiv> (1 :: u32)"
abbreviation (input) "AP_DEAUTH_DELAY \<equiv> (1 :: u32)"
abbreviation (input) "AP_MAX_INACTIVITY_AFTER_DISASSOC \<equiv> (30 :: u32)"
abbreviation (input) "AP_MAX_INACTIVITY_AFTER_DEAUTH \<equiv> (5 :: u32)"
abbreviation (input) "WPA_DRIVER_FLAGS_DEAUTH_TX_STATUS \<equiv> (0x00020000 :: u32)"
abbreviation (input) "WPA_DRIVER_FLAGS_INACTIVITY_TIMER \<equiv> (0x00800000 :: u32)"

definition ap_sta_remove :: "sta_env \<Rightarrow> nat \<Rightarrow> nat \<Rightarrow> ap_world \<Rightarrow> ap_world" where
  \<comment> \<open>no caller uses the status it returns\<close>
  "ap_sta_remove ev b a w =
     with_sta a (\<lambda>s. say (Drv_sta_remove b (sta_addr s))) (ieee802_1x_notify_port_enabled False a w)"

definition set_timeout_next :: "sta_timeout_next \<Rightarrow> nat \<Rightarrow> ap_world \<Rightarrow> ap_world" where
  "set_timeout_next t a = put_sta a (\<lambda>s. s\<lparr>st_timeout_next := t\<rparr>)"

definition reschedule :: "sta_env \<Rightarrow> sta_timer \<Rightarrow> u32 \<Rightarrow> nat \<Rightarrow> nat \<Rightarrow> ap_world \<Rightarrow> ap_world" where
  "reschedule ev h secs b a w = register_timer ev h secs 0 b a (cancel_timer h b a w)"

definition cb_delay :: "ap_world \<Rightarrow> u32" where
  "cb_delay w = (if flag_set (if_drv_flags (w_iface w)) WPA_DRIVER_FLAGS_DEAUTH_TX_STATUS then 2 else 0)"

definition ap_sta_disassoc_cb_timeout :: "sta_env \<Rightarrow> nat \<Rightarrow> nat \<Rightarrow> ap_world \<Rightarrow> ap_world" where
  "ap_sta_disassoc_cb_timeout ev b a w =
     with_sta a (\<lambda>s. mlme_disassociate_indication a (st_disassoc_reason s)) (ap_sta_remove ev b a w)"

definition ap_sta_deauth_cb_timeout :: "sta_env \<Rightarrow> nat \<Rightarrow> nat \<Rightarrow> ap_world \<Rightarrow> ap_world" where
  "ap_sta_deauth_cb_timeout ev b a w =
     with_sta a (\<lambda>s. mlme_deauthenticate_indication a (st_deauth_reason s)) (ap_sta_remove ev b a w)"

definition ap_sta_disassociate :: "sta_env \<Rightarrow> u16 \<Rightarrow> nat \<Rightarrow> nat \<Rightarrow> ap_world \<Rightarrow> ap_world" where
  "ap_sta_disassociate ev reason b a w =
     (let w = put_sta a (clear_flags (WLAN_STA_ASSOC OR WLAN_STA_ASSOC_REQ_OK)) w;
          w = ap_sta_set_authorized False b a w;
          w = set_timeout_next STA_DEAUTH a w;
          w = reschedule ev Ap_handle_timer AP_MAX_INACTIVITY_AFTER_DISASSOC b a w;
          w = ieee802_1x_free_station a (accounting_sta_stop ev b a w);
          w = put_sta a (\<lambda>s. set_flags WLAN_STA_PENDING_DISASSOC_CB (s\<lparr>st_disassoc_reason := reason\<rparr>)) w
      in reschedule ev Ap_sta_disassoc_cb_timeout (cb_delay w) b a w)"

definition ap_sta_deauthenticate :: "sta_env \<Rightarrow> u16 \<Rightarrow> nat \<Rightarrow> nat \<Rightarrow> ap_world \<Rightarrow> ap_world" where
  "ap_sta_deauthenticate ev reason b a w =
     (let w = put_sta a (clear_flags (WLAN_STA_AUTH OR WLAN_STA_ASSOC)) w;
          w = ap_sta_set_authorized False b a w;
          w = set_timeout_next STA_REMOVE a w;
          w = reschedule ev Ap_handle_timer AP_MAX_INACTIVITY_AFTER_DEAUTH b a w;
          w = ieee802_1x_free_station a (accounting_sta_stop ev b a w);
          w = put_sta a (\<lambda>s. set_flags WLAN_STA_PENDING_DEAUTH_CB (s\<lparr>st_deauth_reason := reason\<rparr>)) w
      in reschedule ev Ap_sta_deauth_cb_timeout (cb_delay w) b a w)"

definition disconnect_sta :: "sta_env \<Rightarrow> u16 \<Rightarrow> nat \<Rightarrow> nat \<Rightarrow> ap_world \<Rightarrow> ap_world" where
  "disconnect_sta ev reason b a w =
     (let w = ap_sta_set_authorized False b a w;
          w = ieee802_1x_notify_port_enabled False a (wpa_auth_sm_event a WPA_DEAUTH w);
          w = put_sta a (clear_flags (WLAN_STA_AUTH OR WLAN_STA_ASSOC)) w;
          w = reschedule ev Ap_handle_timer AP_MAX_INACTIVITY_AFTER_DEAUTH b a w;
          w = set_timeout_next STA_REMOVE a w;
          w = put_sta a (\<lambda>s. set_flags WLAN_STA_PENDING_DEAUTH_CB (s\<lparr>st_deauth_reason := reason\<rparr>)) w
      in reschedule ev Ap_sta_deauth_cb_timeout (cb_delay w) b a w)"

definition ap_sta_disconnect :: "sta_env \<Rightarrow> u16 \<Rightarrow> byte list option \<Rightarrow> nat \<Rightarrow> nat option \<Rightarrow> ap_world \<Rightarrow> ap_world" where
  \<comment> \<open>the address and the station may each be null\<close>
  "ap_sta_disconnect ev reason addr b sta =
     (let found = (\<lambda>sta w.
        let w = (case addr of None \<Rightarrow> w | Some ad \<Rightarrow> say (Drv_sta_deauth b ad reason) w)
        in case sta of None \<Rightarrow> w | Some a \<Rightarrow> disconnect_sta ev reason b a w)
      in case (sta, addr) of (None, Some ad) \<Rightarrow> with_found b ad found | _ \<Rightarrow> found sta)"

definition ap_sta_deauth_cb :: "sta_env \<Rightarrow> nat \<Rightarrow> nat \<Rightarrow> ap_world \<Rightarrow> ap_world" where
  "ap_sta_deauth_cb ev b a = with_sta a (\<lambda>s w.
     if \<not> has_flag s WLAN_STA_PENDING_DEAUTH_CB then w
     else ap_sta_deauth_cb_timeout ev b a (cancel_timer Ap_sta_deauth_cb_timeout b a
            (put_sta a (clear_flags WLAN_STA_PENDING_DEAUTH_CB) w)))"

definition ap_sta_disassoc_cb :: "sta_env \<Rightarrow> nat \<Rightarrow> nat \<Rightarrow> ap_world \<Rightarrow> ap_world" where
  "ap_sta_disassoc_cb ev b a = with_sta a (\<lambda>s w.
     if \<not> has_flag s WLAN_STA_PENDING_DISASSOC_CB then w
     else ap_sta_disassoc_cb_timeout ev b a (cancel_timer Ap_sta_disassoc_cb_timeout b a
            (put_sta a (clear_flags WLAN_STA_PENDING_DISASSOC_CB) w)))"

section \<open>The inactivity timer\<close>

text \<open>
  The first part of \<open>ap_handle_timer\<close> asks the driver how long an associated station has been
  inactive; it gives what the timer goes on with, and the seconds to the next call, zero if there
  is more to do now.
\<close>

definition check_inactivity :: "sta_env \<Rightarrow> sta_bss \<Rightarrow> station \<Rightarrow> sta_timeout_next \<times> int" where
  "check_inactivity ev bss s =
     (let limit = bc_ap_max_inactivity (hd_conf (bs_hapd bss));
          fuzz = int (ev_random ev mod 20) in
      if has_flag s WLAN_STA_ASSOC \<and> st_timeout_next s \<in> {STA_NULLFUNC, STA_DISASSOC} then
        (if ev_inact_sec ev = - 1 then (st_timeout_next s, limit + fuzz)
         else if ev_inact_sec ev < limit then (STA_NULLFUNC, limit + fuzz - ev_inact_sec ev)
         else (if sc_skip_inactivity_poll (bs_conf bss) then STA_DISASSOC else st_timeout_next s, 0))
      else (st_timeout_next s, 0))"

definition poll_answered :: "sta_bss \<Rightarrow> station \<Rightarrow> sta_timeout_next \<times> int \<Rightarrow> sta_timeout_next \<times> int" where
  "poll_answered bss s = (\<lambda>(t, n).
     if has_flag s WLAN_STA_ASSOC \<and> t = STA_DISASSOC \<and> \<not> has_flag s WLAN_STA_PENDING_POLL
        \<and> \<not> sc_skip_inactivity_poll (bs_conf bss)
     then (STA_NULLFUNC, bc_ap_max_inactivity (hd_conf (bs_hapd bss))) else (t, n))"

definition idle_cause :: "station \<Rightarrow> station" where
  "idle_cause s =
     s\<lparr>st_acct_terminate_cause := if st_acct_terminate_cause s = 0 then RADIUS_ACCT_TERMINATE_CAUSE_IDLE_TIMEOUT
                                  else st_acct_terminate_cause s\<rparr>"

definition timer_frame :: "nat \<Rightarrow> nat \<Rightarrow> station \<Rightarrow> sta_timeout_next \<Rightarrow> ap_world \<Rightarrow> ap_world" where
  \<comment> \<open>the frame that is sent to the station\<close>
  "timer_frame b a s t w =
     (if t = STA_NULLFUNC \<and> has_flag s WLAN_STA_ASSOC then
        say (Drv_poll_client b (sta_addr s) (has_flag s WLAN_STA_WMM)) (put_sta a (set_flags WLAN_STA_PENDING_POLL) w)
      else if t = STA_REMOVE then w
      else if t = STA_DEAUTH then say (Drv_sta_deauth b (sta_addr s) WLAN_REASON_PREV_AUTH_NOT_VALID) w
      else say (Drv_sta_disassoc b (sta_addr s)
             (if t = STA_DISASSOC then WLAN_REASON_DISASSOC_DUE_TO_INACTIVITY else WLAN_REASON_PREV_AUTH_NOT_VALID)) w)"

definition timer_step :: "sta_env \<Rightarrow> nat \<Rightarrow> nat \<Rightarrow> sta_timeout_next \<Rightarrow> ap_world \<Rightarrow> ap_world" where
  \<comment> \<open>the \<open>switch\<close> at the end\<close>
  "timer_step ev b a t w =
     (if t = STA_NULLFUNC then
        register_timer ev Ap_handle_timer AP_DISASSOC_DELAY 0 b a (set_timeout_next STA_DISASSOC a w)
      else if t \<in> {STA_DISASSOC, STA_DISASSOC_FROM_CLI} then
        (let w = put_sta a (clear_flags WLAN_STA_ASSOC) (ap_sta_set_authorized False b a w);
             w = put_sta a idle_cause (ieee802_1x_notify_port_enabled False a w);
             w = ieee802_1x_free_station a (accounting_sta_stop ev b a w);
             w = register_timer ev Ap_handle_timer AP_DEAUTH_DELAY 0 b a (set_timeout_next STA_DEAUTH a w)
         in mlme_disassociate_indication a
              (if t = STA_DISASSOC then WLAN_REASON_DISASSOC_DUE_TO_INACTIVITY else WLAN_REASON_PREV_AUTH_NOT_VALID) w)
      else ap_free_sta ev b a (mlme_deauthenticate_indication a WLAN_REASON_PREV_AUTH_NOT_VALID (put_sta a idle_cause w)))"

definition ap_handle_timer :: "sta_env \<Rightarrow> nat \<Rightarrow> nat \<Rightarrow> ap_world \<Rightarrow> ap_world" where
  "ap_handle_timer ev b a = with_bss b (\<lambda>bss. with_sta a (\<lambda>s w.
     if st_timeout_next s = STA_REMOVE then ap_free_sta ev b a w
     else
       let (t, next_time) = poll_answered bss s (check_inactivity ev bss s);
           w = set_timeout_next t a w
       in if next_time \<noteq> 0 then register_timer ev Ap_handle_timer (word_of_int next_time) 0 b a w
          else timer_step ev b a t (timer_frame b a s t w)))"

definition ap_handle_session_timer :: "sta_env \<Rightarrow> nat \<Rightarrow> nat \<Rightarrow> ap_world \<Rightarrow> ap_world" where
  "ap_handle_session_timer ev b a = with_sta a (\<lambda>s w.
     if \<not> has_flag s WLAN_STA_AUTH then (if has_flag s WLAN_STA_GAS then ap_free_sta ev b a w else w)
     else
       let w = mlme_deauthenticate_indication a WLAN_REASON_PREV_AUTH_NOT_VALID
                 (say (Drv_sta_deauth b (sta_addr s) WLAN_REASON_PREV_AUTH_NOT_VALID) w)
       in ap_free_sta ev b a
            (put_sta a (\<lambda>s. s\<lparr>st_acct_terminate_cause := RADIUS_ACCT_TERMINATE_CAUSE_SESSION_TIMEOUT\<rparr>) w))"

definition ap_sta_session_timeout :: "sta_env \<Rightarrow> u32 \<Rightarrow> nat \<Rightarrow> nat \<Rightarrow> ap_world \<Rightarrow> ap_world" where
  "ap_sta_session_timeout ev session_timeout = reschedule ev Ap_handle_session_timer session_timeout"

definition ap_sta_no_session_timeout :: "nat \<Rightarrow> nat \<Rightarrow> ap_world \<Rightarrow> ap_world" where
  "ap_sta_no_session_timeout = cancel_timer Ap_handle_session_timer"

definition ap_sta_replenish_timeout :: "sta_env \<Rightarrow> u32 \<Rightarrow> nat \<Rightarrow> nat \<Rightarrow> ap_world \<Rightarrow> ap_world" where
  "ap_sta_replenish_timeout ev session_timeout b a w =
     (case ev_register ev Ap_handle_session_timer b a of (mem, now) \<Rightarrow>
        w\<lparr>w_timers := snd (eloop_replenish_timeout (ev_clock ev) mem now session_timeout 0 Ap_handle_session_timer b a (w_timers w))\<rparr>)"

definition ap_sta_session_warning_timeout :: "sta_env \<Rightarrow> u32 \<Rightarrow> nat \<Rightarrow> nat \<Rightarrow> ap_world \<Rightarrow> ap_world" where
  "ap_sta_session_warning_timeout ev warning_time = reschedule ev Ap_handle_session_warning_timer warning_time"

section \<open>Adding a station\<close>

definition ap_sta_remove_in_other_bss :: "sta_env \<Rightarrow> nat \<Rightarrow> nat \<Rightarrow> ap_world \<Rightarrow> ap_world" where
  \<comment> \<open>a BSS that is being reconfigured is null\<close>
  "ap_sta_remove_in_other_bss ev b a w =
     foldl (\<lambda>w i.
       if i = b \<or> bss_at w i = None then w
       else with_sta a (\<lambda>s. with_found i (sta_addr s) (\<lambda>r w.
         case r of
           None \<Rightarrow> w
         | Some a2 \<Rightarrow> with_sta a2 (\<lambda>s2. ap_sta_disconnect ev WLAN_REASON_PREV_AUTH_NOT_VALID (Some (sta_addr s2)) i (Some a2)) w)) w)
       w [0..<length (w_bss w)]"

definition insert_sta :: "sta_env \<Rightarrow> byte list \<Rightarrow> nat \<Rightarrow> sta_bss \<Rightarrow> nat \<Rightarrow> ap_world \<Rightarrow> ap_world" where
  "insert_sta ev addr b bss a w =
     (let w = w\<lparr>w_sta := (w_sta w)(a \<mapsto> zero_station\<lparr>st_acct_interim_interval := sc_acct_interim_interval (bs_conf bss)\<rparr>)\<rparr>;
          w = accounting_sta_get_id b a w;
          w = (if flag_set (if_drv_flags (w_iface w)) WPA_DRIVER_FLAGS_INACTIVITY_TIMER then w
               else register_timer ev Ap_handle_timer (word_of_int (bc_ap_max_inactivity (hd_conf (bs_hapd bss)))) 0 b a w);
          w = put_sta a (\<lambda>s. s\<lparr>sta_addr := addr\<rparr>) w;
          w = upd_bss b (\<lambda>bss. bss\<lparr>bs_list := a # bs_list bss, bs_num_sta := bs_num_sta bss + 1\<rparr>) w;
          w = ap_sta_hash_add b a w;
          w = put_sta a (\<lambda>s. s\<lparr>sta_ssid := bc_ssid (hd_conf (bs_hapd bss))\<rparr>) w
      in ap_sta_remove_in_other_bss ev b a w)"

definition ap_sta_add :: "sta_env \<Rightarrow> byte list \<Rightarrow> nat \<Rightarrow> ap_world \<Rightarrow> nat option \<times> ap_world" where
  "ap_sta_add ev addr b w =
     (case bss_at w b of
        None \<Rightarrow> (None, set_fault Null_deref w)
      | Some bss \<Rightarrow>
          (case table_get_sta bss (w_sta w) addr of
             Inl x \<Rightarrow> (None, set_fault x w)
           | Inr (Some a) \<Rightarrow> (Some a, w)
           | Inr None \<Rightarrow>
               if bs_num_sta bss \<ge> sc_max_num_sta (bs_conf bss) then (None, w)
               else (case ev_alloc ev of
                  None \<Rightarrow> (None, w)
                | Some a \<Rightarrow> (Some a, insert_sta ev addr b bss a w))))"

section \<open>Association identifiers\<close>

definition free_bit :: "u32 \<Rightarrow> nat option" where
  "free_bit x = find (\<lambda>j. x AND push_bit j 1 = 0) [0..<32]"

fun find_aid :: "nat \<Rightarrow> u32 list \<Rightarrow> (nat \<times> nat) option" where
  "find_aid i [] = None"
| "find_aid i (x # xs) =
     (if x = - 1 then find_aid (i + 1) xs
      else case free_bit x of Some j \<Rightarrow> Some (i, j) | None \<Rightarrow> find_aid (i + 1) xs)"

definition hostapd_get_aid :: "nat \<Rightarrow> nat \<Rightarrow> ap_world \<Rightarrow> int \<times> ap_world" where
  "hostapd_get_aid b a w =
     (case (bss_at w b, w_sta w a) of
        (Some bss, Some s) \<Rightarrow>
          if st_aid s > 0 then (0, w)
          else (case find_aid 0 (bs_aid bss) of
             None \<Rightarrow> (- 1, w)
           | Some (i, j) \<Rightarrow>
               let aid = i * 32 + j + 1 in
               if aid > 2007 then (- 1, w)
               else (0, upd_bss b (\<lambda>bss. bss\<lparr>bs_aid := (bs_aid bss)[i := bs_aid bss ! i OR push_bit j 1]\<rparr>)
                          (put_sta a (\<lambda>s. s\<lparr>st_aid := of_nat aid\<rparr>) w)))
      | _ \<Rightarrow> (- 1, set_fault Null_deref w))"

section \<open>SA Query\<close>

definition elapsed_tu :: "os_reltime \<Rightarrow> fault + u32" where
  \<comment> \<open>\<open>(sec * 1000000 + usec) / 1024\<close> in signed numbers of 32 bits\<close>
  "elapsed_tu t =
     (let m = sint (rel_sec t) * 1000000; n = m + sint (rel_usec t) in
      if m < - (2 ^ 31) \<or> m \<ge> 2 ^ 31 \<or> n < - (2 ^ 31) \<or> n \<ge> 2 ^ 31 then Inl Int_overflow
      else Inr (word_of_int (c_div n 1024)))"

definition mgmt_head :: "u16 \<Rightarrow> byte list \<Rightarrow> byte list \<Rightarrow> byte list \<Rightarrow> byte list" where
  \<comment> \<open>frame control, duration, three addresses, sequence control\<close>
  "mgmt_head stype da sa bssid = put_le16 (IEEE80211_FC WLAN_FC_TYPE_MGMT stype) @ [0, 0] @ da @ sa @ bssid @ [0, 0]"

definition own_addr :: "sta_bss \<Rightarrow> byte list" where
  "own_addr bss = hd_own_addr (bs_hapd bss)"

abbreviation (input) "WLAN_ACTION_SA_QUERY \<equiv> (8 :: byte)"
abbreviation (input) "WLAN_SA_QUERY_REQUEST \<equiv> (0 :: byte)"
abbreviation (input) "WLAN_SA_QUERY_RESPONSE \<equiv> (1 :: byte)"

definition sa_query_frame :: "sta_bss \<Rightarrow> byte list \<Rightarrow> byte \<Rightarrow> byte list \<Rightarrow> byte list" where
  "sa_query_frame bss addr action trans_id =
     mgmt_head WLAN_FC_STYPE_ACTION addr (own_addr bss) (own_addr bss) @ [WLAN_ACTION_SA_QUERY, action] @ trans_id"

definition ieee802_11_send_sa_query_req :: "byte list \<Rightarrow> byte list \<Rightarrow> nat \<Rightarrow> ap_world \<Rightarrow> ap_world" where
  "ieee802_11_send_sa_query_req addr trans_id b =
     with_bss b (\<lambda>bss. say (Drv_send_mlme b (sa_query_frame bss addr WLAN_SA_QUERY_REQUEST trans_id)))"

definition sa_query_stopped :: "station \<Rightarrow> station" where
  "sa_query_stopped s = s\<lparr>st_sa_query_trans_id := []\<rparr>"

definition ap_check_sa_query_timeout :: "sta_env \<Rightarrow> nat \<Rightarrow> nat \<Rightarrow> ap_world \<Rightarrow> bool \<times> ap_world" where
  "ap_check_sa_query_timeout ev b a w =
     (case (bss_at w b, w_sta w a) of
        (Some bss, Some s) \<Rightarrow>
          (case elapsed_tu (os_reltime_sub (ev_clock ev) (st_sa_query_start s)) of
             Inl x \<Rightarrow> (False, set_fault x w)
           | Inr tu \<Rightarrow>
               if sc_sa_query_max_timeout (bs_conf bss) < tu then
                 (True, cancel_timer Ap_sa_query_timer b a
                          (put_sta a (\<lambda>s. sa_query_stopped (s\<lparr>st_sa_query_timed_out := True\<rparr>)) w))
               else (False, w))
      | _ \<Rightarrow> (False, set_fault Null_deref w))"

definition sa_query_attempt :: "sta_env \<Rightarrow> nat \<Rightarrow> nat \<Rightarrow> ap_world \<Rightarrow> ap_world" where
  "sa_query_attempt ev b a = with_bss b (\<lambda>bss. with_sta a (\<lambda>s w.
     case ev_trans_id ev of
       None \<Rightarrow> w
     | Some trans_id \<Rightarrow>
         let w = put_sta a (\<lambda>s. s\<lparr>st_sa_query_start := if st_sa_query_trans_id s = [] then ev_clock ev else st_sa_query_start s,
                                st_sa_query_trans_id := st_sa_query_trans_id s @ [trans_id]\<rparr>) w;
             timeout = sc_sa_query_retry_timeout (bs_conf bss);
             w = register_timer ev Ap_sa_query_timer (((timeout div 1000) * 1024) div 1000) ((timeout mod 1000) * 1024) b a w
         in ieee802_11_send_sa_query_req (sta_addr s) trans_id b w))"

definition ap_sa_query_timer :: "sta_env \<Rightarrow> nat \<Rightarrow> nat \<Rightarrow> ap_world \<Rightarrow> ap_world" where
  "ap_sa_query_timer ev b a = with_sta a (\<lambda>s w.
     if st_sa_query_trans_id s \<noteq> [] then
       (let (timed_out, w) = ap_check_sa_query_timeout ev b a w in if timed_out then w else sa_query_attempt ev b a w)
     else sa_query_attempt ev b a w)"

definition ap_sta_start_sa_query :: "sta_env \<Rightarrow> nat \<Rightarrow> nat \<Rightarrow> ap_world \<Rightarrow> ap_world" where
  "ap_sta_start_sa_query ev b a = ap_sa_query_timer ev b a"

definition ap_sta_stop_sa_query :: "nat \<Rightarrow> nat \<Rightarrow> ap_world \<Rightarrow> ap_world" where
  "ap_sta_stop_sa_query b a w = put_sta a sa_query_stopped (cancel_timer Ap_sa_query_timer b a w)"

section \<open>VLANs\<close>

abbreviation (input) "MAX_VLAN_ID \<equiv> (4094 :: int)"

fun leave_vlan :: "int \<Rightarrow> hostapd_vlan list \<Rightarrow> (string option \<times> hostapd_vlan list) option" where
  \<comment> \<open>the name of an interface to remove; \<open>None\<close>: no such VLAN\<close>
  "leave_vlan vlan_id [] = None"
| "leave_vlan vlan_id (v # vs) =
     (if vl_vlan_id v = vlan_id \<and> vl_dynamic_vlan v > 0 then
        let v = v\<lparr>vl_dynamic_vlan := vl_dynamic_vlan v - 1\<rparr> in
        Some (if vl_dynamic_vlan v = 0 then Some (vl_ifname v) else None, v # vs)
      else map_option (\<lambda>(n, vs). (n, v # vs)) (leave_vlan vlan_id vs))"

definition vlan_remove_dynamic :: "int \<Rightarrow> nat \<Rightarrow> ap_world \<Rightarrow> ap_world" where
  "vlan_remove_dynamic vlan_id b = with_bss b (\<lambda>bss w.
     if vlan_id \<le> 0 \<or> vlan_id > MAX_VLAN_ID then w
     else case leave_vlan vlan_id (bs_vlan bss) of
       None \<Rightarrow> w
     | Some (name, vs) \<Rightarrow>
         let w = upd_bss b (\<lambda>bss. bss\<lparr>bs_vlan := vs\<rparr>) w in
         case name of None \<Rightarrow> w | Some ifname \<Rightarrow> say (Drv_vlan_if_remove b ifname) w)"

definition dynamic_ifname :: "string \<Rightarrow> int \<Rightarrow> string option" where
  \<comment> \<open>the number in place of \<open>#\<close>, in a buffer of 17 characters\<close>
  "dynamic_ifname ifname vlan_id =
     (if CHR ''#'' \<in> set ifname then
        Some (take 16 (takeWhile ((\<noteq>) CHR ''#'') ifname @ fmt_zu (nat vlan_id) @ tl (dropWhile ((\<noteq>) CHR ''#'') ifname)))
      else None)"

definition vlan_add_dynamic :: "sta_env \<Rightarrow> hostapd_vlan \<Rightarrow> int \<Rightarrow> nat \<Rightarrow> ap_world \<Rightarrow> string option \<times> ap_world" where
  \<comment> \<open>memory is found; \<open>None\<close>: the VLAN could not be added\<close>
  "vlan_add_dynamic ev vlan vlan_id b w =
     (if vlan_id \<le> 0 \<or> vlan_id > MAX_VLAN_ID \<or> vl_vlan_id vlan \<noteq> VLAN_ID_WILDCARD then (None, w)
      else case dynamic_ifname (vl_ifname vlan) vlan_id of
        None \<Rightarrow> (None, w)
      | Some ifname \<Rightarrow>
          let w = say (Drv_vlan_if_add b ifname) w in
          if ev_drv ev (Drv_vlan_if_add b ifname) \<noteq> 0 then (None, w)
          else (Some ifname, upd_bss b (\<lambda>bss. bss\<lparr>bs_vlan :=
                  \<lparr>vl_vlan_id = vlan_id, vl_ifname = ifname, vl_dynamic_vlan = 1\<rparr> # bs_vlan bss\<rparr>) w))"

fun find_vlan :: "int \<Rightarrow> nat \<Rightarrow> nat option \<Rightarrow> hostapd_vlan list \<Rightarrow> nat option" where
  \<comment> \<open>the index of the VLAN, else of the last wildcard before the end\<close>
  "find_vlan vlan_id i wildcard [] = wildcard"
| "find_vlan vlan_id i wildcard (v # vs) =
     (if vl_vlan_id v = vlan_id then Some i
      else find_vlan vlan_id (i + 1) (if vl_vlan_id v = VLAN_ID_WILDCARD then Some i else wildcard) vs)"

definition bind_to :: "sta_env \<Rightarrow> string \<Rightarrow> nat \<Rightarrow> nat \<Rightarrow> ap_world \<Rightarrow> int \<times> ap_world" where
  "bind_to ev ifname b a w =
     (case w_sta w a of
        None \<Rightarrow> (- 1, set_fault Null_deref w)
      | Some s \<Rightarrow>
          let w = (if st_wpa_sm s then say (Wpa_set_vlan a (st_vlan_id s)) w else w);
              call = Drv_set_sta_vlan ifname b (sta_addr s) (st_vlan_id s)
          in (ev_drv ev call, say call w))"

definition ap_sta_bind_vlan :: "sta_env \<Rightarrow> int \<Rightarrow> nat \<Rightarrow> nat \<Rightarrow> ap_world \<Rightarrow> int \<times> ap_world" where
  "ap_sta_bind_vlan ev old_vlanid b a w =
     (case w_sta w a of
        None \<Rightarrow> (- 1, set_fault Null_deref w)
      | Some s \<Rightarrow>
          if st_vlan_id s = old_vlanid then (0, w)
          else let w = (if old_vlanid > 0 then vlan_remove_dynamic old_vlanid b w else w) in
            case bss_at w b of
              None \<Rightarrow> (- 1, set_fault Null_deref w)
            | Some bss \<Rightarrow>
                let ifname = (if sc_ssid_vlan (bs_conf bss) \<noteq> [] then sc_ssid_vlan (bs_conf bss) else sc_iface (bs_conf bss)) in
                if \<not> sc_dynamic_vlan (bs_conf bss) then bind_to ev ifname b a (put_sta a (\<lambda>s. s\<lparr>st_vlan_id := 0\<rparr>) w)
                else if st_vlan_id s \<le> 0 then bind_to ev ifname b a w
                else (case find_vlan (st_vlan_id s) 0 None (bs_vlan bss) of
                  None \<Rightarrow> (- 1, w)
                | Some i \<Rightarrow>
                    let v = bs_vlan bss ! i in
                    if vl_vlan_id v = VLAN_ID_WILDCARD then
                      (case vlan_add_dynamic ev v (st_vlan_id s) b w of
                         (None, w) \<Rightarrow> (- 1, w)
                       | (Some n, w) \<Rightarrow> bind_to ev n b a (say (Vlan_setup_encryption b n) w))
                    else bind_to ev (vl_ifname v) b a (say (Vlan_setup_encryption b (vl_ifname v))
                           (upd_bss b (\<lambda>bss. bss\<lparr>bs_vlan := (bs_vlan bss)[i := v\<lparr>vl_dynamic_vlan := vl_dynamic_vlan v + 1\<rparr>]\<rparr>) w))))"

section \<open>A new association\<close>

definition hostapd_prune_associations :: "sta_env \<Rightarrow> byte list \<Rightarrow> nat \<Rightarrow> ap_world \<Rightarrow> ap_world" where
  \<comment> \<open>the BSSs of this interface\<close>
  "hostapd_prune_associations ev addr b w =
     foldl (\<lambda>w j.
       if j = b then w
       else with_found j addr (\<lambda>r. case r of None \<Rightarrow> id | Some a \<Rightarrow> ap_sta_disassociate ev WLAN_REASON_UNSPECIFIED j a) w)
       w [0..<length (w_bss w)]"

definition ieee802_1x_new_station :: "sta_env \<Rightarrow> nat \<Rightarrow> nat \<Rightarrow> ap_world \<Rightarrow> ap_world" where
  \<comment> \<open>with IEEE 802.1X, the state machine does the rest\<close>
  "ieee802_1x_new_station ev b a = with_bss b (\<lambda>bss.
     if \<not> bc_ieee802_1x (hd_conf (bs_hapd bss)) \<and> \<not> sc_osen (bs_conf bss) then ieee802_1x_free_station a
     else (\<lambda>w. say (Eapol_new_station a) (put_sta a (\<lambda>s. s\<lparr>st_eapol_sm := ev_eapol ev\<rparr>) w)))"

definition separate_authorization :: "sta_bss \<Rightarrow> bool" where
  "separate_authorization bss \<longleftrightarrow>
     bc_ieee802_1x (hd_conf (bs_hapd bss)) \<or> bc_wpa (hd_conf (bs_hapd bss)) \<noteq> 0 \<or> sc_osen (bs_conf bss)"

definition hostapd_new_assoc_sta :: "sta_env \<Rightarrow> bool \<Rightarrow> nat \<Rightarrow> nat \<Rightarrow> ap_world \<Rightarrow> ap_world" where
  "hostapd_new_assoc_sta ev reassoc b a = with_bss b (\<lambda>bss. with_sta a (\<lambda>s w.
     if bs_tkip_countermeasures bss then say (Drv_sta_deauth b (sta_addr s) WLAN_REASON_MICHAEL_MIC_FAILURE) w
     else
       let w = hostapd_prune_associations ev (sta_addr s) b w;
           w = (if sc_ieee802_11f (bs_conf bss) then say (Iapp_new_station a) w else w);
           w = (if separate_authorization bss then w
                else accounting_sta_start ev b a (put_sta a (\<lambda>s. s\<lparr>st_connected_time := ev_clock ev\<rparr>)
                       (ap_sta_set_authorized True b a w)));
           w = ieee802_1x_new_station ev b a w;
           w = with_sta a (\<lambda>s w.
                 if reassoc then
                   (if st_auth_alg s \<noteq> WLAN_AUTH_FT \<and> \<not> has_flag s (WLAN_STA_WPS OR WLAN_STA_MAYBE_WPS)
                    then wpa_auth_sm_event a WPA_REAUTH w else w)
                 else if st_wpa_sm s then say (Wpa_sta_associated a) w else w) w
       in if flag_set (if_drv_flags (w_iface w)) WPA_DRIVER_FLAGS_INACTIVITY_TIMER then w
          else reschedule ev Ap_handle_timer (word_of_int (bc_ap_max_inactivity (hd_conf (bs_hapd bss)))) b a w))"

section \<open>Flags\<close>

definition flag_names :: "(u32 \<times> string) list" where
  "flag_names =
     [(WLAN_STA_AUTH, ''[AUTH]''), (WLAN_STA_ASSOC, ''[ASSOC]''), (WLAN_STA_AUTHORIZED, ''[AUTHORIZED]''),
      (WLAN_STA_PENDING_POLL, ''[PENDING_POLL''), (WLAN_STA_SHORT_PREAMBLE, ''[SHORT_PREAMBLE]''),
      (WLAN_STA_PREAUTH, ''[PREAUTH]''), (WLAN_STA_WMM, ''[WMM]''), (WLAN_STA_MFP, ''[MFP]''), (WLAN_STA_WPS, ''[WPS]''),
      (WLAN_STA_MAYBE_WPS, ''[MAYBE_WPS]''), (WLAN_STA_WDS, ''[WDS]''), (WLAN_STA_NONERP, ''[NonERP]''),
      (WLAN_STA_WPS2, ''[WPS2]''), (WLAN_STA_GAS, ''[GAS]''), (WLAN_STA_VHT, ''[VHT]''),
      (WLAN_STA_WNM_SLEEP_MODE, ''[WNM_SLEEP_MODE]'')]"

definition ap_sta_flags_txt :: "u32 \<Rightarrow> nat \<Rightarrow> nat \<times> string" where
  \<comment> \<open>what \<open>os_snprintf\<close> returns, and the text in the buffer, of at least one octet\<close>
  "ap_sta_flags_txt flags buflen =
     (let t = concat (map (\<lambda>(f, name). if flag_set flags f then name else []) flag_names) in
      (length t, take (buflen - 1) t))"

definition hostapd_sta_flags_to_drv :: "u32 \<Rightarrow> u32" where
  "hostapd_sta_flags_to_drv flags =
     (if flag_set flags WLAN_STA_AUTHORIZED then 0x1 else 0) OR (if flag_set flags WLAN_STA_WMM then 0x2 else 0)
       OR (if flag_set flags WLAN_STA_SHORT_PREAMBLE then 0x4 else 0) OR (if flag_set flags WLAN_STA_MFP then 0x8 else 0)"

definition hostapd_set_sta_flags :: "nat \<Rightarrow> nat \<Rightarrow> ap_world \<Rightarrow> ap_world" where
  "hostapd_set_sta_flags b a = with_bss b (\<lambda>bss. with_sta a (\<lambda>s.
     let total_flags = hostapd_sta_flags_to_drv (sta_flags s);
         set_flags = (0x4 OR 0x2 OR 0x8) OR
           (if ((\<not> bc_ieee802_1x (hd_conf (bs_hapd bss)) \<and> bc_wpa (hd_conf (bs_hapd bss)) = 0) \<or> st_auth_alg s = WLAN_AUTH_FT)
               \<and> has_flag s WLAN_STA_AUTHORIZED then 0x1 else 0)
     in say (Drv_sta_set_flags b (sta_addr s) total_flags (total_flags AND set_flags) (total_flags OR NOT set_flags))))"

section \<open>Timeouts that have occurred\<close>

definition run_timer :: "sta_env \<Rightarrow> sta_timer \<Rightarrow> nat \<Rightarrow> nat \<Rightarrow> ap_world \<Rightarrow> ap_world" where
  "run_timer ev h b a =
     (case h of
        Ap_handle_timer \<Rightarrow> ap_handle_timer ev b a
      | Ap_handle_session_timer \<Rightarrow> ap_handle_session_timer ev b a
      | Ap_handle_session_warning_timer \<Rightarrow> id
      | Ap_sta_deauth_cb_timeout \<Rightarrow> ap_sta_deauth_cb_timeout ev b a
      | Ap_sta_disassoc_cb_timeout \<Rightarrow> ap_sta_disassoc_cb_timeout ev b a
      | Ap_sa_query_timer \<Rightarrow> ap_sa_query_timer ev b a
      | Accounting_interim_update \<Rightarrow> accounting_interim_update ev b a)"

definition fire_timer :: "sta_env \<Rightarrow> ap_world \<Rightarrow> ap_world" where
  "fire_timer ev w =
     (case eloop_due (ev_clock ev) (w_timers w) of
        None \<Rightarrow> w
      | Some (t, q) \<Rightarrow> run_timer ev (to_handler t) (to_eloop t) (to_user t) (w\<lparr>w_timers := q\<rparr>))"

end
