(* ===== verification/Mlme.thy ===== *)
theory Mlme
  imports Beacon Sta_Info
begin

text \<open>
  The management frames of stations (\<open>ap/ieee802_11.c\<close>, \<open>ap/ieee802_11_shared.c\<close>) and what the driver
  reports of the frames sent to them: authentication, association, disassociation, deauthentication
  and action frames, on the world of \<open>Sta_State\<close>. The state machine of WPA is a parameter: whether it
  can be made for a station, and what it says of the element in an association request.
\<close>

unbundle bit_operations_syntax

abbreviation (input) "WLAN_STATUS_SUCCESS \<equiv> (0 :: u16)"
abbreviation (input) "WLAN_STATUS_UNSPECIFIED_FAILURE \<equiv> (1 :: u16)"
abbreviation (input) "WLAN_STATUS_NOT_SUPPORTED_AUTH_ALG \<equiv> (13 :: u16)"
abbreviation (input) "WLAN_STATUS_UNKNOWN_AUTH_TRANSACTION \<equiv> (14 :: u16)"
abbreviation (input) "WLAN_STATUS_CHALLENGE_FAIL \<equiv> (15 :: u16)"
abbreviation (input) "WLAN_STATUS_AP_UNABLE_TO_HANDLE_NEW_STA \<equiv> (17 :: u16)"
abbreviation (input) "WLAN_STATUS_ASSOC_REJECTED_TEMPORARILY \<equiv> (30 :: u16)"
abbreviation (input) "WLAN_STATUS_ROBUST_MGMT_FRAME_POLICY_VIOLATION \<equiv> (31 :: u16)"
abbreviation (input) "WLAN_STATUS_INVALID_IE \<equiv> (40 :: u16)"
abbreviation (input) "WLAN_STATUS_GROUP_CIPHER_NOT_VALID \<equiv> (41 :: u16)"
abbreviation (input) "WLAN_STATUS_PAIRWISE_CIPHER_NOT_VALID \<equiv> (42 :: u16)"
abbreviation (input) "WLAN_STATUS_AKMP_NOT_VALID \<equiv> (43 :: u16)"
abbreviation (input) "WLAN_STATUS_ASSOC_DENIED_LISTEN_INT_TOO_LARGE \<equiv> (51 :: u16)"
abbreviation (input) "WLAN_STATUS_INVALID_MDIE \<equiv> (54 :: u16)"

abbreviation (input) "WLAN_FC_STYPE_ASSOC_REQ \<equiv> (0 :: u16)"
abbreviation (input) "WLAN_FC_STYPE_ASSOC_RESP \<equiv> (1 :: u16)"
abbreviation (input) "WLAN_FC_STYPE_REASSOC_REQ \<equiv> (2 :: u16)"
abbreviation (input) "WLAN_FC_STYPE_REASSOC_RESP \<equiv> (3 :: u16)"
abbreviation (input) "WLAN_FC_STYPE_PROBE_REQ \<equiv> (4 :: u16)"
abbreviation (input) "WLAN_FC_STYPE_DISASSOC \<equiv> (10 :: u16)"
abbreviation (input) "WLAN_FC_STYPE_AUTH \<equiv> (11 :: u16)"
abbreviation (input) "WLAN_FC_STYPE_DEAUTH \<equiv> (12 :: u16)"
abbreviation (input) "WLAN_FC_ISWEP \<equiv> (0x4000 :: u16)"
abbreviation (input) "WLAN_AUTH_SAE \<equiv> (3 :: u16)"
abbreviation (input) "WLAN_AUTH_CHALLENGE_LEN \<equiv> (128 :: nat)"
abbreviation (input) "WPA_AUTH_ALG_OPEN \<equiv> (1 :: u32)"
abbreviation (input) "WPA_AUTH_ALG_SHARED \<equiv> (2 :: u32)"
abbreviation (input) "WLAN_CAPABILITY_SHORT_PREAMBLE \<equiv> (0x20 :: u16)"
abbreviation (input) "WLAN_CAPABILITY_SHORT_SLOT_TIME \<equiv> (0x400 :: u16)"
abbreviation (input) "WLAN_ACTION_PUBLIC \<equiv> (4 :: byte)"
abbreviation (input) "WLAN_ACTION_HT \<equiv> (7 :: byte)"

datatype wpa_validate_result =
    WPA_IE_OK | WPA_INVALID_IE | WPA_INVALID_GROUP | WPA_INVALID_PAIRWISE | WPA_INVALID_AKMP | WPA_NOT_ENABLED
  | WPA_ALLOC_FAIL | WPA_MGMT_FRAME_PROTECTION_VIOLATION | WPA_INVALID_MGMT_GROUP_CIPHER | WPA_INVALID_MDIE | WPA_INVALID_PROTO

record mlme_env =
  me_sta :: sta_env
  me_acl :: acl_env
  me_ap :: ap_env
  me_cbs :: "int list"                    \<comment> \<open>results of the callbacks for probe requests\<close>
  me_reply_mem :: bool
  me_challenge :: "byte list option"      \<comment> \<open>memory for and text of a challenge\<close>
  me_wpa_init :: bool                     \<comment> \<open>whether \<open>wpa_auth_sta_init\<close> makes a state machine\<close>
  me_validate :: "byte list \<Rightarrow> wpa_validate_result"
  me_uses_mfp :: bool

section \<open>Addresses of a frame\<close>

definition mgmt_da :: "byte list \<Rightarrow> byte list" where
  "mgmt_da mgmt = take 6 (drop 4 mgmt)"

definition mgmt_sa :: "byte list \<Rightarrow> byte list" where
  "mgmt_sa mgmt = take 6 (drop 10 mgmt)"

definition mgmt_bssid :: "byte list \<Rightarrow> byte list" where
  "mgmt_bssid mgmt = take 6 (drop 16 mgmt)"

section \<open>Authentication\<close>

definition auth_shared_key :: "mlme_env \<Rightarrow> u16 \<Rightarrow> byte list option \<Rightarrow> bool \<Rightarrow> nat \<Rightarrow> ap_world \<Rightarrow> u16 \<times> ap_world" where
  "auth_shared_key ev auth_transaction challenge iswep a w =
     (case w_sta w a of
        None \<Rightarrow> (WLAN_STATUS_UNSPECIFIED_FAILURE, set_fault Null_deref w)
      | Some s \<Rightarrow>
          if auth_transaction = 1 then
            (if st_challenge s \<noteq> None then (0, w)
             else case me_challenge ev of
               None \<Rightarrow> (WLAN_STATUS_UNSPECIFIED_FAILURE, w)
             | Some c \<Rightarrow> (0, put_sta a (\<lambda>s. s\<lparr>st_challenge := Some c\<rparr>) w))
          else if auth_transaction \<noteq> 3 then (WLAN_STATUS_UNSPECIFIED_FAILURE, w)
          else if \<not> iswep \<or> st_challenge s = None \<or> challenge = None \<or> st_challenge s \<noteq> challenge
          then (WLAN_STATUS_CHALLENGE_FAIL, w)
          else (0, put_sta a (\<lambda>s. s\<lparr>st_challenge := None\<rparr>)
                     (wpa_auth_sm_event a WPA_AUTH (put_sta a (set_flags WLAN_STA_AUTH) w))))"

definition send_auth_reply ::
    "mlme_env \<Rightarrow> byte list \<Rightarrow> byte list \<Rightarrow> u16 \<Rightarrow> u16 \<Rightarrow> u16 \<Rightarrow> byte list \<Rightarrow> nat \<Rightarrow> ap_world \<Rightarrow> ap_world" where
  "send_auth_reply ev dst bssid auth_alg auth_transaction resp ies b = with_bss b (\<lambda>bss w.
     if me_reply_mem ev then
       say (Drv_send_mlme b (mgmt_head WLAN_FC_STYPE_AUTH dst (own_addr bss) bssid
              @ put_le16 auth_alg @ put_le16 auth_transaction @ put_le16 resp @ ies)) w
     else w)"

definition hostapd_vlan_id_valid :: "hostapd_vlan list \<Rightarrow> int \<Rightarrow> bool" where
  "hostapd_vlan_id_valid vlan vlan_id = list_ex (\<lambda>v. vl_vlan_id v = vlan_id \<or> vl_vlan_id v = VLAN_ID_WILDCARD) vlan"

definition auth_challenge :: "byte list \<Rightarrow> byte list option" where
  "auth_challenge mgmt =
     (if length mgmt \<ge> IEEE80211_HDRLEN + 6 + 2 + WLAN_AUTH_CHALLENGE_LEN \<and> mgmt ! 30 = WLAN_EID_CHALLENGE
         \<and> mgmt ! 31 = word_of_nat WLAN_AUTH_CHALLENGE_LEN
      then Some (take WLAN_AUTH_CHALLENGE_LEN (drop 32 mgmt)) else None)"

definition auth_alg_ok :: "sta_bss \<Rightarrow> u16 \<Rightarrow> bool" where
  "auth_alg_ok bss auth_alg \<longleftrightarrow>
     (flag_set (bc_auth_algs (hd_conf (bs_hapd bss))) WPA_AUTH_ALG_OPEN \<and> auth_alg = WLAN_AUTH_OPEN)
     \<or> (flag_set (bc_auth_algs (hd_conf (bs_hapd bss))) WPA_AUTH_ALG_SHARED \<and> auth_alg = WLAN_AUTH_SHARED_KEY)"

definition prepare_auth :: "mlme_env \<Rightarrow> sta_bss \<Rightarrow> acl_answer \<Rightarrow> nat \<Rightarrow> nat \<Rightarrow> ap_world \<Rightarrow> ap_world" where
  \<comment> \<open>what the access control says is noted\<close>
  "prepare_auth ev bss ans b a w =
     (let w = ieee802_1x_notify_pre_auth False a (put_sta a (clear_flags WLAN_STA_PREAUTH) w);
          w = (if sc_acct_interim_interval (bs_conf bss) = 0 \<and> aa_acct_interim_interval ans \<noteq> 0
               then put_sta a (\<lambda>s. s\<lparr>st_acct_interim_interval := aa_acct_interim_interval ans\<rparr>) w else w)
      in if aa_status ans = HOSTAPD_ACL_ACCEPT_TIMEOUT
         then ap_sta_session_timeout (me_sta ev) (aa_session_timeout ans) b a w
         else ap_sta_no_session_timeout b a w)"

definition auth_switch :: "mlme_env \<Rightarrow> u16 \<Rightarrow> u16 \<Rightarrow> byte list option \<Rightarrow> bool \<Rightarrow> nat \<Rightarrow> ap_world \<Rightarrow> u16 \<times> byte list \<times> ap_world" where
  \<comment> \<open>the status and the elements of the reply\<close>
  "auth_switch ev auth_alg auth_transaction challenge iswep a w =
     (if auth_alg = WLAN_AUTH_OPEN then
        (let w = wpa_auth_sm_event a WPA_AUTH (put_sta a (set_flags WLAN_STA_AUTH) w);
             w = mlme_authenticate_indication a (put_sta a (\<lambda>s. s\<lparr>st_auth_alg := WLAN_AUTH_OPEN\<rparr>) w)
         in (WLAN_STATUS_SUCCESS, [], w))
      else if auth_alg = WLAN_AUTH_SHARED_KEY then
        (let (resp, w) = auth_shared_key ev auth_transaction challenge iswep a w;
             w = mlme_authenticate_indication a (put_sta a (\<lambda>s. s\<lparr>st_auth_alg := WLAN_AUTH_SHARED_KEY\<rparr>) w);
             ies = (case w_sta w a of
                      None \<Rightarrow> []
                    | Some s \<Rightarrow>
                        (case st_challenge s of
                           Some c \<Rightarrow> if auth_transaction = 1 then [WLAN_EID_CHALLENGE, word_of_nat WLAN_AUTH_CHALLENGE_LEN] @ c else []
                         | None \<Rightarrow> []))
         in (resp, ies, w))
      else (WLAN_STATUS_SUCCESS, [], w))"

definition auth_allowed :: "mlme_env \<Rightarrow> byte list \<Rightarrow> nat \<Rightarrow> acl_answer \<Rightarrow> ap_world \<Rightarrow> ap_world" where
  \<comment> \<open>\<open>handle_auth\<close> from \<open>ap_sta_add\<close> on\<close>
  "auth_allowed ev mgmt b ans = with_bss b (\<lambda>bss w.
     let auth_alg = get_le16 mgmt 24; auth_transaction = get_le16 mgmt 26;
         reply = (\<lambda>resp ies. send_auth_reply ev (mgmt_sa mgmt) (mgmt_bssid mgmt) auth_alg (auth_transaction + 1) resp ies b)
     in case ap_sta_add (me_sta ev) (mgmt_sa mgmt) b w of
          (None, w) \<Rightarrow> reply WLAN_STATUS_AP_UNABLE_TO_HANDLE_NEW_STA [] w
        | (Some a, w) \<Rightarrow>
            if aa_vlan_id ans > 0 \<and> \<not> hostapd_vlan_id_valid (bs_vlan bss) (aa_vlan_id ans)
            then reply WLAN_STATUS_UNSPECIFIED_FAILURE [] w
            else
              let w = (if aa_vlan_id ans > 0 then put_sta a (\<lambda>s. s\<lparr>st_vlan_id := aa_vlan_id ans\<rparr>) w else w);
                  w = prepare_auth ev bss ans b a w;
                  (resp, ies, w) = auth_switch ev auth_alg auth_transaction (auth_challenge mgmt)
                                     (get_le16 mgmt 0 AND WLAN_FC_ISWEP \<noteq> 0) a w
              in reply resp ies w)"

definition handle_auth :: "mlme_env \<Rightarrow> byte list \<Rightarrow> nat \<Rightarrow> ap_world \<Rightarrow> ap_world" where
  "handle_auth ev mgmt b = with_bss b (\<lambda>bss w.
     let auth_alg = get_le16 mgmt 24; auth_transaction = get_le16 mgmt 26;
         reply = (\<lambda>resp. send_auth_reply ev (mgmt_sa mgmt) (mgmt_bssid mgmt) auth_alg (auth_transaction + 1) resp [] b)
     in
     if length mgmt < IEEE80211_HDRLEN + 6 then w
     else if bs_tkip_countermeasures bss then reply WLAN_REASON_MICHAEL_MIC_FAILURE w
     else if \<not> auth_alg_ok bss auth_alg then reply WLAN_STATUS_NOT_SUPPORTED_AUTH_ALG w
     else if \<not> (auth_transaction = 1 \<or> auth_alg = WLAN_AUTH_SAE \<or> (auth_alg = WLAN_AUTH_SHARED_KEY \<and> auth_transaction = 3))
     then reply WLAN_STATUS_UNKNOWN_AUTH_TRANSACTION w
     else if mgmt_sa mgmt = own_addr bss then reply WLAN_STATUS_UNSPECIFIED_FAILURE w
     else case hostapd_allowed_address (bs_acl_conf bss) (me_acl ev) (mgmt_sa mgmt) mgmt (bs_acl bss) of
       Inl x \<Rightarrow> set_fault x w
     | Inr (ans, acl) \<Rightarrow>
         let w = upd_bss b (\<lambda>bss. bss\<lparr>bs_acl := acl\<rparr>) w in
         if aa_status ans = HOSTAPD_ACL_REJECT then reply WLAN_STATUS_UNSPECIFIED_FAILURE w
         else if aa_status ans = HOSTAPD_ACL_PENDING then w
         else auth_allowed ev mgmt b ans w)"

section \<open>The elements of an association request\<close>

definition check_ssid :: "sta_bss \<Rightarrow> byte list option \<Rightarrow> u16" where
  "check_ssid bss ssid_ie =
     (if ssid_ie = Some (ss_ssid (bc_ssid (hd_conf (bs_hapd bss)))) then WLAN_STATUS_SUCCESS
      else WLAN_STATUS_UNSPECIFIED_FAILURE)"

definition check_wmm :: "sta_bss \<Rightarrow> byte list option \<Rightarrow> nat \<Rightarrow> ap_world \<Rightarrow> u16 \<times> ap_world" where
  "check_wmm bss wmm_ie a w =
     (let w = put_sta a (\<lambda>s. (clear_flags WLAN_STA_WMM s)\<lparr>st_qosinfo := 0\<rparr>) w in
      case wmm_ie of
        None \<Rightarrow> (WLAN_STATUS_SUCCESS, w)
      | Some ie \<Rightarrow>
          if \<not> bc_wmm_enabled (hd_conf (bs_hapd bss)) then (WLAN_STATUS_SUCCESS, w)
          else if \<not> hostapd_eid_wmm_valid ie then (WLAN_STATUS_UNSPECIFIED_FAILURE, w)
          else (WLAN_STATUS_SUCCESS, put_sta a (\<lambda>s. (set_flags WLAN_STA_WMM s)\<lparr>st_qosinfo := ie ! 6\<rparr>) w))"

definition merge_byte_arrays :: "nat \<Rightarrow> byte list option \<Rightarrow> byte list option \<Rightarrow> byte list" where
  \<comment> \<open>the octets counted by the result\<close>
  "merge_byte_arrays res_len src1 src2 =
     (let one = (case src1 of None \<Rightarrow> [] | Some xs \<Rightarrow> xs) in
      if length one \<ge> res_len \<and> src1 \<noteq> None then take res_len one
      else case src2 of
        None \<Rightarrow> one
      | Some ys \<Rightarrow> if length one + length ys \<ge> res_len then one @ take (res_len - length one) ys else one @ ys)"

definition opt_length :: "byte list option \<Rightarrow> nat" where
  "opt_length x = (case x of None \<Rightarrow> 0 | Some xs \<Rightarrow> length xs)"

abbreviation (input) "WLAN_SUPP_RATES_MAX \<equiv> (32 :: nat)"

definition copy_supp_rates :: "ieee802_11_elems \<Rightarrow> nat \<Rightarrow> ap_world \<Rightarrow> u16 \<times> ap_world" where
  "copy_supp_rates elems a w =
     (if el_supp_rates elems = None then (WLAN_STATUS_UNSPECIFIED_FAILURE, w)
      else if opt_length (el_supp_rates elems) + opt_length (el_ext_supp_rates elems) > WLAN_SUPP_RATES_MAX
      then (WLAN_STATUS_UNSPECIFIED_FAILURE, w)
      else (WLAN_STATUS_SUCCESS, put_sta a (\<lambda>s. s\<lparr>st_supported_rates :=
              merge_byte_arrays WLAN_SUPP_RATES_MAX (el_supp_rates elems) (el_ext_supp_rates elems)\<rparr>) w))"

definition wpa_element :: "int \<Rightarrow> ieee802_11_elems \<Rightarrow> byte list option" where
  \<comment> \<open>with its identifier and length\<close>
  "wpa_element wpa elems =
     (let whole = (\<lambda>eid ie. [eid, word_of_nat (length ie)] @ ie) in
      if wpa AND 2 \<noteq> 0 \<and> el_rsn_ie elems \<noteq> None then map_option (whole WLAN_EID_RSN) (el_rsn_ie elems)
      else if wpa AND 1 \<noteq> 0 \<and> el_wpa_ie elems \<noteq> None then map_option (whole WLAN_EID_VENDOR_SPECIFIC) (el_wpa_ie elems)
      else None)"

definition validate_status :: "wpa_validate_result \<Rightarrow> u16" where
  "validate_status res =
     (case res of
        WPA_IE_OK \<Rightarrow> WLAN_STATUS_SUCCESS
      | WPA_INVALID_GROUP \<Rightarrow> WLAN_STATUS_GROUP_CIPHER_NOT_VALID
      | WPA_INVALID_PAIRWISE \<Rightarrow> WLAN_STATUS_PAIRWISE_CIPHER_NOT_VALID
      | WPA_INVALID_AKMP \<Rightarrow> WLAN_STATUS_AKMP_NOT_VALID
      | WPA_ALLOC_FAIL \<Rightarrow> WLAN_STATUS_UNSPECIFIED_FAILURE
      | WPA_MGMT_FRAME_PROTECTION_VIOLATION \<Rightarrow> WLAN_STATUS_ROBUST_MGMT_FRAME_POLICY_VIOLATION
      | WPA_INVALID_MGMT_GROUP_CIPHER \<Rightarrow> WLAN_STATUS_ROBUST_MGMT_FRAME_POLICY_VIOLATION
      | WPA_INVALID_MDIE \<Rightarrow> WLAN_STATUS_INVALID_MDIE
      | _ \<Rightarrow> WLAN_STATUS_INVALID_IE)"

definition query_pending_mfp :: "station \<Rightarrow> bool" where
  "query_pending_mfp s \<longleftrightarrow> has_flag s WLAN_STA_MFP \<and> \<not> st_sa_query_timed_out s"

definition check_mfp :: "mlme_env \<Rightarrow> bool \<Rightarrow> nat \<Rightarrow> nat \<Rightarrow> ap_world \<Rightarrow> u16 \<times> ap_world" where
  \<comment> \<open>an associated station with protected frames is asked before it is associated again\<close>
  "check_mfp ev reassoc b a w =
     (let w = with_sta a (\<lambda>s w.
                if query_pending_mfp s \<and> st_sa_query_trans_id s \<noteq> []
                then snd (ap_check_sa_query_timeout (me_sta ev) b a w) else w) w
      in case w_sta w a of
           None \<Rightarrow> (WLAN_STATUS_UNSPECIFIED_FAILURE, w)
         | Some s \<Rightarrow>
             if query_pending_mfp s \<and> (\<not> reassoc \<or> st_auth_alg s \<noteq> WLAN_AUTH_FT) then
               (WLAN_STATUS_ASSOC_REJECTED_TEMPORARILY,
                if st_sa_query_trans_id s = [] then ap_sta_start_sa_query (me_sta ev) b a w else w)
             else (WLAN_STATUS_SUCCESS,
                   put_sta a (if me_uses_mfp ev then set_flags WLAN_STA_MFP else clear_flags WLAN_STA_MFP) w))"

definition check_wpa :: "mlme_env \<Rightarrow> sta_bss \<Rightarrow> ieee802_11_elems \<Rightarrow> bool \<Rightarrow> nat \<Rightarrow> nat \<Rightarrow> ap_world \<Rightarrow> u16 \<times> ap_world" where
  "check_wpa ev bss elems reassoc b a w =
     (let wpa = bc_wpa (hd_conf (bs_hapd bss)) in
      if wpa = 0 then
        (WLAN_STATUS_SUCCESS, with_sta a (\<lambda>s. if st_wpa_sm s then say (Wpa_sta_no_wpa a) else id) w)
      else case wpa_element wpa elems of
        None \<Rightarrow> (WLAN_STATUS_INVALID_IE, w)
      | Some ie \<Rightarrow>
          let w = with_sta a (\<lambda>s w. if st_wpa_sm s then w else put_sta a (\<lambda>s. s\<lparr>st_wpa_sm := me_wpa_init ev\<rparr>) w) w in
          case w_sta w a of
            None \<Rightarrow> (WLAN_STATUS_UNSPECIFIED_FAILURE, w)
          | Some s \<Rightarrow>
              if \<not> st_wpa_sm s then (WLAN_STATUS_UNSPECIFIED_FAILURE, w)
              else let resp = validate_status (me_validate ev ie) in
                if resp \<noteq> WLAN_STATUS_SUCCESS then (resp, w) else check_mfp ev reassoc b a w)"

definition check_assoc_ies :: "mlme_env \<Rightarrow> byte list \<Rightarrow> bool \<Rightarrow> nat \<Rightarrow> nat \<Rightarrow> ap_world \<Rightarrow> u16 \<times> ap_world" where
  "check_assoc_ies ev ies reassoc b a w =
     (case bss_at w b of
        None \<Rightarrow> (WLAN_STATUS_UNSPECIFIED_FAILURE, set_fault Null_deref w)
      | Some bss \<Rightarrow>
          (case ieee802_11_parse_elems ies of
             (ParseFailed, _) \<Rightarrow> (WLAN_STATUS_UNSPECIFIED_FAILURE, w)
           | (_, elems) \<Rightarrow>
               let resp = check_ssid bss (el_ssid elems) in
               if resp \<noteq> WLAN_STATUS_SUCCESS then (resp, w)
               else let (resp, w) = check_wmm bss (el_wmm elems) a w in
               if resp \<noteq> WLAN_STATUS_SUCCESS then (resp, w)
               else let (resp, w) = copy_supp_rates elems a w in
               if resp \<noteq> WLAN_STATUS_SUCCESS then (resp, w)
               else check_wpa ev bss elems reassoc b a w))"

section \<open>Association\<close>

definition send_deauth :: "byte list \<Rightarrow> u16 \<Rightarrow> nat \<Rightarrow> ap_world \<Rightarrow> ap_world" where
  "send_deauth addr reason_code b = with_bss b (\<lambda>bss.
     say (Drv_send_mlme b (mgmt_head WLAN_FC_STYPE_DEAUTH addr (own_addr bss) (own_addr bss) @ put_le16 reason_code)))"

definition comeback_time :: "u32 \<Rightarrow> u32 \<Rightarrow> u32" where
  "comeback_time max_timeout tu =
     (let timeout = (if max_timeout > tu then max_timeout - tu else 0)
      in if timeout < max_timeout then timeout + 1 else timeout)"

definition hostapd_eid_assoc_comeback_time :: "sta_env \<Rightarrow> sta_bss \<Rightarrow> station \<Rightarrow> fault + byte list" where
  "hostapd_eid_assoc_comeback_time ev bss s =
     fbind (elapsed_tu (os_reltime_sub (ev_clock ev) (st_sa_query_start s))) (\<lambda>tu.
       Inr ([WLAN_EID_TIMEOUT_INTERVAL, 5, 3] @ put_le32 (comeback_time (sc_sa_query_max_timeout (bs_conf bss)) tu)))"

definition assoc_resp_body :: "sta_env \<Rightarrow> hostapd_iface \<Rightarrow> sta_bss \<Rightarrow> station \<Rightarrow> u16 \<Rightarrow> fault + byte list" where
  "assoc_resp_body ev iface bss s status_code =
     fbind (hostapd_own_capab_info iface (bs_hapd bss) (Some (sta_info.truncate s)) False) (\<lambda>capab.
     fbind (if status_code = WLAN_STATUS_ASSOC_REJECTED_TEMPORARILY then hostapd_eid_assoc_comeback_time ev bss s else Inr []) (\<lambda>comeback.
       Inr (put_le16 capab @ put_le16 status_code @ put_le16 (st_aid s OR 0xC000)
            @ hostapd_eid_supp_rates iface @ hostapd_eid_ext_supp_rates iface @ comeback
            @ hostapd_eid_ext_capab shipped_build iface (bs_hapd bss)
            @ (if has_flag s WLAN_STA_WMM then hostapd_eid_wmm iface (bs_hapd bss) else []))))"

definition send_assoc_resp :: "sta_env \<Rightarrow> u16 \<Rightarrow> bool \<Rightarrow> nat \<Rightarrow> nat \<Rightarrow> ap_world \<Rightarrow> ap_world" where
  "send_assoc_resp ev status_code reassoc b a = with_bss b (\<lambda>bss. with_sta a (\<lambda>s w.
     case assoc_resp_body ev (w_iface w) bss s status_code of
       Inl x \<Rightarrow> set_fault x w
     | Inr body \<Rightarrow>
         say (Drv_send_mlme b (mgmt_head (if reassoc then WLAN_FC_STYPE_REASSOC_RESP else WLAN_FC_STYPE_ASSOC_RESP)
                (sta_addr s) (own_addr bss) (own_addr bss) @ body)) w))"

definition only_11b_rates :: "station \<Rightarrow> bool" where
  "only_11b_rates s \<longleftrightarrow> \<not> list_ex (\<lambda>r. r AND 0x7f > 22) (st_supported_rates s)"

definition mode_11g :: "ap_world \<Rightarrow> bool" where
  "mode_11g w = mode_is (w_iface w) HOSTAPD_MODE_IEEE80211G"

definition note_non_erp :: "nat \<Rightarrow> ap_world \<Rightarrow> ap_world" where
  "note_non_erp a w =
     (let w = (if mode_11g w then put_sta a (set_flags WLAN_STA_NONERP) w else w);
          w = with_sta a (\<lambda>s. if only_11b_rates s then id else put_sta a (clear_flags WLAN_STA_NONERP)) w
      in with_sta a (\<lambda>s w.
           if has_flag s WLAN_STA_NONERP \<and> \<not> st_counted s Non_erp then
             let w = count_sta Non_erp a w in if counter_of Non_erp w = 1 then say Set_beacons w else w
           else w) w)"

definition note_missing :: "sta_counter \<Rightarrow> nat \<Rightarrow> ap_world \<Rightarrow> ap_world" where
  \<comment> \<open>a station without a short slot time, or without a short preamble\<close>
  "note_missing c a = with_sta a (\<lambda>s w.
     if st_counted s c then w
     else let w = count_sta c a w in if mode_11g w \<and> counter_of c w = 1 then say Set_beacons w else w)"

definition note_capabilities :: "u16 \<Rightarrow> u16 \<Rightarrow> nat \<Rightarrow> ap_world \<Rightarrow> ap_world" where
  "note_capabilities capab listen_interval a w =
     (let w = put_sta a (\<lambda>s. s\<lparr>st_capability := capab, st_listen_interval := listen_interval\<rparr>) w;
          w = (if if_current_mode (w_iface w) = None then set_fault Null_deref w else w);
          w = note_non_erp a w;
          w = (if capab AND WLAN_CAPABILITY_SHORT_SLOT_TIME = 0 then note_missing No_short_slot_time a w else w);
          short = (capab AND WLAN_CAPABILITY_SHORT_PREAMBLE \<noteq> 0);
          w = put_sta a (if short then set_flags WLAN_STA_SHORT_PREAMBLE else clear_flags WLAN_STA_SHORT_PREAMBLE) w
      in if short then w else note_missing No_short_preamble a w)"

definition assoc_decide :: "mlme_env \<Rightarrow> u16 \<Rightarrow> u16 \<Rightarrow> byte list \<Rightarrow> bool \<Rightarrow> nat \<Rightarrow> nat \<Rightarrow> ap_world \<Rightarrow> u16 \<times> ap_world" where
  \<comment> \<open>\<open>handle_assoc\<close> from the check of countermeasures to the reply: its status\<close>
  "assoc_decide ev capab listen_interval ies reassoc b a w =
     (case bss_at w b of
        None \<Rightarrow> (WLAN_STATUS_UNSPECIFIED_FAILURE, set_fault Null_deref w)
      | Some bss \<Rightarrow>
          if bs_tkip_countermeasures bss then (WLAN_REASON_MICHAEL_MIC_FAILURE, w)
          else if listen_interval > sc_max_listen_interval (bs_conf bss) then (WLAN_STATUS_ASSOC_DENIED_LISTEN_INT_TOO_LARGE, w)
          else let (resp, w) = check_assoc_ies ev ies reassoc b a w in
          if resp \<noteq> WLAN_STATUS_SUCCESS then (resp, w)
          else let (r, w) = hostapd_get_aid b a w in
          if r < 0 then (WLAN_STATUS_AP_UNABLE_TO_HANDLE_NEW_STA, w)
          else let w = note_capabilities capab listen_interval a w in
          (WLAN_STATUS_SUCCESS,
           put_sta a (\<lambda>s. (set_flags WLAN_STA_ASSOC_REQ_OK s)\<lparr>st_timeout_next := STA_NULLFUNC\<rparr>) w))"

definition handle_assoc :: "mlme_env \<Rightarrow> byte list \<Rightarrow> bool \<Rightarrow> nat \<Rightarrow> ap_world \<Rightarrow> ap_world" where
  "handle_assoc ev mgmt reassoc b w =
     (let fixed = (if reassoc then 10 else 4) in
      if length mgmt < IEEE80211_HDRLEN + fixed then w
      else
        let refuse = send_deauth (mgmt_sa mgmt) WLAN_REASON_CLASS2_FRAME_FROM_NONAUTH_STA b in
        with_found b (mgmt_sa mgmt) (\<lambda>sta.
          case sta of
            None \<Rightarrow> refuse
          | Some a \<Rightarrow> with_sta a (\<lambda>s w.
              if \<not> has_flag s WLAN_STA_AUTH then refuse w
              else
                let (resp, w) = assoc_decide ev (get_le16 mgmt 24) (get_le16 mgmt 26) (drop (IEEE80211_HDRLEN + fixed) mgmt)
                                  reassoc b a w
                in send_assoc_resp (me_sta ev) resp reassoc b a w)) w)"

section \<open>Disassociation, deauthentication\<close>

definition disassoc_sta :: "mlme_env \<Rightarrow> u16 \<Rightarrow> nat \<Rightarrow> nat \<Rightarrow> ap_world \<Rightarrow> ap_world" where
  "disassoc_sta ev reason b a w =
     (let w = ap_sta_set_authorized False b a w;
          w = put_sta a (clear_flags (WLAN_STA_ASSOC OR WLAN_STA_ASSOC_REQ_OK)) w;
          w = wpa_auth_sm_event a WPA_DISASSOC w;
          w = put_sta a (\<lambda>s. s\<lparr>st_acct_terminate_cause := RADIUS_ACCT_TERMINATE_CAUSE_USER_REQUEST\<rparr>) w;
          w = ieee802_1x_notify_port_enabled False a w;
          w = ieee802_1x_free_station a (accounting_sta_stop (me_sta ev) b a w);
          w = with_sta a (\<lambda>s. say (Drv_sta_remove b (sta_addr s))) w;
          w = with_sta a (\<lambda>s w.
                if st_timeout_next s \<in> {STA_NULLFUNC, STA_DISASSOC}
                then reschedule (me_sta ev) Ap_handle_timer AP_DEAUTH_DELAY b a (set_timeout_next STA_DEAUTH a w) else w) w
      in mlme_disassociate_indication a reason w)"

definition handle_disassoc :: "mlme_env \<Rightarrow> byte list \<Rightarrow> nat \<Rightarrow> ap_world \<Rightarrow> ap_world" where
  "handle_disassoc ev mgmt b w =
     (if length mgmt < IEEE80211_HDRLEN + 2 then w
      else with_found b (mgmt_sa mgmt) (\<lambda>sta. case sta of None \<Rightarrow> id | Some a \<Rightarrow> disassoc_sta ev (get_le16 mgmt 24) b a) w)"

definition deauth_sta :: "mlme_env \<Rightarrow> u16 \<Rightarrow> nat \<Rightarrow> nat \<Rightarrow> ap_world \<Rightarrow> ap_world" where
  "deauth_sta ev reason b a w =
     (let w = ap_sta_set_authorized False b a w;
          w = put_sta a (clear_flags (WLAN_STA_AUTH OR WLAN_STA_ASSOC OR WLAN_STA_ASSOC_REQ_OK)) w;
          w = mlme_deauthenticate_indication a reason (wpa_auth_sm_event a WPA_DEAUTH w);
          w = put_sta a (\<lambda>s. s\<lparr>st_acct_terminate_cause := RADIUS_ACCT_TERMINATE_CAUSE_USER_REQUEST\<rparr>) w
      in ap_free_sta (me_sta ev) b a (ieee802_1x_notify_port_enabled False a w))"

definition handle_deauth :: "mlme_env \<Rightarrow> byte list \<Rightarrow> nat \<Rightarrow> ap_world \<Rightarrow> ap_world" where
  "handle_deauth ev mgmt b w =
     (if length mgmt < IEEE80211_HDRLEN + 2 then w
      else with_found b (mgmt_sa mgmt) (\<lambda>sta. case sta of None \<Rightarrow> id | Some a \<Rightarrow> deauth_sta ev (get_le16 mgmt 24) b a) w)"

section \<open>Action frames\<close>

definition ieee802_11_send_sa_query_resp :: "byte list \<Rightarrow> byte list \<Rightarrow> nat \<Rightarrow> ap_world \<Rightarrow> ap_world" where
  "ieee802_11_send_sa_query_resp sa trans_id b = with_bss b (\<lambda>bss. with_found b sa (\<lambda>sta.
     case sta of
       None \<Rightarrow> id
     | Some a \<Rightarrow> with_sta a (\<lambda>s.
         if \<not> has_flag s WLAN_STA_ASSOC then id
         else say (Drv_send_mlme b (sa_query_frame bss sa WLAN_SA_QUERY_RESPONSE trans_id)))))"

definition ieee802_11_sa_query_action :: "byte list \<Rightarrow> byte \<Rightarrow> byte list \<Rightarrow> nat \<Rightarrow> ap_world \<Rightarrow> ap_world" where
  "ieee802_11_sa_query_action sa action_type trans_id b w =
     (if action_type = WLAN_SA_QUERY_REQUEST then ieee802_11_send_sa_query_resp sa trans_id b w
      else if action_type \<noteq> WLAN_SA_QUERY_RESPONSE then w
      else with_found b sa (\<lambda>sta.
        case sta of
          None \<Rightarrow> id
        | Some a \<Rightarrow> with_sta a (\<lambda>s. if trans_id \<in> set (st_sa_query_trans_id s) then ap_sta_stop_sa_query b a else id)) w)"

definition hostapd_sa_query_action :: "byte list \<Rightarrow> nat \<Rightarrow> ap_world \<Rightarrow> int \<times> ap_world" where
  "hostapd_sa_query_action mgmt b w =
     (if length mgmt < IEEE80211_HDRLEN + 4 then (0, w)
      else (1, ieee802_11_sa_query_action (mgmt_sa mgmt) (mgmt ! 25) (take 2 (drop 26 mgmt)) b w))"

definition robust_action_frame :: "byte \<Rightarrow> bool" where
  "robust_action_frame category \<longleftrightarrow> category \<noteq> WLAN_ACTION_PUBLIC \<and> category \<noteq> WLAN_ACTION_HT"

definition wmm_action :: "byte list \<Rightarrow> nat \<Rightarrow> ap_world \<Rightarrow> ap_world" where
  "wmm_action mgmt b = with_bss b (\<lambda>bss w.
     case hostapd_wmm_action (stations_as (w_sta w) bss) mgmt of
       Inl x \<Rightarrow> set_fault x w
     | Inr None \<Rightarrow> w
     | Inr (Some reply) \<Rightarrow> say (Drv_send_mlme b reply) w)"

definition return_action :: "mlme_env \<Rightarrow> byte list \<Rightarrow> nat \<Rightarrow> ap_world \<Rightarrow> int \<times> ap_world" where
  \<comment> \<open>an unknown frame goes back to its sender\<close>
  "return_action ev mgmt b w =
     (if mgmt ! 4 AND 1 = 0 \<and> mgmt ! 24 AND 0x80 = 0 \<and> mgmt ! 10 AND 1 = 0 then
        (if \<not> me_reply_mem ev then (0, w)
         else (1, with_bss b (\<lambda>bss. say (Drv_send_mlme b (take 4 mgmt @ mgmt_sa mgmt @ own_addr bss @ own_addr bss
                      @ take 2 (drop 22 mgmt) @ [mgmt ! 24 OR 0x80] @ drop 25 mgmt))) w))
      else (1, w))"

definition handle_action :: "mlme_env \<Rightarrow> byte list \<Rightarrow> nat \<Rightarrow> ap_world \<Rightarrow> int \<times> ap_world" where
  \<comment> \<open>no callback is set for public and vendor specific actions\<close>
  "handle_action ev mgmt b w =
     (case bss_at w b of
        None \<Rightarrow> (0, set_fault Null_deref w)
      | Some bss \<Rightarrow>
          (case table_get_sta bss (w_sta w) (mgmt_sa mgmt) of
             Inl x \<Rightarrow> (0, set_fault x w)
           | Inr sta \<Rightarrow>
               let s = (case sta of None \<Rightarrow> None | Some a \<Rightarrow> w_sta w a); category = mgmt ! 24 in
               if length mgmt < IEEE80211_HDRLEN + 1 then (0, w)
               else if category \<noteq> WLAN_ACTION_PUBLIC \<and> (case s of None \<Rightarrow> True | Some s \<Rightarrow> \<not> has_flag s WLAN_STA_ASSOC)
               then (0, w)
               else if (case s of None \<Rightarrow> False | Some s \<Rightarrow> has_flag s WLAN_STA_MFP)
                    \<and> get_le16 mgmt 0 AND WLAN_FC_ISWEP = 0 \<and> robust_action_frame category then (0, w)
               else if category = WLAN_ACTION_WMM then (1, wmm_action mgmt b w)
               else if category = WLAN_ACTION_SA_QUERY then hostapd_sa_query_action mgmt b w
               else return_action ev mgmt b w))"

section \<open>Dispatch\<close>

definition probe_req :: "mlme_env \<Rightarrow> byte list \<Rightarrow> nat \<Rightarrow> ap_world \<Rightarrow> ap_world" where
  "probe_req ev mgmt b = with_bss b (\<lambda>bss w.
     case handle_probe_req shipped_build (me_ap ev) (w_iface w) (stations_as (w_sta w) bss) (me_cbs ev) mgmt of
       Inl x \<Rightarrow> set_fault x w
     | Inr (resp, iface, hapd) \<Rightarrow>
         let w = with_found b (mgmt_sa mgmt) (\<lambda>sta.
                   case sta of
                     None \<Rightarrow> id
                   | Some a \<Rightarrow> put_sta a (\<lambda>s. s\<lparr>sta_ssid_probe :=
                       (case ap_get_sta hapd (mgmt_sa mgmt) of None \<Rightarrow> sta_ssid_probe s | Some s' \<Rightarrow> sta_ssid_probe s')\<rparr>)) w;
             w = upd_bss b (\<lambda>bss. bss\<lparr>bs_hapd := hapd\<lparr>hd_sta_list := []\<rparr>\<rparr>) w
         in (case resp of
               None \<Rightarrow> w
             | Some (frame, noack) \<Rightarrow> say (if noack then Drv_send_mlme_noack b frame else Drv_send_mlme b frame) w))"

definition mgmt_switch :: "mlme_env \<Rightarrow> u16 \<Rightarrow> byte list \<Rightarrow> nat \<Rightarrow> ap_world \<Rightarrow> int \<times> ap_world" where
  "mgmt_switch ev stype mgmt b w =
     (if stype = WLAN_FC_STYPE_AUTH then (1, handle_auth ev mgmt b w)
      else if stype = WLAN_FC_STYPE_ASSOC_REQ then (1, handle_assoc ev mgmt False b w)
      else if stype = WLAN_FC_STYPE_REASSOC_REQ then (1, handle_assoc ev mgmt True b w)
      else if stype = WLAN_FC_STYPE_DISASSOC then (1, handle_disassoc ev mgmt b w)
      else if stype = WLAN_FC_STYPE_DEAUTH then (1, handle_deauth ev mgmt b w)
      else if stype = WLAN_FC_STYPE_ACTION then handle_action ev mgmt b w
      else (0, w))"

definition ieee802_11_mgmt :: "mlme_env \<Rightarrow> byte list \<Rightarrow> nat \<Rightarrow> ap_world \<Rightarrow> int \<times> ap_world" where
  "ieee802_11_mgmt ev mgmt b w =
     (case bss_at w b of
        None \<Rightarrow> (0, set_fault Null_deref w)
      | Some bss \<Rightarrow>
          let stype = WLAN_FC_GET_STYPE (get_le16 mgmt 0) in
          if length mgmt < 24 then (0, w)
          else if stype = WLAN_FC_STYPE_BEACON then
            (1, if length mgmt < IEEE80211_HDRLEN + 12 then w else say (Beacon_seen b mgmt) w)
          else if mgmt_bssid mgmt \<noteq> replicate 6 0xff \<and> mgmt_bssid mgmt \<noteq> own_addr bss then (0, w)
          else if stype = WLAN_FC_STYPE_PROBE_REQ then (1, probe_req ev mgmt b w)
          else if mgmt_da mgmt \<noteq> own_addr bss then (0, w)
          else mgmt_switch ev stype mgmt b w)"

section \<open>Status of frames that were sent\<close>

definition handle_auth_cb :: "byte list \<Rightarrow> bool \<Rightarrow> nat \<Rightarrow> ap_world \<Rightarrow> ap_world" where
  "handle_auth_cb mgmt ok b w =
     (if \<not> ok \<or> length mgmt < IEEE80211_HDRLEN + 6 then w
      else
        let auth_alg = get_le16 mgmt 24; auth_transaction = get_le16 mgmt 26; status_code = get_le16 mgmt 28 in
        with_found b (mgmt_da mgmt) (\<lambda>sta.
          case sta of
            None \<Rightarrow> id
          | Some a \<Rightarrow>
              if status_code = WLAN_STATUS_SUCCESS
                 \<and> (auth_alg = WLAN_AUTH_OPEN \<and> auth_transaction = 2 \<or> auth_alg = WLAN_AUTH_SHARED_KEY \<and> auth_transaction = 4)
              then put_sta a (set_flags WLAN_STA_AUTH) else id) w)"

definition hostapd_set_wds_encryption :: "nat \<Rightarrow> nat \<Rightarrow> ap_world \<Rightarrow> ap_world" where
  "hostapd_set_wds_encryption b a = with_bss b (\<lambda>bss. with_sta a (\<lambda>s.
     if bc_ieee802_1x (hd_conf (bs_hapd bss)) \<or> bc_wpa (hd_conf (bs_hapd bss)) \<noteq> 0 then id
     else say (Wds_encryption b (sta_addr s))))"

definition set_wds :: "sta_env \<Rightarrow> nat \<Rightarrow> nat \<Rightarrow> ap_world \<Rightarrow> ap_world" where
  "set_wds ev b a = with_sta a (\<lambda>s w.
     let call = Drv_set_wds_sta b (sta_addr s) (st_aid s) True; w = say call w
     in if ev_drv ev call = 0 then hostapd_set_wds_encryption b a w else w)"

definition assoc_bound :: "sta_env \<Rightarrow> bool \<Rightarrow> nat \<Rightarrow> nat \<Rightarrow> ap_world \<Rightarrow> ap_world" where
  \<comment> \<open>\<open>handle_assoc_cb\<close> when the station is bound to its interface\<close>
  "assoc_bound ev reassoc b a w =
     (let w = hostapd_set_sta_flags b a w;
          w = with_sta a (\<lambda>s. wpa_auth_sm_event a (if st_auth_alg s = WLAN_AUTH_FT then WPA_ASSOC_FT else WPA_ASSOC)) w;
          w = hostapd_new_assoc_sta ev reassoc b a w
      in ieee802_1x_notify_port_enabled True a w)"

definition assoc_added :: "sta_env \<Rightarrow> bool \<Rightarrow> nat \<Rightarrow> nat \<Rightarrow> ap_world \<Rightarrow> ap_world" where
  \<comment> \<open>when the driver has the station\<close>
  "assoc_added ev reassoc b a w =
     (let w = with_sta a (\<lambda>s. if has_flag s WLAN_STA_WDS then set_wds ev b a else id) w
      in with_sta a (\<lambda>s w.
           if \<not> st_eapol_sm s \<or> st_vlan_id s \<noteq> 0 then
             (let (r, w) = ap_sta_bind_vlan ev 0 b a w in if r < 0 then w else assoc_bound ev reassoc b a w)
           else assoc_bound ev reassoc b a w) w)"

definition assoc_acked :: "sta_env \<Rightarrow> bool \<Rightarrow> nat \<Rightarrow> nat \<Rightarrow> ap_world \<Rightarrow> ap_world" where
  \<comment> \<open>the station has acknowledged that it is associated; the Boolean of \<open>hostapd_new_assoc_sta\<close>: it was before\<close>
  "assoc_acked ev reassoc b a w =
     (let w = accounting_sta_stop ev b a w in
      with_bss b (\<lambda>bss. with_sta a (\<lambda>s w.
        let again = has_flag s WLAN_STA_ASSOC;
            w = put_sta a (\<lambda>s. clear_flags WLAN_STA_WNM_SLEEP_MODE (set_flags WLAN_STA_ASSOC s)) w;
            w = (if \<not> separate_authorization bss \<or> st_auth_alg s = WLAN_AUTH_FT then ap_sta_set_authorized True b a w else w);
            w = (if reassoc then mlme_reassociate_indication a w else mlme_associate_indication a w);
            w = put_sta a (\<lambda>s. s\<lparr>st_sa_query_timed_out := False\<rparr>) w;
            w = with_sta a (\<lambda>s. say (Drv_sta_remove b (sta_addr s))) w
        in with_sta a (\<lambda>s w.
             let call = Drv_sta_add b (sta_addr s) (st_aid s) (st_capability s) (st_supported_rates s) (st_listen_interval s)
                          (hostapd_sta_flags_to_drv (sta_flags s)) (st_qosinfo s);
                 w = say call w
             in if ev_drv ev call \<noteq> 0
                then ap_sta_disconnect ev WLAN_REASON_DISASSOC_AP_BUSY (Some (sta_addr s)) b (Some a) w
                else assoc_added ev again b a w) w)) w)"

definition handle_assoc_cb :: "sta_env \<Rightarrow> byte list \<Rightarrow> bool \<Rightarrow> bool \<Rightarrow> nat \<Rightarrow> ap_world \<Rightarrow> ap_world" where
  "handle_assoc_cb ev mgmt reassoc ok b w =
     (if length mgmt < IEEE80211_HDRLEN + 6 then w
      else with_found b (mgmt_da mgmt) (\<lambda>sta.
        case sta of
          None \<Rightarrow> id
        | Some a \<Rightarrow>
            if \<not> ok then put_sta a (clear_flags WLAN_STA_ASSOC_REQ_OK)
            else if get_le16 mgmt 26 \<noteq> WLAN_STATUS_SUCCESS then id
            else assoc_acked ev reassoc b a) w)"

definition handle_deauth_cb :: "sta_env \<Rightarrow> byte list \<Rightarrow> nat \<Rightarrow> ap_world \<Rightarrow> ap_world" where
  "handle_deauth_cb ev mgmt b w =
     (if mgmt ! 4 AND 1 \<noteq> 0 then w
      else with_found b (mgmt_da mgmt) (\<lambda>sta. case sta of None \<Rightarrow> id | Some a \<Rightarrow> ap_sta_deauth_cb ev b a) w)"

definition handle_disassoc_cb :: "sta_env \<Rightarrow> byte list \<Rightarrow> nat \<Rightarrow> ap_world \<Rightarrow> ap_world" where
  "handle_disassoc_cb ev mgmt b w =
     (if mgmt ! 4 AND 1 \<noteq> 0 then w
      else with_found b (mgmt_da mgmt) (\<lambda>sta. case sta of None \<Rightarrow> id | Some a \<Rightarrow> ap_sta_disassoc_cb ev b a) w)"

definition ieee802_11_mgmt_cb :: "sta_env \<Rightarrow> byte list \<Rightarrow> u16 \<Rightarrow> bool \<Rightarrow> nat \<Rightarrow> ap_world \<Rightarrow> ap_world" where
  "ieee802_11_mgmt_cb ev mgmt stype ok b w =
     (if stype = WLAN_FC_STYPE_AUTH then handle_auth_cb mgmt ok b w
      else if stype = WLAN_FC_STYPE_ASSOC_RESP then handle_assoc_cb ev mgmt False ok b w
      else if stype = WLAN_FC_STYPE_REASSOC_RESP then handle_assoc_cb ev mgmt True ok b w
      else if stype = WLAN_FC_STYPE_DEAUTH then handle_deauth_cb ev mgmt b w
      else if stype = WLAN_FC_STYPE_DISASSOC then handle_disassoc_cb ev mgmt b w
      else w)"

section \<open>Data frames\<close>

fun find_in_bsss :: "ap_world \<Rightarrow> byte list \<Rightarrow> nat list \<Rightarrow> fault + (nat \<times> nat) option" where
  \<comment> \<open>no check for a BSS that is null\<close>
  "find_in_bsss w addr [] = Inr None"
| "find_in_bsss w addr (j # js) =
     (case bss_at w j of
        None \<Rightarrow> Inl Null_deref
      | Some bss \<Rightarrow> fbind (table_get_sta bss (w_sta w) addr) (\<lambda>sta.
          case sta of Some a \<Rightarrow> Inr (Some (j, a)) | None \<Rightarrow> find_in_bsss w addr js))"

definition with_any_bss :: "byte list \<Rightarrow> nat \<Rightarrow> (nat \<Rightarrow> nat \<Rightarrow> ap_world \<Rightarrow> ap_world) \<Rightarrow> ap_world \<Rightarrow> ap_world" where
  \<comment> \<open>the station in this BSS, else in the first BSS that has it\<close>
  "with_any_bss addr b f = with_found b addr (\<lambda>sta w.
     case sta of
       Some a \<Rightarrow> f b a w
     | None \<Rightarrow>
         if length (w_bss w) > 1 then
           (case find_in_bsss w addr [0..<length (w_bss w)] of
              Inl x \<Rightarrow> set_fault x w
            | Inr None \<Rightarrow> w
            | Inr (Some (j, a)) \<Rightarrow> f j a w)
         else w)"

definition hostapd_tx_status :: "byte list \<Rightarrow> bool \<Rightarrow> nat \<Rightarrow> ap_world \<Rightarrow> ap_world" where
  "hostapd_tx_status addr ack b = with_any_bss addr b (\<lambda>j a. with_sta a (\<lambda>s w.
     if \<not> has_flag s WLAN_STA_ASSOC then w
     else say (Tx_status_1x j (sta_addr s) ack)
            (if has_flag s WLAN_STA_PENDING_POLL \<and> ack then put_sta a (clear_flags WLAN_STA_PENDING_POLL) w else w)))"

definition hostapd_eapol_tx_status :: "byte list \<Rightarrow> bool \<Rightarrow> nat \<Rightarrow> ap_world \<Rightarrow> ap_world" where
  "hostapd_eapol_tx_status dst ack b = with_any_bss dst b (\<lambda>j a. with_sta a (\<lambda>s.
     if has_flag s WLAN_STA_ASSOC then say (Eapol_tx_status j (sta_addr s) ack) else id))"

definition hostapd_client_poll_ok :: "byte list \<Rightarrow> nat \<Rightarrow> ap_world \<Rightarrow> ap_world" where
  "hostapd_client_poll_ok addr b = with_any_bss addr b (\<lambda>j a. with_sta a (\<lambda>s.
     if has_flag s WLAN_STA_PENDING_POLL then put_sta a (clear_flags WLAN_STA_PENDING_POLL) else id))"

definition ieee802_11_rx_from_unknown :: "sta_env \<Rightarrow> byte list \<Rightarrow> bool \<Rightarrow> nat \<Rightarrow> ap_world \<Rightarrow> ap_world" where
  "ieee802_11_rx_from_unknown ev src wds b = with_bss b (\<lambda>bss. with_found b src (\<lambda>sta w.
     let s = (case sta of None \<Rightarrow> None | Some a \<Rightarrow> w_sta w a);
         flag = (\<lambda>f. case s of None \<Rightarrow> False | Some s \<Rightarrow> has_flag s f) in
     if flag WLAN_STA_ASSOC then
       (if sc_wds_sta (bs_conf bss) \<and> wds \<and> \<not> flag WLAN_STA_WDS then
          set_wds ev b (the sta) (put_sta (the sta) (set_flags WLAN_STA_WDS) w)
        else w)
     else if src ! 0 AND 1 \<noteq> 0 then w
     else if flag WLAN_STA_ASSOC_REQ_OK then w
     else if flag WLAN_STA_AUTH then say (Drv_sta_disassoc b src WLAN_REASON_CLASS3_FRAME_FROM_NONASSOC_STA) w
     else say (Drv_sta_deauth b src WLAN_REASON_CLASS3_FRAME_FROM_NONASSOC_STA) w))"

section \<open>Replies of the RADIUS server\<close>

definition hostapd_acl_recv_radius :: "mlme_env \<Rightarrow> bool \<Rightarrow> radius_reply \<Rightarrow> nat \<Rightarrow> ap_world \<Rightarrow> radius_rx \<times> ap_world" where
  \<comment> \<open>with memory for the cache entry, the authentication frame is processed again\<close>
  "hostapd_acl_recv_radius ev mem r b w =
     (case bss_at w b of
        None \<Rightarrow> (RADIUS_RX_UNKNOWN, set_fault Null_deref w)
      | Some bss \<Rightarrow>
          (case find (\<lambda>q. aq_radius_id q = rr_identifier r) (as_queries (bs_acl bss)) of
             None \<Rightarrow> (RADIUS_RX_UNKNOWN, w)
           | Some q \<Rightarrow>
               if \<not> rr_verified r then (RADIUS_RX_INVALID_AUTHENTICATOR, w)
               else if rr_code r \<noteq> RADIUS_CODE_ACCESS_ACCEPT \<and> rr_code r \<noteq> RADIUS_CODE_ACCESS_REJECT then (RADIUS_RX_UNKNOWN, w)
               else
                 let entry = acl_cache_entry (bs_acl_conf bss) (ae_clock (me_acl ev)) (aq_addr q) r;
                     w = (if mem then
                            snd (ieee802_11_mgmt ev (aq_auth_msg q) b
                              (upd_bss b (\<lambda>bss. bss\<lparr>bs_acl := (bs_acl bss)\<lparr>as_cache := entry # as_cache (bs_acl bss)\<rparr>\<rparr>) w))
                          else w)
                 in (RADIUS_RX_PROCESSED,
                     upd_bss b (\<lambda>bss. bss\<lparr>bs_acl := (bs_acl bss)\<lparr>as_queries := drop_query (rr_identifier r) (as_queries (bs_acl bss))\<rparr>\<rparr>) w)))"

definition acl_tick :: "mlme_env \<Rightarrow> nat \<Rightarrow> ap_world \<Rightarrow> ap_world" where
  "acl_tick ev b = with_bss b (\<lambda>bss w.
     let (gone, acl) = hostapd_acl_expire (ae_clock (me_acl ev)) (bs_acl bss)
     in foldl (\<lambda>w addr. say (Drv_radius_acl_expire b addr) w) (upd_bss b (\<lambda>bss. bss\<lparr>bs_acl := acl\<rparr>) w) gone)"

end
