(* ===== verification/Sta_Inv.thy ===== *)
theory Sta_Inv
  imports Sta_Info
begin

text \<open>
  The invariant of the station table, \<open>world_ok\<close>: the list, the hash table, the number of stations, the
  AIDs and the counters of a BSS describe the same set of live stations, and every pending timeout
  refers to one of them. Most operations are \<open>calm\<close>: they change neither the tables nor what the
  tables depend on.
\<close>

unbundle bit_operations_syntax

section \<open>The invariant\<close>

definition addr_at :: "(nat \<Rightarrow> station option) \<Rightarrow> nat \<Rightarrow> byte list option" where
  "addr_at heap a = map_option sta_addr (heap a)"

definition aid_at :: "(nat \<Rightarrow> station option) \<Rightarrow> nat \<Rightarrow> nat" where
  "aid_at heap a = (case heap a of None \<Rightarrow> 0 | Some s \<Rightarrow> unat (st_aid s))"

definition counted_at :: "(nat \<Rightarrow> station option) \<Rightarrow> nat \<Rightarrow> sta_counter \<Rightarrow> bool" where
  "counted_at heap a = (case heap a of None \<Rightarrow> (\<lambda>c. False) | Some s \<Rightarrow> st_counted s)"

definition aid_bit :: "u32 list \<Rightarrow> nat \<Rightarrow> bool" where
  "aid_bit ws n = bit (ws ! (n div 32)) (n mod 32)"

definition list_ok :: "(nat \<Rightarrow> station option) \<Rightarrow> sta_bss \<Rightarrow> bool" where
  "list_ok heap bss \<longleftrightarrow> distinct (bs_list bss) \<and> bs_num_sta bss = int (length (bs_list bss))
     \<and> (\<forall>a \<in> set (bs_list bss). \<exists>addr. addr_at heap a = Some addr \<and> length addr = 6)
     \<and> inj_on (addr_at heap) (set (bs_list bss))"

definition hash_ok :: "(nat \<Rightarrow> station option) \<Rightarrow> sta_bss \<Rightarrow> bool" where
  "hash_ok heap bss \<longleftrightarrow> (\<forall>h. distinct (bs_hash bss h)
     \<and> set (bs_hash bss h) = {a \<in> set (bs_list bss). map_option STA_HASH (addr_at heap a) = Some h})"

definition aids_ok :: "(nat \<Rightarrow> station option) \<Rightarrow> sta_bss \<Rightarrow> bool" where
  "aids_ok heap bss \<longleftrightarrow> length (bs_aid bss) = 63
     \<and> (\<forall>a \<in> set (bs_list bss). aid_at heap a \<le> 2007)
     \<and> (\<forall>n < 63 * 32. aid_bit (bs_aid bss) n \<longleftrightarrow> (\<exists>a \<in> set (bs_list bss). aid_at heap a = n + 1))
     \<and> (\<forall>a \<in> set (bs_list bss). \<forall>a' \<in> set (bs_list bss). aid_at heap a = aid_at heap a' \<longrightarrow> aid_at heap a = 0 \<or> a = a')"

definition owned :: "ap_world \<Rightarrow> nat \<Rightarrow> nat \<Rightarrow> bool" where
  "owned w b a \<longleftrightarrow> (\<exists>bss. bss_at w b = Some bss \<and> a \<in> set (bs_list bss))"

definition tables_ok :: "ap_world \<Rightarrow> bool" where
  "tables_ok w \<longleftrightarrow>
     (\<forall>b bss. bss_at w b = Some bss \<longrightarrow> list_ok (w_sta w) bss \<and> hash_ok (w_sta w) bss \<and> aids_ok (w_sta w) bss)
     \<and> (\<forall>b b' a. owned w b a \<longrightarrow> owned w b' a \<longrightarrow> b = b')
     \<and> (\<forall>a. addr_at (w_sta w) a \<noteq> None \<longrightarrow> (\<exists>b. owned w b a))"

definition counters_ok :: "ap_world \<Rightarrow> bool" where
  "counters_ok w \<longleftrightarrow> finite (dom (w_sta w)) \<and> (\<forall>c. counter_of c w = int (card {a. counted_at (w_sta w) a c}))"

definition timers_live :: "ap_world \<Rightarrow> bool" where
  "timers_live w \<longleftrightarrow> (\<forall>h b a. (h, b, a) \<in> eloop_pending (w_timers w) \<longrightarrow> owned w b a)"

definition accounts_ok :: "ap_world \<Rightarrow> bool" where
  "accounts_ok w \<longleftrightarrow> (\<forall>b a. (Accounting_interim_update, b, a) \<in> eloop_pending (w_timers w)
     \<longrightarrow> (\<exists>s. w_sta w a = Some s \<and> st_acct_session_started s))"

definition no_bad_access :: "ap_world \<Rightarrow> bool" where
  \<comment> \<open>nothing but the arithmetic of the SA Query times can go wrong\<close>
  "no_bad_access w \<longleftrightarrow> w_fault w \<in> {None, Some Int_overflow}"

definition world_ok :: "ap_world \<Rightarrow> bool" where
  "world_ok w \<longleftrightarrow> no_bad_access w \<and> if_current_mode (w_iface w) \<noteq> None \<and> tables_ok w \<and> counters_ok w
     \<and> timers_live w \<and> accounts_ok w"

section \<open>Calm operations\<close>

definition table_of :: "sta_bss \<Rightarrow> nat list \<times> (byte \<Rightarrow> nat list) \<times> int \<times> u32 list \<times> acl_conf" where
  "table_of bss = (bs_list bss, bs_hash bss, bs_num_sta bss, bs_aid bss, bs_acl_conf bss)"

definition calm :: "ap_world \<Rightarrow> ap_world \<Rightarrow> bool" where
  "calm w w' \<longleftrightarrow>
     addr_at (w_sta w') = addr_at (w_sta w) \<and> aid_at (w_sta w') = aid_at (w_sta w) \<and> counted_at (w_sta w') = counted_at (w_sta w)
     \<and> (\<forall>b. map_option table_of (bss_at w' b) = map_option table_of (bss_at w b)) \<and> length (w_bss w') = length (w_bss w)
     \<and> w_iface w' = w_iface w \<and> w_ht_counter w' = w_ht_counter w
     \<and> w_fault w' \<in> {w_fault w, Some Int_overflow}
     \<and> (\<forall>h b a. (h, b, a) \<in> eloop_pending (w_timers w') \<longrightarrow> (h, b, a) \<in> eloop_pending (w_timers w) \<or> owned w b a)
     \<and> (timers_live w \<longrightarrow> accounts_ok w \<longrightarrow> accounts_ok w')"

definition live :: "ap_world \<Rightarrow> nat \<Rightarrow> bool" where
  "live w a \<longleftrightarrow> addr_at (w_sta w) a \<noteq> None"

lemma live_iff: "live w a \<longleftrightarrow> (\<exists>s. w_sta w a = Some s)"
  by (auto simp: live_def addr_at_def)

lemma owned_table: "map_option table_of (bss_at w' b) = map_option table_of (bss_at w b) \<Longrightarrow> owned w' b a = owned w b a"
  by (cases "bss_at w b"; cases "bss_at w' b") (auto simp: owned_def table_of_def)

lemma calm_owned: "calm w w' \<Longrightarrow> owned w' b a = owned w b a"
  by (rule owned_table) (simp add: calm_def)

lemma calm_live: "calm w w' \<Longrightarrow> live w' a = live w a"
  by (simp add: calm_def live_def)

lemma calm_bss: "calm w w' \<Longrightarrow> (bss_at w' b = None) = (bss_at w b = None)"
proof -
  assume "calm w w'"
  then have "map_option table_of (bss_at w' b) = map_option table_of (bss_at w b)" by (simp add: calm_def)
  then show ?thesis by (cases "bss_at w b"; cases "bss_at w' b") auto
qed

lemma calm_refl [simp]: "calm w w"
  by (simp add: calm_def)

lemma calm_timers_live: "calm w w' \<Longrightarrow> timers_live w \<Longrightarrow> timers_live w'"
  using calm_owned [of w w'] unfolding timers_live_def calm_def by blast

lemma calm_trans:
  assumes "calm w w'" and "calm w' w''"
  shows "calm w w''"
proof -
  have "owned w' b a = owned w b a" for b a by (rule calm_owned [OF assms(1)])
  then have "\<forall>h b a. (h, b, a) \<in> eloop_pending (w_timers w'') \<longrightarrow> (h, b, a) \<in> eloop_pending (w_timers w) \<or> owned w b a"
    using assms unfolding calm_def by blast
  moreover have "w_fault w'' \<in> {w_fault w, Some Int_overflow}" using assms by (auto simp: calm_def)
  moreover have "timers_live w \<longrightarrow> accounts_ok w \<longrightarrow> accounts_ok w''"
    using calm_timers_live [OF assms(1)] assms by (simp add: calm_def)
  ultimately show ?thesis using assms by (simp add: calm_def)
qed

lemma calm_ok:
  assumes ok: "world_ok w" and c: "calm w w'"
  shows "world_ok w'"
proof -
  have eq: "addr_at (w_sta w') = addr_at (w_sta w)" "aid_at (w_sta w') = aid_at (w_sta w)" "counted_at (w_sta w') = counted_at (w_sta w)"
    using c by (simp_all add: calm_def)
  have d: "dom (w_sta w') = dom (w_sta w)"
  proof -
    have "dom (w_sta x) = {a. addr_at (w_sta x) a \<noteq> None}" for x :: ap_world by (auto simp: addr_at_def)
    from this [of w] this [of w'] show ?thesis by (simp add: eq(1))
  qed
  have count: "counter_of k w' = counter_of k w" for k using c by (cases k) (simp_all add: calm_def)
  have tables: "list_ok (w_sta w') bss' \<and> hash_ok (w_sta w') bss' \<and> aids_ok (w_sta w') bss'" if b: "bss_at w' b = Some bss'" for b bss'
  proof -
    obtain bss where bss: "bss_at w b = Some bss" "table_of bss = table_of bss'"
    proof -
      have "map_option table_of (bss_at w' b) = map_option table_of (bss_at w b)" using c by (simp add: calm_def)
      then show ?thesis using b that by (cases "bss_at w b") auto
    qed
    then have "list_ok (w_sta w) bss \<and> hash_ok (w_sta w) bss \<and> aids_ok (w_sta w) bss"
      using ok by (simp add: world_ok_def tables_ok_def)
    moreover have fields: "bs_list bss' = bs_list bss" "bs_hash bss' = bs_hash bss" "bs_num_sta bss' = bs_num_sta bss" "bs_aid bss' = bs_aid bss"
      using bss(2) by (simp_all add: table_of_def)
    ultimately show ?thesis unfolding list_ok_def hash_ok_def aids_ok_def eq fields by argo
  qed
  show ?thesis
    unfolding world_ok_def
  proof (intro conjI)
    show "no_bad_access w'" using ok c by (auto simp: world_ok_def no_bad_access_def calm_def)
    show "if_current_mode (w_iface w') \<noteq> None" using ok c by (simp add: world_ok_def calm_def)
    show "tables_ok w'" using tables ok by (simp add: tables_ok_def calm_owned [OF c] eq world_ok_def)
    show "counters_ok w'" using ok d by (simp add: world_ok_def counters_ok_def count eq)
    show "timers_live w'" using ok calm_timers_live [OF c] by (simp add: world_ok_def)
    show "accounts_ok w'" using ok c by (simp add: world_ok_def calm_def)
  qed
qed

named_theorems calm_rules "an operation behind a calm one is calm"

lemma with_sta_calm [calm_rules]:
  assumes "live w0 a" and "calm w0 w" and "\<And>s. w_sta w a = Some s \<Longrightarrow> calm w0 (f s w)"
  shows "calm w0 (with_sta a f w)"
  using assms calm_live [OF assms(2), of a] by (auto simp: live_iff with_sta_def)

lemma with_bss_calm [calm_rules]:
  assumes "bss_at w0 b \<noteq> None" and "calm w0 w" and "\<And>x. bss_at w b = Some x \<Longrightarrow> calm w0 (f x w)"
  shows "calm w0 (with_bss b f w)"
  using assms calm_bss [OF assms(2), of b] by (auto simp: with_bss_def split: option.split)

lemma bss_at_more [simp]:
  "bss_at (w\<lparr>w_out := x\<rparr>) b = bss_at w b" "bss_at (w\<lparr>w_sta := y\<rparr>) b = bss_at w b" "bss_at (w\<lparr>w_timers := z\<rparr>) b = bss_at w b"
  "bss_at (w\<lparr>w_iface := i\<rparr>) b = bss_at w b" "bss_at (w\<lparr>w_ht_counter := k\<rparr>) b = bss_at w b" "bss_at (w\<lparr>w_fault := e\<rparr>) b = bss_at w b"
  by (simp_all add: bss_at_def)

lemma say_calm [calm_rules]: "calm w0 w \<Longrightarrow> calm w0 (say x w)"
  by (erule calm_trans) (simp add: calm_def say_def accounts_ok_def)

lemma id_calm [calm_rules]: "calm w0 w \<Longrightarrow> calm w0 (id w)"
  by simp

lemma if_calm [calm_rules]:
  "(c \<Longrightarrow> calm w0 w) \<Longrightarrow> (\<not> c \<Longrightarrow> calm w0 w') \<Longrightarrow> calm w0 (if c then w else w')"
  "(c \<Longrightarrow> calm w0 (f w)) \<Longrightarrow> (\<not> c \<Longrightarrow> calm w0 (g w)) \<Longrightarrow> calm w0 ((if c then f else g) w)"
  by simp_all

lemma case_calm [calm_rules]:
  "(x = None \<Longrightarrow> calm w0 w) \<Longrightarrow> (\<And>y. x = Some y \<Longrightarrow> calm w0 (f y)) \<Longrightarrow> calm w0 (case x of None \<Rightarrow> w | Some y \<Rightarrow> f y)"
  "(\<And>y z. p = (y, z) \<Longrightarrow> calm w0 (g y z)) \<Longrightarrow> calm w0 (case p of (y, z) \<Rightarrow> g y z)"
  by (simp_all split: option.split prod.split)

text \<open>An update of a station is calm if it keeps what the tables depend on.\<close>

definition keeps_table :: "(station \<Rightarrow> station) \<Rightarrow> bool" where
  "keeps_table f \<longleftrightarrow> (\<forall>s. sta_addr (f s) = sta_addr s \<and> st_aid (f s) = st_aid s \<and> st_counted (f s) = st_counted s
     \<and> st_acct_session_started (f s) = st_acct_session_started s)"

lemma heap_upd:
  assumes "w_sta w a = Some s" and "sta_addr s' = sta_addr s" and "st_aid s' = st_aid s" and "st_counted s' = st_counted s"
  shows "addr_at ((w_sta w)(a \<mapsto> s')) = addr_at (w_sta w)" "aid_at ((w_sta w)(a \<mapsto> s')) = aid_at (w_sta w)"
    "counted_at ((w_sta w)(a \<mapsto> s')) = counted_at (w_sta w)"
  using assms by (auto simp: addr_at_def aid_at_def counted_at_def fun_eq_iff)

lemma put_sta_calm [calm_rules]:
  assumes "live w0 a" and "calm w0 w" and "keeps_table f"
  shows "calm w0 (put_sta a f w)"
proof (rule calm_trans [OF assms(2)])
  obtain s where s: "w_sta w a = Some s" using assms(1) calm_live [OF assms(2)] by (auto simp: live_iff)
  note f = assms(3) [unfolded keeps_table_def, rule_format, of s]
  have "accounts_ok w \<Longrightarrow> accounts_ok (w\<lparr>w_sta := (w_sta w)(a \<mapsto> f s)\<rparr>)"
    using s f by (fastforce simp: accounts_ok_def)
  then show "calm w (put_sta a f w)" using heap_upd [of w a s "f s"] s f
    by (simp add: put_sta_def with_sta_def calm_def)
qed

lemma upd_bss_calm [calm_rules]:
  assumes "bss_at w0 b \<noteq> None" and "calm w0 w" and "\<And>x. table_of (f x) = table_of x"
  shows "calm w0 (upd_bss b f w)"
proof (rule calm_trans [OF assms(2)])
  obtain x where x: "bss_at w b = Some x" using assms(1) calm_bss [OF assms(2), of b] by fastforce
  then have "b < length (w_bss w)" by (auto simp: bss_at_def split: if_split_asm)
  then have "map_option table_of (bss_at (w\<lparr>w_bss := (w_bss w)[b := Some (f x)]\<rparr>) i) = map_option table_of (bss_at w i)" for i
    using x assms(3) by (auto simp: bss_at_def nth_list_update)
  then show "calm w (upd_bss b f w)" using x by (simp add: upd_bss_def with_bss_def calm_def accounts_ok_def)
qed

lemma register_pending: "eloop_pending (w_timers (register_timer ev h secs usecs b a w)) \<subseteq> insert (h, b, a) (eloop_pending (w_timers w))"
  using eloop_timer.pending_reg [of "fst (ev_register ev h b a)" "snd (ev_register ev h b a)" secs usecs h b a "w_timers w"]
  by (cases "ev_register ev h b a") (simp add: register_timer_def)

lemma cancel_pending: "eloop_pending (w_timers (cancel_timer h b a w)) = eloop_pending (w_timers w) - {(h, b, a)}"
  using eloop_timer.pending_cancel [of h b a "w_timers w"] by (simp add: cancel_timer_def)

lemma timer_fields [simp]:
  "w_sta (register_timer ev h secs usecs b a w) = w_sta w" "bss_at (register_timer ev h secs usecs b a w) i = bss_at w i"
  "w_bss (register_timer ev h secs usecs b a w) = w_bss w"
  "w_iface (register_timer ev h secs usecs b a w) = w_iface w" "w_ht_counter (register_timer ev h secs usecs b a w) = w_ht_counter w"
  "w_fault (register_timer ev h secs usecs b a w) = w_fault w" "w_ap_teardown (register_timer ev h secs usecs b a w) = w_ap_teardown w"
  "w_sta (cancel_timer h b a w) = w_sta w" "bss_at (cancel_timer h b a w) i = bss_at w i" "w_iface (cancel_timer h b a w) = w_iface w"
  "w_bss (cancel_timer h b a w) = w_bss w"
  "w_ht_counter (cancel_timer h b a w) = w_ht_counter w" "w_fault (cancel_timer h b a w) = w_fault w"
  "w_ap_teardown (cancel_timer h b a w) = w_ap_teardown w"
  by (simp_all add: register_timer_def cancel_timer_def split: prod.split)

lemma register_calm [calm_rules]:
  assumes "owned w0 b a" and "calm w0 w" and "h \<noteq> Accounting_interim_update"
  shows "calm w0 (register_timer ev h secs usecs b a w)"
proof (rule calm_trans [OF assms(2)])
  have "owned w b a" using assms(1) calm_owned [OF assms(2)] by simp
  then show "calm w (register_timer ev h secs usecs b a w)"
    using register_pending [of ev h secs usecs b a w] assms(3) by (auto simp: calm_def accounts_ok_def)
qed

lemma cancel_calm [calm_rules]: "calm w0 w \<Longrightarrow> calm w0 (cancel_timer h b a w)"
  by (erule calm_trans) (auto simp: calm_def accounts_ok_def cancel_pending)

unbundle bit_operations_syntax

section \<open>The calm operations of the table\<close>

named_theorems keeps_rules "updates that keep what the tables depend on"

lemma keeps_intros [keeps_rules]:
  "keeps_table (set_flags f)" "keeps_table (clear_flags f)" "keeps_table idle_cause" "keeps_table (count_octets d)" "keeps_table sa_query_stopped"
  by (simp_all add: keeps_table_def set_flags_def clear_flags_def idle_cause_def count_octets_def sa_query_stopped_def split: prod.split)

lemma keeps_comp: "keeps_table f \<Longrightarrow> keeps_table g \<Longrightarrow> keeps_table (\<lambda>s. f (g s))"
  by (simp add: keeps_table_def)

lemma deletekeys_calm [calm_rules]: "live w0 a \<Longrightarrow> calm w0 w \<Longrightarrow> calm w0 (mlme_deletekeys_request a w)"
  unfolding mlme_deletekeys_request_def by (intro calm_rules) simp_all

lemma indication_calm [calm_rules]:
  assumes "live w0 a" and "calm w0 w"
  shows "calm w0 (mlme_authenticate_indication a w)" "calm w0 (mlme_deauthenticate_indication a reason w)"
    "calm w0 (mlme_associate_indication a w)" "calm w0 (mlme_reassociate_indication a w)"
    "calm w0 (mlme_disassociate_indication a reason w)"
  unfolding mlme_authenticate_indication_def mlme_deauthenticate_indication_def mlme_associate_indication_def
    mlme_reassociate_indication_def mlme_disassociate_indication_def Let_def
  using assms by (intro calm_rules; simp)+

lemma authorized_calm [calm_rules]: "live w0 a \<Longrightarrow> calm w0 w \<Longrightarrow> calm w0 (ap_sta_set_authorized authorized b a w)"
  unfolding ap_sta_set_authorized_def by (intro calm_rules keeps_rules) simp_all

lemma machines_calm [calm_rules]:
  assumes "live w0 a" and "calm w0 w"
  shows "calm w0 (ieee802_1x_notify_port_enabled enabled a w)" "calm w0 (ieee802_1x_notify_pre_auth pre_auth a w)"
    "calm w0 (ieee802_1x_free_station a w)" "calm w0 (wpa_auth_sm_event a event w)"
  unfolding ieee802_1x_notify_port_enabled_def ieee802_1x_notify_pre_auth_def ieee802_1x_free_station_def wpa_auth_sm_event_def
  using assms by (intro calm_rules; simp add: keeps_table_def)+

lemma timeout_next_calm [calm_rules]: "live w0 a \<Longrightarrow> calm w0 w \<Longrightarrow> calm w0 (set_timeout_next t a w)"
  unfolding set_timeout_next_def by (intro calm_rules) (simp_all add: keeps_table_def)

lemma reschedule_calm [calm_rules]:
  "owned w0 b a \<Longrightarrow> calm w0 w \<Longrightarrow> h \<noteq> Accounting_interim_update \<Longrightarrow> calm w0 (reschedule ev h secs b a w)"
  unfolding reschedule_def by (intro calm_rules)

lemma stats_calm [calm_rules]: "live w0 a \<Longrightarrow> calm w0 w \<Longrightarrow> calm w0 (accounting_sta_update_stats ev a w)"
  unfolding accounting_sta_update_stats_def by (auto intro!: calm_rules keeps_rules split: option.split)

lemma owned_bss: "owned w b a \<Longrightarrow> bss_at w b \<noteq> None"
  by (auto simp: owned_def)

lemma report_calm [calm_rules]:
  assumes "bss_at w0 b \<noteq> None" and "live w0 a" and "calm w0 w"
  shows "calm w0 (accounting_sta_report ev stop b a w)"
proof -
  have r: "calm w0 (case r of Report_not_built \<Rightarrow> w | Report_not_sent \<Rightarrow> accounting_sta_update_stats ev a w
      | Report_sent \<Rightarrow> say x (accounting_sta_update_stats ev a w))" for r x
    using assms by (cases r) (simp_all add: calm_rules)
  show ?thesis unfolding accounting_sta_report_def by (intro calm_rules assms r)
qed

lemma interim_calm [calm_rules]:
  "bss_at w0 b \<noteq> None \<Longrightarrow> live w0 a \<Longrightarrow> calm w0 w \<Longrightarrow> calm w0 (accounting_sta_interim ev b a w)"
  unfolding accounting_sta_interim_def by (intro calm_rules)

text \<open>The operations that start and end a session.\<close>

lemma started_register_calm:
  assumes "owned w0 b a" and "calm w0 w" and "\<exists>s. w_sta w a = Some s \<and> st_acct_session_started s"
  shows "calm w0 (register_timer ev h secs usecs b a w)"
proof (rule calm_trans [OF assms(2)])
  have "owned w b a" using assms(1) calm_owned [OF assms(2)] by simp
  then show "calm w (register_timer ev h secs usecs b a w)"
    using register_pending [of ev h secs usecs b a w] assms(3) by (fastforce simp: calm_def accounts_ok_def)
qed

lemma interim_update_calm [calm_rules]:
  assumes "owned w0 b a" and "calm w0 w" and "\<exists>s. w_sta w a = Some s \<and> st_acct_session_started s"
  shows "calm w0 (accounting_interim_update ev b a w)"
proof -
  obtain s where s: "w_sta w a = Some s" "st_acct_session_started s" using assms(3) by blast
  have keep: "\<exists>s. w_sta (accounting_sta_update_stats ev a w) a = Some s \<and> st_acct_session_started s"
    using s by (auto simp: accounting_sta_update_stats_def put_sta_def with_sta_def count_octets_def split: option.split)
  have out: "w_sta (say x w) = w_sta w" for x w by (simp add: say_def)
  have keep': "\<exists>s. w_sta (accounting_sta_interim ev b a w) a = Some s \<and> st_acct_session_started s"
    using keep s by (auto simp: accounting_sta_interim_def accounting_sta_report_def with_sta_def with_bss_def out set_fault_def
        split: option.split report_result.split)
  have l: "live w0 a" using s(1) calm_live [OF assms(2), of a] by (simp add: live_iff)
  note b = owned_bss [OF assms(1)]
  have "accounting_interim_update ev b a w =
      (if st_acct_interim_interval s \<noteq> 0
       then register_timer ev Accounting_interim_update (st_acct_interim_interval s) 0 b a (accounting_sta_interim ev b a w)
       else register_timer ev Accounting_interim_update ACCT_DEFAULT_UPDATE_INTERVAL 0 b a (accounting_sta_update_stats ev a w))"
    by (simp add: accounting_interim_update_def with_sta_def s)
  then show ?thesis
    using started_register_calm [OF assms(1) interim_calm [OF b l assms(2)] keep'] started_register_calm [OF assms(1) stats_calm [OF l assms(2)] keep]
    by simp
qed

lemma account_start_calm [calm_rules]:
  assumes "owned w0 b a" and "live w0 a" and "calm w0 w"
  shows "calm w0 (accounting_sta_start ev b a w)"
proof -
  obtain s where s: "w_sta w a = Some s" using assms(2) calm_live [OF assms(3)] by (auto simp: live_iff)
  obtain bss where b: "bss_at w b = Some bss" using owned_bss [OF assms(1)] calm_bss [OF assms(3), of b] by fastforce
  show ?thesis
  proof (cases "st_acct_session_started s")
    case True
    then show ?thesis using s b assms(3) by (simp add: accounting_sta_start_def with_bss_def with_sta_def)
  next
    case False
    define f where "f = (\<lambda>s. s\<lparr>st_acct_session_start := ev_clock ev, st_last_rx_bytes := 0, st_last_tx_bytes := 0,
      st_acct_input_gigawords := 0, st_acct_output_gigawords := 0\<rparr> :: station)"
    define w1 where "w1 = say (Drv_sta_clear_stats b (sta_addr s)) (put_sta a f w)"
    have c1: "calm w0 w1" unfolding w1_def using assms by (intro calm_rules) (simp_all add: keeps_table_def f_def)
    define i where "i = (if st_acct_interim_interval s \<noteq> 0 then st_acct_interim_interval s else ACCT_DEFAULT_UPDATE_INTERVAL)"
    have e: "accounting_sta_start ev b a w =
      (if \<not> sc_acct_server (bs_conf bss) then w1
       else put_sta a (\<lambda>s. s\<lparr>st_acct_session_started := True\<rparr>)
         (if ev_account_start ev then say (Radius_account_start b (sta_addr s)) (register_timer ev Accounting_interim_update i 0 b a w1)
          else register_timer ev Accounting_interim_update i 0 b a w1))"
      using s b False by (simp add: accounting_sta_start_def with_bss_def with_sta_def w1_def f_def i_def Let_def)
    define g where "g = (\<lambda>s. s\<lparr>st_acct_session_started := True\<rparr> :: station)"
    have started: "calm w0 (put_sta a g (register_timer ev Accounting_interim_update i 0 b a w'))" if c: "calm w0 w'" for w'
    proof -
      have l: "live w' a" using calm_live [OF c] assms(2) by simp
      then obtain s' where s': "w_sta w' a = Some s'" by (auto simp: live_iff)
      have e: "put_sta a g (register_timer ev Accounting_interim_update i 0 b a w')
          = register_timer ev Accounting_interim_update i 0 b a (put_sta a g w')"
        by (simp add: put_sta_def with_sta_def register_timer_def s' split: prod.split)
      have "calm w' (put_sta a g w')"
        using heap_upd [of w' a s' "g s'"] s' by (auto simp: put_sta_def with_sta_def calm_def accounts_ok_def g_def)
      then have "calm w0 (put_sta a g w')" by (rule calm_trans [OF c])
      then show ?thesis unfolding e
        by (rule started_register_calm [OF assms(1)]) (simp add: put_sta_def with_sta_def s' g_def)
    qed
    have swap: "put_sta a g (say x w') = say x (put_sta a g w')" for x w'
      by (simp add: put_sta_def with_sta_def say_def set_fault_def split: option.split)
    show ?thesis unfolding e using c1 started [OF c1] by (simp add: swap [unfolded g_def] say_calm g_def)
  qed
qed

lemma account_stop_calm [calm_rules]:
  assumes "owned w0 b a" and "live w0 a" and "calm w0 w" and "tables_ok w0"
  shows "calm w0 (accounting_sta_stop ev b a w)"
proof -
  define w1 where "w1 = cancel_timer Accounting_interim_update b a (accounting_sta_report ev True b a w)"
  have c1: "calm w0 w1" unfolding w1_def using assms owned_bss [OF assms(1)] by (intro calm_rules)
  obtain s where s: "w_sta w1 a = Some s" using assms(2) calm_live [OF c1] by (auto simp: live_iff)
  define g where "g = (\<lambda>s. s\<lparr>st_acct_session_started := False\<rparr> :: station)"
  have gone: "(Accounting_interim_update, b', a) \<notin> eloop_pending (w_timers w1)" if "timers_live w1" for b'
  proof
    assume p: "(Accounting_interim_update, b', a) \<in> eloop_pending (w_timers w1)"
    then have "owned w1 b' a" using that by (auto simp: timers_live_def)
    then have "b' = b" using assms(1,4) calm_owned [OF c1] by (auto simp: tables_ok_def)
    then show False using p by (simp add: w1_def cancel_pending)
  qed
  have c2: "calm w1 (put_sta a g w1)"
    using heap_upd [of w1 a s "g s"] s gone by (auto simp: put_sta_def with_sta_def calm_def accounts_ok_def g_def)
  obtain s0 where s0: "w_sta w a = Some s0" using assms(2) calm_live [OF assms(3)] by (auto simp: live_iff)
  show ?thesis
    using calm_trans [OF c1 c2] assms(3) by (simp add: accounting_sta_stop_def with_sta_def s0 w1_def g_def)
qed

unbundle bit_operations_syntax

lemma keeps_flag_and [keeps_rules]:
  "keeps_table (\<lambda>s. set_flags f (s\<lparr>st_disassoc_reason := r\<rparr>))" "keeps_table (\<lambda>s. set_flags f (s\<lparr>st_deauth_reason := r\<rparr>))"
  "keeps_table (\<lambda>s. s\<lparr>st_acct_terminate_cause := c\<rparr>)" "keeps_table (\<lambda>s. s\<lparr>st_vlan_id := v\<rparr>)" "keeps_table (\<lambda>s. s\<lparr>st_eapol_sm := e\<rparr>)"
  "keeps_table (\<lambda>s. s\<lparr>st_connected_time := t\<rparr>)"
  by (simp_all add: keeps_table_def set_flags_def)

lemma remove_calm [calm_rules]: "live w0 a \<Longrightarrow> calm w0 w \<Longrightarrow> calm w0 (ap_sta_remove ev b a w)"
  unfolding ap_sta_remove_def by (intro calm_rules)

lemma cb_timeout_calm [calm_rules]:
  assumes "live w0 a" and "calm w0 w"
  shows "calm w0 (ap_sta_disassoc_cb_timeout ev b a w)" "calm w0 (ap_sta_deauth_cb_timeout ev b a w)"
  unfolding ap_sta_disassoc_cb_timeout_def ap_sta_deauth_cb_timeout_def using assms by (intro calm_rules; simp)+

lemma cb_calm [calm_rules]:
  assumes "live w0 a" and "calm w0 w"
  shows "calm w0 (ap_sta_deauth_cb ev b a w)" "calm w0 (ap_sta_disassoc_cb ev b a w)"
  unfolding ap_sta_deauth_cb_def ap_sta_disassoc_cb_def using assms by (intro calm_rules keeps_rules; simp)+

lemma disassociate_calm [calm_rules]:
  assumes "owned w0 b a" and "live w0 a" and "tables_ok w0" and "calm w0 w"
  shows "calm w0 (ap_sta_disassociate ev reason b a w)" "calm w0 (ap_sta_deauthenticate ev reason b a w)"
    "calm w0 (disconnect_sta ev reason b a w)"
  unfolding ap_sta_disassociate_def ap_sta_deauthenticate_def disconnect_sta_def Let_def
  using assms by (intro calm_rules keeps_rules; simp)+

lemma tables_live: "tables_ok w \<Longrightarrow> owned w b a \<Longrightarrow> live w a"
  by (fastforce simp: tables_ok_def owned_def list_ok_def live_def)

lemma find_sta_found:
  assumes "\<forall>a \<in> set as. \<exists>s. heap a = Some s"
  shows "find_sta heap addr as = Inr (find (\<lambda>a. addr_at heap a = Some addr) as)"
  using assms by (induction as) (auto simp: addr_at_def)

lemma hash_members:
  assumes "list_ok heap bss" and "hash_ok heap bss" and "a \<in> set (bs_hash bss h)"
  shows "\<exists>s. heap a = Some s" "a \<in> set (bs_list bss)"
  using assms by (auto simp: list_ok_def hash_ok_def addr_at_def)

lemma table_get_sta_iff:
  assumes "list_ok heap bss" and "hash_ok heap bss"
  shows "table_get_sta bss heap addr = Inr (find (\<lambda>a. addr_at heap a = Some addr) (bs_list bss))"
proof -
  let ?p = "\<lambda>a. addr_at heap a = Some addr" and ?h = "bs_hash bss (STA_HASH addr)"
  have f: "table_get_sta bss heap addr = Inr (find ?p ?h)"
    unfolding table_get_sta_def by (rule find_sta_found) (use hash_members(1) [OF assms] in blast)
  have same: "{a \<in> set ?h. ?p a} = {a \<in> set (bs_list bss). ?p a}"
  proof -
    have "set ?h = {a \<in> set (bs_list bss). map_option STA_HASH (addr_at heap a) = Some (STA_HASH addr)}"
      using assms(2) unfolding hash_ok_def by blast
    then show ?thesis by auto
  qed
  have one: "a = a'" if "a \<in> set (bs_list bss)" "a' \<in> set (bs_list bss)" "?p a" "?p a'" for a a'
  proof -
    have "inj_on (addr_at heap) (set (bs_list bss))" using assms(1) by (simp add: list_ok_def)
    then show ?thesis by (rule inj_onD) (use that in simp_all)
  qed
  have "find ?p ?h = find ?p (bs_list bss)"
  proof (cases "find ?p ?h")
    case None
    then have "\<forall>a \<in> set (bs_list bss). \<not> ?p a" using same by (auto simp: find_None_iff)
    then have "find ?p (bs_list bss) = None" by (simp add: find_None_iff)
    then show ?thesis using None by simp
  next
    case (Some a)
    then have a: "a \<in> set ?h" "?p a" by (auto simp: find_Some_iff)
    then have "a \<in> set (bs_list bss)" using same by auto
    then obtain a' where a': "find ?p (bs_list bss) = Some a'" using a(2) by (cases "find ?p (bs_list bss)") (auto simp: find_None_iff)
    then have "a' \<in> set (bs_list bss)" "?p a'" by (auto simp: find_Some_iff)
    then show ?thesis using one [OF \<open>a \<in> set (bs_list bss)\<close>, of a'] a(2) Some a' by simp
  qed
  then show ?thesis using f by simp
qed

lemma found_calm [calm_rules]:
  assumes "tables_ok w0" and "bss_at w0 b \<noteq> None" and "calm w0 w" and "calm w0 (f None w)"
    and "\<And>a. owned w0 b a \<Longrightarrow> live w0 a \<Longrightarrow> calm w0 (f (Some a) w)"
  shows "calm w0 (with_found b addr f w)"
proof -
  obtain bss' where b': "bss_at w b = Some bss'" using assms(2) calm_bss [OF assms(3), of b] by fastforce
  obtain bss where b: "bss_at w0 b = Some bss" "table_of bss' = table_of bss"
    using assms(2,3) b' by (cases "bss_at w0 b") (auto simp: calm_def split: option.split_asm dest: spec [of _ b])
  have t: "list_ok (w_sta w0) bss" "hash_ok (w_sta w0) bss" using assms(1) b(1) by (auto simp: tables_ok_def)
  have "bs_hash bss' = bs_hash bss" using b(2) by (simp add: table_of_def)
  moreover have "find_sta (w_sta w) addr as = find_sta (w_sta w0) addr as" for as
  proof -
    have "addr_at (w_sta w) = addr_at (w_sta w0)" using assms(3) by (simp add: calm_def)
    then have "map_option sta_addr (w_sta w a) = map_option sta_addr (w_sta w0 a)" for a by (simp add: addr_at_def fun_eq_iff)
    note e = this
    show ?thesis
    proof (induction as)
      case (Cons a as)
      then show ?case using e [of a] by (cases "w_sta w a"; cases "w_sta w0 a") auto
    qed simp
  qed
  ultimately have "table_get_sta bss' (w_sta w) addr = Inr (find (\<lambda>a. addr_at (w_sta w0) a = Some addr) (bs_list bss))"
    using table_get_sta_iff [OF t, of addr] by (simp add: table_get_sta_def)
  then have e: "with_found b addr f w = f (find (\<lambda>a. addr_at (w_sta w0) a = Some addr) (bs_list bss)) w"
    by (simp add: with_found_def with_bss_def b')
  show ?thesis
  proof (cases "find (\<lambda>a. addr_at (w_sta w0) a = Some addr) (bs_list bss)")
    case None
    then show ?thesis using assms(4) by (simp add: e)
  next
    case (Some a)
    then have "owned w0 b a" using b(1) by (auto simp: find_Some_iff owned_def)
    then show ?thesis using assms(5) tables_live [OF assms(1)] by (simp add: e Some)
  qed
qed

lemma disconnect_calm [calm_rules]:
  assumes "tables_ok w0" and "calm w0 w" and "owned w0 b a" and "live w0 a"
  shows "calm w0 (ap_sta_disconnect ev reason addr b (Some a) w)"
  unfolding ap_sta_disconnect_def Let_def using assms by (cases addr) (auto intro!: calm_rules)

lemma fold_calm:
  assumes "calm w0 w" and "\<And>w i. calm w0 w \<Longrightarrow> i \<in> set is \<Longrightarrow> calm w0 (f w i)"
  shows "calm w0 (foldl f w is)"
  using assms by (induction "is" arbitrary: w) auto

lemma other_bss_calm [calm_rules]:
  assumes "tables_ok w0" and "calm w0 w" and "live w0 a"
  shows "calm w0 (ap_sta_remove_in_other_bss ev b a w)"
  unfolding ap_sta_remove_in_other_bss_def
proof (rule fold_calm [OF assms(2)])
  fix w i
  assume c: "calm w0 w"
  show "calm w0 (if i = b \<or> bss_at w i = None then w
    else with_sta a (\<lambda>s. with_found i (sta_addr s) (\<lambda>r w. case r of None \<Rightarrow> w
      | Some a2 \<Rightarrow> with_sta a2 (\<lambda>s2. ap_sta_disconnect ev WLAN_REASON_PREV_AUTH_NOT_VALID (Some (sta_addr s2)) i (Some a2)) w)) w)"
    using calm_bss [OF c, of i] by (intro calm_rules c assms) (auto intro!: calm_rules c assms)
qed

lemma prune_calm [calm_rules]:
  assumes "tables_ok w0" and "calm w0 w" and "\<forall>i < length (w_bss w0). bss_at w0 i \<noteq> None"
  shows "calm w0 (hostapd_prune_associations ev addr b w)"
  unfolding hostapd_prune_associations_def
proof (rule fold_calm [OF assms(2)])
  fix w' i
  assume c: "calm w0 w'" and "i \<in> set [0..<length (w_bss w)]"
  then have "bss_at w0 i \<noteq> None" using assms(2,3) by (simp add: calm_def)
  then show "calm w0 (if i = b then w'
      else with_found i addr (\<lambda>r. case r of None \<Rightarrow> id | Some a \<Rightarrow> ap_sta_disassociate ev WLAN_REASON_UNSPECIFIED i a) w')"
    by (auto intro!: calm_rules c assms)
qed

unbundle bit_operations_syntax

lemma overflow_calm [calm_rules]: "calm w0 w \<Longrightarrow> calm w0 (set_fault Int_overflow w)"
  by (erule calm_trans) (auto simp: calm_def set_fault_def accounts_ok_def)

lemma check_sa_query_calm [calm_rules]:
  assumes "bss_at w0 b \<noteq> None" and "live w0 a" and "calm w0 w"
  shows "calm w0 (snd (ap_check_sa_query_timeout ev b a w))"
proof -
  obtain bss s where w: "bss_at w b = Some bss" "w_sta w a = Some s"
    using assms calm_bss [OF assms(3), of b] calm_live [OF assms(3), of a] by (auto simp: live_iff)
  have o: "x = Int_overflow" if "elapsed_tu t = Inl x" for t x
    using that by (auto simp: elapsed_tu_def Let_def split: if_split_asm)
  have u: "calm w0 (cancel_timer Ap_sa_query_timer b a (put_sta a (\<lambda>s. sa_query_stopped (s\<lparr>st_sa_query_timed_out := True\<rparr>)) w))"
    using assms by (intro calm_rules) (simp_all add: keeps_table_def sa_query_stopped_def)
  show ?thesis using u overflow_calm [OF assms(3)] assms(3)
    by (auto simp: ap_check_sa_query_timeout_def w dest!: o split: sum.split)
qed

lemma sa_query_attempt_calm [calm_rules]:
  assumes "owned w0 b a" and "live w0 a" and "calm w0 w"
  shows "calm w0 (sa_query_attempt ev b a w)"
proof -
  have k: "keeps_table (\<lambda>s. s\<lparr>st_sa_query_start := f s, st_sa_query_trans_id := g s\<rparr>)" for f g by (simp add: keeps_table_def)
  show ?thesis using owned_bss [OF assms(1)] assms
    unfolding sa_query_attempt_def ieee802_11_send_sa_query_req_def Let_def
    by (cases "ev_trans_id ev") (auto intro!: calm_rules k)
qed

lemma sa_query_calm [calm_rules]:
  assumes "owned w0 b a" and "live w0 a" and "calm w0 w"
  shows "calm w0 (ap_sa_query_timer ev b a w)" "calm w0 (ap_sta_start_sa_query ev b a w)" "calm w0 (ap_sta_stop_sa_query b a w)"
proof -
  note c = check_sa_query_calm [OF owned_bss [OF assms(1)] assms(2,3), of ev]
  have "calm w0 (let (timed_out, w) = ap_check_sa_query_timeout ev b a w in if timed_out then w else sa_query_attempt ev b a w)"
    using c sa_query_attempt_calm [OF assms(1,2) c] by (cases "ap_check_sa_query_timeout ev b a w") simp
  then show "calm w0 (ap_sa_query_timer ev b a w)"
    unfolding ap_sa_query_timer_def using assms sa_query_attempt_calm [OF assms] by (intro calm_rules) simp_all
  then show "calm w0 (ap_sta_start_sa_query ev b a w)" by (simp add: ap_sta_start_sa_query_def)
  show "calm w0 (ap_sta_stop_sa_query b a w)" unfolding ap_sta_stop_sa_query_def using assms by (intro calm_rules keeps_rules)
qed

lemma table_of_simps [simp]:
  "table_of (x\<lparr>bs_vlan := v\<rparr>) = table_of x"
  "table_of (x\<lparr>bs_acct_session_id_lo := l, bs_acct_session_id_hi := h\<rparr>) = table_of x"
  by (simp_all add: table_of_def)

lemma vlan_remove_calm [calm_rules]: "bss_at w0 b \<noteq> None \<Longrightarrow> calm w0 w \<Longrightarrow> calm w0 (vlan_remove_dynamic v b w)"
  unfolding vlan_remove_dynamic_def Let_def
  by (intro calm_rules; simp)

lemma bind_to_calm [calm_rules]:
  assumes "live w0 a" and "calm w0 w"
  shows "calm w0 (snd (bind_to ev n b a w))"
  using assms calm_live [OF assms(2), of a] by (auto simp: bind_to_def live_iff Let_def intro!: calm_rules)

lemma vlan_add_calm [calm_rules]:
  assumes "bss_at w0 b \<noteq> None" and "calm w0 w"
  shows "calm w0 (snd (vlan_add_dynamic ev v n b w))"
  using assms by (auto simp: vlan_add_dynamic_def Let_def intro!: calm_rules split: option.split)

lemma bind_vlan_calm [calm_rules]:
  assumes "bss_at w0 b \<noteq> None" and "live w0 a" and "calm w0 w"
  shows "calm w0 (snd (ap_sta_bind_vlan ev old b a w))"
proof -
  obtain s where s: "w_sta w a = Some s" using assms calm_live [OF assms(3), of a] by (auto simp: live_iff)
  define w1 where "w1 = (if old > 0 then vlan_remove_dynamic old b w else w)"
  have c1: "calm w0 w1" unfolding w1_def using assms by (intro calm_rules)
  obtain bss where b: "bss_at w1 b = Some bss" using assms(1) calm_bss [OF c1, of b] by auto
  have add: "calm w0 (case vlan_add_dynamic ev v n b w1 of (None, w) \<Rightarrow> w | (Some n, w) \<Rightarrow> w)" for v n
    using vlan_add_calm [OF assms(1) c1, of ev v n] by (auto split: prod.split option.split)
  have wild: "calm w0 (snd (case vlan_add_dynamic ev v n b w1 of (None, w) \<Rightarrow> (- 1, w)
      | (Some n, w) \<Rightarrow> bind_to ev n b a (say (Vlan_setup_encryption b n) w)))" for v n
    using vlan_add_calm [OF assms(1) c1, of ev v n] assms(2)
    by (auto intro!: calm_rules split: prod.split option.split)
  show ?thesis
    using assms c1 wild
    by (auto simp: ap_sta_bind_vlan_def s w1_def [symmetric] b Let_def intro!: calm_rules keeps_rules split: option.split)
qed

lemma new_station_1x_calm [calm_rules]:
  assumes "bss_at w0 b \<noteq> None" and "live w0 a" and "calm w0 w"
  shows "calm w0 (ieee802_1x_new_station ev b a w)"
  unfolding ieee802_1x_new_station_def using assms by (intro calm_rules keeps_rules)

lemma new_assoc_calm [calm_rules]:
  assumes "owned w0 b a" and "tables_ok w0" and "calm w0 w" and "\<forall>i < length (w_bss w0). bss_at w0 i \<noteq> None"
  shows "calm w0 (hostapd_new_assoc_sta ev reassoc b a w)"
  unfolding hostapd_new_assoc_sta_def Let_def
  using assms owned_bss [OF assms(1)] tables_live [OF assms(2,1)]
  by (intro calm_rules keeps_rules; simp)

lemma flags_to_drv_calm [calm_rules]:
  "bss_at w0 b \<noteq> None \<Longrightarrow> live w0 a \<Longrightarrow> calm w0 w \<Longrightarrow> calm w0 (hostapd_set_sta_flags b a w)"
  unfolding hostapd_set_sta_flags_def Let_def by (intro calm_rules)

unbundle bit_operations_syntax

section \<open>Removing a station\<close>

lemma dom_addr: "dom heap = {a. addr_at heap a \<noteq> None}"
  by (auto simp: addr_at_def)

lemma list_del_live: "\<forall>x \<in> set xs. \<exists>s. heap x = Some s \<Longrightarrow> list_del heap a xs = Inr (remove1 a xs)"
  by (induction xs) auto

lemma hash_del_live:
  assumes "\<forall>x \<in> set xs. \<exists>s. heap x = Some s" and "inj_on (addr_at heap) (set xs)" and "heap a = Some s" and "a \<in> set xs"
  shows "hash_del heap (sta_addr s) xs = Inr (remove1 a xs)"
  using assms
proof (induction xs)
  case (Cons x xs)
  obtain t where t: "heap x = Some t" using Cons.prems(1) by auto
  show ?case
  proof (cases "x = a")
    case True
    then show ?thesis using Cons.prems(3) by simp
  next
    case False
    then have "addr_at heap x \<noteq> addr_at heap a" using Cons.prems(2,4) by (auto simp: inj_on_def)
    then have "sta_addr t \<noteq> sta_addr s" using t Cons.prems(3) by (simp add: addr_at_def)
    then show ?thesis using False t Cons by simp
  qed
qed simp

lemma aid_bit_clear:
  assumes "n div 32 < length ws"
  shows "aid_bit (clear_aid n ws) m \<longleftrightarrow> aid_bit ws m \<and> m \<noteq> n"
proof (cases "m div 32 = n div 32")
  case True
  then have "m mod 32 = n mod 32 \<longleftrightarrow> m = n" by (metis div_mult_mod_eq)
  then show ?thesis using assms True by (auto simp: aid_bit_def clear_aid_def bit_simps)
next
  case False
  then show ?thesis by (auto simp: aid_bit_def clear_aid_def)
qed

lemma aid_bit_set:
  assumes "i < length ws" and "j < 32"
  shows "aid_bit (ws[i := ws ! i OR push_bit j 1]) m \<longleftrightarrow> aid_bit ws m \<or> m = i * 32 + j"
proof (cases "m div 32 = i")
  case True
  then have m: "m = i * 32 + m mod 32" by (metis div_mult_mod_eq mult.commute)
  then have "m = i * 32 + j \<longleftrightarrow> m mod 32 = j" by arith
  then show ?thesis using assms True by (auto simp: aid_bit_def bit_simps)
next
  case False
  then have "m \<noteq> i * 32 + j" using assms(2) by auto
  then show ?thesis using False by (simp add: aid_bit_def)
qed

lemma removed_bss_ok:
  assumes l: "list_ok heap bss" "hash_ok heap bss" "aids_ok heap bss" and a: "a \<in> set (bs_list bss)" and s: "heap a = Some s"
    and addr: "addr_at heap' = (addr_at heap)(a := None)" and aid: "aid_at heap' = (aid_at heap)(a := 0)"
    and t: "bs_list bss' = remove1 a (bs_list bss)" "bs_num_sta bss' = bs_num_sta bss - 1"
      "bs_hash bss' = (bs_hash bss)(STA_HASH (sta_addr s) := remove1 a (bs_hash bss (STA_HASH (sta_addr s))))"
      "bs_aid bss' = (if st_aid s = 0 then bs_aid bss else clear_aid (unat (st_aid s) - 1) (bs_aid bss))"
  shows "list_ok heap' bss' \<and> hash_ok heap' bss' \<and> aids_ok heap' bss'"
proof (intro conjI)
  have d: "distinct (bs_list bss)" using l(1) by (simp add: list_ok_def)
  then have set: "set (bs_list bss') = set (bs_list bss) - {a}" by (simp add: t(1))
  show "list_ok heap' bss'"
  proof -
    have len: "length (bs_list bss') + 1 = length (bs_list bss)" using a length_pos_if_in_set [OF a] by (simp add: t(1) length_remove1)
    have "inj_on (addr_at heap') (set (bs_list bss'))"
    proof (rule inj_onI)
      fix x y
      assume "x \<in> set (bs_list bss')" "y \<in> set (bs_list bss')" "addr_at heap' x = addr_at heap' y"
      then show "x = y" using l(1) set addr by (auto simp: list_ok_def inj_on_def)
    qed
    then show ?thesis using l(1) d len set t(2) addr by (auto simp: list_ok_def t(1))
  qed
  show "hash_ok heap' bss'"
    unfolding hash_ok_def
  proof (intro allI conjI)
    fix h
    have old: "distinct (bs_hash bss h)" "set (bs_hash bss h) = {x \<in> set (bs_list bss). map_option STA_HASH (addr_at heap x) = Some h}"
      using l(2) unfolding hash_ok_def by blast+
    show "distinct (bs_hash bss' h)" using old(1) by (auto simp: t(3))
    have "set (bs_hash bss' h) = set (bs_hash bss h) - {a}"
    proof (cases "h = STA_HASH (sta_addr s)")
      case True
      then show ?thesis using old(1) by (simp add: t(3))
    next
      case False
      then have "a \<notin> set (bs_hash bss h)" unfolding old(2) by (simp add: addr_at_def s)
      then show ?thesis using False by (simp add: t(3))
    qed
    then show "set (bs_hash bss' h) = {x \<in> set (bs_list bss'). map_option STA_HASH (addr_at heap' x) = Some h}"
      using old(2) set by (auto simp: addr)
  qed
  show "aids_ok heap' bss'"
  proof -
    have s': "aid_at heap a = unat (st_aid s)" by (simp add: aid_at_def s)
    have le: "\<forall>x \<in> set (bs_list bss). aid_at heap x \<le> 2007" and len: "length (bs_aid bss) = 63"
      and bits: "\<And>n. n < 63 * 32 \<Longrightarrow> aid_bit (bs_aid bss) n \<longleftrightarrow> (\<exists>x \<in> set (bs_list bss). aid_at heap x = n + 1)"
      and one: "\<forall>x \<in> set (bs_list bss). \<forall>y \<in> set (bs_list bss). aid_at heap x = aid_at heap y \<longrightarrow> aid_at heap x = 0 \<or> x = y"
      using l(3) unfolding aids_ok_def by blast+
    have zero: "st_aid s = 0 \<longleftrightarrow> unat (st_aid s) = 0" by (simp add: unat_eq_zero)
    have bit: "aid_bit (bs_aid bss') n \<longleftrightarrow> (\<exists>x \<in> set (bs_list bss'). aid_at heap' x = n + 1)" if n: "n < 63 * 32" for n
    proof (cases "st_aid s = 0")
      case True
      then show ?thesis using bits [OF n] s' zero set by (auto simp: t(4) aid)
    next
      case False
      then have z: "unat (st_aid s) > 0" "unat (st_aid s) \<le> 2007" using zero le a s' by auto
      then have "(unat (st_aid s) - 1) div 32 < length (bs_aid bss)" by (simp add: len div_less_iff_less_mult)
      from aid_bit_clear [OF this, of n]
      have "aid_bit (bs_aid bss') n \<longleftrightarrow> (\<exists>x \<in> set (bs_list bss). aid_at heap x = n + 1) \<and> n \<noteq> unat (st_aid s) - 1"
        using False bits [OF n] by (simp add: t(4))
      also have "\<dots> \<longleftrightarrow> (\<exists>x \<in> set (bs_list bss'). aid_at heap' x = n + 1)"
      proof (cases "n + 1 = unat (st_aid s)")
        case True
        have "aid_at heap x \<noteq> n + 1" if "x \<in> set (bs_list bss)" "x \<noteq> a" for x
        proof
          assume "aid_at heap x = n + 1"
          then have "aid_at heap x = aid_at heap a" using True s' by simp
          then show False using one that a True s' by fastforce
        qed
        then show ?thesis using True set by (auto simp: aid)
      next
        case False
        then have "aid_at heap a \<noteq> n + 1" "n \<noteq> unat (st_aid s) - 1" using s' z(1) by auto
        then show ?thesis using set by (auto simp: aid)
      qed
      finally show ?thesis .
    qed
    have "length (bs_aid bss') = 63" by (simp add: t(4) len clear_aid_def)
    then show ?thesis using bit le one set by (auto simp: aids_ok_def aid)
  qed
qed


definition removed_from :: "nat \<Rightarrow> station \<Rightarrow> sta_bss \<Rightarrow> sta_bss \<Rightarrow> bool" where
  \<comment> \<open>how the tables of a BSS change when a station is freed\<close>
  "removed_from a s bss bss' \<longleftrightarrow>
     bs_list bss' = remove1 a (bs_list bss) \<and> bs_num_sta bss' = bs_num_sta bss - 1
     \<and> bs_hash bss' = (bs_hash bss)(STA_HASH (sta_addr s) := remove1 a (bs_hash bss (STA_HASH (sta_addr s))))
     \<and> bs_aid bss' = (if st_aid s = 0 then bs_aid bss else clear_aid (unat (st_aid s) - 1) (bs_aid bss))"

lemma removal_ok:
  assumes ok: "world_ok w" and o: "owned w b a" and b: "bss_at w b = Some bss" and s: "w_sta w a = Some s"
    and addr: "addr_at (w_sta w') = (addr_at (w_sta w))(a := None)" and aid: "aid_at (w_sta w') = (aid_at (w_sta w))(a := 0)"
    and cnt: "counted_at (w_sta w') = (counted_at (w_sta w))(a := \<lambda>c. False)"
    and b': "bss_at w' b = Some bss'" and rem: "removed_from a s bss bss'"
    and other: "\<And>i. i \<noteq> b \<Longrightarrow> map_option table_of (bss_at w' i) = map_option table_of (bss_at w i)"
    and mode: "if_current_mode (w_iface w') = if_current_mode (w_iface w)"
    and counter: "\<And>c. counter_of c w' = counter_of c w - (if st_counted s c then 1 else 0)"
    and f: "w_fault w' \<in> {w_fault w, Some Int_overflow}"
    and p: "eloop_pending (w_timers w') \<subseteq> eloop_pending (w_timers w) - {t. fst (snd t) = b \<and> snd (snd t) = a}"
    and acc: "accounts_ok w'"
  shows "world_ok w'"
proof -
  have a: "a \<in> set (bs_list bss)" using o b by (auto simp: owned_def)
  have tables: "tables_ok w" and cok: "counters_ok w" and tl: "timers_live w" using ok by (simp_all add: world_ok_def)
  have l: "list_ok (w_sta w) bss" "hash_ok (w_sta w) bss" "aids_ok (w_sta w) bss" using tables b by (auto simp: tables_ok_def)
  have own: "owned w' i x \<longleftrightarrow> owned w i x \<and> x \<noteq> a" for i x
  proof (cases "i = b")
    case True
    have "set (bs_list bss') = set (bs_list bss) - {a}" using rem l(1) by (simp add: removed_from_def list_ok_def)
    then show ?thesis using True b b' by (auto simp: owned_def)
  next
    case False
    then have "owned w' i x \<longleftrightarrow> owned w i x" by (intro owned_table other)
    moreover have "owned w i a \<Longrightarrow> i = b" using tables o by (auto simp: tables_ok_def)
    ultimately show ?thesis using False by auto
  qed
  have bss_ok: "list_ok (w_sta w') x \<and> hash_ok (w_sta w') x \<and> aids_ok (w_sta w') x" if x: "bss_at w' i = Some x" for i x
  proof (cases "i = b")
    case True
    then have "x = bss'" using x b' by simp
    then show ?thesis using removed_bss_ok [OF l a s addr aid] rem by (simp add: removed_from_def)
  next
    case False
    obtain y where y: "bss_at w i = Some y" "table_of y = table_of x"
      using other [OF False] x by (cases "bss_at w i") auto
    have ly: "list_ok (w_sta w) y \<and> hash_ok (w_sta w) y \<and> aids_ok (w_sta w) y" using tables y(1) by (simp add: tables_ok_def)
    have na: "a \<notin> set (bs_list y)" using own [of i a] False tables o y(1) by (auto simp: owned_def tables_ok_def)
    have same: "addr_at (w_sta w') z = addr_at (w_sta w) z" "aid_at (w_sta w') z = aid_at (w_sta w) z" if "z \<in> set (bs_list y)" for z
      using that na by (auto simp: addr aid)
    have fields: "bs_list x = bs_list y" "bs_hash x = bs_hash y" "bs_num_sta x = bs_num_sta y" "bs_aid x = bs_aid y"
      using y(2) by (simp_all add: table_of_def)
    have "list_ok (w_sta w') x" using ly same unfolding list_ok_def fields inj_on_def by simp
    moreover have "hash_ok (w_sta w') x" 
    proof -
      have "{z \<in> set (bs_list y). map_option STA_HASH (addr_at (w_sta w') z) = Some h}
          = {z \<in> set (bs_list y). map_option STA_HASH (addr_at (w_sta w) z) = Some h}" for h
        using same(1) by (intro Collect_cong) auto
      then show ?thesis using ly unfolding hash_ok_def fields by presburger
    qed
    moreover have "aids_ok (w_sta w') x" using ly same unfolding aids_ok_def fields by simp
    ultimately show ?thesis by simp
  qed
  show ?thesis
    unfolding world_ok_def
  proof (intro conjI)
    show "no_bad_access w'" using ok f by (auto simp: world_ok_def no_bad_access_def)
    show "if_current_mode (w_iface w') \<noteq> None" using ok mode by (simp add: world_ok_def)
    show "tables_ok w'" using tables bss_ok by (auto simp: tables_ok_def own addr)
    show "timers_live w'" using tl p tables o unfolding timers_live_def own tables_ok_def by fastforce
    show "accounts_ok w'" by (rule acc)
    show "counters_ok w'"
      unfolding counters_ok_def
    proof (intro conjI allI)
      have "dom (w_sta w') = dom (w_sta w) - {a}" by (auto simp: dom_addr addr)
      then show fin: "finite (dom (w_sta w'))" using cok by (simp add: counters_ok_def)
      fix c
      have e: "{x. counted_at (w_sta w') x c} = {x. counted_at (w_sta w) x c} - {a}" using cnt by auto
      have "{x. counted_at (w_sta w) x c} \<subseteq> dom (w_sta w)" by (auto simp: counted_at_def split: option.split_asm)
      then have f: "finite {x. counted_at (w_sta w) x c}" using cok finite_subset by (auto simp: counters_ok_def)
      have "counted_at (w_sta w) a c = st_counted s c" by (simp add: counted_at_def s)
      then have "int (card {x. counted_at (w_sta w') x c}) = int (card {x. counted_at (w_sta w) x c}) - (if st_counted s c then 1 else 0)"
        using card_Suc_Diff1 [OF f, of a] by (auto simp: e)
      then show "counter_of c w' = int (card {x. counted_at (w_sta w') x c})"
        using cok by (simp add: counter counters_ok_def)
    qed
  qed
qed

unbundle bit_operations_syntax

definition uncounted_in :: "sta_counter set \<Rightarrow> nat \<Rightarrow> station \<Rightarrow> ap_world \<Rightarrow> ap_world \<Rightarrow> bool" where
  \<comment> \<open>the station is no longer counted in some of the counters\<close>
  "uncounted_in C a s w w' \<longleftrightarrow>
     w_sta w' = (w_sta w)(a \<mapsto> s\<lparr>st_counted := (\<lambda>c. st_counted s c \<and> c \<notin> C)\<rparr>)
     \<and> (\<forall>c. counter_of c w' = counter_of c w - (if c \<in> C \<and> st_counted s c then 1 else 0))
     \<and> w_bss w' = w_bss w \<and> w_timers w' = w_timers w \<and> w_fault w' = w_fault w
     \<and> if_current_mode (w_iface w') = if_current_mode (w_iface w)"

lemma counter_add: "counter_of c' (add_counter c n w) = counter_of c' w + (if c' = c then n else 0)"
  by (cases c; cases c') simp_all

lemma add_counter_fields [simp]:
  "w_sta (add_counter c n w) = w_sta w" "w_bss (add_counter c n w) = w_bss w" "w_timers (add_counter c n w) = w_timers w"
  "w_fault (add_counter c n w) = w_fault w" "if_current_mode (w_iface (add_counter c n w)) = if_current_mode (w_iface w)"
  by (cases c; simp)+

lemma counter_upd_heap [simp]: "counter_of c (w\<lparr>w_sta := h\<rparr>) = counter_of c w"
  by (cases c) simp_all

lemma uncount_step:
  assumes "uncounted_in C a s w w'"
  shows "uncounted_in (insert c C) a s w (uncount_sta c a w')"
proof -
  have h: "w_sta w' a = Some (s\<lparr>st_counted := (\<lambda>c. st_counted s c \<and> c \<notin> C)\<rparr>)" using assms by (simp add: uncounted_in_def)
  show ?thesis
  proof (cases "st_counted s c \<and> c \<notin> C")
    case True
    have "(\<lambda>d. st_counted s d \<and> d \<notin> C)(c := False) = (\<lambda>d. st_counted s d \<and> d \<notin> insert c C)" by (auto simp: fun_eq_iff)
    then show ?thesis using assms True h
      by (auto simp: uncounted_in_def uncount_sta_def with_sta_def put_sta_def counter_add)
  next
    case False
    then have "(\<lambda>d. st_counted s d \<and> d \<notin> C) = (\<lambda>d. st_counted s d \<and> d \<notin> insert c C)" by auto
    then show ?thesis using assms False h by (auto simp: uncounted_in_def uncount_sta_def with_sta_def)
  qed
qed

lemma uncounted_same:
  assumes "uncounted_in C a s w w'" and "\<not> (st_counted s c \<and> c \<notin> C)"
  shows "uncounted_in (insert c C) a s w w'"
proof -
  have "(\<lambda>d. st_counted s d \<and> d \<notin> C) = (\<lambda>d. st_counted s d \<and> d \<notin> insert c C)" using assms(2) by auto
  then show ?thesis using assms by (auto simp: uncounted_in_def)
qed

lemma uncounted_heap: "uncounted_in C a s w w' \<Longrightarrow> w_sta w' a = Some (s\<lparr>st_counted := (\<lambda>c. st_counted s c \<and> c \<notin> C)\<rparr>)"
  by (simp add: uncounted_in_def)

lemma uncount_11g_step:
  assumes "uncounted_in C a s w (snd p)" and "if_current_mode (w_iface w) \<noteq> None"
  shows "uncounted_in (insert c C) a s w (snd (uncount_11g c a p))"
proof -
  obtain x w' where p: "p = (x, w')" by fastforce
  note u = assms(1) [unfolded p snd_conv]
  have mode: "if_current_mode (w_iface (uncount_sta c a w')) \<noteq> None"
    using uncount_step [OF u, of c] assms(2) by (simp add: uncounted_in_def)
  show ?thesis
    using uncount_step [OF u, of c] uncounted_same [OF u, of c] mode
    by (auto simp: p uncount_11g_def uncounted_heap [OF u] Let_def split: option.split)
qed

lemma free_counters:
  assumes "w_sta w a = Some s" and "if_current_mode (w_iface w) \<noteq> None"
  shows "uncounted_in UNIV a s w (ap_free_counters a w)"
proof -
  have "(w_sta w)(a \<mapsto> s) = w_sta w" using assms(1) by auto
  then have u0: "uncounted_in {} a s w w" by (simp add: uncounted_in_def)
  have u1: "uncounted_in {Non_erp} a s w (snd (uncount_non_erp a w))"
    using uncount_step [OF u0, of Non_erp] uncounted_same [OF u0, of Non_erp]
    by (simp add: uncount_non_erp_def assms(1) Let_def)
  note u3 = uncount_11g_step [OF uncount_11g_step [OF u1 assms(2), of No_short_slot_time] assms(2), of No_short_preamble]
  note u6 = uncount_step [OF uncount_step [OF uncount_step [OF u3, of Ht_no_gf], of No_ht], of Ht_20mhz]
  have all: "insert Ht_20mhz (insert No_ht (insert Ht_no_gf (insert No_short_preamble (insert No_short_slot_time {Non_erp})))) = UNIV"
  proof -
    have "c \<in> {Ht_20mhz, No_ht, Ht_no_gf, No_short_preamble, No_short_slot_time, Non_erp}" for c by (cases c) simp_all
    then show ?thesis by auto
  qed
  have out: "uncounted_in C a s w w' \<Longrightarrow> uncounted_in C a s w (say x w')" for C w' x
  proof -
    have "counter_of c (say x w') = counter_of c w'" for c by (cases c) (simp_all add: say_def)
    then show "uncounted_in C a s w w' \<Longrightarrow> ?thesis" by (simp add: uncounted_in_def) (simp add: say_def)
  qed
  show ?thesis using u6 [unfolded all] out [OF u6 [unfolded all]]
    by (auto simp: ap_free_counters_def Let_def split: prod.split)
qed

lemma tables_removed:
  assumes ok: "world_ok w" and o: "owned w b a" and b: "bss_at w b = Some bss" and s: "w_sta w a = Some s"
  shows "\<exists>bss'. upd_bss b (\<lambda>bss. bss\<lparr>bs_num_sta := bs_num_sta bss - 1\<rparr>)
      (ap_sta_release_aid b a (ap_sta_list_del b a (ap_sta_hash_del b a w))) = w\<lparr>w_bss := (w_bss w)[b := Some bss']\<rparr>
    \<and> removed_from a s bss bss'"
proof -
  have len: "b < length (w_bss w)" using b by (auto simp: bss_at_def split: if_split_asm)
  have get: "bss_at (w\<lparr>w_bss := (w_bss w)[b := Some x]\<rparr>) b = Some x" for x using len by (simp add: bss_at_def)
  have put: "upd_bss b f (w\<lparr>w_bss := (w_bss w)[b := Some x]\<rparr>) = w\<lparr>w_bss := (w_bss w)[b := Some (f x)]\<rparr>" for f x
    using get [of x] by (simp add: upd_bss_def with_bss_def)
  have put0: "upd_bss b f w = w\<lparr>w_bss := (w_bss w)[b := Some (f bss)]\<rparr>" for f using b by (simp add: upd_bss_def with_bss_def)
  have t: "list_ok (w_sta w) bss" "hash_ok (w_sta w) bss" "aids_ok (w_sta w) bss"
    using ok b by (auto simp: world_ok_def tables_ok_def)
  have a: "a \<in> set (bs_list bss)" using o b by (auto simp: owned_def)
  let ?h = "STA_HASH (sta_addr s)"
  have bucket: "set (bs_hash bss ?h) = {x \<in> set (bs_list bss). map_option STA_HASH (addr_at (w_sta w) x) = Some ?h}"
    using t(2) unfolding hash_ok_def by blast
  have "hash_del (w_sta w) (sta_addr s) (bs_hash bss ?h) = Inr (remove1 a (bs_hash bss ?h))"
  proof (rule hash_del_live)
    show "\<forall>x \<in> set (bs_hash bss ?h). \<exists>s. w_sta w x = Some s" using hash_members(1) [OF t(1,2)] by blast
    have "inj_on (addr_at (w_sta w)) (set (bs_list bss))" using t(1) by (simp add: list_ok_def)
    then show "inj_on (addr_at (w_sta w)) (set (bs_hash bss ?h))" by (rule inj_on_subset) (simp add: bucket)
    show "w_sta w a = Some s" by (rule s)
    show "a \<in> set (bs_hash bss ?h)" unfolding bucket using a s by (simp add: addr_at_def)
  qed
  then have h: "ap_sta_hash_del b a w
      = w\<lparr>w_bss := (w_bss w)[b := Some (bss\<lparr>bs_hash := (bs_hash bss)(?h := remove1 a (bs_hash bss ?h))\<rparr>)]\<rparr>"
    by (simp add: ap_sta_hash_del_def with_sta_def s with_bss_def b Let_def put0)
  have "\<forall>x \<in> set (bs_list bss). \<exists>s. w_sta w x = Some s" using t(1) by (auto simp: list_ok_def addr_at_def)
  then have l: "ap_sta_list_del b a (w\<lparr>w_bss := (w_bss w)[b := Some x]\<rparr>) = w\<lparr>w_bss := (w_bss w)[b := Some (x\<lparr>bs_list := remove1 a (bs_list x)\<rparr>)]\<rparr>"
    if "bs_list x = bs_list bss" for x
    using that by (simp add: ap_sta_list_del_def with_bss_def get put list_del_live)
  have aid: "ap_sta_release_aid b a (w\<lparr>w_bss := (w_bss w)[b := Some x]\<rparr>)
      = w\<lparr>w_bss := (w_bss w)[b := Some (x\<lparr>bs_aid := if st_aid s = 0 then bs_aid x else clear_aid (unat (st_aid s) - 1) (bs_aid x)\<rparr>)]\<rparr>"
    if x: "bs_aid x = bs_aid bss" for x
  proof (cases "st_aid s = 0")
    case True
    have "x = x\<lparr>bs_aid := bs_aid x\<rparr>" by simp
    then show ?thesis using True by (simp add: ap_sta_release_aid_def with_sta_def s with_bss_def get)
  next
    case False
    have "unat (st_aid s) \<le> 2007" using t(3) a s by (force simp: aids_ok_def aid_at_def)
    moreover have "unat (st_aid s) > 0" using False by (simp add: unat_gt_0)
    ultimately have "(unat (st_aid s) - 1) div 32 < length (bs_aid x)"
      using t(3) x by (simp add: aids_ok_def div_less_iff_less_mult)
    then show ?thesis using False by (simp add: ap_sta_release_aid_def with_sta_def s with_bss_def get put Let_def)
  qed
  define x1 where "x1 = bss\<lparr>bs_hash := (bs_hash bss)(?h := remove1 a (bs_hash bss ?h))\<rparr>"
  define x2 where "x2 = x1\<lparr>bs_list := remove1 a (bs_list x1)\<rparr>"
  define x3 where "x3 = x2\<lparr>bs_aid := if st_aid s = 0 then bs_aid x2 else clear_aid (unat (st_aid s) - 1) (bs_aid x2)\<rparr>"
  define x4 where "x4 = x3\<lparr>bs_num_sta := bs_num_sta x3 - 1\<rparr>"
  have l1: "bs_list x1 = bs_list bss" and a2: "bs_aid x2 = bs_aid bss" by (simp_all add: x1_def x2_def)
  have "upd_bss b (\<lambda>bss. bss\<lparr>bs_num_sta := bs_num_sta bss - 1\<rparr>)
      (ap_sta_release_aid b a (ap_sta_list_del b a (ap_sta_hash_del b a w))) = w\<lparr>w_bss := (w_bss w)[b := Some x4]\<rparr>"
    unfolding h x1_def [symmetric] l [OF l1] x2_def [symmetric] aid [OF a2] x3_def [symmetric] put x4_def [symmetric] ..
  moreover have "bs_list x4 = remove1 a (bs_list bss)" "bs_num_sta x4 = bs_num_sta bss - 1"
    "bs_hash x4 = (bs_hash bss)(?h := remove1 a (bs_hash bss ?h))"
    "bs_aid x4 = (if st_aid s = 0 then bs_aid bss else clear_aid (unat (st_aid s) - 1) (bs_aid bss))"
    by (simp_all add: x4_def x3_def x2_def x1_def)
  ultimately show ?thesis unfolding removed_from_def by blast
qed

unbundle bit_operations_syntax

lemma say_fields [simp]:
  "w_sta (say x w) = w_sta w" "w_bss (say x w) = w_bss w" "w_timers (say x w) = w_timers w" "w_fault (say x w) = w_fault w"
  "w_iface (say x w) = w_iface w" "w_ht_counter (say x w) = w_ht_counter w" "bss_at (say x w) b = bss_at w b"
  "w_ap_teardown (say x w) = w_ap_teardown w"
  by (simp_all add: say_def)

lemma put_sta_at: "w_sta w a = Some s \<Longrightarrow> put_sta a f w = w\<lparr>w_sta := (w_sta w)(a \<mapsto> f s)\<rparr>"
  by (simp add: put_sta_def with_sta_def)

lemma with_sta_at: "w_sta w a = Some s \<Longrightarrow> with_sta a f w = f s w"
  by (simp add: with_sta_def)

lemma with_bss_at: "bss_at w b = Some x \<Longrightarrow> with_bss b f w = f x w"
  by (simp add: with_bss_def)

text \<open>The last part of \<open>ap_free_sta\<close> changes nothing but the station and the timers.\<close>

definition free_tail :: "nat \<Rightarrow> nat \<Rightarrow> ap_world \<Rightarrow> ap_world" where
  "free_tail b a w =
     (let w = say (Rsn_preauth_free a) (with_sta a (\<lambda>s. if st_wpa_sm s then say (Wpa_sta_deinit a) else id)
                (ieee802_1x_free_station a w));
          w = with_sta a (\<lambda>s. with_bss b (\<lambda>bss. if sc_radius (bs_conf bss) then say (Radius_flush b (sta_addr s)) else id)) w;
          w = cancel_timer Ap_sa_query_timer b a w
      in w\<lparr>w_sta := (w_sta w)(a := None)\<rparr>)"

definition free_head :: "sta_env \<Rightarrow> nat \<Rightarrow> nat \<Rightarrow> ap_world \<Rightarrow> ap_world" where
  "free_head ev b a w =
     (let w = ap_sta_set_authorized False b a (accounting_sta_stop ev b a w);
          w = with_sta a (\<lambda>s w. if has_flag s WLAN_STA_WDS then say (Drv_set_wds_sta b (sta_addr s) (st_aid s) False) w else w) w
      in with_sta a (\<lambda>s w. if \<not> w_ap_teardown w \<and> \<not> has_flag s WLAN_STA_PREAUTH
                         then say (Drv_sta_remove b (sta_addr s)) w else w) w)"

lemma ap_free_sta_parts:
  "ap_free_sta ev b a w = free_tail b a (cancel_sta_timers b a (ap_free_counters a
     (upd_bss b (\<lambda>bss. bss\<lparr>bs_num_sta := bs_num_sta bss - 1\<rparr>)
       (ap_sta_release_aid b a (ap_sta_list_del b a (ap_sta_hash_del b a (free_head ev b a w)))))))"
  unfolding ap_free_sta_def free_tail_def free_head_def Let_def ..

lemma free_tail_fields:
  assumes "w_sta w a = Some s" and "bss_at w b = Some bss"
  shows "w_sta (free_tail b a w) = (w_sta w)(a := None)" "w_bss (free_tail b a w) = w_bss w"
    "w_iface (free_tail b a w) = w_iface w" "w_ht_counter (free_tail b a w) = w_ht_counter w" "w_fault (free_tail b a w) = w_fault w"
    "w_timers (free_tail b a w) = w_timers (cancel_timer Ap_sa_query_timer b a w)"
proof -
  define w1 where "w1 = w\<lparr>w_sta := (w_sta w)(a \<mapsto> s\<lparr>st_eapol_sm := False\<rparr>)\<rparr>"
  have e: "free_tail b a w = (let w = cancel_timer Ap_sa_query_timer b a
      ((if sc_radius (bs_conf bss) then say (Radius_flush b (sta_addr s)) else id)
        (say (Rsn_preauth_free a) ((if st_wpa_sm s then say (Wpa_sta_deinit a) else id) w1))) in w\<lparr>w_sta := (w_sta w)(a := None)\<rparr>)"
    using assms by (simp add: free_tail_def ieee802_1x_free_station_def put_sta_at w1_def [symmetric])
      (simp add: w1_def with_sta_at with_bss_at)
  have t: "w_timers (cancel_timer h b a w') = w_timers (cancel_timer h b a w)" if "w_timers w' = w_timers w" for w' h
    using that by (simp add: cancel_timer_def)
  show "w_sta (free_tail b a w) = (w_sta w)(a := None)" "w_bss (free_tail b a w) = w_bss w"
    "w_iface (free_tail b a w) = w_iface w" "w_ht_counter (free_tail b a w) = w_ht_counter w" "w_fault (free_tail b a w) = w_fault w"
    "w_timers (free_tail b a w) = w_timers (cancel_timer Ap_sa_query_timer b a w)"
    by (auto simp: e w1_def Let_def intro!: t)
qed

lemma cancel_sta_fields:
  "w_sta (cancel_sta_timers b a w) = w_sta w" "w_bss (cancel_sta_timers b a w) = w_bss w" "w_iface (cancel_sta_timers b a w) = w_iface w"
  "w_ht_counter (cancel_sta_timers b a w) = w_ht_counter w" "w_fault (cancel_sta_timers b a w) = w_fault w"
  "eloop_pending (w_timers (cancel_sta_timers b a w)) = eloop_pending (w_timers w)
     - {Ap_handle_timer, Ap_handle_session_timer, Ap_handle_session_warning_timer, Ap_sta_deauth_cb_timeout, Ap_sta_disassoc_cb_timeout} \<times> {(b, a)}"
  by (auto simp: cancel_sta_timers_def cancel_pending)

lemma free_head_calm: "owned w0 b a \<Longrightarrow> live w0 a \<Longrightarrow> calm w0 w \<Longrightarrow> tables_ok w0 \<Longrightarrow> calm w0 (free_head ev b a w)"
  unfolding free_head_def Let_def by (intro calm_rules)

lemma free_head_stops:
  assumes "owned w b a" and "live w a" and "tables_ok w"
  shows "\<exists>s. w_sta (free_head ev b a w) a = Some s \<and> \<not> st_acct_session_started s"
proof -
  obtain s where s: "w_sta w a = Some s" using assms(2) by (auto simp: live_iff)
  have "\<exists>s. w_sta (accounting_sta_stop ev b a w) a = Some s \<and> \<not> st_acct_session_started s"
  proof (cases "st_acct_session_started s")
    case True
    have "calm w (accounting_sta_report ev True b a w)" using assms owned_bss [OF assms(1)] by (intro report_calm) simp_all
    then obtain s' where "w_sta (accounting_sta_report ev True b a w) a = Some s'"
      using assms(2) calm_live [of w _ a] by (auto simp: live_iff)
    then show ?thesis using True s by (simp add: accounting_sta_stop_def with_sta_at put_sta_at)
  next
    case False
    then show ?thesis using s by (simp add: accounting_sta_stop_def with_sta_at)
  qed
  then obtain s1 where s1: "w_sta (accounting_sta_stop ev b a w) a = Some s1" "\<not> st_acct_session_started s1" by blast
  then have "\<exists>s. w_sta (ap_sta_set_authorized False b a (accounting_sta_stop ev b a w)) a = Some s \<and> \<not> st_acct_session_started s"
    by (simp add: ap_sta_set_authorized_def with_sta_at put_sta_at clear_flags_def)
  then show ?thesis by (auto simp: free_head_def Let_def with_sta_at)
qed

lemma free_sta_ok:
  assumes ok: "world_ok w" and o: "owned w b a"
  shows "world_ok (ap_free_sta ev b a w)" "owned (ap_free_sta ev b a w) i x \<longleftrightarrow> owned w i x \<and> x \<noteq> a"
proof -
  have l: "live w a" and t: "tables_ok w" using ok o by (auto simp: world_ok_def intro: tables_live)
  define w1 where "w1 = free_head ev b a w"
  have c: "calm w w1" unfolding w1_def by (rule free_head_calm [OF o l calm_refl t])
  have ok1: "world_ok w1" and o1: "owned w1 b a" using calm_ok [OF ok c] calm_owned [OF c] o by simp_all
  have m: "if_current_mode (w_iface w1) \<noteq> None" and acc: "accounts_ok w1" and tl: "timers_live w1" and t1: "tables_ok w1"
    using ok1 by (simp_all add: world_ok_def)
  obtain s where s: "w_sta w1 a = Some s" "\<not> st_acct_session_started s" using free_head_stops [OF o l t] by (auto simp: w1_def)
  obtain bss where b: "bss_at w1 b = Some bss" using o1 by (auto simp: owned_def)
  then have len: "b < length (w_bss w1)" by (auto simp: bss_at_def split: if_split_asm)
  obtain bss' where w2: "upd_bss b (\<lambda>bss. bss\<lparr>bs_num_sta := bs_num_sta bss - 1\<rparr>)
      (ap_sta_release_aid b a (ap_sta_list_del b a (ap_sta_hash_del b a w1))) = w1\<lparr>w_bss := (w_bss w1)[b := Some bss']\<rparr>"
    and rem: "removed_from a s bss bss'" using tables_removed [OF ok1 o1 b s(1)] by blast
  define w2 where "w2 = w1\<lparr>w_bss := (w_bss w1)[b := Some bss']\<rparr>"
  define w3 where "w3 = cancel_sta_timers b a (ap_free_counters a w2)"
  have u: "uncounted_in UNIV a s w2 (ap_free_counters a w2)" using s m by (intro free_counters) (simp_all add: w2_def)
  define w' where "w' = free_tail b a w3"
  have w': "ap_free_sta ev b a w = w'" unfolding ap_free_sta_parts w1_def [symmetric] w2 w2_def [symmetric] w3_def [symmetric] w'_def ..
  have h3: "w_sta w3 = (w_sta w1)(a \<mapsto> s\<lparr>st_counted := (\<lambda>c. False)\<rparr>)" and b3: "w_bss w3 = (w_bss w1)[b := Some bss']"
    using u by (simp_all add: w3_def cancel_sta_fields uncounted_in_def w2_def)
  have at3: "bss_at w3 i = (if i = b then Some bss' else bss_at w1 i)" for i
    using len by (auto simp: bss_at_def b3)
  have s3: "w_sta w3 a = Some (s\<lparr>st_counted := (\<lambda>c. False)\<rparr>)" using h3 by simp
  have b3': "bss_at w3 b = Some bss'" using at3 by simp
  note tail = free_tail_fields [OF s3 b3', folded w'_def]
  have at': "bss_at w' i = (if i = b then Some bss' else bss_at w1 i)" for i
  proof -
    have "bss_at w' i = bss_at w3 i" by (simp add: bss_at_def tail(2))
    then show ?thesis by (simp add: at3)
  qed
  have heap: "w_sta w' = (w_sta w1)(a := None)" using tail(1) h3 by simp
  have pend: "eloop_pending (w_timers w') = eloop_pending (w_timers w1)
      - {Ap_handle_timer, Ap_handle_session_timer, Ap_handle_session_warning_timer, Ap_sta_deauth_cb_timeout, Ap_sta_disassoc_cb_timeout,
         Ap_sa_query_timer} \<times> {(b, a)}"
    using u tail(6) by (auto simp: cancel_pending w3_def cancel_sta_fields uncounted_in_def w2_def)
  have none: "(Accounting_interim_update, b, a) \<notin> eloop_pending (w_timers w1)" using acc s unfolding accounts_ok_def by fastforce
  have gone: "eloop_pending (w_timers w') \<subseteq> eloop_pending (w_timers w1) - {t. fst (snd t) = b \<and> snd (snd t) = a}"
  proof
    fix t
    assume t: "t \<in> eloop_pending (w_timers w')"
    obtain h i x where e: "t = (h, i, x)" by (cases t)
    have "\<not> (i = b \<and> x = a)" using t none by (cases h) (auto simp: pend e)
    then show "t \<in> eloop_pending (w_timers w1) - {t. fst (snd t) = b \<and> snd (snd t) = a}" using t by (simp add: pend e)
  qed
  have iface: "if_current_mode (w_iface w') = if_current_mode (w_iface w1)"
    using u tail(3) by (simp add: w3_def cancel_sta_fields uncounted_in_def w2_def)
  have cnt: "counter_of k w' = counter_of k w1 - (if st_counted s k then 1 else 0)" for k
  proof -
    have "counter_of k w' = counter_of k w3" using tail(3,4) by (cases k) simp_all
    also have "\<dots> = counter_of k (ap_free_counters a w2)" unfolding w3_def using cancel_sta_fields by (cases k) simp_all
    also have "\<dots> = counter_of k w2 - (if st_counted s k then 1 else 0)" using u by (simp add: uncounted_in_def)
    also have "counter_of k w2 = counter_of k w1" by (cases k) (simp_all add: w2_def)
    finally show ?thesis .
  qed
  have "world_ok w'"
  proof (rule removal_ok [OF ok1 o1 b s(1)])
    show "addr_at (w_sta w') = (addr_at (w_sta w1))(a := None)" "aid_at (w_sta w') = (aid_at (w_sta w1))(a := 0)"
      "counted_at (w_sta w') = (counted_at (w_sta w1))(a := \<lambda>c. False)"
      by (auto simp: heap addr_at_def aid_at_def counted_at_def fun_eq_iff)
    show "bss_at w' b = Some bss'" by (simp add: at')
    show "removed_from a s bss bss'" by (rule rem)
    show "map_option table_of (bss_at w' i) = map_option table_of (bss_at w1 i)" if "i \<noteq> b" for i using that by (simp add: at')
    show "if_current_mode (w_iface w') = if_current_mode (w_iface w1)" by (rule iface)
    show "w_fault w' \<in> {w_fault w1, Some Int_overflow}"
      using u tail(5) by (simp add: w3_def cancel_sta_fields uncounted_in_def w2_def)
    show "accounts_ok w'"
      unfolding accounts_ok_def
    proof (intro allI impI)
      fix i x
      assume p: "(Accounting_interim_update, i, x) \<in> eloop_pending (w_timers w')"
      then have p1: "(Accounting_interim_update, i, x) \<in> eloop_pending (w_timers w1)" by (simp add: pend)
      then obtain s' where "w_sta w1 x = Some s'" "st_acct_session_started s'" using acc unfolding accounts_ok_def by blast
      moreover have "x \<noteq> a" using s calculation by auto
      ultimately show "\<exists>s. w_sta w' x = Some s \<and> st_acct_session_started s" by (simp add: heap)
    qed
  qed (rule cnt gone)+
  then show "world_ok (ap_free_sta ev b a w)" by (simp add: w')
  have "set (bs_list bss') = set (bs_list bss) - {a}"
    using rem t1 b by (auto simp: removed_from_def tables_ok_def list_ok_def)
  then have "owned w' i x \<longleftrightarrow> owned w1 i x \<and> x \<noteq> a"
    using b t1 o1 by (auto simp: owned_def at' tables_ok_def)
  then show "owned (ap_free_sta ev b a w) i x \<longleftrightarrow> owned w i x \<and> x \<noteq> a" using calm_owned [OF c] by (simp add: w')
qed

unbundle bit_operations_syntax

end
