(* ===== verification/Sta_Table.thy ===== *)
theory Sta_Table
  imports Sta_Inv
begin

text \<open>
  What the operations that change the tables do to the invariant: adding and removing stations,
  giving AIDs, counting; the steps of the table and the properties of its reachable states.
\<close>

unbundle bit_operations_syntax

section \<open>Removing and adding\<close>

lemma free_stas_loop_ok:
  "world_ok w \<Longrightarrow> distinct as \<Longrightarrow> \<forall>a \<in> set as. owned w b a \<Longrightarrow> world_ok (free_stas_loop ev b as w)
    \<and> (\<forall>i x. owned (free_stas_loop ev b as w) i x \<longleftrightarrow> owned w i x \<and> x \<notin> set as)"
proof (induction as arbitrary: w)
  case (Cons a as)
  have o: "owned w b a" and t: "tables_ok w" using Cons.prems by (auto simp: world_ok_def)
  define w1 where "w1 = with_sta a (\<lambda>s. if has_flag s WLAN_STA_AUTH then mlme_deauthenticate_indication a WLAN_REASON_UNSPECIFIED else id) w"
  have c: "calm w w1" unfolding w1_def using tables_live [OF t o] by (intro calm_rules) simp_all
  have ok1: "world_ok w1" and o1: "owned w1 b a" using calm_ok [OF Cons.prems(1) c] calm_owned [OF c] o by simp_all
  note f = free_sta_ok [OF ok1 o1, of ev]
  have own: "owned (ap_free_sta ev b a w1) i x \<longleftrightarrow> owned w i x \<and> x \<noteq> a" for i x using f(2) calm_owned [OF c] by simp
  have "world_ok (free_stas_loop ev b as (ap_free_sta ev b a w1))
      \<and> (\<forall>i x. owned (free_stas_loop ev b as (ap_free_sta ev b a w1)) i x \<longleftrightarrow> owned (ap_free_sta ev b a w1) i x \<and> x \<notin> set as)"
    using Cons.prems own by (intro Cons.IH f(1)) auto
  then show ?case using own by (auto simp: w1_def [symmetric])
qed simp

lemma free_stas_ok:
  assumes ok: "world_ok w" and b: "bss_at w b = Some bss"
  shows "world_ok (hostapd_free_stas ev b w)" "owned (hostapd_free_stas ev b w) i x \<longleftrightarrow> owned w i x \<and> i \<noteq> b"
proof -
  have t: "tables_ok w" using ok by (simp add: world_ok_def)
  have d: "distinct (bs_list bss)" and o: "\<forall>a \<in> set (bs_list bss). owned w b a"
    using t b by (auto simp: tables_ok_def list_ok_def owned_def)
  have e: "hostapd_free_stas ev b w = free_stas_loop ev b (bs_list bss) w" by (simp add: hostapd_free_stas_def with_bss_at [OF b])
  note l = free_stas_loop_ok [OF ok d o, of ev]
  show "world_ok (hostapd_free_stas ev b w)" using l by (simp add: e)
  have "x \<in> set (bs_list bss) \<longleftrightarrow> owned w b x" for x using b by (auto simp: owned_def)
  then show "owned (hostapd_free_stas ev b w) i x \<longleftrightarrow> owned w i x \<and> i \<noteq> b"
    using l t by (auto simp: e tables_ok_def)
qed

definition inserted_to :: "nat \<Rightarrow> byte list \<Rightarrow> sta_bss \<Rightarrow> sta_bss \<Rightarrow> bool" where
  "inserted_to a addr bss bss' \<longleftrightarrow>
     bs_list bss' = a # bs_list bss \<and> bs_num_sta bss' = bs_num_sta bss + 1
     \<and> bs_hash bss' = (bs_hash bss)(STA_HASH addr := a # bs_hash bss (STA_HASH addr)) \<and> bs_aid bss' = bs_aid bss"

lemma inserted_bss_ok:
  assumes l: "list_ok heap bss" "hash_ok heap bss" "aids_ok heap bss" and new: "addr_at heap a = None" and len: "length addr = 6"
    and addr: "addr_at heap' = (addr_at heap)(a \<mapsto> addr)" and aid: "aid_at heap' = (aid_at heap)(a := 0)"
    and free: "\<forall>x \<in> set (bs_list bss). addr_at heap x \<noteq> Some addr" and t: "inserted_to a addr bss bss'"
  shows "list_ok heap' bss' \<and> hash_ok heap' bss' \<and> aids_ok heap' bss'"
proof -
  have na: "a \<notin> set (bs_list bss)" using l(1) new by (auto simp: list_ok_def)
  have list: "set (bs_list bss') = insert a (set (bs_list bss))" using t by (simp add: inserted_to_def)
  have same: "addr_at heap' x = addr_at heap x" "aid_at heap' x = aid_at heap x" if "x \<in> set (bs_list bss)" for x
    using that na by (auto simp: addr aid)
  have "inj_on (addr_at heap') (set (bs_list bss'))"
  proof -
    have "inj_on (addr_at heap') (set (bs_list bss))"
      using l(1) same(1) inj_on_cong [of "set (bs_list bss)" "addr_at heap'" "addr_at heap"] by (simp add: list_ok_def)
    moreover have "addr_at heap' a \<notin> addr_at heap' ` (set (bs_list bss) - {a})" using free same(1) by (fastforce simp: addr)
    ultimately show ?thesis by (simp add: list)
  qed
  then have "list_ok heap' bss'" using l(1) t na len same(1) by (auto simp: list_ok_def inserted_to_def addr)
  moreover have "hash_ok heap' bss'"
    unfolding hash_ok_def
  proof (intro allI conjI)
    fix h
    have old: "distinct (bs_hash bss h)" "set (bs_hash bss h) = {x \<in> set (bs_list bss). map_option STA_HASH (addr_at heap x) = Some h}"
      using l(2) unfolding hash_ok_def by blast+
    have nb: "a \<notin> set (bs_hash bss h)" using old(2) na by simp
    show "distinct (bs_hash bss' h)" using old(1) nb t by (auto simp: inserted_to_def)
    have "set (bs_hash bss' h) = (if h = STA_HASH addr then insert a (set (bs_hash bss h)) else set (bs_hash bss h))"
      using t by (simp add: inserted_to_def)
    also have "\<dots> = {x \<in> set (bs_list bss'). map_option STA_HASH (addr_at heap' x) = Some h}"
      using na unfolding old(2) list by (auto simp: addr)
    finally show "set (bs_hash bss' h) = {x \<in> set (bs_list bss'). map_option STA_HASH (addr_at heap' x) = Some h}" .
  qed
  moreover have "aids_ok heap' bss'"
  proof -
    have le: "\<forall>x \<in> set (bs_list bss). aid_at heap x \<le> 2007" and len: "length (bs_aid bss) = 63"
      and bits: "\<And>n. n < 63 * 32 \<Longrightarrow> aid_bit (bs_aid bss) n \<longleftrightarrow> (\<exists>x \<in> set (bs_list bss). aid_at heap x = n + 1)"
      and one: "\<forall>x \<in> set (bs_list bss). \<forall>y \<in> set (bs_list bss). aid_at heap x = aid_at heap y \<longrightarrow> aid_at heap x = 0 \<or> x = y"
      using l(3) unfolding aids_ok_def by blast+
    have aida: "aid_at heap' a = 0" by (simp add: aid)
    have e: "bs_aid bss' = bs_aid bss" using t by (simp add: inserted_to_def)
    have "aid_bit (bs_aid bss') n \<longleftrightarrow> (\<exists>x \<in> set (bs_list bss'). aid_at heap' x = n + 1)" if "n < 63 * 32" for n
      using bits [OF that] same(2) by (simp add: e list aida)
    moreover have "aid_at heap' x = aid_at heap' y \<longrightarrow> aid_at heap' x = 0 \<or> x = y"
      if "x \<in> set (bs_list bss')" "y \<in> set (bs_list bss')" for x y
      using that one same(2) aida unfolding list by (metis insertE)
    ultimately show ?thesis using le len same(2) aida unfolding aids_ok_def by (simp add: e list)
  qed
  ultimately show ?thesis by blast
qed

lemma insertion_ok:
  assumes ok: "world_ok w" and b: "bss_at w b = Some bss" and new: "w_sta w a = None" and len: "length addr = 6"
    and free: "\<forall>x \<in> set (bs_list bss). addr_at (w_sta w) x \<noteq> Some addr"
    and heap: "w_sta w' = (w_sta w)(a \<mapsto> s)" and s: "sta_addr s = addr" "st_aid s = 0" "st_counted s = (\<lambda>c. False)"
    and b': "bss_at w' b = Some bss'" and ins: "inserted_to a addr bss bss'"
    and other: "\<And>i. i \<noteq> b \<Longrightarrow> bss_at w' i = bss_at w i"
    and iface: "w_iface w' = w_iface w" "w_ht_counter w' = w_ht_counter w" "w_fault w' = w_fault w"
    and p: "eloop_pending (w_timers w') \<subseteq> insert (Ap_handle_timer, b, a) (eloop_pending (w_timers w))"
  shows "world_ok w' \<and> (\<forall>i x. owned w' i x \<longleftrightarrow> owned w i x \<or> i = b \<and> x = a)"
proof -
  have tables: "tables_ok w" and cok: "counters_ok w" and tl: "timers_live w" and acc: "accounts_ok w" using ok by (simp_all add: world_ok_def)
  have l: "list_ok (w_sta w) bss" "hash_ok (w_sta w) bss" "aids_ok (w_sta w) bss" using tables b by (auto simp: tables_ok_def)
  have addr: "addr_at (w_sta w') = (addr_at (w_sta w))(a \<mapsto> addr)" and aid: "aid_at (w_sta w') = (aid_at (w_sta w))(a := 0)"
    and cnt: "counted_at (w_sta w') = counted_at (w_sta w)"
    using s new by (auto simp: heap addr_at_def aid_at_def counted_at_def fun_eq_iff)
  have own: "owned w' i x \<longleftrightarrow> owned w i x \<or> i = b \<and> x = a" for i x
    using b b' ins other [of i] by (cases "i = b") (auto simp: owned_def inserted_to_def)
  have na: "\<not> owned w i a" for i using tables_live [OF tables, of i a] new by (auto simp: live_def addr_at_def)
  have bss_ok: "list_ok (w_sta w') x \<and> hash_ok (w_sta w') x \<and> aids_ok (w_sta w') x" if x: "bss_at w' i = Some x" for i x
  proof (cases "i = b")
    case True
    then have "x = bss'" using x b' by simp
    moreover have "addr_at (w_sta w) a = None" by (simp add: addr_at_def new)
    ultimately show ?thesis using inserted_bss_ok [OF l _ len addr aid free ins] by simp
  next
    case False
    then have y: "bss_at w i = Some x" using other x by simp
    have ly: "list_ok (w_sta w) x \<and> hash_ok (w_sta w) x \<and> aids_ok (w_sta w) x" using tables y by (simp add: tables_ok_def)
    have "a \<notin> set (bs_list x)" using na [of i] y by (auto simp: owned_def)
    then have same: "addr_at (w_sta w') z = addr_at (w_sta w) z" "aid_at (w_sta w') z = aid_at (w_sta w) z" if "z \<in> set (bs_list x)" for z
      using that by (auto simp: addr aid)
    have "list_ok (w_sta w') x" using ly same unfolding list_ok_def inj_on_def by simp
    moreover have "hash_ok (w_sta w') x"
    proof -
      have "{z \<in> set (bs_list x). map_option STA_HASH (addr_at (w_sta w') z) = Some h}
          = {z \<in> set (bs_list x). map_option STA_HASH (addr_at (w_sta w) z) = Some h}" for h
        using same(1) by (intro Collect_cong) auto
      then show ?thesis using ly unfolding hash_ok_def by presburger
    qed
    moreover have "aids_ok (w_sta w') x" using ly same unfolding aids_ok_def by simp
    ultimately show ?thesis by simp
  qed
  have "world_ok w'"
    unfolding world_ok_def
  proof (intro conjI)
    show "no_bad_access w'" using ok iface by (simp add: world_ok_def no_bad_access_def)
    show "if_current_mode (w_iface w') \<noteq> None" using ok iface by (simp add: world_ok_def)
    show "tables_ok w'" using tables bss_ok na by (auto simp: tables_ok_def own addr)
    show "timers_live w'" using tl p unfolding timers_live_def own by blast
    show "accounts_ok w'"
      unfolding accounts_ok_def
    proof (intro allI impI)
      fix i x
      assume "(Accounting_interim_update, i, x) \<in> eloop_pending (w_timers w')"
      then have "(Accounting_interim_update, i, x) \<in> eloop_pending (w_timers w)" using p by auto
      then obtain s' where "w_sta w x = Some s'" "st_acct_session_started s'" using acc unfolding accounts_ok_def by blast
      then show "\<exists>s. w_sta w' x = Some s \<and> st_acct_session_started s" using new by (auto simp: heap)
    qed
    have "counter_of c w' = counter_of c w" for c using iface by (cases c) simp_all
    moreover have "finite (dom (w_sta w'))" using cok by (simp add: counters_ok_def heap)
    ultimately show "counters_ok w'" using cok by (simp add: counters_ok_def cnt)
  qed
  then show ?thesis using own by blast
qed

unbundle bit_operations_syntax

definition insert_core :: "sta_env \<Rightarrow> byte list \<Rightarrow> nat \<Rightarrow> sta_bss \<Rightarrow> nat \<Rightarrow> ap_world \<Rightarrow> ap_world" where
  \<comment> \<open>\<open>insert_sta\<close> before the other BSSs are looked through\<close>
  "insert_core ev addr b bss a w =
     (let w = w\<lparr>w_sta := (w_sta w)(a \<mapsto> zero_station\<lparr>st_acct_interim_interval := sc_acct_interim_interval (bs_conf bss)\<rparr>)\<rparr>;
          w = accounting_sta_get_id b a w;
          w = (if flag_set (if_drv_flags (w_iface w)) WPA_DRIVER_FLAGS_INACTIVITY_TIMER then w
               else register_timer ev Ap_handle_timer (word_of_int (bc_ap_max_inactivity (hd_conf (bs_hapd bss)))) 0 b a w);
          w = put_sta a (\<lambda>s. s\<lparr>sta_addr := addr\<rparr>) w;
          w = upd_bss b (\<lambda>bss. bss\<lparr>bs_list := a # bs_list bss, bs_num_sta := bs_num_sta bss + 1\<rparr>) w;
          w = ap_sta_hash_add b a w
      in put_sta a (\<lambda>s. s\<lparr>sta_ssid := bc_ssid (hd_conf (bs_hapd bss))\<rparr>) w)"

lemma insert_sta_core: "insert_sta ev addr b bss a w = ap_sta_remove_in_other_bss ev b a (insert_core ev addr b bss a w)"
  unfolding insert_sta_def insert_core_def Let_def ..

lemma upd_bss_at:
  assumes "bss_at w b = Some x"
  shows "upd_bss b f w = w\<lparr>w_bss := (w_bss w)[b := Some (f x)]\<rparr>"
  using assms by (simp add: upd_bss_def with_bss_def)

lemma bss_at_upd: "bss_at w b = Some x \<Longrightarrow> bss_at (upd_bss b f w) i = (if i = b then Some (f x) else bss_at w i)"
  by (auto simp: upd_bss_at) (auto simp: bss_at_def split: if_split_asm)

lemma upd_bss_fields [simp]:
  "w_sta (upd_bss b f w) = w_sta w" "w_timers (upd_bss b f w) = w_timers w" "w_iface (upd_bss b f w) = w_iface w"
  "w_ht_counter (upd_bss b f w) = w_ht_counter w"
  by (simp_all add: upd_bss_def with_bss_def set_fault_def split: option.split)

lemma upd_bss_fault: "bss_at w b \<noteq> None \<Longrightarrow> w_fault (upd_bss b f w) = w_fault w"
  by (auto simp: upd_bss_def with_bss_def)

lemma put_sta_fields [simp]:
  "w_bss (put_sta a f w) = w_bss w" "w_timers (put_sta a f w) = w_timers w" "w_iface (put_sta a f w) = w_iface w"
  "w_ht_counter (put_sta a f w) = w_ht_counter w" "bss_at (put_sta a f w) i = bss_at w i"
  by (simp_all add: put_sta_def with_sta_def set_fault_def split: option.split)

lemma put_sta_heap: "w_sta w a = Some s \<Longrightarrow> w_sta (put_sta a f w) = (w_sta w)(a \<mapsto> f s)"
  by (simp add: put_sta_at)

lemma put_sta_fault: "w_sta w a \<noteq> None \<Longrightarrow> w_fault (put_sta a f w) = w_fault w"
  by (auto simp: put_sta_at)

lemma insert_core_fields:
  assumes b: "bss_at w b = Some bss"
  shows "\<exists>s bss'. w_sta (insert_core ev addr b bss a w) = (w_sta w)(a \<mapsto> s) \<and> sta_addr s = addr \<and> st_aid s = 0
    \<and> st_counted s = (\<lambda>c. False) \<and> sta_flags s = 0 \<and> st_timeout_next s = STA_NULLFUNC
    \<and> bss_at (insert_core ev addr b bss a w) b = Some bss' \<and> inserted_to a addr bss bss'
    \<and> (\<forall>i. i \<noteq> b \<longrightarrow> bss_at (insert_core ev addr b bss a w) i = bss_at w i)
    \<and> w_iface (insert_core ev addr b bss a w) = w_iface w \<and> w_ht_counter (insert_core ev addr b bss a w) = w_ht_counter w
    \<and> w_fault (insert_core ev addr b bss a w) = w_fault w
    \<and> eloop_pending (w_timers (insert_core ev addr b bss a w)) \<subseteq> insert (Ap_handle_timer, b, a) (eloop_pending (w_timers w))"
proof -
  define z where "z = zero_station\<lparr>st_acct_interim_interval := sc_acct_interim_interval (bs_conf bss)\<rparr>"
  define w1 where "w1 = w\<lparr>w_sta := (w_sta w)(a \<mapsto> z)\<rparr>"
  define w2 where "w2 = accounting_sta_get_id b a w1"
  define w3 where "w3 = (if flag_set (if_drv_flags (w_iface w2)) WPA_DRIVER_FLAGS_INACTIVITY_TIMER then w2
    else register_timer ev Ap_handle_timer (word_of_int (bc_ap_max_inactivity (hd_conf (bs_hapd bss)))) 0 b a w2)"
  define w4 where "w4 = put_sta a (\<lambda>s. s\<lparr>sta_addr := addr\<rparr>) w3"
  define w5 where "w5 = upd_bss b (\<lambda>bss. bss\<lparr>bs_list := a # bs_list bss, bs_num_sta := bs_num_sta bss + 1\<rparr>) w4"
  define w6 where "w6 = ap_sta_hash_add b a w5"
  have core: "insert_core ev addr b bss a w = put_sta a (\<lambda>s. s\<lparr>sta_ssid := bc_ssid (hd_conf (bs_hapd bss))\<rparr>) w6"
    unfolding insert_core_def Let_def z_def [symmetric] w1_def [symmetric] w2_def [symmetric] w3_def [symmetric] w4_def [symmetric]
      w5_def [symmetric] w6_def [symmetric] ..
  have h1: "w_sta w1 a = Some z" and b1: "bss_at w1 b = Some bss" by (simp_all add: w1_def b)
  obtain s2 b2 where h2: "w_sta w2 = (w_sta w)(a \<mapsto> s2)" and s2: "st_aid s2 = 0" "st_counted s2 = (\<lambda>c. False)" "sta_flags s2 = 0" "st_timeout_next s2 = STA_NULLFUNC"
    and b2: "bss_at w2 b = Some b2" "table_of b2 = table_of bss" and o2: "\<And>i. i \<noteq> b \<Longrightarrow> bss_at w2 i = bss_at w i"
    and r2: "w_iface w2 = w_iface w" "w_ht_counter w2 = w_ht_counter w" "w_fault w2 = w_fault w" "w_timers w2 = w_timers w"
  proof -
    define hi where "hi = bs_acct_session_id_hi bss + (if bs_acct_session_id_lo bss + 1 = 0 then 1 else 0)"
    define f where "f = (\<lambda>s. s\<lparr>st_acct_session_id_lo := bs_acct_session_id_lo bss, st_acct_session_id_hi := hi\<rparr> :: station)"
    define g where "g = (\<lambda>x. x\<lparr>bs_acct_session_id_lo := bs_acct_session_id_lo bss + 1, bs_acct_session_id_hi := hi\<rparr> :: sta_bss)"
    have e: "w2 = put_sta a f (upd_bss b g w1)"
      unfolding w2_def accounting_sta_get_id_def with_bss_at [OF b1] Let_def f_def g_def hi_def ..
    have fault: "w_fault w2 = w_fault w" unfolding e by (simp add: put_sta_fault upd_bss_fault h1 b1) (simp add: w1_def)
    have heap: "w_sta w2 = (w_sta w)(a \<mapsto> f z)" by (simp add: e put_sta_heap h1) (simp add: w1_def)
    have at: "bss_at w2 i = (if i = b then Some (g bss) else bss_at w i)" for i
      using bss_at_upd [OF b1, of g i] by (simp add: e) (simp add: w1_def)
    have z: "st_aid (f z) = 0" "st_counted (f z) = (\<lambda>c. False)" "sta_flags (f z) = 0" "st_timeout_next (f z) = STA_NULLFUNC"
      by (simp_all add: f_def z_def zero_station_def)
    have t: "bss_at w2 b = Some (g bss)" "table_of (g bss) = table_of bss" by (simp_all add: at g_def)
    have r: "w_iface w2 = w_iface w" "w_ht_counter w2 = w_ht_counter w" "w_timers w2 = w_timers w" by (simp_all add: e w1_def)
    show ?thesis using that [OF heap z t _ r(1,2) fault r(3)] at by simp
  qed
  have h3: "w_sta w3 = (w_sta w)(a \<mapsto> s2)" and b3: "bss_at w3 b = Some b2" and o3: "\<And>i. i \<noteq> b \<Longrightarrow> bss_at w3 i = bss_at w i"
    and r3: "w_iface w3 = w_iface w" "w_ht_counter w3 = w_ht_counter w" "w_fault w3 = w_fault w"
    by (simp_all add: w3_def h2 b2 o2 r2)
  have p3: "eloop_pending (w_timers w3) \<subseteq> insert (Ap_handle_timer, b, a) (eloop_pending (w_timers w))"
    using register_pending [of ev Ap_handle_timer _ 0 b a w2] by (auto simp: w3_def r2)
  define s4 where "s4 = s2\<lparr>sta_addr := addr\<rparr>"
  have h4: "w_sta w4 = (w_sta w)(a \<mapsto> s4)" by (simp add: w4_def put_sta_def with_sta_def h3 s4_def)
  have f4: "w_fault w4 = w_fault w" unfolding w4_def by (simp add: put_sta_fault h3 r3)
  have b4: "bss_at w4 i = bss_at w3 i" for i by (simp add: w4_def)
  define b5 where "b5 = b2\<lparr>bs_list := a # bs_list b2, bs_num_sta := bs_num_sta b2 + 1\<rparr>"
  have at5: "bss_at w5 i = (if i = b then Some b5 else bss_at w i)" for i
    unfolding w5_def using bss_at_upd [of w4 b b2] by (simp add: b4 b3 o3 b5_def)
  have h5: "w_sta w5 a = Some s4" by (simp add: w5_def h4)
  have f5: "w_fault w5 = w_fault w" unfolding w5_def by (simp add: upd_bss_fault b4 b3 f4)
  define b6 where "b6 = b5\<lparr>bs_hash := (bs_hash b5)(STA_HASH addr := a # bs_hash b5 (STA_HASH addr))\<rparr>"
  have e6: "w6 = upd_bss b (\<lambda>x. x\<lparr>bs_hash := (bs_hash x)(STA_HASH addr := a # bs_hash x (STA_HASH addr))\<rparr>) w5"
    by (simp add: w6_def ap_sta_hash_add_def with_sta_at [OF h5] s4_def)
  have at6: "bss_at w6 i = (if i = b then Some b6 else bss_at w i)" for i
    unfolding e6 using bss_at_upd [of w5 b b5] by (simp add: at5 b6_def)
  have f6: "w_fault w6 = w_fault w" unfolding e6 by (simp add: upd_bss_fault at5 f5)
  have h6: "w_sta w6 = (w_sta w)(a \<mapsto> s4)" by (simp add: e6 w5_def h4)
  let ?c = "insert_core ev addr b bss a w"
  define s7 where "s7 = s4\<lparr>sta_ssid := bc_ssid (hd_conf (bs_hapd bss))\<rparr>"
  have "w_sta ?c = (w_sta w)(a \<mapsto> s7)" by (simp add: core put_sta_def with_sta_def h6 s7_def)
  moreover have "w_fault ?c = w_fault w" unfolding core by (simp add: put_sta_fault h6 f6)
  moreover have "w_iface ?c = w_iface w" "w_ht_counter ?c = w_ht_counter w" and t: "w_timers ?c = w_timers w3"
    by (simp_all add: core e6 w5_def w4_def r3)
  moreover have "bss_at ?c b = Some b6" "\<forall>i. i \<noteq> b \<longrightarrow> bss_at ?c i = bss_at w i" by (simp_all add: core at6)
  moreover have "inserted_to a addr bss b6"
    using b2(2) by (simp add: inserted_to_def b6_def b5_def table_of_def)
  moreover have "sta_addr s7 = addr" "st_aid s7 = 0" "st_counted s7 = (\<lambda>c. False)" "sta_flags s7 = 0" "st_timeout_next s7 = STA_NULLFUNC"
    using s2 by (simp_all add: s4_def s7_def)
  ultimately show ?thesis using p3 unfolding t [symmetric] by blast
qed

lemma sta_add_ok:
  assumes ok: "world_ok w" and b: "bss_at w b \<noteq> None" and len: "length addr = 6"
    and fresh: "\<And>a. ev_alloc ev = Some a \<Longrightarrow> w_sta w a = None"
  shows "world_ok (snd (ap_sta_add ev addr b w))
    \<and> (\<forall>i x. owned w i x \<longrightarrow> owned (snd (ap_sta_add ev addr b w)) i x)
    \<and> (\<forall>a. fst (ap_sta_add ev addr b w) = Some a \<longrightarrow> owned (snd (ap_sta_add ev addr b w)) b a
         \<and> addr_at (w_sta (snd (ap_sta_add ev addr b w))) a = Some addr)"
proof -
  obtain bss where bss: "bss_at w b = Some bss" using b by auto
  have t: "tables_ok w" and l: "list_ok (w_sta w) bss" "hash_ok (w_sta w) bss" using ok bss by (auto simp: world_ok_def tables_ok_def)
  define r where "r = find (\<lambda>a. addr_at (w_sta w) a = Some addr) (bs_list bss)"
  have get: "table_get_sta bss (w_sta w) addr = Inr r" unfolding r_def by (rule table_get_sta_iff [OF l])
  show ?thesis
  proof (cases r)
    case (Some a)
    then have "owned w b a" "addr_at (w_sta w) a = Some addr" using bss by (auto simp: r_def find_Some_iff owned_def)
    then show ?thesis using ok Some by (simp add: ap_sta_add_def bss get)
  next
    case None
    then have free: "\<forall>x \<in> set (bs_list bss). addr_at (w_sta w) x \<noteq> Some addr" by (auto simp: r_def find_None_iff)
    show ?thesis
    proof (cases "bs_num_sta bss \<ge> sc_max_num_sta (bs_conf bss) \<or> ev_alloc ev = None")
      case True
      then show ?thesis using ok None by (auto simp: ap_sta_add_def bss get split: option.split)
    next
      case False
      then obtain a where a: "ev_alloc ev = Some a" by auto
      have e: "ap_sta_add ev addr b w = (Some a, ap_sta_remove_in_other_bss ev b a (insert_core ev addr b bss a w))"
        using False a None by (simp add: ap_sta_add_def bss get insert_sta_core)
      define w1 where "w1 = insert_core ev addr b bss a w"
      obtain s bss' where f: "w_sta w1 = (w_sta w)(a \<mapsto> s)" "sta_addr s = addr" "st_aid s = 0" "st_counted s = (\<lambda>c. False)"
        "bss_at w1 b = Some bss'" "inserted_to a addr bss bss'" "\<And>i. i \<noteq> b \<Longrightarrow> bss_at w1 i = bss_at w i"
        "w_iface w1 = w_iface w" "w_ht_counter w1 = w_ht_counter w" "w_fault w1 = w_fault w"
        "eloop_pending (w_timers w1) \<subseteq> insert (Ap_handle_timer, b, a) (eloop_pending (w_timers w))"
        using insert_core_fields [OF bss, of ev addr a] unfolding w1_def by blast
      have ok1: "world_ok w1" and own: "\<And>i x. owned w1 i x \<longleftrightarrow> owned w i x \<or> i = b \<and> x = a"
        using insertion_ok [OF ok bss fresh [OF a] len free f] by simp_all
      have t1: "tables_ok w1" using ok1 by (simp add: world_ok_def)
      have c: "calm w1 (ap_sta_remove_in_other_bss ev b a w1)"
        by (rule other_bss_calm [OF t1 calm_refl]) (simp add: live_def addr_at_def f(1))
      have "addr_at (w_sta (ap_sta_remove_in_other_bss ev b a w1)) a = Some addr"
        using c f(1,2) by (simp add: calm_def) (simp add: addr_at_def)
      then show ?thesis using calm_ok [OF ok1 c] calm_owned [OF c] own by (simp add: e w1_def [symmetric])
    qed
  qed
qed

end
