(* ===== verification/Sta_Aid.thy ===== *)
theory Sta_Aid
  imports Sta_Table
begin

unbundle bit_operations_syntax

text \<open>
  The assignment of association identifiers (\<open>hostapd_get_aid\<close>): the search for the first clear bit
  of the bitmap, what it finds, and that the table stays consistent.
\<close>

section \<open>Association identifiers\<close>

lemma and_single_bit: "(x :: u32) AND push_bit j 1 = 0 \<longleftrightarrow> \<not> bit x j" if "j < 32" for x j
proof
  assume e: "x AND push_bit j 1 = 0"
  show "\<not> bit x j"
  proof
    assume "bit x j"
    then have "bit (x AND push_bit j 1) j" using that by (simp add: bit_simps)
    then show False using e by simp
  qed
next
  assume "\<not> bit x j"
  then show "x AND push_bit j 1 = 0" by (intro bit_word_eqI) (auto simp: bit_simps)
qed

lemma free_bit_iff:
  "free_bit x = Some j \<longleftrightarrow> j < 32 \<and> \<not> bit x j \<and> (\<forall>k < j. bit x k)"
  "free_bit x = None \<longleftrightarrow> x = - 1"
proof -
  have "free_bit x = find (\<lambda>j. \<not> bit x j) [0..<32]"
    unfolding free_bit_def by (rule find_cong [OF refl]) (rule and_single_bit, simp)
  note e = this
  show "free_bit x = Some j \<longleftrightarrow> j < 32 \<and> \<not> bit x j \<and> (\<forall>k < j. bit x k)"
    by (auto simp: e find_Some_iff)
  have "free_bit x = None \<longleftrightarrow> (\<forall>j < 32. bit x j)" by (auto simp: e find_None_iff)
  also have "\<dots> \<longleftrightarrow> x = - 1" by (auto intro!: bit_word_eqI)
  finally show "free_bit x = None \<longleftrightarrow> x = - 1" .
qed

lemma find_aid_Some:
  assumes "find_aid i ws = Some (k, j)"
  shows "i \<le> k \<and> k - i < length ws \<and> j < 32 \<and> \<not> bit (ws ! (k - i)) j
    \<and> (\<forall>n < (k - i) * 32 + j. aid_bit ws n)"
  using assms
proof (induction i ws rule: find_aid.induct)
  case (2 i x xs)
  show ?case
  proof (cases "free_bit x")
    case None
    then have x: "x = - 1" by (simp add: free_bit_iff)
    then have ih: "i + 1 \<le> k \<and> k - (i + 1) < length xs \<and> j < 32 \<and> \<not> bit (xs ! (k - (i + 1))) j
      \<and> (\<forall>n < (k - (i + 1)) * 32 + j. aid_bit xs n)" using 2 by simp
    then have "k = i + 1 + (k - (i + 1))" by simp
    then obtain d where d: "k = i + 1 + d" by blast
    have "aid_bit (x # xs) n" if "n < (k - i) * 32 + j" for n
    proof (cases "n < 32")
      case True
      then show ?thesis by (simp add: aid_bit_def x)
    next
      case False
      then have n: "n div 32 = Suc ((n - 32) div 32)" "n mod 32 = (n - 32) mod 32" by (simp_all add: le_div_geq le_mod_geq)
      have "n - 32 < (k - (i + 1)) * 32 + j" using that False d by simp
      then have "aid_bit xs (n - 32)" using ih by blast
      then show ?thesis by (simp add: aid_bit_def n)
    qed
    then show ?thesis using ih d by simp
  next
    case (Some l)
    then have "x \<noteq> - 1" using free_bit_iff(2) [of x] by auto
    then show ?thesis using 2 Some by (auto simp: free_bit_iff aid_bit_def)
  qed
qed simp

lemma find_aid_None: "find_aid i ws = None \<Longrightarrow> n < length ws * 32 \<Longrightarrow> aid_bit ws n"
proof (induction i ws arbitrary: n rule: find_aid.induct)
  case (2 i x xs)
  have x: "x = - 1" using 2 by (cases "x = - 1") (auto split: option.split_asm simp: free_bit_iff)
  show ?case
  proof (cases "n < 32")
    case True
    then show ?thesis by (simp add: aid_bit_def x)
  next
    case False
    then have m: "n div 32 = Suc ((n - 32) div 32)" "n mod 32 = (n - 32) mod 32" by (simp_all add: le_div_geq le_mod_geq)
    have "aid_bit xs (n - 32)" using 2 x False by simp
    then show ?thesis by (simp add: aid_bit_def m)
  qed
qed simp

definition aids_used :: "ap_world \<Rightarrow> nat \<Rightarrow> nat set" where
  "aids_used w b = {aid_at (w_sta w) a | a. owned w b a} - {0}"

lemma aid_set_ok:
  assumes ok: "world_ok w" and o: "owned w b a" and bss: "bss_at w b = Some bss" and s: "w_sta w a = Some s" "st_aid s = 0"
    and ij: "i < 63" "j < 32" and n: "n = i * 32 + j + 1" "n \<le> 2007" and new: "n \<notin> aids_used w b"
    and w': "w' = w\<lparr>w_sta := (w_sta w)(a \<mapsto> s\<lparr>st_aid := of_nat n\<rparr>),
      w_bss := (w_bss w)[b := Some (bss\<lparr>bs_aid := (bs_aid bss)[i := bs_aid bss ! i OR push_bit j 1]\<rparr>)]\<rparr>"
  shows "world_ok w' \<and> owned w' = owned w \<and> aid_at (w_sta w') = (aid_at (w_sta w))(a := n)"
proof -
  have t: "tables_ok w" and acc: "accounts_ok w" and tl: "timers_live w" and cok: "counters_ok w" using ok by (simp_all add: world_ok_def)
  have l: "list_ok (w_sta w) bss" "hash_ok (w_sta w) bss" "aids_ok (w_sta w) bss" using t bss by (auto simp: tables_ok_def)
  have ab: "a \<in> set (bs_list bss)" using o bss by (auto simp: owned_def)
  have blen: "b < length (w_bss w)" using bss by (auto simp: bss_at_def split: if_split_asm)
  define s' where "s' = s\<lparr>st_aid := of_nat n\<rparr>"
  define bss' where "bss' = bss\<lparr>bs_aid := (bs_aid bss)[i := bs_aid bss ! i OR push_bit j 1]\<rparr>"
  have heap: "w_sta w' = (w_sta w)(a \<mapsto> s')" and wb: "w_bss w' = (w_bss w)[b := Some bss']" by (simp_all add: w' s'_def bss'_def)
  have at: "bss_at w' x = (if x = b then Some bss' else bss_at w x)" for x using blen by (simp add: bss_at_def wb)
  have own: "owned w' = owned w" using bss by (auto simp: fun_eq_iff owned_def at bss'_def)
  have "unat (of_nat n :: u16) = n" using n(2) by (simp add: unat_of_nat)
  then have aid: "aid_at (w_sta w') = (aid_at (w_sta w))(a := n)" by (auto simp: heap aid_at_def s'_def fun_eq_iff)
  have addr: "addr_at (w_sta w') = addr_at (w_sta w)" and cnt: "counted_at (w_sta w') = counted_at (w_sta w)"
    using s by (auto simp: heap addr_at_def counted_at_def s'_def fun_eq_iff)
  have le: "\<forall>x \<in> set (bs_list bss). aid_at (w_sta w) x \<le> 2007" and len: "length (bs_aid bss) = 63"
    and bits: "\<And>n. n < 63 * 32 \<Longrightarrow> aid_bit (bs_aid bss) n \<longleftrightarrow> (\<exists>x \<in> set (bs_list bss). aid_at (w_sta w) x = n + 1)"
    and one: "\<forall>x \<in> set (bs_list bss). \<forall>y \<in> set (bs_list bss).
      aid_at (w_sta w) x = aid_at (w_sta w) y \<longrightarrow> aid_at (w_sta w) x = 0 \<or> x = y"
    using l(3) unfolding aids_ok_def by blast+
  have zero: "aid_at (w_sta w) a = 0" by (simp add: aid_at_def s)
  have unused: "aid_at (w_sta w) x \<noteq> n" if "x \<in> set (bs_list bss)" for x
    using that new bss n(1) by (auto simp: aids_used_def owned_def)
  have "aids_ok (w_sta w') bss'"
    unfolding aids_ok_def
  proof (intro conjI allI impI ballI)
    show "length (bs_aid bss') = 63" by (simp add: bss'_def len)
    show "aid_at (w_sta w') x \<le> 2007" if "x \<in> set (bs_list bss')" for x
      using that le n(2) by (simp add: aid bss'_def)
    show "aid_bit (bs_aid bss') m \<longleftrightarrow> (\<exists>x \<in> set (bs_list bss'). aid_at (w_sta w') x = m + 1)" if m: "m < 63 * 32" for m
    proof -
      have "aid_bit (bs_aid bss') m \<longleftrightarrow> aid_bit (bs_aid bss) m \<or> m = i * 32 + j"
        using aid_bit_set [of i "bs_aid bss" j m] ij len by (simp add: bss'_def)
      also have "\<dots> \<longleftrightarrow> (\<exists>x \<in> set (bs_list bss). aid_at (w_sta w) x = m + 1) \<or> m + 1 = n" using bits [OF m] n(1) by simp
      also have "\<dots> \<longleftrightarrow> (\<exists>x \<in> set (bs_list bss). (if x = a then n else aid_at (w_sta w) x) = m + 1)"
      proof (intro iffI)
        assume "(\<exists>x \<in> set (bs_list bss). aid_at (w_sta w) x = m + 1) \<or> m + 1 = n"
        then show "\<exists>x \<in> set (bs_list bss). (if x = a then n else aid_at (w_sta w) x) = m + 1"
        proof
          assume "\<exists>x \<in> set (bs_list bss). aid_at (w_sta w) x = m + 1"
          then obtain x where x: "x \<in> set (bs_list bss)" "aid_at (w_sta w) x = m + 1" by blast
          then have "x \<noteq> a" using zero by auto
          then show ?thesis using x by (intro bexI [of _ x]) simp_all
        next
          assume "m + 1 = n"
          then show ?thesis using ab by (intro bexI [of _ a]) simp_all
        qed
      next
        assume "\<exists>x \<in> set (bs_list bss). (if x = a then n else aid_at (w_sta w) x) = m + 1"
        then obtain x where x: "x \<in> set (bs_list bss)" "(if x = a then n else aid_at (w_sta w) x) = m + 1" by blast
        then show "(\<exists>x \<in> set (bs_list bss). aid_at (w_sta w) x = m + 1) \<or> m + 1 = n" by (cases "x = a") auto
      qed
      finally show ?thesis by (simp add: bss'_def aid fun_upd_def)
    qed
    show "aid_at (w_sta w') x = 0 \<or> x = y" if "x \<in> set (bs_list bss')" "y \<in> set (bs_list bss')" "aid_at (w_sta w') x = aid_at (w_sta w') y" for x y
      using that one unused by (auto simp: bss'_def aid split: if_split_asm)
  qed
  moreover have "list_ok (w_sta w') bss'" using l(1) by (simp add: list_ok_def bss'_def addr)
  moreover have "hash_ok (w_sta w') bss'" using l(2) by (simp add: hash_ok_def bss'_def addr)
  ultimately have this_ok: "list_ok (w_sta w') bss' \<and> hash_ok (w_sta w') bss' \<and> aids_ok (w_sta w') bss'" by blast
  have bss_ok: "list_ok (w_sta w') x \<and> hash_ok (w_sta w') x \<and> aids_ok (w_sta w') x" if x: "bss_at w' k = Some x" for k x
  proof (cases "k = b")
    case True
    then show ?thesis using x this_ok by (simp add: at)
  next
    case False
    then have y: "bss_at w k = Some x" using x by (simp add: at)
    have ly: "list_ok (w_sta w) x \<and> hash_ok (w_sta w) x \<and> aids_ok (w_sta w) x" using t y by (simp add: tables_ok_def)
    have "a \<notin> set (bs_list x)" using t o y False by (auto simp: tables_ok_def owned_def)
    then have "aids_ok (w_sta w') x" using ly unfolding aids_ok_def aid by (simp add: fun_upd_def) (metis fun_upd_apply)
    then show ?thesis using ly by (simp add: list_ok_def hash_ok_def addr)
  qed
  have same: "w_iface w' = w_iface w" "w_ht_counter w' = w_ht_counter w" "w_fault w' = w_fault w" "w_timers w' = w_timers w" by (simp_all add: w')
  have "accounts_ok w'"
    unfolding accounts_ok_def same
  proof (intro allI impI)
    fix k x
    assume "(Accounting_interim_update, k, x) \<in> eloop_pending (w_timers w)"
    then obtain s1 where "w_sta w x = Some s1" "st_acct_session_started s1" using acc unfolding accounts_ok_def by blast
    then show "\<exists>s. w_sta w' x = Some s \<and> st_acct_session_started s" using s(1) by (auto simp: heap s'_def)
  qed
  moreover have "counters_ok w'"
  proof -
    have "counter_of c w' = counter_of c w" for c using same by (cases c) simp_all
    moreover have "finite (dom (w_sta w'))" using cok by (simp add: counters_ok_def heap)
    ultimately show ?thesis using cok by (simp add: counters_ok_def cnt)
  qed
  moreover have "tables_ok w'" using t bss_ok by (auto simp: tables_ok_def own addr)
  moreover have "timers_live w'" using tl by (simp add: timers_live_def own same)
  ultimately have "world_ok w'" using ok by (simp add: world_ok_def no_bad_access_def same)
  then show ?thesis using own aid by blast
qed

lemma get_aid_result:
  assumes ok: "world_ok w" and o: "owned w b a" and new: "aid_at (w_sta w) a = 0"
  shows "(\<exists>w' n. hostapd_get_aid b a w = (0, w') \<and> 1 \<le> n \<and> n \<le> 2007 \<and> n \<notin> aids_used w b \<and> {1..<n} \<subseteq> aids_used w b
      \<and> world_ok w' \<and> owned w' = owned w \<and> aid_at (w_sta w') = (aid_at (w_sta w))(a := n)
      \<and> (\<exists>s. w_sta w a = Some s \<and> w_sta w' = (w_sta w)(a \<mapsto> s\<lparr>st_aid := of_nat n\<rparr>)) \<and> length (w_bss w') = length (w_bss w))
    \<or> hostapd_get_aid b a w = (- 1, w) \<and> {1..2007} \<subseteq> aids_used w b"
proof -
  obtain bss where bss: "bss_at w b = Some bss" and ab: "a \<in> set (bs_list bss)" using o by (auto simp: owned_def)
  have t: "tables_ok w" and acc: "accounts_ok w" and tl: "timers_live w" and cok: "counters_ok w" using ok by (simp_all add: world_ok_def)
  obtain s where s: "w_sta w a = Some s" using tables_live [OF t o] by (auto simp: live_iff)
  have z: "st_aid s = 0" using new s by (simp add: aid_at_def unat_eq_zero)
  have l: "list_ok (w_sta w) bss" "hash_ok (w_sta w) bss" "aids_ok (w_sta w) bss" using t bss by (auto simp: tables_ok_def)
  have le: "\<forall>x \<in> set (bs_list bss). aid_at (w_sta w) x \<le> 2007" and len: "length (bs_aid bss) = 63"
    and bits: "\<And>n. n < 63 * 32 \<Longrightarrow> aid_bit (bs_aid bss) n \<longleftrightarrow> (\<exists>x \<in> set (bs_list bss). aid_at (w_sta w) x = n + 1)"
    and one: "\<forall>x \<in> set (bs_list bss). \<forall>y \<in> set (bs_list bss).
      aid_at (w_sta w) x = aid_at (w_sta w) y \<longrightarrow> aid_at (w_sta w) x = 0 \<or> x = y"
    using l(3) unfolding aids_ok_def by blast+
  have used: "aids_used w b = {aid_at (w_sta w) x | x. x \<in> set (bs_list bss)} - {0}" by (auto simp: aids_used_def owned_def bss)
  have bit_used: "n < 63 * 32 \<Longrightarrow> aid_bit (bs_aid bss) n \<longleftrightarrow> n + 1 \<in> aids_used w b" for n
    using bits [of n] unfolding used by force
  show ?thesis
  proof (cases "find_aid 0 (bs_aid bss)")
    case None
    have "n \<in> aids_used w b" if "n \<in> {1..2007}" for n
    proof -
      have "n - 1 < 63 * 32" using that by auto
      then have "n - 1 + 1 \<in> aids_used w b" using find_aid_None [OF None, of "n - 1"] bit_used [of "n - 1"] by (simp add: len)
      then show ?thesis using that by simp
    qed
    then show ?thesis by (intro disjI2) (auto simp: hostapd_get_aid_def bss s z None)
  next
    case (Some p)
    then obtain i j where p: "find_aid 0 (bs_aid bss) = Some (i, j)" by (cases p) auto
    note f = find_aid_Some [OF p, simplified]
    define n where "n = i * 32 + j + 1"
    have lt: "i * 32 + j < 63 * 32" using f len by simp
    have low: "m \<in> aids_used w b" if "1 \<le> m" "m < n" for m
    proof -
      have "m - 1 < i * 32 + j" using that by (simp add: n_def)
      then have "aid_bit (bs_aid bss) (m - 1)" using f by blast
      moreover have "m - 1 < 63 * 32" using that lt by (simp add: n_def)
      ultimately have "m - 1 + 1 \<in> aids_used w b" using bit_used by blast
      then show ?thesis using that by simp
    qed
    have nb: "\<not> aid_bit (bs_aid bss) (i * 32 + j)" using f by (simp add: aid_bit_def)
    then have nu: "n \<notin> aids_used w b" using bit_used [OF lt] by (simp add: n_def)
    show ?thesis
    proof (cases "n > 2007")
      case True
      then have "{1..2007} \<subseteq> aids_used w b" using low by auto
      then show ?thesis using True by (intro disjI2) (simp add: hostapd_get_aid_def bss s z p n_def Let_def)
    next
      case False
      define w' where "w' = w\<lparr>w_sta := (w_sta w)(a \<mapsto> s\<lparr>st_aid := of_nat n\<rparr>),
        w_bss := (w_bss w)[b := Some (bss\<lparr>bs_aid := (bs_aid bss)[i := bs_aid bss ! i OR push_bit j 1]\<rparr>)]\<rparr>"
      have u: "put_sta a (\<lambda>s. s\<lparr>st_aid := of_nat n\<rparr>) w = w\<lparr>w_sta := (w_sta w)(a \<mapsto> s\<lparr>st_aid := of_nat n\<rparr>)\<rparr>"
        by (rule put_sta_at [OF s])
      have e: "hostapd_get_aid b a w = (0, w')"
      proof -
        have "hostapd_get_aid b a w = (0, upd_bss b (\<lambda>bss. bss\<lparr>bs_aid := (bs_aid bss)[i := bs_aid bss ! i OR push_bit j 1]\<rparr>)
            (put_sta a (\<lambda>s. s\<lparr>st_aid := of_nat n\<rparr>) w))"
          using False by (simp add: hostapd_get_aid_def bss s z p n_def Let_def)
        then show ?thesis unfolding u w'_def by (simp add: upd_bss_at [of _ b bss] bss)
      qed
      note w = aid_set_ok [OF ok o bss s z _ _ n_def _ nu w'_def]
      have "{1..<n} \<subseteq> aids_used w b" using low by auto
      moreover have "length (w_bss w') = length (w_bss w)" by (simp add: w'_def)
      moreover have "w_sta w' = (w_sta w)(a \<mapsto> s\<lparr>st_aid := of_nat n\<rparr>)" by (simp add: w'_def)
      moreover have "1 \<le> n" "n \<le> 2007" using False by (simp_all add: n_def)
      moreover have "i < 63" "j < 32" "n \<le> 2007" using f len False by simp_all
      ultimately show ?thesis using e nu w s by blast
    qed
  qed
qed

end
