(* ===== verification/Sta_Setup.thy ===== *)
theory Sta_Setup
  imports Sta_Aid
begin

text \<open>
  No operation of the station table changes how the access point is set up: which BSSs there are, their
  access control lists, the configuration and the mode of the interface.
\<close>

unbundle bit_operations_syntax

section \<open>What no operation changes\<close>

definition same_setup :: "ap_world \<Rightarrow> ap_world \<Rightarrow> bool" where
  "same_setup w w' \<longleftrightarrow> map (map_option bs_acl_conf) (w_bss w') = map (map_option bs_acl_conf) (w_bss w)
     \<and> if_conf (w_iface w') = if_conf (w_iface w) \<and> if_current_mode (w_iface w') = if_current_mode (w_iface w)"

lemma setup_refl [simp]: "same_setup w w"
  by (simp add: same_setup_def)

lemma setup_trans: "same_setup w w' \<Longrightarrow> same_setup w' w'' \<Longrightarrow> same_setup w w''"
  by (simp add: same_setup_def)

lemma calm_setup: "calm w w' \<Longrightarrow> same_setup w w'"
proof -
  assume c: "calm w w'"
  have "map_option bs_acl_conf (bss_at w' b) = map_option bs_acl_conf (bss_at w b)" for b
  proof -
    have "map_option table_of (bss_at w' b) = map_option table_of (bss_at w b)" using c by (simp add: calm_def)
    then show ?thesis by (cases "bss_at w b"; cases "bss_at w' b") (auto simp: table_of_def)
  qed
  note at = this
  have len: "length (w_bss w') = length (w_bss w)" using c by (simp add: calm_def)
  have "map (map_option bs_acl_conf) (w_bss w') = map (map_option bs_acl_conf) (w_bss w)"
  proof (rule nth_equalityI)
    fix i
    assume "i < length (map (map_option bs_acl_conf) (w_bss w'))"
    then show "map (map_option bs_acl_conf) (w_bss w') ! i = map (map_option bs_acl_conf) (w_bss w) ! i"
      using at [of i] len by (simp add: bss_at_def)
  qed (simp add: len)
  then show ?thesis using c by (simp add: same_setup_def calm_def)
qed

named_theorems setup_rules "an operation behind one that keeps the setup keeps it"

lemma setup_basic [setup_rules]:
  assumes "same_setup w0 w"
  shows "same_setup w0 (say x w)" "same_setup w0 (set_fault e w)" "same_setup w0 (put_sta a f w)" "same_setup w0 (add_counter c n w)"
    "same_setup w0 (cancel_timer h b a w)" "same_setup w0 (register_timer ev h secs usecs b a w)" "same_setup w0 (w\<lparr>w_sta := heap\<rparr>)"
proof -
  show "same_setup w0 (add_counter c n w)" using assms by (cases c) (simp_all add: same_setup_def bss_at_def)
  show "same_setup w0 (put_sta a f w)"
    using assms by (simp add: same_setup_def bss_at_def put_sta_def with_sta_def set_fault_def split: option.split)
qed (use assms in \<open>simp_all add: same_setup_def bss_at_def say_def set_fault_def\<close>)

lemma setup_upd [setup_rules]:
  assumes "same_setup w0 w" and "\<And>x. bs_acl_conf (f x) = bs_acl_conf x"
  shows "same_setup w0 (upd_bss b f w)"
proof (cases "bss_at w b")
  case None
  then show ?thesis using setup_basic(2) [OF assms(1)] by (simp add: upd_bss_def with_bss_def)
next
  case (Some x)
  then have at: "b < length (w_bss w)" "w_bss w ! b = Some x" by (auto simp: bss_at_def split: if_split_asm)
  have "map (map_option bs_acl_conf) ((w_bss w)[b := Some (f x)]) = map (map_option bs_acl_conf) (w_bss w)"
    unfolding map_update using at assms(2) by (simp add: list_update_same_conv)
  then show ?thesis using assms(1) Some by (simp add: upd_bss_at same_setup_def)
qed

lemma setup_with [setup_rules]:
  assumes "same_setup w0 w"
  shows "(\<And>s. same_setup w0 (f s w)) \<Longrightarrow> same_setup w0 (with_sta a f w)"
    "(\<And>x. same_setup w0 (g x w)) \<Longrightarrow> same_setup w0 (with_bss b g w)"
  using setup_basic(2) [OF assms] by (simp_all add: with_sta_def with_bss_def split: option.split)

lemma setup_if [setup_rules]:
  "(c \<Longrightarrow> same_setup w0 w) \<Longrightarrow> (\<not> c \<Longrightarrow> same_setup w0 w') \<Longrightarrow> same_setup w0 (if c then w else w')"
  "(c \<Longrightarrow> same_setup w0 (f w)) \<Longrightarrow> (\<not> c \<Longrightarrow> same_setup w0 (g w)) \<Longrightarrow> same_setup w0 ((if c then f else g) w)"
  "same_setup w0 w \<Longrightarrow> same_setup w0 (id w)"
  by simp_all

lemma setup_count [setup_rules]:
  assumes "same_setup w0 w"
  shows "same_setup w0 (count_sta c a w)" "same_setup w0 (uncount_sta c a w)"
  unfolding count_sta_def uncount_sta_def by (intro setup_rules assms)+

lemma setup_counters [setup_rules]:
  assumes "same_setup w0 w"
  shows "same_setup w0 (ap_free_counters a w)"
proof -
  have e: "same_setup w0 (snd (uncount_non_erp a w))" if "same_setup w0 w" for w
    using that setup_rules by (auto simp: uncount_non_erp_def Let_def split: option.split)
  have s: "same_setup w0 (snd (uncount_11g c a p))" if "same_setup w0 (snd p)" for c p
    using that setup_rules by (cases p) (auto simp: uncount_11g_def Let_def split: option.split)
  have "same_setup w0 (snd (uncount_11g No_short_preamble a (uncount_11g No_short_slot_time a (uncount_non_erp a w))))"
    by (intro s e assms)
  then show ?thesis by (auto simp: ap_free_counters_def Let_def intro!: setup_rules split: prod.split)
qed

lemma setup_lists [setup_rules]:
  assumes "same_setup w0 w"
  shows "same_setup w0 (ap_sta_list_del b a w)" "same_setup w0 (ap_sta_hash_del b a w)" "same_setup w0 (ap_sta_hash_add b a w)"
    "same_setup w0 (ap_sta_release_aid b a w)" "same_setup w0 (cancel_sta_timers b a w)" "same_setup w0 (accounting_sta_get_id b a w)"
    "same_setup w0 (ieee802_1x_free_station a w)"
proof -
  show "same_setup w0 (ap_sta_list_del b a w)" unfolding ap_sta_list_del_def
    using assms setup_upd [OF assms] setup_basic [OF assms] by (intro setup_rules) (auto split: sum.split)
  show "same_setup w0 (ap_sta_hash_del b a w)" unfolding ap_sta_hash_del_def Let_def
    using assms setup_upd [OF assms] setup_basic [OF assms] by (intro setup_rules) (auto split: sum.split)
  show "same_setup w0 (ap_sta_release_aid b a w)" unfolding ap_sta_release_aid_def Let_def
    using assms by (intro setup_rules) simp_all
qed (use assms in \<open>simp_all add: ap_sta_hash_add_def cancel_sta_timers_def accounting_sta_get_id_def ieee802_1x_free_station_def
    Let_def setup_rules\<close>)

lemma setup_free:
  assumes "world_ok w" and "owned w b a"
  shows "same_setup w (ap_free_sta ev b a w)"
proof -
  have t: "tables_ok w" using assms(1) by (simp add: world_ok_def)
  have h: "same_setup w (free_head ev b a w)"
    by (rule calm_setup) (intro free_head_calm assms(2) tables_live [OF t assms(2)] calm_refl t)
  show ?thesis unfolding ap_free_sta_parts free_tail_def Let_def by (intro setup_rules h) simp_all
qed

lemma setup_aid: "same_setup w (snd (hostapd_get_aid b a w))"
  by (auto simp: hostapd_get_aid_def Let_def intro!: setup_rules split: option.split prod.split)

lemma setup_fold:
  "same_setup w0 w \<Longrightarrow> (\<And>w i. same_setup w0 w \<Longrightarrow> same_setup w0 (f w i)) \<Longrightarrow> same_setup w0 (foldl f w is)"
  by (induction "is" arbitrary: w) auto

lemma setup_other_bss: "same_setup w (ap_sta_remove_in_other_bss ev b a w)"
proof -
  have d: "same_setup w (disconnect_sta ev reason i x w')" if "same_setup w w'" for reason i x w'
    unfolding disconnect_sta_def Let_def reschedule_def ap_sta_set_authorized_def wpa_auth_sm_event_def set_timeout_next_def
      ieee802_1x_notify_port_enabled_def by (intro setup_rules that)
  have f: "same_setup w (with_found i addr g w')" if "same_setup w w'" "\<And>r. same_setup w (g r w')" for i addr g w'
    using that setup_basic [OF that(1)] by (auto simp: with_found_def with_bss_def split: option.split sum.split)
  have c: "same_setup w (ap_sta_disconnect ev reason (Some addr) i (Some x) w')" if "same_setup w w'" for reason addr i x w'
    unfolding ap_sta_disconnect_def Let_def using that by (simp add: d setup_basic)
  show ?thesis
    unfolding ap_sta_remove_in_other_bss_def
    by (rule setup_fold) (auto intro!: setup_with setup_if f c split: option.split)
qed

lemma setup_sta_add: "same_setup w (snd (ap_sta_add ev addr b w))"
proof -
  have "same_setup w (insert_core ev addr b bss a w)" for bss a
    unfolding insert_core_def Let_def by (intro setup_rules setup_refl) simp_all
  then have "same_setup w (insert_sta ev addr b bss a w)" for bss a
    unfolding insert_sta_core by (rule setup_trans [OF _ setup_other_bss])
  then show ?thesis by (auto simp: ap_sta_add_def intro!: setup_rules split: option.split sum.split)
qed

end
