(* ===== verification/Sta_Steps.thy ===== *)
theory Sta_Steps
  imports Sta_Setup
begin

unbundle bit_operations_syntax

text \<open>
  The timeouts of the station table and the properties of the table: every timeout that fires leaves a
  consistent table, the hash table finds what the list has, the AIDs, the inactivity timer, the counts
  of octets.
\<close>

section \<open>Counting a station\<close>

lemma counted_card:
  assumes "finite (dom heap)" and "heap a = Some s" and "\<not> st_counted s c"
  shows "card {x. counted_at (heap(a \<mapsto> s\<lparr>st_counted := (st_counted s)(c := True)\<rparr>)) x d}
    = card {x. counted_at heap x d} + (if d = c then 1 else 0)"
proof (cases "d = c")
  case True
  have "{x. counted_at (heap(a \<mapsto> s\<lparr>st_counted := (st_counted s)(c := True)\<rparr>)) x c} = insert a {x. counted_at heap x c}"
    by (auto simp: counted_at_def split: if_split_asm)
  moreover have "a \<notin> {x. counted_at heap x c}" using assms by (simp add: counted_at_def)
  moreover have "finite {x. counted_at heap x c}"
    by (rule finite_subset [OF _ assms(1)]) (auto simp: counted_at_def split: option.split_asm)
  ultimately show ?thesis using True by simp
next
  case False
  then have "{x. counted_at (heap(a \<mapsto> s\<lparr>st_counted := (st_counted s)(c := True)\<rparr>)) x d} = {x. counted_at heap x d}"
    using assms by (auto simp: counted_at_def split: if_split_asm)
  then show ?thesis using False by simp
qed

lemma count_sta_ok:
  assumes ok: "world_ok w" and a: "live w a"
  shows "world_ok (count_sta c a w)" "owned (count_sta c a w) = owned w"
proof -
  obtain s where s: "w_sta w a = Some s" using a by (auto simp: live_iff)
  define w' where "w' = count_sta c a w"
  have "world_ok w' \<and> owned w' = owned w"
  proof (cases "st_counted s c")
    case True
    then show ?thesis using ok by (simp add: w'_def count_sta_def with_sta_at [OF s])
  next
    case False
    define s' where "s' = s\<lparr>st_counted := (st_counted s)(c := True)\<rparr>"
    have w': "w' = add_counter c 1 (w\<lparr>w_sta := (w_sta w)(a \<mapsto> s')\<rparr>)"
      using False by (simp add: w'_def count_sta_def with_sta_at [OF s] put_sta_at [OF s] s'_def)
    have heap: "w_sta w' = (w_sta w)(a \<mapsto> s')" and same: "w_bss w' = w_bss w" "w_timers w' = w_timers w" "w_fault w' = w_fault w"
      "if_current_mode (w_iface w') = if_current_mode (w_iface w)" by (simp_all add: w')
    have addr: "addr_at (w_sta w') = addr_at (w_sta w)" and aid: "aid_at (w_sta w') = aid_at (w_sta w)"
      using s by (auto simp: heap addr_at_def aid_at_def s'_def fun_eq_iff)
    have at: "bss_at w' = bss_at w" by (simp add: bss_at_def same fun_eq_iff)
    have own: "owned w' = owned w" by (simp add: owned_def at fun_eq_iff)
    have "tables_ok w'" using ok unfolding world_ok_def tables_ok_def list_ok_def hash_ok_def aids_ok_def own at addr aid by blast
    moreover have "counters_ok w'"
      unfolding counters_ok_def
    proof (intro conjI allI)
      have fin: "finite (dom (w_sta w))" and cnt: "\<forall>c. counter_of c w = int (card {a. counted_at (w_sta w) a c})"
        using ok by (simp_all add: world_ok_def counters_ok_def)
      show "finite (dom (w_sta w'))" using fin by (simp add: heap)
      show "counter_of d w' = int (card {x. counted_at (w_sta w') x d})" for d
      proof -
        have "counter_of d w' = counter_of d w + (if d = c then 1 else 0)" by (simp add: w' counter_add)
        then show ?thesis using counted_card [OF fin s False, of d] cnt by (simp add: heap s'_def)
      qed
    qed
    moreover have "timers_live w'" using ok by (simp add: world_ok_def timers_live_def own same)
    moreover have "accounts_ok w'"
      using ok s unfolding world_ok_def accounts_ok_def same heap s'_def by fastforce
    ultimately show ?thesis using ok own by (simp add: world_ok_def no_bad_access_def same)
  qed
  then show "world_ok (count_sta c a w)" "owned (count_sta c a w) = owned w" by (simp_all add: w'_def)
qed

section \<open>Timeouts\<close>

lemma calm_owned_fun: "calm w w' \<Longrightarrow> owned w' = owned w"
  by (intro ext) (rule calm_owned)

lemma calm_free_ok:
  assumes "world_ok w" and "owned w b a" and "calm w w'"
  shows "world_ok (ap_free_sta ev b a w')" "owned (ap_free_sta ev b a w') i x \<longleftrightarrow> owned w i x \<and> x \<noteq> a"
proof -
  have o: "owned w' b a" using calm_owned_fun [OF assms(3)] assms(2) by simp
  note f = free_sta_ok [OF calm_ok [OF assms(1,3)] o]
  show "world_ok (ap_free_sta ev b a w')" by (rule f)
  show "owned (ap_free_sta ev b a w') i x \<longleftrightarrow> owned w i x \<and> x \<noteq> a" using f(2) calm_owned_fun [OF assms(3)] by simp
qed

lemma keeps_idle [keeps_rules]: "keeps_table idle_cause"
  by (simp add: keeps_table_def idle_cause_def)

definition kept_by :: "ap_world \<Rightarrow> ap_world \<Rightarrow> bool" where
  \<comment> \<open>a consistent world, set up as before, with no station that was not there before\<close>
  "kept_by w w' \<longleftrightarrow> world_ok w' \<and> same_setup w w' \<and> (\<forall>i x. owned w' i x \<longrightarrow> owned w i x)"

lemma calm_kept: "world_ok w \<Longrightarrow> calm w w' \<Longrightarrow> kept_by w w'"
  by (simp add: kept_by_def calm_ok calm_owned calm_setup)

lemma free_kept: "world_ok w \<Longrightarrow> owned w b a \<Longrightarrow> calm w w' \<Longrightarrow> kept_by w (ap_free_sta ev b a w')"
  using setup_trans [OF calm_setup setup_free] calm_ok calm_owned by (simp add: kept_by_def calm_free_ok)

lemma timer_frame_calm [calm_rules]: "live w0 a \<Longrightarrow> calm w0 w \<Longrightarrow> calm w0 (timer_frame b a s t w)"
  unfolding timer_frame_def by (intro calm_rules keeps_rules)

lemma handle_timer_ok:
  assumes ok: "world_ok w" and o: "owned w b a"
  shows "kept_by w (ap_handle_timer ev b a w)"
proof -
  have t: "tables_ok w" using ok by (simp add: world_ok_def)
  have l: "live w a" by (rule tables_live [OF t o])
  obtain s where s: "w_sta w a = Some s" using l by (auto simp: live_iff)
  obtain bss where b: "bss_at w b = Some bss" using o by (auto simp: owned_def)
  obtain t' n where p: "poll_answered bss s (check_inactivity ev bss s) = (t', n)" by fastforce
  define w1 where "w1 = set_timeout_next t' a w"
  have c1: "calm w w1" unfolding w1_def by (intro calm_rules l calm_refl)
  define w2 where "w2 = timer_frame b a s t' w1"
  have c2: "calm w w2" unfolding w2_def by (intro calm_rules l c1)
  have e: "ap_handle_timer ev b a w = (if st_timeout_next s = STA_REMOVE then ap_free_sta ev b a w
      else if n \<noteq> 0 then register_timer ev Ap_handle_timer (word_of_int n) 0 b a w1 else timer_step ev b a t' w2)"
    by (simp add: ap_handle_timer_def with_bss_at [OF b] with_sta_at [OF s] p w1_def w2_def Let_def)
  have k1: "kept_by w (register_timer ev Ap_handle_timer (word_of_int n) 0 b a w1)"
    by (rule calm_kept [OF ok]) (intro calm_rules o c1, simp)
  have k2: "kept_by w (timer_step ev b a t' w2)"
    unfolding timer_step_def Let_def
    by (cases "t' = STA_NULLFUNC"; cases "t' \<in> {STA_DISASSOC, STA_DISASSOC_FROM_CLI}")
       (simp_all add: calm_kept [OF ok] free_kept [OF ok o] calm_rules keeps_rules o l t c2)
  show ?thesis unfolding e using k1 k2 free_kept [OF ok o calm_refl] by simp
qed

unbundle bit_operations_syntax

lemma session_timer_ok:
  assumes ok: "world_ok w" and o: "owned w b a"
  shows "kept_by w (ap_handle_session_timer ev b a w)"
proof -
  have t: "tables_ok w" using ok by (simp add: world_ok_def)
  have l: "live w a" by (rule tables_live [OF t o])
  then obtain s where s: "w_sta w a = Some s" by (auto simp: live_iff)
  show ?thesis
    unfolding ap_handle_session_timer_def with_sta_at [OF s] Let_def
    by (cases "has_flag s WLAN_STA_AUTH"; cases "has_flag s WLAN_STA_GAS")
       (simp_all add: free_kept [OF ok o] calm_kept [OF ok] calm_rules keeps_rules l)
qed

lemma run_timer_ok:
  assumes ok: "world_ok w" and o: "owned w b a"
    and started: "h = Accounting_interim_update \<Longrightarrow> \<exists>s. w_sta w a = Some s \<and> st_acct_session_started s"
  shows "kept_by w (run_timer ev h b a w)"
proof -
  have l: "live w a" using ok o by (auto simp: world_ok_def intro: tables_live)
  show ?thesis
  proof (cases h)
    case Ap_handle_timer
    then show ?thesis using handle_timer_ok [OF ok o] by (simp add: run_timer_def)
  next
    case Ap_handle_session_timer
    then show ?thesis using session_timer_ok [OF ok o] by (simp add: run_timer_def)
  next
    case Accounting_interim_update
    then show ?thesis
      using calm_kept [OF ok interim_update_calm [OF o calm_refl]] started by (simp add: run_timer_def)
  qed (simp_all add: run_timer_def calm_kept [OF ok] calm_rules o l)
qed

lemma due_pending:
  assumes "eloop_due now q = Some (t, q')"
  shows "(to_handler t, to_eloop t, to_user t) \<in> eloop_pending q" "eloop_pending q' \<subseteq> eloop_pending q"
  using assms by (cases q; auto simp: eloop_due_def eloop_pending_def split: if_split_asm)+

theorem fire_timer_ok:
  assumes ok: "world_ok w"
  shows "kept_by w (fire_timer ev w)"
proof (cases "eloop_due (ev_clock ev) (w_timers w)")
  case None
  then show ?thesis using ok by (simp add: fire_timer_def kept_by_def)
next
  case (Some p)
  then obtain t q where d: "eloop_due (ev_clock ev) (w_timers w) = Some (t, q)" by (cases p) auto
  note due = due_pending [OF d]
  have c: "calm w (w\<lparr>w_timers := q\<rparr>)" using due(2) by (auto simp: calm_def accounts_ok_def)
  have o: "owned w (to_eloop t) (to_user t)" using ok due(1) by (auto simp: world_ok_def timers_live_def)
  have "kept_by (w\<lparr>w_timers := q\<rparr>) (run_timer ev (to_handler t) (to_eloop t) (to_user t) (w\<lparr>w_timers := q\<rparr>))"
  proof (rule run_timer_ok)
    show "world_ok (w\<lparr>w_timers := q\<rparr>)" by (rule calm_ok [OF ok c])
    show "owned (w\<lparr>w_timers := q\<rparr>) (to_eloop t) (to_user t)" using o calm_owned [OF c] by simp
    assume "to_handler t = Accounting_interim_update"
    then show "\<exists>s. w_sta (w\<lparr>w_timers := q\<rparr>) (to_user t) = Some s \<and> st_acct_session_started s"
      using ok due(1) by (auto simp: world_ok_def accounts_ok_def)
  qed
  then show ?thesis using setup_trans [OF calm_setup [OF c]] by (simp add: fire_timer_def d kept_by_def calm_owned [OF c])
qed

section \<open>The list and the hash table\<close>

lemma find_of_map: "find p (map f xs) = map_option f (find (p \<circ> f) xs)"
  by (induction xs) auto

lemma hash_finds:
  assumes "world_ok w" and "bss_at w b = Some bss"
  shows "\<exists>r. table_get_sta bss (w_sta w) addr = Inr r
    \<and> map_option (\<lambda>a. sta_info.truncate (the (w_sta w a))) r = ap_get_sta (stations_as (w_sta w) bss) addr"
proof -
  have l: "list_ok (w_sta w) bss" "hash_ok (w_sta w) bss" using assms by (simp_all add: world_ok_def tables_ok_def)
  have "find (\<lambda>a. addr_at (w_sta w) a = Some addr) (bs_list bss)
    = find ((\<lambda>s. sta_addr s = addr) \<circ> (\<lambda>a. sta_info.truncate (the (w_sta w a)))) (bs_list bss)"
  proof (rule find_cong [OF refl])
    fix a
    assume "a \<in> set (bs_list bss)"
    then obtain s where "w_sta w a = Some s" using l(1) by (fastforce simp: list_ok_def addr_at_def)
    then show "(addr_at (w_sta w) a = Some addr) = ((\<lambda>s. sta_addr s = addr) \<circ> (\<lambda>a. sta_info.truncate (the (w_sta w a)))) a"
      by (simp add: addr_at_def sta_info.defs)
  qed
  then show ?thesis using table_get_sta_iff [OF l, of addr] by (simp add: ap_get_sta_def stations_as_def find_of_map)
qed

unbundle bit_operations_syntax

section \<open>What is sent to the stations\<close>

fun is_frame :: "sta_action \<Rightarrow> bool" where
  "is_frame (Drv_poll_client b addr qos) = True"
| "is_frame (Drv_sta_disassoc b addr reason) = True"
| "is_frame (Drv_sta_deauth b addr reason) = True"
| "is_frame (Drv_send_mlme b frame) = True"
| "is_frame _ = False"

definition sent :: "ap_world \<Rightarrow> sta_action list" where
  "sent w = filter is_frame (w_out w)"

named_theorems sent_simps "what an operation sends"

lemma sent_basic [sent_simps]:
  "sent (say x w) = sent w @ (if is_frame x then [x] else [])" "sent (set_fault e w) = sent w"
  "sent (w\<lparr>w_sta := heap\<rparr>) = sent w" "sent (w\<lparr>w_timers := t\<rparr>) = sent w" "sent (w\<lparr>w_bss := bs\<rparr>) = sent w"
  "sent (put_sta a f w) = sent w" "sent (upd_bss b g w) = sent w"
  "sent (register_timer ev h secs usecs b a w) = sent w" "sent (cancel_timer h b a w) = sent w"
  by (simp_all add: sent_def say_def set_fault_def put_sta_def upd_bss_def with_sta_def with_bss_def register_timer_def cancel_timer_def
      split: option.split prod.split)

lemma sent_counter [sent_simps]: "sent (add_counter c n w) = sent w"
  by (cases c) (simp_all add: sent_def)

lemma sent_with [sent_simps]:
  "(\<And>s. sent (f s w) = sent w) \<Longrightarrow> sent (with_sta a f w) = sent w"
  "(\<And>x. sent (g x w) = sent w) \<Longrightarrow> sent (with_bss b g w) = sent w"
  by (simp_all add: with_sta_def with_bss_def sent_basic split: option.split)

lemma sent_indications [sent_simps]:
  "sent (mlme_deletekeys_request a w) = sent w" "sent (ap_sta_set_authorized authorized b a w) = sent w"
  "sent (ieee802_1x_notify_port_enabled enabled a w) = sent w" "sent (ieee802_1x_free_station a w) = sent w"
  by (simp_all add: mlme_deletekeys_request_def ap_sta_set_authorized_def ieee802_1x_notify_port_enabled_def
      ieee802_1x_free_station_def sent_simps)

lemma sent_mlme [sent_simps]:
  "sent (mlme_disassociate_indication a reason w) = sent w" "sent (mlme_deauthenticate_indication a reason w) = sent w"
  by (simp_all add: mlme_disassociate_indication_def mlme_deauthenticate_indication_def sent_simps Let_def)

lemma sent_stats [sent_simps]: "sent (accounting_sta_update_stats ev a w) = sent w"
  by (simp add: accounting_sta_update_stats_def sent_simps split: option.split)

lemma sent_stop [sent_simps]: "sent (accounting_sta_report ev stop b a w) = sent w" "sent (accounting_sta_stop ev b a w) = sent w"
proof -
  show r: "sent (accounting_sta_report ev stop b a w) = sent w" for w stop
    unfolding accounting_sta_report_def
    by (rule sent_with sent_with(1))+ (simp add: sent_simps split: report_result.split)
  show "sent (accounting_sta_stop ev b a w) = sent w"
    unfolding accounting_sta_stop_def by (rule sent_with) (simp add: sent_simps r)
qed

lemma sent_counters [sent_simps]: "sent (ap_free_counters a w) = sent w"
proof -
  have u: "sent (uncount_sta c a w) = sent w" for c w by (simp add: uncount_sta_def sent_simps)
  have u11: "sent (snd (uncount_11g c a p)) = sent (snd p)" for c p
    by (cases p) (simp add: uncount_11g_def Let_def u sent_simps split: option.split)
  have e: "sent (snd (uncount_non_erp a w)) = sent w" by (simp add: uncount_non_erp_def Let_def u sent_simps split: option.split)
  have "sent (snd (uncount_11g No_short_preamble a (uncount_11g No_short_slot_time a (uncount_non_erp a w)))) = sent w"
    by (simp add: u11 e)
  then show ?thesis by (auto simp: ap_free_counters_def Let_def u sent_simps split: prod.split)
qed

lemma sent_free [sent_simps]: "sent (ap_free_sta ev b a w) = sent w"
proof -
  have l: "sent (ap_sta_list_del b a w) = sent w" "sent (ap_sta_hash_del b a w) = sent w" "sent (ap_sta_release_aid b a w) = sent w" for w
    by (simp_all add: ap_sta_list_del_def ap_sta_hash_del_def ap_sta_release_aid_def Let_def sent_simps split: sum.split)
  have w: "sent (with_sta a (\<lambda>s. with_bss b (\<lambda>bss. if sc_radius (bs_conf bss) then say (Radius_flush b (sta_addr s)) else id)) w) = sent w" for w
    by (simp add: sent_simps)
  show ?thesis by (simp add: ap_free_sta_def Let_def l w sent_simps cancel_sta_timers_def)
qed

section \<open>The inactivity timer\<close>

lemma flag_ops:
  "has_flag (set_flags f s) g \<longleftrightarrow> has_flag s g \<or> flag_set f g" "has_flag (clear_flags f s) g \<longleftrightarrow> flag_set (sta_flags s AND NOT f) g"
  by (auto simp: has_flag_def set_flags_def clear_flags_def flag_set_def bit_eq_iff bit_simps)

lemma station_after [simp]:
  "w_sta (say x w) = w_sta w" "w_sta (register_timer ev h secs usecs b a w) = w_sta w" "w_sta (cancel_timer h b a w) = w_sta w"
  "bss_at (say x w) i = bss_at w i" "bss_at (register_timer ev h secs usecs b a w) i = bss_at w i"
  by (simp_all add: say_def bss_at_def)

unbundle bit_operations_syntax

lemma flag_cleared: "\<not> flag_set (x AND NOT f) f"
  by (simp add: flag_set_def and.assoc)

lemma flag_other:
  fixes x f g :: u32
  assumes "f AND g = 0"
  shows "flag_set (x AND NOT f) g = flag_set x g" "flag_set (x OR f) g = flag_set x g"
proof -
  have n: "\<not> (bit f n \<and> bit g n)" for n
  proof -
    have "bit (f AND g) n = bit (0 :: u32) n" by (simp only: assms)
    then show ?thesis by (simp only: bit_and_iff bit_0_eq bot_apply bot_bool_def) simp
  qed
  have "(x AND NOT f) AND g = x AND g" "(x OR f) AND g = x AND g" using n by (intro bit_word_eqI; auto simp: bit_simps)+
  then show "flag_set (x AND NOT f) g = flag_set x g" "flag_set (x OR f) g = flag_set x g" by (simp_all add: flag_set_def)
qed

lemmas flag_gone = flag_cleared [of _ WLAN_STA_ASSOC, simplified] flag_cleared [of _ WLAN_STA_AUTHORIZED, simplified]

lemma handle_timer_at:
  assumes "bss_at w b = Some bss" and "w_sta w a = Some s"
  shows "ap_handle_timer ev b a w = (if st_timeout_next s = STA_REMOVE then ap_free_sta ev b a w
    else let (t, n) = poll_answered bss s (check_inactivity ev bss s); w1 = set_timeout_next t a w in
      if n \<noteq> 0 then register_timer ev Ap_handle_timer (word_of_int n) 0 b a w1 else timer_step ev b a t (timer_frame b a s t w1))"
  by (simp add: ap_handle_timer_def with_bss_at [OF assms(1)] with_sta_at [OF assms(2)] Let_def)

definition silent :: "sta_env \<Rightarrow> sta_bss \<Rightarrow> bool" where
  \<comment> \<open>the driver has heard nothing for too long\<close>
  "silent ev bss \<longleftrightarrow> ev_inact_sec ev \<noteq> - 1 \<and> bc_ap_max_inactivity (hd_conf (bs_hapd bss)) \<le> ev_inact_sec ev"

lemma poll_call:
  assumes b: "bss_at w b = Some bss" and s: "w_sta w a = Some s" and "silent ev bss" and "\<not> sc_skip_inactivity_poll (bs_conf bss)"
    and "has_flag s WLAN_STA_ASSOC" and "st_timeout_next s = STA_NULLFUNC"
  shows "w_sta (ap_handle_timer ev b a w) a = Some ((set_flags WLAN_STA_PENDING_POLL s)\<lparr>st_timeout_next := STA_DISASSOC\<rparr>)"
    "bss_at (ap_handle_timer ev b a w) b = Some bss"
    "sent (ap_handle_timer ev b a w) = sent w @ [Drv_poll_client b (sta_addr s) (has_flag s WLAN_STA_WMM)]"
proof -
  have s1: "(w_sta (set_timeout_next STA_NULLFUNC a w)) a = Some (s\<lparr>st_timeout_next := STA_NULLFUNC\<rparr>)"
    by (simp add: set_timeout_next_def put_sta_at [OF s])
  have p: "poll_answered bss s (check_inactivity ev bss s) = (STA_NULLFUNC, 0)"
    using assms by (simp add: check_inactivity_def poll_answered_def silent_def Let_def)
  have e: "ap_handle_timer ev b a w = timer_step ev b a STA_NULLFUNC (timer_frame b a s STA_NULLFUNC (set_timeout_next STA_NULLFUNC a w))"
    using assms by (simp add: handle_timer_at [OF b s] p)
  have f: "w_sta (timer_frame b a s STA_NULLFUNC (set_timeout_next STA_NULLFUNC a w)) a
      = Some (set_flags WLAN_STA_PENDING_POLL (s\<lparr>st_timeout_next := STA_NULLFUNC\<rparr>))"
    using assms by (simp add: timer_frame_def put_sta_at [OF s1])
  show "w_sta (ap_handle_timer ev b a w) a = Some ((set_flags WLAN_STA_PENDING_POLL s)\<lparr>st_timeout_next := STA_DISASSOC\<rparr>)"
    unfolding e by (simp add: timer_step_def set_timeout_next_def [of STA_DISASSOC] put_sta_at [OF f] set_flags_def)
  have "bss_at (timer_frame b a s STA_NULLFUNC (set_timeout_next STA_NULLFUNC a w)) b = Some bss"
    using assms by (simp add: timer_frame_def put_sta_at [OF s1]) (simp add: set_timeout_next_def put_sta_at [OF s])
  then show "bss_at (ap_handle_timer ev b a w) b = Some bss"
    unfolding e by (simp add: timer_step_def set_timeout_next_def [of STA_DISASSOC] put_sta_at [OF f])
  show "sent (ap_handle_timer ev b a w) = sent w @ [Drv_poll_client b (sta_addr s) (has_flag s WLAN_STA_WMM)]"
    unfolding e using assms by (simp add: timer_step_def timer_frame_def set_timeout_next_def sent_simps)
qed

lemma stop_keeps:
  assumes "w_sta w a = Some s"
  shows "\<exists>s'. w_sta (accounting_sta_stop ev b a w) a = Some s' \<and> sta_flags s' = sta_flags s \<and> sta_addr s' = sta_addr s"
proof -
  have "\<exists>s'. w_sta (accounting_sta_update_stats ev a w) a = Some s' \<and> sta_flags s' = sta_flags s \<and> sta_addr s' = sta_addr s"
    using assms by (simp add: accounting_sta_update_stats_def put_sta_at count_octets_def split: option.split prod.split)
  then have "\<exists>s'. w_sta (accounting_sta_report ev True b a w) a = Some s' \<and> sta_flags s' = sta_flags s \<and> sta_addr s' = sta_addr s"
    using assms by (cases "bss_at w b"; cases "ev_report ev a")
      (simp_all add: accounting_sta_report_def with_sta_at [OF assms] with_bss_def set_fault_def)
  then obtain s' where r: "w_sta (accounting_sta_report ev True b a w) a = Some s'" "sta_flags s' = sta_flags s" "sta_addr s' = sta_addr s"
    by blast
  have "w_sta (cancel_timer Accounting_interim_update b a (accounting_sta_report ev True b a w)) a = Some s'" using r by simp
  then show ?thesis using assms r
    by (simp add: accounting_sta_stop_def with_sta_at [OF assms] put_sta_at)
qed

lemma leave_call:
  assumes ok: "world_ok w" and o: "owned w b a" and b: "bss_at w b = Some bss" and s: "w_sta w a = Some s" and "silent ev bss"
    and "has_flag s WLAN_STA_ASSOC" and "has_flag s WLAN_STA_PENDING_POLL" and "st_timeout_next s = STA_DISASSOC"
  shows "\<exists>s'. w_sta (ap_handle_timer ev b a w) a = Some s' \<and> sta_addr s' = sta_addr s \<and> st_timeout_next s' = STA_DEAUTH
      \<and> \<not> has_flag s' WLAN_STA_ASSOC \<and> \<not> has_flag s' WLAN_STA_AUTHORIZED"
    "bss_at (ap_handle_timer ev b a w) b \<noteq> None"
    "sent (ap_handle_timer ev b a w) = sent w @ [Drv_sta_disassoc b (sta_addr s) WLAN_REASON_DISASSOC_DUE_TO_INACTIVITY]"
proof -
  have t: "tables_ok w" and l: "live w a" using ok s by (simp_all add: world_ok_def live_iff)
  have p: "poll_answered bss s (check_inactivity ev bss s) = (STA_DISASSOC, 0)"
    using assms by (simp add: check_inactivity_def poll_answered_def silent_def Let_def)
  define w1 where "w1 = timer_frame b a s STA_DISASSOC (set_timeout_next STA_DISASSOC a w)"
  have e: "ap_handle_timer ev b a w = timer_step ev b a STA_DISASSOC w1"
    using assms by (simp add: handle_timer_at [OF b s] p w1_def)
  have c1: "calm w w1" unfolding w1_def by (intro calm_rules l calm_refl)
  have c2: "calm w (timer_step ev b a STA_DISASSOC w1)"
    unfolding timer_step_def Let_def by (simp add: calm_rules keeps_rules o l t c1)
  show "bss_at (ap_handle_timer ev b a w) b \<noteq> None" unfolding e using calm_bss [OF c2, of b] b by simp
  show "sent (ap_handle_timer ev b a w) = sent w @ [Drv_sta_disassoc b (sta_addr s) WLAN_REASON_DISASSOC_DUE_TO_INACTIVITY]"
    unfolding e by (simp add: timer_step_def w1_def timer_frame_def set_timeout_next_def sent_simps)
  have s1: "w_sta w1 a = Some (s\<lparr>st_timeout_next := STA_DISASSOC\<rparr>)"
    by (simp add: w1_def timer_frame_def set_timeout_next_def put_sta_at [OF s])
  have s1_said: "w_sta (say x w1) a = Some (s\<lparr>st_timeout_next := STA_DISASSOC\<rparr>)" for x by (simp add: s1)
  define w2 where "w2 = ap_sta_set_authorized False b a w1"
  obtain s2 where s2: "w_sta w2 a = Some s2" "sta_addr s2 = sta_addr s" "\<not> has_flag s2 WLAN_STA_AUTHORIZED"
    by (cases "has_flag s WLAN_STA_AUTHORIZED")
       (simp_all add: w2_def ap_sta_set_authorized_def with_sta_at [OF s1] put_sta_at [OF s1_said] s1 has_flag_def clear_flags_def flag_gone)
  define w3 where "w3 = put_sta a idle_cause (ieee802_1x_notify_port_enabled False a (put_sta a (clear_flags WLAN_STA_ASSOC) w2))"
  have "\<exists>s3. w_sta w3 a = Some s3 \<and> sta_addr s3 = sta_addr s \<and> sta_flags s3 = sta_flags s2 AND NOT WLAN_STA_ASSOC"
    using s2 by (simp add: w3_def ieee802_1x_notify_port_enabled_def with_sta_def put_sta_def clear_flags_def idle_cause_def say_def)
  then obtain s3 where s3: "w_sta w3 a = Some s3" "sta_addr s3 = sta_addr s" "sta_flags s3 = sta_flags s2 AND NOT WLAN_STA_ASSOC" by blast
  define w4 where "w4 = accounting_sta_stop ev b a w3"
  obtain s4 where s4: "w_sta w4 a = Some s4" "sta_flags s4 = sta_flags s3" "sta_addr s4 = sta_addr s3"
    using stop_keeps [OF s3(1)] by (auto simp: w4_def)
  define w5 where "w5 = set_timeout_next STA_DEAUTH a (ieee802_1x_free_station a w4)"
  have s5: "w_sta w5 a = Some (s4\<lparr>st_eapol_sm := False, st_timeout_next := STA_DEAUTH\<rparr>)"
    by (simp add: w5_def set_timeout_next_def ieee802_1x_free_station_def put_sta_def with_sta_def s4)
  have "timer_step ev b a STA_DISASSOC w1 = mlme_disassociate_indication a WLAN_REASON_DISASSOC_DUE_TO_INACTIVITY
      (register_timer ev Ap_handle_timer AP_DEAUTH_DELAY 0 b a w5)"
    by (simp add: timer_step_def Let_def w5_def w4_def w3_def w2_def)
  then have "w_sta (ap_handle_timer ev b a w) a = Some (s4\<lparr>st_eapol_sm := False, st_timeout_next := STA_DEAUTH\<rparr>)"
    unfolding e by (simp add: mlme_disassociate_indication_def mlme_deletekeys_request_def with_sta_def s5)
  moreover have "\<not> flag_set (sta_flags s2 AND NOT WLAN_STA_ASSOC) WLAN_STA_AUTHORIZED"
    using s2(3) flag_other(1) [of WLAN_STA_ASSOC WLAN_STA_AUTHORIZED] by (simp add: has_flag_def)
  moreover note flag_cleared [of "sta_flags s2" WLAN_STA_ASSOC]
  ultimately show "\<exists>s'. w_sta (ap_handle_timer ev b a w) a = Some s' \<and> sta_addr s' = sta_addr s \<and> st_timeout_next s' = STA_DEAUTH
      \<and> \<not> has_flag s' WLAN_STA_ASSOC \<and> \<not> has_flag s' WLAN_STA_AUTHORIZED"
    using s4 s3 by (simp add: has_flag_def)
qed

lemma last_call:
  assumes b: "bss_at w b \<noteq> None" and s: "w_sta w a = Some s" and "\<not> has_flag s WLAN_STA_ASSOC" and "st_timeout_next s = STA_DEAUTH"
  shows "w_sta (ap_handle_timer ev b a w) a = None"
    "sent (ap_handle_timer ev b a w) = sent w @ [Drv_sta_deauth b (sta_addr s) WLAN_REASON_PREV_AUTH_NOT_VALID]"
proof -
  obtain bss where b': "bss_at w b = Some bss" using b by auto
  have p: "poll_answered bss s (check_inactivity ev bss s) = (STA_DEAUTH, 0)"
    using assms by (simp add: check_inactivity_def poll_answered_def Let_def)
  have e: "ap_handle_timer ev b a w = timer_step ev b a STA_DEAUTH (timer_frame b a s STA_DEAUTH (set_timeout_next STA_DEAUTH a w))"
    using assms by (simp add: handle_timer_at [OF b' s] p)
  show "w_sta (ap_handle_timer ev b a w) a = None" unfolding e by (simp add: timer_step_def ap_free_sta_def Let_def)
  show "sent (ap_handle_timer ev b a w) = sent w @ [Drv_sta_deauth b (sta_addr s) WLAN_REASON_PREV_AUTH_NOT_VALID]"
    unfolding e by (simp add: timer_step_def timer_frame_def set_timeout_next_def sent_simps)
qed

section \<open>Counts of octets\<close>

lemma gigawords_step:
  fixes t t' :: nat
  assumes "t \<le> t'" and "t' - t < 2 ^ 32"
  shows "t' div 2 ^ 32 = t div 2 ^ 32 + (if (of_nat t :: u32) > of_nat t' then 1 else 0)"
proof -
  have u: "unat (of_nat n :: u32) = n mod 2 ^ 32" for n by (simp add: unat_of_nat)
  have lt: "(of_nat t :: u32) > of_nat t' \<longleftrightarrow> t' mod 2 ^ 32 < t mod 2 ^ 32" by (simp add: word_less_nat_alt u)
  define q r q' r' where d: "q = t div 2 ^ 32" "r = t mod 2 ^ 32" "q' = t' div 2 ^ 32" "r' = t' mod 2 ^ 32"
  have t: "t = q * 2 ^ 32 + r" "t' = q' * 2 ^ 32 + r'" "r < 2 ^ 32" "r' < 2 ^ 32" by (simp_all add: d)
  have "q' = q + (if r' < r then 1 else 0)" using assms t by (auto split: if_splits; presburger)
  then show ?thesis by (simp add: lt d)
qed

end
