(* ===== verification/Sta_Props.thy ===== *)
theory Sta_Props
  imports Sta_Steps
begin

unbundle bit_operations_syntax

text \<open>
  The properties of the station table, with an example of a table at which they are applied.
\<close>

section \<open>An example\<close>

definition ex_sta_conf :: sta_conf where
  "ex_sta_conf = \<lparr>sc_iface = ''wlan0'', sc_max_num_sta = 2007, sc_acct_interim_interval = 0, sc_acct_server = False,
     sc_radius = False, sc_skip_inactivity_poll = False, sc_sa_query_max_timeout = 1000, sc_sa_query_retry_timeout = 201,
     sc_max_listen_interval = 65535, sc_wds_sta = False, sc_osen = False, sc_ieee802_11f = False, sc_ssid_vlan = [],
     sc_dynamic_vlan = False\<rparr>"

definition ex_station :: station where
  "ex_station = zero_station\<lparr>sta_addr := [2, 0, 0, 0, 0, 5], sta_flags := 3\<rparr>"

definition ex_sta_bss :: sta_bss where
  "ex_sta_bss = \<lparr>bs_hapd = ex_hapd, bs_conf = ex_sta_conf, bs_list = [7], bs_hash = (\<lambda>h. if h = 5 then [7] else []),
     bs_num_sta = 1, bs_aid = replicate 63 0, bs_acct_session_id_hi = 0, bs_acct_session_id_lo = 0,
     bs_tkip_countermeasures = False, bs_vlan = [],
     bs_acl_conf = \<lparr>ac_macaddr_acl = ACCEPT_UNLESS_DENIED, ac_accept_mac = [], ac_deny_mac = [], ac_auth_server = False, ac_psk_required = False\<rparr>,
     bs_acl = \<lparr>as_cache = [], as_queries = []\<rparr>\<rparr>"

definition ex_world :: ap_world where
  "ex_world = \<lparr>w_iface = ex_iface (Some (ex_mode [])), w_ap_teardown = False, w_ht_counter = (\<lambda>c. 0),
     w_bss = [Some ex_sta_bss], w_sta = [7 \<mapsto> ex_station], w_timers = [], w_out = [], w_fault = None\<rparr>"

definition ex_sta_env :: sta_env where
  "ex_sta_env = \<lparr>ev_alloc = Some 8, ev_register = (\<lambda>h b a. (True, Some (ex_at 10))), ev_clock = ex_at 10, ev_drv = (\<lambda>x. 0),
     ev_inact_sec = 400, ev_random = 7, ev_stats = (\<lambda>a. None), ev_report = (\<lambda>a. Report_not_built), ev_account_start = False,
     ev_eapol = False, ev_trans_id = None\<rparr>"

lemma ex_world_at:
  "bss_at ex_world 0 = Some ex_sta_bss" "w_sta ex_world 7 = Some ex_station" "owned ex_world 0 7" "aid_at (w_sta ex_world) 7 = 0"
  by (simp_all add: bss_at_def ex_world_def owned_def ex_sta_bss_def aid_at_def ex_station_def zero_station_def)

lemma ex_world_ok: "world_ok ex_world"
proof -
  have heap: "w_sta ex_world = [7 \<mapsto> ex_station]" by (simp add: ex_world_def)
  have addr: "addr_at [7 \<mapsto> ex_station] a = (if a = 7 then Some [2, 0, 0, 0, 0, 5] else None)" for a
    by (simp add: addr_at_def ex_station_def)
  have aid: "aid_at [7 \<mapsto> ex_station] a = 0" for a by (simp add: aid_at_def ex_station_def zero_station_def)
  have at: "bss_at ex_world b = (if b = 0 then Some ex_sta_bss else None)" for b by (simp add: bss_at_def ex_world_def)
  have own: "owned ex_world b a \<longleftrightarrow> b = 0 \<and> a = 7" for a b by (simp add: owned_def at ex_sta_bss_def)
  have bit0: "\<not> aid_bit (replicate 63 0) n" if "n < 63 * 32" for n using that by (simp add: aid_bit_def)
  have "list_ok (w_sta ex_world) ex_sta_bss" by (simp add: list_ok_def heap addr ex_sta_bss_def)
  moreover have "hash_ok (w_sta ex_world) ex_sta_bss" by (auto simp: hash_ok_def heap addr ex_sta_bss_def STA_HASH_def)
  moreover have "aids_ok (w_sta ex_world) ex_sta_bss" using bit0 by (simp add: aids_ok_def heap aid ex_sta_bss_def)
  ultimately have "tables_ok ex_world" by (auto simp: tables_ok_def at own heap addr split: if_split_asm)
  moreover have "counters_ok ex_world"
  proof -
    have "counter_of c ex_world = 0" for c by (cases c) (simp_all add: ex_world_def ex_iface_def)
    moreover have "counted_at [7 \<mapsto> ex_station] a c = False" for a c by (simp add: counted_at_def ex_station_def zero_station_def)
    ultimately show ?thesis by (simp add: counters_ok_def heap)
  qed
  ultimately show ?thesis
    by (simp add: world_ok_def no_bad_access_def timers_live_def accounts_ok_def ex_world_def ex_iface_def eloop_pending_def)
qed

section \<open>Properties\<close>

lemma flag_set_or: "flag_set (x OR y) f \<longleftrightarrow> flag_set x f \<or> flag_set y f"
  by (simp add: flag_set_def bit.conj_disj_distrib2 or_eq_0_iff)


text \<open>C19: The hash table of the stations refines the list of stations that the beacons read: in a consistent
  table, a lookup by address never goes through the address of a freed station, and finds the
  station of the list with this address, or none if the list has none.\<close>

theorem hash_lookup_refines_list:
  assumes "world_ok w" and "bss_at w b = Some bss"
  shows "\<exists>r. table_get_sta bss (w_sta w) addr = Inr r
    \<and> map_option (\<lambda>a. sta_info.truncate (the (w_sta w a))) r = ap_get_sta (stations_as (w_sta w) bss) addr"
  using assms by (rule hash_finds)

text \<open>C20: A station without an AID gets the least one from 1 to 2007 that no station of its BSS has, and nothing
  else of the table changes; the request fails exactly when all 2007 are in use.\<close>

theorem aid_least_free:
  assumes "world_ok w" and "owned w b a" and "aid_at (w_sta w) a = 0"
  shows "(\<exists>w' n. hostapd_get_aid b a w = (0, w') \<and> 1 \<le> n \<and> n \<le> 2007 \<and> n \<notin> aids_used w b \<and> {1..<n} \<subseteq> aids_used w b
      \<and> world_ok w' \<and> owned w' = owned w \<and> aid_at (w_sta w') = (aid_at (w_sta w))(a := n))
    \<or> hostapd_get_aid b a w = (- 1, w) \<and> {1..2007} \<subseteq> aids_used w b"
  using get_aid_result [OF assms] by blast

theorem hash_lookup_refines_list_witness:
  "\<exists>r. table_get_sta ex_sta_bss (w_sta ex_world) [2, 0, 0, 0, 0, 5] = Inr r
    \<and> map_option (\<lambda>a. sta_info.truncate (the (w_sta ex_world a))) r
      = ap_get_sta (stations_as (w_sta ex_world) ex_sta_bss) [2, 0, 0, 0, 0, 5]"
  by (rule hash_lookup_refines_list [OF ex_world_ok ex_world_at(1)])

theorem aid_least_free_witness:
  "(\<exists>w' n. hostapd_get_aid 0 7 ex_world = (0, w') \<and> 1 \<le> n \<and> n \<le> 2007 \<and> n \<notin> aids_used ex_world 0 \<and> {1..<n} \<subseteq> aids_used ex_world 0
      \<and> world_ok w' \<and> owned w' = owned ex_world \<and> aid_at (w_sta w') = (aid_at (w_sta ex_world))(7 := n))
    \<or> hostapd_get_aid 0 7 ex_world = (- 1, ex_world) \<and> {1..2007} \<subseteq> aids_used ex_world 0"
  by (rule aid_least_free [OF ex_world_ok ex_world_at(3,4)])

text \<open>C11: A silent station is let go in three steps. If the driver has not heard of an associated station for the
  inactivity limit, the first call of its timer polls it; if the poll is not acknowledged, the second
  disassociates it, and the third deauthenticates it and frees it. These are the frames that it is
  sent, in this order.\<close>

theorem silent_station_removed:
  assumes ok: "world_ok w" and o: "owned w b a" and bss: "bss_at w b = Some bss" and s: "w_sta w a = Some s"
    and silent: "silent ev1 bss" "silent ev2 bss" and poll: "\<not> sc_skip_inactivity_poll (bs_conf bss)"
    and assoc: "has_flag s WLAN_STA_ASSOC" "st_timeout_next s = STA_NULLFUNC"
  shows "\<exists>w3. w3 = ap_handle_timer ev3 b a (ap_handle_timer ev2 b a (ap_handle_timer ev1 b a w)) \<and> w_sta w3 a = None
    \<and> sent w3 = sent w @ [Drv_poll_client b (sta_addr s) (has_flag s WLAN_STA_WMM),
        Drv_sta_disassoc b (sta_addr s) WLAN_REASON_DISASSOC_DUE_TO_INACTIVITY,
        Drv_sta_deauth b (sta_addr s) WLAN_REASON_PREV_AUTH_NOT_VALID]"
proof -
  define w1 where "w1 = ap_handle_timer ev1 b a w"
  define w2 where "w2 = ap_handle_timer ev2 b a w1"
  define s1 where "s1 = (set_flags WLAN_STA_PENDING_POLL s)\<lparr>st_timeout_next := STA_DISASSOC\<rparr>"
  note p = poll_call [OF bss s silent(1) poll assoc, folded w1_def s1_def]
  have k: "kept_by w w1" unfolding w1_def by (rule handle_timer_ok [OF ok o])
  have o1: "owned w1 b a" using o bss p(2) by (simp add: owned_def)
  have f: "has_flag s1 WLAN_STA_ASSOC" "has_flag s1 WLAN_STA_PENDING_POLL" "st_timeout_next s1 = STA_DISASSOC" "sta_addr s1 = sta_addr s"
    using assoc by (simp_all add: s1_def has_flag_def set_flags_def flag_set_or) (simp_all add: flag_set_def)
  note l = leave_call [OF _ o1 p(2,1) silent(2) f(1-3), folded w2_def]
  obtain s2 where s2: "w_sta w2 a = Some s2" "sta_addr s2 = sta_addr s1" "st_timeout_next s2 = STA_DEAUTH" "\<not> has_flag s2 WLAN_STA_ASSOC"
    using l(1) k by (auto simp: kept_by_def)
  have b2: "bss_at w2 b \<noteq> None" using l(2) k by (simp add: kept_by_def)
  note d = last_call [OF b2 s2(1,4,3), of ev3]
  have "sent w2 = sent w @ [Drv_poll_client b (sta_addr s) (has_flag s WLAN_STA_WMM),
        Drv_sta_disassoc b (sta_addr s) WLAN_REASON_DISASSOC_DUE_TO_INACTIVITY]"
    using l(3) p(3) k f(4) by (simp add: kept_by_def)
  then show ?thesis using d s2(2) f(4) by (simp add: w1_def w2_def)
qed

theorem silent_station_removed_witness:
  "\<exists>w3. w3 = ap_handle_timer ex_sta_env 0 7 (ap_handle_timer ex_sta_env 0 7 (ap_handle_timer ex_sta_env 0 7 ex_world)) \<and> w_sta w3 7 = None
    \<and> sent w3 = sent ex_world @ [Drv_poll_client 0 (sta_addr ex_station) (has_flag ex_station WLAN_STA_WMM),
        Drv_sta_disassoc 0 (sta_addr ex_station) WLAN_REASON_DISASSOC_DUE_TO_INACTIVITY,
        Drv_sta_deauth 0 (sta_addr ex_station) WLAN_REASON_PREV_AUTH_NOT_VALID]"
  by (rule silent_station_removed [OF ex_world_ok ex_world_at(3,1,2), of ex_sta_env ex_sta_env])
     (simp_all add: silent_def ex_sta_env_def ex_sta_bss_def ex_hapd_def ex_bss_def ex_sta_conf_def ex_station_def zero_station_def
        has_flag_def flag_set_def)

text \<open>C39: A poll that is answered keeps the station: if its acknowledgement has cleared the flag of the
  outstanding poll, the next call of the timer changes nothing of the station but back to waiting, sends
  nothing, and comes again after the inactivity limit.\<close>

theorem answered_poll_keeps_station:
  assumes "bss_at w b = Some bss" and "w_sta w a = Some s" and "silent ev bss" and "\<not> sc_skip_inactivity_poll (bs_conf bss)"
    and "has_flag s WLAN_STA_ASSOC" and "\<not> has_flag s WLAN_STA_PENDING_POLL" and "st_timeout_next s = STA_DISASSOC"
    and "bc_ap_max_inactivity (hd_conf (bs_hapd bss)) \<noteq> 0"
  shows "ap_handle_timer ev b a w = register_timer ev Ap_handle_timer
    (word_of_int (bc_ap_max_inactivity (hd_conf (bs_hapd bss)))) 0 b a (w\<lparr>w_sta := (w_sta w)(a \<mapsto> s\<lparr>st_timeout_next := STA_NULLFUNC\<rparr>)\<rparr>)"
proof -
  have "poll_answered bss s (check_inactivity ev bss s) = (STA_NULLFUNC, bc_ap_max_inactivity (hd_conf (bs_hapd bss)))"
    using assms by (simp add: check_inactivity_def poll_answered_def silent_def Let_def)
  then show ?thesis using assms by (simp add: handle_timer_at [OF assms(1,2)] set_timeout_next_def put_sta_at [OF assms(2)])
qed

definition ex_polled :: station where
  "ex_polled = ex_station\<lparr>st_timeout_next := STA_DISASSOC\<rparr>"

theorem answered_poll_keeps_station_witness:
  "ap_handle_timer ex_sta_env 0 7 (ex_world\<lparr>w_sta := [7 \<mapsto> ex_polled]\<rparr>) = register_timer ex_sta_env Ap_handle_timer
    (word_of_int (bc_ap_max_inactivity (hd_conf (bs_hapd ex_sta_bss)))) 0 0 7
    ((ex_world\<lparr>w_sta := [7 \<mapsto> ex_polled]\<rparr>)\<lparr>w_sta := (w_sta (ex_world\<lparr>w_sta := [7 \<mapsto> ex_polled]\<rparr>))(7 \<mapsto> ex_polled\<lparr>st_timeout_next := STA_NULLFUNC\<rparr>)\<rparr>)"
  by (rule answered_poll_keeps_station)
     (simp_all add: bss_at_def ex_world_def silent_def ex_sta_env_def ex_sta_bss_def ex_hapd_def ex_bss_def ex_sta_conf_def ex_polled_def
        ex_station_def zero_station_def has_flag_def flag_set_def)

definition read_counts :: "(nat \<times> nat) list \<Rightarrow> station \<Rightarrow> station" where
  \<comment> \<open>the totals at each reading, of which the driver gives the low 32 bits\<close>
  "read_counts ts s = foldl (\<lambda>s (rx, tx). count_octets (of_nat rx, of_nat tx) s) s ts"

fun often_read :: "nat \<times> nat \<Rightarrow> (nat \<times> nat) list \<Rightarrow> bool" where
  "often_read t [] = True"
| "often_read (rx, tx) ((rx', tx') # ts) =
     (rx \<le> rx' \<and> rx' - rx < 2 ^ 32 \<and> tx \<le> tx' \<and> tx' - tx < 2 ^ 32 \<and> often_read (rx', tx') ts)"

definition counts :: "nat \<times> nat \<Rightarrow> station \<Rightarrow> bool" where
  "counts = (\<lambda>(rx, tx) s. st_last_rx_bytes s = of_nat rx \<and> st_acct_input_gigawords s = of_nat (rx div 2 ^ 32)
     \<and> st_last_tx_bytes s = of_nat tx \<and> st_acct_output_gigawords s = of_nat (tx div 2 ^ 32))"

lemma counts_read: "often_read t ts \<Longrightarrow> counts t s \<Longrightarrow> counts (last (t # ts)) (read_counts ts s)"
proof (induction t ts arbitrary: s rule: often_read.induct)
  case (2 rx tx rx' tx' ts)
  have "counts (rx', tx') (count_octets (of_nat rx', of_nat tx') s)"
    using 2 gigawords_step [of rx rx'] gigawords_step [of tx tx'] by (simp add: counts_def count_octets_def)
  then show ?case using 2 by (simp add: read_counts_def)
qed (simp_all add: read_counts_def)

lemma counts_total:
  assumes "counts (rx, tx) s"
  shows "(unat (st_acct_input_gigawords s) * 2 ^ 32 + unat (st_last_rx_bytes s)) = rx mod 2 ^ 64"
    "(unat (st_acct_output_gigawords s) * 2 ^ 32 + unat (st_last_tx_bytes s)) = tx mod 2 ^ 64"
proof -
  have "unat (of_nat (n div 2 ^ 32) :: u32) * 2 ^ 32 + unat (of_nat n :: u32) = n mod 2 ^ 64" for n
    using mod_mult2_eq [of n "2 ^ 32" "2 ^ 32"] by (simp add: unat_of_nat)
  then show "(unat (st_acct_input_gigawords s) * 2 ^ 32 + unat (st_last_rx_bytes s)) = rx mod 2 ^ 64"
    "(unat (st_acct_output_gigawords s) * 2 ^ 32 + unat (st_last_tx_bytes s)) = tx mod 2 ^ 64"
    using assms by (simp_all add: counts_def)
qed

text \<open>C35: The counts of octets are exact to 64 bits: if the driver's counters of 32 bits are read at least once
  every \<open>2 ^ 32\<close> octets, the gigawords and the last reading are together the octets received and sent,
  modulo \<open>2 ^ 64\<close>.\<close>

theorem octet_counts_exact:
  assumes "often_read (0, 0) ts" and "last ((0, 0) # ts) = (rx, tx)" and "counts (0, 0) s" and "s' = read_counts ts s"
  shows "unat (st_acct_input_gigawords s') * 2 ^ 32 + unat (st_last_rx_bytes s') = rx mod 2 ^ 64
    \<and> unat (st_acct_output_gigawords s') * 2 ^ 32 + unat (st_last_tx_bytes s') = tx mod 2 ^ 64"
  using counts_total [of rx tx s'] counts_read [OF assms(1,3)] assms(2,4) by simp

theorem octet_counts_exact_witness:
  "unat (st_acct_input_gigawords (read_counts [(4000000000, 7), (5000000000, 9)] zero_station)) * 2 ^ 32
      + unat (st_last_rx_bytes (read_counts [(4000000000, 7), (5000000000, 9)] zero_station)) = 5000000000 mod 2 ^ 64
    \<and> unat (st_acct_output_gigawords (read_counts [(4000000000, 7), (5000000000, 9)] zero_station)) * 2 ^ 32
      + unat (st_last_tx_bytes (read_counts [(4000000000, 7), (5000000000, 9)] zero_station)) = 9 mod 2 ^ 64"
  by (rule octet_counts_exact) (simp_all add: counts_def zero_station_def)

end
