(* ===== verification/Mlme_Inv.thy ===== *)
theory Mlme_Inv
  imports Mlme Sta_Props
begin

text \<open>
  The handlers of \<open>Mlme\<close> and the invariant of the station table: every handler for a frame from the
  air, every status of a frame that was sent and every reply of the RADIUS server leaves a consistent
  table.
\<close>

unbundle bit_operations_syntax

definition good :: "ap_world \<Rightarrow> ap_world \<Rightarrow> bool" where
  \<comment> \<open>a consistent world, set up as before\<close>
  "good w w' \<longleftrightarrow> world_ok w' \<and> same_setup w w'"

lemma calm_good: "good w0 w \<Longrightarrow> calm w w' \<Longrightarrow> good w0 w'"
  using calm_ok calm_setup setup_trans by (auto simp: good_def)

lemma good_refl: "world_ok w \<Longrightarrow> good w w"
  by (simp add: good_def)

lemmas ok_good = calm_good [OF good_refl]

lemma free_good: "world_ok w \<Longrightarrow> owned w b a \<Longrightarrow> calm w w' \<Longrightarrow> good w (ap_free_sta ev b a w')"
  using calm_free_ok(1) setup_trans [OF calm_setup setup_free] calm_ok calm_owned by (simp add: good_def)

section \<open>Calm handlers\<close>

lemma with_found_cases:
  assumes "world_ok w" and "bss_at w b \<noteq> None" and "P (f None w)"
    and "\<And>a. owned w b a \<Longrightarrow> live w a \<Longrightarrow> addr_at (w_sta w) a = Some addr \<Longrightarrow> P (f (Some a) w)"
  shows "P (with_found b addr f w)"
proof -
  obtain bss where b: "bss_at w b = Some bss" using assms(2) by auto
  have t: "tables_ok w" and l: "list_ok (w_sta w) bss" "hash_ok (w_sta w) bss"
    using assms(1) b by (auto simp: world_ok_def tables_ok_def)
  have e: "with_found b addr f w = f (find (\<lambda>a. addr_at (w_sta w) a = Some addr) (bs_list bss)) w"
    using table_get_sta_iff [OF l, of addr] by (simp add: with_found_def with_bss_def b)
  show ?thesis
  proof (cases "find (\<lambda>a. addr_at (w_sta w) a = Some addr) (bs_list bss)")
    case None
    then show ?thesis using assms(3) by (simp add: e)
  next
    case (Some a)
    then have "owned w b a" "addr_at (w_sta w) a = Some addr" using b by (auto simp: find_Some_iff owned_def)
    then show ?thesis using assms(4) tables_live [OF t] by (simp add: e Some)
  qed
qed

lemma pair_calm [calm_rules]:
  "(\<And>y z. p = (y, z) \<Longrightarrow> calm w0 (snd (g y z))) \<Longrightarrow> calm w0 (snd (case p of (y, z) \<Rightarrow> g y z))"
  "(c \<Longrightarrow> calm w0 (snd u)) \<Longrightarrow> (\<not> c \<Longrightarrow> calm w0 (snd v)) \<Longrightarrow> calm w0 (snd (if c then u else v))"
  "calm w0 w \<Longrightarrow> calm w0 (snd (r, w))"
  by (simp_all split: prod.split)

lemma station_at: "live w0 a \<Longrightarrow> calm w0 w \<Longrightarrow> \<exists>s. w_sta w a = Some s"
  using calm_live live_iff by blast

lemma table_of_more [simp]:
  "table_of (x\<lparr>bs_acl := v\<rparr>) = table_of x" "table_of (x\<lparr>bs_hapd := h\<rparr>) = table_of x"
  by (simp_all add: table_of_def)

lemma keeps_mlme [keeps_rules]:
  "keeps_table (\<lambda>s. s\<lparr>st_challenge := c\<rparr>)" "keeps_table (\<lambda>s. s\<lparr>st_acct_interim_interval := i\<rparr>)"
  "keeps_table (\<lambda>s. s\<lparr>st_auth_alg := alg\<rparr>)" "keeps_table (\<lambda>s. s\<lparr>st_supported_rates := r\<rparr>)"
  "keeps_table (\<lambda>s. s\<lparr>st_wpa_sm := m\<rparr>)" "keeps_table (\<lambda>s. s\<lparr>st_sa_query_timed_out := t\<rparr>)"
  "keeps_table (\<lambda>s. s\<lparr>st_capability := u, st_listen_interval := l\<rparr>)" "keeps_table (\<lambda>s. (clear_flags f s)\<lparr>st_qosinfo := q\<rparr>)"
  "keeps_table (\<lambda>s. (set_flags f s)\<lparr>st_qosinfo := q\<rparr>)" "keeps_table (\<lambda>s. (set_flags f s)\<lparr>st_timeout_next := n\<rparr>)"
  "keeps_table (\<lambda>s. clear_flags f (set_flags g s))" "keeps_table (\<lambda>s. s\<lparr>sta_ssid_probe := p s\<rparr>)"
  by (simp_all add: keeps_table_def set_flags_def clear_flags_def)

lemma shared_key_calm [calm_rules]:
  assumes "live w0 a" and "calm w0 w"
  shows "calm w0 (snd (auth_shared_key ev t c iswep a w))"
proof -
  obtain s where s: "w_sta w a = Some s" using station_at [OF assms] by blast
  show ?thesis unfolding auth_shared_key_def s
    using assms by (auto intro!: calm_rules keeps_rules split: option.split)
qed

lemma prepare_auth_calm [calm_rules]:
  assumes "owned w0 b a" and "live w0 a" and "calm w0 w"
  shows "calm w0 (prepare_auth ev bss ans b a w)"
  unfolding prepare_auth_def Let_def ap_sta_session_timeout_def ap_sta_no_session_timeout_def
  using assms by (intro calm_rules keeps_rules; simp)

lemma auth_switch_calm [calm_rules]:
  assumes "live w0 a" and "calm w0 w"
  shows "calm w0 (snd (snd (auth_switch ev alg t c iswep a w)))"
proof -
  have "calm w0 (mlme_authenticate_indication a (put_sta a (\<lambda>s. s\<lparr>st_auth_alg := g\<rparr>) (snd (auth_shared_key ev t c iswep a w))))" for g
    using assms by (intro calm_rules keeps_rules)
  moreover have "calm w0 (mlme_authenticate_indication a (put_sta a (\<lambda>s. s\<lparr>st_auth_alg := g\<rparr>)
      (wpa_auth_sm_event a WPA_AUTH (put_sta a (set_flags WLAN_STA_AUTH) w))))" for g
    using assms by (intro calm_rules keeps_rules)
  ultimately show ?thesis unfolding auth_switch_def Let_def using assms by (auto split: prod.split)
qed

lemma auth_reply_calm [calm_rules]:
  assumes "bss_at w0 b \<noteq> None" and "calm w0 w"
  shows "calm w0 (send_auth_reply ev dst bssid alg t resp ies b w)"
  unfolding send_auth_reply_def using assms by (intro calm_rules)

lemma check_wmm_calm [calm_rules]: "live w0 a \<Longrightarrow> calm w0 w \<Longrightarrow> calm w0 (snd (check_wmm bss ie a w))"
  unfolding check_wmm_def Let_def by (auto intro!: calm_rules keeps_rules split: option.split)

lemma supp_rates_calm [calm_rules]: "live w0 a \<Longrightarrow> calm w0 w \<Longrightarrow> calm w0 (snd (copy_supp_rates elems a w))"
  unfolding copy_supp_rates_def by (auto intro!: calm_rules keeps_rules)

lemma check_mfp_calm [calm_rules]:
  assumes "owned w0 b a" and "live w0 a" and "calm w0 w"
  shows "calm w0 (snd (check_mfp ev reassoc b a w))"
proof -
  define w1 where "w1 = with_sta a (\<lambda>s w. if query_pending_mfp s \<and> st_sa_query_trans_id s \<noteq> []
    then snd (ap_check_sa_query_timeout (me_sta ev) b a w) else w) w"
  have c: "calm w0 w1" unfolding w1_def using assms owned_bss [OF assms(1)] by (intro calm_rules)
  obtain s where s: "w_sta w1 a = Some s" using station_at [OF assms(2) c] by blast
  show ?thesis unfolding check_mfp_def Let_def w1_def [symmetric] s
    using assms(1,2) c by (auto intro!: calm_rules keeps_rules)
qed

lemma check_wpa_calm [calm_rules]:
  assumes "owned w0 b a" and "live w0 a" and "calm w0 w"
  shows "calm w0 (snd (check_wpa ev bss elems reassoc b a w))"
proof -
  define w1 where "w1 = with_sta a (\<lambda>s w. if st_wpa_sm s then w else put_sta a (\<lambda>s. s\<lparr>st_wpa_sm := me_wpa_init ev\<rparr>) w) w"
  have c: "calm w0 w1" unfolding w1_def using assms by (intro calm_rules keeps_rules)
  obtain s where s: "w_sta w1 a = Some s" using station_at [OF assms(2) c] by blast
  have n: "calm w0 (with_sta a (\<lambda>s. if st_wpa_sm s then say (Wpa_sta_no_wpa a) else id) w)" using assms by (intro calm_rules)
  show ?thesis
  proof (cases "wpa_element (bc_wpa (hd_conf (bs_hapd bss))) elems")
    case None
    then show ?thesis unfolding check_wpa_def Let_def using n assms(3) by simp
  next
    case (Some ie)
    then show ?thesis unfolding check_wpa_def Let_def using n c check_mfp_calm [OF assms(1,2) c] by (simp add: w1_def [symmetric] s)
  qed
qed

lemma check_ies_calm [calm_rules]:
  assumes "owned w0 b a" and "live w0 a" and "calm w0 w"
  shows "calm w0 (snd (check_assoc_ies ev ies reassoc b a w))"
proof -
  obtain bss where b: "bss_at w b = Some bss" using owned_bss [OF assms(1)] calm_bss [OF assms(3), of b] by auto
  obtain res elems where p: "ieee802_11_parse_elems ies = (res, elems)" by fastforce
  obtain r1 w1 where w: "check_wmm bss (el_wmm elems) a w = (r1, w1)" by fastforce
  have c1: "calm w0 w1" using check_wmm_calm [OF assms(2,3), of bss "el_wmm elems"] by (simp add: w)
  obtain r2 w2 where r: "copy_supp_rates elems a w1 = (r2, w2)" by fastforce
  have c2: "calm w0 w2" using supp_rates_calm [OF assms(2) c1, of elems] by (simp add: r)
  show ?thesis using assms c1 c2 check_wpa_calm [OF assms(1,2) c2]
    by (cases res) (simp_all add: check_assoc_ies_def b p w r Let_def)
qed

unbundle bit_operations_syntax

section \<open>Calm handlers of association and of its status\<close>

definition dfs_known :: "ap_world \<Rightarrow> bool" where
  \<comment> \<open>whether radar has to be looked for can be told\<close>
  "dfs_known w \<longleftrightarrow> (\<exists>d. dfs_or_zero (w_iface w) = Inr d)"

definition all_up :: "ap_world \<Rightarrow> bool" where
  \<comment> \<open>no BSS is being reconfigured\<close>
  "all_up w \<longleftrightarrow> (\<forall>i < length (w_bss w). bss_at w i \<noteq> None)"

lemma elapsed_fault: "elapsed_tu t = Inl x \<Longrightarrow> x = Int_overflow"
  by (auto simp: elapsed_tu_def Let_def split: if_split_asm)

lemma send_deauth_calm [calm_rules]:
  "bss_at w0 b \<noteq> None \<Longrightarrow> calm w0 w \<Longrightarrow> calm w0 (send_deauth addr reason b w)"
  unfolding send_deauth_def by (intro calm_rules)

lemma assoc_resp_calm [calm_rules]:
  assumes "bss_at w0 b \<noteq> None" and "live w0 a" and "calm w0 w" and "dfs_known w0"
  shows "calm w0 (send_assoc_resp ev status reassoc b a w)"
proof -
  have body: "x = Int_overflow" if "assoc_resp_body ev (w_iface w) bss s status = Inl x" for bss s x
  proof -
    obtain d where "dfs_or_zero (w_iface w) = Inr d" using assms(3,4) by (auto simp: dfs_known_def calm_def)
    then show ?thesis using that elapsed_fault
      by (auto simp: assoc_resp_body_def hostapd_own_capab_info_def Let_def hostapd_eid_assoc_comeback_time_def
          fbind_def split: if_split_asm sum.split_asm)
  qed
  show ?thesis unfolding send_assoc_resp_def
  proof (intro calm_rules assms)
    fix bss s
    show "calm w0 (case assoc_resp_body ev (w_iface w) bss s status of Inl x \<Rightarrow> set_fault x w
        | Inr body \<Rightarrow> say (Drv_send_mlme b (mgmt_head (if reassoc then WLAN_FC_STYPE_REASSOC_RESP else WLAN_FC_STYPE_ASSOC_RESP)
            (sta_addr s) (own_addr bss) (own_addr bss) @ body)) w)"
      using assms(3) body by (cases "assoc_resp_body ev (w_iface w) bss s status") (auto intro!: calm_rules)
  qed
qed

lemma disassoc_sta_calm [calm_rules]:
  assumes "owned w0 b a" and "live w0 a" and "tables_ok w0" and "calm w0 w"
  shows "calm w0 (disassoc_sta ev reason b a w)"
  unfolding disassoc_sta_def Let_def using assms by (intro calm_rules keeps_rules; simp)

lemma set_wds_calm [calm_rules]:
  assumes "bss_at w0 b \<noteq> None" and "live w0 a" and "calm w0 w"
  shows "calm w0 (set_wds ev b a w)"
  unfolding set_wds_def hostapd_set_wds_encryption_def Let_def using assms by (intro calm_rules)

lemma assoc_bound_calm [calm_rules]:
  assumes "owned w0 b a" and "live w0 a" and "tables_ok w0" and "all_up w0" and "calm w0 w"
  shows "calm w0 (assoc_bound ev reassoc b a w)"
  unfolding assoc_bound_def Let_def using assms owned_bss [OF assms(1)]
  by (intro calm_rules; simp add: all_up_def)

lemma assoc_added_calm [calm_rules]:
  assumes "owned w0 b a" and "live w0 a" and "tables_ok w0" and "all_up w0" and "calm w0 w"
  shows "calm w0 (assoc_added ev reassoc b a w)"
proof -
  note bb = owned_bss [OF assms(1)]
  define w1 where "w1 = with_sta a (\<lambda>s. if has_flag s WLAN_STA_WDS then set_wds ev b a else id) w"
  have c: "calm w0 w1" unfolding w1_def using assms bb by (intro calm_rules)
  have bind: "calm w0 (let (r, w) = ap_sta_bind_vlan ev 0 b a w1 in if r < 0 then w else assoc_bound ev reassoc b a w)"
    using bind_vlan_calm [OF bb assms(2) c, of ev 0] assms by (auto intro!: calm_rules split: prod.split)
  show ?thesis unfolding assoc_added_def w1_def [symmetric] Let_def [of w1]
    using assms c bind by (intro calm_rules) simp_all
qed

lemma assoc_acked_calm [calm_rules]:
  assumes "owned w0 b a" and "live w0 a" and "tables_ok w0" and "all_up w0" and "calm w0 w"
  shows "calm w0 (assoc_acked ev reassoc b a w)"
  unfolding assoc_acked_def Let_def using assms owned_bss [OF assms(1)]
  by (intro calm_rules keeps_rules; simp)

unbundle bit_operations_syntax

section \<open>Association requests\<close>

definition ok_at :: "ap_world \<Rightarrow> nat \<Rightarrow> nat \<Rightarrow> ap_world \<Rightarrow> bool" where
  "ok_at w0 b a w \<longleftrightarrow> good w0 w \<and> owned w b a"

lemma ok_at_live: "ok_at w0 b a w \<Longrightarrow> live w a \<and> tables_ok w \<and> bss_at w b \<noteq> None"
  using tables_live owned_bss by (auto simp: ok_at_def good_def world_ok_def)

lemma ok_at_calm: "ok_at w0 b a w \<Longrightarrow> calm w w' \<Longrightarrow> ok_at w0 b a w'"
  using calm_good calm_owned [of w w' b a] by (auto simp: ok_at_def)

lemma ok_at_put: "ok_at w0 b a w \<Longrightarrow> keeps_table f \<Longrightarrow> ok_at w0 b a (put_sta a f w)"
  using ok_at_live by (blast intro: ok_at_calm calm_rules calm_refl)

lemma ok_at_say: "ok_at w0 b a w \<Longrightarrow> ok_at w0 b a (say x w)"
  by (blast intro: ok_at_calm calm_rules calm_refl)

lemma dfs_same:
  assumes "if_conf i = if_conf j" and "if_current_mode i = if_current_mode j"
  shows "dfs_or_zero i = dfs_or_zero j"
proof -
  have c: "dfs_check_chans_radar i k n = dfs_check_chans_radar j k n" for k n
    by (simp add: dfs_check_chans_radar_def current_mode_def assms)
  have s: "dfs_get_start_chan_idx i = dfs_get_start_chan_idx j" and n: "dfs_get_used_n_chans i = dfs_get_used_n_chans j"
    and m: "mode_is i h = mode_is j h" for h
    by (simp_all add: dfs_get_start_chan_idx_def dfs_get_used_n_chans_def mode_is_def current_mode_def assms)
  show ?thesis unfolding dfs_or_zero_def hostapd_is_dfs_required_def c s n m assms ..
qed

lemma dfs_setup: "same_setup w w' \<Longrightarrow> dfs_known w \<Longrightarrow> dfs_known w'"
  using dfs_same [of "w_iface w'" "w_iface w"] by (simp add: same_setup_def dfs_known_def)

lemma ok_at_count:
  assumes "ok_at w0 b a w"
  shows "ok_at w0 b a (count_sta c a w)"
proof -
  have l: "live w a" and g: "good w0 w" using ok_at_live [OF assms] assms by (simp_all add: ok_at_def)
  then show ?thesis using count_sta_ok [of w a c] setup_count [of w0 w c a] assms by (simp add: ok_at_def good_def)
qed

lemma ok_at_with: "ok_at w0 b a w \<Longrightarrow> (\<And>s. w_sta w a = Some s \<Longrightarrow> ok_at w0 b a (f s w)) \<Longrightarrow> ok_at w0 b a (with_sta a f w)"
  using ok_at_live by (fastforce simp: live_iff with_sta_def)

lemma ok_at_if: "(c \<Longrightarrow> ok_at w0 b a w) \<Longrightarrow> (\<not> c \<Longrightarrow> ok_at w0 b a w') \<Longrightarrow> ok_at w0 b a (if c then w else w')"
  "(c \<Longrightarrow> ok_at w0 b a (f w)) \<Longrightarrow> (\<not> c \<Longrightarrow> ok_at w0 b a (g w)) \<Longrightarrow> ok_at w0 b a ((if c then f else g) w)"
  "ok_at w0 b a w \<Longrightarrow> ok_at w0 b a (id w)"
  by simp_all

lemmas ok_at_rules = ok_at_put ok_at_say ok_at_count ok_at_with ok_at_if keeps_rules

lemma note_missing_ok: "ok_at w0 b a w \<Longrightarrow> ok_at w0 b a (note_missing c a w)"
  unfolding note_missing_def Let_def by (intro ok_at_rules)

lemma note_non_erp_ok: "ok_at w0 b a w \<Longrightarrow> ok_at w0 b a (note_non_erp a w)"
  unfolding note_non_erp_def Let_def by (intro ok_at_rules)

lemma note_capabilities_ok:
  assumes "ok_at w0 b a w"
  shows "ok_at w0 b a (note_capabilities capab li a w)"
proof -
  have m: "\<exists>y. if_current_mode (w_iface w) = Some y" using assms by (simp add: ok_at_def good_def world_ok_def)
  show ?thesis unfolding note_capabilities_def Let_def
    using assms m by (auto simp: note_missing_ok note_non_erp_ok ok_at_rules)
qed

unbundle bit_operations_syntax

lemma get_aid_ok:
  assumes "ok_at w0 b a w"
  shows "ok_at w0 b a (snd (hostapd_get_aid b a w))"
proof (cases "aid_at (w_sta w) a = 0")
  case True
  have "world_ok w" "owned w b a" using assms by (simp_all add: ok_at_def good_def)
  from get_aid_result [OF this True] show ?thesis
    using assms setup_aid [of w b a] setup_trans by (auto simp: ok_at_def good_def)
next
  case False
  obtain bss s where "bss_at w b = Some bss" "w_sta w a = Some s" using ok_at_live [OF assms] by (auto simp: live_iff)
  moreover have "st_aid s > 0" using False calculation by (cases "st_aid s = 0") (simp_all add: aid_at_def word_gt_0)
  ultimately show ?thesis using assms by (simp add: hostapd_get_aid_def)
qed

lemma assoc_decide_ok:
  assumes "ok_at w0 b a w"
  shows "ok_at w0 b a (snd (assoc_decide ev capab li ies reassoc b a w))"
proof -
  have l: "live w a" and o: "owned w b a" and t: "tables_ok w" using assms ok_at_live [OF assms] by (auto simp: ok_at_def)
  obtain bss where b: "bss_at w b = Some bss" using o by (auto simp: owned_def)
  obtain r1 w1 where c: "check_assoc_ies ev ies reassoc b a w = (r1, w1)" by fastforce
  have ok1: "ok_at w0 b a w1"
    using ok_at_calm [OF assms, of w1] check_ies_calm [OF o l calm_refl, of ev ies reassoc] by (simp add: c)
  obtain r2 w2 where g: "hostapd_get_aid b a w1 = (r2, w2)" by fastforce
  have ok2: "ok_at w0 b a w2" using get_aid_ok [OF ok1] by (simp add: g)
  have ok3: "ok_at w0 b a (put_sta a (\<lambda>s. (set_flags WLAN_STA_ASSOC_REQ_OK s)\<lparr>st_timeout_next := STA_NULLFUNC\<rparr>) (note_capabilities capab li a w2))"
    by (intro ok_at_put keeps_rules note_capabilities_ok ok2)
  show ?thesis using assms ok1 ok2 ok3 by (simp add: assoc_decide_def b c g Let_def)
qed

lemma handle_assoc_ok:
  assumes "world_ok w" and "bss_at w b \<noteq> None" and "dfs_known w"
  shows "good w (handle_assoc ev mgmt reassoc b w)"
proof -
  have refuse: "good w (send_deauth addr reason b w)" for addr reason
    using assms(2) by (intro ok_good [OF assms(1)] calm_rules calm_refl)
  have decided: "good w (send_assoc_resp ev' resp reassoc b a w')" if a: "ok_at w b a w'" for ev' resp a w'
  proof -
    have g: "good w w'" using a by (simp add: ok_at_def)
    then have "dfs_known w'" using dfs_setup [of w w'] assms(3) by (simp add: good_def)
    then show ?thesis using ok_at_live [OF a] by (intro calm_good [OF g] calm_rules calm_refl) simp_all
  qed
  have found: "good w (with_sta a (\<lambda>s w.
      if \<not> has_flag s WLAN_STA_AUTH then send_deauth (mgmt_sa mgmt) WLAN_REASON_CLASS2_FRAME_FROM_NONAUTH_STA b w
      else let (resp, w) = assoc_decide ev x y z reassoc b a w in send_assoc_resp (me_sta ev) resp reassoc b a w) w)"
    if o: "owned w b a" "live w a" for a x y z
  proof -
    obtain s where s: "w_sta w a = Some s" using o by (auto simp: live_iff)
    have "ok_at w b a w" using o assms by (simp add: ok_at_def good_refl)
    from assoc_decide_ok [OF this, of ev x y z reassoc] show ?thesis
      using refuse decided by (auto simp: with_sta_at [OF s] split: prod.split)
  qed
  show ?thesis unfolding handle_assoc_def Let_def
    by (cases "length mgmt < IEEE80211_HDRLEN + (if reassoc then 10 else 4)"; simp only: if_True if_False good_refl [OF assms(1)])
      (rule with_found_cases [OF assms(1,2), where P = "good w"]; simp only: option.case refuse found [unfolded Let_def])
qed

lemma handle_disassoc_ok:
  assumes "world_ok w" and "bss_at w b \<noteq> None"
  shows "good w (handle_disassoc ev mgmt b w)"
proof -
  have t: "tables_ok w" using assms(1) by (simp add: world_ok_def)
  show ?thesis unfolding handle_disassoc_def
    using good_refl [OF assms(1)] with_found_cases [OF assms, where P = "good w"]
    by (simp add: ok_good [OF assms(1)] disassoc_sta_calm t)
qed

lemma handle_deauth_ok:
  assumes "world_ok w" and "bss_at w b \<noteq> None"
  shows "good w (handle_deauth ev mgmt b w)"
proof -
  have "good w (deauth_sta ev reason b a w)" if o: "owned w b a" "live w a" for reason a
    unfolding deauth_sta_def Let_def
    by (rule free_good [OF assms(1) o(1)]) (intro calm_rules keeps_rules o(2) calm_refl)
  then show ?thesis unfolding handle_deauth_def using good_refl [OF assms(1)] with_found_cases [OF assms, where P = "good w"] by simp
qed

unbundle bit_operations_syntax

section \<open>Authentication frames\<close>

definition acl_ready :: "acl_conf \<Rightarrow> bool" where
  \<comment> \<open>the lists are as \<open>hostapd_config_read_maclist\<close> leaves them\<close>
  "acl_ready conf \<longleftrightarrow> acl_sorted (ac_accept_mac conf) \<and> acl_addrs_ok (ac_accept_mac conf)
     \<and> acl_sorted (ac_deny_mac conf) \<and> acl_addrs_ok (ac_deny_mac conf)"

lemma allowed_address_answers:
  assumes "acl_ready conf" and "length addr = 6"
  shows "\<exists>r. hostapd_allowed_address conf ev addr msg st = Inr r"
proof -
  obtain x y where "hostapd_maclist_found (ac_accept_mac conf) (int (length (ac_accept_mac conf))) addr = Inr x"
    "hostapd_maclist_found (ac_deny_mac conf) (int (length (ac_deny_mac conf))) addr = Inr y"
    using assms maclist_found_correct unfolding acl_ready_def by meson
  then show ?thesis by (auto simp: hostapd_allowed_address_def split: option.split macaddr_acl.split)
qed

lemma sta_add_none: "ap_sta_add ev addr b w = (None, w') \<Longrightarrow> bss_at w b \<noteq> None \<Longrightarrow> bss_at w' b \<noteq> None"
  by (auto simp: ap_sta_add_def set_fault_def split: option.splits sum.splits if_splits)

lemma auth_allowed_ok:
  assumes ok: "world_ok w" and b: "bss_at w b \<noteq> None" and len: "length (mgmt_sa mgmt) = 6"
    and fresh: "\<And>a. ev_alloc (me_sta ev) = Some a \<Longrightarrow> w_sta w a = None"
  shows "good w (auth_allowed ev mgmt b ans w)"
proof -
  obtain bss where bss: "bss_at w b = Some bss" using b by auto
  obtain r w1 where a: "ap_sta_add (me_sta ev) (mgmt_sa mgmt) b w = (r, w1)" by fastforce
  note added = sta_add_ok [where ev = "me_sta ev", OF ok b len fresh, simplified a fst_conv snd_conv]
  have ok1: "world_ok w1" and g1: "good w w1"
    using added setup_sta_add [of w "me_sta ev" "mgmt_sa mgmt" b] by (simp_all add: a good_def)
  have reply: "good w (send_auth_reply ev dst bssid alg t resp ies b w')"
    if "good w w'" "bss_at w' b \<noteq> None" for dst bssid alg t resp ies w'
    using that by (intro calm_good [OF that(1)] calm_rules calm_refl)
  show ?thesis
  proof (cases r)
    case None
    then show ?thesis using reply [OF g1] sta_add_none [of "me_sta ev" "mgmt_sa mgmt" b w w1] a b
      by (simp add: auth_allowed_def with_bss_at [OF bss] Let_def)
  next
    case (Some x)
    have o: "owned w1 b x" using added Some by simp
    have t: "tables_ok w1" using ok1 by (simp add: world_ok_def)
    note l = tables_live [OF t o]
    define w2 where "w2 = prepare_auth ev bss ans b x (if aa_vlan_id ans > 0 then put_sta x (\<lambda>s. s\<lparr>st_vlan_id := aa_vlan_id ans\<rparr>) w1 else w1)"
    have c2: "calm w1 w2" unfolding w2_def using o l by (intro calm_rules keeps_rules calm_refl)
    obtain resp ies w3 where s: "auth_switch ev (get_le16 mgmt 24) (get_le16 mgmt 26) (auth_challenge mgmt)
        (get_le16 mgmt 0 AND WLAN_FC_ISWEP \<noteq> 0) x w2 = (resp, ies, w3)" by (metis surj_pair)
    have c3: "calm w1 w3" using auth_switch_calm [OF l c2, of ev "get_le16 mgmt 24" "get_le16 mgmt 26" "auth_challenge mgmt"
        "get_le16 mgmt 0 AND WLAN_FC_ISWEP \<noteq> 0"] by (simp add: s)
    have b3: "bss_at w1 b \<noteq> None" "bss_at w3 b \<noteq> None" using owned_bss [OF o] calm_bss [OF c3] by simp_all
    have "good w w3" by (rule calm_good [OF g1 c3])
    then show ?thesis using reply g1 b3 unfolding auth_allowed_def with_bss_at [OF bss] Let_def a Some w2_def [symmetric] s
      by (simp add: w2_def [symmetric] s)
  qed
qed

lemma handle_auth_ok:
  assumes ok: "world_ok w" and b: "bss_at w b = Some bss" and acl: "acl_ready (bs_acl_conf bss)"
    and fresh: "\<And>a. ev_alloc (me_sta ev) = Some a \<Longrightarrow> w_sta w a = None"
  shows "good w (handle_auth ev mgmt b w)"
proof (cases "length mgmt < IEEE80211_HDRLEN + 6")
  case True
  then show ?thesis using good_refl [OF ok] by (simp add: handle_auth_def with_bss_at [OF b])
next
  case False
  then have len: "length (mgmt_sa mgmt) = 6" by (simp add: mgmt_sa_def)
  obtain ans st where r: "hostapd_allowed_address (bs_acl_conf bss) (me_acl ev) (mgmt_sa mgmt) mgmt (bs_acl bss) = Inr (ans, st)"
    using allowed_address_answers [OF acl len] by (metis surj_pair)
  define w1 where "w1 = upd_bss b (\<lambda>bss. bss\<lparr>bs_acl := st\<rparr>) w"
  have c: "calm w w1" unfolding w1_def by (intro calm_rules) (simp_all add: b)
  have ok1: "world_ok w1" by (rule calm_ok [OF ok c])
  have b1: "bss_at w1 b \<noteq> None" using calm_bss [OF c] b by simp
  have heap: "w_sta w1 = w_sta w" by (simp add: w1_def)
  have reply: "good w (send_auth_reply ev dst bssid alg t resp ies b w')"
    if "good w w'" "bss_at w' b \<noteq> None" for dst bssid alg t resp ies w'
    using that by (intro calm_good [OF that(1)] calm_rules calm_refl)
  have g1: "good w w1" by (rule ok_good [OF ok c])
  have "good w1 (auth_allowed ev mgmt b ans w1)"
    by (rule auth_allowed_ok [OF ok1 b1 len]) (simp add: heap fresh)
  then have "good w (auth_allowed ev mgmt b ans w1)" using g1 setup_trans by (auto simp: good_def)
  then show ?thesis using reply [OF good_refl [OF ok]] reply [OF g1 b1] good_refl [OF ok] g1 b False
    by (simp add: handle_auth_def with_bss_at [OF b] r Let_def w1_def [symmetric])
qed

unbundle bit_operations_syntax

section \<open>Action frames and probe requests\<close>

definition astray :: "mlme_env \<Rightarrow> hostapd_iface \<Rightarrow> hostapd_data \<Rightarrow> byte list \<Rightarrow> fault \<Rightarrow> bool" where
  \<comment> \<open>a probe request or a WMM action on which the code for it leaves an object\<close>
  "astray ev iface hapd mgmt x \<longleftrightarrow>
     (let stype = WLAN_FC_GET_STYPE (get_le16 mgmt 0) in
      stype = WLAN_FC_STYPE_PROBE_REQ
        \<and> handle_probe_req shipped_build (me_ap ev) iface hapd (me_cbs ev) mgmt = Inl x
      \<or> stype = WLAN_FC_STYPE_ACTION \<and> 24 < length mgmt \<and> mgmt ! 24 = WLAN_ACTION_WMM
        \<and> hostapd_wmm_action hapd mgmt = Inl x)"

definition follows :: "mlme_env \<Rightarrow> nat \<Rightarrow> byte list \<Rightarrow> ap_world \<Rightarrow> ap_world \<Rightarrow> bool" where
  \<comment> \<open>the frame leaves a good world, or it leads the code astray\<close>
  "follows ev b mgmt w w' \<longleftrightarrow> good w w'
     \<or> (\<exists>bss x. bss_at w b = Some bss \<and> astray ev (w_iface w) (stations_as (w_sta w) bss) mgmt x
           \<and> bss_at w' b \<noteq> None \<and> w_fault w' = Some x \<and> x \<noteq> Int_overflow)"

lemma follows_fault:
  assumes ok: "world_ok w" and "bss_at w b = Some bss" and "astray ev (w_iface w) (stations_as (w_sta w) bss) mgmt x"
  shows "follows ev b mgmt w (set_fault x w)"
proof (cases "x = Int_overflow")
  case True
  then have "calm w (set_fault x w)" by (simp add: overflow_calm)
  then show ?thesis unfolding follows_def using ok_good [OF ok] by blast
next
  case False
  have "bss_at (set_fault x w) b \<noteq> None" "w_fault (set_fault x w) = Some x"
    using assms(2) by (simp_all add: set_fault_def bss_at_def split: if_splits)
  then show ?thesis using assms False by (auto simp: follows_def)
qed

lemma follows_good: "good w w' \<Longrightarrow> follows ev b mgmt w w'" by (simp add: follows_def)

lemma sa_query_action_calm [calm_rules]:
  assumes "tables_ok w0" and "bss_at w0 b \<noteq> None" and "calm w0 w"
  shows "calm w0 (ieee802_11_sa_query_action sa action trans_id b w)"
  unfolding ieee802_11_sa_query_action_def ieee802_11_send_sa_query_resp_def
  using assms by (auto intro!: calm_rules)

lemma return_action_calm [calm_rules]:
  "bss_at w0 b \<noteq> None \<Longrightarrow> calm w0 w \<Longrightarrow> calm w0 (snd (return_action ev mgmt b w))"
  unfolding return_action_def by (auto intro!: calm_rules)

lemma wmm_action_calm:
  assumes "bss_at w b = Some bss" and "\<forall>x. hostapd_wmm_action (stations_as (w_sta w) bss) mgmt \<noteq> Inl x"
  shows "calm w (wmm_action mgmt b w)"
  using assms by (auto simp: wmm_action_def with_bss_at split: sum.split option.split intro!: calm_rules)

lemma wmm_action_follows:
  assumes ok: "world_ok w" and b: "bss_at w b = Some bss" and "WLAN_FC_GET_STYPE (get_le16 mgmt 0) = WLAN_FC_STYPE_ACTION"
    and "24 < length mgmt" and "mgmt ! 24 = WLAN_ACTION_WMM"
  shows "follows ev b mgmt w (wmm_action mgmt b w)"
proof (cases "hostapd_wmm_action (stations_as (w_sta w) bss) mgmt")
  case (Inl x)
  then show ?thesis using assms(3-) follows_fault [OF ok b] by (simp add: wmm_action_def with_bss_at [OF b] astray_def)
next
  case (Inr r)
  then show ?thesis using ok_good [OF ok wmm_action_calm [OF b]] by (intro follows_good) simp
qed

lemma handle_action_follows:
  assumes ok: "world_ok w" and b: "bss_at w b = Some bss" and st: "WLAN_FC_GET_STYPE (get_le16 mgmt 0) = WLAN_FC_STYPE_ACTION"
  shows "follows ev b mgmt w (snd (handle_action ev mgmt b w))"
proof -
  have t: "tables_ok w" using ok by (simp add: world_ok_def)
  have l: "list_ok (w_sta w) bss" "hash_ok (w_sta w) bss" using t b by (auto simp: tables_ok_def)
  have q: "follows ev b mgmt w (snd (hostapd_sa_query_action mgmt b w))"
    using t b by (intro follows_good ok_good [OF ok]) (auto simp: hostapd_sa_query_action_def intro!: calm_rules)
  have r: "follows ev b mgmt w (snd (return_action ev mgmt b w))"
    using b by (intro follows_good ok_good [OF ok] return_action_calm) simp_all
  show ?thesis unfolding handle_action_def b option.case table_get_sta_iff [OF l] sum.case Let_def
    using wmm_action_follows [OF ok b st] q r follows_good [OF good_refl [OF ok]] by simp
qed

lemma probe_req_follows:
  assumes ok: "world_ok w" and b: "bss_at w b = Some bss" and st: "WLAN_FC_GET_STYPE (get_le16 mgmt 0) = WLAN_FC_STYPE_PROBE_REQ"
  shows "follows ev b mgmt w (probe_req ev mgmt b w)"
proof (cases "handle_probe_req shipped_build (me_ap ev) (w_iface w) (stations_as (w_sta w) bss) (me_cbs ev) mgmt")
  case (Inl x)
  then show ?thesis using st follows_fault [OF ok b] by (simp add: probe_req_def with_bss_at [OF b] astray_def)
next
  case (Inr r)
  obtain resp iface hapd where r: "r = (resp, iface, hapd)" by (cases r)
  have t: "tables_ok w" using ok by (simp add: world_ok_def)
  have "calm w (probe_req ev mgmt b w)"
    unfolding probe_req_def with_bss_at [OF b] Inr r Let_def
    using t b by (auto intro!: calm_rules keeps_rules split: option.split)
  then show ?thesis by (intro follows_good ok_good [OF ok])
qed

section \<open>A frame from the air\<close>

definition fresh_alloc :: "mlme_env \<Rightarrow> ap_world \<Rightarrow> bool" where
  "fresh_alloc ev w \<longleftrightarrow> (\<forall>a. ev_alloc (me_sta ev) = Some a \<longrightarrow> w_sta w a = None)"

lemma mgmt_follows:
  assumes ok: "world_ok w" and b: "bss_at w b = Some bss" and acl: "acl_ready (bs_acl_conf bss)" and d: "dfs_known w"
    and f: "fresh_alloc ev w"
  shows "follows ev b mgmt w (snd (ieee802_11_mgmt ev mgmt b w))"
proof -
  have some: "bss_at w b \<noteq> None" using b by simp
  have stay: "follows ev b mgmt w w" by (rule follows_good [OF good_refl [OF ok]])
  have "follows ev b mgmt w (snd (mgmt_switch ev (WLAN_FC_GET_STYPE (get_le16 mgmt 0)) mgmt b w))"
    using handle_auth_ok [OF ok b acl] handle_assoc_ok [OF ok some d] handle_disassoc_ok [OF ok some]
      handle_deauth_ok [OF ok some] handle_action_follows [OF ok b] f stay follows_good
    by (auto simp: mgmt_switch_def fresh_alloc_def)
  moreover have "follows ev b mgmt w (say (Beacon_seen b mgmt) w)"
    by (rule follows_good [OF ok_good [OF ok]]) (intro calm_rules calm_refl)
  ultimately show ?thesis using probe_req_follows [OF ok b] stay by (simp add: ieee802_11_mgmt_def b Let_def)
qed

unbundle bit_operations_syntax

section \<open>Status of frames, data frames\<close>

lemma mgmt_cb_ok:
  assumes ok: "world_ok w" and up: "all_up w" and b: "bss_at w b \<noteq> None"
  shows "good w (ieee802_11_mgmt_cb ev mgmt stype acked b w)"
proof -
  have t: "tables_ok w" using ok by (simp add: world_ok_def)
  note found = with_found_cases [OF ok b, where P = "good w"]
  have put: "good w (put_sta a f w)" if "live w a" "keeps_table f" for a f
    using that by (intro ok_good [OF ok] calm_rules calm_refl)
  have cb: "good w (ap_sta_deauth_cb ev b a w)" "good w (ap_sta_disassoc_cb ev b a w)" if "live w a" for a
    by (rule ok_good [OF ok]; intro cb_calm calm_refl that)+
  have acked: "good w (assoc_acked ev reassoc b a w)" if "owned w b a" "live w a" for a reassoc
    using that t up by (intro ok_good [OF ok] calm_rules calm_refl)
  have "good w (handle_auth_cb mgmt acked b w)"
    unfolding handle_auth_cb_def Let_def using good_refl [OF ok] by (auto intro!: found put keeps_rules)
  moreover have "good w (handle_assoc_cb ev mgmt reassoc acked b w)" for reassoc
    unfolding handle_assoc_cb_def using good_refl [OF ok] by (auto intro!: found put acked keeps_rules)
  moreover have "good w (handle_deauth_cb ev mgmt b w)" "good w (handle_disassoc_cb ev mgmt b w)"
    unfolding handle_deauth_cb_def handle_disassoc_cb_def using good_refl [OF ok] by (auto intro!: found cb)
  ultimately show ?thesis using good_refl [OF ok] by (simp add: ieee802_11_mgmt_cb_def)
qed

lemma find_in_bsss_ok:
  assumes ok: "world_ok w" and up: "\<forall>j \<in> set js. bss_at w j \<noteq> None"
  shows "\<exists>r. find_in_bsss w addr js = Inr r \<and> (\<forall>j a. r = Some (j, a) \<longrightarrow> owned w j a)"
  using up
proof (induction js)
  case (Cons j js)
  obtain bss where b: "bss_at w j = Some bss" using Cons.prems by auto
  have l: "list_ok (w_sta w) bss" "hash_ok (w_sta w) bss" using ok b by (auto simp: world_ok_def tables_ok_def)
  show ?case
  proof (cases "find (\<lambda>a. addr_at (w_sta w) a = Some addr) (bs_list bss)")
    case None
    then show ?thesis using Cons by (simp add: b table_get_sta_iff [OF l])
  next
    case (Some a)
    then have "owned w j a" using b by (auto simp: find_Some_iff owned_def)
    then show ?thesis using Some by (simp add: b table_get_sta_iff [OF l])
  qed
qed simp

lemma any_bss_cases:
  assumes ok: "world_ok w" and up: "all_up w" and b: "bss_at w b \<noteq> None" and none: "P w"
    and some: "\<And>j a. owned w j a \<Longrightarrow> live w a \<Longrightarrow> P (f j a w)"
  shows "P (with_any_bss addr b f w)"
proof -
  have t: "tables_ok w" using ok by (simp add: world_ok_def)
  have "\<forall>j \<in> set [0..<length (w_bss w)]. bss_at w j \<noteq> None" using up by (simp add: all_up_def)
  from find_in_bsss_ok [OF ok this] obtain r where r: "find_in_bsss w addr [0..<length (w_bss w)] = Inr r"
    "\<And>j a. r = Some (j, a) \<Longrightarrow> owned w j a" by blast
  have "P (case find_in_bsss w addr [0..<length (w_bss w)] of Inl x \<Rightarrow> set_fault x w | Inr None \<Rightarrow> w | Inr (Some (j, a)) \<Rightarrow> f j a w)"
    using r(2) none some tables_live [OF t] by (cases r) (auto simp: r(1))
  then show ?thesis unfolding with_any_bss_def
    using none some by (intro with_found_cases [OF ok b, where P = P]) simp_all
qed

lemma data_frames_ok:
  assumes ok: "world_ok w" and up: "all_up w" and b: "bss_at w b \<noteq> None"
  shows "good w (hostapd_tx_status addr ack b w)" "good w (hostapd_eapol_tx_status addr ack b w)"
    "good w (hostapd_client_poll_ok addr b w)"
proof -
  note any = any_bss_cases [OF ok up b, where P = "calm w"]
  have "calm w (hostapd_tx_status addr ack b w)" "calm w (hostapd_eapol_tx_status addr ack b w)"
    "calm w (hostapd_client_poll_ok addr b w)"
    unfolding hostapd_tx_status_def hostapd_eapol_tx_status_def hostapd_client_poll_ok_def
    by (rule any; intro calm_rules keeps_rules calm_refl; assumption)+
  then show "good w (hostapd_tx_status addr ack b w)" "good w (hostapd_eapol_tx_status addr ack b w)"
    "good w (hostapd_client_poll_ok addr b w)" using ok_good [OF ok] by blast+
qed

lemma from_unknown_ok:
  assumes ok: "world_ok w" and b: "bss_at w b \<noteq> None"
  shows "good w (ieee802_11_rx_from_unknown ev src wds b w)"
proof -
  have t: "tables_ok w" using ok by (simp add: world_ok_def)
  have "calm w (ieee802_11_rx_from_unknown ev src wds b w)"
    unfolding ieee802_11_rx_from_unknown_def Let_def
    by (intro with_bss_calm [OF b] found_calm [OF t b] calm_refl; auto intro!: calm_rules keeps_rules simp: b)
  then show ?thesis by (rule ok_good [OF ok])
qed

unbundle bit_operations_syntax

section \<open>Replies of the server, ticks, stations that are taken off\<close>

lemma stations_as_acl [simp]: "stations_as heap (bss\<lparr>bs_acl := st\<rparr>) = stations_as heap bss"
  by (simp add: stations_as_def)

lemma acl_upd_good:
  assumes "good w0 w" and "bss_at w b \<noteq> None"
  shows "good w0 (upd_bss b (\<lambda>bss. bss\<lparr>bs_acl := f bss\<rparr>) w)"
  using assms by (intro calm_good [OF assms(1)] calm_rules calm_refl) simp_all

lemma good_bss: "good w0 w \<Longrightarrow> bss_at w0 b \<noteq> None \<Longrightarrow> bss_at w b \<noteq> None"
proof -
  assume g: "good w0 w" and b: "bss_at w0 b \<noteq> None"
  have e: "map (map_option bs_acl_conf) (w_bss w) = map (map_option bs_acl_conf) (w_bss w0)" using g by (simp add: good_def same_setup_def)
  have len: "length (w_bss w) = length (w_bss w0)" using arg_cong [OF e, of length] by simp
  obtain bss where n: "b < length (w_bss w0)" "w_bss w0 ! b = Some bss" using b by (auto simp: bss_at_def split: if_split_asm)
  then have "map (map_option bs_acl_conf) (w_bss w) ! b = Some (bs_acl_conf bss)" unfolding e by simp
  then show "bss_at w b \<noteq> None" using n len by (auto simp: bss_at_def)
qed

lemma good_trans: "good w w' \<Longrightarrow> good w' w'' \<Longrightarrow> good w w''"
  using setup_trans by (auto simp: good_def)

lemma recv_radius_follows:
  assumes ok: "world_ok w" and b: "bss_at w b = Some bss" and acl: "acl_ready (bs_acl_conf bss)" and d: "dfs_known w"
    and f: "fresh_alloc ev w"
  shows "good w (snd (hostapd_acl_recv_radius ev mem reply b w))
    \<or> (\<exists>q \<in> set (as_queries (bs_acl bss)). follows ev b (aq_auth_msg q) w (snd (hostapd_acl_recv_radius ev mem reply b w)))"
proof (cases "find (\<lambda>q. aq_radius_id q = rr_identifier reply) (as_queries (bs_acl bss))")
  case None
  then show ?thesis using good_refl [OF ok] by (simp add: hostapd_acl_recv_radius_def b)
next
  case (Some q)
  define e where "e = acl_cache_entry (bs_acl_conf bss) (ae_clock (me_acl ev)) (aq_addr q) reply"
  define w1 where "w1 = upd_bss b (\<lambda>bss. bss\<lparr>bs_acl := (bs_acl bss)\<lparr>as_cache := e # as_cache (bs_acl bss)\<rparr>\<rparr>) w"
  define w2 where "w2 = snd (ieee802_11_mgmt ev (aq_auth_msg q) b w1)"
  define fin where "fin w' = upd_bss b (\<lambda>bss. bss\<lparr>bs_acl := (bs_acl bss)\<lparr>as_queries := drop_query (rr_identifier reply) (as_queries (bs_acl bss))\<rparr>\<rparr>) w'" for w'
  have g1: "good w w1" unfolding w1_def by (rule acl_upd_good [OF good_refl [OF ok]]) (simp add: b)
  obtain bss1 where b1: "bss_at w1 b = Some bss1" "stations_as (w_sta w) bss1 = stations_as (w_sta w) bss" "bs_acl_conf bss1 = bs_acl_conf bss"
    using bss_at_upd [OF b, of "\<lambda>bss. bss\<lparr>bs_acl := (bs_acl bss)\<lparr>as_cache := e # as_cache (bs_acl bss)\<rparr>\<rparr>" b] by (simp add: w1_def)
  have same: "w_sta w1 = w_sta w" "w_iface w1 = w_iface w" by (simp_all add: w1_def)
  have ended: "good w (fin w')" if "good w w'" for w'
    unfolding fin_def using that by (intro acl_upd_good [OF that good_bss [OF that]]) (simp add: b)
  have "follows ev b (aq_auth_msg q) w1 w2" unfolding w2_def
  proof (rule mgmt_follows [OF _ b1(1)])
    show "world_ok w1" using g1 by (simp add: good_def)
    show "acl_ready (bs_acl_conf bss1)" using acl b1(3) by simp
    show "dfs_known w1" using d by (simp add: dfs_known_def same)
    show "fresh_alloc ev w1" using f by (simp add: fresh_alloc_def same)
  qed
  then consider (good) "good w w2"
    | (astray) x where "astray ev (w_iface w) (stations_as (w_sta w) bss) (aq_auth_msg q) x" "bss_at w2 b \<noteq> None" "w_fault w2 = Some x" "x \<noteq> Int_overflow"
    using good_trans [OF g1] b1 same by (auto simp: follows_def)
  then have "follows ev b (aq_auth_msg q) w (fin w2)"
  proof cases
    case good
    then show ?thesis by (rule follows_good [OF ended])
  next
    case astray
    then have "w_fault (fin w2) = Some x" "bss_at (fin w2) b \<noteq> None" by (auto simp: fin_def upd_bss_def with_bss_at bss_at_def split: if_splits)
    then show ?thesis using b astray(1,4) by (auto simp: follows_def)
  qed
  moreover have "q \<in> set (as_queries (bs_acl bss))" using Some by (auto simp: find_Some_iff)
  ultimately show ?thesis using good_refl [OF ok] ended [OF good_refl [OF ok]]
    by (cases mem) (auto simp: hostapd_acl_recv_radius_def b Some Let_def w1_def e_def w2_def fin_def)
qed

lemma acl_tick_ok:
  assumes ok: "world_ok w" and b: "bss_at w b \<noteq> None"
  shows "good w (acl_tick ev b w)"
proof -
  obtain bss where bss: "bss_at w b = Some bss" using b by auto
  obtain gone st where e: "hostapd_acl_expire (ae_clock (me_acl ev)) (bs_acl bss) = (gone, st)" by fastforce
  have "calm w (foldl (\<lambda>w addr. say (Drv_radius_acl_expire b addr) w) (upd_bss b (\<lambda>bss. bss\<lparr>bs_acl := st\<rparr>) w) gone)"
    by (rule fold_calm) (use b in \<open>auto intro!: calm_rules\<close>)
  then show ?thesis unfolding acl_tick_def with_bss_at [OF bss] e by (intro ok_good [OF ok]) simp
qed

lemma free_stas_loop_good:
  "good w0 w \<Longrightarrow> distinct as \<Longrightarrow> \<forall>a \<in> set as. owned w b a \<Longrightarrow> good w0 (free_stas_loop ev b as w)"
proof (induction as arbitrary: w)
  case (Cons a as)
  have ok: "world_ok w" and o: "owned w b a" using Cons.prems by (simp_all add: good_def)
  have t: "tables_ok w" using ok by (simp add: world_ok_def)
  define w1 where "w1 = with_sta a (\<lambda>s. if has_flag s WLAN_STA_AUTH then mlme_deauthenticate_indication a WLAN_REASON_UNSPECIFIED else id) w"
  have c: "calm w w1" unfolding w1_def using tables_live [OF t o] by (intro calm_rules) simp_all
  have g: "good w0 (ap_free_sta ev b a w1)" by (rule good_trans [OF Cons.prems(1) free_good [OF ok o c]])
  moreover have "\<forall>x \<in> set as. owned (ap_free_sta ev b a w1) b x"
    using Cons.prems calm_free_ok(2) [OF ok o c] by auto
  ultimately show ?case using Cons.IH Cons.prems(2) by (simp add: w1_def [symmetric])
qed simp

lemma free_stas_good:
  assumes ok: "world_ok w" and b: "bss_at w b \<noteq> None"
  shows "good w (hostapd_free_stas ev b w)"
proof -
  obtain bss where bss: "bss_at w b = Some bss" using b by auto
  have "distinct (bs_list bss)" "\<forall>a \<in> set (bs_list bss). owned w b a"
    using ok bss by (auto simp: world_ok_def tables_ok_def list_ok_def owned_def)
  then show ?thesis unfolding hostapd_free_stas_def with_bss_at [OF bss] by (rule free_stas_loop_good [OF good_refl [OF ok]])
qed

lemma taken_off_ok:
  assumes ok: "world_ok w" and b: "bss_at w b \<noteq> None"
  shows "good w (ap_sta_disconnect ev reason (Some addr) b None w)"
proof -
  have t: "tables_ok w" using ok by (simp add: world_ok_def)
  show ?thesis unfolding ap_sta_disconnect_def Let_def prod.case option.case
    by (rule with_found_cases [OF ok b, where P = "good w"]) (auto intro!: ok_good [OF ok] calm_rules t)
qed

end
