(* ===== verification/Mlme_Props.thy ===== *)
theory Mlme_Props
  imports Mlme_Inv
begin

text \<open>
  The access point as a transition system: a step is a frame from the air, the status of a frame that
  was sent, a timeout, a reply of the RADIUS server or a command that takes stations off. The
  invariant of the station table holds in every state that is reached; with it, what the handlers
  promise to a station.
\<close>

unbundle bit_operations_syntax

section \<open>Steps\<close>

definition configured :: "ap_world \<Rightarrow> bool" where
  "configured w \<longleftrightarrow> all_up w \<and> dfs_known w \<and> (\<forall>b bss. bss_at w b = Some bss \<longrightarrow> acl_ready (bs_acl_conf bss))"

text \<open>
  A step chooses what the environment gives; an allocation does not give an address that is in use.
  The frame of a step is any list of octets. A bad access is undefined behaviour, which has no next step.
\<close>

inductive ap_event :: "ap_world \<Rightarrow> ap_world \<Rightarrow> bool" where
  frame_received: "b < length (w_bss w) \<Longrightarrow> fresh_alloc ev w \<Longrightarrow> ap_event w (snd (ieee802_11_mgmt ev mgmt b w))"
| frame_status: "b < length (w_bss w) \<Longrightarrow> ap_event w (ieee802_11_mgmt_cb sev mgmt stype acked b w)"
| data_status: "b < length (w_bss w) \<Longrightarrow> ap_event w (hostapd_tx_status addr acked b w)"
| eapol_status: "b < length (w_bss w) \<Longrightarrow> ap_event w (hostapd_eapol_tx_status addr acked b w)"
| poll_status: "b < length (w_bss w) \<Longrightarrow> ap_event w (hostapd_client_poll_ok addr b w)"
| unknown_sender: "b < length (w_bss w) \<Longrightarrow> ap_event w (ieee802_11_rx_from_unknown sev addr wds b w)"
| timeout: "ap_event w (fire_timer sev w)"
| radius_reply: "b < length (w_bss w) \<Longrightarrow> fresh_alloc ev w
    \<Longrightarrow> ap_event w (snd (hostapd_acl_recv_radius ev mem reply b w))"
| acl_timeout: "b < length (w_bss w) \<Longrightarrow> ap_event w (acl_tick ev b w)"
| disconnected: "b < length (w_bss w) \<Longrightarrow> ap_event w (ap_sta_disconnect sev reason (Some addr) b None w)"
| stations_freed: "b < length (w_bss w) \<Longrightarrow> ap_event w (hostapd_free_stas sev b w)"

definition ap_step :: "ap_world \<Rightarrow> ap_world \<Rightarrow> bool" where
  "ap_step w w' \<longleftrightarrow> no_bad_access w \<and> ap_event w w'"

definition led_astray :: "ap_world \<Rightarrow> ap_world \<Rightarrow> bool" where
  \<comment> \<open>the step from \<open>w\<close> to \<open>w'\<close> processes a probe request or a WMM action, from the air or stored for a query
    to the server, and the code for that frame leaves an object\<close>
  "led_astray w w' \<longleftrightarrow> (\<exists>ev b bss mgmt x. bss_at w b = Some bss
     \<and> astray ev (w_iface w) (stations_as (w_sta w) bss) mgmt x \<and> w_fault w' = Some x
     \<and> (w' = snd (ieee802_11_mgmt ev mgmt b w)
       \<or> (\<exists>mem reply. w' = snd (hostapd_acl_recv_radius ev mem reply b w) \<and> mgmt \<in> aq_auth_msg ` set (as_queries (bs_acl bss)))))"

lemma configured_setup:
  assumes s: "same_setup w w'" and c: "configured w"
  shows "configured w'"
proof -
  have e: "map (map_option bs_acl_conf) (w_bss w') = map (map_option bs_acl_conf) (w_bss w)" using s by (simp add: same_setup_def)
  have len: "length (w_bss w') = length (w_bss w)" using arg_cong [OF e, of length] by simp
  have at: "map_option bs_acl_conf (bss_at w' b) = map_option bs_acl_conf (bss_at w b)" for b
    using arg_cong [OF e, of "\<lambda>xs. xs ! b"] len by (auto simp: bss_at_def)
  have "all_up w'" unfolding all_up_def
  proof (intro allI impI)
    fix i
    assume "i < length (w_bss w')"
    then have "bss_at w i \<noteq> None" using c len by (simp add: configured_def all_up_def)
    then show "bss_at w' i \<noteq> None" using at [of i] by auto
  qed
  moreover have "dfs_known w'" using dfs_setup [OF s] c by (simp add: configured_def)
  moreover have "acl_ready (bs_acl_conf bss')" if "bss_at w' b = Some bss'" for b bss'
    using at [of b] that c by (cases "bss_at w b") (auto simp: configured_def)
  ultimately show ?thesis by (simp add: configured_def)
qed

lemma event_outcome:
  assumes "ap_event w w'" and ok: "world_ok w" and c: "configured w"
  shows "good w w' \<or> led_astray w w' \<and> \<not> no_bad_access w'"
proof -
  have up: "all_up w" and d: "dfs_known w" using c by (simp_all add: configured_def)
  have b: "\<exists>bss. bss_at w b = Some bss \<and> acl_ready (bs_acl_conf bss)" if "b < length (w_bss w)" for b
    using that c by (auto simp: configured_def all_up_def)
  from assms(1) show ?thesis
  proof cases
    case (frame_received b ev mgmt)
    with b [OF this(2)] show ?thesis using mgmt_follows [OF ok _ _ d]
      unfolding follows_def led_astray_def no_bad_access_def by fastforce
  next
    case (frame_status b sev mgmt stype acked)
    with b [OF this(2)] show ?thesis using mgmt_cb_ok [OF ok up] by auto
  next
    case (data_status b addr acked)
    with b [OF this(2)] show ?thesis using data_frames_ok [OF ok up] by auto
  next
    case (eapol_status b addr acked)
    with b [OF this(2)] show ?thesis using data_frames_ok [OF ok up] by auto
  next
    case (poll_status b addr)
    with b [OF this(2)] show ?thesis using data_frames_ok [OF ok up] by auto
  next
    case (unknown_sender b sev addr wds)
    with b [OF this(2)] show ?thesis using from_unknown_ok [OF ok] by auto
  next
    case (timeout sev)
    then show ?thesis using fire_timer_ok [OF ok] by (simp add: kept_by_def good_def)
  next
    case (radius_reply b ev mem reply)
    with b [OF this(2)] show ?thesis using recv_radius_follows [OF ok _ _ d]
      unfolding follows_def led_astray_def no_bad_access_def by fastforce
  next
    case (acl_timeout b ev)
    with b [OF this(2)] show ?thesis using acl_tick_ok [OF ok] by auto
  next
    case (disconnected b sev reason addr)
    with b [OF this(2)] show ?thesis using taken_off_ok [OF ok] by auto
  next
    case (stations_freed b sev)
    with b [OF this(2)] show ?thesis using free_stas_good [OF ok] by auto
  qed
qed

lemma steps_outcome:
  assumes "ap_step\<^sup>*\<^sup>* w w'" and "world_ok w" and "configured w"
  shows "good w w' \<or> (\<exists>v. ap_step\<^sup>*\<^sup>* w v \<and> world_ok v \<and> ap_step v w' \<and> led_astray v w') \<and> \<not> no_bad_access w'"
  using assms(1)
proof (induction rule: rtranclp_induct)
  case base
  then show ?case using good_refl [OF assms(2)] by blast
next
  case (step y z)
  have "no_bad_access y" and e: "ap_event y z" using step.hyps(2) by (simp_all add: ap_step_def)
  then have g: "good w y" using step.IH by blast
  then have y: "world_ok y" "configured y" using configured_setup assms(3) by (auto simp: good_def)
  then show ?case using event_outcome [OF e y] good_trans [OF g] step.hyps by blast
qed

text \<open>C7: Whatever frames stations send, however their statuses, timeouts and replies of the server
  interleave, the table of the stations stays consistent: the list, the hash table, the number of
  stations and the bits of the AIDs of each BSS agree, the counters of the interface count the
  stations that are marked, every pending timeout refers to a live station of its BSS, and no access
  has gone through a null pointer or a freed station. The only way out is a probe request or a WMM action
  of an associated station in the last step, on which the code for that frame leaves an object: then the fault
  is the one of that code, and the state before it was consistent.\<close>

theorem station_table_consistent:
  assumes "world_ok w" and "configured w" and "ap_step\<^sup>*\<^sup>* w w'"
  shows "if no_bad_access w' then world_ok w'
    else (\<exists>v. ap_step\<^sup>*\<^sup>* w v \<and> world_ok v \<and> ap_step v w' \<and> led_astray v w')"
  using steps_outcome [OF assms(3,1,2)] by (auto simp: good_def world_ok_def)

lemma ex_configured: "configured ex_world"
proof -
  have at: "bss_at ex_world b = (if b = 0 then Some ex_sta_bss else None)" for b by (simp add: bss_at_def ex_world_def)
  have "all_up ex_world" by (simp add: all_up_def at) (simp add: ex_world_def)
  moreover have "dfs_known ex_world"
    by (simp add: dfs_known_def dfs_or_zero_def hostapd_is_dfs_required_def ex_world_def ex_iface_def ex_conf_def
        dfs_get_start_chan_idx_def current_mode_def index_of_chan_def ex_mode_def Let_def)
  moreover have "acl_ready (bs_acl_conf ex_sta_bss)" by (simp add: acl_ready_def acl_sorted_def acl_addrs_ok_def ex_sta_bss_def)
  ultimately show ?thesis by (auto simp: configured_def at split: if_split_asm)
qed

definition ex_deauth :: "byte list" where
  \<comment> \<open>26 octets: station 02:00:00:00:00:05 leaves\<close>
  "ex_deauth = [0xc0, 0, 0, 0] @ own_addr ex_sta_bss @ [2, 0, 0, 0, 0, 5] @ own_addr ex_sta_bss @ [0, 0, 3, 0]"

definition ex_mlme_env :: mlme_env where
  "ex_mlme_env = \<lparr>me_sta = ex_sta_env, me_acl = \<lparr>ae_clock = ex_at 10, ae_query_mem = True, ae_msg_mem = True, ae_radius_id = 0,
     ae_radius_sent = True\<rparr>, me_ap = ex_ev, me_cbs = [], me_reply_mem = True, me_challenge = None, me_wpa_init = True,
     me_validate = (\<lambda>p. WPA_IE_OK), me_uses_mfp = False\<rparr>"

lemma ex_deauth_run:
  "w_fault (snd (ieee802_11_mgmt ex_mlme_env ex_deauth 0 ex_world)) = None"
  "map (map_option bs_list) (w_bss (snd (ieee802_11_mgmt ex_mlme_env ex_deauth 0 ex_world))) = [Some []]"
  "length ex_deauth = 26"
  by code_simp+

theorem station_table_consistent_witness:
  "world_ok (snd (ieee802_11_mgmt ex_mlme_env ex_deauth 0 ex_world))
   \<and> map (map_option bs_list) (w_bss (snd (ieee802_11_mgmt ex_mlme_env ex_deauth 0 ex_world))) = [Some []] \<and> length ex_deauth = 26"
proof -
  let ?w = "snd (ieee802_11_mgmt ex_mlme_env ex_deauth 0 ex_world)"
  have "ap_event ex_world ?w"
    by (rule frame_received) (simp_all add: ex_world_def fresh_alloc_def ex_mlme_env_def ex_sta_env_def)
  then have "ap_step ex_world ?w" using ex_world_ok by (simp add: ap_step_def world_ok_def)
  then have "ap_step\<^sup>*\<^sup>* ex_world ?w" by blast
  from station_table_consistent [OF ex_world_ok ex_configured this] show ?thesis
    using ex_deauth_run by (simp add: no_bad_access_def)
qed

end
