(* ===== verification/Rsn_Ie.thy ===== *)
theory Rsn_Ie
  imports Ieee80211 Hex_Text
begin

text \<open>
  The security elements of hostapd: the bit masks of the cipher and key management
  suites (\<open>common/defs.h\<close>), their selectors and their text (\<open>common/wpa_common.c\<close>), the
  parsers of the RSN and WPA elements, and the writers of \<open>ap/wpa_auth_ie.c\<close>. A mask of
  type \<open>int\<close> is a \<open>u32\<close>. A parser sees the element as the list of its octets, the pair
  \<open>pos\<close> and \<open>left\<close> is the list of the octets that remain. The lemmas relate the writers
  to the parsers: what an access point advertises is what a parser reads.
\<close>

section \<open>Masks and selectors\<close>

abbreviation (input) "WPA_CIPHER_NONE \<equiv> (0x1 :: u32)"
abbreviation (input) "WPA_CIPHER_WEP40 \<equiv> (0x2 :: u32)"
abbreviation (input) "WPA_CIPHER_WEP104 \<equiv> (0x4 :: u32)"
abbreviation (input) "WPA_CIPHER_TKIP \<equiv> (0x8 :: u32)"
abbreviation (input) "WPA_CIPHER_CCMP \<equiv> (0x10 :: u32)"
abbreviation (input) "WPA_CIPHER_AES_128_CMAC \<equiv> (0x20 :: u32)"
abbreviation (input) "WPA_CIPHER_GCMP \<equiv> (0x40 :: u32)"
abbreviation (input) "WPA_CIPHER_GCMP_256 \<equiv> (0x100 :: u32)"
abbreviation (input) "WPA_CIPHER_CCMP_256 \<equiv> (0x200 :: u32)"
abbreviation (input) "WPA_CIPHER_BIP_GMAC_128 \<equiv> (0x800 :: u32)"
abbreviation (input) "WPA_CIPHER_BIP_GMAC_256 \<equiv> (0x1000 :: u32)"
abbreviation (input) "WPA_CIPHER_BIP_CMAC_256 \<equiv> (0x2000 :: u32)"
abbreviation (input) "WPA_CIPHER_GTK_NOT_USED \<equiv> (0x4000 :: u32)"

abbreviation (input) "WPA_KEY_MGMT_IEEE8021X \<equiv> (0x1 :: u32)"
abbreviation (input) "WPA_KEY_MGMT_PSK \<equiv> (0x2 :: u32)"
abbreviation (input) "WPA_KEY_MGMT_NONE \<equiv> (0x4 :: u32)"
abbreviation (input) "WPA_KEY_MGMT_IEEE8021X_NO_WPA \<equiv> (0x8 :: u32)"
abbreviation (input) "WPA_KEY_MGMT_WPA_NONE \<equiv> (0x10 :: u32)"
abbreviation (input) "WPA_KEY_MGMT_IEEE8021X_SHA256 \<equiv> (0x80 :: u32)"
abbreviation (input) "WPA_KEY_MGMT_PSK_SHA256 \<equiv> (0x100 :: u32)"
abbreviation (input) "WPA_KEY_MGMT_OSEN \<equiv> (0x8000 :: u32)"

abbreviation (input) "WPA_PROTO_WPA \<equiv> (1 :: u32)"
abbreviation (input) "WPA_PROTO_RSN \<equiv> (2 :: u32)"
abbreviation (input) "WPA_PROTO_OSEN \<equiv> (8 :: u32)"

abbreviation (input) "RSN_CIPHER_SUITE_NONE \<equiv> (0x000FAC00 :: u32)"
abbreviation (input) "RSN_CIPHER_SUITE_WEP40 \<equiv> (0x000FAC01 :: u32)"
abbreviation (input) "RSN_CIPHER_SUITE_TKIP \<equiv> (0x000FAC02 :: u32)"
abbreviation (input) "RSN_CIPHER_SUITE_CCMP \<equiv> (0x000FAC04 :: u32)"
abbreviation (input) "RSN_CIPHER_SUITE_WEP104 \<equiv> (0x000FAC05 :: u32)"
abbreviation (input) "RSN_CIPHER_SUITE_AES_128_CMAC \<equiv> (0x000FAC06 :: u32)"
abbreviation (input) "RSN_CIPHER_SUITE_NO_GROUP_ADDRESSED \<equiv> (0x000FAC07 :: u32)"
abbreviation (input) "RSN_CIPHER_SUITE_GCMP \<equiv> (0x000FAC08 :: u32)"
abbreviation (input) "RSN_CIPHER_SUITE_GCMP_256 \<equiv> (0x000FAC09 :: u32)"
abbreviation (input) "RSN_CIPHER_SUITE_CCMP_256 \<equiv> (0x000FAC0A :: u32)"
abbreviation (input) "RSN_CIPHER_SUITE_BIP_GMAC_128 \<equiv> (0x000FAC0B :: u32)"
abbreviation (input) "RSN_CIPHER_SUITE_BIP_GMAC_256 \<equiv> (0x000FAC0C :: u32)"
abbreviation (input) "RSN_CIPHER_SUITE_BIP_CMAC_256 \<equiv> (0x000FAC0D :: u32)"
abbreviation (input) "RSN_AUTH_KEY_MGMT_UNSPEC_802_1X \<equiv> (0x000FAC01 :: u32)"
abbreviation (input) "RSN_AUTH_KEY_MGMT_PSK_OVER_802_1X \<equiv> (0x000FAC02 :: u32)"
abbreviation (input) "RSN_AUTH_KEY_MGMT_802_1X_SHA256 \<equiv> (0x000FAC05 :: u32)"
abbreviation (input) "RSN_AUTH_KEY_MGMT_PSK_SHA256 \<equiv> (0x000FAC06 :: u32)"
abbreviation (input) "RSN_AUTH_KEY_MGMT_OSEN \<equiv> (0x506F9A01 :: u32)"
abbreviation (input) "WPA_CIPHER_SUITE_NONE \<equiv> (0x0050F200 :: u32)"
abbreviation (input) "WPA_CIPHER_SUITE_WEP40 \<equiv> (0x0050F201 :: u32)"
abbreviation (input) "WPA_CIPHER_SUITE_TKIP \<equiv> (0x0050F202 :: u32)"
abbreviation (input) "WPA_CIPHER_SUITE_CCMP \<equiv> (0x0050F204 :: u32)"
abbreviation (input) "WPA_CIPHER_SUITE_WEP104 \<equiv> (0x0050F205 :: u32)"
abbreviation (input) "WPA_AUTH_KEY_MGMT_NONE \<equiv> (0x0050F200 :: u32)"
abbreviation (input) "WPA_AUTH_KEY_MGMT_UNSPEC_802_1X \<equiv> (0x0050F201 :: u32)"
abbreviation (input) "WPA_AUTH_KEY_MGMT_PSK_OVER_802_1X \<equiv> (0x0050F202 :: u32)"
abbreviation (input) "WPA_OUI_TYPE \<equiv> (0x0050F201 :: u32)"

abbreviation (input) "WPA_CAPABILITY_PREAUTH \<equiv> (0x1 :: u16)"
abbreviation (input) "WPA_CAPABILITY_MFPR \<equiv> (0x40 :: u16)"
abbreviation (input) "WPA_CAPABILITY_MFPC \<equiv> (0x80 :: u16)"
abbreviation (input) "WPA_CAPABILITY_PEERKEY_ENABLED \<equiv> (0x200 :: u16)"
abbreviation (input) "RSN_NUM_REPLAY_COUNTERS_16 \<equiv> (3 :: u16)"
abbreviation (input) "PMKID_LEN \<equiv> (16 :: nat)"

text \<open>The selector in the first four octets of what remains.\<close>

definition rsn_selector_to_bitfield :: "byte list \<Rightarrow> u32" where
  "rsn_selector_to_bitfield s =
     (let v = get_be32 s 0 in
      if v = RSN_CIPHER_SUITE_NONE then WPA_CIPHER_NONE
      else if v = RSN_CIPHER_SUITE_WEP40 then WPA_CIPHER_WEP40
      else if v = RSN_CIPHER_SUITE_TKIP then WPA_CIPHER_TKIP
      else if v = RSN_CIPHER_SUITE_CCMP then WPA_CIPHER_CCMP
      else if v = RSN_CIPHER_SUITE_WEP104 then WPA_CIPHER_WEP104
      else if v = RSN_CIPHER_SUITE_AES_128_CMAC then WPA_CIPHER_AES_128_CMAC
      else if v = RSN_CIPHER_SUITE_GCMP then WPA_CIPHER_GCMP
      else if v = RSN_CIPHER_SUITE_CCMP_256 then WPA_CIPHER_CCMP_256
      else if v = RSN_CIPHER_SUITE_GCMP_256 then WPA_CIPHER_GCMP_256
      else if v = RSN_CIPHER_SUITE_BIP_GMAC_128 then WPA_CIPHER_BIP_GMAC_128
      else if v = RSN_CIPHER_SUITE_BIP_GMAC_256 then WPA_CIPHER_BIP_GMAC_256
      else if v = RSN_CIPHER_SUITE_BIP_CMAC_256 then WPA_CIPHER_BIP_CMAC_256
      else if v = RSN_CIPHER_SUITE_NO_GROUP_ADDRESSED then WPA_CIPHER_GTK_NOT_USED
      else 0)"

definition rsn_key_mgmt_to_bitfield :: "byte list \<Rightarrow> u32" where
  "rsn_key_mgmt_to_bitfield s =
     (let v = get_be32 s 0 in
      if v = RSN_AUTH_KEY_MGMT_UNSPEC_802_1X then WPA_KEY_MGMT_IEEE8021X
      else if v = RSN_AUTH_KEY_MGMT_PSK_OVER_802_1X then WPA_KEY_MGMT_PSK
      else if v = RSN_AUTH_KEY_MGMT_802_1X_SHA256 then WPA_KEY_MGMT_IEEE8021X_SHA256
      else if v = RSN_AUTH_KEY_MGMT_PSK_SHA256 then WPA_KEY_MGMT_PSK_SHA256
      else 0)"

definition wpa_selector_to_bitfield :: "byte list \<Rightarrow> u32" where
  "wpa_selector_to_bitfield s =
     (let v = get_be32 s 0 in
      if v = WPA_CIPHER_SUITE_NONE then WPA_CIPHER_NONE
      else if v = WPA_CIPHER_SUITE_WEP40 then WPA_CIPHER_WEP40
      else if v = WPA_CIPHER_SUITE_TKIP then WPA_CIPHER_TKIP
      else if v = WPA_CIPHER_SUITE_CCMP then WPA_CIPHER_CCMP
      else if v = WPA_CIPHER_SUITE_WEP104 then WPA_CIPHER_WEP104
      else 0)"

definition wpa_key_mgmt_to_bitfield :: "byte list \<Rightarrow> u32" where
  "wpa_key_mgmt_to_bitfield s =
     (let v = get_be32 s 0 in
      if v = WPA_AUTH_KEY_MGMT_UNSPEC_802_1X then WPA_KEY_MGMT_IEEE8021X
      else if v = WPA_AUTH_KEY_MGMT_PSK_OVER_802_1X then WPA_KEY_MGMT_PSK
      else if v = WPA_AUTH_KEY_MGMT_NONE then WPA_KEY_MGMT_WPA_NONE
      else 0)"

definition wpa_cipher_valid_pairwise :: "u32 \<Rightarrow> bool" where
  "wpa_cipher_valid_pairwise cipher \<longleftrightarrow>
     cipher = WPA_CIPHER_CCMP_256 \<or> cipher = WPA_CIPHER_GCMP_256 \<or> cipher = WPA_CIPHER_CCMP
     \<or> cipher = WPA_CIPHER_GCMP \<or> cipher = WPA_CIPHER_TKIP"

definition wpa_cipher_valid_group :: "u32 \<Rightarrow> bool" where
  "wpa_cipher_valid_group cipher \<longleftrightarrow>
     wpa_cipher_valid_pairwise cipher \<or> cipher = WPA_CIPHER_WEP104 \<or> cipher = WPA_CIPHER_WEP40
     \<or> cipher = WPA_CIPHER_GTK_NOT_USED"

definition wpa_cipher_valid_mgmt_group :: "u32 \<Rightarrow> bool" where
  "wpa_cipher_valid_mgmt_group cipher \<longleftrightarrow>
     cipher = WPA_CIPHER_AES_128_CMAC \<or> cipher = WPA_CIPHER_BIP_GMAC_128
     \<or> cipher = WPA_CIPHER_BIP_GMAC_256 \<or> cipher = WPA_CIPHER_BIP_CMAC_256"

section \<open>Parsing the elements\<close>

text \<open>
  \<open>struct wpa_ie_data\<close>; the pointer \<open>pmkid\<close> is the list of the octets from the first
  PMKID on.
\<close>

record wpa_ie_data =
  ied_proto :: u32
  ied_pairwise_cipher :: u32
  ied_group_cipher :: u32
  ied_key_mgmt :: u32
  ied_capabilities :: u16
  ied_num_pmkid :: nat
  ied_pmkid :: "byte list option"
  ied_mgmt_group_cipher :: u32

text \<open>
  The parsers are sequences of stages. A stage gets the structure and the octets that
  remain, and returns the status the code would return (0: go on), the structure as it is
  then, and what remains. The structure is of interest also after an error: the caller
  looks at it before it looks at the status.
\<close>

type_synonym parse_state = "int \<times> wpa_ie_data \<times> byte list"

definition stage :: "(wpa_ie_data \<Rightarrow> byte list \<Rightarrow> parse_state) \<Rightarrow> parse_state \<Rightarrow> parse_state" where
  "stage f r = (case r of (res, data, pos) \<Rightarrow> if res = 0 then f data pos else r)"

text \<open>The loop over a suite list: \<open>n\<close> selectors are left, \<open>acc\<close> is the mask so far.\<close>

fun suite_loop :: "(byte list \<Rightarrow> u32) \<Rightarrow> nat \<Rightarrow> u32 \<Rightarrow> byte list \<Rightarrow> u32 \<times> byte list" where
  "suite_loop bitfield 0 acc pos = (acc, pos)"
| "suite_loop bitfield (Suc n) acc pos = suite_loop bitfield n (acc OR bitfield pos) (drop 4 pos)"

definition rsn_group :: "wpa_ie_data \<Rightarrow> byte list \<Rightarrow> parse_state" where
  "rsn_group data pos =
     (if 4 \<le> length pos
      then let data = data\<lparr>ied_group_cipher := rsn_selector_to_bitfield pos\<rparr> in
           if \<not> wpa_cipher_valid_group (ied_group_cipher data) then (-1, data, pos)
           else (0, data, drop 4 pos)
      else if 0 < length pos then (-3, data, pos) else (0, data, pos))"

definition rsn_pairwise :: "wpa_ie_data \<Rightarrow> byte list \<Rightarrow> parse_state" where
  "rsn_pairwise data pos =
     (if 2 \<le> length pos
      then let data = data\<lparr>ied_pairwise_cipher := 0\<rparr>; count = unat (get_le16 pos 0); pos = drop 2 pos in
           if count = 0 \<or> length pos < count * 4 then (-4, data, pos)
           else let (ciphers, pos) = suite_loop rsn_selector_to_bitfield count 0 pos;
                    data = data\<lparr>ied_pairwise_cipher := ciphers\<rparr> in
                if ied_pairwise_cipher data AND WPA_CIPHER_AES_128_CMAC \<noteq> 0 then (-1, data, pos)
                else (0, data, pos)
      else if length pos = 1 then (-5, data, pos) else (0, data, pos))"

definition rsn_key_mgmt :: "wpa_ie_data \<Rightarrow> byte list \<Rightarrow> parse_state" where
  "rsn_key_mgmt data pos =
     (if 2 \<le> length pos
      then let data = data\<lparr>ied_key_mgmt := 0\<rparr>; count = unat (get_le16 pos 0); pos = drop 2 pos in
           if count = 0 \<or> length pos < count * 4 then (-6, data, pos)
           else let (suites, pos) = suite_loop rsn_key_mgmt_to_bitfield count 0 pos in
                (0, data\<lparr>ied_key_mgmt := suites\<rparr>, pos)
      else if length pos = 1 then (-7, data, pos) else (0, data, pos))"

definition ie_capabilities :: "wpa_ie_data \<Rightarrow> byte list \<Rightarrow> parse_state" where
  "ie_capabilities data pos =
     (if 2 \<le> length pos then (0, data\<lparr>ied_capabilities := get_le16 pos 0\<rparr>, drop 2 pos)
      else (0, data, pos))"

definition rsn_pmkids :: "wpa_ie_data \<Rightarrow> byte list \<Rightarrow> parse_state" where
  "rsn_pmkids data pos =
     (if 2 \<le> length pos
      then let data = data\<lparr>ied_num_pmkid := unat (get_le16 pos 0)\<rparr>; pos = drop 2 pos in
           if length pos < ied_num_pmkid data * PMKID_LEN then (-9, data\<lparr>ied_num_pmkid := 0\<rparr>, pos)
           else (0, data\<lparr>ied_pmkid := Some pos\<rparr>, drop (ied_num_pmkid data * PMKID_LEN) pos)
      else (0, data, pos))"

definition rsn_mgmt_group :: "wpa_ie_data \<Rightarrow> byte list \<Rightarrow> parse_state" where
  "rsn_mgmt_group data pos =
     (if 4 \<le> length pos
      then let data = data\<lparr>ied_mgmt_group_cipher := rsn_selector_to_bitfield pos\<rparr> in
           if \<not> wpa_cipher_valid_mgmt_group (ied_mgmt_group_cipher data) then (-10, data, pos)
           else (0, data, drop 4 pos)
      else (0, data, pos))"

definition rsn_defaults :: wpa_ie_data where
  "rsn_defaults =
     \<lparr>ied_proto = WPA_PROTO_RSN, ied_pairwise_cipher = WPA_CIPHER_CCMP,
      ied_group_cipher = WPA_CIPHER_CCMP, ied_key_mgmt = WPA_KEY_MGMT_IEEE8021X,
      ied_capabilities = 0, ied_num_pmkid = 0, ied_pmkid = None,
      ied_mgmt_group_cipher = WPA_CIPHER_AES_128_CMAC\<rparr>"

definition wpa_parse_wpa_ie_rsn :: "byte list \<Rightarrow> int \<times> wpa_ie_data" where
  "wpa_parse_wpa_ie_rsn rsn_ie =
     (let data = rsn_defaults in
      if length rsn_ie = 0 then (-1, data)
      else if length rsn_ie < 4 then (-1, data)
      else if rsn_ie ! 0 \<noteq> WLAN_EID_RSN \<or> unat (rsn_ie ! 1) \<noteq> length rsn_ie - 2
              \<or> get_le16 rsn_ie 2 \<noteq> 1 then (-2, data)
      else case stage rsn_mgmt_group (stage rsn_pmkids (stage ie_capabilities
                  (stage rsn_key_mgmt (stage rsn_pairwise (rsn_group data (drop 4 rsn_ie))))))
           of (res, data, pos) \<Rightarrow> (res, data))"

definition wpa_group :: "wpa_ie_data \<Rightarrow> byte list \<Rightarrow> parse_state" where
  "wpa_group data pos =
     (if 4 \<le> length pos
      then (0, data\<lparr>ied_group_cipher := wpa_selector_to_bitfield pos\<rparr>, drop 4 pos)
      else if 0 < length pos then (-3, data, pos) else (0, data, pos))"

definition wpa_pairwise :: "wpa_ie_data \<Rightarrow> byte list \<Rightarrow> parse_state" where
  "wpa_pairwise data pos =
     (if 2 \<le> length pos
      then let data = data\<lparr>ied_pairwise_cipher := 0\<rparr>; count = unat (get_le16 pos 0); pos = drop 2 pos in
           if count = 0 \<or> length pos < count * 4 then (-4, data, pos)
           else let (ciphers, pos) = suite_loop wpa_selector_to_bitfield count 0 pos in
                (0, data\<lparr>ied_pairwise_cipher := ciphers\<rparr>, pos)
      else if length pos = 1 then (-5, data, pos) else (0, data, pos))"

definition wpa_key_mgmt :: "wpa_ie_data \<Rightarrow> byte list \<Rightarrow> parse_state" where
  "wpa_key_mgmt data pos =
     (if 2 \<le> length pos
      then let data = data\<lparr>ied_key_mgmt := 0\<rparr>; count = unat (get_le16 pos 0); pos = drop 2 pos in
           if count = 0 \<or> length pos < count * 4 then (-6, data, pos)
           else let (suites, pos) = suite_loop wpa_key_mgmt_to_bitfield count 0 pos in
                (0, data\<lparr>ied_key_mgmt := suites\<rparr>, pos)
      else if length pos = 1 then (-7, data, pos) else (0, data, pos))"

definition wpa_defaults :: wpa_ie_data where
  "wpa_defaults =
     \<lparr>ied_proto = WPA_PROTO_WPA, ied_pairwise_cipher = WPA_CIPHER_TKIP,
      ied_group_cipher = WPA_CIPHER_TKIP, ied_key_mgmt = WPA_KEY_MGMT_IEEE8021X,
      ied_capabilities = 0, ied_num_pmkid = 0, ied_pmkid = None, ied_mgmt_group_cipher = 0\<rparr>"

definition wpa_parse_wpa_ie_wpa :: "byte list \<Rightarrow> int \<times> wpa_ie_data" where
  "wpa_parse_wpa_ie_wpa wpa_ie =
     (let data = wpa_defaults in
      if length wpa_ie = 0 then (-1, data)
      else if length wpa_ie < 8 then (-1, data)
      else if wpa_ie ! 0 \<noteq> WLAN_EID_VENDOR_SPECIFIC \<or> unat (wpa_ie ! 1) \<noteq> length wpa_ie - 2
              \<or> get_be32 wpa_ie 2 \<noteq> WPA_OUI_TYPE \<or> get_le16 wpa_ie 6 \<noteq> 1 then (-2, data)
      else case stage ie_capabilities (stage wpa_key_mgmt (stage wpa_pairwise
                  (wpa_group data (drop 8 wpa_ie))))
           of (res, data, pos) \<Rightarrow> (res, data))"

section \<open>Suites of a mask\<close>

definition wpa_cipher_key_len :: "u32 \<Rightarrow> nat" where
  "wpa_cipher_key_len cipher =
     (if cipher \<in> {WPA_CIPHER_CCMP_256, WPA_CIPHER_GCMP_256, WPA_CIPHER_BIP_GMAC_256,
                   WPA_CIPHER_BIP_CMAC_256} then 32
      else if cipher \<in> {WPA_CIPHER_CCMP, WPA_CIPHER_GCMP, WPA_CIPHER_AES_128_CMAC,
                        WPA_CIPHER_BIP_GMAC_128} then 16
      else if cipher = WPA_CIPHER_TKIP then 32
      else if cipher = WPA_CIPHER_WEP104 then 13
      else if cipher = WPA_CIPHER_WEP40 then 5
      else 0)"

definition wpa_cipher_rsc_len :: "u32 \<Rightarrow> nat" where
  "wpa_cipher_rsc_len cipher =
     (if cipher \<in> {WPA_CIPHER_CCMP_256, WPA_CIPHER_GCMP_256, WPA_CIPHER_CCMP, WPA_CIPHER_GCMP,
                   WPA_CIPHER_TKIP} then 6
      else 0)"

definition wpa_cipher_to_suite :: "u32 \<Rightarrow> u32 \<Rightarrow> u32" where
  "wpa_cipher_to_suite proto cipher =
     (let rsn = (proto = WPA_PROTO_RSN) in
      if cipher AND WPA_CIPHER_CCMP_256 \<noteq> 0 then RSN_CIPHER_SUITE_CCMP_256
      else if cipher AND WPA_CIPHER_GCMP_256 \<noteq> 0 then RSN_CIPHER_SUITE_GCMP_256
      else if cipher AND WPA_CIPHER_CCMP \<noteq> 0
           then (if rsn then RSN_CIPHER_SUITE_CCMP else WPA_CIPHER_SUITE_CCMP)
      else if cipher AND WPA_CIPHER_GCMP \<noteq> 0 then RSN_CIPHER_SUITE_GCMP
      else if cipher AND WPA_CIPHER_TKIP \<noteq> 0
           then (if rsn then RSN_CIPHER_SUITE_TKIP else WPA_CIPHER_SUITE_TKIP)
      else if cipher AND WPA_CIPHER_WEP104 \<noteq> 0
           then (if rsn then RSN_CIPHER_SUITE_WEP104 else WPA_CIPHER_SUITE_WEP104)
      else if cipher AND WPA_CIPHER_WEP40 \<noteq> 0
           then (if rsn then RSN_CIPHER_SUITE_WEP40 else WPA_CIPHER_SUITE_WEP40)
      else if cipher AND WPA_CIPHER_NONE \<noteq> 0
           then (if rsn then RSN_CIPHER_SUITE_NONE else WPA_CIPHER_SUITE_NONE)
      else if cipher AND WPA_CIPHER_GTK_NOT_USED \<noteq> 0 then RSN_CIPHER_SUITE_NO_GROUP_ADDRESSED
      else if cipher AND WPA_CIPHER_AES_128_CMAC \<noteq> 0 then RSN_CIPHER_SUITE_AES_128_CMAC
      else if cipher AND WPA_CIPHER_BIP_GMAC_128 \<noteq> 0 then RSN_CIPHER_SUITE_BIP_GMAC_128
      else if cipher AND WPA_CIPHER_BIP_GMAC_256 \<noteq> 0 then RSN_CIPHER_SUITE_BIP_GMAC_256
      else if cipher AND WPA_CIPHER_BIP_CMAC_256 \<noteq> 0 then RSN_CIPHER_SUITE_BIP_CMAC_256
      else 0)"

text \<open>
  The suites written for a mask: the code tests the bits in this order and puts the
  selector of each one that is set. Their number is the result of the C functions.
\<close>

definition put_suites :: "(u32 \<times> u32) list \<Rightarrow> u32 \<Rightarrow> byte list list" where
  "put_suites table ciphers = [put_be32 suite. (bits, suite) \<leftarrow> table, ciphers AND bits \<noteq> 0]"

definition rsn_cipher_put_suites :: "u32 \<Rightarrow> byte list list" where
  "rsn_cipher_put_suites = put_suites
     [(WPA_CIPHER_CCMP_256, RSN_CIPHER_SUITE_CCMP_256),
      (WPA_CIPHER_GCMP_256, RSN_CIPHER_SUITE_GCMP_256),
      (WPA_CIPHER_CCMP, RSN_CIPHER_SUITE_CCMP),
      (WPA_CIPHER_GCMP, RSN_CIPHER_SUITE_GCMP),
      (WPA_CIPHER_TKIP, RSN_CIPHER_SUITE_TKIP),
      (WPA_CIPHER_NONE, RSN_CIPHER_SUITE_NONE)]"

definition wpa_cipher_put_suites :: "u32 \<Rightarrow> byte list list" where
  "wpa_cipher_put_suites = put_suites
     [(WPA_CIPHER_CCMP, WPA_CIPHER_SUITE_CCMP),
      (WPA_CIPHER_TKIP, WPA_CIPHER_SUITE_TKIP),
      (WPA_CIPHER_NONE, WPA_CIPHER_SUITE_NONE)]"

text \<open>The result -1 is \<open>None\<close>.\<close>

definition wpa_pick_pairwise_cipher :: "u32 \<Rightarrow> bool \<Rightarrow> u32 option" where
  "wpa_pick_pairwise_cipher ciphers none_allowed =
     (if ciphers AND WPA_CIPHER_CCMP_256 \<noteq> 0 then Some WPA_CIPHER_CCMP_256
      else if ciphers AND WPA_CIPHER_GCMP_256 \<noteq> 0 then Some WPA_CIPHER_GCMP_256
      else if ciphers AND WPA_CIPHER_CCMP \<noteq> 0 then Some WPA_CIPHER_CCMP
      else if ciphers AND WPA_CIPHER_GCMP \<noteq> 0 then Some WPA_CIPHER_GCMP
      else if ciphers AND WPA_CIPHER_TKIP \<noteq> 0 then Some WPA_CIPHER_TKIP
      else if none_allowed \<and> ciphers AND WPA_CIPHER_NONE \<noteq> 0 then Some WPA_CIPHER_NONE
      else None)"

definition wpa_select_ap_group_cipher :: "u32 \<Rightarrow> u32 \<Rightarrow> u32 \<Rightarrow> u32" where
  "wpa_select_ap_group_cipher wpa wpa_pw rsn_pw =
     (let pairwise = (if wpa AND 1 \<noteq> 0 then wpa_pw else 0) OR (if wpa AND 2 \<noteq> 0 then rsn_pw else 0) in
      if pairwise AND WPA_CIPHER_TKIP \<noteq> 0 then WPA_CIPHER_TKIP
      else if pairwise AND (WPA_CIPHER_CCMP OR WPA_CIPHER_GCMP) = WPA_CIPHER_GCMP then WPA_CIPHER_GCMP
      else if pairwise AND (WPA_CIPHER_GCMP_256 OR WPA_CIPHER_CCMP OR WPA_CIPHER_GCMP)
                = WPA_CIPHER_GCMP_256 then WPA_CIPHER_GCMP_256
      else if pairwise AND (WPA_CIPHER_CCMP_256 OR WPA_CIPHER_CCMP OR WPA_CIPHER_GCMP)
                = WPA_CIPHER_CCMP_256 then WPA_CIPHER_CCMP_256
      else WPA_CIPHER_CCMP)"


definition wpa_pick_group_cipher :: "u32 \<Rightarrow> u32 option" where
  "wpa_pick_group_cipher ciphers =
     (if ciphers AND WPA_CIPHER_CCMP_256 \<noteq> 0 then Some WPA_CIPHER_CCMP_256
      else if ciphers AND WPA_CIPHER_GCMP_256 \<noteq> 0 then Some WPA_CIPHER_GCMP_256
      else if ciphers AND WPA_CIPHER_CCMP \<noteq> 0 then Some WPA_CIPHER_CCMP
      else if ciphers AND WPA_CIPHER_GCMP \<noteq> 0 then Some WPA_CIPHER_GCMP
      else if ciphers AND WPA_CIPHER_GTK_NOT_USED \<noteq> 0 then Some WPA_CIPHER_GTK_NOT_USED
      else if ciphers AND WPA_CIPHER_TKIP \<noteq> 0 then Some WPA_CIPHER_TKIP
      else if ciphers AND WPA_CIPHER_WEP104 \<noteq> 0 then Some WPA_CIPHER_WEP104
      else if ciphers AND WPA_CIPHER_WEP40 \<noteq> 0 then Some WPA_CIPHER_WEP40
      else None)"

section \<open>Writing the elements\<close>

text \<open>
  The part of \<open>struct wpa_auth_config\<close> the authenticator reads in the shipped build.
  \<open>ieee80211w\<close> is 0 (no protection of management frames), 1 (optional) or 2 (required).
\<close>

record wpa_auth_config =
  wac_wpa :: u32
  wac_key_mgmt :: u32
  wac_wpa_pairwise :: u32
  wac_group :: u32
  wac_rsn_pairwise :: u32
  wac_rsn_preauth :: bool
  wac_peerkey :: bool
  wac_wmm_enabled :: bool
  wac_disable_pmksa_caching :: bool
  wac_okc :: bool
  wac_ieee80211w :: nat
  wac_group_mgmt_cipher :: u32

text \<open>
  A writer has a buffer of \<open>len\<close> octets. \<open>put_at\<close> is a store behind what has been
  written; the code checks the room only before the PMKID and before the management group
  cipher, so a store past the end is a fault. The result -1 is \<open>None\<close>; otherwise the
  result of the C function is the length of the octets.
\<close>

definition put_at :: "nat \<Rightarrow> byte list \<Rightarrow> byte list \<Rightarrow> fault + byte list" where
  "put_at len out bs =
     (if length (out @ bs) \<le> len then Inr (out @ bs) else Inl (Write_past_end len (length (out @ bs))))"

definition patch_len :: "byte list \<Rightarrow> byte list" where
  \<comment> \<open>\<open>hdr->len = (pos - buf) - 2\<close>, converted to an octet\<close>
  "patch_len out = out[1 := word_of_nat (length out - 2)]"

definition put_list :: "nat \<Rightarrow> byte list \<Rightarrow> byte list list \<Rightarrow> fault + byte list option" where
  \<comment> \<open>a suite list with its count in front; an empty list is refused before the count is stored\<close>
  "put_list len out suites =
     (if suites = [] then Inr None
      else fbind (put_at len out (put_le16 (word_of_nat (length suites)) @ concat suites)) (\<lambda>out. Inr (Some out)))"

definition obind :: "fault + 'a option \<Rightarrow> ('a \<Rightarrow> fault + 'b option) \<Rightarrow> fault + 'b option" where
  "obind r f = fbind r (\<lambda>v. case v of None \<Rightarrow> Inr None | Some x \<Rightarrow> f x)"

lemma obind_simps [simp]:
  "obind (Inl e) f = Inl e" "obind (Inr None) f = Inr None" "obind (Inr (Some x)) f = f x"
  by (simp_all add: obind_def)

definition wpa_akm_suites :: "u32 \<Rightarrow> byte list list" where
  "wpa_akm_suites = put_suites
     [(WPA_KEY_MGMT_IEEE8021X, WPA_AUTH_KEY_MGMT_UNSPEC_802_1X),
      (WPA_KEY_MGMT_PSK, WPA_AUTH_KEY_MGMT_PSK_OVER_802_1X)]"

definition wpa_write_wpa_ie :: "wpa_auth_config \<Rightarrow> nat \<Rightarrow> fault + byte list option" where
  "wpa_write_wpa_ie conf len =
     fbind (put_at len [] ([WLAN_EID_VENDOR_SPECIFIC, 0] @ put_be32 WPA_OUI_TYPE @ put_le16 1)) (\<lambda>out.
     let suite = wpa_cipher_to_suite WPA_PROTO_WPA (wac_group conf) in
     if suite = 0 then Inr None
     else fbind (put_at len out (put_be32 suite)) (\<lambda>out.
     obind (put_list len out (wpa_cipher_put_suites (wac_wpa_pairwise conf))) (\<lambda>out.
     obind (put_list len out (wpa_akm_suites (wac_key_mgmt conf))) (\<lambda>out.
     Inr (Some (patch_len out))))))"

definition rsn_akm_suites :: "u32 \<Rightarrow> byte list list" where
  "rsn_akm_suites = put_suites
     [(WPA_KEY_MGMT_IEEE8021X, RSN_AUTH_KEY_MGMT_UNSPEC_802_1X),
      (WPA_KEY_MGMT_PSK, RSN_AUTH_KEY_MGMT_PSK_OVER_802_1X),
      (WPA_KEY_MGMT_IEEE8021X_SHA256, RSN_AUTH_KEY_MGMT_802_1X_SHA256),
      (WPA_KEY_MGMT_PSK_SHA256, RSN_AUTH_KEY_MGMT_PSK_SHA256)]"

definition rsn_capab :: "wpa_auth_config \<Rightarrow> u16" where
  "rsn_capab conf =
     (if wac_rsn_preauth conf then WPA_CAPABILITY_PREAUTH else 0)
     OR (if wac_peerkey conf then WPA_CAPABILITY_PEERKEY_ENABLED else 0)
     OR (if wac_wmm_enabled conf then push_bit 2 RSN_NUM_REPLAY_COUNTERS_16 else 0)
     OR (if wac_ieee80211w conf \<noteq> 0
         then WPA_CAPABILITY_MFPC OR (if wac_ieee80211w conf = 2 then WPA_CAPABILITY_MFPR else 0) else 0)"

definition mgmt_group_suite :: "u32 \<Rightarrow> u32 option" where
  "mgmt_group_suite cipher =
     (if cipher = WPA_CIPHER_AES_128_CMAC then Some RSN_CIPHER_SUITE_AES_128_CMAC
      else if cipher = WPA_CIPHER_BIP_GMAC_128 then Some RSN_CIPHER_SUITE_BIP_GMAC_128
      else if cipher = WPA_CIPHER_BIP_GMAC_256 then Some RSN_CIPHER_SUITE_BIP_GMAC_256
      else if cipher = WPA_CIPHER_BIP_CMAC_256 then Some RSN_CIPHER_SUITE_BIP_CMAC_256
      else None)"

definition rsn_put_pmkid :: "nat \<Rightarrow> byte list option \<Rightarrow> byte list \<Rightarrow> fault + byte list option" where
  "rsn_put_pmkid len pmkid out =
     (case pmkid of
        None \<Rightarrow> Inr (Some out)
      | Some p \<Rightarrow>
          if length out + 2 + PMKID_LEN > len then Inr None
          else fbind (put_at len out (put_le16 1 @ take PMKID_LEN p)) (\<lambda>out. Inr (Some out)))"

definition rsn_put_mgmt_group ::
  "wpa_auth_config \<Rightarrow> nat \<Rightarrow> byte list option \<Rightarrow> byte list \<Rightarrow> fault + byte list option" where
  "rsn_put_mgmt_group conf len pmkid out =
     (if wac_ieee80211w conf = 0 then Inr (Some out)
      else if length out + 2 + 4 > len then Inr None
      else fbind (put_at len out (if pmkid = None then put_le16 0 else [])) (\<lambda>out.
           case mgmt_group_suite (wac_group_mgmt_cipher conf) of
             None \<Rightarrow> Inr None
           | Some suite \<Rightarrow> fbind (put_at len out (put_be32 suite)) (\<lambda>out. Inr (Some out))))"

definition wpa_write_rsn_ie :: "wpa_auth_config \<Rightarrow> nat \<Rightarrow> byte list option \<Rightarrow> fault + byte list option" where
  "wpa_write_rsn_ie conf len pmkid =
     fbind (put_at len [] ([WLAN_EID_RSN, 0] @ put_le16 1)) (\<lambda>out.
     let suite = wpa_cipher_to_suite WPA_PROTO_RSN (wac_group conf) in
     if suite = 0 then Inr None
     else fbind (put_at len out (put_be32 suite)) (\<lambda>out.
     obind (put_list len out (rsn_cipher_put_suites (wac_rsn_pairwise conf))) (\<lambda>out.
     obind (put_list len out (rsn_akm_suites (wac_key_mgmt conf))) (\<lambda>out.
     fbind (put_at len out (put_le16 (rsn_capab conf))) (\<lambda>out.
     obind (rsn_put_pmkid len pmkid out) (\<lambda>out.
     obind (rsn_put_mgmt_group conf len pmkid out) (\<lambda>out.
     Inr (Some (patch_len out)))))))))"

text \<open>\<open>wpa_write_osen\<close> gets no length: the octets it stores.\<close>

definition wpa_write_osen :: "wpa_auth_config \<Rightarrow> byte list" where
  "wpa_write_osen conf =
     (let capab = (if wac_wmm_enabled conf then push_bit 2 RSN_NUM_REPLAY_COUNTERS_16 else 0)
                OR (if wac_ieee80211w conf \<noteq> 0
                    then WPA_CAPABILITY_MFPC OR (if wac_ieee80211w conf = 2 then WPA_CAPABILITY_MFPR else 0)
                    else 0) in
      patch_len ([WLAN_EID_VENDOR_SPECIFIC, 0] @ put_be24 OUI_WFA @ [HS20_OSEN_OUI_TYPE]
        @ put_be32 RSN_CIPHER_SUITE_NO_GROUP_ADDRESSED @ put_le16 1 @ put_be32 RSN_CIPHER_SUITE_CCMP
        @ put_le16 1 @ put_be32 RSN_AUTH_KEY_MGMT_OSEN @ put_le16 capab))"

text \<open>
  \<open>wpa_auth_gen_wpa_ie\<close> writes into a local buffer of 128 octets; its result is the
  element kept in the authenticator (\<open>None\<close>: a negative status; \<open>mem\<close> is the success of
  \<open>os_malloc\<close>).
\<close>

definition wpa_auth_gen_wpa_ie :: "wpa_auth_config \<Rightarrow> bool \<Rightarrow> fault + byte list option" where
  "wpa_auth_gen_wpa_ie conf mem =
     fbind (put_at 128 [] (if wac_wpa conf = WPA_PROTO_OSEN then wpa_write_osen conf else [])) (\<lambda>out.
     obind (if wac_wpa conf AND WPA_PROTO_RSN \<noteq> 0
            then obind (wpa_write_rsn_ie conf (128 - length out) None) (\<lambda>ie. Inr (Some (out @ ie)))
            else Inr (Some out)) (\<lambda>out.
     obind (if wac_wpa conf AND WPA_PROTO_WPA \<noteq> 0
            then obind (wpa_write_wpa_ie conf (128 - length out)) (\<lambda>ie. Inr (Some (out @ ie)))
            else Inr (Some out)) (\<lambda>out.
     Inr (if mem then Some out else None))))"

text \<open>The octets \<open>wpa_add_kde\<close> stores at \<open>pos\<close>.\<close>

definition wpa_add_kde :: "u32 \<Rightarrow> byte list \<Rightarrow> byte list option \<Rightarrow> byte list" where
  "wpa_add_kde kde data data2 =
     (let data2_len = (case data2 of None \<Rightarrow> 0 | Some d \<Rightarrow> length d) in
      [WLAN_EID_VENDOR_SPECIFIC, word_of_nat (4 + length data + data2_len)] @ put_be32 kde @ data
        @ (case data2 of None \<Rightarrow> [] | Some d \<Rightarrow> d))"

section \<open>Masks as text\<close>

definition wpa_cipher_txt :: "u32 \<Rightarrow> string" where
  "wpa_cipher_txt cipher =
     (if cipher = WPA_CIPHER_NONE then ''NONE''
      else if cipher = WPA_CIPHER_WEP40 then ''WEP-40''
      else if cipher = WPA_CIPHER_WEP104 then ''WEP-104''
      else if cipher = WPA_CIPHER_TKIP then ''TKIP''
      else if cipher = WPA_CIPHER_CCMP then ''CCMP''
      else if cipher = WPA_CIPHER_CCMP OR WPA_CIPHER_TKIP then ''CCMP+TKIP''
      else if cipher = WPA_CIPHER_GCMP then ''GCMP''
      else if cipher = WPA_CIPHER_GCMP_256 then ''GCMP-256''
      else if cipher = WPA_CIPHER_CCMP_256 then ''CCMP-256''
      else if cipher = WPA_CIPHER_GTK_NOT_USED then ''GTK_NOT_USED''
      else ''UNKNOWN'')"

definition wpa_key_mgmt_txt :: "u32 \<Rightarrow> u32 \<Rightarrow> string" where
  "wpa_key_mgmt_txt key_mgmt proto =
     (if key_mgmt = WPA_KEY_MGMT_IEEE8021X
      then (if proto = WPA_PROTO_RSN OR WPA_PROTO_WPA then ''WPA2+WPA/IEEE 802.1X/EAP''
            else if proto = WPA_PROTO_RSN then ''WPA2/IEEE 802.1X/EAP'' else ''WPA/IEEE 802.1X/EAP'')
      else if key_mgmt = WPA_KEY_MGMT_PSK
      then (if proto = WPA_PROTO_RSN OR WPA_PROTO_WPA then ''WPA2-PSK+WPA-PSK''
            else if proto = WPA_PROTO_RSN then ''WPA2-PSK'' else ''WPA-PSK'')
      else if key_mgmt = WPA_KEY_MGMT_NONE then ''NONE''
      else if key_mgmt = WPA_KEY_MGMT_IEEE8021X_NO_WPA then ''IEEE 802.1X (no WPA)''
      else if key_mgmt = WPA_KEY_MGMT_IEEE8021X_SHA256 then ''WPA2-EAP-SHA256''
      else if key_mgmt = WPA_KEY_MGMT_PSK_SHA256 then ''WPA2-PSK-SHA256''
      else ''UNKNOWN'')"

text \<open>
  The words of \<open>wpa_parse_cipher\<close>. A C string is the list of its characters before the
  terminator; \<open>mem\<close> is the success of \<open>os_strdup\<close>, the result -1 is \<open>None\<close>.
\<close>

definition cipher_word :: "string \<Rightarrow> u32 option" where
  "cipher_word w =
     (if w = ''CCMP-256'' then Some WPA_CIPHER_CCMP_256
      else if w = ''GCMP-256'' then Some WPA_CIPHER_GCMP_256
      else if w = ''CCMP'' then Some WPA_CIPHER_CCMP
      else if w = ''GCMP'' then Some WPA_CIPHER_GCMP
      else if w = ''TKIP'' then Some WPA_CIPHER_TKIP
      else if w = ''WEP104'' then Some WPA_CIPHER_WEP104
      else if w = ''WEP40'' then Some WPA_CIPHER_WEP40
      else if w = ''NONE'' then Some WPA_CIPHER_NONE
      else if w = ''GTK_NOT_USED'' then Some WPA_CIPHER_GTK_NOT_USED
      else None)"

definition word_gap :: "char \<Rightarrow> bool" where
  "word_gap c \<longleftrightarrow> c = CHR '' '' \<or> c = CHR 0x09"

function parse_cipher_loop :: "u32 \<Rightarrow> string \<Rightarrow> u32 option" where
  "parse_cipher_loop val start =
     (let start = dropWhile word_gap start in
      if start = [] then Some val
      else let w = takeWhile (\<lambda>c. \<not> word_gap c) start; rest = dropWhile (\<lambda>c. \<not> word_gap c) start in
           case cipher_word w of
             None \<Rightarrow> None
           | Some bits \<Rightarrow> if rest = [] then Some (val OR bits) else parse_cipher_loop (val OR bits) (tl rest))"
  by pat_completeness auto
termination
proof (relation "measure (\<lambda>(val, start). length start)")
  fix val :: u32 and start s r :: string and w bits
  assume "s = dropWhile word_gap start" and "s \<noteq> []" and "r = dropWhile (\<lambda>c. \<not> word_gap c) s" and "r \<noteq> []"
  then have "length r \<le> length start" "length (tl r) < length r"
    by (metis length_dropWhile_le le_trans, simp)
  then have "length (tl r) < length start" by (rule less_le_trans [rotated])
  then show "((val OR bits, tl r), val, start) \<in> measure (\<lambda>(val, start). length start)" by simp
qed simp

definition wpa_parse_cipher :: "string \<Rightarrow> bool \<Rightarrow> u32 option" where
  "wpa_parse_cipher value mem = (if mem then parse_cipher_loop 0 value else None)"

text \<open>
  \<open>wpa_write_ciphers\<close> into \<open>room\<close> octets: each name that is due is printed behind the
  text so far, with the delimiter before every name but the first, and has to leave room for
  the terminator.
\<close>

fun write_ciphers_loop :: "nat \<Rightarrow> string \<Rightarrow> string \<Rightarrow> u32 \<Rightarrow> (u32 \<times> string) list \<Rightarrow> string option" where
  "write_ciphers_loop room delim out ciphers [] = Some out"
| "write_ciphers_loop room delim out ciphers ((bits, name) # names) =
     (if ciphers AND bits \<noteq> 0
      then let t = (if out = [] then name else delim @ name) in
           if length t \<ge> room - length out then None
           else write_ciphers_loop room delim (out @ t) ciphers names
      else write_ciphers_loop room delim out ciphers names)"

definition cipher_names :: "(u32 \<times> string) list" where
  "cipher_names =
     [(WPA_CIPHER_CCMP_256, ''CCMP-256''), (WPA_CIPHER_GCMP_256, ''GCMP-256''),
      (WPA_CIPHER_CCMP, ''CCMP''), (WPA_CIPHER_GCMP, ''GCMP''), (WPA_CIPHER_TKIP, ''TKIP''),
      (WPA_CIPHER_WEP104, ''WEP104''), (WPA_CIPHER_WEP40, ''WEP40''), (WPA_CIPHER_NONE, ''NONE'')]"

definition wpa_write_ciphers :: "nat \<Rightarrow> u32 \<Rightarrow> string \<Rightarrow> string option" where
  "wpa_write_ciphers room ciphers delim = write_ciphers_loop room delim [] ciphers cipher_names"

section \<open>What is written is what is read\<close>

lemma get_put_front [endian, simp]:
  "get_le16 (put_le16 v @ ys) 0 = v" "get_be32 (put_be32 w @ ys) 0 = w"
  using get_le16_put [of "[]" v ys] get_be32_put [of "[]" w ys] by simp_all

lemma single_bit_mask: "c AND push_bit n 1 = (if bit c n then push_bit n 1 else 0)" for c :: u32
  by (rule bit_word_eqI) (auto simp: bit_simps)

definition mask_of :: "(u32 \<times> u32) list \<Rightarrow> u32" where
  "mask_of table = foldr (\<lambda>(bits, suite) m. bits OR m) table 0"

text \<open>
  A table of suites is read back by \<open>f\<close> when \<open>f\<close> maps each of its selectors to the bits
  it stands for and those bits are one bit.
\<close>

definition reads_back :: "(byte list \<Rightarrow> u32) \<Rightarrow> (u32 \<times> u32) list \<Rightarrow> bool" where
  "reads_back f table \<longleftrightarrow>
     (\<forall>(bits, suite) \<in> set table. (\<forall>rest. f (put_be32 suite @ rest) = bits) \<and> (\<exists>n. 2 ^ n = bits))"

lemma suite_loop_put:
  assumes "reads_back f table"
  shows "suite_loop f (length (put_suites table c)) acc (concat (put_suites table c) @ rest)
         = (acc OR (c AND mask_of table), rest)"
  using assms
proof (induction table arbitrary: acc)
  case (Cons e table)
  obtain bits suite where e: "e = (bits, suite)" by fastforce
  from Cons.prems e obtain n where f: "\<And>rest. f (put_be32 suite @ rest) = bits" and b: "bits = push_bit n 1"
    by (auto simp: reads_back_def)
  have IH: "suite_loop f (length (put_suites table c)) acc (concat (put_suites table c) @ rest)
            = (acc OR (c AND mask_of table), rest)" for acc
    using Cons by (auto simp: reads_back_def)
  have m: "c AND mask_of (e # table) = (c AND bits) OR (c AND mask_of table)"
    by (simp add: e mask_of_def bit.conj_disj_distrib)
  show ?case
  proof (cases "c AND bits = 0")
    case True
    then show ?thesis using IH by (simp add: m) (simp add: put_suites_def e)
  next
    case False
    then have "c AND bits = bits" using single_bit_mask [of c n] b by (auto split: if_splits)
    moreover have "put_suites (e # table) c = put_be32 suite # put_suites table c"
      using False by (simp add: put_suites_def e)
    ultimately show ?thesis using IH [of "acc OR bits"] by (simp add: m f or.assoc)
  qed
qed (simp add: put_suites_def mask_of_def)

lemma put_suites_length: "length (put_suites table c) \<le> length table"
  by (induction table) (auto simp: put_suites_def)

lemma put_suites_concat: "length (concat (put_suites table c)) = 4 * length (put_suites table c)"
  by (induction table) (auto simp: put_suites_def)

definition rsn_table :: "(u32 \<times> u32) list" where
  "rsn_table =
     [(WPA_CIPHER_CCMP_256, RSN_CIPHER_SUITE_CCMP_256),
      (WPA_CIPHER_GCMP_256, RSN_CIPHER_SUITE_GCMP_256),
      (WPA_CIPHER_CCMP, RSN_CIPHER_SUITE_CCMP),
      (WPA_CIPHER_GCMP, RSN_CIPHER_SUITE_GCMP),
      (WPA_CIPHER_TKIP, RSN_CIPHER_SUITE_TKIP),
      (WPA_CIPHER_NONE, RSN_CIPHER_SUITE_NONE)]"

lemma single_bits:
  "\<exists>n. (2 :: u32) ^ n = 1" "\<exists>n. (2 :: u32) ^ n = 2" "\<exists>n. (2 :: u32) ^ n = 8"
  "\<exists>n. (2 :: u32) ^ n = 16" "\<exists>n. (2 :: u32) ^ n = 64" "\<exists>n. (2 :: u32) ^ n = 128"
  "\<exists>n. (2 :: u32) ^ n = 256" "\<exists>n. (2 :: u32) ^ n = 512"
  by (rule exI [of _ 0], simp) (rule exI [of _ 1], simp, rule exI [of _ 3], simp, rule exI [of _ 4], simp,
    rule exI [of _ 6], simp, rule exI [of _ 7], simp, rule exI [of _ 8], simp, rule exI [of _ 9], simp)

lemma rsn_suites_back:
  "reads_back rsn_selector_to_bitfield rsn_table"
  "reads_back rsn_key_mgmt_to_bitfield
     [(WPA_KEY_MGMT_IEEE8021X, RSN_AUTH_KEY_MGMT_UNSPEC_802_1X),
      (WPA_KEY_MGMT_PSK, RSN_AUTH_KEY_MGMT_PSK_OVER_802_1X),
      (WPA_KEY_MGMT_IEEE8021X_SHA256, RSN_AUTH_KEY_MGMT_802_1X_SHA256),
      (WPA_KEY_MGMT_PSK_SHA256, RSN_AUTH_KEY_MGMT_PSK_SHA256)]"
  by (simp_all add: reads_back_def rsn_table_def rsn_selector_to_bitfield_def rsn_key_mgmt_to_bitfield_def single_bits)

lemma wpa_suites_back:
  "reads_back wpa_selector_to_bitfield
     [(WPA_CIPHER_CCMP, WPA_CIPHER_SUITE_CCMP), (WPA_CIPHER_TKIP, WPA_CIPHER_SUITE_TKIP),
      (WPA_CIPHER_NONE, WPA_CIPHER_SUITE_NONE)]"
  "reads_back wpa_key_mgmt_to_bitfield
     [(WPA_KEY_MGMT_IEEE8021X, WPA_AUTH_KEY_MGMT_UNSPEC_802_1X),
      (WPA_KEY_MGMT_PSK, WPA_AUTH_KEY_MGMT_PSK_OVER_802_1X)]"
  by (simp_all add: reads_back_def wpa_selector_to_bitfield_def wpa_key_mgmt_to_bitfield_def single_bits)

text \<open>A suite list with its count, in front of \<open>rest\<close>.\<close>

lemma pairwise_read:
  assumes "reads_back rsn_selector_to_bitfield table" "put_suites table c \<noteq> []" "length table < 100"
    and "mask_of table AND WPA_CIPHER_AES_128_CMAC = 0"
  shows "rsn_pairwise data (put_le16 (word_of_nat (length (put_suites table c))) @ concat (put_suites table c) @ rest)
         = (0, data\<lparr>ied_pairwise_cipher := c AND mask_of table\<rparr>, rest)"
proof -
  let ?n = "length (put_suites table c)"
  have n: "unat (word_of_nat ?n :: u16) = ?n"
    using put_suites_length [of table c] assms(3) by (simp add: unsigned_of_nat take_bit_nat_eq_self)
  have "c AND (mask_of table AND WPA_CIPHER_AES_128_CMAC) = 0" using assms(4) by simp
  then show ?thesis
    using suite_loop_put [OF assms(1), of c 0 rest] assms(2) n put_suites_concat [of table c]
    by (simp add: rsn_pairwise_def Let_def and.assoc)
qed

lemma key_mgmt_read:
  assumes "reads_back rsn_key_mgmt_to_bitfield table" "put_suites table c \<noteq> []" "length table < 100"
  shows "rsn_key_mgmt data (put_le16 (word_of_nat (length (put_suites table c))) @ concat (put_suites table c) @ rest)
         = (0, data\<lparr>ied_key_mgmt := c AND mask_of table\<rparr>, rest)"
proof -
  let ?n = "length (put_suites table c)"
  have n: "unat (word_of_nat ?n :: u16) = ?n"
    using put_suites_length [of table c] assms(3) by (simp add: unsigned_of_nat take_bit_nat_eq_self)
  then show ?thesis
    using suite_loop_put [OF assms(1), of c 0 rest] assms(2) put_suites_concat [of table c]
    by (simp add: rsn_key_mgmt_def Let_def)
qed

lemma put_at_Inr: "put_at len out bs = Inr v \<longleftrightarrow> v = out @ bs \<and> length out + length bs \<le> len"
  by (auto simp: put_at_def)

lemma obind_Inr_Some: "obind r f = Inr (Some y) \<longleftrightarrow> (\<exists>x. r = Inr (Some x) \<and> f x = Inr (Some y))"
  by (auto simp: obind_def fbind_Inr_iff split: option.splits)

lemma put_list_Some:
  "put_list len out suites = Inr (Some v) \<longleftrightarrow>
   suites \<noteq> [] \<and> v = out @ put_le16 (word_of_nat (length suites)) @ concat suites \<and> length v \<le> len"
  by (auto simp: put_list_def fbind_Inr_iff put_at_Inr)

lemmas written = put_at_Inr obind_Inr_Some put_list_Some fbind_Inr_iff

text \<open>The optional fields behind the capabilities.\<close>

definition rsn_pmkid_field :: "byte list option \<Rightarrow> byte list" where
  "rsn_pmkid_field pmkid = (case pmkid of None \<Rightarrow> [] | Some p \<Rightarrow> put_le16 1 @ take PMKID_LEN p)"

definition rsn_mgmt_field :: "wpa_auth_config \<Rightarrow> byte list option \<Rightarrow> byte list" where
  "rsn_mgmt_field conf pmkid =
     (if wac_ieee80211w conf = 0 then []
      else (if pmkid = None then put_le16 0 else []) @ put_be32 (the (mgmt_group_suite (wac_group_mgmt_cipher conf))))"

lemma rsn_put_pmkid_Some:
  "rsn_put_pmkid len pmkid out = Inr (Some v) \<longleftrightarrow>
   v = out @ rsn_pmkid_field pmkid \<and> (pmkid \<noteq> None \<longrightarrow> length out + 18 \<le> len)"
  by (auto simp: rsn_put_pmkid_def rsn_pmkid_field_def written split: option.splits)

lemma rsn_put_mgmt_group_Some:
  "rsn_put_mgmt_group conf len pmkid out = Inr (Some v) \<longleftrightarrow>
   v = out @ rsn_mgmt_field conf pmkid
   \<and> (wac_ieee80211w conf \<noteq> 0 \<longrightarrow> length out + 6 \<le> len \<and> mgmt_group_suite (wac_group_mgmt_cipher conf) \<noteq> None)"
  by (auto simp: rsn_put_mgmt_group_def rsn_mgmt_field_def written split: option.splits)

definition rsn_body :: "wpa_auth_config \<Rightarrow> byte list option \<Rightarrow> byte list" where
  \<comment> \<open>the element without its identifier and its length\<close>
  "rsn_body conf pmkid =
     (let ps = rsn_cipher_put_suites (wac_rsn_pairwise conf); ks = rsn_akm_suites (wac_key_mgmt conf) in
      put_le16 1 @ put_be32 (wpa_cipher_to_suite WPA_PROTO_RSN (wac_group conf))
      @ put_le16 (word_of_nat (length ps)) @ concat ps @ put_le16 (word_of_nat (length ks)) @ concat ks
      @ put_le16 (rsn_capab conf) @ rsn_pmkid_field pmkid @ rsn_mgmt_field conf pmkid)"

lemma patch_len_Cons: "patch_len (x # y # zs) = x # word_of_nat (length zs) # zs"
  by (simp add: patch_len_def)

lemma rsn_ie_octets:
  assumes "wpa_write_rsn_ie conf len pmkid = Inr (Some ie)"
  shows "ie = WLAN_EID_RSN # word_of_nat (length (rsn_body conf pmkid)) # rsn_body conf pmkid
    \<and> rsn_cipher_put_suites (wac_rsn_pairwise conf) \<noteq> [] \<and> rsn_akm_suites (wac_key_mgmt conf) \<noteq> []
    \<and> (wac_ieee80211w conf \<noteq> 0 \<longrightarrow> mgmt_group_suite (wac_group_mgmt_cipher conf) \<noteq> None)"
  using assms
  by (auto simp: wpa_write_rsn_ie_def Let_def written rsn_put_pmkid_Some rsn_put_mgmt_group_Some
      rsn_body_def patch_len_Cons split: if_splits)

lemma rsn_cipher_table: "rsn_cipher_put_suites = put_suites rsn_table"
  by (simp add: rsn_cipher_put_suites_def rsn_table_def)

lemma rsn_masks:
  "mask_of rsn_table = 0x359"
  "mask_of [(WPA_KEY_MGMT_IEEE8021X, RSN_AUTH_KEY_MGMT_UNSPEC_802_1X),
      (WPA_KEY_MGMT_PSK, RSN_AUTH_KEY_MGMT_PSK_OVER_802_1X),
      (WPA_KEY_MGMT_IEEE8021X_SHA256, RSN_AUTH_KEY_MGMT_802_1X_SHA256),
      (WPA_KEY_MGMT_PSK_SHA256, RSN_AUTH_KEY_MGMT_PSK_SHA256)] = 0x183"
  by (simp_all add: mask_of_def rsn_table_def)

lemma group_suite_back:
  assumes "wpa_cipher_valid_group g"
  shows "rsn_selector_to_bitfield (put_be32 (wpa_cipher_to_suite WPA_PROTO_RSN g) @ rest) = g"
proof -
  have "g \<in> {WPA_CIPHER_CCMP_256, WPA_CIPHER_GCMP_256, WPA_CIPHER_CCMP, WPA_CIPHER_GCMP, WPA_CIPHER_TKIP,
             WPA_CIPHER_WEP104, WPA_CIPHER_WEP40, WPA_CIPHER_GTK_NOT_USED}"
    using assms by (simp add: wpa_cipher_valid_group_def wpa_cipher_valid_pairwise_def)
  then show ?thesis
    unfolding rsn_selector_to_bitfield_def get_put_front
    by (elim insertE emptyE) (simp_all add: wpa_cipher_to_suite_def)
qed

lemma mgmt_suite_back:
  assumes "mgmt_group_suite g = Some s"
  shows "rsn_selector_to_bitfield (put_be32 s) = g \<and> wpa_cipher_valid_mgmt_group g"
proof -
  have get: "get_be32 (put_be32 v) 0 = v" for v using get_put_front(2) [of v "[]"] by simp
  have g: "g \<in> {WPA_CIPHER_AES_128_CMAC, WPA_CIPHER_BIP_GMAC_128, WPA_CIPHER_BIP_GMAC_256, WPA_CIPHER_BIP_CMAC_256}"
    using assms by (rule contrapos_pp) (simp add: mgmt_group_suite_def)
  then have "rsn_selector_to_bitfield (put_be32 (the (mgmt_group_suite g))) = g"
    unfolding rsn_selector_to_bitfield_def get by (elim insertE emptyE) (simp_all add: mgmt_group_suite_def)
  then show ?thesis using g by (auto simp: assms wpa_cipher_valid_mgmt_group_def)
qed

lemma rsn_group_read:
  "wpa_cipher_valid_group g \<Longrightarrow>
   rsn_group data (put_be32 (wpa_cipher_to_suite WPA_PROTO_RSN g) @ rest) = (0, data\<lparr>ied_group_cipher := g\<rparr>, rest)"
  by (simp add: rsn_group_def group_suite_back)

lemma capabilities_read: "ie_capabilities data (put_le16 v @ rest) = (0, data\<lparr>ied_capabilities := v\<rparr>, rest)"
  by (simp add: ie_capabilities_def)

lemma suites_bounds:
  "length (rsn_cipher_put_suites c) \<le> 6" "length (concat (rsn_cipher_put_suites c)) = 4 * length (rsn_cipher_put_suites c)"
  "length (rsn_akm_suites c) \<le> 4" "length (concat (rsn_akm_suites c)) = 4 * length (rsn_akm_suites c)"
  unfolding rsn_cipher_put_suites_def rsn_akm_suites_def put_suites_concat
  by (rule order_trans [OF put_suites_length], simp, rule refl, rule order_trans [OF put_suites_length], simp, rule refl)

lemma body_length: "length (rsn_body conf pmkid) \<le> 74"
proof -
  have "length (rsn_pmkid_field pmkid) + length (rsn_mgmt_field conf pmkid) \<le> 22"
    by (auto simp: rsn_pmkid_field_def rsn_mgmt_field_def split: option.split)
  then show ?thesis
    using suites_bounds(1) [of "wac_rsn_pairwise conf"] suites_bounds(3) [of "wac_key_mgmt conf"]
    unfolding rsn_body_def Let_def length_append suites_bounds length_put by linarith
qed

lemma rsn_front:
  assumes "length rest < 250"
  shows "wpa_parse_wpa_ie_rsn (WLAN_EID_RSN # word_of_nat (length (put_le16 1 @ rest)) # put_le16 1 @ rest) =
    (case stage rsn_mgmt_group (stage rsn_pmkids (stage ie_capabilities
            (stage rsn_key_mgmt (stage rsn_pairwise (rsn_group rsn_defaults rest)))))
     of (res, data, pos) \<Rightarrow> (res, data))"
proof -
  let ?n = "word_of_nat (length (put_le16 1 @ rest)) :: byte"
  have "get_le16 ([WLAN_EID_RSN, ?n] @ put_le16 1 @ rest) (length [WLAN_EID_RSN, ?n]) = 1"
    by (rule get_le16_put)
  then have v: "get_le16 (WLAN_EID_RSN # ?n # put_le16 1 @ rest) 2 = 1" by (simp add: numeral_2_eq_2)
  have u: "unat ?n = length rest + 2"
    using assms unfolding length_append length_put
    by (simp only: unsigned_of_nat) (simp add: take_bit_nat_eq_self)
  have d: "drop 4 (WLAN_EID_RSN # ?n # put_le16 1 @ rest) = rest"
    by (simp add: eval_nat_numeral put_le16_def)
  show ?thesis unfolding wpa_parse_wpa_ie_rsn_def Let_def v d using u by simp
qed

lemma rsn_tail_read:
  assumes "wac_ieee80211w conf \<noteq> 0 \<Longrightarrow> mgmt_group_suite (wac_group_mgmt_cipher conf) \<noteq> None"
    and "\<And>p. pmkid = Some p \<Longrightarrow> length p = PMKID_LEN"
  shows "stage rsn_mgmt_group (rsn_pmkids data (rsn_pmkid_field pmkid @ rsn_mgmt_field conf pmkid)) =
    (0, data\<lparr>ied_num_pmkid := (if pmkid = None \<and> wac_ieee80211w conf = 0 then ied_num_pmkid data
                                else if pmkid = None then 0 else 1),
             ied_pmkid := (if pmkid = None \<and> wac_ieee80211w conf = 0 then ied_pmkid data
                      else Some (drop 2 (rsn_pmkid_field pmkid @ rsn_mgmt_field conf pmkid))),
             ied_mgmt_group_cipher := (if wac_ieee80211w conf = 0 then ied_mgmt_group_cipher data
                                       else wac_group_mgmt_cipher conf)\<rparr>, [])"
proof -
  have s: "rsn_selector_to_bitfield (put_be32 (the (mgmt_group_suite (wac_group_mgmt_cipher conf)))) = wac_group_mgmt_cipher conf"
    "wpa_cipher_valid_mgmt_group (wac_group_mgmt_cipher conf)" if "wac_ieee80211w conf \<noteq> 0"
    using assms(1) [OF that] mgmt_suite_back by auto
  show ?thesis
    using assms(2) s
    by (cases pmkid; cases "wac_ieee80211w conf = 0")
      (simp_all add: rsn_pmkid_field_def rsn_mgmt_field_def rsn_pmkids_def rsn_mgmt_group_def stage_def Let_def)
qed

lemma rsn_element_parsed:
  assumes "wpa_write_rsn_ie conf len pmkid = Inr (Some ie)"
    and "wpa_cipher_valid_group (wac_group conf)"
    and "\<And>p. pmkid = Some p \<Longrightarrow> length p = PMKID_LEN"
  shows "wpa_parse_wpa_ie_rsn ie =
    (0, \<lparr>ied_proto = WPA_PROTO_RSN,
         ied_pairwise_cipher = wac_rsn_pairwise conf AND 0x359,
         ied_group_cipher = wac_group conf,
         ied_key_mgmt = wac_key_mgmt conf AND 0x183,
         ied_capabilities = rsn_capab conf,
         ied_num_pmkid = (if pmkid = None then 0 else 1),
         ied_pmkid = (if pmkid = None \<and> wac_ieee80211w conf = 0 then None
                      else Some (drop 2 (rsn_pmkid_field pmkid @ rsn_mgmt_field conf pmkid))),
         ied_mgmt_group_cipher =
           (if wac_ieee80211w conf = 0 then WPA_CIPHER_AES_128_CMAC else wac_group_mgmt_cipher conf)\<rparr>)"
proof -
  let ?ps = "put_suites rsn_table (wac_rsn_pairwise conf)"
  let ?ks = "rsn_akm_suites (wac_key_mgmt conf)"
  let ?tail = "rsn_pmkid_field pmkid @ rsn_mgmt_field conf pmkid"
  let ?rest = "put_be32 (wpa_cipher_to_suite WPA_PROTO_RSN (wac_group conf))
      @ (put_le16 (word_of_nat (length ?ps)) @ concat ?ps
      @ (put_le16 (word_of_nat (length ?ks)) @ concat ?ks @ (put_le16 (rsn_capab conf) @ ?tail)))"
  have body: "rsn_body conf pmkid = put_le16 1 @ ?rest"
    by (simp add: rsn_body_def Let_def rsn_cipher_table)
  from rsn_ie_octets [OF assms(1)] have
    ie: "ie = WLAN_EID_RSN # word_of_nat (length (put_le16 1 @ ?rest)) # put_le16 1 @ ?rest"
    and ps: "?ps \<noteq> []" and ks: "?ks \<noteq> []"
    and mg: "wac_ieee80211w conf \<noteq> 0 \<Longrightarrow> mgmt_group_suite (wac_group_mgmt_cipher conf) \<noteq> None"
    unfolding body rsn_cipher_table by simp_all
  let ?d = "rsn_defaults\<lparr>ied_group_cipher := wac_group conf, ied_pairwise_cipher := wac_rsn_pairwise conf AND 0x359,
        ied_key_mgmt := wac_key_mgmt conf AND 0x183, ied_capabilities := rsn_capab conf\<rparr>"
  have "stage rsn_pairwise (rsn_group rsn_defaults ?rest) =
      (0, rsn_defaults\<lparr>ied_group_cipher := wac_group conf, ied_pairwise_cipher := wac_rsn_pairwise conf AND 0x359\<rparr>,
       put_le16 (word_of_nat (length ?ks)) @ concat ?ks @ (put_le16 (rsn_capab conf) @ ?tail))"
    unfolding rsn_group_read [OF assms(2)] stage_def prod.case if_P [OF refl]
    by (rule pairwise_read [OF rsn_suites_back(1) ps, unfolded rsn_masks]) (simp_all add: rsn_table_def)
  then have "stage ie_capabilities (stage rsn_key_mgmt (stage rsn_pairwise (rsn_group rsn_defaults ?rest))) = (0, ?d, ?tail)"
    using key_mgmt_read [OF rsn_suites_back(2) ks [unfolded rsn_akm_suites_def]]
    by (simp add: stage_def rsn_akm_suites_def rsn_masks capabilities_read)
  moreover have "length ?rest < 250"
    using body_length [of conf pmkid] unfolding body length_append length_put by linarith
  moreover have "stage rsn_pmkids (0, ?d, ?tail) = rsn_pmkids ?d ?tail" by (simp add: stage_def)
  ultimately have "wpa_parse_wpa_ie_rsn ie = (case stage rsn_mgmt_group (rsn_pmkids ?d ?tail) of (res, data, pos) \<Rightarrow> (res, data))"
    unfolding ie using rsn_front [of ?rest] by (simp only:)
  moreover note rsn_tail_read [of conf pmkid ?d, OF mg assms(3)]
  ultimately show ?thesis
    unfolding rsn_defaults_def by (simp del: One_nat_def)
qed

text \<open>C30: an access point reads in its own RSN element, as it writes it into its beacons, the
  group cipher, the pairwise ciphers, the key management suites, the capabilities, the
  PMKID and the management group cipher of its configuration; of the masks it keeps the
  suites that have a selector.\<close>

theorem rsn_element_roundtrip:
  assumes "wpa_write_rsn_ie conf len pmkid = Inr (Some ie)"
    and "wpa_cipher_valid_group (wac_group conf)"
    and "\<And>p. pmkid = Some p \<Longrightarrow> length p = PMKID_LEN"
  shows "wpa_parse_wpa_ie_rsn ie =
    (0, \<lparr>ied_proto = WPA_PROTO_RSN,
         ied_pairwise_cipher = wac_rsn_pairwise conf AND 0x359,
         ied_group_cipher = wac_group conf,
         ied_key_mgmt = wac_key_mgmt conf AND 0x183,
         ied_capabilities = rsn_capab conf,
         ied_num_pmkid = (if pmkid = None then 0 else 1),
         ied_pmkid = (if pmkid = None \<and> wac_ieee80211w conf = 0 then None
                      else Some (drop 2 (rsn_pmkid_field pmkid @ rsn_mgmt_field conf pmkid))),
         ied_mgmt_group_cipher =
           (if wac_ieee80211w conf = 0 then WPA_CIPHER_AES_128_CMAC else wac_group_mgmt_cipher conf)\<rparr>)"
  using rsn_element_parsed [OF assms] .

lemma rsn_element_roundtrip_witness:
  "\<exists>ie conf. wpa_write_rsn_ie conf 128 None = Inr (Some ie) \<and> wac_group conf = WPA_CIPHER_CCMP
    \<and> ied_pairwise_cipher (snd (wpa_parse_wpa_ie_rsn ie)) = WPA_CIPHER_CCMP"
proof -
  let ?conf = "\<lparr>wac_wpa = 2, wac_key_mgmt = 2, wac_wpa_pairwise = 0, wac_group = WPA_CIPHER_CCMP,
    wac_rsn_pairwise = WPA_CIPHER_CCMP, wac_rsn_preauth = False, wac_peerkey = False, wac_wmm_enabled = True,
    wac_disable_pmksa_caching = False, wac_okc = False, wac_ieee80211w = 0, wac_group_mgmt_cipher = 0\<rparr>"
  have "\<exists>ie. wpa_write_rsn_ie ?conf 128 None = Inr (Some ie)"
    by (simp add: wpa_write_rsn_ie_def put_at_def put_list_def wpa_cipher_to_suite_def rsn_cipher_put_suites_def
        put_suites_def rsn_akm_suites_def rsn_put_pmkid_def rsn_put_mgmt_group_def)
  then obtain ie where ie: "wpa_write_rsn_ie ?conf 128 None = Inr (Some ie)" ..
  from rsn_element_roundtrip [OF this]
  have "ied_pairwise_cipher (snd (wpa_parse_wpa_ie_rsn ie)) = WPA_CIPHER_CCMP"
    by (simp add: wpa_cipher_valid_group_def wpa_cipher_valid_pairwise_def)
  with ie show ?thesis by (intro exI [of _ ie] exI [of _ ?conf]) simp
qed

section \<open>The local buffer of the authenticator\<close>

definition fits :: "nat \<Rightarrow> fault + byte list option \<Rightarrow> bool" where
  "fits n r = (case r of Inl e \<Rightarrow> False | Inr None \<Rightarrow> True | Inr (Some out) \<Rightarrow> length out \<le> n)"

lemma fits_simps [simp]: "fits n (Inr None)" "fits n (Inr (Some out)) = (length out \<le> n)" "\<not> fits n (Inl e)"
  by (simp_all add: fits_def)

lemma fits_put: "length out + length bs \<le> len \<Longrightarrow> fits n (f (out @ bs)) \<Longrightarrow> fits n (fbind (put_at len out bs) f)"
  by (simp add: put_at_def)

lemma fits_list:
  "length out + 2 + length (concat ss) \<le> len \<Longrightarrow> length out + 2 + length (concat ss) \<le> n \<Longrightarrow>
   fits n (put_list len out ss)"
  by (simp add: put_list_def put_at_def)

lemma fits_obind:
  "fits m r \<Longrightarrow> (\<And>out. length out \<le> m \<Longrightarrow> fits n (f out)) \<Longrightarrow> fits n (obind r f)"
  by (cases r) (auto simp: obind_def fits_def [of m] split: option.splits)

lemma rsn_ie_fits:
  assumes "60 \<le> len"
  shows "fits 60 (wpa_write_rsn_ie conf len None)"
  unfolding wpa_write_rsn_ie_def Let_def
  apply (rule fits_put)
   apply (use assms in simp)
  apply (simp only: split: if_split)
  apply (intro conjI impI)
   apply simp
  apply (rule fits_put)
   apply (use assms in simp)
  apply (rule fits_obind [where m = 34])
   apply (rule fits_list)
    apply (use assms suites_bounds [of "wac_rsn_pairwise conf"] in simp)
   apply (use suites_bounds [of "wac_rsn_pairwise conf"] in simp)
  apply (rule fits_obind [where m = 52])
   apply (rule fits_list)
    apply (use assms suites_bounds [of "wac_key_mgmt conf"] in simp)
   apply (use suites_bounds [of "wac_key_mgmt conf"] in simp)
  apply (rule fits_put)
   apply (use assms in simp)
  apply (use assms in \<open>auto simp: rsn_put_pmkid_def rsn_put_mgmt_group_def put_at_def patch_len_def split: option.split\<close>)
  done

lemma wpa_suites_bounds:
  "length (wpa_cipher_put_suites c) \<le> 3" "length (concat (wpa_cipher_put_suites c)) = 4 * length (wpa_cipher_put_suites c)"
  "length (wpa_akm_suites c) \<le> 2" "length (concat (wpa_akm_suites c)) = 4 * length (wpa_akm_suites c)"
  unfolding wpa_cipher_put_suites_def wpa_akm_suites_def put_suites_concat
  by (rule order_trans [OF put_suites_length], simp, rule refl, rule order_trans [OF put_suites_length], simp, rule refl)

lemma wpa_ie_fits:
  assumes "36 \<le> len"
  shows "fits 36 (wpa_write_wpa_ie conf len)"
  unfolding wpa_write_wpa_ie_def Let_def
  apply (rule fits_put)
   apply (use assms in simp)
  apply (simp only: split: if_split)
  apply (intro conjI impI)
   apply simp
  apply (rule fits_put)
   apply (use assms in simp)
  apply (rule fits_obind [where m = 26])
   apply (rule fits_list)
    apply (use assms wpa_suites_bounds [of "wac_wpa_pairwise conf"] in simp)
   apply (use wpa_suites_bounds [of "wac_wpa_pairwise conf"] in simp)
  apply (rule fits_obind [where m = 36])
   apply (rule fits_list)
    apply (use assms wpa_suites_bounds [of "wac_key_mgmt conf"] in simp)
   apply (use wpa_suites_bounds [of "wac_key_mgmt conf"] in simp)
  apply (simp add: patch_len_def)
  done

text \<open>The local buffer of 128 octets in which the authenticator builds its elements is
  large enough for every configuration.\<close>

theorem own_elements_fit:
  "\<exists>r. wpa_auth_gen_wpa_ie conf mem = Inr r"
proof -
  let ?osen = "if wac_wpa conf = WPA_PROTO_OSEN then wpa_write_osen conf else []"
  have o: "length ?osen \<le> 24" by (simp add: wpa_write_osen_def patch_len_def Let_def)
  have "fits 128 (wpa_auth_gen_wpa_ie conf mem)"
    unfolding wpa_auth_gen_wpa_ie_def
    apply (rule fits_put)
     apply (use o in simp)
    apply (rule fits_obind [where m = 84])
     apply (use o in \<open>auto intro!: fits_obind [OF rsn_ie_fits]\<close>)[1]
    apply (rule fits_obind [where m = 120])
     apply (auto intro!: fits_obind [OF wpa_ie_fits])
    done
  then show ?thesis by (cases "wpa_auth_gen_wpa_ie conf mem") auto
qed

section \<open>The text of a mask\<close>

fun spaced :: "string list \<Rightarrow> string" where
  "spaced [] = []"
| "spaced [w] = w"
| "spaced (w # ws) = w @ '' '' @ spaced ws"

lemma spaced_Cons: "ws \<noteq> [] \<Longrightarrow> spaced (w # ws) = w @ '' '' @ spaced ws"
  by (cases ws) auto

definition due_names :: "u32 \<Rightarrow> (u32 \<times> string) list \<Rightarrow> string list" where
  "due_names c names = [name. (bits, name) \<leftarrow> names, c AND bits \<noteq> 0]"

lemma due_names_simps [simp]:
  "due_names c [] = []"
  "due_names c ((bits, name) # names) = (if c AND bits \<noteq> 0 then name # due_names c names else due_names c names)"
  by (simp_all add: due_names_def)

lemma write_loop_text:
  "write_ciphers_loop room '' '' out c names = Some t \<Longrightarrow> (\<forall>(bits, name) \<in> set names. name \<noteq> []) \<Longrightarrow>
   t = (if out = [] then spaced (due_names c names)
        else if due_names c names = [] then out else out @ '' '' @ spaced (due_names c names))"
proof (induction names arbitrary: out)
  case (Cons e names)
  obtain bits name where e: "e = (bits, name)" by fastforce
  show ?case
  proof (cases "c AND bits = 0")
    case True
    then show ?thesis using Cons.IH [of out] Cons.prems e by simp
  next
    case False
    let ?out = "out @ (if out = [] then name else '' '' @ name)"
    have "write_ciphers_loop room '' '' ?out c names = Some t" "name \<noteq> []"
      using Cons.prems e False by (auto simp: Let_def split: if_splits)
    moreover from this have "?out \<noteq> []" by simp
    ultimately have "t = (if due_names c names = [] then ?out else ?out @ '' '' @ spaced (due_names c names))"
      using Cons.IH [of ?out] Cons.prems(2) by simp
    then show ?thesis using False e by (auto simp: spaced_Cons)
  qed
qed simp

definition plain_word :: "string \<Rightarrow> bool" where
  "plain_word w \<longleftrightarrow> w \<noteq> [] \<and> (\<forall>c \<in> set w. \<not> word_gap c)"

lemma parse_loop_word:
  assumes "plain_word w" "cipher_word w = Some b"
  shows "parse_cipher_loop v w = Some (v OR b)"
    and "parse_cipher_loop v (w @ '' '' @ rest) = parse_cipher_loop (v OR b) rest"
proof -
  have c: "hd w \<in> set w" "\<not> word_gap (hd w)" "w = hd w # tl w" using assms(1) by (auto simp: plain_word_def)
  have d: "dropWhile word_gap (w @ r) = w @ r" for r
    using c by (metis append_Cons dropWhile.simps(2))
  have g: "takeWhile (\<lambda>c. \<not> word_gap c) w = w" "dropWhile (\<lambda>c. \<not> word_gap c) w = []"
    using assms(1) by (auto simp: plain_word_def)
  have s: "word_gap (CHR '' '')" by (simp add: word_gap_def)
  have h: "takeWhile (\<lambda>c. \<not> word_gap c) (w @ '' '' @ rest) = w"
    "dropWhile (\<lambda>c. \<not> word_gap c) (w @ '' '' @ rest) = '' '' @ rest"
    using assms(1) s by (auto simp: plain_word_def takeWhile_append2 dropWhile_append2)
  show "parse_cipher_loop v w = Some (v OR b)"
    using d [of "[]"] assms(1) by (subst parse_cipher_loop.simps) (simp add: g assms(2) Let_def plain_word_def)
  show "parse_cipher_loop v (w @ '' '' @ rest) = parse_cipher_loop (v OR b) rest"
    using c unfolding parse_cipher_loop.simps [of v "w @ '' '' @ rest"] d Let_def h
    by (simp add: assms(2))
qed

lemma parse_spaced:
  "(\<And>w. w \<in> set ws \<Longrightarrow> plain_word w \<and> cipher_word w = Some (f w)) \<Longrightarrow>
   parse_cipher_loop v (spaced ws) = Some (foldl (\<lambda>m w. m OR f w) v ws)"
proof (induction ws arbitrary: v)
  case Nil
  then show ?case by (subst parse_cipher_loop.simps) simp
next
  case (Cons w ws)
  then have w: "plain_word w" "cipher_word w = Some (f w)" by auto
  show ?case
  proof (cases "ws = []")
    case True
    then show ?thesis using parse_loop_word(1) [OF w] by simp
  next
    case False
    then show ?thesis using parse_loop_word(2) [OF w] Cons by (simp add: spaced_Cons)
  qed
qed

lemma due_mask:
  assumes "\<forall>(bits, name) \<in> set names. cipher_word name = Some bits \<and> (\<exists>n. 2 ^ n = bits)"
  shows "foldl (\<lambda>m w. m OR the (cipher_word w)) v (due_names c names) = v OR (c AND foldr (\<lambda>(bits, name) m. bits OR m) names 0)"
  using assms
proof (induction names arbitrary: v)
  case (Cons e names)
  obtain bits name where e: "e = (bits, name)" by fastforce
  from Cons.prems e obtain n where n: "cipher_word name = Some bits" "bits = push_bit n 1" by auto
  have "c AND bits = (if c AND bits \<noteq> 0 then bits else 0)" using single_bit_mask [of c n] n(2) by auto
  then show ?case using Cons e n(1) by (auto simp: bit.conj_disj_distrib or.assoc split: if_splits)
qed simp

lemma cipher_names_ok:
  "\<forall>(bits, name) \<in> set cipher_names. cipher_word name = Some bits \<and> plain_word name \<and> (\<exists>n. 2 ^ n = bits)"
  by (simp add: cipher_names_def cipher_word_def plain_word_def word_gap_def single_bits)
   (rule exI [of _ 2], simp)

text \<open>The cipher list that is written for a mask is parsed back into the mask, without the
  suites that have no name.\<close>

theorem cipher_text_roundtrip:
  assumes "wpa_write_ciphers room ciphers '' '' = Some t"
  shows "wpa_parse_cipher t True = Some (ciphers AND 0x35F)"
proof -
  have names: "name \<noteq> []" if "(bits, name) \<in> set cipher_names" for bits name
    using cipher_names_ok that by (auto simp: plain_word_def)
  have "t = spaced (due_names ciphers cipher_names)"
    using write_loop_text [OF assms [unfolded wpa_write_ciphers_def]] names by auto
  moreover have "plain_word w \<and> cipher_word w = Some (the (cipher_word w))"
    if "w \<in> set (due_names ciphers cipher_names)" for w
    using that cipher_names_ok by (fastforce simp: due_names_def)
  ultimately have "wpa_parse_cipher t True
    = Some (foldl (\<lambda>m w. m OR the (cipher_word w)) 0 (due_names ciphers cipher_names))"
    using parse_spaced [of "due_names ciphers cipher_names" "\<lambda>w. the (cipher_word w)" 0]
    by (simp add: wpa_parse_cipher_def)
  also have "\<dots> = Some (ciphers AND 0x35F)"
    using due_mask [of cipher_names 0 ciphers] cipher_names_ok by (simp add: cipher_names_def case_prod_beta)
  finally show ?thesis .
qed

lemma cipher_text_roundtrip_witness:
  "wpa_write_ciphers 100 0x18 '' '' = Some ''CCMP TKIP'' \<and> wpa_parse_cipher ''CCMP TKIP'' True = Some 0x18"
proof
  show w: "wpa_write_ciphers 100 0x18 '' '' = Some ''CCMP TKIP''"
    by (simp add: wpa_write_ciphers_def cipher_names_def)
  show "wpa_parse_cipher ''CCMP TKIP'' True = Some 0x18"
    using cipher_text_roundtrip [OF w] by simp
qed

section \<open>GET_CONFIG of the control interface\<close>

text \<open>
  The reply grows by pieces. A piece gets the room that is left in the buffer and returns
  its text, or \<open>None\<close> where it does not fit; the first piece that does not fit ends the
  reply, which is then the text so far.
\<close>

fun reply_pieces :: "nat \<Rightarrow> string \<Rightarrow> (nat \<Rightarrow> string option) list \<Rightarrow> string" where
  "reply_pieces buflen pos [] = pos"
| "reply_pieces buflen pos (piece # pieces) =
     (case piece (buflen - length pos) of
        None \<Rightarrow> pos
      | Some t \<Rightarrow> reply_pieces buflen (pos @ t) pieces)"

definition os_snprintf :: "string \<Rightarrow> nat \<Rightarrow> string option" where
  "os_snprintf t room = (if length t \<ge> room then None else Some t)"

definition bssid_text :: "byte list \<Rightarrow> string" where
  "bssid_text addr = concat (map (\<lambda>i. (if i = 0 then [] else '':'') @ fmt_02x False (addr ! i)) [0..<6])"

definition hostapd_ctrl_iface_get_config ::
  "byte list \<Rightarrow> byte list option \<Rightarrow> wpa_auth_config \<Rightarrow> nat \<Rightarrow> fault + string" where
  "hostapd_ctrl_iface_get_config own_addr ssid conf buflen =
     fbind (wpa_ssid_txt ssid) (\<lambda>ssid_text.
     let key_mgmt = wac_key_mgmt conf; wpa = wac_wpa conf;
         head = [os_snprintf (''bssid='' @ bssid_text own_addr @ [newline] @ ''ssid='' @ ssid_text @ [newline])];
         suites = (if wpa \<noteq> 0 \<and> key_mgmt \<noteq> 0
           then [os_snprintf ''key_mgmt='']
              @ (if key_mgmt AND WPA_KEY_MGMT_PSK \<noteq> 0 then [os_snprintf ''WPA-PSK ''] else [])
              @ (if key_mgmt AND WPA_KEY_MGMT_IEEE8021X \<noteq> 0 then [os_snprintf ''WPA-EAP ''] else [])
              @ (if key_mgmt AND WPA_KEY_MGMT_PSK_SHA256 \<noteq> 0 then [os_snprintf ''WPA-PSK-SHA256 ''] else [])
              @ (if key_mgmt AND WPA_KEY_MGMT_IEEE8021X_SHA256 \<noteq> 0 then [os_snprintf ''WPA-EAP-SHA256 ''] else [])
              @ [os_snprintf [newline]]
           else []);
         group = (if wpa \<noteq> 0
           then [os_snprintf (''group_cipher='' @ wpa_cipher_txt (wac_group conf) @ [newline])] else []);
         rsn = (if wpa AND WPA_PROTO_RSN \<noteq> 0 \<and> wac_rsn_pairwise conf \<noteq> 0
           then [os_snprintf ''rsn_pairwise_cipher='',
                 \<lambda>room. wpa_write_ciphers room (wac_rsn_pairwise conf) '' '', os_snprintf [newline]] else []);
         old = (if wpa AND WPA_PROTO_WPA \<noteq> 0 \<and> wac_wpa_pairwise conf \<noteq> 0
           then [os_snprintf ''wpa_pairwise_cipher='',
                 \<lambda>room. wpa_write_ciphers room (wac_rsn_pairwise conf) '' '', os_snprintf [newline]] else []) in
     Inr (reply_pieces buflen [] (head @ suites @ group @ rsn @ old)))"

text \<open>The pairwise ciphers of WPA version 1 have no influence on the reply: the line
  \<open>wpa_pairwise_cipher\<close> shows the ciphers of RSN.\<close>

theorem get_config_shows_rsn_ciphers:
  assumes "c \<noteq> 0" and "wac_wpa_pairwise conf \<noteq> 0"
  shows "hostapd_ctrl_iface_get_config own_addr ssid (conf\<lparr>wac_wpa_pairwise := c\<rparr>) buflen
         = hostapd_ctrl_iface_get_config own_addr ssid conf buflen"
  using assms by (simp add: hostapd_ctrl_iface_get_config_def cong: if_cong)

section \<open>The tests of the parser\<close>

text \<open>
  The table of \<open>common/common_module_tests.c\<close>: what the authors of the parser expect of it.
  The model agrees with them on every entry.
\<close>

definition rsn_parse_tests :: "(byte list \<times> int) list" where
  "rsn_parse_tests =
     [([], -1),
      ([0x30, 0], -1),
      ([0x30, 2, 1, 0], 0),
      ([0x30, 2, 0, 0], -2),
      ([0x30, 2, 2, 0], -2),
      ([0x30, 2, 0, 1], -2),
      ([0x30, 2, 0, 0, 0], -2),
      ([0x30, 3, 1, 0, 0], -3),
      ([0x30, 6, 1, 0, 0, 0, 0, 0], -1),
      ([0x30, 6, 1, 0, 0, 0x0F, 0xAC, 4], 0),
      ([0x30, 7, 1, 0, 0, 0x0F, 0xAC, 4, 0], -5),
      ([0x30, 8, 1, 0, 0, 0x0F, 0xAC, 4, 0, 0], -4),
      ([0x30, 8, 1, 0, 0, 0x0F, 0xAC, 4, 0, 1], -4),
      ([0x30, 0x0C, 1, 0, 0, 0x0F, 0xAC, 4, 1, 0, 0, 0x0F, 0xAC, 4], 0),
      ([0x30, 0x0C, 1, 0, 0, 0x0F, 0xAC, 4, 0, 1, 0, 0x0F, 0xAC, 4], -4),
      ([0x30, 0x0C, 1, 0, 0, 0x0F, 0xAC, 4, 1, 0, 0, 0x0F, 0xAC, 6], -1),
      ([0x30, 0x10, 1, 0, 0, 0x0F, 0xAC, 4, 2, 0, 0, 0x0F, 0xAC, 4, 0, 0x0F, 0xAC, 8], 0),
      ([0x30, 0x0D, 1, 0, 0, 0x0F, 0xAC, 4, 1, 0, 0, 0x0F, 0xAC, 4, 0], -7),
      ([0x30, 0x0E, 1, 0, 0, 0x0F, 0xAC, 4, 1, 0, 0, 0x0F, 0xAC, 4, 0, 0], -6),
      ([0x30, 0x0E, 1, 0, 0, 0x0F, 0xAC, 4, 1, 0, 0, 0x0F, 0xAC, 4, 0, 1], -6),
      ([0x30, 0x12, 1, 0, 0, 0x0F, 0xAC, 4, 1, 0, 0, 0x0F, 0xAC, 4, 1, 0, 0, 0x0F, 0xAC, 1], 0),
      ([0x30, 0x16, 1, 0, 0, 0x0F, 0xAC, 4, 1, 0, 0, 0x0F, 0xAC, 4, 2, 0, 0, 0x0F, 0xAC, 1,
        0, 0x0F, 0xAC, 2], 0),
      ([0x30, 0x13, 1, 0, 0, 0x0F, 0xAC, 4, 1, 0, 0, 0x0F, 0xAC, 4, 1, 0, 0, 0x0F, 0xAC, 1, 0], 0),
      ([0x30, 0x14, 1, 0, 0, 0x0F, 0xAC, 4, 1, 0, 0, 0x0F, 0xAC, 4, 1, 0, 0, 0x0F, 0xAC, 1, 0, 0], 0),
      ([0x30, 0x16, 1, 0, 0, 0x0F, 0xAC, 4, 1, 0, 0, 0x0F, 0xAC, 4, 1, 0, 0, 0x0F, 0xAC, 1,
        0, 0, 0, 0], 0),
      ([0x30, 0x16, 1, 0, 0, 0x0F, 0xAC, 4, 1, 0, 0, 0x0F, 0xAC, 4, 1, 0, 0, 0x0F, 0xAC, 1,
        0, 0, 0, 1], -9),
      ([0x30, 0x1A, 1, 0, 0, 0x0F, 0xAC, 4, 1, 0, 0, 0x0F, 0xAC, 4, 1, 0, 0, 0x0F, 0xAC, 1,
        0, 0, 0, 0, 0, 0, 0, 0], -10),
      ([0x30, 0x1A, 1, 0, 0, 0x0F, 0xAC, 4, 1, 0, 0, 0x0F, 0xAC, 4, 1, 0, 0, 0x0F, 0xAC, 1,
        0, 0, 0, 0, 0, 0x0F, 0xAC, 6], 0),
      ([0x30, 0x1C, 1, 0, 0, 0x0F, 0xAC, 4, 1, 0, 0, 0x0F, 0xAC, 4, 1, 0, 0, 0x0F, 0xAC, 1,
        0, 0, 0, 0, 0, 0x0F, 0xAC, 6, 1, 2], 0)]"

lemmas rsn_parser = wpa_parse_wpa_ie_rsn_def rsn_defaults_def stage_def rsn_group_def rsn_pairwise_def
  rsn_key_mgmt_def ie_capabilities_def rsn_pmkids_def rsn_mgmt_group_def

lemma suite_loop_numeral [simp]:
  "suite_loop f (numeral n) acc pos = suite_loop f (pred_numeral n) (acc OR f pos) (drop 4 pos)"
  by (simp add: numeral_eq_Suc)

lemma get_numerals:
  "get_le16 (a # b # xs) 0 = push_bit 8 (ucast b) OR ucast a"
  "get_le16 (p # q # a # b # xs) 2 = push_bit 8 (ucast b) OR ucast a"
  "get_be32 (a # b # c # d # xs) 0 = push_bit 24 (ucast a) OR push_bit 16 (ucast b) OR push_bit 8 (ucast c) OR ucast d"
  by (simp_all add: get_le16_def get_be32_def numeral_eq_Suc)

text \<open>The parser returns the expected status on every entry of its test table.\<close>

theorem rsn_parse_tests_pass:
  "list_all (\<lambda>(data, result). fst (wpa_parse_wpa_ie_rsn data) = result) rsn_parse_tests"
  unfolding rsn_parse_tests_def
  by (simp add: rsn_parser get_numerals Let_def rsn_selector_to_bitfield_def rsn_key_mgmt_to_bitfield_def
      wpa_cipher_valid_group_def wpa_cipher_valid_pairwise_def wpa_cipher_valid_mgmt_group_def)

lemma get_config_shows_rsn_ciphers_witness:
  "hostapd_ctrl_iface_get_config [] None
     (\<lparr>wac_wpa = 1, wac_key_mgmt = 2, wac_wpa_pairwise = WPA_CIPHER_TKIP, wac_group = WPA_CIPHER_TKIP,
       wac_rsn_pairwise = WPA_CIPHER_CCMP, wac_rsn_preauth = False, wac_peerkey = False, wac_wmm_enabled = False,
       wac_disable_pmksa_caching = False, wac_okc = False, wac_ieee80211w = 0, wac_group_mgmt_cipher = 0\<rparr>
      \<lparr>wac_wpa_pairwise := WPA_CIPHER_CCMP\<rparr>) 4096
   = hostapd_ctrl_iface_get_config [] None
     \<lparr>wac_wpa = 1, wac_key_mgmt = 2, wac_wpa_pairwise = WPA_CIPHER_TKIP, wac_group = WPA_CIPHER_TKIP,
       wac_rsn_pairwise = WPA_CIPHER_CCMP, wac_rsn_preauth = False, wac_peerkey = False, wac_wmm_enabled = False,
       wac_disable_pmksa_caching = False, wac_okc = False, wac_ieee80211w = 0, wac_group_mgmt_cipher = 0\<rparr> 4096"
  by (rule get_config_shows_rsn_ciphers) simp_all

end
