(* ===== verification/Pmksa.thy ===== *)
theory Pmksa
  imports Rsn_Ie Eloop
begin

text \<open>
  The cache of pairwise master keys (\<open>ap/pmksa_cache_auth.c\<close>): a list of entries in the order
  of their expiration, a hash table over the first octet of the PMKID, a timeout for the first
  entry. Entries live on a heap of addresses; the list \<open>next\<close> and the chains \<open>hnext\<close> are
  lists of addresses. The HMACs behind the PMKID are parameters. Times are seconds; \<open>int\<close> and
  \<open>os_time_t\<close> have 32 bits, as in \<open>Eloop\<close>, and a signed result outside of them is a fault. The event
  loop may not take the timeout, for want of memory or of a clock or because it is too long; the code
  does not look at that.
  The search for opportunistic key caching does not always return, so it is a partial
  function. The lemmas show that all operations keep the list, the table and the timeout in
  agreement, what the searches find, and when one of them does not return.
\<close>

section \<open>Entries\<close>

record pmksa_entry =
  pe_pmkid :: "byte list"
  pe_pmk :: "byte list"          \<comment> \<open>\<open>pmk\<close> and \<open>pmk_len\<close>\<close>
  pe_expiration :: int
  pe_akmp :: u32
  pe_spa :: "byte list"
  pe_identity :: "byte list option"
  pe_cui :: "byte list option"
  pe_class :: "byte list list"
  pe_eap_type :: byte
  pe_vlan_id :: int
  pe_opportunistic :: bool

text \<open>The fields of the EAPOL state machine the cache copies.\<close>

record eapol_data =
  ed_identity :: "byte list option"
  ed_cui :: "byte list option"
  ed_class :: "byte list list"
  ed_eap_type :: byte
  ed_vlan_id :: int              \<comment> \<open>of the station behind the state machine\<close>

text \<open>
  The cache. \<open>pc_list\<close> starts at the member \<open>pmksa\<close>, \<open>pc_hash h\<close> at \<open>pmkid[h]\<close>. \<open>pc_timer\<close> is
  the second in which \<open>pmksa_cache_expire\<close> is due; \<open>pc_lost\<close> tells that the event loop did not take the
  timeout it was asked for last. \<open>pc_freed\<close> logs the calls of \<open>free_cb\<close>, the last one first;
  \<open>pc_fault\<close> is an overflow.
\<close>

record pmksa_cache =
  pc_heap :: "nat \<Rightarrow> pmksa_entry option"
  pc_hash :: "nat \<Rightarrow> nat list"
  pc_list :: "nat list"
  pc_count :: int
  pc_timer :: "int option"
  pc_lost :: bool
  pc_freed :: "nat list"
  pc_fault :: "fault option"

definition blank_entry :: pmksa_entry where
  \<comment> \<open>what \<open>os_zalloc\<close> leaves, and what a read through a dangling pointer is taken to give\<close>
  "blank_entry =
     \<lparr>pe_pmkid = replicate 16 0, pe_pmk = [], pe_expiration = 0, pe_akmp = 0, pe_spa = replicate 6 0,
      pe_identity = None, pe_cui = None, pe_class = [], pe_eap_type = 0, pe_vlan_id = 0,
      pe_opportunistic = False\<rparr>"

definition entry_at :: "pmksa_cache \<Rightarrow> nat \<Rightarrow> pmksa_entry" where
  "entry_at c e = (case pc_heap c e of None \<Rightarrow> blank_entry | Some x \<Rightarrow> x)"

definition pmkid_hash :: "byte list \<Rightarrow> nat" where
  "pmkid_hash pmkid = unat (pmkid ! 0 AND 0x7F)"

definition pmksa_cache_max_entries :: int where
  "pmksa_cache_max_entries = 1024"

definition dot11RSNAConfigPMKLifetime :: int where
  "dot11RSNAConfigPMKLifetime = 43200"

definition pmksa_cache_auth_init :: pmksa_cache where
  "pmksa_cache_auth_init =
     \<lparr>pc_heap = Map.empty, pc_hash = (\<lambda>h. []), pc_list = [], pc_count = 0, pc_timer = None, pc_lost = False,
      pc_freed = [], pc_fault = None\<rparr>"

section \<open>Removing entries\<close>

text \<open>Both walks unlink the first pointer that is equal to the entry.\<close>

definition pmksa_cache_free_entry :: "nat \<Rightarrow> pmksa_cache \<Rightarrow> pmksa_cache" where
  "pmksa_cache_free_entry e c =
     (let h = pmkid_hash (pe_pmkid (entry_at c e)) in
      c\<lparr>pc_count := pc_count c - 1, pc_freed := e # pc_freed c,
        pc_hash := (pc_hash c)(h := remove1 e (pc_hash c h)), pc_list := remove1 e (pc_list c),
        pc_heap := (pc_heap c)(e := None)\<rparr>)"

text \<open>
  What the environment gives to \<open>pmksa_cache_set_expiration\<close>: its reading of the clock, and the memory and
  the reading of the clock of \<open>eloop_register_timeout\<close>.
\<close>

record expiry_env =
  xe_now :: int
  xe_mem :: bool
  xe_clock :: "os_reltime option"

definition fits_int :: "int \<Rightarrow> bool" where
  "fits_int n \<longleftrightarrow> - (2 ^ 31) \<le> n \<and> n < 2 ^ 31"

definition due_second :: "expiry_env \<Rightarrow> u32 \<Rightarrow> int option" where
  \<comment> \<open>\<open>None\<close>: the event loop does not take the timeout\<close>
  "due_second xe secs =
     (case snd (eloop_register_timeout (xe_mem xe) (xe_clock xe) secs 0 () 0 0 []) of
        [] \<Rightarrow> None | t # q \<Rightarrow> Some (sint (rel_sec (to_time t))))"

definition pmksa_cache_set_expiration :: "expiry_env \<Rightarrow> pmksa_cache \<Rightarrow> pmksa_cache" where
  \<comment> \<open>the result of \<open>eloop_register_timeout\<close> is ignored\<close>
  "pmksa_cache_set_expiration xe c =
     (let c = c\<lparr>pc_timer := None\<rparr> in
      case pc_list c of
        [] \<Rightarrow> c
      | e # es \<Rightarrow>
          let sec = pe_expiration (entry_at c e) - xe_now xe in
          if \<not> fits_int sec then c\<lparr>pc_fault := Some Int_overflow\<rparr>
          else let sec = (if sec < 0 then 0 else sec) in
          if \<not> fits_int (sec + 1) then c\<lparr>pc_fault := Some Int_overflow\<rparr>
          else let due = due_second xe (word_of_int (sec + 1)) in c\<lparr>pc_timer := due, pc_lost := (due = None)\<rparr>)"

function expire_entries :: "int \<Rightarrow> pmksa_cache \<Rightarrow> pmksa_cache" where
  "expire_entries now c =
     (case pc_list c of
        [] \<Rightarrow> c
      | e # es \<Rightarrow>
          if pe_expiration (entry_at c e) \<le> now then expire_entries now (pmksa_cache_free_entry e c) else c)"
  by pat_completeness auto
termination
  by (relation "measure (\<lambda>(now, c). length (pc_list c))") (auto simp: pmksa_cache_free_entry_def Let_def)

declare expire_entries.simps [simp del]

definition pmksa_cache_expire :: "int \<Rightarrow> expiry_env \<Rightarrow> pmksa_cache \<Rightarrow> pmksa_cache" where
  \<comment> \<open>the event loop has removed the timeout it calls\<close>
  "pmksa_cache_expire now xe c = pmksa_cache_set_expiration xe (expire_entries now (c\<lparr>pc_timer := None\<rparr>))"

definition pmksa_cache_auth_deinit :: "pmksa_cache \<Rightarrow> pmksa_cache" where
  "pmksa_cache_auth_deinit c =
     c\<lparr>pc_heap := (\<lambda>e. if e \<in> set (pc_list c) then None else pc_heap c e), pc_timer := None, pc_hash := (\<lambda>h. [])\<rparr>"

section \<open>Searching\<close>

definition pmksa_matches :: "byte list option \<Rightarrow> byte list option \<Rightarrow> pmksa_entry \<Rightarrow> bool" where
  "pmksa_matches spa pmkid x \<longleftrightarrow>
     (case spa of None \<Rightarrow> True | Some a \<Rightarrow> pe_spa x = a) \<and> (case pmkid of None \<Rightarrow> True | Some p \<Rightarrow> pe_pmkid x = p)"

definition pmksa_cache_auth_get :: "byte list option \<Rightarrow> byte list option \<Rightarrow> pmksa_cache \<Rightarrow> nat option" where
  "pmksa_cache_auth_get spa pmkid c =
     find (\<lambda>e. pmksa_matches spa pmkid (entry_at c e))
       (case pmkid of None \<Rightarrow> pc_list c | Some p \<Rightarrow> pc_hash c (pmkid_hash p))"

text \<open>The HMACs over SHA-1 and SHA-256, with the key and the octets they authenticate.\<close>

record hmac_functions =
  hm_sha1 :: "byte list \<Rightarrow> byte list \<Rightarrow> byte list"
  hm_sha256 :: "byte list \<Rightarrow> byte list \<Rightarrow> byte list"

definition rsn_pmkid :: "hmac_functions \<Rightarrow> byte list \<Rightarrow> byte list \<Rightarrow> byte list \<Rightarrow> bool \<Rightarrow> byte list" where
  "rsn_pmkid hm pmk aa spa use_sha256 =
     take PMKID_LEN ((if use_sha256 then hm_sha256 hm else hm_sha1 hm) pmk
       (map ord8 ''PMK Name'' @ aa @ spa))"

definition wpa_key_mgmt_sha256 :: "u32 \<Rightarrow> bool" where
  "wpa_key_mgmt_sha256 akm \<longleftrightarrow>
     akm AND (WPA_KEY_MGMT_PSK_SHA256 OR WPA_KEY_MGMT_IEEE8021X_SHA256 OR WPA_KEY_MGMT_OSEN) \<noteq> 0"

text \<open>
  The search of opportunistic key caching, as it is written: \<open>continue\<close> does not move to
  the next entry. \<open>None\<close> is a search that does not return, \<open>Some None\<close> one that finds
  nothing.
\<close>

partial_function (option) okc_loop ::
  "hmac_functions \<Rightarrow> pmksa_cache \<Rightarrow> byte list \<Rightarrow> byte list \<Rightarrow> byte list \<Rightarrow> nat list \<Rightarrow> nat option option" where
  "okc_loop hm c aa spa pmkid entries =
     (case entries of
        [] \<Rightarrow> Some None
      | e # es \<Rightarrow>
          let x = entry_at c e in
          if pe_spa x \<noteq> spa then okc_loop hm c aa spa pmkid entries
          else if rsn_pmkid hm (pe_pmk x) aa spa (wpa_key_mgmt_sha256 (pe_akmp x)) = pmkid then Some (Some e)
          else okc_loop hm c aa spa pmkid es)"

definition pmksa_cache_get_okc ::
  "hmac_functions \<Rightarrow> byte list \<Rightarrow> byte list \<Rightarrow> byte list \<Rightarrow> pmksa_cache \<Rightarrow> nat option option" where
  "pmksa_cache_get_okc hm aa spa pmkid c = okc_loop hm c aa spa pmkid (pc_list c)"

section \<open>Adding entries\<close>

text \<open>\<open>mem\<close> is the success of the allocation of the identity and \<open>wpabuf_dup\<close>.\<close>

definition pmksa_cache_from_eapol_data :: "bool \<Rightarrow> eapol_data option \<Rightarrow> pmksa_entry \<Rightarrow> pmksa_entry" where
  "pmksa_cache_from_eapol_data mem eapol x =
     (case eapol of
        None \<Rightarrow> x
      | Some d \<Rightarrow>
          x\<lparr>pe_identity := (if ed_identity d \<noteq> None \<and> mem then ed_identity d else pe_identity x),
            pe_cui := (if ed_cui d \<noteq> None then (if mem then ed_cui d else None) else pe_cui x),
            pe_class := ed_class d, pe_eap_type := ed_eap_type d, pe_vlan_id := ed_vlan_id d\<rparr>)"

definition pmksa_cache_to_eapol_data :: "bool \<Rightarrow> pmksa_entry option \<Rightarrow> eapol_data option \<Rightarrow> eapol_data option" where
  "pmksa_cache_to_eapol_data mem x eapol =
     (case (x, eapol) of
        (Some x, Some d) \<Rightarrow>
          Some (d\<lparr>ed_identity := (if pe_identity x \<noteq> None then (if mem then pe_identity x else None) else ed_identity d),
                  ed_cui := (if pe_cui x \<noteq> None then (if mem then pe_cui x else None) else ed_cui d),
                  ed_class := pe_class x, ed_eap_type := pe_eap_type x, ed_vlan_id := pe_vlan_id x\<rparr>)
      | _ \<Rightarrow> eapol)"

text \<open>The entry goes behind every entry that does not expire later; \<open>prev\<close> is the part before it.\<close>

definition pmksa_cache_link_entry :: "expiry_env \<Rightarrow> nat \<Rightarrow> pmksa_cache \<Rightarrow> pmksa_cache" where
  "pmksa_cache_link_entry xe e c =
     (let x = entry_at c e; h = pmkid_hash (pe_pmkid x);
          earlier = (\<lambda>p. \<not> pe_expiration (entry_at c p) > pe_expiration x);
          prev = takeWhile earlier (pc_list c);
          c = c\<lparr>pc_list := prev @ e # dropWhile earlier (pc_list c),
                pc_hash := (pc_hash c)(h := e # pc_hash c h), pc_count := pc_count c + 1\<rparr> in
      if prev = [] then pmksa_cache_set_expiration xe c else c)"

text \<open>
  The address of a new entry is an argument: \<open>None\<close> when there is no memory, an address that
  is not in use otherwise.
\<close>

definition pmksa_cache_auth_add ::
  "hmac_functions \<Rightarrow> int \<Rightarrow> expiry_env \<Rightarrow> nat option \<Rightarrow> bool \<Rightarrow> byte list \<Rightarrow> byte list \<Rightarrow> byte list \<Rightarrow> int \<Rightarrow>
   eapol_data option \<Rightarrow> u32 \<Rightarrow> pmksa_cache \<Rightarrow> nat option \<times> pmksa_cache" where
  "pmksa_cache_auth_add hm now xe alloc mem pmk aa spa session_timeout eapol akmp c =
     (if length pmk > 32 then (None, c)
      else case alloc of
        None \<Rightarrow> (None, c)
      | Some e \<Rightarrow>
          let expiration = now + (if session_timeout > 0 then session_timeout else dot11RSNAConfigPMKLifetime) in
          if \<not> fits_int expiration then (None, c\<lparr>pc_fault := Some Int_overflow\<rparr>)
          else
          let x = pmksa_cache_from_eapol_data mem eapol (blank_entry
                    \<lparr>pe_pmk := pmk, pe_pmkid := rsn_pmkid hm pmk aa spa (wpa_key_mgmt_sha256 akmp),
                     pe_expiration := expiration,
                     pe_akmp := akmp, pe_spa := spa\<rparr>);
              c = c\<lparr>pc_heap := (pc_heap c)(e \<mapsto> x)\<rparr>;
              c = (case pmksa_cache_auth_get (Some spa) None c of
                     None \<Rightarrow> c | Some old \<Rightarrow> pmksa_cache_free_entry old c);
              c = (if pc_count c \<ge> pmksa_cache_max_entries \<and> pc_list c \<noteq> []
                   then pmksa_cache_free_entry (hd (pc_list c)) c else c) in
          (Some e, pmksa_cache_link_entry xe e c))"

definition pmksa_cache_add_okc ::
  "expiry_env \<Rightarrow> nat option \<Rightarrow> bool \<Rightarrow> pmksa_entry \<Rightarrow> byte list \<Rightarrow> byte list \<Rightarrow> pmksa_cache \<Rightarrow> nat option \<times> pmksa_cache" where
  "pmksa_cache_add_okc xe alloc mem old aa pmkid c =
     (case alloc of
        None \<Rightarrow> (None, c)
      | Some e \<Rightarrow>
          let x = blank_entry
                    \<lparr>pe_pmkid := take PMKID_LEN pmkid, pe_pmk := pe_pmk old, pe_expiration := pe_expiration old,
                     pe_akmp := pe_akmp old, pe_spa := pe_spa old, pe_opportunistic := True,
                     pe_identity := (if mem then pe_identity old else None),
                     pe_cui := (if mem then pe_cui old else None), pe_class := pe_class old,
                     pe_eap_type := pe_eap_type old, pe_vlan_id := pe_vlan_id old\<rparr>;
              c = c\<lparr>pc_heap := (pc_heap c)(e \<mapsto> x)\<rparr> in
          (Some e, pmksa_cache_link_entry xe e c))"

section \<open>The list, the table and the timeout agree\<close>

abbreviation expires :: "pmksa_cache \<Rightarrow> nat \<Rightarrow> int" where
  "expires c e \<equiv> pe_expiration (entry_at c e)"

abbreviation bucket :: "pmksa_cache \<Rightarrow> nat \<Rightarrow> nat" where
  "bucket c e \<equiv> pmkid_hash (pe_pmkid (entry_at c e))"

text \<open>\<open>fresh\<close> is the set of entries that are allocated and not yet linked.\<close>

definition linked :: "nat set \<Rightarrow> pmksa_cache \<Rightarrow> bool" where
  "linked fresh c \<longleftrightarrow>
     distinct (pc_list c) \<and> dom (pc_heap c) = set (pc_list c) \<union> fresh \<and> set (pc_list c) \<inter> fresh = {}
     \<and> sorted (map (expires c) (pc_list c))
     \<and> (\<forall>h. distinct (pc_hash c h) \<and> set (pc_hash c h) = {e \<in> set (pc_list c). bucket c e = h})
     \<and> pc_count c = int (length (pc_list c))"

text \<open>
  The first entry has a timeout, which is due by the second after its expiration or at once, give or take
  a second between two readings of the clock; or the event loop did not take it, or a time did not fit.
\<close>

definition timed :: "int \<Rightarrow> pmksa_cache \<Rightarrow> bool" where
  "timed now c \<longleftrightarrow>
     (pc_list c \<noteq> [] \<longrightarrow> pc_fault c \<noteq> None \<or> pc_lost c
        \<or> (\<exists>t. pc_timer c = Some t \<and> t \<le> max now (expires c (hd (pc_list c))) + 2))"

definition prompt :: "int \<Rightarrow> expiry_env \<Rightarrow> bool" where
  \<comment> \<open>the clock does not go back, and shows the event loop at most a second more than the cache\<close>
  "prompt now xe \<longleftrightarrow> now \<le> xe_now xe
     \<and> (\<forall>r. xe_clock xe = Some r \<longrightarrow> sint (rel_sec r) \<le> xe_now xe + 1 \<and> sint (rel_usec r) < 1000000)"

lemma linkedD:
  assumes "linked fresh c"
  shows "distinct (pc_list c)" "dom (pc_heap c) = set (pc_list c) \<union> fresh" "set (pc_list c) \<inter> fresh = {}"
    "sorted (map (expires c) (pc_list c))" "distinct (pc_hash c h)"
    "set (pc_hash c h) = {e \<in> set (pc_list c). bucket c e = h}" "pc_count c = int (length (pc_list c))"
  using assms by (simp_all add: linked_def)

lemma init_ok: "linked {} pmksa_cache_auth_init" "timed now pmksa_cache_auth_init"
  by (simp_all add: linked_def timed_def pmksa_cache_auth_init_def)

lemma entry_at_cong: "pc_heap c' e = pc_heap c e \<Longrightarrow> entry_at c' e = entry_at c e"
  by (simp add: entry_at_def)

lemma free_fields [simp]:
  "pc_list (pmksa_cache_free_entry e c) = remove1 e (pc_list c)"
  "pc_heap (pmksa_cache_free_entry e c) = (pc_heap c)(e := None)"
  "pc_count (pmksa_cache_free_entry e c) = pc_count c - 1"
  "pc_timer (pmksa_cache_free_entry e c) = pc_timer c"
  "pc_lost (pmksa_cache_free_entry e c) = pc_lost c"
  "pc_fault (pmksa_cache_free_entry e c) = pc_fault c"
  "pc_freed (pmksa_cache_free_entry e c) = e # pc_freed c"
  "pc_hash (pmksa_cache_free_entry e c) h = (if h = bucket c e then remove1 e (pc_hash c h) else pc_hash c h)"
  by (simp_all add: pmksa_cache_free_entry_def Let_def)

lemma entry_at_free: "e' \<noteq> e \<Longrightarrow> entry_at (pmksa_cache_free_entry e c) e' = entry_at c e'"
  by (simp add: entry_at_def)

lemma free_linked:
  assumes "linked fresh c" "e \<in> set (pc_list c)"
  shows "linked fresh (pmksa_cache_free_entry e c)"
proof -
  note D = linkedD [OF assms(1)]
  let ?c = "pmksa_cache_free_entry e c"
  have s: "set (pc_list ?c) = set (pc_list c) - {e}" using D(1) by simp
  have same: "entry_at ?c e' = entry_at c e'" if "e' \<in> set (pc_list ?c)" for e'
    using that s by (simp add: entry_at_free)
  have m: "map (expires ?c) (pc_list ?c) = map (expires c) (pc_list ?c)" using same by (intro map_cong) auto
  have "sorted (map (expires ?c) (pc_list ?c))" unfolding m using D(4) by (simp add: sorted_map_remove1)
  moreover have "distinct (pc_hash ?c h) \<and> set (pc_hash ?c h) = {e' \<in> set (pc_list ?c). bucket ?c e' = h}" for h
  proof -
    have "{e' \<in> set (pc_list ?c). bucket ?c e' = h} = {e' \<in> set (pc_list c). bucket c e' = h} - {e}"
      using same unfolding s by auto
    then show ?thesis using D(5,6) [of h] by (cases "h = bucket c e") (simp_all add: set_remove1_eq)
  qed
  moreover have "dom (pc_heap ?c) = set (pc_list ?c) \<union> fresh" using D(2,3) assms(2) s by auto
  moreover have "length (pc_list c) = Suc (length (pc_list ?c))" using assms(2)
    length_pos_if_in_set [OF assms(2)]
    by (simp add: length_remove1)
  moreover have "distinct (pc_list ?c)" "set (pc_list ?c) \<inter> fresh = {}" using D(1,3) by auto
  moreover have "pc_count ?c = int (length (pc_list c)) - 1" using D(7) by simp
  ultimately show ?thesis unfolding linked_def by (simp del: free_fields)
qed

lemma free_timed:
  assumes "linked fresh c" "timed now c"
  shows "timed now (pmksa_cache_free_entry e c)"
proof (cases "pc_list c")
  case (Cons f es)
  note D = linkedD [OF assms(1)]
  have "expires c f \<le> expires (pmksa_cache_free_entry e c) (hd (remove1 e (pc_list c)))"
    if "remove1 e (pc_list c) \<noteq> []"
  proof -
    have h: "hd (remove1 e (pc_list c)) \<in> set (remove1 e (pc_list c))" using that by simp
    then have "hd (remove1 e (pc_list c)) \<noteq> e" using D(1) by auto
    moreover have "hd (remove1 e (pc_list c)) \<in> set (f # es)" using h Cons by (metis notin_set_remove1)
    then have "expires c f \<le> expires c (hd (remove1 e (pc_list c)))" using D(4) Cons by auto
    ultimately show ?thesis by (simp add: entry_at_free)
  qed
  then show ?thesis using assms(2) Cons by (fastforce simp: timed_def)
qed (simp add: timed_def)

lemma sint_add_le: "0 \<le> sint b \<Longrightarrow> sint (a + b) \<le> sint a + sint b" for a b :: "32 word"
proof -
  assume b: "0 \<le> sint b"
  have "- (2 ^ 31) \<le> sint a" using sint_greater_eq [of a] by simp
  then have "signed_take_bit 31 (sint a + sint b) \<le> sint a + sint b"
    using b signed_take_bit_int_less_eq_self_iff [of 31 "sint a + sint b"] by simp
  then show ?thesis by (simp add: sint_word_ariths)
qed

lemma due_bound:
  assumes p: "prompt now xe" and n: "0 \<le> n" "n < 2 ^ 31" and d: "due_second xe (word_of_int n) = Some t"
  shows "t \<le> xe_now xe + 1 + n"
proof -
  obtain r where r: "xe_clock xe = Some r" "\<not> sint (rel_sec r + word_of_int n) < sint (rel_sec r)"
    "t = sint (rel_sec (carry_usec (rel_sec r + word_of_int n) (rel_usec r)))"
    using d by (auto simp: due_second_def eloop_register_timeout_def timeout_after_def Let_def split: option.splits if_splits)
  have "sint (rel_usec r) < 1000000" "sint (rel_sec r) \<le> xe_now xe + 1" using p r(1) by (simp_all add: prompt_def)
  then have t: "t = sint (rel_sec r + word_of_int n)" using r(3) by (simp add: carry_usec.simps)
  have "sint (word_of_int n :: 32 word) = n" using n by (simp add: signed_of_int signed_take_bit_int_eq_self)
  then show ?thesis using sint_add_le [of "word_of_int n" "rel_sec r"] n(1) t \<open>sint (rel_sec r) \<le> xe_now xe + 1\<close> by simp
qed

lemma set_expiration_fields [simp]:
  "pc_list (pmksa_cache_set_expiration xe c) = pc_list c"
  "pc_heap (pmksa_cache_set_expiration xe c) = pc_heap c"
  "pc_hash (pmksa_cache_set_expiration xe c) = pc_hash c"
  "pc_count (pmksa_cache_set_expiration xe c) = pc_count c"
  "pc_freed (pmksa_cache_set_expiration xe c) = pc_freed c"
  by (simp_all add: pmksa_cache_set_expiration_def Let_def split: list.split)

lemma entry_at_set_expiration [simp]: "entry_at (pmksa_cache_set_expiration xe c) = entry_at c"
  by (rule ext) (simp add: entry_at_def)

lemma set_expiration_linked: "linked fresh (pmksa_cache_set_expiration xe c) = linked fresh c"
  by (simp add: linked_def)

lemma set_expiration_timed:
  assumes p: "prompt now xe"
  shows "timed (xe_now xe) (pmksa_cache_set_expiration xe c)"
proof (cases "pc_list c")
  case (Cons e es)
  let ?sec = "if expires c e - xe_now xe < 0 then 0 else expires c e - xe_now xe"
  have at: "entry_at (c\<lparr>pc_timer := None\<rparr>) = entry_at c" by (rule ext) (simp add: entry_at_def)
  show ?thesis
  proof (cases "fits_int (expires c e - xe_now xe) \<and> fits_int (?sec + 1)")
    case True
    then have run: "pmksa_cache_set_expiration xe c
      = (let due = due_second xe (word_of_int (?sec + 1)) in c\<lparr>pc_timer := due, pc_lost := (due = None)\<rparr>)"
      using Cons by (simp add: pmksa_cache_set_expiration_def Let_def at split del: if_split)
    have "t \<le> max (xe_now xe) (expires c e) + 2" if "due_second xe (word_of_int (?sec + 1)) = Some t" for t
    proof -
      have n: "0 \<le> ?sec + 1" "?sec + 1 < 2 ^ 31" using True by (auto simp: fits_int_def)
      have "xe_now xe + 1 + (?sec + 1) = max (xe_now xe) (expires c e) + 2" by simp
      then show ?thesis using due_bound [OF p n that] by linarith
    qed
    then show ?thesis unfolding run Let_def timed_def using Cons
      by (cases "due_second xe (word_of_int (?sec + 1))") (simp_all add: entry_at_def split del: if_split)
  next
    case False
    then have "pc_fault (pmksa_cache_set_expiration xe c) = Some Int_overflow"
      using Cons unfolding pmksa_cache_set_expiration_def Let_def by (auto simp: at)
    then show ?thesis by (simp add: timed_def)
  qed
qed (simp add: timed_def)

lemma drop_later:
  "sorted (map f xs) \<Longrightarrow> y \<in> set (dropWhile (\<lambda>p. \<not> f p > v) xs) \<Longrightarrow> v < f y" for f :: "nat \<Rightarrow> int"
  by (induction xs) (auto split: if_splits)

lemma sorted_between:
  "sorted (map f (ps @ rs)) \<Longrightarrow> (\<And>p. p \<in> set ps \<Longrightarrow> f p \<le> f e) \<Longrightarrow> (\<And>r. r \<in> set rs \<Longrightarrow> f e \<le> f r) \<Longrightarrow>
   sorted (map f (ps @ e # rs))" for f :: "nat \<Rightarrow> int"
  by (auto simp: sorted_append)

lemma distinct_between: "distinct (ps @ rs) \<Longrightarrow> e \<notin> set (ps @ rs) \<Longrightarrow> distinct (ps @ e # rs)"
  by auto

lemma timed_later: "timed now c \<Longrightarrow> now \<le> now' \<Longrightarrow> timed now' c"
  by (force simp: timed_def)

lemma set_or_keep:
  "linked {} c \<Longrightarrow> p \<or> timed now c \<Longrightarrow> prompt now xe \<Longrightarrow>
   linked {} (if p then pmksa_cache_set_expiration xe c else c)
   \<and> timed (xe_now xe) (if p then pmksa_cache_set_expiration xe c else c)"
  using set_expiration_timed timed_later by (auto simp: set_expiration_linked prompt_def)

lemma link_ok:
  assumes "linked {e} c" "timed now c" and p: "prompt now xe"
  shows "linked {} (pmksa_cache_link_entry xe e c) \<and> timed (xe_now xe) (pmksa_cache_link_entry xe e c)"
proof -
  note D = linkedD [OF assms(1)]
  let ?x = "entry_at c e"
  let ?earlier = "\<lambda>p. \<not> expires c p > pe_expiration ?x"
  let ?prev = "takeWhile ?earlier (pc_list c)" and ?rest = "dropWhile ?earlier (pc_list c)"
  let ?h = "bucket c e"
  let ?c = "c\<lparr>pc_list := ?prev @ e # ?rest, pc_hash := (pc_hash c)(?h := e # pc_hash c ?h), pc_count := pc_count c + 1\<rparr>"
  have link: "pmksa_cache_link_entry xe e c = (if ?prev = [] then pmksa_cache_set_expiration xe ?c else ?c)"
    by (simp add: pmksa_cache_link_entry_def Let_def)
  have at: "entry_at ?c e' = entry_at c e'" for e' by (simp add: entry_at_def)
  have split: "?prev @ ?rest = pc_list c" by simp
  then have members: "set ?prev \<union> set ?rest = set (pc_list c)" by (metis set_append)
  have new: "e \<notin> set (pc_list c)" using D(3) by auto
  have "sorted (map (expires c) (?prev @ e # ?rest))"
  proof -
    have "sorted (map (expires c) (?prev @ ?rest))" using D(4) by (simp only: split)
    moreover have "expires c p \<le> pe_expiration ?x" if "p \<in> set ?prev" for p
      using set_takeWhileD [OF that] by simp
    moreover have "pe_expiration ?x \<le> expires c p" if "p \<in> set ?rest" for p
      using drop_later [OF D(4) that] by simp
    ultimately show ?thesis by (rule sorted_between)
  qed
  moreover have "distinct (?prev @ e # ?rest)"
  proof -
    have "distinct (?prev @ ?rest)" "e \<notin> set (?prev @ ?rest)" using D(1) new unfolding split by auto
    then show ?thesis by (rule distinct_between)
  qed
  moreover have "set (?prev @ e # ?rest) = insert e (set (pc_list c))" using members by auto
  moreover have "length (?prev @ e # ?rest) = Suc (length (pc_list c))"
    by (metis split length_append list.size(4) add_Suc_right One_nat_def add.right_neutral plus_1_eq_Suc)
  moreover have "distinct (pc_hash ?c h) \<and> set (pc_hash ?c h) = {e' \<in> insert e (set (pc_list c)). bucket c e' = h}" for h
    using D(5,6) [of h] new by auto
  ultimately have "linked {} ?c"
    unfolding linked_def at using D(2,7) by simp
  moreover have "timed now ?c" if ne: "?prev \<noteq> []"
  proof -
    obtain f es where f: "pc_list c = f # es" using ne by (cases "pc_list c") auto
    then have "hd (?prev @ e # ?rest) = f" using ne by (auto split: if_splits)
    then show ?thesis using assms(2) f ne unfolding timed_def at by simp
  qed
  ultimately have "linked {} ?c" "?prev = [] \<or> timed now ?c" by blast+
  then show ?thesis unfolding link using p by (rule set_or_keep)
qed

section \<open>The operations in any order\<close>

text \<open>
  The states of a cache. The flag \<open>okc\<close> allows entries of opportunistic key caching; the
  clock only grows. An entry is removed when the authenticator finds it by its station
  (\<open>wpa_auth_pmksa_remove\<close>), or by the expiration timeout.
\<close>

inductive cache_state :: "hmac_functions \<Rightarrow> bool \<Rightarrow> int \<Rightarrow> pmksa_cache \<Rightarrow> bool" for hm okc where
  init: "cache_state hm okc now pmksa_cache_auth_init"
| tick: "cache_state hm okc now c \<Longrightarrow> now \<le> now' \<Longrightarrow> cache_state hm okc now' c"
| add: "cache_state hm okc now c \<Longrightarrow> prompt now xe \<Longrightarrow> (\<And>e. alloc = Some e \<Longrightarrow> pc_heap c e = None) \<Longrightarrow>
    cache_state hm okc (xe_now xe) (snd (pmksa_cache_auth_add hm now xe alloc mem pmk aa spa session_timeout eapol akmp c))"
| add_okc: "okc \<Longrightarrow> cache_state hm okc now c \<Longrightarrow> prompt now xe \<Longrightarrow> (\<And>e. alloc = Some e \<Longrightarrow> pc_heap c e = None) \<Longrightarrow>
    cache_state hm okc (xe_now xe) (snd (pmksa_cache_add_okc xe alloc mem old aa pmkid c))"
| remove: "cache_state hm okc now c \<Longrightarrow> pmksa_cache_auth_get (Some spa) None c = Some e \<Longrightarrow>
    cache_state hm okc now (pmksa_cache_free_entry e c)"
| expire: "cache_state hm okc now c \<Longrightarrow> prompt now xe \<Longrightarrow> cache_state hm okc (xe_now xe) (pmksa_cache_expire now xe c)"

lemma allocated:
  assumes "linked {} c" "timed now c" "pc_heap c e = None"
  shows "linked {e} (c\<lparr>pc_heap := (pc_heap c)(e \<mapsto> x)\<rparr>) \<and> timed now (c\<lparr>pc_heap := (pc_heap c)(e \<mapsto> x)\<rparr>)"
proof -
  note D = linkedD [OF assms(1)]
  let ?c = "c\<lparr>pc_heap := (pc_heap c)(e \<mapsto> x)\<rparr>"
  have e: "e \<notin> set (pc_list c)" using D(2) assms(3) by auto
  then have at: "entry_at ?c p = entry_at c p" if "p \<in> set (pc_list c)" for p
    using that by (auto simp: entry_at_def)
  have m: "map (expires ?c) (pc_list c) = map (expires c) (pc_list c)" using at by (intro map_cong) auto
  have "{p \<in> set (pc_list c). bucket ?c p = h} = {p \<in> set (pc_list c). bucket c p = h}" for h using at by auto
  moreover have "sorted (map (expires ?c) (pc_list c))" unfolding m by (rule D(4))
  ultimately have "linked {e} ?c" using D e unfolding linked_def by auto
  moreover have "timed now ?c" using assms(2) at by (cases "pc_list c") (auto simp: timed_def)
  ultimately show ?thesis by simp
qed

lemma get_list:
  assumes "linked fresh c" "pmksa_cache_auth_get spa pmkid c = Some e"
  shows "e \<in> set (pc_list c)"
proof -
  have "e \<in> set (case pmkid of None \<Rightarrow> pc_list c | Some p \<Rightarrow> pc_hash c (pmkid_hash p))"
    using assms(2) unfolding pmksa_cache_auth_get_def find_Some_iff by auto
  then show ?thesis using linkedD(6) [OF assms(1)] by (auto split: option.splits)
qed

lemma free_ok:
  "linked fresh c \<and> timed now c \<Longrightarrow> e \<in> set (pc_list c) \<Longrightarrow>
   linked fresh (pmksa_cache_free_entry e c) \<and> timed now (pmksa_cache_free_entry e c)"
  by (auto intro: free_linked free_timed)

definition make_room :: "byte list \<Rightarrow> pmksa_cache \<Rightarrow> pmksa_cache" where
  \<comment> \<open>the part of \<open>pmksa_cache_auth_add\<close> before the new entry is linked\<close>
  "make_room spa c =
     (let c = (case pmksa_cache_auth_get (Some spa) None c of
                 None \<Rightarrow> c | Some old \<Rightarrow> pmksa_cache_free_entry old c) in
      if pc_count c \<ge> pmksa_cache_max_entries \<and> pc_list c \<noteq> []
      then pmksa_cache_free_entry (hd (pc_list c)) c else c)"

lemma make_room_ok:
  assumes "linked fresh c \<and> timed now c"
  shows "linked fresh (make_room spa c) \<and> timed now (make_room spa c)"
proof -
  let ?d = "case pmksa_cache_auth_get (Some spa) None c of None \<Rightarrow> c | Some old \<Rightarrow> pmksa_cache_free_entry old c"
  have "linked fresh ?d \<and> timed now ?d"
    using assms free_ok get_list by (auto split: option.split)
  then show ?thesis unfolding make_room_def Let_def by (auto intro!: free_ok [THEN conjunct1] free_ok [THEN conjunct2])
qed

lemma expire_ok:
  "linked {} c \<Longrightarrow> linked {} (expire_entries now c)"
proof (induction now c rule: expire_entries.induct)
  case (1 now c)
  then show ?case
    by (subst expire_entries.simps) (auto split: list.split intro!: "1.IH" free_linked)
qed

definition new_entry :: "hmac_functions \<Rightarrow> int \<Rightarrow> bool \<Rightarrow> byte list \<Rightarrow> byte list \<Rightarrow> byte list \<Rightarrow> int \<Rightarrow>
    eapol_data option \<Rightarrow> u32 \<Rightarrow> pmksa_entry" where
  "new_entry hm now mem pmk aa spa session_timeout eapol akmp =
     pmksa_cache_from_eapol_data mem eapol (blank_entry
       \<lparr>pe_pmk := pmk, pe_pmkid := rsn_pmkid hm pmk aa spa (wpa_key_mgmt_sha256 akmp),
        pe_expiration := now + (if session_timeout > 0 then session_timeout else dot11RSNAConfigPMKLifetime),
        pe_akmp := akmp, pe_spa := spa\<rparr>)"

lemma auth_add_steps:
  "pmksa_cache_auth_add hm now xe alloc mem pmk aa spa session_timeout eapol akmp c =
     (case alloc of
        None \<Rightarrow> (None, c)
      | Some e \<Rightarrow>
          if length pmk > 32 then (None, c)
          else if \<not> fits_int (now + (if session_timeout > 0 then session_timeout else dot11RSNAConfigPMKLifetime))
          then (None, c\<lparr>pc_fault := Some Int_overflow\<rparr>)
          else (Some e, pmksa_cache_link_entry xe e (make_room spa (c\<lparr>pc_heap := (pc_heap c)
                 (e \<mapsto> new_entry hm now mem pmk aa spa session_timeout eapol akmp)\<rparr>))))"
  by (simp add: pmksa_cache_auth_add_def make_room_def new_entry_def Let_def split: option.split)

lemma fault_ok: "linked fresh (c\<lparr>pc_fault := Some x\<rparr>) = linked fresh c" "timed now (c\<lparr>pc_fault := Some x\<rparr>)"
  by (simp_all add: linked_def timed_def entry_at_def)

lemma add_ok:
  assumes "linked {} c \<and> timed now c" "\<And>e. alloc = Some e \<Longrightarrow> pc_heap c e = None" and p: "prompt now xe"
  shows "linked {} (snd (pmksa_cache_auth_add hm now xe alloc mem pmk aa spa session_timeout eapol akmp c))
    \<and> timed (xe_now xe) (snd (pmksa_cache_auth_add hm now xe alloc mem pmk aa spa session_timeout eapol akmp c))"
proof -
  have "timed (xe_now xe) c" using assms(1) p timed_later by (auto simp: prompt_def)
  then show ?thesis using assms make_room_ok [OF allocated] link_ok [OF _ _ p]
    by (auto simp: auth_add_steps fault_ok split: option.split)
qed

lemma link_new:
  assumes "linked {} c \<and> timed now c" "pc_heap c e = None" "prompt now xe"
  shows "linked {} (pmksa_cache_link_entry xe e (c\<lparr>pc_heap := (pc_heap c)(e \<mapsto> x)\<rparr>))
    \<and> timed (xe_now xe) (pmksa_cache_link_entry xe e (c\<lparr>pc_heap := (pc_heap c)(e \<mapsto> x)\<rparr>))"
  using allocated [of c now e x] link_ok [of e _ now xe] assms by blast

lemma cache_state_ok: "cache_state hm okc now c \<Longrightarrow> linked {} c \<and> timed now c"
proof (induction rule: cache_state.induct)
  case (add now c xe alloc)
  then show ?case by (intro add_ok) auto
next
  case (add_okc now c xe alloc)
  then have "timed (xe_now xe) c" using timed_later by (auto simp: prompt_def)
  then show ?case
    using add_okc.IH add_okc.hyps(3,4) link_new [OF add_okc.IH _ add_okc.hyps(3)]
    by (cases alloc) (auto simp: pmksa_cache_add_okc_def Let_def)
next
  case (remove now c spa e)
  then show ?case using free_ok get_list by blast
next
  case (expire now c xe)
  have "linked {} (c\<lparr>pc_timer := None\<rparr>)" using expire by (simp add: linked_def entry_at_def)
  then show ?case using set_expiration_timed [OF expire.hyps(2)]
    by (simp add: pmksa_cache_expire_def set_expiration_linked expire_ok)
qed (auto simp: init_ok intro: timed_later)

section \<open>What the searches find\<close>

definition consistent :: "int \<Rightarrow> pmksa_cache \<Rightarrow> bool" where
  "consistent now c \<longleftrightarrow> linked {} c \<and> timed now c"

text \<open>C8: in every state of the cache the list is ordered by expiration, holds the entries
  that are allocated, each of them once, and is what the hash table holds, and the count is its
  length. The first entry has a timeout that is due by two seconds after its expiration or after now,
  unless the event loop did not take the timeout it was last asked for, which the code does not notice, or
  the arithmetic of the times has overflowed.\<close>

theorem pmksa_cache_consistent:
  assumes "cache_state hm okc now c"
  shows "consistent now c"
  using cache_state_ok [OF assms] by (simp add: consistent_def)

lemma link_heap [simp]: "pc_heap (pmksa_cache_link_entry xe e c) = pc_heap c"
  by (simp add: pmksa_cache_link_entry_def Let_def)

lemma room_heap: "pc_heap c p = None \<Longrightarrow> pc_heap (make_room spa c) p = None"
  by (auto simp: make_room_def Let_def split: option.split)

lemma add_heap:
  "p \<noteq> e \<Longrightarrow> pc_heap c p = None \<Longrightarrow>
   pc_heap (snd (pmksa_cache_auth_add hm now xe (Some e) mem pmk aa spa session_timeout eapol akmp c)) p = None"
  by (simp add: auth_add_steps room_heap)

definition ex_hmac :: hmac_functions where
  "ex_hmac = \<lparr>hm_sha1 = (\<lambda>key data. key), hm_sha256 = (\<lambda>key data. key)\<rparr>"

definition ex_expiry :: expiry_env where
  "ex_expiry = \<lparr>xe_now = 0, xe_mem = True, xe_clock = Some \<lparr>rel_sec = 0, rel_usec = 0\<rparr>\<rparr>"

lemma ex_prompt: "prompt 0 ex_expiry" "xe_now ex_expiry = 0"
  by (simp_all add: prompt_def ex_expiry_def)

definition ex_add :: "nat \<Rightarrow> byte \<Rightarrow> pmksa_cache \<Rightarrow> pmksa_cache" where
  \<comment> \<open>an entry at address \<open>e\<close> for the station with octets \<open>b\<close>\<close>
  "ex_add e b c = snd (pmksa_cache_auth_add ex_hmac 0 ex_expiry (Some e) True (replicate 32 b) [] (replicate 6 b) 0 None 0 c)"

lemma ex_add_state:
  assumes "cache_state ex_hmac okc 0 c" "pc_heap c e = None"
  shows "cache_state ex_hmac okc 0 (ex_add e b c)"
proof -
  have "cache_state ex_hmac okc (xe_now ex_expiry) (ex_add e b c)"
    unfolding ex_add_def using assms(2) by (intro cache_state.add [OF assms(1) ex_prompt(1)]) simp
  then show ?thesis by (simp add: ex_prompt)
qed

lemma ex_state:
  "cache_state ex_hmac okc 0 (ex_add 2 7 (ex_add 1 5 pmksa_cache_auth_init))"
proof -
  have "cache_state ex_hmac okc 0 (ex_add 1 5 pmksa_cache_auth_init)"
    by (rule ex_add_state [OF cache_state.init]) (simp add: pmksa_cache_auth_init_def)
  moreover have "pc_heap (ex_add 1 5 pmksa_cache_auth_init) 2 = None"
    unfolding ex_add_def by (rule add_heap) (simp_all add: pmksa_cache_auth_init_def)
  ultimately show ?thesis by (rule ex_add_state)
qed

lemma ex_timer:
  "pc_timer (ex_add 2 7 (ex_add 1 5 pmksa_cache_auth_init)) = Some 43201"
  "pc_list (ex_add 2 7 (ex_add 1 5 pmksa_cache_auth_init)) = [1, 2]"
  "pc_fault (ex_add 2 7 (ex_add 1 5 pmksa_cache_auth_init)) = None"
  "\<not> pc_lost (ex_add 2 7 (ex_add 1 5 pmksa_cache_auth_init))"
  by code_simp+

lemma pmksa_cache_consistent_witness:
  "consistent 0 (ex_add 2 7 (ex_add 1 5 pmksa_cache_auth_init))
   \<and> pc_timer (ex_add 2 7 (ex_add 1 5 pmksa_cache_auth_init)) = Some 43201
   \<and> \<not> pc_lost (ex_add 2 7 (ex_add 1 5 pmksa_cache_auth_init))"
  using pmksa_cache_consistent [OF ex_state] ex_timer by simp

text \<open>
  Without memory for the timeout the first entry is stored and nothing will remove it; a session timeout
  near the largest \<open>int\<close> overflows the expiration.
\<close>

lemma timeout_lost:
  assumes "pc_list c = []" and "pc_heap c e = None" and "length pmk \<le> 32" and "xe_mem xe = False"
    and "fits_int (now + (if session_timeout > 0 then session_timeout else dot11RSNAConfigPMKLifetime))"
  shows "pc_timer (snd (pmksa_cache_auth_add hm now xe (Some e) mem pmk aa spa session_timeout eapol akmp c)) = None"
    "pc_list (snd (pmksa_cache_auth_add hm now xe (Some e) mem pmk aa spa session_timeout eapol akmp c)) = [e]"
  using assms by (simp_all add: auth_add_steps make_room_def pmksa_cache_auth_get_def pmksa_cache_link_entry_def
      pmksa_cache_set_expiration_def due_second_def eloop_register_timeout_def pmksa_cache_max_entries_def Let_def)

lemma expiration_overflow:
  assumes "0 < session_timeout" and "2 ^ 31 \<le> now + session_timeout" and "length pmk \<le> 32"
  shows "pc_fault (snd (pmksa_cache_auth_add hm now xe (Some e) mem pmk aa spa session_timeout eapol akmp c)) = Some Int_overflow"
  using assms by (simp add: auth_add_steps fits_int_def)

text \<open>C31: a search in the cache, by station, by PMKID or by both, finds an entry exactly when
  the list holds one that matches, and then returns one that matches, although a search by
  PMKID looks only at one chain of the hash table.\<close>

theorem pmksa_get_correct:
  assumes "cache_state hm okc now c"
  shows "case pmksa_cache_auth_get spa pmkid c of
      None \<Rightarrow> list_all (\<lambda>e. \<not> pmksa_matches spa pmkid (entry_at c e)) (pc_list c)
    | Some e \<Rightarrow> e \<in> set (pc_list c) \<and> pmksa_matches spa pmkid (entry_at c e)"
proof -
  have ok: "linked {} c" using cache_state_ok [OF assms] by simp
  let ?es = "case pmkid of None \<Rightarrow> pc_list c | Some p \<Rightarrow> pc_hash c (pmkid_hash p)"
  have same: "(\<exists>e \<in> set ?es. pmksa_matches spa pmkid (entry_at c e))
      \<longleftrightarrow> (\<exists>e \<in> set (pc_list c). pmksa_matches spa pmkid (entry_at c e))"
    using linkedD(6) [OF ok] by (cases pmkid) (auto simp: pmksa_matches_def)
  show ?thesis
  proof (cases "pmksa_cache_auth_get spa pmkid c")
    case None
    then have "\<not> (\<exists>e \<in> set ?es. pmksa_matches spa pmkid (entry_at c e))"
      unfolding pmksa_cache_auth_get_def find_None_iff by blast
    then show ?thesis using same None by (simp add: list_all_iff)
  next
    case (Some e)
    then have "pmksa_matches spa pmkid (entry_at c e)"
      unfolding pmksa_cache_auth_get_def find_Some_iff by blast
    then show ?thesis using get_list [OF ok Some] Some by simp
  qed
qed

lemma pmksa_get_correct_witness:
  "case pmksa_cache_auth_get None (Some (replicate 16 7)) (ex_add 2 7 (ex_add 1 5 pmksa_cache_auth_init)) of
      None \<Rightarrow> list_all (\<lambda>e. \<not> pmksa_matches None (Some (replicate 16 7))
          (entry_at (ex_add 2 7 (ex_add 1 5 pmksa_cache_auth_init)) e))
          (pc_list (ex_add 2 7 (ex_add 1 5 pmksa_cache_auth_init)))
    | Some e \<Rightarrow> e \<in> set (pc_list (ex_add 2 7 (ex_add 1 5 pmksa_cache_auth_init)))
        \<and> pmksa_matches None (Some (replicate 16 7)) (entry_at (ex_add 2 7 (ex_add 1 5 pmksa_cache_auth_init)) e)"
  by (rule pmksa_get_correct [OF ex_state])

section \<open>The search of opportunistic key caching\<close>

definition okc_skips :: "hmac_functions \<Rightarrow> pmksa_cache \<Rightarrow> byte list \<Rightarrow> byte list \<Rightarrow> byte list \<Rightarrow> nat \<Rightarrow> bool" where
  \<comment> \<open>an entry the search passes: the key of the station gives another PMKID\<close>
  "okc_skips hm c aa spa pmkid e \<longleftrightarrow>
     (let x = entry_at c e in
      pe_spa x = spa \<and> rsn_pmkid hm (pe_pmk x) aa spa (wpa_key_mgmt_sha256 (pe_akmp x)) \<noteq> pmkid)"

lemma okc_diverges:
  assumes "okc_loop hm c aa spa pmkid es = Some r"
  shows "es = [] \<or> pe_spa (entry_at c (hd es)) = spa"
  by (rule okc_loop.raw_induct [of "\<lambda>hm c aa spa pmkid es r. es = [] \<or> pe_spa (entry_at c (hd es)) = spa", OF _ assms])
    (auto simp: Let_def split: list.splits if_splits; fastforce)

lemma okc_result:
  "okc_loop hm c aa spa pmkid es =
     (case dropWhile (okc_skips hm c aa spa pmkid) es of
        [] \<Rightarrow> Some None
      | e # rest \<Rightarrow> if pe_spa (entry_at c e) = spa then Some (Some e) else None)"
proof (induction es)
  case Nil
  then show ?case by (simp add: okc_loop.simps)
next
  case (Cons e es)
  show ?case
  proof (cases "pe_spa (entry_at c e) = spa")
    case True
    then have "okc_skips hm c aa spa pmkid e
        \<longleftrightarrow> rsn_pmkid hm (pe_pmk (entry_at c e)) aa spa (wpa_key_mgmt_sha256 (pe_akmp (entry_at c e))) \<noteq> pmkid"
      by (simp add: okc_skips_def Let_def)
    then show ?thesis using Cons True by (subst okc_loop.simps) (simp add: Let_def)
  next
    case False
    then have "okc_loop hm c aa spa pmkid (e # es) = None"
      using okc_diverges [of hm c aa spa pmkid "e # es"] by (cases "okc_loop hm c aa spa pmkid (e # es)") auto
    then show ?thesis using False by (simp add: okc_skips_def Let_def)
  qed
qed

text \<open>C16: the search of opportunistic key caching passes the entries of the station whose key
  gives another PMKID. It returns nothing at the end of the list and the first other entry
  of the station; it never returns when an entry of another station comes first.\<close>

theorem okc_search_hangs:
  "pmksa_cache_get_okc hm aa spa pmkid c =
     (case dropWhile (okc_skips hm c aa spa pmkid) (pc_list c) of
        [] \<Rightarrow> Some None
      | e # rest \<Rightarrow> if pe_spa (entry_at c e) = spa then Some (Some e) else None)"
  by (simp add: pmksa_cache_get_okc_def okc_result)

section \<open>Expiration and the bound on the entries\<close>

lemma expire_list:
  "linked {} c \<Longrightarrow> set (pc_list (expire_entries now c)) = {e \<in> set (pc_list c). now < expires c e}
    \<and> (\<forall>e \<in> set (pc_list (expire_entries now c)). entry_at (expire_entries now c) e = entry_at c e)"
proof (induction now c rule: expire_entries.induct)
  case (1 now c)
  note D = linkedD [OF "1.prems"]
  show ?case
  proof (cases "pc_list c")
    case Nil
    then show ?thesis by (subst (1 2 3) expire_entries.simps) simp
  next
    case (Cons e es)
    show ?thesis
    proof (cases "expires c e \<le> now")
      case True
      let ?c = "pmksa_cache_free_entry e c"
      have x: "expire_entries now c = expire_entries now ?c"
        using Cons True by (subst expire_entries.simps) simp
      have IH: "set (pc_list (expire_entries now ?c)) = {p \<in> set (pc_list ?c). now < expires ?c p}
          \<and> (\<forall>p \<in> set (pc_list (expire_entries now ?c)). entry_at (expire_entries now ?c) p = entry_at ?c p)"
        using "1.IH" [OF Cons True] free_linked [OF "1.prems", of e] Cons by simp
      have s: "set (pc_list ?c) = set es" "e \<notin> set es" using D(1) Cons by auto
      then have "entry_at ?c p = entry_at c p" if "p \<in> set es" for p using that by (auto intro: entry_at_free)
      then show ?thesis using IH s True unfolding x Cons by auto
    next
      case False
      then have "expire_entries now c = c" using Cons by (subst expire_entries.simps) simp
      moreover have "now < expires c p" if "p \<in> set (pc_list c)" for p using D(4) False Cons that by auto
      ultimately show ?thesis by auto
    qed
  qed
qed

text \<open>C36: the expiration timeout removes exactly the entries whose time has come.\<close>

theorem expire_removes_expired:
  assumes "cache_state hm okc now c"
  shows "set (pc_list (pmksa_cache_expire now xe c)) = {e \<in> set (pc_list c). now < pe_expiration (entry_at c e)}"
proof -
  have "linked {} (c\<lparr>pc_timer := None\<rparr>)" using cache_state_ok [OF assms] by (simp add: linked_def entry_at_def)
  from expire_list [OF this, of now] show ?thesis by (simp add: pmksa_cache_expire_def entry_at_def)
qed

lemma expire_removes_expired_witness:
  "set (pc_list (pmksa_cache_expire 0 ex_expiry (ex_add 2 7 (ex_add 1 5 pmksa_cache_auth_init))))
   = {e \<in> set (pc_list (ex_add 2 7 (ex_add 1 5 pmksa_cache_auth_init))).
       0 < pe_expiration (entry_at (ex_add 2 7 (ex_add 1 5 pmksa_cache_auth_init)) e)}"
  by (rule expire_removes_expired [OF ex_state])

section \<open>The number of entries\<close>

lemma room_count:
  assumes "linked fresh c" "pc_count c \<le> pmksa_cache_max_entries"
  shows "pc_count (make_room spa c) < pmksa_cache_max_entries"
proof -
  let ?d = "case pmksa_cache_auth_get (Some spa) None c of None \<Rightarrow> c | Some old \<Rightarrow> pmksa_cache_free_entry old c"
  have d: "linked fresh ?d" "pc_count ?d \<le> pmksa_cache_max_entries"
    using assms free_linked get_list by (auto split: option.split)
  have "pc_list ?d \<noteq> []" if "pc_count ?d \<ge> pmksa_cache_max_entries"
    using linkedD(7) [OF d(1)] that by (auto simp: pmksa_cache_max_entries_def)
  then have "make_room spa c = (if pc_count ?d \<ge> pmksa_cache_max_entries then pmksa_cache_free_entry (hd (pc_list ?d)) ?d else ?d)"
    unfolding make_room_def Let_def by auto
  then show ?thesis using d(2) by auto
qed

lemma link_count: "pc_count (pmksa_cache_link_entry xe e c) = pc_count c + 1"
  by (simp add: pmksa_cache_link_entry_def Let_def)

lemma add_count:
  assumes "linked {} c" "timed now c" "\<And>e. alloc = Some e \<Longrightarrow> pc_heap c e = None" "pc_count c \<le> pmksa_cache_max_entries"
  shows "pc_count (snd (pmksa_cache_auth_add hm now xe alloc mem pmk aa spa session_timeout eapol akmp c)) \<le> pmksa_cache_max_entries"
proof (cases alloc)
  case (Some e)
  let ?c = "c\<lparr>pc_heap := (pc_heap c)(e \<mapsto> new_entry hm now mem pmk aa spa session_timeout eapol akmp)\<rparr>"
  have "linked {e} ?c" using allocated assms(1,2) assms(3) [OF Some] by blast
  from room_count [OF this, of spa] show ?thesis
    using assms(4) by (simp add: auth_add_steps Some link_count)
qed (use assms in \<open>simp add: auth_add_steps\<close>)

lemma expire_count: "pc_count (expire_entries now c) \<le> pc_count c"
proof (induction now c rule: expire_entries.induct)
  case (1 now c)
  then show ?case
    by (subst expire_entries.simps) (auto split: list.split dest!: "1.IH")
qed

text \<open>C40: without opportunistic key caching the cache never holds more than 1024 entries.\<close>

theorem pmksa_cache_bounded:
  assumes "cache_state hm False now c"
  shows "pc_count c \<le> 1024"
proof -
  have "cache_state hm False now c \<Longrightarrow> pc_count c \<le> pmksa_cache_max_entries"
  proof (induction rule: cache_state.induct)
    case (add now c xe alloc)
    then show ?case using cache_state_ok [OF add.hyps(1)] by (intro add_count) auto
  next
    case (expire now c xe)
    then show ?case using expire_count [of now "c\<lparr>pc_timer := None\<rparr>"] by (simp add: pmksa_cache_expire_def)
  qed (simp_all add: pmksa_cache_auth_init_def pmksa_cache_max_entries_def)
  then show ?thesis using assms by (simp add: pmksa_cache_max_entries_def)
qed

lemma pmksa_cache_bounded_witness: "pc_count (ex_add 2 7 (ex_add 1 5 pmksa_cache_auth_init)) \<le> 1024"
  by (rule pmksa_cache_bounded [OF ex_state])

text \<open>Entries of opportunistic key caching are added without looking at the bound: with
  them the cache reaches every number of entries.\<close>

theorem pmksa_okc_unbounded:
  "\<exists>c. cache_state hm True now c \<and> pc_count c = int n"
proof (induction n)
  case 0
  then show ?case using cache_state.init by (force simp: pmksa_cache_auth_init_def)
next
  case (Suc n)
  then obtain c where c: "cache_state hm True now c" "pc_count c = int n" by blast
  have "finite (dom (pc_heap c))" using linkedD(2) cache_state_ok [OF c(1)] by fastforce
  then obtain e where "e \<notin> dom (pc_heap c)" using ex_new_if_finite infinite_UNIV_nat by blast
  then have e: "pc_heap c e = None" by blast
  let ?xe = "\<lparr>xe_now = now, xe_mem = False, xe_clock = None\<rparr>"
  let ?c = "snd (pmksa_cache_add_okc ?xe (Some e) True blank_entry [] [] c)"
  have "cache_state hm True (xe_now ?xe) ?c" using e by (intro cache_state.add_okc [OF TrueI c(1)]) (simp_all add: prompt_def)
  then have "cache_state hm True now ?c" by simp
  moreover have "pc_count ?c = int (Suc n)" using c(2) by (simp add: pmksa_cache_add_okc_def Let_def link_count)
  ultimately show ?case by blast
qed

section \<open>Adding an entry\<close>

lemma entry_at_link [simp]: "entry_at (pmksa_cache_link_entry xe e c) = entry_at c"
  by (rule ext) (simp add: entry_at_def)

lemma link_hash:
  "pc_hash (pmksa_cache_link_entry xe e c) h = (if h = bucket c e then e # pc_hash c h else pc_hash c h)"
  by (simp add: pmksa_cache_link_entry_def Let_def)

lemma room_entry:
  assumes "linked {e} c"
  shows "pc_heap (make_room spa c) e = pc_heap c e"
proof -
  let ?d = "case pmksa_cache_auth_get (Some spa) None c of None \<Rightarrow> c | Some old \<Rightarrow> pmksa_cache_free_entry old c"
  have l: "linked {e} ?d" using assms free_linked get_list by (auto split: option.split)
  have n: "p \<noteq> e" if "p \<in> set (pc_list c')" "linked {e} c'" for p c' using linkedD(3) [OF that(2)] that(1) by auto
  have "pc_heap ?d e = pc_heap c e" using n get_list assms by (fastforce split: option.split)
  moreover have "hd (pc_list ?d) \<noteq> e" if "pc_list ?d \<noteq> []" using n [OF _ l] that by (metis hd_in_set)
  ultimately show ?thesis unfolding make_room_def Let_def by auto
qed

lemma new_entry_fields:
  "pe_spa (new_entry hm now mem pmk aa spa st eapol akmp) = spa"
  "pe_pmkid (new_entry hm now mem pmk aa spa st eapol akmp) = rsn_pmkid hm pmk aa spa (wpa_key_mgmt_sha256 akmp)"
  by (simp_all add: new_entry_def pmksa_cache_from_eapol_data_def split: option.split)

text \<open>The entry that was added is the one a search with its station and its PMKID returns.\<close>

theorem pmksa_add_found:
  assumes "cache_state hm okc now c" and "pc_heap c e = None" and "length pmk \<le> 32"
    and "fits_int (now + (if session_timeout > 0 then session_timeout else dot11RSNAConfigPMKLifetime))"
  shows "pmksa_cache_auth_get (Some spa) (Some (rsn_pmkid hm pmk aa spa (wpa_key_mgmt_sha256 akmp)))
      (snd (pmksa_cache_auth_add hm now xe (Some e) mem pmk aa spa session_timeout eapol akmp c)) = Some e"
proof -
  let ?x = "new_entry hm now mem pmk aa spa session_timeout eapol akmp"
  let ?c = "c\<lparr>pc_heap := (pc_heap c)(e \<mapsto> ?x)\<rparr>"
  let ?r = "make_room spa ?c"
  have "linked {e} ?c" using allocated cache_state_ok [OF assms(1)] assms(2) by blast
  then have "pc_heap ?r e = Some ?x" by (simp add: room_entry)
  then have "entry_at ?r e = ?x" by (simp add: entry_at_def)
  then show ?thesis
    using assms(3,4) by (simp add: auth_add_steps pmksa_cache_auth_get_def link_hash pmksa_matches_def new_entry_fields)
qed

lemma pmksa_add_found_witness:
  "pmksa_cache_auth_get (Some (replicate 6 5)) (Some (rsn_pmkid ex_hmac (replicate 32 5) [] (replicate 6 5) (wpa_key_mgmt_sha256 0)))
     (snd (pmksa_cache_auth_add ex_hmac 0 ex_expiry (Some 1) True (replicate 32 5) [] (replicate 6 5) 0 None 0 pmksa_cache_auth_init)) = Some 1"
  by (rule pmksa_add_found [OF cache_state.init [where hm = ex_hmac and okc = False]])
    (simp_all add: pmksa_cache_auth_init_def fits_int_def dot11RSNAConfigPMKLifetime_def)

end
