(* ===== verification/Wpa_Validate.thy ===== *)
theory Wpa_Validate
  imports Pmksa Mlme
begin

text \<open>
  The authenticator's look at the element of an association request and at the key data of
  an EAPOL-Key frame (\<open>ap/wpa_auth_ie.c\<close>). \<open>wpa_validate_wpa_ie\<close> compares the element with the
  configuration, records the choice in the state machine of the station and searches the
  PMKSA cache. Its result is an option: the search of opportunistic key caching may not return.
  The lemmas say what an accepted element is, when the call hangs, and that key data
  elements are parsed as they are written.
\<close>

section \<open>State\<close>

record wpa_authenticator =
  wa_conf :: wpa_auth_config
  wa_addr :: "byte list"
  wa_pmksa :: pmksa_cache
  wa_akm_selected :: u32             \<comment> \<open>\<open>dot11RSNAAuthenticationSuiteSelected\<close>\<close>
  wa_pairwise_selected :: u32        \<comment> \<open>\<open>dot11RSNAPairwiseCipherSelected\<close>\<close>
  wa_group_selected :: u32           \<comment> \<open>\<open>dot11RSNAGroupCipherSelected\<close>\<close>
  wa_pmkid_used :: "byte list"       \<comment> \<open>\<open>dot11RSNAPMKIDUsed\<close>\<close>

text \<open>The fields of \<open>struct wpa_state_machine\<close> that are set here; a cipher of -1 is all ones.\<close>

record wpa_sm =
  sm_addr :: "byte list"
  sm_wpa :: nat                      \<comment> \<open>0, \<open>WPA_VERSION_WPA\<close> (1) or \<open>WPA_VERSION_WPA2\<close> (2)\<close>
  sm_pairwise :: u32
  sm_wpa_key_mgmt :: u32
  sm_mgmt_frame_prot :: bool
  sm_pmksa :: "nat option"
  sm_wpa_ie :: "byte list option"

text \<open>
  What the call meets: the HMACs, the clock, memory for an entry of the cache and its parts
  and for the copy of the element, and the caches of the other authenticators of the
  process, before and after this one.
\<close>

record validate_env =
  ve_hmac :: hmac_functions
  ve_expiry :: expiry_env
  ve_alloc :: "nat option"
  ve_mem :: bool
  ve_ie_mem :: bool
  ve_before :: "pmksa_cache list"
  ve_after :: "pmksa_cache list"

section \<open>The suites of the request\<close>

definition akm_selector :: "u32 \<Rightarrow> u32" where
  \<comment> \<open>for RSN\<close>
  "akm_selector key_mgmt =
     (if key_mgmt AND WPA_KEY_MGMT_IEEE8021X_SHA256 \<noteq> 0 then RSN_AUTH_KEY_MGMT_802_1X_SHA256
      else if key_mgmt AND WPA_KEY_MGMT_PSK_SHA256 \<noteq> 0 then RSN_AUTH_KEY_MGMT_PSK_SHA256
      else if key_mgmt AND WPA_KEY_MGMT_IEEE8021X \<noteq> 0 then RSN_AUTH_KEY_MGMT_UNSPEC_802_1X
      else if key_mgmt AND WPA_KEY_MGMT_PSK \<noteq> 0 then RSN_AUTH_KEY_MGMT_PSK_OVER_802_1X
      else RSN_AUTH_KEY_MGMT_UNSPEC_802_1X)"

definition or_default :: "u32 \<Rightarrow> u32 \<Rightarrow> u32" where
  "or_default selector other = (if selector = 0 then other else selector)"

definition note_selected :: "bool \<Rightarrow> wpa_ie_data \<Rightarrow> wpa_authenticator \<Rightarrow> wpa_authenticator" where
  \<comment> \<open>the MIB variables; the flag is the version, true for RSN\<close>
  "note_selected rsn data wa =
     (if rsn
      then wa\<lparr>wa_akm_selected := akm_selector (ied_key_mgmt data),
              wa_pairwise_selected := or_default (wpa_cipher_to_suite WPA_PROTO_RSN (ied_pairwise_cipher data)) RSN_CIPHER_SUITE_CCMP,
              wa_group_selected := or_default (wpa_cipher_to_suite WPA_PROTO_RSN (ied_group_cipher data)) RSN_CIPHER_SUITE_CCMP\<rparr>
      else wa\<lparr>wa_akm_selected :=
                (if ied_key_mgmt data AND WPA_KEY_MGMT_IEEE8021X \<noteq> 0 then WPA_AUTH_KEY_MGMT_UNSPEC_802_1X
                 else if ied_key_mgmt data AND WPA_KEY_MGMT_PSK \<noteq> 0 then WPA_AUTH_KEY_MGMT_PSK_OVER_802_1X
                 else WPA_AUTH_KEY_MGMT_UNSPEC_802_1X),
              wa_pairwise_selected := or_default (wpa_cipher_to_suite WPA_PROTO_WPA (ied_pairwise_cipher data)) RSN_CIPHER_SUITE_TKIP,
              wa_group_selected := or_default (wpa_cipher_to_suite WPA_PROTO_WPA (ied_group_cipher data)) WPA_CIPHER_SUITE_TKIP\<rparr>)"

definition choose_key_mgmt :: "u32 \<Rightarrow> u32" where
  "choose_key_mgmt key_mgmt =
     (if key_mgmt AND WPA_KEY_MGMT_IEEE8021X_SHA256 \<noteq> 0 then WPA_KEY_MGMT_IEEE8021X_SHA256
      else if key_mgmt AND WPA_KEY_MGMT_PSK_SHA256 \<noteq> 0 then WPA_KEY_MGMT_PSK_SHA256
      else if key_mgmt AND WPA_KEY_MGMT_IEEE8021X \<noteq> 0 then WPA_KEY_MGMT_IEEE8021X
      else WPA_KEY_MGMT_PSK)"

text \<open>
  The checks from the group cipher to the management group cipher; the choice is stored
  in the state machine on the way. The result is \<open>WPA_IE_OK\<close> where the code goes on.
\<close>

definition mfp_violation :: "wpa_auth_config \<Rightarrow> wpa_ie_data \<Rightarrow> u32 \<Rightarrow> wpa_validate_result" where
  "mfp_violation conf data ciphers =
     (if wac_ieee80211w conf \<noteq> 2 then WPA_IE_OK
      else if ied_capabilities data AND WPA_CAPABILITY_MFPC = 0 then WPA_MGMT_FRAME_PROTECTION_VIOLATION
      else if ciphers AND WPA_CIPHER_TKIP \<noteq> 0 then WPA_MGMT_FRAME_PROTECTION_VIOLATION
      else if ied_mgmt_group_cipher data \<noteq> wac_group_mgmt_cipher conf then WPA_INVALID_MGMT_GROUP_CIPHER
      else WPA_IE_OK)"

definition choose_suites :: "wpa_auth_config \<Rightarrow> bool \<Rightarrow> wpa_ie_data \<Rightarrow> wpa_sm \<Rightarrow> wpa_validate_result \<times> wpa_sm" where
  "choose_suites conf rsn data sm =
     (if ied_group_cipher data \<noteq> wac_group conf then (WPA_INVALID_GROUP, sm)
      else let key_mgmt = ied_key_mgmt data AND wac_key_mgmt conf in
      if key_mgmt = 0 then (WPA_INVALID_AKMP, sm)
      else let sm = sm\<lparr>sm_wpa_key_mgmt := choose_key_mgmt key_mgmt\<rparr>;
               ciphers = ied_pairwise_cipher data AND (if rsn then wac_rsn_pairwise conf else wac_wpa_pairwise conf) in
      if ciphers = 0 then (WPA_INVALID_PAIRWISE, sm)
      else let violation = mfp_violation conf data ciphers in
      if violation \<noteq> WPA_IE_OK then (violation, sm)
      else let sm = sm\<lparr>sm_mgmt_frame_prot :=
                         (wac_ieee80211w conf \<noteq> 0 \<and> ied_capabilities data AND WPA_CAPABILITY_MFPC \<noteq> 0)\<rparr> in
      case wpa_pick_pairwise_cipher ciphers False of
        None \<Rightarrow> (WPA_INVALID_PAIRWISE, sm\<lparr>sm_pairwise := -1\<rparr>)
      | Some p \<Rightarrow> (WPA_IE_OK, sm\<lparr>sm_pairwise := p, sm_wpa := (if rsn then 2 else 1)\<rparr>))"

section \<open>The PMKIDs of the request\<close>

definition pmkids_of :: "wpa_ie_data \<Rightarrow> byte list list" where
  "pmkids_of data =
     (case ied_pmkid data of
        None \<Rightarrow> []
      | Some p \<Rightarrow> map (\<lambda>i. take PMKID_LEN (drop (i * PMKID_LEN) p)) [0..<ied_num_pmkid data])"

fun find_pmksa :: "pmksa_cache \<Rightarrow> byte list \<Rightarrow> byte list list \<Rightarrow> (nat \<times> byte list) option" where
  \<comment> \<open>the first loop: the entry and its PMKID\<close>
  "find_pmksa c spa [] = None"
| "find_pmksa c spa (p # ps) =
     (case pmksa_cache_auth_get (Some spa) (Some p) c of
        None \<Rightarrow> find_pmksa c spa ps
      | Some e \<Rightarrow> Some (e, pe_pmkid (entry_at c e)))"

fun okc_auths :: "hmac_functions \<Rightarrow> byte list \<Rightarrow> byte list \<Rightarrow> byte list \<Rightarrow> pmksa_cache list \<Rightarrow> pmksa_entry option option" where
  \<comment> \<open>\<open>wpa_auth_for_each_auth\<close> with \<open>wpa_auth_okc_iter\<close>\<close>
  "okc_auths hm aa spa pmkid [] = Some None"
| "okc_auths hm aa spa pmkid (c # cs) =
     (case pmksa_cache_get_okc hm aa spa pmkid c of
        None \<Rightarrow> None
      | Some None \<Rightarrow> okc_auths hm aa spa pmkid cs
      | Some (Some e) \<Rightarrow> Some (Some (entry_at c e)))"

fun okc_pmkids :: "hmac_functions \<Rightarrow> byte list \<Rightarrow> byte list \<Rightarrow> pmksa_cache list \<Rightarrow> byte list list
    \<Rightarrow> (pmksa_entry \<times> byte list) option option" where
  \<comment> \<open>the second loop\<close>
  "okc_pmkids hm aa spa caches [] = Some None"
| "okc_pmkids hm aa spa caches (p # ps) =
     (case okc_auths hm aa spa p caches of
        None \<Rightarrow> None
      | Some None \<Rightarrow> okc_pmkids hm aa spa caches ps
      | Some (Some x) \<Rightarrow> Some (Some (x, p)))"

definition search_pmksa :: "validate_env \<Rightarrow> wpa_ie_data \<Rightarrow> wpa_authenticator \<Rightarrow> wpa_sm
    \<Rightarrow> (wpa_authenticator \<times> wpa_sm) option" where
  "search_pmksa ev data wa sm =
     (let spa = sm_addr sm; pmkids = pmkids_of data;
          use = (\<lambda>e pmkid wa sm. (wa\<lparr>wa_pmkid_used := pmkid\<rparr>, sm\<lparr>sm_pmksa := Some e\<rparr>)) in
      case find_pmksa (wa_pmksa wa) spa pmkids of
        Some (e, pmkid) \<Rightarrow> Some (use e pmkid wa sm)
      | None \<Rightarrow>
          if \<not> wac_okc (wa_conf wa) then Some (wa, sm\<lparr>sm_pmksa := None\<rparr>)
          else case okc_pmkids (ve_hmac ev) (wa_addr wa) spa (ve_before ev @ [wa_pmksa wa] @ ve_after ev) pmkids of
            None \<Rightarrow> None
          | Some None \<Rightarrow> Some (wa, sm\<lparr>sm_pmksa := None\<rparr>)
          | Some (Some (x, pmkid)) \<Rightarrow>
              (case pmksa_cache_add_okc (ve_expiry ev) (ve_alloc ev) (ve_mem ev) x (wa_addr wa) pmkid (wa_pmksa wa) of
                 (None, c) \<Rightarrow> Some (wa\<lparr>wa_pmksa := c\<rparr>, sm\<lparr>sm_pmksa := None\<rparr>)
               | (Some e, c) \<Rightarrow> Some (use e pmkid (wa\<lparr>wa_pmksa := c\<rparr>) sm)))"

definition keep_element :: "bool \<Rightarrow> byte list \<Rightarrow> wpa_sm \<Rightarrow> wpa_validate_result \<times> wpa_sm" where
  "keep_element mem ie sm =
     (let reuse = (case sm_wpa_ie sm of None \<Rightarrow> False | Some old \<Rightarrow> \<not> length old < length ie) in
      if \<not> reuse \<and> \<not> mem then (WPA_ALLOC_FAIL, sm\<lparr>sm_wpa_ie := None\<rparr>)
      else (WPA_IE_OK, sm\<lparr>sm_wpa_ie := Some ie\<rparr>))"

definition wpa_validate_wpa_ie :: "validate_env \<Rightarrow> byte list \<Rightarrow> wpa_authenticator \<Rightarrow> wpa_sm
    \<Rightarrow> (wpa_validate_result \<times> wpa_authenticator \<times> wpa_sm) option" where
  \<comment> \<open>for an authenticator and a state machine that exist; the empty list is also the null pointer\<close>
  "wpa_validate_wpa_ie ev ie wa sm =
     (if length ie < 1 then Some (WPA_INVALID_IE, wa, sm)
      else let rsn = (ie ! 0 = WLAN_EID_RSN) in
      if wac_wpa (wa_conf wa) AND (if rsn then WPA_PROTO_RSN else WPA_PROTO_WPA) = 0
      then Some (WPA_INVALID_PROTO, wa, sm)
      else let (res, data) = (if rsn then wpa_parse_wpa_ie_rsn ie else wpa_parse_wpa_ie_wpa ie);
               wa = note_selected rsn data wa in
      if res \<noteq> 0 then Some (WPA_INVALID_IE, wa, sm)
      else let (result, sm) = choose_suites (wa_conf wa) rsn data sm in
      if result \<noteq> WPA_IE_OK then Some (result, wa, sm)
      else case search_pmksa ev data wa sm of
        None \<Rightarrow> None
      | Some (wa, sm) \<Rightarrow>
          let (result, sm) = keep_element (ve_ie_mem ev) ie sm in Some (result, wa, sm))"

definition wpa_auth_uses_mfp :: "wpa_sm option \<Rightarrow> bool" where
  "wpa_auth_uses_mfp sm = (case sm of None \<Rightarrow> False | Some sm \<Rightarrow> sm_mgmt_frame_prot sm)"

section \<open>Key data\<close>

text \<open>
  \<open>struct wpa_eapol_ie_parse\<close>; a pointer with a length is the list of its octets.
\<close>

record kde_data =
  kde_wpa_ie :: "byte list option"
  kde_rsn_ie :: "byte list option"
  kde_pmkid :: "byte list option"
  kde_gtk :: "byte list option"
  kde_mac_addr :: "byte list option"
  kde_smk :: "byte list option"
  kde_nonce :: "byte list option"
  kde_lifetime :: "byte list option"
  kde_error :: "byte list option"
  kde_igtk :: "byte list option"
  kde_osen :: "byte list option"

definition no_kde :: kde_data where
  "no_kde = \<lparr>kde_wpa_ie = None, kde_rsn_ie = None, kde_pmkid = None, kde_gtk = None, kde_mac_addr = None,
     kde_smk = None, kde_nonce = None, kde_lifetime = None, kde_error = None, kde_igtk = None, kde_osen = None\<rparr>"

abbreviation (input) "RSN_KEY_DATA_GROUPKEY \<equiv> (0x000FAC01 :: u32)"
abbreviation (input) "RSN_KEY_DATA_MAC_ADDR \<equiv> (0x000FAC03 :: u32)"
abbreviation (input) "RSN_KEY_DATA_PMKID \<equiv> (0x000FAC04 :: u32)"
abbreviation (input) "RSN_KEY_DATA_SMK \<equiv> (0x000FAC05 :: u32)"
abbreviation (input) "RSN_KEY_DATA_NONCE \<equiv> (0x000FAC06 :: u32)"
abbreviation (input) "RSN_KEY_DATA_LIFETIME \<equiv> (0x000FAC07 :: u32)"
abbreviation (input) "RSN_KEY_DATA_ERROR \<equiv> (0x000FAC08 :: u32)"
abbreviation (input) "RSN_KEY_DATA_IGTK \<equiv> (0x000FAC09 :: u32)"
abbreviation (input) "OSEN_IE_VENDOR_TYPE \<equiv> (0x506F9A12 :: u32)"

text \<open>
  A vendor element at the start of \<open>pos\<close>, which reaches to the end of the key data; the
  caller has checked that the element is complete. The status 1 is the end mark.
\<close>

definition wpa_parse_generic :: "byte list \<Rightarrow> kde_data \<Rightarrow> int \<times> kde_data" where
  "wpa_parse_generic pos ie =
     (let len = unat (pos ! 1); sel = get_be32 pos 2; body = take (len - 4) (drop 6 pos) in
      if len = 0 then (1, ie)
      else if len \<ge> 6 \<and> sel = WPA_OUI_TYPE \<and> pos ! 6 = 1 \<and> pos ! 7 = 0
      then (0, ie\<lparr>kde_wpa_ie := Some (take (len + 2) pos)\<rparr>)
      else if len \<ge> 4 \<and> sel = OSEN_IE_VENDOR_TYPE then (0, ie\<lparr>kde_osen := Some (take (len + 2) pos)\<rparr>)
      else if 1 + 4 < length pos \<and> len \<ge> 4 + PMKID_LEN \<and> sel = RSN_KEY_DATA_PMKID
      then (0, ie\<lparr>kde_pmkid := Some (take PMKID_LEN body)\<rparr>)
      else if len > 4 + 2 \<and> sel = RSN_KEY_DATA_GROUPKEY then (0, ie\<lparr>kde_gtk := Some body\<rparr>)
      else if len > 4 + 2 \<and> sel = RSN_KEY_DATA_MAC_ADDR then (0, ie\<lparr>kde_mac_addr := Some body\<rparr>)
      else if len > 4 + 2 \<and> sel = RSN_KEY_DATA_SMK then (0, ie\<lparr>kde_smk := Some body\<rparr>)
      else if len > 4 + 2 \<and> sel = RSN_KEY_DATA_NONCE then (0, ie\<lparr>kde_nonce := Some body\<rparr>)
      else if len > 4 + 2 \<and> sel = RSN_KEY_DATA_LIFETIME then (0, ie\<lparr>kde_lifetime := Some body\<rparr>)
      else if len > 4 + 2 \<and> sel = RSN_KEY_DATA_ERROR then (0, ie\<lparr>kde_error := Some body\<rparr>)
      else if len > 4 + 2 \<and> sel = RSN_KEY_DATA_IGTK then (0, ie\<lparr>kde_igtk := Some body\<rparr>)
      else (0, ie))"

function parse_kde_loop :: "byte list \<Rightarrow> kde_data \<Rightarrow> int \<times> kde_data" where
  "parse_kde_loop pos ie =
     (if \<not> 1 < length pos then (0, ie)
      else let len = unat (pos ! 1); next = drop (2 + len) pos in
      if pos ! 0 = 0xDD \<and> pos ! 1 = 0 then (0, ie)
      else if 2 + len > length pos then (-1, ie)
      else if pos ! 0 = WLAN_EID_RSN
      then parse_kde_loop next (ie\<lparr>kde_rsn_ie := Some (take (len + 2) pos)\<rparr>)
      else if pos ! 0 = WLAN_EID_VENDOR_SPECIFIC
      then (case wpa_parse_generic pos ie of
              (ret, ie) \<Rightarrow> if ret < 0 then (ret, ie) else if ret > 0 then (0, ie) else parse_kde_loop next ie)
      else parse_kde_loop next ie)"
  by pat_completeness auto
termination
  by (relation "measure (\<lambda>(pos, ie). length pos)") (auto simp: Let_def)

declare parse_kde_loop.simps [simp del]

definition wpa_parse_kde_ies :: "byte list \<Rightarrow> int \<times> kde_data" where
  "wpa_parse_kde_ies buf = parse_kde_loop buf no_kde"

section \<open>What an accepted element is\<close>

definition chosen_ok :: "wpa_auth_config \<Rightarrow> wpa_sm \<Rightarrow> bool" where
  "chosen_ok conf sm \<longleftrightarrow>
     sm_wpa sm \<in> {1, 2}
     \<and> wac_wpa conf AND (if sm_wpa sm = 2 then WPA_PROTO_RSN else WPA_PROTO_WPA) \<noteq> 0
     \<and> wpa_cipher_valid_pairwise (sm_pairwise sm)
     \<and> (if sm_wpa sm = 2 then wac_rsn_pairwise conf else wac_wpa_pairwise conf) AND sm_pairwise sm \<noteq> 0
     \<and> sm_wpa_key_mgmt sm \<in> {WPA_KEY_MGMT_IEEE8021X, WPA_KEY_MGMT_PSK, WPA_KEY_MGMT_IEEE8021X_SHA256, WPA_KEY_MGMT_PSK_SHA256}
     \<and> wac_key_mgmt conf AND sm_wpa_key_mgmt sm \<noteq> 0
     \<and> (wac_ieee80211w conf = 2 \<longrightarrow> sm_mgmt_frame_prot sm \<and> sm_pairwise sm \<noteq> WPA_CIPHER_TKIP)
     \<and> (wac_ieee80211w conf = 0 \<longrightarrow> \<not> sm_mgmt_frame_prot sm)"

lemma and_part: "x AND y AND b \<noteq> 0 \<Longrightarrow> y AND b \<noteq> (0 :: u32)"
  by (metis bit.conj_zero_right and.assoc)

lemma pick_part:
  "wpa_pick_pairwise_cipher ciphers False = Some p \<Longrightarrow> wpa_cipher_valid_pairwise p \<and> ciphers AND p \<noteq> 0"
  by (simp add: wpa_pick_pairwise_cipher_def wpa_cipher_valid_pairwise_def split: if_splits)

text \<open>The key management suites a configuration file can name in the shipped build.\<close>

definition known_akms :: "wpa_auth_config \<Rightarrow> bool" where
  "known_akms conf \<longleftrightarrow> wac_key_mgmt conf AND NOT 0x183 = 0"

lemma masked: "k AND NOT m = 0 \<Longrightarrow> x AND k = x AND k AND m" for k m x :: u32
proof -
  assume "k AND NOT m = 0"
  then have "k AND m = k" by (metis bit.conj_disj_distrib bit.disj_cancel_right bit.conj_one_right bit.disj_zero_right)
  then show "x AND k = x AND k AND m" by (simp add: and.assoc)
qed

lemma choose_akm_part:
  assumes "known_akms conf" "k AND wac_key_mgmt conf \<noteq> 0"
  shows "choose_key_mgmt (k AND wac_key_mgmt conf)
      \<in> {WPA_KEY_MGMT_IEEE8021X, WPA_KEY_MGMT_PSK, WPA_KEY_MGMT_IEEE8021X_SHA256, WPA_KEY_MGMT_PSK_SHA256}
    \<and> k AND wac_key_mgmt conf AND choose_key_mgmt (k AND wac_key_mgmt conf) \<noteq> 0"
proof -
  let ?m = "k AND wac_key_mgmt conf"
  have "?m = k AND wac_key_mgmt conf AND 0x183" by (rule masked [OF assms(1) [unfolded known_akms_def]])
  then have "?m = ?m AND 0x183" unfolding and.assoc .
  also have "\<dots> = (?m AND 0x80) OR (?m AND 0x100) OR (?m AND 1) OR (?m AND 2)"
    by (simp flip: bit.conj_disj_distrib)
  finally have "?m AND 0x80 \<noteq> 0 \<or> ?m AND 0x100 \<noteq> 0 \<or> ?m AND 1 \<noteq> 0 \<or> ?m AND 2 \<noteq> 0"
    using assms(2) by fastforce
  then show ?thesis by (auto simp: choose_key_mgmt_def and.assoc)
qed

lemma choose_suites_ok:
  assumes "choose_suites conf rsn data sm = (WPA_IE_OK, sm')" "known_akms conf"
    and "wac_wpa conf AND (if rsn then WPA_PROTO_RSN else WPA_PROTO_WPA) \<noteq> 0"
  shows "chosen_ok conf sm'"
proof -
  let ?k = "ied_key_mgmt data AND wac_key_mgmt conf"
  let ?c = "ied_pairwise_cipher data AND (if rsn then wac_rsn_pairwise conf else wac_wpa_pairwise conf)"
  from assms(1) obtain p where k: "?k \<noteq> 0" and c: "?c \<noteq> 0" and v: "mfp_violation conf data ?c = WPA_IE_OK"
    and p: "wpa_pick_pairwise_cipher ?c False = Some p"
    and sm: "sm' = sm\<lparr>sm_wpa_key_mgmt := choose_key_mgmt ?k,
        sm_mgmt_frame_prot := (wac_ieee80211w conf \<noteq> 0 \<and> ied_capabilities data AND WPA_CAPABILITY_MFPC \<noteq> 0),
        sm_pairwise := p, sm_wpa := (if rsn then 2 else 1)\<rparr>"
    unfolding choose_suites_def Let_def by (fastforce split: if_split_asm option.split_asm)
  have pp: "wpa_cipher_valid_pairwise p" "?c AND p \<noteq> 0" using pick_part [OF p] by auto
  then have "(if rsn then wac_rsn_pairwise conf else wac_wpa_pairwise conf) AND p \<noteq> 0"
    using and_part [of "ied_pairwise_cipher data"] by (auto simp: and.assoc)
  moreover have "wac_key_mgmt conf AND choose_key_mgmt ?k \<noteq> 0" "choose_key_mgmt ?k
      \<in> {WPA_KEY_MGMT_IEEE8021X, WPA_KEY_MGMT_PSK, WPA_KEY_MGMT_IEEE8021X_SHA256, WPA_KEY_MGMT_PSK_SHA256}"
    using choose_akm_part [OF assms(2) k] by auto
  moreover have "wac_ieee80211w conf = 2 \<longrightarrow> ied_capabilities data AND WPA_CAPABILITY_MFPC \<noteq> 0 \<and> p \<noteq> WPA_CIPHER_TKIP"
    using v pp(2) unfolding mfp_violation_def by (auto split: if_splits)
  ultimately show ?thesis using assms(3) pp(1) unfolding chosen_ok_def sm by auto
qed

lemma chosen_ok_more [simp]:
  "chosen_ok conf (sm\<lparr>sm_pmksa := e\<rparr>) = chosen_ok conf sm" "chosen_ok conf (sm\<lparr>sm_wpa_ie := ie\<rparr>) = chosen_ok conf sm"
  by (simp_all add: chosen_ok_def)

lemma search_keeps:
  "search_pmksa ev data wa sm = Some (wa', sm') \<Longrightarrow> (\<exists>e. sm' = sm\<lparr>sm_pmksa := e\<rparr>) \<and> wa_conf wa' = wa_conf wa"
  by (auto simp: search_pmksa_def Let_def split: option.split_asm prod.split_asm if_split_asm)

lemma note_selected_conf [simp]: "wa_conf (note_selected rsn data wa) = wa_conf wa" "wa_pmksa (note_selected rsn data wa) = wa_pmksa wa"
  "wa_addr (note_selected rsn data wa) = wa_addr wa"
  by (simp_all add: note_selected_def)

text \<open>C9: when the authenticator accepts the element of an association request, the version,
  the pairwise cipher and the key management suite it records for the station are ones of
  its configuration, and where protected management frames are required the station has
  them, and not with TKIP.\<close>

theorem accepted_suites_configured:
  assumes "wpa_validate_wpa_ie ev ie wa sm = Some (WPA_IE_OK, wa', sm')" and "known_akms (wa_conf wa)"
  shows "chosen_ok (wa_conf wa) sm'"
proof -
  let ?rsn = "ie ! 0 = WLAN_EID_RSN"
  obtain res data where parsed: "(if ?rsn then wpa_parse_wpa_ie_rsn ie else wpa_parse_wpa_ie_wpa ie) = (res, data)" by fastforce
  obtain r sm1 where chosen: "choose_suites (wa_conf wa) ?rsn data sm = (r, sm1)" by fastforce
  from assms(1) have proto: "wac_wpa (wa_conf wa) AND (if ?rsn then WPA_PROTO_RSN else WPA_PROTO_WPA) \<noteq> 0"
    and r: "r = WPA_IE_OK"
    and rest: "\<exists>wa2 sm2. search_pmksa ev data (note_selected ?rsn data wa) sm1 = Some (wa2, sm2)
      \<and> keep_element (ve_ie_mem ev) ie sm2 = (WPA_IE_OK, sm')"
    unfolding wpa_validate_wpa_ie_def Let_def parsed prod.case note_selected_conf chosen
    by (auto split: if_split_asm option.split_asm prod.split_asm)
  from rest obtain wa2 sm2 where "search_pmksa ev data (note_selected ?rsn data wa) sm1 = Some (wa2, sm2)"
    and keep: "keep_element (ve_ie_mem ev) ie sm2 = (WPA_IE_OK, sm')" by blast
  then obtain e where "sm2 = sm1\<lparr>sm_pmksa := e\<rparr>" using search_keeps by blast
  moreover have "sm' = sm2\<lparr>sm_wpa_ie := Some ie\<rparr>" using keep by (auto simp: keep_element_def Let_def split: if_split_asm)
  ultimately show ?thesis using choose_suites_ok [OF chosen [unfolded r] assms(2) proto] by simp
qed

section \<open>The element of the access point itself\<close>

lemma put_suites_some: "put_suites table k \<noteq> [] \<Longrightarrow> k AND mask_of table \<noteq> 0"
proof (induction table)
  case (Cons e table)
  then show ?case
    by (cases e) (auto simp: put_suites_def mask_of_def bit.conj_disj_distrib or_eq_0_iff split: if_splits)
qed (simp add: put_suites_def)

lemma pick_some: "c AND 0x358 \<noteq> 0 \<Longrightarrow> wpa_pick_pairwise_cipher c False \<noteq> None"
proof -
  have "c AND 0x358 = (c AND 0x200) OR (c AND 0x100) OR (c AND 0x10) OR (c AND 0x40) OR (c AND 8)"
    by (simp flip: bit.conj_disj_distrib)
  moreover assume "c AND 0x358 \<noteq> 0"
  ultimately show ?thesis by (auto simp: wpa_pick_pairwise_cipher_def)
qed

lemma capab_mfpc: "wac_ieee80211w conf \<noteq> 0 \<Longrightarrow> rsn_capab conf AND WPA_CAPABILITY_MFPC \<noteq> 0"
proof -
  assume "wac_ieee80211w conf \<noteq> 0"
  then have "bit (rsn_capab conf AND WPA_CAPABILITY_MFPC) 7"
    by (simp add: rsn_capab_def bit_simps)
  then show ?thesis by auto
qed

text \<open>A station that sends the element of the access point, with or without a PMKID.\<close>

definition own_request :: "wpa_authenticator \<Rightarrow> nat \<Rightarrow> byte list option \<Rightarrow> byte list \<Rightarrow> bool" where
  "own_request wa len pmkid ie \<longleftrightarrow>
     (let conf = wa_conf wa in
      wpa_write_rsn_ie conf len pmkid = Inr (Some ie)
      \<and> wac_wpa conf AND WPA_PROTO_RSN \<noteq> 0 \<and> wpa_cipher_valid_group (wac_group conf)
      \<and> wac_rsn_pairwise conf AND 0x358 \<noteq> 0
      \<and> (wac_ieee80211w conf = 2 \<longrightarrow> wac_rsn_pairwise conf AND WPA_CIPHER_TKIP = 0)
      \<and> (case pmkid of None \<Rightarrow> True | Some p \<Rightarrow> length p = PMKID_LEN))"

lemma own_request_chosen:
  assumes "own_request wa len pmkid ie"
  obtains data sm1 where "ie \<noteq> []" "ie ! 0 = WLAN_EID_RSN" "wpa_parse_wpa_ie_rsn ie = (0, data)"
    "choose_suites (wa_conf wa) True data sm = (WPA_IE_OK, sm1)" "sm_addr sm1 = sm_addr sm"
    "pmkids_of data = (case pmkid of None \<Rightarrow> [] | Some p \<Rightarrow> [p])"
proof -
  let ?conf = "wa_conf wa"
  from assms have w: "wpa_write_rsn_ie ?conf len pmkid = Inr (Some ie)" "wpa_cipher_valid_group (wac_group ?conf)"
    "wac_rsn_pairwise ?conf AND 0x358 \<noteq> 0" "wac_ieee80211w ?conf = 2 \<longrightarrow> wac_rsn_pairwise ?conf AND WPA_CIPHER_TKIP = 0"
    and l: "\<And>p. pmkid = Some p \<Longrightarrow> length p = PMKID_LEN"
    by (auto simp: own_request_def Let_def)
  obtain data where p: "wpa_parse_wpa_ie_rsn ie = (0, data)" and d: "ied_group_cipher data = wac_group ?conf"
    "ied_key_mgmt data = wac_key_mgmt ?conf AND 0x183" "ied_pairwise_cipher data = wac_rsn_pairwise ?conf AND 0x359"
    "ied_capabilities data = rsn_capab ?conf"
    "wac_ieee80211w ?conf \<noteq> 0 \<Longrightarrow> ied_mgmt_group_cipher data = wac_group_mgmt_cipher ?conf"
    "ied_num_pmkid data = (if pmkid = None then 0 else 1)"
    "pmkid \<noteq> None \<Longrightarrow> ied_pmkid data = Some (drop 2 (rsn_pmkid_field pmkid @ rsn_mgmt_field ?conf pmkid))"
    using rsn_element_parsed [OF w(1,2) l] by simp
  have ie: "ie \<noteq> []" "ie ! 0 = WLAN_EID_RSN" and ks: "rsn_akm_suites (wac_key_mgmt ?conf) \<noteq> []"
    using rsn_ie_octets [OF w(1)] by auto
  have k: "ied_key_mgmt data AND wac_key_mgmt ?conf = wac_key_mgmt ?conf AND 0x183" unfolding d(2)
    by (simp add: and.commute and.left_commute)
  have k0: "wac_key_mgmt ?conf AND 0x183 \<noteq> 0"
    using put_suites_some [OF ks [unfolded rsn_akm_suites_def]] by (simp only: rsn_masks) simp
  have c: "ied_pairwise_cipher data AND wac_rsn_pairwise ?conf = wac_rsn_pairwise ?conf AND 0x359" unfolding d(3)
    by (simp add: and.commute and.left_commute)
  have "(wac_rsn_pairwise ?conf AND 0x359) AND 0x358 = wac_rsn_pairwise ?conf AND 0x358" by (simp add: and.assoc)
  then have pick: "wpa_pick_pairwise_cipher (wac_rsn_pairwise ?conf AND 0x359) False \<noteq> None"
    and c0: "wac_rsn_pairwise ?conf AND 0x359 \<noteq> 0" using w(3) pick_some by (simp, fastforce)
  have "(wac_rsn_pairwise ?conf AND 0x359) AND WPA_CIPHER_TKIP = wac_rsn_pairwise ?conf AND WPA_CIPHER_TKIP"
    by (simp add: and.assoc)
  then have "mfp_violation ?conf data (wac_rsn_pairwise ?conf AND 0x359) = WPA_IE_OK"
    using w(4) capab_mfpc [of ?conf] d(4,5) by (simp add: mfp_violation_def)
  then have "\<exists>sm1. choose_suites ?conf True data sm = (WPA_IE_OK, sm1) \<and> sm_addr sm1 = sm_addr sm"
    using pick c0 k0 unfolding choose_suites_def Let_def d(1) k if_True c by auto
  moreover have "pmkids_of data = (case pmkid of None \<Rightarrow> [] | Some p \<Rightarrow> [p])"
    using l d(6,7) by (auto simp: pmkids_of_def rsn_pmkid_field_def split: option.split)
  ultimately show ?thesis using that ie p by blast
qed

lemma own_request_accepted:
  assumes "own_request wa len None ie" and "ve_ie_mem ev"
  shows "\<exists>wa' sm'. wpa_validate_wpa_ie ev ie wa sm = Some (WPA_IE_OK, wa', sm')"
proof -
  have proto: "wac_wpa (wa_conf wa) AND WPA_PROTO_RSN \<noteq> 0" using assms(1) by (simp add: own_request_def Let_def)
  obtain data sm1 where d: "ie \<noteq> []" "ie ! 0 = WLAN_EID_RSN" "wpa_parse_wpa_ie_rsn ie = (0, data)"
    "choose_suites (wa_conf wa) True data sm = (WPA_IE_OK, sm1)" "pmkids_of data = []"
    by (rule own_request_chosen [OF assms(1), of sm]) (auto intro: that)
  have "search_pmksa ev data (note_selected True data wa) sm1
      = Some (note_selected True data wa, sm1\<lparr>sm_pmksa := None\<rparr>)"
    by (simp add: search_pmksa_def d(5))
  then show ?thesis using d proto assms(2) by (simp add: wpa_validate_wpa_ie_def keep_element_def)
qed

text \<open>C29: a station that sends the RSN element the access point advertises is accepted.\<close>

theorem own_element_accepted:
  assumes "own_request wa len None ie" and "ve_ie_mem ev"
  shows "\<exists>wa' sm'. wpa_validate_wpa_ie ev ie wa sm = Some (WPA_IE_OK, wa', sm')"
  using own_request_accepted [OF assms] .

text \<open>C17: where opportunistic key caching is configured, a station that sends this element with a
  PMKID the cache does not hold for it makes the call loop for ever, when the first entry of
  the cache belongs to another station.\<close>

theorem okc_association_hangs:
  assumes "own_request wa len (Some p) ie" and "wac_okc (wa_conf wa)" and "ve_before ev = []"
    and "pmksa_cache_auth_get (Some (sm_addr sm)) (Some p) (wa_pmksa wa) = None"
    and "pc_list (wa_pmksa wa) = e # es" and "pe_spa (entry_at (wa_pmksa wa) e) \<noteq> sm_addr sm"
  shows "wpa_validate_wpa_ie ev ie wa sm = None"
proof -
  have proto: "wac_wpa (wa_conf wa) AND WPA_PROTO_RSN \<noteq> 0" using assms(1) by (simp add: own_request_def Let_def)
  obtain data sm1 where d: "ie \<noteq> []" "ie ! 0 = WLAN_EID_RSN" "wpa_parse_wpa_ie_rsn ie = (0, data)"
    "choose_suites (wa_conf wa) True data sm = (WPA_IE_OK, sm1)" "sm_addr sm1 = sm_addr sm" "pmkids_of data = [p]"
    by (rule own_request_chosen [OF assms(1), of sm]) (auto intro: that)
  have "okc_loop (ve_hmac ev) (wa_pmksa wa) (wa_addr wa) (sm_addr sm) p (pc_list (wa_pmksa wa)) = None"
    unfolding okc_result using assms(5,6) by (simp add: okc_skips_def Let_def)
  then have "search_pmksa ev data (note_selected True data wa) sm1 = None"
    using assms(2,3,4) by (simp add: search_pmksa_def d pmksa_cache_get_okc_def)
  then show ?thesis using d proto by (simp add: wpa_validate_wpa_ie_def)
qed

section \<open>Concrete requests\<close>

definition ex_wpa_conf :: wpa_auth_config where
  "ex_wpa_conf = \<lparr>wac_wpa = 2, wac_key_mgmt = 2, wac_wpa_pairwise = 0, wac_group = WPA_CIPHER_CCMP,
    wac_rsn_pairwise = WPA_CIPHER_CCMP, wac_rsn_preauth = False, wac_peerkey = False, wac_wmm_enabled = True,
    wac_disable_pmksa_caching = False, wac_okc = True, wac_ieee80211w = 0, wac_group_mgmt_cipher = 0\<rparr>"

definition ex_wa :: wpa_authenticator where
  "ex_wa = \<lparr>wa_conf = ex_wpa_conf, wa_addr = replicate 6 1, wa_pmksa = ex_add 3 5 pmksa_cache_auth_init,
    wa_akm_selected = 0, wa_pairwise_selected = 0, wa_group_selected = 0, wa_pmkid_used = []\<rparr>"

definition ex_sm :: wpa_sm where
  "ex_sm = \<lparr>sm_addr = replicate 6 7, sm_wpa = 0, sm_pairwise = 0, sm_wpa_key_mgmt = 0, sm_mgmt_frame_prot = False,
    sm_pmksa = None, sm_wpa_ie = None\<rparr>"

definition ex_validate_env :: validate_env where
  "ex_validate_env = \<lparr>ve_hmac = ex_hmac, ve_expiry = ex_expiry, ve_alloc = None, ve_mem = True, ve_ie_mem = True,
    ve_before = [], ve_after = []\<rparr>"

lemma ex_request:
  assumes "pmkid = None \<or> pmkid = Some (replicate 16 9)"
  obtains ie where "own_request ex_wa 128 pmkid ie"
proof -
  have "\<exists>ie. wpa_write_rsn_ie ex_wpa_conf 128 pmkid = Inr (Some ie)"
    using assms by (auto simp: wpa_write_rsn_ie_def put_at_def put_list_def wpa_cipher_to_suite_def rsn_cipher_put_suites_def
        put_suites_def rsn_akm_suites_def rsn_put_pmkid_def rsn_put_mgmt_group_def ex_wpa_conf_def)
  then show ?thesis using assms that
    by (auto simp: own_request_def ex_wa_def ex_wpa_conf_def wpa_cipher_valid_group_def wpa_cipher_valid_pairwise_def)
qed

lemma own_element_accepted_witness:
  "\<exists>ie wa' sm'. own_request ex_wa 128 None ie
     \<and> wpa_validate_wpa_ie ex_validate_env ie ex_wa ex_sm = Some (WPA_IE_OK, wa', sm')"
proof -
  obtain ie where "own_request ex_wa 128 None ie" using ex_request by blast
  moreover from own_element_accepted [OF this, of ex_validate_env] show ?thesis
    using calculation by (auto simp: ex_validate_env_def)
qed

lemma accepted_suites_configured_witness: "\<exists>sm'. chosen_ok ex_wpa_conf sm'"
proof -
  obtain ie where "own_request ex_wa 128 None ie" using ex_request by blast
  from own_request_accepted [OF this, of ex_validate_env ex_sm] obtain wa' sm'
    where "wpa_validate_wpa_ie ex_validate_env ie ex_wa ex_sm = Some (WPA_IE_OK, wa', sm')"
    by (auto simp: ex_validate_env_def)
  from accepted_suites_configured [OF this] show ?thesis
    by (auto simp: ex_wa_def ex_wpa_conf_def known_akms_def)
qed

lemma ex_cache: "pc_list (ex_add 3 5 pmksa_cache_auth_init) = [3]"
  "pe_spa (entry_at (ex_add 3 5 pmksa_cache_auth_init) 3) = replicate 6 5"
  by (simp_all add: ex_add_def auth_add_steps make_room_def pmksa_cache_auth_get_def pmksa_cache_auth_init_def
      pmksa_cache_max_entries_def pmksa_cache_link_entry_def pmksa_cache_set_expiration_def Let_def entry_at_def
      new_entry_fields fits_int_def dot11RSNAConfigPMKLifetime_def)

lemma okc_association_hangs_witness:
  "\<exists>ie. own_request ex_wa 128 (Some (replicate 16 9)) ie \<and> wpa_validate_wpa_ie ex_validate_env ie ex_wa ex_sm = None"
proof -
  obtain ie where ie: "own_request ex_wa 128 (Some (replicate 16 9)) ie" using ex_request by blast
  have "pmksa_cache_auth_get (Some (replicate 6 7)) (Some (replicate 16 9)) (ex_add 3 5 pmksa_cache_auth_init) = None"
  proof (cases "pmksa_cache_auth_get (Some (replicate 6 7)) (Some (replicate 16 9)) (ex_add 3 5 pmksa_cache_auth_init)")
    case (Some e)
    have "cache_state ex_hmac False 0 (ex_add 3 5 pmksa_cache_auth_init)"
      by (rule ex_add_state [OF cache_state.init]) (simp add: pmksa_cache_auth_init_def)
    then have "e \<in> set [3]" using get_list Some cache_state_ok ex_cache(1) by metis
    moreover have "pe_spa (entry_at (ex_add 3 5 pmksa_cache_auth_init) e) = replicate 6 7"
      using Some unfolding pmksa_cache_auth_get_def find_Some_iff by (auto simp: pmksa_matches_def)
    ultimately show ?thesis using ex_cache(2) by simp
  qed
  then have "wpa_validate_wpa_ie ex_validate_env ie ex_wa ex_sm = None"
    by (intro okc_association_hangs [OF ie, of _ _ 3 "[]"])
      (simp_all add: ex_wa_def ex_wpa_conf_def ex_sm_def ex_validate_env_def ex_cache)
  with ie show ?thesis by blast
qed

section \<open>Key data\<close>

lemma add_kde_octets:
  assumes "length d < 252"
  obtains n where "wpa_add_kde kde d None = WLAN_EID_VENDOR_SPECIFIC # n # put_be32 kde @ d" "unat n = 4 + length d" "n \<noteq> 0"
proof
  let ?n = "word_of_nat (4 + length d) :: byte"
  show "wpa_add_kde kde d None = WLAN_EID_VENDOR_SPECIFIC # ?n # put_be32 kde @ d" by (simp add: wpa_add_kde_def Let_def)
  show u: "unat ?n = 4 + length d" using assms by (simp only: unsigned_of_nat) (simp add: take_bit_nat_eq_self)
  then show "?n \<noteq> 0" by (metis add_is_0 unsigned_0 zero_neq_numeral)
qed

lemma get_be32_2: "get_be32 (a # b # put_be32 v @ ys) 2 = v"
  using get_be32_put [of "[a, b]" v ys] by (simp add: numeral_2_eq_2)

lemma kde_step:
  assumes "length d < 252" "2 < length d" "kde = RSN_KEY_DATA_GROUPKEY \<or> kde = RSN_KEY_DATA_IGTK"
  shows "parse_kde_loop (wpa_add_kde kde d None @ rest) ie
    = parse_kde_loop rest (if kde = RSN_KEY_DATA_GROUPKEY then ie\<lparr>kde_gtk := Some d\<rparr> else ie\<lparr>kde_igtk := Some d\<rparr>)"
proof -
  obtain n where n: "wpa_add_kde kde d None = WLAN_EID_VENDOR_SPECIFIC # n # put_be32 kde @ d"
    "unat n = 4 + length d" "n \<noteq> 0"
    by (rule add_kde_octets [OF assms(1)])
  let ?pos = "WLAN_EID_VENDOR_SPECIFIC # n # put_be32 kde @ d @ rest"
  have d6: "drop 6 ?pos = d @ rest" "drop (2 + (4 + length d)) ?pos = rest"
    by (simp_all add: put_be32_def eval_nat_numeral)
  have "wpa_parse_generic ?pos ie
      = (0, if kde = RSN_KEY_DATA_GROUPKEY then ie\<lparr>kde_gtk := Some d\<rparr> else ie\<lparr>kde_igtk := Some d\<rparr>)"
    using assms(2,3) unfolding wpa_parse_generic_def Let_def get_be32_2 d6 nth_Cons_0 nth_Cons_Suc One_nat_def n(2)
    by (elim disjE) simp_all
  then show ?thesis
    using n(2,3) d6(2) unfolding n(1) append_Cons append_assoc
    by (subst parse_kde_loop.simps) (simp add: Let_def)
qed

lemma kde_rsn:
  assumes "length body < 256"
  shows "parse_kde_loop (WLAN_EID_RSN # word_of_nat (length body) # body @ rest) ie
    = parse_kde_loop rest (ie\<lparr>kde_rsn_ie := Some (WLAN_EID_RSN # word_of_nat (length body) # body)\<rparr>)"
proof -
  have "unat (word_of_nat (length body) :: byte) = length body" using assms by (simp add: unsigned_of_nat take_bit_nat_eq_self)
  then show ?thesis by (subst parse_kde_loop.simps) (simp add: Let_def)
qed

lemma kde_padding: "parse_kde_loop ([] :: byte list) ie = (0, ie)" "parse_kde_loop (0xDD # replicate m 0) ie = (0, ie)"
  by (subst parse_kde_loop.simps, simp) (cases m; subst parse_kde_loop.simps; simp add: Let_def)

text \<open>The key data of the third message of the handshake, an RSN element, the group key and the
  management group key, with the padding that key wrapping needs, is parsed into these
  parts.\<close>

theorem key_data_roundtrip:
  assumes "length body < 256" and "2 < length gtk" "length gtk < 252" and "2 < length igtk" "length igtk < 252"
    and "padding = [] \<or> padding = 0xDD # replicate m 0"
  shows "wpa_parse_kde_ies ((WLAN_EID_RSN # word_of_nat (length body) # body)
      @ wpa_add_kde RSN_KEY_DATA_GROUPKEY gtk None @ wpa_add_kde RSN_KEY_DATA_IGTK igtk None @ padding)
    = (0, no_kde\<lparr>kde_rsn_ie := Some (WLAN_EID_RSN # word_of_nat (length body) # body),
                 kde_gtk := Some gtk, kde_igtk := Some igtk\<rparr>)"
proof -
  have "parse_kde_loop padding ie = (0, ie)" for ie using assms(6) kde_padding by auto
  then show ?thesis
    unfolding wpa_parse_kde_ies_def append_Cons
    by (simp add: kde_rsn [OF assms(1)] kde_step assms del: append_assoc)
qed

lemma key_data_roundtrip_witness:
  "wpa_parse_kde_ies ((WLAN_EID_RSN # word_of_nat (length [1, 0 :: byte]) # [1, 0])
      @ wpa_add_kde RSN_KEY_DATA_GROUPKEY (replicate 18 7) None
      @ wpa_add_kde RSN_KEY_DATA_IGTK (replicate 24 8) None @ [0xDD, 0])
   = (0, no_kde\<lparr>kde_rsn_ie := Some (WLAN_EID_RSN # word_of_nat (length [1, 0 :: byte]) # [1, 0]),
                kde_gtk := Some (replicate 18 7), kde_igtk := Some (replicate 24 8)\<rparr>)"
  by (rule key_data_roundtrip [where m = 1]) simp_all

end
