(* ===== verification/Spec2Isabelle.thy ===== *)
theory Spec2Isabelle
  imports Hex_Text Wpabuf Bitfield Base64 Beacon Ctrl_Iface Nlscan Radiotap Inject Eloop Mlme_Props Wpa_Validate
begin

text \<open>
  LoWS: location-based WiFi services. A verification development for the access point and the
  receiver of the system.

  \<^bold>\<open>The program.\<close> An access point carries short messages (advertisements, locations, keys of a code
  book) in a vendor-specific element of its beacons and probe responses; a receiver reads them from
  the scan results without ever associating. The repository holds:

  \<^item> the patched hostapd 2.2 (\<open>src/OpenWRT/hostapd-add-ie/hostapd-2.2\<close>): the control interface gets two
    commands, \<open>ADD_IE\<close>, which replaces the element with the message and sends a new beacon to the
    driver, and \<open>GET_BEACON_SIZE\<close>, which tells how much room there is;
  \<^item> the patched mac80211 module (\<open>src/OpenWRT/mac80211-radiotap-rates-set\<close>): a frame injected through a
    monitor interface may choose its rate and the number of its tries in the radiotap header;
  \<^item> the receiver application, whose native scanner (\<open>jni/nlscan.c\<close>) asks the kernel for scan results
    and prints the elements as text;
  \<^item> a control unit and a code-book server (PHP) that call \<open>hostapd_cli\<close> on the access points.

  \<^bold>\<open>How the parts interact.\<close> \<open>hostapd_cli\<close> sends \<open>ADD_IE <hex>\<close> to the control socket; the event loop
  calls the receiver of the socket; the dispatcher decodes the hexadecimal text into a \<open>wpabuf\<close> and
  rebuilds the beacon from the elements of the access point; the driver gets head, tail and the extra
  elements. The scanner gets the elements back as attributes of a scan result. Beside this path
  hostapd runs an ordinary access point: stations authenticate and associate, which changes the
  station table, the access control lists, the PMKSA cache and the counters that the beacon's
  elements show.

  \<^bold>\<open>Theories and sources\<close> (paths below \<open>hostapd-2.2/src\<close> unless said otherwise).

  \<^item> Library. \<open>Prelude\<close>: machine types, faults, C strings, the unaligned-access helpers of
    \<open>utils/common.h\<close>. \<open>Interfaces\<close>: the contracts \<open>codec\<close>, \<open>append_buffer\<close>, \<open>bit_store\<close>, \<open>tlv_walker\<close>,
    each interpreted on the model of the code that provides it.
  \<^item> Utilities. \<open>Hex_Text\<close> (\<open>utils/common.c\<close>), \<open>Wpabuf\<close> (\<open>utils/wpabuf.c\<close>), \<open>Bitfield\<close> (\<open>utils/bitfield.c\<close>),
    \<open>Base64\<close> (\<open>utils/base64.c\<close>), \<open>Radiotap\<close> (\<open>utils/radiotap.c\<close>), \<open>Eloop\<close> (\<open>utils/eloop.c\<close>, the variant with
    \<open>select\<close>).
  \<^item> Frames. \<open>Ieee80211\<close> (constants of \<open>common/ieee802_11_defs.h\<close>), \<open>Elements\<close>
    (\<open>common/ieee802_11_common.c\<close>), \<open>Rsn_Ie\<close> (\<open>common/defs.h\<close>, \<open>common/wpa_common.c\<close>, the writers of
    \<open>ap/wpa_auth_ie.c\<close>).
  \<^item> Access point. \<open>Ap_State\<close> (the structures of \<open>ap/hostapd.h\<close>, \<open>ap/ap_config.h\<close>), \<open>Ap_Elements\<close> (the
    \<open>hostapd_eid_\<close> functions), \<open>Wmm\<close> (\<open>ap/wmm.c\<close>), \<open>Dfs\<close> (\<open>ap/dfs.c\<close>), \<open>Beacon\<close> (\<open>ap/beacon.c\<close>,
    \<open>ap/ap_drv_ops.c\<close>), \<open>Ctrl_Iface\<close> (\<open>hostapd/ctrl_iface.c\<close>, \<open>hostapd/hostapd_cli.c\<close>).
  \<^item> Stations. \<open>Sta_State\<close> and \<open>Sta_Info\<close> (\<open>ap/sta_info.c\<close>, \<open>ap/accounting.c\<close>, \<open>ap/ap_mlme.c\<close>), \<open>Acl\<close>
    (\<open>ap/ieee802_11_auth.c\<close>), \<open>Mlme\<close> (\<open>ap/ieee802_11.c\<close>, \<open>ap/drv_callbacks.c\<close>), \<open>Pmksa\<close>
    (\<open>ap/pmksa_cache_auth.c\<close>), \<open>Wpa_Validate\<close> (\<open>ap/wpa_auth_ie.c\<close>); the proofs about them are in
    \<open>Sta_Inv\<close>, \<open>Sta_Table\<close>, \<open>Sta_Aid\<close>, \<open>Sta_Setup\<close>, \<open>Sta_Steps\<close>, \<open>Sta_Props\<close>, \<open>Mlme_Inv\<close> and \<open>Mlme_Props\<close>.
  \<^item> mac80211. \<open>Tx_Rate\<close> (\<open>rate.c\<close>), \<open>Tx_Path\<close> (\<open>tx.c\<close>, the handlers and queues), \<open>Inject\<close> (\<open>tx.c\<close>, the
    monitor interface, with the patch of the project).
  \<^item> Receiver. \<open>Nlscan\<close> (\<open>LoWS-Receiver-Application/Source/LoW-S/jni/nlscan.c\<close>).

  \<^bold>\<open>Correspondence.\<close> A definition has the name of the C function or structure it models; a field of a
  record has the name of the member with a prefix for the structure. Fixed-width integers are words.
  A \<open>char *\<close> into a terminated string is the text up to the terminator; a pointer into a packet with
  a length is the list of the octets behind it. A function that fills a buffer gives the status it
  returns and the octets it stored. Failure of an allocation is a \<open>bool\<close> argument. What the C code
  does not define (an access outside an object, signed overflow, the use of an uninitialised member or
  of a freed station) is a value of \<open>fault\<close>; on the station table it sets the flag \<open>w_fault\<close>. A
  property that a fault does not occur is thus a statement about memory safety. Calls of the driver, of the
  kernel and of modules that are not modelled are arguments, or entries in a list of actions in the
  order the code makes them. Objects that are shared (stations, cache entries, timeouts) live on heaps of
  addresses.

  \<^bold>\<open>What the lemmas show.\<close>

  \<^item> The message gets through: what \<open>ADD_IE\<close> accepts is in the beacon unchanged, and the receiver prints
    the octets that were put in; the beacon is a sequence of complete elements exactly when the message is one. When a
    beacon does not fit its buffer is characterised exactly, and \<open>GET_BEACON_SIZE\<close> is compared with it.
  \<^item> The codecs are inverse to each other (hexadecimal, base64, SSID text, MAC addresses, RSN
    elements, cipher names, key data); the parsers accept exactly what is well-formed.
  \<^item> The rate of an injected frame is the one of the radiotap header, under the stated conditions, and
    the counter-examples where it is lost (what is stated of \<open>ieee80211_set_qos_hdr\<close>, which is not in the
    repository, is the hypothesis \<open>fills_qos_only\<close>: it changes the QoS control field of a QoS data frame and
    the flag of an acknowledgement that is not wanted); the walk over a radiotap header stays inside the header.
  \<^item> The station table: an invariant (\<open>world_ok\<close>) over the list, the hash table, the AIDs, the counters and
    the timeouts holds in every state that frames, statuses, timeouts and commands can reach; the only
    way out of it is a probe request or a WMM action on which the code for it reads behind the frame or
    overruns a buffer. The hash table refines the list, AIDs are the least that are free, silent stations are removed.
  \<^item> The PMKSA cache: list and hash chains agree in every reachable state, the first entry has its timeout
    unless the event loop did not take it, entries leave when they expire, the search is the search of the list. The search for opportunistic key caching can run
    forever; exactly when is proved.
  \<^item> The authenticator accepts an element only when every suite in it is configured, and accepts the
    element the access point itself advertises.

  \<^bold>\<open>Bounds and termination.\<close> The recursion of the loops is structural or has a measure, so the functions
  are total. Loops that depend on the world consume a list of its answers: the rounds of the event
  loop (\<open>eloop_rounds\<close>, which is meant to run for ever), the deliveries of the kernel (\<open>recv_loop\<close>), the random
  numbers of the selection of a channel (\<open>handle_dfs_loop\<close>); \<open>None\<close> says that the answers are used up
  while the loop still waits, and \<open>handle_dfs_terminates\<close> says how many are enough. The one loop that
  need not return is \<open>okc_loop\<close>, a \<open>partial_function (option)\<close>. \<open>size_t\<close> values that are lengths of
  objects in memory are natural numbers.

  \<^bold>\<open>The build.\<close> hostapd is modelled as \<open>hostapd/.config\<close> builds it: the nl80211 driver, IAPP, RSN
  pre-authentication, PeerKey, IEEE 802.11w and EAP; not IEEE 802.11n and ac, P2P, WPS, FT, SAE, WNM,
  Interworking and Hotspot 2.0, whose conditional parts are left out.

  \<^bold>\<open>Not modelled.\<close> The Java part of the receiver application and the PHP pages (user interface, SQL
  and SSH calls); the drivers of hostapd (netlink and ioctl transport); ciphers, hash functions and
  TLS, whose results are arguments; the EAP methods, the RADIUS protocol and the IEEE 802.1X
  state machines, which the open network of the system does not use and which the station model
  records as calls; the state machine of the WPA handshake; code of the supplicant and of
  features the configuration does not build; the reader of the configuration file, apart from its
  address lists; start-up and the command line. In mac80211, the parts of \<open>tx.c\<close> for fast paths to
  mesh peers and the beacons of the kernel, and the receive path, which is not in the repository.
\<close>

end
